(* ===== verification/Prelude.thy ===== *)
theory Prelude
  imports Main "HOL-Library.Word" "HOL-Library.Char_ord" "HOL-Library.List_Lexorder"
    "HOL-Library.Multiset"
begin

text \<open>
  The shared base of the development: the lemma collections, the result type of a fallible
  Go function with its sequencing combinators, and the key-ordered finite maps that stand for
  Go maps and for the key/value buckets of the database.
\<close>

named_theorems go_simps \<open>equations of the standard-library model, for symbolic evaluation\<close>
named_theorems inv_intros \<open>preservation lemmas of the component invariants\<close>

section \<open>Fallible computations\<close>

text \<open>
  A Go function that returns \<open>(T, error)\<close> is a value of \<open>'e + 'a\<close>, \<open>Inl\<close> for a non-nil error.
  \<open>bindE\<close> is the early return \<open>if err != nil { return err }\<close>, \<open>ensureE\<close> a guard that returns
  an error, and \<open>foldE\<close> a loop (or a bucket iteration) that stops at the first error.
\<close>

definition bindE :: "'e + 'a \<Rightarrow> ('a \<Rightarrow> 'e + 'b) \<Rightarrow> 'e + 'b" where
  "bindE m f = (case m of Inl e \<Rightarrow> Inl e | Inr x \<Rightarrow> f x)"

definition ensureE :: "bool \<Rightarrow> 'e \<Rightarrow> 'e + unit" where
  "ensureE b e = (if b then Inr () else Inl e)"

definition mapErr :: "('e \<Rightarrow> 'f) \<Rightarrow> 'e + 'a \<Rightarrow> 'f + 'a" where
  "mapErr g m = (case m of Inl e \<Rightarrow> Inl (g e) | Inr x \<Rightarrow> Inr x)"

fun foldE :: "('a \<Rightarrow> 's \<Rightarrow> 'e + 's) \<Rightarrow> 'a list \<Rightarrow> 's \<Rightarrow> 'e + 's" where
  "foldE f [] s = Inr s"
| "foldE f (x # xs) s = bindE (f x s) (foldE f xs)"

definition isOk :: "'e + 'a \<Rightarrow> bool" where
  "isOk m = (case m of Inl _ \<Rightarrow> False | Inr _ \<Rightarrow> True)"

lemma bindE_simps [simp]:
  "bindE (Inl e) f = Inl e"
  "bindE (Inr x) f = f x"
  by (simp_all add: bindE_def)

lemma bindE_eq_Inr [simp]: "bindE m f = Inr y \<longleftrightarrow> (\<exists>x. m = Inr x \<and> f x = Inr y)"
  by (cases m) auto

lemma bindE_eq_Inl: "bindE m f = Inl e \<longleftrightarrow> m = Inl e \<or> (\<exists>x. m = Inr x \<and> f x = Inl e)"
  by (cases m) auto

lemma bindE_assoc: "bindE (bindE m f) g = bindE m (\<lambda>x. bindE (f x) g)"
  by (cases m) auto

lemma bindE_cong [fundef_cong]:
  "m = m' \<Longrightarrow> (\<And>x. m' = Inr x \<Longrightarrow> f x = g x) \<Longrightarrow> bindE m f = bindE m' g"
  by (cases m') auto

lemma ensureE_simps [simp]:
  "ensureE True e = Inr ()"
  "ensureE False e = Inl e"
  "ensureE b e = Inr u \<longleftrightarrow> b"
  "ensureE b e = Inl e' \<longleftrightarrow> \<not> b \<and> e' = e"
  by (auto simp: ensureE_def)

lemma mapErr_simps [simp]:
  "mapErr g (Inl e) = Inl (g e)"
  "mapErr g (Inr x) = Inr x"
  "mapErr g m = Inr y \<longleftrightarrow> m = Inr y"
  by (auto simp: mapErr_def split: sum.splits)

lemma isOk_simps [simp]: "isOk (Inl e) = False" "isOk (Inr x) = True"
  by (simp_all add: isOk_def)

lemma isOk_iff: "isOk m \<longleftrightarrow> (\<exists>x. m = Inr x)"
  by (cases m) auto

lemma isOk_unit: "isOk (m :: 'e + unit) \<longleftrightarrow> m = Inr ()"
  by (cases m) auto

lemma if_Inl_eq_Inr [simp]:
  "(if b then Inl e else m) = Inr y \<longleftrightarrow> \<not> b \<and> m = Inr y"
  "(if b then m else Inl e) = Inr y \<longleftrightarrow> b \<and> m = Inr y"
  by auto

text \<open>An invariant of the accumulator is an invariant of the loop.\<close>

lemma foldE_invariant:
  assumes "foldE f xs s = Inr t" and "P s"
    and "\<And>x s s'. x \<in> set xs \<Longrightarrow> P s \<Longrightarrow> f x s = Inr s' \<Longrightarrow> P s'"
  shows "P t"
  using assms
proof (induction xs arbitrary: s)
  case Nil
  then show ?case by simp
next
  case (Cons x xs)
  from Cons.prems(1) obtain u where u: "f x s = Inr u" and rest: "foldE f xs u = Inr t"
    by auto
  have "P u" using Cons.prems(2,3) u by (meson list.set_intros(1))
  then show ?case using Cons.IH [OF rest] Cons.prems(3) by (meson list.set_intros(2))
qed

lemma foldE_append: "foldE f (xs @ ys) s = bindE (foldE f xs s) (foldE f ys)"
proof (induction xs arbitrary: s)
  case Nil
  then show ?case by simp
next
  case (Cons x xs)
  then show ?case by (cases "f x s") simp_all
qed

text \<open>A loop that only checks: it succeeds when every element passes.\<close>

lemma foldE_check:
  "foldE (\<lambda>x (_ :: unit). c x) xs () = Inr () \<longleftrightarrow> (\<forall>x \<in> set xs. c x = Inr ())"
  by (induction xs) auto

text \<open>A loop that checks each element and keeps those that satisfy a predicate.\<close>

lemma foldE_collect:
  assumes "\<And>x acc acc'. f x acc = Inr acc' \<longleftrightarrow> c x \<and> acc' = acc @ (if p x then [g x] else [])"
  shows "foldE f xs acc = Inr r \<longleftrightarrow> (\<forall>x \<in> set xs. c x) \<and> r = acc @ map g (filter p xs)"
  by (induction xs arbitrary: acc) (auto simp: assms)

section \<open>64-bit words\<close>

lemma unat_of_nat64: "n < 2 ^ 64 \<Longrightarrow> unat (word_of_nat n :: 64 word) = n"
  by (simp add: unat_of_nat)

lemma unat_Suc64: "(w :: 64 word) \<noteq> - 1 \<Longrightarrow> unat (w + 1) = Suc (unat w)"
proof -
  assume "w \<noteq> - 1"
  then have "1 + w \<noteq> 0" by (metis add.commute eq_neg_iff_add_eq_0)
  then show ?thesis using unatSuc [of w] by (simp add: add.commute)
qed

lemma less_Suc64: "(w :: 64 word) \<noteq> - 1 \<Longrightarrow> v \<le> w \<Longrightarrow> v < w + 1"
  by (simp add: word_le_nat_alt word_less_nat_alt unat_Suc64)

section \<open>Key-ordered finite maps\<close>

text \<open>
  A Go map and a bbolt bucket both hold at most one value per key; a bucket is iterated in
  byte order of its keys, and the code never depends on the order in which a Go map is
  iterated. Both are a list of pairs whose keys are strictly increasing.
\<close>

fun ins_pair :: "'k::linorder \<Rightarrow> 'v \<Rightarrow> ('k \<times> 'v) list \<Rightarrow> ('k \<times> 'v) list" where
  "ins_pair k v [] = [(k, v)]"
| "ins_pair k v ((k', v') # ps) =
     (if k < k' then (k, v) # (k', v') # ps
      else if k = k' then (k, v) # ps
      else (k', v') # ins_pair k v ps)"

lemma set_ins_pair_keys: "set (map fst (ins_pair k v ps)) = insert k (set (map fst ps))"
proof (induction ps)
  case Nil
  then show ?case by simp
next
  case (Cons p ps)
  then show ?case by (cases p) (simp add: insert_commute)
qed

lemma sorted_ins_pair:
  "sorted_wrt (<) (map fst ps) \<Longrightarrow> sorted_wrt (<) (map fst (ins_pair k v ps))"
proof (induction ps)
  case Nil
  then show ?case by simp
next
  case (Cons p ps)
  then show ?case
    using set_ins_pair_keys [of k v ps] by (cases p) (auto dest: order.strict_trans)
qed

lemma map_of_ins_pair:
  "sorted_wrt (<) (map fst ps) \<Longrightarrow> map_of (ins_pair k v ps) = (map_of ps)(k \<mapsto> v)"
  by (induction ps) (auto simp: fun_eq_iff)

lemma sorted_filter_keys:
  "sorted_wrt (<) (map fst ps) \<Longrightarrow> sorted_wrt (<) (map fst (filter P ps))"
  by (induction ps) auto

lemma map_of_filter_key:
  "map_of (filter (\<lambda>p. fst p \<noteq> k) ps) = (map_of ps)(k := None)"
  by (induction ps) (auto simp: fun_eq_iff)

lemma distinct_of_sorted_less: "sorted_wrt (<) (ks :: 'k::linorder list) \<Longrightarrow> distinct ks"
  by (induction ks) auto

lemma sorted_pairs_unique:
  assumes "sorted_wrt (<) (map fst ps)" "sorted_wrt (<) (map fst qs)"
    and "map_of ps = map_of (qs :: ('k::linorder \<times> 'v) list)"
  shows "ps = qs"
proof -
  have d: "distinct (map fst ps)" "distinct (map fst qs)"
    using assms(1,2) distinct_of_sorted_less by blast+
  have "set ps = set qs"
    using map_of_inject_set [OF d] assms(3) by simp
  then have "set (map fst ps) = set (map fst qs)" by simp
  then have keys: "map fst ps = map fst qs"
    using assms(1,2) by (metis sorted_distinct_set_unique strict_sorted_iff)
  have "map snd ps = map (\<lambda>k. the (map_of ps k)) (map fst ps)"
    using d(1) by (auto simp: comp_def)
  moreover have "map snd qs = map (\<lambda>k. the (map_of qs k)) (map fst qs)"
    using d(2) by (auto simp: comp_def)
  ultimately have "map snd ps = map snd qs" using keys assms(3) by simp
  with keys show ?thesis by (metis zip_map_fst_snd)
qed

typedef (overloaded) ('k::linorder, 'v) kmap = "{ps :: ('k \<times> 'v) list. sorted_wrt (<) (map fst ps)}"
  morphisms kentries Abs_kmap
  by (rule exI [of _ "[]"]) simp

setup_lifting type_definition_kmap

lift_definition kempty :: "('k::linorder, 'v) kmap" is "[]"
  by simp

lift_definition kput :: "'k::linorder \<Rightarrow> 'v \<Rightarrow> ('k, 'v) kmap \<Rightarrow> ('k, 'v) kmap" is ins_pair
  by (rule sorted_ins_pair)

lift_definition kdel :: "'k::linorder \<Rightarrow> ('k, 'v) kmap \<Rightarrow> ('k, 'v) kmap"
  is "\<lambda>k. filter (\<lambda>p. fst p \<noteq> k)"
  by (rule sorted_filter_keys)

definition kget :: "('k::linorder, 'v) kmap \<Rightarrow> 'k \<Rightarrow> 'v option" where
  "kget m k = map_of (kentries m) k"

definition klen :: "('k::linorder, 'v) kmap \<Rightarrow> nat" where
  "klen m = length (kentries m)"

definition kvalues :: "('k::linorder, 'v) kmap \<Rightarrow> 'v list" where
  "kvalues m = map snd (kentries m)"

instantiation kmap :: (linorder, equal) equal
begin

definition equal_kmap :: "('a, 'b) kmap \<Rightarrow> ('a, 'b) kmap \<Rightarrow> bool" where
  "equal_kmap m n \<longleftrightarrow> kentries m = kentries n"

instance
  by standard (auto simp: equal_kmap_def kentries_inject)

end

instantiation kmap :: (linorder, type) size
begin

definition size_kmap :: "('a, 'b) kmap \<Rightarrow> nat" where
  "size_kmap m = klen m"

instance ..

end

lemma kentries_simps [simp]:
  "kentries kempty = []"
  "kentries (kput k v m) = ins_pair k v (kentries m)"
  "kentries (kdel k m) = filter (\<lambda>p. fst p \<noteq> k) (kentries m)"
  by (simp_all add: kempty.rep_eq kput.rep_eq kdel.rep_eq)

lemma kentries_sorted [simp, intro]: "sorted_wrt (<) (map fst (kentries m))"
  using kentries [of m] by simp

lemma kentries_distinct [simp, intro]: "distinct (map fst (kentries m))"
  by (rule distinct_of_sorted_less) simp

lemma kget_kempty [simp]: "kget kempty k = None"
  by (simp add: kget_def)

lemma kget_kput [simp]: "kget (kput k v m) k' = (if k' = k then Some v else kget m k')"
  by (simp add: kget_def map_of_ins_pair)

lemma kget_kdel [simp]: "kget (kdel k m) k' = (if k' = k then None else kget m k')"
  by (simp add: kget_def map_of_filter_key)

lemma kmap_eqI: "(\<And>k. kget m k = kget n k) \<Longrightarrow> m = n"
  using sorted_pairs_unique [of "kentries m" "kentries n"]
  by (simp add: kget_def kentries_inject fun_eq_iff)

lemma kentries_iff: "(k, v) \<in> set (kentries m) \<longleftrightarrow> kget m k = Some v"
  by (simp add: kget_def)

lemma kvalues_iff: "v \<in> set (kvalues m) \<longleftrightarrow> (\<exists>k. kget m k = Some v)"
proof -
  have "v \<in> set (kvalues m) \<longleftrightarrow> (\<exists>k. (k, v) \<in> set (kentries m))"
    by (force simp: kvalues_def)
  then show ?thesis by (simp add: kentries_iff)
qed

lemma kput_overwrite [simp]: "kput k v (kput k w m) = kput k v m"
  by (rule kmap_eqI) simp

lemma kput_same: "kget m k = Some v \<Longrightarrow> kput k v m = m"
  by (rule kmap_eqI) simp

lemma kdel_absent: "kget m k = None \<Longrightarrow> kdel k m = m"
  by (rule kmap_eqI) simp

lemma length_ins_pair_new:
  "k \<notin> set (map fst ps) \<Longrightarrow> length (ins_pair k v ps) = Suc (length ps)"
  by (induction ps) auto

lemma mset_ins_pair_new:
  "k \<notin> set (map fst ps) \<Longrightarrow> mset (ins_pair k v ps) = add_mset (k, v) (mset ps)"
  by (induction ps) auto

lemma kget_None_iff: "kget m k = None \<longleftrightarrow> k \<notin> set (map fst (kentries m))"
  by (simp add: kget_def map_of_eq_None_iff)

lemma klen_simps [simp]: "klen kempty = 0"
  by (simp add: klen_def)

lemma klen_kput_new: "kget m k = None \<Longrightarrow> klen (kput k v m) = Suc (klen m)"
  unfolding klen_def kentries_simps by (rule length_ins_pair_new) (simp add: kget_None_iff)

lemma mset_kvalues_kput_new:
  "kget m k = None \<Longrightarrow> mset (kvalues (kput k v m)) = add_mset v (mset (kvalues m))"
proof -
  assume "kget m k = None"
  then have "mset (kentries (kput k v m)) = add_mset (k, v) (mset (kentries m))"
    unfolding kentries_simps by (intro mset_ins_pair_new) (simp add: kget_None_iff)
  then show ?thesis by (simp add: kvalues_def mset_map)
qed

text \<open>Copying a map entry by entry, as the source's \<open>Clone\<close> methods do, gives the same map.\<close>

definition kcopy :: "('k::linorder, 'v) kmap \<Rightarrow> ('k, 'v) kmap" where
  "kcopy m = fold (\<lambda>(k, v). kput k v) (kentries m) kempty"

lemma kget_fold_kput:
  "distinct (map fst ps) \<Longrightarrow>
   kget (fold (\<lambda>(k, v). kput k v) ps m) k = (case map_of ps k of None \<Rightarrow> kget m k | Some v \<Rightarrow> Some v)"
proof (induction ps arbitrary: m)
  case Nil
  then show ?case by simp
next
  case (Cons p ps)
  obtain a b where p: "p = (a, b)" by (cases p)
  from Cons.prems p have "map_of ps a = None" by (simp add: map_of_eq_None_iff)
  with Cons p show ?case by (auto split: option.splits)
qed

lemma kcopy_id [simp]: "kcopy m = m"
  by (rule kmap_eqI) (simp add: kcopy_def kget_fold_kput, simp add: kget_def split: option.splits)

subsection \<open>The interface the components rely on\<close>

text \<open>
  What the code relies on of a map: a lookup sees the last write or deletion of its key, and
  an iteration visits every binding exactly once, in increasing order of the keys.
\<close>

locale keyed_store =
  fixes empty :: "'m"
    and get :: "'m \<Rightarrow> 'k::linorder \<Rightarrow> 'v option"
    and put :: "'k \<Rightarrow> 'v \<Rightarrow> 'm \<Rightarrow> 'm"
    and del :: "'k \<Rightarrow> 'm \<Rightarrow> 'm"
    and entries :: "'m \<Rightarrow> ('k \<times> 'v) list"
  assumes get_empty: "get empty k = None"
    and get_put: "get (put k v m) k' = (if k' = k then Some v else get m k')"
    and get_del: "get (del k m) k' = (if k' = k then None else get m k')"
    and entries_get: "(k, v) \<in> set (entries m) \<longleftrightarrow> get m k = Some v"
    and entries_order: "sorted_wrt (<) (map fst (entries m))"
begin

lemma put_commutes: "k \<noteq> l \<Longrightarrow> get (put k v (put l w m)) = get (put l w (put k v m))"
  by (auto simp: fun_eq_iff get_put)

lemma get_put_other: "k' \<noteq> k \<Longrightarrow> get (put k v m) k' = get m k'"
  by (simp add: get_put)

lemma del_put: "get (del k (put k v m)) = get (del k m)"
  by (auto simp: fun_eq_iff get_put get_del)

text \<open>Two bindings of one key are the same binding: an iteration meets a key once.\<close>

lemma entries_functional:
  "(k, v) \<in> set (entries m) \<Longrightarrow> (k, w) \<in> set (entries m) \<Longrightarrow> v = w"
  by (simp add: entries_get)

text \<open>What holds of every binding still holds after a write of a binding that has it.\<close>

lemma all_entries_put:
  "\<forall>(k, v) \<in> set (entries m). P k v \<Longrightarrow> P k v \<Longrightarrow> \<forall>(k, v) \<in> set (entries (put k v m)). P k v"
  by (auto simp: entries_get get_put split: if_splits)

lemma all_entries_del:
  "\<forall>(k, v) \<in> set (entries m). P k v \<Longrightarrow> \<forall>(k, v) \<in> set (entries (del k m)). P k v"
  by (auto simp: entries_get get_del split: if_splits)

end

interpretation kst: keyed_store kempty kget kput kdel kentries
  by unfold_locales (auto simp: kentries_iff)

end
