(* ===== verification/GoLib.thy ===== *)
theory GoLib
  imports Prelude "HOL-Library.Sublist"
begin

text \<open>
  What the source uses of the Go language and its standard library: signed 64-bit arithmetic,
  \<open>time.Time\<close> and \<open>time.Duration\<close>, and the \<open>strings\<close> and \<open>unicode\<close> functions on UTF-8 bytes.
\<close>

section \<open>Integers\<close>

type_synonym uint64 = "64 word"

text \<open>\<open>int\<close> and \<open>time.Duration\<close> are 64-bit two's complement; \<open>wrap64\<close> is the value an overflowing
  operation leaves.\<close>

definition maxInt64 :: int where
  "maxInt64 = 2 ^ 63 - 1"

definition wrap64 :: "int \<Rightarrow> int" where
  "wrap64 x = (x + 2 ^ 63) mod 2 ^ 64 - 2 ^ 63"

lemma wrap64_id: "- (2 ^ 63) \<le> x \<Longrightarrow> x < 2 ^ 63 \<Longrightarrow> wrap64 x = x"
  by (simp add: wrap64_def)

lemma wrap64_range: "- (2 ^ 63) \<le> wrap64 x \<and> wrap64 x < 2 ^ 63"
proof -
  have "0 \<le> (x + 2 ^ 63) mod 2 ^ 64 \<and> (x + 2 ^ 63) mod 2 ^ 64 < (2 ^ 64 :: int)" by simp
  then show ?thesis by (simp add: wrap64_def)
qed

text \<open>Integer division truncates towards zero.\<close>

definition goDiv :: "int \<Rightarrow> int \<Rightarrow> int" where
  "goDiv a b = sgn a * sgn b * (\<bar>a\<bar> div \<bar>b\<bar>)"

lemma goDiv_nonneg: "0 \<le> a \<Longrightarrow> 0 < b \<Longrightarrow> goDiv a b = a div b"
  by (cases "a = 0") (simp_all add: goDiv_def)

section \<open>Time\<close>

text \<open>
  A \<open>time.Time\<close> is the number of nanoseconds since the zero time (1 January of the year 1), held
  as a signed 64-bit count of seconds and a nanosecond part. Location and the monotonic clock
  reading play no role: every time the code persists has lost them, and \<open>UTC\<close> only changes the
  location. \<open>Add\<close> saturates when the second count overflows.
\<close>

type_synonym gotime = int
type_synonym duration = int

definition second :: int where
  "second = 1000000000"

definition zeroTime :: gotime where
  "zeroTime = 0"

definition IsZero :: "gotime \<Rightarrow> bool" where
  "IsZero t \<longleftrightarrow> t = zeroTime"

definition Before :: "gotime \<Rightarrow> gotime \<Rightarrow> bool" where
  "Before t u \<longleftrightarrow> t < u"

definition After :: "gotime \<Rightarrow> gotime \<Rightarrow> bool" where
  "After t u \<longleftrightarrow> u < t"

definition Add :: "gotime \<Rightarrow> duration \<Rightarrow> gotime" where
  "Add t d =
     (let s = (t + d) div second; n = (t + d) mod second
      in if maxInt64 < s then maxInt64 * second + n
         else if s < - (2 ^ 63) then - maxInt64 * second + n
         else t + d)"

text \<open>\<open>UnixNano\<close>: nanoseconds since 1970, an \<open>int64\<close> that wraps outside the years 1678 to 2262.\<close>

definition unixEpoch :: gotime where
  "unixEpoch = 62135596800 * second"

definition UnixNano :: "gotime \<Rightarrow> int" where
  "UnixNano t = wrap64 (t - unixEpoch)"

lemma time_simps [simp]:
  "IsZero t \<longleftrightarrow> t = 0"
  "Before t u \<longleftrightarrow> t < u"
  "After t u \<longleftrightarrow> u < t"
  "zeroTime = 0"
  by (simp_all add: IsZero_def Before_def After_def zeroTime_def)

lemma Add_exact:
  assumes "- (2 ^ 63) \<le> (t + d) div second" "(t + d) div second \<le> maxInt64"
  shows "Add t d = t + d"
  using assms by (simp add: Add_def Let_def)

text \<open>Within the representable range every time of a clock and every duration add exactly.\<close>

definition clockTime :: "gotime \<Rightarrow> bool" where
  "clockTime t \<longleftrightarrow> 0 < t \<and> t \<le> 2 ^ 62 * second"

lemma Add_clock:
  assumes "clockTime t" "0 \<le> d" "d < 2 ^ 63"
  shows "Add t d = t + d"
proof (rule Add_exact)
  have "t + d \<le> 2 ^ 62 * second + 2 ^ 63" using assms by (simp add: clockTime_def)
  then have "(t + d) div second \<le> (2 ^ 62 * second + 2 ^ 63) div second"
    by (intro zdiv_mono1) (simp_all add: second_def)
  then show "(t + d) div second \<le> maxInt64" by (simp add: second_def maxInt64_def)
  have "0 \<le> (t + d) div second"
    using assms by (simp add: clockTime_def second_def pos_imp_zdiv_nonneg_iff)
  then show "- (2 ^ 63) \<le> (t + d) div second" by (rule order_trans [rotated]) simp
qed

section \<open>Strings\<close>

text \<open>
  A Go string is its bytes, and \<open>len\<close> counts bytes. A character beyond ASCII is a UTF-8 sequence
  whose first byte never occurs inside another sequence, so a search for whole sequences is a
  search for characters.
\<close>

text \<open>\<open>unicode.IsSpace\<close>: the encodings of the white-space characters.\<close>

definition spaceSeqs :: "string list" where
  "spaceSeqs =
     [[CHR 0x09], [CHR 0x0A], [CHR 0x0B], [CHR 0x0C], [CHR 0x0D], [CHR 0x20],
      [CHR 0xC2, CHR 0x85], [CHR 0xC2, CHR 0xA0], [CHR 0xE1, CHR 0x9A, CHR 0x80],
      [CHR 0xE2, CHR 0x80, CHR 0x80], [CHR 0xE2, CHR 0x80, CHR 0x81], [CHR 0xE2, CHR 0x80, CHR 0x82],
      [CHR 0xE2, CHR 0x80, CHR 0x83], [CHR 0xE2, CHR 0x80, CHR 0x84], [CHR 0xE2, CHR 0x80, CHR 0x85],
      [CHR 0xE2, CHR 0x80, CHR 0x86], [CHR 0xE2, CHR 0x80, CHR 0x87], [CHR 0xE2, CHR 0x80, CHR 0x88],
      [CHR 0xE2, CHR 0x80, CHR 0x89], [CHR 0xE2, CHR 0x80, CHR 0x8A], [CHR 0xE2, CHR 0x80, CHR 0xA8],
      [CHR 0xE2, CHR 0x80, CHR 0xA9], [CHR 0xE2, CHR 0x80, CHR 0xAF], [CHR 0xE2, CHR 0x81, CHR 0x9F],
      [CHR 0xE3, CHR 0x80, CHR 0x80]]"

text \<open>\<open>unicode.IsControl\<close>: U+0000 to U+001F and U+007F to U+009F.\<close>

definition controlSeqs :: "string list" where
  "controlSeqs =
     map (\<lambda>n. [char_of n]) ([0..<32] @ [127 :: nat]) @
     map (\<lambda>n. [CHR 0xC2, char_of n]) [128..<160 :: nat]"

definition startsWithAny :: "string list \<Rightarrow> string \<Rightarrow> bool" where
  "startsWithAny seqs s \<longleftrightarrow> list_ex (\<lambda>q. prefix q s) seqs"

text \<open>Strip one leading sequence after another; every sequence is non-empty, so this ends.\<close>

function stripFront :: "string list \<Rightarrow> string \<Rightarrow> string" where
  "stripFront seqs s =
     (case find (\<lambda>q. q \<noteq> [] \<and> prefix q s) seqs of
        None \<Rightarrow> s
      | Some q \<Rightarrow> stripFront seqs (drop (length q) s))"
  by pat_completeness auto
termination
proof (relation "measure (\<lambda>(seqs, s). length s)")
  fix seqs s q
  assume "find (\<lambda>q. q \<noteq> [] \<and> prefix q s) seqs = Some q"
  then have "q \<noteq> []" "prefix q s" by (auto simp: find_Some_iff)
  then have "0 < length q" "length q \<le> length s" by (auto dest: prefix_length_le)
  then have "length s - length q < length s" by arith
  then show "((seqs, drop (length q) s), seqs, s) \<in> measure (\<lambda>(seqs, s). length s)" by simp
qed simp

declare stripFront.simps [simp del]

definition TrimSpace :: "string \<Rightarrow> string" where
  "TrimSpace s = rev (stripFront (map rev spaceSeqs) (rev (stripFront spaceSeqs s)))"

definition ContainsAny :: "string \<Rightarrow> string \<Rightarrow> bool" where
  "ContainsAny s chars \<longleftrightarrow> list_ex (\<lambda>c. c \<in> set chars) s"

fun containsSeq :: "string list \<Rightarrow> string \<Rightarrow> bool" where
  "containsSeq seqs [] = False"
| "containsSeq seqs (c # cs) = (startsWithAny seqs (c # cs) \<or> containsSeq seqs cs)"

abbreviation crlf :: string where
  "crlf \<equiv> [CHR 0x0D, CHR 0x0A]"

abbreviation crlftab :: string where
  "crlftab \<equiv> [CHR 0x0D, CHR 0x0A, CHR 0x09]"

text \<open>\<open>strings.Split\<close> at a one-byte separator.\<close>

fun Split :: "char \<Rightarrow> string \<Rightarrow> string list" where
  "Split sep [] = [[]]"
| "Split sep (c # cs) =
     (if c = sep then [] # Split sep cs else (c # hd (Split sep cs)) # tl (Split sep cs))"

text \<open>
  \<open>strings.EqualFold\<close> on ASCII: letters are compared without their case. The strings compared are
  hexadecimal digests.
\<close>

definition foldByte :: "char \<Rightarrow> char" where
  "foldByte c = (if 65 \<le> (of_char c :: nat) \<and> (of_char c :: nat) \<le> 90 then char_of ((of_char c :: nat) + 32) else c)"

definition EqualFold :: "string \<Rightarrow> string \<Rightarrow> bool" where
  "EqualFold s t \<longleftrightarrow> map foldByte s = map foldByte t"

text \<open>\<open>strconv\<close>-style decimal digits, for the \<open>%03d\<close> of \<open>fmt.Sprintf\<close>.\<close>

fun decimal :: "nat \<Rightarrow> string" where
  "decimal n = (if n < 10 then [char_of (48 + n)] else decimal (n div 10) @ [char_of (48 + n mod 10)])"

declare decimal.simps [simp del]

definition pad3 :: "nat \<Rightarrow> string" where
  "pad3 n = replicate (3 - length (decimal n)) (CHR ''0'') @ decimal n"

subsection \<open>Laws of the string functions\<close>

lemma stripFront_none: "\<not> startsWithAny seqs s \<Longrightarrow> stripFront seqs s = s"
proof -
  assume "\<not> startsWithAny seqs s"
  then have "find (\<lambda>q. q \<noteq> [] \<and> prefix q s) seqs = None"
    by (auto simp: find_None_iff startsWithAny_def list_ex_iff)
  then show ?thesis by (simp add: stripFront.simps)
qed

lemma stripFront_Nil [simp]: "stripFront seqs [] = []"
proof -
  have "find (\<lambda>q. q \<noteq> [] \<and> prefix q []) seqs = None" by (auto simp: find_None_iff)
  then show ?thesis by (simp add: stripFront.simps)
qed

lemma stripFront_suffix: "\<exists>p. s = p @ stripFront seqs s"
proof (induction seqs s rule: stripFront.induct)
  case (1 seqs s)
  show ?case
  proof (cases "find (\<lambda>q. q \<noteq> [] \<and> prefix q s) seqs")
    case None
    then show ?thesis by (simp add: stripFront.simps)
  next
    case (Some q)
    then obtain p where "drop (length q) s = p @ stripFront seqs (drop (length q) s)"
      using 1 by blast
    then have "s = (take (length q) s @ p) @ stripFront seqs (drop (length q) s)"
      by (metis append.assoc append_take_drop_id)
    moreover have "stripFront seqs s = stripFront seqs (drop (length q) s)"
      using Some by (simp add: stripFront.simps [of seqs s])
    ultimately show ?thesis by metis
  qed
qed

lemma TrimSpace_Nil [simp]: "TrimSpace [] = []"
  by (simp add: TrimSpace_def)

lemma TrimSpace_length: "length (TrimSpace s) \<le> length s"
proof -
  let ?a = "stripFront spaceSeqs s"
  have "length ?a \<le> length s"
    using stripFront_suffix [of s spaceSeqs] by (metis length_append le_add2)
  moreover have "length (TrimSpace s) \<le> length ?a"
    using stripFront_suffix [of "rev ?a" "map rev spaceSeqs"] unfolding TrimSpace_def
    by (metis length_append length_rev le_add2)
  ultimately show ?thesis by simp
qed

text \<open>A printable ASCII character at both ends keeps a string as it is.\<close>

definition plainChar :: "char \<Rightarrow> bool" where
  "plainChar c \<longleftrightarrow> 32 < (of_char c :: nat) \<and> (of_char c :: nat) < 127"

lemma not_startsWith_plain:
  "plainChar c \<Longrightarrow> \<not> startsWithAny spaceSeqs (c # cs)"
  "plainChar c \<Longrightarrow> \<not> startsWithAny (map rev spaceSeqs) (c # cs)"
  by (auto simp: startsWithAny_def spaceSeqs_def plainChar_def)

lemma TrimSpace_plain:
  assumes "s \<noteq> []" "plainChar (hd s)" "plainChar (last s)"
  shows "TrimSpace s = s"
proof -
  obtain c cs where s: "s = c # cs" using assms(1) by (cases s) auto
  obtain d ds where r: "rev s = d # ds" using assms(1) by (cases "rev s") auto
  have "plainChar d" using r assms(3) by (metis last_rev hd_rev list.sel(1) rev_rev_ident)
  have "stripFront spaceSeqs s = s"
    using assms(2) s not_startsWith_plain(1) by (simp add: stripFront_none)
  moreover have "stripFront (map rev spaceSeqs) (rev s) = rev s"
    using \<open>plainChar d\<close> r not_startsWith_plain(2) by (simp add: stripFront_none)
  ultimately show ?thesis by (simp add: TrimSpace_def)
qed

lemma TrimSpace_plain_Cons [go_simps]:
  "plainChar c \<Longrightarrow> plainChar (last (c # cs)) \<Longrightarrow> TrimSpace (c # cs) = c # cs"
  using TrimSpace_plain [of "c # cs"] by simp

lemmas plainChar_eval [go_simps] = plainChar_def

text \<open>A string of printable ASCII characters holds no space and no control character.\<close>

lemma containsSeq_plain:
  "list_all plainChar s \<Longrightarrow> \<not> containsSeq (spaceSeqs @ controlSeqs) s"
proof (induction s)
  case Nil
  then show ?case by simp
next
  case (Cons c cs)
  then have c: "plainChar c" by simp
  have "\<not> startsWithAny controlSeqs (c # cs)"
    using c by (auto simp: startsWithAny_def controlSeqs_def list_ex_iff plainChar_def)
  then have "\<not> startsWithAny (spaceSeqs @ controlSeqs) (c # cs)"
    using not_startsWith_plain(1) [OF c] by (auto simp: startsWithAny_def)
  with Cons show ?case by simp
qed

end
