(* ===== verification/Errors.thy ===== *)
theory Errors
  imports Prelude
begin

text \<open>
  The sentinel errors of the packages. The code compares errors with \<open>errors.Is\<close> only, so an
  error is the sentinel it wraps with \<open>%w\<close>; the text of a message is not kept, and an inner
  error that is only printed with \<open>%v\<close> is lost, as it is in Go. Errors of code outside the
  repository (the database engine, the session runner, a context, a capability service) are
  \<open>ExternalErr\<close>; an error that the repository makes in place, with no sentinel, is \<open>MessageErr\<close>
  with its text.
\<close>

text \<open>internal/account: the state machine and the retry policy.\<close>

datatype account_error =
    ErrInvalidSnapshot | ErrInvalidEvent | ErrInvalidTransition | ErrEventConflict
  | ErrAccountMismatch | ErrRequestMismatch | ErrStaleEvent | ErrRevisionOverflow
  | ErrInvalidRetryPolicy | ErrInvalidFailure

text \<open>The five lease sentinels, declared once in internal/account and once in internal/slot.\<close>

datatype lease_error =
    ErrInvalidLease | ErrLeaseHeld | ErrLeaseNotOwned | ErrLeaseExpired | ErrTimeRegression

datatype deletion_error =
    ErrInvalidDeletion | ErrDeletionEventConflict | ErrDeletionStaleEvent
  | ErrDeletionInvalidTransition | ErrDeletionTerminal

datatype slot_error =
    ErrInvalidConfig_slot | ErrInvalidSlot | ErrPoolNotFound | ErrSlotNotFound
  | ErrSlotUnavailable | ErrInvalidStatus | ErrInvalidRequest_slot

datatype store_error =
    ErrInvalidAccount | ErrAccountExists | ErrAccountNotFound | ErrAccountBusy
  | ErrInvalidRequest | ErrRequestExists | ErrRequestNotFound | ErrRequestConflict
  | ErrIdempotencyConflict | ErrRequestStateMismatch | ErrAuditNotFound | ErrLeaseNotFound
  | ErrBackupExists | ErrCorruptData | ErrQueueEmpty | ErrQueueCapacity
  | ErrInvalidQueueOptions | ErrEnvironmentUnavailable | ErrSlotLeaseFenceRequired
  | ErrRequestAttemptOverflow

datatype notification_error =
    ErrNotificationNotFound | ErrNotificationLease | ErrNotificationExpired
  | ErrInvalidNotification

datatype store_deletion_error =
    ErrDeletionNotFound | ErrDeletionConflict | ErrDeletionInProgress | ErrAccountDeleted

datatype request_error = ErrInvalidInput | ErrNotAllowed | ErrRateLimited | ErrRateLimitConfig

datatype environment_error =
    ErrInvalidManifest | ErrNotInstalled | ErrNotVerified | ErrNotTrusted | ErrDisabled
  | ErrNotHealthy | ErrNotReady

datatype job_pool_error =
    ErrJobPoolNotFound | ErrJobPoolOperationNotFound | ErrJobPoolStaleRevision
  | ErrJobPoolConflict | ErrJobPoolIdempotencyConflict

datatype environment_control_error =
    ErrEnvironmentOperationNotFound | ErrEnvironmentIdempotencyConflict | ErrEnvironmentStaleRevision

datatype slot_session_error =
    ErrSlotSessionOperationNotFound | ErrSlotSessionIdempotencyConflict | ErrSlotSessionRevision
  | ErrSlotSessionActionConflict | ErrSlotSessionClaim | ErrSlotSessionLateResult | ErrSlotSessionDeadline

text \<open>internal/credential, with the sentinels of its injection, and the cursor of the Matrix sync.\<close>

datatype credential_error =
    ErrInvalidService | ErrInvalidKey | ErrInvalidCredential | ErrInvalidAudit | ErrCredentialNotFound
  | ErrCredentialRevoked | ErrKeyUnavailable | ErrAuthentication | ErrSessionInvalidation
  | ErrSessionsNotStopped | ErrAuditConflict | ErrVersionConflict | ErrAlreadyCurrentKey
  | ErrInvalidSource | ErrSourceEmpty

datatype rdp_error = ErrRDPUnauthorized | ErrRDPCapability | ErrRDPExpired | ErrRDPRevoked | ErrRDPInvalidRequest

datatype matrix_sync_error = ErrInvalidMatrixSyncCursor

text \<open>migrations, and restore.go.\<close>

datatype migration_error = ErrNilDatabase | ErrInvalidVersion | ErrUnsupportedVersion

datatype restore_error = ErrInvalidRestore | ErrRestoreFailed

datatype lifecycle_error = ErrInvalidConfig_lifecycle | ErrLeaseMismatch

datatype queue_error = ErrInvalidConfig_queue | ErrRunnerUnavailable | ErrSchedulerStopped

datatype error =
    AccountErr account_error
  | AccountLeaseErr lease_error
  | DeletionErr deletion_error
  | SlotErr slot_error
  | SlotLeaseErr lease_error
  | StoreErr store_error
  | NotificationErr notification_error
  | StoreDeletionErr store_deletion_error
  | RequestErr request_error
  | QueueErr queue_error
  | EnvironmentErr environment_error
  | JobPoolErr job_pool_error
  | EnvironmentControlErr environment_control_error
  | SlotSessionErr slot_session_error
  | LifecycleErr lifecycle_error
  | CredentialErr credential_error
  | RDPErr rdp_error
  | MatrixSyncErr matrix_sync_error
  | MigrationErr migration_error
  | RestoreErr restore_error
  | MessageErr string
  | ExternalErr string

type_synonym 'a result = "error + 'a"

end
