(* ===== verification/EventMachine.thy ===== *)
theory EventMachine
  imports Prelude
begin

text \<open>
  The contract of a state machine that is driven by identified events: the account machine of
  internal/account/state.go and the deletion machine of internal/account/deletion.go both
  promise it. An event that was applied before is recognised by its id and answered without a
  change; an event id is never reused for another event; every accepted new event adds exactly
  one revision.
\<close>

text \<open>Deliver a list of events one after another, stopping at the first refusal.\<close>

fun deliver :: "('s \<Rightarrow> 'e \<Rightarrow> 'x + ('s \<times> bool)) \<Rightarrow> 's \<Rightarrow> 'e list \<Rightarrow> 'x + 's" where
  "deliver step s [] = Inr s"
| "deliver step s (e # es) = bindE (step s e) (\<lambda>(s', _). deliver step s' es)"

lemma deliver_append:
  "deliver step s (es @ fs) = bindE (deliver step s es) (\<lambda>s'. deliver step s' fs)"
proof (induction es arbitrary: s)
  case Nil
  then show ?case by simp
next
  case (Cons e es)
  then show ?case by (cases "step s e") (auto split: prod.splits)
qed

locale event_machine =
  fixes valid :: "'s \<Rightarrow> bool"
    and step :: "'s \<Rightarrow> 'e \<Rightarrow> 'x + ('s \<times> bool)"
    and applied :: "'s \<Rightarrow> string \<Rightarrow> 'e option"
    and eid :: "'e \<Rightarrow> string"
    and rev :: "'s \<Rightarrow> nat"
  assumes step_valid: "valid s \<Longrightarrow> step s e = Inr (s', i) \<Longrightarrow> valid s'"
    and step_known: "step s e = Inr (s', i) \<Longrightarrow> applied s (eid e) = Some f \<Longrightarrow> f = e \<and> s' = s \<and> i"
    and step_new: "step s e = Inr (s', i) \<Longrightarrow> applied s (eid e) = None \<Longrightarrow>
      \<not> i \<and> applied s' = (applied s)(eid e \<mapsto> e) \<and> rev s' = Suc (rev s)"
    and step_replay: "valid s \<Longrightarrow> applied s (eid e) = Some e \<Longrightarrow> step s e = Inr (s, True)"
begin

lemma step_applied: "step s e = Inr (s', i) \<Longrightarrow> applied s' (eid e) = Some e"
  using step_known step_new by (cases "applied s (eid e)") fastforce+

text \<open>Nothing that was applied is forgotten or replaced.\<close>

lemma step_keeps: "step s e = Inr (s', i) \<Longrightarrow> applied s k = Some f \<Longrightarrow> applied s' k = Some f"
proof (cases "applied s (eid e)")
  case None
  assume "step s e = Inr (s', i)" "applied s k = Some f"
  with None show ?thesis using step_new [of s e s' i] by auto
next
  case (Some g)
  assume "step s e = Inr (s', i)" "applied s k = Some f"
  with Some show ?thesis using step_known by blast
qed

lemma deliver_valid: "valid s \<Longrightarrow> deliver step s es = Inr s' \<Longrightarrow> valid s'"
  by (induction es arbitrary: s) (auto split: prod.splits intro: step_valid)

lemma deliver_keeps:
  "deliver step s es = Inr s' \<Longrightarrow> applied s k = Some f \<Longrightarrow> applied s' k = Some f"
  by (induction es arbitrary: s) (auto split: prod.splits intro: step_keeps)

lemma deliver_applied:
  "deliver step s es = Inr s' \<Longrightarrow> e \<in> set es \<Longrightarrow> applied s' (eid e) = Some e"
  by (induction es arbitrary: s) (auto split: prod.splits dest: step_applied intro: deliver_keeps)

text \<open>
  At-least-once delivery has the effect of exactly-once delivery: an event that occurs again,
  at any later point, is answered as a replay and leaves the state as it is.
\<close>

theorem redelivery_harmless:
  assumes "valid s" "deliver step s es = Inr s'" "e \<in> set es"
  shows "step s' e = Inr (s', True)"
  using assms deliver_valid deliver_applied step_replay by blast

corollary redeliveries_harmless:
  assumes "valid s" "deliver step s es = Inr s'" "set fs \<subseteq> set es"
  shows "deliver step s (es @ fs) = Inr s'"
proof -
  have known: "step s' e = Inr (s', True)" if "e \<in> set fs" for e
    using that assms(3) redelivery_harmless [OF assms(1,2)] by blast
  have "deliver step s' fs = Inr s'"
    using known by (induction fs) simp_all
  then show ?thesis using assms(2) by (simp add: deliver_append)
qed

text \<open>An event id names one event for ever.\<close>

theorem event_id_unique:
  assumes "deliver step s es = Inr s'" "e \<in> set es" "f \<in> set es" "eid e = eid f"
  shows "e = f"
proof -
  have "applied s' (eid e) = Some e" using assms(1,2) by (rule deliver_applied)
  moreover have "applied s' (eid e) = Some f"
    unfolding assms(4) using assms(1,3) by (rule deliver_applied)
  ultimately show ?thesis by (metis option.inject)
qed

text \<open>The revision counts the distinct events applied.\<close>

theorem revision_counts:
  assumes "deliver step s es = Inr s'"
  shows "rev s' = rev s + card {k \<in> eid ` set es. applied s k = None}"
  using assms
proof (induction es arbitrary: s)
  case Nil
  then show ?case by simp
next
  case (Cons e es)
  from Cons.prems obtain t i where t: "step s e = Inr (t, i)" and d: "deliver step t es = Inr s'"
    by (auto split: prod.splits)
  from Cons.IH [OF d] have IH: "rev s' = rev t + card {k \<in> eid ` set es. applied t k = None}" .
  show ?case
  proof (cases "applied s (eid e)")
    case (Some f)
    then have "t = s" using step_known [OF t] by blast
    moreover have "{k \<in> eid ` set (e # es). applied s k = None} = {k \<in> eid ` set es. applied s k = None}"
      using Some by auto
    ultimately show ?thesis using IH by simp
  next
    case None
    then have n: "applied t = (applied s)(eid e \<mapsto> e)" "rev t = Suc (rev s)"
      using step_new [OF t] by auto
    have "{k \<in> eid ` set (e # es). applied s k = None} =
          insert (eid e) {k \<in> eid ` set es. applied t k = None}"
      using None n(1) by auto
    moreover have "eid e \<notin> {k \<in> eid ` set es. applied t k = None}" using n(1) by simp
    ultimately show ?thesis using IH n(2) by simp
  qed
qed

end

end
