(* ===== verification/AccountState.thy ===== *)
theory AccountState
  imports GoLib Errors EventMachine
begin

text \<open>
  The account state machine of internal/account/state.go: statuses, events, the snapshot with
  its audit index, the replay check \<open>Validate\<close> and the transition function \<open>Apply\<close>.
\<close>

section \<open>Data\<close>

text \<open>A \<open>Status\<close> is a string; the declared ones are constructors, any other is \<open>OtherStatus\<close>.\<close>

datatype Status =
    NoRequest | Queued | Starting | LoggingIn | LoginSucceeded | LoginFailed
  | Expired | Cancelled | Blocked | OtherStatus string

fun Status_Valid :: "Status \<Rightarrow> bool" where
  "Status_Valid (OtherStatus _) = False"
| "Status_Valid _ = True"

definition IsTerminal :: "Status \<Rightarrow> bool" where
  "IsTerminal s \<longleftrightarrow> s = Cancelled \<or> s = Blocked"

record Event =
  ev_EventID :: string
  ev_AccountID :: string
  ev_RequestID :: string
  ev_From :: Status
  ev_ExpectedRevision :: uint64
  ev_To :: Status
  ev_Reason :: string
  ev_Actor :: string
  ev_OccurredAt :: gotime

record AuditRecord =
  ar_Event :: Event
  ar_Revision :: uint64

record Snapshot =
  sn_AccountID :: string
  sn_Status :: Status
  sn_RequestID :: string
  sn_Revision :: uint64
  sn_AppliedEvents :: "(string, AuditRecord) kmap"

record TransitionResult =
  tr_State :: Snapshot
  tr_Audit :: AuditRecord
  tr_Idempotent :: bool

section \<open>Operations\<close>

definition nonEmpty :: "string \<Rightarrow> bool" where
  "nonEmpty s \<longleftrightarrow> TrimSpace s \<noteq> []"

definition validFields :: "Event \<Rightarrow> unit result" where
  "validFields e =
     (if \<not> nonEmpty (ev_EventID e) \<or> \<not> nonEmpty (ev_AccountID e) \<or> \<not> nonEmpty (ev_RequestID e)
         \<or> \<not> nonEmpty (ev_Reason e) \<or> \<not> nonEmpty (ev_Actor e)
      then Inl (AccountErr ErrInvalidEvent)
      else if \<not> Status_Valid (ev_From e) \<or> \<not> Status_Valid (ev_To e)
      then Inl (AccountErr ErrInvalidEvent)
      else if IsZero (ev_OccurredAt e) then Inl (AccountErr ErrInvalidEvent)
      else Inr ())"

definition Event_Validate :: "Event \<Rightarrow> unit result" where
  "Event_Validate e = validFields e"

definition Event_equal :: "Event \<Rightarrow> Event \<Rightarrow> bool" where
  "Event_equal e f \<longleftrightarrow>
     ev_EventID e = ev_EventID f \<and> ev_AccountID e = ev_AccountID f \<and>
     ev_RequestID e = ev_RequestID f \<and> ev_From e = ev_From f \<and>
     ev_ExpectedRevision e = ev_ExpectedRevision f \<and> ev_To e = ev_To f \<and>
     ev_Reason e = ev_Reason f \<and> ev_Actor e = ev_Actor f \<and>
     ev_OccurredAt e = ev_OccurredAt f"

definition NewSnapshot :: "string \<Rightarrow> Snapshot result" where
  "NewSnapshot accountID =
     (if \<not> nonEmpty accountID then Inl (AccountErr ErrInvalidSnapshot)
      else Inr \<lparr>sn_AccountID = accountID, sn_Status = NoRequest, sn_RequestID = [],
                sn_Revision = 0, sn_AppliedEvents = kempty\<rparr>)"

definition Snapshot_Clone :: "Snapshot \<Rightarrow> Snapshot" where
  "Snapshot_Clone s = s\<lparr>sn_AppliedEvents := kcopy (sn_AppliedEvents s)\<rparr>"

definition CanTransition :: "Status \<Rightarrow> Status \<Rightarrow> bool" where
  "CanTransition from to =
     (if \<not> Status_Valid from \<or> \<not> Status_Valid to then False
      else case from of
        NoRequest \<Rightarrow> to = Queued \<or> to = Blocked
      | Queued \<Rightarrow> to = Starting \<or> to = Cancelled \<or> to = Blocked
      | Starting \<Rightarrow> to = LoggingIn \<or> to = Cancelled \<or> to = Blocked
      | LoggingIn \<Rightarrow> to = LoginSucceeded \<or> to = LoginFailed \<or> to = Cancelled \<or> to = Blocked
      | LoginSucceeded \<Rightarrow> to = Expired \<or> to = Blocked
      | LoginFailed \<Rightarrow> to = Queued \<or> to = Blocked
      | Expired \<Rightarrow> to = Queued \<or> to = Blocked
      | _ \<Rightarrow> False)"

text \<open>The first loop of \<open>Validate\<close>: every entry of the index is well-formed on its own.\<close>

definition checkIndexEntry :: "Snapshot \<Rightarrow> string \<times> AuditRecord \<Rightarrow> unit result" where
  "checkIndexEntry s p =
     (case p of (eventID, r) \<Rightarrow>
      if eventID = [] \<or> eventID \<noteq> ev_EventID (ar_Event r) \<or> ar_Revision r = 0
         \<or> sn_Revision s < ar_Revision r
      then Inl (AccountErr ErrInvalidSnapshot)
      else if validFields (ar_Event r) \<noteq> Inr () then Inl (AccountErr ErrInvalidSnapshot)
      else if ev_AccountID (ar_Event r) \<noteq> sn_AccountID s
         \<or> \<not> CanTransition (ev_From (ar_Event r)) (ev_To (ar_Event r))
      then Inl (AccountErr ErrInvalidSnapshot)
      else Inr ())"

text \<open>The second loop: replay the records in revision order, from \<open>index\<close> on.\<close>

fun replay :: "nat \<Rightarrow> Status \<Rightarrow> string \<Rightarrow> AuditRecord list \<Rightarrow> (Status \<times> string) result" where
  "replay index st rid [] = Inr (st, rid)"
| "replay index st rid (r # rs) =
     (if ar_Revision r \<noteq> word_of_nat (index + 1) then Inl (AccountErr ErrInvalidSnapshot)
      else if ev_ExpectedRevision (ar_Event r) \<noteq> ar_Revision r - 1
      then Inl (AccountErr ErrInvalidSnapshot)
      else if ev_From (ar_Event r) \<noteq> st then Inl (AccountErr ErrInvalidSnapshot)
      else if st = NoRequest
      then replay (index + 1) (ev_To (ar_Event r)) (ev_RequestID (ar_Event r)) rs
      else if ev_RequestID (ar_Event r) \<noteq> rid then Inl (AccountErr ErrInvalidSnapshot)
      else replay (index + 1) (ev_To (ar_Event r)) rid rs)"

definition sortedRecords :: "Snapshot \<Rightarrow> AuditRecord list" where
  "sortedRecords s = sort_key ar_Revision (kvalues (sn_AppliedEvents s))"

definition Snapshot_Validate :: "Snapshot \<Rightarrow> unit result" where
  "Snapshot_Validate s =
     (if \<not> nonEmpty (sn_AccountID s) \<or> \<not> Status_Valid (sn_Status s)
      then Inl (AccountErr ErrInvalidSnapshot)
      else if sn_Status s = NoRequest \<and> sn_RequestID s \<noteq> []
      then Inl (AccountErr ErrInvalidSnapshot)
      else if sn_Status s \<noteq> NoRequest \<and> \<not> nonEmpty (sn_RequestID s)
      then Inl (AccountErr ErrInvalidSnapshot)
      else if word_of_nat (klen (sn_AppliedEvents s)) \<noteq> sn_Revision s
      then Inl (AccountErr ErrInvalidSnapshot)
      else
        bindE (foldE (\<lambda>p _. checkIndexEntry s p) (kentries (sn_AppliedEvents s)) ()) (\<lambda>_.
        bindE (replay 0 NoRequest [] (sortedRecords s)) (\<lambda>(st, rid).
        if st \<noteq> sn_Status s \<or> rid \<noteq> sn_RequestID s
        then Inl (AccountErr ErrInvalidSnapshot)
        else Inr ())))"

definition Apply :: "Snapshot \<Rightarrow> Event \<Rightarrow> TransitionResult result" where
  "Apply state event =
     bindE (Snapshot_Validate state) (\<lambda>_.
     bindE (validFields event) (\<lambda>_.
     if ev_AccountID event \<noteq> sn_AccountID state then Inl (AccountErr ErrAccountMismatch)
     else case kget (sn_AppliedEvents state) (ev_EventID event) of
       Some previous \<Rightarrow>
         if Event_equal (ar_Event previous) event
         then Inr \<lparr>tr_State = Snapshot_Clone state, tr_Audit = previous, tr_Idempotent = True\<rparr>
         else Inl (AccountErr ErrEventConflict)
     | None \<Rightarrow>
         if ev_ExpectedRevision event \<noteq> sn_Revision state then Inl (AccountErr ErrStaleEvent)
         else if ev_From event \<noteq> sn_Status state then Inl (AccountErr ErrStaleEvent)
         else if \<not> CanTransition (ev_From event) (ev_To event)
         then Inl (AccountErr ErrInvalidTransition)
         else if sn_Status state \<noteq> NoRequest \<and> ev_RequestID event \<noteq> sn_RequestID state
         then Inl (AccountErr ErrRequestMismatch)
         else if sn_Revision state = - 1 then Inl (AccountErr ErrRevisionOverflow)
         else
           let clone = Snapshot_Clone state;
               rid = (if sn_Status state = NoRequest then ev_RequestID event
                      else sn_RequestID clone);
               rev = sn_Revision clone + 1;
               audit = \<lparr>ar_Event = event, ar_Revision = rev\<rparr>
           in Inr \<lparr>tr_State = clone\<lparr>sn_Status := ev_To event, sn_RequestID := rid,
                                sn_Revision := rev,
                                sn_AppliedEvents :=
                                  kput (ev_EventID event) audit (sn_AppliedEvents clone)\<rparr>,
                   tr_Audit = audit, tr_Idempotent = False\<rparr>))"

section \<open>Basic facts\<close>

lemma Snapshot_Clone_id [simp]: "Snapshot_Clone s = s"
  by (simp add: Snapshot_Clone_def)

lemma Event_equal_iff: "Event_equal e f \<longleftrightarrow> e = f"
  by (auto simp: Event_equal_def)

lemma nonEmpty_neq_Nil: "nonEmpty s \<Longrightarrow> s \<noteq> []"
  by (auto simp: nonEmpty_def)

lemma validFields_iff:
  "validFields e = Inr () \<longleftrightarrow>
     nonEmpty (ev_EventID e) \<and> nonEmpty (ev_AccountID e) \<and> nonEmpty (ev_RequestID e) \<and>
     nonEmpty (ev_Reason e) \<and> nonEmpty (ev_Actor e) \<and>
     Status_Valid (ev_From e) \<and> Status_Valid (ev_To e) \<and> ev_OccurredAt e \<noteq> 0"
  by (auto simp: validFields_def)

lemma CanTransition_valid:
  "CanTransition from to \<Longrightarrow> Status_Valid from \<and> Status_Valid to \<and> to \<noteq> NoRequest"
  by (auto simp: CanTransition_def split: if_splits Status.splits)

lemma CanTransition_terminal: "IsTerminal from \<Longrightarrow> \<not> CanTransition from to"
  by (auto simp: CanTransition_def IsTerminal_def)

section \<open>The replay check\<close>

lemma Snapshot_Validate_iff:
  "Snapshot_Validate s = Inr () \<longleftrightarrow>
     nonEmpty (sn_AccountID s) \<and> Status_Valid (sn_Status s) \<and>
     (if sn_Status s = NoRequest then sn_RequestID s = [] else nonEmpty (sn_RequestID s)) \<and>
     word_of_nat (klen (sn_AppliedEvents s)) = sn_Revision s \<and>
     (\<forall>p \<in> set (kentries (sn_AppliedEvents s)). checkIndexEntry s p = Inr ()) \<and>
     replay 0 NoRequest [] (sortedRecords s) = Inr (sn_Status s, sn_RequestID s)"
  by (auto simp: Snapshot_Validate_def foldE_check split: prod.splits)

lemma checkIndexEntry_iff:
  "checkIndexEntry s (i, r) = Inr () \<longleftrightarrow>
     i \<noteq> [] \<and> ev_EventID (ar_Event r) = i \<and> ar_Revision r \<noteq> 0 \<and> ar_Revision r \<le> sn_Revision s \<and>
     validFields (ar_Event r) = Inr () \<and> ev_AccountID (ar_Event r) = sn_AccountID s \<and>
     CanTransition (ev_From (ar_Event r)) (ev_To (ar_Event r))"
  by (auto simp: checkIndexEntry_def not_less)

lemma replay_append:
  "replay i st rid (xs @ ys) =
     bindE (replay i st rid xs) (\<lambda>(st', rid'). replay (i + length xs) st' rid' ys)"
  by (induction i st rid xs rule: replay.induct) auto

lemma replay_revisions:
  "replay i st rid rs = Inr q \<Longrightarrow> k < length rs \<Longrightarrow> ar_Revision (rs ! k) = word_of_nat (Suc (i + k))"
proof (induction i st rid rs arbitrary: k rule: replay.induct)
  case (1 i st rid)
  then show ?case by simp
next
  case (2 i st rid r rs)
  show ?case
  proof (cases k)
    case 0
    with 2 show ?thesis by simp
  next
    case (Suc m)
    with 2 show ?thesis by (auto split: if_splits)
  qed
qed

lemma length_sortedRecords [simp]: "length (sortedRecords s) = klen (sn_AppliedEvents s)"
  by (simp add: sortedRecords_def kvalues_def klen_def)

lemma set_sortedRecords: "set (sortedRecords s) = set (kvalues (sn_AppliedEvents s))"
  by (simp add: sortedRecords_def)

lemma mset_sortedRecords: "mset (sortedRecords s) = mset (kvalues (sn_AppliedEvents s))"
  by (simp add: sortedRecords_def)

lemma sortedRecords_entry:
  assumes "Snapshot_Validate s = Inr ()" "r \<in> set (sortedRecords s)"
  shows "kget (sn_AppliedEvents s) (ev_EventID (ar_Event r)) = Some r"
    and "checkIndexEntry s (ev_EventID (ar_Event r), r) = Inr ()"
proof -
  from assms(2) obtain k where k: "kget (sn_AppliedEvents s) k = Some r"
    by (auto simp: set_sortedRecords kvalues_iff)
  then have "checkIndexEntry s (k, r) = Inr ()"
    using assms(1) by (auto simp: Snapshot_Validate_iff kentries_iff)
  with k show "kget (sn_AppliedEvents s) (ev_EventID (ar_Event r)) = Some r"
    "checkIndexEntry s (ev_EventID (ar_Event r), r) = Inr ()"
    by (auto simp: checkIndexEntry_iff)
qed

text \<open>
  An index of \<open>2^64\<close> entries or more cannot pass: the record at position \<open>2^64 - 1\<close> would need
  revision 0. So the 64-bit revision is the number of applied events, without wrap-around.
\<close>

lemma valid_klen_bound:
  assumes "Snapshot_Validate s = Inr ()"
  shows "klen (sn_AppliedEvents s) < 2 ^ 64"
proof (rule ccontr)
  assume "\<not> klen (sn_AppliedEvents s) < 2 ^ 64"
  then have big: "2 ^ 64 - 1 < length (sortedRecords s)" by simp
  let ?r = "sortedRecords s ! (2 ^ 64 - 1)"
  have "ar_Revision ?r = word_of_nat (2 ^ 64)"
    using assms replay_revisions [OF _ big, of 0 NoRequest "[]"] by (simp add: Snapshot_Validate_iff)
  then have "ar_Revision ?r = 0" by simp
  moreover have "?r \<in> set (sortedRecords s)" using big by (rule nth_mem)
  ultimately show False
    using sortedRecords_entry(2) [OF assms, of ?r] by (simp add: checkIndexEntry_iff)
qed

lemma valid_unat_revision:
  "Snapshot_Validate s = Inr () \<Longrightarrow> unat (sn_Revision s) = klen (sn_AppliedEvents s)"
proof -
  assume a: "Snapshot_Validate s = Inr ()"
  then have "sn_Revision s = word_of_nat (klen (sn_AppliedEvents s))"
    by (simp add: Snapshot_Validate_iff)
  then show ?thesis
    using valid_klen_bound [OF a] by (simp add: unat_of_nat64)
qed

section \<open>Apply keeps the replay check\<close>

text \<open>The record added by an accepted event is the last one in revision order.\<close>

lemma sort_key_snoc_max:
  assumes "mset zs = add_mset x (mset ys)" "\<And>y. y \<in> set ys \<Longrightarrow> f y < f x" "inj_on f (set ys)"
  shows "sort_key f zs = sort_key f ys @ [x]"
proof (rule sort_key_inj_key_eq)
  show "mset zs = mset (sort_key f ys @ [x])" using assms(1) by simp
  have "set zs = insert x (set ys)" using assms(1) by (metis set_mset_add_mset_insert set_mset_mset)
  moreover have "f x \<notin> f ` set ys" using assms(2) by force
  ultimately show "inj_on f (set zs)" using assms(3) by (auto simp: inj_on_insert)
  show "sorted (map f (sort_key f ys @ [x]))"
    using assms(2) by (auto simp: sorted_append order_less_imp_le)
qed

lemma valid_revision_inj:
  assumes "Snapshot_Validate s = Inr ()"
  shows "inj_on ar_Revision (set (kvalues (sn_AppliedEvents s)))"
proof (rule inj_onI)
  fix x y
  assume "x \<in> set (kvalues (sn_AppliedEvents s))" "y \<in> set (kvalues (sn_AppliedEvents s))"
    and eq: "ar_Revision x = ar_Revision y"
  then obtain i j where i: "i < klen (sn_AppliedEvents s)" "sortedRecords s ! i = x"
    and j: "j < klen (sn_AppliedEvents s)" "sortedRecords s ! j = y"
    by (metis in_set_conv_nth length_sortedRecords set_sortedRecords)
  have rev: "ar_Revision (sortedRecords s ! k) = word_of_nat (Suc k)"
    if "k < klen (sn_AppliedEvents s)" for k
    using assms replay_revisions [of 0 NoRequest "[]" "sortedRecords s" _ k] that
    by (simp add: Snapshot_Validate_iff)
  have un: "unat (word_of_nat (Suc k) :: 64 word) = Suc k" if "k < klen (sn_AppliedEvents s)" for k
  proof (rule unat_of_nat64)
    have "ar_Revision (sortedRecords s ! k) \<noteq> 0"
      using sortedRecords_entry(2) [OF assms, of "sortedRecords s ! k"] that
      by (simp add: checkIndexEntry_iff)
    with rev [OF that] have "Suc k \<noteq> 2 ^ 64" by auto
    then show "Suc k < 2 ^ 64" using that valid_klen_bound [OF assms] by simp
  qed
  from eq i j rev have "(word_of_nat (Suc i) :: 64 word) = word_of_nat (Suc j)" by metis
  then have "Suc i = Suc j" using un i(1) j(1) by metis
  with i j show "x = y" by simp
qed

lemma Apply_new_iff:
  assumes "kget (sn_AppliedEvents s) (ev_EventID e) = None"
  shows "Apply s e = Inr r \<longleftrightarrow>
     Snapshot_Validate s = Inr () \<and> validFields e = Inr () \<and> ev_AccountID e = sn_AccountID s \<and>
     ev_ExpectedRevision e = sn_Revision s \<and> ev_From e = sn_Status s \<and>
     CanTransition (ev_From e) (ev_To e) \<and>
     (sn_Status s \<noteq> NoRequest \<longrightarrow> ev_RequestID e = sn_RequestID s) \<and> sn_Revision s \<noteq> - 1 \<and>
     r = \<lparr>tr_State = s\<lparr>sn_Status := ev_To e, sn_RequestID := ev_RequestID e,
             sn_Revision := sn_Revision s + 1,
             sn_AppliedEvents := kput (ev_EventID e)
               \<lparr>ar_Event = e, ar_Revision = sn_Revision s + 1\<rparr> (sn_AppliedEvents s)\<rparr>,
          tr_Audit = \<lparr>ar_Event = e, ar_Revision = sn_Revision s + 1\<rparr>, tr_Idempotent = False\<rparr>"
  using assms by (auto simp: Apply_def Let_def)

lemma Apply_known_iff:
  assumes "kget (sn_AppliedEvents s) (ev_EventID e) = Some p"
  shows "Apply s e = Inr r \<longleftrightarrow>
     Snapshot_Validate s = Inr () \<and> validFields e = Inr () \<and> ev_AccountID e = sn_AccountID s \<and>
     ar_Event p = e \<and> r = \<lparr>tr_State = s, tr_Audit = p, tr_Idempotent = True\<rparr>"
  using assms by (auto simp: Apply_def Event_equal_iff)

lemma sortedRecords_snoc:
  assumes valid: "Snapshot_Validate s = Inr ()"
    and new: "kget (sn_AppliedEvents s) k = None"
    and rev: "\<And>x. x \<in> set (kvalues (sn_AppliedEvents s)) \<Longrightarrow> ar_Revision x < ar_Revision a"
    and t: "sn_AppliedEvents t = kput k a (sn_AppliedEvents s)"
  shows "sortedRecords t = sortedRecords s @ [a]"
  unfolding sortedRecords_def t
  by (rule sort_key_snoc_max)
    (simp_all add: mset_kvalues_kput_new [OF new] rev valid_revision_inj [OF valid])

lemma replay_valid_snoc:
  assumes "Snapshot_Validate s = Inr ()" "ar_Revision a = sn_Revision s + 1"
    and "ar_Event a = e" "ev_ExpectedRevision e = sn_Revision s" "ev_From e = sn_Status s"
    and "sn_Status s \<noteq> NoRequest \<Longrightarrow> ev_RequestID e = sn_RequestID s"
  shows "replay 0 NoRequest [] (sortedRecords s @ [a]) = Inr (ev_To e, ev_RequestID e)"
proof -
  have "word_of_nat (klen (sn_AppliedEvents s) + 1) = sn_Revision s + 1"
    using assms(1) by (simp add: Snapshot_Validate_iff add.commute)
  then show ?thesis
    using assms by (auto simp: replay_append Snapshot_Validate_iff)
qed

lemma Apply_new_valid:
  assumes new: "kget (sn_AppliedEvents s) (ev_EventID e) = None" and ok: "Apply s e = Inr r"
  shows "Snapshot_Validate (tr_State r) = Inr ()"
proof -
  let ?a = "\<lparr>ar_Event = e, ar_Revision = sn_Revision s + 1\<rparr>"
  let ?t = "tr_State r"
  note h = ok [unfolded Apply_new_iff [OF new]]
  then have valid: "Snapshot_Validate s = Inr ()" and vf: "validFields e = Inr ()"
    and acc: "ev_AccountID e = sn_AccountID s" and can: "CanTransition (ev_From e) (ev_To e)"
    and top: "sn_Revision s \<noteq> - 1" and t: "?t = s\<lparr>sn_Status := ev_To e,
      sn_RequestID := ev_RequestID e, sn_Revision := sn_Revision s + 1,
      sn_AppliedEvents := kput (ev_EventID e) ?a (sn_AppliedEvents s)\<rparr>"
    by auto
  have old: "ar_Revision x < sn_Revision s + 1 \<and> checkIndexEntry s (k, x) = Inr ()"
    if "kget (sn_AppliedEvents s) k = Some x" for k x
  proof -
    have "checkIndexEntry s (k, x) = Inr ()"
      using that valid by (auto simp: Snapshot_Validate_iff kentries_iff)
    then show ?thesis using less_Suc64 [OF top] by (simp add: checkIndexEntry_iff)
  qed
  have sorted: "sortedRecords ?t = sortedRecords s @ [?a]"
    by (rule sortedRecords_snoc [OF valid new]) (auto simp: t kvalues_iff old)
  have rep: "replay 0 NoRequest [] (sortedRecords ?t) = Inr (ev_To e, ev_RequestID e)"
    unfolding sorted by (rule replay_valid_snoc [OF valid]) (use h in auto)
  have idx: "checkIndexEntry ?t p = Inr ()" if "p \<in> set (kentries (sn_AppliedEvents ?t))" for p
  proof -
    obtain k x where p: "p = (k, x)" by (cases p)
    with that have "kget (kput (ev_EventID e) ?a (sn_AppliedEvents s)) k = Some x"
      by (simp add: t kentries_iff del: kentries_simps kget_kput)
    then have "(k = ev_EventID e \<and> x = ?a) \<or> kget (sn_AppliedEvents s) k = Some x"
      by (auto split: if_splits)
    then show ?thesis
    proof
      assume kx: "k = ev_EventID e \<and> x = ?a"
      have "sn_Revision s + 1 \<noteq> 0" using top by (metis eq_neg_iff_add_eq_0)
      with kx vf acc can show ?thesis
        by (auto simp: p t checkIndexEntry_iff validFields_iff dest: nonEmpty_neq_Nil)
    next
      assume "kget (sn_AppliedEvents s) k = Some x"
      from old [OF this] show ?thesis by (auto simp: p t checkIndexEntry_iff)
    qed
  qed
  have "klen (sn_AppliedEvents ?t) = Suc (klen (sn_AppliedEvents s))"
    by (simp add: t klen_kput_new [OF new])
  then have len: "word_of_nat (klen (sn_AppliedEvents ?t)) = sn_Revision s + 1"
    using valid by (simp add: Snapshot_Validate_iff add.commute)
  have "nonEmpty (ev_RequestID e)" "nonEmpty (sn_AccountID s)" "ev_To e \<noteq> NoRequest"
    "Status_Valid (ev_To e)"
    using vf valid CanTransition_valid [OF can] by (auto simp: validFields_iff Snapshot_Validate_iff)
  then show ?thesis
    using rep idx len unfolding Snapshot_Validate_iff by (simp add: t)
qed

lemma Apply_valid:
  assumes "Apply s e = Inr r"
  shows "Snapshot_Validate (tr_State r) = Inr ()"
proof (cases "kget (sn_AppliedEvents s) (ev_EventID e)")
  case None
  then show ?thesis using assms by (rule Apply_new_valid)
next
  case (Some p)
  then show ?thesis using assms by (simp add: Apply_known_iff)
qed

lemma Apply_needs_valid: "Apply s e = Inr r \<Longrightarrow> Snapshot_Validate s = Inr ()"
  by (simp add: Apply_def)

section \<open>The event-machine contract\<close>

definition apply_step :: "Snapshot \<Rightarrow> Event \<Rightarrow> error + (Snapshot \<times> bool)" where
  "apply_step s e = bindE (Apply s e) (\<lambda>r. Inr (tr_State r, tr_Idempotent r))"

definition applied_event :: "Snapshot \<Rightarrow> string \<Rightarrow> Event option" where
  "applied_event s k = map_option ar_Event (kget (sn_AppliedEvents s) k)"

definition account_valid :: "Snapshot \<Rightarrow> bool" where
  "account_valid s \<longleftrightarrow> Snapshot_Validate s = Inr ()"

definition account_rev :: "Snapshot \<Rightarrow> nat" where
  "account_rev s = klen (sn_AppliedEvents s)"

interpretation am: event_machine account_valid apply_step applied_event ev_EventID account_rev
proof
  fix s e s' i
  assume "apply_step s e = Inr (s', i)"
  then show "account_valid s'"
    by (auto simp: apply_step_def account_valid_def dest: Apply_valid)
next
  fix s e s' i f
  assume "apply_step s e = Inr (s', i)" "applied_event s (ev_EventID e) = Some f"
  then show "f = e \<and> s' = s \<and> i"
    by (auto simp: apply_step_def applied_event_def Apply_known_iff)
next
  fix s e s' i
  assume a: "apply_step s e = Inr (s', i)" and "applied_event s (ev_EventID e) = None"
  then have new: "kget (sn_AppliedEvents s) (ev_EventID e) = None" by (simp add: applied_event_def)
  with a show "\<not> i \<and> applied_event s' = (applied_event s)(ev_EventID e \<mapsto> e) \<and>
      account_rev s' = Suc (account_rev s)"
    by (auto simp: apply_step_def Apply_new_iff [OF new] applied_event_def account_rev_def
        klen_kput_new [OF new] fun_eq_iff)
next
  fix s e
  assume v: "account_valid s" and "applied_event s (ev_EventID e) = Some e"
  then obtain p where p: "kget (sn_AppliedEvents s) (ev_EventID e) = Some p" "ar_Event p = e"
    by (auto simp: applied_event_def)
  then have "checkIndexEntry s (ev_EventID e, p) = Inr ()"
    using v by (auto simp: account_valid_def Snapshot_Validate_iff kentries_iff)
  with p v have "Apply s e = Inr \<lparr>tr_State = s, tr_Audit = p, tr_Idempotent = True\<rparr>"
    by (auto simp: Apply_known_iff account_valid_def checkIndexEntry_iff)
  then show "apply_step s e = Inr (s, True)" by (simp add: apply_step_def)
qed

section \<open>What a valid snapshot means\<close>

text \<open>
  The specification of the audit trail: a path through the transition graph that starts at
  \<open>NO_REQUEST\<close>. \<open>history\<close> is the trail a snapshot carries, in revision order.
\<close>

fun transitionPath :: "Status \<Rightarrow> Event list \<Rightarrow> Status \<Rightarrow> bool" where
  "transitionPath a [] b \<longleftrightarrow> a = b"
| "transitionPath a (e # es) b \<longleftrightarrow>
     ev_From e = a \<and> CanTransition a (ev_To e) \<and> transitionPath (ev_To e) es b"

definition history :: "Snapshot \<Rightarrow> Event list" where
  "history s = map ar_Event (sortedRecords s)"

lemma replay_path:
  assumes "replay i st rid rs = Inr (st', rid')"
    and "\<And>r. r \<in> set rs \<Longrightarrow> CanTransition (ev_From (ar_Event r)) (ev_To (ar_Event r))"
  shows "transitionPath st (map ar_Event rs) st'"
  using assms
proof (induction rs arbitrary: i st rid)
  case Nil
  then show ?case by simp
next
  case (Cons r rs)
  from Cons.prems(1) obtain rid2 where from_st: "ev_From (ar_Event r) = st"
    and rest: "replay (i + 1) (ev_To (ar_Event r)) rid2 rs = Inr (st', rid')"
    by (auto split: if_splits)
  have "transitionPath (ev_To (ar_Event r)) (map ar_Event rs) st'"
    by (rule Cons.IH [OF rest]) (simp add: Cons.prems(2))
  then show ?case using from_st Cons.prems(2) [of r] by simp
qed

lemma replay_request_id:
  assumes "replay i st rid rs = Inr (st', rid')"
    and "\<And>r. r \<in> set rs \<Longrightarrow> CanTransition (ev_From (ar_Event r)) (ev_To (ar_Event r))"
  shows "(st \<noteq> NoRequest \<longrightarrow> rid' = rid) \<and> (\<forall>r \<in> set rs. ev_RequestID (ar_Event r) = rid')"
  using assms
proof (induction rs arbitrary: i st rid)
  case Nil
  then show ?case by simp
next
  case (Cons r rs)
  from Cons.prems(1) obtain rid2 where rid2: "ev_RequestID (ar_Event r) = rid2"
    "st \<noteq> NoRequest \<longrightarrow> rid2 = rid"
    and rest: "replay (i + 1) (ev_To (ar_Event r)) rid2 rs = Inr (st', rid')"
    by (auto split: if_splits)
  have "ev_To (ar_Event r) \<noteq> NoRequest"
    using CanTransition_valid Cons.prems(2) [of r] by simp
  moreover have "(ev_To (ar_Event r) \<noteq> NoRequest \<longrightarrow> rid' = rid2) \<and>
      (\<forall>x \<in> set rs. ev_RequestID (ar_Event x) = rid')"
    by (rule Cons.IH [OF rest]) (simp add: Cons.prems(2))
  ultimately show ?case using rid2 by auto
qed

lemma replay_expected:
  "replay i st rid rs = Inr q \<Longrightarrow> k < length rs \<Longrightarrow>
   ev_ExpectedRevision (ar_Event (rs ! k)) = word_of_nat (i + k)"
proof (induction i st rid rs arbitrary: k rule: replay.induct)
  case (1 i st rid)
  then show ?case by simp
next
  case (2 i st rid r rs)
  show ?case
  proof (cases k)
    case 0
    with 2 show ?thesis by simp
  next
    case (Suc m)
    with 2 show ?thesis by (auto split: if_splits)
  qed
qed

lemma valid_can:
  "Snapshot_Validate s = Inr () \<Longrightarrow> r \<in> set (sortedRecords s) \<Longrightarrow>
   CanTransition (ev_From (ar_Event r)) (ev_To (ar_Event r))"
  using sortedRecords_entry(2) by (auto simp: checkIndexEntry_iff)

lemma valid_history:
  assumes "Snapshot_Validate s = Inr ()"
  shows "transitionPath NoRequest (history s) (sn_Status s) \<and>
     length (history s) = unat (sn_Revision s) \<and>
     (\<forall>k < length (history s). ev_ExpectedRevision (history s ! k) = word_of_nat k) \<and>
     (\<forall>e \<in> set (history s). ev_AccountID e = sn_AccountID s \<and> ev_RequestID e = sn_RequestID s)"
proof (intro conjI)
  have rep: "replay 0 NoRequest [] (sortedRecords s) = Inr (sn_Status s, sn_RequestID s)"
    using assms by (simp add: Snapshot_Validate_iff)
  show "transitionPath NoRequest (history s) (sn_Status s)"
    unfolding history_def using rep valid_can [OF assms] by (rule replay_path)
  show "length (history s) = unat (sn_Revision s)"
    by (simp add: history_def valid_unat_revision [OF assms])
  show "\<forall>k < length (history s). ev_ExpectedRevision (history s ! k) = word_of_nat k"
    using replay_expected [OF rep] by (simp add: history_def)
  show "\<forall>e \<in> set (history s). ev_AccountID e = sn_AccountID s \<and> ev_RequestID e = sn_RequestID s"
    using replay_request_id [OF rep valid_can [OF assms]] sortedRecords_entry(2) [OF assms]
    by (auto simp: history_def checkIndexEntry_iff)
qed

section \<open>Reachable snapshots\<close>

text \<open>The lifecycle of one account: created by \<open>NewSnapshot\<close>, changed by \<open>Apply\<close>.\<close>

inductive accountReach :: "string \<Rightarrow> Snapshot \<Rightarrow> bool" for a where
  created: "NewSnapshot a = Inr s \<Longrightarrow> accountReach a s"
| event: "accountReach a s \<Longrightarrow> Apply s e = Inr r \<Longrightarrow> accountReach a (tr_State r)"

lemma NewSnapshot_valid: "NewSnapshot a = Inr s \<Longrightarrow> Snapshot_Validate s = Inr () \<and> sn_AccountID s = a"
  by (auto simp: NewSnapshot_def Snapshot_Validate_iff sortedRecords_def kvalues_def)

lemma Apply_AccountID: "Apply s e = Inr r \<Longrightarrow> sn_AccountID (tr_State r) = sn_AccountID s"
  by (cases "kget (sn_AppliedEvents s) (ev_EventID e)") (auto simp: Apply_new_iff Apply_known_iff)

lemma accountReach_valid: "accountReach a s \<Longrightarrow> Snapshot_Validate s = Inr () \<and> sn_AccountID s = a"
  by (induction rule: accountReach.induct) (auto dest: NewSnapshot_valid Apply_valid Apply_AccountID)

lemma Apply_effect:
  assumes "Apply s e = Inr r"
  shows "(tr_Idempotent r \<and> tr_State r = s) \<or>
     (\<not> tr_Idempotent r \<and> CanTransition (sn_Status s) (ev_To e) \<and>
      sn_Status (tr_State r) = ev_To e \<and> sn_RequestID (tr_State r) = ev_RequestID e \<and>
      (sn_Status s \<noteq> NoRequest \<longrightarrow> ev_RequestID e = sn_RequestID s) \<and>
      unat (sn_Revision (tr_State r)) = Suc (unat (sn_Revision s)))"
proof (cases "kget (sn_AppliedEvents s) (ev_EventID e)")
  case None
  then show ?thesis using assms by (auto simp: Apply_new_iff unat_Suc64)
next
  case (Some p)
  then show ?thesis using assms by (auto simp: Apply_known_iff)
qed

section \<open>Properties\<close>

text \<open>
  C1. \<open>Apply\<close> never leaves the domain: whatever it accepts, a new event or a replay, the
  returned snapshot passes the full audit replay of \<open>Validate\<close> again and belongs to the same
  account.
\<close>

theorem Apply_preserves_Validate:
  assumes "Apply s e = Inr r"
  shows "Snapshot_Validate (tr_State r) = Inr () \<and> sn_AccountID (tr_State r) = sn_AccountID s"
  using Apply_valid [OF assms] Apply_AccountID [OF assms] by blast

text \<open>
  A snapshot that passes \<open>Validate\<close> is explained by its audit trail: the recorded events,
  in revision order, are a path of permitted transitions from \<open>NO_REQUEST\<close> to the snapshot's
  status, they are as many as the 64-bit revision says (nothing wrapped), event \<open>k\<close> was
  accepted at revision \<open>k\<close>, and all of them carry the snapshot's account and request id.
\<close>

theorem Validate_explains_status:
  assumes "Snapshot_Validate s = Inr ()"
  shows "transitionPath NoRequest (history s) (sn_Status s) \<and>
     length (history s) = unat (sn_Revision s) \<and>
     (\<forall>k < length (history s). ev_ExpectedRevision (history s ! k) = word_of_nat k) \<and>
     (\<forall>e \<in> set (history s). ev_AccountID e = sn_AccountID s \<and> ev_RequestID e = sn_RequestID s)"
  using assms by (rule valid_history)

text \<open>
  C3. Delivering events to an account at least once has the effect of delivering each exactly
  once: after any accepted sequence, redelivering any of its events in any order and number
  succeeds and leaves the snapshot unchanged, no id stood for two events, and the revision
  counts the distinct event ids.
\<close>

theorem Apply_exactly_once:
  assumes "NewSnapshot a = Inr s0" "deliver apply_step s0 es = Inr s" "set fs \<subseteq> set es"
  shows "deliver apply_step s0 (es @ fs) = Inr s \<and>
     inj_on ev_EventID (set es) \<and> unat (sn_Revision s) = card (ev_EventID ` set es)"
proof (intro conjI)
  have v: "account_valid s0" using NewSnapshot_valid [OF assms(1)] by (simp add: account_valid_def)
  show "deliver apply_step s0 (es @ fs) = Inr s"
    using v assms(2,3) by (rule am.redeliveries_harmless)
  show "inj_on ev_EventID (set es)"
    by (rule inj_onI) (rule am.event_id_unique [OF assms(2)])
  have s0: "account_rev s0 = 0" "\<And>k. applied_event s0 k = None"
    using assms(1) by (auto simp: NewSnapshot_def account_rev_def applied_event_def split: if_splits)
  have "{k \<in> ev_EventID ` set es. applied_event s0 k = None} = ev_EventID ` set es"
    using s0(2) by auto
  then have "account_rev s = card (ev_EventID ` set es)"
    using am.revision_counts [OF assms(2)] s0(1) by simp
  moreover have "account_valid s" using v assms(2) by (rule am.deliver_valid)
  ultimately show "unat (sn_Revision s) = card (ev_EventID ` set es)"
    by (simp add: account_valid_def account_rev_def valid_unat_revision)
qed

text \<open>
  Every snapshot an account can reach passes \<open>Validate\<close>, and from it an event is either a
  replay that changes nothing or follows the transition graph, keeps the request id once one is
  set and adds one to the revision; from a terminal status only replays are accepted.
\<close>

theorem reachable_account_step:
  assumes "accountReach a s" "Apply s e = Inr r"
  shows "Snapshot_Validate s = Inr () \<and>
     (if tr_Idempotent r then tr_State r = s
      else \<not> IsTerminal (sn_Status s) \<and> CanTransition (sn_Status s) (sn_Status (tr_State r)) \<and>
        (sn_Status s \<noteq> NoRequest \<longrightarrow> sn_RequestID (tr_State r) = sn_RequestID s) \<and>
        unat (sn_Revision (tr_State r)) = unat (sn_Revision s) + 1)"
  using accountReach_valid [OF assms(1)] Apply_effect [OF assms(2)] CanTransition_terminal by auto

section \<open>A concrete lifecycle\<close>

text \<open>Two events of one account, used to instantiate the properties.\<close>

definition demoSnapshot :: Snapshot where
  "demoSnapshot = \<lparr>sn_AccountID = ''acct-1'', sn_Status = NoRequest, sn_RequestID = [],
     sn_Revision = 0, sn_AppliedEvents = kempty\<rparr>"

definition demoQueue :: Event where
  "demoQueue = \<lparr>ev_EventID = ''ev-1'', ev_AccountID = ''acct-1'', ev_RequestID = ''req-1'',
     ev_From = NoRequest, ev_ExpectedRevision = 0, ev_To = Queued, ev_Reason = ''submit'',
     ev_Actor = ''user'', ev_OccurredAt = 5\<rparr>"

definition demoAudit :: AuditRecord where
  "demoAudit = \<lparr>ar_Event = demoQueue, ar_Revision = 1\<rparr>"

definition demoQueued :: Snapshot where
  "demoQueued = \<lparr>sn_AccountID = ''acct-1'', sn_Status = Queued, sn_RequestID = ''req-1'',
     sn_Revision = 1, sn_AppliedEvents = kput ''ev-1'' demoAudit kempty\<rparr>"

lemma nonEmpty_plain [go_simps]:
  "plainChar c \<Longrightarrow> plainChar (last (c # cs)) \<Longrightarrow> nonEmpty (c # cs)"
  by (simp add: nonEmpty_def TrimSpace_plain_Cons)

lemma nonEmpty_Nil [simp]: "\<not> nonEmpty []"
  by (simp add: nonEmpty_def)

lemma demo_new: "NewSnapshot ''acct-1'' = Inr demoSnapshot"
  by (simp add: NewSnapshot_def demoSnapshot_def go_simps)

lemma demo_apply:
  "Apply demoSnapshot demoQueue =
     Inr \<lparr>tr_State = demoQueued, tr_Audit = demoAudit, tr_Idempotent = False\<rparr>"
proof -
  have "Snapshot_Validate demoSnapshot = Inr ()" using NewSnapshot_valid [OF demo_new] by simp
  moreover have "validFields demoQueue = Inr ()"
    by (simp add: validFields_iff demoQueue_def go_simps)
  moreover have "CanTransition NoRequest Queued" by (simp add: CanTransition_def)
  ultimately show ?thesis
    by (simp add: Apply_new_iff demoSnapshot_def demoQueue_def demoQueued_def demoAudit_def)
qed

lemma demo_reach: "accountReach ''acct-1'' demoQueued"
  using accountReach.event [OF accountReach.created [OF demo_new] demo_apply] by simp

theorem Apply_preserves_Validate_witness:
  "Snapshot_Validate demoQueued = Inr () \<and> sn_AccountID demoQueued = ''acct-1''"
  using Apply_preserves_Validate [OF demo_apply] by (simp add: demoSnapshot_def)

theorem Validate_explains_status_witness:
  "transitionPath NoRequest (history demoQueued) Queued \<and> length (history demoQueued) = 1"
proof -
  have "Snapshot_Validate demoQueued = Inr ()" using accountReach_valid [OF demo_reach] by simp
  from Validate_explains_status [OF this] show ?thesis by (simp add: demoQueued_def)
qed

theorem Apply_exactly_once_witness:
  "deliver apply_step demoSnapshot [demoQueue, demoQueue, demoQueue] = Inr demoQueued"
proof -
  have "deliver apply_step demoSnapshot [demoQueue] = Inr demoQueued"
    by (simp add: apply_step_def demo_apply)
  then have "deliver apply_step demoSnapshot ([demoQueue] @ [demoQueue, demoQueue]) = Inr demoQueued"
    using Apply_exactly_once [OF demo_new, of "[demoQueue]" _ "[demoQueue, demoQueue]"] by simp
  then show ?thesis by simp
qed

theorem reachable_account_step_witness:
  "Snapshot_Validate demoSnapshot = Inr () \<and> CanTransition NoRequest Queued"
  using reachable_account_step [OF accountReach.created [OF demo_new] demo_apply]
  by (simp add: demoSnapshot_def demoQueued_def)

end
