(* ===== verification/AccountRetry.thy ===== *)
theory AccountRetry
  imports GoLib Errors
begin

text \<open>
  The retry policy of internal/account/retry.go: the failure classes, the validation of a policy
  and of a failure, and the capped exponential backoff of \<open>Decide\<close>, whose doubling loop is
  shown to compute its closed form without overflowing a 64-bit duration.
\<close>

text \<open>A \<open>FailureClass\<close> is a string; the empty one means that no failure is recorded.\<close>

datatype FailureClass =
    NoFailure | TransientFailure | CredentialFailure | PermissionFailure
  | ConfigurationFailure | UnknownFailure | OtherFailure string

fun declaredFailure :: "FailureClass \<Rightarrow> bool" where
  "declaredFailure NoFailure = False"
| "declaredFailure (OtherFailure _) = False"
| "declaredFailure _ = True"

record Failure =
  fl_Class :: FailureClass
  fl_Attempt :: int

record RetryPolicy =
  rp_MaxAttempts :: int
  rp_BaseDelay :: duration
  rp_MaxDelay :: duration

record RetryDecision =
  rd_Retry :: bool
  rd_Delay :: duration

definition RetryPolicy_validate :: "RetryPolicy \<Rightarrow> unit result" where
  "RetryPolicy_validate p =
     (if rp_MaxAttempts p < 1 \<or> rp_BaseDelay p < 0 \<or> rp_MaxDelay p < rp_BaseDelay p
      then Inl (AccountErr ErrInvalidRetryPolicy) else Inr ())"

definition Failure_validate :: "Failure \<Rightarrow> unit result" where
  "Failure_validate f =
     (if fl_Attempt f < 1 then Inl (AccountErr ErrInvalidFailure)
      else if declaredFailure (fl_Class f) then Inr ()
      else Inl (AccountErr ErrInvalidFailure))"

text \<open>The loop of \<open>Decide\<close>: \<open>step\<close> counts up to the attempt while the delay is below its cap.\<close>

function backoff :: "duration \<Rightarrow> int \<Rightarrow> int \<Rightarrow> duration \<Rightarrow> duration" where
  "backoff maxDelay attempt step delay =
     (if step < attempt \<and> delay < maxDelay
      then if goDiv maxDelay 2 < delay then maxDelay
           else backoff maxDelay attempt (step + 1) (wrap64 (delay * 2))
      else delay)"
  by pat_completeness auto
termination
  by (relation "measure (\<lambda>(_, attempt, step, _). nat (attempt - step))") auto

declare backoff.simps [simp del]

definition Decide :: "RetryPolicy \<Rightarrow> Failure \<Rightarrow> RetryDecision result" where
  "Decide p failure =
     bindE (RetryPolicy_validate p) (\<lambda>_.
     bindE (Failure_validate failure) (\<lambda>_.
     if fl_Class failure \<noteq> TransientFailure \<or> rp_MaxAttempts p \<le> fl_Attempt failure
     then Inr \<lparr>rd_Retry = False, rd_Delay = 0\<rparr>
     else if rp_BaseDelay p = 0 then Inr \<lparr>rd_Retry = True, rd_Delay = 0\<rparr>
     else
       let delay = backoff (rp_MaxDelay p) (fl_Attempt failure) 1 (rp_BaseDelay p)
       in Inr \<lparr>rd_Retry = True,
               rd_Delay = (if rp_MaxDelay p < delay then rp_MaxDelay p else delay)\<rparr>))"

section \<open>The loop computes a capped power of two\<close>

lemma backoff_closed:
  assumes "0 < delay" "delay \<le> maxDelay" "maxDelay < 2 ^ 63" "step \<le> attempt"
  shows "backoff maxDelay attempt step delay = min maxDelay (delay * 2 ^ nat (attempt - step))"
  using assms
proof (induction maxDelay attempt step delay rule: backoff.induct)
  case (1 maxDelay attempt step delay)
  show ?case
  proof (cases "step < attempt \<and> delay < maxDelay")
    case False
    have "delay * 1 \<le> delay * 2 ^ nat (attempt - step)"
      using "1.prems"(1) by (intro mult_left_mono) simp_all
    with False "1.prems" show ?thesis by (auto simp: backoff.simps [of maxDelay attempt step delay])
  next
    case True
    define n where "n = nat (attempt - (step + 1))"
    have pow: "delay * 2 ^ nat (attempt - step) = delay * 2 * 2 ^ n"
    proof -
      have "nat (attempt - step) = Suc n" using True unfolding n_def by linarith
      then show ?thesis by simp
    qed
    have half: "goDiv maxDelay 2 = maxDelay div 2" using "1.prems" by (simp add: goDiv_nonneg)
    show ?thesis
    proof (cases "maxDelay div 2 < delay")
      case above: True
      then have "maxDelay \<le> delay * 2" by linarith
      also have "delay * 2 * 1 \<le> delay * 2 * 2 ^ n"
        using "1.prems"(1) by (intro mult_left_mono) simp_all
      finally have "min maxDelay (delay * 2 ^ nat (attempt - step)) = maxDelay"
        unfolding pow by (simp add: min_def)
      then show ?thesis using above True half by (simp add: backoff.simps [of maxDelay attempt step delay])
    next
      case False
      then have small: "delay * 2 \<le> maxDelay" by linarith
      then have w: "wrap64 (delay * 2) = delay * 2"
        using "1.prems" by (intro wrap64_id) linarith+
      have "backoff maxDelay attempt (step + 1) (wrap64 (delay * 2)) =
          min maxDelay (wrap64 (delay * 2) * 2 ^ nat (attempt - (step + 1)))"
        using "1.IH" True False half "1.prems" small w by simp
      then have "backoff maxDelay attempt (step + 1) (wrap64 (delay * 2)) =
          min maxDelay (delay * 2 ^ nat (attempt - step))"
        unfolding pow w n_def .
      then show ?thesis
        using True False half by (simp add: backoff.simps [of maxDelay attempt step delay])
    qed
  qed
qed

lemma Decide_closed:
  assumes "rp_MaxDelay p < 2 ^ 63" "RetryPolicy_validate p = Inr ()" "Failure_validate f = Inr ()"
  shows "Decide p f =
     Inr (if fl_Class f = TransientFailure \<and> fl_Attempt f < rp_MaxAttempts p
          then \<lparr>rd_Retry = True,
                rd_Delay = min (rp_MaxDelay p) (rp_BaseDelay p * 2 ^ nat (fl_Attempt f - 1))\<rparr>
          else \<lparr>rd_Retry = False, rd_Delay = 0\<rparr>)"
proof -
  have p: "0 \<le> rp_BaseDelay p" "rp_BaseDelay p \<le> rp_MaxDelay p" and f: "1 \<le> fl_Attempt f"
    using assms(2,3) by (auto simp: RetryPolicy_validate_def Failure_validate_def split: if_splits)
  show ?thesis
  proof (cases "rp_BaseDelay p = 0")
    case True
    with assms p show ?thesis by (auto simp: Decide_def)
  next
    case False
    with p f assms(1) have "backoff (rp_MaxDelay p) (fl_Attempt f) 1 (rp_BaseDelay p) =
        min (rp_MaxDelay p) (rp_BaseDelay p * 2 ^ nat (fl_Attempt f - 1))"
      by (intro backoff_closed) auto
    with False assms(2,3) show ?thesis by (auto simp: Decide_def Let_def)
  qed
qed

lemma Decide_bounds:
  assumes "rp_MaxDelay p < 2 ^ 63" "Decide p f = Inr d"
  shows "0 \<le> rd_Delay d \<and> rd_Delay d \<le> rp_MaxDelay p \<and>
     (rd_Retry d \<longrightarrow> fl_Class f = TransientFailure \<and> fl_Attempt f < rp_MaxAttempts p)"
proof -
  have v: "RetryPolicy_validate p = Inr ()" "Failure_validate f = Inr ()"
    using assms(2) by (simp_all add: Decide_def)
  have "0 \<le> rp_BaseDelay p" "0 \<le> rp_MaxDelay p"
    using v(1) by (auto simp: RetryPolicy_validate_def split: if_splits)
  then show ?thesis using assms(2) unfolding Decide_closed [OF assms(1) v] by (auto split: if_splits)
qed

section \<open>The capped exponential\<close>

text \<open>
  The doubling loop of \<open>Decide\<close> computes the capped exponential \<open>min MaxDelay (BaseDelay *
  2^(attempt - 1))\<close> for every valid policy and failure with a 64-bit \<open>MaxDelay\<close>: the guard
  against \<open>MaxDelay / 2\<close> keeps the multiplication from overflowing, and only a transient failure
  below the attempt limit is retried.
\<close>

lemma Decide_is_capped_exponential:
  assumes "rp_MaxDelay p < 2 ^ 63" "RetryPolicy_validate p = Inr ()" "Failure_validate f = Inr ()"
  shows "Decide p f =
     Inr (if fl_Class f = TransientFailure \<and> fl_Attempt f < rp_MaxAttempts p
          then \<lparr>rd_Retry = True,
                rd_Delay = min (rp_MaxDelay p) (rp_BaseDelay p * 2 ^ nat (fl_Attempt f - 1))\<rparr>
          else \<lparr>rd_Retry = False, rd_Delay = 0\<rparr>)"
  using assms by (rule Decide_closed)

lemma Decide_is_capped_exponential_example:
  "Decide \<lparr>rp_MaxAttempts = 9, rp_BaseDelay = 3, rp_MaxDelay = 40\<rparr>
          \<lparr>fl_Class = TransientFailure, fl_Attempt = 4\<rparr> =
     Inr \<lparr>rd_Retry = True, rd_Delay = 24\<rparr>"
  using Decide_is_capped_exponential [of "\<lparr>rp_MaxAttempts = 9, rp_BaseDelay = 3, rp_MaxDelay = 40\<rparr>"
      "\<lparr>fl_Class = TransientFailure, fl_Attempt = 4\<rparr>"]
  by (simp add: RetryPolicy_validate_def Failure_validate_def)

end
