(* ===== verification/LeaseContract.thy ===== *)
theory LeaseContract
  imports GoLib Errors
begin

text \<open>
  The contract of an ownership lease. internal/account/lease.go and internal/slot/slot.go both
  implement it; the store and the scheduler rely on nothing else. A lease is obtained only when
  none is held, extended and released only by its holder, and never extended after its expiry.
\<close>

lemma sorted_le_last: "sorted xs \<Longrightarrow> x \<in> set xs \<Longrightarrow> x \<le> last xs"
  by (induction xs) (auto split: if_splits)

locale lease_contract =
  fixes valid :: "'l \<Rightarrow> bool"
    and lid :: "'l \<Rightarrow> string"
    and owner :: "'l \<Rightarrow> string"
    and beat :: "'l \<Rightarrow> gotime"
    and expires :: "'l \<Rightarrow> gotime"
    and acquire :: "'l option \<Rightarrow> gotime \<Rightarrow> 'a \<Rightarrow> duration \<Rightarrow> 'x + 'l"
    and aid :: "'a \<Rightarrow> string"
    and aowner :: "'a \<Rightarrow> string"
    and heartbeat :: "'l \<Rightarrow> gotime \<Rightarrow> string \<Rightarrow> string \<Rightarrow> duration \<Rightarrow> 'x + 'l"
    and release :: "'l \<Rightarrow> string \<Rightarrow> string \<Rightarrow> 'x + unit"
  assumes acquire_ok: "acquire cur now a ttl = Inr l \<Longrightarrow>
      valid l \<and> lid l = aid a \<and> owner l = aowner a \<and> beat l = now \<and> now < expires l"
    and acquire_free: "acquire (Some c) now a ttl = Inr l \<Longrightarrow> expires c \<le> now"
    and heartbeat_ok: "heartbeat l now i w ttl = Inr l' \<Longrightarrow>
      valid l' \<and> lid l' = lid l \<and> owner l' = owner l \<and> beat l' = now \<and> now < expires l'"
    and heartbeat_held: "heartbeat l now i w ttl = Inr l' \<Longrightarrow>
      lid l = i \<and> owner l = w \<and> now < expires l \<and> beat l \<le> now"
    and release_held: "release l i w = Inr u \<Longrightarrow> lid l = i \<and> owner l = w"
begin

text \<open>No two owners at one time: while the holder can extend, nobody can acquire.\<close>

lemma no_double_hold:
  assumes "heartbeat l now i w ttl = Inr l1"
  shows "\<exists>x. acquire (Some l) now a ttl' = Inl x"
proof (cases "acquire (Some l) now a ttl'")
  case (Inr m)
  then have "expires l \<le> now" by (rule acquire_free)
  with heartbeat_held [OF assms] show ?thesis by simp
qed auto

text \<open>A holder whose lease was taken over can neither extend nor release the successor's.\<close>

lemma stale_holder_fenced:
  assumes "acquire cur now a ttl = Inr l" "(i, w) \<noteq> (aid a, aowner a)"
  shows "(\<exists>x. heartbeat l now' i w ttl' = Inl x) \<and> (\<exists>x. release l i w = Inl x)"
proof
  have l: "lid l = aid a" "owner l = aowner a" using acquire_ok [OF assms(1)] by auto
  show "\<exists>x. heartbeat l now' i w ttl' = Inl x"
  proof (cases "heartbeat l now' i w ttl'")
    case (Inr m)
    with l assms(2) show ?thesis using heartbeat_held by blast
  qed auto
  show "\<exists>x. release l i w = Inl x"
  proof (cases "release l i w")
    case (Inr m)
    with l assms(2) show ?thesis using release_held by blast
  qed auto
qed

text \<open>
  A sequence of heartbeats moves the lease forward in time only, keeps its identity, and never
  crosses an expiry; so the tenures of successive holders do not overlap.
\<close>

fun beats :: "'l \<Rightarrow> (gotime \<times> duration) list \<Rightarrow> 'x + 'l" where
  "beats l [] = Inr l"
| "beats l ((now, ttl) # bs) = bindE (heartbeat l now (lid l) (owner l) ttl) (\<lambda>l'. beats l' bs)"

lemma beats_forward:
  assumes "beats l bs = Inr l'" "valid l"
  shows "valid l' \<and> lid l' = lid l \<and> owner l' = owner l \<and> beat l \<le> beat l' \<and>
     sorted (beat l # map fst bs) \<and> beat l' = last (beat l # map fst bs)"
  using assms
proof (induction l bs rule: beats.induct)
  case (1 l)
  then show ?case by simp
next
  case (2 l now ttl bs)
  from "2.prems"(1) obtain m where m: "heartbeat l now (lid l) (owner l) ttl = Inr m"
    and rest: "beats m bs = Inr l'" by auto
  have "beat l \<le> now" using heartbeat_held [OF m] by simp
  moreover have "valid m" "lid m = lid l" "owner m = owner l" "beat m = now"
    using heartbeat_ok [OF m] by auto
  ultimately show ?case using "2.IH" [OF m rest] by auto
qed

lemma tenures_disjoint:
  assumes "acquire cur now a ttl = Inr l" "beats l bs = Inr l'"
    and "acquire (Some l') now' b ttl' = Inr m"
  shows "now < expires l \<and> (\<forall>t \<in> fst ` set bs. t \<le> beat l') \<and> expires l' \<le> now'"
proof -
  have l: "valid l" "now < expires l" using acquire_ok [OF assms(1)] by auto
  then have "sorted (beat l # map fst bs)" "beat l' = last (beat l # map fst bs)"
    using beats_forward [OF assms(2)] by auto
  then have "\<forall>t \<in> set (beat l # map fst bs). t \<le> beat l'"
    by (metis sorted_le_last)
  with l acquire_free [OF assms(3)] show ?thesis by auto
qed

end

end
