(* ===== verification/AccountLease.thy ===== *)
theory AccountLease
  imports LeaseContract
begin

text \<open>
  The account lease of internal/account/lease.go: acquisition with recovery of an expired lease,
  heartbeat and release. It implements the lease contract.
\<close>

record Lease =
  ls_LeaseID :: string
  ls_Owner :: string
  ls_AcquiredAt :: gotime
  ls_LastHeartbeat :: gotime
  ls_ExpiresAt :: gotime

definition zeroLease :: Lease where
  "zeroLease = \<lparr>ls_LeaseID = [], ls_Owner = [], ls_AcquiredAt = zeroTime,
     ls_LastHeartbeat = zeroTime, ls_ExpiresAt = zeroTime\<rparr>"

definition Lease_validate :: "Lease \<Rightarrow> unit result" where
  "Lease_validate l =
     (if TrimSpace (ls_LeaseID l) = [] \<or> TrimSpace (ls_Owner l) = []
         \<or> IsZero (ls_AcquiredAt l) \<or> IsZero (ls_LastHeartbeat l) \<or> IsZero (ls_ExpiresAt l)
      then Inl (AccountLeaseErr ErrInvalidLease)
      else if Before (ls_LastHeartbeat l) (ls_AcquiredAt l)
         \<or> \<not> After (ls_ExpiresAt l) (ls_LastHeartbeat l)
      then Inl (AccountLeaseErr ErrInvalidLease)
      else Inr ())"

definition Lease_Expired :: "Lease \<Rightarrow> gotime \<Rightarrow> bool" where
  "Lease_Expired l now \<longleftrightarrow> \<not> Before now (ls_ExpiresAt l)"

definition AcquireLease ::
  "Lease option \<Rightarrow> gotime \<Rightarrow> string \<Rightarrow> string \<Rightarrow> duration \<Rightarrow> Lease result" where
  "AcquireLease current now leaseID owner ttl =
     (if IsZero now \<or> TrimSpace leaseID = [] \<or> TrimSpace owner = [] \<or> ttl \<le> 0
      then Inl (AccountLeaseErr ErrInvalidLease)
      else
        bindE (case current of
                 None \<Rightarrow> Inr ()
               | Some c \<Rightarrow>
                   bindE (Lease_validate c) (\<lambda>_.
                   if \<not> Lease_Expired c now then Inl (AccountLeaseErr ErrLeaseHeld) else Inr ()))
        (\<lambda>_.
        let expiresAt = Add now ttl
        in if \<not> After expiresAt now then Inl (AccountLeaseErr ErrInvalidLease)
           else Inr \<lparr>ls_LeaseID = leaseID, ls_Owner = owner, ls_AcquiredAt = now,
                     ls_LastHeartbeat = now, ls_ExpiresAt = expiresAt\<rparr>))"

definition HeartbeatLease ::
  "Lease \<Rightarrow> gotime \<Rightarrow> string \<Rightarrow> string \<Rightarrow> duration \<Rightarrow> Lease result" where
  "HeartbeatLease lease now leaseID owner ttl =
     bindE (Lease_validate lease) (\<lambda>_.
     if IsZero now \<or> ttl \<le> 0 then Inl (AccountLeaseErr ErrInvalidLease)
     else if ls_LeaseID lease \<noteq> leaseID \<or> ls_Owner lease \<noteq> owner
     then Inl (AccountLeaseErr ErrLeaseNotOwned)
     else if Lease_Expired lease now then Inl (AccountLeaseErr ErrLeaseExpired)
     else if Before now (ls_LastHeartbeat lease) then Inl (AccountLeaseErr ErrTimeRegression)
     else
       let expiresAt = Add now ttl
       in if \<not> After expiresAt now then Inl (AccountLeaseErr ErrInvalidLease)
          else Inr (lease\<lparr>ls_LastHeartbeat := now, ls_ExpiresAt := expiresAt\<rparr>))"

definition ReleaseLease :: "Lease \<Rightarrow> string \<Rightarrow> string \<Rightarrow> Lease result" where
  "ReleaseLease lease leaseID owner =
     bindE (Lease_validate lease) (\<lambda>_.
     if ls_LeaseID lease \<noteq> leaseID \<or> ls_Owner lease \<noteq> owner
     then Inl (AccountLeaseErr ErrLeaseNotOwned)
     else Inr zeroLease)"

section \<open>Facts of the operations\<close>

lemma Lease_validate_iff:
  "Lease_validate l = Inr () \<longleftrightarrow>
     TrimSpace (ls_LeaseID l) \<noteq> [] \<and> TrimSpace (ls_Owner l) \<noteq> [] \<and> ls_AcquiredAt l \<noteq> 0 \<and>
     ls_LastHeartbeat l \<noteq> 0 \<and> ls_ExpiresAt l \<noteq> 0 \<and>
     ls_AcquiredAt l \<le> ls_LastHeartbeat l \<and> ls_LastHeartbeat l < ls_ExpiresAt l"
  by (auto simp: Lease_validate_def)

lemma Lease_Expired_iff [simp]: "Lease_Expired l now \<longleftrightarrow> ls_ExpiresAt l \<le> now"
  by (auto simp: Lease_Expired_def)

lemma AcquireLease_iff:
  "AcquireLease current now leaseID owner ttl = Inr l \<longleftrightarrow>
     now \<noteq> 0 \<and> TrimSpace leaseID \<noteq> [] \<and> TrimSpace owner \<noteq> [] \<and> 0 < ttl \<and>
     (\<forall>c. current = Some c \<longrightarrow> Lease_validate c = Inr () \<and> ls_ExpiresAt c \<le> now) \<and>
     now < Add now ttl \<and>
     l = \<lparr>ls_LeaseID = leaseID, ls_Owner = owner, ls_AcquiredAt = now,
          ls_LastHeartbeat = now, ls_ExpiresAt = Add now ttl\<rparr>"
  by (auto simp: AcquireLease_def Let_def split: option.splits)

lemma HeartbeatLease_iff:
  "HeartbeatLease lease now leaseID owner ttl = Inr l \<longleftrightarrow>
     Lease_validate lease = Inr () \<and> now \<noteq> 0 \<and> 0 < ttl \<and>
     ls_LeaseID lease = leaseID \<and> ls_Owner lease = owner \<and> now < ls_ExpiresAt lease \<and>
     ls_LastHeartbeat lease \<le> now \<and> now < Add now ttl \<and>
     l = lease\<lparr>ls_LastHeartbeat := now, ls_ExpiresAt := Add now ttl\<rparr>"
  by (auto simp: HeartbeatLease_def Let_def)

lemma ReleaseLease_iff:
  "ReleaseLease lease leaseID owner = Inr l \<longleftrightarrow>
     Lease_validate lease = Inr () \<and> ls_LeaseID lease = leaseID \<and> ls_Owner lease = owner \<and>
     l = zeroLease"
  by (auto simp: ReleaseLease_def)

text \<open>
  An expiry that does not lie after the zero time cannot be written: an acquired lease whose
  times are not the zero time passes \<open>validate\<close>.
\<close>

definition lease_ok :: "Lease \<Rightarrow> bool" where
  "lease_ok l \<longleftrightarrow> TrimSpace (ls_LeaseID l) \<noteq> [] \<and> TrimSpace (ls_Owner l) \<noteq> [] \<and>
     ls_AcquiredAt l \<le> ls_LastHeartbeat l \<and> ls_LastHeartbeat l < ls_ExpiresAt l \<and>
     ls_LastHeartbeat l \<noteq> 0 \<and> ls_AcquiredAt l \<noteq> 0"

lemma lease_ok_validate:
  "lease_ok l \<Longrightarrow> 0 < ls_AcquiredAt l \<Longrightarrow> Lease_validate l = Inr ()"
  by (auto simp: lease_ok_def Lease_validate_iff)

interpretation acct_lease: lease_contract lease_ok ls_LeaseID ls_Owner ls_LastHeartbeat ls_ExpiresAt
  "\<lambda>cur now (i, w) ttl. AcquireLease cur now i w ttl" fst snd HeartbeatLease
  "\<lambda>l i w. bindE (ReleaseLease l i w) (\<lambda>_. Inr ())"
  by unfold_locales
    (auto simp: AcquireLease_iff HeartbeatLease_iff ReleaseLease_iff lease_ok_def Lease_validate_iff
      split: prod.splits)

text \<open>Failure of an operation, spelled out: who is refused and why.\<close>

lemma AcquireLease_held:
  assumes "now \<noteq> 0" "TrimSpace leaseID \<noteq> []" "TrimSpace owner \<noteq> []" "0 < ttl"
    and "Lease_validate c = Inr ()" "now < ls_ExpiresAt c"
  shows "AcquireLease (Some c) now leaseID owner ttl = Inl (AccountLeaseErr ErrLeaseHeld)"
  using assms by (simp add: AcquireLease_def)

section \<open>Properties\<close>

text \<open>
  C6. Account leases exclude each other: as long as the holder's heartbeat at an instant is
  accepted, no acquisition at that instant is; once another acquisition succeeded, the former
  holder can neither extend nor release the new lease; and the new tenure starts only after the
  last expiry the former holder was granted.
\<close>

theorem account_lease_exclusive:
  assumes "AcquireLease cur now i w ttl = Inr l"
    and "HeartbeatLease l now1 i w ttl1 = Inr l1"
    and "AcquireLease (Some l1) now2 j v ttl2 = Inr m"
    and "(i, w) \<noteq> (j, v)"
  shows "(\<exists>x. AcquireLease (Some l) now1 j v ttl2 = Inl x) \<and>
     now \<le> now1 \<and> now1 < now2 \<and> ls_ExpiresAt l1 \<le> now2 \<and>
     (\<exists>x. HeartbeatLease m now3 i w ttl3 = Inl x) \<and> (\<exists>x. ReleaseLease m i w = Inl x)"
proof (intro conjI)
  show "\<exists>x. AcquireLease (Some l) now1 j v ttl2 = Inl x"
    using acct_lease.no_double_hold [OF assms(2), of "(j, v)" ttl2] by simp
  show "\<exists>x. HeartbeatLease m now3 i w ttl3 = Inl x" "\<exists>x. ReleaseLease m i w = Inl x"
    using acct_lease.stale_holder_fenced [of "Some l1" now2 "(j, v)" ttl2 m i w] assms(3,4)
    by (auto simp: bindE_eq_Inl)
  show "now \<le> now1" "now1 < now2" "ls_ExpiresAt l1 \<le> now2"
    using assms(1-3) by (auto simp: AcquireLease_iff HeartbeatLease_iff)
qed

theorem account_lease_exclusive_witness:
  "\<exists>x. AcquireLease (Some \<lparr>ls_LeaseID = ''l1'', ls_Owner = ''w1'', ls_AcquiredAt = 10,
       ls_LastHeartbeat = 10, ls_ExpiresAt = 40\<rparr>) 20 ''l2'' ''w2'' 30 = Inl x"
proof -
  have add: "Add 10 30 = 40" "Add 20 30 = 50" "Add 60 30 = 90"
    by (simp_all add: Add_def second_def maxInt64_def)
  let ?l = "\<lparr>ls_LeaseID = ''l1'', ls_Owner = ''w1'', ls_AcquiredAt = 10,
       ls_LastHeartbeat = 10, ls_ExpiresAt = 40\<rparr>"
  let ?l1 = "?l\<lparr>ls_LastHeartbeat := 20, ls_ExpiresAt := 50\<rparr>"
  let ?m = "\<lparr>ls_LeaseID = ''l2'', ls_Owner = ''w2'', ls_AcquiredAt = 60,
       ls_LastHeartbeat = 60, ls_ExpiresAt = 90\<rparr>"
  have "AcquireLease None 10 ''l1'' ''w1'' 30 = Inr ?l"
    by (simp add: AcquireLease_iff add go_simps)
  moreover have "HeartbeatLease ?l 20 ''l1'' ''w1'' 30 = Inr ?l1"
    by (simp add: HeartbeatLease_iff Lease_validate_iff add go_simps)
  moreover have "AcquireLease (Some ?l1) 60 ''l2'' ''w2'' 30 = Inr ?m"
    by (simp add: AcquireLease_iff Lease_validate_iff add go_simps)
  ultimately show ?thesis
    using account_lease_exclusive [of None 10 "''l1''" "''w1''" 30 ?l 20 30 ?l1 60 "''l2''" "''w2''" 30 ?m]
    by simp
qed

end
