(* ===== verification/AccountDeletion.thy ===== *)
theory AccountDeletion
  imports AccountState AccountRetry
begin

text \<open>
  The account deletion machine of internal/account/deletion.go: stages, checkpoints, events with
  an audit index, and \<open>ApplyDeletion\<close>. It implements the event-machine contract.
\<close>

section \<open>Data\<close>

datatype DeletionStage =
    DeletionRequested | DeletionStoppingSessions | DeletionRevokingCredentials
  | DeletionCleaningProfile | DeletionRetryWait | DeletionBlocked | DeletionTombstoned
  | OtherStage string

datatype ProfilePolicy = ProfilePurge | ProfileRetain | OtherPolicy string

record DeletionEvent =
  de_EventID :: string
  de_DeletionID :: string
  de_AccountID :: string
  de_Actor :: string
  de_ReasonClass :: string
  de_ExpectedRevision :: uint64
  de_From :: DeletionStage
  de_To :: DeletionStage
  de_OccurredAt :: gotime
  de_Attempt :: int
  de_NextAttemptAt :: gotime
  de_LastFailureClass :: FailureClass
  de_SessionsStopped :: bool
  de_CredentialsRevoked :: bool
  de_ProfileActionApplied :: bool

record DeletionAudit =
  da_Event :: DeletionEvent
  da_Revision :: uint64

text \<open>\<open>AppliedEvents\<close> may be the nil map, which is not the empty one: \<open>None\<close>.\<close>

record DeletionSnapshot =
  ds_DeletionID :: string
  ds_AccountID :: string
  ds_AccountLabel :: string
  ds_Stage :: DeletionStage
  ds_LastBusinessStatus :: Status
  ds_Actor :: string
  ds_ReasonClass :: string
  ds_ProfilePolicy :: ProfilePolicy
  ds_Revision :: uint64
  ds_RequestedAt :: gotime
  ds_UpdatedAt :: gotime
  ds_CompletedAt :: gotime
  ds_Attempt :: int
  ds_NextAttemptAt :: gotime
  ds_LastFailureClass :: FailureClass
  ds_SessionsStopped :: bool
  ds_CredentialsRevoked :: bool
  ds_ProfileActionApplied :: bool
  ds_AppliedEvents :: "(string, DeletionAudit) kmap option"

record DeletionTransitionResult =
  dt_State :: DeletionSnapshot
  dt_Audit :: DeletionAudit
  dt_Idempotent :: bool

section \<open>Operations\<close>

fun validDeletionStage :: "DeletionStage \<Rightarrow> bool" where
  "validDeletionStage (OtherStage _) = False"
| "validDeletionStage _ = True"

definition validFailureClassDeletion :: "FailureClass \<Rightarrow> bool" where
  "validFailureClassDeletion c \<longleftrightarrow> c = NoFailure \<or> declaredFailure c"

definition nonEmptyDeletion :: "string \<Rightarrow> bool" where
  "nonEmptyDeletion value \<longleftrightarrow>
     value \<noteq> [] \<and> value = TrimSpace value \<and> length value \<le> 256 \<and> \<not> ContainsAny value crlf"

definition DeletionEvent_Validate :: "DeletionEvent \<Rightarrow> unit result" where
  "DeletionEvent_Validate e =
     (if \<not> nonEmptyDeletion (de_EventID e) \<or> \<not> nonEmptyDeletion (de_DeletionID e)
         \<or> \<not> nonEmptyDeletion (de_AccountID e) \<or> \<not> nonEmptyDeletion (de_Actor e)
         \<or> \<not> nonEmptyDeletion (de_ReasonClass e) \<or> \<not> validDeletionStage (de_From e)
         \<or> \<not> validDeletionStage (de_To e) \<or> IsZero (de_OccurredAt e)
         \<or> \<not> validFailureClassDeletion (de_LastFailureClass e) \<or> de_Attempt e < 0
      then Inl (DeletionErr ErrInvalidDeletion)
      else if \<not> IsZero (de_NextAttemptAt e) \<and> Before (de_NextAttemptAt e) (de_OccurredAt e)
      then Inl (DeletionErr ErrInvalidDeletion)
      else Inr ())"

text \<open>The loop of \<open>Validate\<close> over the audit index.\<close>

definition checkDeletionEntry :: "DeletionSnapshot \<Rightarrow> string \<times> DeletionAudit \<Rightarrow> unit result" where
  "checkDeletionEntry s p =
     (case p of (i, audit) \<Rightarrow>
      if i = [] \<or> da_Revision audit = 0 \<or> ds_Revision s < da_Revision audit
         \<or> de_EventID (da_Event audit) \<noteq> i \<or> de_DeletionID (da_Event audit) \<noteq> ds_DeletionID s
         \<or> de_AccountID (da_Event audit) \<noteq> ds_AccountID s
      then Inl (DeletionErr ErrInvalidDeletion)
      else DeletionEvent_Validate (da_Event audit))"

definition DeletionSnapshot_Validate :: "DeletionSnapshot \<Rightarrow> unit result" where
  "DeletionSnapshot_Validate s =
     (if \<not> validDeletionStage (ds_Stage s) \<or> \<not> nonEmptyDeletion (ds_DeletionID s)
         \<or> \<not> nonEmptyDeletion (ds_AccountID s) \<or> \<not> nonEmptyDeletion (ds_AccountLabel s)
         \<or> \<not> nonEmptyDeletion (ds_Actor s) \<or> \<not> nonEmptyDeletion (ds_ReasonClass s)
         \<or> \<not> Status_Valid (ds_LastBusinessStatus s)
         \<or> (ds_ProfilePolicy s \<noteq> ProfilePurge \<and> ds_ProfilePolicy s \<noteq> ProfileRetain)
         \<or> IsZero (ds_RequestedAt s) \<or> IsZero (ds_UpdatedAt s)
         \<or> Before (ds_UpdatedAt s) (ds_RequestedAt s) \<or> ds_Attempt s < 0
         \<or> \<not> validFailureClassDeletion (ds_LastFailureClass s)
      then Inl (DeletionErr ErrInvalidDeletion)
      else if ds_Stage s = DeletionTombstoned \<and> IsZero (ds_CompletedAt s)
      then Inl (DeletionErr ErrInvalidDeletion)
      else if ds_Stage s = DeletionTombstoned \<and> ds_CompletedAt s \<noteq> ds_UpdatedAt s
      then Inl (DeletionErr ErrInvalidDeletion)
      else if ds_Stage s \<noteq> DeletionTombstoned \<and> \<not> IsZero (ds_CompletedAt s)
      then Inl (DeletionErr ErrInvalidDeletion)
      else if \<not> IsZero (ds_NextAttemptAt s) \<and> Before (ds_NextAttemptAt s) (ds_UpdatedAt s)
      then Inl (DeletionErr ErrInvalidDeletion)
      else case ds_AppliedEvents s of
        None \<Rightarrow> Inl (DeletionErr ErrInvalidDeletion)
      | Some events \<Rightarrow>
          if ds_CredentialsRevoked s \<and> \<not> ds_SessionsStopped s
          then Inl (DeletionErr ErrInvalidDeletion)
          else if ds_ProfileActionApplied s \<and> \<not> ds_CredentialsRevoked s
          then Inl (DeletionErr ErrInvalidDeletion)
          else if ds_Stage s = DeletionTombstoned \<and>
            (\<not> ds_SessionsStopped s \<or> \<not> ds_CredentialsRevoked s \<or> \<not> ds_ProfileActionApplied s)
          then Inl (DeletionErr ErrInvalidDeletion)
          else
            bindE (foldE (\<lambda>p _. checkDeletionEntry s p) (kentries events) ()) (\<lambda>_.
            if word_of_nat (klen events) \<noteq> ds_Revision s
            then Inl (DeletionErr ErrInvalidDeletion)
            else Inr ()))"

definition NewDeletion ::
  "string \<Rightarrow> string \<Rightarrow> string \<Rightarrow> string \<Rightarrow> string \<Rightarrow> ProfilePolicy \<Rightarrow> Status \<Rightarrow> gotime
   \<Rightarrow> DeletionSnapshot result" where
  "NewDeletion deletionID accountID accountLabel actor reasonClass policy lastStatus at =
     (let state = \<lparr>ds_DeletionID = deletionID, ds_AccountID = accountID,
            ds_AccountLabel = accountLabel, ds_Stage = DeletionRequested,
            ds_LastBusinessStatus = lastStatus, ds_Actor = actor, ds_ReasonClass = reasonClass,
            ds_ProfilePolicy = policy, ds_Revision = 0, ds_RequestedAt = at, ds_UpdatedAt = at,
            ds_CompletedAt = zeroTime, ds_Attempt = 0, ds_NextAttemptAt = zeroTime,
            ds_LastFailureClass = NoFailure, ds_SessionsStopped = False,
            ds_CredentialsRevoked = False, ds_ProfileActionApplied = False,
            ds_AppliedEvents = Some kempty\<rparr>
      in bindE (DeletionSnapshot_Validate state) (\<lambda>_. Inr state))"

definition DeletionEvent_equal :: "DeletionEvent \<Rightarrow> DeletionEvent \<Rightarrow> bool" where
  "DeletionEvent_equal e f \<longleftrightarrow>
     de_EventID e = de_EventID f \<and> de_DeletionID e = de_DeletionID f \<and>
     de_AccountID e = de_AccountID f \<and> de_Actor e = de_Actor f \<and>
     de_ReasonClass e = de_ReasonClass f \<and> de_ExpectedRevision e = de_ExpectedRevision f \<and>
     de_From e = de_From f \<and> de_To e = de_To f \<and> de_OccurredAt e = de_OccurredAt f \<and>
     de_Attempt e = de_Attempt f \<and> de_NextAttemptAt e = de_NextAttemptAt f \<and>
     de_LastFailureClass e = de_LastFailureClass f \<and>
     de_SessionsStopped e = de_SessionsStopped f \<and>
     de_CredentialsRevoked e = de_CredentialsRevoked f \<and>
     de_ProfileActionApplied e = de_ProfileActionApplied f"

definition CanDeleteTransition :: "DeletionStage \<Rightarrow> DeletionStage \<Rightarrow> bool" where
  "CanDeleteTransition from to =
     (if \<not> validDeletionStage from \<or> \<not> validDeletionStage to then False
      else case from of
        DeletionRequested \<Rightarrow> to = DeletionStoppingSessions \<or> to = DeletionBlocked
      | DeletionStoppingSessions \<Rightarrow>
          to = DeletionRevokingCredentials \<or> to = DeletionRetryWait \<or> to = DeletionBlocked
      | DeletionRevokingCredentials \<Rightarrow>
          to = DeletionCleaningProfile \<or> to = DeletionRetryWait \<or> to = DeletionBlocked
      | DeletionCleaningProfile \<Rightarrow>
          to = DeletionTombstoned \<or> to = DeletionRetryWait \<or> to = DeletionBlocked
      | DeletionRetryWait \<Rightarrow>
          to = DeletionStoppingSessions \<or> to = DeletionRevokingCredentials
          \<or> to = DeletionCleaningProfile \<or> to = DeletionBlocked
      | DeletionBlocked \<Rightarrow>
          to = DeletionStoppingSessions \<or> to = DeletionRevokingCredentials
          \<or> to = DeletionCleaningProfile
      | _ \<Rightarrow> False)"

fun isDeletionCheckpointStage :: "DeletionStage \<Rightarrow> bool" where
  "isDeletionCheckpointStage DeletionStoppingSessions = True"
| "isDeletionCheckpointStage DeletionRevokingCredentials = True"
| "isDeletionCheckpointStage DeletionCleaningProfile = True"
| "isDeletionCheckpointStage _ = False"

definition deletionCheckpointStage :: "DeletionSnapshot \<Rightarrow> DeletionStage" where
  "deletionCheckpointStage s =
     (if \<not> ds_SessionsStopped s then DeletionStoppingSessions
      else if \<not> ds_CredentialsRevoked s then DeletionRevokingCredentials
      else DeletionCleaningProfile)"

definition validateDeletionCheckpoints :: "DeletionSnapshot \<Rightarrow> DeletionEvent \<Rightarrow> unit result" where
  "validateDeletionCheckpoints s e =
     (let sessionsStopped = ds_SessionsStopped s \<or> de_SessionsStopped e;
          credentialsRevoked = ds_CredentialsRevoked s \<or> de_CredentialsRevoked e;
          profileActionApplied = ds_ProfileActionApplied s \<or> de_ProfileActionApplied e
      in if credentialsRevoked \<and> \<not> sessionsStopped
         then Inl (DeletionErr ErrDeletionInvalidTransition)
         else if profileActionApplied \<and> \<not> credentialsRevoked
         then Inl (DeletionErr ErrDeletionInvalidTransition)
         else if de_To e = DeletionCleaningProfile \<and> \<not> credentialsRevoked
         then Inl (DeletionErr ErrDeletionInvalidTransition)
         else if de_To e = DeletionTombstoned \<and>
           (\<not> sessionsStopped \<or> \<not> credentialsRevoked \<or> \<not> profileActionApplied)
         then Inl (DeletionErr ErrDeletionInvalidTransition)
         else if (ds_Stage s = DeletionRetryWait \<or> ds_Stage s = DeletionBlocked)
           \<and> isDeletionCheckpointStage (de_To e) \<and> de_To e \<noteq> deletionCheckpointStage s
         then Inl (DeletionErr ErrDeletionInvalidTransition)
         else Inr ())"

definition DeletionSnapshot_Clone :: "DeletionSnapshot \<Rightarrow> DeletionSnapshot" where
  "DeletionSnapshot_Clone s =
     s\<lparr>ds_AppliedEvents :=
         Some (case ds_AppliedEvents s of None \<Rightarrow> kempty | Some m \<Rightarrow> kcopy m)\<rparr>"

definition lookupDeletionEvent :: "DeletionSnapshot \<Rightarrow> string \<Rightarrow> DeletionAudit option" where
  "lookupDeletionEvent s k =
     (case ds_AppliedEvents s of None \<Rightarrow> None | Some m \<Rightarrow> kget m k)"

text \<open>The assignments of \<open>ApplyDeletion\<close> that build the next snapshot.\<close>

definition nextDeletion :: "DeletionSnapshot \<Rightarrow> DeletionEvent \<Rightarrow> DeletionSnapshot \<times> DeletionAudit" where
  "nextDeletion state event =
     (let clone = DeletionSnapshot_Clone state;
          rev = ds_Revision clone + 1;
          audit = \<lparr>da_Event = event, da_Revision = rev\<rparr>;
          events = kput (de_EventID event) audit (the (ds_AppliedEvents clone));
          next1 = clone\<lparr>ds_Stage := de_To event, ds_Revision := rev,
            ds_UpdatedAt := de_OccurredAt event, ds_Attempt := de_Attempt event,
            ds_NextAttemptAt := de_NextAttemptAt event,
            ds_LastFailureClass := de_LastFailureClass event,
            ds_SessionsStopped := ds_SessionsStopped clone \<or> de_SessionsStopped event,
            ds_CredentialsRevoked := ds_CredentialsRevoked clone \<or> de_CredentialsRevoked event,
            ds_ProfileActionApplied := ds_ProfileActionApplied clone \<or> de_ProfileActionApplied event,
            ds_AppliedEvents := Some events\<rparr>;
          next2 = (if de_To event = DeletionTombstoned
            then next1\<lparr>ds_CompletedAt := de_OccurredAt event, ds_NextAttemptAt := zeroTime,
                       ds_LastFailureClass := NoFailure\<rparr>
            else next1)
      in (next2, audit))"

definition ApplyDeletion ::
  "DeletionSnapshot \<Rightarrow> DeletionEvent \<Rightarrow> DeletionTransitionResult result" where
  "ApplyDeletion state event =
     bindE (DeletionSnapshot_Validate state) (\<lambda>_.
     bindE (DeletionEvent_Validate event) (\<lambda>_.
     if de_DeletionID event \<noteq> ds_DeletionID state \<or> de_AccountID event \<noteq> ds_AccountID state
     then Inl (DeletionErr ErrInvalidDeletion)
     else case lookupDeletionEvent state (de_EventID event) of
       Some previous \<Rightarrow>
         if DeletionEvent_equal (da_Event previous) event
         then Inr \<lparr>dt_State = DeletionSnapshot_Clone state, dt_Audit = previous, dt_Idempotent = True\<rparr>
         else Inl (DeletionErr ErrDeletionEventConflict)
     | None \<Rightarrow>
         if ds_Stage state = DeletionTombstoned then Inl (DeletionErr ErrDeletionTerminal)
         else if de_ExpectedRevision event \<noteq> ds_Revision state \<or> de_From event \<noteq> ds_Stage state
         then Inl (DeletionErr ErrDeletionStaleEvent)
         else if \<not> CanDeleteTransition (de_From event) (de_To event)
         then Inl (DeletionErr ErrDeletionInvalidTransition)
         else if Before (de_OccurredAt event) (ds_UpdatedAt state)
         then Inl (DeletionErr ErrDeletionStaleEvent)
         else
           bindE (validateDeletionCheckpoints state event) (\<lambda>_.
           if ds_Revision state = - 1 then Inl (AccountErr ErrRevisionOverflow)
           else case nextDeletion state event of (next, audit) \<Rightarrow>
             Inr \<lparr>dt_State = next, dt_Audit = audit, dt_Idempotent = False\<rparr>)))"

section \<open>Facts of the operations\<close>

lemma DeletionEvent_equal_iff: "DeletionEvent_equal e f \<longleftrightarrow> e = f"
  by (auto simp: DeletionEvent_equal_def)

lemma DeletionEvent_Validate_iff:
  "DeletionEvent_Validate e = Inr () \<longleftrightarrow>
     nonEmptyDeletion (de_EventID e) \<and> nonEmptyDeletion (de_DeletionID e) \<and>
     nonEmptyDeletion (de_AccountID e) \<and> nonEmptyDeletion (de_Actor e) \<and>
     nonEmptyDeletion (de_ReasonClass e) \<and> validDeletionStage (de_From e) \<and>
     validDeletionStage (de_To e) \<and> de_OccurredAt e \<noteq> 0 \<and>
     validFailureClassDeletion (de_LastFailureClass e) \<and> 0 \<le> de_Attempt e \<and>
     (de_NextAttemptAt e = 0 \<or> de_OccurredAt e \<le> de_NextAttemptAt e)"
  by (auto simp: DeletionEvent_Validate_def)

text \<open>The static part of a deletion snapshot, which no event changes.\<close>

definition deletionIdentity :: "DeletionSnapshot \<Rightarrow> bool" where
  "deletionIdentity s \<longleftrightarrow>
     nonEmptyDeletion (ds_DeletionID s) \<and> nonEmptyDeletion (ds_AccountID s) \<and>
     nonEmptyDeletion (ds_AccountLabel s) \<and> nonEmptyDeletion (ds_Actor s) \<and>
     nonEmptyDeletion (ds_ReasonClass s) \<and> Status_Valid (ds_LastBusinessStatus s) \<and>
     (ds_ProfilePolicy s = ProfilePurge \<or> ds_ProfilePolicy s = ProfileRetain) \<and>
     ds_RequestedAt s \<noteq> 0"

definition deletionTimes :: "DeletionSnapshot \<Rightarrow> bool" where
  "deletionTimes s \<longleftrightarrow>
     validDeletionStage (ds_Stage s) \<and> ds_UpdatedAt s \<noteq> 0 \<and> ds_RequestedAt s \<le> ds_UpdatedAt s \<and>
     0 \<le> ds_Attempt s \<and> validFailureClassDeletion (ds_LastFailureClass s) \<and>
     (if ds_Stage s = DeletionTombstoned then ds_CompletedAt s \<noteq> 0 \<and> ds_CompletedAt s = ds_UpdatedAt s
      else ds_CompletedAt s = 0) \<and>
     (ds_NextAttemptAt s = 0 \<or> ds_UpdatedAt s \<le> ds_NextAttemptAt s)"

definition deletionCheckpoints :: "DeletionSnapshot \<Rightarrow> bool" where
  "deletionCheckpoints s \<longleftrightarrow>
     (ds_CredentialsRevoked s \<longrightarrow> ds_SessionsStopped s) \<and>
     (ds_ProfileActionApplied s \<longrightarrow> ds_CredentialsRevoked s) \<and>
     (ds_Stage s = DeletionTombstoned \<longrightarrow> ds_ProfileActionApplied s)"

definition deletionIndex :: "DeletionSnapshot \<Rightarrow> (string, DeletionAudit) kmap \<Rightarrow> bool" where
  "deletionIndex s m \<longleftrightarrow>
     ds_AppliedEvents s = Some m \<and> word_of_nat (klen m) = ds_Revision s \<and>
     (\<forall>k a. kget m k = Some a \<longrightarrow> checkDeletionEntry s (k, a) = Inr ())"

lemma deletionIndex_check:
  "(\<forall>p \<in> set (kentries m). checkDeletionEntry s p = Inr ()) \<longleftrightarrow>
   (\<forall>k a. kget m k = Some a \<longrightarrow> checkDeletionEntry s (k, a) = Inr ())"
  by (auto simp: kentries_iff [symmetric])

lemma DeletionSnapshot_Validate_iff:
  "DeletionSnapshot_Validate s = Inr () \<longleftrightarrow>
     deletionIdentity s \<and> deletionTimes s \<and> deletionCheckpoints s \<and> (\<exists>m. deletionIndex s m)"
proof (cases "ds_AppliedEvents s")
  case None
  then show ?thesis by (simp add: DeletionSnapshot_Validate_def deletionIndex_def)
next
  case (Some m)
  have idx: "(\<exists>m. deletionIndex s m) \<longleftrightarrow> deletionIndex s m"
    using Some by (auto simp: deletionIndex_def)
  show ?thesis
    unfolding idx unfolding DeletionSnapshot_Validate_def deletionIdentity_def deletionTimes_def
      deletionCheckpoints_def deletionIndex_def
    using Some by (auto simp: foldE_check deletionIndex_check)
qed

lemma checkDeletionEntry_iff:
  "checkDeletionEntry s (i, a) = Inr () \<longleftrightarrow>
     i \<noteq> [] \<and> da_Revision a \<noteq> 0 \<and> da_Revision a \<le> ds_Revision s \<and>
     de_EventID (da_Event a) = i \<and> de_DeletionID (da_Event a) = ds_DeletionID s \<and>
     de_AccountID (da_Event a) = ds_AccountID s \<and> DeletionEvent_Validate (da_Event a) = Inr ()"
  by (auto simp: checkDeletionEntry_def not_less)

lemma validateDeletionCheckpoints_iff:
  "validateDeletionCheckpoints s e = Inr () \<longleftrightarrow>
     (let ss = ds_SessionsStopped s \<or> de_SessionsStopped e;
          cr = ds_CredentialsRevoked s \<or> de_CredentialsRevoked e;
          pa = ds_ProfileActionApplied s \<or> de_ProfileActionApplied e
      in (cr \<longrightarrow> ss) \<and> (pa \<longrightarrow> cr) \<and> (de_To e = DeletionCleaningProfile \<longrightarrow> cr) \<and>
         (de_To e = DeletionTombstoned \<longrightarrow> pa) \<and>
         ((ds_Stage s = DeletionRetryWait \<or> ds_Stage s = DeletionBlocked) \<and>
            isDeletionCheckpointStage (de_To e) \<longrightarrow> de_To e = deletionCheckpointStage s))"
  by (auto simp: validateDeletionCheckpoints_def Let_def)

lemma CanDeleteTransition_valid:
  "CanDeleteTransition from to \<Longrightarrow> validDeletionStage from \<and> validDeletionStage to"
  by (auto simp: CanDeleteTransition_def split: if_splits)

lemma DeletionSnapshot_Clone_valid:
  "DeletionSnapshot_Validate s = Inr () \<Longrightarrow> DeletionSnapshot_Clone s = s"
  by (auto simp: DeletionSnapshot_Validate_iff deletionIndex_def DeletionSnapshot_Clone_def)

lemma ApplyDeletion_valid_state: "ApplyDeletion s e = Inr r \<Longrightarrow> DeletionSnapshot_Validate s = Inr ()"
  by (simp add: ApplyDeletion_def)

text \<open>What an accepted new event requires, and that it applies \<open>nextDeletion\<close>.\<close>

lemma ApplyDeletion_new:
  assumes "lookupDeletionEvent s (de_EventID e) = None" "ApplyDeletion s e = Inr r"
  shows "DeletionSnapshot_Validate s = Inr ()" "DeletionEvent_Validate e = Inr ()"
    "de_DeletionID e = ds_DeletionID s" "de_AccountID e = ds_AccountID s"
    "ds_Stage s \<noteq> DeletionTombstoned" "de_ExpectedRevision e = ds_Revision s"
    "de_From e = ds_Stage s" "CanDeleteTransition (de_From e) (de_To e)"
    "ds_UpdatedAt s \<le> de_OccurredAt e" "validateDeletionCheckpoints s e = Inr ()"
    "ds_Revision s \<noteq> - 1"
    "dt_State r = fst (nextDeletion s e)" "dt_Audit r = snd (nextDeletion s e)" "\<not> dt_Idempotent r"
  using assms by (auto simp: ApplyDeletion_def split: prod.splits)

lemma ApplyDeletion_known:
  assumes "lookupDeletionEvent s (de_EventID e) = Some p"
  shows "ApplyDeletion s e = Inr r \<longleftrightarrow>
     DeletionSnapshot_Validate s = Inr () \<and> DeletionEvent_Validate e = Inr () \<and>
     de_DeletionID e = ds_DeletionID s \<and> de_AccountID e = ds_AccountID s \<and> da_Event p = e \<and>
     r = \<lparr>dt_State = s, dt_Audit = p, dt_Idempotent = True\<rparr>"
  using assms by (auto simp: ApplyDeletion_def DeletionEvent_equal_iff DeletionSnapshot_Clone_valid)

lemma nextDeletion_fields:
  fixes e :: DeletionEvent
  assumes "ds_AppliedEvents s = Some m"
  defines "t \<equiv> fst (nextDeletion s e)"
  shows "ds_DeletionID t = ds_DeletionID s" "ds_AccountID t = ds_AccountID s"
    "ds_AccountLabel t = ds_AccountLabel s" "ds_LastBusinessStatus t = ds_LastBusinessStatus s"
    "ds_Actor t = ds_Actor s" "ds_ReasonClass t = ds_ReasonClass s"
    "ds_ProfilePolicy t = ds_ProfilePolicy s" "ds_RequestedAt t = ds_RequestedAt s"
    "ds_Stage t = de_To e" "ds_Revision t = ds_Revision s + 1" "ds_UpdatedAt t = de_OccurredAt e"
    "ds_Attempt t = de_Attempt e"
    "ds_CompletedAt t = (if de_To e = DeletionTombstoned then de_OccurredAt e else ds_CompletedAt s)"
    "ds_NextAttemptAt t = (if de_To e = DeletionTombstoned then 0 else de_NextAttemptAt e)"
    "ds_LastFailureClass t =
       (if de_To e = DeletionTombstoned then NoFailure else de_LastFailureClass e)"
    "ds_SessionsStopped t \<longleftrightarrow> ds_SessionsStopped s \<or> de_SessionsStopped e"
    "ds_CredentialsRevoked t \<longleftrightarrow> ds_CredentialsRevoked s \<or> de_CredentialsRevoked e"
    "ds_ProfileActionApplied t \<longleftrightarrow> ds_ProfileActionApplied s \<or> de_ProfileActionApplied e"
    "ds_AppliedEvents t =
       Some (kput (de_EventID e) \<lparr>da_Event = e, da_Revision = ds_Revision s + 1\<rparr> m)"
  using assms(1) unfolding t_def
  by (simp_all add: nextDeletion_def Let_def DeletionSnapshot_Clone_def)

lemma ApplyDeletion_new_valid:
  assumes new: "lookupDeletionEvent s (de_EventID e) = None" and ok: "ApplyDeletion s e = Inr r"
  shows "DeletionSnapshot_Validate (dt_State r) = Inr ()"
proof -
  note h = ApplyDeletion_new [OF new ok]
  from h(1) obtain m where m: "deletionIndex s m" and ident: "deletionIdentity s"
    and times: "deletionTimes s" and cps: "deletionCheckpoints s"
    by (auto simp: DeletionSnapshot_Validate_iff)
  then have ae: "ds_AppliedEvents s = Some m" by (simp add: deletionIndex_def)
  note t = nextDeletion_fields [OF ae, where e = e]
  note ev = h(2) [unfolded DeletionEvent_Validate_iff]
  have 1: "deletionIdentity (dt_State r)" using ident by (simp add: deletionIdentity_def h(12) t)
  have 2: "deletionTimes (dt_State r)"
    using times h(5,9) ev CanDeleteTransition_valid [OF h(8)]
    by (simp add: deletionTimes_def h(12) t validFailureClassDeletion_def)
  have 3: "deletionCheckpoints (dt_State r)"
    using h(10) by (auto simp: deletionCheckpoints_def h(12) t validateDeletionCheckpoints_iff Let_def)
  have n: "kget m (de_EventID e) = None" using new ae by (simp add: lookupDeletionEvent_def)
  have 4: "deletionIndex (dt_State r)
     (kput (de_EventID e) \<lparr>da_Event = e, da_Revision = ds_Revision s + 1\<rparr> m)"
  proof -
    have pos: "ds_Revision s + 1 \<noteq> 0" using h(11) by (metis eq_neg_iff_add_eq_0)
    have ne: "de_EventID e \<noteq> []" using ev by (simp add: nonEmptyDeletion_def)
    have old: "da_Revision a \<le> ds_Revision s + 1"
      if "da_Revision a \<le> ds_Revision s" for a using less_Suc64 [OF h(11) that] by simp
    have "word_of_nat (klen m) = ds_Revision s" using m by (simp add: deletionIndex_def)
    then have "word_of_nat (klen (kput (de_EventID e)
        \<lparr>da_Event = e, da_Revision = ds_Revision s + 1\<rparr> m)) = ds_Revision s + 1"
      by (simp add: klen_kput_new [OF n] add.commute)
    with m pos ne old h(2,3,4) show ?thesis
      by (auto simp: deletionIndex_def h(12) t checkDeletionEntry_iff split: if_splits)
  qed
  show ?thesis using 1 2 3 4 by (auto simp: DeletionSnapshot_Validate_iff)
qed

lemma ApplyDeletion_valid:
  assumes "ApplyDeletion s e = Inr r"
  shows "DeletionSnapshot_Validate (dt_State r) = Inr ()"
proof (cases "lookupDeletionEvent s (de_EventID e)")
  case None
  then show ?thesis using assms by (rule ApplyDeletion_new_valid)
next
  case (Some p)
  then show ?thesis using assms by (simp add: ApplyDeletion_known)
qed

section \<open>The event-machine contract\<close>

definition deletion_valid :: "DeletionSnapshot \<Rightarrow> bool" where
  "deletion_valid s \<longleftrightarrow> DeletionSnapshot_Validate s = Inr ()"

definition deletion_step :: "DeletionSnapshot \<Rightarrow> DeletionEvent \<Rightarrow> error + (DeletionSnapshot \<times> bool)" where
  "deletion_step s e = bindE (ApplyDeletion s e) (\<lambda>r. Inr (dt_State r, dt_Idempotent r))"

definition applied_deletion :: "DeletionSnapshot \<Rightarrow> string \<Rightarrow> DeletionEvent option" where
  "applied_deletion s k = map_option da_Event (lookupDeletionEvent s k)"

definition deletion_rev :: "DeletionSnapshot \<Rightarrow> nat" where
  "deletion_rev s = (case ds_AppliedEvents s of None \<Rightarrow> 0 | Some m \<Rightarrow> klen m)"

lemma ApplyDeletion_new_index:
  assumes new: "lookupDeletionEvent s (de_EventID e) = None" and ok: "ApplyDeletion s e = Inr r"
  shows "applied_deletion (dt_State r) = (applied_deletion s)(de_EventID e \<mapsto> e)"
    and "deletion_rev (dt_State r) = Suc (deletion_rev s)"
proof -
  from ApplyDeletion_new(1) [OF new ok] obtain m where m: "ds_AppliedEvents s = Some m"
    by (auto simp: DeletionSnapshot_Validate_iff deletionIndex_def)
  have n: "kget m (de_EventID e) = None" using new m by (simp add: lookupDeletionEvent_def)
  note t = ApplyDeletion_new(12) [OF new ok] nextDeletion_fields(19) [OF m, of e]
  show "applied_deletion (dt_State r) = (applied_deletion s)(de_EventID e \<mapsto> e)"
    by (auto simp: applied_deletion_def lookupDeletionEvent_def t m fun_eq_iff)
  show "deletion_rev (dt_State r) = Suc (deletion_rev s)"
    by (simp add: deletion_rev_def t m klen_kput_new [OF n])
qed

interpretation dm: event_machine deletion_valid deletion_step applied_deletion de_EventID deletion_rev
proof
  fix s e s' i
  assume "deletion_step s e = Inr (s', i)"
  then show "deletion_valid s'"
    by (auto simp: deletion_step_def deletion_valid_def dest: ApplyDeletion_valid)
next
  fix s e s' i f
  assume "deletion_step s e = Inr (s', i)" "applied_deletion s (de_EventID e) = Some f"
  then show "f = e \<and> s' = s \<and> i"
    by (auto simp: deletion_step_def applied_deletion_def ApplyDeletion_known)
next
  fix s e s' i
  assume a: "deletion_step s e = Inr (s', i)" and "applied_deletion s (de_EventID e) = None"
  then have new: "lookupDeletionEvent s (de_EventID e) = None" by (simp add: applied_deletion_def)
  from a obtain r where r: "ApplyDeletion s e = Inr r" "s' = dt_State r" "i = dt_Idempotent r"
    by (auto simp: deletion_step_def)
  show "\<not> i \<and> applied_deletion s' = (applied_deletion s)(de_EventID e \<mapsto> e) \<and>
      deletion_rev s' = Suc (deletion_rev s)"
    using ApplyDeletion_new(14) [OF new r(1)] ApplyDeletion_new_index [OF new r(1)] r(2,3) by simp
next
  fix s e
  assume v: "deletion_valid s" and "applied_deletion s (de_EventID e) = Some e"
  then obtain p where p: "lookupDeletionEvent s (de_EventID e) = Some p" "da_Event p = e"
    by (auto simp: applied_deletion_def)
  then have "checkDeletionEntry s (de_EventID e, p) = Inr ()"
    using v by (auto simp: deletion_valid_def DeletionSnapshot_Validate_iff deletionIndex_def
        lookupDeletionEvent_def)
  with p v have "ApplyDeletion s e = Inr \<lparr>dt_State = s, dt_Audit = p, dt_Idempotent = True\<rparr>"
    by (auto simp: ApplyDeletion_known deletion_valid_def checkDeletionEntry_iff)
  then show "deletion_step s e = Inr (s, True)" by (simp add: deletion_step_def)
qed

section \<open>Runs of the deletion\<close>

text \<open>One accepted event, as a relation on snapshots.\<close>

inductive deletionSteps :: "DeletionSnapshot \<Rightarrow> DeletionSnapshot \<Rightarrow> bool" where
  refl: "deletionSteps s s"
| step: "deletionSteps s t \<Longrightarrow> ApplyDeletion t e = Inr r \<Longrightarrow> deletionSteps s (dt_State r)"

lemma ApplyDeletion_effect:
  assumes "ApplyDeletion s e = Inr r"
  shows "dt_State r = s \<or>
     (ds_Stage s \<noteq> DeletionTombstoned \<and> CanDeleteTransition (ds_Stage s) (ds_Stage (dt_State r)) \<and>
      (ds_SessionsStopped s \<longrightarrow> ds_SessionsStopped (dt_State r)) \<and>
      (ds_CredentialsRevoked s \<longrightarrow> ds_CredentialsRevoked (dt_State r)) \<and>
      (ds_ProfileActionApplied s \<longrightarrow> ds_ProfileActionApplied (dt_State r)) \<and>
      ds_UpdatedAt s \<le> ds_UpdatedAt (dt_State r))"
proof (cases "lookupDeletionEvent s (de_EventID e)")
  case None
  note h = ApplyDeletion_new [OF None assms]
  obtain m where m: "ds_AppliedEvents s = Some m"
    using h(1) by (auto simp: DeletionSnapshot_Validate_iff deletionIndex_def)
  show ?thesis
    using h(5,7,8,9) unfolding h(12) nextDeletion_fields [OF m, of e] by auto
next
  case (Some p)
  then show ?thesis using assms by (simp add: ApplyDeletion_known)
qed

lemma deletionSteps_monotone:
  assumes "deletionSteps s t"
  shows "(ds_SessionsStopped s \<longrightarrow> ds_SessionsStopped t) \<and>
     (ds_CredentialsRevoked s \<longrightarrow> ds_CredentialsRevoked t) \<and>
     (ds_ProfileActionApplied s \<longrightarrow> ds_ProfileActionApplied t) \<and>
     ds_UpdatedAt s \<le> ds_UpdatedAt t \<and> (ds_Stage s = DeletionTombstoned \<longrightarrow> t = s)"
  using assms
proof (induction rule: deletionSteps.induct)
  case (refl s)
  then show ?case by simp
next
  case (step s t e r)
  then show ?case using ApplyDeletion_effect [OF step.hyps(2)] by auto
qed

lemma deletionSteps_valid:
  "deletionSteps s t \<Longrightarrow> DeletionSnapshot_Validate s = Inr () \<Longrightarrow> DeletionSnapshot_Validate t = Inr ()"
  by (induction rule: deletionSteps.induct) (auto dest: ApplyDeletion_valid)

text \<open>The stage that cleans the profile is entered only with revoked credentials.\<close>

lemma deletionSteps_cleaning:
  assumes "deletionSteps s t" "ds_Stage s = DeletionCleaningProfile \<longrightarrow> ds_CredentialsRevoked s"
  shows "ds_Stage t = DeletionCleaningProfile \<longrightarrow> ds_CredentialsRevoked t"
  using assms
proof (induction rule: deletionSteps.induct)
  case (step s t e r)
  show ?case
  proof (cases "lookupDeletionEvent t (de_EventID e)")
    case None
    note h = ApplyDeletion_new [OF None step.hyps(2)]
    obtain m where m: "ds_AppliedEvents t = Some m"
      using h(1) by (auto simp: DeletionSnapshot_Validate_iff deletionIndex_def)
    show ?thesis
      using h(10) unfolding h(12) nextDeletion_fields [OF m, of e] by (simp add: validateDeletionCheckpoints_iff Let_def)
  next
    case (Some p)
    then show ?thesis using step by (simp add: ApplyDeletion_known)
  qed
qed simp

text \<open>Where an accepted new event may lead.\<close>

definition deletionMove :: "DeletionSnapshot \<Rightarrow> DeletionSnapshot \<Rightarrow> bool" where
  "deletionMove s t \<longleftrightarrow> CanDeleteTransition (ds_Stage s) (ds_Stage t) \<and>
     (ds_Stage s \<in> {DeletionRetryWait, DeletionBlocked} \<and> isDeletionCheckpointStage (ds_Stage t) \<longrightarrow>
        ds_Stage t = deletionCheckpointStage s)"

lemma ApplyDeletion_move:
  assumes "ApplyDeletion s e = Inr r" "\<not> dt_Idempotent r"
  shows "deletionMove s (dt_State r)"
proof -
  have new: "lookupDeletionEvent s (de_EventID e) = None"
    using assms by (cases "lookupDeletionEvent s (de_EventID e)") (auto simp: ApplyDeletion_known)
  note h = ApplyDeletion_new [OF new assms(1)]
  obtain m where m: "ds_AppliedEvents s = Some m"
    using h(1) by (auto simp: DeletionSnapshot_Validate_iff deletionIndex_def)
  show ?thesis
    using h(7,8,10) unfolding deletionMove_def h(12) nextDeletion_fields [OF m, of e]
    by (auto simp: validateDeletionCheckpoints_iff Let_def)
qed

section \<open>Properties\<close>

text \<open>
  Every event \<open>ApplyDeletion\<close> accepts leads from a snapshot that passes \<open>Validate\<close> to one
  that passes it again: identity, times, the order of the checkpoints, the audit index and its
  64-bit count all survive, whatever flags the event carries.
\<close>

theorem ApplyDeletion_preserves_Validate:
  assumes "ApplyDeletion s e = Inr r"
  shows "DeletionSnapshot_Validate s = Inr () \<and> DeletionSnapshot_Validate (dt_State r) = Inr ()"
  using ApplyDeletion_valid_state [OF assms] ApplyDeletion_valid [OF assms] by blast

text \<open>
  C8. A deletion only moves forward, in the order of its checkpoints. Whatever events are accepted from
  a new deletion on, in every state that is reached the credentials are revoked only after the sessions
  were stopped, the profile action is applied only after that, the profile is being cleaned only with
  revoked credentials, and the account is tombstoned only after all three. No checkpoint is undone, time
  does not go back and a tombstone is final; every new event takes an allowed transition, and one that
  leaves the wait for a retry or the block for a working stage resumes at the first checkpoint that is
  still missing.
\<close>

theorem deletion_runs_forward:
  assumes "NewDeletion d a lbl act rc pol st at = Inr s0" "deletionSteps s0 s" "deletionSteps s t"
  shows "(ds_CredentialsRevoked t \<longrightarrow> ds_SessionsStopped t) \<and>
     (ds_ProfileActionApplied t \<longrightarrow> ds_CredentialsRevoked t) \<and>
     (ds_Stage t = DeletionCleaningProfile \<longrightarrow> ds_CredentialsRevoked t) \<and>
     (ds_Stage t = DeletionTombstoned \<longrightarrow> ds_ProfileActionApplied t \<and> ds_CompletedAt t = ds_UpdatedAt t) \<and>
     (ds_SessionsStopped s \<longrightarrow> ds_SessionsStopped t) \<and>
     (ds_CredentialsRevoked s \<longrightarrow> ds_CredentialsRevoked t) \<and>
     (ds_ProfileActionApplied s \<longrightarrow> ds_ProfileActionApplied t) \<and>
     ds_UpdatedAt s \<le> ds_UpdatedAt t \<and>
     (ds_Stage s = DeletionTombstoned \<longrightarrow> t = s) \<and>
     (\<forall>e r. ApplyDeletion t e = Inr r \<and> \<not> dt_Idempotent r \<longrightarrow>
        CanDeleteTransition (ds_Stage t) (ds_Stage (dt_State r)) \<and>
        (ds_Stage t \<in> {DeletionRetryWait, DeletionBlocked} \<and> isDeletionCheckpointStage (ds_Stage (dt_State r)) \<longrightarrow>
           ds_Stage (dt_State r) =
             (if \<not> ds_SessionsStopped t then DeletionStoppingSessions
              else if \<not> ds_CredentialsRevoked t then DeletionRevokingCredentials
              else DeletionCleaningProfile)))"
proof -
  have new: "DeletionSnapshot_Validate s0 = Inr ()" "ds_Stage s0 = DeletionRequested"
    using assms(1) by (auto simp: NewDeletion_def Let_def)
  then have "DeletionSnapshot_Validate t = Inr ()"
    using assms(2,3) deletionSteps_valid by blast
  then have "deletionCheckpoints t" "deletionTimes t"
    by (simp_all add: DeletionSnapshot_Validate_iff)
  then have "(ds_CredentialsRevoked t \<longrightarrow> ds_SessionsStopped t) \<and> (ds_ProfileActionApplied t \<longrightarrow> ds_CredentialsRevoked t)"
    "ds_Stage t = DeletionTombstoned \<longrightarrow> ds_ProfileActionApplied t \<and> ds_CompletedAt t = ds_UpdatedAt t"
    by (simp_all add: deletionCheckpoints_def deletionTimes_def)
  moreover have "ds_Stage t = DeletionCleaningProfile \<longrightarrow> ds_CredentialsRevoked t"
    using deletionSteps_cleaning [OF assms(3) deletionSteps_cleaning [OF assms(2)]] new(2) by simp
  moreover have "\<forall>e r. ApplyDeletion t e = Inr r \<and> \<not> dt_Idempotent r \<longrightarrow> deletionMove t (dt_State r)"
    using ApplyDeletion_move by blast
  ultimately show ?thesis
    using deletionSteps_monotone [OF assms(3)] unfolding deletionMove_def deletionCheckpointStage_def by blast
qed

text \<open>
  A deletion that waits for a retry or was blocked resumes at its first unfinished step:
  an accepted event that leaves the wait for a working stage names exactly the stage of the
  earliest checkpoint not yet reached.
\<close>

theorem deletion_resumes_at_checkpoint:
  assumes "ApplyDeletion s e = Inr r" "\<not> dt_Idempotent r"
    and "ds_Stage s = DeletionRetryWait \<or> ds_Stage s = DeletionBlocked"
    and "isDeletionCheckpointStage (de_To e)"
  shows "ds_Stage (dt_State r) =
     (if \<not> ds_SessionsStopped s then DeletionStoppingSessions
      else if \<not> ds_CredentialsRevoked s then DeletionRevokingCredentials
      else DeletionCleaningProfile)"
proof -
  have new: "lookupDeletionEvent s (de_EventID e) = None"
    using assms(1,2) by (cases "lookupDeletionEvent s (de_EventID e)") (auto simp: ApplyDeletion_known)
  note h = ApplyDeletion_new [OF new assms(1)]
  obtain m where m: "ds_AppliedEvents s = Some m"
    using h(1) by (auto simp: DeletionSnapshot_Validate_iff deletionIndex_def)
  have "de_To e = deletionCheckpointStage s"
    using h(10) assms(3,4) by (simp add: validateDeletionCheckpoints_iff Let_def)
  then show ?thesis
    unfolding h(12) nextDeletion_fields(9) [OF m, of e] by (simp add: deletionCheckpointStage_def)
qed

section \<open>A concrete deletion\<close>

definition demoDeletion :: DeletionSnapshot where
  "demoDeletion = \<lparr>ds_DeletionID = ''del-1'', ds_AccountID = ''acct-1'', ds_AccountLabel = ''id_1'',
     ds_Stage = DeletionRequested, ds_LastBusinessStatus = NoRequest, ds_Actor = ''op'',
     ds_ReasonClass = ''user'', ds_ProfilePolicy = ProfilePurge, ds_Revision = 0,
     ds_RequestedAt = 5, ds_UpdatedAt = 5, ds_CompletedAt = 0, ds_Attempt = 0,
     ds_NextAttemptAt = 0, ds_LastFailureClass = NoFailure, ds_SessionsStopped = False,
     ds_CredentialsRevoked = False, ds_ProfileActionApplied = False, ds_AppliedEvents = Some kempty\<rparr>"

definition demoBlock :: DeletionEvent where
  "demoBlock = \<lparr>de_EventID = ''ev-1'', de_DeletionID = ''del-1'', de_AccountID = ''acct-1'',
     de_Actor = ''op'', de_ReasonClass = ''user'', de_ExpectedRevision = 0,
     de_From = DeletionRequested, de_To = DeletionBlocked, de_OccurredAt = 6, de_Attempt = 1,
     de_NextAttemptAt = 0, de_LastFailureClass = UnknownFailure, de_SessionsStopped = True,
     de_CredentialsRevoked = False, de_ProfileActionApplied = False\<rparr>"

definition demoBlocked :: DeletionSnapshot where
  "demoBlocked = demoDeletion\<lparr>ds_Stage := DeletionBlocked, ds_Revision := 1, ds_UpdatedAt := 6,
     ds_Attempt := 1, ds_LastFailureClass := UnknownFailure, ds_SessionsStopped := True,
     ds_AppliedEvents := Some (kput ''ev-1'' \<lparr>da_Event = demoBlock, da_Revision = 1\<rparr> kempty)\<rparr>"

definition demoResume :: DeletionEvent where
  "demoResume = demoBlock\<lparr>de_EventID := ''ev-2'', de_ExpectedRevision := 1,
     de_From := DeletionBlocked, de_To := DeletionRevokingCredentials, de_OccurredAt := 7\<rparr>"

lemma nonEmptyDeletion_plain [go_simps]:
  "plainChar c \<Longrightarrow> plainChar (last (c # cs)) \<Longrightarrow> length cs < 256 \<Longrightarrow> \<not> ContainsAny (c # cs) crlf \<Longrightarrow>
   nonEmptyDeletion (c # cs)"
  by (simp add: nonEmptyDeletion_def TrimSpace_plain_Cons)

lemmas ContainsAny_eval [go_simps] = ContainsAny_def

lemma demo_deletion_valid: "DeletionSnapshot_Validate demoDeletion = Inr ()"
  by (simp add: demoDeletion_def DeletionSnapshot_Validate_def validFailureClassDeletion_def go_simps)

lemma demo_deletion_new:
  "NewDeletion ''del-1'' ''acct-1'' ''id_1'' ''op'' ''user'' ProfilePurge NoRequest 5 = Inr demoDeletion"
  using demo_deletion_valid by (simp add: NewDeletion_def demoDeletion_def)

lemma demo_block_apply:
  "ApplyDeletion demoDeletion demoBlock = Inr \<lparr>dt_State = demoBlocked,
     dt_Audit = \<lparr>da_Event = demoBlock, da_Revision = 1\<rparr>, dt_Idempotent = False\<rparr>"
proof -
  have "DeletionEvent_Validate demoBlock = Inr ()"
    by (simp add: DeletionEvent_Validate_iff demoBlock_def validFailureClassDeletion_def go_simps)
  moreover have "nextDeletion demoDeletion demoBlock =
      (demoBlocked, \<lparr>da_Event = demoBlock, da_Revision = 1\<rparr>)"
    by (simp add: nextDeletion_def Let_def DeletionSnapshot_Clone_def demoBlocked_def)
      (simp add: demoDeletion_def demoBlock_def)
  moreover have "validateDeletionCheckpoints demoDeletion demoBlock = Inr ()"
    by (simp add: validateDeletionCheckpoints_def demoDeletion_def demoBlock_def)
  moreover have "lookupDeletionEvent demoDeletion (de_EventID demoBlock) = None"
    by (simp add: lookupDeletionEvent_def demoDeletion_def)
  ultimately show ?thesis
    using demo_deletion_valid
    by (simp add: ApplyDeletion_def) (simp add: demoDeletion_def demoBlock_def CanDeleteTransition_def)
qed

lemma demo_resume_ok: "isOk (ApplyDeletion demoBlocked demoResume)"
proof -
  have "DeletionSnapshot_Validate demoBlocked = Inr ()"
    using ApplyDeletion_valid [OF demo_block_apply] by simp
  moreover have "DeletionEvent_Validate demoResume = Inr ()"
    by (simp add: DeletionEvent_Validate_iff demoResume_def demoBlock_def
        validFailureClassDeletion_def go_simps)
  moreover have "validateDeletionCheckpoints demoBlocked demoResume = Inr ()"
    by (simp add: validateDeletionCheckpoints_def demoBlocked_def demoDeletion_def demoResume_def
        demoBlock_def deletionCheckpointStage_def)
  moreover have "lookupDeletionEvent demoBlocked (de_EventID demoResume) = None"
    by (simp add: lookupDeletionEvent_def demoBlocked_def demoResume_def)
  ultimately show ?thesis
    by (simp add: ApplyDeletion_def)
      (simp add: demoBlocked_def demoDeletion_def demoResume_def demoBlock_def CanDeleteTransition_def
        split: prod.splits)
qed

theorem ApplyDeletion_preserves_Validate_witness:
  "DeletionSnapshot_Validate demoDeletion = Inr () \<and> DeletionSnapshot_Validate demoBlocked = Inr ()"
  using ApplyDeletion_preserves_Validate [OF demo_block_apply] by simp

theorem deletion_runs_forward_witness:
  "ds_UpdatedAt demoDeletion \<le> ds_UpdatedAt demoBlocked \<and>
   (\<exists>r. ApplyDeletion demoBlocked demoResume = Inr r \<and> ds_Stage (dt_State r) = DeletionRevokingCredentials)"
proof -
  have "deletionSteps demoDeletion demoBlocked"
    using deletionSteps.step [OF deletionSteps.refl demo_block_apply] by simp
  note f = deletion_runs_forward [OF demo_deletion_new deletionSteps.refl this]
  have d: "ds_Stage demoBlocked = DeletionBlocked" "ds_SessionsStopped demoBlocked" "\<not> ds_CredentialsRevoked demoBlocked"
    by (simp_all add: demoBlocked_def demoDeletion_def)
  obtain r where r: "ApplyDeletion demoBlocked demoResume = Inr r" using demo_resume_ok by (auto simp: isOk_iff)
  have new: "lookupDeletionEvent demoBlocked (de_EventID demoResume) = None"
    by (simp add: lookupDeletionEvent_def demoBlocked_def demoResume_def)
  note h = ApplyDeletion_new [OF new r]
  have "isDeletionCheckpointStage (ds_Stage (dt_State r))"
    unfolding h(12) by (simp add: nextDeletion_def Let_def demoResume_def)
  then have "ds_Stage (dt_State r) = DeletionRevokingCredentials" using f r h(14) d by auto
  with f r show ?thesis by blast
qed

theorem deletion_resumes_at_checkpoint_witness:
  "\<exists>r. ApplyDeletion demoBlocked demoResume = Inr r \<and> ds_Stage (dt_State r) = DeletionRevokingCredentials"
proof -
  obtain r where r: "ApplyDeletion demoBlocked demoResume = Inr r"
    using demo_resume_ok by (auto simp: isOk_iff)
  have new: "lookupDeletionEvent demoBlocked (de_EventID demoResume) = None"
    by (simp add: lookupDeletionEvent_def demoBlocked_def demoResume_def)
  have "\<not> dt_Idempotent r" by (rule ApplyDeletion_new(14) [OF new r])
  moreover have "ds_Stage demoBlocked = DeletionBlocked" by (simp add: demoBlocked_def)
  moreover have "isDeletionCheckpointStage (de_To demoResume)" by (simp add: demoResume_def)
  ultimately have "ds_Stage (dt_State r) = DeletionRevokingCredentials"
    using deletion_resumes_at_checkpoint [OF r] by (simp add: demoBlocked_def demoDeletion_def)
  with r show ?thesis by blast
qed

end
