(* ===== verification/StoreBase.thy ===== *)
theory StoreBase
  imports AccountState AccountRetry AccountLease AccountDeletion "HOL-Library.Product_Lexorder"
begin

text \<open>
  The ground of internal/store: the durable records, the buckets of the database, the
  transaction wrappers \<open>view\<close> and \<open>update\<close> of store.go, and the byte encodings of its keys.
\<close>

section \<open>Byte keys\<close>

text \<open>\<open>binary.BigEndian.PutUint64\<close> and \<open>Uint64\<close>: the digits of a number to the base 256.\<close>

fun beBytes :: "nat \<Rightarrow> nat \<Rightarrow> string" where
  "beBytes 0 n = []"
| "beBytes (Suc k) n = beBytes k (n div 256) @ [char_of (n mod 256)]"

definition beNat :: "string \<Rightarrow> nat" where
  "beNat bs = foldl (\<lambda>a c. a * 256 + of_char c) 0 bs"

definition PutUint64 :: "uint64 \<Rightarrow> string" where
  "PutUint64 w = beBytes 8 (unat w)"

definition Uint64 :: "string \<Rightarrow> uint64" where
  "Uint64 bs = word_of_nat (beNat bs)"

definition revisionKey :: "uint64 \<Rightarrow> string" where
  "revisionKey revision = PutUint64 revision"

text \<open>The time of a queue key has its sign bit flipped, and a zero byte separates the id.\<close>

definition queueKey :: "gotime \<Rightarrow> string \<Rightarrow> string" where
  "queueKey at requestID =
     PutUint64 (xor (word_of_int (UnixNano at)) (push_bit 63 1)) @ [CHR 0x00] @ requestID"

lemma length_beBytes [simp]: "length (beBytes k n) = k"
  by (induction k arbitrary: n) auto

lemma beNat_append: "beNat (bs @ [c]) = beNat bs * 256 + of_char c"
  by (simp add: beNat_def)

lemma beNat_beBytes: "n < 256 ^ k \<Longrightarrow> beNat (beBytes k n) = n"
proof (induction k arbitrary: n)
  case 0
  then show ?case by (simp add: beNat_def)
next
  case (Suc k)
  then have "n div 256 < 256 ^ k" by (simp add: less_mult_imp_div_less mult.commute)
  with Suc.IH show ?case by (simp add: beNat_append)
qed

lemma beNat_bound: "beNat bs < 256 ^ length bs"
proof (induction bs rule: rev_induct)
  case Nil
  then show ?case by (simp add: beNat_def)
next
  case (snoc c bs)
  have c: "(of_char c :: nat) < 256" by simp
  have "beNat bs + 1 \<le> 256 ^ length bs" using snoc by simp
  then have "(beNat bs + 1) * 256 \<le> 256 ^ length bs * 256" by (rule mult_le_mono1)
  moreover have "(x + 1) * 256 \<le> p * 256 \<Longrightarrow> y < 256 \<Longrightarrow> x * 256 + y < p * 256" for x y p :: nat
    by presburger
  ultimately have "beNat bs * 256 + of_char c < 256 ^ length bs * 256" using c by blast
  then show ?case by (simp add: beNat_append mult.commute)
qed

lemma beBytes_beNat: "beBytes (length bs) (beNat bs) = bs"
proof (induction bs rule: rev_induct)
  case Nil
  then show ?case by simp
next
  case (snoc c bs)
  have "(of_char c :: nat) < 256" by simp
  with snoc show ?case by (simp add: beNat_append)
qed

lemma unat64_bytes: "unat (w :: 64 word) < 256 ^ 8"
  using unsigned_less [of w, where ?'a = nat] by simp

lemma Uint64_PutUint64 [simp]: "Uint64 (PutUint64 w) = w"
  by (simp add: Uint64_def PutUint64_def beNat_beBytes [OF unat64_bytes])

lemma length_PutUint64 [simp]: "length (PutUint64 w) = 8"
  by (simp add: PutUint64_def)

lemma PutUint64_inj [simp]: "PutUint64 v = PutUint64 w \<longleftrightarrow> v = w"
  by (metis Uint64_PutUint64)

lemma length_revisionKey [simp]: "length (revisionKey r) = 8"
  by (simp add: revisionKey_def)

lemma Uint64_revisionKey [simp]: "Uint64 (revisionKey r) = r"
  by (simp add: revisionKey_def)

lemma PutUint64_Uint64: "length bs = 8 \<Longrightarrow> PutUint64 (Uint64 bs) = bs"
proof -
  assume l: "length bs = 8"
  then have "beNat bs < 2 ^ 64" using beNat_bound [of bs] by simp
  then have "unat (Uint64 bs) = beNat bs" by (simp add: Uint64_def unat_of_nat64)
  then show ?thesis using beBytes_beNat [of bs] l by (simp add: PutUint64_def)
qed

lemma Uint64_key: "length k = 8 \<Longrightarrow> w = Uint64 k \<longleftrightarrow> k = revisionKey w"
  using PutUint64_Uint64 by (auto simp: revisionKey_def)

text \<open>Byte order of equally long encodings is the order of the numbers.\<close>

lemma append_less_same_length:
  fixes xs ys us vs :: "'a::linorder list"
  assumes "length xs = length ys"
  shows "xs @ us < ys @ vs \<longleftrightarrow> xs < ys \<or> xs = ys \<and> us < vs"
  using assms
proof (induction xs ys rule: list_induct2)
  case Nil
  then show ?case by simp
next
  case (Cons x xs y ys)
  then show ?case by auto
qed

lemma beBytes_less:
  "m < 256 ^ k \<Longrightarrow> n < 256 ^ k \<Longrightarrow> beBytes k m < beBytes k n \<longleftrightarrow> m < n"
proof (induction k arbitrary: m n)
  case 0
  then show ?case by simp
next
  case (Suc k)
  have d: "m div 256 < 256 ^ k" "n div 256 < 256 ^ k"
    using Suc.prems by (simp_all add: less_mult_imp_div_less mult.commute)
  have eq: "beBytes k (m div 256) = beBytes k (n div 256) \<longleftrightarrow> m div 256 = n div 256"
    using d beNat_beBytes by metis
  have c: "(char_of (m mod 256) :: char) < char_of (n mod 256) \<longleftrightarrow> m mod 256 < n mod 256"
    by (simp add: less_char_def)
  have "beBytes (Suc k) m < beBytes (Suc k) n \<longleftrightarrow>
      m div 256 < n div 256 \<or> m div 256 = n div 256 \<and> m mod 256 < n mod 256"
    using Suc.IH [OF d] eq c by (simp add: append_less_same_length)
  also have "\<dots> \<longleftrightarrow> m < n"
    using mult_div_mod_eq [of 256 m] mult_div_mod_eq [of 256 n]
    by (smt (verit, ccfv_threshold) div_le_mono linorder_neqE_nat mod_less_divisor
        nat_less_le not_less pos_mod_bound zero_less_numeral add_less_cancel_left)
  finally show ?case .
qed

lemma PutUint64_less: "PutUint64 v < PutUint64 w \<longleftrightarrow> v < w"
  by (simp add: PutUint64_def beBytes_less [OF unat64_bytes unat64_bytes] word_less_nat_alt)

text \<open>Flipping the sign bit turns the order of signed numbers into the order of unsigned ones.\<close>

lemma flip_top: "xor x (push_bit 63 1) = x + push_bit 63 (1 :: 64 word)"
proof -
  define h :: "64 word" where "h = push_bit 63 1"
  have hb: "bit h n \<longleftrightarrow> n = 63" for n
    unfolding h_def bit_push_bit_iff by (auto simp: bit_1_iff)
  have h2: "h + h = 0" by (simp add: h_def)
  have disj: "or y h = y + h" if "\<not> bit y 63" for y
    by (rule disjunctive_add_eq_or [symmetric], rule bit_word_eqI) (use that in \<open>auto simp: bit_and_iff hb\<close>)
  have "xor x h = x + h"
  proof (cases "bit x 63")
    case False
    then have "xor x h = or x h" by (intro bit_word_eqI) (auto simp: bit_or_iff bit_xor_iff hb)
    with disj False show ?thesis by simp
  next
    case True
    then have "x = or (xor x h) h" by (intro bit_word_eqI) (auto simp: bit_or_iff bit_xor_iff hb)
    also have "\<dots> = xor x h + h" using True by (intro disj) (simp add: bit_xor_iff hb)
    finally have "x + h = xor x h + (h + h)" by (metis add.assoc)
    with h2 show ?thesis by simp
  qed
  then show ?thesis by (simp add: h_def)
qed

lemma unat_flip_top:
  assumes "- (2 ^ 63) \<le> n" "n < 2 ^ 63"
  shows "unat (xor (word_of_int n) (push_bit 63 1) :: 64 word) = nat (n + 2 ^ 63)"
proof -
  have "push_bit 63 1 = (word_of_int (2 ^ 63) :: 64 word)" by simp
  then have "xor (word_of_int n) (push_bit 63 1) = (word_of_int (n + 2 ^ 63) :: 64 word)"
    unfolding flip_top by (simp only: of_int_add)
  moreover have u: "uint (word_of_int k :: 64 word) = k" if "0 \<le> k" "k < 2 ^ 64" for k
    using that by (simp add: uint_word_of_int take_bit_eq_mod)
  have "uint (word_of_int (n + 2 ^ 63) :: 64 word) = n + 2 ^ 63"
    by (rule u) (use assms in simp_all)
  ultimately show ?thesis by (simp only: unat_eq_nat_uint)
qed

text \<open>The times whose Unix time in nanoseconds fits 64 bits: the years 1678 to 2262.\<close>

definition unixRange :: "gotime \<Rightarrow> bool" where
  "unixRange t \<longleftrightarrow> - (2 ^ 63) \<le> t - unixEpoch \<and> t - unixEpoch < 2 ^ 63"

lemma queueKey_less:
  assumes "unixRange s" "unixRange t"
  shows "queueKey s i < queueKey t j \<longleftrightarrow> s < t \<or> s = t \<and> i < j"
proof -
  let ?f = "\<lambda>t. xor (word_of_int (UnixNano t)) (push_bit 63 1) :: 64 word"
  have u: "unat (?f t) = nat (t - unixEpoch + 2 ^ 63)" if "unixRange t" for t
    using that unat_flip_top [of "t - unixEpoch"]
    by (simp only: UnixNano_def unixRange_def wrap64_id)
  have "?f s < ?f t \<longleftrightarrow> s < t"
    unfolding word_less_nat_alt u [OF assms(1)] u [OF assms(2)] using assms
    by (auto simp: unixRange_def)
  moreover have "?f s = ?f t \<longleftrightarrow> s = t"
    unfolding word_unat_eq_iff u [OF assms(1)] u [OF assms(2)] using assms
    by (auto simp: unixRange_def)
  ultimately show ?thesis
    unfolding queueKey_def by (subst append_less_same_length) (simp_all add: PutUint64_less)
qed

lemma queueKey_inj: "queueKey s i = queueKey t j \<Longrightarrow> i = j"
  by (simp add: queueKey_def)

section \<open>Stored values\<close>

text \<open>
  A value of a bucket is the JSON of a record, or bytes that do not decode to one. What
  \<open>json.Marshal\<close> wrote, \<open>json.Unmarshal\<close> reads back: every field is a string, an integer, a
  bool or a time. A value that cannot be written (a time past the year 9999, say) makes
  the transaction fail; see \<open>update\<close>.
\<close>

datatype 'a json = Json 'a | Garbage

definition decode :: "'a json \<Rightarrow> 'a result" where
  "decode raw = (case raw of Json v \<Rightarrow> Inr v | Garbage \<Rightarrow> Inl (StoreErr ErrCorruptData))"

lemma decode_simps [simp]:
  "decode (Json v) = Inr v"
  "decode Garbage = Inl (StoreErr ErrCorruptData)"
  "decode raw = Inr v \<longleftrightarrow> raw = Json v"
  by (auto simp: decode_def split: json.splits)

record accountProjection =
  ap_AccountID :: string
  ap_Status :: Status
  ap_RequestID :: string
  ap_Revision :: uint64

record Request =
  rq_RequestID :: string
  rq_AccountID :: string
  rq_IdempotencyKey :: string
  rq_NotificationRoomID :: string
  rq_State :: Status
  rq_CreatedAt :: gotime
  rq_UpdatedAt :: gotime
  rq_Attempt :: int
  rq_NotBefore :: gotime
  rq_Deadline :: gotime
  rq_LastFailure :: FailureClass

record Notification =
  nt_EventID :: string
  nt_RoomID :: string
  nt_AccountID :: string
  nt_RequestID :: string
  nt_State :: Status
  nt_Failure :: FailureClass
  nt_OccurredAt :: gotime
  nt_CreatedAt :: gotime
  nt_NextAttemptAt :: gotime
  nt_Attempt :: int
  nt_ClaimedBy :: string
  nt_ClaimExpiresAt :: gotime
  nt_DeliveredAt :: gotime

text \<open>The database: one field per bucket, the buckets that every migrated database has.\<close>

record db =
  db_accounts :: "(string, accountProjection json) kmap"
  db_requests :: "(string, Request json) kmap"
  db_idempotency :: "(string, string) kmap"
  db_audits :: "(string, (string, AuditRecord json) kmap) kmap"
  db_events :: "(string, AuditRecord json) kmap"
  db_leases :: "(string, Lease json) kmap"
  db_queue :: "(string, string) kmap"
  db_notifications :: "(string, Notification json) kmap"
  db_deletions :: "(string, DeletionSnapshot json) kmap"

definition emptyDB :: db where
  "emptyDB = \<lparr>db_accounts = kempty, db_requests = kempty, db_idempotency = kempty,
     db_audits = kempty, db_events = kempty, db_leases = kempty, db_queue = kempty,
     db_notifications = kempty, db_deletions = kempty\<rparr>"

section \<open>Transactions\<close>

text \<open>
  A read transaction runs a function on the database. A write transaction runs it on a private
  copy that becomes the database when the function returns no error and the engine commits;
  otherwise nothing is written. The database is a parameter \<open>'d\<close>: the tables of this theory alone,
  or together with those of the slot pools. \<open>commit\<close> is the engine: it may refuse any new database (a full
  disk, a key too long, a value that does not encode), and a write refused in the middle of a
  transaction is reported by the code at once and so refuses the transaction too.
\<close>

type_synonym commit = "db \<Rightarrow> error option"

definition view :: "('d \<Rightarrow> 'a result) \<Rightarrow> 'd \<Rightarrow> 'a result" where
  "view fn d = fn d"

definition update ::
  "('d \<Rightarrow> error option) \<Rightarrow> ('d \<Rightarrow> ('a \<times> 'd) result) \<Rightarrow> 'd \<Rightarrow> 'a result \<times> 'd" where
  "update commit fn d =
     (case fn d of
        Inl e \<Rightarrow> (Inl e, d)
      | Inr (x, d') \<Rightarrow> (case commit d' of Some e \<Rightarrow> (Inl e, d) | None \<Rightarrow> (Inr x, d')))"

lemma update_Inr: "update commit fn d = (Inr x, d') \<longleftrightarrow> fn d = Inr (x, d') \<and> commit d' = None"
  by (auto simp: update_def split: sum.splits option.splits)

lemma update_Inl: "update commit fn d = (Inl e, d') \<Longrightarrow> d' = d"
  by (auto simp: update_def split: sum.splits option.splits)

lemma update_cases:
  "update commit fn d = (r, d') \<Longrightarrow>
     (\<exists>e. r = Inl e \<and> d' = d) \<or> (\<exists>x. r = Inr x \<and> fn d = Inr (x, d') \<and> commit d' = None)"
  by (auto simp: update_def split: sum.splits option.splits)

text \<open>An invariant that the transaction function keeps is kept by the operation.\<close>

lemma update_invariant:
  assumes "update commit fn d = (r, d')" "P d" "\<And>x d'. fn d = Inr (x, d') \<Longrightarrow> P d'"
  shows "P d'"
  using update_cases [OF assms(1)] assms(2,3) by blast

section \<open>Validation of stored records\<close>

definition validFailureClass :: "FailureClass \<Rightarrow> bool" where
  "validFailureClass class \<longleftrightarrow>
     (case class of
        TransientFailure \<Rightarrow> True | CredentialFailure \<Rightarrow> True | PermissionFailure \<Rightarrow> True
      | ConfigurationFailure \<Rightarrow> True | UnknownFailure \<Rightarrow> True | _ \<Rightarrow> False)"

definition safeNotificationRoom :: "string \<Rightarrow> bool" where
  "safeNotificationRoom value =
     (if TrimSpace value \<noteq> value \<or> value = [] \<or> 512 < length value then False
      else \<not> containsSeq (spaceSeqs @ controlSeqs) value)"

definition safeNotificationToken :: "string \<Rightarrow> bool" where
  "safeNotificationToken value =
     (if TrimSpace value \<noteq> value \<or> value = [] \<or> 512 < length value then False
      else \<not> containsSeq (spaceSeqs @ controlSeqs) value)"

definition Request_Validate :: "Request \<Rightarrow> unit result" where
  "Request_Validate r =
     (if TrimSpace (rq_RequestID r) = [] \<or> TrimSpace (rq_AccountID r) = []
         \<or> TrimSpace (rq_IdempotencyKey r) = [] \<or> \<not> Status_Valid (rq_State r)
         \<or> IsZero (rq_CreatedAt r) \<or> IsZero (rq_UpdatedAt r)
      then Inl (StoreErr ErrInvalidRequest)
      else if Before (rq_UpdatedAt r) (rq_CreatedAt r) then Inl (StoreErr ErrInvalidRequest)
      else if rq_NotificationRoomID r \<noteq> [] \<and> \<not> safeNotificationRoom (rq_NotificationRoomID r)
      then Inl (StoreErr ErrInvalidRequest)
      else if rq_Attempt r < 0 then Inl (StoreErr ErrInvalidRequest)
      else if \<not> IsZero (rq_NotBefore r) \<and> Before (rq_NotBefore r) (rq_CreatedAt r)
      then Inl (StoreErr ErrInvalidRequest)
      else if \<not> IsZero (rq_Deadline r) \<and> Before (rq_Deadline r) (rq_CreatedAt r)
      then Inl (StoreErr ErrInvalidRequest)
      else if rq_LastFailure r \<noteq> NoFailure \<and> \<not> validFailureClass (rq_LastFailure r)
      then Inl (StoreErr ErrInvalidRequest)
      else Inr ())"

definition NewRequest :: "string \<Rightarrow> string \<Rightarrow> string \<Rightarrow> gotime \<Rightarrow> Request result" where
  "NewRequest requestID accountID idempotencyKey createdAt =
     (let request = \<lparr>rq_RequestID = requestID, rq_AccountID = accountID,
            rq_IdempotencyKey = idempotencyKey, rq_NotificationRoomID = [], rq_State = NoRequest,
            rq_CreatedAt = createdAt, rq_UpdatedAt = createdAt, rq_Attempt = 0,
            rq_NotBefore = createdAt, rq_Deadline = zeroTime, rq_LastFailure = NoFailure\<rparr>
      in bindE (Request_Validate request) (\<lambda>_. Inr request))"

definition Notification_Validate :: "Notification \<Rightarrow> unit result" where
  "Notification_Validate n =
     (if \<not> safeNotificationToken (nt_EventID n) \<or> \<not> safeNotificationRoom (nt_RoomID n)
         \<or> \<not> safeNotificationToken (nt_AccountID n) \<or> \<not> safeNotificationToken (nt_RequestID n)
         \<or> \<not> Status_Valid (nt_State n) \<or> IsZero (nt_OccurredAt n) \<or> IsZero (nt_CreatedAt n)
         \<or> Before (nt_CreatedAt n) (nt_OccurredAt n) \<or> IsZero (nt_NextAttemptAt n)
         \<or> Before (nt_NextAttemptAt n) (nt_CreatedAt n) \<or> nt_Attempt n < 0
      then Inl (NotificationErr ErrInvalidNotification)
      else if nt_Failure n \<noteq> NoFailure \<and> \<not> declaredFailure (nt_Failure n)
      then Inl (NotificationErr ErrInvalidNotification)
      else if nt_Failure n \<noteq> NoFailure \<and> nt_State n \<noteq> LoginFailed
      then Inl (NotificationErr ErrInvalidNotification)
      else if nt_ClaimedBy n = [] \<and> \<not> IsZero (nt_ClaimExpiresAt n)
      then Inl (NotificationErr ErrInvalidNotification)
      else if nt_ClaimedBy n \<noteq> [] \<and>
         (\<not> safeNotificationToken (nt_ClaimedBy n) \<or> IsZero (nt_ClaimExpiresAt n))
      then Inl (NotificationErr ErrInvalidNotification)
      else if \<not> IsZero (nt_DeliveredAt n) \<and>
         (Before (nt_DeliveredAt n) (nt_CreatedAt n) \<or> nt_ClaimedBy n \<noteq> []
          \<or> \<not> IsZero (nt_ClaimExpiresAt n))
      then Inl (NotificationErr ErrInvalidNotification)
      else Inr ())"

text \<open>An error that is wrapped as \<open>ErrCorruptData\<close> with \<open>%v\<close> loses its own identity.\<close>

definition corrupt :: "'a result \<Rightarrow> 'a result" where
  "corrupt m = mapErr (\<lambda>_. StoreErr ErrCorruptData) m"

lemma corrupt_simps [simp]:
  "corrupt (Inr x) = Inr x"
  "corrupt (Inl e) = Inl (StoreErr ErrCorruptData)"
  "corrupt m = Inr x \<longleftrightarrow> m = Inr x"
  by (simp_all add: corrupt_def)

lemma Request_Validate_iff:
  "Request_Validate r = Inr () \<longleftrightarrow>
     nonEmpty (rq_RequestID r) \<and> nonEmpty (rq_AccountID r) \<and> nonEmpty (rq_IdempotencyKey r) \<and>
     Status_Valid (rq_State r) \<and> rq_CreatedAt r \<noteq> 0 \<and> rq_UpdatedAt r \<noteq> 0 \<and>
     rq_CreatedAt r \<le> rq_UpdatedAt r \<and>
     (rq_NotificationRoomID r = [] \<or> safeNotificationRoom (rq_NotificationRoomID r)) \<and>
     0 \<le> rq_Attempt r \<and> (rq_NotBefore r = 0 \<or> rq_CreatedAt r \<le> rq_NotBefore r) \<and>
     (rq_Deadline r = 0 \<or> rq_CreatedAt r \<le> rq_Deadline r) \<and>
     (rq_LastFailure r = NoFailure \<or> validFailureClass (rq_LastFailure r))"
  by (auto simp: Request_Validate_def nonEmpty_def)

lemma Notification_Validate_iff:
  "Notification_Validate n = Inr () \<longleftrightarrow>
     safeNotificationToken (nt_EventID n) \<and> safeNotificationRoom (nt_RoomID n) \<and>
     safeNotificationToken (nt_AccountID n) \<and> safeNotificationToken (nt_RequestID n) \<and>
     Status_Valid (nt_State n) \<and> nt_OccurredAt n \<noteq> 0 \<and> nt_CreatedAt n \<noteq> 0 \<and>
     nt_OccurredAt n \<le> nt_CreatedAt n \<and> nt_NextAttemptAt n \<noteq> 0 \<and>
     nt_CreatedAt n \<le> nt_NextAttemptAt n \<and> 0 \<le> nt_Attempt n \<and>
     (nt_Failure n = NoFailure \<or> declaredFailure (nt_Failure n) \<and> nt_State n = LoginFailed) \<and>
     (if nt_ClaimedBy n = [] then nt_ClaimExpiresAt n = 0
      else safeNotificationToken (nt_ClaimedBy n) \<and> nt_ClaimExpiresAt n \<noteq> 0) \<and>
     (nt_DeliveredAt n = 0 \<or>
      nt_CreatedAt n \<le> nt_DeliveredAt n \<and> nt_ClaimedBy n = [] \<and> nt_ClaimExpiresAt n = 0)"
  by (cases "nt_Failure n = NoFailure"; cases "nt_ClaimedBy n = []"; cases "nt_DeliveredAt n = 0")
    (simp_all add: Notification_Validate_def not_less, blast+)

end
