(* ===== verification/StoreTx.thy ===== *)
theory StoreTx
  imports StoreBase
begin

text \<open>
  The functions of internal/store/store.go and notification.go that work inside a transaction:
  reading and writing the projections, the audit trail, the queue index and the outbox, and
  \<open>applyEventTx\<close>, through which every change of an account's status goes.
\<close>

section \<open>Comparisons\<close>

definition eventsEqual :: "Event \<Rightarrow> Event \<Rightarrow> bool" where
  "eventsEqual left right \<longleftrightarrow>
     ev_EventID left = ev_EventID right \<and> ev_AccountID left = ev_AccountID right \<and>
     ev_RequestID left = ev_RequestID right \<and> ev_From left = ev_From right \<and>
     ev_ExpectedRevision left = ev_ExpectedRevision right \<and> ev_To left = ev_To right \<and>
     ev_Reason left = ev_Reason right \<and> ev_Actor left = ev_Actor right \<and>
     ev_OccurredAt left = ev_OccurredAt right"

definition auditRecordsEqual :: "AuditRecord \<Rightarrow> AuditRecord \<Rightarrow> bool" where
  "auditRecordsEqual left right \<longleftrightarrow>
     ar_Revision left = ar_Revision right \<and> eventsEqual (ar_Event left) (ar_Event right)"

definition requestIdentityEqual :: "Request \<Rightarrow> Request \<Rightarrow> bool" where
  "requestIdentityEqual left right \<longleftrightarrow>
     rq_RequestID left = rq_RequestID right \<and> rq_AccountID left = rq_AccountID right \<and>
     rq_IdempotencyKey left = rq_IdempotencyKey right \<and>
     rq_NotificationRoomID left = rq_NotificationRoomID right \<and>
     rq_CreatedAt left = rq_CreatedAt right \<and> rq_Deadline left = rq_Deadline right"

definition requestSubmissionEqual :: "Request \<Rightarrow> Request \<Rightarrow> bool" where
  "requestSubmissionEqual left right \<longleftrightarrow>
     rq_RequestID left = rq_RequestID right \<and> rq_AccountID left = rq_AccountID right \<and>
     rq_IdempotencyKey left = rq_IdempotencyKey right \<and>
     rq_NotificationRoomID left = rq_NotificationRoomID right \<and>
     rq_Deadline left = rq_Deadline right"

definition leasesEqual :: "Lease \<Rightarrow> Lease \<Rightarrow> bool" where
  "leasesEqual left right \<longleftrightarrow>
     ls_LeaseID left = ls_LeaseID right \<and> ls_Owner left = ls_Owner right \<and>
     ls_AcquiredAt left = ls_AcquiredAt right \<and> ls_LastHeartbeat left = ls_LastHeartbeat right \<and>
     ls_ExpiresAt left = ls_ExpiresAt right"

section \<open>Reading\<close>

text \<open>One entry of the audit bucket: it must carry its own key and be indexed as an event.\<close>

definition auditEntry ::
  "db \<Rightarrow> string \<times> AuditRecord json \<Rightarrow> (string, AuditRecord) kmap \<Rightarrow> (string, AuditRecord) kmap result"
where
  "auditEntry d p applied =
     (case p of (key, value) \<Rightarrow>
      if length key \<noteq> 8 then Inl (StoreErr ErrCorruptData)
      else
        bindE (decode value) (\<lambda>audit.
        if ar_Revision audit \<noteq> Uint64 key then Inl (StoreErr ErrCorruptData)
        else if kget applied (ev_EventID (ar_Event audit)) \<noteq> None
        then Inl (StoreErr ErrCorruptData)
        else case kget (db_events d) (ev_EventID (ar_Event audit)) of
          None \<Rightarrow> Inl (StoreErr ErrCorruptData)
        | Some eventRaw \<Rightarrow>
            bindE (decode eventRaw) (\<lambda>indexed.
            if \<not> auditRecordsEqual audit indexed then Inl (StoreErr ErrCorruptData)
            else Inr (kput (ev_EventID (ar_Event audit)) audit applied))))"

definition snapshotFromTx :: "db \<Rightarrow> string \<Rightarrow> Snapshot result" where
  "snapshotFromTx d accountID =
     (if TrimSpace accountID = [] then Inl (StoreErr ErrInvalidAccount)
      else case kget (db_accounts d) accountID of
        None \<Rightarrow> Inl (StoreErr ErrAccountNotFound)
      | Some raw \<Rightarrow>
          bindE (decode raw) (\<lambda>projection.
          if ap_AccountID projection \<noteq> accountID then Inl (StoreErr ErrCorruptData)
          else if \<not> Status_Valid (ap_Status projection) then Inl (StoreErr ErrCorruptData)
          else
            let auditBucket = kget (db_audits d) accountID
            in if 0 < ap_Revision projection \<and> auditBucket = None
               then Inl (StoreErr ErrCorruptData)
               else
                 bindE (case auditBucket of
                          None \<Rightarrow> Inr kempty
                        | Some b \<Rightarrow> foldE (auditEntry d) (kentries b) kempty) (\<lambda>applied.
                 let snapshot = \<lparr>sn_AccountID = ap_AccountID projection,
                       sn_Status = ap_Status projection, sn_RequestID = ap_RequestID projection,
                       sn_Revision = ap_Revision projection, sn_AppliedEvents = applied\<rparr>
                 in bindE (corrupt (Snapshot_Validate snapshot)) (\<lambda>_. Inr snapshot))))"

definition requestFromTx :: "db \<Rightarrow> string \<Rightarrow> Request result" where
  "requestFromTx d requestID =
     (if TrimSpace requestID = [] then Inl (StoreErr ErrRequestNotFound)
      else case kget (db_requests d) requestID of
        None \<Rightarrow> Inl (StoreErr ErrRequestNotFound)
      | Some raw \<Rightarrow>
          bindE (decode raw) (\<lambda>request.
          let request = (if rq_State request = Queued \<and> IsZero (rq_NotBefore request)
                         then request\<lparr>rq_NotBefore := rq_CreatedAt request\<rparr> else request)
          in bindE (corrupt (Request_Validate request)) (\<lambda>_. Inr request)))"

definition leaseFromTx :: "db \<Rightarrow> string \<Rightarrow> Lease option result" where
  "leaseFromTx d accountID =
     (case kget (db_leases d) accountID of
        None \<Rightarrow> Inr None
      | Some raw \<Rightarrow>
          bindE (decode raw) (\<lambda>lease.
          bindE (corrupt (Lease_validate lease)) (\<lambda>_. Inr (Some lease))))"

text \<open>One step of the scan for queued requests.\<close>

definition queuedEntry :: "string \<times> Request json \<Rightarrow> Request list \<Rightarrow> Request list result" where
  "queuedEntry p acc =
     bindE (decode (snd p)) (\<lambda>request.
     if rq_State request \<noteq> Queued then Inr acc
     else
       let request = (if IsZero (rq_NotBefore request)
                      then request\<lparr>rq_NotBefore := rq_CreatedAt request\<rparr> else request)
       in bindE (corrupt (Request_Validate request)) (\<lambda>_. Inr (acc @ [request])))"

definition queuedRequestsTx :: "db \<Rightarrow> Request list result" where
  "queuedRequestsTx d =
     bindE (foldE queuedEntry (kentries (db_requests d)) []) (\<lambda>result.
     Inr (sort_key (\<lambda>r. (rq_CreatedAt r, rq_RequestID r)) result))"

definition activeLeaseCountTx :: "db \<Rightarrow> gotime \<Rightarrow> nat result" where
  "activeLeaseCountTx d now =
     foldE (\<lambda>p count.
       bindE (decode (snd p)) (\<lambda>lease.
       bindE (corrupt (Lease_validate lease)) (\<lambda>_.
       Inr (if \<not> Lease_Expired lease now then count + 1 else count))))
     (kentries (db_leases d)) 0"

section \<open>Writing\<close>

definition putAccountProjection :: "Snapshot \<Rightarrow> db \<Rightarrow> db" where
  "putAccountProjection snapshot d =
     d\<lparr>db_accounts := kput (sn_AccountID snapshot)
         (Json \<lparr>ap_AccountID = sn_AccountID snapshot, ap_Status = sn_Status snapshot,
                ap_RequestID = sn_RequestID snapshot, ap_Revision = sn_Revision snapshot\<rparr>)
         (db_accounts d)\<rparr>"

definition putRequest :: "Request \<Rightarrow> db \<Rightarrow> db" where
  "putRequest request d =
     d\<lparr>db_requests := kput (rq_RequestID request) (Json request) (db_requests d)\<rparr>"

definition putLease :: "string \<Rightarrow> Lease \<Rightarrow> db \<Rightarrow> db" where
  "putLease accountID lease d = d\<lparr>db_leases := kput accountID (Json lease) (db_leases d)\<rparr>"

definition deleteLease :: "string \<Rightarrow> db \<Rightarrow> db" where
  "deleteLease accountID d = d\<lparr>db_leases := kdel accountID (db_leases d)\<rparr>"

definition putNotification :: "Notification \<Rightarrow> db \<Rightarrow> db" where
  "putNotification notification d =
     d\<lparr>db_notifications := kput (nt_EventID notification) (Json notification) (db_notifications d)\<rparr>"

definition putQueueEntry :: "Request \<Rightarrow> db \<Rightarrow> db result" where
  "putQueueEntry request d =
     (if IsZero (rq_CreatedAt request) \<or> TrimSpace (rq_RequestID request) = []
      then Inl (StoreErr ErrCorruptData)
      else Inr (d\<lparr>db_queue := kput (queueKey (rq_CreatedAt request) (rq_RequestID request))
                    (rq_RequestID request) (db_queue d)\<rparr>))"

definition deleteQueueEntry :: "gotime \<Rightarrow> string \<Rightarrow> db \<Rightarrow> db" where
  "deleteQueueEntry createdAt requestID d =
     (if IsZero createdAt then d
      else d\<lparr>db_queue := kdel (queueKey createdAt requestID) (db_queue d)\<rparr>)"

definition updateQueueIndex :: "Status \<Rightarrow> Status \<Rightarrow> Request \<Rightarrow> db \<Rightarrow> db result" where
  "updateQueueIndex from to request d =
     (let d1 = (if from = Queued
                then deleteQueueEntry (rq_CreatedAt request) (rq_RequestID request) d else d)
      in if to = Queued then putQueueEntry request d1 else Inr d1)"

definition putAudit :: "AuditRecord \<Rightarrow> db \<Rightarrow> db result" where
  "putAudit audit d =
     (let accountID = ev_AccountID (ar_Event audit);
          eventID = ev_EventID (ar_Event audit);
          bucket = (case kget (db_audits d) accountID of None \<Rightarrow> kempty | Some b \<Rightarrow> b);
          key = revisionKey (ar_Revision audit)
      in if kget bucket key \<noteq> None then Inl (StoreErr ErrCorruptData)
         else
           let d1 = d\<lparr>db_audits := kput accountID (kput key (Json audit) bucket) (db_audits d)\<rparr>
           in if kget (db_events d1) eventID \<noteq> None then Inl (AccountErr ErrEventConflict)
              else Inr (d1\<lparr>db_events := kput eventID (Json audit) (db_events d1)\<rparr>))"

section \<open>The outbox\<close>

text \<open>The notification of an event: pending, unclaimed and due at once.\<close>

definition newNotification :: "Event \<Rightarrow> Request \<Rightarrow> Notification" where
  "newNotification event request =
     \<lparr>nt_EventID = ev_EventID event, nt_RoomID = rq_NotificationRoomID request,
      nt_AccountID = rq_AccountID request, nt_RequestID = rq_RequestID request,
      nt_State = ev_To event, nt_Failure = NoFailure, nt_OccurredAt = ev_OccurredAt event,
      nt_CreatedAt = ev_OccurredAt event, nt_NextAttemptAt = ev_OccurredAt event,
      nt_Attempt = 0, nt_ClaimedBy = [], nt_ClaimExpiresAt = zeroTime,
      nt_DeliveredAt = zeroTime\<rparr>"

definition enqueueNotificationTx :: "Event \<Rightarrow> Request \<Rightarrow> db \<Rightarrow> db result" where
  "enqueueNotificationTx event request d =
     (if rq_NotificationRoomID request = [] then Inr d
      else case kget (db_notifications d) (ev_EventID event) of
        Some raw \<Rightarrow>
          bindE (decode raw) (\<lambda>existing.
          bindE (corrupt (Notification_Validate existing)) (\<lambda>_.
          if nt_RoomID existing \<noteq> rq_NotificationRoomID request
             \<or> nt_RequestID existing \<noteq> rq_RequestID request \<or> nt_State existing \<noteq> ev_To event
          then Inl (StoreErr ErrCorruptData)
          else Inr d))
      | None \<Rightarrow>
          bindE (Notification_Validate (newNotification event request)) (\<lambda>_.
          Inr (putNotification (newNotification event request) d)))"

definition setNotificationFailureTx :: "string \<Rightarrow> FailureClass \<Rightarrow> db \<Rightarrow> db result" where
  "setNotificationFailureTx eventID class d =
     (case kget (db_notifications d) eventID of
        None \<Rightarrow> Inr d
      | Some raw \<Rightarrow>
          bindE (decode raw) (\<lambda>notification.
          let notification = notification\<lparr>nt_Failure := class\<rparr>
          in bindE (corrupt (Notification_Validate notification)) (\<lambda>_.
             Inr (putNotification notification d))))"

section \<open>Applying an event\<close>

text \<open>The event index is consulted first: an event id must not come back with other contents.\<close>

definition checkEventIndex :: "db \<Rightarrow> Event \<Rightarrow> unit result" where
  "checkEventIndex d event =
     (case kget (db_events d) (ev_EventID event) of
        None \<Rightarrow> Inr ()
      | Some raw \<Rightarrow>
          bindE (decode raw) (\<lambda>previous.
          if \<not> eventsEqual (ar_Event previous) event then Inl (AccountErr ErrEventConflict)
          else Inr ()))"

text \<open>The request projection after an event: it mirrors the status and is due at once if queued.\<close>

definition requestAfter :: "Event \<Rightarrow> TransitionResult \<Rightarrow> Request \<Rightarrow> Request" where
  "requestAfter event result request =
     request\<lparr>rq_State := sn_Status (tr_State result), rq_UpdatedAt := ev_OccurredAt event,
             rq_NotBefore := (if sn_Status (tr_State result) = Queued then ev_OccurredAt event
                              else zeroTime)\<rparr>"

text \<open>The writes of a new event, all in the caller's transaction.\<close>

definition writeEventTx ::
  "Event \<Rightarrow> Snapshot \<Rightarrow> TransitionResult \<Rightarrow> db \<Rightarrow> (TransitionResult \<times> db) result" where
  "writeEventTx event state result d =
     bindE (requestFromTx d (ev_RequestID event)) (\<lambda>request.
     if rq_AccountID request \<noteq> ev_AccountID event \<or> rq_State request \<noteq> sn_Status state
     then Inl (StoreErr ErrRequestStateMismatch)
     else
       let request = requestAfter event result request
       in bindE (corrupt (Request_Validate request)) (\<lambda>_.
          bindE (updateQueueIndex (sn_Status state) (sn_Status (tr_State result)) request
                   (putRequest request d)) (\<lambda>d1.
          bindE (putAudit (tr_Audit result) d1) (\<lambda>d2.
          bindE (enqueueNotificationTx (ar_Event (tr_Audit result)) request
                   (putAccountProjection (tr_State result) d2)) (\<lambda>d3.
          Inr (result, d3))))))"

definition applyEventTx :: "Event \<Rightarrow> db \<Rightarrow> (TransitionResult \<times> db) result" where
  "applyEventTx event d =
     bindE (checkEventIndex d event) (\<lambda>_.
     bindE (snapshotFromTx d (ev_AccountID event)) (\<lambda>state.
     bindE (Apply state event) (\<lambda>result.
     if tr_Idempotent result then Inr (result, d)
     else writeEventTx event state result d)))"

end
