(* ===== verification/StoreReads.thy ===== *)
theory StoreReads
  imports StoreTx
begin

text \<open>
  What the transaction functions read and write, as equivalences: when an account reconstructs
  from its projection, its audit bucket and the event index, and which buckets an accepted event
  changes.
\<close>

lemma eventsEqual_iff: "eventsEqual e f \<longleftrightarrow> e = f"
  by (auto simp: eventsEqual_def)

lemma auditRecordsEqual_iff: "auditRecordsEqual a b \<longleftrightarrow> a = b"
  by (auto simp: auditRecordsEqual_def eventsEqual_iff)

lemma leasesEqual_iff: "leasesEqual l m \<longleftrightarrow> l = m"
  by (auto simp: leasesEqual_def)

abbreviation recID :: "AuditRecord \<Rightarrow> string" where
  "recID a \<equiv> ev_EventID (ar_Event a)"

text \<open>What the audit bucket \<open>b\<close> of an account and the history \<open>m\<close> read from it must be.\<close>

definition histOk :: "db \<Rightarrow> (string, AuditRecord json) kmap \<Rightarrow> (string, AuditRecord) kmap \<Rightarrow> bool" where
  "histOk d b m \<longleftrightarrow>
     (\<forall>k v. kget b k = Some v \<longrightarrow> (\<exists>a. v = Json a \<and> k = revisionKey (ar_Revision a) \<and>
        kget (db_events d) (recID a) = Some (Json a) \<and> kget m (recID a) = Some a)) \<and>
     (\<forall>i a. kget m i = Some a \<longrightarrow> recID a = i \<and> kget b (revisionKey (ar_Revision a)) = Some (Json a))"

lemma auditEntry_iff:
  "auditEntry d p applied = Inr applied' \<longleftrightarrow>
     (\<exists>a. p = (revisionKey (ar_Revision a), Json a) \<and> kget applied (recID a) = None \<and>
        kget (db_events d) (recID a) = Some (Json a) \<and> applied' = kput (recID a) a applied)"
  by (cases p) (auto simp: auditEntry_def auditRecordsEqual_iff Uint64_key split: option.splits)

lemma auditEntries_Cons:
  "foldE (auditEntry d) (p # ps) acc = Inr m \<longleftrightarrow>
     (\<exists>a. p = (revisionKey (ar_Revision a), Json a) \<and> kget acc (recID a) = None \<and>
        kget (db_events d) (recID a) = Some (Json a) \<and>
        foldE (auditEntry d) ps (kput (recID a) a acc) = Inr m)"
  by (auto simp: auditEntry_iff)

lemma auditEntries_keep:
  "foldE (auditEntry d) ps acc = Inr m \<Longrightarrow> kget acc i = Some a \<Longrightarrow> kget m i = Some a"
proof (induction ps arbitrary: acc)
  case Nil
  then show ?case by simp
next
  case (Cons p ps)
  from Cons.prems(1) obtain b where b: "kget acc (recID b) = None"
    and rest: "foldE (auditEntry d) ps (kput (recID b) b acc) = Inr m"
    unfolding auditEntries_Cons by blast
  have "kget (kput (recID b) b acc) i = Some a" using b Cons.prems(2) by auto
  then show ?case by (rule Cons.IH [OF rest])
qed

lemma auditEntries_source:
  "foldE (auditEntry d) ps acc = Inr m \<Longrightarrow> kget m i = Some a \<Longrightarrow>
     kget acc i = Some a \<or> recID a = i \<and> (revisionKey (ar_Revision a), Json a) \<in> set ps"
proof (induction ps arbitrary: acc)
  case Nil
  then show ?case by simp
next
  case (Cons p ps)
  from Cons.prems(1) obtain b where b: "p = (revisionKey (ar_Revision b), Json b)"
    and rest: "foldE (auditEntry d) ps (kput (recID b) b acc) = Inr m"
    unfolding auditEntries_Cons by blast
  from Cons.IH [OF rest Cons.prems(2)] b show ?case by (auto split: if_splits)
qed

lemma auditEntries_entry:
  "foldE (auditEntry d) ps acc = Inr m \<Longrightarrow> (k, v) \<in> set ps \<Longrightarrow>
     \<exists>a. v = Json a \<and> k = revisionKey (ar_Revision a) \<and>
        kget (db_events d) (recID a) = Some (Json a) \<and> kget m (recID a) = Some a"
proof (induction ps arbitrary: acc)
  case Nil
  then show ?case by simp
next
  case (Cons p ps)
  from Cons.prems(1) obtain b where b: "p = (revisionKey (ar_Revision b), Json b)"
      "kget (db_events d) (recID b) = Some (Json b)"
    and rest: "foldE (auditEntry d) ps (kput (recID b) b acc) = Inr m"
    unfolding auditEntries_Cons by blast
  have "kget m (recID b) = Some b" using auditEntries_keep [OF rest] by simp
  with b Cons.IH [OF rest] Cons.prems(2) show ?case by auto
qed

lemma auditEntries_hist:
  assumes "foldE (auditEntry d) (kentries b) kempty = Inr m"
  shows "histOk d b m"
  unfolding histOk_def
  using auditEntries_entry [OF assms] auditEntries_source [OF assms] by (auto simp: kentries_iff)

lemma auditEntries_total:
  assumes "distinct (map fst ps)"
    and "\<And>k v. (k, v) \<in> set ps \<Longrightarrow> \<exists>a. v = Json a \<and> k = revisionKey (ar_Revision a) \<and>
        kget (db_events d) (recID a) = Some (Json a) \<and> kget m (recID a) = Some a \<and>
        kget acc (recID a) = None"
  shows "\<exists>n. foldE (auditEntry d) ps acc = Inr n"
  using assms
proof (induction ps arbitrary: acc)
  case Nil
  then show ?case by simp
next
  case (Cons p ps)
  obtain a where a: "p = (revisionKey (ar_Revision a), Json a)"
      "kget acc (recID a) = None" "kget (db_events d) (recID a) = Some (Json a)"
      "kget m (recID a) = Some a"
    using Cons.prems(2) [of "fst p" "snd p"] by (cases p) auto
  have "\<exists>n. foldE (auditEntry d) ps (kput (recID a) a acc) = Inr n"
  proof (rule Cons.IH)
    show "distinct (map fst ps)" using Cons.prems(1) by simp
    fix k v
    assume kv: "(k, v) \<in> set ps"
    then obtain c where c: "v = Json c" "k = revisionKey (ar_Revision c)"
        "kget (db_events d) (recID c) = Some (Json c)" "kget m (recID c) = Some c"
        "kget acc (recID c) = None"
      using Cons.prems(2) [of k v] by auto
    have "k \<in> set (map fst ps)" using kv by force
    then have "k \<noteq> fst p" using Cons.prems(1) by (metis distinct.simps(2) list.simps(9))
    then have "c \<noteq> a" using c(2) a(1) by auto
    then have "recID c \<noteq> recID a" using c(4) a(4) by auto
    with c show "\<exists>c. v = Json c \<and> k = revisionKey (ar_Revision c) \<and>
        kget (db_events d) (recID c) = Some (Json c) \<and> kget m (recID c) = Some c \<and>
        kget (kput (recID a) a acc) (recID c) = None" by auto
  qed
  with a show ?case unfolding auditEntries_Cons by blast
qed

lemma histOk_sub: "histOk d b m \<Longrightarrow> histOk d b n \<Longrightarrow> kget m i = Some a \<Longrightarrow> kget n i = Some a"
proof -
  assume m: "histOk d b m" and n: "histOk d b n" and i: "kget m i = Some a"
  have "recID a = i" "kget b (revisionKey (ar_Revision a)) = Some (Json a)"
    using m i unfolding histOk_def by blast+
  then show "kget n i = Some a" using n unfolding histOk_def by blast
qed

lemma histOk_functional: "histOk d b m \<Longrightarrow> histOk d b n \<Longrightarrow> m = n"
proof (rule kmap_eqI)
  fix i
  assume "histOk d b m" "histOk d b n"
  then have "kget m i = Some a \<longleftrightarrow> kget n i = Some a" for a using histOk_sub by blast
  then show "kget m i = kget n i" by (metis not_None_eq)
qed

lemma auditEntries_iff:
  "foldE (auditEntry d) (kentries b) kempty = Inr m \<longleftrightarrow> histOk d b m"
proof
  assume h: "histOk d b m"
  have "\<exists>n. foldE (auditEntry d) (kentries b) kempty = Inr n"
    by (rule auditEntries_total [where m = m]) (use h in \<open>auto simp: histOk_def kentries_iff\<close>)
  then show "foldE (auditEntry d) (kentries b) kempty = Inr m"
    using h auditEntries_hist histOk_functional by metis
qed (rule auditEntries_hist)

section \<open>Reading an account\<close>

definition projOf :: "Snapshot \<Rightarrow> accountProjection" where
  "projOf s = \<lparr>ap_AccountID = sn_AccountID s, ap_Status = sn_Status s,
     ap_RequestID = sn_RequestID s, ap_Revision = sn_Revision s\<rparr>"

definition auditsOf :: "db \<Rightarrow> string \<Rightarrow> (string, AuditRecord json) kmap" where
  "auditsOf d a = (case kget (db_audits d) a of None \<Rightarrow> kempty | Some b \<Rightarrow> b)"

lemma histOk_kempty: "histOk d kempty m \<longleftrightarrow> m = kempty"
proof
  assume "histOk d kempty m"
  then have "kget m i = None" for i unfolding histOk_def by (metis kget_kempty not_None_eq option.distinct(1))
  then show "m = kempty" by (intro kmap_eqI) simp
qed (simp add: histOk_def)

lemma snapshotFromTx_iff:
  "snapshotFromTx d a = Inr s \<longleftrightarrow>
     kget (db_accounts d) a = Some (Json (projOf s)) \<and> sn_AccountID s = a \<and>
     histOk d (auditsOf d a) (sn_AppliedEvents s) \<and> Snapshot_Validate s = Inr ()"
  (is "?lhs \<longleftrightarrow> ?rhs")
proof
  assume ?lhs
  then obtain p m where p: "kget (db_accounts d) a = Some (Json p)" "ap_AccountID p = a"
      "(case kget (db_audits d) a of None \<Rightarrow> Inr kempty
        | Some b \<Rightarrow> foldE (auditEntry d) (kentries b) kempty) = Inr m"
    and s: "s = \<lparr>sn_AccountID = ap_AccountID p, sn_Status = ap_Status p,
        sn_RequestID = ap_RequestID p, sn_Revision = ap_Revision p, sn_AppliedEvents = m\<rparr>"
      "Snapshot_Validate s = Inr ()"
    by (auto simp: snapshotFromTx_def Let_def split: option.splits)
  have "projOf s = p" by (simp add: projOf_def s(1))
  moreover have "histOk d (auditsOf d a) m"
    using p(3) by (auto simp: auditsOf_def auditEntries_iff histOk_kempty split: option.splits)
  ultimately show ?rhs using p s by simp
next
  assume r: ?rhs
  then have v: "nonEmpty a" "Status_Valid (sn_Status s)" by (auto simp: Snapshot_Validate_iff)
  have "(case kget (db_audits d) a of None \<Rightarrow> Inr kempty
        | Some b \<Rightarrow> foldE (auditEntry d) (kentries b) kempty) = Inr (sn_AppliedEvents s)"
    using r by (auto simp: auditsOf_def auditEntries_iff histOk_kempty split: option.splits)
  moreover have "sn_Revision s = 0" if "kget (db_audits d) a = None"
    using r that by (auto simp: auditsOf_def histOk_kempty Snapshot_Validate_iff)
  then have "kget (db_audits d) a \<noteq> None" if "0 < sn_Revision s"
    using that by force
  ultimately show ?lhs
    using r v by (cases s) (auto simp: snapshotFromTx_def projOf_def nonEmpty_def Let_def)
qed

text \<open>What a read of one account depends on.\<close>

lemma snapshotFromTx_frame:
  assumes "snapshotFromTx d a = Inr s"
    and "kget (db_accounts d') a = kget (db_accounts d) a" "kget (db_audits d') a = kget (db_audits d) a"
    and "\<And>i v. kget (db_events d) i = Some v \<Longrightarrow> kget (db_events d') i = Some v"
  shows "snapshotFromTx d' a = Inr s"
proof -
  have "auditsOf d' a = auditsOf d a" using assms(3) by (simp add: auditsOf_def)
  moreover have "histOk d' b m" if "histOk d b m" for b m
    using that assms(4) unfolding histOk_def by blast
  ultimately show ?thesis using assms(1,2) by (simp add: snapshotFromTx_iff)
qed

lemma checkEventIndex_iff:
  "checkEventIndex d e = Inr () \<longleftrightarrow>
     (\<forall>v. kget (db_events d) (ev_EventID e) = Some v \<longrightarrow> (\<exists>a. v = Json a \<and> ar_Event a = e))"
  by (auto simp: checkEventIndex_def eventsEqual_iff split: option.splits)

lemma putAudit_iff:
  "putAudit a d = Inr d' \<longleftrightarrow>
     kget (auditsOf d (ev_AccountID (ar_Event a))) (revisionKey (ar_Revision a)) = None \<and>
     kget (db_events d) (recID a) = None \<and>
     d' = d\<lparr>db_audits := kput (ev_AccountID (ar_Event a))
              (kput (revisionKey (ar_Revision a)) (Json a) (auditsOf d (ev_AccountID (ar_Event a))))
              (db_audits d),
            db_events := kput (recID a) (Json a) (db_events d)\<rparr>"
  by (auto simp: putAudit_def auditsOf_def Let_def)

definition queueAfter :: "Status \<Rightarrow> Status \<Rightarrow> Request \<Rightarrow> (string, string) kmap \<Rightarrow> (string, string) kmap" where
  "queueAfter from to r q =
     (let k = queueKey (rq_CreatedAt r) (rq_RequestID r);
          q1 = (if from = Queued then kdel k q else q)
      in if to = Queued then kput k (rq_RequestID r) q1 else q1)"

lemma updateQueueIndex_valid:
  "Request_Validate r = Inr () \<Longrightarrow>
     updateQueueIndex from to r d = Inr (d\<lparr>db_queue := queueAfter from to r (db_queue d)\<rparr>)"
  by (auto simp: updateQueueIndex_def putQueueEntry_def deleteQueueEntry_def queueAfter_def
      Let_def Request_Validate_iff nonEmpty_def)

lemma enqueueNotificationTx_iff:
  "enqueueNotificationTx e r d = Inr d' \<longleftrightarrow>
     rq_NotificationRoomID r = [] \<and> d' = d \<or>
     rq_NotificationRoomID r \<noteq> [] \<and> d' = d \<and>
       (\<exists>n. kget (db_notifications d) (ev_EventID e) = Some (Json n) \<and>
          Notification_Validate n = Inr () \<and> nt_RoomID n = rq_NotificationRoomID r \<and>
          nt_RequestID n = rq_RequestID r \<and> nt_State n = ev_To e) \<or>
     rq_NotificationRoomID r \<noteq> [] \<and> kget (db_notifications d) (ev_EventID e) = None \<and>
       Notification_Validate (newNotification e r) = Inr () \<and>
       d' = putNotification (newNotification e r) d"
  by (auto simp: enqueueNotificationTx_def split: option.splits)

section \<open>An accepted event\<close>

text \<open>The database after a new event.\<close>

definition eventWrites :: "Event \<Rightarrow> Snapshot \<Rightarrow> TransitionResult \<Rightarrow> Request \<Rightarrow> db \<Rightarrow> db" where
  "eventWrites e s r q d =
     d\<lparr>db_accounts := kput (sn_AccountID (tr_State r)) (Json (projOf (tr_State r))) (db_accounts d),
       db_requests := kput (rq_RequestID q) (Json q) (db_requests d),
       db_queue := queueAfter (sn_Status s) (ev_To e) q (db_queue d),
       db_audits := kput (ev_AccountID e) (kput (revisionKey (ar_Revision (tr_Audit r)))
         (Json (tr_Audit r)) (auditsOf d (ev_AccountID e))) (db_audits d),
       db_events := kput (ev_EventID e) (Json (tr_Audit r)) (db_events d)\<rparr>"

lemma Apply_new_event:
  assumes "Apply s e = Inr r" "\<not> tr_Idempotent r"
  shows "kget (sn_AppliedEvents s) (ev_EventID e) = None" "ar_Event (tr_Audit r) = e"
    "ar_Revision (tr_Audit r) = sn_Revision (tr_State r)" "sn_Status (tr_State r) = ev_To e"
    "sn_RequestID (tr_State r) = ev_RequestID e" "sn_AccountID (tr_State r) = ev_AccountID e"
    "sn_AccountID s = ev_AccountID e" "ev_From e = sn_Status s"
    "CanTransition (ev_From e) (ev_To e)" "validFields e = Inr ()"
    "sn_Status s \<noteq> NoRequest \<Longrightarrow> ev_RequestID e = sn_RequestID s"
    "sn_AppliedEvents (tr_State r) = kput (ev_EventID e) (tr_Audit r) (sn_AppliedEvents s)"
    "sn_Revision (tr_State r) = sn_Revision s + 1" "sn_Revision s \<noteq> - 1"
proof -
  show n: "kget (sn_AppliedEvents s) (ev_EventID e) = None"
    using assms by (cases "kget (sn_AppliedEvents s) (ev_EventID e)") (auto simp: Apply_known_iff)
  show "ar_Event (tr_Audit r) = e"
    "ar_Revision (tr_Audit r) = sn_Revision (tr_State r)" "sn_Status (tr_State r) = ev_To e"
    "sn_RequestID (tr_State r) = ev_RequestID e" "sn_AccountID (tr_State r) = ev_AccountID e"
    "sn_AccountID s = ev_AccountID e" "ev_From e = sn_Status s"
    "CanTransition (ev_From e) (ev_To e)" "validFields e = Inr ()"
    "sn_AppliedEvents (tr_State r) = kput (ev_EventID e) (tr_Audit r) (sn_AppliedEvents s)"
    "sn_Revision (tr_State r) = sn_Revision s + 1" "sn_Revision s \<noteq> - 1"
    using assms(1) by (auto simp: Apply_new_iff [OF n])
  show "sn_Status s \<noteq> NoRequest \<Longrightarrow> ev_RequestID e = sn_RequestID s"
    using assms(1) by (simp add: Apply_new_iff [OF n])
qed

text \<open>An event that the store accepts as new, with the account state and the request it meets.\<close>

definition newEvent :: "Event \<Rightarrow> Snapshot \<Rightarrow> TransitionResult \<Rightarrow> Request \<Rightarrow> db \<Rightarrow> bool" where
  "newEvent e s r q d \<longleftrightarrow>
     snapshotFromTx d (ev_AccountID e) = Inr s \<and> Apply s e = Inr r \<and> \<not> tr_Idempotent r \<and>
     requestFromTx d (ev_RequestID e) = Inr q \<and> rq_AccountID q = ev_AccountID e \<and>
     rq_State q = sn_Status s \<and> Request_Validate (requestAfter e r q) = Inr () \<and>
     kget (auditsOf d (ev_AccountID e)) (revisionKey (ar_Revision (tr_Audit r))) = None \<and>
     kget (db_events d) (ev_EventID e) = None"

lemma newEventD:
  assumes "newEvent e s r q d"
  shows "snapshotFromTx d (ev_AccountID e) = Inr s" "Apply s e = Inr r" "\<not> tr_Idempotent r"
    "requestFromTx d (ev_RequestID e) = Inr q" "rq_AccountID q = ev_AccountID e"
    "rq_State q = sn_Status s" "Request_Validate (requestAfter e r q) = Inr ()"
    "kget (auditsOf d (ev_AccountID e)) (revisionKey (ar_Revision (tr_Audit r))) = None"
    "kget (db_events d) (ev_EventID e) = None"
  using assms by (simp_all add: newEvent_def)

lemma applyEventTx_new:
  assumes "applyEventTx e d = Inr (r, d')" "\<not> tr_Idempotent r"
  obtains s q where "newEvent e s r q d"
    "enqueueNotificationTx e (requestAfter e r q) (eventWrites e s r (requestAfter e r q) d) = Inr d'"
proof -
  obtain s r0 where s0: "snapshotFromTx d (ev_AccountID e) = Inr s" "Apply s e = Inr r0"
    and i: "(if tr_Idempotent r0 then Inr (r0, d) else writeEventTx e s r0 d) = Inr (r, d')"
    using assms(1) unfolding applyEventTx_def by auto
  have ni: "\<not> tr_Idempotent r0" using i assms(2) by (cases "tr_Idempotent r0") auto
  with i have r0: "r0 = r" by (auto simp: writeEventTx_def Let_def)
  note s = s0 [unfolded r0]
  obtain q d2 where q: "requestFromTx d (ev_RequestID e) = Inr q" "rq_AccountID q = ev_AccountID e"
      "rq_State q = sn_Status s" and v: "Request_Validate (requestAfter e r q) = Inr ()"
    and a: "putAudit (tr_Audit r) ((putRequest (requestAfter e r q) d)
          \<lparr>db_queue := queueAfter (sn_Status s) (ev_To e) (requestAfter e r q) (db_queue d)\<rparr>) = Inr d2"
    and n: "enqueueNotificationTx e (requestAfter e r q) (putAccountProjection (tr_State r) d2) = Inr d'"
    using i assms(2) unfolding r0
    by (auto simp: writeEventTx_def Let_def updateQueueIndex_valid Apply_new_event [OF s(2) assms(2)] putRequest_def)
  note f = Apply_new_event [OF s(2) assms(2)]
  have ao: "auditsOf ((putRequest (requestAfter e r q) d)\<lparr>db_queue := x\<rparr>) y = auditsOf d y" for x y
    by (simp add: auditsOf_def putRequest_def)
  have w: "kget (auditsOf d (ev_AccountID e)) (revisionKey (ar_Revision (tr_Audit r))) = None"
    "kget (db_events d) (ev_EventID e) = None"
    "putAccountProjection (tr_State r) d2 = eventWrites e s r (requestAfter e r q) d"
    using a unfolding putAudit_iff ao f
    by (auto simp: putAccountProjection_def eventWrites_def putRequest_def projOf_def f)
  show thesis
    by (rule that [of s q]) (use s q v w n assms(2) in \<open>simp_all add: newEvent_def\<close>)
qed

lemma applyEventTx_replay:
  assumes "applyEventTx e d = Inr (r, d')" "tr_Idempotent r"
  shows "d' = d \<and> (\<exists>s. snapshotFromTx d (ev_AccountID e) = Inr s \<and> Apply s e = Inr r \<and> tr_State r = s)"
proof -
  obtain s where s: "snapshotFromTx d (ev_AccountID e) = Inr s" "Apply s e = Inr r" "d' = d"
    using assms by (auto simp: applyEventTx_def writeEventTx_def Let_def split: if_splits)
  with Apply_effect [OF s(2)] assms(2) show ?thesis by auto
qed

text \<open>A new event is accepted when its notification can be written.\<close>

lemma applyEventTx_newI:
  assumes "newEvent e s r q d"
    and "enqueueNotificationTx e (requestAfter e r q) (eventWrites e s r (requestAfter e r q) d) = Inr d'"
  shows "applyEventTx e d = Inr (r, d')"
proof -
  note N = newEventD [OF assms(1)]
  note f = Apply_new_event [OF N(2,3)]
  have ao: "auditsOf ((putRequest x d)\<lparr>db_queue := y\<rparr>) z = auditsOf d z" for x y z
    by (simp add: auditsOf_def putRequest_def)
  have p: "putAudit (tr_Audit r) ((putRequest (requestAfter e r q) d)\<lparr>db_queue := y\<rparr>) =
      Inr ((putRequest (requestAfter e r q) d)\<lparr>db_queue := y, db_audits := kput (ev_AccountID e)
              (kput (revisionKey (ar_Revision (tr_Audit r))) (Json (tr_Audit r)) (auditsOf d (ev_AccountID e))) (db_audits d),
            db_events := kput (ev_EventID e) (Json (tr_Audit r)) (db_events d)\<rparr>)" for y
    unfolding putAudit_iff ao f(2) using N(8,9) by (simp add: putRequest_def)
  have w: "putAccountProjection (tr_State r) ((putRequest (requestAfter e r q) d)
      \<lparr>db_queue := queueAfter (sn_Status s) (ev_To e) (requestAfter e r q) (db_queue d),
       db_audits := kput (ev_AccountID e)
              (kput (revisionKey (ar_Revision (tr_Audit r))) (Json (tr_Audit r)) (auditsOf d (ev_AccountID e))) (db_audits d),
            db_events := kput (ev_EventID e) (Json (tr_Audit r)) (db_events d)\<rparr>) = eventWrites e s r (requestAfter e r q) d"
    by (simp add: putAccountProjection_def eventWrites_def putRequest_def projOf_def f)
  have "checkEventIndex d e = Inr ()" using N(9) by (simp add: checkEventIndex_def)
  moreover have "writeEventTx e s r d = Inr (r, d')"
    using N p w assms(2) f(2,4)
    by (simp add: writeEventTx_def Let_def updateQueueIndex_valid) (simp add: putRequest_def)
  ultimately show ?thesis using N by (simp add: applyEventTx_def)
qed

end
