(* ===== verification/StoreInv.thy ===== *)
theory StoreInv
  imports StoreReads
begin

text \<open>
  The invariant of the database: every account reconstructs from its audit trail, requests mirror
  the status of their account, the idempotency and queue indexes are exact, and stored leases,
  notifications and deletions are valid. A new event keeps it.
\<close>

section \<open>The invariant\<close>

definition inv_accounts :: "db \<Rightarrow> bool" where
  "inv_accounts d \<longleftrightarrow> (\<forall>a v. kget (db_accounts d) a = Some v \<longrightarrow> (\<exists>s. snapshotFromTx d a = Inr s))"

definition inv_audits :: "db \<Rightarrow> bool" where
  "inv_audits d \<longleftrightarrow> (\<forall>a b. kget (db_audits d) a = Some b \<longrightarrow> kget (db_accounts d) a \<noteq> None)"

definition inv_events :: "db \<Rightarrow> bool" where
  "inv_events d \<longleftrightarrow> (\<forall>i v. kget (db_events d) i = Some v \<longrightarrow> (\<exists>a. v = Json a \<and> recID a = i \<and>
     kget (auditsOf d (ev_AccountID (ar_Event a))) (revisionKey (ar_Revision a)) = Some (Json a)))"

text \<open>A stored request, and the account it belongs to.\<close>

definition requestOk :: "string \<Rightarrow> Request \<Rightarrow> bool" where
  "requestOk k q \<longleftrightarrow> rq_RequestID q = k \<and> Request_Validate q = Inr () \<and>
     (rq_State q = Queued \<longrightarrow> rq_NotBefore q \<noteq> 0)"

definition inv_requests :: "db \<Rightarrow> bool" where
  "inv_requests d \<longleftrightarrow> (\<forall>k v. kget (db_requests d) k = Some v \<longrightarrow> (\<exists>q p. v = Json q \<and> requestOk k q \<and>
     kget (db_idempotency d) (rq_IdempotencyKey q) = Some k \<and>
     kget (db_accounts d) (rq_AccountID q) = Some (Json p) \<and>
     (rq_State q \<noteq> NoRequest \<longrightarrow> ap_RequestID p = k \<and> ap_Status p = rq_State q)))"

definition inv_bound :: "db \<Rightarrow> bool" where
  "inv_bound d \<longleftrightarrow> (\<forall>a p. kget (db_accounts d) a = Some (Json p) \<longrightarrow> ap_Status p \<noteq> NoRequest \<longrightarrow>
     (\<exists>q. kget (db_requests d) (ap_RequestID p) = Some (Json q) \<and> rq_AccountID q = a \<and>
        rq_State q = ap_Status p))"

definition inv_idempotency :: "db \<Rightarrow> bool" where
  "inv_idempotency d \<longleftrightarrow> (\<forall>k i. kget (db_idempotency d) k = Some i \<longrightarrow>
     (\<exists>q. kget (db_requests d) i = Some (Json q) \<and> rq_IdempotencyKey q = k))"

definition inv_queue :: "db \<Rightarrow> bool" where
  "inv_queue d \<longleftrightarrow> (\<forall>k i. kget (db_queue d) k = Some i \<longleftrightarrow>
     (\<exists>q. kget (db_requests d) i = Some (Json q) \<and> rq_State q = Queued \<and>
        k = queueKey (rq_CreatedAt q) i))"

definition inv_leases :: "db \<Rightarrow> bool" where
  "inv_leases d \<longleftrightarrow> (\<forall>a v. kget (db_leases d) a = Some v \<longrightarrow>
     (\<exists>l. v = Json l \<and> Lease_validate l = Inr ()))"

definition inv_notifications :: "db \<Rightarrow> bool" where
  "inv_notifications d \<longleftrightarrow> (\<forall>i v. kget (db_notifications d) i = Some v \<longrightarrow>
     (\<exists>n. v = Json n \<and> nt_EventID n = i \<and> Notification_Validate n = Inr ()))"

definition inv_deletions :: "db \<Rightarrow> bool" where
  "inv_deletions d \<longleftrightarrow> (\<forall>a v. kget (db_deletions d) a = Some v \<longrightarrow>
     (\<exists>x. v = Json x \<and> ds_AccountID x = a \<and> DeletionSnapshot_Validate x = Inr ()))"

definition store_inv :: "db \<Rightarrow> bool" where
  "store_inv d \<longleftrightarrow> inv_accounts d \<and> inv_audits d \<and> inv_events d \<and> inv_requests d \<and> inv_bound d \<and>
     inv_idempotency d \<and> inv_queue d \<and> inv_leases d \<and> inv_notifications d \<and> inv_deletions d"

lemmas inv_defs = inv_audits_def inv_events_def inv_requests_def inv_bound_def
  inv_idempotency_def inv_queue_def inv_leases_def inv_notifications_def inv_deletions_def

section \<open>Reading under the invariant\<close>

lemma requestFromTx_inv:
  assumes "inv_requests d"
  shows "requestFromTx d i = Inr q \<longleftrightarrow> kget (db_requests d) i = Some (Json q)"
proof -
  have ok: "requestOk i r" if "kget (db_requests d) i = Some (Json r)" for r
    using assms that unfolding inv_requests_def by blast
  have isj: "\<exists>r. v = Json r" if "kget (db_requests d) i = Some v" for v
    using assms that unfolding inv_requests_def by blast
  have blank: "kget (db_requests d) i = Some (Json r) \<Longrightarrow> TrimSpace i \<noteq> []" for r
    using ok [of r] by (auto simp: requestOk_def Request_Validate_iff nonEmpty_def)
  show ?thesis
  proof (cases "kget (db_requests d) i")
    case None
    then show ?thesis by (simp add: requestFromTx_def)
  next
    case (Some v)
    then obtain r where v: "v = Json r" using isj by blast
    with Some ok blank have "requestOk i r" "TrimSpace i \<noteq> []" by auto
    then show ?thesis using Some v by (auto simp: requestFromTx_def requestOk_def Let_def)
  qed
qed

lemma requestFromTx_ok: "inv_requests d \<Longrightarrow> requestFromTx d i = Inr q \<Longrightarrow> requestOk i q"
  by (auto simp: requestFromTx_inv) (auto simp: inv_requests_def)

lemma snapshot_projection:
  "snapshotFromTx d a = Inr s \<Longrightarrow> kget (db_accounts d) a = Some (Json (projOf s))"
  by (simp add: snapshotFromTx_iff)

lemma projOf_sel [simp]:
  "ap_AccountID (projOf s) = sn_AccountID s" "ap_Status (projOf s) = sn_Status s"
  "ap_RequestID (projOf s) = sn_RequestID s" "ap_Revision (projOf s) = sn_Revision s"
  by (simp_all add: projOf_def)

section \<open>A new event keeps the invariant\<close>

lemma requestAfter_sel [simp]:
  "rq_RequestID (requestAfter e r q) = rq_RequestID q" "rq_AccountID (requestAfter e r q) = rq_AccountID q"
  "rq_IdempotencyKey (requestAfter e r q) = rq_IdempotencyKey q"
  "rq_NotificationRoomID (requestAfter e r q) = rq_NotificationRoomID q"
  "rq_State (requestAfter e r q) = sn_Status (tr_State r)" "rq_CreatedAt (requestAfter e r q) = rq_CreatedAt q"
  "rq_UpdatedAt (requestAfter e r q) = ev_OccurredAt e" "rq_Attempt (requestAfter e r q) = rq_Attempt q"
  "rq_NotBefore (requestAfter e r q) = (if sn_Status (tr_State r) = Queued then ev_OccurredAt e else 0)"
  "rq_Deadline (requestAfter e r q) = rq_Deadline q" "rq_LastFailure (requestAfter e r q) = rq_LastFailure q"
  by (simp_all add: requestAfter_def)

lemma eventWrites_sel [simp]:
  "db_idempotency (eventWrites e s r q d) = db_idempotency d"
  "db_leases (eventWrites e s r q d) = db_leases d"
  "db_notifications (eventWrites e s r q d) = db_notifications d"
  "db_deletions (eventWrites e s r q d) = db_deletions d"
  "db_requests (eventWrites e s r q d) = kput (rq_RequestID q) (Json q) (db_requests d)"
  "db_queue (eventWrites e s r q d) = queueAfter (sn_Status s) (ev_To e) q (db_queue d)"
  "db_events (eventWrites e s r q d) = kput (ev_EventID e) (Json (tr_Audit r)) (db_events d)"
  "db_accounts (eventWrites e s r q d) =
     kput (sn_AccountID (tr_State r)) (Json (projOf (tr_State r))) (db_accounts d)"
  "db_audits (eventWrites e s r q d) = kput (ev_AccountID e) (kput (revisionKey (ar_Revision (tr_Audit r)))
         (Json (tr_Audit r)) (auditsOf d (ev_AccountID e))) (db_audits d)"
  by (simp_all add: eventWrites_def)

lemma auditsOf_eventWrites:
  "auditsOf (eventWrites e s r q d) a =
     (if a = ev_AccountID e then kput (revisionKey (ar_Revision (tr_Audit r))) (Json (tr_Audit r)) (auditsOf d a)
      else auditsOf d a)"
  by (simp add: auditsOf_def)

text \<open>The account that the event is for reads back as the state \<open>Apply\<close> returned.\<close>

lemma snapshotFromTx_eventWrites:
  assumes new: "newEvent e s r q0 d"
  shows "snapshotFromTx (eventWrites e s r q d) (ev_AccountID e) = Inr (tr_State r)"
    and "a \<noteq> ev_AccountID e \<Longrightarrow> snapshotFromTx d a = Inr t \<Longrightarrow> snapshotFromTx (eventWrites e s r q d) a = Inr t"
proof -
  note N = newEventD [OF new]
  note f = Apply_new_event [OF N(2,3)]
  let ?d = "eventWrites e s r q d" and ?a = "ev_AccountID e" and ?m = "sn_AppliedEvents s"
  have h: "histOk d (auditsOf d ?a) ?m" using N(1) by (simp add: snapshotFromTx_iff)
  have "histOk ?d (kput (revisionKey (ar_Revision (tr_Audit r))) (Json (tr_Audit r)) (auditsOf d ?a))
      (kput (ev_EventID e) (tr_Audit r) ?m)"
    unfolding histOk_def
  proof (intro conjI allI impI)
    fix k v
    assume kv: "kget (kput (revisionKey (ar_Revision (tr_Audit r))) (Json (tr_Audit r)) (auditsOf d ?a)) k = Some v"
    show "\<exists>a. v = Json a \<and> k = revisionKey (ar_Revision a) \<and> kget (db_events ?d) (recID a) = Some (Json a) \<and>
        kget (kput (ev_EventID e) (tr_Audit r) ?m) (recID a) = Some a"
    proof (cases "k = revisionKey (ar_Revision (tr_Audit r))")
      case True
      then show ?thesis using kv f(2) by auto
    next
      case False
      with kv have "kget (auditsOf d ?a) k = Some v" by simp
      then obtain b where b: "v = Json b" "k = revisionKey (ar_Revision b)"
          "kget (db_events d) (recID b) = Some (Json b)" "kget ?m (recID b) = Some b"
        using h unfolding histOk_def by blast
      moreover have "recID b \<noteq> ev_EventID e" using b(3) N(9) by auto
      ultimately show ?thesis by auto
    qed
  next
    fix i a
    assume "kget (kput (ev_EventID e) (tr_Audit r) ?m) i = Some a"
    then have "i = ev_EventID e \<and> a = tr_Audit r \<or> i \<noteq> ev_EventID e \<and> kget ?m i = Some a"
      by (auto split: if_splits)
    moreover have "kget ?m i = Some a \<Longrightarrow> recID a = i \<and> kget (auditsOf d ?a) (revisionKey (ar_Revision a)) = Some (Json a)"
      using h unfolding histOk_def by blast
    ultimately show "recID a = i" "kget (kput (revisionKey (ar_Revision (tr_Audit r))) (Json (tr_Audit r))
        (auditsOf d ?a)) (revisionKey (ar_Revision a)) = Some (Json a)"
      using f(2) N(8) by auto
  qed
  then show "snapshotFromTx ?d ?a = Inr (tr_State r)"
    using f Apply_valid [OF N(2)] by (simp add: snapshotFromTx_iff auditsOf_eventWrites)
  show "snapshotFromTx ?d a = Inr t" if "a \<noteq> ?a" "snapshotFromTx d a = Inr t"
    by (rule snapshotFromTx_frame [OF that(2)]) (use that f N(9) in auto)
qed

lemma store_invD:
  "store_inv d \<Longrightarrow> inv_accounts d" "store_inv d \<Longrightarrow> inv_audits d" "store_inv d \<Longrightarrow> inv_events d"
  "store_inv d \<Longrightarrow> inv_requests d" "store_inv d \<Longrightarrow> inv_bound d" "store_inv d \<Longrightarrow> inv_idempotency d"
  "store_inv d \<Longrightarrow> inv_queue d" "store_inv d \<Longrightarrow> inv_leases d"
  "store_inv d \<Longrightarrow> inv_notifications d" "store_inv d \<Longrightarrow> inv_deletions d"
  by (simp_all add: store_inv_def)

lemma requests_entry:
  assumes "inv_requests d" "kget (db_requests d) k = Some v"
  obtains q p where "v = Json q" "requestOk k q" "kget (db_idempotency d) (rq_IdempotencyKey q) = Some k"
    "kget (db_accounts d) (rq_AccountID q) = Some (Json p)"
    "rq_State q \<noteq> NoRequest \<Longrightarrow> ap_RequestID p = k \<and> ap_Status p = rq_State q"
  using assms unfolding inv_requests_def by blast

lemma queueAfter_get:
  assumes inv: "\<And>k i. kget Q k = Some i \<longleftrightarrow> (\<exists>q. kget R i = Some (Json q) \<and> rq_State q = Queued \<and>
        k = queueKey (rq_CreatedAt q) i)"
    and old: "kget R (rq_RequestID q) = Some (Json q0)" "rq_CreatedAt q0 = rq_CreatedAt q" "rq_State q0 = from"
    and new: "rq_State q = to"
  shows "kget (queueAfter from to q Q) k = Some i \<longleftrightarrow>
     (\<exists>x. kget (kput (rq_RequestID q) (Json q) R) i = Some (Json x) \<and> rq_State x = Queued \<and>
        k = queueKey (rq_CreatedAt x) i)"
proof (cases "i = rq_RequestID q")
  case True
  let ?kq = "queueKey (rq_CreatedAt q) (rq_RequestID q)"
  have "kget Q k = Some i \<longleftrightarrow> from = Queued \<and> k = ?kq"
    using inv [of k i] old True by auto
  then show ?thesis using True new by (auto simp: queueAfter_def Let_def)
next
  case False
  have ne: "k \<noteq> queueKey (rq_CreatedAt q) (rq_RequestID q)" if "kget Q k = Some i"
    using that inv [of k i] False queueKey_inj by blast
  have "kget (queueAfter from to q Q) k = Some i \<longleftrightarrow> kget Q k = Some i"
    using ne False by (auto simp: queueAfter_def Let_def)
  then show ?thesis using inv [of k i] False by simp
qed

text \<open>The facts of a new event that the preservation proofs share.\<close>

lemma newEvent_facts:
  assumes "store_inv d" and new: "newEvent e s r q d"
  shows "kget (db_requests d) (ev_RequestID e) = Some (Json q)" "rq_RequestID q = ev_RequestID e"
    "kget (db_accounts d) (ev_AccountID e) = Some (Json (projOf s))"
    "ev_To e \<noteq> NoRequest" "ev_OccurredAt e \<noteq> 0"
    "kget (db_idempotency d) (rq_IdempotencyKey q) = Some (ev_RequestID e)"
    "sn_AccountID (tr_State r) = ev_AccountID e" "sn_Status (tr_State r) = ev_To e"
    "sn_RequestID (tr_State r) = ev_RequestID e" "ar_Event (tr_Audit r) = e"
    "sn_Status s \<noteq> NoRequest \<Longrightarrow> ev_RequestID e = sn_RequestID s"
proof -
  note N = newEventD [OF new] and I = store_invD [OF assms(1)]
  note f = Apply_new_event [OF N(2,3)]
  show r0: "kget (db_requests d) (ev_RequestID e) = Some (Json q)"
    using N(4) I(4) by (simp add: requestFromTx_inv)
  show "rq_RequestID q = ev_RequestID e"
    using requestFromTx_ok [OF I(4) N(4)] by (simp add: requestOk_def)
  show "kget (db_accounts d) (ev_AccountID e) = Some (Json (projOf s))"
    by (rule snapshot_projection [OF N(1)])
  show "kget (db_idempotency d) (rq_IdempotencyKey q) = Some (ev_RequestID e)"
    using requests_entry [OF I(4) r0] by (metis json.inject)
  show "ev_To e \<noteq> NoRequest" using f(9) CanTransition_valid by blast
  show "ev_OccurredAt e \<noteq> 0" using f(10) by (simp add: validFields_iff)
  show "sn_AccountID (tr_State r) = ev_AccountID e" "sn_Status (tr_State r) = ev_To e"
    "sn_RequestID (tr_State r) = ev_RequestID e" "ar_Event (tr_Audit r) = e"
    by (rule f)+
  show "sn_Status s \<noteq> NoRequest \<Longrightarrow> ev_RequestID e = sn_RequestID s" by (rule f)
qed

lemma eventWrites_accounts:
  assumes inv: "store_inv d" and new: "newEvent e s r q d"
  shows "inv_accounts (eventWrites e s r (requestAfter e r q) d)" (is "inv_accounts ?d")
    and "inv_audits (eventWrites e s r (requestAfter e r q) d)"
proof -
  note F = newEvent_facts [OF inv new] and I = store_invD [OF inv]
  show "inv_accounts ?d" unfolding inv_accounts_def
  proof (intro allI impI)
    fix a v assume "kget (db_accounts ?d) a = Some v"
    then have "a = ev_AccountID e \<or> (\<exists>v. kget (db_accounts d) a = Some v)"
      using F(7) by (auto split: if_splits)
    then show "\<exists>t. snapshotFromTx ?d a = Inr t"
      using snapshotFromTx_eventWrites [OF new] I(1) unfolding inv_accounts_def by metis
  qed
  show "inv_audits ?d" using I(2) F(3,7) by (auto simp: inv_audits_def)
qed

lemma eventWrites_events:
  assumes inv: "store_inv d" and new: "newEvent e s r q d"
  shows "inv_events (eventWrites e s r (requestAfter e r q) d)" (is "inv_events ?d")
  unfolding inv_events_def
proof (intro allI impI)
  fix i v assume "kget (db_events ?d) i = Some v"
  then consider "i = ev_EventID e" "v = Json (tr_Audit r)"
    | "i \<noteq> ev_EventID e" "kget (db_events d) i = Some v"
    by (auto split: if_splits)
  then show "\<exists>a. v = Json a \<and> recID a = i \<and>
      kget (auditsOf ?d (ev_AccountID (ar_Event a))) (revisionKey (ar_Revision a)) = Some (Json a)"
  proof cases
    case 1
    then show ?thesis using newEvent_facts(10) [OF inv new] by (simp add: auditsOf_eventWrites)
  next
    case 2
    then obtain b where "v = Json b" "recID b = i"
        "kget (auditsOf d (ev_AccountID (ar_Event b))) (revisionKey (ar_Revision b)) = Some (Json b)"
      using store_invD(3) [OF inv] unfolding inv_events_def by blast
    then show ?thesis using newEventD(8) [OF new] by (auto simp: auditsOf_eventWrites)
  qed
qed

lemma eventWrites_requests:
  assumes inv: "store_inv d" and new: "newEvent e s r q d"
  shows "inv_requests (eventWrites e s r (requestAfter e r q) d)" (is "inv_requests ?d")
  unfolding inv_requests_def
proof (intro allI impI)
  note F = newEvent_facts [OF inv new] and N = newEventD [OF new]
  fix k v assume kv: "kget (db_requests ?d) k = Some v"
  show "\<exists>x p. v = Json x \<and> requestOk k x \<and> kget (db_idempotency ?d) (rq_IdempotencyKey x) = Some k \<and>
      kget (db_accounts ?d) (rq_AccountID x) = Some (Json p) \<and>
      (rq_State x \<noteq> NoRequest \<longrightarrow> ap_RequestID p = k \<and> ap_Status p = rq_State x)"
  proof (cases "k = ev_RequestID e")
    case True
    then show ?thesis using kv F N(5,7)
      by (intro exI [of _ "requestAfter e r q"] exI [of _ "projOf (tr_State r)"])
        (auto simp: requestOk_def)
  next
    case False
    with kv F(2) have "kget (db_requests d) k = Some v" by simp
    then obtain x p where x: "v = Json x" "requestOk k x"
        "kget (db_idempotency d) (rq_IdempotencyKey x) = Some k"
        "kget (db_accounts d) (rq_AccountID x) = Some (Json p)"
        "rq_State x \<noteq> NoRequest \<Longrightarrow> ap_RequestID p = k \<and> ap_Status p = rq_State x"
      by (rule requests_entry [OF store_invD(4) [OF inv]]) blast
    have "rq_State x = NoRequest" if "rq_AccountID x = ev_AccountID e"
      using that x F(3,11) False by fastforce
    with x F(7) show ?thesis by (cases "rq_AccountID x = ev_AccountID e") auto
  qed
qed

lemma eventWrites_bound:
  assumes inv: "store_inv d" and new: "newEvent e s r q d"
  shows "inv_bound (eventWrites e s r (requestAfter e r q) d)" (is "inv_bound ?d")
  unfolding inv_bound_def
proof (intro allI impI)
  note F = newEvent_facts [OF inv new] and N = newEventD [OF new]
  fix a p assume p: "kget (db_accounts ?d) a = Some (Json p)" "ap_Status p \<noteq> NoRequest"
  show "\<exists>x. kget (db_requests ?d) (ap_RequestID p) = Some (Json x) \<and> rq_AccountID x = a \<and>
      rq_State x = ap_Status p"
  proof (cases "a = ev_AccountID e")
    case True
    then show ?thesis using p F N(5) by auto
  next
    case False
    then have "kget (db_accounts d) a = Some (Json p)" using p F(7) by simp
    then obtain x where x: "kget (db_requests d) (ap_RequestID p) = Some (Json x)"
        "rq_AccountID x = a" "rq_State x = ap_Status p"
      using store_invD(5) [OF inv] p(2) unfolding inv_bound_def by blast
    then have "ap_RequestID p \<noteq> ev_RequestID e" using F(1) N(5) False by auto
    with x F(2) show ?thesis by auto
  qed
qed

lemma eventWrites_inv:
  assumes inv: "store_inv d" and new: "newEvent e s r q d"
  shows "store_inv (eventWrites e s r (requestAfter e r q) d)" (is "store_inv ?d")
proof -
  note F = newEvent_facts [OF inv new] and N = newEventD [OF new] and I = store_invD [OF inv]
  have "inv_idempotency ?d"
    using I(6) F(1,2) unfolding inv_idempotency_def by fastforce
  moreover have "inv_queue ?d" unfolding inv_queue_def eventWrites_sel
    by (intro allI queueAfter_get) (use I(7) F N(6) in \<open>auto simp: inv_queue_def\<close>)
  moreover have "inv_leases ?d" "inv_notifications ?d" "inv_deletions ?d"
    using I by (simp_all add: inv_leases_def inv_notifications_def inv_deletions_def)
  ultimately show ?thesis
    using eventWrites_accounts [OF assms] eventWrites_events [OF assms]
      eventWrites_requests [OF assms] eventWrites_bound [OF assms]
    by (simp add: store_inv_def)
qed

section \<open>Writes outside the audit trail\<close>

lemma snapshotFromTx_cong:
  assumes "db_accounts d' = db_accounts d" "db_audits d' = db_audits d" "db_events d' = db_events d"
  shows "snapshotFromTx d' a = snapshotFromTx d a"
proof -
  have "auditEntry d' = auditEntry d" by (intro ext) (simp only: auditEntry_def assms(3))
  then show ?thesis by (simp only: snapshotFromTx_def assms(1,2))
qed

lemma snapshotFromTx_other [simp]:
  "snapshotFromTx (d\<lparr>db_requests := x1\<rparr>) a = snapshotFromTx d a"
  "snapshotFromTx (d\<lparr>db_idempotency := x2\<rparr>) a = snapshotFromTx d a"
  "snapshotFromTx (d\<lparr>db_leases := x3\<rparr>) a = snapshotFromTx d a"
  "snapshotFromTx (d\<lparr>db_queue := x4\<rparr>) a = snapshotFromTx d a"
  "snapshotFromTx (d\<lparr>db_notifications := x5\<rparr>) a = snapshotFromTx d a"
  "snapshotFromTx (d\<lparr>db_deletions := x6\<rparr>) a = snapshotFromTx d a"
  by (rule snapshotFromTx_cong; simp)+

lemma auditsOf_other [simp]:
  "auditsOf (d\<lparr>db_requests := x1\<rparr>) a = auditsOf d a" "auditsOf (d\<lparr>db_idempotency := x2\<rparr>) a = auditsOf d a"
  "auditsOf (d\<lparr>db_leases := x3\<rparr>) a = auditsOf d a" "auditsOf (d\<lparr>db_queue := x4\<rparr>) a = auditsOf d a"
  "auditsOf (d\<lparr>db_notifications := x5\<rparr>) a = auditsOf d a" "auditsOf (d\<lparr>db_deletions := x6\<rparr>) a = auditsOf d a"
  "auditsOf (d\<lparr>db_accounts := x7\<rparr>) a = auditsOf d a"
  by (simp_all add: auditsOf_def)

lemma inv_accounts_other [simp]:
  "inv_accounts (d\<lparr>db_requests := x1\<rparr>) = inv_accounts d" "inv_accounts (d\<lparr>db_idempotency := x2\<rparr>) = inv_accounts d"
  "inv_accounts (d\<lparr>db_leases := x3\<rparr>) = inv_accounts d" "inv_accounts (d\<lparr>db_queue := x4\<rparr>) = inv_accounts d"
  "inv_accounts (d\<lparr>db_notifications := x5\<rparr>) = inv_accounts d" "inv_accounts (d\<lparr>db_deletions := x6\<rparr>) = inv_accounts d"
  by (simp_all add: inv_accounts_def)

text \<open>Each bucket outside the audit trail can be written on its own.\<close>

lemma store_inv_leases:
  "store_inv d \<Longrightarrow> store_inv (d\<lparr>db_leases := x\<rparr>) \<longleftrightarrow> inv_leases (d\<lparr>db_leases := x\<rparr>)"
  by (auto simp: store_inv_def inv_defs)

lemma store_inv_notifications:
  "store_inv d \<Longrightarrow> store_inv (d\<lparr>db_notifications := x\<rparr>) \<longleftrightarrow> inv_notifications (d\<lparr>db_notifications := x\<rparr>)"
  by (auto simp: store_inv_def inv_defs)

lemma store_inv_deletions:
  "store_inv d \<Longrightarrow> store_inv (d\<lparr>db_deletions := x\<rparr>) \<longleftrightarrow> inv_deletions (d\<lparr>db_deletions := x\<rparr>)"
  by (auto simp: store_inv_def inv_defs)

lemma putLease_inv [inv_intros]:
  "store_inv d \<Longrightarrow> Lease_validate l = Inr () \<Longrightarrow> store_inv (putLease a l d)"
  using store_invD(8) [of d] by (auto simp: putLease_def store_inv_leases inv_leases_def)

lemma deleteLease_inv [inv_intros]: "store_inv d \<Longrightarrow> store_inv (deleteLease a d)"
  using store_invD(8) [of d] by (auto simp: deleteLease_def store_inv_leases inv_leases_def)

lemma putNotification_inv [inv_intros]:
  "store_inv d \<Longrightarrow> Notification_Validate n = Inr () \<Longrightarrow> store_inv (putNotification n d)"
  using store_invD(9) [of d] by (auto simp: putNotification_def store_inv_notifications inv_notifications_def)

text \<open>
  A request may be rewritten with new scheduling data as long as its identity and its status stay.
\<close>

definition sameRequest :: "Request \<Rightarrow> Request \<Rightarrow> bool" where
  "sameRequest q q' \<longleftrightarrow> rq_RequestID q' = rq_RequestID q \<and> rq_AccountID q' = rq_AccountID q \<and>
     rq_IdempotencyKey q' = rq_IdempotencyKey q \<and> rq_NotificationRoomID q' = rq_NotificationRoomID q \<and>
     rq_CreatedAt q' = rq_CreatedAt q \<and> rq_Deadline q' = rq_Deadline q"

lemma putRequest_inv:
  assumes inv: "store_inv d" and old: "kget (db_requests d) (rq_RequestID q') = Some (Json q)"
    and new: "sameRequest q q'" "rq_State q' = rq_State q" "Request_Validate q' = Inr ()"
      "rq_State q' = Queued \<Longrightarrow> rq_NotBefore q' \<noteq> 0"
  shows "store_inv (putRequest q' d)"
proof -
  note I = store_invD [OF inv]
  have "inv_requests (putRequest q' d)" unfolding inv_requests_def
  proof (intro allI impI)
    fix k v assume kv: "kget (db_requests (putRequest q' d)) k = Some v"
    obtain p where p: "kget (db_idempotency d) (rq_IdempotencyKey q) = Some (rq_RequestID q')"
        "kget (db_accounts d) (rq_AccountID q) = Some (Json p)"
        "rq_State q \<noteq> NoRequest \<longrightarrow> ap_RequestID p = rq_RequestID q' \<and> ap_Status p = rq_State q"
      using requests_entry [OF I(4) old] by (metis json.inject)
    show "\<exists>x p. v = Json x \<and> requestOk k x \<and> kget (db_idempotency (putRequest q' d)) (rq_IdempotencyKey x) = Some k \<and>
        kget (db_accounts (putRequest q' d)) (rq_AccountID x) = Some (Json p) \<and>
        (rq_State x \<noteq> NoRequest \<longrightarrow> ap_RequestID p = k \<and> ap_Status p = rq_State x)"
    proof (cases "k = rq_RequestID q'")
      case True
      with kv p new show ?thesis
        by (intro exI [of _ q'] exI [of _ p]) (auto simp: putRequest_def requestOk_def sameRequest_def)
    next
      case False
      with kv have "kget (db_requests d) k = Some v" by (simp add: putRequest_def)
      then show ?thesis using I(4) by (simp add: putRequest_def inv_requests_def)
    qed
  qed
  moreover have "inv_bound (putRequest q' d)" "inv_idempotency (putRequest q' d)"
    using I(5,6) old new unfolding inv_bound_def inv_idempotency_def putRequest_def sameRequest_def by fastforce+
  moreover have "inv_queue (putRequest q' d)"
    using I(7) old new by (fastforce simp: inv_queue_def putRequest_def sameRequest_def)
  moreover have "inv_accounts (putRequest q' d)" "inv_audits (putRequest q' d)" "inv_events (putRequest q' d)"
    "inv_leases (putRequest q' d)" "inv_notifications (putRequest q' d)" "inv_deletions (putRequest q' d)"
    using I by (simp_all add: putRequest_def inv_defs)
  ultimately show ?thesis by (simp add: store_inv_def)
qed

section \<open>Applying an event\<close>

lemma enqueueNotificationTx_inv [inv_intros]:
  "store_inv d \<Longrightarrow> enqueueNotificationTx e q d = Inr d' \<Longrightarrow> store_inv d'"
  by (auto simp: enqueueNotificationTx_iff intro: inv_intros)

lemma enqueueNotificationTx_frame:
  "enqueueNotificationTx e q d = Inr d' \<Longrightarrow> \<exists>x. d' = d\<lparr>db_notifications := x\<rparr>"
proof -
  assume "enqueueNotificationTx e q d = Inr d'"
  moreover have "d = d\<lparr>db_notifications := db_notifications d\<rparr>" by simp
  ultimately show ?thesis unfolding enqueueNotificationTx_iff putNotification_def by metis
qed

lemma applyEventTx_inv [inv_intros]:
  assumes "store_inv d" "applyEventTx e d = Inr (r, d')"
  shows "store_inv d'"
proof (cases "tr_Idempotent r")
  case True
  then show ?thesis using applyEventTx_replay [OF assms(2)] assms(1) by simp
next
  case False
  then show ?thesis
    using applyEventTx_new [OF assms(2)] eventWrites_inv [OF assms(1)] enqueueNotificationTx_inv by metis
qed

text \<open>
  The refinement: on the account it is for, a stored event has exactly the effect of \<open>Apply\<close>,
  and on every other account none.
\<close>

lemma applyEventTx_refines:
  assumes "applyEventTx e d = Inr (r, d')"
  shows "\<exists>s. snapshotFromTx d (ev_AccountID e) = Inr s \<and> Apply s e = Inr r \<and>
     snapshotFromTx d' (ev_AccountID e) = Inr (tr_State r)"
    and "a \<noteq> ev_AccountID e \<Longrightarrow> snapshotFromTx d a = Inr t \<Longrightarrow> snapshotFromTx d' a = Inr t"
    and "db_leases d' = db_leases d" "db_idempotency d' = db_idempotency d" "db_deletions d' = db_deletions d"
proof -
  have "(\<exists>s. snapshotFromTx d (ev_AccountID e) = Inr s \<and> Apply s e = Inr r \<and>
     snapshotFromTx d' (ev_AccountID e) = Inr (tr_State r)) \<and>
     (a \<noteq> ev_AccountID e \<longrightarrow> snapshotFromTx d a = Inr t \<longrightarrow> snapshotFromTx d' a = Inr t) \<and>
     db_leases d' = db_leases d \<and> db_idempotency d' = db_idempotency d \<and> db_deletions d' = db_deletions d"
  proof (cases "tr_Idempotent r")
    case True
    then show ?thesis using applyEventTx_replay [OF assms] by auto
  next
    case False
    then obtain s q x where n: "newEvent e s r q d"
      and d': "d' = (eventWrites e s r (requestAfter e r q) d)\<lparr>db_notifications := x\<rparr>"
      using applyEventTx_new [OF assms] enqueueNotificationTx_frame by metis
    show ?thesis
      using newEventD(1,2) [OF n] snapshotFromTx_eventWrites [OF n] unfolding d' by simp
  qed
  then show "\<exists>s. snapshotFromTx d (ev_AccountID e) = Inr s \<and> Apply s e = Inr r \<and>
     snapshotFromTx d' (ev_AccountID e) = Inr (tr_State r)"
    and "a \<noteq> ev_AccountID e \<Longrightarrow> snapshotFromTx d a = Inr t \<Longrightarrow> snapshotFromTx d' a = Inr t"
    and "db_leases d' = db_leases d" "db_idempotency d' = db_idempotency d" "db_deletions d' = db_deletions d"
    by auto
qed

text \<open>The request of a new event; every other request stays as it is.\<close>

lemma applyEventTx_request:
  assumes "store_inv d" "applyEventTx e d = Inr (r, d')" "\<not> tr_Idempotent r"
  obtains q where "kget (db_requests d) (ev_RequestID e) = Some (Json q)" "rq_RequestID q = ev_RequestID e"
    "rq_AccountID q = ev_AccountID e" "rq_State q = ev_From e"
    "db_requests d' = kput (ev_RequestID e) (Json (requestAfter e r q)) (db_requests d)"
    "rq_State (requestAfter e r q) = ev_To e" "Request_Validate (requestAfter e r q) = Inr ()"
    "ev_To e \<noteq> NoRequest"
proof -
  obtain s q x where n: "newEvent e s r q d"
    and d': "d' = (eventWrites e s r (requestAfter e r q) d)\<lparr>db_notifications := x\<rparr>"
    using applyEventTx_new [OF assms(2,3)] enqueueNotificationTx_frame by metis
  note F = newEvent_facts [OF assms(1) n] and N = newEventD [OF n]
  show thesis
    by (rule that [OF F(1,2) N(5)]) (use F N(6,7) Apply_new_event(8) [OF N(2,3)] d' in auto)
qed

end
