(* ===== verification/StoreOps.thy ===== *)
theory StoreOps
  imports StoreTx
begin

text \<open>
  The operations of internal/store/store.go on accounts, requests, the queue and account leases.
  Every writing operation is one transaction; its first argument is the commit decision of the
  database engine.
\<close>

section \<open>Accounts and events\<close>

definition CreateAccount :: "commit \<Rightarrow> string \<Rightarrow> db \<Rightarrow> Snapshot result \<times> db" where
  "CreateAccount commit accountID d =
     (case NewSnapshot accountID of
        Inl _ \<Rightarrow> (Inl (StoreErr ErrInvalidAccount), d)
      | Inr initial \<Rightarrow>
          update commit (\<lambda>d.
            if kget (db_accounts d) accountID \<noteq> None then Inl (StoreErr ErrAccountExists)
            else Inr (initial, putAccountProjection initial d)) d)"

definition GetAccount :: "string \<Rightarrow> db \<Rightarrow> Snapshot result" where
  "GetAccount accountID d = view (\<lambda>d. snapshotFromTx d accountID) d"

definition ApplyEvent :: "commit \<Rightarrow> Event \<Rightarrow> db \<Rightarrow> TransitionResult result \<times> db" where
  "ApplyEvent commit event d = update commit (applyEventTx event) d"

definition GetAudits :: "string \<Rightarrow> db \<Rightarrow> AuditRecord list result" where
  "GetAudits accountID d =
     view (\<lambda>d. bindE (snapshotFromTx d accountID) (\<lambda>state.
       Inr (sort_key ar_Revision (kvalues (sn_AppliedEvents state))))) d"

definition GetAudit :: "string \<Rightarrow> uint64 \<Rightarrow> db \<Rightarrow> AuditRecord result" where
  "GetAudit accountID revision d =
     view (\<lambda>d. bindE (snapshotFromTx d accountID) (\<lambda>_.
       case kget (db_audits d) accountID of
         None \<Rightarrow> Inl (StoreErr ErrAuditNotFound)
       | Some bucket \<Rightarrow>
           (case kget bucket (revisionKey revision) of
              None \<Rightarrow> Inl (StoreErr ErrAuditNotFound)
            | Some raw \<Rightarrow> decode raw))) d"

section \<open>Requests\<close>

text \<open>A deletion record of the account refuses every new request.\<close>

definition refuseDeleted :: "db \<Rightarrow> string \<Rightarrow> unit result" where
  "refuseDeleted d accountID =
     (case kget (db_deletions d) accountID of
        None \<Rightarrow> Inr ()
      | Some raw \<Rightarrow>
          bindE (decode raw) (\<lambda>deletion.
          bindE (corrupt (DeletionSnapshot_Validate deletion)) (\<lambda>_.
          if ds_Stage deletion = DeletionTombstoned then Inl (StoreDeletionErr ErrAccountDeleted)
          else Inl (StoreDeletionErr ErrDeletionInProgress))))"

definition createRequestTx :: "Request \<Rightarrow> db \<Rightarrow> ((Request \<times> bool) \<times> db) result" where
  "createRequestTx request d =
     (case kget (db_idempotency d) (rq_IdempotencyKey request) of
        Some existingID \<Rightarrow>
          bindE (requestFromTx d existingID) (\<lambda>existing.
          if \<not> requestIdentityEqual existing request then Inl (StoreErr ErrIdempotencyConflict)
          else Inr ((existing, True), d))
      | None \<Rightarrow>
          if rq_State request \<noteq> NoRequest then Inl (StoreErr ErrInvalidRequest)
          else case kget (db_requests d) (rq_RequestID request) of
            Some existingRaw \<Rightarrow>
              bindE (decode existingRaw) (\<lambda>existing.
              if requestIdentityEqual existing request then Inl (StoreErr ErrCorruptData)
              else Inl (StoreErr ErrRequestConflict))
          | None \<Rightarrow>
              bindE (snapshotFromTx d (rq_AccountID request)) (\<lambda>state.
              bindE (refuseDeleted d (rq_AccountID request)) (\<lambda>_.
              if sn_Status state \<noteq> NoRequest then Inl (StoreErr ErrAccountBusy)
              else
                let d1 = putRequest request d
                in Inr ((request, False),
                        d1\<lparr>db_idempotency := kput (rq_IdempotencyKey request)
                             (rq_RequestID request) (db_idempotency d1)\<rparr>))))"

definition CreateRequest :: "commit \<Rightarrow> Request \<Rightarrow> db \<Rightarrow> (Request \<times> bool) result \<times> db" where
  "CreateRequest commit request d =
     (case Request_Validate request of
        Inl e \<Rightarrow> (Inl e, d)
      | Inr _ \<Rightarrow> update commit (createRequestTx request) d)"

definition submitRequestTx :: "Request \<Rightarrow> db \<Rightarrow> ((Request \<times> bool) \<times> db) result" where
  "submitRequestTx request d =
     (case kget (db_idempotency d) (rq_IdempotencyKey request) of
        Some existingID \<Rightarrow>
          bindE (requestFromTx d existingID) (\<lambda>existing.
          if \<not> requestSubmissionEqual existing request then Inl (StoreErr ErrIdempotencyConflict)
          else Inr ((existing, True), d))
      | None \<Rightarrow> createRequestTx request d)"

text \<open>The transaction of \<open>SubmitRequest\<close>.\<close>

definition submitTx :: "Request \<Rightarrow> Event \<Rightarrow> db \<Rightarrow> ((Request \<times> bool) \<times> db) result" where
  "submitTx request event d =
     bindE (submitRequestTx request d) (\<lambda>((existing, alreadyExists), d1).
     if alreadyExists \<and> rq_State existing \<noteq> NoRequest then Inr ((existing, alreadyExists), d1)
     else
       bindE (applyEventTx event d1) (\<lambda>(_, d2).
       bindE (requestFromTx d2 (rq_RequestID request)) (\<lambda>result.
       Inr ((result, alreadyExists), d2))))"

definition SubmitRequest :: "commit \<Rightarrow> Request \<Rightarrow> Event \<Rightarrow> db \<Rightarrow> (Request \<times> bool) result \<times> db" where
  "SubmitRequest commit request event d =
     (case Request_Validate request of
        Inl e \<Rightarrow> (Inl e, d)
      | Inr _ \<Rightarrow>
          (case Event_Validate event of
             Inl e \<Rightarrow> (Inl e, d)
           | Inr _ \<Rightarrow>
               if rq_State request \<noteq> NoRequest \<or> ev_AccountID event \<noteq> rq_AccountID request
                  \<or> ev_RequestID event \<noteq> rq_RequestID request \<or> ev_From event \<noteq> NoRequest
                  \<or> ev_To event \<noteq> Queued
               then (Inl (StoreErr ErrInvalidRequest), d)
               else update commit (submitTx request event) d))"

definition listEntry :: "string \<times> Request json \<Rightarrow> Request list \<Rightarrow> Request list result" where
  "listEntry p acc =
     bindE (decode (snd p)) (\<lambda>request.
     let request = (if rq_State request = Queued \<and> IsZero (rq_NotBefore request)
                    then request\<lparr>rq_NotBefore := rq_CreatedAt request\<rparr> else request)
     in bindE (corrupt (Request_Validate request)) (\<lambda>_. Inr (acc @ [request])))"

definition ListRequests :: "db \<Rightarrow> Request list result" where
  "ListRequests d =
     bindE (view (\<lambda>d. foldE listEntry (kentries (db_requests d)) []) d) (\<lambda>result.
     Inr (sort_key (\<lambda>r. (rq_CreatedAt r, rq_RequestID r)) result))"

text \<open>A queued request is due when its delay is over and its deadline is not.\<close>

definition dueAt :: "gotime \<Rightarrow> Request \<Rightarrow> bool" where
  "dueAt now request \<longleftrightarrow>
     \<not> After (rq_NotBefore request) now \<and>
     (IsZero (rq_Deadline request) \<or> Before now (rq_Deadline request))"

definition ListQueuedRequests :: "gotime \<Rightarrow> db \<Rightarrow> Request list result" where
  "ListQueuedRequests now d =
     (if IsZero now then Inl (StoreErr ErrInvalidQueueOptions)
      else view (\<lambda>d. bindE (queuedRequestsTx d) (\<lambda>queued. Inr (filter (dueAt now) queued))) d)"

definition GetRequest :: "string \<Rightarrow> db \<Rightarrow> Request result" where
  "GetRequest requestID d = view (\<lambda>d. requestFromTx d requestID) d"

definition GetRequestByIdempotencyKey :: "string \<Rightarrow> db \<Rightarrow> Request result" where
  "GetRequestByIdempotencyKey idempotencyKey d =
     (if TrimSpace idempotencyKey = [] then Inl (StoreErr ErrInvalidRequest)
      else view (\<lambda>d.
        case kget (db_idempotency d) idempotencyKey of
          None \<Rightarrow> Inl (StoreErr ErrRequestNotFound)
        | Some requestID \<Rightarrow> requestFromTx d requestID) d)"

definition IsRequestCancelled :: "string \<Rightarrow> db \<Rightarrow> bool result" where
  "IsRequestCancelled requestID d =
     bindE (GetRequest requestID d) (\<lambda>request. Inr (rq_State request = Cancelled))"

section \<open>Claiming the next request\<close>

record Claim =
  cl_Request :: Request
  cl_Lease :: Lease
  cl_Transition :: TransitionResult

text \<open>The arguments of \<open>ClaimNext\<close>.\<close>

record ClaimArgs =
  ca_now :: gotime
  ca_leaseID :: string
  ca_owner :: string
  ca_ttl :: duration
  ca_eventID :: string
  ca_actor :: string
  ca_reason :: string

definition existingClaimTx :: "ClaimArgs \<Rightarrow> db \<Rightarrow> Claim option result" where
  "existingClaimTx c d =
     (case kget (db_events d) (ca_eventID c) of
        None \<Rightarrow> Inr None
      | Some raw \<Rightarrow>
          bindE (decode raw) (\<lambda>audit.
          if ev_From (ar_Event audit) \<noteq> Queued \<or> ev_To (ar_Event audit) \<noteq> Starting
             \<or> ev_Actor (ar_Event audit) \<noteq> ca_actor c \<or> ev_Reason (ar_Event audit) \<noteq> ca_reason c
          then Inl (AccountErr ErrEventConflict)
          else
            bindE (requestFromTx d (ev_RequestID (ar_Event audit))) (\<lambda>request.
            bindE (snapshotFromTx d (ev_AccountID (ar_Event audit))) (\<lambda>state.
            bindE (leaseFromTx d (ev_AccountID (ar_Event audit))) (\<lambda>found.
            case found of
              None \<Rightarrow> Inl (AccountErr ErrEventConflict)
            | Some lease \<Rightarrow>
                if ls_LeaseID lease \<noteq> ca_leaseID c \<or> ls_Owner lease \<noteq> ca_owner c
                   \<or> rq_State request \<noteq> Starting \<or> sn_Status state \<noteq> Starting
                   \<or> sn_RequestID state \<noteq> rq_RequestID request
                then Inl (AccountErr ErrEventConflict)
                else if Lease_Expired lease (ca_now c) then Inl (AccountLeaseErr ErrLeaseExpired)
                else Inr (Some \<lparr>cl_Request = request, cl_Lease = lease,
                  cl_Transition = \<lparr>tr_State = state, tr_Audit = audit, tr_Idempotent = True\<rparr>\<rparr>))))))"

text \<open>The event and the writes of one claim.\<close>

definition claimEvent :: "ClaimArgs \<Rightarrow> Request \<Rightarrow> Snapshot \<Rightarrow> Event" where
  "claimEvent c candidate state =
     \<lparr>ev_EventID = ca_eventID c, ev_AccountID = rq_AccountID candidate,
      ev_RequestID = rq_RequestID candidate, ev_From = Queued,
      ev_ExpectedRevision = sn_Revision state, ev_To = Starting, ev_Reason = ca_reason c,
      ev_Actor = ca_actor c, ev_OccurredAt = ca_now c\<rparr>"

definition claimCandidate ::
  "ClaimArgs \<Rightarrow> Request \<Rightarrow> Snapshot \<Rightarrow> Lease \<Rightarrow> db \<Rightarrow> (Claim \<times> db) result" where
  "claimCandidate c candidate state lease d =
     bindE (applyEventTx (claimEvent c candidate state) d) (\<lambda>(transition, d1).
     bindE (requestFromTx d1 (rq_RequestID candidate)) (\<lambda>updated.
     if rq_Attempt updated = maxInt64 then Inl (StoreErr ErrRequestAttemptOverflow)
     else
       let updated = updated\<lparr>rq_Attempt := rq_Attempt updated + 1, rq_NotBefore := zeroTime,
             rq_UpdatedAt := ca_now c\<rparr>
       in bindE (corrupt (Request_Validate updated)) (\<lambda>_.
          Inr (\<lparr>cl_Request = updated, cl_Lease = lease, cl_Transition = transition\<rparr>,
               putLease (rq_AccountID candidate) lease (putRequest updated d1)))))"

text \<open>The loop over the candidates: one whose account is leased is passed over.\<close>

fun claimLoop :: "ClaimArgs \<Rightarrow> Request list \<Rightarrow> db \<Rightarrow> (Claim \<times> db) result" where
  "claimLoop c [] d = Inl (StoreErr ErrQueueEmpty)"
| "claimLoop c (candidate # rest) d =
     bindE (leaseFromTx d (rq_AccountID candidate)) (\<lambda>current.
     if (case current of None \<Rightarrow> False | Some l \<Rightarrow> \<not> Lease_Expired l (ca_now c))
     then claimLoop c rest d
     else
       bindE (snapshotFromTx d (rq_AccountID candidate)) (\<lambda>state.
       if sn_Status state \<noteq> Queued \<or> sn_RequestID state \<noteq> rq_RequestID candidate
       then Inl (StoreErr ErrRequestStateMismatch)
       else
         case AcquireLease current (ca_now c) (ca_leaseID c) (ca_owner c) (ca_ttl c) of
           Inl e \<Rightarrow> if e = AccountLeaseErr ErrLeaseHeld then claimLoop c rest d else Inl e
         | Inr lease \<Rightarrow> claimCandidate c candidate state lease d))"

text \<open>The transaction of \<open>ClaimNext\<close>.\<close>

definition claimTx :: "ClaimArgs \<Rightarrow> int \<Rightarrow> db \<Rightarrow> (Claim \<times> db) result" where
  "claimTx c maxGlobalConcurrency d =
     bindE (existingClaimTx c d) (\<lambda>found.
     case found of
       Some existing \<Rightarrow> Inr (existing, d)
     | None \<Rightarrow>
         bindE (activeLeaseCountTx d (ca_now c)) (\<lambda>activeLeases.
         if maxGlobalConcurrency \<le> int activeLeases then Inl (StoreErr ErrQueueCapacity)
         else
           bindE (queuedRequestsTx d) (\<lambda>queued.
           let candidates = filter (dueAt (ca_now c)) queued
           in if candidates = [] then Inl (StoreErr ErrQueueEmpty)
              else claimLoop c candidates d)))"

definition ClaimNext :: "commit \<Rightarrow> ClaimArgs \<Rightarrow> int \<Rightarrow> db \<Rightarrow> Claim result \<times> db" where
  "ClaimNext commit c maxGlobalConcurrency d =
     (if IsZero (ca_now c) \<or> TrimSpace (ca_leaseID c) = [] \<or> TrimSpace (ca_owner c) = []
         \<or> ca_ttl c \<le> 0 \<or> TrimSpace (ca_eventID c) = [] \<or> TrimSpace (ca_actor c) = []
         \<or> TrimSpace (ca_reason c) = []
      then (Inl (StoreErr ErrInvalidQueueOptions), d)
      else if maxGlobalConcurrency < 1 then (Inl (StoreErr ErrInvalidQueueOptions), d)
      else update commit (claimTx c maxGlobalConcurrency) d)"

section \<open>Finishing a request\<close>

definition verifyExpectedLease ::
  "db \<Rightarrow> string \<Rightarrow> gotime \<Rightarrow> Lease option \<Rightarrow> bool \<Rightarrow> bool \<Rightarrow> unit result" where
  "verifyExpectedLease d accountID at expected allowExpired requireExact =
     (case expected of
        None \<Rightarrow> Inr ()
      | Some e \<Rightarrow>
          bindE (leaseFromTx d accountID) (\<lambda>found.
          case found of
            None \<Rightarrow> Inl (StoreErr ErrLeaseNotFound)
          | Some current \<Rightarrow>
              if ls_LeaseID current \<noteq> ls_LeaseID e \<or> ls_Owner current \<noteq> ls_Owner e
              then Inl (AccountLeaseErr ErrLeaseNotOwned)
              else if requireExact \<and> \<not> leasesEqual current e
              then Inl (AccountLeaseErr ErrLeaseNotOwned)
              else if \<not> allowExpired \<and> Lease_Expired current at
              then Inl (AccountLeaseErr ErrLeaseExpired)
              else Inr ()))"

text \<open>An event that ends the lease of its account, in one transaction.\<close>

definition finishTx ::
  "Event \<Rightarrow> Lease option \<Rightarrow> bool \<Rightarrow> bool \<Rightarrow> db \<Rightarrow> (TransitionResult \<times> db) result" where
  "finishTx event expected allowExpired requireExact d =
     bindE (applyEventTx event d) (\<lambda>(result, d1).
     if tr_Idempotent result then Inr (result, d1)
     else
       bindE (verifyExpectedLease d1 (ev_AccountID event) (ev_OccurredAt event) expected
                allowExpired requireExact) (\<lambda>_.
       Inr (result, deleteLease (ev_AccountID event) d1)))"

definition cancelRequest ::
  "commit \<Rightarrow> Event \<Rightarrow> Lease option \<Rightarrow> bool \<Rightarrow> db \<Rightarrow> TransitionResult result \<times> db" where
  "cancelRequest commit event expectedLease allowExpired d =
     (if ev_To event \<noteq> Cancelled then (Inl (StoreErr ErrInvalidRequest), d)
      else update commit (finishTx event expectedLease allowExpired allowExpired) d)"

definition CancelRequest :: "commit \<Rightarrow> Event \<Rightarrow> db \<Rightarrow> TransitionResult result \<times> db" where
  "CancelRequest commit event d = cancelRequest commit event None False d"

definition CancelRequestOwned ::
  "commit \<Rightarrow> Event \<Rightarrow> Lease \<Rightarrow> bool \<Rightarrow> db \<Rightarrow> TransitionResult result \<times> db" where
  "CancelRequestOwned commit event lease allowExpired d =
     cancelRequest commit event (Some lease) allowExpired d"

definition completeRequest ::
  "commit \<Rightarrow> Event \<Rightarrow> Lease option \<Rightarrow> bool \<Rightarrow> db \<Rightarrow> TransitionResult result \<times> db" where
  "completeRequest commit event expectedLease allowExpired d =
     (if ev_To event \<noteq> LoginSucceeded \<and> ev_To event \<noteq> Blocked
      then (Inl (StoreErr ErrInvalidRequest), d)
      else update commit (finishTx event expectedLease allowExpired False) d)"

definition CompleteRequest :: "commit \<Rightarrow> Event \<Rightarrow> db \<Rightarrow> TransitionResult result \<times> db" where
  "CompleteRequest commit event d = completeRequest commit event None False d"

definition CompleteRequestOwned ::
  "commit \<Rightarrow> Event \<Rightarrow> Lease \<Rightarrow> db \<Rightarrow> TransitionResult result \<times> db" where
  "CompleteRequestOwned commit event lease d = completeRequest commit event (Some lease) False d"

record FailureResult =
  fr_Failed :: TransitionResult
  fr_Retried :: "TransitionResult option"
  fr_Request :: Request

text \<open>A failure that was recorded before: only an already persisted retry is reported.\<close>

definition replayFailureTx ::
  "Event \<Rightarrow> TransitionResult \<Rightarrow> Event option \<Rightarrow> db \<Rightarrow> (FailureResult \<times> db) result" where
  "replayFailureTx event failed retryEvent d =
     bindE (requestFromTx d (ev_RequestID event)) (\<lambda>request.
     case retryEvent of
       None \<Rightarrow> Inr (\<lparr>fr_Failed = failed, fr_Retried = None, fr_Request = request\<rparr>, d)
     | Some re \<Rightarrow>
         if kget (db_events d) (ev_EventID re) = None
         then Inr (\<lparr>fr_Failed = failed, fr_Retried = None, fr_Request = request\<rparr>, d)
         else
           bindE (applyEventTx re d) (\<lambda>(retried, d1).
           Inr (\<lparr>fr_Failed = failed, fr_Retried = Some retried, fr_Request = request\<rparr>, d1)))"

text \<open>The requeueing of a failed request: a second event and the time of the next attempt.\<close>

definition requeueTx ::
  "Event \<Rightarrow> FailureClass \<Rightarrow> gotime \<Rightarrow> TransitionResult \<Rightarrow> Event \<Rightarrow> db \<Rightarrow>
     ((TransitionResult \<times> Request) \<times> db) result" where
  "requeueTx event class nextAttemptAt failed retryEvent d =
     (if ev_AccountID retryEvent \<noteq> ev_AccountID event \<or> ev_RequestID retryEvent \<noteq> ev_RequestID event
         \<or> ev_From retryEvent \<noteq> LoginFailed \<or> ev_To retryEvent \<noteq> Queued
         \<or> ev_ExpectedRevision retryEvent \<noteq> sn_Revision (tr_State failed)
      then Inl (StoreErr ErrInvalidRequest)
      else
        bindE (applyEventTx retryEvent d) (\<lambda>(retried, d1).
        bindE (requestFromTx d1 (ev_RequestID event)) (\<lambda>request.
        Inr ((retried, request\<lparr>rq_LastFailure := class, rq_NotBefore := nextAttemptAt,
                               rq_UpdatedAt := ev_OccurredAt retryEvent\<rparr>), d1))))"

text \<open>The transaction of \<open>recordFailure\<close>.\<close>

definition failureTx ::
  "Event \<Rightarrow> FailureClass \<Rightarrow> gotime \<Rightarrow> Event option \<Rightarrow> Lease option \<Rightarrow> bool \<Rightarrow> db \<Rightarrow>
     (FailureResult \<times> db) result" where
  "failureTx event class nextAttemptAt retryEvent expectedLease allowExpired d =
     bindE (applyEventTx event d) (\<lambda>(failed, d1).
     if tr_Idempotent failed then replayFailureTx event failed retryEvent d1
     else
       bindE (verifyExpectedLease d1 (ev_AccountID event) (ev_OccurredAt event) expectedLease
                allowExpired allowExpired) (\<lambda>_.
       let d2 = deleteLease (ev_AccountID event) d1
       in bindE (requestFromTx d2 (ev_RequestID event)) (\<lambda>request.
          bindE (case retryEvent of
                   None \<Rightarrow> Inr ((None, request\<lparr>rq_LastFailure := class,
                                            rq_UpdatedAt := ev_OccurredAt event\<rparr>), d2)
                 | Some re \<Rightarrow>
                     bindE (requeueTx event class nextAttemptAt failed re d2)
                       (\<lambda>((retried, request), d3). Inr ((Some retried, request), d3)))
            (\<lambda>((retried, request), d3).
          bindE (corrupt (Request_Validate request)) (\<lambda>_.
          bindE (setNotificationFailureTx (ev_EventID event) class (putRequest request d3)) (\<lambda>d4.
          Inr (\<lparr>fr_Failed = failed, fr_Retried = retried, fr_Request = request\<rparr>, d4)))))))"

definition recordFailure ::
  "commit \<Rightarrow> Event \<Rightarrow> FailureClass \<Rightarrow> gotime \<Rightarrow> Event option \<Rightarrow> Lease option \<Rightarrow> bool \<Rightarrow> db \<Rightarrow>
     FailureResult result \<times> db" where
  "recordFailure commit event class nextAttemptAt retryEvent expectedLease allowExpired d =
     (if \<not> validFailureClass class \<or> ev_To event \<noteq> LoginFailed
      then (Inl (StoreErr ErrInvalidRequest), d)
      else if retryEvent \<noteq> None \<and> IsZero nextAttemptAt then (Inl (StoreErr ErrInvalidRequest), d)
      else if (case retryEvent of None \<Rightarrow> False | Some re \<Rightarrow> Before nextAttemptAt (ev_OccurredAt re))
      then (Inl (StoreErr ErrInvalidRequest), d)
      else update commit (failureTx event class nextAttemptAt retryEvent expectedLease allowExpired) d)"

definition RecordFailure ::
  "commit \<Rightarrow> Event \<Rightarrow> FailureClass \<Rightarrow> gotime \<Rightarrow> Event option \<Rightarrow> db \<Rightarrow> FailureResult result \<times> db" where
  "RecordFailure commit event class nextAttemptAt retryEvent d =
     recordFailure commit event class nextAttemptAt retryEvent None False d"

definition RecordFailureOwned ::
  "commit \<Rightarrow> Event \<Rightarrow> FailureClass \<Rightarrow> gotime \<Rightarrow> Event option \<Rightarrow> Lease \<Rightarrow> bool \<Rightarrow> db \<Rightarrow>
     FailureResult result \<times> db" where
  "RecordFailureOwned commit event class nextAttemptAt retryEvent lease allowExpired d =
     recordFailure commit event class nextAttemptAt retryEvent (Some lease) allowExpired d"

section \<open>Account leases\<close>

record LeaseRecord =
  lr_AccountID :: string
  lr_Lease :: Lease

definition ListLeases :: "db \<Rightarrow> LeaseRecord list result" where
  "ListLeases d =
     bindE (view (\<lambda>d. foldE (\<lambda>(key, raw) acc.
         bindE (decode raw) (\<lambda>lease.
         bindE (corrupt (Lease_validate lease)) (\<lambda>_.
         Inr (acc @ [\<lparr>lr_AccountID = key, lr_Lease = lease\<rparr>]))))
       (kentries (db_leases d)) []) d)
     (\<lambda>result. Inr (sort_key lr_AccountID result))"

definition GetLease :: "string \<Rightarrow> db \<Rightarrow> Lease option result" where
  "GetLease accountID d =
     view (\<lambda>d. bindE (snapshotFromTx d accountID) (\<lambda>_. leaseFromTx d accountID)) d"

definition Store_AcquireLease ::
  "commit \<Rightarrow> string \<Rightarrow> gotime \<Rightarrow> string \<Rightarrow> string \<Rightarrow> duration \<Rightarrow> db \<Rightarrow> Lease result \<times> db" where
  "Store_AcquireLease commit accountID now leaseID owner ttl d =
     update commit (\<lambda>d.
       bindE (snapshotFromTx d accountID) (\<lambda>_.
       bindE (leaseFromTx d accountID) (\<lambda>current.
       bindE (AcquireLease current now leaseID owner ttl) (\<lambda>result.
       Inr (result, putLease accountID result d))))) d"

definition Store_HeartbeatLease ::
  "commit \<Rightarrow> string \<Rightarrow> gotime \<Rightarrow> string \<Rightarrow> string \<Rightarrow> duration \<Rightarrow> db \<Rightarrow> Lease result \<times> db" where
  "Store_HeartbeatLease commit accountID now leaseID owner ttl d =
     update commit (\<lambda>d.
       bindE (snapshotFromTx d accountID) (\<lambda>_.
       bindE (leaseFromTx d accountID) (\<lambda>found.
       case found of
         None \<Rightarrow> Inl (StoreErr ErrLeaseNotFound)
       | Some current \<Rightarrow>
           bindE (HeartbeatLease current now leaseID owner ttl) (\<lambda>result.
           Inr (result, putLease accountID result d))))) d"

definition Store_ReleaseLease ::
  "commit \<Rightarrow> string \<Rightarrow> string \<Rightarrow> string \<Rightarrow> db \<Rightarrow> unit result \<times> db" where
  "Store_ReleaseLease commit accountID leaseID owner d =
     update commit (\<lambda>d.
       bindE (snapshotFromTx d accountID) (\<lambda>_.
       bindE (leaseFromTx d accountID) (\<lambda>found.
       case found of
         None \<Rightarrow> Inl (StoreErr ErrLeaseNotFound)
       | Some current \<Rightarrow>
           bindE (ReleaseLease current leaseID owner) (\<lambda>_.
           Inr ((), deleteLease accountID d))))) d"

section \<open>Rebuilding the queue index\<close>

text \<open>The queued requests with the mark whether the scan had to fill in their due time.\<close>

definition rebuildEntry ::
  "string \<times> Request json \<Rightarrow> (Request \<times> bool) list \<Rightarrow> (Request \<times> bool) list result" where
  "rebuildEntry p acc =
     bindE (decode (snd p)) (\<lambda>request.
     if rq_State request \<noteq> Queued then Inr acc
     else
       let needsPersist = IsZero (rq_NotBefore request);
           request = (if needsPersist then request\<lparr>rq_NotBefore := rq_CreatedAt request\<rparr>
                      else request)
       in bindE (corrupt (Request_Validate request)) (\<lambda>_. Inr (acc @ [(request, needsPersist)])))"

definition rebuildTx :: "db \<Rightarrow> (unit \<times> db) result" where
  "rebuildTx d =
     (let d1 = d\<lparr>db_queue := fold kdel (map fst (kentries (db_queue d))) (db_queue d)\<rparr>
      in bindE (foldE rebuildEntry (kentries (db_requests d1)) []) (\<lambda>queuedRequests.
         bindE (foldE (\<lambda>(request, needsPersist) d.
                  putQueueEntry request (if needsPersist then putRequest request d else d))
                queuedRequests d1) (\<lambda>d2.
         Inr ((), d2))))"

definition rebuildQueueIndex :: "commit \<Rightarrow> db \<Rightarrow> unit result \<times> db" where
  "rebuildQueueIndex commit d = update commit rebuildTx d"

end
