(* ===== verification/StoreSafe.thy ===== *)
theory StoreSafe
  imports StoreInv StoreOps
begin

text \<open>
  Every operation of the store keeps the invariant of the database, and no operation changes what
  was promised before: the identity of a request and its idempotency key are fixed for ever.
\<close>

section \<open>Accounts\<close>

lemma putAccountProjection_new_inv:
  assumes inv: "store_inv d" and new: "kget (db_accounts d) a = None" and s: "NewSnapshot a = Inr s"
  shows "store_inv (putAccountProjection s d)" and "snapshotFromTx (putAccountProjection s d) a = Inr s"
    and "\<And>b t. snapshotFromTx d b = Inr t \<Longrightarrow> snapshotFromTx (putAccountProjection s d) b = Inr t"
proof -
  let ?d = "putAccountProjection s d"
  note I = store_invD [OF inv]
  have f: "sn_AccountID s = a" "sn_Status s = NoRequest" "sn_AppliedEvents s = kempty" "Snapshot_Validate s = Inr ()"
    using s NewSnapshot_valid [OF s] by (auto simp: NewSnapshot_def)
  have acc: "db_accounts ?d = kput a (Json (projOf s)) (db_accounts d)"
    using f by (simp add: putAccountProjection_def projOf_def)
  have rest: "db_audits ?d = db_audits d" "db_events ?d = db_events d" "db_requests ?d = db_requests d"
    "db_idempotency ?d = db_idempotency d" "db_queue ?d = db_queue d" "db_leases ?d = db_leases d"
    "db_notifications ?d = db_notifications d" "db_deletions ?d = db_deletions d"
    by (simp_all add: putAccountProjection_def)
  have ao: "auditsOf ?d x = auditsOf d x" for x by (simp add: auditsOf_def rest)
  have "kget (db_audits d) a = None" using I(2) new unfolding inv_audits_def by (metis not_None_eq)
  then show sa: "snapshotFromTx ?d a = Inr s"
    using f acc by (simp add: snapshotFromTx_iff ao) (simp add: auditsOf_def histOk_kempty)
  show fr: "snapshotFromTx ?d b = Inr t" if "snapshotFromTx d b = Inr t" for b t
    by (rule snapshotFromTx_frame [OF that]) (use that new acc rest in \<open>auto simp: snapshotFromTx_iff\<close>)
  have "inv_accounts ?d" unfolding inv_accounts_def
  proof (intro allI impI)
    fix b v assume "kget (db_accounts ?d) b = Some v"
    then have "b = a \<or> kget (db_accounts d) b = Some v" by (auto simp: acc split: if_splits)
    then show "\<exists>t. snapshotFromTx ?d b = Inr t" using sa fr I(1) unfolding inv_accounts_def by blast
  qed
  moreover have "inv_requests ?d" unfolding inv_requests_def rest acc
  proof (intro allI impI)
    fix k v assume "kget (db_requests d) k = Some v"
    then obtain q p where "v = Json q" "requestOk k q" "kget (db_idempotency d) (rq_IdempotencyKey q) = Some k"
      "kget (db_accounts d) (rq_AccountID q) = Some (Json p)"
      "rq_State q \<noteq> NoRequest \<longrightarrow> ap_RequestID p = k \<and> ap_Status p = rq_State q"
      by (rule requests_entry [OF I(4)]) blast
    then show "\<exists>q p. v = Json q \<and> requestOk k q \<and> kget (db_idempotency d) (rq_IdempotencyKey q) = Some k \<and>
        kget (kput a (Json (projOf s)) (db_accounts d)) (rq_AccountID q) = Some (Json p) \<and>
        (rq_State q \<noteq> NoRequest \<longrightarrow> ap_RequestID p = k \<and> ap_Status p = rq_State q)"
      using new by (intro exI [of _ q] exI [of _ p]) auto
  qed
  moreover have "inv_audits ?d" "inv_events ?d" "inv_bound ?d" "inv_idempotency ?d" "inv_queue ?d"
    "inv_leases ?d" "inv_notifications ?d" "inv_deletions ?d"
    using I new f by (auto simp: inv_defs rest acc ao)
  ultimately show "store_inv ?d" by (simp add: store_inv_def)
qed

lemma CreateAccount_inv [inv_intros]:
  assumes "store_inv d" "CreateAccount commit a d = (r, d')"
  shows "store_inv d'"
proof (cases "NewSnapshot a")
  case (Inl e)
  then show ?thesis using assms by (simp add: CreateAccount_def)
next
  case (Inr s)
  have "update commit (\<lambda>d. if kget (db_accounts d) a \<noteq> None then Inl (StoreErr ErrAccountExists)
            else Inr (s, putAccountProjection s d)) d = (r, d')"
    using assms(2) Inr by (simp add: CreateAccount_def)
  then show ?thesis
    by (rule update_invariant [where P = store_inv, OF _ assms(1)])
      (use assms(1) Inr in \<open>auto intro: putAccountProjection_new_inv(1)\<close>)
qed

lemma ApplyEvent_inv [inv_intros]:
  "store_inv d \<Longrightarrow> ApplyEvent commit e d = (r, d') \<Longrightarrow> store_inv d'"
  unfolding ApplyEvent_def by (erule update_invariant) (auto intro: inv_intros)

section \<open>Requests\<close>

lemma newRequest_inv:
  assumes inv: "store_inv d" and v: "Request_Validate q = Inr ()" "rq_State q = NoRequest"
    and new: "kget (db_requests d) (rq_RequestID q) = None" "kget (db_idempotency d) (rq_IdempotencyKey q) = None"
    and acc: "snapshotFromTx d (rq_AccountID q) = Inr s"
  shows "store_inv (d\<lparr>db_requests := kput (rq_RequestID q) (Json q) (db_requests d),
     db_idempotency := kput (rq_IdempotencyKey q) (rq_RequestID q) (db_idempotency d)\<rparr>)" (is "store_inv ?d")
proof -
  note I = store_invD [OF inv]
  have "inv_requests ?d" unfolding inv_requests_def
  proof (intro allI impI)
    fix k w assume kv: "kget (db_requests ?d) k = Some w"
    show "\<exists>x p. w = Json x \<and> requestOk k x \<and> kget (db_idempotency ?d) (rq_IdempotencyKey x) = Some k \<and>
        kget (db_accounts ?d) (rq_AccountID x) = Some (Json p) \<and>
        (rq_State x \<noteq> NoRequest \<longrightarrow> ap_RequestID p = k \<and> ap_Status p = rq_State x)"
    proof (cases "k = rq_RequestID q")
      case True
      with kv v snapshot_projection [OF acc] show ?thesis by (auto simp: requestOk_def)
    next
      case False
      with kv have "kget (db_requests d) k = Some w" by simp
      then obtain x p where "w = Json x" "requestOk k x" "kget (db_idempotency d) (rq_IdempotencyKey x) = Some k"
        "kget (db_accounts d) (rq_AccountID x) = Some (Json p)"
        "rq_State x \<noteq> NoRequest \<longrightarrow> ap_RequestID p = k \<and> ap_Status p = rq_State x"
        by (rule requests_entry [OF I(4)]) blast
      then show ?thesis using new(2) by (intro exI [of _ x] exI [of _ p]) auto
    qed
  qed
  moreover have "inv_idempotency ?d" using I(6) new by (fastforce simp: inv_idempotency_def)
  moreover have "inv_bound ?d" using I(5) new by (fastforce simp: inv_bound_def)
  moreover have "inv_queue ?d" using I(7) new v by (auto simp: inv_queue_def)
  moreover have "inv_accounts ?d" "inv_audits ?d" "inv_events ?d" "inv_leases ?d" "inv_notifications ?d" "inv_deletions ?d"
    using I by (simp_all add: inv_defs)
  ultimately show ?thesis by (simp add: store_inv_def)
qed

lemma createRequestTx_cases:
  assumes "createRequestTx q d = Inr ((q', known), d')"
  obtains i where "kget (db_idempotency d) (rq_IdempotencyKey q) = Some i" "requestFromTx d i = Inr q'"
      "requestIdentityEqual q' q" "known" "d' = d"
  | s where "kget (db_idempotency d) (rq_IdempotencyKey q) = None" "kget (db_requests d) (rq_RequestID q) = None"
      "snapshotFromTx d (rq_AccountID q) = Inr s" "sn_Status s = NoRequest" "rq_State q = NoRequest"
      "kget (db_deletions d) (rq_AccountID q) = None" "q' = q" "\<not> known"
      "d' = d\<lparr>db_requests := kput (rq_RequestID q) (Json q) (db_requests d),
        db_idempotency := kput (rq_IdempotencyKey q) (rq_RequestID q) (db_idempotency d)\<rparr>"
proof (cases "kget (db_idempotency d) (rq_IdempotencyKey q)")
  case None
  have r: "refuseDeleted d a = Inr u \<longleftrightarrow> kget (db_deletions d) a = None" for a u
    by (auto simp: refuseDeleted_def split: option.splits)
  show thesis
  proof (cases "kget (db_requests d) (rq_RequestID q)")
    case n: None
    from assms obtain s where "snapshotFromTx d (rq_AccountID q) = Inr s" "sn_Status s = NoRequest"
      "rq_State q = NoRequest" "kget (db_deletions d) (rq_AccountID q) = None" "q' = q" "\<not> known"
      "d' = d\<lparr>db_requests := kput (rq_RequestID q) (Json q) (db_requests d),
        db_idempotency := kput (rq_IdempotencyKey q) (rq_RequestID q) (db_idempotency d)\<rparr>"
      by (auto simp: createRequestTx_def Let_def putRequest_def None n r)
    then show thesis by (rule that(2) [OF None n])
  next
    case (Some v)
    then show thesis using assms None by (auto simp: createRequestTx_def split: if_splits)
  qed
next
  case (Some i)
  with assms have "requestFromTx d i = Inr q'" "requestIdentityEqual q' q" "known" "d' = d"
    by (auto simp: createRequestTx_def)
  then show thesis by (rule that(1) [OF Some])
qed

lemma createRequestTx_inv [inv_intros]:
  assumes "store_inv d" "Request_Validate q = Inr ()" "createRequestTx q d = Inr ((q', known), d')"
  shows "store_inv d'"
  using assms(3) by (cases rule: createRequestTx_cases) (use assms(1,2) newRequest_inv in auto)

lemma submitRequestTx_inv [inv_intros]:
  assumes "store_inv d" "Request_Validate q = Inr ()" "submitRequestTx q d = Inr ((q', known), d')"
  shows "store_inv d'"
  using assms by (auto simp: submitRequestTx_def intro: createRequestTx_inv split: option.splits)

lemma submitTx_inv [inv_intros]:
  assumes "store_inv d" "Request_Validate q = Inr ()" "submitTx q e d = Inr ((q', known), d')"
  shows "store_inv d'"
  using assms(3) unfolding submitTx_def
  by (auto split: prod.splits if_splits intro: applyEventTx_inv submitRequestTx_inv [OF assms(1,2)])

lemma CreateRequest_inv [inv_intros]:
  assumes "store_inv d" "CreateRequest commit q d = (r, d')"
  shows "store_inv d'"
proof (cases "Request_Validate q")
  case (Inr u)
  have "update commit (createRequestTx q) d = (r, d')" using assms(2) Inr by (simp add: CreateRequest_def)
  then show ?thesis
    by (rule update_invariant [where P = store_inv, OF _ assms(1)]) (use assms(1) Inr createRequestTx_inv in fastforce)
qed (use assms in \<open>simp add: CreateRequest_def\<close>)

lemma SubmitRequest_update:
  assumes "SubmitRequest commit q e d = (r, d')"
  shows "(\<exists>x. r = Inl x \<and> d' = d) \<or> Request_Validate q = Inr () \<and> Event_Validate e = Inr () \<and>
     rq_State q = NoRequest \<and> ev_AccountID e = rq_AccountID q \<and> ev_RequestID e = rq_RequestID q \<and>
     ev_From e = NoRequest \<and> ev_To e = Queued \<and> update commit (submitTx q e) d = (r, d')"
  using assms by (auto simp: SubmitRequest_def split: sum.splits if_splits)

lemma SubmitRequest_inv [inv_intros]:
  assumes "store_inv d" "SubmitRequest commit q e d = (r, d')"
  shows "store_inv d'"
  using SubmitRequest_update [OF assms(2)]
proof
  assume u: "Request_Validate q = Inr () \<and> Event_Validate e = Inr () \<and>
     rq_State q = NoRequest \<and> ev_AccountID e = rq_AccountID q \<and> ev_RequestID e = rq_RequestID q \<and>
     ev_From e = NoRequest \<and> ev_To e = Queued \<and> update commit (submitTx q e) d = (r, d')"
  show ?thesis
    by (rule update_invariant [where P = store_inv, OF _ assms(1)]) (use u assms(1) submitTx_inv in \<open>blast | fastforce\<close>)+
qed (use assms in auto)

section \<open>Claims\<close>

text \<open>A lease that is acquired by a clock after the zero time passes its own validation.\<close>

lemma AcquireLease_valid: "AcquireLease cur now i w ttl = Inr l \<Longrightarrow> 0 < now \<Longrightarrow> Lease_validate l = Inr ()"
  by (auto simp: AcquireLease_iff Lease_validate_iff)

lemma HeartbeatLease_valid: "HeartbeatLease l now i w ttl = Inr l' \<Longrightarrow> 0 < now \<Longrightarrow> Lease_validate l' = Inr ()"
  by (auto simp: HeartbeatLease_iff Lease_validate_iff)

lemma requestFromTx_cong: "db_requests d' = db_requests d \<Longrightarrow> requestFromTx d' i = requestFromTx d i"
  by (simp add: requestFromTx_def)

lemma leaseFromTx_inv:
  "inv_leases d \<Longrightarrow> leaseFromTx d a = Inr (map_option (\<lambda>v. case v of Json l \<Rightarrow> l) (kget (db_leases d) a))"
  unfolding inv_leases_def leaseFromTx_def by (auto split: option.splits json.splits)

lemma leaseFromTx_Some: "inv_leases d \<Longrightarrow> leaseFromTx d a = Inr (Some l) \<longleftrightarrow> kget (db_leases d) a = Some (Json l)"
  unfolding inv_leases_def leaseFromTx_def by (auto split: option.splits)

text \<open>What a successful claim does, given that its event is new to the store.\<close>

lemma claimCandidate_effect:
  assumes inv: "store_inv d" and new: "kget (db_events d) (ca_eventID c) = None"
    and "claimCandidate c candidate s l d = Inr (cl, d')"
  obtains d1 q where "applyEventTx (claimEvent c candidate s) d = Inr (cl_Transition cl, d1)"
    "store_inv d1" "kget (db_requests d) (rq_RequestID candidate) = Some (Json q)"
    "rq_State q = Queued" "rq_AccountID q = rq_AccountID candidate"
    "cl_Request cl = q\<lparr>rq_State := Starting, rq_UpdatedAt := ca_now c, rq_NotBefore := 0, rq_Attempt := rq_Attempt q + 1\<rparr>"
    "Request_Validate (cl_Request cl) = Inr ()" "cl_Lease cl = l" "\<not> tr_Idempotent (cl_Transition cl)"
    "d' = putLease (rq_AccountID candidate) l (putRequest (cl_Request cl) d1)"
    "kget (db_requests d1) (rq_RequestID candidate) = Some (Json (requestAfter (claimEvent c candidate s) (cl_Transition cl) q))"
    "rq_Attempt q < maxInt64 \<or> maxInt64 < rq_Attempt q" "rq_RequestID q = rq_RequestID candidate"
proof -
  let ?e = "claimEvent c candidate s"
  obtain t d1 u where t: "applyEventTx ?e d = Inr (t, d1)" and u: "requestFromTx d1 (rq_RequestID candidate) = Inr u"
      "rq_Attempt u \<noteq> maxInt64"
    and v: "Request_Validate (u\<lparr>rq_Attempt := rq_Attempt u + 1, rq_NotBefore := 0, rq_UpdatedAt := ca_now c\<rparr>) = Inr ()"
    and cl: "cl = \<lparr>cl_Request = u\<lparr>rq_Attempt := rq_Attempt u + 1, rq_NotBefore := 0, rq_UpdatedAt := ca_now c\<rparr>,
        cl_Lease = l, cl_Transition = t\<rparr>"
    and d': "d' = putLease (rq_AccountID candidate) l (putRequest (cl_Request cl) d1)"
    using assms(3) by (auto simp: claimCandidate_def Let_def split: prod.splits)
  have ids: "ev_EventID ?e = ca_eventID c" "ev_RequestID ?e = rq_RequestID candidate"
    "ev_AccountID ?e = rq_AccountID candidate" "ev_From ?e = Queued" "ev_To ?e = Starting" "ev_OccurredAt ?e = ca_now c"
    by (simp_all add: claimEvent_def)
  have ni: "\<not> tr_Idempotent t"
  proof
    assume "tr_Idempotent t"
    then obtain s' where s': "snapshotFromTx d (ev_AccountID ?e) = Inr s'" "Apply s' ?e = Inr t"
      using applyEventTx_replay [OF t] by blast
    then obtain a where "kget (sn_AppliedEvents s') (ca_eventID c) = Some a"
      using \<open>tr_Idempotent t\<close> ids(1) by (cases "kget (sn_AppliedEvents s') (ca_eventID c)") (auto simp: Apply_new_iff)
    moreover have "histOk d (auditsOf d (ev_AccountID ?e)) (sn_AppliedEvents s')"
      using s'(1) by (simp add: snapshotFromTx_iff)
    ultimately show False using new unfolding histOk_def by fastforce
  qed
  have inv1: "store_inv d1" by (rule applyEventTx_inv [OF inv t])
  obtain q where q: "kget (db_requests d) (rq_RequestID candidate) = Some (Json q)" "rq_RequestID q = rq_RequestID candidate"
    "rq_AccountID q = rq_AccountID candidate" "rq_State q = Queued"
    "db_requests d1 = kput (rq_RequestID candidate) (Json (requestAfter ?e t q)) (db_requests d)"
    "rq_State (requestAfter ?e t q) = Starting" "Request_Validate (requestAfter ?e t q) = Inr ()"
    using applyEventTx_request [OF inv t ni] unfolding ids by metis
  have ur: "u = requestAfter ?e t q"
    using u(1) q(5) by (simp add: requestFromTx_inv [OF store_invD(4) [OF inv1]])
  show thesis
    by (rule that [of d1 q]) (use t inv1 q cl d' v u(2) ni ur in \<open>auto simp: requestAfter_def ids\<close>)
qed

lemma claimCandidate_inv:
  assumes inv: "store_inv d" and new: "kget (db_events d) (ca_eventID c) = None"
    and cl: "claimCandidate c candidate s l d = Inr (cl, d')" and l: "Lease_validate l = Inr ()"
  shows "store_inv d'"
  using inv new cl
proof (rule claimCandidate_effect)
  fix d1 q
  assume a: "store_inv d1" "rq_State q = Queued" "rq_RequestID q = rq_RequestID candidate"
    "cl_Request cl = q\<lparr>rq_State := Starting, rq_UpdatedAt := ca_now c, rq_NotBefore := 0, rq_Attempt := rq_Attempt q + 1\<rparr>"
    "Request_Validate (cl_Request cl) = Inr ()"
    "d' = putLease (rq_AccountID candidate) l (putRequest (cl_Request cl) d1)"
    "kget (db_requests d1) (rq_RequestID candidate) = Some (Json (requestAfter (claimEvent c candidate s) (cl_Transition cl) q))"
    "applyEventTx (claimEvent c candidate s) d = Inr (cl_Transition cl, d1)" "\<not> tr_Idempotent (cl_Transition cl)"
  have st: "sn_Status (tr_State (cl_Transition cl)) = Starting"
    using applyEventTx_new [OF a(8,9)] newEventD(2,3) Apply_new_event(4) by (metis claimEvent_def Event.select_convs(6))
  have "store_inv (putRequest (cl_Request cl) d1)"
    by (rule putRequest_inv [OF a(1), of _ "requestAfter (claimEvent c candidate s) (cl_Transition cl) q"])
      (use a st in \<open>auto simp: sameRequest_def\<close>)
  then show ?thesis using a(6) l by (auto intro: inv_intros)
qed

text \<open>
  The loop claims the first candidate whose account has no live lease; the branch in which
  \<open>AcquireLease\<close> reports a held lease cannot be reached.
\<close>

lemma AcquireLease_not_held:
  assumes "\<And>l. cur = Some l \<Longrightarrow> ls_ExpiresAt l \<le> now"
  shows "AcquireLease cur now i w ttl \<noteq> Inl (AccountLeaseErr ErrLeaseHeld)"
  using assms by (auto simp: AcquireLease_def Let_def bindE_eq_Inl Lease_validate_def split: option.splits if_splits)

definition leasedNow :: "db \<Rightarrow> gotime \<Rightarrow> string \<Rightarrow> bool" where
  "leasedNow d now a \<longleftrightarrow> (\<exists>l. leaseFromTx d a = Inr (Some l) \<and> now < ls_ExpiresAt l)"

lemma claimLoop_success:
  assumes "claimLoop c qs d = Inr (cl, d')"
  obtains pre q post s cur l where "qs = pre @ q # post"
    "\<forall>p \<in> set pre. leasedNow d (ca_now c) (rq_AccountID p)" "\<not> leasedNow d (ca_now c) (rq_AccountID q)"
    "snapshotFromTx d (rq_AccountID q) = Inr s" "sn_Status s = Queued" "sn_RequestID s = rq_RequestID q"
    "leaseFromTx d (rq_AccountID q) = Inr cur"
    "AcquireLease cur (ca_now c) (ca_leaseID c) (ca_owner c) (ca_ttl c) = Inr l"
    "claimCandidate c q s l d = Inr (cl, d')"
  using assms
proof (induction qs arbitrary: thesis)
  case (Cons q qs)
  from Cons.prems(2) obtain cur where cur: "leaseFromTx d (rq_AccountID q) = Inr cur" by auto
  show ?case
  proof (cases "leasedNow d (ca_now c) (rq_AccountID q)")
    case True
    then have "claimLoop c qs d = Inr (cl, d')"
      using Cons.prems(2) by (auto simp: leasedNow_def)
    then show ?thesis
    proof (rule Cons.IH [rotated])
      fix pre p post s cur l
      assume a: "qs = pre @ p # post" "\<forall>p \<in> set pre. leasedNow d (ca_now c) (rq_AccountID p)"
      show "\<not> leasedNow d (ca_now c) (rq_AccountID p) \<Longrightarrow> snapshotFromTx d (rq_AccountID p) = Inr s \<Longrightarrow>
          sn_Status s = Queued \<Longrightarrow> sn_RequestID s = rq_RequestID p \<Longrightarrow> leaseFromTx d (rq_AccountID p) = Inr cur \<Longrightarrow>
          AcquireLease cur (ca_now c) (ca_leaseID c) (ca_owner c) (ca_ttl c) = Inr l \<Longrightarrow>
          claimCandidate c p s l d = Inr (cl, d') \<Longrightarrow> thesis"
        by (rule Cons.prems(1) [of "q # pre" p post s cur l]) (use a True in auto)
    qed
  next
    case False
    then have free: "\<And>l. cur = Some l \<Longrightarrow> ls_ExpiresAt l \<le> ca_now c"
      using cur by (auto simp: leasedNow_def not_less)
    then have "\<not> (case cur of None \<Rightarrow> False | Some l \<Rightarrow> \<not> Lease_Expired l (ca_now c))"
      by (auto split: option.splits)
    with Cons.prems(2) cur obtain s where s: "snapshotFromTx d (rq_AccountID q) = Inr s" "sn_Status s = Queued"
        "sn_RequestID s = rq_RequestID q"
      and acq: "(case AcquireLease cur (ca_now c) (ca_leaseID c) (ca_owner c) (ca_ttl c) of
           Inl e \<Rightarrow> if e = AccountLeaseErr ErrLeaseHeld then claimLoop c qs d else Inl e
         | Inr lease \<Rightarrow> claimCandidate c q s lease d) = Inr (cl, d')"
      by auto
    have nh: "AcquireLease cur (ca_now c) (ca_leaseID c) (ca_owner c) (ca_ttl c) \<noteq>
        Inl (AccountLeaseErr ErrLeaseHeld)"
      by (rule AcquireLease_not_held) (rule free)
    obtain l where l: "AcquireLease cur (ca_now c) (ca_leaseID c) (ca_owner c) (ca_ttl c) = Inr l"
        "claimCandidate c q s l d = Inr (cl, d')"
      using acq nh by (auto split: sum.splits if_splits)
    show ?thesis
      by (rule Cons.prems(1) [of "[]" q qs s cur l]) (use False s cur l in auto)
  qed
qed simp

lemma claimLoop_inv:
  assumes "store_inv d" "kget (db_events d) (ca_eventID c) = None" "0 < ca_now c"
    and "claimLoop c qs d = Inr (cl, d')"
  shows "store_inv d'"
  using assms(4)
  by (rule claimLoop_success) (metis AcquireLease_valid assms(1-3) claimCandidate_inv)

lemma existingClaimTx_None: "existingClaimTx c d = Inr None \<longleftrightarrow> kget (db_events d) (ca_eventID c) = None"
  by (auto simp: existingClaimTx_def split: option.splits if_splits)

lemma claimTx_cases:
  assumes "claimTx c m d = Inr (cl, d')"
  obtains "existingClaimTx c d = Inr (Some cl)" "d' = d"
  | n queued where "kget (db_events d) (ca_eventID c) = None" "activeLeaseCountTx d (ca_now c) = Inr n" "int n < m"
      "queuedRequestsTx d = Inr queued" "claimLoop c (filter (dueAt (ca_now c)) queued) d = Inr (cl, d')"
proof -
  obtain found where f: "existingClaimTx c d = Inr found" using assms by (auto simp: claimTx_def)
  show thesis
  proof (cases found)
    case None
    with f have "kget (db_events d) (ca_eventID c) = None" by (simp add: existingClaimTx_None)
    moreover obtain n queued where "activeLeaseCountTx d (ca_now c) = Inr n" "int n < m"
      "queuedRequestsTx d = Inr queued" "claimLoop c (filter (dueAt (ca_now c)) queued) d = Inr (cl, d')"
      using assms f None by (auto simp: claimTx_def Let_def not_le)
    ultimately show thesis by (rule that(2))
  next
    case (Some x)
    with assms f show thesis by (intro that(1)) (auto simp: claimTx_def)
  qed
qed

lemma claimTx_inv:
  assumes "store_inv d" "0 < ca_now c" "claimTx c m d = Inr (cl, d')"
  shows "store_inv d'"
  using assms(3) by (cases rule: claimTx_cases) (use assms claimLoop_inv in auto)

lemma ClaimNext_update:
  "ClaimNext commit c m d = (r, d') \<Longrightarrow> (\<exists>x. r = Inl x \<and> d' = d) \<or> update commit (claimTx c m) d = (r, d')"
  by (auto simp: ClaimNext_def split: if_splits)

lemma ClaimNext_inv [inv_intros]:
  assumes "store_inv d" "0 < ca_now c" "ClaimNext commit c m d = (r, d')"
  shows "store_inv d'"
  using ClaimNext_update [OF assms(3)] update_cases [of commit "claimTx c m" d r d'] claimTx_inv [OF assms(1,2)] assms(1)
  by blast

section \<open>Finishing a request\<close>

lemma verifyExpectedLease_owned:
  assumes "inv_leases d"
  shows "verifyExpectedLease d a at (Some e) ax rx = Inr () \<longleftrightarrow>
     (\<exists>l. kget (db_leases d) a = Some (Json l) \<and> ls_LeaseID l = ls_LeaseID e \<and> ls_Owner l = ls_Owner e \<and>
        (rx \<longrightarrow> l = e) \<and> (ax \<or> at < ls_ExpiresAt l))"
proof (cases "kget (db_leases d) a")
  case None
  then show ?thesis by (auto simp: verifyExpectedLease_def leaseFromTx_def)
next
  case (Some v)
  then obtain l where l: "v = Json l" "Lease_validate l = Inr ()"
    using assms unfolding inv_leases_def by blast
  then have "leaseFromTx d a = Inr (Some l)" using Some by (simp add: leaseFromTx_def)
  then show ?thesis using Some l by (auto simp: verifyExpectedLease_def leasesEqual_iff)
qed

lemma finishTx_inv [inv_intros]:
  "store_inv d \<Longrightarrow> finishTx e x ax rx d = Inr (r, d') \<Longrightarrow> store_inv d'"
  by (auto simp: finishTx_def split: if_splits prod.splits intro: applyEventTx_inv deleteLease_inv)

lemma cancelRequest_inv [inv_intros]:
  "store_inv d \<Longrightarrow> cancelRequest commit e x ax d = (r, d') \<Longrightarrow> store_inv d'"
  unfolding cancelRequest_def
  by (auto split: if_splits dest!: update_cases intro: finishTx_inv)

lemma completeRequest_inv [inv_intros]:
  "store_inv d \<Longrightarrow> completeRequest commit e x ax d = (r, d') \<Longrightarrow> store_inv d'"
  unfolding completeRequest_def
  by (auto split: if_splits dest!: update_cases intro: finishTx_inv)

lemma setNotificationFailureTx_inv [inv_intros]:
  assumes "store_inv d" "setNotificationFailureTx i c d = Inr d'"
  shows "store_inv d'"
  using assms by (auto simp: setNotificationFailureTx_def Let_def split: option.splits intro: putNotification_inv)

lemma setNotificationFailureTx_frame:
  assumes "setNotificationFailureTx i c d = Inr d'"
  shows "\<exists>x. d' = d\<lparr>db_notifications := x\<rparr>"
proof (cases "kget (db_notifications d) i")
  case None
  then have "d' = d\<lparr>db_notifications := db_notifications d\<rparr>"
    using assms by (simp add: setNotificationFailureTx_def)
  then show ?thesis by blast
next
  case (Some v)
  then show ?thesis using assms by (auto simp: setNotificationFailureTx_def Let_def putNotification_def)
qed

lemma rescheduled_inv:
  assumes inv: "store_inv d" and q: "requestFromTx d i = Inr q"
    and q': "sameRequest q q'" "rq_State q' = rq_State q" "Request_Validate q' = Inr ()"
      "rq_NotBefore q' = rq_NotBefore q \<or> rq_NotBefore q' \<noteq> 0"
  shows "store_inv (putRequest q' d)"
proof -
  have r: "kget (db_requests d) i = Some (Json q)" "requestOk i q"
    using q store_invD(4) [OF inv] by (simp_all add: requestFromTx_inv requestFromTx_ok)
  show ?thesis
    by (rule putRequest_inv [OF inv, of _ q]) (use r q' in \<open>auto simp: requestOk_def sameRequest_def\<close>)
qed

lemma replayFailureTx_inv:
  assumes "store_inv d" "replayFailureTx e f re d = Inr (x, d')"
  shows "store_inv d'"
  using assms by (auto simp: replayFailureTx_def split: option.splits if_splits prod.splits intro: applyEventTx_inv)

lemma failureTx_new:
  assumes "failureTx e c at re x ax d = Inr (fr, d')" "\<not> tr_Idempotent (fr_Failed fr)"
  obtains d1 d3 where "applyEventTx e d = Inr (fr_Failed fr, d1)"
    "verifyExpectedLease d1 (ev_AccountID e) (ev_OccurredAt e) x ax ax = Inr ()"
    "case re of
       None \<Rightarrow> fr_Retried fr = None \<and> d3 = deleteLease (ev_AccountID e) d1 \<and>
         (\<exists>q. requestFromTx d3 (ev_RequestID e) = Inr q \<and>
            fr_Request fr = q\<lparr>rq_LastFailure := c, rq_UpdatedAt := ev_OccurredAt e\<rparr>)
     | Some r \<Rightarrow> (\<exists>t. fr_Retried fr = Some t \<and>
         requeueTx e c at (fr_Failed fr) r (deleteLease (ev_AccountID e) d1) = Inr ((t, fr_Request fr), d3))"
    "Request_Validate (fr_Request fr) = Inr ()"
    "setNotificationFailureTx (ev_EventID e) c (putRequest (fr_Request fr) d3) = Inr d'"
proof -
  obtain f d1 where f: "applyEventTx e d = Inr (f, d1)" using assms(1) by (auto simp: failureTx_def)
  have "\<not> tr_Idempotent f"
  proof
    assume i: "tr_Idempotent f"
    then have "replayFailureTx e f re d1 = Inr (fr, d')" using assms(1) f by (simp add: failureTx_def)
    then have "fr_Failed fr = f"
      by (auto simp: replayFailureTx_def split: option.splits if_splits prod.splits)
    with i assms(2) show False by simp
  qed
  then obtain request retried request' d3 where
      v: "verifyExpectedLease d1 (ev_AccountID e) (ev_OccurredAt e) x ax ax = Inr ()"
    and q: "requestFromTx (deleteLease (ev_AccountID e) d1) (ev_RequestID e) = Inr request"
    and c: "(case re of None \<Rightarrow> Inr ((None, request\<lparr>rq_LastFailure := c, rq_UpdatedAt := ev_OccurredAt e\<rparr>),
          deleteLease (ev_AccountID e) d1)
        | Some r \<Rightarrow> bindE (requeueTx e c at f r (deleteLease (ev_AccountID e) d1))
            (\<lambda>((retried, request), d3). Inr ((Some retried, request), d3))) = Inr ((retried, request'), d3)"
    and w: "Request_Validate request' = Inr ()"
      "setNotificationFailureTx (ev_EventID e) c (putRequest request' d3) = Inr d'"
    and fr: "fr = \<lparr>fr_Failed = f, fr_Retried = retried, fr_Request = request'\<rparr>"
    using assms(1) f by (auto simp: failureTx_def Let_def split: prod.splits)
  show thesis
    by (rule that [of d1 d3]) (use f v q c w fr in \<open>auto split: option.splits prod.splits\<close>)
qed

lemma requeueTx_facts:
  assumes "requeueTx e c at f r d = Inr ((t, q), d')"
  shows "applyEventTx r d = Inr (t, d')" "ev_AccountID r = ev_AccountID e" "ev_RequestID r = ev_RequestID e"
    "ev_From r = LoginFailed" "ev_To r = Queued" "ev_ExpectedRevision r = sn_Revision (tr_State f)"
    "\<exists>q0. requestFromTx d' (ev_RequestID e) = Inr q0 \<and>
       q = q0\<lparr>rq_LastFailure := c, rq_NotBefore := at, rq_UpdatedAt := ev_OccurredAt r\<rparr>"
  using assms by (auto simp: requeueTx_def split: prod.splits)

lemma failureTx_inv:
  assumes inv: "store_inv d" and at: "re \<noteq> None \<Longrightarrow> at \<noteq> 0"
    and ok: "failureTx e c at re x ax d = Inr (fr, d')"
  shows "store_inv d'"
proof (cases "tr_Idempotent (fr_Failed fr)")
  case True
  obtain f d1 where f: "applyEventTx e d = Inr (f, d1)" using ok by (auto simp: failureTx_def)
  have "tr_Idempotent f"
    using ok f True by (auto simp: failureTx_def Let_def split: prod.splits option.splits if_splits)
  then show ?thesis
    using ok f replayFailureTx_inv applyEventTx_inv [OF inv f] by (auto simp: failureTx_def)
next
  case False
  from ok this show ?thesis
  proof (rule failureTx_new)
    fix d1 d3
    assume a: "applyEventTx e d = Inr (fr_Failed fr, d1)"
      and c: "case re of
       None \<Rightarrow> fr_Retried fr = None \<and> d3 = deleteLease (ev_AccountID e) d1 \<and>
         (\<exists>q. requestFromTx d3 (ev_RequestID e) = Inr q \<and>
            fr_Request fr = q\<lparr>rq_LastFailure := c, rq_UpdatedAt := ev_OccurredAt e\<rparr>)
     | Some r \<Rightarrow> (\<exists>t. fr_Retried fr = Some t \<and>
         requeueTx e c at (fr_Failed fr) r (deleteLease (ev_AccountID e) d1) = Inr ((t, fr_Request fr), d3))"
      and v: "Request_Validate (fr_Request fr) = Inr ()"
      and n: "setNotificationFailureTx (ev_EventID e) c (putRequest (fr_Request fr) d3) = Inr d'"
    have i2: "store_inv (deleteLease (ev_AccountID e) d1)"
      using a inv by (auto intro: inv_intros)
    obtain q where i3: "store_inv d3" and q: "requestFromTx d3 (ev_RequestID e) = Inr q" "sameRequest q (fr_Request fr)"
      "rq_State (fr_Request fr) = rq_State q"
      "rq_NotBefore (fr_Request fr) = rq_NotBefore q \<or> rq_NotBefore (fr_Request fr) \<noteq> 0"
    proof (cases re)
      case None
      with c obtain q where "d3 = deleteLease (ev_AccountID e) d1" "requestFromTx d3 (ev_RequestID e) = Inr q"
          "fr_Request fr = q\<lparr>rq_LastFailure := c, rq_UpdatedAt := ev_OccurredAt e\<rparr>"
        by auto
      with i2 show thesis by (intro that [of q]) (auto simp: sameRequest_def)
    next
      case (Some r)
      with c obtain t where t: "requeueTx e c at (fr_Failed fr) r (deleteLease (ev_AccountID e) d1) = Inr ((t, fr_Request fr), d3)"
        by auto
      obtain q0 where "requestFromTx d3 (ev_RequestID e) = Inr q0"
          "fr_Request fr = q0\<lparr>rq_LastFailure := c, rq_NotBefore := at, rq_UpdatedAt := ev_OccurredAt r\<rparr>"
        using requeueTx_facts(7) [OF t] by blast
      then show thesis
        using applyEventTx_inv [OF i2 requeueTx_facts(1) [OF t]] at Some
        by (intro that [of q0]) (auto simp: sameRequest_def)
    qed
    show ?thesis
      by (rule setNotificationFailureTx_inv [OF rescheduled_inv [OF i3 q(1,2,3) v q(4)] n])
  qed
qed

lemma recordFailure_inv [inv_intros]:
  assumes "store_inv d" "recordFailure commit e c at re x ax d = (r, d')"
  shows "store_inv d'"
proof -
  have "d' = d \<or> (re \<noteq> None \<longrightarrow> at \<noteq> 0) \<and> update commit (failureTx e c at re x ax) d = (r, d')"
    using assms(2) unfolding recordFailure_def by (auto split: if_splits)
  then show ?thesis
    using assms(1) update_cases [of commit "failureTx e c at re x ax" d r d'] failureTx_inv [OF assms(1)] by blast
qed

section \<open>Leases\<close>

lemma Store_AcquireLease_inv [inv_intros]:
  "store_inv d \<Longrightarrow> 0 < now \<Longrightarrow> Store_AcquireLease commit a now i w ttl d = (r, d') \<Longrightarrow> store_inv d'"
  unfolding Store_AcquireLease_def
  by (erule update_invariant) (auto intro!: putLease_inv intro: AcquireLease_valid)

lemma Store_HeartbeatLease_inv [inv_intros]:
  "store_inv d \<Longrightarrow> 0 < now \<Longrightarrow> Store_HeartbeatLease commit a now i w ttl d = (r, d') \<Longrightarrow> store_inv d'"
  unfolding Store_HeartbeatLease_def
  by (erule update_invariant) (auto split: option.splits intro!: putLease_inv intro: HeartbeatLease_valid)

lemma Store_ReleaseLease_inv [inv_intros]:
  "store_inv d \<Longrightarrow> Store_ReleaseLease commit a i w d = (r, d') \<Longrightarrow> store_inv d'"
  unfolding Store_ReleaseLease_def
  by (erule update_invariant) (auto split: option.splits intro: inv_intros)

end
