(* ===== verification/StoreRebuild.thy ===== *)
theory StoreRebuild
  imports StoreSafe
begin

text \<open>
  Opening the store rebuilds its queue index from the requests (\<open>rebuildQueueIndex\<close> of
  internal/store/store.go). The rebuild is total on stored requests that validate, its result is
  the exact index whatever the old index was, and it changes nothing on a consistent database.
\<close>

section \<open>Rebuilding the queue index\<close>

definition filled :: "Request \<Rightarrow> Request" where
  "filled q = (if rq_State q = Queued \<and> rq_NotBefore q = 0 then q\<lparr>rq_NotBefore := rq_CreatedAt q\<rparr> else q)"

lemma filled_sel [simp]:
  "rq_RequestID (filled q) = rq_RequestID q" "rq_State (filled q) = rq_State q" "rq_CreatedAt (filled q) = rq_CreatedAt q"
  by (simp_all add: filled_def)

text \<open>Requests as any version of the service may have left them: the due time may be missing.\<close>

definition storedRequests :: "db \<Rightarrow> bool" where
  "storedRequests d \<longleftrightarrow> (\<forall>k v. kget (db_requests d) k = Some v \<longrightarrow>
     (\<exists>q. v = Json q \<and> rq_RequestID q = k \<and> Request_Validate (filled q) = Inr ()))"

definition queuedEntries :: "(string \<times> Request json) list \<Rightarrow> (Request \<times> bool) list" where
  "queuedEntries ps = concat (map (\<lambda>p. case snd p of
     Json q \<Rightarrow> if rq_State q = Queued then [(filled q, rq_NotBefore q = 0)] else [] | Garbage \<Rightarrow> []) ps)"

lemma rebuildScan:
  assumes "\<forall>p \<in> set ps. \<exists>q. snd p = Json q \<and> Request_Validate (filled q) = Inr ()"
  shows "foldE rebuildEntry ps acc = Inr (acc @ queuedEntries ps)"
  using assms
proof (induction ps arbitrary: acc)
  case Nil
  then show ?case by (simp add: queuedEntries_def)
next
  case (Cons p ps)
  then obtain q where q: "snd p = Json q" "Request_Validate (filled q) = Inr ()" by auto
  have "rebuildEntry p acc = Inr (acc @ queuedEntries [p])"
    using q by (auto simp: rebuildEntry_def queuedEntries_def Let_def filled_def)
  then show ?case using Cons by (simp add: queuedEntries_def)
qed

lemma fold_kdel_all: "fold kdel (map fst (kentries m)) m = kempty"
proof -
  have "kget (fold kdel ks m) k = (if k \<in> set ks then None else kget m k)" for ks k
    by (induction ks arbitrary: m) auto
  then show ?thesis by (intro kmap_eqI) (auto simp: kget_None_iff)
qed

abbreviation rebuildWrite :: "Request \<times> bool \<Rightarrow> db \<Rightarrow> db result" where
  "rebuildWrite \<equiv> \<lambda>(request, needsPersist) d. putQueueEntry request (if needsPersist then putRequest request d else d)"

lemma rebuildWrites:
  assumes "\<forall>p \<in> set es. Request_Validate (fst p) = Inr ()"
  shows "foldE rebuildWrite es d = Inr (d\<lparr>
     db_queue := fold (\<lambda>p. kput (queueKey (rq_CreatedAt (fst p)) (rq_RequestID (fst p))) (rq_RequestID (fst p))) es (db_queue d),
     db_requests := fold (\<lambda>p. if snd p then kput (rq_RequestID (fst p)) (Json (fst p)) else id) es (db_requests d)\<rparr>)"
  using assms
proof (induction es arbitrary: d)
  case Nil
  then show ?case by simp
next
  case (Cons p es)
  have "rq_CreatedAt (fst p) \<noteq> 0" "TrimSpace (rq_RequestID (fst p)) \<noteq> []"
    using Cons.prems by (auto simp: Request_Validate_iff nonEmpty_def)
  then show ?case using Cons by (cases p) (auto simp: putQueueEntry_def putRequest_def)
qed

lemma kget_fold_by:
  assumes "\<And>x y. f x = f y \<Longrightarrow> g x = g y"
  shows "kget (fold (\<lambda>x. kput (f x) (g x)) xs m) k = Some i \<longleftrightarrow>
     (\<exists>x \<in> set xs. k = f x \<and> i = g x) \<or> kget m k = Some i \<and> (\<forall>x \<in> set xs. k \<noteq> f x)"
proof (induction xs arbitrary: m)
  case Nil
  then show ?case by simp
next
  case (Cons x xs)
  show ?case
  proof (cases "k = f x")
    case True
    have c: "kget (kput (f x) (g x) m) k = Some i \<longleftrightarrow> i = g x" using True by auto
    have e: "(\<exists>y \<in> set xs. k = f y \<and> i = g y) \<or> i = g x \<and> (\<forall>y \<in> set xs. k \<noteq> f y) \<longleftrightarrow> i = g x"
      using True assms by metis
    have "(\<exists>y \<in> set (x # xs). k = f y \<and> i = g y) \<longleftrightarrow> i = g x"
      using True assms by (metis list.set_intros(1))
    with True show ?thesis unfolding fold.simps comp_apply Cons.IH c e by simp
  next
    case False
    then show ?thesis unfolding fold.simps comp_apply Cons.IH by simp
  qed
qed

lemma kget_fold_queue:
  "kget (fold (\<lambda>p. kput (queueKey (rq_CreatedAt (fst p)) (rq_RequestID (fst p))) (rq_RequestID (fst p))) es m) k = Some i \<longleftrightarrow>
     (\<exists>p \<in> set es. k = queueKey (rq_CreatedAt (fst p)) (rq_RequestID (fst p)) \<and> i = rq_RequestID (fst p)) \<or>
     kget m k = Some i \<and> (\<forall>p \<in> set es. k \<noteq> queueKey (rq_CreatedAt (fst p)) (rq_RequestID (fst p)))"
  by (rule kget_fold_by) (rule queueKey_inj)

lemma kget_fold_requests:
  assumes "distinct (map (\<lambda>p. rq_RequestID (fst p)) es)"
  shows "kget (fold (\<lambda>p. if snd p then kput (rq_RequestID (fst p)) (Json (fst p)) else id) es m) i =
     (case find (\<lambda>p. snd p \<and> rq_RequestID (fst p) = i) es of None \<Rightarrow> kget m i | Some p \<Rightarrow> Some (Json (fst p)))"
  using assms
proof (induction es arbitrary: m)
  case Nil
  then show ?case by simp
next
  case (Cons p es)
  have "find (\<lambda>r. snd r \<and> rq_RequestID (fst r) = rq_RequestID (fst p)) es = None"
    using Cons.prems unfolding find_None_iff by (auto simp: image_iff)
  with Cons show ?case by (auto split: option.splits)
qed


lemma queuedEntries_iff:
  "(q, b) \<in> set (queuedEntries (kentries R)) \<longleftrightarrow>
     (\<exists>k q0. kget R k = Some (Json q0) \<and> rq_State q0 = Queued \<and> q = filled q0 \<and> b = (rq_NotBefore q0 = 0))"
proof -
  have "(q, b) \<in> set (case v of Json q \<Rightarrow> if rq_State q = Queued then [(filled q, rq_NotBefore q = 0)] else [] | Garbage \<Rightarrow> [])
      \<longleftrightarrow> (\<exists>q0. v = Json q0 \<and> rq_State q0 = Queued \<and> q = filled q0 \<and> b = (rq_NotBefore q0 = 0))" for v
    by (cases v) auto
  then show ?thesis
    unfolding queuedEntries_def set_concat set_map by (force simp: kentries_iff [symmetric])
qed

lemma queuedEntries_ids:
  assumes "\<forall>p \<in> set ps. \<exists>q. snd p = Json q \<and> rq_RequestID q = fst p" "distinct (map fst ps)"
  shows "distinct (map (\<lambda>p. rq_RequestID (fst p)) (queuedEntries ps)) \<and>
     set (map (\<lambda>p. rq_RequestID (fst p)) (queuedEntries ps)) \<subseteq> set (map fst ps)"
  using assms
proof (induction ps)
  case Nil
  then show ?case by (simp add: queuedEntries_def)
next
  case (Cons p ps)
  then obtain q where q: "snd p = Json q" "rq_RequestID q = fst p" by auto
  have e: "queuedEntries (p # ps) = (if rq_State q = Queued then (filled q, rq_NotBefore q = 0) # queuedEntries ps
      else queuedEntries ps)"
    by (simp add: queuedEntries_def q)
  have IH: "distinct (map (\<lambda>p. rq_RequestID (fst p)) (queuedEntries ps))"
    "set (map (\<lambda>p. rq_RequestID (fst p)) (queuedEntries ps)) \<subseteq> set (map fst ps)"
    using Cons by auto
  moreover have "fst p \<notin> set (map fst ps)" using Cons.prems(2) by simp
  ultimately show ?case unfolding e using q(2) by auto
qed

definition rebuiltQueue :: "db \<Rightarrow> (string, string) kmap" where
  "rebuiltQueue d = fold (\<lambda>p. kput (queueKey (rq_CreatedAt (fst p)) (rq_RequestID (fst p)))
     (rq_RequestID (fst p))) (queuedEntries (kentries (db_requests d))) kempty"

definition rebuiltRequests :: "db \<Rightarrow> (string, Request json) kmap" where
  "rebuiltRequests d = fold (\<lambda>p. if snd p then kput (rq_RequestID (fst p)) (Json (fst p)) else id)
     (queuedEntries (kentries (db_requests d))) (db_requests d)"

lemma storedRequests_entry:
  assumes "storedRequests d" "p \<in> set (kentries (db_requests d))"
  shows "\<exists>q. snd p = Json q \<and> rq_RequestID q = fst p \<and> Request_Validate (filled q) = Inr ()"
proof -
  have "kget (db_requests d) (fst p) = Some (snd p)" using assms(2) by (simp add: kentries_iff [symmetric])
  then show ?thesis using assms(1) unfolding storedRequests_def by blast
qed

lemma queuedEntries_mem:
  assumes "storedRequests d" "p \<in> set (queuedEntries (kentries (db_requests d)))"
  obtains q where "kget (db_requests d) (rq_RequestID q) = Some (Json q)" "rq_State q = Queued" "fst p = filled q"
    "snd p \<longleftrightarrow> rq_NotBefore q = 0" "Request_Validate (fst p) = Inr ()"
proof -
  obtain k q where q: "kget (db_requests d) k = Some (Json q)" "rq_State q = Queued" "fst p = filled q"
      "snd p = (rq_NotBefore q = 0)"
    using assms(2) queuedEntries_iff [of "fst p" "snd p" "db_requests d", unfolded prod.collapse] by blast
  then have "k = rq_RequestID q" "Request_Validate (filled q) = Inr ()"
    using assms(1) unfolding storedRequests_def by blast+
  with q show thesis by (intro that [of q]) simp_all
qed

lemma rebuiltRequests_get:
  assumes "storedRequests d"
  shows "kget (rebuiltRequests d) i = Some (Json q) \<longleftrightarrow> (\<exists>q0. kget (db_requests d) i = Some (Json q0) \<and> q = filled q0)"
proof -
  let ?es = "queuedEntries (kentries (db_requests d))"
  have "distinct (map (\<lambda>p. rq_RequestID (fst p)) ?es)"
    by (rule queuedEntries_ids [THEN conjunct1]) (use storedRequests_entry [OF assms] in blast, simp)
  note get = kget_fold_requests [OF this, of "db_requests d" i, folded rebuiltRequests_def]
  have id: "rq_RequestID q = i" if "kget (db_requests d) i = Some (Json q)" for q
    using that assms unfolding storedRequests_def by blast
  show ?thesis
  proof (cases "find (\<lambda>p. snd p \<and> rq_RequestID (fst p) = i) ?es")
    case None
    have "filled q = q" if "kget (db_requests d) i = Some (Json q)" for q
    proof (rule ccontr)
      assume "filled q \<noteq> q"
      then have "rq_State q = Queued" "rq_NotBefore q = 0" by (auto simp: filled_def split: if_splits)
      then have "(filled q, True) \<in> set ?es" using that by (auto simp: queuedEntries_iff)
      then show False using None id [OF that] unfolding find_None_iff by force
    qed
    then show ?thesis using None get by auto
  next
    case (Some p)
    then have p: "p \<in> set ?es" "rq_RequestID (fst p) = i" by (auto simp: find_Some_iff)
    obtain q0 where "kget (db_requests d) i = Some (Json q0)" "fst p = filled q0"
      using queuedEntries_mem [OF assms p(1)] p(2) by (metis filled_sel(1))
    then show ?thesis using Some get by auto
  qed
qed

lemma rebuiltQueue_get:
  assumes "storedRequests d"
  shows "kget (rebuiltQueue d) k = Some i \<longleftrightarrow>
     (\<exists>q. kget (db_requests d) i = Some (Json q) \<and> rq_State q = Queued \<and> k = queueKey (rq_CreatedAt q) i)"
proof
  assume "kget (rebuiltQueue d) k = Some i"
  then obtain p where p: "p \<in> set (queuedEntries (kentries (db_requests d)))"
      "k = queueKey (rq_CreatedAt (fst p)) (rq_RequestID (fst p))" "i = rq_RequestID (fst p)"
    unfolding rebuiltQueue_def kget_fold_queue by auto
  show "\<exists>q. kget (db_requests d) i = Some (Json q) \<and> rq_State q = Queued \<and> k = queueKey (rq_CreatedAt q) i"
    using queuedEntries_mem [OF assms p(1)] p(2,3) by (metis filled_sel)
next
  assume "\<exists>q. kget (db_requests d) i = Some (Json q) \<and> rq_State q = Queued \<and> k = queueKey (rq_CreatedAt q) i"
  then obtain q where q: "kget (db_requests d) i = Some (Json q)" "rq_State q = Queued" "k = queueKey (rq_CreatedAt q) i" by blast
  then have "rq_RequestID q = i" using assms unfolding storedRequests_def by blast
  moreover have "(filled q, rq_NotBefore q = 0) \<in> set (queuedEntries (kentries (db_requests d)))"
    using q queuedEntries_iff by blast
  ultimately show "kget (rebuiltQueue d) k = Some i"
    unfolding rebuiltQueue_def kget_fold_queue using q(3)
    by (intro disjI1 bexI [of _ "(filled q, rq_NotBefore q = 0)"]) auto
qed

text \<open>
  From any queue bucket, the rebuild returns the exact index and fills in missing due times;
  nothing else changes.
\<close>

lemma rebuildTx_ok:
  assumes "storedRequests d"
  shows "rebuildTx d = Inr ((), d\<lparr>db_queue := rebuiltQueue d, db_requests := rebuiltRequests d\<rparr>)"
    and "inv_queue (d\<lparr>db_queue := rebuiltQueue d, db_requests := rebuiltRequests d\<rparr>)"
proof -
  have "\<forall>p \<in> set (kentries (db_requests d)). \<exists>q. snd p = Json q \<and> Request_Validate (filled q) = Inr ()"
    using storedRequests_entry [OF assms] by blast
  then have "foldE rebuildEntry (kentries (db_requests d)) [] = Inr (queuedEntries (kentries (db_requests d)))"
    by (simp add: rebuildScan)
  moreover have "\<forall>p \<in> set (queuedEntries (kentries (db_requests d))). Request_Validate (fst p) = Inr ()"
    using queuedEntries_mem [OF assms] by metis
  ultimately show "rebuildTx d = Inr ((), d\<lparr>db_queue := rebuiltQueue d, db_requests := rebuiltRequests d\<rparr>)"
    by (simp add: rebuildTx_def Let_def fold_kdel_all rebuildWrites rebuiltQueue_def rebuiltRequests_def)
  show "inv_queue (d\<lparr>db_queue := rebuiltQueue d, db_requests := rebuiltRequests d\<rparr>)"
    by (simp add: inv_queue_def rebuiltQueue_get [OF assms] rebuiltRequests_get [OF assms]) (metis filled_sel)
qed

lemma fold_skip: "\<forall>p \<in> set es. \<not> snd p \<Longrightarrow> fold (\<lambda>p. if snd p then f p else id) es m = m"
  by (induction es) auto

text \<open>On a database that satisfies the invariant, reopening changes nothing.\<close>

lemma rebuildTx_inv:
  assumes inv: "store_inv d"
  shows "rebuildTx d = Inr ((), d)"
proof -
  note I = store_invD [OF inv]
  have ok: "filled q = q \<and> rq_RequestID q = k \<and> Request_Validate q = Inr ()" if "kget (db_requests d) k = Some (Json q)" for k q
    using requestFromTx_ok [OF I(4)] that by (auto simp: requestFromTx_inv [OF I(4)] requestOk_def filled_def)
  have st: "storedRequests d" unfolding storedRequests_def
    using I(4) ok unfolding inv_requests_def by (metis)
  have "rebuiltQueue d = db_queue d"
  proof (rule kmap_eqI)
    fix k
    have "kget (rebuiltQueue d) k = Some i \<longleftrightarrow> kget (db_queue d) k = Some i" for i
      using I(7) by (simp add: rebuiltQueue_get [OF st] inv_queue_def)
    then show "kget (rebuiltQueue d) k = kget (db_queue d) k" by (metis not_None_eq)
  qed
  moreover have "\<forall>p \<in> set (queuedEntries (kentries (db_requests d))). \<not> snd p"
  proof
    fix p assume p: "p \<in> set (queuedEntries (kentries (db_requests d)))"
    obtain q where "kget (db_requests d) (rq_RequestID q) = Some (Json q)" "rq_State q = Queued" "snd p \<longleftrightarrow> rq_NotBefore q = 0"
      by (rule queuedEntries_mem [OF st p])
    moreover have "rq_NotBefore q \<noteq> 0"
      using calculation requestFromTx_ok [OF I(4)] by (auto simp: requestFromTx_inv [OF I(4)] requestOk_def)
    ultimately show "\<not> snd p" by simp
  qed
  then have "rebuiltRequests d = db_requests d"
    unfolding rebuiltRequests_def by (rule fold_skip)
  ultimately show ?thesis using rebuildTx_ok(1) [OF st] by simp
qed

end
