(* ===== verification/StoreOutbox.thy ===== *)
theory StoreOutbox
  imports StoreInv
begin

text \<open>
  The notification outbox of internal/store/notification.go: bounded reads, claims by a delivery
  worker, completion and retry.
\<close>

record NotificationQuery =
  nq_AccountID :: string
  nq_RequestID :: string
  nq_Since :: gotime
  nq_Until :: gotime
  nq_Offset :: int
  nq_Limit :: int

abbreviation defaultNotificationQueryLimit :: int where
  "defaultNotificationQueryLimit \<equiv> 100"

abbreviation maxNotificationQueryLimit :: int where
  "maxNotificationQueryLimit \<equiv> 1000"

abbreviation maxNotificationQueryOffset :: int where
  "maxNotificationQueryOffset \<equiv> 100000"

text \<open>Creation order, ties broken by the event id, which is unique.\<close>

abbreviation notificationKey :: "Notification \<Rightarrow> gotime \<times> string" where
  "notificationKey n \<equiv> (nt_CreatedAt n, nt_EventID n)"

definition sortNotifications :: "Notification list \<Rightarrow> Notification list" where
  "sortNotifications notifications = sort_key notificationKey notifications"

definition withinNotificationWindow :: "gotime \<Rightarrow> gotime \<Rightarrow> gotime \<Rightarrow> bool" where
  "withinNotificationWindow at since until \<longleftrightarrow>
     (IsZero since \<or> \<not> Before at since) \<and> (IsZero until \<or> \<not> After at until)"

definition appendBoundedNotifications ::
  "Notification list \<Rightarrow> Notification \<Rightarrow> nat \<Rightarrow> Notification list" where
  "appendBoundedNotifications result notification capacity =
     (let result = result @ [notification]
      in if length result \<le> capacity then result else take capacity (sortNotifications result))"

text \<open>Does the query select the notification?\<close>

definition selectedBy :: "NotificationQuery \<Rightarrow> Notification \<Rightarrow> bool" where
  "selectedBy query notification \<longleftrightarrow>
     \<not> (nq_AccountID query \<noteq> [] \<and> nt_AccountID notification \<noteq> nq_AccountID query
        \<or> nq_RequestID query \<noteq> [] \<and> nt_RequestID notification \<noteq> nq_RequestID query
        \<or> \<not> withinNotificationWindow (nt_OccurredAt notification) (nq_Since query) (nq_Until query))"

definition queryEntry ::
  "NotificationQuery \<Rightarrow> bool \<Rightarrow> nat \<Rightarrow> string \<times> Notification json \<Rightarrow> Notification list \<Rightarrow>
     Notification list result" where
  "queryEntry query bounded capacity p result =
     bindE (decode (snd p)) (\<lambda>notification.
     bindE (corrupt (Notification_Validate notification)) (\<lambda>_.
     if \<not> selectedBy query notification then Inr result
     else if bounded then Inr (appendBoundedNotifications result notification capacity)
     else Inr (result @ [notification])))"

definition queryNotifications :: "NotificationQuery \<Rightarrow> bool \<Rightarrow> db \<Rightarrow> Notification list result" where
  "queryNotifications query bounded d =
     (let capacity = (if bounded then nat (nq_Offset query + nq_Limit query) else 0)
      in bindE (view (\<lambda>d. foldE (queryEntry query bounded capacity)
                  (kentries (db_notifications d)) []) d) (\<lambda>result.
         let result = sortNotifications result
         in if bounded
            then if int (length result) \<le> nq_Offset query then Inr []
                 else Inr (take (nat (nq_Limit query)) (drop (nat (nq_Offset query)) result))
            else Inr result))"

definition ListNotifications :: "db \<Rightarrow> Notification list result" where
  "ListNotifications d =
     queryNotifications \<lparr>nq_AccountID = [], nq_RequestID = [], nq_Since = zeroTime,
       nq_Until = zeroTime, nq_Offset = 0, nq_Limit = 0\<rparr> False d"

definition QueryNotifications :: "NotificationQuery \<Rightarrow> db \<Rightarrow> Notification list result" where
  "QueryNotifications query d =
     (if TrimSpace (nq_AccountID query) \<noteq> nq_AccountID query
         \<or> TrimSpace (nq_RequestID query) \<noteq> nq_RequestID query
      then Inl (NotificationErr ErrInvalidNotification)
      else if \<not> IsZero (nq_Since query) \<and> \<not> IsZero (nq_Until query)
         \<and> Before (nq_Until query) (nq_Since query)
      then Inl (NotificationErr ErrInvalidNotification)
      else if nq_Offset query < 0 \<or> maxNotificationQueryOffset < nq_Offset query
      then Inl (NotificationErr ErrInvalidNotification)
      else
        let limit = (if nq_Limit query = 0 then defaultNotificationQueryLimit else nq_Limit query)
        in if limit < 1 \<or> maxNotificationQueryLimit < limit
           then Inl (NotificationErr ErrInvalidNotification)
           else queryNotifications (query\<lparr>nq_Limit := limit\<rparr>) True d)"

section \<open>Claims\<close>

text \<open>Undelivered, due, and not under a live claim.\<close>

definition claimable :: "gotime \<Rightarrow> Notification \<Rightarrow> bool" where
  "claimable now notification \<longleftrightarrow>
     \<not> (\<not> IsZero (nt_DeliveredAt notification) \<or> After (nt_NextAttemptAt notification) now) \<and>
     \<not> (nt_ClaimedBy notification \<noteq> [] \<and> Before now (nt_ClaimExpiresAt notification))"

definition claimableEntry ::
  "gotime \<Rightarrow> string \<times> Notification json \<Rightarrow> Notification list \<Rightarrow> Notification list result" where
  "claimableEntry now p candidates =
     bindE (decode (snd p)) (\<lambda>notification.
     bindE (corrupt (Notification_Validate notification)) (\<lambda>_.
     Inr (if claimable now notification then candidates @ [notification] else candidates)))"

definition claimNotification ::
  "gotime \<Rightarrow> string \<Rightarrow> duration \<Rightarrow> Notification \<Rightarrow> Notification" where
  "claimNotification now owner ttl notification =
     notification\<lparr>nt_Attempt := nt_Attempt notification + 1, nt_ClaimedBy := owner,
                  nt_ClaimExpiresAt := Add now ttl\<rparr>"

fun claimEach ::
  "gotime \<Rightarrow> string \<Rightarrow> duration \<Rightarrow> Notification list \<Rightarrow> db \<Rightarrow> (Notification list \<times> db) result" where
  "claimEach now owner ttl [] d = Inr ([], d)"
| "claimEach now owner ttl (notification # rest) d =
     (if nt_Attempt notification = maxInt64 then Inl (StoreErr ErrRequestAttemptOverflow)
      else
        let claimed = claimNotification now owner ttl notification
        in bindE (claimEach now owner ttl rest (putNotification claimed d)) (\<lambda>(result, d').
           Inr (claimed # result, d')))"

definition claimNotificationsTx ::
  "gotime \<Rightarrow> string \<Rightarrow> duration \<Rightarrow> int \<Rightarrow> db \<Rightarrow> (Notification list \<times> db) result" where
  "claimNotificationsTx now owner ttl limit d =
     bindE (foldE (claimableEntry now) (kentries (db_notifications d)) []) (\<lambda>candidates.
     claimEach now owner ttl (take (nat limit) (sortNotifications candidates)) d)"

definition ClaimNotifications ::
  "commit \<Rightarrow> gotime \<Rightarrow> string \<Rightarrow> duration \<Rightarrow> int \<Rightarrow> db \<Rightarrow> Notification list result \<times> db" where
  "ClaimNotifications commit now owner ttl limit d =
     (if IsZero now \<or> \<not> safeNotificationToken owner \<or> ttl \<le> 0 \<or> limit < 1
      then (Inl (NotificationErr ErrInvalidNotification), d)
      else update commit (claimNotificationsTx now owner ttl limit) d)"

definition updateNotification ::
  "commit \<Rightarrow> string \<Rightarrow> string \<Rightarrow> gotime \<Rightarrow> (Notification \<Rightarrow> Notification result) \<Rightarrow> db \<Rightarrow>
     unit result \<times> db" where
  "updateNotification commit eventID owner now mutate d =
     update commit (\<lambda>d.
       case kget (db_notifications d) eventID of
         None \<Rightarrow> Inl (NotificationErr ErrNotificationNotFound)
       | Some raw \<Rightarrow>
           bindE (decode raw) (\<lambda>notification.
           bindE (corrupt (Notification_Validate notification)) (\<lambda>_.
           if \<not> IsZero (nt_DeliveredAt notification) then Inr ((), d)
           else if nt_ClaimedBy notification \<noteq> owner then Inl (NotificationErr ErrNotificationLease)
           else if \<not> Before now (nt_ClaimExpiresAt notification)
           then Inl (NotificationErr ErrNotificationExpired)
           else
             bindE (mutate notification) (\<lambda>notification.
             bindE (corrupt (Notification_Validate notification)) (\<lambda>_.
             Inr ((), putNotification notification d)))))) d"

definition CompleteNotification :: "commit \<Rightarrow> string \<Rightarrow> string \<Rightarrow> gotime \<Rightarrow> db \<Rightarrow> unit result \<times> db" where
  "CompleteNotification commit eventID owner deliveredAt d =
     (if \<not> safeNotificationToken eventID \<or> \<not> safeNotificationToken owner \<or> IsZero deliveredAt
      then (Inl (NotificationErr ErrInvalidNotification), d)
      else updateNotification commit eventID owner deliveredAt (\<lambda>notification.
             Inr (notification\<lparr>nt_DeliveredAt := deliveredAt, nt_ClaimedBy := [],
                               nt_ClaimExpiresAt := zeroTime\<rparr>)) d)"

definition RetryNotification ::
  "commit \<Rightarrow> string \<Rightarrow> string \<Rightarrow> gotime \<Rightarrow> gotime \<Rightarrow> db \<Rightarrow> unit result \<times> db" where
  "RetryNotification commit eventID owner now nextAttemptAt d =
     (if \<not> safeNotificationToken eventID \<or> \<not> safeNotificationToken owner \<or> IsZero now
         \<or> IsZero nextAttemptAt \<or> Before nextAttemptAt now
      then (Inl (NotificationErr ErrInvalidNotification), d)
      else updateNotification commit eventID owner now (\<lambda>notification.
             Inr (notification\<lparr>nt_NextAttemptAt := nextAttemptAt, nt_ClaimedBy := [],
                               nt_ClaimExpiresAt := zeroTime\<rparr>)) d)"

section \<open>The bounded read\<close>

lemma sort_key_take_sorted: "sort_key f (take n (sort_key f xs)) = take n (sort_key f xs)"
proof (rule sort_key_id_if_sorted)
  have "sorted (take n (map f (sort_key f xs)))" by (rule sorted_wrt_take) simp
  then show "sorted (map f (take n (sort_key f xs)))" by (simp only: take_map)
qed

text \<open>Sorting lists whose keys are distinct: the result is determined by the elements.\<close>

lemma sort_key_append_one:
  assumes "inj_on f (insert x (set xs))" "x \<notin> set xs"
  shows "sort_key f (xs @ [x]) = insort_key f x (sort_key f xs)"
  by (rule sort_key_inj_key_eq) (use assms in \<open>simp_all add: sorted_insort_key\<close>)

lemma take_insort_key:
  assumes "length as = n" "sorted (map f (as @ bs))"
  shows "take n (insort_key f x (as @ bs)) = take n (insort_key f x as)"
  using assms
proof (induction as arbitrary: n)
  case Nil
  then show ?case by simp
next
  case (Cons a as)
  have "take (length as) ((a # as) @ bs) = take (length as) (a # as)"
    unfolding take_append by simp
  with Cons show ?case by (cases n) auto
qed

lemma take_sort_key_snoc:
  assumes "inj_on f (insert x (set xs))" "x \<notin> set xs"
  shows "take n (sort_key f (take n (sort_key f xs) @ [x])) = take n (sort_key f (xs @ [x]))"
proof (cases "n \<le> length xs")
  case True
  let ?as = "take n (sort_key f xs)" and ?bs = "drop n (sort_key f xs)"
  have sub: "set ?as \<subseteq> set xs" using set_take_subset [of n "sort_key f xs"] by simp
  have "sort_key f (?as @ [x]) = insort_key f x (sort_key f ?as)"
    by (rule sort_key_append_one) (use assms sub in \<open>auto intro: inj_on_subset\<close>)
  also have "sort_key f ?as = ?as"
    by (rule sort_key_take_sorted)
  finally have "take n (sort_key f (?as @ [x])) = take n (insort_key f x ?as)" by simp
  also have "\<dots> = take n (insort_key f x (?as @ ?bs))"
    by (rule take_insort_key [symmetric]) (use True in simp_all)
  also have "?as @ ?bs = sort_key f xs" by simp
  finally show ?thesis using sort_key_append_one [OF assms] by simp
next
  case False
  have "sort_key f (sort_key f xs @ [x]) = sort_key f (xs @ [x])"
    by (rule sort_key_inj_key_eq) (use assms in simp_all)
  with False show ?thesis by simp
qed

text \<open>
  The bounded scan keeps the first \<open>capacity\<close> notifications of what it has seen, so the page it
  returns is the page of the full, sorted list.
\<close>

lemma appendBounded_page:
  assumes "inj_on notificationKey (insert x (set xs))" "x \<notin> set xs"
    and "take c (sortNotifications ys) = take c (sortNotifications xs)"
    and "length ys = min c (length xs)" "set ys \<subseteq> set xs"
  shows "take c (sortNotifications (appendBoundedNotifications ys x c)) = take c (sortNotifications (xs @ [x]))
    \<and> length (appendBoundedNotifications ys x c) = min c (length (xs @ [x]))
    \<and> set (appendBoundedNotifications ys x c) \<subseteq> set (xs @ [x])"
proof -
  have sy: "take c (sortNotifications ys) = sortNotifications ys"
    using assms(4) by (simp add: sortNotifications_def)
  have "inj_on notificationKey (insert x (set ys))" "x \<notin> set ys"
    using assms(1,2,5) by (auto intro: inj_on_subset)
  note sn = take_sort_key_snoc [OF this, of c]
  have "take c (sortNotifications (ys @ [x])) = take c (sortNotifications (take c (sortNotifications xs) @ [x]))"
    using sn sy assms(3) by (simp add: sortNotifications_def)
  also have "\<dots> = take c (sortNotifications (xs @ [x]))"
    unfolding sortNotifications_def by (rule take_sort_key_snoc [OF assms(1,2)])
  finally have t: "take c (sortNotifications (ys @ [x])) = take c (sortNotifications (xs @ [x]))" .
  show ?thesis
  proof (cases "length (ys @ [x]) \<le> c")
    case True
    then have "appendBoundedNotifications ys x c = ys @ [x]" by (simp add: appendBoundedNotifications_def)
    with t True assms(4,5) show ?thesis by auto
  next
    case False
    then have ab: "appendBoundedNotifications ys x c = take c (sortNotifications (ys @ [x]))"
      by (simp add: appendBoundedNotifications_def)
    have "sortNotifications (take c (sortNotifications (ys @ [x]))) = take c (sortNotifications (ys @ [x]))"
      unfolding sortNotifications_def by (rule sort_key_take_sorted)
    then have "take c (sortNotifications (appendBoundedNotifications ys x c)) = take c (sortNotifications (xs @ [x]))"
      using t ab by simp
    moreover have "set (take c (sortNotifications (ys @ [x]))) \<subseteq> set (ys @ [x])"
      using set_take_subset [of c "sortNotifications (ys @ [x])"] by (simp add: sortNotifications_def)
    then have "set (appendBoundedNotifications ys x c) \<subseteq> set (xs @ [x])" using assms(5) ab by auto
    moreover have "length (appendBoundedNotifications ys x c) = min c (length (xs @ [x]))"
      using False assms(4) unfolding ab by (simp add: sortNotifications_def)
    ultimately show ?thesis by blast
  qed
qed


text \<open>The stored notifications, in the order of their event ids.\<close>

primrec fromJson :: "'a json \<Rightarrow> 'a list" where
  "fromJson (Json v) = [v]"
| "fromJson Garbage = []"

definition outbox :: "db \<Rightarrow> Notification list" where
  "outbox d = concat (map (\<lambda>p. fromJson (snd p)) (kentries (db_notifications d)))"

lemma set_outbox: "n \<in> set (outbox d) \<longleftrightarrow> (\<exists>i. kget (db_notifications d) i = Some (Json n))"
proof -
  have "n \<in> set (fromJson v) \<longleftrightarrow> v = Json n" for v by (cases v) auto
  then show ?thesis by (force simp: outbox_def kentries_iff [symmetric])
qed

definition storedOk :: "string \<times> Notification json \<Rightarrow> bool" where
  "storedOk p \<longleftrightarrow> (\<exists>n. snd p = Json n \<and> nt_EventID n = fst p \<and> Notification_Validate n = Inr ())"

lemma inv_stored: "inv_notifications d \<Longrightarrow> p \<in> set (kentries (db_notifications d)) \<Longrightarrow> storedOk p"
  by (cases p) (auto simp: inv_notifications_def storedOk_def kentries_iff)

lemma storedOk_ids:
  "\<forall>p \<in> set ps. storedOk p \<Longrightarrow> map nt_EventID (concat (map (\<lambda>p. fromJson (snd p)) ps)) = map fst ps"
  by (induction ps) (auto simp: storedOk_def)

lemma outbox_ids: "inv_notifications d \<Longrightarrow> distinct (map nt_EventID (outbox d))"
  unfolding outbox_def by (subst storedOk_ids) (auto simp: inv_stored)

lemma inj_notificationKey: "distinct (map nt_EventID xs) \<Longrightarrow> inj_on notificationKey (set xs)"
  by (auto simp: distinct_map inj_on_def)

lemma queryEntry_ok:
  assumes "storedOk p"
  obtains n where "fromJson (snd p) = [n]"
    "queryEntry q b c p acc = Inr (if \<not> selectedBy q n then acc
       else if b then appendBoundedNotifications acc n c else acc @ [n])"
  using assms by (auto simp: storedOk_def queryEntry_def)

lemma boundedScan:
  assumes "\<forall>p \<in> set ps. storedOk p"
    and "distinct (map nt_EventID (xs @ concat (map (\<lambda>p. fromJson (snd p)) ps)))"
    and "take c (sortNotifications ys) = take c (sortNotifications xs)"
      "length ys = min c (length xs)" "set ys \<subseteq> set xs"
  shows "\<exists>r. foldE (queryEntry q True c) ps ys = Inr r \<and> length r \<le> c \<and>
     take c (sortNotifications r) =
       take c (sortNotifications (xs @ filter (selectedBy q) (concat (map (\<lambda>p. fromJson (snd p)) ps))))"
  using assms
proof (induction ps arbitrary: xs ys)
  case Nil
  then show ?case by simp
next
  case (Cons p ps)
  obtain n where n: "fromJson (snd p) = [n]"
    "queryEntry q True c p ys = Inr (if \<not> selectedBy q n then ys else appendBoundedNotifications ys n c)"
    using Cons.prems(1) queryEntry_ok [of p q True c ys] by (metis list.set_intros(1))
  have ok: "\<forall>p \<in> set ps. storedOk p" using Cons.prems(1) by simp
  show ?case
  proof (cases "selectedBy q n")
    case False
    have "distinct (map nt_EventID (xs @ concat (map (\<lambda>p. fromJson (snd p)) ps)))"
      using Cons.prems(2) n(1) by auto
    from Cons.IH [OF ok this Cons.prems(3-5)] show ?thesis using n False by simp
  next
    case True
    have dx: "distinct (map nt_EventID (xs @ [n]))" using Cons.prems(2) n(1) by auto
    then have "inj_on notificationKey (insert n (set xs))" "n \<notin> set xs"
      using inj_notificationKey [of "xs @ [n]"] by (auto simp: distinct_map)
    note pg = appendBounded_page [OF this Cons.prems(3-5)]
    have "distinct (map nt_EventID ((xs @ [n]) @ concat (map (\<lambda>p. fromJson (snd p)) ps)))"
      using Cons.prems(2) n(1) by simp
    from Cons.IH [OF ok this pg [THEN conjunct1] pg [THEN conjunct2, THEN conjunct1]
        pg [THEN conjunct2, THEN conjunct2]]
    show ?thesis using n True by simp
  qed
qed

lemma queryNotifications_page:
  assumes inv: "inv_notifications d" and o: "0 \<le> nq_Offset q" and l: "0 \<le> nq_Limit q"
  shows "queryNotifications q True d =
     Inr (take (nat (nq_Limit q)) (drop (nat (nq_Offset q)) (sortNotifications (filter (selectedBy q) (outbox d)))))"
proof -
  let ?c = "nat (nq_Offset q + nq_Limit q)" and ?S = "sortNotifications (filter (selectedBy q) (outbox d))"
  obtain r where r: "foldE (queryEntry q True ?c) (kentries (db_notifications d)) [] = Inr r" "length r \<le> ?c"
      "take ?c (sortNotifications r) = take ?c ?S"
    using boundedScan [of "kentries (db_notifications d)" "[]" ?c "[]" q] inv_stored [OF inv] outbox_ids [OF inv]
    by (auto simp: outbox_def)
  have len: "length (sortNotifications r) = length r" by (simp add: sortNotifications_def)
  have sr: "sortNotifications r = take ?c ?S" using r(2,3) len by simp
  have "take (nat (nq_Limit q)) (drop (nat (nq_Offset q)) (sortNotifications r)) =
      take (nat (nq_Limit q)) (drop (nat (nq_Offset q)) ?S)"
    unfolding sr using o l by (simp add: drop_take nat_add_distrib)
  moreover have "drop (nat (nq_Offset q)) (sortNotifications r) = []" if "int (length r) \<le> nq_Offset q"
    using that len by simp
  ultimately show ?thesis
    using r(1) len by (auto simp: queryNotifications_def Let_def view_def)
qed

section \<open>What a claim does\<close>

lemma claimableScan:
  assumes "\<forall>p \<in> set ps. storedOk p"
  shows "foldE (claimableEntry now) ps acc =
     Inr (acc @ filter (claimable now) (concat (map (\<lambda>p. fromJson (snd p)) ps)))"
  using assms
proof (induction ps arbitrary: acc)
  case Nil
  then show ?case by simp
next
  case (Cons p ps)
  then obtain n where "snd p = Json n" "Notification_Validate n = Inr ()" by (auto simp: storedOk_def)
  then show ?case using Cons by (simp add: claimableEntry_def)
qed

lemma claimEach_ok:
  "claimEach now owner ttl ns d = Inr (r, d') \<Longrightarrow>
     r = map (claimNotification now owner ttl) ns \<and> d' = fold (\<lambda>n. putNotification (claimNotification now owner ttl n)) ns d"
  by (induction ns arbitrary: d r) (auto simp: Let_def split: if_splits prod.splits)

lemma claimNotification_sel [simp]:
  "nt_EventID (claimNotification now owner ttl n) = nt_EventID n"
  "nt_ClaimedBy (claimNotification now owner ttl n) = owner"
  "nt_ClaimExpiresAt (claimNotification now owner ttl n) = Add now ttl"
  "nt_Attempt (claimNotification now owner ttl n) = nt_Attempt n + 1"
  "nt_CreatedAt (claimNotification now owner ttl n) = nt_CreatedAt n"
  by (simp_all add: claimNotification_def)

lemma fold_putNotification_get:
  assumes "distinct (map nt_EventID ns)"
  shows "kget (db_notifications (fold putNotification ns d)) i =
     (case find (\<lambda>n. nt_EventID n = i) ns of None \<Rightarrow> kget (db_notifications d) i | Some n \<Rightarrow> Some (Json n))"
  using assms
proof (induction ns arbitrary: d)
  case Nil
  then show ?case by simp
next
  case (Cons n ns)
  have "find (\<lambda>m. nt_EventID m = nt_EventID n) ns = None"
    using Cons.prems unfolding find_None_iff by (simp add: image_iff) metis
  with Cons show ?case by (auto simp: putNotification_def split: option.splits)
qed

lemma fold_putNotification_frame: "\<exists>x. fold putNotification ns d = d\<lparr>db_notifications := x\<rparr>"
proof (induction ns arbitrary: d)
  case Nil
  have "d = d\<lparr>db_notifications := db_notifications d\<rparr>" by simp
  then show ?case unfolding fold.simps(1) id_apply by blast
next
  case (Cons n ns)
  then obtain x where "fold putNotification ns (putNotification n d) = (putNotification n d)\<lparr>db_notifications := x\<rparr>" by blast
  moreover have "(putNotification n d)\<lparr>db_notifications := x\<rparr> = d\<lparr>db_notifications := x\<rparr>" by (simp add: putNotification_def)
  ultimately show ?case by auto
qed

lemma Add_pos: "0 < t \<Longrightarrow> 0 < u \<Longrightarrow> 0 < Add t u"
proof -
  assume "0 < t" "0 < u"
  then have "0 \<le> (t + u) mod second" "0 \<le> (t + u) div second"
    by (simp_all add: second_def pos_imp_zdiv_nonneg_iff)
  moreover have "0 < maxInt64 * second" by (simp add: maxInt64_def second_def)
  ultimately show ?thesis using \<open>0 < t\<close> \<open>0 < u\<close> by (auto simp: Add_def Let_def)
qed

text \<open>What a claim returns: the oldest claimable notifications, up to the limit.\<close>

definition claimBatch :: "gotime \<Rightarrow> int \<Rightarrow> db \<Rightarrow> Notification list" where
  "claimBatch now limit d = take (nat limit) (sortNotifications (filter (claimable now) (outbox d)))"

lemma claimBatch_distinct: "inv_notifications d \<Longrightarrow> distinct (map nt_EventID (claimBatch now limit d))"
proof -
  assume "inv_notifications d"
  then have "distinct (outbox d)" "inj_on nt_EventID (set (outbox d))"
    using outbox_ids by (auto simp: distinct_map)
  moreover have "set (claimBatch now limit d) \<subseteq> set (outbox d)"
    using set_take_subset [of "nat limit" "sortNotifications (filter (claimable now) (outbox d))"]
    by (auto simp: claimBatch_def sortNotifications_def)
  ultimately have "distinct (claimBatch now limit d)" "inj_on nt_EventID (set (claimBatch now limit d))"
    by (simp_all add: claimBatch_def sortNotifications_def inj_on_subset)
  then show ?thesis by (simp add: distinct_map)
qed

lemma claimBatch_claimable: "n \<in> set (claimBatch now limit d) \<Longrightarrow> n \<in> set (outbox d) \<and> claimable now n"
  by (auto simp: claimBatch_def sortNotifications_def dest: in_set_takeD)

lemma claimNotificationsTx_ok:
  assumes "inv_notifications d" "claimNotificationsTx now owner ttl limit d = Inr (ns, d')"
  shows "ns = map (claimNotification now owner ttl) (claimBatch now limit d)"
    and "d' = fold putNotification ns d"
proof -
  have "foldE (claimableEntry now) (kentries (db_notifications d)) [] = Inr (filter (claimable now) (outbox d))"
    using claimableScan [of "kentries (db_notifications d)" now "[]"] inv_stored [OF assms(1)] by (simp add: outbox_def)
  then have c: "claimEach now owner ttl (claimBatch now limit d) d = Inr (ns, d')"
    using assms(2) by (simp add: claimNotificationsTx_def claimBatch_def)
  show ns: "ns = map (claimNotification now owner ttl) (claimBatch now limit d)"
    using claimEach_ok [OF c] by simp
  show "d' = fold putNotification ns d"
    using claimEach_ok [OF c] by (simp add: fold_map comp_def)
qed

lemma claimed_valid:
  assumes "Notification_Validate n = Inr ()" "claimable now n" "safeNotificationToken owner" "0 < now" "0 < ttl"
  shows "Notification_Validate (claimNotification now owner ttl n) = Inr ()"
proof -
  have "Add now ttl \<noteq> 0" "owner \<noteq> []"
    using Add_pos [OF assms(4,5)] assms(3) by (auto simp: safeNotificationToken_def split: if_splits)
  then show ?thesis using assms
    unfolding Notification_Validate_iff claimNotification_def claimable_def by simp
qed

lemma ClaimNotifications_effect:
  assumes inv: "store_inv d" and now: "0 < now"
    and ok: "ClaimNotifications commit now owner ttl limit d = (Inr ns, d')"
  shows "ns = map (claimNotification now owner ttl) (claimBatch now limit d)"
    and "n \<in> set ns \<Longrightarrow> kget (db_notifications d') (nt_EventID n) = Some (Json n)"
    and "i \<notin> nt_EventID ` set ns \<Longrightarrow> kget (db_notifications d') i = kget (db_notifications d) i"
    and "store_inv d'"
proof -
  note I = store_invD(9) [OF inv]
  have g: "safeNotificationToken owner" "0 < ttl"
    and tx: "claimNotificationsTx now owner ttl limit d = Inr (ns, d')"
    using ok by (auto simp: ClaimNotifications_def update_Inr split: if_splits)
  show ns: "ns = map (claimNotification now owner ttl) (claimBatch now limit d)"
    by (rule claimNotificationsTx_ok(1) [OF I tx])
  have d': "d' = fold putNotification ns d" by (rule claimNotificationsTx_ok(2) [OF I tx])
  have dist: "distinct (map nt_EventID ns)"
    using claimBatch_distinct [OF I, of now limit] by (simp add: ns comp_def)
  note get = fold_putNotification_get [OF dist, of d]
  show n: "kget (db_notifications d') (nt_EventID n) = Some (Json n)" if "n \<in> set ns" for n
  proof -
    have "find (\<lambda>m. nt_EventID m = nt_EventID n) ns = Some n"
      using that dist by (induction ns) (auto simp: image_iff)
    then show ?thesis by (simp add: d' get)
  qed
  show o: "kget (db_notifications d') i = kget (db_notifications d) i" if "i \<notin> nt_EventID ` set ns" for i
  proof -
    have "find (\<lambda>m. nt_EventID m = i) ns = None" using that by (auto simp: find_None_iff)
    then show ?thesis by (simp add: d' get)
  qed
  have v: "Notification_Validate n = Inr ()" if "n \<in> set ns" for n
  proof -
    from that obtain m where m: "m \<in> set (claimBatch now limit d)" "n = claimNotification now owner ttl m"
      by (auto simp: ns)
    then have "m \<in> set (outbox d)" "claimable now m" using claimBatch_claimable by blast+
    then have "Notification_Validate m = Inr ()" "claimable now m"
      using I unfolding set_outbox inv_notifications_def by blast+
    then show ?thesis using claimed_valid g now m(2) by blast
  qed
  obtain x where x: "d' = d\<lparr>db_notifications := x\<rparr>" using fold_putNotification_frame d' by blast
  have "inv_notifications d'" unfolding inv_notifications_def
  proof (intro allI impI)
    fix i w assume w: "kget (db_notifications d') i = Some w"
    show "\<exists>n. w = Json n \<and> nt_EventID n = i \<and> Notification_Validate n = Inr ()"
    proof (cases "i \<in> nt_EventID ` set ns")
      case True
      then show ?thesis using n v w by auto
    next
      case False
      then show ?thesis using o w I by (simp add: inv_notifications_def)
    qed
  qed
  then show "store_inv d'" using store_inv_notifications [OF inv, of x] x by simp
qed

lemma ClaimNotifications_inv [inv_intros]:
  assumes "store_inv d" "0 < now" "ClaimNotifications commit now owner ttl limit d = (r, d')"
  shows "store_inv d'"
proof (cases r)
  case (Inl e)
  then show ?thesis using assms by (auto simp: ClaimNotifications_def split: if_splits dest: update_Inl)
next
  case (Inr ns)
  then show ?thesis using ClaimNotifications_effect(4) assms by blast
qed

lemma updateNotification_inv [inv_intros]:
  assumes "store_inv d" "updateNotification commit i owner now mutate d = (r, d')"
  shows "store_inv d'"
  using assms(2) unfolding updateNotification_def
  by (rule update_invariant [where P = store_inv, OF _ assms(1)])
    (use assms(1) in \<open>auto split: option.splits if_splits intro: putNotification_inv\<close>)

lemma CompleteNotification_inv [inv_intros]:
  "store_inv d \<Longrightarrow> CompleteNotification commit i owner at d = (r, d') \<Longrightarrow> store_inv d'"
  by (auto simp: CompleteNotification_def split: if_splits intro: updateNotification_inv)

lemma RetryNotification_inv [inv_intros]:
  "store_inv d \<Longrightarrow> RetryNotification commit i owner now at d = (r, d') \<Longrightarrow> store_inv d'"
  by (auto simp: RetryNotification_def split: if_splits intro: updateNotification_inv)

end
