(* ===== verification/Sha256.thy ===== *)
theory Sha256
  imports GoLib
begin

text \<open>
  The parts of Go's \<open>crypto/sha256\<close> and \<open>encoding/hex\<close> that the repository uses: the digest of
  FIPS 180-4 on byte strings and its lower-case hexadecimal form.
\<close>

unbundle bit_operations_syntax

type_synonym uint32 = "32 word"

definition roundConstants :: "uint32 list" where
  "roundConstants =
     [1116352408, 1899447441, 3049323471, 3921009573, 961987163, 1508970993, 2453635748, 2870763221,
      3624381080, 310598401, 607225278, 1426881987, 1925078388, 2162078206, 2614888103, 3248222580,
      3835390401, 4022224774, 264347078, 604807628, 770255983, 1249150122, 1555081692, 1996064986,
      2554220882, 2821834349, 2952996808, 3210313671, 3336571891, 3584528711, 113926993, 338241895,
      666307205, 773529912, 1294757372, 1396182291, 1695183700, 1986661051, 2177026350, 2456956037,
      2730485921, 2820302411, 3259730800, 3345764771, 3516065817, 3600352804, 4094571909, 275423344,
      430227734, 506948616, 659060556, 883997877, 958139571, 1322822218, 1537002063, 1747873779,
      1955562222, 2024104815, 2227730452, 2361852424, 2428436474, 2756734187, 3204031479, 3329325298]"

definition initialHash :: "uint32 list" where
  "initialHash =
     [1779033703, 3144134277, 1013904242, 2773480762, 1359893119, 2600822924, 528734635, 1541459225]"

definition bigEndian :: "nat \<Rightarrow> nat \<Rightarrow> string" where
  "bigEndian n v = map (\<lambda>i. char_of (v div 256 ^ (n - 1 - i) mod 256)) [0..<n]"

text \<open>A message is followed by the byte 0x80, zeros, and its length in bits, to a multiple of 64 bytes.\<close>

definition padded :: "string \<Rightarrow> string" where
  "padded m = m @ [CHR 0x80] @ replicate ((119 - length m mod 64) mod 64) (CHR 0x00) @ bigEndian 8 (8 * length m)"

fun chunks :: "nat \<Rightarrow> nat \<Rightarrow> 'a list \<Rightarrow> 'a list list" where
  "chunks n 0 xs = []"
| "chunks n (Suc k) xs = take n xs # chunks n k (drop n xs)"

definition wordOf :: "string \<Rightarrow> uint32" where
  "wordOf bs = fold (\<lambda>b w. push_bit 8 w OR of_nat (of_char b)) bs 0"

definition rotateRight :: "nat \<Rightarrow> uint32 \<Rightarrow> uint32" where
  "rotateRight n w = drop_bit n w OR push_bit (32 - n) w"

text \<open>The message schedule, newest word first.\<close>

definition scheduleStep :: "uint32 list \<Rightarrow> uint32 list" where
  "scheduleStep ws =
     (let a = ws ! 1; b = ws ! 6; c = ws ! 14; d = ws ! 15;
          s0 = rotateRight 7 c XOR rotateRight 18 c XOR drop_bit 3 c;
          s1 = rotateRight 17 a XOR rotateRight 19 a XOR drop_bit 10 a
      in (d + s0 + b + s1) # ws)"

definition schedule :: "uint32 list \<Rightarrow> uint32 list" where
  "schedule block = rev ((scheduleStep ^^ 48) (rev block))"

definition roundStep :: "uint32 \<times> uint32 \<Rightarrow> uint32 list \<Rightarrow> uint32 list" where
  "roundStep kw s =
     (let a = s ! 0; b = s ! 1; c = s ! 2; d = s ! 3; e = s ! 4; f = s ! 5; g = s ! 6; h = s ! 7;
          t1 = h + (rotateRight 6 e XOR rotateRight 11 e XOR rotateRight 25 e)
                 + ((e AND f) XOR (NOT e AND g)) + fst kw + snd kw;
          t2 = (rotateRight 2 a XOR rotateRight 13 a XOR rotateRight 22 a)
                 + ((a AND b) XOR (a AND c) XOR (b AND c))
      in [t1 + t2, a, b, c, d + t1, e, f, g])"

definition compress :: "string \<Rightarrow> uint32 list \<Rightarrow> uint32 list" where
  "compress block s =
     map2 (+) s (fold roundStep (zip roundConstants (schedule (map wordOf (chunks 4 16 block)))) s)"

definition Sum256 :: "string \<Rightarrow> string" where
  "Sum256 m =
     (let p = padded m
      in concat (map (\<lambda>w. bigEndian 4 (unat w)) (fold compress (chunks 64 (length p div 64) p) initialHash)))"

definition hexDigit :: "nat \<Rightarrow> char" where
  "hexDigit n = char_of (if n < 10 then 48 + n else 87 + n)"

definition EncodeToString :: "string \<Rightarrow> string" where
  "EncodeToString bs = concat (map (\<lambda>b. [hexDigit (of_char b div 16), hexDigit (of_char b mod 16)]) bs)"

section \<open>Shape of the digest\<close>

lemma length_compress: "length s = 8 \<Longrightarrow> length (compress b s) = 8"
proof -
  have "length (fold roundStep ks s) = 8" if "length s = 8" for ks s
    using that by (induction ks arbitrary: s) (auto simp: roundStep_def Let_def)
  then show "length s = 8 \<Longrightarrow> length (compress b s) = 8" by (simp add: compress_def)
qed

lemma length_Sum256 [simp]: "length (Sum256 m) = 32"
proof -
  have "length (fold compress bs s) = 8" if "length s = 8" for bs s
    using that by (induction bs arbitrary: s) (auto simp: length_compress)
  then have "length (fold compress bs initialHash) = 8" for bs by (simp add: initialHash_def)
  then show ?thesis
    by (simp add: Sum256_def Let_def length_concat bigEndian_def comp_def sum_list_triv)
qed

lemma length_EncodeToString [simp]: "length (EncodeToString bs) = 2 * length bs"
  by (simp add: EncodeToString_def length_concat comp_def sum_list_triv)

definition hexChar :: "char \<Rightarrow> bool" where
  "hexChar c \<longleftrightarrow> (let n = of_char c :: nat in 48 \<le> n \<and> n \<le> 57 \<or> 97 \<le> n \<and> n \<le> 102)"

lemma hexDigit_hex: "n < 16 \<Longrightarrow> hexChar (hexDigit n)"
  by (auto simp: hexChar_def hexDigit_def Let_def)

lemma EncodeToString_hex: "list_all hexChar (EncodeToString bs)"
proof -
  have "hexChar (hexDigit (of_char b div 16))" "hexChar (hexDigit (of_char b mod 16))" for b :: char
    by (auto intro!: hexDigit_hex simp: less_mult_imp_div_less)
  then show ?thesis by (auto simp: EncodeToString_def list_all_iff)
qed

end
