(* ===== verification/Observability.thy ===== *)
theory Observability
  imports Sha256 Errors
begin

text \<open>
  internal/observability: the redacted event, the bounded event buffer, and the label sets of the
  metric registry. Metric values are floating-point numbers and are not modelled; the sinks that
  write files or answer HTTP are not modelled either.
\<close>

section \<open>Redaction\<close>

record obs_Event =
  oe_At :: gotime
  oe_Component :: string
  oe_Operation :: string
  oe_Outcome :: string
  oe_RequestID :: string
  oe_Resource :: string
  oe_ErrorClass :: string
  oe_Duration :: duration

definition fieldChar :: "char \<Rightarrow> bool" where
  "fieldChar c \<longleftrightarrow> (let n = of_char c :: nat in
     c = CHR ''_'' \<or> c = CHR ''-'' \<or> c = CHR ''.'' \<or> 97 \<le> n \<and> n \<le> 122 \<or> 65 \<le> n \<and> n \<le> 90 \<or> 48 \<le> n \<and> n \<le> 57)"

definition safeField :: "string \<Rightarrow> string" where
  "safeField value =
     (let value = TrimSpace value
      in if value = [] \<or> 128 < length value then []
         else if \<not> list_all fieldChar value then []
         else value)"

definition RedactIdentifier :: "string \<Rightarrow> string" where
  "RedactIdentifier value =
     (let value = TrimSpace value
      in if value = [] then []
         else ''id_'' @ take 12 (EncodeToString (Sum256 value)))"

abbreviation hour :: duration where
  "hour \<equiv> 3600 * second"

definition SanitizeEvent :: "obs_Event \<Rightarrow> gotime \<Rightarrow> obs_Event" where
  "SanitizeEvent event fallback =
     event\<lparr>oe_At := (let at = (if IsZero (oe_At event) then fallback else oe_At event)
                     in if IsZero at then unixEpoch else at),
           oe_Component := safeField (oe_Component event),
           oe_Operation := safeField (oe_Operation event),
           oe_Outcome := safeField (oe_Outcome event),
           oe_RequestID := (if oe_RequestID event \<noteq> [] then RedactIdentifier (oe_RequestID event)
                            else oe_RequestID event),
           oe_Resource := (if oe_Resource event \<noteq> [] then RedactIdentifier (oe_Resource event)
                           else oe_Resource event),
           oe_ErrorClass := safeField (oe_ErrorClass event),
           oe_Duration := (let d = (if oe_Duration event < 0 then 0 else oe_Duration event)
                           in if 24 * hour < d then 24 * hour else d)\<rparr>"

section \<open>The event buffer\<close>

record EventBuffer =
  eb_limit :: int
  eb_events :: "obs_Event list"

definition NewEventBuffer :: "int \<Rightarrow> EventBuffer" where
  "NewEventBuffer limit =
     (let limit = (if limit < 1 then 128 else limit);
          limit = (if 2048 < limit then 2048 else limit)
      in \<lparr>eb_limit = limit, eb_events = []\<rparr>)"

definition EventBuffer_Record :: "gotime \<Rightarrow> obs_Event \<Rightarrow> EventBuffer \<Rightarrow> EventBuffer" where
  "EventBuffer_Record now event b =
     (let events = eb_events b @ [SanitizeEvent event now];
          excess = int (length events) - eb_limit b
      in b\<lparr>eb_events := if 0 < excess then take (nat (eb_limit b)) (drop (nat excess) events) else events\<rparr>)"

definition EventBuffer_Snapshot :: "int \<Rightarrow> EventBuffer \<Rightarrow> obs_Event list" where
  "EventBuffer_Snapshot limit b =
     (let limit = (if limit \<le> 0 \<or> eb_limit b < limit then eb_limit b else limit);
          start = int (length (eb_events b)) - limit;
          start = (if start < 0 then 0 else start)
      in drop (nat start) (eb_events b))"

section \<open>Metric labels\<close>

record Label =
  lb_Name :: string
  lb_Value :: string

definition nameChar :: "bool \<Rightarrow> char \<Rightarrow> bool" where
  "nameChar allowColon c \<longleftrightarrow> (let n = of_char c :: nat in
     97 \<le> n \<and> n \<le> 122 \<or> 65 \<le> n \<and> n \<le> 90 \<or> 48 \<le> n \<and> n \<le> 57 \<or> c = CHR ''_'' \<or> allowColon \<and> c = CHR '':'')"

definition digitChar :: "char \<Rightarrow> bool" where
  "digitChar c \<longleftrightarrow> (let n = of_char c :: nat in 48 \<le> n \<and> n \<le> 57)"

definition validName :: "string \<Rightarrow> bool \<Rightarrow> bool" where
  "validName name allowColon \<longleftrightarrow>
     \<not> (TrimSpace name \<noteq> name \<or> name = [] \<or> 128 < length name) \<and>
     list_all (nameChar allowColon) name \<and> \<not> digitChar (hd name)"

definition validMetricName :: "string \<Rightarrow> bool" where
  "validMetricName name = validName name True"

definition validLabelName :: "string \<Rightarrow> bool" where
  "validLabelName name = validName name False"

definition labelsKey :: "Label list \<Rightarrow> string" where
  "labelsKey labels = concat (map (\<lambda>l.
     decimal (length (lb_Name l)) @ '':'' @ lb_Name l @
     decimal (length (lb_Value l)) @ '':'' @ lb_Value l @ '';'') labels)"

definition validLabel :: "Label \<Rightarrow> bool" where
  "validLabel l \<longleftrightarrow>
     \<not> (TrimSpace (lb_Name l) \<noteq> lb_Name l \<or> \<not> validLabelName (lb_Name l) \<or> lb_Name l = ''le''
        \<or> TrimSpace (lb_Value l) \<noteq> lb_Value l \<or> lb_Value l = [] \<or> 64 < length (lb_Value l)) \<and>
     \<not> (containsSeq controlSeqs (lb_Value l)
        \<or> ContainsAny (lb_Value l) [CHR 0x22, CHR 0x5C, CHR 0x0A, CHR 0x0D])"

definition canonicalLabels :: "Label list \<Rightarrow> (string \<times> Label list) option" where
  "canonicalLabels labels =
     (if 8 < length labels \<or> \<not> list_all validLabel labels then None
      else
        let sorted = sort_key lb_Name labels
        in if \<not> distinct_adj (map lb_Name sorted) then None
           else Some (labelsKey sorted, sorted))"

text \<open>The key of a sample: the length-prefixed metric name and the label key.\<close>

definition sampleKey :: "string \<Rightarrow> string \<Rightarrow> string" where
  "sampleKey name canonical = decimal (length name) @ '':'' @ name @ ''|'' @ canonical"

section \<open>Decimal lengths\<close>

lemma digitChar_decimal: "list_all digitChar (decimal n)"
proof (induction n rule: decimal.induct)
  case (1 n)
  then show ?case by (subst decimal.simps) (auto simp: digitChar_def [abs_def] Let_def)
qed

lemma decimal_value: "fold (\<lambda>c v. 10 * v + (of_char c - 48)) (decimal n) 0 = (n :: nat)"
proof (induction n rule: decimal.induct)
  case (1 n)
  then show ?case by (cases "n < 10"; subst decimal.simps) auto
qed

lemma decimal_inj [simp]: "decimal m = decimal n \<longleftrightarrow> m = n"
  using decimal_value by metis

lemma prefixed_inj:
  assumes "decimal m @ CHR '':'' # xs = decimal n @ CHR '':'' # ys"
  shows "m = n \<and> xs = ys"
proof -
  have t: "takeWhile digitChar (decimal k @ CHR '':'' # zs) = decimal k" for k zs
    using digitChar_decimal [of k] by (simp add: takeWhile_append list_all_iff digitChar_def)
  have "decimal m = decimal n" using arg_cong [OF assms, of "takeWhile digitChar"] by (simp only: t)
  with assms show ?thesis by simp
qed

text \<open>A length-prefixed field determines itself and what follows.\<close>

lemma field_inj:
  assumes "decimal (length a) @ CHR '':'' # a @ xs = decimal (length b) @ CHR '':'' # b @ ys"
  shows "a = b \<and> xs = ys"
  using prefixed_inj [OF assms] by auto

lemma labelsKey_Cons:
  "labelsKey (l # ls) = decimal (length (lb_Name l)) @ CHR '':'' # lb_Name l @
     decimal (length (lb_Value l)) @ CHR '':'' # lb_Value l @ CHR '';'' # labelsKey ls"
  by (simp add: labelsKey_def)

lemma decimal_neq_Nil [simp]: "decimal n \<noteq> []"
  by (subst decimal.simps) simp

lemma labelsKey_inj: "labelsKey ls = labelsKey ms \<longleftrightarrow> ls = ms"
proof
  show "labelsKey ls = labelsKey ms \<Longrightarrow> ls = ms"
  proof (induction ls arbitrary: ms)
    case Nil
    then show ?case by (cases ms) (auto simp: labelsKey_def)
  next
    case (Cons l ls)
    then obtain m ms' where ms: "ms = m # ms'" by (cases ms) (auto simp: labelsKey_def)
    with Cons.prems have "lb_Name l = lb_Name m"
      "decimal (length (lb_Value l)) @ CHR '':'' # lb_Value l @ CHR '';'' # labelsKey ls =
       decimal (length (lb_Value m)) @ CHR '':'' # lb_Value m @ CHR '';'' # labelsKey ms'"
      by (auto simp: labelsKey_Cons dest: field_inj)
    moreover from this(2) have "lb_Value l = lb_Value m" "labelsKey ls = labelsKey ms'" by (auto dest: field_inj)
    ultimately show ?case using Cons.IH ms by simp
  qed
qed simp

lemma sampleKey_inj: "sampleKey n k = sampleKey m k' \<longleftrightarrow> n = m \<and> k = k'"
  by (auto simp: sampleKey_def dest: field_inj)

lemma distinct_adj_sorted: "sorted xs \<Longrightarrow> distinct_adj xs \<longleftrightarrow> distinct xs"
proof (induction xs)
  case Nil
  then show ?case by simp
next
  case (Cons x xs)
  then show ?case by (cases xs) auto
qed

lemma canonical_iff:
  "canonicalLabels ls = Some (k, s) \<longleftrightarrow> length ls \<le> 8 \<and> list_all validLabel ls \<and> distinct (map lb_Name ls) \<and>
     s = sort_key lb_Name ls \<and> k = labelsKey s"
proof -
  have "distinct_adj (map lb_Name (sort_key lb_Name ls)) \<longleftrightarrow> distinct (map lb_Name (sort_key lb_Name ls))"
    by (rule distinct_adj_sorted) simp
  also have "\<dots> \<longleftrightarrow> distinct (map lb_Name ls)"
    by (simp add: distinct_map)
  finally have "distinct_adj (map lb_Name (sort_key lb_Name ls)) \<longleftrightarrow> distinct (map lb_Name ls)" .
  then show ?thesis by (auto simp: canonicalLabels_def Let_def)
qed


section \<open>The window of the buffer\<close>

definition lastOf :: "nat \<Rightarrow> 'a list \<Rightarrow> 'a list" where
  "lastOf n xs = drop (length xs - n) xs"

lemma lastOf_append1: "0 < n \<Longrightarrow> lastOf n (lastOf n xs @ [x]) = lastOf n (xs @ [x])"
  by (cases "length xs \<le> n") (auto simp: lastOf_def Suc_diff_le)

lemma lastOf_lastOf: "m \<le> n \<Longrightarrow> lastOf m (lastOf n xs) = lastOf m xs"
  by (cases "length xs \<le> n") (auto simp: lastOf_def)

definition recordAll :: "(gotime \<times> obs_Event) list \<Rightarrow> EventBuffer \<Rightarrow> EventBuffer" where
  "recordAll = fold (\<lambda>(now, event). EventBuffer_Record now event)"

lemma EventBuffer_Record_lastOf:
  assumes "0 < eb_limit b" "int (length (eb_events b)) \<le> eb_limit b"
  shows "eb_events (EventBuffer_Record now e b) = lastOf (nat (eb_limit b)) (eb_events b @ [SanitizeEvent e now])"
    and "eb_limit (EventBuffer_Record now e b) = eb_limit b"
    and "int (length (eb_events (EventBuffer_Record now e b))) \<le> eb_limit b"
proof -
  have "nat (1 + int (length (eb_events b))) = Suc (length (eb_events b))" by simp
  then show "eb_events (EventBuffer_Record now e b) = lastOf (nat (eb_limit b)) (eb_events b @ [SanitizeEvent e now])"
    and "eb_limit (EventBuffer_Record now e b) = eb_limit b"
    and "int (length (eb_events (EventBuffer_Record now e b))) \<le> eb_limit b"
    using assms by (auto simp: EventBuffer_Record_def Let_def lastOf_def min_def nat_diff_distrib)
qed

lemma recordAll_events:
  assumes "0 < eb_limit b" "eb_events b = lastOf (nat (eb_limit b)) xs"
  shows "eb_events (recordAll es b) = lastOf (nat (eb_limit b)) (xs @ map (\<lambda>(now, e). SanitizeEvent e now) es) \<and>
    eb_limit (recordAll es b) = eb_limit b"
  using assms
proof (induction es arbitrary: b xs)
  case Nil
  then show ?case by (simp add: recordAll_def)
next
  case (Cons p es)
  obtain now e where p: "p = (now, e)" by (cases p)
  have l: "int (length (eb_events b)) \<le> eb_limit b" using Cons.prems by (simp add: lastOf_def)
  note R = EventBuffer_Record_lastOf [OF Cons.prems(1) l, of now e]
  have "eb_events (EventBuffer_Record now e b) = lastOf (nat (eb_limit b)) (xs @ [SanitizeEvent e now])"
    using R(1) Cons.prems by (simp add: lastOf_append1)
  then show ?case
    using Cons.IH [of "EventBuffer_Record now e b" "xs @ [SanitizeEvent e now]"] R(2) Cons.prems(1)
    by (simp add: recordAll_def p)
qed

section \<open>Redacted fields\<close>

lemma fieldChar_plain: "fieldChar c \<Longrightarrow> plainChar c"
  by (auto simp: fieldChar_def plainChar_def Let_def)

lemma hexChar_field: "hexChar c \<Longrightarrow> fieldChar c"
  by (auto simp: hexChar_def fieldChar_def Let_def)

lemma safeField_ok: "list_all fieldChar (safeField v)" "length (safeField v) \<le> 128"
  by (auto simp: safeField_def Let_def)

definition redactedID :: "string \<Rightarrow> bool" where
  "redactedID v \<longleftrightarrow> v = [] \<or> (\<exists>h. v = ''id_'' @ h \<and> length h = 12 \<and> list_all hexChar h)"

lemma RedactIdentifier_shape: "redactedID (RedactIdentifier v)"
  using EncodeToString_hex [of "Sum256 (TrimSpace v)"]
  by (auto simp: redactedID_def RedactIdentifier_def Let_def list_all_iff dest: in_set_takeD)

section \<open>Properties\<close>

text \<open>
  C22. Redaction at the boundary: whatever an event holds, its sanitized form has only short
  classification tokens, identifiers that are absent or a label of twelve hexadecimal digits, a
  time, and a duration of at most a day.
\<close>

theorem SanitizeEvent_redacts:
  "(let s = SanitizeEvent e fallback in
     list_all (\<lambda>f. list_all fieldChar f \<and> length f \<le> 128)
       [oe_Component s, oe_Operation s, oe_Outcome s, oe_ErrorClass s] \<and>
     redactedID (oe_RequestID s) \<and> redactedID (oe_Resource s) \<and> \<not> IsZero (oe_At s) \<and>
     0 \<le> oe_Duration s \<and> oe_Duration s \<le> 24 * hour)"
proof -
  have "0 < hour" "unixEpoch \<noteq> 0" by (simp_all add: second_def unixEpoch_def)
  moreover have "redactedID []" by (simp add: redactedID_def)
  ultimately show ?thesis
    using safeField_ok RedactIdentifier_shape by (simp add: SanitizeEvent_def Let_def)
qed

text \<open>
  The diagnostics buffer holds exactly the last events: after any sequence of records a
  snapshot of at most n events is the last n sanitized events (or the last \<open>limit\<close>, the
  configured bound, when n is larger or not positive).
\<close>

theorem EventBuffer_is_window:
  "EventBuffer_Snapshot n (recordAll es (NewEventBuffer limit)) =
     (let bound = eb_limit (NewEventBuffer limit)
      in lastOf (nat (if n \<le> 0 \<or> bound < n then bound else n)) (map (\<lambda>(now, e). SanitizeEvent e now) es))
   \<and> 1 \<le> eb_limit (NewEventBuffer limit) \<and> eb_limit (NewEventBuffer limit) \<le> 2048"
proof -
  let ?b = "NewEventBuffer limit"
  have lim: "1 \<le> eb_limit ?b" "eb_limit ?b \<le> 2048" and "eb_events ?b = []" by (auto simp: NewEventBuffer_def Let_def)
  then have r: "eb_events (recordAll es ?b) = lastOf (nat (eb_limit ?b)) (map (\<lambda>(now, e). SanitizeEvent e now) es)"
      "eb_limit (recordAll es ?b) = eb_limit ?b"
    using recordAll_events [of ?b "[]" es] by (simp_all add: lastOf_def)
  have "EventBuffer_Snapshot n b = lastOf (nat (if n \<le> 0 \<or> eb_limit b < n then eb_limit b else n)) (eb_events b)"
    if "1 \<le> eb_limit b" for b
    using that by (auto simp: EventBuffer_Snapshot_def lastOf_def Let_def nat_diff_distrib)
  then show ?thesis using r lim by (auto simp: Let_def lastOf_lastOf)
qed

text \<open>
  A metric sample is identified by its name and its labels: two label lists that pass
  canonicalisation share a sample exactly when the metric names agree and the lists hold the same
  labels, in whatever order.
\<close>

theorem sample_identity:
  assumes "canonicalLabels ls = Some (k, s)" "canonicalLabels ms = Some (k', s')"
  shows "sampleKey n k = sampleKey m k' \<longleftrightarrow> n = m \<and> set ls = set ms"
proof -
  have c: "distinct (map lb_Name ls)" "distinct (map lb_Name ms)" "s = sort_key lb_Name ls" "k = labelsKey s"
      "s' = sort_key lb_Name ms" "k' = labelsKey s'"
    using assms by (simp_all add: canonical_iff)
  have "s = s' \<longleftrightarrow> set ls = set ms"
  proof
    assume "set ls = set ms"
    moreover have "inj_on lb_Name (set ls)" "distinct ls" "distinct ms" using c(1,2) by (simp_all add: distinct_map)
    moreover from calculation have "mset ls = mset ms" using set_eq_iff_mset_eq_distinct [of ls ms] by simp
    ultimately show "s = s'" unfolding c(3,5) by (intro sort_key_inj_key_eq) simp_all
  next
    assume "s = s'"
    then show "set ls = set ms" using c(3,5) by (metis set_sort)
  qed
  then show ?thesis using c(4,6) by (simp add: sampleKey_inj labelsKey_inj)
qed

section \<open>A concrete label set\<close>

lemma containsSeq_appendI: "containsSeq ys s \<Longrightarrow> containsSeq (xs @ ys) s"
  by (induction s) (auto simp: startsWithAny_def)

lemma no_control [go_simps]: "list_all plainChar s \<Longrightarrow> \<not> containsSeq controlSeqs s"
  using containsSeq_plain containsSeq_appendI by blast

definition demoLabels :: "Label list" where
  "demoLabels = [\<lparr>lb_Name = ''outcome'', lb_Value = ''ok''\<rparr>, \<lparr>lb_Name = ''component'', lb_Value = ''queue''\<rparr>]"

lemma demoLabels_canonical: "\<exists>k s. canonicalLabels demoLabels = Some (k, s)" "\<exists>k s. canonicalLabels (rev demoLabels) = Some (k, s)"
proof -
  have "list_all validLabel demoLabels"
    by (simp add: demoLabels_def validLabel_def validLabelName_def validName_def nameChar_def digitChar_def Let_def
        ContainsAny_def go_simps del: containsSeq.simps)
  moreover have "distinct (map lb_Name demoLabels)" "length demoLabels \<le> 8" by (simp_all add: demoLabels_def)
  ultimately show "\<exists>k s. canonicalLabels demoLabels = Some (k, s)" "\<exists>k s. canonicalLabels (rev demoLabels) = Some (k, s)"
    by (simp_all add: canonical_iff rev_map [symmetric] list_all_rev)
qed

theorem sample_identity_witness:
  "\<exists>k k' s. canonicalLabels demoLabels = Some (k, s) \<and> canonicalLabels (rev demoLabels) = Some (k', s) \<and>
     sampleKey ''chuzi_events_total'' k = sampleKey ''chuzi_events_total'' k'"
proof -
  obtain k s k' s' where c: "canonicalLabels demoLabels = Some (k, s)" "canonicalLabels (rev demoLabels) = Some (k', s')"
    using demoLabels_canonical by blast
  have "sampleKey ''chuzi_events_total'' k = sampleKey ''chuzi_events_total'' k'"
    using sample_identity [OF c, of "''chuzi_events_total''" "''chuzi_events_total''"] by simp
  moreover from this have "s = s'" using c by (auto simp: canonical_iff sampleKey_inj labelsKey_inj)
  ultimately show ?thesis using c by blast
qed

end
