(* ===== verification/StoreDeletion.thy ===== *)
theory StoreDeletion
  imports StoreInv Observability
begin

text \<open>
  The durable side of account deletion, internal/store/deletion.go. The label of the deleted
  account is computed by internal/observability (a keyed digest); it is a parameter here.
\<close>

record DeletionRequest =
  dr_DeletionID :: string
  dr_AccountID :: string
  dr_Actor :: string
  dr_ReasonClass :: string
  dr_ProfilePolicy :: ProfilePolicy
  dr_RequestedAt :: gotime

definition putDeletion :: "DeletionSnapshot \<Rightarrow> db \<Rightarrow> db result" where
  "putDeletion deletion d =
     bindE (DeletionSnapshot_Validate deletion) (\<lambda>_.
     Inr (d\<lparr>db_deletions := kput (ds_AccountID deletion) (Json deletion) (db_deletions d)\<rparr>))"

definition requestDeletionTx ::
  "DeletionRequest \<Rightarrow> db \<Rightarrow> ((DeletionSnapshot \<times> bool) \<times> db) result" where
  "requestDeletionTx input d =
     (if kget (db_accounts d) (dr_AccountID input) = None then Inl (StoreErr ErrAccountNotFound)
      else case kget (db_deletions d) (dr_AccountID input) of
        Some raw \<Rightarrow>
          bindE (decode raw) (\<lambda>existing.
          bindE (corrupt (DeletionSnapshot_Validate existing)) (\<lambda>_.
          if ds_DeletionID existing = dr_DeletionID input
          then if ds_Actor existing = dr_Actor input
                  \<and> ds_ReasonClass existing = dr_ReasonClass input
                  \<and> ds_ProfilePolicy existing = dr_ProfilePolicy input
               then Inr ((existing, True), d)
               else Inl (StoreDeletionErr ErrDeletionConflict)
          else if ds_Stage existing = DeletionTombstoned
          then Inl (StoreDeletionErr ErrAccountDeleted)
          else Inl (StoreDeletionErr ErrDeletionInProgress)))
      | None \<Rightarrow>
          bindE (snapshotFromTx d (dr_AccountID input)) (\<lambda>state.
          bindE (NewDeletion (dr_DeletionID input) (dr_AccountID input)
                   (RedactIdentifier (dr_AccountID input)) (dr_Actor input) (dr_ReasonClass input)
                   (dr_ProfilePolicy input) (sn_Status state) (dr_RequestedAt input)) (\<lambda>deletion.
          bindE (putDeletion deletion d) (\<lambda>d1.
          Inr ((deletion, False), d1)))))"

definition RequestDeletion ::
  "commit \<Rightarrow> DeletionRequest \<Rightarrow> db \<Rightarrow> (DeletionSnapshot \<times> bool) result \<times> db"
where
  "RequestDeletion commit input d =
     (if TrimSpace (dr_DeletionID input) \<noteq> dr_DeletionID input
         \<or> TrimSpace (dr_AccountID input) \<noteq> dr_AccountID input
         \<or> TrimSpace (dr_Actor input) \<noteq> dr_Actor input
         \<or> TrimSpace (dr_ReasonClass input) \<noteq> dr_ReasonClass input
         \<or> IsZero (dr_RequestedAt input)
      then (Inl (DeletionErr ErrInvalidDeletion), d)
      else
        let input = (if dr_ProfilePolicy input = OtherPolicy []
                     then input\<lparr>dr_ProfilePolicy := ProfilePurge\<rparr> else input)
        in update commit (requestDeletionTx input) d)"

definition LookupDeletion :: "string \<Rightarrow> db \<Rightarrow> DeletionSnapshot option result" where
  "LookupDeletion accountID d =
     (if TrimSpace accountID \<noteq> accountID \<or> accountID = [] then Inl (DeletionErr ErrInvalidDeletion)
      else view (\<lambda>d.
        case kget (db_deletions d) accountID of
          None \<Rightarrow> Inr None
        | Some raw \<Rightarrow>
            bindE (decode raw) (\<lambda>result.
            bindE (corrupt (DeletionSnapshot_Validate result)) (\<lambda>_. Inr (Some result)))) d)"

definition GetDeletion :: "string \<Rightarrow> db \<Rightarrow> DeletionSnapshot result" where
  "GetDeletion accountID d =
     bindE (LookupDeletion accountID d) (\<lambda>found.
     case found of
       None \<Rightarrow> Inl (StoreDeletionErr ErrDeletionNotFound)
     | Some deletion \<Rightarrow> Inr deletion)"

text \<open>The scan stops at the first deletion with the id.\<close>

fun findDeletion :: "string \<Rightarrow> (string \<times> DeletionSnapshot json) list \<Rightarrow> DeletionSnapshot result" where
  "findDeletion deletionID [] = Inl (StoreDeletionErr ErrDeletionNotFound)"
| "findDeletion deletionID ((_, raw) # rest) =
     bindE (decode raw) (\<lambda>candidate.
     bindE (corrupt (DeletionSnapshot_Validate candidate)) (\<lambda>_.
     if ds_DeletionID candidate = deletionID then Inr candidate else findDeletion deletionID rest))"

definition GetDeletionByID :: "string \<Rightarrow> db \<Rightarrow> DeletionSnapshot result" where
  "GetDeletionByID deletionID d =
     (if TrimSpace deletionID \<noteq> deletionID \<or> deletionID = []
      then Inl (DeletionErr ErrInvalidDeletion)
      else view (\<lambda>d. findDeletion deletionID (kentries (db_deletions d))) d)"

definition advanceDeletionTx ::
  "DeletionEvent \<Rightarrow> db \<Rightarrow> (DeletionTransitionResult \<times> db) result" where
  "advanceDeletionTx event d =
     (case kget (db_deletions d) (de_AccountID event) of
        None \<Rightarrow> Inl (StoreDeletionErr ErrDeletionNotFound)
      | Some raw \<Rightarrow>
          bindE (decode raw) (\<lambda>state.
          bindE (ApplyDeletion state event) (\<lambda>result.
          if dt_Idempotent result then Inr (result, d)
          else bindE (putDeletion (dt_State result) d) (\<lambda>d1. Inr (result, d1)))))"

definition AdvanceDeletion ::
  "commit \<Rightarrow> DeletionEvent \<Rightarrow> db \<Rightarrow> DeletionTransitionResult result \<times> db" where
  "AdvanceDeletion commit event d =
     (case DeletionEvent_Validate event of
        Inl e \<Rightarrow> (Inl e, d)
      | Inr _ \<Rightarrow> update commit (advanceDeletionTx event) d)"

section \<open>Facts\<close>

lemma putDeletion_inv [inv_intros]:
  "store_inv d \<Longrightarrow> putDeletion x d = Inr d' \<Longrightarrow> store_inv d'"
  using store_invD(10) [of d]
  by (auto simp: putDeletion_def store_inv_deletions inv_deletions_def)

lemma requestDeletionTx_inv:
  assumes "store_inv d" "requestDeletionTx input d = Inr (r, d')"
  shows "store_inv d'"
proof (cases "kget (db_deletions d) (dr_AccountID input)")
  case None
  then obtain x where "putDeletion x d = Inr d'"
    using assms(2) by (auto simp: requestDeletionTx_def split: if_splits)
  then show ?thesis using assms(1) putDeletion_inv by blast
next
  case (Some raw)
  then have "d' = d" using assms(2) by (auto simp: requestDeletionTx_def split: if_splits)
  then show ?thesis using assms(1) by simp
qed

lemma RequestDeletion_inv [inv_intros]:
  assumes "store_inv d" "RequestDeletion commit input d = (r, d')"
  shows "store_inv d'"
proof -
  have "d' = d \<or> (\<exists>i. update commit (requestDeletionTx i) d = (r, d'))"
    using assms(2) unfolding RequestDeletion_def Let_def by (simp split: if_splits) blast+
  then show ?thesis using assms(1) update_cases requestDeletionTx_inv by metis
qed

lemma advanceDeletionTx_inv:
  "store_inv d \<Longrightarrow> advanceDeletionTx e d = Inr (r, d') \<Longrightarrow> store_inv d'"
  by (auto simp: advanceDeletionTx_def split: option.splits if_splits intro: putDeletion_inv)

lemma AdvanceDeletion_inv [inv_intros]:
  assumes "store_inv d" "AdvanceDeletion commit e d = (r, d')"
  shows "store_inv d'"
proof (cases "DeletionEvent_Validate e")
  case (Inr u)
  then have "update commit (advanceDeletionTx e) d = (r, d')" using assms(2) by (simp add: AdvanceDeletion_def)
  then show ?thesis
    by (rule update_invariant [where P = store_inv, OF _ assms(1)]) (use assms(1) advanceDeletionTx_inv in blast)
qed (use assms in \<open>simp add: AdvanceDeletion_def\<close>)

end
