(* ===== verification/StoreRuns.thy ===== *)
theory StoreRuns
  imports StoreRebuild StoreOutbox StoreDeletion
begin

text \<open>
  The operations of the store as a step relation: any operation, with any outcome and any verdict
  of the database engine. The invariant holds along every run that starts with the empty
  database, a request once stored keeps its identity
  for ever, a deletion lets no new request of its account in, and a claim of the outbox holds.
\<close>

section \<open>Every run of the store\<close>

text \<open>One operation of the store, with any verdict of the engine and any outcome.\<close>

inductive storeStep :: "db \<Rightarrow> db \<Rightarrow> bool" where
  create_account: "CreateAccount c a d = (r, d') \<Longrightarrow> storeStep d d'"
| apply_event: "ApplyEvent c e d = (r, d') \<Longrightarrow> storeStep d d'"
| create_request: "CreateRequest c q d = (r, d') \<Longrightarrow> storeStep d d'"
| submit_request: "SubmitRequest c q e d = (r, d') \<Longrightarrow> storeStep d d'"
| claim_next: "0 < ca_now x \<Longrightarrow> ClaimNext c x m d = (r, d') \<Longrightarrow> storeStep d d'"
| cancel: "cancelRequest c e l ax d = (r, d') \<Longrightarrow> storeStep d d'"
| complete: "completeRequest c e l ax d = (r, d') \<Longrightarrow> storeStep d d'"
| failure: "recordFailure c e cl at re l ax d = (r, d') \<Longrightarrow> storeStep d d'"
| acquire_lease: "0 < now \<Longrightarrow> Store_AcquireLease c a now i w ttl d = (r, d') \<Longrightarrow> storeStep d d'"
| heartbeat_lease: "0 < now \<Longrightarrow> Store_HeartbeatLease c a now i w ttl d = (r, d') \<Longrightarrow> storeStep d d'"
| release_lease: "Store_ReleaseLease c a i w d = (r, d') \<Longrightarrow> storeStep d d'"
| claim_notifications: "0 < now \<Longrightarrow> ClaimNotifications c now w ttl n d = (r, d') \<Longrightarrow> storeStep d d'"
| complete_notification: "CompleteNotification c i w at d = (r, d') \<Longrightarrow> storeStep d d'"
| retry_notification: "RetryNotification c i w now at d = (r, d') \<Longrightarrow> storeStep d d'"
| request_deletion: "RequestDeletion c x d = (r, d') \<Longrightarrow> storeStep d d'"
| advance_deletion: "AdvanceDeletion c ev d = (r, d') \<Longrightarrow> storeStep d d'"
| reopen: "rebuildQueueIndex c d = (r, d') \<Longrightarrow> storeStep d d'"

inductive storeRun :: "db \<Rightarrow> db \<Rightarrow> bool" where
  start: "storeRun d d"
| step: "storeRun d e \<Longrightarrow> storeStep e f \<Longrightarrow> storeRun d f"

inductive_cases storeStepE: "storeStep d d'"

lemma rebuildQueueIndex_inv:
  "store_inv d \<Longrightarrow> rebuildQueueIndex c d = (r, d') \<Longrightarrow> d' = d"
  by (auto simp: rebuildQueueIndex_def update_def rebuildTx_inv split: option.splits)

lemma storeStep_inv: "storeStep d d' \<Longrightarrow> store_inv d \<Longrightarrow> store_inv d'"
  by (induction rule: storeStep.induct) (blast intro: inv_intros dest: rebuildQueueIndex_inv)+

lemma storeRun_inv: "storeRun d d' \<Longrightarrow> store_inv d \<Longrightarrow> store_inv d'"
  by (induction rule: storeRun.induct) (auto intro: storeStep_inv)

lemma emptyDB_inv: "store_inv emptyDB"
  by (simp add: store_inv_def inv_accounts_def inv_defs emptyDB_def)

section \<open>Requests are permanent\<close>

text \<open>A later version of a request: the same identity, and a started lifecycle stays started.\<close>

definition laterRequest :: "Request \<Rightarrow> Request \<Rightarrow> bool" where
  "laterRequest q q' \<longleftrightarrow> sameRequest q q' \<and> (rq_State q \<noteq> NoRequest \<longrightarrow> rq_State q' \<noteq> NoRequest)"

definition keepsRequests :: "db \<Rightarrow> db \<Rightarrow> bool" where
  "keepsRequests d d' \<longleftrightarrow> (\<forall>i q. kget (db_requests d) i = Some (Json q) \<longrightarrow>
     (\<exists>q'. kget (db_requests d') i = Some (Json q') \<and> laterRequest q q'))"

lemma sameRequest_refl [simp]: "sameRequest q q"
  by (simp add: sameRequest_def)

lemma laterRequest_refl [simp]: "laterRequest q q"
  by (simp add: laterRequest_def)

lemma laterRequest_trans: "laterRequest p q \<Longrightarrow> laterRequest q r \<Longrightarrow> laterRequest p r"
  by (simp add: laterRequest_def sameRequest_def)

lemma keeps_refl: "db_requests d' = db_requests d \<Longrightarrow> keepsRequests d d'"
  by (auto simp: keepsRequests_def)

lemma keeps_trans: "keepsRequests d e \<Longrightarrow> keepsRequests e f \<Longrightarrow> keepsRequests d f"
  unfolding keepsRequests_def using laterRequest_trans by meson

lemma keeps_put:
  "kget (db_requests d) (rq_RequestID q') = Some (Json q) \<Longrightarrow> laterRequest q q' \<Longrightarrow> keepsRequests d (putRequest q' d)"
  by (auto simp: keepsRequests_def putRequest_def)

lemma keeps_new:
  "kget (db_requests d) i = None \<Longrightarrow> db_requests d' = kput i v (db_requests d) \<Longrightarrow> keepsRequests d d'"
  by (auto simp: keepsRequests_def)

lemma applyEventTx_keeps:
  assumes "store_inv d" "applyEventTx e d = Inr (r, d')"
  shows "keepsRequests d d'"
proof (cases "tr_Idempotent r")
  case True
  then show ?thesis using applyEventTx_replay [OF assms(2)] by (simp add: keeps_refl)
next
  case False
  obtain q where "kget (db_requests d) (ev_RequestID e) = Some (Json q)"
    "db_requests d' = kput (ev_RequestID e) (Json (requestAfter e r q)) (db_requests d)"
    "rq_State (requestAfter e r q) = ev_To e" "ev_To e \<noteq> NoRequest"
    using applyEventTx_request [OF assms False] by metis
  then show ?thesis by (auto simp: keepsRequests_def laterRequest_def sameRequest_def)
qed

lemma claimTx_keeps:
  assumes "store_inv d" "claimTx c m d = Inr (cl, d')"
  shows "keepsRequests d d'"
  using assms(2)
proof (cases rule: claimTx_cases)
  case 1
  then show ?thesis by (simp add: keeps_refl)
next
  case (2 n queued)
  obtain q s l where "claimCandidate c q s l d = Inr (cl, d')" using claimLoop_success [OF 2(5)] by metis
  with assms(1) 2(1) show ?thesis
  proof (rule claimCandidate_effect)
    fix d1 x
    assume a: "applyEventTx (claimEvent c q s) d = Inr (cl_Transition cl, d1)"
      "kget (db_requests d1) (rq_RequestID q) = Some (Json (requestAfter (claimEvent c q s) (cl_Transition cl) x))"
      "cl_Request cl = x\<lparr>rq_State := Starting, rq_UpdatedAt := ca_now c, rq_NotBefore := 0, rq_Attempt := rq_Attempt x + 1\<rparr>"
      "rq_RequestID x = rq_RequestID q" "d' = putLease (rq_AccountID q) l (putRequest (cl_Request cl) d1)"
    have "keepsRequests d1 (putRequest (cl_Request cl) d1)"
      by (rule keeps_put) (use a in \<open>auto simp: laterRequest_def sameRequest_def\<close>)
    moreover have "keepsRequests (putRequest (cl_Request cl) d1) d'" by (rule keeps_refl) (simp add: a(5) putLease_def)
    ultimately show ?thesis using applyEventTx_keeps [OF assms(1) a(1)] keeps_trans by blast
  qed
qed

lemma failureTx_keeps:
  assumes inv: "store_inv d" and ok: "failureTx e c at re x ax d = Inr (fr, d')"
  shows "keepsRequests d d'"
proof (cases "tr_Idempotent (fr_Failed fr)")
  case True
  obtain f d1 where f: "applyEventTx e d = Inr (f, d1)" using ok by (auto simp: failureTx_def)
  have "tr_Idempotent f"
    using ok f True by (auto simp: failureTx_def Let_def split: prod.splits option.splits if_splits)
  then have r: "replayFailureTx e f re d = Inr (fr, d')" using ok f applyEventTx_replay [OF f] by (simp add: failureTx_def)
  then have "d' = d \<or> (\<exists>re' t. applyEventTx re' d = Inr (t, d'))"
    by (auto simp: replayFailureTx_def split: option.splits if_splits prod.splits)
  then show ?thesis using applyEventTx_keeps [OF inv] keeps_refl by blast
next
  case False
  from ok this show ?thesis
  proof (rule failureTx_new)
    fix d1 d3
    assume a: "applyEventTx e d = Inr (fr_Failed fr, d1)"
      and c: "case re of
       None \<Rightarrow> fr_Retried fr = None \<and> d3 = deleteLease (ev_AccountID e) d1 \<and>
         (\<exists>q. requestFromTx d3 (ev_RequestID e) = Inr q \<and>
            fr_Request fr = q\<lparr>rq_LastFailure := c, rq_UpdatedAt := ev_OccurredAt e\<rparr>)
     | Some r \<Rightarrow> (\<exists>t. fr_Retried fr = Some t \<and>
         requeueTx e c at (fr_Failed fr) r (deleteLease (ev_AccountID e) d1) = Inr ((t, fr_Request fr), d3))"
      and n: "setNotificationFailureTx (ev_EventID e) c (putRequest (fr_Request fr) d3) = Inr d'"
    let ?d2 = "deleteLease (ev_AccountID e) d1"
    have i2: "store_inv ?d2" using a inv by (auto intro: inv_intros)
    have k2: "keepsRequests d ?d2"
      using applyEventTx_keeps [OF inv a] by (simp add: keepsRequests_def deleteLease_def)
    have "\<exists>q. store_inv d3 \<and> keepsRequests ?d2 d3 \<and> requestFromTx d3 (ev_RequestID e) = Inr q \<and> laterRequest q (fr_Request fr)"
    proof (cases re)
      case None
      then show ?thesis using c i2 keeps_refl by (fastforce simp: laterRequest_def sameRequest_def)
    next
      case (Some r)
      with c obtain t where t: "requeueTx e c at (fr_Failed fr) r ?d2 = Inr ((t, fr_Request fr), d3)" by auto
      then show ?thesis
        using requeueTx_facts(7) [OF t] applyEventTx_keeps [OF i2 requeueTx_facts(1) [OF t]]
          applyEventTx_inv [OF i2 requeueTx_facts(1) [OF t]] by (fastforce simp: laterRequest_def sameRequest_def)
    qed
    then obtain q where q: "store_inv d3" "keepsRequests ?d2 d3" "requestFromTx d3 (ev_RequestID e) = Inr q"
      "laterRequest q (fr_Request fr)" by blast
    have "keepsRequests d3 (putRequest (fr_Request fr) d3)"
      by (rule keeps_put [of _ _ q])
        (use q requestFromTx_ok [OF store_invD(4) [OF q(1)] q(3)] in
          \<open>auto simp: requestFromTx_inv [OF store_invD(4) [OF q(1)]] laterRequest_def sameRequest_def requestOk_def\<close>)
    moreover have "keepsRequests (putRequest (fr_Request fr) d3) d'"
      using setNotificationFailureTx_frame [OF n] by (intro keeps_refl) auto
    ultimately show ?thesis using k2 q(2) keeps_trans by blast
  qed
qed

lemma createRequestTx_keeps: "createRequestTx q d = Inr ((q', k), d') \<Longrightarrow> keepsRequests d d'"
  by (erule createRequestTx_cases) (auto intro: keeps_refl keeps_new)

lemma submitRequestTx_keeps: "submitRequestTx q d = Inr ((q', k), d') \<Longrightarrow> keepsRequests d d'"
  by (auto simp: submitRequestTx_def split: option.splits intro: createRequestTx_keeps keeps_refl)

lemma submitTx_keeps:
  assumes "store_inv d" "Request_Validate q = Inr ()" "submitTx q e d = Inr ((q', k), d')"
  shows "keepsRequests d d'"
proof -
  obtain x kn d1 where s: "submitRequestTx q d = Inr ((x, kn), d1)" and r: "d' = d1 \<or> (\<exists>t. applyEventTx e d1 = Inr (t, d'))"
    using assms(3) by (auto simp: submitTx_def split: prod.splits if_splits)
  have "store_inv d1" by (rule submitRequestTx_inv [OF assms(1,2) s])
  then show ?thesis
    using r submitRequestTx_keeps [OF s] applyEventTx_keeps keeps_trans by blast
qed

lemma update_keeps:
  assumes "update c fn d = (r, d')" "\<And>x d'. fn d = Inr (x, d') \<Longrightarrow> keepsRequests d d'"
  shows "keepsRequests d d'"
  using update_cases [OF assms(1)] assms(2) keeps_refl by blast

lemma same_requests_ops:
  "CreateAccount c a d = (r1, d') \<Longrightarrow> db_requests d' = db_requests d"
  "Store_AcquireLease c a now i w ttl d = (r2, d') \<Longrightarrow> db_requests d' = db_requests d"
  "Store_HeartbeatLease c a now i w ttl d = (r3, d') \<Longrightarrow> db_requests d' = db_requests d"
  "Store_ReleaseLease c a i w d = (r4, d') \<Longrightarrow> db_requests d' = db_requests d"
  "updateNotification c i w now f d = (r5, d') \<Longrightarrow> db_requests d' = db_requests d"
  "RequestDeletion c x d = (r6, d') \<Longrightarrow> db_requests d' = db_requests d"
  "AdvanceDeletion c ev d = (r7, d') \<Longrightarrow> db_requests d' = db_requests d"
proof -
  show "CreateAccount c a d = (r1, d') \<Longrightarrow> db_requests d' = db_requests d"
    by (auto simp: CreateAccount_def update_def putAccountProjection_def split: sum.splits option.splits if_splits)
  show "Store_AcquireLease c a now i w ttl d = (r2, d') \<Longrightarrow> db_requests d' = db_requests d"
    unfolding Store_AcquireLease_def
    by (erule update_invariant [where P = "\<lambda>x. db_requests x = db_requests d"]) (auto simp: putLease_def)
  show "Store_HeartbeatLease c a now i w ttl d = (r3, d') \<Longrightarrow> db_requests d' = db_requests d"
    unfolding Store_HeartbeatLease_def
    by (erule update_invariant [where P = "\<lambda>x. db_requests x = db_requests d"]) (auto simp: putLease_def split: option.splits)
  show "Store_ReleaseLease c a i w d = (r4, d') \<Longrightarrow> db_requests d' = db_requests d"
    unfolding Store_ReleaseLease_def
    by (erule update_invariant [where P = "\<lambda>x. db_requests x = db_requests d"]) (auto simp: deleteLease_def split: option.splits)
  show "updateNotification c i w now f d = (r5, d') \<Longrightarrow> db_requests d' = db_requests d"
    unfolding updateNotification_def
    by (erule update_invariant [where P = "\<lambda>x. db_requests x = db_requests d"])
      (auto simp: putNotification_def split: option.splits if_splits)
  have q: "requestDeletionTx i d = Inr (y, e) \<Longrightarrow> db_requests e = db_requests d" for i y e
    by (auto simp: requestDeletionTx_def putDeletion_def split: option.splits if_splits)
  show "RequestDeletion c x d = (r6, d') \<Longrightarrow> db_requests d' = db_requests d"
    unfolding RequestDeletion_def Let_def
    by (auto split: if_splits dest!: update_cases q)
  have v: "advanceDeletionTx ev d = Inr (y, e) \<Longrightarrow> db_requests e = db_requests d" for y e
    by (auto simp: advanceDeletionTx_def putDeletion_def split: option.splits if_splits)
  show "AdvanceDeletion c ev d = (r7, d') \<Longrightarrow> db_requests d' = db_requests d"
    unfolding AdvanceDeletion_def
    by (auto split: sum.splits dest!: update_cases v)
qed

lemma claimEach_requests: "claimEach now w ttl ns d = Inr (r, d') \<Longrightarrow> db_requests d' = db_requests d"
  by (induction ns arbitrary: d r) (auto simp: Let_def putNotification_def split: if_splits prod.splits)

lemma finishTx_keeps:
  assumes "store_inv d" "finishTx e l ax rx d = Inr (y, d')"
  shows "keepsRequests d d'"
  using applyEventTx_keeps [OF assms(1)] assms(2)
  by (fastforce simp: finishTx_def deleteLease_def keepsRequests_def split: if_splits)

lemma storeStep_keeps:
  assumes "storeStep d d'" and inv: "store_inv d"
  shows "keepsRequests d d'"
  using assms
proof (cases rule: storeStep.cases)
  case (apply_event c e r)
  then show ?thesis unfolding ApplyEvent_def by (rule update_keeps) (rule applyEventTx_keeps [OF inv])
next
  case (create_request c q r)
  then show ?thesis unfolding CreateRequest_def
    by (cases "Request_Validate q") (auto intro: keeps_refl createRequestTx_keeps elim!: update_keeps)
next
  case (submit_request c q e r)
  from SubmitRequest_update [OF submit_request] show ?thesis
    using update_keeps [of c "submitTx q e" d r d'] submitTx_keeps [OF inv] by (auto intro: keeps_refl)
next
  case (claim_next x c m r)
  from ClaimNext_update [OF claim_next(2)] show ?thesis
    using update_keeps [of c "claimTx x m" d r d'] claimTx_keeps [OF inv] by (auto intro: keeps_refl)
next
  case (cancel c e l ax r)
  then show ?thesis unfolding cancelRequest_def
    by (auto split: if_splits intro: keeps_refl finishTx_keeps [OF inv] elim!: update_keeps)
next
  case (complete c e l ax r)
  then show ?thesis unfolding completeRequest_def
    by (auto split: if_splits intro: keeps_refl finishTx_keeps [OF inv] elim!: update_keeps)
next
  case (failure c e cl at re l ax r)
  have "d' = d \<or> update c (failureTx e cl at re l ax) d = (r, d')"
    using failure unfolding recordFailure_def by (auto split: if_splits)
  then show ?thesis using update_keeps failureTx_keeps [OF inv] keeps_refl by metis
next
  case (claim_notifications now c w ttl n r)
  have "claimNotificationsTx now w ttl n d = Inr (y, z) \<Longrightarrow> db_requests z = db_requests d" for y z
    by (auto simp: claimNotificationsTx_def intro: claimEach_requests)
  then show ?thesis using claim_notifications(2) unfolding ClaimNotifications_def
    by (auto split: if_splits intro: keeps_refl elim!: update_keeps)
next
  case (reopen c r)
  then show ?thesis using rebuildQueueIndex_inv [OF inv] keeps_refl by blast
qed (auto intro: keeps_refl dest: same_requests_ops simp: CompleteNotification_def RetryNotification_def split: if_splits)

section \<open>What a deletion and a claim hold\<close>

text \<open>
  What every operation but those of the outbox keeps: the record of a deletion stays and admits no
  new request of its account, and a notification keeps who claimed it and whether it was delivered.
\<close>

definition sameClaim :: "Notification \<Rightarrow> Notification \<Rightarrow> bool" where
  "sameClaim m n \<longleftrightarrow> nt_DeliveredAt n = nt_DeliveredAt m \<and> nt_ClaimedBy n = nt_ClaimedBy m \<and>
     nt_ClaimExpiresAt n = nt_ClaimExpiresAt m"

definition claimsKept :: "db \<Rightarrow> db \<Rightarrow> bool" where
  "claimsKept d d' \<longleftrightarrow> (\<forall>i m. kget (db_notifications d) i = Some (Json m) \<longrightarrow>
     (\<exists>n. kget (db_notifications d') i = Some (Json n) \<and> sameClaim m n))"

definition shielded :: "db \<Rightarrow> db \<Rightarrow> bool" where
  "shielded d d' \<longleftrightarrow> keepsRequests d d' \<and>
     (\<forall>a. kget (db_deletions d) a \<noteq> None \<longrightarrow> kget (db_deletions d') a \<noteq> None) \<and>
     (\<forall>i q. kget (db_requests d') i = Some (Json q) \<longrightarrow>
        (\<exists>p. kget (db_requests d) i = Some (Json p)) \<or> kget (db_deletions d) (rq_AccountID q) = None)"

definition steady :: "db \<Rightarrow> db \<Rightarrow> bool" where
  "steady d d' \<longleftrightarrow> shielded d d' \<and> claimsKept d d'"

lemma sameClaim_refl [simp]: "sameClaim n n"
  by (simp add: sameClaim_def)

lemma claimsKept_trans: "claimsKept d e \<Longrightarrow> claimsKept e f \<Longrightarrow> claimsKept d f"
  unfolding claimsKept_def sameClaim_def by metis

lemma claimsKept_refl: "db_notifications d' = db_notifications d \<Longrightarrow> claimsKept d d'"
  by (auto simp: claimsKept_def)

lemma shieldedI:
  assumes "keepsRequests d d'" "\<And>a. kget (db_deletions d) a \<noteq> None \<Longrightarrow> kget (db_deletions d') a \<noteq> None"
    and "\<And>i q. kget (db_requests d') i = Some (Json q) \<Longrightarrow>
      (\<exists>p. kget (db_requests d) i = Some (Json p)) \<or> kget (db_deletions d) (rq_AccountID q) = None"
  shows "shielded d d'"
  using assms unfolding shielded_def by blast

lemma shieldedD:
  assumes "shielded d d'"
  shows "keepsRequests d d'" "kget (db_deletions d) a \<noteq> None \<Longrightarrow> kget (db_deletions d') a \<noteq> None"
    "kget (db_requests d') i = Some (Json q) \<Longrightarrow>
      (\<exists>p. kget (db_requests d) i = Some (Json p)) \<or> kget (db_deletions d) (rq_AccountID q) = None"
  using assms unfolding shielded_def by (blast, metis, metis)

lemma shielded_refl: "db_requests d' = db_requests d \<Longrightarrow> db_deletions d' = db_deletions d \<Longrightarrow> shielded d d'"
  by (auto simp: shielded_def intro: keeps_refl)

lemma shielded_trans:
  assumes "shielded d e" "shielded e f" shows "shielded d f"
proof (rule shieldedI)
  note E = shieldedD [OF assms(1)] and F = shieldedD [OF assms(2)]
  show "keepsRequests d f" using E(1) F(1) by (rule keeps_trans)
  show "kget (db_deletions f) a \<noteq> None" if "kget (db_deletions d) a \<noteq> None" for a using E(2) F(2) that by blast
  show "(\<exists>p. kget (db_requests d) i = Some (Json p)) \<or> kget (db_deletions d) (rq_AccountID q) = None"
    if q: "kget (db_requests f) i = Some (Json q)" for i q
    using F(3) [OF q]
  proof
    assume "\<exists>p. kget (db_requests e) i = Some (Json p)"
    then obtain p where p: "kget (db_requests e) i = Some (Json p)" by blast
    then have "rq_AccountID q = rq_AccountID p"
      using F(1) q by (fastforce simp: keepsRequests_def laterRequest_def sameRequest_def)
    then show ?thesis using E(3) [OF p] by simp
  qed (use E(2) in blast)
qed

lemma steady_refl [simp]: "steady d d"
  by (simp add: steady_def shielded_refl claimsKept_refl)

lemma steady_trans: "steady d e \<Longrightarrow> steady e f \<Longrightarrow> steady d f"
  unfolding steady_def using shielded_trans claimsKept_trans by blast

text \<open>A change of tables that hold neither requests nor deletions nor notifications.\<close>

lemma steady_frame:
  "db_requests d' = db_requests d \<Longrightarrow> db_deletions d' = db_deletions d \<Longrightarrow> db_notifications d' = db_notifications d \<Longrightarrow>
   steady d d'"
  by (simp add: steady_def shielded_refl claimsKept_refl)

lemma steady_deleteLease: "steady d (deleteLease a d)" and steady_putLease: "steady d (putLease a l d)"
  by (rule steady_frame; simp add: deleteLease_def putLease_def)+

lemma steady_putRequest:
  assumes "kget (db_requests d) (rq_RequestID q') = Some (Json q)" "laterRequest q q'"
  shows "steady d (putRequest q' d)"
proof -
  have "shielded d (putRequest q' d)"
    using keeps_put [OF assms] assms(1) by (intro shieldedI) (auto simp: putRequest_def split: if_splits)
  then show ?thesis by (simp add: steady_def claimsKept_refl putRequest_def)
qed

lemma steady_putNotification:
  assumes "kget (db_notifications d) (nt_EventID n) = None \<or>
     (\<exists>m. kget (db_notifications d) (nt_EventID n) = Some (Json m) \<and> sameClaim m n)"
  shows "steady d (putNotification n d)"
  using assms by (auto simp: steady_def shielded_refl claimsKept_def putNotification_def)

lemma steady_deletion: "steady d (d\<lparr>db_deletions := kput a y (db_deletions d)\<rparr>)"
  by (auto simp: steady_def shielded_def keeps_refl claimsKept_def)

lemma applyEventTx_steady:
  assumes "store_inv d" "applyEventTx e d = Inr (r, d')"
  shows "steady d d'"
proof (cases "tr_Idempotent r")
  case True
  then show ?thesis using applyEventTx_replay [OF assms(2)] by simp
next
  case False
  obtain s q where n: "newEvent e s r q d"
    and w: "enqueueNotificationTx e (requestAfter e r q) (eventWrites e s r (requestAfter e r q) d) = Inr d'"
    using applyEventTx_new [OF assms(2) False] by metis
  let ?d = "eventWrites e s r (requestAfter e r q) d"
  have "steady d (putRequest (requestAfter e r q) d)"
    by (rule steady_putRequest [of _ _ q]) (use newEvent_facts [OF assms(1) n] in \<open>auto simp: laterRequest_def sameRequest_def\<close>)
  moreover have "steady (putRequest (requestAfter e r q) d) ?d"
    by (rule steady_frame) (simp_all add: eventWrites_def putRequest_def)
  moreover have "nt_EventID (newNotification e p) = ev_EventID e" for p by (simp add: newNotification_def)
  then have "steady ?d d'" using w steady_putNotification [of ?d] by (auto simp: enqueueNotificationTx_iff)
  ultimately show ?thesis using steady_trans by blast
qed

lemma update_steady:
  assumes "update c fn d = (r, d')" "\<And>x d'. fn d = Inr (x, d') \<Longrightarrow> steady d d'"
  shows "steady d d'"
  using update_cases [OF assms(1)] assms(2) steady_refl by blast

lemma claimTx_steady:
  assumes "store_inv d" "claimTx c m d = Inr (cl, d')"
  shows "steady d d'"
  using assms(2)
proof (cases rule: claimTx_cases)
  case (2 n queued)
  obtain q s l where "claimCandidate c q s l d = Inr (cl, d')" using claimLoop_success [OF 2(5)] by metis
  with assms(1) 2(1) show ?thesis
  proof (rule claimCandidate_effect)
    fix d1 x
    assume a: "applyEventTx (claimEvent c q s) d = Inr (cl_Transition cl, d1)"
      "kget (db_requests d1) (rq_RequestID q) = Some (Json (requestAfter (claimEvent c q s) (cl_Transition cl) x))"
      "cl_Request cl = x\<lparr>rq_State := Starting, rq_UpdatedAt := ca_now c, rq_NotBefore := 0, rq_Attempt := rq_Attempt x + 1\<rparr>"
      "rq_RequestID x = rq_RequestID q" "d' = putLease (rq_AccountID q) l (putRequest (cl_Request cl) d1)"
    have "steady d1 (putRequest (cl_Request cl) d1)"
      by (rule steady_putRequest) (use a in \<open>auto simp: laterRequest_def sameRequest_def\<close>)
    then show ?thesis using a(5) applyEventTx_steady [OF assms(1) a(1)] steady_putLease steady_trans by metis
  qed
qed simp

lemma setNotificationFailureTx_steady:
  "setNotificationFailureTx i c d = Inr d' \<Longrightarrow> store_inv d \<Longrightarrow> steady d d'"
  using store_invD(9) [of d]
  by (fastforce simp: setNotificationFailureTx_def Let_def inv_notifications_def sameClaim_def
      split: option.splits intro!: steady_putNotification)

lemma createRequestTx_steady:
  assumes "createRequestTx q d = Inr ((q', k), d')"
  shows "steady d d'"
  using assms
proof (cases rule: createRequestTx_cases)
  case (2 s)
  have "shielded d d'"
    using 2(2,6) by (intro shieldedI keeps_new) (auto simp: 2(9) split: if_splits)
  then show ?thesis by (simp add: steady_def claimsKept_refl 2(9))
qed simp

lemma submitTx_steady:
  assumes "store_inv d" "Request_Validate q = Inr ()" "submitTx q e d = Inr ((q', k), d')"
  shows "steady d d'"
proof -
  obtain x kn d1 where s: "submitRequestTx q d = Inr ((x, kn), d1)" and r: "d' = d1 \<or> (\<exists>t. applyEventTx e d1 = Inr (t, d'))"
    using assms(3) by (auto simp: submitTx_def split: prod.splits if_splits)
  have "store_inv d1" by (rule submitRequestTx_inv [OF assms(1,2) s])
  moreover have "steady d d1"
    using s createRequestTx_steady by (auto simp: submitRequestTx_def split: option.splits)
  ultimately show ?thesis using r applyEventTx_steady steady_trans by blast
qed

lemma finishTx_steady:
  assumes "store_inv d" "finishTx e l ax rx d = Inr (y, d')" shows "steady d d'"
proof -
  obtain t d1 where t: "applyEventTx e d = Inr (t, d1)" "d' = d1 \<or> d' = deleteLease (ev_AccountID e) d1"
    using assms(2) by (auto simp: finishTx_def split: if_splits)
  then show ?thesis using applyEventTx_steady [OF assms(1) t(1)] steady_deleteLease steady_trans by blast
qed

lemma failureTx_steady:
  assumes inv: "store_inv d" and at: "re \<noteq> None \<Longrightarrow> at \<noteq> 0" and ok: "failureTx e c at re x ax d = Inr (fr, d')"
  shows "steady d d'"
proof (cases "tr_Idempotent (fr_Failed fr)")
  case True
  obtain f d1 where f: "applyEventTx e d = Inr (f, d1)" using ok by (auto simp: failureTx_def)
  have "tr_Idempotent f"
    using ok f True by (auto simp: failureTx_def Let_def split: prod.splits option.splits if_splits)
  then have r: "replayFailureTx e f re d = Inr (fr, d')" using ok f applyEventTx_replay [OF f] by (simp add: failureTx_def)
  then have "d' = d \<or> (\<exists>re' t. applyEventTx re' d = Inr (t, d'))"
    by (auto simp: replayFailureTx_def split: option.splits if_splits prod.splits)
  then show ?thesis using applyEventTx_steady [OF inv] steady_refl by blast
next
  case False
  from ok this show ?thesis
  proof (rule failureTx_new)
    fix d1 d3
    assume a: "applyEventTx e d = Inr (fr_Failed fr, d1)"
      and c: "case re of
       None \<Rightarrow> fr_Retried fr = None \<and> d3 = deleteLease (ev_AccountID e) d1 \<and>
         (\<exists>q. requestFromTx d3 (ev_RequestID e) = Inr q \<and>
            fr_Request fr = q\<lparr>rq_LastFailure := c, rq_UpdatedAt := ev_OccurredAt e\<rparr>)
     | Some r \<Rightarrow> (\<exists>t. fr_Retried fr = Some t \<and>
         requeueTx e c at (fr_Failed fr) r (deleteLease (ev_AccountID e) d1) = Inr ((t, fr_Request fr), d3))"
      and v: "Request_Validate (fr_Request fr) = Inr ()"
      and n: "setNotificationFailureTx (ev_EventID e) c (putRequest (fr_Request fr) d3) = Inr d'"
    let ?d2 = "deleteLease (ev_AccountID e) d1"
    have i2: "store_inv ?d2" using a inv by (auto intro: inv_intros)
    have "steady d d1" by (rule applyEventTx_steady [OF inv a])
    then have k2: "steady d ?d2" using steady_deleteLease steady_trans by blast
    have "\<exists>q. store_inv d3 \<and> steady ?d2 d3 \<and> requestFromTx d3 (ev_RequestID e) = Inr q \<and> laterRequest q (fr_Request fr) \<and>
        rq_State (fr_Request fr) = rq_State q \<and>
        (rq_NotBefore (fr_Request fr) = rq_NotBefore q \<or> rq_NotBefore (fr_Request fr) \<noteq> 0)"
    proof (cases re)
      case None
      then show ?thesis using c i2 by (fastforce simp: laterRequest_def sameRequest_def)
    next
      case (Some r)
      with c obtain t where t: "requeueTx e c at (fr_Failed fr) r ?d2 = Inr ((t, fr_Request fr), d3)" by auto
      then show ?thesis
        using requeueTx_facts(7) [OF t] applyEventTx_steady [OF i2 requeueTx_facts(1) [OF t]] at Some
          applyEventTx_inv [OF i2 requeueTx_facts(1) [OF t]] by (fastforce simp: laterRequest_def sameRequest_def)
    qed
    then obtain q where q: "store_inv d3" "steady ?d2 d3" "requestFromTx d3 (ev_RequestID e) = Inr q"
      "laterRequest q (fr_Request fr)" "rq_State (fr_Request fr) = rq_State q"
      "rq_NotBefore (fr_Request fr) = rq_NotBefore q \<or> rq_NotBefore (fr_Request fr) \<noteq> 0" by blast
    have r: "kget (db_requests d3) (rq_RequestID (fr_Request fr)) = Some (Json q)"
      using q(1,3,4) requestFromTx_ok [OF store_invD(4) [OF q(1)] q(3)]
      by (auto simp: requestFromTx_inv [OF store_invD(4) [OF q(1)]] laterRequest_def sameRequest_def requestOk_def)
    have "steady d3 (putRequest (fr_Request fr) d3)" by (rule steady_putRequest [OF r q(4)])
    moreover have "store_inv (putRequest (fr_Request fr) d3)"
      by (rule rescheduled_inv [OF q(1,3) _ q(5) v q(6)]) (use q(4) in \<open>simp add: laterRequest_def\<close>)
    then have "steady (putRequest (fr_Request fr) d3) d'" by (rule setNotificationFailureTx_steady [OF n])
    ultimately show ?thesis using k2 q(2) steady_trans by blast
  qed
qed

lemma lease_ops_steady:
  "Store_AcquireLease c a now i w ttl d = (r1, d') \<Longrightarrow> steady d d'"
  "Store_HeartbeatLease c a now i w ttl d = (r2, d') \<Longrightarrow> steady d d'"
  "Store_ReleaseLease c a i w d = (r3, d') \<Longrightarrow> steady d d'"
proof -
  show "Store_AcquireLease c a now i w ttl d = (r1, d') \<Longrightarrow> steady d d'"
    unfolding Store_AcquireLease_def by (erule update_steady) (auto intro: steady_putLease)
  show "Store_HeartbeatLease c a now i w ttl d = (r2, d') \<Longrightarrow> steady d d'"
    unfolding Store_HeartbeatLease_def by (erule update_steady) (auto intro: steady_putLease split: option.splits)
  show "Store_ReleaseLease c a i w d = (r3, d') \<Longrightarrow> steady d d'"
    unfolding Store_ReleaseLease_def by (erule update_steady) (auto intro: steady_deleteLease split: option.splits)
qed

lemma deletion_ops_steady:
  "RequestDeletion c x d = (r1, d') \<Longrightarrow> steady d d'" "AdvanceDeletion c ev d = (r2, d') \<Longrightarrow> steady d d'"
proof -
  have put: "steady d e" if "putDeletion y d = Inr e" for y e
    using that by (auto simp: putDeletion_def intro: steady_deletion)
  have q: "steady d e" if "requestDeletionTx i d = Inr (y, e)" for i y e
    using that by (auto simp: requestDeletionTx_def split: option.splits if_splits dest: put)
  show "RequestDeletion c x d = (r1, d') \<Longrightarrow> steady d d'"
    unfolding RequestDeletion_def Let_def by (auto split: if_splits elim!: update_steady intro: q)
  have v: "steady d e" if "advanceDeletionTx ev d = Inr (y, e)" for y e
    using that by (auto simp: advanceDeletionTx_def split: option.splits if_splits dest: put)
  show "AdvanceDeletion c ev d = (r2, d') \<Longrightarrow> steady d d'"
    unfolding AdvanceDeletion_def by (auto split: sum.splits elim!: update_steady intro: v)
qed

lemma CreateAccount_steady: "CreateAccount c a d = (r, d') \<Longrightarrow> steady d d'"
  by (auto simp: CreateAccount_def update_def putAccountProjection_def split: sum.splits option.splits if_splits
      intro!: steady_frame)

text \<open>The steps without the outbox operations of the delivery workers.\<close>

inductive workStep :: "db \<Rightarrow> db \<Rightarrow> bool" where
  w_create_account: "CreateAccount c a d = (r, d') \<Longrightarrow> workStep d d'"
| w_apply_event: "ApplyEvent c e d = (r, d') \<Longrightarrow> workStep d d'"
| w_create_request: "CreateRequest c q d = (r, d') \<Longrightarrow> workStep d d'"
| w_submit_request: "SubmitRequest c q e d = (r, d') \<Longrightarrow> workStep d d'"
| w_claim_next: "0 < ca_now x \<Longrightarrow> ClaimNext c x m d = (r, d') \<Longrightarrow> workStep d d'"
| w_cancel: "cancelRequest c e l ax d = (r, d') \<Longrightarrow> workStep d d'"
| w_complete: "completeRequest c e l ax d = (r, d') \<Longrightarrow> workStep d d'"
| w_failure: "recordFailure c e cl at re l ax d = (r, d') \<Longrightarrow> workStep d d'"
| w_acquire_lease: "0 < now \<Longrightarrow> Store_AcquireLease c a now i w ttl d = (r, d') \<Longrightarrow> workStep d d'"
| w_heartbeat_lease: "0 < now \<Longrightarrow> Store_HeartbeatLease c a now i w ttl d = (r, d') \<Longrightarrow> workStep d d'"
| w_release_lease: "Store_ReleaseLease c a i w d = (r, d') \<Longrightarrow> workStep d d'"
| w_request_deletion: "RequestDeletion c x d = (r, d') \<Longrightarrow> workStep d d'"
| w_advance_deletion: "AdvanceDeletion c ev d = (r, d') \<Longrightarrow> workStep d d'"
| w_reopen: "rebuildQueueIndex c d = (r, d') \<Longrightarrow> workStep d d'"

lemma workStep_storeStep: "workStep d d' \<Longrightarrow> storeStep d d'"
  by (induction rule: workStep.induct) (auto intro: storeStep.intros)

lemma storeStep_split:
  assumes "storeStep d d'"
  shows "workStep d d' \<or> (\<exists>c now w ttl n r. 0 < now \<and> ClaimNotifications c now w ttl n d = (r, d')) \<or>
    (\<exists>c i w at r. CompleteNotification c i w at d = (r, d')) \<or> (\<exists>c i w now at r. RetryNotification c i w now at d = (r, d'))"
  using assms by cases (blast intro: workStep.intros)+

lemma workStep_steady:
  assumes "workStep d d'" and inv: "store_inv d"
  shows "steady d d'"
  using assms(1)
proof cases
  case (w_create_account c a r)
  then show ?thesis by (rule CreateAccount_steady)
next
  case (w_apply_event c e r)
  then show ?thesis unfolding ApplyEvent_def by (rule update_steady) (rule applyEventTx_steady [OF inv])
next
  case (w_create_request c q r)
  then show ?thesis unfolding CreateRequest_def
    by (cases "Request_Validate q") (auto intro: createRequestTx_steady elim!: update_steady)
next
  case (w_submit_request c q e r)
  from SubmitRequest_update [OF this] show ?thesis
    using update_steady [of c "submitTx q e" d r d'] submitTx_steady [OF inv] by auto
next
  case (w_claim_next x c m r)
  from ClaimNext_update [OF this(2)] show ?thesis
    using update_steady [of c "claimTx x m" d r d'] claimTx_steady [OF inv] by auto
next
  case (w_cancel c e l ax r)
  then show ?thesis unfolding cancelRequest_def
    by (auto split: if_splits intro: finishTx_steady [OF inv] elim!: update_steady)
next
  case (w_complete c e l ax r)
  then show ?thesis unfolding completeRequest_def
    by (auto split: if_splits intro: finishTx_steady [OF inv] elim!: update_steady)
next
  case (w_failure c e cl at re l ax r)
  then consider "d' = d" | "re \<noteq> None \<longrightarrow> at \<noteq> 0" "update c (failureTx e cl at re l ax) d = (r, d')"
    unfolding recordFailure_def by (auto split: if_splits option.splits)
  then show ?thesis
  proof cases
    case 2
    then show ?thesis by (elim update_steady) (auto intro: failureTx_steady [OF inv])
  qed simp
next
  case (w_reopen c r)
  then show ?thesis using rebuildQueueIndex_inv [OF inv] steady_refl by blast
qed (auto dest: lease_ops_steady deletion_ops_steady)

lemma outbox_ops_shielded:
  "ClaimNotifications c now w ttl n d = (r1, d') \<Longrightarrow> shielded d d'"
  "updateNotification c i w now f d = (r2, d') \<Longrightarrow> shielded d d'"
proof -
  have each: "claimEach now w ttl ns d = Inr (y, z) \<Longrightarrow> db_requests z = db_requests d \<and> db_deletions z = db_deletions d" for ns d y z
    by (induction ns arbitrary: d y) (auto simp: Let_def putNotification_def split: if_splits prod.splits)
  have "claimNotificationsTx now w ttl n d = Inr (y, z) \<Longrightarrow> db_requests z = db_requests d \<and> db_deletions z = db_deletions d" for y z
    by (auto simp: claimNotificationsTx_def dest: each)
  then show "ClaimNotifications c now w ttl n d = (r1, d') \<Longrightarrow> shielded d d'"
    unfolding ClaimNotifications_def by (auto split: if_splits dest!: update_cases intro: shielded_refl)
  show "updateNotification c i w now f d = (r2, d') \<Longrightarrow> shielded d d'"
    unfolding updateNotification_def
    by (erule update_invariant [where P = "shielded d"]) (auto intro: shielded_refl simp: putNotification_def split: option.splits if_splits)
qed

lemma storeStep_shielded:
  assumes "storeStep d d'" "store_inv d" shows "shielded d d'"
  using storeStep_split [OF assms(1)] workStep_steady [OF _ assms(2)] outbox_ops_shielded shielded_refl [of d d]
  by (auto simp: steady_def CompleteNotification_def RetryNotification_def split: if_splits)

lemma storeRun_shielded: "storeRun d d' \<Longrightarrow> store_inv d \<Longrightarrow> shielded d d'"
proof (induction rule: storeRun.induct)
  case (step d e f)
  then show ?case using storeStep_shielded storeRun_inv shielded_trans by blast
qed (simp add: shielded_refl)

section \<open>How long a claim of the outbox holds\<close>

text \<open>
  Runs in which the worker \<open>w\<close> does not give back the notifications \<open>I\<close> it has claimed until the
  time \<open>t\<close>, and no claim comes after that time: everything else may happen, deliveries by \<open>w\<close> and
  attempts of other workers included.
\<close>

inductive outboxRun :: "string set \<Rightarrow> string \<Rightarrow> gotime \<Rightarrow> db \<Rightarrow> db \<Rightarrow> bool" for I w t where
  o_none: "outboxRun I w t d d"
| o_work: "outboxRun I w t d e \<Longrightarrow> workStep e f \<Longrightarrow> outboxRun I w t d f"
| o_claim: "outboxRun I w t d e \<Longrightarrow> 0 < now \<Longrightarrow> now < t \<Longrightarrow> ClaimNotifications c now x ttl n e = (r, f) \<Longrightarrow>
    outboxRun I w t d f"
| o_deliver: "outboxRun I w t d e \<Longrightarrow> CompleteNotification c i x at e = (r, f) \<Longrightarrow> outboxRun I w t d f"
| o_retry: "outboxRun I w t d e \<Longrightarrow> i \<notin> I \<or> x \<noteq> w \<Longrightarrow> RetryNotification c i x now at e = (r, f) \<Longrightarrow> outboxRun I w t d f"

lemma outboxRun_storeRun: "outboxRun I w t d d' \<Longrightarrow> storeRun d d'"
proof (induction rule: outboxRun.induct)
  case o_none
  show ?case by (rule storeRun.start)
qed (blast intro: storeRun.step storeStep.intros workStep_storeStep)+

text \<open>A claimed notification is delivered, or still under its claim.\<close>

definition claimHolds :: "string \<Rightarrow> gotime \<Rightarrow> db \<Rightarrow> string \<Rightarrow> bool" where
  "claimHolds w t d i \<longleftrightarrow> (\<exists>n. kget (db_notifications d) i = Some (Json n) \<and>
     (nt_DeliveredAt n \<noteq> 0 \<or> nt_ClaimedBy n = w \<and> nt_ClaimExpiresAt n = t))"

lemma claimHolds_kept: "claimHolds w t d i \<Longrightarrow> claimsKept d d' \<Longrightarrow> claimHolds w t d' i"
  unfolding claimHolds_def claimsKept_def sameClaim_def by metis

lemma claimHolds_unclaimable:
  assumes "claimHolds w t d i" "inv_notifications d" "now < t" "w \<noteq> []"
  shows "i \<notin> nt_EventID ` set (claimBatch now n d)"
proof
  assume "i \<in> nt_EventID ` set (claimBatch now n d)"
  then obtain m where m: "m \<in> set (claimBatch now n d)" "nt_EventID m = i" by blast
  then have "m \<in> set (outbox d)" "claimable now m" using claimBatch_claimable by blast+
  moreover from this(1) obtain j where j: "kget (db_notifications d) j = Some (Json m)" unfolding set_outbox by blast
  moreover have "j = i" using j assms(2) m(2) by (auto simp: inv_notifications_def)
  ultimately show False using assms(1,3,4) by (auto simp: claimHolds_def claimable_def)
qed

lemma claimHolds_claim:
  assumes "claimHolds w t d i" "store_inv d" "0 < now" "now < t" "w \<noteq> []" "ClaimNotifications c now x ttl n d = (r, d')"
  shows "claimHolds w t d' i" "r = Inr ns \<Longrightarrow> i \<notin> nt_EventID ` set ns"
proof -
  have free: "i \<notin> nt_EventID ` set ns \<and> claimHolds w t d' i" if "r = Inr ns" for ns
  proof -
    note E = ClaimNotifications_effect [OF assms(2,3) assms(6) [unfolded that]]
    have "i \<notin> nt_EventID ` set ns"
      using claimHolds_unclaimable [OF assms(1) store_invD(9) [OF assms(2)] assms(4,5), of n] by (simp add: E(1) image_image)
    then show ?thesis using E(3) assms(1) by (simp add: claimHolds_def)
  qed
  then show "r = Inr ns \<Longrightarrow> i \<notin> nt_EventID ` set ns" by blast
  show "claimHolds w t d' i"
  proof (cases r)
    case (Inl e)
    then have "d' = d" using assms(6) update_Inl by (auto simp: ClaimNotifications_def split: if_splits)
    then show ?thesis using assms(1) by simp
  qed (use free in blast)
qed

lemma updateNotification_holds:
  assumes "updateNotification c j x now f d = (r, d')" "claimHolds w t d i" "inv_notifications d"
    and "\<And>n m. f n = Inr m \<Longrightarrow> nt_EventID m = nt_EventID n"
    and "\<And>n m. i = j \<Longrightarrow> x = w \<Longrightarrow> f n = Inr m \<Longrightarrow> nt_DeliveredAt m \<noteq> 0"
  shows "claimHolds w t d' i"
proof -
  obtain n where n: "kget (db_notifications d) i = Some (Json n)"
    "nt_DeliveredAt n \<noteq> 0 \<or> nt_ClaimedBy n = w \<and> nt_ClaimExpiresAt n = t" using assms(2) by (auto simp: claimHolds_def)
  have ids: "kget (db_notifications d) k = Some (Json m) \<Longrightarrow> nt_EventID m = k" for k m
    using assms(3) by (auto simp: inv_notifications_def)
  show ?thesis
    using assms(1) unfolding updateNotification_def
  proof (rule update_invariant [where P = "\<lambda>d'. claimHolds w t d' i"])
    show "claimHolds w t d i" by (rule assms(2))
  next
    fix y e
    assume u: "(case kget (db_notifications d) j of
         None \<Rightarrow> Inl (NotificationErr ErrNotificationNotFound)
       | Some raw \<Rightarrow>
           bindE (decode raw) (\<lambda>notification.
           bindE (corrupt (Notification_Validate notification)) (\<lambda>_.
           if \<not> IsZero (nt_DeliveredAt notification) then Inr ((), d)
           else if nt_ClaimedBy notification \<noteq> x then Inl (NotificationErr ErrNotificationLease)
           else if \<not> Before now (nt_ClaimExpiresAt notification)
           then Inl (NotificationErr ErrNotificationExpired)
           else
             bindE (f notification) (\<lambda>notification.
             bindE (corrupt (Notification_Validate notification)) (\<lambda>_.
             Inr ((), putNotification notification d)))))) = Inr (y, e)"
    then obtain k where k: "kget (db_notifications d) j = Some (Json k)"
      and e: "e = d \<or> (\<exists>m. nt_DeliveredAt k = 0 \<and> nt_ClaimedBy k = x \<and> f k = Inr m \<and> e = putNotification m d)"
      by (auto split: option.splits if_splits)
    from e show "claimHolds w t e i"
    proof
      assume "\<exists>m. nt_DeliveredAt k = 0 \<and> nt_ClaimedBy k = x \<and> f k = Inr m \<and> e = putNotification m d"
      then obtain m where m: "nt_DeliveredAt k = 0" "nt_ClaimedBy k = x" "f k = Inr m" "e = putNotification m d" by blast
      have "nt_EventID m = j" using assms(4) [OF m(3)] ids [OF k] by simp
      moreover have "nt_DeliveredAt m \<noteq> 0" if "i = j"
        using assms(5) [OF that _ m(3)] n k m(1,2) that by auto
      ultimately show ?thesis using n by (auto simp: m(4) claimHolds_def putNotification_def)
    qed (use assms(2) in simp)
  qed
qed

lemma outboxRun_holds:
  assumes "outboxRun I w t d d'" "store_inv d" "\<forall>i \<in> I. claimHolds w t d i" "w \<noteq> []"
  shows "store_inv d' \<and> (\<forall>i \<in> I. claimHolds w t d' i)"
  using assms
proof (induction rule: outboxRun.induct)
  case (o_work d e f)
  then have "store_inv e" "\<forall>i \<in> I. claimHolds w t e i" by simp_all
  then show ?case
    using o_work.hyps(2) workStep_steady workStep_storeStep storeStep_inv claimHolds_kept unfolding steady_def by metis
next
  case (o_claim d e now c x ttl n r f)
  then have e: "store_inv e" "\<forall>i \<in> I. claimHolds w t e i" by simp_all
  have "store_inv f" using storeStep_inv [OF storeStep.claim_notifications [OF o_claim.hyps(2,4)] e(1)] .
  then show ?case using claimHolds_claim(1) [OF _ e(1) o_claim.hyps(2,3) o_claim.prems(3) o_claim.hyps(4)] e(2) by blast
next
  case (o_deliver d e c i x at r f)
  then have e: "store_inv e" "\<forall>i \<in> I. claimHolds w t e i" by simp_all
  have "store_inv f" by (rule storeStep_inv [OF storeStep.complete_notification [OF o_deliver.hyps(2)] e(1)])
  moreover have "claimHolds w t f j" if "j \<in> I" for j
    using o_deliver.hyps(2) e(2) that store_invD(9) [OF e(1)]
    by (auto simp: CompleteNotification_def split: if_splits elim!: updateNotification_holds)
  ultimately show ?case by blast
next
  case (o_retry d e i x c now at r f)
  then have e: "store_inv e" "\<forall>i \<in> I. claimHolds w t e i" by simp_all
  have "store_inv f" by (rule storeStep_inv [OF storeStep.retry_notification [OF o_retry.hyps(3)] e(1)])
  moreover have "claimHolds w t f j" if "j \<in> I" for j
    using o_retry.hyps(2,3) e(2) that store_invD(9) [OF e(1)]
    by (auto simp: RetryNotification_def split: if_splits elim!: updateNotification_holds)
  ultimately show ?case by blast
qed simp

end
