(* ===== verification/StoreDemo.thy ===== *)
theory StoreDemo
  imports StoreRuns
begin

text \<open>
  A concrete run of the store, used to instantiate its properties: an account is created, a
  request is submitted for it and then claimed by a worker.
\<close>

definition okCommit :: commit where
  "okCommit = (\<lambda>_. None)"

definition demoRequest :: Request where
  "demoRequest = \<lparr>rq_RequestID = ''req-1'', rq_AccountID = ''acct-1'', rq_IdempotencyKey = ''key-1'',
     rq_NotificationRoomID = ''!room'', rq_State = NoRequest, rq_CreatedAt = 5, rq_UpdatedAt = 5,
     rq_Attempt = 0, rq_NotBefore = 5, rq_Deadline = 0, rq_LastFailure = NoFailure\<rparr>"

definition demoResult :: TransitionResult where
  "demoResult = \<lparr>tr_State = demoQueued, tr_Audit = demoAudit, tr_Idempotent = False\<rparr>"

definition demoQueuedRequest :: Request where
  "demoQueuedRequest = demoRequest\<lparr>rq_State := Queued\<rparr>"

definition demoDB1 :: db where
  "demoDB1 = putAccountProjection demoSnapshot emptyDB"

definition demoDB1r :: db where
  "demoDB1r = demoDB1\<lparr>db_requests := kput ''req-1'' (Json demoRequest) kempty,
     db_idempotency := kput ''key-1'' ''req-1'' kempty\<rparr>"

definition demoDB2 :: db where
  "demoDB2 = putNotification (newNotification demoQueue demoQueuedRequest)
     (eventWrites demoQueue demoSnapshot demoResult demoQueuedRequest demoDB1r)"

lemma safe_plain [go_simps]:
  assumes "list_all plainChar (c # cs)" "length cs < 512"
  shows "safeNotificationToken (c # cs)" "safeNotificationRoom (c # cs)"
proof -
  have "plainChar c" "plainChar (last (c # cs))"
    using assms(1) by (auto simp: list_all_iff)
  then have "TrimSpace (c # cs) = c # cs" by (rule TrimSpace_plain_Cons)
  moreover have "\<not> containsSeq (spaceSeqs @ controlSeqs) (c # cs)" by (rule containsSeq_plain [OF assms(1)])
  ultimately show "safeNotificationToken (c # cs)" "safeNotificationRoom (c # cs)"
    using assms(2) unfolding safeNotificationToken_def safeNotificationRoom_def by (simp_all del: containsSeq.simps)
qed

lemma demoRequest_valid: "Request_Validate demoRequest = Inr ()" "Request_Validate demoQueuedRequest = Inr ()"
  by (simp_all add: Request_Validate_iff demoRequest_def demoQueuedRequest_def go_simps)

lemma demo_create: "CreateAccount okCommit ''acct-1'' emptyDB = (Inr demoSnapshot, demoDB1)"
  by (simp add: CreateAccount_def demo_new update_def okCommit_def demoDB1_def) (simp add: emptyDB_def)

lemma demoDB1_inv: "store_inv demoDB1"
  by (rule storeStep_inv [OF storeStep.create_account [OF demo_create] emptyDB_inv])

lemma demoDB1_read: "snapshotFromTx demoDB1 ''acct-1'' = Inr demoSnapshot"
  unfolding demoDB1_def
  by (rule putAccountProjection_new_inv(2) [OF emptyDB_inv _ demo_new]) (simp add: emptyDB_def)

lemma demoDB1_sel:
  "db_requests demoDB1 = kempty" "db_idempotency demoDB1 = kempty" "db_events demoDB1 = kempty"
  "db_audits demoDB1 = kempty" "db_leases demoDB1 = kempty" "db_queue demoDB1 = kempty"
  "db_notifications demoDB1 = kempty" "db_deletions demoDB1 = kempty"
  by (simp_all add: demoDB1_def putAccountProjection_def emptyDB_def)

lemma demo_submit1: "submitRequestTx demoRequest demoDB1 = Inr ((demoRequest, False), demoDB1r)"
  by (simp add: submitRequestTx_def createRequestTx_def demoDB1_sel demoRequest_def refuseDeleted_def
      demoDB1_read putRequest_def demoDB1r_def demoSnapshot_def)

lemma demoDB1r_inv: "store_inv demoDB1r"
  by (rule submitRequestTx_inv [OF demoDB1_inv demoRequest_valid(1) demo_submit1])

lemma demo_ids:
  "ev_AccountID demoQueue = ''acct-1''" "ev_RequestID demoQueue = ''req-1''" "ev_EventID demoQueue = ''ev-1''"
  "ev_To demoQueue = Queued" "sn_Status demoSnapshot = NoRequest" "sn_Status demoQueued = Queued"
  "sn_AccountID demoQueued = ''acct-1''" "sn_RequestID demoQueued = ''req-1''" "ar_Event demoAudit = demoQueue"
  "ev_OccurredAt demoQueue = 5" "ar_Revision demoAudit = 1"
  by (simp_all add: demoQueue_def demoSnapshot_def demoQueued_def demoAudit_def)

lemma demo_after: "requestAfter demoQueue demoResult demoRequest = demoQueuedRequest"
  by (simp add: requestAfter_def demoResult_def demo_ids demoQueuedRequest_def demoRequest_def)

lemma demo_notification: "Notification_Validate (newNotification demoQueue demoQueuedRequest) = Inr ()"
  by (simp add: Notification_Validate_iff newNotification_def demoQueuedRequest_def demoRequest_def demo_ids go_simps)

lemma demo_newEvent: "newEvent demoQueue demoSnapshot demoResult demoRequest demoDB1r"
proof -
  have "snapshotFromTx demoDB1r ''acct-1'' = Inr demoSnapshot"
    by (simp add: demoDB1r_def demoDB1_read)
  moreover have "requestFromTx demoDB1r ''req-1'' = Inr demoRequest"
    by (simp add: requestFromTx_inv [OF store_invD(4) [OF demoDB1r_inv]]) (simp add: demoDB1r_def)
  ultimately show ?thesis
    using demo_apply demoRequest_valid
    by (simp add: newEvent_def demo_ids demo_after demoResult_def [symmetric])
      (simp add: demoResult_def demoRequest_def auditsOf_def demoDB1r_def demoDB1_sel)
qed

lemma demo_submit_event: "applyEventTx demoQueue demoDB1r = Inr (demoResult, demoDB2)"
  by (rule applyEventTx_newI [OF demo_newEvent])
    (use demo_notification in \<open>simp add: enqueueNotificationTx_iff demo_after demoDB2_def,
      simp add: demoQueuedRequest_def demoRequest_def demoDB1r_def demoDB1_sel\<close>)

lemma demoDB2_inv: "store_inv demoDB2"
  by (rule applyEventTx_inv [OF demoDB1r_inv demo_submit_event])

lemma demoDB2_sel:
  "db_requests demoDB2 = kput ''req-1'' (Json demoQueuedRequest) kempty" "db_leases demoDB2 = kempty"
  "db_events demoDB2 = kput ''ev-1'' (Json demoAudit) kempty" "db_idempotency demoDB2 = kput ''key-1'' ''req-1'' kempty"
  "db_notifications demoDB2 = kput ''ev-1'' (Json (newNotification demoQueue demoQueuedRequest)) kempty"
  "db_deletions demoDB2 = kempty"
  by (simp_all add: demoDB2_def putNotification_def demoDB1r_def demoDB1_sel demoQueuedRequest_def demoRequest_def
      demo_ids demoResult_def newNotification_def)

lemma demoDB2_request: "requestFromTx demoDB2 ''req-1'' = Inr demoQueuedRequest"
  by (simp add: requestFromTx_inv [OF store_invD(4) [OF demoDB2_inv]] demoDB2_sel)

lemma demoDB2_account: "snapshotFromTx demoDB2 ''acct-1'' = Inr demoQueued"
  using applyEventTx_refines(1) [OF demo_submit_event] by (auto simp: demo_ids demoResult_def)

lemma demo_submit: "SubmitRequest okCommit demoRequest demoQueue demoDB1 = (Inr (demoQueuedRequest, False), demoDB2)"
proof -
  have "Event_Validate demoQueue = Inr ()"
    using Apply_new_event(10) [OF demo_apply] by (simp add: Event_Validate_def)
  moreover have "submitTx demoRequest demoQueue demoDB1 = Inr ((demoQueuedRequest, False), demoDB2)"
    using demo_submit1 demo_submit_event demoDB2_request by (simp add: submitTx_def) (simp add: demoRequest_def)
  ultimately show ?thesis
    using demoRequest_valid(1) by (simp add: SubmitRequest_def update_def okCommit_def)
      (simp add: demoRequest_def demoQueue_def)
qed

definition demoClaimArgs :: ClaimArgs where
  "demoClaimArgs = \<lparr>ca_now = 10, ca_leaseID = ''lease-1'', ca_owner = ''worker'', ca_ttl = 1000,
     ca_eventID = ''ev-2'', ca_actor = ''worker'', ca_reason = ''queue claim''\<rparr>"

definition demoLease :: Lease where
  "demoLease = \<lparr>ls_LeaseID = ''lease-1'', ls_Owner = ''worker'', ls_AcquiredAt = 10,
     ls_LastHeartbeat = 10, ls_ExpiresAt = 1010\<rparr>"

definition demoStart :: Event where
  "demoStart = claimEvent demoClaimArgs demoQueuedRequest demoQueued"

definition demoStartAudit :: AuditRecord where
  "demoStartAudit = \<lparr>ar_Event = demoStart, ar_Revision = 2\<rparr>"

definition demoStarting :: Snapshot where
  "demoStarting = demoQueued\<lparr>sn_Status := Starting, sn_Revision := 2,
     sn_AppliedEvents := kput ''ev-2'' demoStartAudit (sn_AppliedEvents demoQueued)\<rparr>"

definition demoStartResult :: TransitionResult where
  "demoStartResult = \<lparr>tr_State = demoStarting, tr_Audit = demoStartAudit, tr_Idempotent = False\<rparr>"

definition demoClaimedRequest :: Request where
  "demoClaimedRequest = demoQueuedRequest\<lparr>rq_State := Starting, rq_UpdatedAt := 10, rq_NotBefore := 0, rq_Attempt := 1\<rparr>"

definition demoClaim :: Claim where
  "demoClaim = \<lparr>cl_Request = demoClaimedRequest, cl_Lease = demoLease, cl_Transition = demoStartResult\<rparr>"

definition demoDB2s :: db where
  "demoDB2s = putNotification (newNotification demoStart (requestAfter demoStart demoStartResult demoQueuedRequest))
     (eventWrites demoStart demoQueued demoStartResult (requestAfter demoStart demoStartResult demoQueuedRequest) demoDB2)"

definition demoDB3 :: db where
  "demoDB3 = putLease ''acct-1'' demoLease (putRequest demoClaimedRequest demoDB2s)"

lemma demo_start_apply: "Apply demoQueued demoStart = Inr demoStartResult"
proof -
  have "Snapshot_Validate demoQueued = Inr ()" using accountReach_valid [OF demo_reach] by simp
  moreover have "validFields demoStart = Inr ()"
    by (simp add: validFields_iff demoStart_def claimEvent_def demoClaimArgs_def demoQueuedRequest_def demoRequest_def go_simps)
  moreover have "kget (sn_AppliedEvents demoQueued) (ev_EventID demoStart) = None"
    by (simp add: demoQueued_def demoStart_def claimEvent_def demoClaimArgs_def)
  moreover have "CanTransition Queued Starting" by (simp add: CanTransition_def)
  ultimately show ?thesis
    by (simp add: Apply_new_iff) (simp add: demoStart_def claimEvent_def demoClaimArgs_def demoQueuedRequest_def demoRequest_def
      demoQueued_def demoStartResult_def demoStarting_def demoStartAudit_def)
qed

lemma demo_start_ids:
  "ev_AccountID demoStart = ''acct-1''" "ev_RequestID demoStart = ''req-1''" "ev_EventID demoStart = ''ev-2''"
  "ev_To demoStart = Starting" "ev_OccurredAt demoStart = 10"
  by (simp_all add: demoStart_def claimEvent_def demoClaimArgs_def demoQueuedRequest_def demoRequest_def)

lemma demo_start_after: "requestAfter demoStart demoStartResult demoQueuedRequest = demoClaimedRequest\<lparr>rq_Attempt := 0\<rparr>"
  by (simp add: requestAfter_def demoStartResult_def demoStarting_def demo_start_ids demoClaimedRequest_def demoQueuedRequest_def demoRequest_def)

lemma demo_start_valid: "Request_Validate (demoClaimedRequest\<lparr>rq_Attempt := 0\<rparr>) = Inr ()" "Request_Validate demoClaimedRequest = Inr ()"
  by (simp_all add: Request_Validate_iff demoClaimedRequest_def demoQueuedRequest_def demoRequest_def go_simps)

lemma demo_start_newEvent: "newEvent demoStart demoQueued demoStartResult demoQueuedRequest demoDB2"
proof -
  have "auditsOf demoDB2 ''acct-1'' = kput (revisionKey 1) (Json demoAudit) kempty"
    by (simp add: demoDB2_def putNotification_def auditsOf_eventWrites demo_ids demoResult_def)
      (simp add: auditsOf_def demoDB1r_def demoDB1_sel)
  moreover have "revisionKey 2 \<noteq> revisionKey 1" by (simp add: revisionKey_def)
  ultimately show ?thesis
    using demo_start_apply demoDB2_account demoDB2_request demo_start_valid
    by (simp add: newEvent_def demo_start_ids demo_start_after)
      (simp add: demoStartResult_def demoStartAudit_def demoQueuedRequest_def demoRequest_def demo_ids demoDB2_sel)
qed

lemma demo_start_event: "applyEventTx demoStart demoDB2 = Inr (demoStartResult, demoDB2s)"
proof (rule applyEventTx_newI [OF demo_start_newEvent])
  have "Notification_Validate (newNotification demoStart (demoClaimedRequest\<lparr>rq_Attempt := 0\<rparr>)) = Inr ()"
    by (simp add: Notification_Validate_iff newNotification_def demoClaimedRequest_def demoQueuedRequest_def demoRequest_def
      demo_start_ids go_simps)
  then show "enqueueNotificationTx demoStart (requestAfter demoStart demoStartResult demoQueuedRequest)
      (eventWrites demoStart demoQueued demoStartResult (requestAfter demoStart demoStartResult demoQueuedRequest) demoDB2) = Inr demoDB2s"
    by (simp add: enqueueNotificationTx_iff demo_start_after demoDB2s_def demoDB2_sel demo_start_ids)
      (simp add: demoClaimedRequest_def demoQueuedRequest_def demoRequest_def)
qed

lemma demo_queued: "queuedRequestsTx demoDB2 = Inr [demoQueuedRequest]"
  using demoRequest_valid(2)
  by (simp add: queuedRequestsTx_def demoDB2_sel queuedEntry_def Let_def) (simp add: demoQueuedRequest_def demoRequest_def)

lemma demo_candidate: "claimCandidate demoClaimArgs demoQueuedRequest demoQueued demoLease demoDB2 = Inr (demoClaim, demoDB3)"
proof -
  have r: "requestFromTx demoDB2s ''req-1'' = Inr (demoClaimedRequest\<lparr>rq_Attempt := 0\<rparr>)"
  proof -
    have "rq_RequestID demoClaimedRequest = ''req-1''"
      by (simp add: demoClaimedRequest_def demoQueuedRequest_def demoRequest_def)
    then show ?thesis
      using store_invD(4) [OF applyEventTx_inv [OF demoDB2_inv demo_start_event]]
      by (simp add: requestFromTx_inv) (simp add: demoDB2s_def putNotification_def demo_start_after)
  qed
  have "demoClaimedRequest\<lparr>rq_Attempt := 0\<rparr>\<lparr>rq_Attempt := 1, rq_NotBefore := 0, rq_UpdatedAt := 10\<rparr> = demoClaimedRequest"
    by (simp add: demoClaimedRequest_def)
  moreover have "rq_RequestID demoQueuedRequest = ''req-1''" "rq_AccountID demoQueuedRequest = ''acct-1''" "ca_now demoClaimArgs = 10"
    by (simp_all add: demoQueuedRequest_def demoRequest_def demoClaimArgs_def)
  ultimately show ?thesis
    using demo_start_event r demo_start_valid
    by (simp add: claimCandidate_def demoStart_def [symmetric] Let_def demoClaim_def demoDB3_def maxInt64_def)
qed

lemma demo_acquire: "AcquireLease None 10 ''lease-1'' ''worker'' 1000 = Inr demoLease"
  by (simp add: AcquireLease_iff demoLease_def Add_def second_def maxInt64_def go_simps)

lemma demo_claim: "ClaimNext okCommit demoClaimArgs 1 demoDB2 = (Inr demoClaim, demoDB3)"
proof -
  note q = demo_queued and c = demo_candidate and l = demo_acquire
  have "claimLoop demoClaimArgs [demoQueuedRequest] demoDB2 = Inr (demoClaim, demoDB3)"
  proof -
    have "rq_RequestID demoQueuedRequest = ''req-1''" "rq_AccountID demoQueuedRequest = ''acct-1''"
      by (simp_all add: demoQueuedRequest_def demoRequest_def)
    then show ?thesis using c l
      by (simp add: leaseFromTx_def demoDB2_sel demoDB2_account demo_ids) (simp add: demoClaimArgs_def)
  qed
  then have "claimTx demoClaimArgs 1 demoDB2 = Inr (demoClaim, demoDB3)"
    using q by (simp add: claimTx_def existingClaimTx_def demoDB2_sel activeLeaseCountTx_def Let_def)
      (simp add: demoClaimArgs_def dueAt_def demoQueuedRequest_def demoRequest_def)
  then show ?thesis
    by (simp add: ClaimNext_def update_def okCommit_def) (simp add: demoClaimArgs_def go_simps)
qed

lemma demo_run: "storeRun emptyDB demoDB1" "storeRun emptyDB demoDB2" "storeRun emptyDB demoDB3"
proof -
  show 1: "storeRun emptyDB demoDB1"
    by (rule storeRun.step [OF storeRun.start storeStep.create_account [OF demo_create]])
  show 2: "storeRun emptyDB demoDB2"
    by (rule storeRun.step [OF 1 storeStep.submit_request [OF demo_submit]])
  show "storeRun emptyDB demoDB3"
    by (rule storeRun.step [OF 2 storeStep.claim_next [OF _ demo_claim]]) (simp add: demoClaimArgs_def)
qed

lemma demoDB3_inv: "store_inv demoDB3"
  by (rule storeRun_inv [OF demo_run(3) emptyDB_inv])

end
