(* ===== verification/StoreFacts.thy ===== *)
theory StoreFacts
  imports StoreDemo
begin

text \<open>
  The lemmas behind the properties of the store: which request a claim takes and how many leases
  are live, what a finished or failed attempt leaves behind, how a submission is found again, and
  that the store accepts every event its account machine accepts.
\<close>

section \<open>Consistency\<close>

lemma active_request_mirrors:
  assumes "store_inv d" "GetRequest i d = Inr q" "rq_State q \<noteq> NoRequest"
  shows "\<exists>s. GetAccount (rq_AccountID q) d = Inr s \<and> sn_RequestID s = i \<and> sn_Status s = rq_State q"
proof -
  note I = store_invD [OF assms(1)]
  have "kget (db_requests d) i = Some (Json q)"
    using assms(2) by (simp add: GetRequest_def view_def requestFromTx_inv [OF I(4)])
  then obtain p where p: "kget (db_accounts d) (rq_AccountID q) = Some (Json p)"
      "ap_RequestID p = i" "ap_Status p = rq_State q"
    using requests_entry [OF I(4)] assms(3) by (metis json.inject)
  then obtain s where s: "snapshotFromTx d (rq_AccountID q) = Inr s"
    using I(1) unfolding inv_accounts_def by blast
  with p have "projOf s = p" using snapshot_projection by fastforce
  with p s show ?thesis by (auto simp: GetAccount_def view_def)
qed

text \<open>The queued requests as the scan returns them.\<close>

abbreviation queueOrder :: "Request \<Rightarrow> gotime \<times> string" where
  "queueOrder q \<equiv> (rq_CreatedAt q, rq_RequestID q)"

lemma queuedScan:
  assumes "\<forall>p \<in> set ps. \<exists>q. snd p = Json q \<and> requestOk (fst p) q"
  shows "\<exists>qs. foldE queuedEntry ps acc = Inr (acc @ qs) \<and>
     (\<forall>q. q \<in> set qs \<longleftrightarrow> rq_State q = Queued \<and> Json q \<in> snd ` set ps)"
  using assms
proof (induction ps arbitrary: acc)
  case Nil
  then show ?case by simp
next
  case (Cons p ps)
  then obtain q where q: "snd p = Json q" "requestOk (fst p) q" by auto
  have e: "queuedEntry p acc = Inr (if rq_State q = Queued then acc @ [q] else acc)"
    using q by (auto simp: queuedEntry_def requestOk_def Let_def)
  obtain qs where qs: "foldE queuedEntry ps (if rq_State q = Queued then acc @ [q] else acc) =
      Inr ((if rq_State q = Queued then acc @ [q] else acc) @ qs)"
      "\<forall>q. q \<in> set qs \<longleftrightarrow> rq_State q = Queued \<and> Json q \<in> snd ` set ps"
    using Cons.IH Cons.prems by (metis list.set_intros(2))
  show ?case
    by (rule exI [of _ "if rq_State q = Queued then q # qs else qs"]) (use e qs q(1) in auto)
qed

lemma queuedRequestsTx_ok:
  assumes "store_inv d" "queuedRequestsTx d = Inr qs"
  shows "sorted (map queueOrder qs)"
    and "q \<in> set qs \<longleftrightarrow> rq_State q = Queued \<and> kget (db_requests d) (rq_RequestID q) = Some (Json q)"
proof -
  note I = store_invD(4) [OF assms(1)]
  have ok: "\<exists>q. snd p = Json q \<and> requestOk (fst p) q" if "p \<in> set (kentries (db_requests d))" for p
  proof -
    have "kget (db_requests d) (fst p) = Some (snd p)" using that by (simp add: kentries_iff [symmetric])
    then show ?thesis using I unfolding inv_requests_def by blast
  qed
  obtain xs where x: "foldE queuedEntry (kentries (db_requests d)) [] = Inr xs"
      "\<forall>q. q \<in> set xs \<longleftrightarrow> rq_State q = Queued \<and> Json q \<in> snd ` set (kentries (db_requests d))"
    using queuedScan [of "kentries (db_requests d)" "[]"] ok by auto
  have qs: "qs = sort_key queueOrder xs" using assms(2) x(1) by (simp add: queuedRequestsTx_def)
  then show "sorted (map queueOrder qs)" by simp
  have "Json q \<in> snd ` set (kentries (db_requests d)) \<longleftrightarrow> kget (db_requests d) (rq_RequestID q) = Some (Json q)"
  proof
    assume "Json q \<in> snd ` set (kentries (db_requests d))"
    then obtain k where k: "(k, Json q) \<in> set (kentries (db_requests d))" by force
    then have "rq_RequestID q = k" using ok [OF k] by (auto simp: requestOk_def)
    with k show "kget (db_requests d) (rq_RequestID q) = Some (Json q)" by (simp add: kentries_iff)
  qed (force simp: kentries_iff [symmetric])
  then show "q \<in> set qs \<longleftrightarrow> rq_State q = Queued \<and> kget (db_requests d) (rq_RequestID q) = Some (Json q)"
    using qs x(2) by simp
qed

text \<open>The number of live leases, and how a claim changes it.\<close>

definition liveLeases :: "gotime \<Rightarrow> db \<Rightarrow> string set" where
  "liveLeases now d = {a. \<exists>l. kget (db_leases d) a = Some (Json l) \<and> now < ls_ExpiresAt l}"

lemma activeScan:
  assumes "\<forall>p \<in> set ps. \<exists>l. snd p = Json l \<and> Lease_validate l = Inr ()" "distinct (map fst ps)"
  shows "foldE (\<lambda>p count. bindE (decode (snd p)) (\<lambda>lease. bindE (corrupt (Lease_validate lease)) (\<lambda>_.
       Inr (if \<not> Lease_Expired lease now then count + 1 else count)))) ps n =
     Inr (n + card {a. \<exists>l. (a, Json l) \<in> set ps \<and> now < ls_ExpiresAt l})"
  using assms
proof (induction ps arbitrary: n)
  case Nil
  then show ?case by simp
next
  case (Cons p ps)
  then obtain l where l: "snd p = Json l" "Lease_validate l = Inr ()" by auto
  let ?A = "{a. \<exists>l. (a, Json l) \<in> set ps \<and> now < ls_ExpiresAt l}"
  have sub: "?A \<subseteq> fst ` set ps" by force
  then have fin: "finite ?A" by (rule finite_subset) simp
  have "fst p \<notin> ?A" using sub Cons.prems(2) by auto
  note fin = fin this
  have p: "p = (fst p, Json l)" using l(1) by (metis prod.collapse)
  have "{a. \<exists>l. (a, Json l) \<in> set (p # ps) \<and> now < ls_ExpiresAt l} =
      (if now < ls_ExpiresAt l then insert (fst p) ?A else ?A)"
    by (subst p) auto
  with fin Cons l show ?case by (auto simp: not_le)
qed

lemma activeLeaseCountTx_ok:
  assumes "inv_leases d"
  shows "activeLeaseCountTx d now = Inr (card (liveLeases now d))"
proof -
  have "\<forall>p \<in> set (kentries (db_leases d)). \<exists>l. snd p = Json l \<and> Lease_validate l = Inr ()"
  proof
    fix p assume "p \<in> set (kentries (db_leases d))"
    then have "kget (db_leases d) (fst p) = Some (snd p)" by (simp add: kentries_iff [symmetric])
    then show "\<exists>l. snd p = Json l \<and> Lease_validate l = Inr ()" using assms unfolding inv_leases_def by blast
  qed
  from activeScan [OF this, of now 0] show ?thesis
    by (simp add: activeLeaseCountTx_def liveLeases_def kentries_iff)
qed

lemma finite_liveLeases: "finite (liveLeases now d)"
proof (rule finite_subset)
  show "liveLeases now d \<subseteq> fst ` set (kentries (db_leases d))"
    by (force simp: liveLeases_def kentries_iff [symmetric])
qed simp


text \<open>What a fresh claim of the next request does.\<close>

lemma ClaimNext_fresh:
  assumes inv: "store_inv d" and now: "0 < ca_now x" and fresh: "kget (db_events d) (ca_eventID x) = None"
    and ok: "ClaimNext c x m d = (Inr cl, d')"
  obtains q s d1 where "rq_State q = Queued" "kget (db_requests d) (rq_RequestID q) = Some (Json q)" "dueAt (ca_now x) q"
    "rq_AccountID q \<notin> liveLeases (ca_now x) d" "int (card (liveLeases (ca_now x) d)) < m"
    "\<And>p. rq_State p = Queued \<Longrightarrow> kget (db_requests d) (rq_RequestID p) = Some (Json p) \<Longrightarrow> dueAt (ca_now x) p \<Longrightarrow>
       rq_AccountID p \<notin> liveLeases (ca_now x) d \<Longrightarrow> queueOrder q \<le> queueOrder p"
    "snapshotFromTx d (rq_AccountID q) = Inr s"
    "cl_Lease cl = \<lparr>ls_LeaseID = ca_leaseID x, ls_Owner = ca_owner x, ls_AcquiredAt = ca_now x,
       ls_LastHeartbeat = ca_now x, ls_ExpiresAt = Add (ca_now x) (ca_ttl x)\<rparr>" "ca_now x < Add (ca_now x) (ca_ttl x)"
    "applyEventTx (claimEvent x q s) d = Inr (cl_Transition cl, d1)"
    "cl_Request cl = q\<lparr>rq_State := Starting, rq_UpdatedAt := ca_now x, rq_NotBefore := 0, rq_Attempt := rq_Attempt q + 1\<rparr>"
    "d' = putLease (rq_AccountID q) (cl_Lease cl) (putRequest (cl_Request cl) d1)"
proof -
  note I = store_invD [OF inv]
  have tx: "claimTx x m d = Inr (cl, d')"
    using ClaimNext_update [OF ok] by (auto simp: update_Inr)
  have ne: "existingClaimTx x d \<noteq> Inr (Some cl)"
    using fresh by (simp add: existingClaimTx_def)
  from tx show thesis
  proof (cases rule: claimTx_cases)
    case 1
    with ne show thesis by simp
  next
    case (2 n queued)
    have live: "leasedNow d (ca_now x) a \<longleftrightarrow> a \<in> liveLeases (ca_now x) d" for a
      by (auto simp: leasedNow_def liveLeases_def leaseFromTx_Some [OF I(8)])
    note qr = queuedRequestsTx_ok [OF inv 2(4)]
    from 2(5) show thesis
    proof (rule claimLoop_success)
      fix pre q post s cur l
      assume split: "filter (dueAt (ca_now x)) queued = pre @ q # post"
        and pre: "\<forall>p \<in> set pre. leasedNow d (ca_now x) (rq_AccountID p)" and free: "\<not> leasedNow d (ca_now x) (rq_AccountID q)"
        and s: "snapshotFromTx d (rq_AccountID q) = Inr s"
        and acq: "AcquireLease cur (ca_now x) (ca_leaseID x) (ca_owner x) (ca_ttl x) = Inr l"
        and cand: "claimCandidate x q s l d = Inr (cl, d')"
      have "q \<in> set (filter (dueAt (ca_now x)) queued)" unfolding split by simp
      then have q: "rq_State q = Queued" "kget (db_requests d) (rq_RequestID q) = Some (Json q)" "dueAt (ca_now x) q"
        using qr(2) by auto
      have fifo: "queueOrder q \<le> queueOrder p"
        if "rq_State p = Queued" "kget (db_requests d) (rq_RequestID p) = Some (Json p)" "dueAt (ca_now x) p"
          "rq_AccountID p \<notin> liveLeases (ca_now x) d" for p
      proof -
        have "p \<in> set (filter (dueAt (ca_now x)) queued)" using that qr(2) by simp
        then have "p = q \<or> p \<in> set post" using pre that(4) live unfolding split by auto
        moreover have "sorted (map queueOrder (filter (dueAt (ca_now x)) queued))"
          using qr(1) by (simp add: sorted_filter)
        ultimately show ?thesis unfolding split by (auto simp: sorted_append)
      qed
      have n: "int (card (liveLeases (ca_now x) d)) < m"
        using 2(2,3) activeLeaseCountTx_ok [OF I(8)] by simp
      from inv fresh cand show thesis
      proof (rule claimCandidate_effect)
        fix d1 q'
        assume e: "applyEventTx (claimEvent x q s) d = Inr (cl_Transition cl, d1)"
          "kget (db_requests d) (rq_RequestID q) = Some (Json q')" "cl_Lease cl = l"
          "cl_Request cl = q'\<lparr>rq_State := Starting, rq_UpdatedAt := ca_now x, rq_NotBefore := 0, rq_Attempt := rq_Attempt q' + 1\<rparr>"
          "d' = putLease (rq_AccountID q) l (putRequest (cl_Request cl) d1)"
        show thesis
        proof (rule that [OF q _ n _ s _ _ e(1)])
          show "rq_AccountID q \<notin> liveLeases (ca_now x) d" using free live by simp
          show "cl_Lease cl = \<lparr>ls_LeaseID = ca_leaseID x, ls_Owner = ca_owner x, ls_AcquiredAt = ca_now x,
              ls_LastHeartbeat = ca_now x, ls_ExpiresAt = Add (ca_now x) (ca_ttl x)\<rparr>"
            "ca_now x < Add (ca_now x) (ca_ttl x)" using acq e(3) by (simp_all add: AcquireLease_iff)
          show "cl_Request cl = q\<lparr>rq_State := Starting, rq_UpdatedAt := ca_now x, rq_NotBefore := 0, rq_Attempt := rq_Attempt q + 1\<rparr>"
            using e(2,4) q(2) by simp
          show "d' = putLease (rq_AccountID q) (cl_Lease cl) (putRequest (cl_Request cl) d1)" using e(3,5) by simp
        qed (rule fifo)
      qed
    qed
  qed
qed

lemma liveLeases_putLease:
  "db_leases d1 = db_leases d \<Longrightarrow> now < ls_ExpiresAt l \<Longrightarrow>
     liveLeases now (putLease a l (putRequest q d1)) = insert a (liveLeases now d)"
  by (auto simp: liveLeases_def putLease_def putRequest_def split: if_splits)


lemma storeRun_keeps: "storeRun d d' \<Longrightarrow> store_inv d \<Longrightarrow> keepsRequests d d'"
proof (induction rule: storeRun.induct)
  case (start d)
  then show ?case by (simp add: keeps_refl)
next
  case (step d e f)
  then have "store_inv e" using storeRun_inv by blast
  then show ?case using step storeStep_keeps keeps_trans by blast
qed

text \<open>An account that has seen an event is bound to the request of the event.\<close>

lemma applied_bound:
  assumes v: "Snapshot_Validate s = Inr ()" and a: "kget (sn_AppliedEvents s) i = Some a"
  shows "sn_RequestID s = ev_RequestID (ar_Event a)" "sn_Status s \<noteq> NoRequest"
proof -
  have m: "a \<in> set (sortedRecords s)" using a by (auto simp: set_sortedRecords kvalues_iff)
  then have h: "ar_Event a \<in> set (history s)" by (simp add: history_def)
  show id: "sn_RequestID s = ev_RequestID (ar_Event a)" using valid_history [OF v] h by auto
  have "ev_RequestID (ar_Event a) \<noteq> []"
    using sortedRecords_entry(2) [OF v m] nonEmpty_neq_Nil by (auto simp: checkIndexEntry_iff validFields_iff)
  then show "sn_Status s \<noteq> NoRequest" using v id by (auto simp: Snapshot_Validate_iff split: if_splits)
qed

lemma replayed_request:
  assumes "store_inv d" "applyEventTx e d = Inr (t, d')" "tr_Idempotent t"
  shows "\<exists>q. kget (db_requests d) (ev_RequestID e) = Some (Json q) \<and> rq_State q \<noteq> NoRequest"
proof -
  obtain s where s: "snapshotFromTx d (ev_AccountID e) = Inr s" "Apply s e = Inr t"
    using applyEventTx_replay [OF assms(2,3)] by blast
  then obtain a where a: "kget (sn_AppliedEvents s) (ev_EventID e) = Some a" "ar_Event a = e"
    using assms(3) by (cases "kget (sn_AppliedEvents s) (ev_EventID e)") (auto simp: Apply_new_iff Apply_known_iff)
  note b = applied_bound [OF Apply_needs_valid [OF s(2)] a(1)]
  then show ?thesis
    using store_invD(5) [OF assms(1)] snapshot_projection [OF s(1)] a(2) unfolding inv_bound_def by fastforce
qed

lemma submitRequestTx_stored:
  assumes inv: "store_inv d" and s: "submitRequestTx q d = Inr ((x, kn), d1)"
  shows "kget (db_requests d1) (rq_RequestID q) = Some (Json x)" "requestSubmissionEqual x q"
    and "\<not> kn \<Longrightarrow> x = q \<and> rq_State q = NoRequest"
proof -
  have "kget (db_requests d1) (rq_RequestID q) = Some (Json x) \<and> requestSubmissionEqual x q \<and>
     (\<not> kn \<longrightarrow> x = q \<and> rq_State q = NoRequest)"
  proof (cases "kget (db_idempotency d) (rq_IdempotencyKey q)")
    case (Some i)
    then have f: "requestFromTx d i = Inr x" "requestSubmissionEqual x q" "d1 = d" "kn"
      using s by (auto simp: submitRequestTx_def)
    then have "rq_RequestID x = i" "kget (db_requests d) i = Some (Json x)"
      using requestFromTx_ok [OF store_invD(4) [OF inv]] by (auto simp: requestOk_def requestFromTx_inv [OF store_invD(4) [OF inv]])
    with f show ?thesis by (simp add: requestSubmissionEqual_def)
  next
    case None
    then have "createRequestTx q d = Inr ((x, kn), d1)" using s by (simp add: submitRequestTx_def)
    then show ?thesis
      by (cases rule: createRequestTx_cases) (use None in \<open>auto simp: requestSubmissionEqual_def\<close>)
  qed
  then show "kget (db_requests d1) (rq_RequestID q) = Some (Json x)" "requestSubmissionEqual x q"
    "\<not> kn \<Longrightarrow> x = q \<and> rq_State q = NoRequest" by auto
qed

lemma submitTx_result:
  assumes inv: "store_inv d" and v: "Request_Validate q = Inr ()"
    and e: "ev_RequestID e = rq_RequestID q" "ev_To e = Queued"
    and ok: "submitTx q e d = Inr ((q1, k), d')"
  shows "\<exists>q2. kget (db_requests d') (rq_RequestID q) = Some (Json q2) \<and> rq_State q2 \<noteq> NoRequest \<and>
     requestSubmissionEqual q2 q"
proof -
  obtain x kn d1 where s: "submitRequestTx q d = Inr ((x, kn), d1)"
    and r: "kn \<and> rq_State x \<noteq> NoRequest \<and> d' = d1 \<or> (\<exists>t. applyEventTx e d1 = Inr (t, d'))"
    using ok by (auto simp: submitTx_def split: prod.splits if_splits)
  have inv1: "store_inv d1" by (rule submitRequestTx_inv [OF inv v s])
  note st = submitRequestTx_stored(1,2) [OF inv s]
  show ?thesis
    using r
  proof
    assume "\<exists>t. applyEventTx e d1 = Inr (t, d')"
    then obtain t where t: "applyEventTx e d1 = Inr (t, d')" by blast
    obtain y where y: "kget (db_requests d') (rq_RequestID q) = Some (Json y)" "laterRequest x y"
      using applyEventTx_keeps [OF inv1 t] st(1) unfolding keepsRequests_def by blast
    have "rq_State y \<noteq> NoRequest"
    proof (cases "tr_Idempotent t")
      case True
      then have "d' = d1" using applyEventTx_replay [OF t] by blast
      with replayed_request [OF inv1 t True] y(1) e(1) show ?thesis by auto
    next
      case False
      from applyEventTx_request [OF inv1 t False] y(1) e show ?thesis by (metis kget_kput json.inject option.inject)
    qed
    moreover have "requestSubmissionEqual y q"
      using y(2) st(2) by (simp add: laterRequest_def sameRequest_def requestSubmissionEqual_def)
    ultimately show ?thesis using y(1) by blast
  qed (use st in auto)
qed


lemma resubmit:
  assumes inv: "store_inv d" and stored: "kget (db_requests d) (rq_RequestID q) = Some (Json q2)"
    "rq_State q2 \<noteq> NoRequest" "requestSubmissionEqual q2 q"
    and v: "Request_Validate q = Inr ()" "rq_State q = NoRequest" "Event_Validate e = Inr ()"
    and e: "ev_AccountID e = rq_AccountID q" "ev_RequestID e = rq_RequestID q" "ev_From e = NoRequest" "ev_To e = Queued"
    and c: "c d = None"
  shows "SubmitRequest c q e d = (Inr (q2, True), d)"
proof -
  note I = store_invD(4) [OF inv]
  have "kget (db_idempotency d) (rq_IdempotencyKey q) = Some (rq_RequestID q)"
    using requests_entry [OF I stored(1)] stored(3) by (metis json.inject requestSubmissionEqual_def)
  moreover have "requestFromTx d (rq_RequestID q) = Inr q2" using stored(1) by (simp add: requestFromTx_inv [OF I])
  ultimately have "submitTx q e d = Inr ((q2, True), d)"
    using stored(2,3) by (simp add: submitTx_def submitRequestTx_def)
  then show ?thesis using v e c by (simp add: SubmitRequest_def update_def)
qed

section \<open>Finishing work\<close>

lemma finishTx_new:
  assumes inv: "store_inv d" and ok: "finishTx e (Some l) ax rx d = Inr (t, d')" and n: "\<not> tr_Idempotent t"
  shows "\<exists>cur. kget (db_leases d) (ev_AccountID e) = Some (Json cur) \<and> ls_LeaseID cur = ls_LeaseID l \<and>
     ls_Owner cur = ls_Owner l \<and> (rx \<longrightarrow> cur = l) \<and> (ax \<or> ev_OccurredAt e < ls_ExpiresAt cur)"
    and "kget (db_leases d') (ev_AccountID e) = None"
    and "snapshotFromTx d' (ev_AccountID e) = Inr (tr_State t)" "sn_Status (tr_State t) = ev_To e"
proof -
  obtain d1 where a: "applyEventTx e d = Inr (t, d1)"
    and v: "verifyExpectedLease d1 (ev_AccountID e) (ev_OccurredAt e) (Some l) ax rx = Inr ()"
    and d': "d' = deleteLease (ev_AccountID e) d1"
    using ok n by (auto simp: finishTx_def split: if_splits)
  have "inv_leases d1" using applyEventTx_inv [OF inv a] by (rule store_invD(8))
  then show "\<exists>cur. kget (db_leases d) (ev_AccountID e) = Some (Json cur) \<and> ls_LeaseID cur = ls_LeaseID l \<and>
     ls_Owner cur = ls_Owner l \<and> (rx \<longrightarrow> cur = l) \<and> (ax \<or> ev_OccurredAt e < ls_ExpiresAt cur)"
    using v applyEventTx_refines(3) [OF a] by (simp add: verifyExpectedLease_owned)
  show "kget (db_leases d') (ev_AccountID e) = None" by (simp add: d' deleteLease_def)
  show "snapshotFromTx d' (ev_AccountID e) = Inr (tr_State t)"
    using applyEventTx_refines(1) [OF a] by (auto simp: d' deleteLease_def)
  show "sn_Status (tr_State t) = ev_To e"
    using applyEventTx_new [OF a n] newEventD(2) Apply_new_event(4) n by metis
qed


section \<open>Failures\<close>

lemma applied_expected:
  assumes v: "Snapshot_Validate s = Inr ()" and a: "kget (sn_AppliedEvents s) i = Some a"
  shows "ev_ExpectedRevision (ar_Event a) < sn_Revision s"
proof -
  have "a \<in> set (sortedRecords s)" using a by (auto simp: set_sortedRecords kvalues_iff)
  then have "ar_Event a \<in> set (history s)" by (simp add: history_def)
  then obtain k where k: "k < length (history s)" "history s ! k = ar_Event a" by (metis in_set_conv_nth)
  then have e: "ev_ExpectedRevision (ar_Event a) = word_of_nat k" "k < unat (sn_Revision s)"
    using valid_history [OF v] by auto
  have "unat (sn_Revision s) < 2 ^ 64" using unat64_bytes [of "sn_Revision s"] by simp
  then have "unat (word_of_nat k :: 64 word) = k" using e(2) by (intro unat_of_nat64) simp
  then show ?thesis using e by (simp add: word_less_nat_alt)
qed

text \<open>An event that expects the current revision cannot be a replay.\<close>

lemma current_revision_new:
  assumes "applyEventTx e d = Inr (t, d')" "snapshotFromTx d (ev_AccountID e) = Inr s"
    and "ev_ExpectedRevision e = sn_Revision s"
  shows "\<not> tr_Idempotent t"
proof
  assume i: "tr_Idempotent t"
  have ap: "Apply s e = Inr t" using applyEventTx_refines(1) [OF assms(1)] assms(2) by simp
  then obtain a where a: "kget (sn_AppliedEvents s) (ev_EventID e) = Some a" "ar_Event a = e"
    using i by (cases "kget (sn_AppliedEvents s) (ev_EventID e)") (auto simp: Apply_new_iff Apply_known_iff)
  from applied_expected [OF Apply_needs_valid [OF ap] a(1)] a(2) assms(3) show False by simp
qed

lemma failureTx_retry:
  assumes inv: "store_inv d" and at: "at \<noteq> 0"
    and ok: "failureTx e c at (Some re) (Some l) ax d = Inr (fr, d')" and n: "\<not> tr_Idempotent (fr_Failed fr)"
  shows "\<exists>cur t. kget (db_leases d) (ev_AccountID e) = Some (Json cur) \<and> ls_LeaseID cur = ls_LeaseID l \<and>
       ls_Owner cur = ls_Owner l \<and> (if ax then cur = l else ev_OccurredAt e < ls_ExpiresAt cur) \<and>
       kget (db_leases d') (ev_AccountID e) = None \<and> fr_Retried fr = Some t \<and>
       sn_Revision (tr_State t) = sn_Revision (tr_State (fr_Failed fr)) + 1 \<and>
       snapshotFromTx d' (ev_AccountID e) = Inr (tr_State t) \<and> sn_Status (tr_State t) = Queued \<and>
       kget (db_requests d') (ev_RequestID e) = Some (Json (fr_Request fr)) \<and> rq_State (fr_Request fr) = Queued \<and>
       rq_NotBefore (fr_Request fr) = at \<and> rq_LastFailure (fr_Request fr) = c"
  using ok n
proof (rule failureTx_new)
  fix d1 d3
  assume a: "applyEventTx e d = Inr (fr_Failed fr, d1)"
    and ver: "verifyExpectedLease d1 (ev_AccountID e) (ev_OccurredAt e) (Some l) ax ax = Inr ()"
    and cs: "case Some re of
       None \<Rightarrow> fr_Retried fr = None \<and> d3 = deleteLease (ev_AccountID e) d1 \<and>
         (\<exists>q. requestFromTx d3 (ev_RequestID e) = Inr q \<and>
            fr_Request fr = q\<lparr>rq_LastFailure := c, rq_UpdatedAt := ev_OccurredAt e\<rparr>)
     | Some r \<Rightarrow> (\<exists>t. fr_Retried fr = Some t \<and>
         requeueTx e c at (fr_Failed fr) r (deleteLease (ev_AccountID e) d1) = Inr ((t, fr_Request fr), d3))"
    and w: "setNotificationFailureTx (ev_EventID e) c (putRequest (fr_Request fr) d3) = Inr d'"
  let ?d2 = "deleteLease (ev_AccountID e) d1"
  obtain t where t: "fr_Retried fr = Some t" and rq: "requeueTx e c at (fr_Failed fr) re ?d2 = Inr ((t, fr_Request fr), d3)"
    using cs by auto
  note R = requeueTx_facts [OF rq]
  have i1: "store_inv d1" and i2: "store_inv ?d2" using a inv by (auto intro: inv_intros)
  obtain cur where cur: "kget (db_leases d) (ev_AccountID e) = Some (Json cur)" "ls_LeaseID cur = ls_LeaseID l"
      "ls_Owner cur = ls_Owner l" "if ax then cur = l else ev_OccurredAt e < ls_ExpiresAt cur"
    using ver applyEventTx_refines(3) [OF a] by (auto simp: verifyExpectedLease_owned [OF store_invD(8) [OF i1]])
  have s2: "snapshotFromTx ?d2 (ev_AccountID re) = Inr (tr_State (fr_Failed fr))"
    using applyEventTx_refines(1) [OF a] R(2) by (auto simp: deleteLease_def)
  have nt: "\<not> tr_Idempotent t" by (rule current_revision_new [OF R(1) s2 R(6)])
  have apt: "Apply (tr_State (fr_Failed fr)) re = Inr t" using applyEventTx_refines(1) [OF R(1)] s2 by simp
  obtain q0 where q0: "requestFromTx d3 (ev_RequestID e) = Inr q0"
      "fr_Request fr = q0\<lparr>rq_LastFailure := c, rq_NotBefore := at, rq_UpdatedAt := ev_OccurredAt re\<rparr>"
    using R(7) by blast
  have i3: "store_inv d3" by (rule applyEventTx_inv [OF i2 R(1)])
  have q0s: "kget (db_requests d3) (ev_RequestID e) = Some (Json q0)" "rq_RequestID q0 = ev_RequestID e"
    using q0(1) requestFromTx_ok [OF store_invD(4) [OF i3] q0(1)]
    by (simp_all add: requestFromTx_inv [OF store_invD(4) [OF i3]] requestOk_def)
  have st: "rq_State q0 = Queued"
    using applyEventTx_request [OF i2 R(1) nt] q0s(1) R(3,5) by (metis json.inject kget_kput option.inject)
  obtain x where d': "d' = (putRequest (fr_Request fr) d3)\<lparr>db_notifications := x\<rparr>"
    using setNotificationFailureTx_frame [OF w] by blast
  have "kget (db_leases d') (ev_AccountID e) = None"
    using applyEventTx_refines(3) [OF R(1)] by (simp add: d' putRequest_def deleteLease_def)
  moreover have "snapshotFromTx d' (ev_AccountID e) = Inr (tr_State t)"
    using applyEventTx_refines(1) [OF R(1)] R(2) by (auto simp: d' putRequest_def)
  moreover have "kget (db_requests d') (ev_RequestID e) = Some (Json (fr_Request fr))"
    using q0(2) q0s(2) by (simp add: d' putRequest_def)
  ultimately show ?thesis
    using cur t Apply_new_event(4,13) [OF apt nt] R(5) q0(2) st
    by (intro exI [of _ cur] exI [of _ t]) auto
qed


section \<open>Progress\<close>

lemma next_revision_free:
  assumes "snapshotFromTx d a = Inr s" "sn_Revision s \<noteq> - 1"
  shows "kget (auditsOf d a) (revisionKey (sn_Revision s + 1)) = None"
proof (rule ccontr)
  assume "\<not> ?thesis"
  then obtain v where v: "kget (auditsOf d a) (revisionKey (sn_Revision s + 1)) = Some v" by blast
  have h: "histOk d (auditsOf d a) (sn_AppliedEvents s)" and ok: "Snapshot_Validate s = Inr ()"
    using assms(1) by (simp_all add: snapshotFromTx_iff)
  obtain x where x: "revisionKey (sn_Revision s + 1) = revisionKey (ar_Revision x)"
      "kget (sn_AppliedEvents s) (recID x) = Some x"
    using h v unfolding histOk_def by blast
  then have m: "x \<in> set (sortedRecords s)" by (auto simp: set_sortedRecords kvalues_iff)
  have "ar_Revision x = sn_Revision s + 1" using arg_cong [OF x(1), of Uint64] by simp
  moreover have "ar_Revision x \<le> sn_Revision s"
    using sortedRecords_entry(2) [OF ok m] by (auto simp: checkIndexEntry_iff)
  moreover have "unat (1 + sn_Revision s) = Suc (unat (sn_Revision s))"
    using assms(2) by (intro unatSuc) (metis add.commute add_eq_0_iff2)
  ultimately show False by (simp add: word_le_nat_alt add.commute)
qed

lemma applyEventTx_progress:
  assumes inv: "store_inv d" and s: "snapshotFromTx d (ev_AccountID e) = Inr s" and ap: "Apply s e = Inr r"
    and new: "\<not> tr_Idempotent r" and st: "sn_Status s \<noteq> NoRequest" and q: "requestFromTx d (ev_RequestID e) = Inr q"
    and time: "rq_CreatedAt q \<le> ev_OccurredAt e" and free: "kget (db_events d) (ev_EventID e) = None"
      "kget (db_notifications d) (ev_EventID e) = None"
    and tok: "safeNotificationToken (ev_EventID e)" "safeNotificationToken (ev_AccountID e)"
      "safeNotificationToken (ev_RequestID e)"
  shows "\<exists>d'. applyEventTx e d = Inr (r, d') \<and> requestFromTx d' (ev_RequestID e) = Inr (requestAfter e r q) \<and>
     db_events d' = kput (ev_EventID e) (Json (tr_Audit r)) (db_events d) \<and>
     db_notifications d' = (if rq_NotificationRoomID q = [] then db_notifications d
       else kput (ev_EventID e) (Json (newNotification e (requestAfter e r q))) (db_notifications d))"
proof -
  note I = store_invD [OF inv]
  note f = Apply_new_event [OF ap new]
  have qd: "kget (db_requests d) (ev_RequestID e) = Some (Json q)" using q by (simp add: requestFromTx_inv [OF I(4)])
  have qo: "requestOk (ev_RequestID e) q" using requestFromTx_ok [OF I(4) q] .
  obtain x where x: "kget (db_requests d) (sn_RequestID s) = Some (Json x)" "rq_AccountID x = ev_AccountID e"
      "rq_State x = sn_Status s"
    using I(5) s st unfolding inv_bound_def snapshotFromTx_iff projOf_def by fastforce
  have qx: "x = q" using x(1) qd f(11) [OF st] by simp
  have v: "Request_Validate (requestAfter e r q) = Inr ()"
    using qo time f(4,9,10) CanTransition_valid by (auto simp: requestOk_def Request_Validate_iff requestAfter_def validFields_iff)
  have n: "newEvent e s r q d"
    using s ap new q x(2,3) qx v free next_revision_free [OF s f(14)] f(3,13) by (simp add: newEvent_def)
  have nv: "rq_NotificationRoomID q = [] \<or> Notification_Validate (newNotification e (requestAfter e r q)) = Inr ()"
    using qo tok f(9,10) CanTransition_valid x(2) qx
    by (auto simp: Notification_Validate_iff newNotification_def requestAfter_def requestOk_def Request_Validate_iff validFields_iff)
  let ?w = "eventWrites e s r (requestAfter e r q) d"
  let ?d = "if rq_NotificationRoomID q = [] then ?w else putNotification (newNotification e (requestAfter e r q)) ?w"
  have "enqueueNotificationTx e (requestAfter e r q) ?w = Inr ?d"
    unfolding enqueueNotificationTx_iff using free(2) nv by (auto simp: eventWrites_def)
  then have a: "applyEventTx e d = Inr (r, ?d)" by (rule applyEventTx_newI [OF n])
  have "rq_RequestID q = ev_RequestID e" using qo by (simp add: requestOk_def)
  then have "kget (db_requests ?d) (ev_RequestID e) = Some (Json (requestAfter e r q))"
    by (simp add: eventWrites_def putNotification_def)
  then have "requestFromTx ?d (ev_RequestID e) = Inr (requestAfter e r q)"
    by (simp add: requestFromTx_inv [OF store_invD(4) [OF applyEventTx_inv [OF inv a]]])
  with a show ?thesis
    by (intro exI [of _ ?d]) (simp add: eventWrites_def putNotification_def newNotification_def)
qed


end
