(* ===== verification/StoreWork.thy ===== *)
theory StoreWork
  imports StoreFacts
begin

text \<open>
  The concrete run of the store continued: the worker that claimed the request stops it, or logs in,
  fails and has the request queued again.
\<close>

text \<open>The events of the worker that claimed the request of the concrete run.\<close>

definition demoEvent :: "string \<Rightarrow> Status \<Rightarrow> Status \<Rightarrow> uint64 \<Rightarrow> gotime \<Rightarrow> Event" where
  "demoEvent i from to revision at = \<lparr>ev_EventID = i, ev_AccountID = ''acct-1'', ev_RequestID = ''req-1'',
     ev_From = from, ev_ExpectedRevision = revision, ev_To = to, ev_Reason = ''work'', ev_Actor = ''worker'',
     ev_OccurredAt = at\<rparr>"

lemma demoEvent_sel [simp]:
  "ev_EventID (demoEvent i from to revision at) = i" "ev_AccountID (demoEvent i from to revision at) = ''acct-1''"
  "ev_RequestID (demoEvent i from to revision at) = ''req-1''" "ev_From (demoEvent i from to revision at) = from"
  "ev_To (demoEvent i from to revision at) = to" "ev_ExpectedRevision (demoEvent i from to revision at) = revision"
  "ev_OccurredAt (demoEvent i from to revision at) = at"
  by (simp_all add: demoEvent_def)

definition demoAt :: "db \<Rightarrow> Status \<Rightarrow> uint64 \<Rightarrow> string list \<Rightarrow> bool" where
  "demoAt d st revision known \<longleftrightarrow> store_inv d \<and> (\<exists>s q. snapshotFromTx d ''acct-1'' = Inr s \<and> sn_Status s = st \<and>
     sn_RequestID s = ''req-1'' \<and> sn_Revision s = revision \<and> requestFromTx d ''req-1'' = Inr q \<and> rq_CreatedAt q = 5 \<and>
     (\<forall>i. i \<notin> set known \<longrightarrow> kget (sn_AppliedEvents s) i = None)) \<and>
     (\<forall>i. i \<notin> set known \<longrightarrow> kget (db_events d) i = None \<and> kget (db_notifications d) i = None)"

lemma demo_event:
  assumes at: "demoAt d from revision known" and e: "e = demoEvent (c # cs) from to revision time"
    and tr: "CanTransition from to" "from \<noteq> NoRequest" "revision \<noteq> - 1" and new: "c # cs \<notin> set known"
    and time: "5 \<le> time" and id: "list_all plainChar (c # cs)" "length cs < 512"
  shows "\<exists>t d'. applyEventTx e d = Inr (t, d') \<and> \<not> tr_Idempotent t \<and> sn_Revision (tr_State t) = revision + 1 \<and>
     demoAt d' to (revision + 1) ((c # cs) # known) \<and> db_leases d' = db_leases d \<and>
     (\<forall>n. kget (db_notifications d') (c # cs) = Some (Json n) \<longrightarrow> nt_State n = to) \<and>
     (\<forall>i. i \<noteq> c # cs \<longrightarrow> kget (db_notifications d') i = kget (db_notifications d) i)"
proof -
  obtain s q where inv: "store_inv d" and s: "snapshotFromTx d ''acct-1'' = Inr s" "sn_Status s = from"
      "sn_RequestID s = ''req-1''" "sn_Revision s = revision" "\<forall>i. i \<notin> set known \<longrightarrow> kget (sn_AppliedEvents s) i = None"
    and q: "requestFromTx d ''req-1'' = Inr q" "rq_CreatedAt q = 5"
    and k: "\<forall>i. i \<notin> set known \<longrightarrow> kget (db_events d) i = None \<and> kget (db_notifications d) i = None"
    using at unfolding demoAt_def by blast
  have sv: "Snapshot_Validate s = Inr ()" "sn_AccountID s = ''acct-1''" using s(1) by (simp_all add: snapshotFromTx_iff)
  have last: "plainChar c" "plainChar (last (c # cs))" using id(1) by (auto simp: list_all_iff)
  have vf: "validFields e = Inr ()"
    using time CanTransition_valid [OF tr(1)] last by (simp add: validFields_iff e demoEvent_def go_simps)
  let ?a = "\<lparr>ar_Event = e, ar_Revision = sn_Revision s + 1\<rparr>"
  let ?t = "\<lparr>tr_State = s\<lparr>sn_Status := ev_To e, sn_RequestID := ev_RequestID e, sn_Revision := sn_Revision s + 1,
             sn_AppliedEvents := kput (ev_EventID e) ?a (sn_AppliedEvents s)\<rparr>, tr_Audit = ?a, tr_Idempotent = False\<rparr>"
  have ap: "Apply s e = Inr ?t"
    using s new sv vf tr by (subst Apply_new_iff) (simp_all add: e)
  have tok: "safeNotificationToken (c # cs)" "safeNotificationToken ''acct-1''" "safeNotificationToken ''req-1''"
    using id by (simp_all add: go_simps)
  obtain d' where d': "applyEventTx e d = Inr (?t, d')" "requestFromTx d' ''req-1'' = Inr (requestAfter e ?t q)"
     "db_events d' = kput (c # cs) (Json ?a) (db_events d)"
     "db_notifications d' = (if rq_NotificationRoomID q = [] then db_notifications d
       else kput (c # cs) (Json (newNotification e (requestAfter e ?t q))) (db_notifications d))"
    using applyEventTx_progress [OF inv _ ap, of q] s q time k new tok tr(2) by (auto simp: e)
  have "snapshotFromTx d' ''acct-1'' = Inr (tr_State ?t)" using applyEventTx_refines(1) [OF d'(1)] by (auto simp: e)
  moreover have "rq_CreatedAt (requestAfter e ?t q) = 5" using q(2) by (simp add: requestAfter_def)
  moreover have "store_inv d'" by (rule applyEventTx_inv [OF inv d'(1)])
  ultimately have "demoAt d' to (revision + 1) ((c # cs) # known)"
    using d'(2-4) s k unfolding demoAt_def by (auto simp: e)
  moreover have "\<forall>n. kget (db_notifications d') (c # cs) = Some (Json n) \<longrightarrow> nt_State n = to"
      "\<forall>i. i \<noteq> c # cs \<longrightarrow> kget (db_notifications d') i = kget (db_notifications d) i"
    using d'(4) k new by (auto simp: newNotification_def e)
  ultimately show ?thesis
    using d'(1) applyEventTx_refines(3) [OF d'(1)] s(4) by (intro exI [of _ ?t] exI [of _ d']) simp
qed


lemma demoDB3_at: "demoAt demoDB3 Starting 2 [''ev-1'', ''ev-2'']"
proof -
  have r: "kget (db_requests demoDB3) ''req-1'' = Some (Json demoClaimedRequest)"
    by (simp add: demoDB3_def putLease_def putRequest_def demoClaimedRequest_def demoQueuedRequest_def demoRequest_def)
  have "snapshotFromTx demoDB3 ''acct-1'' = Inr demoStarting"
    using applyEventTx_refines(1) [OF demo_start_event]
    by (auto simp: demo_start_ids demoDB3_def putLease_def putRequest_def demoStartResult_def)
  moreover have "requestFromTx demoDB3 ''req-1'' = Inr demoClaimedRequest"
    using r by (simp add: requestFromTx_inv [OF store_invD(4) [OF demoDB3_inv]])
  moreover have "db_events demoDB3 = kput ''ev-2'' (Json demoStartAudit) (kput ''ev-1'' (Json demoAudit) kempty)"
    by (simp add: demoDB3_def putLease_def putRequest_def demoDB2s_def putNotification_def eventWrites_def demoDB2_sel
      demo_start_ids demoStartResult_def)
  moreover have "kget (db_notifications demoDB3) i = None" if "i \<notin> {''ev-1'', ''ev-2''}" for i
    using that by (simp add: demoDB3_def putLease_def putRequest_def demoDB2s_def putNotification_def eventWrites_def demoDB2_sel
      demo_start_ids newNotification_def)
  moreover have "rq_CreatedAt demoClaimedRequest = 5"
    by (simp add: demoClaimedRequest_def demoQueuedRequest_def demoRequest_def)
  ultimately show ?thesis
    using demoDB3_inv unfolding demoAt_def by (auto simp: demoStarting_def demoQueued_def)
qed

lemma demoDB3_leases: "db_leases demoDB3 = kput ''acct-1'' (Json demoLease) kempty"
  by (simp add: demoDB3_def putLease_def putRequest_def demoDB2s_def putNotification_def eventWrites_def demoDB2_sel)

definition demoStop :: Event where
  "demoStop = demoEvent ''ev-3'' Starting Blocked 2 20"

lemma demo_stop: "\<exists>t d'. CompleteRequestOwned okCommit demoStop demoLease demoDB3 = (Inr t, d') \<and> \<not> tr_Idempotent t"
proof -
  obtain t d' where a: "applyEventTx demoStop demoDB3 = Inr (t, d')" "\<not> tr_Idempotent t" "db_leases d' = db_leases demoDB3"
    using demo_event [OF demoDB3_at demoStop_def] by (auto simp: CanTransition_def go_simps)
  have "inv_leases d'" using applyEventTx_inv [OF demoDB3_inv a(1)] by (rule store_invD(8))
  then have "verifyExpectedLease d' ''acct-1'' 20 (Some demoLease) False False = Inr ()"
    using a(3) by (simp add: verifyExpectedLease_owned demoDB3_leases demoLease_def)
  then show ?thesis
    using a by (simp add: CompleteRequestOwned_def completeRequest_def finishTx_def update_def okCommit_def)
      (simp add: demoStop_def)
qed

definition demoLogin :: Event where
  "demoLogin = demoEvent ''ev-3'' Starting LoggingIn 2 20"

definition demoFail :: Event where
  "demoFail = demoEvent ''ev-4'' LoggingIn LoginFailed 3 30"

definition demoRetry :: Event where
  "demoRetry = demoEvent ''ev-5'' LoginFailed Queued 4 31"

definition demoDB4 :: db where
  "demoDB4 = snd (ApplyEvent okCommit demoLogin demoDB3)"

lemma demoDB4_at: "demoAt demoDB4 LoggingIn 3 [''ev-3'', ''ev-1'', ''ev-2'']" "db_leases demoDB4 = db_leases demoDB3"
proof -
  obtain t d' where a: "applyEventTx demoLogin demoDB3 = Inr (t, d')" "demoAt d' LoggingIn 3 [''ev-3'', ''ev-1'', ''ev-2'']"
      "db_leases d' = db_leases demoDB3"
    using demo_event [OF demoDB3_at demoLogin_def] by (auto simp: CanTransition_def go_simps)
  then have "demoDB4 = d'" by (simp add: demoDB4_def ApplyEvent_def update_def okCommit_def)
  with a show "demoAt demoDB4 LoggingIn 3 [''ev-3'', ''ev-1'', ''ev-2'']" "db_leases demoDB4 = db_leases demoDB3" by simp_all
qed

lemma demoAt_deleteLease: "demoAt d st n ks \<Longrightarrow> demoAt (deleteLease a d) st n ks"
  using deleteLease_inv [of d a] by (auto simp: demoAt_def deleteLease_def requestFromTx_def)


lemma demo_fail:
  "\<exists>fr d'. RecordFailureOwned okCommit demoFail TransientFailure 100 (Some demoRetry) demoLease False demoDB4 = (Inr fr, d') \<and>
     \<not> tr_Idempotent (fr_Failed fr)"
proof -
  obtain t d1 where a: "applyEventTx demoFail demoDB4 = Inr (t, d1)" "\<not> tr_Idempotent t" "db_leases d1 = db_leases demoDB4"
      "sn_Revision (tr_State t) = 4" "demoAt d1 LoginFailed 4 [''ev-4'', ''ev-3'', ''ev-1'', ''ev-2'']"
      "\<forall>n. kget (db_notifications d1) ''ev-4'' = Some (Json n) \<longrightarrow> nt_State n = LoginFailed"
    using demo_event [OF demoDB4_at(1) demoFail_def] by (auto simp: CanTransition_def go_simps)
  let ?d2 = "deleteLease ''acct-1'' d1"
  obtain u d3 where b: "applyEventTx demoRetry ?d2 = Inr (u, d3)" "demoAt d3 Queued 5 [''ev-5'', ''ev-4'', ''ev-3'', ''ev-1'', ''ev-2'']"
      "kget (db_notifications d3) ''ev-4'' = kget (db_notifications d1) ''ev-4''"
    using demo_event [OF demoAt_deleteLease [OF a(5), of "''acct-1''"] demoRetry_def] by (auto simp: CanTransition_def go_simps deleteLease_def)
  obtain q2 where q2: "requestFromTx ?d2 ''req-1'' = Inr q2"
    using demoAt_deleteLease [OF a(5)] unfolding demoAt_def by blast
  obtain q3 where i3: "store_inv d3" and q3: "requestFromTx d3 ''req-1'' = Inr q3" "rq_CreatedAt q3 = 5"
    using b(2) unfolding demoAt_def by blast
  let ?q = "q3\<lparr>rq_LastFailure := TransientFailure, rq_NotBefore := 100, rq_UpdatedAt := 31\<rparr>"
  have rv: "Request_Validate ?q = Inr ()"
    using requestFromTx_ok [OF store_invD(4) [OF i3] q3(1)] q3(2)
    by (auto simp: requestOk_def Request_Validate_iff validFailureClass_def go_simps)
  have iv: "inv_leases d1" using applyEventTx_inv [OF _ a(1)] demoDB4_at(1) store_invD(8) by (auto simp: demoAt_def)
  have ver: "verifyExpectedLease d1 ''acct-1'' 30 (Some demoLease) False False = Inr ()"
    using a(3) by (simp add: verifyExpectedLease_owned [OF iv] demoDB4_at demoDB3_leases demoLease_def)
  have rq: "requeueTx demoFail TransientFailure 100 t demoRetry ?d2 = Inr ((u, ?q), d3)"
    using b(1) q3(1) a(4) by (simp add: requeueTx_def demoFail_def) (simp add: demoRetry_def)
  obtain d4 where d4: "setNotificationFailureTx ''ev-4'' TransientFailure (putRequest ?q d3) = Inr d4"
  proof (cases "kget (db_notifications d3) ''ev-4''")
    case None
    then show thesis by (intro that [of "putRequest ?q d3"]) (simp add: setNotificationFailureTx_def putRequest_def)
  next
    case (Some v)
    then obtain n where n: "v = Json n" "Notification_Validate n = Inr ()"
      using store_invD(9) [OF i3] unfolding inv_notifications_def by blast
    have "nt_State n = LoginFailed" using a(6) b(3) Some n(1) by simp
    with n Some show thesis
      by (intro that [of "putNotification (n\<lparr>nt_Failure := TransientFailure\<rparr>) (putRequest ?q d3)"])
        (simp add: setNotificationFailureTx_def putRequest_def Let_def Notification_Validate_iff)
  qed
  have "failureTx demoFail TransientFailure 100 (Some demoRetry) (Some demoLease) False demoDB4 =
      Inr (\<lparr>fr_Failed = t, fr_Retried = Some u, fr_Request = ?q\<rparr>, d4)"
    using a(1,2) ver q2 rq rv d4 by (simp add: failureTx_def) (simp add: demoFail_def Let_def)
  then show ?thesis
    using a(2) by (simp add: RecordFailureOwned_def recordFailure_def update_def okCommit_def validFailureClass_def)
      (simp add: demoFail_def demoRetry_def)
qed

end
