(* ===== verification/StoreProps.thy ===== *)
theory StoreProps
  imports StoreWork
begin

text \<open>
  The properties of the store: consistency of every reachable database, refinement of the account
  machine, permanence of submissions, order and capacity of claims, fencing of finished work, the
  retry of failed attempts, the rebuilt queue index, the outbox and account deletion. Each is
  instantiated on the concrete run.
\<close>

section \<open>Properties\<close>

text \<open>
  C10. Consistency: after any run of store operations from the empty database, whatever their
  arguments and outcomes and whichever transactions the engine refuses, every account reconstructs
  from its audit trail, requests mirror their accounts, and the idempotency index, the queue index,
  the leases, the outbox and the deletions are exact and valid.
\<close>

theorem store_always_consistent:
  assumes "storeRun emptyDB d"
  shows "store_inv d"
  using storeRun_inv [OF assms emptyDB_inv] .

text \<open>
  C11. Refinement: when the store accepts an event, the account reads back as the state that the
  account machine computes for it, no other account changes, and the request of a new event
  mirrors the new status; when it refuses, the database is unchanged.
\<close>

theorem ApplyEvent_refines_Apply:
  assumes "store_inv d" "ApplyEvent commit e d = (r, d')"
  shows "case r of
     Inl x \<Rightarrow> d' = d
   | Inr t \<Rightarrow> (\<exists>s. GetAccount (ev_AccountID e) d = Inr s \<and> Apply s e = Inr t \<and>
         GetAccount (ev_AccountID e) d' = Inr (tr_State t)) \<and>
       (\<forall>b u. b \<noteq> ev_AccountID e \<longrightarrow> GetAccount b d = Inr u \<longrightarrow> GetAccount b d' = Inr u) \<and>
       (\<not> tr_Idempotent t \<longrightarrow>
          (\<exists>q. GetRequest (ev_RequestID e) d' = Inr q \<and> rq_State q = sn_Status (tr_State t))) \<and>
       (tr_Idempotent t \<longrightarrow> d' = d)"
proof (cases r)
  case (Inl x)
  then show ?thesis using assms(2) update_Inl by (auto simp: ApplyEvent_def)
next
  case (Inr t)
  then have a: "applyEventTx e d = Inr (t, d')" using assms(2) by (simp add: ApplyEvent_def update_Inr)
  have inv': "inv_requests d'" using applyEventTx_inv [OF assms(1) a] by (rule store_invD(4))
  have "\<exists>q. GetRequest (ev_RequestID e) d' = Inr q \<and> rq_State q = sn_Status (tr_State t)" if "\<not> tr_Idempotent t"
    using applyEventTx_request [OF assms(1) a that]
    by (metis GetRequest_def view_def requestFromTx_inv [OF inv'] kget_kput requestAfter_sel(5))
  then show ?thesis
    using Inr applyEventTx_refines(1,2) [OF a] applyEventTx_replay [OF a]
    by (auto simp: GetAccount_def view_def)
qed

text \<open>
  One active request per account: two stored requests of one account that have left
  NO_REQUEST are the same request, and the account's status is its state.
\<close>

theorem one_active_request:
  assumes "storeRun emptyDB d"
    and "GetRequest i d = Inr p" "GetRequest j d = Inr q" "rq_AccountID p = rq_AccountID q"
    and "rq_State p \<noteq> NoRequest" "rq_State q \<noteq> NoRequest"
  shows "i = j \<and> p = q \<and>
     (\<exists>s. GetAccount (rq_AccountID p) d = Inr s \<and> sn_RequestID s = i \<and> sn_Status s = rq_State p)"
proof -
  have inv: "store_inv d" using storeRun_inv [OF assms(1) emptyDB_inv] .
  obtain s where s: "GetAccount (rq_AccountID p) d = Inr s" "sn_RequestID s = i" "sn_Status s = rq_State p"
    using active_request_mirrors [OF inv assms(2,5)] by blast
  moreover have "sn_RequestID s = j"
    using active_request_mirrors [OF inv assms(3,6)] s(1) assms(4) by auto
  ultimately show ?thesis using assms(2,3) by auto
qed

text \<open>
  C13. Claims are fair and bounded: a fresh claim takes a due queued request that precedes, in
  creation order, every other due queued request whose account has no live lease; it moves the
  account to STARTING, counts the attempt, and stores the lease of exactly this claimant; and the
  number of live leases stays within the configured concurrency.
\<close>

theorem ClaimNext_fifo_bounded:
  assumes "store_inv d" "0 < ca_now x" "kget (db_events d) (ca_eventID x) = None"
    and "ClaimNext c x m d = (Inr cl, d')"
  shows "\<exists>q s. GetRequest (rq_RequestID q) d = Inr q \<and> rq_State q = Queued \<and> dueAt (ca_now x) q \<and>
     rq_AccountID q \<notin> liveLeases (ca_now x) d \<and>
     (\<forall>p. GetRequest (rq_RequestID p) d = Inr p \<and> rq_State p = Queued \<and> dueAt (ca_now x) p \<and>
        rq_AccountID p \<notin> liveLeases (ca_now x) d \<longrightarrow> queueOrder q \<le> queueOrder p) \<and>
     GetAccount (rq_AccountID q) d' = Inr s \<and> sn_Status s = Starting \<and> sn_RequestID s = rq_RequestID q \<and>
     GetRequest (rq_RequestID q) d' = Inr (cl_Request cl) \<and>
     cl_Request cl = q\<lparr>rq_State := Starting, rq_UpdatedAt := ca_now x, rq_NotBefore := 0, rq_Attempt := rq_Attempt q + 1\<rparr> \<and>
     GetLease (rq_AccountID q) d' = Inr (Some (cl_Lease cl)) \<and> ls_Owner (cl_Lease cl) = ca_owner x \<and>
     liveLeases (ca_now x) d' = insert (rq_AccountID q) (liveLeases (ca_now x) d) \<and>
     int (card (liveLeases (ca_now x) d')) \<le> m"
  using assms
proof (rule ClaimNext_fresh)
  fix q s d1
  assume q: "rq_State q = Queued" "kget (db_requests d) (rq_RequestID q) = Some (Json q)" "dueAt (ca_now x) q"
    "rq_AccountID q \<notin> liveLeases (ca_now x) d" "int (card (liveLeases (ca_now x) d)) < m"
    and fifo: "\<And>p. rq_State p = Queued \<Longrightarrow> kget (db_requests d) (rq_RequestID p) = Some (Json p) \<Longrightarrow> dueAt (ca_now x) p \<Longrightarrow>
       rq_AccountID p \<notin> liveLeases (ca_now x) d \<Longrightarrow> queueOrder q \<le> queueOrder p"
    and s: "snapshotFromTx d (rq_AccountID q) = Inr s"
    and l: "cl_Lease cl = \<lparr>ls_LeaseID = ca_leaseID x, ls_Owner = ca_owner x, ls_AcquiredAt = ca_now x,
       ls_LastHeartbeat = ca_now x, ls_ExpiresAt = Add (ca_now x) (ca_ttl x)\<rparr>" "ca_now x < Add (ca_now x) (ca_ttl x)"
    and e: "applyEventTx (claimEvent x q s) d = Inr (cl_Transition cl, d1)"
    and r: "cl_Request cl = q\<lparr>rq_State := Starting, rq_UpdatedAt := ca_now x, rq_NotBefore := 0, rq_Attempt := rq_Attempt q + 1\<rparr>"
    and d': "d' = putLease (rq_AccountID q) (cl_Lease cl) (putRequest (cl_Request cl) d1)"
  have inv': "store_inv d'" using ClaimNext_inv assms by blast
  have gr: "GetRequest i y = Inr z \<longleftrightarrow> kget (db_requests y) i = Some (Json z)" if "store_inv y" for i y z
    using requestFromTx_inv [OF store_invD(4) [OF that]] by (simp add: GetRequest_def view_def)
  have acct: "GetAccount (rq_AccountID q) d' = Inr (tr_State (cl_Transition cl))"
    using applyEventTx_refines(1) [OF e] by (auto simp: d' GetAccount_def view_def putLease_def putRequest_def claimEvent_def)
  moreover have reqd: "GetRequest (rq_RequestID q) d' = Inr (cl_Request cl)"
    using gr [OF inv'] by (simp add: d' putLease_def putRequest_def r)
  moreover have "sn_Status (tr_State (cl_Transition cl)) = Starting \<and> sn_RequestID (tr_State (cl_Transition cl)) = rq_RequestID q"
    using active_request_mirrors [OF inv' reqd] acct r by auto
  moreover have lv: "liveLeases (ca_now x) d' = insert (rq_AccountID q) (liveLeases (ca_now x) d)"
    unfolding d' using applyEventTx_refines(3) [OF e] l by (intro liveLeases_putLease) simp_all
  moreover have "int (card (liveLeases (ca_now x) d')) \<le> m"
    using q(4,5) lv finite_liveLeases by simp
  moreover have "GetLease (rq_AccountID q) d' = Inr (Some (cl_Lease cl))"
    using leaseFromTx_Some [OF store_invD(8) [OF inv'], of "rq_AccountID q" "cl_Lease cl"] acct
    by (simp add: GetLease_def GetAccount_def view_def) (simp add: d' putLease_def)
  ultimately show ?thesis
    using q fifo l r gr [OF assms(1)] by (intro exI [of _ q] exI [of _ "tr_State (cl_Transition cl)"]) auto
qed

section \<open>Properties of submissions and finished work\<close>

text \<open>
  C14. A submission is answered once and for ever: after it succeeded, and after any further run
  of the store, submitting the same request again returns the stored request as already known and
  writes nothing, whatever event comes with it.
\<close>

theorem submission_permanent:
  assumes "store_inv d" "SubmitRequest c q e d = (Inr (q1, k), d')" "storeRun d' d''"
    and "Event_Validate f = Inr ()" "ev_AccountID f = rq_AccountID q" "ev_RequestID f = rq_RequestID q"
    and "ev_From f = NoRequest" "ev_To f = Queued" "c' d'' = None"
  shows "\<exists>q2. SubmitRequest c' q f d'' = (Inr (q2, True), d'') \<and> requestSubmissionEqual q2 q"
proof -
  have u: "Request_Validate q = Inr ()" "rq_State q = NoRequest" "ev_RequestID e = rq_RequestID q" "ev_To e = Queued"
      "submitTx q e d = Inr ((q1, k), d')"
    using SubmitRequest_update [OF assms(2)] by (auto simp: update_Inr)
  have inv': "store_inv d'" using SubmitRequest_inv assms(1,2) by blast
  obtain x where x: "kget (db_requests d') (rq_RequestID q) = Some (Json x)" "rq_State x \<noteq> NoRequest"
      "requestSubmissionEqual x q"
    using submitTx_result [OF assms(1) u(1,3,4,5)] by blast
  obtain y where y: "kget (db_requests d'') (rq_RequestID q) = Some (Json y)" "laterRequest x y"
    using storeRun_keeps [OF assms(3) inv'] x(1) unfolding keepsRequests_def by blast
  then have "requestSubmissionEqual y q" "rq_State y \<noteq> NoRequest"
    using x(2,3) by (auto simp: laterRequest_def sameRequest_def requestSubmissionEqual_def)
  then show ?thesis
    using resubmit [of d'' q y f c'] storeRun_inv [OF assms(3) inv'] y(1) u(1,2) assms(4-9) by blast
qed

text \<open>
  C15. Completion is fenced: a worker can complete a request only while the store holds the lease
  it names, under its own owner id and unexpired at the time of the event; completing releases
  the lease. If the lease was replaced or has run out, the completion of a not yet recorded event
  is refused and the database is unchanged.
\<close>

theorem CompleteRequestOwned_fenced:
  assumes "store_inv d" "CompleteRequestOwned c e l d = (r, d')"
  shows "case r of
     Inl x \<Rightarrow> d' = d
   | Inr t \<Rightarrow> tr_Idempotent t \<and> d' = d \<or>
       (\<exists>cur. GetLease (ev_AccountID e) d = Inr (Some cur) \<and> ls_LeaseID cur = ls_LeaseID l \<and>
          ls_Owner cur = ls_Owner l \<and> ev_OccurredAt e < ls_ExpiresAt cur) \<and>
       GetLease (ev_AccountID e) d' = Inr None \<and>
       GetAccount (ev_AccountID e) d' = Inr (tr_State t) \<and> sn_Status (tr_State t) = ev_To e"
proof (cases r)
  case (Inl x)
  then show ?thesis
    using assms(2) by (auto simp: CompleteRequestOwned_def completeRequest_def split: if_splits dest: update_Inl)
next
  case (Inr t)
  then have tx: "finishTx e (Some l) False False d = Inr (t, d')"
    using assms(2) by (auto simp: CompleteRequestOwned_def completeRequest_def update_Inr split: if_splits)
  show ?thesis
  proof (cases "tr_Idempotent t")
    case True
    then have "d' = d" using tx applyEventTx_replay by (fastforce simp: finishTx_def split: if_splits)
    with True Inr show ?thesis by simp
  next
    case False
    note f = finishTx_new [OF assms(1) tx False]
    obtain s where s: "snapshotFromTx d (ev_AccountID e) = Inr s"
      using tx applyEventTx_refines(1) by (fastforce simp: finishTx_def)
    have "leaseFromTx d' (ev_AccountID e) = Inr None" using f(2) by (simp add: leaseFromTx_def)
    moreover obtain cur where "leaseFromTx d (ev_AccountID e) = Inr (Some cur)" "ls_LeaseID cur = ls_LeaseID l"
        "ls_Owner cur = ls_Owner l" "ev_OccurredAt e < ls_ExpiresAt cur"
      using f(1) leaseFromTx_Some [OF store_invD(8) [OF assms(1)]] by auto
    ultimately show ?thesis
      using Inr f(3,4) s by (simp add: GetLease_def GetAccount_def view_def)
  qed
qed

section \<open>Properties of failures, the queue index, the outbox and deletions\<close>

text \<open>
  A retried failure is one atomic step: only the holder of the lease can record it, it leaves
  the account QUEUED again two revisions later without a lease, and the request cannot be claimed
  before the time of its next attempt.
\<close>

theorem RecordFailureOwned_retry:
  assumes "store_inv d" "RecordFailureOwned c e class at (Some re) l ax d = (Inr fr, d')"
    and "\<not> tr_Idempotent (fr_Failed fr)"
  shows "(\<exists>cur. GetLease (ev_AccountID e) d = Inr (Some cur) \<and> ls_LeaseID cur = ls_LeaseID l \<and>
       ls_Owner cur = ls_Owner l \<and> (if ax then cur = l else ev_OccurredAt e < ls_ExpiresAt cur)) \<and>
     GetLease (ev_AccountID e) d' = Inr None \<and>
     (\<exists>s s'. GetAccount (ev_AccountID e) d = Inr s \<and> GetAccount (ev_AccountID e) d' = Inr s' \<and>
        sn_Status s' = Queued \<and> sn_Revision s' = sn_Revision s + 2) \<and>
     GetRequest (ev_RequestID e) d' = Inr (fr_Request fr) \<and>
     rq_LastFailure (fr_Request fr) = class \<and> (\<forall>now < at. \<not> dueAt now (fr_Request fr))"
proof -
  have at: "at \<noteq> 0" and tx: "failureTx e class at (Some re) (Some l) ax d = Inr (fr, d')"
    using assms(2) by (auto simp: RecordFailureOwned_def recordFailure_def update_Inr split: if_splits)
  have inv': "store_inv d'" by (rule failureTx_inv [OF assms(1) at tx])
  obtain cur and t :: TransitionResult where f: "kget (db_leases d) (ev_AccountID e) = Some (Json cur)" "ls_LeaseID cur = ls_LeaseID l"
       "ls_Owner cur = ls_Owner l" "if ax then cur = l else ev_OccurredAt e < ls_ExpiresAt cur"
       "kget (db_leases d') (ev_AccountID e) = None"
       "sn_Revision (tr_State t) = sn_Revision (tr_State (fr_Failed fr)) + 1"
       "snapshotFromTx d' (ev_AccountID e) = Inr (tr_State t)" "sn_Status (tr_State t) = Queued"
       "kget (db_requests d') (ev_RequestID e) = Some (Json (fr_Request fr))"
       "rq_NotBefore (fr_Request fr) = at" "rq_LastFailure (fr_Request fr) = class"
    using failureTx_retry [OF assms(1) at tx assms(3)] by blast
  obtain d1 where a: "applyEventTx e d = Inr (fr_Failed fr, d1)"
    by (rule failureTx_new [OF tx assms(3)])
  obtain s where s: "snapshotFromTx d (ev_AccountID e) = Inr s" "Apply s e = Inr (fr_Failed fr)"
    using applyEventTx_refines(1) [OF a] by blast
  have "sn_Revision (tr_State (fr_Failed fr)) = sn_Revision s + 1" by (rule Apply_new_event(13) [OF s(2) assms(3)])
  moreover have "leaseFromTx d (ev_AccountID e) = Inr (Some cur)"
    using f(1) leaseFromTx_Some [OF store_invD(8) [OF assms(1)]] by blast
  moreover have "leaseFromTx d' (ev_AccountID e) = Inr None" using f(5) by (simp add: leaseFromTx_def)
  moreover have "requestFromTx d' (ev_RequestID e) = Inr (fr_Request fr)"
    using f(9) by (simp add: requestFromTx_inv [OF store_invD(4) [OF inv']])
  ultimately show ?thesis
    using f s(1) by (auto simp: GetLease_def GetAccount_def GetRequest_def view_def dueAt_def)
qed

text \<open>
  C17. The queue index is exact after every opening of the store: from whatever the index held
  before, the rebuild succeeds on stored requests that validate (a missing due time counts as the
  creation time) and leaves one key for every queued request and no other, and its byte order is
  the creation order, ties broken by the request id.
\<close>

theorem rebuildQueueIndex_exact:
  assumes "storedRequests d" "\<And>x. commit x = None"
  shows "\<exists>d'. rebuildQueueIndex commit d = (Inr (), d') \<and>
     (\<forall>k i. kget (db_queue d') k = Some i \<longleftrightarrow>
        (\<exists>q. kget (db_requests d') i = Some (Json q) \<and> rq_State q = Queued \<and> k = queueKey (rq_CreatedAt q) i)) \<and>
     (\<forall>p q. unixRange (rq_CreatedAt p) \<longrightarrow> unixRange (rq_CreatedAt q) \<longrightarrow>
        (queueKey (rq_CreatedAt p) (rq_RequestID p) < queueKey (rq_CreatedAt q) (rq_RequestID q) \<longleftrightarrow>
         queueOrder p < queueOrder q))"
proof -
  let ?d = "d\<lparr>db_queue := rebuiltQueue d, db_requests := rebuiltRequests d\<rparr>"
  have "rebuildQueueIndex commit d = (Inr (), ?d)"
    using rebuildTx_ok(1) [OF assms(1)] assms(2) by (simp add: rebuildQueueIndex_def update_def)
  moreover have "\<forall>k i. kget (db_queue ?d) k = Some i \<longleftrightarrow>
        (\<exists>q. kget (db_requests ?d) i = Some (Json q) \<and> rq_State q = Queued \<and> k = queueKey (rq_CreatedAt q) i)"
    using rebuildTx_ok(2) [OF assms(1)] unfolding inv_queue_def .
  moreover have "\<forall>p q. unixRange (rq_CreatedAt p) \<longrightarrow> unixRange (rq_CreatedAt q) \<longrightarrow>
        (queueKey (rq_CreatedAt p) (rq_RequestID p) < queueKey (rq_CreatedAt q) (rq_RequestID q) \<longleftrightarrow>
         queueOrder p < queueOrder q)"
    by (auto simp: queueKey_less less_prod_def)
  ultimately show ?thesis by (intro exI [of _ ?d] conjI)
qed

text \<open>
  The bounded read of the outbox is a page of the full read: although the scan keeps at most
  offset plus limit notifications, it returns exactly that page of all selected notifications in
  creation order.
\<close>

theorem QueryNotifications_is_page:
  assumes "store_inv d" "QueryNotifications q d = Inr ns"
  shows "ns = take (nat (if nq_Limit q = 0 then 100 else nq_Limit q)) (drop (nat (nq_Offset q))
     (sortNotifications (filter (selectedBy q) (outbox d))))"
proof -
  let ?l = "if nq_Limit q = 0 then 100 else nq_Limit q"
  have g: "0 \<le> nq_Offset q" "1 \<le> ?l" "queryNotifications (q\<lparr>nq_Limit := ?l\<rparr>) True d = Inr ns"
    using assms(2) by (auto simp: QueryNotifications_def Let_def split: if_splits)
  have "selectedBy (q\<lparr>nq_Limit := ?l\<rparr>) = selectedBy q" by (intro ext) (simp add: selectedBy_def)
  then show ?thesis
    using queryNotifications_page [OF store_invD(9) [OF assms(1)], of "q\<lparr>nq_Limit := ?l\<rparr>"] g by simp
qed

text \<open>
  C19. Claims of the outbox exclude each other: a worker receives the oldest claimable
  notifications up to its limit and they are recorded under its name until the claim expires; and
  whatever the store does before that time, other workers' attempts and deliveries by the claimant
  included, no claim by any worker returns one of them again, unless the claimant itself gives it
  back by \<open>RetryNotification\<close>.
\<close>

theorem ClaimNotifications_exclusive:
  assumes "store_inv d" "0 < now" "ClaimNotifications c now owner ttl limit d = (Inr ns, d')"
    and "outboxRun (nt_EventID ` set ns) owner (Add now ttl) d' d2"
    and "0 < now'" "now' < Add now ttl" "ClaimNotifications c' now' owner' ttl' limit' d2 = (Inr ms, d3)"
  shows "ns = map (claimNotification now owner ttl) (claimBatch now limit d) \<and>
     int (length ns) \<le> limit \<and> sorted (map notificationKey ns) \<and>
     (\<forall>n \<in> set ns. kget (db_notifications d') (nt_EventID n) = Some (Json n) \<and>
        nt_ClaimedBy n = owner \<and> nt_ClaimExpiresAt n = Add now ttl) \<and>
     nt_EventID ` set ms \<inter> nt_EventID ` set ns = {}"
proof (intro conjI)
  note E = ClaimNotifications_effect [OF assms(1,2,3)]
  show ns: "ns = map (claimNotification now owner ttl) (claimBatch now limit d)" by (rule E(1))
  have "1 \<le> limit" "safeNotificationToken owner"
    using assms(3) by (auto simp: ClaimNotifications_def split: if_splits)
  then have o: "owner \<noteq> []" by (auto simp: safeNotificationToken_def)
  show "int (length ns) \<le> limit" using \<open>1 \<le> limit\<close> by (simp add: ns claimBatch_def)
  have "sorted (map notificationKey (claimBatch now limit d))"
    unfolding claimBatch_def sortNotifications_def take_map [symmetric] by (intro sorted_wrt_take) simp
  then show "sorted (map notificationKey ns)" by (simp add: ns comp_def)
  show st: "\<forall>n \<in> set ns. kget (db_notifications d') (nt_EventID n) = Some (Json n) \<and>
        nt_ClaimedBy n = owner \<and> nt_ClaimExpiresAt n = Add now ttl"
    using E(2) ns by auto
  have "\<forall>i \<in> nt_EventID ` set ns. claimHolds owner (Add now ttl) d' i"
    using st by (auto simp: claimHolds_def)
  then have "store_inv d2" "\<forall>i \<in> nt_EventID ` set ns. claimHolds owner (Add now ttl) d2 i"
    using outboxRun_holds [OF assms(4) E(4) _ o] by blast+
  then show "nt_EventID ` set ms \<inter> nt_EventID ` set ns = {}"
    using claimHolds_claim(2) [OF _ _ assms(5,6) o assms(7) HOL.refl] by blast
qed

text \<open>
  C20. Deletion is durable: an accepted deletion event changes the stored deletion exactly as the
  deletion machine does; and from then on, along every run of the store, the account keeps a
  deletion record, every stored request of it was stored before, and neither \<open>SubmitRequest\<close> nor
  \<open>CreateRequest\<close> accepts a request of the account under a key that is not known.
\<close>

theorem AdvanceDeletion_refines:
  assumes "store_inv d" "AdvanceDeletion c e d = (Inr t, d')" "storeRun d' d2"
  shows "(\<exists>x. kget (db_deletions d) (de_AccountID e) = Some (Json x) \<and> ApplyDeletion x e = Inr t) \<and>
     kget (db_deletions d') (de_AccountID e) = Some (Json (dt_State t)) \<and>
     DeletionSnapshot_Validate (dt_State t) = Inr () \<and>
     (\<exists>y. kget (db_deletions d2) (de_AccountID e) = Some (Json y)) \<and>
     (\<forall>i q. GetRequest i d2 = Inr q \<and> rq_AccountID q = de_AccountID e \<longrightarrow>
        (\<exists>p. GetRequest i d' = Inr p \<and> rq_AccountID p = de_AccountID e)) \<and>
     (\<forall>q. rq_AccountID q = de_AccountID e \<and> kget (db_idempotency d2) (rq_IdempotencyKey q) = None \<longrightarrow>
        (\<exists>err. CreateRequest c' q d2 = (Inl err, d2)) \<and> (\<exists>err. SubmitRequest c' q f d2 = (Inl err, d2)))"
proof -
  have inv': "store_inv d'" using AdvanceDeletion_inv assms(1,2) by blast
  have tx: "advanceDeletionTx e d = Inr (t, d')"
    using assms(2) by (auto simp: AdvanceDeletion_def update_Inr split: sum.splits)
  then obtain x where x: "kget (db_deletions d) (de_AccountID e) = Some (Json x)" "ApplyDeletion x e = Inr t"
    by (auto simp: advanceDeletionTx_def split: option.splits if_splits)
  have xa: "ds_AccountID x = de_AccountID e"
    using store_invD(10) [OF assms(1)] x(1) unfolding inv_deletions_def by blast
  have st: "kget (db_deletions d') (de_AccountID e) = Some (Json (dt_State t))"
  proof (cases "lookupDeletionEvent x (de_EventID e)")
    case None
    note N = ApplyDeletion_new [OF None x(2)]
    obtain m where m: "ds_AppliedEvents x = Some m" using N(1) by (auto simp: DeletionSnapshot_Validate_iff deletionIndex_def)
    have "ds_AccountID (dt_State t) = de_AccountID e"
      using nextDeletion_fields(2) [OF m, of e] N(12) xa by simp
    then show ?thesis using tx x N(14) by (auto simp: advanceDeletionTx_def putDeletion_def)
  next
    case (Some p)
    then have "dt_State t = x" "dt_Idempotent t" using x(2) by (simp_all add: ApplyDeletion_known)
    then show ?thesis using tx x by (simp add: advanceDeletionTx_def)
  qed
  have v: "DeletionSnapshot_Validate (dt_State t) = Inr ()" by (rule ApplyDeletion_valid [OF x(2)])
  have inv2: "store_inv d2" by (rule storeRun_inv [OF assms(3) inv'])
  note G = shieldedD [OF storeRun_shielded [OF assms(3) inv']]
  have "kget (db_deletions d2) (de_AccountID e) \<noteq> None" using G(2) st by simp
  then obtain y where y: "kget (db_deletions d2) (de_AccountID e) = Some (Json y)"
    using store_invD(10) [OF inv2] unfolding inv_deletions_def by blast
  have old: "\<exists>p. GetRequest i d' = Inr p \<and> rq_AccountID p = de_AccountID e"
    if q: "GetRequest i d2 = Inr q" "rq_AccountID q = de_AccountID e" for i q
  proof -
    have r: "kget (db_requests d2) i = Some (Json q)"
      using q(1) requestFromTx_inv [OF store_invD(4) [OF inv2]] by (simp add: GetRequest_def view_def)
    then obtain p where p: "kget (db_requests d') i = Some (Json p)" using G(3) [OF r] st q(2) by auto
    moreover have "rq_AccountID p = rq_AccountID q"
      using G(1) p r by (fastforce simp: keepsRequests_def laterRequest_def sameRequest_def)
    ultimately show ?thesis
      using q(2) requestFromTx_inv [OF store_invD(4) [OF inv']] by (simp add: GetRequest_def view_def)
  qed
  have none: "createRequestTx q d2 \<noteq> Inr r"
    if "rq_AccountID q = de_AccountID e" "kget (db_idempotency d2) (rq_IdempotencyKey q) = None" for q r
  proof
    assume "createRequestTx q d2 = Inr r"
    then obtain q' k z where "createRequestTx q d2 = Inr ((q', k), z)" by (metis prod.exhaust)
    then show False by (cases rule: createRequestTx_cases) (use that y in auto)
  qed
  have "(\<exists>err. CreateRequest c' q d2 = (Inl err, d2)) \<and> (\<exists>err. SubmitRequest c' q f d2 = (Inl err, d2))"
    if q: "rq_AccountID q = de_AccountID e" "kget (db_idempotency d2) (rq_IdempotencyKey q) = None" for q
  proof -
    obtain err where "createRequestTx q d2 = Inl err" using none [OF q] by (cases "createRequestTx q d2") auto
    then show ?thesis using q(2)
      by (auto simp: CreateRequest_def SubmitRequest_def submitTx_def submitRequestTx_def update_def split: sum.splits)
  qed
  with x st v y old show ?thesis by blast
qed

text \<open>
  The store is no stricter than the account machine: for an account with a request, an event
  that the machine accepts as new, under an unused event id and not before the request was created,
  is accepted by the store whenever the engine commits it, and the account then reads back as the
  machine's result.
\<close>

theorem ApplyEvent_accepts:
  assumes "store_inv d" "GetAccount (ev_AccountID e) d = Inr s" "Apply s e = Inr t" "\<not> tr_Idempotent t"
    and "sn_Status s \<noteq> NoRequest" "GetRequest (ev_RequestID e) d = Inr q" "rq_CreatedAt q \<le> ev_OccurredAt e"
    and "kget (db_events d) (ev_EventID e) = None" "kget (db_notifications d) (ev_EventID e) = None"
    and "safeNotificationToken (ev_EventID e)" "safeNotificationToken (ev_AccountID e)"
      "safeNotificationToken (ev_RequestID e)" "\<And>x. c x = None"
  shows "\<exists>d'. ApplyEvent c e d = (Inr t, d') \<and> GetAccount (ev_AccountID e) d' = Inr (tr_State t)"
proof -
  obtain d' where a: "applyEventTx e d = Inr (t, d')"
    using applyEventTx_progress [of d e s t q] assms by (auto simp: GetAccount_def GetRequest_def view_def)
  then show ?thesis
    using applyEventTx_refines(1) [OF a] assms(13)
    by (intro exI [of _ d']) (auto simp: ApplyEvent_def update_def GetAccount_def view_def)
qed

section \<open>Witnesses\<close>

theorem store_always_consistent_witness: "store_inv demoDB3"
  by (rule store_always_consistent [OF demo_run(3)])

theorem ApplyEvent_refines_Apply_witness:
  "GetAccount ''acct-1'' demoDB2 = Inr demoQueued \<and>
     (\<exists>q. GetRequest ''req-1'' demoDB2 = Inr q \<and> rq_State q = Queued)"
proof -
  have "ApplyEvent okCommit demoQueue demoDB1r = (Inr demoResult, demoDB2)"
    by (simp add: ApplyEvent_def update_def okCommit_def demo_submit_event)
  from ApplyEvent_refines_Apply [OF demoDB1r_inv this] show ?thesis
    by (auto simp: demo_ids demoResult_def)
qed

theorem one_active_request_witness:
  "\<exists>s. GetAccount ''acct-1'' demoDB2 = Inr s \<and> sn_RequestID s = ''req-1'' \<and> sn_Status s = Queued"
proof -
  have g: "GetRequest ''req-1'' demoDB2 = Inr demoQueuedRequest" by (simp add: GetRequest_def view_def demoDB2_request)
  from one_active_request [OF demo_run(2) g g] show ?thesis by (simp add: demoQueuedRequest_def demoRequest_def)
qed

theorem ClaimNext_fifo_bounded_witness:
  "GetLease ''acct-1'' demoDB3 = Inr (Some demoLease) \<and> int (card (liveLeases 10 demoDB3)) \<le> 1"
proof -
  have "0 < ca_now demoClaimArgs" "kget (db_events demoDB2) (ca_eventID demoClaimArgs) = None"
    by (simp_all add: demoClaimArgs_def demoDB2_sel)
  from ClaimNext_fifo_bounded [OF demoDB2_inv this demo_claim] obtain q where q: "GetLease (rq_AccountID q) demoDB3 = Inr (Some demoLease)"
      "demoClaimedRequest = q\<lparr>rq_State := Starting, rq_UpdatedAt := 10, rq_NotBefore := 0, rq_Attempt := rq_Attempt q + 1\<rparr>"
      "int (card (liveLeases 10 demoDB3)) \<le> 1"
    by (auto simp: demoClaim_def demoClaimArgs_def)
  moreover have "rq_AccountID q = ''acct-1''"
    using arg_cong [OF q(2), of rq_AccountID] by (simp add: demoClaimedRequest_def demoQueuedRequest_def demoRequest_def)
  ultimately show ?thesis by simp
qed

theorem submission_permanent_witness:
  "\<exists>q2. SubmitRequest okCommit demoRequest demoQueue demoDB3 = (Inr (q2, True), demoDB3) \<and>
     requestSubmissionEqual q2 demoRequest"
proof -
  have "storeRun demoDB2 demoDB3"
    by (rule storeRun.step [OF storeRun.start storeStep.claim_next [OF _ demo_claim]]) (simp add: demoClaimArgs_def)
  moreover have "Event_Validate demoQueue = Inr ()"
    using Apply_new_event(10) [OF demo_apply] by (simp add: Event_Validate_def)
  ultimately show ?thesis
    by (intro submission_permanent [OF demoDB1_inv demo_submit])
      (simp_all add: demoQueue_def demoRequest_def okCommit_def)
qed

theorem CompleteRequestOwned_fenced_witness:
  "\<exists>t d'. CompleteRequestOwned okCommit demoStop demoLease demoDB3 = (Inr t, d') \<and>
     GetLease ''acct-1'' d' = Inr None \<and> sn_Status (tr_State t) = Blocked"
proof -
  obtain t d' where c: "CompleteRequestOwned okCommit demoStop demoLease demoDB3 = (Inr t, d')" "\<not> tr_Idempotent t"
    using demo_stop by blast
  from CompleteRequestOwned_fenced [OF demoDB3_inv c(1)] c show ?thesis by (auto simp: demoStop_def)
qed

theorem RecordFailureOwned_retry_witness:
  "\<exists>fr d' s'. RecordFailureOwned okCommit demoFail TransientFailure 100 (Some demoRetry) demoLease False demoDB4 = (Inr fr, d') \<and>
     GetLease ''acct-1'' d' = Inr None \<and> GetAccount ''acct-1'' d' = Inr s' \<and> sn_Status s' = Queued \<and>
     \<not> dueAt 99 (fr_Request fr)"
proof -
  obtain fr d' where c: "RecordFailureOwned okCommit demoFail TransientFailure 100 (Some demoRetry) demoLease False demoDB4 = (Inr fr, d')"
      "\<not> tr_Idempotent (fr_Failed fr)"
    using demo_fail by blast
  have "store_inv demoDB4" using demoDB4_at(1) by (simp add: demoAt_def)
  from RecordFailureOwned_retry [OF this c] c show ?thesis by (auto simp: demoFail_def)
qed

theorem rebuildQueueIndex_exact_witness:
  "\<exists>d'. rebuildQueueIndex okCommit (demoDB2\<lparr>db_queue := kempty\<rparr>) = (Inr (), d') \<and>
     kget (db_queue d') (queueKey 5 ''req-1'') = Some ''req-1''"
proof -
  have st: "storedRequests (demoDB2\<lparr>db_queue := kempty\<rparr>)"
    using demoRequest_valid(2)
    by (auto simp: storedRequests_def demoDB2_sel filled_def demoQueuedRequest_def demoRequest_def)
  have c: "okCommit x = None" for x by (simp add: okCommit_def)
  obtain d' where d': "rebuildQueueIndex okCommit (demoDB2\<lparr>db_queue := kempty\<rparr>) = (Inr (), d')"
     "\<forall>k i. kget (db_queue d') k = Some i \<longleftrightarrow>
        (\<exists>q. kget (db_requests d') i = Some (Json q) \<and> rq_State q = Queued \<and> k = queueKey (rq_CreatedAt q) i)"
    using rebuildQueueIndex_exact [OF st, of okCommit] c by blast
  have "db_requests d' = rebuiltRequests (demoDB2\<lparr>db_queue := kempty\<rparr>)"
    using d'(1) rebuildTx_ok(1) [OF st] by (auto simp: rebuildQueueIndex_def update_def okCommit_def)
  then have "kget (db_requests d') ''req-1'' = Some (Json demoQueuedRequest)"
    by (simp add: rebuiltRequests_def demoDB2_sel queuedEntries_def) (simp add: demoQueuedRequest_def demoRequest_def filled_def)
  with d' show ?thesis by (intro exI [of _ d']) (auto simp: demoQueuedRequest_def demoRequest_def)
qed

lemma demoDB2_outbox: "outbox demoDB2 = [newNotification demoQueue demoQueuedRequest]"
  by (simp add: outbox_def demoDB2_sel)

definition demoQuery :: NotificationQuery where
  "demoQuery = \<lparr>nq_AccountID = ''acct-1'', nq_RequestID = [], nq_Since = 0, nq_Until = 0, nq_Offset = 0, nq_Limit = 2\<rparr>"

lemma demo_sel:
  "nt_AccountID (newNotification demoQueue demoQueuedRequest) = ''acct-1''"
  "nt_EventID (newNotification demoQueue demoQueuedRequest) = ''ev-1''"
  "nt_DeliveredAt (newNotification demoQueue demoQueuedRequest) = 0"
  "nt_NextAttemptAt (newNotification demoQueue demoQueuedRequest) = 5"
  "nt_ClaimedBy (newNotification demoQueue demoQueuedRequest) = []"
  by (simp_all add: newNotification_def demoQueuedRequest_def demoRequest_def demo_ids)

theorem QueryNotifications_is_page_witness:
  "\<exists>ns. QueryNotifications demoQuery demoDB2 = Inr ns \<and> length ns = 1"
proof -
  have "selectedBy q (newNotification demoQueue demoQueuedRequest)" if "nq_AccountID q = ''acct-1''" "nq_RequestID q = []"
      "nq_Since q = 0" "nq_Until q = 0" for q
    using that by (simp add: selectedBy_def withinNotificationWindow_def demo_sel)
  then have "\<exists>ns. QueryNotifications demoQuery demoDB2 = Inr ns"
    using demo_notification
    by (simp add: QueryNotifications_def demoQuery_def queryNotifications_def Let_def view_def demoDB2_sel queryEntry_def
        appendBoundedNotifications_def go_simps TrimSpace_plain_Cons)
  then obtain ns where "QueryNotifications demoQuery demoDB2 = Inr ns" ..
  moreover from QueryNotifications_is_page [OF demoDB2_inv this] have "length ns = 1"
    by (simp add: demoDB2_outbox demoQuery_def selectedBy_def withinNotificationWindow_def demo_sel sortNotifications_def)
  ultimately show ?thesis by blast
qed

abbreviation demoClaimed :: Notification where
  "demoClaimed \<equiv> claimNotification 10 ''w1'' 100 (newNotification demoQueue demoQueuedRequest)"

lemma demo_outbox_claim: "ClaimNotifications okCommit 10 ''w1'' 100 5 demoDB2 = (Inr [demoClaimed], putNotification demoClaimed demoDB2)"
proof -
  have "foldE (claimableEntry 10) (kentries (db_notifications demoDB2)) [] = Inr [newNotification demoQueue demoQueuedRequest]"
    using demo_notification by (simp add: demoDB2_sel claimableEntry_def claimable_def demo_sel)
  moreover have "nt_Attempt (newNotification demoQueue demoQueuedRequest) \<noteq> maxInt64"
    by (simp add: newNotification_def maxInt64_def)
  ultimately have "claimNotificationsTx 10 ''w1'' 100 5 demoDB2 = Inr ([demoClaimed], putNotification demoClaimed demoDB2)"
    by (simp add: claimNotificationsTx_def sortNotifications_def Let_def)
  then show ?thesis by (simp add: ClaimNotifications_def update_def okCommit_def go_simps)
qed

lemma demo_outbox_wait:
  "ClaimNotifications okCommit 20 ''w2'' 100 5 (putNotification demoClaimed demoDB2) = (Inr [], putNotification demoClaimed demoDB2)"
proof -
  have s: "nt_EventID demoClaimed = ''ev-1''" "nt_ClaimedBy demoClaimed = ''w1''" "nt_ClaimExpiresAt demoClaimed = 110"
    by (simp_all add: claimNotification_def demo_sel Add_def second_def maxInt64_def)
  have "store_inv (putNotification demoClaimed demoDB2)"
    by (rule ClaimNotifications_effect(4) [OF demoDB2_inv _ demo_outbox_claim]) simp
  then have "inv_notifications (putNotification demoClaimed demoDB2)" by (rule store_invD(9))
  moreover have "kget (db_notifications (putNotification demoClaimed demoDB2)) ''ev-1'' = Some (Json demoClaimed)"
    using s(1) by (simp add: putNotification_def)
  ultimately have "Notification_Validate demoClaimed = Inr ()" unfolding inv_notifications_def by blast
  then have "foldE (claimableEntry 20) (kentries (db_notifications (putNotification demoClaimed demoDB2))) [] = Inr []"
    using s by (simp add: putNotification_def demoDB2_sel claimableEntry_def claimable_def)
  then have "claimNotificationsTx 20 ''w2'' 100 5 (putNotification demoClaimed demoDB2) = Inr ([], putNotification demoClaimed demoDB2)"
    by (simp add: claimNotificationsTx_def sortNotifications_def)
  then show ?thesis by (simp add: ClaimNotifications_def update_def okCommit_def go_simps)
qed

theorem ClaimNotifications_exclusive_witness:
  "kget (db_notifications (putNotification demoClaimed demoDB2)) ''ev-1'' = Some (Json demoClaimed) \<and> nt_ClaimedBy demoClaimed = ''w1''"
proof -
  have "20 < Add 10 100" by (simp add: Add_def second_def maxInt64_def)
  from ClaimNotifications_exclusive [OF demoDB2_inv _ demo_outbox_claim outboxRun.o_none _ this demo_outbox_wait] show ?thesis
    by (simp add: claimNotification_def demo_sel)
qed

definition demoDB1d :: db where
  "demoDB1d = demoDB1\<lparr>db_deletions := kput ''acct-1'' (Json demoDeletion) kempty\<rparr>"

lemma demo_advance: "AdvanceDeletion okCommit demoBlock demoDB1d =
    (Inr \<lparr>dt_State = demoBlocked, dt_Audit = \<lparr>da_Event = demoBlock, da_Revision = 1\<rparr>, dt_Idempotent = False\<rparr>,
     demoDB1\<lparr>db_deletions := kput ''acct-1'' (Json demoBlocked) (kput ''acct-1'' (Json demoDeletion) kempty)\<rparr>)"
proof -
  have "DeletionSnapshot_Validate demoBlocked = Inr ()" using ApplyDeletion_valid [OF demo_block_apply] by simp
  moreover have "ds_AccountID demoBlocked = ''acct-1''" "de_AccountID demoBlock = ''acct-1''"
    by (simp_all add: demoBlocked_def demoDeletion_def demoBlock_def)
  moreover have "DeletionEvent_Validate demoBlock = Inr ()"
    by (simp add: DeletionEvent_Validate_iff demoBlock_def validFailureClassDeletion_def go_simps)
  ultimately show ?thesis
    by (simp add: AdvanceDeletion_def update_def okCommit_def advanceDeletionTx_def demoDB1d_def demo_block_apply putDeletion_def)
qed

theorem AdvanceDeletion_refines_witness:
  "\<exists>err. SubmitRequest okCommit demoRequest demoQueue (snd (AdvanceDeletion okCommit demoBlock demoDB1d)) =
      (Inl err, snd (AdvanceDeletion okCommit demoBlock demoDB1d))"
proof -
  have "inv_deletions demoDB1d"
    using demo_deletion_valid by (simp add: inv_deletions_def demoDB1d_def) (simp add: demoDeletion_def)
  then have "store_inv demoDB1d" using demoDB1_inv store_inv_deletions by (simp add: demoDB1d_def)
  moreover have "rq_AccountID demoRequest = de_AccountID demoBlock" by (simp add: demoRequest_def demoBlock_def)
  moreover have "kget (db_idempotency (snd (AdvanceDeletion okCommit demoBlock demoDB1d))) (rq_IdempotencyKey demoRequest) = None"
    by (simp add: demo_advance demoDB1_sel)
  ultimately show ?thesis
    using AdvanceDeletion_refines [OF _ demo_advance storeRun.start, of okCommit demoQueue] by (simp add: demo_advance)
qed

theorem ApplyEvent_accepts_witness:
  "\<exists>d'. ApplyEvent okCommit demoStart demoDB2 = (Inr demoStartResult, d') \<and> GetAccount ''acct-1'' d' = Inr demoStarting"
proof -
  have "GetAccount ''acct-1'' demoDB2 = Inr demoQueued" "GetRequest ''req-1'' demoDB2 = Inr demoQueuedRequest"
    by (simp_all add: GetAccount_def GetRequest_def view_def demoDB2_account demoDB2_request)
  then show ?thesis
    using ApplyEvent_accepts [OF demoDB2_inv _ demo_start_apply, of demoQueuedRequest okCommit]
    by (simp add: demo_start_ids demo_ids demoDB2_sel okCommit_def demoStartResult_def go_simps)
      (simp add: demoQueuedRequest_def demoRequest_def)
qed

end
