(* ===== verification/RequestLimiter.thy ===== *)
theory RequestLimiter
  imports GoLib Errors
begin

text \<open>
  internal/request/limiter.go: the sliding-window rate limiter of request submission. The limiter
  is guarded by one mutex, so its methods are functions on its state.
\<close>

abbreviation RateLimitScopeGlobal :: string where
  "RateLimitScopeGlobal \<equiv> ''global''"

abbreviation RateLimitScopeActor :: string where
  "RateLimitScopeActor \<equiv> ''actor''"

abbreviation RateLimitScopeRoom :: string where
  "RateLimitScopeRoom \<equiv> ''room''"

abbreviation RateLimitScopeAccount :: string where
  "RateLimitScopeAccount \<equiv> ''account''"

record RateLimitConfig =
  rc_GlobalLimit :: int
  rc_GlobalWindow :: duration
  rc_ActorLimit :: int
  rc_ActorWindow :: duration
  rc_RoomLimit :: int
  rc_RoomWindow :: duration
  rc_AccountLimit :: int
  rc_AccountWindow :: duration

definition validateRateLimit :: "int \<Rightarrow> duration \<Rightarrow> unit result" where
  "validateRateLimit limit window =
     (if limit < 0 \<or> 1000000 < limit then Inl (RequestErr ErrRateLimitConfig)
      else if window < 0 \<or> 24 * 3600 * second < window \<or> 0 < limit \<and> window \<le> 0
      then Inl (RequestErr ErrRateLimitConfig)
      else Inr ())"

definition RateLimitConfig_Validate :: "RateLimitConfig \<Rightarrow> unit result" where
  "RateLimitConfig_Validate c =
     bindE (validateRateLimit (rc_GlobalLimit c) (rc_GlobalWindow c)) (\<lambda>_.
     bindE (validateRateLimit (rc_ActorLimit c) (rc_ActorWindow c)) (\<lambda>_.
     bindE (validateRateLimit (rc_RoomLimit c) (rc_RoomWindow c)) (\<lambda>_.
     validateRateLimit (rc_AccountLimit c) (rc_AccountWindow c))))"

record rateLimitEntry =
  le_at :: gotime
  le_id :: uint64

record rateLimiter =
  rl_config :: RateLimitConfig
  rl_entries :: "(string, (string, rateLimitEntry list) kmap) kmap"
  rl_nextID :: uint64

definition newRateLimiter :: "RateLimitConfig \<Rightarrow> rateLimiter result" where
  "newRateLimiter config =
     bindE (RateLimitConfig_Validate config) (\<lambda>_.
     Inr \<lparr>rl_config = config, rl_entries = kempty, rl_nextID = 0\<rparr>)"

definition limiter_enabled :: "rateLimiter \<Rightarrow> bool" where
  "limiter_enabled l \<longleftrightarrow>
     0 < rc_GlobalLimit (rl_config l) \<or> 0 < rc_ActorLimit (rl_config l)
     \<or> 0 < rc_RoomLimit (rl_config l) \<or> 0 < rc_AccountLimit (rl_config l)"

record rateLimitKey =
  rk_scope :: string
  rk_key :: string

record rateLimitReservation =
  rr_id :: uint64
  rr_keys :: "rateLimitKey list"

record SubmitInput =
  si_RequestID :: string
  si_AccountID :: string
  si_IdempotencyKey :: string
  si_NotificationRoomID :: string
  si_Actor :: string
  si_Deadline :: gotime

definition limitFor :: "RateLimitConfig \<Rightarrow> string \<Rightarrow> int \<times> duration" where
  "limitFor c scope =
     (if scope = RateLimitScopeGlobal then (rc_GlobalLimit c, rc_GlobalWindow c)
      else if scope = RateLimitScopeActor then (rc_ActorLimit c, rc_ActorWindow c)
      else if scope = RateLimitScopeRoom then (rc_RoomLimit c, rc_RoomWindow c)
      else if scope = RateLimitScopeAccount then (rc_AccountLimit c, rc_AccountWindow c)
      else (0, 0))"

text \<open>A missing map or key reads as the empty slice.\<close>

definition pruneLocked :: "rateLimitKey \<Rightarrow> gotime \<Rightarrow> duration \<Rightarrow> rateLimiter \<Rightarrow> rateLimitEntry list \<times> rateLimiter" where
  "pruneLocked key now window l =
     (case kget (rl_entries l) (rk_scope key) of
        None \<Rightarrow> ([], l)
      | Some byKey \<Rightarrow>
          let entries = (case kget byKey (rk_key key) of None \<Rightarrow> [] | Some es \<Rightarrow> es);
              cutoff = Add now (- window);
              kept = filter (\<lambda>entry. After (le_at entry) cutoff) entries
          in if kept = []
             then ([], l\<lparr>rl_entries := kput (rk_scope key) (kdel (rk_key key) byKey) (rl_entries l)\<rparr>)
             else (kept, l\<lparr>rl_entries := kput (rk_scope key) (kput (rk_key key) kept byKey) (rl_entries l)\<rparr>))"

definition appendLocked :: "rateLimitEntry \<Rightarrow> rateLimitKey \<Rightarrow> rateLimiter \<Rightarrow> rateLimiter" where
  "appendLocked entry key l =
     (let byKey = (case kget (rl_entries l) (rk_scope key) of None \<Rightarrow> kempty | Some m \<Rightarrow> m);
          entries = (case kget byKey (rk_key key) of None \<Rightarrow> [] | Some es \<Rightarrow> es)
      in l\<lparr>rl_entries := kput (rk_scope key) (kput (rk_key key) (entries @ [entry]) byKey) (rl_entries l)\<rparr>)"

definition reservationKeys :: "RateLimitConfig \<Rightarrow> SubmitInput \<Rightarrow> rateLimitKey list" where
  "reservationKeys c input =
     (if 0 < rc_GlobalLimit c then [\<lparr>rk_scope = RateLimitScopeGlobal, rk_key = []\<rparr>] else []) @
     (if 0 < rc_ActorLimit c then [\<lparr>rk_scope = RateLimitScopeActor, rk_key = si_Actor input\<rparr>] else []) @
     (if 0 < rc_RoomLimit c \<and> si_NotificationRoomID input \<noteq> []
      then [\<lparr>rk_scope = RateLimitScopeRoom, rk_key = si_NotificationRoomID input\<rparr>] else []) @
     (if 0 < rc_AccountLimit c then [\<lparr>rk_scope = RateLimitScopeAccount, rk_key = si_AccountID input\<rparr>] else [])"

text \<open>The first loop of \<open>reserve\<close>: buckets are pruned even when a later one refuses.\<close>

fun checkLocked :: "rateLimitKey list \<Rightarrow> gotime \<Rightarrow> rateLimiter \<Rightarrow> unit result \<times> rateLimiter" where
  "checkLocked [] now l = (Inr (), l)"
| "checkLocked (key # keys) now l =
     (let (limit, window) = limitFor (rl_config l) (rk_scope key);
          (entries, l1) = pruneLocked key now window l
      in if limit \<le> int (length entries) then (Inl (RequestErr ErrRateLimited), l1)
         else checkLocked keys now l1)"

definition reserve :: "SubmitInput \<Rightarrow> gotime \<Rightarrow> rateLimiter \<Rightarrow> rateLimitReservation option result \<times> rateLimiter" where
  "reserve input now l =
     (if \<not> limiter_enabled l then (Inr None, l)
      else
        let keys = reservationKeys (rl_config l) input
        in case checkLocked keys now l of
             (Inl e, l1) \<Rightarrow> (Inl e, l1)
           | (Inr _, l1) \<Rightarrow>
               let l2 = l1\<lparr>rl_nextID := if rl_nextID l1 = - 1 then 1 else rl_nextID l1 + 1\<rparr>;
                   i = rl_nextID l2
               in (Inr (Some \<lparr>rr_id = i, rr_keys = keys\<rparr>),
                   fold (appendLocked \<lparr>le_at = now, le_id = i\<rparr>) keys l2))"

text \<open>The inner loop of \<open>rollback\<close>: the last entry with the id is removed.\<close>

fun removeFirst :: "('a \<Rightarrow> bool) \<Rightarrow> 'a list \<Rightarrow> 'a list" where
  "removeFirst P [] = []"
| "removeFirst P (x # xs) = (if P x then xs else x # removeFirst P xs)"

definition removeLast :: "('a \<Rightarrow> bool) \<Rightarrow> 'a list \<Rightarrow> 'a list" where
  "removeLast P xs = rev (removeFirst P (rev xs))"

definition rollbackKey :: "uint64 \<Rightarrow> rateLimitKey \<Rightarrow> rateLimiter \<Rightarrow> rateLimiter" where
  "rollbackKey i key l =
     (case kget (rl_entries l) (rk_scope key) of
        None \<Rightarrow> l
      | Some byKey \<Rightarrow>
          let entries = (case kget byKey (rk_key key) of None \<Rightarrow> [] | Some es \<Rightarrow> es);
              entries = removeLast (\<lambda>e. le_id e = i) entries
          in l\<lparr>rl_entries := kput (rk_scope key)
                (if entries = [] then kdel (rk_key key) byKey else kput (rk_key key) entries byKey) (rl_entries l)\<rparr>)"

definition rollback :: "rateLimitReservation option \<Rightarrow> rateLimiter \<Rightarrow> rateLimiter" where
  "rollback r l =
     (case r of None \<Rightarrow> l | Some r \<Rightarrow> fold (rollbackKey (rr_id r)) (rr_keys r) l)"

section \<open>Buckets\<close>

definition bucket :: "rateLimiter \<Rightarrow> rateLimitKey \<Rightarrow> rateLimitEntry list" where
  "bucket l key =
     (case kget (rl_entries l) (rk_scope key) of
        None \<Rightarrow> []
      | Some byKey \<Rightarrow> (case kget byKey (rk_key key) of None \<Rightarrow> [] | Some es \<Rightarrow> es))"

lemma key_eq: "(k :: rateLimitKey) = k' \<longleftrightarrow> rk_scope k = rk_scope k' \<and> rk_key k = rk_key k'"
  by (cases k; cases k') simp

lemma prune_bucket:
  assumes "pruneLocked k now w l = (es, l')"
  shows "es = filter (\<lambda>e. Add now (- w) < le_at e) (bucket l k)"
    and "bucket l' k' = (if k' = k then es else bucket l k')"
    and "rl_config l' = rl_config l" "rl_nextID l' = rl_nextID l"
  using assms
  by (auto simp: pruneLocked_def bucket_def key_eq Let_def filter_empty_conv split: option.splits if_splits)

lemma append_bucket [simp]:
  "bucket (appendLocked e k l) k' = (if k' = k then bucket l k @ [e] else bucket l k')"
  "rl_config (appendLocked e k l) = rl_config l" "rl_nextID (appendLocked e k l) = rl_nextID l"
  by (auto simp: appendLocked_def bucket_def key_eq Let_def split: option.splits)

lemma rollbackKey_bucket [simp]:
  "bucket (rollbackKey i k l) k' = (if k' = k then removeLast (\<lambda>e. le_id e = i) (bucket l k) else bucket l k')"
  "rl_config (rollbackKey i k l) = rl_config l" "rl_nextID (rollbackKey i k l) = rl_nextID l"
  by (auto simp: rollbackKey_def bucket_def key_eq Let_def removeLast_def split: option.splits)

lemma fold_append_bucket:
  "distinct ks \<Longrightarrow> bucket (fold (appendLocked e) ks l) k = (if k \<in> set ks then bucket l k @ [e] else bucket l k)"
  "rl_config (fold (appendLocked e) ks l) = rl_config l" "rl_nextID (fold (appendLocked e) ks l) = rl_nextID l"
  by (induction ks arbitrary: l) auto

lemma fold_rollback_bucket:
  "distinct ks \<Longrightarrow> bucket (fold (rollbackKey i) ks l) k =
     (if k \<in> set ks then removeLast (\<lambda>e. le_id e = i) (bucket l k) else bucket l k)"
  "rl_config (fold (rollbackKey i) ks l) = rl_config l" "rl_nextID (fold (rollbackKey i) ks l) = rl_nextID l"
  by (induction ks arbitrary: l) auto

abbreviation windowOf :: "RateLimitConfig \<Rightarrow> rateLimitKey \<Rightarrow> duration" where
  "windowOf c k \<equiv> snd (limitFor c (rk_scope k))"

abbreviation limitOf :: "RateLimitConfig \<Rightarrow> rateLimitKey \<Rightarrow> int" where
  "limitOf c k \<equiv> fst (limitFor c (rk_scope k))"

abbreviation inWindow :: "RateLimitConfig \<Rightarrow> gotime \<Rightarrow> rateLimitKey \<Rightarrow> rateLimitEntry \<Rightarrow> bool" where
  "inWindow c now k e \<equiv> Add now (- windowOf c k) < le_at e"

lemma checkLocked_bucket:
  assumes "checkLocked ks now l = (r, l')" "distinct ks"
  shows "rl_config l' = rl_config l" "rl_nextID l' = rl_nextID l"
    and "\<exists>done \<subseteq> set ks. \<forall>k. bucket l' k =
       (if k \<in> done then filter (inWindow (rl_config l) now k) (bucket l k) else bucket l k)"
    and "r = Inr u \<Longrightarrow> \<forall>k. bucket l' k =
       (if k \<in> set ks then filter (inWindow (rl_config l) now k) (bucket l k) else bucket l k)"
    and "r = Inr u \<Longrightarrow> \<forall>k \<in> set ks. int (length (bucket l' k)) < limitOf (rl_config l) k"
  using assms
proof (atomize (full), induction ks arbitrary: l)
  case Nil
  then show ?case by auto
next
  case (Cons k ks)
  obtain es l1 where p: "pruneLocked k now (windowOf (rl_config l) k) l = (es, l1)" by fastforce
  note P = prune_bucket [OF p]
  show ?case
  proof (cases "limitOf (rl_config l) k \<le> int (length es)")
    case True
    then show ?thesis
      using Cons.prems p P by (auto simp: split_beta Let_def intro!: exI [of _ "{k}"])
  next
    case False
    then have c: "checkLocked ks now l1 = (r, l')" using Cons.prems p by (auto simp: split_beta Let_def)
    have IH: "rl_config l' = rl_config l1" "rl_nextID l' = rl_nextID l1"
       "\<exists>done \<subseteq> set ks. \<forall>k. bucket l' k =
         (if k \<in> done then filter (inWindow (rl_config l1) now k) (bucket l1 k) else bucket l1 k)"
       "r = Inr u \<Longrightarrow> \<forall>k. bucket l' k =
         (if k \<in> set ks then filter (inWindow (rl_config l1) now k) (bucket l1 k) else bucket l1 k)"
       "r = Inr u \<Longrightarrow> \<forall>k \<in> set ks. int (length (bucket l' k)) < limitOf (rl_config l1) k"
      using Cons.IH [of l1] Cons.prems(2) c by auto
    obtain done0 where d: "done0 \<subseteq> set ks" "\<forall>k. bucket l' k =
         (if k \<in> done0 then filter (inWindow (rl_config l1) now k) (bucket l1 k) else bucket l1 k)"
      using IH(3) by blast
    have k: "k \<notin> set ks" using Cons.prems(2) by simp
    have "\<exists>done \<subseteq> set (k # ks). \<forall>k. bucket l' k =
       (if k \<in> done then filter (inWindow (rl_config l) now k) (bucket l k) else bucket l k)"
      using d P(1,2,3) k by (intro exI [of _ "insert k done0"]) auto
    then show ?thesis using IH(1,2,4,5) P k False by auto
  qed
qed

section \<open>Runs\<close>

text \<open>
  A run of the limiter with the log of the reservations that stand: a reservation is added when it
  is granted and leaves the log when it is rolled back. The clock does not go backwards, and
  fewer than \<open>2^64 - 1\<close> reservations are granted.
\<close>

inductive limiterRun :: "RateLimitConfig \<Rightarrow> gotime \<Rightarrow> (gotime \<times> rateLimitReservation) list \<Rightarrow> rateLimiter \<Rightarrow> bool"
  for c where
  created: "newRateLimiter c = Inr l \<Longrightarrow> limiterRun c 0 [] l"
| granted: "limiterRun c t log l \<Longrightarrow> t \<le> now \<Longrightarrow> clockTime now \<Longrightarrow> rl_nextID l \<noteq> - 1 \<Longrightarrow>
     reserve input now l = (Inr (Some r), l') \<Longrightarrow> limiterRun c now (log @ [(now, r)]) l'"
| denied: "limiterRun c t log l \<Longrightarrow> t \<le> now \<Longrightarrow> clockTime now \<Longrightarrow>
     reserve input now l = (Inl e, l') \<Longrightarrow> limiterRun c now log l'"
| rolled_back: "limiterRun c t log l \<Longrightarrow> (at, r) \<in> set log \<Longrightarrow>
     limiterRun c t (filter (\<lambda>p. rr_id (snd p) \<noteq> rr_id r) log) (rollback (Some r) l)"

text \<open>The entries of a key that the log accounts for, and the invariant that ties buckets to it.\<close>

definition logged :: "rateLimitKey \<Rightarrow> (gotime \<times> rateLimitReservation) list \<Rightarrow> rateLimitEntry list" where
  "logged k log = map (\<lambda>(at, r). \<lparr>le_at = at, le_id = rr_id r\<rparr>) (filter (\<lambda>p. k \<in> set (rr_keys (snd p))) log)"

definition limiterInv :: "RateLimitConfig \<Rightarrow> gotime \<Rightarrow> (gotime \<times> rateLimitReservation) list \<Rightarrow> rateLimiter \<Rightarrow> bool" where
  "limiterInv c t log l \<longleftrightarrow> rl_config l = c \<and> RateLimitConfig_Validate c = Inr () \<and> 0 \<le> t \<and>
     (\<forall>(at, r) \<in> set log. at \<le> t \<and> rr_id r \<le> rl_nextID l \<and> distinct (rr_keys r)) \<and>
     distinct (map (rr_id \<circ> snd) log) \<and>
     (\<forall>k. \<exists>x \<le> t - windowOf c k. bucket l k = filter (\<lambda>e. x < le_at e) (logged k log))"

lemma removeLast_filter: "distinct (map f xs) \<Longrightarrow> removeLast (\<lambda>x. f x = i) xs = filter (\<lambda>x. f x \<noteq> i) xs"
proof -
  have "distinct (map f ys) \<Longrightarrow> removeFirst (\<lambda>x. f x = i) ys = filter (\<lambda>x. f x \<noteq> i) ys" for ys
  proof (induction ys)
    case (Cons y ys)
    then show ?case by (auto simp: image_iff intro!: filter_True [symmetric])
  qed simp
  from this [of "rev xs"] show "distinct (map f xs) \<Longrightarrow> ?thesis"
    by (simp add: removeLast_def rev_map [symmetric] rev_filter)
qed

lemma window_exact:
  assumes "RateLimitConfig_Validate c = Inr ()" "clockTime now"
  shows "Add now (- windowOf c k) = now - windowOf c k" "0 \<le> windowOf c k"
proof -
  have w: "0 \<le> windowOf c k \<and> windowOf c k \<le> 24 * 3600 * second"
    using assms(1) by (auto simp: RateLimitConfig_Validate_def validateRateLimit_def limitFor_def second_def)
  then show "0 \<le> windowOf c k" by simp
  show "Add now (- windowOf c k) = now - windowOf c k"
  proof (subst Add_exact)
    have "(- (24 * 3600 * second)) div second \<le> (now + - windowOf c k) div second"
      using w assms(2) by (intro zdiv_mono1) (auto simp: clockTime_def second_def)
    then show "- (2 ^ 63) \<le> (now + - windowOf c k) div second" by (simp add: second_def)
    have "(now + - windowOf c k) div second \<le> (2 ^ 62 * second) div second"
      using w assms(2) by (intro zdiv_mono1) (auto simp: clockTime_def second_def)
    then show "(now + - windowOf c k) div second \<le> maxInt64" by (simp add: second_def maxInt64_def)
  qed simp
qed


lemma reservationKeys_ok:
  "distinct (reservationKeys c input)" "k \<in> set (reservationKeys c input) \<Longrightarrow> 0 < limitOf c k"
  by (auto simp: reservationKeys_def limitFor_def split: if_splits)

lemma reserve_cases:
  assumes "reserve input now l = (res, l')" "limiter_enabled l"
  obtains (deny) e where "checkLocked (reservationKeys (rl_config l) input) now l = (Inl e, l')" "res = Inl e"
  | (grant) l1 i where "checkLocked (reservationKeys (rl_config l) input) now l = (Inr (), l1)"
      "i = (if rl_nextID l1 = - 1 then 1 else rl_nextID l1 + 1)"
      "res = Inr (Some \<lparr>rr_id = i, rr_keys = reservationKeys (rl_config l) input\<rparr>)"
      "l' = fold (appendLocked \<lparr>le_at = now, le_id = i\<rparr>) (reservationKeys (rl_config l) input) (l1\<lparr>rl_nextID := i\<rparr>)"
  using assms by (auto simp: reserve_def Let_def split: prod.splits sum.splits)

lemma bucket_nextID [simp]: "bucket (l\<lparr>rl_nextID := i\<rparr>) k = bucket l k"
  by (simp add: bucket_def)

text \<open>Pruning some buckets at a later time keeps the invariant.\<close>

lemma limiterInv_prune:
  assumes inv: "limiterInv c t log l" and now: "t \<le> now" "clockTime now"
    and l': "rl_config l' = rl_config l" "rl_nextID l' = rl_nextID l"
    and b: "\<forall>k. bucket l' k = (if k \<in> done then filter (inWindow c now k) (bucket l k) else bucket l k)"
  shows "limiterInv c now log l'"
  unfolding limiterInv_def
proof (intro conjI allI)
  note I = inv [unfolded limiterInv_def]
  show "rl_config l' = c" "RateLimitConfig_Validate c = Inr ()" "distinct (map (rr_id \<circ> snd) log)" using I l' by auto
  show "0 \<le> now" using now by (simp add: clockTime_def)
  show "\<forall>(at, r) \<in> set log. at \<le> now \<and> rr_id r \<le> rl_nextID l' \<and> distinct (rr_keys r)" using I l' now by fastforce
  fix k
  obtain x where x: "x \<le> t - windowOf c k" "bucket l k = filter (\<lambda>e. x < le_at e) (logged k log)" using I by blast
  have w: "Add now (- windowOf c k) = now - windowOf c k" using window_exact I now by blast
  show "\<exists>x \<le> now - windowOf c k. bucket l' k = filter (\<lambda>e. x < le_at e) (logged k log)"
  proof (cases "k \<in> done")
    case True
    then have "bucket l' k = filter (\<lambda>e. max x (now - windowOf c k) < le_at e) (logged k log)"
      using b x(2) w by (simp add: conj_commute)
    then show ?thesis using x(1) now(1) by (intro exI [of _ "max x (now - windowOf c k)"]) simp
  next
    case False
    then show ?thesis using b x now(1) by (intro exI [of _ x]) simp
  qed
qed

lemma window_positive:
  "RateLimitConfig_Validate c = Inr () \<Longrightarrow> 0 < limitOf c k \<Longrightarrow> 0 < windowOf c k"
  by (auto simp: RateLimitConfig_Validate_def validateRateLimit_def limitFor_def split: if_splits)

lemma logged_append: "logged k (log @ log') = logged k log @ logged k log'"
  by (simp add: logged_def)

lemma limiterInv_grant:
  assumes inv: "limiterInv c now log l" and i: "rl_nextID l \<noteq> - 1" and ks: "distinct ks" and now: "clockTime now"
    and pos: "\<And>k. k \<in> set ks \<Longrightarrow> 0 < limitOf c k"
  shows "limiterInv c now (log @ [(now, \<lparr>rr_id = rl_nextID l + 1, rr_keys = ks\<rparr>)])
     (fold (appendLocked \<lparr>le_at = now, le_id = rl_nextID l + 1\<rparr>) ks (l\<lparr>rl_nextID := rl_nextID l + 1\<rparr>))"
    (is "limiterInv c now (log @ [(now, ?r)]) ?l")
  unfolding limiterInv_def
proof (intro conjI allI)
  note I = inv [unfolded limiterInv_def]
  have f: "bucket ?l k = (if k \<in> set ks then bucket l k @ [\<lparr>le_at = now, le_id = rl_nextID l + 1\<rparr>] else bucket l k)"
      "rl_config ?l = rl_config l" "rl_nextID ?l = rl_nextID l + 1" for k
    using ks by (simp_all add: fold_append_bucket)
  have lt: "v < rl_nextID l + 1" if "v \<le> rl_nextID l" for v using less_Suc64 [OF i that] .
  show "rl_config ?l = c" "RateLimitConfig_Validate c = Inr ()" "0 \<le> now" using I f by auto
  show "\<forall>(at, r) \<in> set (log @ [(now, ?r)]). at \<le> now \<and> rr_id r \<le> rl_nextID ?l \<and> distinct (rr_keys r)"
    using I f lt ks by (fastforce intro: less_imp_le)
  show "distinct (map (rr_id \<circ> snd) (log @ [(now, ?r)]))" using I lt by fastforce
  fix k
  obtain x where x: "x \<le> now - windowOf c k" "bucket l k = filter (\<lambda>e. x < le_at e) (logged k log)" using I by blast
  have "x < now" if "k \<in> set ks" using x(1) window_positive [OF _ pos [OF that]] I by auto
  then have "bucket ?l k = filter (\<lambda>e. x < le_at e) (logged k (log @ [(now, ?r)]))"
    using f(1) x(2) by (auto simp: logged_append) (auto simp: logged_def)
  then show "\<exists>x \<le> now - windowOf c k. bucket ?l k = filter (\<lambda>e. x < le_at e) (logged k (log @ [(now, ?r)]))"
    using x(1) by blast
qed

lemma limiterInv_rollback:
  assumes inv: "limiterInv c t log l" and r: "(at, r) \<in> set log"
  shows "limiterInv c t (filter (\<lambda>p. rr_id (snd p) \<noteq> rr_id r) log) (rollback (Some r) l)"
    (is "limiterInv c t ?log ?l")
  unfolding limiterInv_def
proof (intro conjI allI)
  note I = inv [unfolded limiterInv_def]
  have ks: "distinct (rr_keys r)" using I r by auto
  have f: "bucket ?l k = (if k \<in> set (rr_keys r) then removeLast (\<lambda>e. le_id e = rr_id r) (bucket l k) else bucket l k)"
      "rl_config ?l = rl_config l" "rl_nextID ?l = rl_nextID l" for k
    using ks by (simp_all add: rollback_def fold_rollback_bucket)
  show "rl_config ?l = c" "RateLimitConfig_Validate c = Inr ()" "0 \<le> t" using I f by auto
  show "\<forall>(at, r) \<in> set ?log. at \<le> t \<and> rr_id r \<le> rl_nextID ?l \<and> distinct (rr_keys r)" using I f by auto
  have d: "distinct (map (rr_id \<circ> snd) log)" using I by blast
  then show "distinct (map (rr_id \<circ> snd) ?log)" by (rule distinct_map_filter)
  fix k
  obtain x where x: "x \<le> t - windowOf c k" "bucket l k = filter (\<lambda>e. x < le_at e) (logged k log)" using I by blast
  have ids: "map le_id (logged k log) = map (rr_id \<circ> snd) (filter (\<lambda>p. k \<in> set (rr_keys (snd p))) log)"
    by (simp add: logged_def comp_def split_beta)
  have "distinct (map le_id (bucket l k))"
    unfolding x(2) using distinct_map_filter [OF d] ids distinct_map_filter by metis
  then have rl: "removeLast (\<lambda>e. le_id e = rr_id r) (bucket l k) = filter (\<lambda>e. le_id e \<noteq> rr_id r) (bucket l k)"
    by (rule removeLast_filter)
  have lg: "logged k ?log = filter (\<lambda>e. le_id e \<noteq> rr_id r) (logged k log)"
    by (simp add: logged_def filter_map comp_def split_beta conj_commute)
  have other: "filter (\<lambda>e. le_id e \<noteq> rr_id r) (logged k log) = logged k log" if "k \<notin> set (rr_keys r)"
  proof (rule filter_True, rule ballI)
    fix e assume "e \<in> set (logged k log)"
    then obtain a q where q: "(a, q) \<in> set log" "k \<in> set (rr_keys q)" "le_id e = rr_id q" by (auto simp: logged_def)
    show "le_id e \<noteq> rr_id r"
    proof
      assume "le_id e = rr_id r"
      moreover have "inj_on (rr_id \<circ> snd) (set log)" using d by (simp add: distinct_map)
      ultimately have "(a, q) = (at, r)" using inj_onD [of "rr_id \<circ> snd" "set log" "(a, q)" "(at, r)"] q r by simp
      with q(2) that show False by simp
    qed
  qed
  have "bucket ?l k = filter (\<lambda>e. x < le_at e) (logged k ?log)"
  proof (cases "k \<in> set (rr_keys r)")
    case True
    then show ?thesis using f(1) rl lg x(2) by (simp add: conj_commute)
  next
    case False
    then show ?thesis using f(1) lg other x(2) by simp
  qed
  then show "\<exists>x \<le> t - windowOf c k. bucket ?l k = filter (\<lambda>e. x < le_at e) (logged k ?log)" using x(1) by blast
qed

lemma limiterRun_inv: "limiterRun c t log l \<Longrightarrow> limiterInv c t log l"
proof (induction rule: limiterRun.induct)
  case (created l)
  then show ?case
    by (auto simp: newRateLimiter_def limiterInv_def bucket_def logged_def)
next
  case (granted t log l now input r l')
  have en: "limiter_enabled l" using granted.hyps(5) by (auto simp: reserve_def split: if_splits)
  have c: "rl_config l = c" using granted.IH by (simp add: limiterInv_def)
  note K = reservationKeys_ok(1) [of c input] reservationKeys_ok(2) [of _ c input]
  from granted.hyps(5) en show ?case
  proof (cases rule: reserve_cases)
    case (grant l1 i)
    note C = checkLocked_bucket [OF grant(1) , unfolded c, OF K(1)]
    have "limiterInv c now log l1"
      by (rule limiterInv_prune [OF granted.IH granted.hyps(2,3) C(1) [folded c] C(2) C(4) [OF refl]]) 
    from limiterInv_grant [OF this _ K(1) granted.hyps(3)] show ?thesis
      using grant C(2) granted.hyps(4) c K(2) by simp
  qed simp
next
  case (denied t log l now input e l')
  have en: "limiter_enabled l" using denied.hyps(4) by (auto simp: reserve_def split: if_splits)
  have c: "rl_config l = c" using denied.IH by (simp add: limiterInv_def)
  from denied.hyps(4) en show ?case
  proof (cases rule: reserve_cases)
    case (deny e)
    note C = checkLocked_bucket [OF deny(1), unfolded c, OF reservationKeys_ok(1)]
    obtain D where "\<forall>k. bucket l' k = (if k \<in> D then filter (inWindow c now k) (bucket l k) else bucket l k)"
      using C(3) by blast
    from limiterInv_prune [OF denied.IH denied.hyps(2,3) _ C(2) this] show ?thesis using C(1) c by simp
  qed simp
next
  case (rolled_back t log l at r)
  then show ?case using limiterInv_rollback by blast
qed


section \<open>Properties\<close>

abbreviation standing :: "rateLimitKey \<Rightarrow> gotime \<Rightarrow> gotime \<Rightarrow> (gotime \<times> rateLimitReservation) list \<Rightarrow> nat" where
  "standing k from until log \<equiv>
     length (filter (\<lambda>(at, r). k \<in> set (rr_keys r) \<and> from < at \<and> at \<le> until) log)"

lemma standing_logged:
  "standing k from until log = length (filter (\<lambda>e. from < le_at e \<and> le_at e \<le> until) (logged k log))"
  by (simp add: logged_def filter_map comp_def case_prod_beta' conj_ac)

lemma filter_length_mono: "(\<And>x. x \<in> set xs \<Longrightarrow> P x \<Longrightarrow> Q x) \<Longrightarrow> length (filter P xs) \<le> length (filter Q xs)"
  by (induction xs) auto

text \<open>
  C25. The sliding window holds: along every run of the limiter, for every key with a limit and
  every instant, the reservations that stand for the key in the window ending at that instant are
  at most the limit. Denied and rolled-back submissions do not count.
\<close>

theorem limiter_window:
  assumes "limiterRun c t log l" "0 < limitOf c k"
  shows "int (standing k (u - windowOf c k) u log) \<le> limitOf c k"
  using assms
proof (induction rule: limiterRun.induct)
  case (created l)
  then show ?case by simp
next
  case (granted t log l now input r l')
  have inv: "limiterInv c t log l" using limiterRun_inv [OF granted.hyps(1)] .
  have en: "limiter_enabled l" using granted.hyps(5) by (auto simp: reserve_def split: if_splits)
  have c: "rl_config l = c" and v: "RateLimitConfig_Validate c = Inr ()" using inv by (simp_all add: limiterInv_def)
  show ?case
  proof (cases "k \<in> set (rr_keys r) \<and> u - windowOf c k < now \<and> now \<le> u")
    case False
    then show ?thesis using granted.IH granted.prems by auto
  next
    case True
    from granted.hyps(5) en show ?thesis
    proof (cases rule: reserve_cases)
      case (grant l1 i)
      note C = checkLocked_bucket [OF grant(1), unfolded c, OF reservationKeys_ok(1)]
      have k: "k \<in> set (reservationKeys c input)" using True grant(3) c by simp
      obtain x where x: "x \<le> t - windowOf c k" "bucket l k = filter (\<lambda>e. x < le_at e) (logged k log)"
        using inv unfolding limiterInv_def by blast
      have "bucket l1 k = filter (inWindow c now k) (bucket l k)" using C(4) k by simp
      also have "\<dots> = filter (\<lambda>e. now - windowOf c k < le_at e) (logged k log)"
        unfolding x(2) filter_filter
        by (rule filter_cong) (use x(1) granted.hyps(2) window_exact(1) [OF v granted.hyps(3)] in auto)
      finally have b: "bucket l1 k = filter (\<lambda>e. now - windowOf c k < le_at e) (logged k log)" .
      have "standing k (u - windowOf c k) u log \<le> length (bucket l1 k)"
        unfolding standing_logged b by (rule filter_length_mono) (use True in auto)
      moreover have "int (length (bucket l1 k)) < limitOf c k" using C(5) k by simp
      ultimately show ?thesis using True by simp
    qed simp
  qed
next
  case (rolled_back t log l at r)
  have "standing k (u - windowOf c k) u (filter (\<lambda>p. rr_id (snd p) \<noteq> rr_id r) log) \<le> standing k (u - windowOf c k) u log"
    unfolding filter_filter by (rule filter_length_mono) auto
  then show ?case using rolled_back.IH rolled_back.prems by simp
qed

text \<open>
  A rollback gives the quota back: reserving and rolling back at once leaves every bucket as
  pruning alone would, so an idempotent or failed submission costs nothing.
\<close>

theorem rollback_restores:
  assumes "limiterRun c t log l" "t \<le> now" "clockTime now" "rl_nextID l \<noteq> - 1"
    and "reserve input now l = (Inr (Some r), l')"
  shows "bucket (rollback (Some r) l') k =
     (if k \<in> set (rr_keys r) then filter (\<lambda>e. now - windowOf c k < le_at e) (bucket l k) else bucket l k)"
proof -
  have inv: "limiterInv c t log l" using limiterRun_inv [OF assms(1)] .
  have en: "limiter_enabled l" using assms(5) by (auto simp: reserve_def split: if_splits)
  have c: "rl_config l = c" and v: "RateLimitConfig_Validate c = Inr ()" using inv by (simp_all add: limiterInv_def)
  from assms(5) en show ?thesis
  proof (cases rule: reserve_cases)
    case (grant l1 i)
    note C = checkLocked_bucket [OF grant(1), unfolded c, OF reservationKeys_ok(1)]
    have r: "rr_keys r = reservationKeys c input" "rr_id r = i" using grant(3) c by simp_all
    note d = reservationKeys_ok(1) [of c input]
    have last: "removeLast P (xs @ [x]) = (if P x then xs else removeLast P xs @ [x])" for P :: "rateLimitEntry \<Rightarrow> bool" and xs x
      by (simp add: removeLast_def)
    show ?thesis
      using r grant(4) c d C(4) window_exact(1) [OF v assms(3)]
      by (simp add: rollback_def fold_rollback_bucket fold_append_bucket last)
  qed simp
qed

section \<open>A concrete limiter\<close>

definition demoRate :: RateLimitConfig where
  "demoRate = \<lparr>rc_GlobalLimit = 1, rc_GlobalWindow = 10, rc_ActorLimit = 0, rc_ActorWindow = 0,
     rc_RoomLimit = 0, rc_RoomWindow = 0, rc_AccountLimit = 0, rc_AccountWindow = 0\<rparr>"

definition demoLimiter :: rateLimiter where
  "demoLimiter = \<lparr>rl_config = demoRate, rl_entries = kempty, rl_nextID = 0\<rparr>"

definition demoInput :: SubmitInput where
  "demoInput = \<lparr>si_RequestID = ''req-1'', si_AccountID = ''acct-1'', si_IdempotencyKey = ''key-1'',
     si_NotificationRoomID = ''!room'', si_Actor = ''user'', si_Deadline = 0\<rparr>"

abbreviation demoKey :: rateLimitKey where
  "demoKey \<equiv> \<lparr>rk_scope = ''global'', rk_key = []\<rparr>"

definition demoReservation :: rateLimitReservation where
  "demoReservation = \<lparr>rr_id = 1, rr_keys = [demoKey]\<rparr>"

lemma demo_limiter: "newRateLimiter demoRate = Inr demoLimiter"
  by (simp add: newRateLimiter_def RateLimitConfig_Validate_def validateRateLimit_def demoRate_def demoLimiter_def second_def)

lemma demo_keys: "reservationKeys demoRate demoInput = [demoKey]" "limitFor demoRate ''global'' = (1, 10)"
  by (simp_all add: reservationKeys_def demoRate_def demoInput_def limitFor_def)

lemma demo_reserve: "reserve demoInput 100 demoLimiter =
    (Inr (Some demoReservation), appendLocked \<lparr>le_at = 100, le_id = 1\<rparr> demoKey (demoLimiter\<lparr>rl_nextID := 1\<rparr>))"
proof -
  have "limiter_enabled demoLimiter" "rl_config demoLimiter = demoRate" "rl_nextID demoLimiter = 0"
    by (simp_all add: limiter_enabled_def demoLimiter_def demoRate_def)
  moreover have "pruneLocked demoKey 100 10 demoLimiter = ([], demoLimiter)" by (simp add: pruneLocked_def demoLimiter_def)
  ultimately show ?thesis by (simp add: reserve_def demo_keys demoReservation_def)
qed

lemma demo_clock: "clockTime 100" "clockTime 105"
  by (simp_all add: clockTime_def second_def)

theorem limiter_window_witness:
  "\<exists>l. limiterRun demoRate 100 [(100, demoReservation)] l \<and>
     int (standing demoKey (105 - 10) 105 [(100, demoReservation)]) \<le> 1"
proof -
  have "limiterRun demoRate 0 [] demoLimiter" by (rule limiterRun.created [OF demo_limiter])
  then have run: "limiterRun demoRate 100 ([] @ [(100, demoReservation)])
      (appendLocked \<lparr>le_at = 100, le_id = 1\<rparr> demoKey (demoLimiter\<lparr>rl_nextID := 1\<rparr>))"
    by (rule limiterRun.granted [OF _ _ demo_clock(1) _ demo_reserve]) (simp_all add: demoLimiter_def)
  from limiter_window [OF this, of demoKey 105] show ?thesis using run by (auto simp: demo_keys)
qed

theorem rollback_restores_witness:
  "bucket (rollback (Some demoReservation) (appendLocked \<lparr>le_at = 100, le_id = 1\<rparr> demoKey (demoLimiter\<lparr>rl_nextID := 1\<rparr>))) demoKey = []"
proof -
  have "limiterRun demoRate 0 [] demoLimiter" by (rule limiterRun.created [OF demo_limiter])
  from rollback_restores [OF this _ demo_clock(1) _ demo_reserve, of demoKey] show ?thesis
    by (simp add: demoLimiter_def demoReservation_def bucket_def)
qed

end
