(* ===== verification/RequestService.thy ===== *)
theory RequestService
  imports StoreProps RequestLimiter
begin

text \<open>
  internal/request/service.go: submission, lookup and cancellation of requests. The service works
  against the \<open>StorePort\<close> interface; the laws it relies on are a locale, interpreted on the
  store. Each call receives the value of the injected clock and of the id generator.
\<close>

record 'd StorePort =
  sp_SubmitRequest :: "Request \<Rightarrow> Event \<Rightarrow> 'd \<Rightarrow> (Request \<times> bool) result \<times> 'd"
  sp_GetRequest :: "string \<Rightarrow> 'd \<Rightarrow> Request result"
  sp_GetAccount :: "string \<Rightarrow> 'd \<Rightarrow> Snapshot result"
  sp_GetLease :: "string \<Rightarrow> 'd \<Rightarrow> Lease option result"
  sp_CancelRequest :: "Event \<Rightarrow> 'd \<Rightarrow> TransitionResult result \<times> 'd"
  sp_CancelRequestOwned :: "Event \<Rightarrow> Lease \<Rightarrow> bool \<Rightarrow> 'd \<Rightarrow> TransitionResult result \<times> 'd"
  sp_GetRequestByIdempotencyKey :: "(string \<Rightarrow> 'd \<Rightarrow> Request result) option"

text \<open>The service: its dependencies and its state, the store's state included.\<close>

record 'd Service =
  sv_port :: "'d StorePort"
  sv_defaultActor :: string
  sv_capabilities :: "(string \<Rightarrow> error option) option"
  sv_store :: 'd
  sv_limiter :: rateLimiter
  sv_sink :: "obs_Event list"

definition NewWithConfig ::
  "'d StorePort \<Rightarrow> string \<Rightarrow> RateLimitConfig \<Rightarrow> (string \<Rightarrow> error option) option \<Rightarrow> 'd \<Rightarrow> 'd Service result" where
  "NewWithConfig port defaultActor rate capabilities d =
     (if TrimSpace defaultActor = [] then Inl (RequestErr ErrInvalidInput)
      else
        bindE (newRateLimiter rate) (\<lambda>limiter.
        Inr \<lparr>sv_port = port, sv_defaultActor = defaultActor, sv_capabilities = capabilities,
             sv_store = d, sv_limiter = limiter, sv_sink = []\<rparr>))"

definition deniedEvent :: "gotime \<Rightarrow> string \<Rightarrow> obs_Event" where
  "deniedEvent now requestID =
     \<lparr>oe_At = now, oe_Component = ''request'', oe_Operation = ''submit'', oe_Outcome = ''denied'',
      oe_RequestID = RedactIdentifier requestID, oe_Resource = [], oe_ErrorClass = ''rate_limited'',
      oe_Duration = 0\<rparr>"

definition reserveSubmission ::
  "SubmitInput \<Rightarrow> Request \<Rightarrow> gotime \<Rightarrow> 'd Service \<Rightarrow> rateLimitReservation option result \<times> 'd Service" where
  "reserveSubmission input request now s =
     (if (case sp_GetRequestByIdempotencyKey (sv_port s) of
            None \<Rightarrow> False
          | Some reader \<Rightarrow> isOk (reader (si_IdempotencyKey input) (sv_store s)))
      then (Inr None, s)
      else
        case reserve input now (sv_limiter s) of
          (Inl _, l) \<Rightarrow>
            (Inl (RequestErr ErrRateLimited),
             s\<lparr>sv_limiter := l, sv_sink := sv_sink s @ [deniedEvent now (rq_RequestID request)]\<rparr>)
        | (Inr r, l) \<Rightarrow> (Inr r, s\<lparr>sv_limiter := l\<rparr>))"

text \<open>The request that \<open>Submit\<close> builds from its input.\<close>

definition submittedRequest :: "SubmitInput \<Rightarrow> gotime \<Rightarrow> Request result" where
  "submittedRequest input now =
     (if TrimSpace (si_RequestID input) = [] \<or> TrimSpace (si_AccountID input) = []
         \<or> TrimSpace (si_IdempotencyKey input) = []
      then Inl (RequestErr ErrInvalidInput)
      else if IsZero now then Inl (RequestErr ErrInvalidInput)
      else
        bindE (NewRequest (si_RequestID input) (si_AccountID input) (si_IdempotencyKey input) now) (\<lambda>request.
        let request = request\<lparr>rq_NotificationRoomID := si_NotificationRoomID input\<rparr>
        in if \<not> IsZero (si_Deadline input) \<and> Before (si_Deadline input) now
           then Inl (RequestErr ErrInvalidInput)
           else
             let request = (if \<not> IsZero (si_Deadline input)
                            then request\<lparr>rq_Deadline := si_Deadline input\<rparr> else request)
             in bindE (Request_Validate request) (\<lambda>_. Inr request)))"

definition submitActor :: "SubmitInput \<Rightarrow> 'd Service \<Rightarrow> string" where
  "submitActor input s =
     (let actor = TrimSpace (si_Actor input) in if actor = [] then sv_defaultActor s else actor)"

definition submitEvent :: "SubmitInput \<Rightarrow> string \<Rightarrow> string \<Rightarrow> gotime \<Rightarrow> Event" where
  "submitEvent input actor eventID now =
     \<lparr>ev_EventID = eventID, ev_AccountID = si_AccountID input, ev_RequestID = si_RequestID input,
      ev_From = NoRequest, ev_ExpectedRevision = 0, ev_To = Queued, ev_Reason = ''request submitted'',
      ev_Actor = actor, ev_OccurredAt = now\<rparr>"

definition Submit ::
  "SubmitInput \<Rightarrow> gotime \<Rightarrow> string \<Rightarrow> 'd Service \<Rightarrow> (Request \<times> bool) result \<times> 'd Service" where
  "Submit input now eventID s =
     (case submittedRequest input now of
        Inl e \<Rightarrow> (Inl e, s)
      | Inr request \<Rightarrow>
          let actor = submitActor input s;
              input = input\<lparr>si_Actor := actor\<rparr>
          in case reserveSubmission input request now s of
               (Inl e, s1) \<Rightarrow> (Inl e, s1)
             | (Inr reservation, s1) \<Rightarrow>
                 (case sp_SubmitRequest (sv_port s1) request (submitEvent input actor eventID now) (sv_store s1) of
                    (Inl e, d) \<Rightarrow>
                      (Inl e, s1\<lparr>sv_store := d, sv_limiter := rollback reservation (sv_limiter s1)\<rparr>)
                  | (Inr (result, idempotent), d) \<Rightarrow>
                      (Inr (result, idempotent),
                       s1\<lparr>sv_store := d,
                          sv_limiter := if idempotent then rollback reservation (sv_limiter s1)
                                        else sv_limiter s1\<rparr>)))"

definition Service_Status :: "string \<Rightarrow> 'd Service \<Rightarrow> Request result" where
  "Service_Status requestID s =
     (if TrimSpace requestID = [] then Inl (RequestErr ErrInvalidInput)
      else sp_GetRequest (sv_port s) requestID (sv_store s))"

definition cancelEvent :: "string \<Rightarrow> string \<Rightarrow> string \<Rightarrow> string \<Rightarrow> gotime \<Rightarrow> Request \<Rightarrow> Snapshot \<Rightarrow> Event" where
  "cancelEvent eventID requestID actor reason now request state =
     \<lparr>ev_EventID = eventID, ev_AccountID = rq_AccountID request, ev_RequestID = requestID,
      ev_From = sn_Status state, ev_ExpectedRevision = sn_Revision state, ev_To = Cancelled,
      ev_Reason = reason, ev_Actor = actor, ev_OccurredAt = now\<rparr>"

definition Service_Cancel ::
  "string \<Rightarrow> string \<Rightarrow> string \<Rightarrow> gotime \<Rightarrow> string \<Rightarrow> 'd Service \<Rightarrow> Request result \<times> 'd Service" where
  "Service_Cancel requestID actor reason now eventID s =
     (if TrimSpace requestID = [] then (Inl (RequestErr ErrInvalidInput), s)
      else
        let actor = (if TrimSpace actor = [] then sv_defaultActor s else actor);
            reason = (if TrimSpace reason = [] then ''request cancelled'' else reason);
            p = sv_port s
        in if IsZero now then (Inl (RequestErr ErrInvalidInput), s)
           else case
             bindE (sp_GetRequest p requestID (sv_store s)) (\<lambda>request.
             bindE (sp_GetAccount p (rq_AccountID request) (sv_store s)) (\<lambda>state.
             bindE (sp_GetLease p (rq_AccountID request) (sv_store s)) (\<lambda>lease.
             Inr (lease, cancelEvent eventID requestID actor reason now request state)))) of
               Inl e \<Rightarrow> (Inl e, s)
             | Inr (lease, event) \<Rightarrow>
                 (case (case lease of Some l \<Rightarrow> sp_CancelRequestOwned p event l False (sv_store s)
                        | None \<Rightarrow> sp_CancelRequest p event (sv_store s)) of
                    (Inl e, d) \<Rightarrow> (Inl e, s\<lparr>sv_store := d\<rparr>)
                  | (Inr _, d) \<Rightarrow>
                      (case (case sv_capabilities s of None \<Rightarrow> None | Some revoke \<Rightarrow> revoke requestID) of
                         Some e \<Rightarrow> (Inl e, s\<lparr>sv_store := d\<rparr>)
                       | None \<Rightarrow> (sp_GetRequest p requestID d, s\<lparr>sv_store := d\<rparr>))))"

section \<open>What the service relies on\<close>

locale request_store =
  fixes port :: "'d StorePort" and inv :: "'d \<Rightarrow> bool"
  assumes submit_refused: "sp_SubmitRequest port q e d = (Inl x, d') \<Longrightarrow> d' = d"
    and submit_accepted: "inv d \<Longrightarrow> sp_SubmitRequest port q e d = (Inr (q', known), d') \<Longrightarrow>
       inv d' \<and> sp_GetRequest port (rq_RequestID q) d' = Inr q' \<and> requestSubmissionEqual q' q \<and>
       rq_State q' \<noteq> NoRequest \<and> (\<not> known \<longrightarrow> rq_State q' = Queued)"
    and cancel_refused: "sp_CancelRequest port e d = (Inl x, d') \<Longrightarrow> d' = d"
      "sp_CancelRequestOwned port e l False d = (Inl x, d') \<Longrightarrow> d' = d"
    and cancel_accepted: "inv d \<Longrightarrow> sp_GetAccount port (ev_AccountID e) d = Inr st \<Longrightarrow>
       ev_ExpectedRevision e = sn_Revision st \<Longrightarrow>
       sp_CancelRequest port e d = (Inr t, d') \<or> sp_CancelRequestOwned port e l False d = (Inr t, d') \<Longrightarrow>
       inv d' \<and> (\<exists>q. sp_GetRequest port (ev_RequestID e) d' = Inr q \<and> rq_State q = Cancelled) \<and>
       sp_GetLease port (ev_AccountID e) d' = Inr None"
    and cancel_owned: "inv d \<Longrightarrow> sp_GetAccount port (ev_AccountID e) d = Inr st \<Longrightarrow>
       ev_ExpectedRevision e = sn_Revision st \<Longrightarrow>
       sp_CancelRequestOwned port e l False d = (Inr t, d') \<Longrightarrow>
       \<exists>cur. sp_GetLease port (ev_AccountID e) d = Inr (Some cur) \<and> ev_OccurredAt e < ls_ExpiresAt cur"
begin

lemma reserveSubmission_frame:
  assumes "reserveSubmission input q now s = (r, s')"
  shows "sv_port s' = sv_port s" "sv_store s' = sv_store s" "sv_capabilities s' = sv_capabilities s"
  using assms by (auto simp: reserveSubmission_def split: if_splits prod.splits sum.splits)

lemma submit_effect:
  assumes "sv_port s = port" "inv (sv_store s)" "Submit input now i s = (r, s')"
  shows "inv (sv_store s') \<and> (case r of
       Inl e \<Rightarrow> sv_store s' = sv_store s
     | Inr (q, known) \<Rightarrow> sp_GetRequest port (si_RequestID input) (sv_store s') = Inr q \<and>
         rq_AccountID q = si_AccountID input \<and> rq_NotificationRoomID q = si_NotificationRoomID input \<and>
         rq_Deadline q = si_Deadline input \<and> rq_State q \<noteq> NoRequest \<and> (\<not> known \<longrightarrow> rq_State q = Queued))"
proof (cases "submittedRequest input now")
  case (Inl e)
  then show ?thesis using assms by (auto simp: Submit_def)
next
  case (Inr q)
  have q: "rq_RequestID q = si_RequestID input" "rq_AccountID q = si_AccountID input"
      "rq_NotificationRoomID q = si_NotificationRoomID input" "rq_Deadline q = si_Deadline input"
    using Inr by (auto simp: submittedRequest_def NewRequest_def Let_def split: if_splits)
  let ?in = "input\<lparr>si_Actor := submitActor input s\<rparr>"
  obtain res s1 where r: "reserveSubmission ?in q now s = (res, s1)" by fastforce
  note F = reserveSubmission_frame [OF r]
  show ?thesis
  proof (cases res)
    case (Inl e)
    then show ?thesis using assms Inr r F by (auto simp: Submit_def Let_def)
  next
    case (Inr rv)
    obtain x d where c: "sp_SubmitRequest port q (submitEvent ?in (submitActor input s) i now) (sv_store s) = (x, d)" by fastforce
    have s': "sv_store s' = d" "r = x"
      using assms(1,3) \<open>submittedRequest input now = Inr q\<close> r Inr c F
      by (auto simp: Submit_def Let_def split: sum.splits prod.splits)
    show ?thesis
    proof (cases x)
      case (Inl e)
      then have "d = sv_store s" using submit_refused c by metis
      then show ?thesis using Inl s' assms(2) by simp
    next
      case (Inr y)
      obtain q' known where y: "y = (q', known)" by fastforce
      show ?thesis
        using submit_accepted [OF assms(2), of q _ q' known d] c Inr y s' q
        by (auto simp: requestSubmissionEqual_def)
    qed
  qed
qed

lemma cancel_effect:
  assumes "sv_port s = port" "inv (sv_store s)" "Service_Cancel i actor reason now eid s = (r, s')"
  shows "inv (sv_store s') \<and> (case r of
       Inr q \<Rightarrow> rq_State q = Cancelled \<and> sp_GetRequest port i (sv_store s') = Inr q
     | Inl e \<Rightarrow> sv_store s' = sv_store s \<or>
         (\<exists>q revoke. sp_GetRequest port i (sv_store s') = Inr q \<and> rq_State q = Cancelled \<and>
            sv_capabilities s = Some revoke \<and> revoke i = Some e))"
proof -
  let ?d = "sv_store s"
  let ?a = "if TrimSpace actor = [] then sv_defaultActor s else actor"
  let ?why = "if TrimSpace reason = [] then ''request cancelled'' else reason"
  consider "sv_store s' = ?d" "\<exists>e. r = Inl e"
    | q st lease where "sp_GetRequest port i ?d = Inr q" "sp_GetAccount port (rq_AccountID q) ?d = Inr st"
        "sp_GetLease port (rq_AccountID q) ?d = Inr lease" "TrimSpace i \<noteq> []" "now \<noteq> 0"
    using assms(1,3) by (auto simp: Service_Cancel_def Let_def bindE_def split: if_splits sum.splits)
  then show ?thesis
  proof cases
    case 1
    then show ?thesis using assms(2) by auto
  next
    case 2
    let ?e = "cancelEvent eid i ?a ?why now q st"
    obtain x d where c: "(case lease of Some l \<Rightarrow> sp_CancelRequestOwned port ?e l False ?d
        | None \<Rightarrow> sp_CancelRequest port ?e ?d) = (x, d)" by fastforce
    have r: "(r, s') = (case x of Inl e \<Rightarrow> (Inl e, s\<lparr>sv_store := d\<rparr>)
       | Inr _ \<Rightarrow> (case (case sv_capabilities s of None \<Rightarrow> None | Some revoke \<Rightarrow> revoke i) of
             Some e \<Rightarrow> (Inl e, s\<lparr>sv_store := d\<rparr>)
           | None \<Rightarrow> (sp_GetRequest port i d, s\<lparr>sv_store := d\<rparr>)))"
      using assms(1,3) 2 c by (simp add: Service_Cancel_def Let_def split: sum.splits)
    show ?thesis
    proof (cases x)
      case (Inl e)
      then have "d = ?d" using c cancel_refused by (auto split: option.splits)
      then show ?thesis using Inl r assms(2) by auto
    next
      case (Inr t)
      have e: "ev_AccountID ?e = rq_AccountID q" "ev_ExpectedRevision ?e = sn_Revision st" "ev_RequestID ?e = i"
        by (simp_all add: cancelEvent_def)
      obtain q' where "inv d" "sp_GetRequest port i d = Inr q'" "rq_State q' = Cancelled"
        using cancel_accepted [OF assms(2), of ?e st t d] 2(2) c Inr e by (auto split: option.splits)
      then show ?thesis using Inr r by (auto split: option.splits)
    qed
  qed
qed

end


section \<open>The store provides it\<close>

definition storePort :: "commit \<Rightarrow> db StorePort" where
  "storePort commit =
     \<lparr>sp_SubmitRequest = SubmitRequest commit, sp_GetRequest = GetRequest, sp_GetAccount = GetAccount,
      sp_GetLease = GetLease, sp_CancelRequest = CancelRequest commit,
      sp_CancelRequestOwned = CancelRequestOwned commit,
      sp_GetRequestByIdempotencyKey = Some GetRequestByIdempotencyKey\<rparr>"

lemma storePort_sel [simp]:
  "sp_SubmitRequest (storePort c) = SubmitRequest c" "sp_GetRequest (storePort c) = GetRequest"
  "sp_GetAccount (storePort c) = GetAccount" "sp_GetLease (storePort c) = GetLease"
  "sp_CancelRequest (storePort c) = CancelRequest c" "sp_CancelRequestOwned (storePort c) = CancelRequestOwned c"
  "sp_GetRequestByIdempotencyKey (storePort c) = Some GetRequestByIdempotencyKey"
  by (simp_all add: storePort_def)

text \<open>A cancellation at the current revision, with or without a lease.\<close>

lemma finishTx_current:
  assumes inv: "store_inv d" and ok: "finishTx e x ax rx d = Inr (t, d')"
    and s: "GetAccount (ev_AccountID e) d = Inr st" "ev_ExpectedRevision e = sn_Revision st"
  shows "\<not> tr_Idempotent t" "store_inv d'" "\<exists>q. GetRequest (ev_RequestID e) d' = Inr q \<and> rq_State q = ev_To e"
    and "GetLease (ev_AccountID e) d' = Inr None"
proof -
  obtain t1 d1 where a: "applyEventTx e d = Inr (t1, d1)" using ok by (auto simp: finishTx_def)
  have n: "\<not> tr_Idempotent t1" using current_revision_new [OF a] s by (simp add: GetAccount_def view_def)
  then have d': "d' = deleteLease (ev_AccountID e) d1" "t1 = t" using ok a by (auto simp: finishTx_def split: if_splits)
  show "\<not> tr_Idempotent t" using n d' by simp
  show inv': "store_inv d'" by (rule finishTx_inv [OF inv ok])
  obtain q where q: "kget (db_requests d1) (ev_RequestID e) = Some (Json q)" "rq_State q = ev_To e"
    using applyEventTx_request [OF inv a n] by (metis kget_kput)
  then show "\<exists>q. GetRequest (ev_RequestID e) d' = Inr q \<and> rq_State q = ev_To e"
    using requestFromTx_inv [OF store_invD(4) [OF inv']] by (simp add: d' GetRequest_def view_def deleteLease_def)
  have "snapshotFromTx d' (ev_AccountID e) = Inr (tr_State t)"
    using applyEventTx_refines(1) [OF a] d' by (auto simp: deleteLease_def)
  then show "GetLease (ev_AccountID e) d' = Inr None"
    by (simp add: GetLease_def view_def) (simp add: d' leaseFromTx_def deleteLease_def)
qed

lemma submitTx_reads:
  assumes inv: "store_inv d" and v: "Request_Validate q = Inr ()"
    and e: "ev_RequestID e = rq_RequestID q" "ev_To e = Queued" "rq_State q = NoRequest"
    and ok: "submitTx q e d = Inr ((q1, k), d')"
  shows "GetRequest (rq_RequestID q) d' = Inr q1 \<and> requestSubmissionEqual q1 q \<and> rq_State q1 \<noteq> NoRequest \<and>
     (\<not> k \<longrightarrow> rq_State q1 = Queued)"
proof -
  have inv': "store_inv d'" by (rule submitTx_inv [OF inv v ok])
  obtain q2 where q2: "kget (db_requests d') (rq_RequestID q) = Some (Json q2)" "rq_State q2 \<noteq> NoRequest" "requestSubmissionEqual q2 q"
    using submitTx_result [OF inv v e(1,2) ok] by blast
  have g: "GetRequest (rq_RequestID q) d' = Inr q2"
    using q2(1) requestFromTx_inv [OF store_invD(4) [OF inv']] by (simp add: GetRequest_def view_def)
  obtain x kn d1 where s: "submitRequestTx q d = Inr ((x, kn), d1)"
    and r: "kn \<and> k \<and> rq_State x \<noteq> NoRequest \<and> d' = d1 \<and> q1 = x \<or>
       (\<exists>t. applyEventTx e d1 = Inr (t, d') \<and> requestFromTx d' (rq_RequestID q) = Inr q1 \<and> k = kn)"
    using ok by (auto simp: submitTx_def split: prod.splits if_splits)
  note st = submitRequestTx_stored [OF inv s]
  show ?thesis
    using r
  proof (elim disjE conjE exE)
    assume x: "kn" "k" "rq_State x \<noteq> NoRequest" "d' = d1" "q1 = x"
    then show ?thesis using g q2 st(1) by simp
  next
    fix t
    assume t: "applyEventTx e d1 = Inr (t, d')" and q1: "requestFromTx d' (rq_RequestID q) = Inr q1" and k: "k = kn"
    have q12: "q1 = q2" using g q1 by (simp add: GetRequest_def view_def)
    have inv1: "store_inv d1" by (rule submitRequestTx_inv [OF inv v s])
    have "rq_State q1 = Queued" if "\<not> k"
    proof -
      have "x = q" using st(3) k that by simp
      then have "\<not> tr_Idempotent t" using replayed_request [OF inv1 t] st(1) e by auto
      from applyEventTx_request [OF inv1 t this] show ?thesis
        using q2(1) q12 e(1,2) by (metis kget_kput json.inject option.inject)
    qed
    then show ?thesis using g q2 q12 by simp
  qed
qed

text \<open>The laws hold for the store, whichever transactions the engine refuses.\<close>

interpretation rs: request_store "storePort commit" store_inv for commit
proof unfold_locales
  fix q e d x d'
  show "sp_SubmitRequest (storePort commit) q e d = (Inl x, d') \<Longrightarrow> d' = d"
    using SubmitRequest_update [of commit q e d "Inl x" d'] update_Inl by auto
next
  fix d q e q' known d'
  assume inv: "store_inv d" and "sp_SubmitRequest (storePort commit) q e d = (Inr (q', known), d')"
  then have s: "SubmitRequest commit q e d = (Inr (q', known), d')" by simp
  have u: "Request_Validate q = Inr ()" "rq_State q = NoRequest" "ev_RequestID e = rq_RequestID q" "ev_To e = Queued"
      "submitTx q e d = Inr ((q', known), d')"
    using SubmitRequest_update [OF s] by (auto simp: update_Inr)
  have "store_inv d'" using SubmitRequest_inv [OF inv s] .
  then show "store_inv d' \<and> sp_GetRequest (storePort commit) (rq_RequestID q) d' = Inr q' \<and> requestSubmissionEqual q' q \<and>
       rq_State q' \<noteq> NoRequest \<and> (\<not> known \<longrightarrow> rq_State q' = Queued)"
    using submitTx_reads [OF inv u(1,3,4,2,5)] by simp
next
  fix e d x d'
  show "sp_CancelRequest (storePort commit) e d = (Inl x, d') \<Longrightarrow> d' = d"
    by (auto simp: CancelRequest_def cancelRequest_def split: if_splits dest: update_Inl)
next
  fix e l d x d'
  show "sp_CancelRequestOwned (storePort commit) e l False d = (Inl x, d') \<Longrightarrow> d' = d"
    by (auto simp: CancelRequestOwned_def cancelRequest_def split: if_splits dest: update_Inl)
next
  fix d e st t d' l
  assume inv: "store_inv d" and st: "sp_GetAccount (storePort commit) (ev_AccountID e) d = Inr st"
    "ev_ExpectedRevision e = sn_Revision st"
    and "sp_CancelRequest (storePort commit) e d = (Inr t, d') \<or> sp_CancelRequestOwned (storePort commit) e l False d = (Inr t, d')"
  then obtain x where "ev_To e = Cancelled" "finishTx e x False False d = Inr (t, d')"
    by (auto simp: CancelRequest_def CancelRequestOwned_def cancelRequest_def update_Inr split: if_splits)
  with finishTx_current [OF inv this(2)] st
  show "store_inv d' \<and> (\<exists>q. sp_GetRequest (storePort commit) (ev_RequestID e) d' = Inr q \<and> rq_State q = Cancelled) \<and>
     sp_GetLease (storePort commit) (ev_AccountID e) d' = Inr None"
    by auto
next
  fix d e st l t d'
  assume inv: "store_inv d" and st: "sp_GetAccount (storePort commit) (ev_AccountID e) d = Inr st"
    "ev_ExpectedRevision e = sn_Revision st" and "sp_CancelRequestOwned (storePort commit) e l False d = (Inr t, d')"
  then have f: "finishTx e (Some l) False False d = Inr (t, d')"
    by (auto simp: CancelRequestOwned_def cancelRequest_def update_Inr split: if_splits)
  have "\<not> tr_Idempotent t" using finishTx_current(1) [OF inv f] st by simp
  from finishTx_new(1) [OF inv f this] obtain cur where "kget (db_leases d) (ev_AccountID e) = Some (Json cur)"
      "ev_OccurredAt e < ls_ExpiresAt cur" by auto
  then show "\<exists>cur. sp_GetLease (storePort commit) (ev_AccountID e) d = Inr (Some cur) \<and> ev_OccurredAt e < ls_ExpiresAt cur"
    using leaseFromTx_Some [OF store_invD(8) [OF inv]] st(1) by (auto simp: GetLease_def GetAccount_def view_def)
qed

section \<open>Properties\<close>

text \<open>
  What a submission leaves behind: a refused submission, for whatever reason, leaves the
  database unchanged; an accepted one is readable under its request id with the account, room and
  deadline of the input and has left NO_REQUEST, a new one being QUEUED.
\<close>

theorem Submit_durable:
  assumes "sv_port s = storePort c" "store_inv (sv_store s)" "Submit input now i s = (r, s')"
  shows "store_inv (sv_store s') \<and> (case r of
       Inl e \<Rightarrow> sv_store s' = sv_store s
     | Inr (q, known) \<Rightarrow> GetRequest (si_RequestID input) (sv_store s') = Inr q \<and>
         rq_AccountID q = si_AccountID input \<and> rq_NotificationRoomID q = si_NotificationRoomID input \<and>
         rq_Deadline q = si_Deadline input \<and> rq_State q \<noteq> NoRequest \<and> (\<not> known \<longrightarrow> rq_State q = Queued))"
  using rs.submit_effect [OF assms] unfolding storePort_sel .

text \<open>
  Cancellation: when it returns a request, that request is CANCELLED and stored; when it
  fails, either nothing changed or the request is CANCELLED and only the revocation of its
  capabilities failed.
\<close>

theorem Cancel_outcome:
  assumes "sv_port s = storePort c" "store_inv (sv_store s)" "Service_Cancel i actor reason now eid s = (r, s')"
  shows "store_inv (sv_store s') \<and> (case r of
       Inr q \<Rightarrow> rq_State q = Cancelled \<and> GetRequest i (sv_store s') = Inr q
     | Inl e \<Rightarrow> sv_store s' = sv_store s \<or>
         (\<exists>q revoke. GetRequest i (sv_store s') = Inr q \<and> rq_State q = Cancelled \<and>
            sv_capabilities s = Some revoke \<and> revoke i = Some e))"
  using rs.cancel_effect [OF assms] unfolding storePort_sel .

lemma fresh_reservation:
  assumes "limiterRun c t log l" "rl_nextID l \<noteq> - 1" "reserve input now l = (Inr (Some r), l')"
  shows "filter (\<lambda>p. rr_id (snd p) \<noteq> rr_id r) (log @ [(now, r)]) = log"
proof -
  have inv: "limiterInv c t log l" using limiterRun_inv [OF assms(1)] .
  have en: "limiter_enabled l" using assms(3) by (auto simp: reserve_def split: if_splits)
  from assms(3) en have "rr_id r = rl_nextID l + 1"
  proof (cases rule: reserve_cases)
    case (grant l1 i)
    then show ?thesis using checkLocked_bucket(2) [OF grant(1) reservationKeys_ok(1)] assms(2) by simp
  qed simp
  moreover have "rr_id q < rl_nextID l + 1" if "(a, q) \<in> set log" for a q
    using inv that less_Suc64 [OF assms(2)] unfolding limiterInv_def by fastforce
  ultimately show ?thesis by (fastforce intro!: filter_True)
qed

text \<open>
  Only new submissions are charged: with the limiter's log as the account of the quota, a
  submission adds exactly one reservation when it is accepted as new and its idempotency key was
  not stored before, and none when it is refused, rate limited, or answered from the store.
\<close>

theorem Submit_charges_new:
  assumes "sv_port s = storePort c" "limiterRun rate t log (sv_limiter s)" "t \<le> now" "clockTime now"
    and "rl_nextID (sv_limiter s) \<noteq> - 1" "Submit input now i s = (r, s')"
  shows "\<exists>t' log'. t' \<le> now \<and> limiterRun rate t' log' (sv_limiter s') \<and>
     (log' = log \<or> (\<exists>q rv. r = Inr (q, False) \<and> log' = log @ [(now, rv)] \<and>
        \<not> isOk (GetRequestByIdempotencyKey (si_IdempotencyKey input) (sv_store s)) \<and>
        rr_keys rv = reservationKeys rate (input\<lparr>si_Actor := submitActor input s\<rparr>)))"
proof (cases "submittedRequest input now")
  case (Inl e)
  then show ?thesis using assms by (auto simp: Submit_def)
next
  case (Inr q)
  let ?in = "input\<lparr>si_Actor := submitActor input s\<rparr>"
  obtain res s1 where r: "reserveSubmission ?in q now s = (res, s1)" by fastforce
  have keep: ?thesis if "limiterRun rate t log (sv_limiter s')" using that assms(3) by blast
  have rate: "rl_config (sv_limiter s) = rate" using limiterRun_inv [OF assms(2)] by (simp add: limiterInv_def)
  show ?thesis
  proof (cases "isOk (GetRequestByIdempotencyKey (si_IdempotencyKey input) (sv_store s))")
    case True
    then have "res = Inr None" "s1 = s" using r assms(1) by (auto simp: reserveSubmission_def)
    then have "sv_limiter s' = sv_limiter s"
      using assms(6) Inr r by (auto simp: Submit_def Let_def rollback_def split: prod.splits sum.splits if_splits)
    then show ?thesis using assms(2) by (intro keep) simp
  next
    case False
    obtain x l1 where x: "reserve ?in now (sv_limiter s) = (x, l1)" by fastforce
    show ?thesis
    proof (cases x)
      case (Inl e)
      then have "limiterRun rate now log l1" using limiterRun.denied [OF assms(2,3,4)] x by blast
      moreover have "sv_limiter s' = l1"
        using assms(1,6) \<open>submittedRequest input now = Inr q\<close> False x Inl by (auto simp: Submit_def Let_def reserveSubmission_def)
      ultimately show ?thesis by auto
    next
      case (Inr rv)
      have s1: "res = Inr rv" "sv_limiter s1 = l1" using r assms(1) False x Inr by (auto simp: reserveSubmission_def)
      have lim: "sv_limiter s' = rollback rv l1 \<or> (\<exists>q. r = Inr (q, False)) \<and> sv_limiter s' = l1"
        using assms(6) \<open>submittedRequest input now = Inr q\<close> r s1
        by (auto simp: Submit_def Let_def split: prod.splits sum.splits if_splits)
      show ?thesis
      proof (cases rv)
        case None
        then have "l1 = sv_limiter s" using x Inr by (auto simp: reserve_def Let_def split: if_splits prod.splits sum.splits)
        then show ?thesis using lim None assms(2) by (intro keep) (auto simp: rollback_def)
      next
        case (Some r1)
        have g: "reserve ?in now (sv_limiter s) = (Inr (Some r1), l1)" using x Inr Some by simp
        have run: "limiterRun rate now (log @ [(now, r1)]) l1" by (rule limiterRun.granted [OF assms(2-5) g])
        have keys: "rr_keys r1 = reservationKeys rate ?in"
          using g rate by (auto simp: reserve_def Let_def split: if_splits prod.splits sum.splits)
        have rb: "limiterRun rate now log (rollback (Some r1) l1)"
          using limiterRun.rolled_back [OF run, of now r1] fresh_reservation [OF assms(2,5) g] by simp
        from lim show ?thesis
        proof
          assume "sv_limiter s' = rollback rv l1"
          then show ?thesis using rb Some by (intro exI [of _ now] exI [of _ log]) simp
        next
          assume "(\<exists>q. r = Inr (q, False)) \<and> sv_limiter s' = l1"
          then show ?thesis using run keys False by (intro exI [of _ now] exI [of _ "log @ [(now, r1)]"]) auto
        qed
      qed
    qed
  qed
qed

section \<open>A concrete service\<close>

definition demoService :: "db Service" where
  "demoService = \<lparr>sv_port = storePort okCommit, sv_defaultActor = ''service'', sv_capabilities = None,
     sv_store = demoDB2, sv_limiter = demoLimiter, sv_sink = []\<rparr>"

lemma demo_service: "NewWithConfig (storePort okCommit) ''service'' demoRate None demoDB2 = Inr demoService"
  by (simp add: NewWithConfig_def demo_limiter demoService_def go_simps)

lemma demo_submitted: "submittedRequest demoInput 5 = Inr demoRequest"
proof -
  have "NewRequest ''req-1'' ''acct-1'' ''key-1'' 5 = Inr (demoRequest\<lparr>rq_NotificationRoomID := []\<rparr>)"
    by (simp add: NewRequest_def Let_def Request_Validate_iff demoRequest_def go_simps)
  moreover have "demoRequest\<lparr>rq_NotificationRoomID := ''!room''\<rparr> = demoRequest" by (simp add: demoRequest_def)
  ultimately show ?thesis
    using demoRequest_valid(1) by (simp add: submittedRequest_def demoInput_def Let_def go_simps)
qed

lemma demo_known: "GetRequestByIdempotencyKey ''key-1'' demoDB2 = Inr demoQueuedRequest"
  using demoDB2_request by (simp add: GetRequestByIdempotencyKey_def view_def demoDB2_sel go_simps)

lemma demo_resubmit:
  "Submit demoInput 5 ''ev-7'' demoService = (Inr (demoQueuedRequest, True), demoService)"
proof -
  let ?e = "submitEvent demoInput ''user'' ''ev-7'' 5"
  have in_sel: "si_Actor demoInput = ''user''" "si_IdempotencyKey demoInput = ''key-1''" "demoInput\<lparr>si_Actor := ''user''\<rparr> = demoInput"
    by (simp_all add: demoInput_def)
  have "Event_Validate ?e = Inr ()"
    by (simp add: Event_Validate_def validFields_iff submitEvent_def demoInput_def go_simps)
  then have "SubmitRequest okCommit demoRequest ?e demoDB2 = (Inr (demoQueuedRequest, True), demoDB2)"
    by (intro resubmit [OF demoDB2_inv _ _ _ demoRequest_valid(1)])
      (simp_all add: demoDB2_sel submitEvent_def demoInput_def okCommit_def demoRequest_def demoQueuedRequest_def requestSubmissionEqual_def)
  moreover have "submitActor demoInput demoService = ''user''" by (simp add: submitActor_def in_sel go_simps)
  ultimately show ?thesis
    by (simp add: Submit_def demo_submitted reserveSubmission_def in_sel)
      (simp add: demoService_def in_sel demo_known rollback_def)
qed

theorem Submit_durable_witness:
  "GetRequest ''req-1'' demoDB2 = Inr demoQueuedRequest \<and> rq_Deadline demoQueuedRequest = 0"
  using Submit_durable [OF _ _ demo_resubmit, of okCommit] by (simp add: demoService_def demoDB2_inv demoInput_def)

theorem Submit_charges_new_witness:
  "\<exists>t' log'. t' \<le> 5 \<and> limiterRun demoRate t' log' demoLimiter"
proof -
  have "limiterRun demoRate 0 [] (sv_limiter demoService)" using limiterRun.created [OF demo_limiter] by (simp add: demoService_def)
  from Submit_charges_new [OF _ this _ _ _ demo_resubmit, of okCommit] show ?thesis
    by (auto simp: demoService_def demoLimiter_def clockTime_def second_def)
qed

theorem Cancel_outcome_witness:
  "\<exists>q s'. Service_Cancel ''req-1'' [] [] 20 ''ev-9'' demoService = (Inr q, s') \<and> rq_State q = Cancelled"
proof -
  let ?e = "cancelEvent ''ev-9'' ''req-1'' ''service'' ''request cancelled'' 20 demoQueuedRequest demoQueued"
  have id: "rq_AccountID demoQueuedRequest = ''acct-1''" "rq_CreatedAt demoQueuedRequest = 5"
    by (simp_all add: demoQueuedRequest_def demoRequest_def)
  have e: "ev_AccountID ?e = ''acct-1''" "ev_RequestID ?e = ''req-1''" "ev_EventID ?e = ''ev-9''" "ev_To ?e = Cancelled"
      "ev_OccurredAt ?e = 20" by (simp_all add: cancelEvent_def id)
  have sv: "Snapshot_Validate demoQueued = Inr ()" using accountReach_valid [OF demo_reach] by simp
  have vf: "validFields ?e = Inr ()" by (simp add: validFields_iff cancelEvent_def id demo_ids go_simps)
  have new: "kget (sn_AppliedEvents demoQueued) (ev_EventID ?e) = None"
    unfolding e(3) by (simp add: demoQueued_def)
  obtain t where t: "Apply demoQueued ?e = Inr t" "\<not> tr_Idempotent t"
    unfolding Apply_new_iff [OF new] using sv vf
    by (simp add: e demo_ids) (simp add: cancelEvent_def demo_ids CanTransition_def demoQueued_def)
  obtain d where "applyEventTx ?e demoDB2 = Inr (t, d)"
    using applyEventTx_progress [OF demoDB2_inv _ t(1,2), of demoQueuedRequest] demoDB2_account demoDB2_request
    by (auto simp: e id demo_ids demoDB2_sel go_simps)
  then have c: "CancelRequest okCommit ?e demoDB2 = (Inr t, deleteLease ''acct-1'' d)"
    using t(2) by (simp add: CancelRequest_def cancelRequest_def e finishTx_def update_def okCommit_def verifyExpectedLease_def)
  have acc: "sp_GetAccount (storePort okCommit) (ev_AccountID ?e) demoDB2 = Inr demoQueued"
    using demoDB2_account by (simp add: e GetAccount_def view_def)
  have rev: "ev_ExpectedRevision ?e = sn_Revision demoQueued" by (simp add: cancelEvent_def)
  obtain q where q: "GetRequest ''req-1'' (deleteLease ''acct-1'' d) = Inr q"
    using rs.cancel_accepted [OF demoDB2_inv acc rev, of t _ ] c by (auto simp: e)
  have "Service_Cancel ''req-1'' [] [] 20 ''ev-9'' demoService = (Inr q, demoService\<lparr>sv_store := deleteLease ''acct-1'' d\<rparr>)"
    using c q demoDB2_account demoDB2_request
    by (simp add: Service_Cancel_def demoService_def GetRequest_def GetAccount_def GetLease_def view_def id leaseFromTx_def demoDB2_sel go_simps)
  with Cancel_outcome [OF _ _ this, of okCommit] show ?thesis by (auto simp: demoService_def demoDB2_inv)
qed

end
