(* ===== verification/Slot.thy ===== *)
theory Slot
  imports LeaseContract "HOL-Library.Product_Lexorder"
begin

text \<open>
  The execution-slot domain of internal/slot/slot.go: statuses, environment requirements, pool
  configuration, environment summaries, slots and their matching, and the slot lease, which
  implements the lease contract.
\<close>

section \<open>Data\<close>

datatype slot_status =
    Unprovisioned | Provisioning | Ready | Leased | Quarantined | Draining | Retiring
  | Stopped | Deleted | OtherSlotStatus string

fun slot_status_Valid :: "slot_status \<Rightarrow> bool" where
  "slot_status_Valid (OtherSlotStatus _) = False"
| "slot_status_Valid _ = True"

record EnvironmentRequirement =
  er_EnvironmentID :: string
  er_Version :: string
  er_Capabilities :: "string list"
  er_ManifestDigest :: string
  er_Signer :: string
  er_RequireTrusted :: bool

record PoolConfig =
  pc_PoolID :: string
  pc_EnvironmentID :: string
  pc_EnvironmentVersion :: string
  pc_DesiredSlots :: int
  pc_MaxConcurrency :: int
  pc_Capabilities :: "string list"
  pc_ManifestDigest :: string
  pc_Signer :: string
  pc_RequireTrusted :: bool
  pc_DesiredState :: string
  pc_ConfigRevision :: uint64
  pc_UpdatedBy :: string
  pc_UpdatedAt :: gotime

record EnvironmentSummary =
  es_EnvironmentID :: string
  es_Version :: string
  es_Generation :: uint64
  es_Capabilities :: "string list"
  es_ManifestDigest :: string
  es_Signer :: string
  es_Trusted :: bool
  es_AgentVersion :: string
  es_SessionState :: string
  es_DesktopReady :: bool
  es_AgentHandle :: string
  es_UpdatedAt :: gotime

record slot =
  sl_SlotID :: string
  sl_Ordinal :: int
  sl_PoolID :: string
  sl_EnvironmentID :: string
  sl_EnvironmentVersion :: string
  sl_EnvironmentGeneration :: uint64
  sl_Capabilities :: "string list"
  sl_ManifestDigest :: string
  sl_Signer :: string
  sl_Trusted :: bool
  sl_RequireTrusted :: bool
  sl_AgentHandle :: string
  sl_SessionDesiredState :: string
  sl_SessionOperationID :: string
  sl_SessionRevision :: uint64
  sl_Status :: slot_status
  sl_HealthAt :: gotime
  sl_FailureCount :: int
  sl_CreatedAt :: gotime
  sl_UpdatedAt :: gotime

record SlotLease =
  sk_LeaseID :: string
  sk_SlotID :: string
  sk_PoolID :: string
  sk_RequestID :: string
  sk_AccountID :: string
  sk_Owner :: string
  sk_EnvironmentGeneration :: uint64
  sk_AcquiredAt :: gotime
  sk_LastHeartbeat :: gotime
  sk_ExpiresAt :: gotime

section \<open>Operations\<close>

definition validID :: "string \<Rightarrow> bool" where
  "validID value \<longleftrightarrow>
     value \<noteq> [] \<and> TrimSpace value = value \<and> length value \<le> 256 \<and>
     \<not> ContainsAny value (crlftab @ '' '')"

text \<open>One step of the loop of \<open>normalizeCapabilities\<close>: \<open>result\<close> holds the values seen, in order.\<close>

definition addCapability :: "error \<Rightarrow> string \<Rightarrow> string list \<Rightarrow> string list result" where
  "addCapability err raw result =
     (let value = TrimSpace raw
      in if value = [] \<or> 128 < length value \<or> ContainsAny value crlftab then Inl err
         else if value \<in> set result then Inr result
         else Inr (result @ [value]))"

definition normalizeCapabilities :: "string list \<Rightarrow> string list result" where
  "normalizeCapabilities values =
     bindE (foldE (addCapability (SlotErr ErrInvalidConfig_slot)) values []) (\<lambda>result. Inr (sort result))"

definition Requirement_Normalize :: "EnvironmentRequirement \<Rightarrow> EnvironmentRequirement result" where
  "Requirement_Normalize r0 =
     (let r = r0\<lparr>er_EnvironmentID := TrimSpace (er_EnvironmentID r0),
                er_Version := TrimSpace (er_Version r0),
                er_ManifestDigest := TrimSpace (er_ManifestDigest r0),
                er_Signer := TrimSpace (er_Signer r0)\<rparr>
      in if er_EnvironmentID r = [] \<and> er_Version r = [] \<and> er_Capabilities r = []
            \<and> er_ManifestDigest r = [] \<and> er_Signer r = [] \<and> \<not> er_RequireTrusted r
         then Inr r
         else if er_EnvironmentID r = [] \<or> 256 < length (er_EnvironmentID r)
            \<or> ContainsAny (er_EnvironmentID r) crlftab \<or> 128 < length (er_Version r)
            \<or> ContainsAny (er_Version r) crlf
         then Inl (SlotErr ErrInvalidRequest_slot)
         else if 256 < length (er_ManifestDigest r) \<or> 256 < length (er_Signer r)
            \<or> ContainsAny (er_ManifestDigest r) crlftab \<or> ContainsAny (er_Signer r) crlftab
         then Inl (SlotErr ErrInvalidRequest_slot)
         else bindE (normalizeCapabilities (er_Capabilities r)) (\<lambda>caps.
           Inr (r\<lparr>er_Capabilities := caps\<rparr>)))"

definition PoolConfig_Requirement :: "PoolConfig \<Rightarrow> EnvironmentRequirement" where
  "PoolConfig_Requirement p =
     \<lparr>er_EnvironmentID = pc_EnvironmentID p, er_Version = pc_EnvironmentVersion p,
      er_Capabilities = pc_Capabilities p, er_ManifestDigest = pc_ManifestDigest p,
      er_Signer = pc_Signer p, er_RequireTrusted = pc_RequireTrusted p\<rparr>"

definition PoolConfig_Validate :: "PoolConfig \<Rightarrow> unit result" where
  "PoolConfig_Validate p =
     (if \<not> validID (pc_PoolID p) \<or> pc_DesiredSlots p < 0 \<or> 10000 < pc_DesiredSlots p
         \<or> pc_EnvironmentID p = [] \<or> pc_MaxConcurrency p < 0 \<or> 10000 < pc_MaxConcurrency p
         \<or> 256 < length (pc_UpdatedBy p) \<or> ContainsAny (pc_UpdatedBy p) crlftab
      then Inl (SlotErr ErrInvalidConfig_slot)
      else
        let state = (if pc_DesiredState p = [] then ''enabled'' else pc_DesiredState p)
        in if state \<noteq> ''enabled'' \<and> state \<noteq> ''draining'' \<and> state \<noteq> ''disabled''
           then Inl (SlotErr ErrInvalidConfig_slot)
           else bindE (Requirement_Normalize (PoolConfig_Requirement p)) (\<lambda>_. Inr ()))"

definition PoolConfig_Enabled :: "PoolConfig \<Rightarrow> bool" where
  "PoolConfig_Enabled p \<longleftrightarrow>
     pc_DesiredState p = [] \<or> pc_DesiredState p = ''enabled'' \<or> pc_DesiredState p = ''draining''"

definition PoolConfig_Normalized :: "PoolConfig \<Rightarrow> PoolConfig" where
  "PoolConfig_Normalized p =
     (if pc_DesiredState p = [] then p\<lparr>pc_DesiredState := ''enabled''\<rparr> else p)"

definition Summary_Validate :: "EnvironmentSummary \<Rightarrow> unit result" where
  "Summary_Validate e =
     (if \<not> validID (es_EnvironmentID e) \<or> es_Generation e = 0 \<or> IsZero (es_UpdatedAt e)
         \<or> 128 < length (es_Version e) \<or> 256 < length (es_ManifestDigest e)
         \<or> 256 < length (es_Signer e) \<or> 64 < length (es_AgentVersion e)
         \<or> 32 < length (es_SessionState e) \<or> 256 < length (es_AgentHandle e)
         \<or> ContainsAny (es_Version e @ es_ManifestDigest e @ es_Signer e @ es_AgentVersion e
                        @ es_SessionState e) crlftab
         \<or> ContainsAny (es_AgentHandle e) (crlftab @ [CHR 0x20, CHR 0x5C, CHR 0x2F])
      then Inl (SlotErr ErrInvalidConfig_slot)
      else bindE (normalizeCapabilities (es_Capabilities e)) (\<lambda>_. Inr ()))"

definition Slot_Validate :: "slot \<Rightarrow> unit result" where
  "Slot_Validate s =
     (if \<not> validID (sl_SlotID s) \<or> \<not> validID (sl_PoolID s) \<or> sl_Ordinal s < 1
         \<or> sl_EnvironmentID s = [] \<or> \<not> slot_status_Valid (sl_Status s)
         \<or> IsZero (sl_CreatedAt s) \<or> IsZero (sl_UpdatedAt s)
         \<or> Before (sl_UpdatedAt s) (sl_CreatedAt s) \<or> sl_FailureCount s < 0
         \<or> 256 < length (sl_EnvironmentID s) \<or> 128 < length (sl_EnvironmentVersion s)
         \<or> 256 < length (sl_ManifestDigest s) \<or> 256 < length (sl_Signer s)
         \<or> 256 < length (sl_AgentHandle s) \<or> 256 < length (sl_SessionOperationID s)
         \<or> ContainsAny (sl_EnvironmentID s) crlftab \<or> ContainsAny (sl_EnvironmentVersion s) crlftab
         \<or> ContainsAny (sl_ManifestDigest s) crlftab
         \<or> ContainsAny (sl_Signer s @ sl_AgentHandle s @ sl_SessionOperationID s) crlftab
      then Inl (SlotErr ErrInvalidSlot)
      else if sl_SessionDesiredState s \<noteq> [] \<and> sl_SessionDesiredState s \<noteq> ''running''
         \<and> sl_SessionDesiredState s \<noteq> ''stopped''
      then Inl (SlotErr ErrInvalidSlot)
      else if sl_EnvironmentGeneration s = 0 \<and> sl_Status s \<noteq> Unprovisioned
         \<and> sl_Status s \<noteq> Provisioning \<and> sl_Status s \<noteq> Stopped \<and> sl_Status s \<noteq> Retiring
         \<and> sl_Status s \<noteq> Deleted
      then Inl (SlotErr ErrInvalidSlot)
      else bindE (normalizeCapabilities (sl_Capabilities s)) (\<lambda>_. Inr ()))"

definition Slot_Matches :: "slot \<Rightarrow> EnvironmentRequirement \<Rightarrow> bool" where
  "Slot_Matches s requirement =
     (case Requirement_Normalize requirement of
        Inl _ \<Rightarrow> False
      | Inr r \<Rightarrow>
          if sl_Status s \<noteq> Ready \<or> sl_SessionDesiredState s = ''stopped''
             \<or> sl_EnvironmentID s \<noteq> er_EnvironmentID r
          then False
          else if er_Version r \<noteq> [] \<and> sl_EnvironmentVersion s \<noteq> er_Version r then False
          else if er_ManifestDigest r \<noteq> [] \<and> sl_ManifestDigest s \<noteq> er_ManifestDigest r then False
          else if er_Signer r \<noteq> [] \<and> sl_Signer s \<noteq> er_Signer r then False
          else if er_RequireTrusted r \<and> \<not> sl_Trusted s then False
          else list_all (\<lambda>c. c \<in> set (sl_Capabilities s)) (er_Capabilities r))"

definition SlotLease_Validate :: "SlotLease \<Rightarrow> unit result" where
  "SlotLease_Validate l =
     (if \<not> validID (sk_LeaseID l) \<or> \<not> validID (sk_SlotID l) \<or> \<not> validID (sk_PoolID l)
         \<or> \<not> validID (sk_RequestID l) \<or> \<not> validID (sk_AccountID l) \<or> \<not> validID (sk_Owner l)
         \<or> sk_EnvironmentGeneration l = 0 \<or> IsZero (sk_AcquiredAt l)
         \<or> IsZero (sk_LastHeartbeat l) \<or> IsZero (sk_ExpiresAt l)
         \<or> Before (sk_LastHeartbeat l) (sk_AcquiredAt l)
         \<or> \<not> After (sk_ExpiresAt l) (sk_LastHeartbeat l)
      then Inl (SlotLeaseErr ErrInvalidLease)
      else Inr ())"

definition SlotLease_Expired :: "SlotLease \<Rightarrow> gotime \<Rightarrow> bool" where
  "SlotLease_Expired l now \<longleftrightarrow> \<not> Before now (sk_ExpiresAt l)"

text \<open>The string arguments of \<open>AcquireLease\<close>, in its order, and the generation.\<close>

record SlotLeaseArgs =
  sa_LeaseID :: string
  sa_SlotID :: string
  sa_PoolID :: string
  sa_RequestID :: string
  sa_AccountID :: string
  sa_Owner :: string
  sa_Generation :: uint64

definition AcquireSlotLease ::
  "SlotLease option \<Rightarrow> gotime \<Rightarrow> SlotLeaseArgs \<Rightarrow> duration \<Rightarrow> SlotLease result" where
  "AcquireSlotLease current now a ttl =
     (if IsZero now \<or> ttl \<le> 0 \<or> sa_Generation a = 0 \<or> \<not> validID (sa_LeaseID a)
         \<or> \<not> validID (sa_SlotID a) \<or> \<not> validID (sa_PoolID a) \<or> \<not> validID (sa_RequestID a)
         \<or> \<not> validID (sa_AccountID a) \<or> \<not> validID (sa_Owner a)
      then Inl (SlotLeaseErr ErrInvalidLease)
      else
        bindE (case current of
                 None \<Rightarrow> Inr ()
               | Some c \<Rightarrow>
                   bindE (SlotLease_Validate c) (\<lambda>_.
                   if \<not> SlotLease_Expired c now then Inl (SlotLeaseErr ErrLeaseHeld) else Inr ()))
        (\<lambda>_.
        let expires = Add now ttl
        in if \<not> After expires now then Inl (SlotLeaseErr ErrInvalidLease)
           else Inr \<lparr>sk_LeaseID = sa_LeaseID a, sk_SlotID = sa_SlotID a, sk_PoolID = sa_PoolID a,
                     sk_RequestID = sa_RequestID a, sk_AccountID = sa_AccountID a,
                     sk_Owner = sa_Owner a, sk_EnvironmentGeneration = sa_Generation a,
                     sk_AcquiredAt = now, sk_LastHeartbeat = now, sk_ExpiresAt = expires\<rparr>))"

definition HeartbeatSlotLease ::
  "SlotLease \<Rightarrow> gotime \<Rightarrow> string \<Rightarrow> string \<Rightarrow> duration \<Rightarrow> SlotLease result" where
  "HeartbeatSlotLease lease now leaseID owner ttl =
     bindE (SlotLease_Validate lease) (\<lambda>_.
     if IsZero now \<or> ttl \<le> 0 then Inl (SlotLeaseErr ErrInvalidLease)
     else if sk_LeaseID lease \<noteq> leaseID \<or> sk_Owner lease \<noteq> owner
     then Inl (SlotLeaseErr ErrLeaseNotOwned)
     else if SlotLease_Expired lease now then Inl (SlotLeaseErr ErrLeaseExpired)
     else if Before now (sk_LastHeartbeat lease) then Inl (SlotLeaseErr ErrTimeRegression)
     else
       let lease' = lease\<lparr>sk_LastHeartbeat := now, sk_ExpiresAt := Add now ttl\<rparr>
       in if \<not> After (sk_ExpiresAt lease') now then Inl (SlotLeaseErr ErrInvalidLease)
          else Inr lease')"

definition ReleaseSlotLease :: "SlotLease \<Rightarrow> string \<Rightarrow> string \<Rightarrow> unit result" where
  "ReleaseSlotLease lease leaseID owner =
     bindE (SlotLease_Validate lease) (\<lambda>_.
     if sk_LeaseID lease \<noteq> leaseID \<or> sk_Owner lease \<noteq> owner
     then Inl (SlotLeaseErr ErrLeaseNotOwned) else Inr ())"

definition SortSlots :: "slot list \<Rightarrow> slot list" where
  "SortSlots slots = sort_key (\<lambda>s. (sl_Ordinal s, sl_SlotID s)) slots"

section \<open>Facts of the operations\<close>

lemma SlotLease_Expired_iff [simp]: "SlotLease_Expired l now \<longleftrightarrow> sk_ExpiresAt l \<le> now"
  by (auto simp: SlotLease_Expired_def)

lemma SlotLease_Validate_iff:
  "SlotLease_Validate l = Inr () \<longleftrightarrow>
     validID (sk_LeaseID l) \<and> validID (sk_SlotID l) \<and> validID (sk_PoolID l) \<and>
     validID (sk_RequestID l) \<and> validID (sk_AccountID l) \<and> validID (sk_Owner l) \<and>
     sk_EnvironmentGeneration l \<noteq> 0 \<and> sk_AcquiredAt l \<noteq> 0 \<and> sk_LastHeartbeat l \<noteq> 0 \<and>
     sk_ExpiresAt l \<noteq> 0 \<and> sk_AcquiredAt l \<le> sk_LastHeartbeat l \<and>
     sk_LastHeartbeat l < sk_ExpiresAt l"
  by (auto simp: SlotLease_Validate_def)

lemma AcquireSlotLease_iff:
  "AcquireSlotLease current now a ttl = Inr l \<longleftrightarrow>
     now \<noteq> 0 \<and> 0 < ttl \<and> sa_Generation a \<noteq> 0 \<and> validID (sa_LeaseID a) \<and> validID (sa_SlotID a) \<and>
     validID (sa_PoolID a) \<and> validID (sa_RequestID a) \<and> validID (sa_AccountID a) \<and>
     validID (sa_Owner a) \<and>
     (\<forall>c. current = Some c \<longrightarrow> SlotLease_Validate c = Inr () \<and> sk_ExpiresAt c \<le> now) \<and>
     now < Add now ttl \<and>
     l = \<lparr>sk_LeaseID = sa_LeaseID a, sk_SlotID = sa_SlotID a, sk_PoolID = sa_PoolID a,
          sk_RequestID = sa_RequestID a, sk_AccountID = sa_AccountID a,
          sk_Owner = sa_Owner a, sk_EnvironmentGeneration = sa_Generation a,
          sk_AcquiredAt = now, sk_LastHeartbeat = now, sk_ExpiresAt = Add now ttl\<rparr>"
  by (auto simp: AcquireSlotLease_def Let_def split: option.splits)

lemma HeartbeatSlotLease_iff:
  "HeartbeatSlotLease lease now leaseID owner ttl = Inr l \<longleftrightarrow>
     SlotLease_Validate lease = Inr () \<and> now \<noteq> 0 \<and> 0 < ttl \<and>
     sk_LeaseID lease = leaseID \<and> sk_Owner lease = owner \<and> now < sk_ExpiresAt lease \<and>
     sk_LastHeartbeat lease \<le> now \<and> now < Add now ttl \<and>
     l = lease\<lparr>sk_LastHeartbeat := now, sk_ExpiresAt := Add now ttl\<rparr>"
  by (auto simp: HeartbeatSlotLease_def Let_def)

lemma ReleaseSlotLease_iff:
  "ReleaseSlotLease lease leaseID owner = Inr u \<longleftrightarrow>
     SlotLease_Validate lease = Inr () \<and> sk_LeaseID lease = leaseID \<and> sk_Owner lease = owner"
  by (auto simp: ReleaseSlotLease_def)

definition slot_lease_ok :: "SlotLease \<Rightarrow> bool" where
  "slot_lease_ok l \<longleftrightarrow> validID (sk_LeaseID l) \<and> validID (sk_Owner l) \<and>
     sk_EnvironmentGeneration l \<noteq> 0 \<and> sk_AcquiredAt l \<le> sk_LastHeartbeat l \<and>
     sk_LastHeartbeat l < sk_ExpiresAt l"

interpretation slot_lease: lease_contract slot_lease_ok sk_LeaseID sk_Owner sk_LastHeartbeat
  sk_ExpiresAt AcquireSlotLease sa_LeaseID sa_Owner HeartbeatSlotLease ReleaseSlotLease
  by unfold_locales
    (auto simp: AcquireSlotLease_iff HeartbeatSlotLease_iff ReleaseSlotLease_iff slot_lease_ok_def
      SlotLease_Validate_iff)

lemma Slot_Matches_ready: "Slot_Matches s r \<Longrightarrow> sl_Status s = Ready"
  by (auto simp: Slot_Matches_def split: sum.splits if_splits)

lemma mset_SortSlots [simp]: "mset (SortSlots xs) = mset xs"
  by (simp add: SortSlots_def)

lemma set_SortSlots [simp]: "set (SortSlots xs) = set xs"
  by (simp add: SortSlots_def)

end
