(* ===== verification/Environment.thy ===== *)
theory Environment
  imports GoLib Errors
begin

text \<open>
  The durable record of an environment package (internal/environment/lifecycle.go) and the token
  checks of internal/environment/manifest.go that its validation uses. The signed manifest, the
  files of a package and their verification are not modelled.
\<close>

record EnvironmentRecord =
  en_EnvironmentID :: string
  en_Version :: string
  en_Capabilities :: "string list"
  en_ManifestDigest :: string
  en_Signer :: string
  en_Installed :: bool
  en_Verified :: bool
  en_Trusted :: bool
  en_Enabled :: bool
  en_Healthy :: bool
  en_Ready :: bool
  en_Generation :: uint64
  en_UpdatedAt :: gotime

definition validToken :: "string \<Rightarrow> nat \<Rightarrow> bool" where
  "validToken v limit \<longleftrightarrow>
     TrimSpace v = v \<and> v \<noteq> [] \<and> length v \<le> limit \<and> \<not> ContainsAny v (CHR 0x00 # crlftab)"

definition validEnvironmentVersion :: "string \<Rightarrow> bool" where
  "validEnvironmentVersion v \<longleftrightarrow>
     validToken v 128 \<and> v \<noteq> ''.'' \<and> v \<noteq> ''..'' \<and>
     \<not> ContainsAny v [CHR 0x2F, CHR 0x5C, CHR 0x3A, CHR 0x40]"

text \<open>
  \<open>filepath.IsAbs\<close> and \<open>filepath.VolumeName\<close> of the path: on Unix, a leading slash and nothing. On
  Windows a path that is absolute or has a volume holds a colon or begins with two separators,
  which the other conditions refuse as well.
\<close>

definition validEnvironmentID :: "string \<Rightarrow> bool" where
  "validEnvironmentID v \<longleftrightarrow>
     \<not> (\<not> validToken v 256 \<or> prefix [CHR 0x2F] v \<or> ContainsAny v [CHR 0x5C, CHR 0x3A, CHR 0x40]) \<and>
     list_all (\<lambda>part. \<not> (part = [] \<or> part = ''.'' \<or> part = ''..'')) (Split (CHR 0x2F) v)"

fun uniqueTokens :: "string list \<Rightarrow> nat \<Rightarrow> string list \<Rightarrow> bool" where
  "uniqueTokens [] limit seen = True"
| "uniqueTokens (v # vs) limit seen =
     (if \<not> validToken v limit then False else if v \<in> set seen then False
      else uniqueTokens vs limit (v # seen))"

text \<open>\<open>hex.DecodeString\<close> accepts an even number of hexadecimal digits of either case.\<close>

definition hexDigit :: "char \<Rightarrow> bool" where
  "hexDigit c \<longleftrightarrow>
     (let n = (of_char c :: nat) in 48 \<le> n \<and> n \<le> 57 \<or> 97 \<le> n \<and> n \<le> 102 \<or> 65 \<le> n \<and> n \<le> 70)"

definition ManifestDigestValid :: "EnvironmentRecord \<Rightarrow> bool" where
  "ManifestDigestValid r \<longleftrightarrow>
     length (en_ManifestDigest r) = 64 \<and> list_all hexDigit (en_ManifestDigest r)"

definition Record_Validate :: "EnvironmentRecord \<Rightarrow> unit result" where
  "Record_Validate r =
     (if \<not> validEnvironmentID (en_EnvironmentID r) \<or> \<not> validEnvironmentVersion (en_Version r)
         \<or> \<not> validToken (en_Signer r) 256 \<or> en_Generation r = 0 \<or> IsZero (en_UpdatedAt r)
         \<or> \<not> ManifestDigestValid r
      then Inl (EnvironmentErr ErrInvalidManifest)
      else if \<not> uniqueTokens (en_Capabilities r) 128 [] then Inl (EnvironmentErr ErrInvalidManifest)
      else if en_Verified r \<and> \<not> en_Installed r then Inl (EnvironmentErr ErrNotVerified)
      else if en_Trusted r \<and> \<not> en_Verified r then Inl (EnvironmentErr ErrNotTrusted)
      else if en_Enabled r \<and> \<not> en_Trusted r then Inl (EnvironmentErr ErrDisabled)
      else if en_Healthy r \<and> \<not> en_Verified r then Inl (EnvironmentErr ErrNotHealthy)
      else if en_Ready r \<and> (\<not> en_Installed r \<or> \<not> en_Verified r \<or> \<not> en_Trusted r \<or> \<not> en_Enabled r
                              \<or> \<not> en_Healthy r)
      then Inl (EnvironmentErr ErrNotReady)
      else Inr ())"

definition IsReady :: "EnvironmentRecord \<Rightarrow> bool" where
  "IsReady r \<longleftrightarrow>
     en_Ready r \<and> en_Installed r \<and> en_Verified r \<and> en_Trusted r \<and> en_Enabled r \<and> en_Healthy r"

lemma valid_record_ready: "Record_Validate r = Inr () \<Longrightarrow> IsReady r \<longleftrightarrow> en_Ready r"
  by (auto simp: Record_Validate_def IsReady_def)

end
