(* ===== verification/SlotBase.thy ===== *)
theory SlotBase
  imports StoreWork Slot Environment
begin

text \<open>
  The tables of internal/store that hold execution slots: pools, slots, slot leases, environment
  summaries and environment records, beside the account tables of \<open>StoreBase\<close>; the functions of
  slots.go and environments.go that only compute or only read; and the transaction helpers.
\<close>

section \<open>Tables\<close>

record sdb =
  sd_core :: db
  sd_pools :: "(string, PoolConfig json) kmap"
  sd_slots :: "(string, slot json) kmap"
  sd_slotLeases :: "(string, SlotLease json) kmap"
  sd_summaries :: "(string, EnvironmentSummary json) kmap"
  sd_packages :: "(string, EnvironmentRecord json) kmap"

definition emptySDB :: sdb where
  "emptySDB = \<lparr>sd_core = emptyDB, sd_pools = kempty, sd_slots = kempty, sd_slotLeases = kempty,
     sd_summaries = kempty, sd_packages = kempty\<rparr>"

text \<open>
  The open store: the tables, and the confirmations of stopped agents, which are kept in memory
  and are not part of any transaction.
\<close>

record SlotStore =
  ss_db :: sdb
  ss_fenced :: "(string, SlotLease) kmap"

record SlotLeaseRecord =
  lr_SlotID :: string
  lr_Lease :: SlotLease

record StatusCounts =
  sc_PoolID :: string
  sc_EnvironmentID :: string
  sc_EnvironmentVersion :: string
  sc_Desired :: int
  sc_Ready :: int
  sc_Leased :: int
  sc_Quarantined :: int
  sc_Draining :: int
  sc_Provisioning :: int
  sc_Retiring :: int
  sc_Unprovisioned :: int
  sc_Stopped :: int

definition getJSON :: "(string, 'a json) kmap \<Rightarrow> string \<Rightarrow> error \<Rightarrow> 'a result" where
  "getJSON bucket key missing =
     (case kget bucket key of None \<Rightarrow> Inl missing | Some raw \<Rightarrow> decode raw)"

definition putSlot :: "slot \<Rightarrow> sdb \<Rightarrow> sdb" where
  "putSlot value d = d\<lparr>sd_slots := kput (sl_SlotID value) (Json value) (sd_slots d)\<rparr>"

definition putSlotLease :: "string \<Rightarrow> SlotLease \<Rightarrow> sdb \<Rightarrow> sdb" where
  "putSlotLease slotID lease d = d\<lparr>sd_slotLeases := kput slotID (Json lease) (sd_slotLeases d)\<rparr>"

definition deleteSlotLease :: "string \<Rightarrow> sdb \<Rightarrow> sdb" where
  "deleteSlotLease slotID d = d\<lparr>sd_slotLeases := kdel slotID (sd_slotLeases d)\<rparr>"

definition putPool :: "PoolConfig \<Rightarrow> sdb \<Rightarrow> sdb" where
  "putPool config d = d\<lparr>sd_pools := kput (pc_PoolID config) (Json config) (sd_pools d)\<rparr>"

definition putSummary :: "EnvironmentSummary \<Rightarrow> sdb \<Rightarrow> sdb" where
  "putSummary summary d =
     d\<lparr>sd_summaries := kput (es_EnvironmentID summary) (Json summary) (sd_summaries d)\<rparr>"

section \<open>Capabilities and targets\<close>

definition containsCapabilities :: "string list \<Rightarrow> string list \<Rightarrow> bool" where
  "containsCapabilities available required \<longleftrightarrow> list_all (\<lambda>v. v \<in> set available) required"

definition capabilitiesEqual :: "string list \<Rightarrow> string list \<Rightarrow> bool" where
  "capabilitiesEqual left right \<longleftrightarrow>
     containsCapabilities left right \<and> containsCapabilities right left"

definition slotMatchesPoolTarget :: "slot \<Rightarrow> PoolConfig \<Rightarrow> bool" where
  "slotMatchesPoolTarget value config \<longleftrightarrow>
     sl_EnvironmentID value = pc_EnvironmentID config \<and>
     sl_EnvironmentVersion value = pc_EnvironmentVersion config \<and>
     sl_ManifestDigest value = pc_ManifestDigest config \<and> sl_Signer value = pc_Signer config \<and>
     sl_RequireTrusted value = pc_RequireTrusted config \<and>
     containsCapabilities (sl_Capabilities value) (pc_Capabilities config)"

definition targetChanged :: "slot \<Rightarrow> PoolConfig \<Rightarrow> bool" where
  "targetChanged current config \<longleftrightarrow>
     sl_EnvironmentID current \<noteq> pc_EnvironmentID config \<or>
     sl_EnvironmentVersion current \<noteq> pc_EnvironmentVersion config \<or>
     sl_ManifestDigest current \<noteq> pc_ManifestDigest config \<or> sl_Signer current \<noteq> pc_Signer config \<or>
     sl_RequireTrusted current \<noteq> pc_RequireTrusted config \<or>
     \<not> capabilitiesEqual (sl_Capabilities current) (pc_Capabilities config)"

definition normalizeSlotCapabilities :: "string list \<Rightarrow> string list result" where
  "normalizeSlotCapabilities values =
     bindE (foldE (addCapability (SlotErr ErrInvalidRequest_slot)) values []) (\<lambda>result. Inr (sort result))"

definition constrainSlotRequirement ::
  "EnvironmentRequirement \<Rightarrow> PoolConfig \<Rightarrow> EnvironmentRequirement result" where
  "constrainSlotRequirement requested0 pool =
     (let requested1 = (if er_EnvironmentID requested0 = []
            then requested0\<lparr>er_EnvironmentID := pc_EnvironmentID pool\<rparr> else requested0)
      in bindE (Requirement_Normalize requested1) (\<lambda>requested.
         if er_EnvironmentID requested \<noteq> [] \<and> er_EnvironmentID requested \<noteq> pc_EnvironmentID pool
         then Inl (SlotErr ErrSlotUnavailable)
         else if er_Version requested \<noteq> [] \<and> er_Version requested \<noteq> pc_EnvironmentVersion pool
         then Inl (SlotErr ErrSlotUnavailable)
         else if er_ManifestDigest requested \<noteq> [] \<and> er_ManifestDigest requested \<noteq> pc_ManifestDigest pool
         then Inl (SlotErr ErrSlotUnavailable)
         else if er_Signer requested \<noteq> [] \<and> er_Signer requested \<noteq> pc_Signer pool
         then Inl (SlotErr ErrSlotUnavailable)
         else
           bindE (normalizeSlotCapabilities (pc_Capabilities pool @ er_Capabilities requested)) (\<lambda>caps.
           Inr \<lparr>er_EnvironmentID = pc_EnvironmentID pool,
                er_Version = (if pc_EnvironmentVersion pool \<noteq> [] then pc_EnvironmentVersion pool
                              else er_Version requested),
                er_Capabilities = caps,
                er_ManifestDigest = (if pc_ManifestDigest pool \<noteq> [] then pc_ManifestDigest pool
                                     else er_ManifestDigest requested),
                er_Signer = (if pc_Signer pool \<noteq> [] then pc_Signer pool else er_Signer requested),
                er_RequireTrusted = (er_RequireTrusted requested \<or> pc_RequireTrusted pool)\<rparr>)))"

section \<open>Reading\<close>

definition slotEntry :: "string \<Rightarrow> string \<times> slot json \<Rightarrow> slot list \<Rightarrow> slot list result" where
  "slotEntry poolID p acc =
     bindE (decode (snd p)) (\<lambda>value.
     if sl_PoolID value \<noteq> poolID then Inr acc
     else bindE (corrupt (Slot_Validate value)) (\<lambda>_. Inr (acc @ [value])))"

definition slotsForPoolTx :: "sdb \<Rightarrow> string \<Rightarrow> slot list result" where
  "slotsForPoolTx d poolID =
     (if TrimSpace poolID = [] then Inl (SlotErr ErrPoolNotFound)
      else bindE (foldE (slotEntry poolID) (kentries (sd_slots d)) []) (\<lambda>result. Inr (SortSlots result)))"

definition GetJobPool :: "string \<Rightarrow> sdb \<Rightarrow> PoolConfig result" where
  "GetJobPool poolID = view (\<lambda>d.
     bindE (getJSON (sd_pools d) poolID (SlotErr ErrPoolNotFound)) (\<lambda>result.
     Inr (PoolConfig_Normalized result)))"

definition ListJobPools :: "sdb \<Rightarrow> PoolConfig list result" where
  "ListJobPools = view (\<lambda>d.
     bindE (foldE (\<lambda>p acc.
        bindE (decode (snd p)) (\<lambda>config.
        bindE (corrupt (PoolConfig_Validate config)) (\<lambda>_.
        Inr (acc @ [PoolConfig_Normalized config])))) (kentries (sd_pools d)) []) (\<lambda>result.
     Inr (sort_key pc_PoolID result)))"

definition GetSlot :: "string \<Rightarrow> sdb \<Rightarrow> slot result" where
  "GetSlot slotID = view (\<lambda>d. getJSON (sd_slots d) slotID (SlotErr ErrSlotNotFound))"

definition ListSlots :: "string \<Rightarrow> sdb \<Rightarrow> slot list result" where
  "ListSlots poolID = view (\<lambda>d. slotsForPoolTx d poolID)"

definition GetEnvironmentSummary :: "string \<Rightarrow> sdb \<Rightarrow> EnvironmentSummary result" where
  "GetEnvironmentSummary environmentID =
     view (\<lambda>d. getJSON (sd_summaries d) environmentID (SlotErr ErrPoolNotFound))"

definition ListEnvironmentSummaries :: "sdb \<Rightarrow> EnvironmentSummary list result" where
  "ListEnvironmentSummaries = view (\<lambda>d.
     bindE (foldE (\<lambda>p acc.
        bindE (decode (snd p)) (\<lambda>summary.
        bindE (corrupt (Summary_Validate summary)) (\<lambda>_.
        Inr (acc @ [summary])))) (kentries (sd_summaries d)) []) (\<lambda>result.
     Inr (sort_key es_EnvironmentID result)))"

definition GetSlotLease :: "string \<Rightarrow> sdb \<Rightarrow> SlotLease option result" where
  "GetSlotLease slotID = view (\<lambda>d.
     case kget (sd_slotLeases d) slotID of
       None \<Rightarrow> Inr None
     | Some raw \<Rightarrow>
         bindE (decode raw) (\<lambda>result.
         bindE (SlotLease_Validate result) (\<lambda>_. Inr (Some result))))"

definition ListSlotLeases :: "sdb \<Rightarrow> SlotLeaseRecord list result" where
  "ListSlotLeases = view (\<lambda>d.
     bindE (foldE (\<lambda>p acc.
        bindE (decode (snd p)) (\<lambda>lease.
        bindE (corrupt (SlotLease_Validate lease)) (\<lambda>_.
        Inr (acc @ [\<lparr>lr_SlotID = fst p, lr_Lease = lease\<rparr>])))) (kentries (sd_slotLeases d)) []) (\<lambda>result.
     Inr (sort_key lr_SlotID result)))"

section \<open>Environment records\<close>

definition environmentKey :: "string \<Rightarrow> string \<Rightarrow> string" where
  "environmentKey environmentID version = environmentID @ [CHR 0x40] @ version"

definition GetEnvironmentRecord :: "string \<Rightarrow> string \<Rightarrow> sdb \<Rightarrow> EnvironmentRecord result" where
  "GetEnvironmentRecord environmentID version = view (\<lambda>d.
     bindE (getJSON (sd_packages d) (environmentKey environmentID version)
              (MessageErr ''environment record not found'')) (\<lambda>result.
     bindE (corrupt (Record_Validate result)) (\<lambda>_. Inr result)))"

definition ListEnvironmentRecords :: "sdb \<Rightarrow> EnvironmentRecord list result" where
  "ListEnvironmentRecords = view (\<lambda>d.
     bindE (foldE (\<lambda>p acc.
        bindE (decode (snd p)) (\<lambda>record.
        if fst p \<noteq> environmentKey (en_EnvironmentID record) (en_Version record) \<or> CHR 0x00 \<in> set (fst p)
        then Inl (StoreErr ErrCorruptData)
        else bindE (corrupt (Record_Validate record)) (\<lambda>_. Inr (acc @ [record])))) (kentries (sd_packages d)) [])
     (\<lambda>result. Inr (sort_key (\<lambda>r. (en_EnvironmentID r, en_Version r)) result)))"

text \<open>The gate of a pool: the record is ready and is the one the pool names.\<close>

definition recordServesPool :: "EnvironmentRecord \<Rightarrow> PoolConfig \<Rightarrow> bool" where
  "recordServesPool record config \<longleftrightarrow>
     \<not> (\<not> IsReady record \<or> en_EnvironmentID record \<noteq> pc_EnvironmentID config
        \<or> en_Version record \<noteq> pc_EnvironmentVersion config
        \<or> \<not> EqualFold (en_ManifestDigest record) (pc_ManifestDigest config)
        \<or> en_Signer record \<noteq> pc_Signer config
        \<or> \<not> containsCapabilities (en_Capabilities record) (pc_Capabilities config))"

definition ValidatePoolEnvironment :: "PoolConfig \<Rightarrow> sdb \<Rightarrow> unit result" where
  "ValidatePoolEnvironment config d =
     bindE (PoolConfig_Validate config) (\<lambda>_.
     if TrimSpace (pc_EnvironmentVersion config) = [] \<or> TrimSpace (pc_ManifestDigest config) = []
        \<or> TrimSpace (pc_Signer config) = []
     then Inl (StoreErr ErrEnvironmentUnavailable)
     else case GetEnvironmentRecord (pc_EnvironmentID config) (pc_EnvironmentVersion config) d of
       Inl _ \<Rightarrow> Inl (StoreErr ErrEnvironmentUnavailable)
     | Inr record \<Rightarrow>
         if \<not> recordServesPool record config then Inl (StoreErr ErrEnvironmentUnavailable) else Inr ())"

definition metadataRequired :: "PoolConfig \<Rightarrow> bool" where
  "metadataRequired config \<longleftrightarrow>
     TrimSpace (pc_EnvironmentVersion config) \<noteq> [] \<and> length (pc_ManifestDigest config) = 64 \<and>
     TrimSpace (pc_Signer config) \<noteq> []"

definition validatePoolEnvironmentTx :: "sdb \<Rightarrow> PoolConfig \<Rightarrow> unit result" where
  "validatePoolEnvironmentTx d config =
     (if klen (sd_packages d) = 0 \<and> \<not> metadataRequired config then Inr ()
      else if TrimSpace (pc_EnvironmentVersion config) = [] \<or> TrimSpace (pc_ManifestDigest config) = []
         \<or> TrimSpace (pc_Signer config) = []
      then Inl (StoreErr ErrEnvironmentUnavailable)
      else case kget (sd_packages d)
                  (environmentKey (pc_EnvironmentID config) (pc_EnvironmentVersion config)) of
        None \<Rightarrow> Inl (StoreErr ErrEnvironmentUnavailable)
      | Some raw \<Rightarrow>
          bindE (decode raw) (\<lambda>record.
          if Record_Validate record \<noteq> Inr () \<or> \<not> recordServesPool record config
          then Inl (StoreErr ErrEnvironmentUnavailable) else Inr ()))"

section \<open>Status and capacity\<close>

definition environmentReadyFor :: "PoolConfig \<Rightarrow> sdb \<Rightarrow> bool result" where
  "environmentReadyFor config d =
     bindE (ListEnvironmentRecords d) (\<lambda>records.
     if 0 < length records \<or> metadataRequired config
     then Inr (case GetEnvironmentRecord (pc_EnvironmentID config) (pc_EnvironmentVersion config) d of
         Inl _ \<Rightarrow> False | Inr record \<Rightarrow> recordServesPool record config)
     else Inr True)"

definition countSlot :: "bool \<Rightarrow> PoolConfig \<Rightarrow> slot \<Rightarrow> StatusCounts \<Rightarrow> StatusCounts" where
  "countSlot environmentReady config value r =
     (case sl_Status value of
        Ready \<Rightarrow>
          if sl_SessionDesiredState value = ''stopped'' then r\<lparr>sc_Stopped := sc_Stopped r + 1\<rparr>
          else if environmentReady \<and> slotMatchesPoolTarget value config \<and> sl_Trusted value
          then r\<lparr>sc_Ready := sc_Ready r + 1\<rparr>
          else r\<lparr>sc_Provisioning := sc_Provisioning r + 1\<rparr>
      | Leased \<Rightarrow> r\<lparr>sc_Leased := sc_Leased r + 1\<rparr>
      | Quarantined \<Rightarrow> r\<lparr>sc_Quarantined := sc_Quarantined r + 1\<rparr>
      | Draining \<Rightarrow> r\<lparr>sc_Draining := sc_Draining r + 1\<rparr>
      | Provisioning \<Rightarrow> r\<lparr>sc_Provisioning := sc_Provisioning r + 1\<rparr>
      | Retiring \<Rightarrow> r\<lparr>sc_Retiring := sc_Retiring r + 1\<rparr>
      | Unprovisioned \<Rightarrow> r\<lparr>sc_Unprovisioned := sc_Unprovisioned r + 1\<rparr>
      | Stopped \<Rightarrow> r\<lparr>sc_Stopped := sc_Stopped r + 1\<rparr>
      | _ \<Rightarrow> r)"

definition SlotPoolStatus :: "string \<Rightarrow> gotime \<Rightarrow> sdb \<Rightarrow> StatusCounts result" where
  "SlotPoolStatus poolID now d =
     (if IsZero now then Inl (StoreErr ErrInvalidQueueOptions)
      else
        bindE (GetJobPool poolID d) (\<lambda>config.
        bindE (ListSlots poolID d) (\<lambda>items.
        bindE (environmentReadyFor config d) (\<lambda>environmentReady.
        Inr (fold (countSlot environmentReady config) items
          \<lparr>sc_PoolID = poolID, sc_EnvironmentID = pc_EnvironmentID config,
           sc_EnvironmentVersion = pc_EnvironmentVersion config, sc_Desired = pc_DesiredSlots config,
           sc_Ready = 0, sc_Leased = 0, sc_Quarantined = 0, sc_Draining = 0, sc_Provisioning = 0,
           sc_Retiring = 0, sc_Unprovisioned = 0, sc_Stopped = 0\<rparr>)))))"

definition EffectiveSlotCapacity :: "string \<Rightarrow> int \<Rightarrow> gotime \<Rightarrow> sdb \<Rightarrow> int result" where
  "EffectiveSlotCapacity poolID maxConcurrency now d =
     (if maxConcurrency < 1 then Inl (StoreErr ErrInvalidQueueOptions)
      else
        bindE (SlotPoolStatus poolID now d) (\<lambda>status.
        Inr (if sc_Ready status < maxConcurrency then sc_Ready status else maxConcurrency)))"

end
