(* ===== verification/SlotOps.thy ===== *)
theory SlotOps
  imports SlotBase
begin

text \<open>
  The operations of internal/store/slots.go, environments.go and slot_claim.go that write: pool
  reconciliation, slot status and readiness, slot leases, quarantine, recovery of expired leases
  behind a confirmed fence, and the joint claim of a request and a slot.
\<close>

type_synonym scommit = "sdb \<Rightarrow> error option"

section \<open>Pools\<close>

text \<open>\<open>fmt.Sprintf("%s-%03d", PoolID, ordinal)\<close>, for positive ordinals.\<close>

definition slotName :: "string \<Rightarrow> int \<Rightarrow> string" where
  "slotName poolID ordinal = poolID @ ''-'' @ pad3 (nat ordinal)"

definition newSlot :: "PoolConfig \<Rightarrow> gotime \<Rightarrow> int \<Rightarrow> slot" where
  "newSlot config now ordinal =
     \<lparr>sl_SlotID = slotName (pc_PoolID config) ordinal, sl_Ordinal = ordinal,
      sl_PoolID = pc_PoolID config, sl_EnvironmentID = pc_EnvironmentID config,
      sl_EnvironmentVersion = pc_EnvironmentVersion config, sl_EnvironmentGeneration = 0,
      sl_Capabilities = pc_Capabilities config, sl_ManifestDigest = pc_ManifestDigest config,
      sl_Signer = pc_Signer config, sl_Trusted = False, sl_RequireTrusted = pc_RequireTrusted config,
      sl_AgentHandle = [], sl_SessionDesiredState = [], sl_SessionOperationID = [],
      sl_SessionRevision = 0, sl_Status = Unprovisioned, sl_HealthAt = zeroTime,
      sl_FailureCount = 0, sl_CreatedAt = now, sl_UpdatedAt = now\<rparr>"

definition targetSlots :: "PoolConfig \<Rightarrow> int" where
  "targetSlots config =
     (if pc_DesiredState config = ''draining'' \<or> pc_DesiredState config = ''disabled'' then 0
      else pc_DesiredSlots config)"

text \<open>The map from ordinals to slots: a later slot overwrites an earlier one.\<close>

definition byOrdinal :: "slot list \<Rightarrow> int \<Rightarrow> slot option" where
  "byOrdinal slots ordinal = find (\<lambda>s. sl_Ordinal s = ordinal) (rev slots)"

definition inUse :: "slot \<Rightarrow> bool" where
  "inUse s \<longleftrightarrow> sl_Status s = Leased \<or> sl_Status s = Draining"

definition reconcileOrdinal :: "PoolConfig \<Rightarrow> gotime \<Rightarrow> slot list \<Rightarrow> int \<Rightarrow> sdb \<Rightarrow> sdb" where
  "reconcileOrdinal config now slots ordinal d =
     (case byOrdinal slots ordinal of
        Some current \<Rightarrow>
          if sl_Status current = Deleted then d
          else if targetChanged current config then
            if sl_Status current = Quarantined then d
            else putSlot (current\<lparr>sl_Status := (if inUse current then Draining else Provisioning),
                                  sl_UpdatedAt := now\<rparr>) d
          else if sl_Status current = Retiring then
            putSlot (current\<lparr>sl_Status := (if sl_EnvironmentGeneration current = 0 then Unprovisioned
                                           else Ready),
                             sl_UpdatedAt := now\<rparr>) d
          else d
      | None \<Rightarrow> putSlot (newSlot config now ordinal) d)"

definition retireSurplus :: "int \<Rightarrow> gotime \<Rightarrow> slot \<Rightarrow> sdb \<Rightarrow> sdb" where
  "retireSurplus target now current d =
     (if sl_Ordinal current \<le> target \<or> sl_Status current = Deleted \<or> sl_Status current = Quarantined
      then d
      else putSlot (current\<lparr>sl_Status := (if inUse current \<and>
                                              kget (sd_slotLeases d) (sl_SlotID current) \<noteq> None
                                          then Draining else Retiring),
                            sl_UpdatedAt := now\<rparr>) d)"

definition reconcileTx :: "PoolConfig \<Rightarrow> gotime \<Rightarrow> sdb \<Rightarrow> (unit \<times> sdb) result" where
  "reconcileTx config now d =
     (let d1 = putPool config d
      in bindE (slotsForPoolTx d1 (pc_PoolID config)) (\<lambda>slots.
         let d2 = fold (reconcileOrdinal config now slots) [1..targetSlots config] d1
         in Inr ((), fold (retireSurplus (targetSlots config) now) slots d2)))"

definition ReconcileJobPool :: "scommit \<Rightarrow> PoolConfig \<Rightarrow> gotime \<Rightarrow> sdb \<Rightarrow> unit result \<times> sdb" where
  "ReconcileJobPool commit config0 now d =
     (if IsZero now then (Inl (StoreErr ErrInvalidQueueOptions), d)
      else
        let config = (PoolConfig_Normalized config0)\<lparr>pc_UpdatedAt := now\<rparr>
        in case PoolConfig_Validate config of
             Inl e \<Rightarrow> (Inl e, d)
           | Inr _ \<Rightarrow> update commit (reconcileTx config now) d)"

definition ReconcileTrustedJobPool :: "scommit \<Rightarrow> PoolConfig \<Rightarrow> gotime \<Rightarrow> sdb \<Rightarrow> unit result \<times> sdb" where
  "ReconcileTrustedJobPool commit config now d =
     (case ValidatePoolEnvironment config d of
        Inl e \<Rightarrow> (Inl e, d)
      | Inr _ \<Rightarrow> ReconcileJobPool commit config now d)"

section \<open>Slots and environments\<close>

definition UpsertSlot :: "scommit \<Rightarrow> slot \<Rightarrow> sdb \<Rightarrow> unit result \<times> sdb" where
  "UpsertSlot commit value d =
     (case Slot_Validate value of
        Inl e \<Rightarrow> (Inl e, d)
      | Inr _ \<Rightarrow> update commit (\<lambda>d. Inr ((), putSlot value d)) d)"

definition PutEnvironmentSummary :: "scommit \<Rightarrow> EnvironmentSummary \<Rightarrow> sdb \<Rightarrow> unit result \<times> sdb" where
  "PutEnvironmentSummary commit summary d =
     (case Summary_Validate summary of
        Inl e \<Rightarrow> (Inl e, d)
      | Inr _ \<Rightarrow> update commit (\<lambda>d. Inr ((), putSummary summary d)) d)"

definition PutEnvironmentRecord :: "scommit \<Rightarrow> EnvironmentRecord \<Rightarrow> sdb \<Rightarrow> unit result \<times> sdb" where
  "PutEnvironmentRecord commit record d =
     (case Record_Validate record of
        Inl e \<Rightarrow> (Inl e, d)
      | Inr _ \<Rightarrow> update commit (\<lambda>d. Inr ((), d\<lparr>sd_packages :=
            kput (environmentKey (en_EnvironmentID record) (en_Version record)) (Json record)
              (sd_packages d)\<rparr>)) d)"

definition DeleteEnvironmentRecord :: "scommit \<Rightarrow> string \<Rightarrow> string \<Rightarrow> sdb \<Rightarrow> unit result \<times> sdb" where
  "DeleteEnvironmentRecord commit environmentID version d =
     (if TrimSpace environmentID = [] \<or> TrimSpace version = []
      then (Inl (EnvironmentErr ErrInvalidManifest), d)
      else update commit (\<lambda>d. Inr ((), d\<lparr>sd_packages :=
             kdel (environmentKey environmentID version) (sd_packages d)\<rparr>)) d)"

definition readySlot :: "EnvironmentSummary \<Rightarrow> PoolConfig \<Rightarrow> gotime \<Rightarrow> slot \<Rightarrow> slot" where
  "readySlot summary pool now value =
     value\<lparr>sl_EnvironmentID := es_EnvironmentID summary, sl_EnvironmentVersion := es_Version summary,
           sl_EnvironmentGeneration := es_Generation summary, sl_Capabilities := es_Capabilities summary,
           sl_ManifestDigest := es_ManifestDigest summary, sl_Signer := es_Signer summary,
           sl_Trusted := es_Trusted summary, sl_RequireTrusted := pc_RequireTrusted pool,
           sl_AgentHandle := es_AgentHandle summary, sl_Status := Ready, sl_HealthAt := now,
           sl_UpdatedAt := now\<rparr>"

definition summaryServesPool :: "EnvironmentSummary \<Rightarrow> PoolConfig \<Rightarrow> bool" where
  "summaryServesPool summary pool \<longleftrightarrow>
     \<not> (es_EnvironmentID summary \<noteq> pc_EnvironmentID pool \<or> es_Version summary \<noteq> pc_EnvironmentVersion pool
        \<or> es_ManifestDigest summary \<noteq> pc_ManifestDigest pool \<or> es_Signer summary \<noteq> pc_Signer pool
        \<or> \<not> es_Trusted summary \<or> \<not> containsCapabilities (es_Capabilities summary) (pc_Capabilities pool))"

definition markReadyTx :: "string \<Rightarrow> EnvironmentSummary \<Rightarrow> gotime \<Rightarrow> sdb \<Rightarrow> (unit \<times> sdb) result" where
  "markReadyTx slotID summary now d =
     bindE (getJSON (sd_slots d) slotID (SlotErr ErrSlotNotFound)) (\<lambda>value.
     if sl_Status value = Retiring \<or> sl_Status value = Deleted \<or> sl_Status value = Quarantined
     then Inl (SlotErr ErrInvalidStatus)
     else if sl_SessionDesiredState value = ''stopped'' then Inl (SlotErr ErrInvalidStatus)
     else if inUse value then Inl (SlotLeaseErr ErrLeaseHeld)
     else if sl_EnvironmentGeneration value \<noteq> 0 \<and> es_Generation summary \<noteq> sl_EnvironmentGeneration value
     then Inl (SlotErr ErrInvalidStatus)
     else
       bindE (getJSON (sd_pools d) (sl_PoolID value) (SlotErr ErrPoolNotFound)) (\<lambda>pool.
       bindE (validatePoolEnvironmentTx d pool) (\<lambda>_.
       if \<not> summaryServesPool summary pool then Inl (SlotErr ErrInvalidStatus)
       else Inr ((), putSlot (readySlot summary pool now value) (putSummary summary d)))))"

definition MarkSlotReady ::
  "scommit \<Rightarrow> string \<Rightarrow> EnvironmentSummary \<Rightarrow> gotime \<Rightarrow> sdb \<Rightarrow> unit result \<times> sdb" where
  "MarkSlotReady commit slotID summary now d =
     (if IsZero now then (Inl (StoreErr ErrInvalidQueueOptions), d)
      else case Summary_Validate summary of
        Inl e \<Rightarrow> (Inl e, d)
      | Inr _ \<Rightarrow> update commit (markReadyTx slotID summary now) d)"

definition setStatusTx :: "string \<Rightarrow> slot_status \<Rightarrow> gotime \<Rightarrow> sdb \<Rightarrow> (unit \<times> sdb) result" where
  "setStatusTx slotID status now d =
     bindE (getJSON (sd_slots d) slotID (SlotErr ErrSlotNotFound)) (\<lambda>value.
     if sl_Status value = Deleted \<and> status \<noteq> Deleted then Inl (SlotErr ErrInvalidStatus)
     else if sl_Status value = Retiring \<and> status = Ready then Inl (SlotErr ErrInvalidStatus)
     else if sl_EnvironmentGeneration value = 0 \<and> status \<noteq> Unprovisioned \<and> status \<noteq> Provisioning
        \<and> status \<noteq> Retiring \<and> status \<noteq> Deleted
     then Inl (SlotErr ErrInvalidSlot)
     else
       let raw = kget (sd_slotLeases d) slotID
       in if raw \<noteq> None \<and> status \<noteq> Leased \<and> status \<noteq> Draining then Inl (SlotLeaseErr ErrLeaseHeld)
          else if raw = None \<and> (status = Leased \<or> status = Draining) then Inl (StoreErr ErrLeaseNotFound)
          else Inr ((), putSlot (value\<lparr>sl_Status := status, sl_UpdatedAt := now\<rparr>) d))"

definition SetSlotStatus :: "scommit \<Rightarrow> string \<Rightarrow> slot_status \<Rightarrow> gotime \<Rightarrow> sdb \<Rightarrow> unit result \<times> sdb" where
  "SetSlotStatus commit slotID status now d =
     (if \<not> slot_status_Valid status \<or> IsZero now then (Inl (SlotErr ErrInvalidStatus), d)
      else update commit (setStatusTx slotID status now) d)"

section \<open>Slot leases\<close>

text \<open>The arguments of \<open>AcquireSlotLease\<close> of the store.\<close>

record SlotAcquireArgs =
  sq_now :: gotime
  sq_poolID :: string
  sq_requestID :: string
  sq_accountID :: string
  sq_owner :: string
  sq_leaseID :: string
  sq_ttl :: duration

text \<open>
  The first loop: the caller's own live lease is returned at once; an expired lease of a slot
  without an agent is dropped. \<open>Inl\<close> is the early return, \<open>Inr\<close> the slots as the loop leaves them.
\<close>

fun acquireScan :: "SlotAcquireArgs \<Rightarrow> PoolConfig \<Rightarrow> slot list \<Rightarrow> sdb \<Rightarrow>
    (((SlotLease \<times> slot) + slot list) \<times> sdb) result" where
  "acquireScan a config [] d = Inr (Inr [], d)"
| "acquireScan a config (current # rest) d =
     (let continue = (\<lambda>current d. bindE (acquireScan a config rest d) (\<lambda>(found, d').
            Inr (map_sum id ((#) current) found, d')))
      in case kget (sd_slotLeases d) (sl_SlotID current) of
        None \<Rightarrow> continue current d
      | Some raw \<Rightarrow>
          bindE (decode raw) (\<lambda>existing.
          bindE (corrupt (SlotLease_Validate existing)) (\<lambda>_.
          if sk_LeaseID existing = sq_leaseID a \<and> sk_RequestID existing = sq_requestID a
             \<and> sk_AccountID existing = sq_accountID a \<and> sk_Owner existing = sq_owner a
             \<and> \<not> SlotLease_Expired existing (sq_now a)
          then Inr (Inl (existing, current), d)
          else if SlotLease_Expired existing (sq_now a) then
            if sl_AgentHandle current \<noteq> [] then continue current d
            else
              let d1 = deleteSlotLease (sl_SlotID current) d
              in if inUse current then
                   let current' = current\<lparr>sl_Status :=
                         (if sl_SessionDesiredState current = ''stopped'' then Stopped
                          else if pc_DesiredSlots config < sl_Ordinal current then Retiring
                          else Ready), sl_UpdatedAt := sq_now a\<rparr>
                   in continue current' (putSlot current' d1)
                 else continue current d1
          else continue current d)))"

text \<open>The second loop: the first matching slot that can be leased.\<close>

fun acquireSelect :: "SlotAcquireArgs \<Rightarrow> EnvironmentRequirement \<Rightarrow> slot list \<Rightarrow> sdb \<Rightarrow>
    ((SlotLease \<times> slot) \<times> sdb) result" where
  "acquireSelect a requirement [] d = Inl (SlotErr ErrSlotUnavailable)"
| "acquireSelect a requirement (candidate # rest) d =
     (if \<not> Slot_Matches candidate requirement then acquireSelect a requirement rest d
      else
        bindE (case kget (sd_slotLeases d) (sl_SlotID candidate) of
                 None \<Rightarrow> Inr None | Some raw \<Rightarrow> bindE (decode raw) (\<lambda>v. Inr (Some v))) (\<lambda>current.
        if (case current of None \<Rightarrow> False
            | Some v \<Rightarrow> SlotLease_Expired v (sq_now a) \<and> sl_AgentHandle candidate \<noteq> [])
        then acquireSelect a requirement rest d
        else case AcquireSlotLease current (sq_now a)
            \<lparr>sa_LeaseID = sq_leaseID a, sa_SlotID = sl_SlotID candidate, sa_PoolID = sq_poolID a,
             sa_RequestID = sq_requestID a, sa_AccountID = sq_accountID a, sa_Owner = sq_owner a,
             sa_Generation = sl_EnvironmentGeneration candidate\<rparr> (sq_ttl a) of
          Inl e \<Rightarrow> if e = SlotLeaseErr ErrLeaseHeld then acquireSelect a requirement rest d else Inl e
        | Inr created \<Rightarrow>
            let candidate' = candidate\<lparr>sl_Status := Leased, sl_UpdatedAt := sq_now a\<rparr>
            in Inr ((created, candidate'),
                    putSlotLease (sl_SlotID candidate) created (putSlot candidate' d))))"

definition acquireSlotTx ::
  "SlotAcquireArgs \<Rightarrow> EnvironmentRequirement \<Rightarrow> sdb \<Rightarrow> ((SlotLease \<times> slot) \<times> sdb) result" where
  "acquireSlotTx a requirement0 d =
     bindE (getJSON (sd_pools d) (sq_poolID a) (SlotErr ErrPoolNotFound)) (\<lambda>config.
     bindE (validatePoolEnvironmentTx d config) (\<lambda>_.
     bindE (constrainSlotRequirement requirement0 config) (\<lambda>requirement.
     bindE (slotsForPoolTx d (sq_poolID a)) (\<lambda>slots.
     bindE (acquireScan a config slots d) (\<lambda>(found, d1).
     case found of
       Inl own \<Rightarrow> Inr (own, d1)
     | Inr slots' \<Rightarrow> acquireSelect a requirement (SortSlots slots') d1)))))"

definition Store_AcquireSlotLease ::
  "scommit \<Rightarrow> SlotAcquireArgs \<Rightarrow> EnvironmentRequirement \<Rightarrow> sdb \<Rightarrow> (SlotLease \<times> slot) result \<times> sdb" where
  "Store_AcquireSlotLease commit a requirement d =
     (if IsZero (sq_now a) \<or> TrimSpace (sq_poolID a) = [] \<or> TrimSpace (sq_requestID a) = []
         \<or> TrimSpace (sq_accountID a) = [] \<or> TrimSpace (sq_owner a) = [] \<or> TrimSpace (sq_leaseID a) = []
         \<or> sq_ttl a \<le> 0
      then (Inl (StoreErr ErrInvalidQueueOptions), d)
      else update commit (acquireSlotTx a requirement) d)"

definition heartbeatSlotTx ::
  "string \<Rightarrow> gotime \<Rightarrow> string \<Rightarrow> string \<Rightarrow> duration \<Rightarrow> sdb \<Rightarrow> (SlotLease \<times> sdb) result" where
  "heartbeatSlotTx slotID now leaseID owner ttl d =
     (case kget (sd_slotLeases d) slotID of
        None \<Rightarrow> Inl (SlotErr ErrSlotNotFound)
      | Some raw \<Rightarrow>
          bindE (decode raw) (\<lambda>current.
          bindE (HeartbeatSlotLease current now leaseID owner ttl) (\<lambda>updated.
          bindE (getJSON (sd_slots d) slotID (SlotErr ErrSlotNotFound)) (\<lambda>value.
          let value1 = (if IsZero (sl_HealthAt value) \<or> \<not> Before now (sl_HealthAt value)
                        then value\<lparr>sl_HealthAt := now\<rparr> else value);
              value2 = (if \<not> Before now (sl_UpdatedAt value1) then value1\<lparr>sl_UpdatedAt := now\<rparr> else value1)
          in Inr (updated, putSlotLease slotID updated
               (d\<lparr>sd_slots := kput slotID (Json value2) (sd_slots d)\<rparr>))))))"

definition Store_HeartbeatSlotLease ::
  "scommit \<Rightarrow> string \<Rightarrow> gotime \<Rightarrow> string \<Rightarrow> string \<Rightarrow> duration \<Rightarrow> sdb \<Rightarrow> SlotLease result \<times> sdb" where
  "Store_HeartbeatSlotLease commit slotID now leaseID owner ttl =
     update commit (heartbeatSlotTx slotID now leaseID owner ttl)"

text \<open>The status of a slot whose lease has ended, by its pool and its session.\<close>

definition releasedStatus :: "slot \<Rightarrow> PoolConfig \<Rightarrow> slot_status" where
  "releasedStatus value config =
     (if sl_SessionDesiredState value = ''stopped'' then Stopped
      else if pc_DesiredSlots config < sl_Ordinal value then Retiring
      else if \<not> slotMatchesPoolTarget value config then Provisioning
      else Ready)"

definition releaseSlotTx :: "string \<Rightarrow> string \<Rightarrow> string \<Rightarrow> sdb \<Rightarrow> (unit \<times> sdb) result" where
  "releaseSlotTx slotID leaseID owner d =
     (case kget (sd_slotLeases d) slotID of
        None \<Rightarrow> Inr ((), d)
      | Some raw \<Rightarrow>
          bindE (decode raw) (\<lambda>current.
          bindE (ReleaseSlotLease current leaseID owner) (\<lambda>_.
          let d1 = deleteSlotLease slotID d
          in bindE (getJSON (sd_slots d1) slotID (SlotErr ErrSlotNotFound)) (\<lambda>value.
             if inUse value then
               bindE (getJSON (sd_pools d1) (sl_PoolID value) (SlotErr ErrPoolNotFound)) (\<lambda>config.
               Inr ((), d1\<lparr>sd_slots := kput slotID
                   (Json (value\<lparr>sl_Status := releasedStatus value config,
                                sl_UpdatedAt := sk_LastHeartbeat current\<rparr>)) (sd_slots d1)\<rparr>))
             else Inr ((), d1)))))"

definition Store_ReleaseSlotLease :: "scommit \<Rightarrow> string \<Rightarrow> string \<Rightarrow> string \<Rightarrow> sdb \<Rightarrow> unit result \<times> sdb" where
  "Store_ReleaseSlotLease commit slotID leaseID owner = update commit (releaseSlotTx slotID leaseID owner)"

section \<open>Quarantine\<close>

definition quarantinedSlot :: "gotime \<Rightarrow> slot \<Rightarrow> slot" where
  "quarantinedSlot now value =
     value\<lparr>sl_FailureCount := (if sl_FailureCount value < maxInt64 then sl_FailureCount value + 1
                               else sl_FailureCount value),
           sl_Status := Quarantined, sl_HealthAt := now, sl_UpdatedAt := now\<rparr>"

definition quarantineTx :: "string \<Rightarrow> gotime \<Rightarrow> sdb \<Rightarrow> (unit \<times> sdb) result" where
  "quarantineTx slotID now d =
     bindE (getJSON (sd_slots d) slotID (SlotErr ErrSlotNotFound)) (\<lambda>value.
     bindE (case kget (sd_slotLeases d) slotID of
              None \<Rightarrow> Inr ()
            | Some raw \<Rightarrow>
                bindE (decode raw) (\<lambda>lease.
                bindE (corrupt (SlotLease_Validate lease)) (\<lambda>_.
                if \<not> SlotLease_Expired lease now then Inl (SlotLeaseErr ErrLeaseHeld) else Inr ()))) (\<lambda>_.
     Inr ((), (deleteSlotLease slotID d)\<lparr>sd_slots :=
         kput slotID (Json (quarantinedSlot now value)) (sd_slots d)\<rparr>)))"

definition QuarantineSlot :: "scommit \<Rightarrow> string \<Rightarrow> gotime \<Rightarrow> string \<Rightarrow> sdb \<Rightarrow> unit result \<times> sdb" where
  "QuarantineSlot commit slotID now reason d =
     (if IsZero now \<or> TrimSpace reason = [] then (Inl (SlotErr ErrInvalidStatus), d)
      else update commit (quarantineTx slotID now) d)"

definition quarantineLeaseTx ::
  "string \<Rightarrow> string \<Rightarrow> string \<Rightarrow> gotime \<Rightarrow> sdb \<Rightarrow> (unit \<times> sdb) result" where
  "quarantineLeaseTx slotID leaseID owner now d =
     (case kget (sd_slotLeases d) slotID of
        None \<Rightarrow> Inl (SlotErr ErrSlotNotFound)
      | Some raw \<Rightarrow>
          bindE (decode raw) (\<lambda>current.
          if sk_LeaseID current \<noteq> leaseID \<or> sk_Owner current \<noteq> owner
          then Inl (SlotLeaseErr ErrLeaseNotOwned)
          else
            bindE (getJSON (sd_slots d) slotID (SlotErr ErrSlotNotFound)) (\<lambda>value.
            Inr ((), (deleteSlotLease slotID d)\<lparr>sd_slots :=
                kput slotID (Json (quarantinedSlot now value)) (sd_slots d)\<rparr>))))"

definition QuarantineSlotLease ::
  "scommit \<Rightarrow> string \<Rightarrow> string \<Rightarrow> string \<Rightarrow> gotime \<Rightarrow> string \<Rightarrow> sdb \<Rightarrow> unit result \<times> sdb" where
  "QuarantineSlotLease commit slotID leaseID owner now reason d =
     (if IsZero now \<or> TrimSpace reason = [] then (Inl (SlotErr ErrInvalidStatus), d)
      else update commit (quarantineLeaseTx slotID leaseID owner now) d)"

section \<open>Recovery of expired leases\<close>

definition consumeFencedSlotLease ::
  "SlotLease \<Rightarrow> (string, SlotLease) kmap \<Rightarrow> bool \<times> (string, SlotLease) kmap" where
  "consumeFencedSlotLease lease fenced =
     (case kget fenced (sk_SlotID lease) of
        None \<Rightarrow> (False, fenced)
      | Some confirmed \<Rightarrow>
          if sk_LeaseID confirmed \<noteq> sk_LeaseID lease \<or> sk_Owner confirmed \<noteq> sk_Owner lease
             \<or> sk_EnvironmentGeneration confirmed \<noteq> sk_EnvironmentGeneration lease
          then (False, fenced)
          else (True, kdel (sk_SlotID lease) fenced))"

definition expiredSlotLeases :: "gotime \<Rightarrow> sdb \<Rightarrow> SlotLease list result" where
  "expiredSlotLeases now d =
     foldE (\<lambda>p acc.
       bindE (decode (snd p)) (\<lambda>lease.
       bindE (SlotLease_Validate lease) (\<lambda>_.
       Inr (if SlotLease_Expired lease now then acc @ [lease] else acc)))) (kentries (sd_slotLeases d)) []"

text \<open>
  The loop over the expired leases. It runs inside the transaction, but a confirmation it has
  consumed is gone from memory whatever becomes of the transaction.
\<close>

fun recoverLoop :: "gotime \<Rightarrow> SlotLease list \<Rightarrow> sdb \<Rightarrow> (string, SlotLease) kmap \<Rightarrow>
    sdb result \<times> (string, SlotLease) kmap" where
  "recoverLoop now [] d fenced = (Inr d, fenced)"
| "recoverLoop now (lease # rest) d fenced =
     (case getJSON (sd_slots d) (sk_SlotID lease) (SlotErr ErrSlotNotFound) of
        Inl e \<Rightarrow> (Inl e, fenced)
      | Inr value \<Rightarrow>
          let (confirmed, fenced') = (if sl_AgentHandle value = [] then (True, fenced)
                                      else consumeFencedSlotLease lease fenced)
          in if \<not> confirmed then (Inl (StoreErr ErrSlotLeaseFenceRequired), fenced')
             else
               let d1 = deleteSlotLease (sk_SlotID lease) d
               in if inUse value then
                    (case getJSON (sd_pools d1) (sl_PoolID value) (SlotErr ErrPoolNotFound) of
                       Inl e \<Rightarrow> (Inl e, fenced')
                     | Inr config \<Rightarrow>
                         recoverLoop now rest (d1\<lparr>sd_slots := kput (sk_SlotID lease)
                             (Json (value\<lparr>sl_Status := releasedStatus value config, sl_UpdatedAt := now\<rparr>))
                             (sd_slots d1)\<rparr>) fenced')
                  else recoverLoop now rest d1 fenced')"

definition RecoverExpiredSlotLeases :: "scommit \<Rightarrow> gotime \<Rightarrow> SlotStore \<Rightarrow> unit result \<times> SlotStore" where
  "RecoverExpiredSlotLeases commit now st =
     (if IsZero now then (Inl (StoreErr ErrInvalidQueueOptions), st)
      else case expiredSlotLeases now (ss_db st) of
        Inl e \<Rightarrow> (Inl e, st)
      | Inr expired \<Rightarrow>
          (case recoverLoop now expired (ss_db st) (ss_fenced st) of
             (Inl e, fenced) \<Rightarrow> (Inl e, st\<lparr>ss_fenced := fenced\<rparr>)
           | (Inr d, fenced) \<Rightarrow>
               (case commit d of
                  Some e \<Rightarrow> (Inl e, st\<lparr>ss_fenced := fenced\<rparr>)
                | None \<Rightarrow> (Inr (), \<lparr>ss_db = d, ss_fenced = fenced\<rparr>))))"

definition ConfirmSlotLeaseStopped :: "SlotLease \<Rightarrow> SlotStore \<Rightarrow> unit result \<times> SlotStore" where
  "ConfirmSlotLeaseStopped lease st =
     (case SlotLease_Validate lease of
        Inl e \<Rightarrow> (Inl e, st)
      | Inr _ \<Rightarrow>
          (case GetSlot (sk_SlotID lease) (ss_db st) of
             Inl e \<Rightarrow> (Inl e, st)
           | Inr value \<Rightarrow>
               if sl_AgentHandle value = [] then (Inr (), st)
               else (Inr (), st\<lparr>ss_fenced := kput (sk_SlotID lease) lease (ss_fenced st)\<rparr>)))"

section \<open>The joint claim\<close>

record SlotClaim =
  sm_Claim :: Claim
  sm_SlotLease :: SlotLease
  sm_Slot :: slot

definition slotLeaseForRequestTx ::
  "sdb \<Rightarrow> string \<Rightarrow> string \<Rightarrow> string \<Rightarrow> (SlotLease \<times> slot) result" where
  "slotLeaseForRequestTx d requestID accountID owner =
     bindE (foldE (\<lambda>p acc.
       bindE (decode (snd p)) (\<lambda>lease.
       bindE (SlotLease_Validate lease) (\<lambda>_.
       if sk_RequestID lease = requestID \<and> sk_AccountID lease = accountID \<and> sk_Owner lease = owner
       then bindE (getJSON (sd_slots d) (fst p) (SlotErr ErrSlotNotFound)) (\<lambda>value. Inr (Some (lease, value)))
       else Inr acc))) (kentries (sd_slotLeases d)) None) (\<lambda>result.
     case result of
       None \<Rightarrow> Inl (StoreErr ErrCorruptData)
     | Some (lease, value) \<Rightarrow>
         if sk_LeaseID lease = [] then Inl (StoreErr ErrCorruptData) else Inr (lease, value))"

text \<open>
  The scan of the candidates: a slot in use without a lease is freed, an expired lease of a slot
  without an agent is dropped, and an expired lease of a slot with an agent blocks it.
\<close>

fun claimScan :: "gotime \<Rightarrow> PoolConfig \<Rightarrow> slot list \<Rightarrow> sdb \<Rightarrow> ((slot list \<times> string list) \<times> sdb) result" where
  "claimScan now pool [] d = Inr (([], []), d)"
| "claimScan now pool (candidate # rest) d =
     (let freed = candidate\<lparr>sl_Status := releasedStatus candidate pool, sl_UpdatedAt := now\<rparr>;
          continue = (\<lambda>candidate d. bindE (claimScan now pool rest d) (\<lambda>((slots, blocked), d').
            Inr ((candidate # slots, blocked), d')))
      in case kget (sd_slotLeases d) (sl_SlotID candidate) of
        None \<Rightarrow>
          if inUse candidate then continue freed (putSlot freed d) else continue candidate d
      | Some raw \<Rightarrow>
          bindE (decode raw) (\<lambda>current.
          bindE (corrupt (SlotLease_Validate current)) (\<lambda>_.
          if SlotLease_Expired current now then
            if sl_AgentHandle candidate \<noteq> [] then
              bindE (claimScan now pool rest d) (\<lambda>((slots, blocked), d').
              Inr ((candidate # slots, sl_SlotID candidate # blocked), d'))
            else
              let d1 = deleteSlotLease (sl_SlotID candidate) d
              in if inUse candidate then continue freed (putSlot freed d1) else continue candidate d1
          else continue candidate d)))"

definition accountLeaseFor :: "ClaimArgs \<Rightarrow> string \<Rightarrow> db \<Rightarrow> Lease result" where
  "accountLeaseFor c accountID d =
     bindE (leaseFromTx d accountID) (\<lambda>found.
     case found of
       None \<Rightarrow> Inr (case AcquireLease None (ca_now c) (ca_leaseID c) (ca_owner c) (ca_ttl c) of
                     Inl _ \<Rightarrow> zeroLease | Inr l \<Rightarrow> l)
     | Some current \<Rightarrow> AcquireLease (Some current) (ca_now c) (ca_leaseID c) (ca_owner c) (ca_ttl c))"

text \<open>The loop over the queued requests, with the candidate slots and the blocked ones.\<close>

fun slotClaimLoop :: "ClaimArgs \<Rightarrow> string \<Rightarrow> EnvironmentRequirement \<Rightarrow> slot list \<Rightarrow> string list \<Rightarrow>
    Request list \<Rightarrow> sdb \<Rightarrow> (SlotClaim \<times> sdb) result" where
  "slotClaimLoop c poolID requirement candidates blocked [] d = Inl (SlotErr ErrSlotUnavailable)"
| "slotClaimLoop c poolID requirement candidates blocked (request # rest) d =
     (if \<not> dueAt (ca_now c) request then slotClaimLoop c poolID requirement candidates blocked rest d
      else
        bindE (snapshotFromTx (sd_core d) (rq_AccountID request)) (\<lambda>state.
        if sn_Status state \<noteq> Queued \<or> sn_RequestID state \<noteq> rq_RequestID request
        then Inl (StoreErr ErrRequestStateMismatch)
        else case find (\<lambda>s. sl_SlotID s \<notin> set blocked \<and> Slot_Matches s requirement) candidates of
          None \<Rightarrow> slotClaimLoop c poolID requirement candidates blocked rest d
        | Some selected \<Rightarrow>
            (case accountLeaseFor c (rq_AccountID request) (sd_core d) of
               Inl e \<Rightarrow> if e = AccountLeaseErr ErrLeaseHeld
                        then slotClaimLoop c poolID requirement candidates blocked rest d else Inl e
             | Inr accountLease \<Rightarrow>
                 (case AcquireSlotLease None (ca_now c)
                     \<lparr>sa_LeaseID = ca_leaseID c @ ''-slot'', sa_SlotID = sl_SlotID selected,
                      sa_PoolID = poolID, sa_RequestID = rq_RequestID request,
                      sa_AccountID = rq_AccountID request, sa_Owner = ca_owner c,
                      sa_Generation = sl_EnvironmentGeneration selected\<rparr> (ca_ttl c) of
                    Inl e \<Rightarrow> if e = SlotLeaseErr ErrLeaseHeld
                             then slotClaimLoop c poolID requirement candidates blocked rest d else Inl e
                  | Inr slotLease \<Rightarrow>
                      bindE (claimCandidate c request state accountLease (sd_core d)) (\<lambda>(claim, core).
                      let selected' = selected\<lparr>sl_Status := Leased, sl_UpdatedAt := ca_now c\<rparr>
                      in Inr (\<lparr>sm_Claim = claim, sm_SlotLease = slotLease, sm_Slot = selected'\<rparr>,
                           putSlotLease (sl_SlotID selected) slotLease
                             (putSlot selected' (d\<lparr>sd_core := core\<rparr>))))))))"

definition claimSlotTx :: "ClaimArgs \<Rightarrow> int \<Rightarrow> string \<Rightarrow> EnvironmentRequirement \<Rightarrow> sdb \<Rightarrow>
    (SlotClaim \<times> sdb) result" where
  "claimSlotTx c maxGlobalConcurrency poolID requirement0 d =
     bindE (existingClaimTx c (sd_core d)) (\<lambda>found.
     case found of
       Some existing \<Rightarrow>
         bindE (slotLeaseForRequestTx d (rq_RequestID (cl_Request existing))
                  (rq_AccountID (cl_Request existing)) (ca_owner c)) (\<lambda>(lease, value).
         Inr (\<lparr>sm_Claim = existing, sm_SlotLease = lease, sm_Slot = value\<rparr>, d))
     | None \<Rightarrow>
         bindE (activeLeaseCountTx (sd_core d) (ca_now c)) (\<lambda>activeLeases.
         if maxGlobalConcurrency \<le> int activeLeases then Inl (StoreErr ErrQueueCapacity)
         else
           bindE (getJSON (sd_pools d) poolID (SlotErr ErrPoolNotFound)) (\<lambda>pool.
           bindE (validatePoolEnvironmentTx d pool) (\<lambda>_.
           bindE (constrainSlotRequirement requirement0 pool) (\<lambda>requirement.
           bindE (queuedRequestsTx (sd_core d)) (\<lambda>queued.
           if queued = [] then Inl (StoreErr ErrQueueEmpty)
           else
             bindE (slotsForPoolTx d poolID) (\<lambda>slots.
             bindE (claimScan (ca_now c) pool slots d) (\<lambda>((candidates, blocked), d1).
             slotClaimLoop c poolID requirement candidates blocked queued d1))))))))"

definition ClaimNextWithSlot ::
  "scommit \<Rightarrow> ClaimArgs \<Rightarrow> int \<Rightarrow> string \<Rightarrow> EnvironmentRequirement \<Rightarrow> sdb \<Rightarrow> SlotClaim result \<times> sdb" where
  "ClaimNextWithSlot commit c maxGlobalConcurrency poolID requirement d =
     (if IsZero (ca_now c) \<or> TrimSpace (ca_leaseID c) = [] \<or> TrimSpace (ca_owner c) = []
         \<or> ca_ttl c \<le> 0 \<or> TrimSpace (ca_eventID c) = [] \<or> TrimSpace (ca_actor c) = []
         \<or> TrimSpace (ca_reason c) = [] \<or> TrimSpace poolID = [] \<or> maxGlobalConcurrency < 1
      then (Inl (StoreErr ErrInvalidQueueOptions), d)
      else update commit (claimSlotTx c maxGlobalConcurrency poolID requirement) d)"

end
