(* ===== verification/SlotNames.thy ===== *)
theory SlotNames
  imports SlotOps
begin

text \<open>
  Slot identifiers: a name made from a pool and an ordinal determines both, and it is a valid
  identifier when the pool's name leaves room for the suffix.
\<close>

section \<open>Slot names\<close>

definition digitsVal :: "string \<Rightarrow> nat" where
  "digitsVal ds = foldl (\<lambda>a c. a * 10 + (of_char c - 48)) 0 ds"

lemma digitsVal_snoc: "digitsVal (ds @ [c]) = digitsVal ds * 10 + (of_char c - 48)"
  by (simp add: digitsVal_def)

lemma digitsVal_decimal [simp]: "digitsVal (decimal n) = n"
proof (induction n rule: decimal.induct)
  case (1 n)
  show ?case
  proof (cases "n < 10")
    case True
    then show ?thesis by (subst decimal.simps) (simp add: digitsVal_def)
  next
    case False
    then have "decimal n = decimal (n div 10) @ [char_of (48 + n mod 10)]"
      by (subst decimal.simps) simp
    moreover have "48 + n mod 10 < 256" by (simp add: less_trans [OF mod_less_divisor])
    ultimately show ?thesis using 1 [OF False] by (simp add: digitsVal_snoc)
  qed
qed

lemma digitsVal_zeros: "digitsVal (replicate k (CHR ''0'') @ ds) = digitsVal ds"
  unfolding digitsVal_def by (induction k) simp_all

lemma digitsVal_pad3 [simp]: "digitsVal (pad3 n) = n"
  by (simp add: pad3_def digitsVal_zeros)

text \<open>Decimal digits.\<close>

definition isDigit :: "char \<Rightarrow> bool" where
  "isDigit c \<longleftrightarrow> 48 \<le> (of_char c :: nat) \<and> (of_char c :: nat) \<le> 57"

lemma decimal_digits: "c \<in> set (decimal n) \<Longrightarrow> isDigit c"
proof (induction n rule: decimal.induct)
  case (1 n)
  show ?case
  proof (cases "n < 10")
    case True
    then show ?thesis using "1.prems" by (subst (asm) decimal.simps) (auto simp: isDigit_def)
  next
    case False
    then have "decimal n = decimal (n div 10) @ [char_of (48 + n mod 10)]"
      by (subst decimal.simps) simp
    moreover have "48 + n mod 10 < 256" "n mod 10 < 10" by (simp_all add: less_trans [OF mod_less_divisor])
    ultimately show ?thesis using 1 False by (auto simp: isDigit_def)
  qed
qed

lemma pad3_digits: "c \<in> set (pad3 n) \<Longrightarrow> isDigit c"
proof -
  assume "c \<in> set (pad3 n)"
  then have "c = CHR ''0'' \<or> c \<in> set (decimal n)" by (auto simp: pad3_def)
  then show ?thesis using decimal_digits by (auto simp: isDigit_def)
qed

lemma decimal_nonempty [simp]: "decimal n \<noteq> []"
  by (subst decimal.simps) simp

lemma pad3_nonempty [simp]: "pad3 n \<noteq> []"
  by (simp add: pad3_def)

text \<open>The name of a slot determines its pool and its ordinal.\<close>

lemma split_last_dash:
  assumes "p @ CHR ''-'' # x = q @ CHR ''-'' # y" "CHR ''-'' \<notin> set x" "CHR ''-'' \<notin> set y"
  shows "p = q \<and> x = y"
  using assms
proof (induction p arbitrary: q)
  case Nil
  then show ?case by (cases q) auto
next
  case (Cons a p)
  then show ?case by (cases q) auto
qed

lemma slotName_inj:
  assumes "slotName p i = slotName q j" "0 \<le> i" "0 \<le> j"
  shows "p = q \<and> i = j"
proof -
  have nd: "CHR ''-'' \<notin> set (pad3 n)" for n
    using pad3_digits [of "CHR ''-''" n] by (auto simp: isDigit_def)
  have "p = q \<and> pad3 (nat i) = pad3 (nat j)"
    using assms(1) split_last_dash [OF _ nd nd] by (simp add: slotName_def)
  then show ?thesis using assms(2,3) by (metis digitsVal_pad3 eq_nat_nat_iff)
qed

lemma length_decimal: "n < 10 ^ Suc k \<Longrightarrow> length (decimal n) \<le> Suc k"
proof (induction k arbitrary: n)
  case 0
  then show ?case by (subst decimal.simps) simp
next
  case (Suc k)
  show ?case
  proof (cases "n < 10")
    case True
    then show ?thesis by (subst decimal.simps) simp
  next
    case False
    then have "decimal n = decimal (n div 10) @ [char_of (48 + n mod 10)]" by (subst decimal.simps) simp
    moreover have "n div 10 < 10 ^ Suc k" using Suc.prems by (simp add: less_mult_imp_div_less)
    ultimately show ?thesis using Suc.IH [of "n div 10"] by simp
  qed
qed

lemma length_pad3: "n < 100000 \<Longrightarrow> length (pad3 n) \<le> 5"
  using length_decimal [of n 4] by (simp add: pad3_def)

text \<open>A name of printable characters at the end of a trimmed prefix stays trimmed.\<close>

lemma TrimSpace_front: "TrimSpace s = s \<Longrightarrow> stripFront spaceSeqs s = s"
proof -
  assume t: "TrimSpace s = s"
  obtain p where p: "s = p @ stripFront spaceSeqs s" using stripFront_suffix by metis
  obtain r where r: "rev (stripFront spaceSeqs s) = r @ stripFront (map rev spaceSeqs) (rev (stripFront spaceSeqs s))"
    using stripFront_suffix by metis
  have "length (TrimSpace s) \<le> length (stripFront spaceSeqs s)"
    unfolding TrimSpace_def using arg_cong [OF r, of length] by simp
  with t have "p = []" using arg_cong [OF p, of length] by simp
  with p show ?thesis by simp
qed

lemma stripFront_fix: "stripFront seqs s = s \<Longrightarrow> [] \<notin> set seqs \<Longrightarrow> s \<noteq> [] \<Longrightarrow> \<not> startsWithAny seqs s"
proof
  assume f: "stripFront seqs s = s" and ne: "[] \<notin> set seqs" and "startsWithAny seqs s"
  then have "find (\<lambda>q. q \<noteq> [] \<and> prefix q s) seqs \<noteq> None"
    by (auto simp: startsWithAny_def list_ex_iff find_None_iff)
  then obtain q where q: "find (\<lambda>q. q \<noteq> [] \<and> prefix q s) seqs = Some q" by auto
  then have "q \<noteq> []" "prefix q s" by (auto simp: find_Some_iff)
  moreover have "s = stripFront seqs (drop (length q) s)"
    using f q by (simp add: stripFront.simps [of seqs s])
  moreover have "length (stripFront seqs (drop (length q) s)) \<le> length (drop (length q) s)"
    using stripFront_suffix [of "drop (length q) s" seqs] by (metis length_append le_add2)
  ultimately show False
    by (metis diff_is_0_eq length_drop length_greater_0_conv diff_less le_zero_eq not_less prefix_Nil)
qed

lemma TrimSpace_append:
  assumes "TrimSpace s = s" "s \<noteq> []" "plainChar d" "t = d # ds" "plainChar (last t)"
  shows "TrimSpace (s @ t) = s @ t"
proof -
  have ne: "[] \<notin> set spaceSeqs" by (simp add: spaceSeqs_def)
  have dn: "d \<notin> set q" if "q \<in> set spaceSeqs" for q
    using that assms(3) by (auto simp: spaceSeqs_def plainChar_def)
  have "\<not> startsWithAny spaceSeqs s"
    using stripFront_fix [OF TrimSpace_front [OF assms(1)] ne assms(2)] .
  then have "\<not> startsWithAny spaceSeqs (s @ t)"
    unfolding startsWithAny_def list_ex_iff using dn
    by (fastforce simp: prefix_append assms(4) prefix_Cons)
  then have 1: "stripFront spaceSeqs (s @ t) = s @ t" by (rule stripFront_none)
  have "t = butlast t @ [last t]" using assms(4) by simp
  then have c: "rev (s @ t) = last t # rev (s @ butlast t)"
    by (metis append.assoc rev.simps(2) rev_append rev_swap append_Cons append_Nil)
  have "stripFront (map rev spaceSeqs) (rev (s @ t)) = rev (s @ t)"
    unfolding c using not_startsWith_plain(2) assms(5) by (simp add: stripFront_none)
  with 1 show ?thesis by (simp add: TrimSpace_def)
qed

lemma validID_slotName:
  assumes "validID p" "length p \<le> 250" "0 \<le> i" "i \<le> 10000"
  shows "validID (slotName p i)"
proof -
  have d: "isDigit c" if "c \<in> set (pad3 (nat i))" for c using that by (rule pad3_digits)
  have pl: "isDigit c \<Longrightarrow> plainChar c" for c by (simp add: isDigit_def plainChar_def)
  have "last (''-'' @ pad3 (nat i)) = last (pad3 (nat i))" by simp
  then have "plainChar (last (''-'' @ pad3 (nat i)))" using d pl by (metis last_in_set pad3_nonempty)
  then have "TrimSpace (p @ (''-'' @ pad3 (nat i))) = p @ (''-'' @ pad3 (nat i))"
    using assms(1) by (intro TrimSpace_append) (auto simp: validID_def plainChar_def)
  moreover have "length (pad3 (nat i)) \<le> 5" by (rule length_pad3) (use assms in simp)
  moreover have "\<not> ContainsAny (pad3 (nat i)) (crlftab @ '' '')"
    using d by (fastforce simp: ContainsAny_def list_ex_iff isDigit_def)
  ultimately show ?thesis
    using assms(1,2) by (auto simp: validID_def slotName_def ContainsAny_def list_ex_iff)
qed

end
