(* ===== verification/SlotInv.thy ===== *)
theory SlotInv
  imports SlotNames
begin

text \<open>
  The invariant of the slot tables: pools and slots are valid and stored under their own names, a
  slot has a lease exactly when it is leased or draining, and the lease names the slot, its pool
  and its generation. Times are bounded by the clock, which does not run backwards.
\<close>

section \<open>The invariant\<close>

lemma getJSON_Inr: "getJSON b k e = Inr v \<longleftrightarrow> kget b k = Some (Json v)"
  by (auto simp: getJSON_def split: option.splits)

lemma put_sel [simp]:
  "sd_core (putSlot s d) = sd_core d" "sd_pools (putSlot s d) = sd_pools d"
  "sd_slots (putSlot s d) = kput (sl_SlotID s) (Json s) (sd_slots d)"
  "sd_slotLeases (putSlot s d) = sd_slotLeases d" "sd_packages (putSlot s d) = sd_packages d"
  "sd_core (putSlotLease k l d) = sd_core d" "sd_pools (putSlotLease k l d) = sd_pools d"
  "sd_slots (putSlotLease k l d) = sd_slots d"
  "sd_slotLeases (putSlotLease k l d) = kput k (Json l) (sd_slotLeases d)" "sd_packages (putSlotLease k l d) = sd_packages d"
  "sd_core (deleteSlotLease k d) = sd_core d" "sd_pools (deleteSlotLease k d) = sd_pools d"
  "sd_slots (deleteSlotLease k d) = sd_slots d"
  "sd_slotLeases (deleteSlotLease k d) = kdel k (sd_slotLeases d)" "sd_packages (deleteSlotLease k d) = sd_packages d"
  "sd_core (putPool p d) = sd_core d" "sd_pools (putPool p d) = kput (pc_PoolID p) (Json p) (sd_pools d)"
  "sd_slots (putPool p d) = sd_slots d" "sd_slotLeases (putPool p d) = sd_slotLeases d" "sd_packages (putPool p d) = sd_packages d"
  "sd_core (putSummary x d) = sd_core d" "sd_pools (putSummary x d) = sd_pools d"
  "sd_slots (putSummary x d) = sd_slots d" "sd_slotLeases (putSummary x d) = sd_slotLeases d" "sd_packages (putSummary x d) = sd_packages d"
  by (simp_all add: putSlot_def putSlotLease_def deleteSlotLease_def putPool_def putSummary_def)

text \<open>The statuses a slot may have before it was ever provisioned.\<close>

definition bareStatus :: "slot_status \<Rightarrow> bool" where
  "bareStatus st \<longleftrightarrow> st = Unprovisioned \<or> st = Provisioning \<or> st = Stopped \<or> st = Retiring \<or> st = Deleted"

text \<open>The part of slot validation that no change of status touches.\<close>

definition slotBody :: "slot \<Rightarrow> bool" where
  "slotBody s \<longleftrightarrow> validID (sl_SlotID s) \<and> validID (sl_PoolID s) \<and> 1 \<le> sl_Ordinal s \<and> sl_EnvironmentID s \<noteq> [] \<and>
     sl_CreatedAt s \<noteq> 0 \<and> 0 \<le> sl_FailureCount s \<and> length (sl_EnvironmentID s) \<le> 256 \<and>
     length (sl_EnvironmentVersion s) \<le> 128 \<and> length (sl_ManifestDigest s) \<le> 256 \<and>
     length (sl_Signer s) \<le> 256 \<and> length (sl_AgentHandle s) \<le> 256 \<and> length (sl_SessionOperationID s) \<le> 256 \<and>
     \<not> ContainsAny (sl_EnvironmentID s) crlftab \<and> \<not> ContainsAny (sl_EnvironmentVersion s) crlftab \<and>
     \<not> ContainsAny (sl_ManifestDigest s) crlftab \<and>
     \<not> ContainsAny (sl_Signer s @ sl_AgentHandle s @ sl_SessionOperationID s) crlftab \<and>
     (sl_SessionDesiredState s = [] \<or> sl_SessionDesiredState s = ''running'' \<or> sl_SessionDesiredState s = ''stopped'') \<and>
     isOk (normalizeCapabilities (sl_Capabilities s))"

lemma Slot_Validate_iff:
  "Slot_Validate s = Inr () \<longleftrightarrow>
     slotBody s \<and> slot_status_Valid (sl_Status s) \<and> sl_UpdatedAt s \<noteq> 0 \<and> sl_CreatedAt s \<le> sl_UpdatedAt s \<and>
     (sl_EnvironmentGeneration s = 0 \<longrightarrow> bareStatus (sl_Status s))"
  by (simp add: Slot_Validate_def slotBody_def bareStatus_def isOk_iff not_less) argo

text \<open>A slot and its lease: exactly the slots in use have one, and it names the slot's state.\<close>

definition leaseFits :: "SlotLease json option \<Rightarrow> slot \<Rightarrow> bool" where
  "leaseFits raw s \<longleftrightarrow>
     (case raw of
        None \<Rightarrow> \<not> inUse s
      | Some v \<Rightarrow> inUse s \<and> (\<exists>l. v = Json l \<and> SlotLease_Validate l = Inr () \<and> sk_SlotID l = sl_SlotID s \<and>
          sk_PoolID l = sl_PoolID s \<and> sk_EnvironmentGeneration l = sl_EnvironmentGeneration s \<and>
          sl_CreatedAt s \<le> sk_LastHeartbeat l))"

definition slotOk :: "gotime \<Rightarrow> sdb \<Rightarrow> string \<Rightarrow> slot \<Rightarrow> bool" where
  "slotOk now d k s \<longleftrightarrow>
     sl_SlotID s = k \<and> slotName (sl_PoolID s) (sl_Ordinal s) = k \<and> Slot_Validate s = Inr () \<and>
     sl_CreatedAt s \<le> now \<and> kget (sd_pools d) (sl_PoolID s) \<noteq> None \<and> leaseFits (kget (sd_slotLeases d) k) s"

definition poolOk :: "string \<Rightarrow> PoolConfig \<Rightarrow> bool" where
  "poolOk k p \<longleftrightarrow> pc_PoolID p = k \<and> PoolConfig_Validate p = Inr ()"

definition slot_inv :: "gotime \<Rightarrow> sdb \<Rightarrow> bool" where
  "slot_inv now d \<longleftrightarrow>
     (\<forall>k v. kget (sd_pools d) k = Some v \<longrightarrow> (\<exists>p. v = Json p \<and> poolOk k p)) \<and>
     (\<forall>k v. kget (sd_slots d) k = Some v \<longrightarrow> (\<exists>s. v = Json s \<and> slotOk now d k s)) \<and>
     (\<forall>k. kget (sd_slotLeases d) k \<noteq> None \<longrightarrow> kget (sd_slots d) k \<noteq> None)"

lemma slot_invD:
  assumes "slot_inv now d"
  shows "kget (sd_pools d) i = Some v \<Longrightarrow> \<exists>p. v = Json p \<and> poolOk i p"
    and "kget (sd_slots d) k = Some w \<Longrightarrow> \<exists>s. w = Json s \<and> slotOk now d k s"
    and "kget (sd_slotLeases d) k \<noteq> None \<Longrightarrow> \<exists>s. kget (sd_slots d) k = Some (Json s) \<and> slotOk now d k s"
  using assms unfolding slot_inv_def by blast+

lemma slot_inv_slot: "slot_inv now d \<Longrightarrow> kget (sd_slots d) k = Some (Json s) \<Longrightarrow> slotOk now d k s"
  using slot_invD(2) by blast

lemma slot_inv_lease:
  assumes "slot_inv now d" "kget (sd_slotLeases d) k = Some v"
  obtains l s where "v = Json l" "kget (sd_slots d) k = Some (Json s)" "slotOk now d k s" "inUse s"
    "SlotLease_Validate l = Inr ()" "sk_SlotID l = k" "sk_PoolID l = sl_PoolID s"
    "sk_EnvironmentGeneration l = sl_EnvironmentGeneration s" "sl_CreatedAt s \<le> sk_LastHeartbeat l"
proof -
  obtain s where s: "kget (sd_slots d) k = Some (Json s)" "slotOk now d k s"
    using slot_invD(3) [OF assms(1), of k] assms(2) by auto
  then obtain l where "v = Json l" "inUse s" "SlotLease_Validate l = Inr ()" "sk_SlotID l = k" "sk_PoolID l = sl_PoolID s"
    "sk_EnvironmentGeneration l = sl_EnvironmentGeneration s" "sl_CreatedAt s \<le> sk_LastHeartbeat l"
    using assms(2) by (auto simp: slotOk_def leaseFits_def)
  with s that show thesis by blast
qed

lemma slot_inv_mono: "slot_inv t d \<Longrightarrow> t \<le> now \<Longrightarrow> slot_inv now d"
  unfolding slot_inv_def slotOk_def by fastforce

lemma slot_inv_cong:
  assumes "slot_inv now d" "sd_pools d' = sd_pools d" "sd_slots d' = sd_slots d" "sd_slotLeases d' = sd_slotLeases d"
  shows "slot_inv now d'"
  using assms by (simp add: slot_inv_def slotOk_def)

text \<open>One slot and its lease change together; everything else stays.\<close>

lemma slot_inv_update:
  assumes inv: "slot_inv now d"
    and pools: "sd_pools d' = sd_pools d" and slots: "sd_slots d' = kput k (Json s) (sd_slots d)"
    and other: "\<And>j. j \<noteq> k \<Longrightarrow> kget (sd_slotLeases d') j = kget (sd_slotLeases d) j"
    and ok: "slotOk now d' k s"
  shows "slot_inv now d'"
proof -
  have "slotOk now d' j t" if "j \<noteq> k" "slotOk now d j t" for j t
    using that(2) unfolding slotOk_def pools other [OF that(1)] .
  moreover have "kget (sd_slots d) j \<noteq> None" if "j \<noteq> k" "kget (sd_slotLeases d') j \<noteq> None" for j
    using that other [OF that(1)] slot_invD(3) [OF inv, of j] by auto
  moreover have "\<exists>t. v = Json t \<and> slotOk now d' j t" if "kget (sd_slots d') j = Some v" for j v
  proof (cases "j = k")
    case False
    then have "kget (sd_slots d) j = Some v" using that slots by simp
    then show ?thesis using slot_invD(2) [OF inv] calculation(1) [OF False] by blast
  qed (use that ok slots in auto)
  ultimately show ?thesis
    using slot_invD(1) [OF inv] unfolding slot_inv_def pools slots by auto
qed

text \<open>What a status change keeps.\<close>

lemma slotBody_status [simp]:
  "slotBody (s\<lparr>sl_Status := st\<rparr>) = slotBody s"
  "slotBody (s\<lparr>sl_HealthAt := t\<rparr>) = slotBody s" "slotBody (s\<lparr>sl_UpdatedAt := t\<rparr>) = slotBody s"
  by (simp_all add: slotBody_def)

lemma slotOk_status:
  assumes "slotOk now d k s" "slot_status_Valid st" "sl_CreatedAt s \<le> t" "0 < t"
    and "sl_EnvironmentGeneration s = 0 \<longrightarrow> bareStatus st"
    and "sd_pools d' = sd_pools d" "leaseFits (kget (sd_slotLeases d') k) (s\<lparr>sl_Status := st, sl_UpdatedAt := t\<rparr>)"
  shows "slotOk now d' k (s\<lparr>sl_Status := st, sl_UpdatedAt := t\<rparr>)"
  using assms by (auto simp: slotOk_def Slot_Validate_iff)

lemma inUse_generation: "slotOk now d k s \<Longrightarrow> inUse s \<Longrightarrow> sl_EnvironmentGeneration s \<noteq> 0"
  by (auto simp: slotOk_def Slot_Validate_iff inUse_def bareStatus_def)

lemma inUse_status [simp]: "inUse (s\<lparr>sl_Status := st, sl_UpdatedAt := t\<rparr>) \<longleftrightarrow> st = Leased \<or> st = Draining"
  by (simp add: inUse_def)

lemma leaseFits_status:
  "leaseFits (Some v) s \<Longrightarrow> st = Leased \<or> st = Draining \<Longrightarrow> leaseFits (Some v) (s\<lparr>sl_Status := st, sl_UpdatedAt := t\<rparr>)"
  "\<not> (st = Leased \<or> st = Draining) \<Longrightarrow> leaseFits None (s\<lparr>sl_Status := st, sl_UpdatedAt := t\<rparr>)"
  by (auto simp: leaseFits_def)

text \<open>The slots of a pool, as \<open>slotsForPoolTx\<close> reads them.\<close>

lemma slotScan:
  assumes "\<And>k v. (k, v) \<in> set ps \<Longrightarrow> \<exists>s. v = Json s \<and> Slot_Validate s = Inr ()"
  shows "foldE (slotEntry p) ps acc =
     Inr (acc @ filter (\<lambda>s. sl_PoolID s = p) (map (\<lambda>q. case snd q of Json s \<Rightarrow> s) ps))"
  using assms
proof (induction ps arbitrary: acc)
  case (Cons q ps)
  obtain s where "q = (fst q, Json s)" "Slot_Validate s = Inr ()"
    using Cons.prems [of "fst q" "snd q"] by (cases q) auto
  moreover have "foldE (slotEntry p) ps acc' =
     Inr (acc' @ filter (\<lambda>s. sl_PoolID s = p) (map (\<lambda>q. case snd q of Json s \<Rightarrow> s) ps))" for acc'
    by (rule Cons.IH) (use Cons.prems in auto)
  moreover have "slotEntry p (k, Json s) acc = Inr (if sl_PoolID s = p then acc @ [s] else acc)" for k
    using calculation(2) by (simp add: slotEntry_def)
  ultimately show ?case by (cases q) auto
qed simp

lemma slotsForPoolTx_ok:
  assumes inv: "slot_inv now d" and ok: "slotsForPoolTx d p = Inr xs"
  shows "set xs = {s. sl_PoolID s = p \<and> (\<exists>k. kget (sd_slots d) k = Some (Json s))}"
    and "distinct (map sl_SlotID xs)" and "sorted (map sl_Ordinal xs)"
proof -
  let ?raw = "filter (\<lambda>s. sl_PoolID s = p) (map (\<lambda>q. case snd q of Json s \<Rightarrow> s) (kentries (sd_slots d)))"
  have e: "\<exists>s. v = Json s \<and> sl_SlotID s = k \<and> Slot_Validate s = Inr ()" if "(k, v) \<in> set (kentries (sd_slots d))" for k v
    using that slot_invD(2) [OF inv, of k v] by (auto simp: kentries_iff slotOk_def)
  have "xs = SortSlots ?raw"
    using ok slotScan [of "kentries (sd_slots d)" p "[]"] e by (fastforce simp: slotsForPoolTx_def split: if_splits)
  then have xs: "set xs = set ?raw" "mset xs = mset ?raw" "sorted (map (\<lambda>s. (sl_Ordinal s, sl_SlotID s)) xs)"
    by (simp_all add: SortSlots_def)
  show "set xs = {s. sl_PoolID s = p \<and> (\<exists>k. kget (sd_slots d) k = Some (Json s))}"
  proof (intro set_eqI iffI)
    fix s
    assume "s \<in> set xs"
    then obtain k v where q: "(k, v) \<in> set (kentries (sd_slots d))" "s = (case v of Json s \<Rightarrow> s)" "sl_PoolID s = p"
      unfolding xs(1) by auto
    obtain t where "v = Json t" using e [OF q(1)] by blast
    with q(1,2) have "kget (sd_slots d) k = Some (Json s)" by (simp add: kentries_iff)
    with q(3) show "s \<in> {s. sl_PoolID s = p \<and> (\<exists>k. kget (sd_slots d) k = Some (Json s))}" by auto
  next
    fix s
    assume "s \<in> {s. sl_PoolID s = p \<and> (\<exists>k. kget (sd_slots d) k = Some (Json s))}"
    then obtain k where "(k, Json s) \<in> set (kentries (sd_slots d))" "sl_PoolID s = p" by (auto simp: kentries_iff)
    then show "s \<in> set xs" unfolding xs(1) by force
  qed
  have "map (\<lambda>q. sl_SlotID (case snd q of Json s \<Rightarrow> s)) (kentries (sd_slots d)) = map fst (kentries (sd_slots d))"
    using e by (intro map_cong) force+
  then have "distinct (map sl_SlotID (map (\<lambda>q. case snd q of Json s \<Rightarrow> s) (kentries (sd_slots d))))"
    unfolding map_map comp_def by (metis kentries_distinct)
  then have "distinct (map sl_SlotID ?raw)"
    by (rule distinct_map_filter)
  then show "distinct (map sl_SlotID xs)"
    using xs(2) by (metis mset_map mset_eq_imp_distinct_iff)
  show "sorted (map sl_Ordinal xs)"
    using xs(3) by (induction xs) (auto simp: less_eq_prod_def)
qed

lemma slotsForPoolTx_slot:
  assumes "slot_inv now d" "slotsForPoolTx d p = Inr xs" "s \<in> set xs"
  shows "sl_PoolID s = p" "kget (sd_slots d) (sl_SlotID s) = Some (Json s)" "slotOk now d (sl_SlotID s) s"
    "sl_SlotID s = slotName p (sl_Ordinal s)" "1 \<le> sl_Ordinal s"
proof -
  obtain k where k: "sl_PoolID s = p" "kget (sd_slots d) k = Some (Json s)"
    using slotsForPoolTx_ok(1) [OF assms(1,2)] assms(3) by auto
  moreover have o: "slotOk now d k s" by (rule slot_inv_slot [OF assms(1) k(2)])
  moreover have "sl_SlotID s = k" using o by (simp add: slotOk_def)
  ultimately show "sl_PoolID s = p" "kget (sd_slots d) (sl_SlotID s) = Some (Json s)" "slotOk now d (sl_SlotID s) s"
    by simp_all
  with o show "sl_SlotID s = slotName p (sl_Ordinal s)" "1 \<le> sl_Ordinal s"
    by (auto simp: slotOk_def Slot_Validate_iff slotBody_def)
qed

lemma releasedStatus_cases:
  "slot_status_Valid (releasedStatus s p)" "releasedStatus s p \<noteq> Leased" "releasedStatus s p \<noteq> Draining"
  by (auto simp: releasedStatus_def)

end
