(* ===== verification/SlotSafe.thy ===== *)
theory SlotSafe
  imports SlotInv
begin

text \<open>
  What the acquisition of a slot lease and the joint claim do: the scan that frees expired leases,
  the slot that is selected, and the writes. Both keep the invariant, and neither touches a live
  lease or a lease of a slot with an agent.
\<close>

section \<open>Single changes\<close>

lemma slotOkD:
  assumes "slotOk now d k s"
  shows "sl_SlotID s = k" "slotName (sl_PoolID s) (sl_Ordinal s) = k" "Slot_Validate s = Inr ()" "sl_CreatedAt s \<le> now"
    "kget (sd_pools d) (sl_PoolID s) \<noteq> None" "leaseFits (kget (sd_slotLeases d) k) s"
  using assms unfolding slotOk_def by simp_all

lemma changeStatus_inv:
  assumes inv: "slot_inv now d" and s: "kget (sd_slots d) k = Some (Json s)" and now: "0 < t" "sl_CreatedAt s \<le> t"
    and st: "slot_status_Valid st" "sl_EnvironmentGeneration s = 0 \<longrightarrow> bareStatus st"
    and d': "sd_pools d' = sd_pools d" "sd_slots d' = kput k (Json (s\<lparr>sl_Status := st, sl_UpdatedAt := t\<rparr>)) (sd_slots d)"
    and lease: "sd_slotLeases d' = sd_slotLeases d \<and> (st = Leased \<or> st = Draining \<longleftrightarrow> inUse s) \<or>
       sd_slotLeases d' = kdel k (sd_slotLeases d) \<and> \<not> (st = Leased \<or> st = Draining)"
  shows "slot_inv now d'"
proof (rule slot_inv_update [OF inv d'])
  note ok = slot_inv_slot [OF inv s]
  show "kget (sd_slotLeases d') j = kget (sd_slotLeases d) j" if "j \<noteq> k" for j using lease that by auto
  have f: "leaseFits (kget (sd_slotLeases d) k) s" using ok by (rule slotOkD)
  from lease have "leaseFits (kget (sd_slotLeases d') k) (s\<lparr>sl_Status := st, sl_UpdatedAt := t\<rparr>)"
    by (elim disjE) (use f in \<open>auto simp: leaseFits_def split: option.splits\<close>)
  then show "slotOk now d' k (s\<lparr>sl_Status := st, sl_UpdatedAt := t\<rparr>)"
    by (rule slotOk_status [OF ok st(1) now(2,1) st(2) d'(1)])
qed

lemma created_before: "slot_inv now d \<Longrightarrow> kget (sd_slots d) k = Some (Json s) \<Longrightarrow> sl_CreatedAt s \<le> now"
  using slot_inv_slot slotOkD(4) by blast

lemma stored_id: "slot_inv now d \<Longrightarrow> kget (sd_slots d) k = Some (Json s) \<Longrightarrow> sl_SlotID s = k"
  using slot_inv_slot slotOkD(1) by blast

lemma lease_iff_inUse:
  "slot_inv now d \<Longrightarrow> kget (sd_slots d) k = Some (Json s) \<Longrightarrow> kget (sd_slotLeases d) k = None \<longleftrightarrow> \<not> inUse s"
  using slotOkD(6) [OF slot_inv_slot, of now d k s] by (auto simp: leaseFits_def split: option.splits)

lemma valid_generation:
  "slot_inv now d \<Longrightarrow> kget (sd_slots d) k = Some (Json s) \<Longrightarrow> \<not> bareStatus (sl_Status s) \<Longrightarrow> sl_EnvironmentGeneration s \<noteq> 0"
  using slotOkD(3) [OF slot_inv_slot, of now d k s] by (auto simp: Slot_Validate_iff)

text \<open>A new lease on a ready slot.\<close>

lemma leaseSlot_inv:
  assumes inv: "slot_inv now d" and s: "kget (sd_slots d) (sl_SlotID s) = Some (Json s)" and now: "0 < now"
    and l: "AcquireSlotLease cur now a ttl = Inr l" "sa_SlotID a = sl_SlotID s" "sa_PoolID a = sl_PoolID s"
      "sa_Generation a = sl_EnvironmentGeneration s"
  shows "slot_inv now (putSlotLease (sl_SlotID s) l (putSlot (s\<lparr>sl_Status := Leased, sl_UpdatedAt := now\<rparr>) d))"
proof (rule slot_inv_update [OF inv])
  let ?d = "putSlotLease (sl_SlotID s) l (putSlot (s\<lparr>sl_Status := Leased, sl_UpdatedAt := now\<rparr>) d)"
  note ok = slot_inv_slot [OF inv s]
  have c: "sl_CreatedAt s \<le> now" using ok by (rule slotOkD)
  have "leaseFits (kget (sd_slotLeases ?d) (sl_SlotID s)) (s\<lparr>sl_Status := Leased, sl_UpdatedAt := now\<rparr>)"
    using l c now by (auto simp: leaseFits_def AcquireSlotLease_iff SlotLease_Validate_iff)
  moreover have "sl_EnvironmentGeneration s = 0 \<longrightarrow> bareStatus Leased" using l by (simp add: AcquireSlotLease_iff)
  ultimately show "slotOk now ?d (sl_SlotID s) (s\<lparr>sl_Status := Leased, sl_UpdatedAt := now\<rparr>)"
    by (intro slotOk_status [OF ok _ c now]) simp_all
qed simp_all

section \<open>Freeing expired leases\<close>

text \<open>
  What a scan does: leases that have expired on slots without an agent are dropped and their
  slots freed; nothing else changes.
\<close>

definition freed :: "gotime \<Rightarrow> sdb \<Rightarrow> sdb \<Rightarrow> string \<Rightarrow> bool" where
  "freed now d d' k \<longleftrightarrow> (\<exists>l s st. kget (sd_slotLeases d) k = Some (Json l) \<and> sk_ExpiresAt l \<le> now \<and>
     kget (sd_slots d) k = Some (Json s) \<and> sl_AgentHandle s = [] \<and> kget (sd_slotLeases d') k = None \<and>
     kget (sd_slots d') k = Some (Json (s\<lparr>sl_Status := st, sl_UpdatedAt := now\<rparr>)) \<and> st \<noteq> Leased \<and> st \<noteq> Draining)"

definition scanned :: "gotime \<Rightarrow> sdb \<Rightarrow> sdb \<Rightarrow> bool" where
  "scanned now d d' \<longleftrightarrow> slot_inv now d' \<and> sd_core d' = sd_core d \<and> sd_pools d' = sd_pools d \<and> sd_packages d' = sd_packages d \<and>
     (\<forall>k. kget (sd_slotLeases d') k = kget (sd_slotLeases d) k \<and> kget (sd_slots d') k = kget (sd_slots d) k \<or> freed now d d' k)"

lemma scanned_refl: "slot_inv now d \<Longrightarrow> scanned now d d"
  by (simp add: scanned_def)

lemma scanned_trans: "scanned now d e \<Longrightarrow> scanned now e f \<Longrightarrow> scanned now d f"
  unfolding scanned_def freed_def
  by (elim conjE, intro conjI) (assumption, simp_all, metis option.distinct(1))

lemma scanned_step:
  assumes inv: "slot_inv now d" and now: "0 < now" and s: "kget (sd_slots d) (sl_SlotID s) = Some (Json s)"
    and l: "kget (sd_slotLeases d) (sl_SlotID s) = Some (Json l)" "sk_ExpiresAt l \<le> now" "sl_AgentHandle s = []"
    and st: "slot_status_Valid st" "st \<noteq> Leased" "st \<noteq> Draining"
  shows "scanned now d (putSlot (s\<lparr>sl_Status := st, sl_UpdatedAt := now\<rparr>) (deleteSlotLease (sl_SlotID s) d))"
proof -
  have "inUse s" using lease_iff_inUse [OF inv s] l(1) by auto
  then have "sl_EnvironmentGeneration s \<noteq> 0" using inUse_generation [OF slot_inv_slot [OF inv s]] by simp
  then have "slot_inv now (putSlot (s\<lparr>sl_Status := st, sl_UpdatedAt := now\<rparr>) (deleteSlotLease (sl_SlotID s) d))"
    by (intro changeStatus_inv [OF inv s now created_before [OF inv s] st(1)]) (use st in simp_all)
  moreover have "freed now d (putSlot (s\<lparr>sl_Status := st, sl_UpdatedAt := now\<rparr>) (deleteSlotLease (sl_SlotID s) d)) (sl_SlotID s)"
    unfolding freed_def using s l st by (intro exI [of _ l] exI [of _ s] exI [of _ st]) simp
  ultimately show ?thesis by (auto simp: scanned_def)
qed

definition tracks :: "slot list \<Rightarrow> sdb \<Rightarrow> bool" where
  "tracks xs d \<longleftrightarrow> (\<forall>s \<in> set xs. kget (sd_slots d) (sl_SlotID s) = Some (Json s))"

lemma tracks_step:
  "tracks xs d \<Longrightarrow> sl_SlotID s \<notin> sl_SlotID ` set xs \<Longrightarrow> tracks xs (putSlot (s\<lparr>sl_Status := st, sl_UpdatedAt := t\<rparr>) (deleteSlotLease k d))"
  by (simp add: tracks_def) (metis imageI)

lemma expired_lease_slot:
  assumes "slot_inv now d" "tracks (s # xs) d" "kget (sd_slotLeases d) (sl_SlotID s) = Some raw"
  obtains l where "raw = Json l" "SlotLease_Validate l = Inr ()" "inUse s"
  using slot_inv_lease [OF assms(1,3)] assms(2) by (auto simp: tracks_def)

definition ownLease :: "SlotAcquireArgs \<Rightarrow> SlotLease \<Rightarrow> bool" where
  "ownLease a l \<longleftrightarrow> sk_LeaseID l = sq_leaseID a \<and> sk_RequestID l = sq_requestID a \<and> sk_AccountID l = sq_accountID a \<and>
     sk_Owner l = sq_owner a \<and> sq_now a < sk_ExpiresAt l"

definition frameSlots :: "slot list \<Rightarrow> sdb \<Rightarrow> sdb \<Rightarrow> bool" where
  "frameSlots xs d d' \<longleftrightarrow> (\<forall>k. k \<notin> sl_SlotID ` set xs \<longrightarrow>
     kget (sd_slots d') k = kget (sd_slots d) k \<and> kget (sd_slotLeases d') k = kget (sd_slotLeases d) k)"

lemma frameSlots_put:
  "frameSlots xs (putSlot s' (deleteSlotLease (sl_SlotID s') d)) d' \<Longrightarrow> frameSlots (s' # xs) d d'"
  "frameSlots xs d d' \<Longrightarrow> frameSlots (s' # xs) d d'"
  by (auto simp: frameSlots_def)

lemma acquireScan_ok:
  assumes "acquireScan a config xs d = Inr (res, d')" "slot_inv (sq_now a) d" "0 < sq_now a"
    and "tracks xs d" "distinct (map sl_SlotID xs)"
  shows "scanned (sq_now a) d d' \<and> frameSlots xs d d' \<and>
     (case res of
        Inl (l, s) \<Rightarrow> kget (sd_slotLeases d') (sl_SlotID s) = Some (Json l) \<and> s \<in> set xs \<and>
          kget (sd_slots d') (sl_SlotID s) = Some (Json s) \<and> ownLease a l
      | Inr ys \<Rightarrow> tracks ys d' \<and> map sl_SlotID ys = map sl_SlotID xs)"
  using assms
proof (induction xs arbitrary: d res)
  case Nil
  then show ?case by (auto simp: scanned_refl tracks_def frameSlots_def)
next
  case (Cons s xs)
  note inv = Cons.prems(2) and now = Cons.prems(3)
  have s: "kget (sd_slots d) (sl_SlotID s) = Some (Json s)" and tr: "tracks xs d"
    and nin: "sl_SlotID s \<notin> sl_SlotID ` set xs" and di: "distinct (map sl_SlotID xs)"
    using Cons.prems(4,5) by (auto simp: tracks_def)
  have go: ?case
    if rest: "bindE (acquireScan a config xs e) (\<lambda>(found, d'). Inr (map_sum id ((#) s') found, d')) = Inr (res, d')"
      and e: "scanned (sq_now a) d e" "tracks xs e" and s': "sl_SlotID s' = sl_SlotID s" "kget (sd_slots e) (sl_SlotID s) = Some (Json s')"
      and fr: "frameSlots xs e d' \<Longrightarrow> frameSlots (s # xs) d d'" for s' e
  proof -
    from rest obtain r where r: "acquireScan a config xs e = Inr (r, d')" "res = map_sum id ((#) s') r" by auto
    have IH: "scanned (sq_now a) e d' \<and> frameSlots xs e d' \<and>
     (case r of
        Inl (l, s) \<Rightarrow> kget (sd_slotLeases d') (sl_SlotID s) = Some (Json l) \<and> s \<in> set xs \<and>
          kget (sd_slots d') (sl_SlotID s) = Some (Json s) \<and> ownLease a l
      | Inr ys \<Rightarrow> tracks ys d' \<and> map sl_SlotID ys = map sl_SlotID xs)"
      by (rule Cons.IH [OF r(1) _ now e(2) di]) (use e(1) in \<open>simp add: scanned_def\<close>)
    then have "kget (sd_slots d') (sl_SlotID s) = Some (Json s')"
      using s' nin by (simp add: frameSlots_def)
    with IH r(2) s' scanned_trans [OF e(1)] fr show ?thesis
      by (cases r) (auto simp: tracks_def)
  qed
  show ?case
  proof (cases "kget (sd_slotLeases d) (sl_SlotID s)")
    case None
    then show ?thesis
      by (intro go [of d s]) (use Cons.prems(1) s tr scanned_refl [OF inv] frameSlots_put(2) in \<open>auto simp: Let_def\<close>)
  next
    case (Some raw)
    obtain l where l: "raw = Json l" "SlotLease_Validate l = Inr ()" "inUse s"
      by (rule expired_lease_slot [OF inv Cons.prems(4) Some])
    show ?thesis
    proof (cases "ownLease a l")
      case True
      then have "res = Inl (l, s)" "d' = d"
        using Cons.prems(1) Some l by (auto simp: Let_def ownLease_def not_le)
      then show ?thesis using True Some l s by (auto simp: scanned_refl [OF inv] frameSlots_def)
    next
      case no: False
      let ?st = "if sl_SessionDesiredState s = ''stopped'' then Stopped
                 else if pc_DesiredSlots config < sl_Ordinal s then Retiring else Ready"
      let ?s = "s\<lparr>sl_Status := ?st, sl_UpdatedAt := sq_now a\<rparr>"
      show ?thesis
      proof (cases "sk_ExpiresAt l \<le> sq_now a \<and> sl_AgentHandle s = []")
        case True
        have "scanned (sq_now a) d (putSlot ?s (deleteSlotLease (sl_SlotID s) d))"
          by (rule scanned_step [OF inv now s]) (use Some l True in auto)
        moreover have "frameSlots (s # xs) d d'" if "frameSlots xs (putSlot ?s (deleteSlotLease (sl_SlotID s) d)) d'"
          using that by (auto simp: frameSlots_def)
        ultimately show ?thesis
          by (intro go [of "putSlot ?s (deleteSlotLease (sl_SlotID s) d)" ?s])
            (use Cons.prems(1) Some l True no tracks_step [OF tr nin] in \<open>auto simp: Let_def ownLease_def\<close>)
      next
        case False
        then show ?thesis
          by (intro go [of d s])
            (use Cons.prems(1) Some l no s tr scanned_refl [OF inv] frameSlots_put(2) in
              \<open>auto simp: Let_def ownLease_def split: if_splits\<close>)
      qed
    qed
  qed
qed

text \<open>A matching slot is ready, so under the invariant it has no lease and the acquisition starts from none.\<close>

lemma acquireSelect_ok:
  assumes "acquireSelect a r xs d = Inr ((l, s'), d')" "slot_inv now d" "tracks xs d"
  obtains s where "s \<in> set xs" "Slot_Matches s r" "kget (sd_slotLeases d) (sl_SlotID s) = None"
    "s' = s\<lparr>sl_Status := Leased, sl_UpdatedAt := sq_now a\<rparr>"
    "AcquireSlotLease None (sq_now a)
            \<lparr>sa_LeaseID = sq_leaseID a, sa_SlotID = sl_SlotID s, sa_PoolID = sq_poolID a,
             sa_RequestID = sq_requestID a, sa_AccountID = sq_accountID a, sa_Owner = sq_owner a,
             sa_Generation = sl_EnvironmentGeneration s\<rparr> (sq_ttl a) = Inr l"
    "d' = putSlotLease (sl_SlotID s) l (putSlot s' d)"
    "takeWhile (\<lambda>t. t \<noteq> s) xs = takeWhile (\<lambda>t. \<not> Slot_Matches t r) xs"
  using assms
proof (induction xs arbitrary: thesis)
  case (Cons t xs)
  have tr: "kget (sd_slots d) (sl_SlotID t) = Some (Json t)" "tracks xs d" using Cons.prems(4) by (auto simp: tracks_def)
  show ?case
  proof (cases "Slot_Matches t r")
    case True
    then have "\<not> inUse t" using Slot_Matches_ready by (auto simp: inUse_def)
    then have n: "kget (sd_slotLeases d) (sl_SlotID t) = None" using lease_iff_inUse [OF Cons.prems(3) tr(1)] by simp
    let ?acq = "AcquireSlotLease None (sq_now a)
            \<lparr>sa_LeaseID = sq_leaseID a, sa_SlotID = sl_SlotID t, sa_PoolID = sq_poolID a,
             sa_RequestID = sq_requestID a, sa_AccountID = sq_accountID a, sa_Owner = sq_owner a,
             sa_Generation = sl_EnvironmentGeneration t\<rparr> (sq_ttl a)"
    have "?acq \<noteq> Inl (SlotLeaseErr ErrLeaseHeld)" by (simp add: AcquireSlotLease_def Let_def)
    with Cons.prems(2) True n have "?acq = Inr l" "s' = t\<lparr>sl_Status := Leased, sl_UpdatedAt := sq_now a\<rparr>"
        "d' = putSlotLease (sl_SlotID t) l (putSlot s' d)"
      by (auto simp: Let_def split: sum.splits if_splits)
    with True n show ?thesis by (intro Cons.prems(1) [of t]) auto
  next
    case False
    then have "acquireSelect a r xs d = Inr ((l, s'), d')" using Cons.prems(2) by simp
    then show ?thesis
    proof (rule Cons.IH [rotated, OF _ Cons.prems(3) tr(2)])
      fix s
      assume "s \<in> set xs" "Slot_Matches s r" "takeWhile (\<lambda>t. t \<noteq> s) xs = takeWhile (\<lambda>t. \<not> Slot_Matches t r) xs"
      moreover from this(2) False have "t \<noteq> s" by auto
      moreover assume "kget (sd_slotLeases d) (sl_SlotID s) = None"
        "s' = s\<lparr>sl_Status := Leased, sl_UpdatedAt := sq_now a\<rparr>"
        "AcquireSlotLease None (sq_now a)
            \<lparr>sa_LeaseID = sq_leaseID a, sa_SlotID = sl_SlotID s, sa_PoolID = sq_poolID a,
             sa_RequestID = sq_requestID a, sa_AccountID = sq_accountID a, sa_Owner = sq_owner a,
             sa_Generation = sl_EnvironmentGeneration s\<rparr> (sq_ttl a) = Inr l"
        "d' = putSlotLease (sl_SlotID s) l (putSlot s' d)"
      ultimately show thesis using False by (intro Cons.prems(1) [of s]) auto
    qed
  qed
qed simp

text \<open>What a successful acquisition does, up to the scan before it.\<close>

lemma acquireSlotTx_ok:
  assumes ok: "acquireSlotTx a r0 d = Inr ((l, s), d')" and inv: "slot_inv (sq_now a) d" and now: "0 < sq_now a"
  obtains (own) "scanned (sq_now a) d d'" "ownLease a l" "kget (sd_slotLeases d') (sl_SlotID s) = Some (Json l)"
      "kget (sd_slots d') (sl_SlotID s) = Some (Json s)" "sl_PoolID s = sq_poolID a"
  | (fresh) d1 t p r where "scanned (sq_now a) d d1" "kget (sd_slots d1) (sl_SlotID t) = Some (Json t)" "sl_PoolID t = sq_poolID a"
      "kget (sd_pools d) (sq_poolID a) = Some (Json p)" "validatePoolEnvironmentTx d p = Inr ()" "constrainSlotRequirement r0 p = Inr r"
      "Slot_Matches t r" "kget (sd_slotLeases d1) (sl_SlotID t) = None"
      "s = t\<lparr>sl_Status := Leased, sl_UpdatedAt := sq_now a\<rparr>"
      "AcquireSlotLease None (sq_now a)
            \<lparr>sa_LeaseID = sq_leaseID a, sa_SlotID = sl_SlotID t, sa_PoolID = sq_poolID a,
             sa_RequestID = sq_requestID a, sa_AccountID = sq_accountID a, sa_Owner = sq_owner a,
             sa_Generation = sl_EnvironmentGeneration t\<rparr> (sq_ttl a) = Inr l"
      "d' = putSlotLease (sl_SlotID t) l (putSlot s d1)"
proof -
  from ok obtain p r xs f d1 where p: "kget (sd_pools d) (sq_poolID a) = Some (Json p)" "validatePoolEnvironmentTx d p = Inr ()"
      "constrainSlotRequirement r0 p = Inr r"
    and xs: "slotsForPoolTx d (sq_poolID a) = Inr xs" and f: "acquireScan a p xs d = Inr (f, d1)"
    and rest: "(case f of Inl own \<Rightarrow> Inr (own, d1) | Inr ys \<Rightarrow> acquireSelect a r (SortSlots ys) d1) = Inr ((l, s), d')"
    unfolding acquireSlotTx_def bindE_eq_Inr getJSON_Inr by (auto split: prod.splits)
  have tr: "tracks xs d" using slotsForPoolTx_slot(2) [OF inv xs] by (simp add: tracks_def)
  note sc = acquireScan_ok [OF f inv now tr slotsForPoolTx_ok(2) [OF inv xs]]
  then have inv1: "slot_inv (sq_now a) d1" by (simp add: scanned_def)
  show thesis
  proof (cases f)
    case (Inl own)
    then have "own = (l, s)" "d' = d1" using rest by simp_all
    with Inl sc have "s \<in> set xs" by simp
    with Inl sc \<open>own = (l, s)\<close> \<open>d' = d1\<close> slotsForPoolTx_slot(1) [OF inv xs] show thesis by (intro own) auto
  next
    case (Inr ys)
    then have sel: "acquireSelect a r (SortSlots ys) d1 = Inr ((l, s), d')" and ty: "tracks (SortSlots ys) d1"
      and ids: "map sl_SlotID ys = map sl_SlotID xs"
      using rest sc by (simp_all add: tracks_def)
    from sel inv1 ty show thesis
    proof (rule acquireSelect_ok)
      fix t
      assume t: "t \<in> set (SortSlots ys)" "Slot_Matches t r" "kget (sd_slotLeases d1) (sl_SlotID t) = None"
        "s = t\<lparr>sl_Status := Leased, sl_UpdatedAt := sq_now a\<rparr>"
        "AcquireSlotLease None (sq_now a)
            \<lparr>sa_LeaseID = sq_leaseID a, sa_SlotID = sl_SlotID t, sa_PoolID = sq_poolID a,
             sa_RequestID = sq_requestID a, sa_AccountID = sq_accountID a, sa_Owner = sq_owner a,
             sa_Generation = sl_EnvironmentGeneration t\<rparr> (sq_ttl a) = Inr l"
        "d' = putSlotLease (sl_SlotID t) l (putSlot s d1)"
      have st: "kget (sd_slots d1) (sl_SlotID t) = Some (Json t)" using t(1) ty by (simp add: tracks_def)
      have "sl_SlotID t \<in> sl_SlotID ` set xs" using t(1) ids by (metis set_SortSlots image_eqI list.set_map)
      then obtain u where u: "u \<in> set xs" "sl_SlotID u = sl_SlotID t" by auto
      have "sl_PoolID t = sq_poolID a"
        using slotOkD(2) [OF slot_inv_slot [OF inv1 st]] slotsForPoolTx_slot(4,5) [OF inv xs u(1)] u(2)
          slotOkD(3) [OF slot_inv_slot [OF inv1 st]] slotName_inj
        by (metis Slot_Validate_iff slotBody_def order_trans zero_le_one)
      then show thesis using sc st p t by (intro fresh) auto
    qed
  qed
qed

lemma acquireSlotTx_inv:
  assumes "acquireSlotTx a r0 d = Inr ((l, s), d')" "slot_inv (sq_now a) d" "0 < sq_now a"
  shows "slot_inv (sq_now a) d'"
  using assms
proof (cases rule: acquireSlotTx_ok)
  case own
  then show ?thesis by (simp add: scanned_def)
next
  case (fresh d1 t p r)
  have "slot_inv (sq_now a) d1" using fresh(1) by (simp add: scanned_def)
  from leaseSlot_inv [OF this fresh(2) assms(3) fresh(10)] fresh(3,9,11) show ?thesis by simp
qed

section \<open>The joint claim\<close>

lemma claimScan_ok:
  assumes "claimScan now pool xs d = Inr ((ys, bs), d')" "slot_inv now d" "0 < now"
    and "tracks xs d" "distinct (map sl_SlotID xs)"
  shows "scanned now d d' \<and> frameSlots xs d d' \<and> tracks ys d' \<and> map sl_SlotID ys = map sl_SlotID xs"
  using assms
proof (induction xs arbitrary: d ys bs)
  case Nil
  then show ?case by (auto simp: scanned_refl tracks_def frameSlots_def)
next
  case (Cons s xs)
  note inv = Cons.prems(2) and now = Cons.prems(3)
  have s: "kget (sd_slots d) (sl_SlotID s) = Some (Json s)" and tr: "tracks xs d"
    and nin: "sl_SlotID s \<notin> sl_SlotID ` set xs" and di: "distinct (map sl_SlotID xs)"
    using Cons.prems(4,5) by (auto simp: tracks_def)
  have go: ?case
    if rest: "claimScan now pool xs e = Inr ((zs, cs), d')" "ys = s' # zs"
      and e: "scanned now d e" "tracks xs e" and s': "sl_SlotID s' = sl_SlotID s" "kget (sd_slots e) (sl_SlotID s) = Some (Json s')"
      and fr: "frameSlots xs e d' \<Longrightarrow> frameSlots (s # xs) d d'" for s' e zs cs
  proof -
    have IH: "scanned now e d' \<and> frameSlots xs e d' \<and> tracks zs d' \<and> map sl_SlotID zs = map sl_SlotID xs"
      by (rule Cons.IH [OF rest(1) _ now e(2) di]) (use e(1) in \<open>simp add: scanned_def\<close>)
    then have "kget (sd_slots d') (sl_SlotID s) = Some (Json s')"
      using s' nin by (simp add: frameSlots_def)
    with IH rest(2) s' scanned_trans [OF e(1)] fr show ?thesis by (auto simp: tracks_def)
  qed
  note same = go [of d _ _ s, OF _ _ scanned_refl [OF inv] tr HOL.refl s frameSlots_put(2)]
  show ?case
  proof (cases "kget (sd_slotLeases d) (sl_SlotID s)")
    case None
    then have "\<not> inUse s" using lease_iff_inUse [OF inv s] by simp
    with None Cons.prems(1) obtain zs cs where "claimScan now pool xs d = Inr ((zs, cs), d')" "ys = s # zs"
      by (auto simp: Let_def)
    then show ?thesis by (rule same)
  next
    case (Some raw)
    obtain l where l: "raw = Json l" "SlotLease_Validate l = Inr ()" "inUse s"
      by (rule expired_lease_slot [OF inv Cons.prems(4) Some])
    let ?s = "s\<lparr>sl_Status := releasedStatus s pool, sl_UpdatedAt := now\<rparr>"
    show ?thesis
    proof (cases "sk_ExpiresAt l \<le> now \<and> sl_AgentHandle s = []")
      case True
      let ?e = "putSlot ?s (deleteSlotLease (sl_SlotID s) d)"
      obtain zs cs where c: "claimScan now pool xs ?e = Inr ((zs, cs), d')" "ys = ?s # zs"
        using Cons.prems(1) Some l True by (auto simp: Let_def)
      have sc: "scanned now d ?e"
        by (rule scanned_step [OF inv now s]) (use Some l True releasedStatus_cases in auto)
      have fr: "frameSlots (s # xs) d d'" if "frameSlots xs ?e d'"
        using that by (auto simp: frameSlots_def)
      show ?thesis by (rule go [OF c sc tracks_step [OF tr nin] _ _ fr]) simp_all
    next
      case False
      then obtain zs cs where "claimScan now pool xs d = Inr ((zs, cs), d')" "ys = s # zs"
        using Cons.prems(1) Some l by (auto simp: Let_def split: if_splits)
      then show ?thesis by (rule same)
    qed
  qed
qed

text \<open>The lease the account gets: as \<open>ClaimNext\<close> computes it, since a slot lease with the same clock and duration was granted.\<close>

lemma accountLeaseFor_ok:
  assumes "accountLeaseFor c acc d = Inr l" "inv_leases d" "AcquireSlotLease None (ca_now c) b (ca_ttl c) = Inr sl"
    and "TrimSpace (ca_leaseID c) \<noteq> []" "TrimSpace (ca_owner c) \<noteq> []"
  obtains cur where "leaseFromTx d acc = Inr cur"
    "AcquireLease cur (ca_now c) (ca_leaseID c) (ca_owner c) (ca_ttl c) = Inr l"
proof -
  from assms(1) obtain cur where cur: "leaseFromTx d acc = Inr cur" by (auto simp: accountLeaseFor_def)
  have "\<exists>m. AcquireLease None (ca_now c) (ca_leaseID c) (ca_owner c) (ca_ttl c) = Inr m"
    using assms(3-5) by (auto simp: AcquireLease_iff AcquireSlotLease_iff)
  with assms(1) cur show thesis
    by (intro that [OF cur]) (auto simp: accountLeaseFor_def split: option.splits)
qed

lemma slotClaimLoop_ok:
  assumes "slotClaimLoop c p r cands bs qs d = Inr (cl, d')"
  obtains pre q post s st al where "qs = pre @ q # post" "dueAt (ca_now c) q" "st \<in> set cands" "Slot_Matches st r"
    "sl_SlotID st \<notin> set bs"
    "\<forall>u \<in> set pre. dueAt (ca_now c) u \<longrightarrow> accountLeaseFor c (rq_AccountID u) (sd_core d) = Inl (AccountLeaseErr ErrLeaseHeld)"
    "snapshotFromTx (sd_core d) (rq_AccountID q) = Inr s" "sn_Status s = Queued" "sn_RequestID s = rq_RequestID q"
    "accountLeaseFor c (rq_AccountID q) (sd_core d) = Inr al"
    "AcquireSlotLease None (ca_now c)
        \<lparr>sa_LeaseID = ca_leaseID c @ ''-slot'', sa_SlotID = sl_SlotID st, sa_PoolID = p, sa_RequestID = rq_RequestID q,
         sa_AccountID = rq_AccountID q, sa_Owner = ca_owner c, sa_Generation = sl_EnvironmentGeneration st\<rparr> (ca_ttl c) = Inr (sm_SlotLease cl)"
    "claimCandidate c q s al (sd_core d) = Inr (sm_Claim cl, sd_core d')"
    "sm_Slot cl = st\<lparr>sl_Status := Leased, sl_UpdatedAt := ca_now c\<rparr>"
    "d' = putSlotLease (sl_SlotID st) (sm_SlotLease cl) (putSlot (sm_Slot cl) (d\<lparr>sd_core := sd_core d'\<rparr>))"
  using assms
proof (induction qs arbitrary: thesis)
  case (Cons q qs)
  have IH: thesis if rest: "slotClaimLoop c p r cands bs qs d = Inr (cl, d')"
    and q: "dueAt (ca_now c) q \<longrightarrow> accountLeaseFor c (rq_AccountID q) (sd_core d) = Inl (AccountLeaseErr ErrLeaseHeld)"
    using rest
  proof (rule Cons.IH [rotated])
    fix pre q' post s st al
    assume a: "qs = pre @ q' # post"
      "\<forall>u \<in> set pre. dueAt (ca_now c) u \<longrightarrow> accountLeaseFor c (rq_AccountID u) (sd_core d) = Inl (AccountLeaseErr ErrLeaseHeld)"
    show "dueAt (ca_now c) q' \<Longrightarrow> st \<in> set cands \<Longrightarrow> Slot_Matches st r \<Longrightarrow> sl_SlotID st \<notin> set bs \<Longrightarrow>
      snapshotFromTx (sd_core d) (rq_AccountID q') = Inr s \<Longrightarrow> sn_Status s = Queued \<Longrightarrow> sn_RequestID s = rq_RequestID q' \<Longrightarrow>
      accountLeaseFor c (rq_AccountID q') (sd_core d) = Inr al \<Longrightarrow>
      AcquireSlotLease None (ca_now c)
        \<lparr>sa_LeaseID = ca_leaseID c @ ''-slot'', sa_SlotID = sl_SlotID st, sa_PoolID = p, sa_RequestID = rq_RequestID q',
         sa_AccountID = rq_AccountID q', sa_Owner = ca_owner c, sa_Generation = sl_EnvironmentGeneration st\<rparr> (ca_ttl c) = Inr (sm_SlotLease cl) \<Longrightarrow>
      claimCandidate c q' s al (sd_core d) = Inr (sm_Claim cl, sd_core d') \<Longrightarrow>
      sm_Slot cl = st\<lparr>sl_Status := Leased, sl_UpdatedAt := ca_now c\<rparr> \<Longrightarrow>
      d' = putSlotLease (sl_SlotID st) (sm_SlotLease cl) (putSlot (sm_Slot cl) (d\<lparr>sd_core := sd_core d'\<rparr>)) \<Longrightarrow> thesis"
      by (rule Cons.prems(1) [of "q # pre" q' post st s al]) (use a q in auto)
  qed
  show ?case
  proof (cases "dueAt (ca_now c) q")
    case False
    then show ?thesis using Cons.prems(2) by (intro IH) auto
  next
    case True
    then obtain s where s: "snapshotFromTx (sd_core d) (rq_AccountID q) = Inr s" "sn_Status s = Queued" "sn_RequestID s = rq_RequestID q"
      using Cons.prems(2) by auto
    show ?thesis
    proof (cases "find (\<lambda>s. sl_SlotID s \<notin> set bs \<and> Slot_Matches s r) cands")
      case None
      then have "slotClaimLoop c p r cands bs qs d = Inr (cl, d')" using Cons.prems(2) True s by simp
      moreover have "slotClaimLoop c p r cands bs us d = Inr (cl, d') \<Longrightarrow> False" for us
        using None by (induction us) (auto split: if_splits)
      ultimately show ?thesis by blast
    next
      case (Some st)
      then have st: "st \<in> set cands" "Slot_Matches st r" "sl_SlotID st \<notin> set bs" by (auto simp: find_Some_iff)
      let ?acq = "AcquireSlotLease None (ca_now c)
        \<lparr>sa_LeaseID = ca_leaseID c @ ''-slot'', sa_SlotID = sl_SlotID st, sa_PoolID = p, sa_RequestID = rq_RequestID q,
         sa_AccountID = rq_AccountID q, sa_Owner = ca_owner c, sa_Generation = sl_EnvironmentGeneration st\<rparr> (ca_ttl c)"
      have nh: "?acq \<noteq> Inl (SlotLeaseErr ErrLeaseHeld)" by (simp add: AcquireSlotLease_def Let_def)
      show ?thesis
      proof (cases "accountLeaseFor c (rq_AccountID q) (sd_core d)")
        case (Inl e)
        then show ?thesis using Cons.prems(2) True s Some by (intro IH) (auto split: if_splits)
      next
        case (Inr al)
        then obtain sl cla core where c: "?acq = Inr sl" "claimCandidate c q s al (sd_core d) = Inr (cla, core)"
          "cl = \<lparr>sm_Claim = cla, sm_SlotLease = sl, sm_Slot = st\<lparr>sl_Status := Leased, sl_UpdatedAt := ca_now c\<rparr>\<rparr>"
          "d' = putSlotLease (sl_SlotID st) sl (putSlot (sm_Slot cl) (d\<lparr>sd_core := core\<rparr>))"
          using Cons.prems(2) True s Some nh by (auto simp: Let_def split: sum.splits if_splits)
        show ?thesis
          by (rule Cons.prems(1) [of "[]" q qs st s al]) (use True s st Inr c in auto)
      qed
    qed
  qed
qed simp

end
