(* ===== verification/SlotKeep.thy ===== *)
theory SlotKeep
  imports SlotSafe
begin

text \<open>
  The joint claim keeps the invariants of the account tables and of the slot tables, and the
  reconciliation of a pool keeps the slot tables: the writes of its two loops as values, and what
  they leave in the database.
\<close>

section \<open>The claim keeps both invariants\<close>

lemma accountLeaseFor_held:
  assumes "accountLeaseFor c a d = Inl (AccountLeaseErr ErrLeaseHeld)" "inv_leases d"
  shows "leasedNow d (ca_now c) a"
proof -
  obtain cur where cur: "leaseFromTx d a = Inr cur" using leaseFromTx_inv [OF assms(2)] by blast
  with assms(1) obtain l where l: "cur = Some l"
      "AcquireLease (Some l) (ca_now c) (ca_leaseID c) (ca_owner c) (ca_ttl c) = Inl (AccountLeaseErr ErrLeaseHeld)"
    by (cases cur) (auto simp: accountLeaseFor_def)
  then have "\<not> ls_ExpiresAt l \<le> ca_now c"
    using AcquireLease_not_held [of "Some l" "ca_now c"] by auto
  with cur l(1) show ?thesis by (auto simp: leasedNow_def)
qed

lemma claimSlotTx_cases:
  assumes ok: "claimSlotTx c m p r0 d = Inr (cl, d')" and inv: "slot_inv (ca_now c) d" and core: "store_inv (sd_core d)"
    and now: "0 < ca_now c" and ids: "TrimSpace (ca_leaseID c) \<noteq> []" "TrimSpace (ca_owner c) \<noteq> []"
  obtains (replay) "existingClaimTx c (sd_core d) = Inr (Some (sm_Claim cl))" "d' = d"
  | (fresh) d1 pool r queued pre q post st s cur al n where
      "kget (db_events (sd_core d)) (ca_eventID c) = None" "activeLeaseCountTx (sd_core d) (ca_now c) = Inr n" "int n < m"
      "kget (sd_pools d) p = Some (Json pool)" "validatePoolEnvironmentTx d pool = Inr ()" "constrainSlotRequirement r0 pool = Inr r"
      "queuedRequestsTx (sd_core d) = Inr queued" "scanned (ca_now c) d d1" "queued = pre @ q # post" "dueAt (ca_now c) q"
      "\<forall>u \<in> set pre. dueAt (ca_now c) u \<longrightarrow> leasedNow (sd_core d) (ca_now c) (rq_AccountID u)"
      "kget (sd_slots d1) (sl_SlotID st) = Some (Json st)" "sl_PoolID st = p" "Slot_Matches st r"
      "kget (sd_slotLeases d1) (sl_SlotID st) = None"
      "snapshotFromTx (sd_core d) (rq_AccountID q) = Inr s" "leaseFromTx (sd_core d) (rq_AccountID q) = Inr cur"
      "AcquireLease cur (ca_now c) (ca_leaseID c) (ca_owner c) (ca_ttl c) = Inr al"
      "AcquireSlotLease None (ca_now c)
        \<lparr>sa_LeaseID = ca_leaseID c @ ''-slot'', sa_SlotID = sl_SlotID st, sa_PoolID = p, sa_RequestID = rq_RequestID q,
         sa_AccountID = rq_AccountID q, sa_Owner = ca_owner c, sa_Generation = sl_EnvironmentGeneration st\<rparr> (ca_ttl c) = Inr (sm_SlotLease cl)"
      "claimCandidate c q s al (sd_core d) = Inr (sm_Claim cl, sd_core d')"
      "sm_Slot cl = st\<lparr>sl_Status := Leased, sl_UpdatedAt := ca_now c\<rparr>"
      "d' = putSlotLease (sl_SlotID st) (sm_SlotLease cl) (putSlot (sm_Slot cl) (d1\<lparr>sd_core := sd_core d'\<rparr>))"
proof -
  from ok obtain found where f: "existingClaimTx c (sd_core d) = Inr found" by (auto simp: claimSlotTx_def)
  show thesis
  proof (cases found)
    case (Some e)
    then show thesis using ok f by (intro replay) (auto simp: claimSlotTx_def split: prod.splits)
  next
    case None
    then obtain n pool r queued xs ys bs d1 where
      a: "activeLeaseCountTx (sd_core d) (ca_now c) = Inr n" "int n < m"
      "kget (sd_pools d) p = Some (Json pool)" "validatePoolEnvironmentTx d pool = Inr ()" "constrainSlotRequirement r0 pool = Inr r"
      "queuedRequestsTx (sd_core d) = Inr queued" and xs: "slotsForPoolTx d p = Inr xs"
      and sc: "claimScan (ca_now c) pool xs d = Inr ((ys, bs), d1)"
      and lp: "slotClaimLoop c p r ys bs queued d1 = Inr (cl, d')"
      using ok f by (auto simp: claimSlotTx_def getJSON_Inr not_le split: prod.splits if_splits)
    have tr: "tracks xs d" using slotsForPoolTx_slot(2) [OF inv xs] by (simp add: tracks_def)
    note scan = claimScan_ok [OF sc inv now tr slotsForPoolTx_ok(2) [OF inv xs]]
    have inv1: "slot_inv (ca_now c) d1" and c1: "sd_core d1 = sd_core d" using scan by (simp_all add: scanned_def)
    from lp show thesis
    proof (rule slotClaimLoop_ok, unfold c1)
      fix pre q post s st al
      assume q: "queued = pre @ q # post" "dueAt (ca_now c) q"
        and st: "st \<in> set ys" "Slot_Matches st r"
        and pre: "\<forall>u \<in> set pre. dueAt (ca_now c) u \<longrightarrow> accountLeaseFor c (rq_AccountID u) (sd_core d) = Inl (AccountLeaseErr ErrLeaseHeld)"
        and s: "snapshotFromTx (sd_core d) (rq_AccountID q) = Inr s"
        and al: "accountLeaseFor c (rq_AccountID q) (sd_core d) = Inr al"
        and sl: "AcquireSlotLease None (ca_now c)
        \<lparr>sa_LeaseID = ca_leaseID c @ ''-slot'', sa_SlotID = sl_SlotID st, sa_PoolID = p, sa_RequestID = rq_RequestID q,
         sa_AccountID = rq_AccountID q, sa_Owner = ca_owner c, sa_Generation = sl_EnvironmentGeneration st\<rparr> (ca_ttl c) = Inr (sm_SlotLease cl)"
        and w: "claimCandidate c q s al (sd_core d) = Inr (sm_Claim cl, sd_core d')"
          "sm_Slot cl = st\<lparr>sl_Status := Leased, sl_UpdatedAt := ca_now c\<rparr>"
          "d' = putSlotLease (sl_SlotID st) (sm_SlotLease cl) (putSlot (sm_Slot cl) (d1\<lparr>sd_core := sd_core d'\<rparr>))"
      obtain cur where cur: "leaseFromTx (sd_core d) (rq_AccountID q) = Inr cur"
          "AcquireLease cur (ca_now c) (ca_leaseID c) (ca_owner c) (ca_ttl c) = Inr al"
        by (rule accountLeaseFor_ok [OF al store_invD(8) [OF core] sl ids])
      have held: "leasedNow (sd_core d) (ca_now c) (rq_AccountID u)"
        if "accountLeaseFor c (rq_AccountID u) (sd_core d) = Inl (AccountLeaseErr ErrLeaseHeld)" for u
        by (rule accountLeaseFor_held [OF that store_invD(8) [OF core]])
      have t: "kget (sd_slots d1) (sl_SlotID st) = Some (Json st)" using st(1) scan by (simp add: tracks_def)
      have "\<not> inUse st" using Slot_Matches_ready [OF st(2)] by (simp add: inUse_def)
      then have free: "kget (sd_slotLeases d1) (sl_SlotID st) = None" using lease_iff_inUse [OF inv1 t] by simp
      have "sl_SlotID st \<in> sl_SlotID ` set xs" using st(1) scan by (metis image_eqI list.set_map)
      then obtain u where u: "u \<in> set xs" "sl_SlotID u = sl_SlotID st" by auto
      have pl: "sl_PoolID st = p"
        using slotOkD(2) [OF slot_inv_slot [OF inv1 t]] slotsForPoolTx_slot(4,5) [OF inv xs u(1)] u(2)
          slotOkD(3) [OF slot_inv_slot [OF inv1 t]] slotName_inj
        by (metis Slot_Validate_iff slotBody_def order_trans zero_le_one)
      have new: "kget (db_events (sd_core d)) (ca_eventID c) = None" using f None by (simp add: existingClaimTx_None)
      show thesis
        by (rule fresh [OF new a _ q _ t pl st(2) free s cur sl w]) (use scan pre held in auto)
    qed
  qed
qed

lemma claimSlotTx_inv:
  assumes "claimSlotTx c m p r0 d = Inr (cl, d')" "slot_inv (ca_now c) d" "store_inv (sd_core d)" "0 < ca_now c"
    and "TrimSpace (ca_leaseID c) \<noteq> []" "TrimSpace (ca_owner c) \<noteq> []"
  shows "slot_inv (ca_now c) d' \<and> store_inv (sd_core d')"
  using assms
proof (cases rule: claimSlotTx_cases)
  case replay
  then show ?thesis using assms(2,3) by simp
next
  case (fresh d1 pool r queued pre q post st s cur al n)
  have inv1: "slot_inv (ca_now c) d1" using fresh(8) by (simp add: scanned_def)
  have "slot_inv (ca_now c) (putSlotLease (sl_SlotID st) (sm_SlotLease cl) (putSlot (sm_Slot cl) d1))"
    using leaseSlot_inv [OF inv1 fresh(12) assms(4) fresh(19)] fresh(13,21) by simp
  then have "slot_inv (ca_now c) d'"
    by (rule slot_inv_cong) (subst fresh(22), simp add: putSlotLease_def putSlot_def)+
  moreover have "store_inv (sd_core d')"
    by (rule claimCandidate_inv [OF assms(3) fresh(1) fresh(20) AcquireLease_valid [OF fresh(18) assms(4)]])
  ultimately show ?thesis ..
qed

section \<open>Reconciling a pool\<close>

text \<open>
  Pool configurations whose raw fields fit a slot record. \<open>PoolConfig_Validate\<close> checks the trimmed
  fields only, and lets a pool name be as long as a slot name.
\<close>

definition plainPool :: "PoolConfig \<Rightarrow> bool" where
  "plainPool p \<longleftrightarrow> length (pc_PoolID p) \<le> 250 \<and> length (pc_EnvironmentID p) \<le> 256 \<and>
     length (pc_EnvironmentVersion p) \<le> 128 \<and> length (pc_ManifestDigest p) \<le> 256 \<and> length (pc_Signer p) \<le> 256 \<and>
     \<not> ContainsAny (pc_EnvironmentID p) crlftab \<and> \<not> ContainsAny (pc_EnvironmentVersion p) crlftab \<and>
     \<not> ContainsAny (pc_ManifestDigest p) crlftab \<and> \<not> ContainsAny (pc_Signer p) crlftab"

lemma Requirement_caps:
  assumes "Requirement_Normalize r = Inr r'"
  shows "isOk (normalizeCapabilities (er_Capabilities r))"
  using assms by (auto simp: Requirement_Normalize_def Let_def isOk_iff normalizeCapabilities_def split: if_splits)

lemma PoolConfig_Validate_facts:
  assumes "PoolConfig_Validate p = Inr ()"
  shows "validID (pc_PoolID p)" "0 \<le> pc_DesiredSlots p" "pc_DesiredSlots p \<le> 10000" "pc_EnvironmentID p \<noteq> []"
    "isOk (normalizeCapabilities (pc_Capabilities p))"
proof -
  have "\<exists>r. Requirement_Normalize (PoolConfig_Requirement p) = Inr r"
    using assms by (auto simp: PoolConfig_Validate_def Let_def split: if_splits)
  then show "isOk (normalizeCapabilities (pc_Capabilities p))"
    using Requirement_caps by (fastforce simp: PoolConfig_Requirement_def)
qed (use assms in \<open>auto simp: PoolConfig_Validate_def Let_def split: if_splits\<close>)

lemma newSlot_valid:
  assumes "PoolConfig_Validate p = Inr ()" "plainPool p" "0 < now" "1 \<le> i" "i \<le> 10000"
  shows "Slot_Validate (newSlot p now i) = Inr ()"
proof -
  have "\<not> ContainsAny (sl_Signer (newSlot p now i) @ sl_AgentHandle (newSlot p now i) @ sl_SessionOperationID (newSlot p now i)) crlftab"
    using assms(2) by (simp add: newSlot_def plainPool_def)
  moreover have "validID (slotName (pc_PoolID p) i)"
    by (rule validID_slotName) (use PoolConfig_Validate_facts(1) [OF assms(1)] assms(2,4,5) in \<open>auto simp: plainPool_def\<close>)
  ultimately show ?thesis
    using assms PoolConfig_Validate_facts [OF assms(1)]
    by (simp add: Slot_Validate_iff slotBody_def newSlot_def plainPool_def bareStatus_def)
qed

text \<open>The writes of the two loops, as values.\<close>

definition reconciled :: "PoolConfig \<Rightarrow> gotime \<Rightarrow> slot list \<Rightarrow> int \<Rightarrow> slot option" where
  "reconciled config now slots ordinal =
     (case byOrdinal slots ordinal of
        Some s \<Rightarrow>
          if sl_Status s = Deleted then None
          else if targetChanged s config then
            if sl_Status s = Quarantined then None
            else Some (s\<lparr>sl_Status := (if inUse s then Draining else Provisioning), sl_UpdatedAt := now\<rparr>)
          else if sl_Status s = Retiring then
            Some (s\<lparr>sl_Status := (if sl_EnvironmentGeneration s = 0 then Unprovisioned else Ready), sl_UpdatedAt := now\<rparr>)
          else None
      | None \<Rightarrow> Some (newSlot config now ordinal))"

definition retired :: "int \<Rightarrow> gotime \<Rightarrow> (string, SlotLease json) kmap \<Rightarrow> slot \<Rightarrow> slot option" where
  "retired target now leases s =
     (if sl_Ordinal s \<le> target \<or> sl_Status s = Deleted \<or> sl_Status s = Quarantined then None
      else Some (s\<lparr>sl_Status := (if inUse s \<and> kget leases (sl_SlotID s) \<noteq> None then Draining else Retiring),
                   sl_UpdatedAt := now\<rparr>))"

definition putOpt :: "slot option \<Rightarrow> sdb \<Rightarrow> sdb" where
  "putOpt w d = (case w of None \<Rightarrow> d | Some s \<Rightarrow> putSlot s d)"

lemma putOpt_sel [simp]:
  "sd_core (putOpt w d) = sd_core d" "sd_pools (putOpt w d) = sd_pools d" "sd_slotLeases (putOpt w d) = sd_slotLeases d"
  "sd_packages (putOpt w d) = sd_packages d"
  by (simp_all add: putOpt_def split: option.splits)

lemma putOpt_get:
  "kget (sd_slots (putOpt w d)) k = (case w of None \<Rightarrow> kget (sd_slots d) k
     | Some s \<Rightarrow> if k = sl_SlotID s then Some (Json s) else kget (sd_slots d) k)"
  by (simp add: putOpt_def split: option.splits)

lemma reconcileOrdinal_put: "reconcileOrdinal config now slots i d = putOpt (reconciled config now slots i) d"
  by (simp add: reconcileOrdinal_def reconciled_def putOpt_def split: option.splits)

lemma retireSurplus_put: "retireSurplus t now s d = putOpt (retired t now (sd_slotLeases d) s) d"
  by (simp add: retireSurplus_def retired_def putOpt_def)

lemma fold_putOpt_sel [simp]:
  "sd_core (fold (\<lambda>x. putOpt (w x)) xs d) = sd_core d" "sd_pools (fold (\<lambda>x. putOpt (w x)) xs d) = sd_pools d"
  "sd_slotLeases (fold (\<lambda>x. putOpt (w x)) xs d) = sd_slotLeases d" "sd_packages (fold (\<lambda>x. putOpt (w x)) xs d) = sd_packages d"
  by (induction xs arbitrary: d) simp_all

lemma fold_retire:
  "fold (retireSurplus t now) xs d = fold (\<lambda>s. putOpt (retired t now (sd_slotLeases d) s)) xs d"
  by (induction xs arbitrary: d) (simp_all add: retireSurplus_put)

lemma fold_putOpt_hit:
  assumes "\<And>x y s t. x \<in> set xs \<Longrightarrow> y \<in> set xs \<Longrightarrow> w x = Some s \<Longrightarrow> w y = Some t \<Longrightarrow> sl_SlotID s = sl_SlotID t \<Longrightarrow> s = t"
    and "x \<in> set xs" "w x = Some s"
  shows "kget (sd_slots (fold (\<lambda>x. putOpt (w x)) xs d)) (sl_SlotID s) = Some (Json s)"
  using assms
proof (induction xs rule: rev_induct)
  case (snoc y xs)
  show ?case
  proof (cases "\<exists>t. w y = Some t \<and> sl_SlotID t = sl_SlotID s")
    case True
    then obtain t where "w y = Some t" "t = s" using snoc.prems(1) [of y x] snoc.prems(2,3) by auto
    then show ?thesis by (simp add: putOpt_get)
  next
    case False
    then have "x \<in> set xs" using snoc.prems(2,3) by auto
    then have "kget (sd_slots (fold (\<lambda>x. putOpt (w x)) xs d)) (sl_SlotID s) = Some (Json s)"
      using snoc by (metis Un_iff set_append)
    then show ?thesis using False by (auto simp: putOpt_get split: option.splits)
  qed
qed simp

lemma fold_putOpt_miss:
  assumes "\<And>x s. x \<in> set xs \<Longrightarrow> w x = Some s \<Longrightarrow> sl_SlotID s \<noteq> k"
  shows "kget (sd_slots (fold (\<lambda>x. putOpt (w x)) xs d)) k = kget (sd_slots d) k"
  using assms
proof (induction xs arbitrary: d)
  case (Cons x xs)
  then have "kget (sd_slots (putOpt (w x) d)) k = kget (sd_slots d) k"
    by (cases "w x") (auto simp: putOpt_get)
  moreover have "kget (sd_slots (fold (\<lambda>x. putOpt (w x)) xs (putOpt (w x) d))) k = kget (sd_slots (putOpt (w x) d)) k"
    by (rule Cons.IH) (use Cons.prems in auto)
  ultimately show ?case by simp
qed simp

lemma slotOk_cong:
  "sd_pools d' = sd_pools d \<Longrightarrow> sd_slotLeases d' = sd_slotLeases d \<Longrightarrow> slotOk now d' k s \<longleftrightarrow> slotOk now d k s"
  unfolding slotOk_def by presburger

text \<open>Writing slots that fit the tables keeps the invariant.\<close>

lemma fold_putOpt_inv:
  assumes "slot_inv now d" "\<And>x s. x \<in> set xs \<Longrightarrow> w x = Some s \<Longrightarrow> slotOk now d (sl_SlotID s) s"
  shows "slot_inv now (fold (\<lambda>x. putOpt (w x)) xs d)"
  using assms
proof (induction xs arbitrary: d)
  case (Cons x xs)
  have same: "slotOk now (putOpt (w x) d) k s \<longleftrightarrow> slotOk now d k s" for k s by (rule slotOk_cong) simp_all
  have "slot_inv now (putOpt (w x) d)"
  proof (cases "w x")
    case (Some s)
    then have "slotOk now d (sl_SlotID s) s" using Cons.prems(2) [of x s] by simp
    then have "slotOk now (putSlot s d) (sl_SlotID s) s" using slotOk_cong [of "putSlot s d" d] by simp
    then have "slot_inv now (putSlot s d)" by (intro slot_inv_update [OF Cons.prems(1)]) simp_all
    with Some show ?thesis by (simp add: putOpt_def)
  qed (use Cons.prems(1) in \<open>simp add: putOpt_def\<close>)
  then have "slot_inv now (fold (\<lambda>x. putOpt (w x)) xs (putOpt (w x) d))"
    by (rule Cons.IH) (use Cons.prems(2) same in auto)
  then show ?case by simp
qed simp

lemma byOrdinal_Some: "byOrdinal xs i = Some s \<Longrightarrow> s \<in> set xs \<and> sl_Ordinal s = i"
  by (auto simp: byOrdinal_def find_Some_iff in_set_conv_nth) (metis in_set_conv_nth length_rev set_rev)

lemma byOrdinal_None: "byOrdinal xs i = None \<longleftrightarrow> (\<forall>s \<in> set xs. sl_Ordinal s \<noteq> i)"
  by (auto simp: byOrdinal_def find_None_iff)

lemma putPool_inv:
  assumes "slot_inv now d" "PoolConfig_Validate p = Inr ()"
  shows "slot_inv now (putPool p d)"
proof -
  have "slotOk now (putPool p d) k s" if "slotOk now d k s" for k s
    using that unfolding slotOk_def by simp
  moreover have "\<exists>q. v = Json q \<and> poolOk k q" if "kget (sd_pools (putPool p d)) k = Some v" for k v
    using that slot_invD(1) [OF assms(1), of k v] assms(2) by (auto simp: poolOk_def split: if_splits)
  ultimately show ?thesis
    using slot_invD(2) [OF assms(1)] slot_invD(3) [OF assms(1)] unfolding slot_inv_def by (metis put_sel(18,19) option.distinct(1))
qed

lemma reconciled_Some:
  assumes "reconciled p now xs i = Some s" "byOrdinal xs i = Some t"
  shows "\<exists>st. s = t\<lparr>sl_Status := st, sl_UpdatedAt := now\<rparr> \<and> (inUse t \<and> st = Draining \<or>
     \<not> inUse t \<and> (st = Provisioning \<or> st = Unprovisioned \<or> st = Ready \<and> sl_EnvironmentGeneration t \<noteq> 0))"
proof (cases "targetChanged t p")
  case True
  with assms have "s = t\<lparr>sl_Status := (if inUse t then Draining else Provisioning), sl_UpdatedAt := now\<rparr>"
    by (simp add: reconciled_def split: if_splits)
  then show ?thesis by (intro exI [of _ "if inUse t then Draining else Provisioning"]) simp
next
  case False
  with assms have "sl_Status t = Retiring"
    "s = t\<lparr>sl_Status := (if sl_EnvironmentGeneration t = 0 then Unprovisioned else Ready), sl_UpdatedAt := now\<rparr>"
    by (simp_all add: reconciled_def split: if_splits)
  then show ?thesis
    by (intro exI [of _ "if sl_EnvironmentGeneration t = 0 then Unprovisioned else Ready"]) (simp add: inUse_def)
qed

lemma reconciled_ok:
  assumes inv: "slot_inv now d" and now: "0 < now" and p: "PoolConfig_Validate p = Inr ()" "plainPool p"
    and pool: "kget (sd_pools d) (pc_PoolID p) \<noteq> None" and xs: "slotsForPoolTx d (pc_PoolID p) = Inr xs"
    and i: "1 \<le> i" "i \<le> 10000" and w: "reconciled p now xs i = Some s"
  shows "slotOk now d (sl_SlotID s) s \<and> sl_SlotID s = slotName (pc_PoolID p) i"
proof (cases "byOrdinal xs i")
  case None
  have "kget (sd_slotLeases d) (slotName (pc_PoolID p) i) = None"
  proof (rule ccontr)
    assume "kget (sd_slotLeases d) (slotName (pc_PoolID p) i) \<noteq> None"
    then obtain t where t: "kget (sd_slots d) (slotName (pc_PoolID p) i) = Some (Json t)"
        "slotOk now d (slotName (pc_PoolID p) i) t"
      using slot_invD(3) [OF inv] by blast
    then have "sl_PoolID t = pc_PoolID p \<and> sl_Ordinal t = i"
      using slotName_inj [OF slotOkD(2) [OF t(2)]] slotOkD(3) [OF t(2)] i(1) by (simp add: Slot_Validate_iff slotBody_def)
    moreover from this t(1) have "t \<in> set xs" using slotsForPoolTx_ok(1) [OF inv xs] by blast
    ultimately show False using None by (simp add: byOrdinal_None)
  qed
  then show ?thesis
    using w None newSlot_valid [OF p now i] pool
    by (auto simp: reconciled_def slotOk_def leaseFits_def newSlot_def inUse_def)
next
  case (Some t)
  then have t: "t \<in> set xs" "sl_Ordinal t = i" using byOrdinal_Some by blast+
  note ts = slotsForPoolTx_slot [OF inv xs t(1)]
  obtain st where s: "s = t\<lparr>sl_Status := st, sl_UpdatedAt := now\<rparr>"
      and cs: "inUse t \<and> st = Draining \<or>
        \<not> inUse t \<and> (st = Provisioning \<or> st = Unprovisioned \<or> st = Ready \<and> sl_EnvironmentGeneration t \<noteq> 0)"
    using reconciled_Some [OF w Some] by blast
  have st: "s = t\<lparr>sl_Status := st, sl_UpdatedAt := now\<rparr>" "slot_status_Valid st"
      "sl_EnvironmentGeneration t = 0 \<longrightarrow> bareStatus st" "st = Leased \<or> st = Draining \<longleftrightarrow> inUse t"
    using s cs inUse_generation [OF ts(3)] by (auto simp: bareStatus_def)
  have "leaseFits (kget (sd_slotLeases d) (sl_SlotID t)) s"
    using slotOkD(6) [OF ts(3)] st by (auto simp: leaseFits_def split: option.splits)
  then have "slotOk now d (sl_SlotID t) s"
    unfolding st(1) by (intro slotOk_status [OF ts(3) st(2) slotOkD(4) [OF ts(3)] now st(3)]) simp_all
  then show ?thesis using st(1) ts(4) t(2) by simp
qed

lemma retired_ok:
  assumes inv: "slot_inv now d" and now: "0 < now" and xs: "slotsForPoolTx d p = Inr xs" and t: "t \<in> set xs"
    and w: "retired tg now (sd_slotLeases d) t = Some s"
  shows "slotOk now d (sl_SlotID s) s \<and> sl_SlotID s = sl_SlotID t"
proof -
  note ts = slotsForPoolTx_slot [OF inv xs t]
  have u: "kget (sd_slotLeases d) (sl_SlotID t) = None \<longleftrightarrow> \<not> inUse t" by (rule lease_iff_inUse [OF inv ts(2)])
  obtain st where st: "s = t\<lparr>sl_Status := st, sl_UpdatedAt := now\<rparr>" "slot_status_Valid st"
      "sl_EnvironmentGeneration t = 0 \<longrightarrow> bareStatus st" "st = Leased \<or> st = Draining \<longleftrightarrow> inUse t"
    using w u inUse_generation [OF ts(3)]
    by (intro that [of "if inUse t then Draining else Retiring"]) (auto simp: retired_def bareStatus_def split: if_splits)
  have "leaseFits (kget (sd_slotLeases d) (sl_SlotID t)) s"
    using slotOkD(6) [OF ts(3)] st by (auto simp: leaseFits_def split: option.splits)
  then have "slotOk now d (sl_SlotID t) s"
    unfolding st(1) by (intro slotOk_status [OF ts(3) st(2) slotOkD(4) [OF ts(3)] now st(3)]) simp_all
  then show ?thesis using st(1) by simp
qed

lemma reconcileTx_ok:
  assumes "reconcileTx p now d = Inr (u, d')"
  obtains xs where "slotsForPoolTx (putPool p d) (pc_PoolID p) = Inr xs"
    "d' = fold (\<lambda>s. putOpt (retired (targetSlots p) now (sd_slotLeases d) s)) xs
       (fold (\<lambda>i. putOpt (reconciled p now xs i)) [1..targetSlots p] (putPool p d))"
proof -
  from assms obtain xs where xs: "slotsForPoolTx (putPool p d) (pc_PoolID p) = Inr xs"
    "d' = fold (retireSurplus (targetSlots p) now) xs (fold (reconcileOrdinal p now xs) [1..targetSlots p] (putPool p d))"
    by (auto simp: reconcileTx_def Let_def)
  have "reconcileOrdinal p now xs = (\<lambda>i. putOpt (reconciled p now xs i))" by (intro ext reconcileOrdinal_put)
  with xs(2) show thesis by (intro that [OF xs(1)]) (simp add: fold_retire)
qed

lemma targetSlots_bounds: "PoolConfig_Validate p = Inr () \<Longrightarrow> 0 \<le> targetSlots p \<and> targetSlots p \<le> 10000"
  using PoolConfig_Validate_facts by (simp add: targetSlots_def)

lemma reconcileTx_inv:
  assumes ok: "reconcileTx p now d = Inr (u, d')" and inv: "slot_inv now d" and now: "0 < now"
    and p: "PoolConfig_Validate p = Inr ()" "plainPool p"
  shows "slot_inv now d' \<and> sd_core d' = sd_core d"
  using ok
proof (rule reconcileTx_ok)
  fix xs
  let ?d1 = "putPool p d"
  let ?d2 = "fold (\<lambda>i. putOpt (reconciled p now xs i)) [1..targetSlots p] ?d1"
  assume xs: "slotsForPoolTx ?d1 (pc_PoolID p) = Inr xs"
    and d': "d' = fold (\<lambda>s. putOpt (retired (targetSlots p) now (sd_slotLeases d) s)) xs ?d2"
  have inv1: "slot_inv now ?d1" by (rule putPool_inv [OF inv p(1)])
  have "slotOk now ?d1 (sl_SlotID s) s" if "i \<in> set [1..targetSlots p]" "reconciled p now xs i = Some s" for i s
    using reconciled_ok [OF inv1 now p _ xs _ _ that(2)] that(1) targetSlots_bounds [OF p(1)] by auto
  then have inv2: "slot_inv now ?d2" by (rule fold_putOpt_inv [OF inv1])
  have "slotOk now ?d2 (sl_SlotID s) s" if "t \<in> set xs" "retired (targetSlots p) now (sd_slotLeases d) t = Some s" for t s
  proof -
    have "slotOk now ?d1 (sl_SlotID s) s" using retired_ok [OF inv1 now xs that(1), of "targetSlots p" s] that(2) by auto
    then show ?thesis using slotOk_cong [of ?d2 ?d1] by simp
  qed
  then have "slot_inv now d'" unfolding d' by (rule fold_putOpt_inv [OF inv2])
  then show ?thesis unfolding d' by simp
qed

end
