(* ===== verification/SlotLife.thy ===== *)
theory SlotLife
  imports SlotKeep
begin

text \<open>
  Readiness, status changes, heartbeats, releases, quarantine and the recovery of expired leases:
  what each writes, and that each keeps the invariant.
\<close>

section \<open>Readiness and status\<close>

lemma Summary_Validate_facts:
  assumes "Summary_Validate e = Inr ()"
  shows "es_EnvironmentID e \<noteq> []" "length (es_EnvironmentID e) \<le> 256" "\<not> ContainsAny (es_EnvironmentID e) crlftab"
    "es_Generation e \<noteq> 0" "length (es_Version e) \<le> 128" "length (es_ManifestDigest e) \<le> 256" "length (es_Signer e) \<le> 256"
    "length (es_AgentHandle e) \<le> 256" "\<not> ContainsAny (es_Version e) crlftab" "\<not> ContainsAny (es_ManifestDigest e) crlftab"
    "\<not> ContainsAny (es_Signer e) crlftab" "\<not> ContainsAny (es_AgentHandle e) crlftab"
    "isOk (normalizeCapabilities (es_Capabilities e))"
  using assms by (auto simp: Summary_Validate_def validID_def ContainsAny_def list_ex_iff isOk_iff split: if_splits)

lemma ContainsAny_append: "ContainsAny (s @ t) cs \<longleftrightarrow> ContainsAny s cs \<or> ContainsAny t cs"
  by (simp add: ContainsAny_def)

lemma markReadyTx_ok:
  assumes "markReadyTx k summary now d = Inr (u, d')"
  obtains s p where "kget (sd_slots d) k = Some (Json s)" "kget (sd_pools d) (sl_PoolID s) = Some (Json p)"
    "sl_Status s \<notin> {Retiring, Deleted, Quarantined, Leased, Draining}" "sl_SessionDesiredState s \<noteq> ''stopped''"
    "sl_EnvironmentGeneration s = 0 \<or> es_Generation summary = sl_EnvironmentGeneration s"
    "validatePoolEnvironmentTx d p = Inr ()" "summaryServesPool summary p"
    "d' = putSlot (readySlot summary p now s) (putSummary summary d)"
  using assms by (auto simp: markReadyTx_def getJSON_Inr inUse_def split: if_splits)

lemma markReadyTx_inv:
  assumes ok: "markReadyTx k summary now d = Inr (u, d')" and inv: "slot_inv now d" and now: "0 < now"
    and v: "Summary_Validate summary = Inr ()"
  shows "slot_inv now d' \<and> sd_core d' = sd_core d \<and> sd_slotLeases d' = sd_slotLeases d"
  using ok
proof (rule markReadyTx_ok)
  fix s p
  assume s: "kget (sd_slots d) k = Some (Json s)" "sl_Status s \<notin> {Retiring, Deleted, Quarantined, Leased, Draining}"
    and d': "d' = putSlot (readySlot summary p now s) (putSummary summary d)"
  let ?r = "readySlot summary p now s"
  note ok = slot_inv_slot [OF inv s(1)] and sv = Summary_Validate_facts [OF v]
  have "\<not> inUse s" using s(2) by (auto simp: inUse_def)
  then have f: "kget (sd_slotLeases d) k = None" using lease_iff_inUse [OF inv s(1)] by simp
  have b: "slotBody s" using slotOkD(3) [OF ok] by (simp add: Slot_Validate_iff)
  then have "slotBody ?r" using sv by (auto simp: slotBody_def readySlot_def ContainsAny_append)
  moreover have "sl_CreatedAt s \<le> now" by (rule slotOkD(4) [OF ok])
  ultimately have "Slot_Validate ?r = Inr ()"
    using now sv(4) by (simp add: Slot_Validate_iff readySlot_def)
  then have "slotOk now d' (sl_SlotID s) ?r"
    using slotOkD [OF ok] f unfolding d' by (simp add: slotOk_def readySlot_def leaseFits_def inUse_def)
  moreover have "sl_SlotID ?r = sl_SlotID s" by (simp add: readySlot_def)
  ultimately have "slot_inv now d'"
    unfolding d' by (intro slot_inv_update [OF inv, of _ "sl_SlotID s" ?r]) simp_all
  then show ?thesis unfolding d' by simp
qed

lemma setStatusTx_inv:
  assumes ok: "setStatusTx k st now d = Inr (u, d')" and inv: "slot_inv now d" and now: "0 < now" and st: "slot_status_Valid st"
  shows "slot_inv now d' \<and> sd_core d' = sd_core d \<and> sd_slotLeases d' = sd_slotLeases d"
proof -
  from ok obtain s where s: "kget (sd_slots d) k = Some (Json s)" by (auto simp: setStatusTx_def getJSON_Inr)
  then have d': "d' = putSlot (s\<lparr>sl_Status := st, sl_UpdatedAt := now\<rparr>) d"
    and g: "sl_EnvironmentGeneration s = 0 \<longrightarrow> bareStatus st"
    and l: "kget (sd_slotLeases d) k = None \<longleftrightarrow> \<not> (st = Leased \<or> st = Draining)"
    using ok by (auto simp: setStatusTx_def getJSON_def Let_def bareStatus_def split: if_splits)
  have id: "sl_SlotID s = k" by (rule stored_id [OF inv s])
  have "slot_inv now d'"
    by (rule changeStatus_inv [OF inv s now created_before [OF inv s] st g])
      (use l lease_iff_inUse [OF inv s] in \<open>auto simp: d' id\<close>)
  then show ?thesis by (simp add: d')
qed

section \<open>Heartbeats, releases and quarantine\<close>

lemma heartbeatSlotTx_ok:
  assumes ok: "heartbeatSlotTx k now i w ttl d = Inr (l', d')" and inv: "slot_inv now d" and now: "0 < now"
  shows "slot_inv now d' \<and> sd_core d' = sd_core d \<and>
     (\<exists>l. kget (sd_slotLeases d) k = Some (Json l) \<and> HeartbeatSlotLease l now i w ttl = Inr l' \<and>
       sd_slotLeases d' = kput k (Json l') (sd_slotLeases d))"
proof -
  from ok obtain raw where raw: "kget (sd_slotLeases d) k = Some raw" by (auto simp: heartbeatSlotTx_def split: option.splits)
  obtain l s where l: "raw = Json l" "SlotLease_Validate l = Inr ()" "sk_SlotID l = k" "sk_PoolID l = sl_PoolID s"
      "sk_EnvironmentGeneration l = sl_EnvironmentGeneration s" "sl_CreatedAt s \<le> sk_LastHeartbeat l" "inUse s"
    and s: "kget (sd_slots d) k = Some (Json s)" "slotOk now d k s"
    by (rule slot_inv_lease [OF inv raw])
  let ?s1 = "if IsZero (sl_HealthAt s) \<or> \<not> Before now (sl_HealthAt s) then s\<lparr>sl_HealthAt := now\<rparr> else s"
  let ?s2 = "if \<not> Before now (sl_UpdatedAt ?s1) then ?s1\<lparr>sl_UpdatedAt := now\<rparr> else ?s1"
  have h: "HeartbeatSlotLease l now i w ttl = Inr l'"
    and d': "d' = putSlotLease k l' (d\<lparr>sd_slots := kput k (Json ?s2) (sd_slots d)\<rparr>)"
    using ok raw l(1) s(1) unfolding heartbeatSlotTx_def by (auto simp: getJSON_def Let_def)
  have sel: "sl_SlotID ?s2 = sl_SlotID s" "sl_PoolID ?s2 = sl_PoolID s" "sl_Ordinal ?s2 = sl_Ordinal s" "sl_CreatedAt ?s2 = sl_CreatedAt s"
    "sl_Status ?s2 = sl_Status s" "sl_EnvironmentGeneration ?s2 = sl_EnvironmentGeneration s" "slotBody ?s2 = slotBody s"
    "sl_UpdatedAt ?s2 = (if \<not> Before now (sl_UpdatedAt s) then now else sl_UpdatedAt s)"
    by simp_all
  have v: "Slot_Validate ?s2 = Inr ()"
    using slotOkD(3,4) [OF s(2)] now unfolding Slot_Validate_iff sel by auto
  have "leaseFits (Some (Json l')) ?s2"
    unfolding leaseFits_def inUse_def sel using h l now slotOkD(1,4) [OF s(2)]
    by (auto simp: HeartbeatSlotLease_iff SlotLease_Validate_iff inUse_def)
  then have "slotOk now d' k ?s2"
    using slotOkD [OF s(2)] v unfolding slotOk_def sel by (simp add: d')
  then have "slot_inv now d'"
    unfolding d' by (intro slot_inv_update [OF inv]) simp_all
  then show ?thesis using h raw l(1) by (simp add: d')
qed

lemma releaseSlotTx_ok:
  assumes ok: "releaseSlotTx k i w d = Inr (u, d')" and inv: "slot_inv now d"
  shows "slot_inv now d' \<and> sd_core d' = sd_core d \<and>
     (d' = d \<and> kget (sd_slotLeases d) k = None \<or>
      (\<exists>l. kget (sd_slotLeases d) k = Some (Json l) \<and> sk_LeaseID l = i \<and> sk_Owner l = w \<and> sd_slotLeases d' = kdel k (sd_slotLeases d)))"
proof (cases "kget (sd_slotLeases d) k")
  case None
  then show ?thesis using ok inv by (simp add: releaseSlotTx_def)
next
  case (Some raw)
  obtain l s where l: "raw = Json l" "SlotLease_Validate l = Inr ()" "sl_CreatedAt s \<le> sk_LastHeartbeat l" "inUse s"
    and s: "kget (sd_slots d) k = Some (Json s)" "slotOk now d k s"
    by (rule slot_inv_lease [OF inv Some])
  obtain p where r: "ReleaseSlotLease l i w = Inr ()"
    and d': "d' = (deleteSlotLease k d)\<lparr>sd_slots := kput k
        (Json (s\<lparr>sl_Status := releasedStatus s p, sl_UpdatedAt := sk_LastHeartbeat l\<rparr>)) (sd_slots d)\<rparr>"
    using ok Some l(1,4) s(1) by (auto simp: releaseSlotTx_def getJSON_Inr Let_def)
  have "sk_LastHeartbeat l \<noteq> 0" "sl_CreatedAt s \<noteq> 0"
    using l(2) slotOkD(3) [OF s(2)] by (simp_all add: SlotLease_Validate_iff Slot_Validate_iff slotBody_def)
  have "slot_inv now d'"
  proof (rule slot_inv_update [OF inv])
    show "slotOk now d' k (s\<lparr>sl_Status := releasedStatus s p, sl_UpdatedAt := sk_LastHeartbeat l\<rparr>)"
      using slotOkD [OF s(2)] l(3) \<open>sk_LastHeartbeat l \<noteq> 0\<close> releasedStatus_cases inUse_generation [OF s(2) l(4)]
      by (auto simp: slotOk_def Slot_Validate_iff d' leaseFits_def)
  qed (simp_all add: d')
  then show ?thesis using Some l(1) r by (auto simp: d' ReleaseSlotLease_iff)
qed

lemma quarantined_ok:
  assumes inv: "slot_inv now d" and s: "kget (sd_slots d) k = Some (Json s)" and now: "0 < now" and g: "sl_EnvironmentGeneration s \<noteq> 0"
    and d': "d' = (deleteSlotLease k d)\<lparr>sd_slots := kput k (Json (quarantinedSlot now s)) (sd_slots d)\<rparr>"
  shows "slot_inv now d'"
proof (rule slot_inv_update [OF inv])
  note ok = slot_inv_slot [OF inv s]
  have "slotBody (quarantinedSlot now s)"
    using slotOkD(3) [OF ok] by (simp add: Slot_Validate_iff slotBody_def quarantinedSlot_def)
  then show "slotOk now d' k (quarantinedSlot now s)"
    using slotOkD [OF ok] now g by (simp add: slotOk_def Slot_Validate_iff d' leaseFits_def quarantinedSlot_def inUse_def)
qed (simp_all add: d')

lemma quarantineTx_ok:
  assumes ok: "quarantineTx k now d = Inr (u, d')"
  obtains s where "kget (sd_slots d) k = Some (Json s)" "sd_slotLeases d' = kdel k (sd_slotLeases d)" "sd_core d' = sd_core d"
    "\<And>l. kget (sd_slotLeases d) k = Some (Json l) \<Longrightarrow> sk_ExpiresAt l \<le> now"
    "d' = (deleteSlotLease k d)\<lparr>sd_slots := kput k (Json (quarantinedSlot now s)) (sd_slots d)\<rparr>"
  using ok by (auto simp: quarantineTx_def getJSON_Inr split: option.splits if_splits)

lemma quarantineLeaseTx_ok:
  assumes ok: "quarantineLeaseTx k i w now d = Inr (u, d')" and inv: "slot_inv now d" and now: "0 < now"
  shows "slot_inv now d' \<and> sd_core d' = sd_core d \<and> sd_slotLeases d' = kdel k (sd_slotLeases d) \<and>
     (\<exists>l. kget (sd_slotLeases d) k = Some (Json l) \<and> sk_LeaseID l = i \<and> sk_Owner l = w)"
proof -
  from ok obtain raw where raw: "kget (sd_slotLeases d) k = Some raw" by (auto simp: quarantineLeaseTx_def split: option.splits)
  obtain l s where l: "raw = Json l" "inUse s" and s: "kget (sd_slots d) k = Some (Json s)" "slotOk now d k s"
    by (rule slot_inv_lease [OF inv raw])
  have d': "d' = (deleteSlotLease k d)\<lparr>sd_slots := kput k (Json (quarantinedSlot now s)) (sd_slots d)\<rparr>"
    and o: "sk_LeaseID l = i" "sk_Owner l = w"
    using ok raw l s(1) by (auto simp: quarantineLeaseTx_def getJSON_Inr split: if_splits)
  have "slot_inv now d'" by (rule quarantined_ok [OF inv s(1) now inUse_generation [OF s(2) l(2)] d'])
  then show ?thesis using raw l(1) o by (simp add: d')
qed

section \<open>Recovery\<close>

lemma expiredScan:
  assumes "\<And>k v. (k, v) \<in> set ps \<Longrightarrow> \<exists>l. v = Json l \<and> SlotLease_Validate l = Inr ()"
  shows "foldE (\<lambda>p acc. bindE (decode (snd p)) (\<lambda>lease. bindE (SlotLease_Validate lease) (\<lambda>_.
       Inr (if SlotLease_Expired lease now then acc @ [lease] else acc)))) ps acc =
     Inr (acc @ filter (\<lambda>l. sk_ExpiresAt l \<le> now) (map (\<lambda>q. case snd q of Json l \<Rightarrow> l) ps))"
  using assms
proof (induction ps arbitrary: acc)
  case (Cons q ps)
  obtain l where "snd q = Json l" "SlotLease_Validate l = Inr ()"
    using Cons.prems [of "fst q" "snd q"] by (cases q) auto
  moreover have "foldE (\<lambda>p acc. bindE (decode (snd p)) (\<lambda>lease. bindE (SlotLease_Validate lease) (\<lambda>_.
       Inr (if SlotLease_Expired lease now then acc @ [lease] else acc)))) ps acc' =
     Inr (acc' @ filter (\<lambda>l. sk_ExpiresAt l \<le> now) (map (\<lambda>q. case snd q of Json l \<Rightarrow> l) ps))" for acc'
    by (rule Cons.IH) (use Cons.prems in auto)
  ultimately show ?case by simp
qed simp

lemma expiredSlotLeases_ok:
  assumes inv: "slot_inv now d"
  obtains ls where "expiredSlotLeases now d = Inr ls" "distinct (map sk_SlotID ls)"
    "\<And>l. l \<in> set ls \<longleftrightarrow> kget (sd_slotLeases d) (sk_SlotID l) = Some (Json l) \<and> sk_ExpiresAt l \<le> now"
proof -
  let ?val = "\<lambda>q :: string \<times> SlotLease json. case snd q of Json l \<Rightarrow> l"
  let ?all = "map ?val (kentries (sd_slotLeases d))"
  let ?ls = "filter (\<lambda>l. sk_ExpiresAt l \<le> now) ?all"
  have e: "\<exists>l. v = Json l \<and> SlotLease_Validate l = Inr () \<and> sk_SlotID l = k" if kv: "(k, v) \<in> set (kentries (sd_slotLeases d))" for k v
  proof -
    have "kget (sd_slotLeases d) k = Some v" using kv by (simp add: kentries_iff)
    then show ?thesis by (rule slot_inv_lease [OF inv]) blast
  qed
  have 1: "expiredSlotLeases now d = Inr ?ls"
    unfolding expiredSlotLeases_def by (subst expiredScan) (use e in \<open>blast, simp\<close>)
  have "map (\<lambda>q. sk_SlotID (?val q)) (kentries (sd_slotLeases d)) = map fst (kentries (sd_slotLeases d))"
    using e by (intro map_cong) force+
  then have "distinct (map sk_SlotID ?all)" unfolding map_map comp_def by (metis kentries_distinct)
  then have 2: "distinct (map sk_SlotID ?ls)" by (rule distinct_map_filter)
  have all: "l \<in> set ?all \<longleftrightarrow> kget (sd_slotLeases d) (sk_SlotID l) = Some (Json l)" for l
  proof
    assume "l \<in> set ?all"
    then obtain k v where "(k, v) \<in> set (kentries (sd_slotLeases d))" "l = (case v of Json l \<Rightarrow> l)" by auto
    with e [of k v] show "kget (sd_slotLeases d) (sk_SlotID l) = Some (Json l)" by (auto simp: kentries_iff)
  next
    assume "kget (sd_slotLeases d) (sk_SlotID l) = Some (Json l)"
    then have "(sk_SlotID l, Json l) \<in> set (kentries (sd_slotLeases d))" by (simp add: kentries_iff)
    then show "l \<in> set ?all" by force
  qed
  show thesis by (rule that [OF 1 2]) (use all in auto)
qed

text \<open>The confirmation that an agent has stopped, for this lease.\<close>

definition confirmed :: "(string, SlotLease) kmap \<Rightarrow> SlotLease \<Rightarrow> bool" where
  "confirmed fenced l \<longleftrightarrow> (\<exists>c. kget fenced (sk_SlotID l) = Some c \<and> sk_LeaseID c = sk_LeaseID l \<and>
     sk_Owner c = sk_Owner l \<and> sk_EnvironmentGeneration c = sk_EnvironmentGeneration l)"

lemma consume_iff:
  "fst (consumeFencedSlotLease l f) \<longleftrightarrow> confirmed f l"
  "snd (consumeFencedSlotLease l f) = (if confirmed f l then kdel (sk_SlotID l) f else f)"
  by (auto simp: consumeFencedSlotLease_def confirmed_def split: option.splits if_splits)

lemma recoverLoop_Cons:
  assumes "kget (sd_slots d) (sk_SlotID l) = Some (Json s)" "inUse s" "kget (sd_pools d) (sl_PoolID s) = Some (Json p)"
  shows "recoverLoop now (l # ls) d f =
     (if sl_AgentHandle s = [] \<or> confirmed f l then
        recoverLoop now ls ((deleteSlotLease (sk_SlotID l) d)\<lparr>sd_slots := kput (sk_SlotID l)
          (Json (s\<lparr>sl_Status := releasedStatus s p, sl_UpdatedAt := now\<rparr>)) (sd_slots d)\<rparr>)
          (if sl_AgentHandle s = [] then f else kdel (sk_SlotID l) f)
      else (Inl (StoreErr ErrSlotLeaseFenceRequired), f))"
proof (cases "sl_AgentHandle s = []")
  case False
  have c: "consumeFencedSlotLease l f = (confirmed f l, if confirmed f l then kdel (sk_SlotID l) f else f)"
    using consume_iff [of l f] by (metis prod.collapse)
  show ?thesis using False assms by (simp add: getJSON_def c)
qed (use assms in \<open>simp add: getJSON_def\<close>)

lemma recoverLoop_ok:
  assumes "recoverLoop now ls d f = (Inr d', f')" "slot_inv now d" "0 < now"
    and "\<And>l. l \<in> set ls \<Longrightarrow> kget (sd_slotLeases d) (sk_SlotID l) = Some (Json l)" "distinct (map sk_SlotID ls)"
  shows "slot_inv now d' \<and> sd_core d' = sd_core d \<and>
     (\<forall>k. k \<notin> sk_SlotID ` set ls \<longrightarrow> kget (sd_slotLeases d') k = kget (sd_slotLeases d) k \<and> kget (sd_slots d') k = kget (sd_slots d) k) \<and>
     (\<forall>l \<in> set ls. kget (sd_slotLeases d') (sk_SlotID l) = None \<and>
        (\<forall>s. kget (sd_slots d) (sk_SlotID l) = Some (Json s) \<longrightarrow> sl_AgentHandle s = [] \<or> confirmed f l))"
  using assms
proof (induction ls arbitrary: d f)
  case (Cons l ls)
  have raw: "kget (sd_slotLeases d) (sk_SlotID l) = Some (Json l)" using Cons.prems(4) by simp
  obtain s where u: "inUse s" and s: "kget (sd_slots d) (sk_SlotID l) = Some (Json s)" "slotOk now d (sk_SlotID l) s"
    by (rule slot_inv_lease [OF Cons.prems(2) raw]) (rule that; assumption)
  let ?f = "if sl_AgentHandle s = [] then f else kdel (sk_SlotID l) f"
  obtain p where p: "kget (sd_pools d) (sl_PoolID s) = Some (Json p)"
    using slotOkD(5) [OF s(2)] slot_invD(1) [OF Cons.prems(2)] by (metis option.exhaust)
  note eq = Cons.prems(1) [unfolded recoverLoop_Cons [OF s(1) u p]]
  have cf: "sl_AgentHandle s = [] \<or> confirmed f l"
  proof (rule ccontr)
    assume n: "\<not> (sl_AgentHandle s = [] \<or> confirmed f l)"
    from eq [unfolded if_not_P [OF n]] show False by simp
  qed
  note rest = eq [unfolded if_P [OF cf]]
  let ?e = "(deleteSlotLease (sk_SlotID l) d)\<lparr>sd_slots := kput (sk_SlotID l)
        (Json (s\<lparr>sl_Status := releasedStatus s p, sl_UpdatedAt := now\<rparr>)) (sd_slots d)\<rparr>"
  have inv: "slot_inv now ?e"
    by (rule changeStatus_inv [OF Cons.prems(2) s(1) Cons.prems(3) slotOkD(4) [OF s(2)] releasedStatus_cases(1)])
      (use releasedStatus_cases inUse_generation [OF s(2) u] in auto)
  have nin: "sk_SlotID l \<notin> sk_SlotID ` set ls" using Cons.prems(5) by simp
  have IH: "slot_inv now d' \<and> sd_core d' = sd_core ?e \<and>
     (\<forall>k. k \<notin> sk_SlotID ` set ls \<longrightarrow> kget (sd_slotLeases d') k = kget (sd_slotLeases ?e) k \<and> kget (sd_slots d') k = kget (sd_slots ?e) k) \<and>
     (\<forall>m \<in> set ls. kget (sd_slotLeases d') (sk_SlotID m) = None \<and>
        (\<forall>s. kget (sd_slots ?e) (sk_SlotID m) = Some (Json s) \<longrightarrow> sl_AgentHandle s = [] \<or> confirmed ?f m))"
    by (rule Cons.IH [OF rest inv Cons.prems(3)]) (use Cons.prems(4,5) nin in \<open>auto simp: image_iff\<close>)
  have other: "confirmed ?f m \<Longrightarrow> confirmed f m" for m by (auto simp: confirmed_def split: if_splits)
  show ?case
  proof (intro conjI ballI allI impI)
    fix m
    assume m: "m \<in> set (l # ls)"
    show "kget (sd_slotLeases d') (sk_SlotID m) = None"
      using m IH nin by (cases "m = l") auto
    fix t
    assume t: "kget (sd_slots d) (sk_SlotID m) = Some (Json t)"
    show "sl_AgentHandle t = [] \<or> confirmed f m"
    proof (cases "m = l")
      case False
      then have "m \<in> set ls" "sk_SlotID m \<noteq> sk_SlotID l" using m nin by (auto simp: image_iff)
      then have "kget (sd_slots ?e) (sk_SlotID m) = Some (Json t)" using t by simp
      with IH \<open>m \<in> set ls\<close> show ?thesis using other [of m] by blast
    qed (use cf t s(1) in auto)
  qed (use IH in auto)
qed simp

end
