(* ===== verification/SlotRuns.thy ===== *)
theory SlotRuns
  imports SlotLife
begin

text \<open>
  The operations on slots as a step relation beside the steps of the account store, with any
  outcome and any verdict of the engine. Every step keeps the invariants of both groups of tables,
  and no step hands a protected lease to another holder.
\<close>

section \<open>Steps of the store\<close>

text \<open>Who ends a lease, as far as a step can end one that is live or bound to an agent.\<close>

datatype slot_ender =
    EndsNothing
  | EndsHolder string string string
  | EndsQuarantine string
  | EndsRecovery

definition coreStep :: "SlotStore \<Rightarrow> SlotStore \<Rightarrow> bool" where
  "coreStep st st' \<longleftrightarrow> (\<exists>core. storeStep (sd_core (ss_db st)) core \<and> st' = st\<lparr>ss_db := (ss_db st)\<lparr>sd_core := core\<rparr>\<rparr>)"

text \<open>The slot tables' own operations act on the database only, unless they concern fences.\<close>

abbreviation dbStep :: "SlotStore \<Rightarrow> 'a \<times> sdb \<Rightarrow> SlotStore \<Rightarrow> bool" where
  "dbStep st res st' \<equiv> st' = st\<lparr>ss_db := snd res\<rparr>"

text \<open>\<open>UpsertSlot\<close> as the lifecycle reconciler uses it: a stored slot that is not in use gets a new target.\<close>

definition retargets :: "sdb \<Rightarrow> slot \<Rightarrow> bool" where
  "retargets d v \<longleftrightarrow> (\<exists>s. kget (sd_slots d) (sl_SlotID v) = Some (Json s) \<and> sl_PoolID v = sl_PoolID s \<and>
     sl_Ordinal v = sl_Ordinal s \<and> sl_CreatedAt v = sl_CreatedAt s \<and> \<not> inUse s \<and> \<not> inUse v)"

inductive slotStep :: "gotime \<Rightarrow> slot_ender \<Rightarrow> SlotStore \<Rightarrow> SlotStore \<Rightarrow> bool" where
  core: "coreStep st st' \<Longrightarrow> slotStep now EndsNothing st st'"
| reconcile: "plainPool p \<Longrightarrow> dbStep st (ReconcileJobPool c p now (ss_db st)) st' \<Longrightarrow> slotStep now EndsNothing st st'"
| reconcile_trusted: "plainPool p \<Longrightarrow> dbStep st (ReconcileTrustedJobPool c p now (ss_db st)) st' \<Longrightarrow> slotStep now EndsNothing st st'"
| upsert: "retargets (ss_db st) v \<Longrightarrow> dbStep st (UpsertSlot c v (ss_db st)) st' \<Longrightarrow> slotStep now EndsNothing st st'"
| summary: "dbStep st (PutEnvironmentSummary c es (ss_db st)) st' \<Longrightarrow> slotStep now EndsNothing st st'"
| put_record: "dbStep st (PutEnvironmentRecord c er (ss_db st)) st' \<Longrightarrow> slotStep now EndsNothing st st'"
| drop_record: "dbStep st (DeleteEnvironmentRecord c i v (ss_db st)) st' \<Longrightarrow> slotStep now EndsNothing st st'"
| mark_ready: "dbStep st (MarkSlotReady c k es now (ss_db st)) st' \<Longrightarrow> slotStep now EndsNothing st st'"
| set_status: "dbStep st (SetSlotStatus c k x now (ss_db st)) st' \<Longrightarrow> slotStep now EndsNothing st st'"
| acquire: "sq_now a = now \<Longrightarrow> dbStep st (Store_AcquireSlotLease c a r (ss_db st)) st' \<Longrightarrow> slotStep now EndsNothing st st'"
| heartbeat: "dbStep st (Store_HeartbeatSlotLease c k now i w ttl (ss_db st)) st' \<Longrightarrow> slotStep now EndsNothing st st'"
| release: "dbStep st (Store_ReleaseSlotLease c k i w (ss_db st)) st' \<Longrightarrow> slotStep now (EndsHolder k i w) st st'"
| quarantine: "(\<And>s. kget (sd_slots (ss_db st)) k = Some (Json s) \<Longrightarrow> sl_EnvironmentGeneration s \<noteq> 0) \<Longrightarrow>
    dbStep st (QuarantineSlot c k now r (ss_db st)) st' \<Longrightarrow> slotStep now (EndsQuarantine k) st st'"
| quarantine_lease: "dbStep st (QuarantineSlotLease c k i w now r (ss_db st)) st' \<Longrightarrow> slotStep now (EndsHolder k i w) st st'"
| recover: "RecoverExpiredSlotLeases c now st = (r, st') \<Longrightarrow> slotStep now EndsRecovery st st'"
| confirm: "ConfirmSlotLeaseStopped l st = (r, st') \<Longrightarrow> slotStep now EndsNothing st st'"
| claim: "ca_now x = now \<Longrightarrow> dbStep st (ClaimNextWithSlot c x m p r (ss_db st)) st' \<Longrightarrow> slotStep now EndsNothing st st'"

text \<open>Runs: the clock starts after the zero time and does not run backwards.\<close>

inductive slotRun :: "gotime \<Rightarrow> SlotStore \<Rightarrow> bool" where
  start: "0 < now \<Longrightarrow> slotRun now \<lparr>ss_db = emptySDB, ss_fenced = kempty\<rparr>"
| step: "slotRun t st \<Longrightarrow> t \<le> now \<Longrightarrow> slotStep now e st st' \<Longrightarrow> slotRun now st'"

inductive_cases slotStepE: "slotStep now e st st'"

definition world_inv :: "gotime \<Rightarrow> sdb \<Rightarrow> bool" where
  "world_inv now d \<longleftrightarrow> slot_inv now d \<and> store_inv (sd_core d)"

text \<open>The same holder: only the heartbeat and the expiry differ.\<close>

definition sameHolder :: "SlotLease \<Rightarrow> SlotLease \<Rightarrow> bool" where
  "sameHolder l l' \<longleftrightarrow> l' = l\<lparr>sk_LastHeartbeat := sk_LastHeartbeat l', sk_ExpiresAt := sk_ExpiresAt l'\<rparr>"

definition hasAgent :: "sdb \<Rightarrow> string \<Rightarrow> bool" where
  "hasAgent d k \<longleftrightarrow> (\<exists>s. kget (sd_slots d) k = Some (Json s) \<and> sl_AgentHandle s \<noteq> [])"

definition leaseKept :: "gotime \<Rightarrow> (string, SlotLease) kmap \<Rightarrow> slot_ender \<Rightarrow> sdb \<Rightarrow> sdb \<Rightarrow> bool" where
  "leaseKept now fenced e d d' \<longleftrightarrow> (\<forall>k l. kget (sd_slotLeases d) k = Some (Json l) \<longrightarrow> now < sk_ExpiresAt l \<or> hasAgent d k \<longrightarrow>
     (\<exists>l'. kget (sd_slotLeases d') k = Some (Json l') \<and> sameHolder l l') \<or>
     kget (sd_slotLeases d') k = None \<and> (e = EndsHolder k (sk_LeaseID l) (sk_Owner l) \<or>
       sk_ExpiresAt l \<le> now \<and> (e = EndsQuarantine k \<or> e = EndsRecovery \<and> (hasAgent d k \<longrightarrow> confirmed fenced l))))"

lemma sameHolder_refl [simp]: "sameHolder l l"
  by (simp add: sameHolder_def)

lemma leaseKept_same: "sd_slotLeases d' = sd_slotLeases d \<Longrightarrow> leaseKept now f e d d'"
  by (auto simp: leaseKept_def intro: sameHolder_refl)

lemma snd_update:
  "P d \<Longrightarrow> (\<And>x d'. fn d = Inr (x, d') \<Longrightarrow> P d') \<Longrightarrow> P (snd (update commit fn d))"
  by (auto simp: update_def split: sum.splits option.splits)

lemma scanned_kept: "scanned now d d' \<Longrightarrow> leaseKept now f e d d'"
  by (auto simp: scanned_def leaseKept_def freed_def hasAgent_def)
    (metis (no_types, lifting) json.inject not_le option.inject sameHolder_refl)+

lemma fresh_lease_kept:
  assumes "scanned now d d1" "kget (sd_slotLeases d1) k = None"
    and "\<And>j. j \<noteq> k \<Longrightarrow> kget (sd_slotLeases d') j = kget (sd_slotLeases d1) j"
  shows "leaseKept now f EndsNothing d d'"
proof -
  have "leaseKept now f EndsNothing d d1" by (rule scanned_kept [OF assms(1)])
  then show ?thesis using assms(2,3) unfolding leaseKept_def by (metis option.distinct(1) slot_ender.distinct)
qed

lemma leaseKept_del:
  assumes "sd_slotLeases d' = kdel k (sd_slotLeases d)"
    and "\<And>l. kget (sd_slotLeases d) k = Some (Json l) \<Longrightarrow>
       e = EndsHolder k (sk_LeaseID l) (sk_Owner l) \<or> sk_ExpiresAt l \<le> now \<and> e = EndsQuarantine k"
  shows "leaseKept now f e d d'"
  unfolding leaseKept_def
proof (intro allI impI)
  fix j l
  assume l: "kget (sd_slotLeases d) j = Some (Json l)"
  show "(\<exists>l'. kget (sd_slotLeases d') j = Some (Json l') \<and> sameHolder l l') \<or>
     kget (sd_slotLeases d') j = None \<and> (e = EndsHolder j (sk_LeaseID l) (sk_Owner l) \<or>
       sk_ExpiresAt l \<le> now \<and> (e = EndsQuarantine j \<or> e = EndsRecovery \<and> (hasAgent d j \<longrightarrow> confirmed f l)))"
    using assms l by (cases "j = k") auto
qed

lemma leaseKept_put:
  assumes "sd_slotLeases d' = kput k (Json l') (sd_slotLeases d)"
    and "\<And>l. kget (sd_slotLeases d) k = Some (Json l) \<Longrightarrow> sameHolder l l'"
  shows "leaseKept now f e d d'"
  unfolding leaseKept_def
proof (intro allI impI)
  fix j l
  assume "kget (sd_slotLeases d) j = Some (Json l)"
  then have "\<exists>m. kget (sd_slotLeases d') j = Some (Json m) \<and> sameHolder l m"
    using assms by (cases "j = k") auto
  then show "(\<exists>l'. kget (sd_slotLeases d') j = Some (Json l') \<and> sameHolder l l') \<or>
     kget (sd_slotLeases d') j = None \<and> (e = EndsHolder j (sk_LeaseID l) (sk_Owner l) \<or>
       sk_ExpiresAt l \<le> now \<and> (e = EndsQuarantine j \<or> e = EndsRecovery \<and> (hasAgent d j \<longrightarrow> confirmed f l)))" ..
qed

section \<open>Every step keeps the invariants and the leases\<close>

definition stepOk :: "gotime \<Rightarrow> (string, SlotLease) kmap \<Rightarrow> slot_ender \<Rightarrow> sdb \<Rightarrow> sdb \<Rightarrow> bool" where
  "stepOk now f e d d' \<longleftrightarrow> world_inv now d' \<and> leaseKept now f e d d'"

lemma stepOk_refl: "world_inv now d \<Longrightarrow> stepOk now f e d d"
  by (simp add: stepOk_def leaseKept_same)

lemma stepOk_same:
  "world_inv now d \<Longrightarrow> slot_inv now d' \<Longrightarrow> sd_core d' = sd_core d \<Longrightarrow> sd_slotLeases d' = sd_slotLeases d \<Longrightarrow> stepOk now f e d d'"
  by (simp add: stepOk_def world_inv_def leaseKept_same)

lemma stepOk_cong:
  "world_inv now d \<Longrightarrow> sd_core d' = sd_core d \<Longrightarrow> sd_pools d' = sd_pools d \<Longrightarrow> sd_slots d' = sd_slots d \<Longrightarrow>
     sd_slotLeases d' = sd_slotLeases d \<Longrightarrow> stepOk now f e d d'"
  using slot_inv_cong by (auto simp: stepOk_def world_inv_def leaseKept_same)

lemma stepOk_update:
  "world_inv now d \<Longrightarrow> (\<And>x d'. fn d = Inr (x, d') \<Longrightarrow> stepOk now f e d d') \<Longrightarrow> stepOk now f e d (snd (update c fn d))"
  by (rule snd_update) (simp_all add: stepOk_refl)

lemma plainPool_normal [simp]: "plainPool (PoolConfig_Normalized p) = plainPool p" "plainPool (p\<lparr>pc_UpdatedAt := t\<rparr>) = plainPool p"
  by (simp_all add: plainPool_def PoolConfig_Normalized_def)

lemma reconcileTx_leases: "reconcileTx p now d = Inr (u, d') \<Longrightarrow> sd_slotLeases d' = sd_slotLeases d"
  by (erule reconcileTx_ok) simp

lemma ReconcileJobPool_step:
  assumes "world_inv now d" "0 < now" "plainPool p"
  shows "stepOk now f e d (snd (ReconcileJobPool c p now d))"
proof -
  let ?p = "(PoolConfig_Normalized p)\<lparr>pc_UpdatedAt := now\<rparr>"
  show ?thesis
  proof (cases "PoolConfig_Validate ?p")
    case (Inr u)
    have "stepOk now f e d (snd (update c (reconcileTx ?p now) d))"
    proof (rule stepOk_update [OF assms(1)])
      fix x d'
      assume r: "reconcileTx ?p now d = Inr (x, d')"
      have "slot_inv now d' \<and> sd_core d' = sd_core d"
        by (rule reconcileTx_inv [OF r]) (use assms Inr in \<open>auto simp: world_inv_def\<close>)
      then show "stepOk now f e d d'" using assms(1) reconcileTx_leases [OF r] by (simp add: stepOk_same)
    qed
    then show ?thesis using Inr assms(2) by (simp add: ReconcileJobPool_def Let_def)
  qed (use assms in \<open>simp add: ReconcileJobPool_def Let_def stepOk_refl\<close>)
qed

lemma UpsertSlot_step:
  assumes w: "world_inv now d" and r: "retargets d v"
  shows "stepOk now f e d (snd (UpsertSlot c v d))"
proof (cases "Slot_Validate v")
  case (Inr u)
  from w have inv: "slot_inv now d" by (simp add: world_inv_def)
  from r obtain s where s: "kget (sd_slots d) (sl_SlotID v) = Some (Json s)" "sl_PoolID v = sl_PoolID s" "sl_Ordinal v = sl_Ordinal s"
      "sl_CreatedAt v = sl_CreatedAt s" "\<not> inUse s" "\<not> inUse v"
    by (auto simp: retargets_def)
  note ok = slot_inv_slot [OF inv s(1)]
  have "kget (sd_slotLeases d) (sl_SlotID v) = None" using lease_iff_inUse [OF inv s(1)] s(5) by simp
  then have "slotOk now (putSlot v d) (sl_SlotID v) v"
    using slotOkD [OF ok] Inr s by (simp add: slotOk_def leaseFits_def)
  then have "slot_inv now (putSlot v d)" by (intro slot_inv_update [OF inv]) simp_all
  then have "stepOk now f e d (putSlot v d)" by (intro stepOk_same [OF w]) simp_all
  then show ?thesis using Inr by (auto simp: UpsertSlot_def intro: stepOk_update [OF w])
qed (use w in \<open>simp add: UpsertSlot_def stepOk_refl\<close>)

lemma MarkSlotReady_step:
  assumes w: "world_inv now d" and now: "0 < now"
  shows "stepOk now f e d (snd (MarkSlotReady c k es now d))"
proof (cases "Summary_Validate es")
  case (Inr u)
  have "stepOk now f e d (snd (update c (markReadyTx k es now) d))"
  proof (rule stepOk_update [OF w])
    fix x d'
    assume "markReadyTx k es now d = Inr (x, d')"
    then have "slot_inv now d' \<and> sd_core d' = sd_core d \<and> sd_slotLeases d' = sd_slotLeases d"
      by (rule markReadyTx_inv) (use w now Inr in \<open>auto simp: world_inv_def\<close>)
    then show "stepOk now f e d d'" by (simp add: stepOk_same [OF w])
  qed
  then show ?thesis using Inr now by (simp add: MarkSlotReady_def)
qed (use w in \<open>auto simp: MarkSlotReady_def stepOk_refl\<close>)

lemma SetSlotStatus_step:
  assumes w: "world_inv now d" and now: "0 < now"
  shows "stepOk now f e d (snd (SetSlotStatus c k x now d))"
proof (cases "slot_status_Valid x")
  case True
  have "stepOk now f e d (snd (update c (setStatusTx k x now) d))"
  proof (rule stepOk_update [OF w])
    fix y d'
    assume "setStatusTx k x now d = Inr (y, d')"
    then have "slot_inv now d' \<and> sd_core d' = sd_core d \<and> sd_slotLeases d' = sd_slotLeases d"
      by (rule setStatusTx_inv) (use w now True in \<open>auto simp: world_inv_def\<close>)
    then show "stepOk now f e d d'" by (simp add: stepOk_same [OF w])
  qed
  then show ?thesis using True now by (simp add: SetSlotStatus_def)
qed (use w in \<open>simp add: SetSlotStatus_def stepOk_refl\<close>)

lemma acquire_step:
  assumes w: "world_inv (sq_now a) d" and now: "0 < sq_now a"
  shows "stepOk (sq_now a) f EndsNothing d (snd (Store_AcquireSlotLease c a r d))"
proof -
  have "stepOk (sq_now a) f EndsNothing d (snd (update c (acquireSlotTx a r) d))"
  proof (rule stepOk_update [OF w])
    fix x d'
    assume "acquireSlotTx a r d = Inr (x, d')"
    then obtain l s where ok: "acquireSlotTx a r d = Inr ((l, s), d')" by (cases x) simp
    have inv: "slot_inv (sq_now a) d" using w by (simp add: world_inv_def)
    note i' = acquireSlotTx_inv [OF ok inv now]
    from ok inv now show "stepOk (sq_now a) f EndsNothing d d'"
    proof (cases rule: acquireSlotTx_ok)
      case own
      then show ?thesis using w i' scanned_kept by (simp add: stepOk_def world_inv_def scanned_def)
    next
      case (fresh d1 t p r')
      have "leaseKept (sq_now a) f EndsNothing d d'"
        by (rule fresh_lease_kept [OF fresh(1,8)]) (simp add: fresh(11))
      moreover have "sd_core d' = sd_core d" using fresh(1,11) by (simp add: scanned_def)
      ultimately show ?thesis using w i' by (simp add: stepOk_def world_inv_def)
    qed
  qed
  then show ?thesis by (simp add: Store_AcquireSlotLease_def stepOk_refl [OF w])
qed

lemma heartbeat_step:
  assumes w: "world_inv now d" and now: "0 < now"
  shows "stepOk now f e d (snd (Store_HeartbeatSlotLease c k now i u ttl d))"
  unfolding Store_HeartbeatSlotLease_def
proof (rule stepOk_update [OF w])
  fix l' d'
  assume "heartbeatSlotTx k now i u ttl d = Inr (l', d')"
  then have h: "slot_inv now d' \<and> sd_core d' = sd_core d \<and>
     (\<exists>l. kget (sd_slotLeases d) k = Some (Json l) \<and> HeartbeatSlotLease l now i u ttl = Inr l' \<and>
       sd_slotLeases d' = kput k (Json l') (sd_slotLeases d))"
    by (rule heartbeatSlotTx_ok) (use w now in \<open>auto simp: world_inv_def\<close>)
  have "leaseKept now f e d d'"
    by (rule leaseKept_put [of _ k l']) (use h in \<open>auto simp: HeartbeatSlotLease_iff sameHolder_def\<close>)
  then show "stepOk now f e d d'" using w h by (simp add: stepOk_def world_inv_def)
qed

lemma release_step:
  assumes w: "world_inv now d"
  shows "stepOk now f (EndsHolder k i u) d (snd (Store_ReleaseSlotLease c k i u d))"
  unfolding Store_ReleaseSlotLease_def
proof (rule stepOk_update [OF w])
  fix x d'
  assume r: "releaseSlotTx k i u d = Inr (x, d')"
  have "slot_inv now d" using w by (simp add: world_inv_def)
  note ok = releaseSlotTx_ok [OF r this]
  have "leaseKept now f (EndsHolder k i u) d d'"
  proof (cases "kget (sd_slotLeases d) k")
    case None
    then have "d' = d" using ok by auto
    then show ?thesis by (simp add: leaseKept_same)
  next
    case (Some raw)
    then show ?thesis by (intro leaseKept_del [of _ k]) (use ok in auto)
  qed
  then show "stepOk now f (EndsHolder k i u) d d'" using w ok by (auto simp: stepOk_def world_inv_def)
qed

lemma quarantine_step:
  assumes w: "world_inv now d" and now: "0 < now"
    and g: "\<And>s. kget (sd_slots d) k = Some (Json s) \<Longrightarrow> sl_EnvironmentGeneration s \<noteq> 0"
  shows "stepOk now f (EndsQuarantine k) d (snd (QuarantineSlot c k now r d))"
proof -
  have "stepOk now f (EndsQuarantine k) d (snd (update c (quarantineTx k now) d))"
  proof (rule stepOk_update [OF w])
    fix x d'
    assume "quarantineTx k now d = Inr (x, d')"
    then show "stepOk now f (EndsQuarantine k) d d'"
    proof (rule quarantineTx_ok)
      fix s
      assume a: "kget (sd_slots d) k = Some (Json s)" "sd_slotLeases d' = kdel k (sd_slotLeases d)" "sd_core d' = sd_core d"
        "\<And>l. kget (sd_slotLeases d) k = Some (Json l) \<Longrightarrow> sk_ExpiresAt l \<le> now"
        "d' = (deleteSlotLease k d)\<lparr>sd_slots := kput k (Json (quarantinedSlot now s)) (sd_slots d)\<rparr>"
      have "slot_inv now d'" by (rule quarantined_ok [OF _ a(1) now g [OF a(1)] a(5)]) (use w in \<open>simp add: world_inv_def\<close>)
      moreover have "leaseKept now f (EndsQuarantine k) d d'" by (rule leaseKept_del [OF a(2)]) (use a(4) in auto)
      ultimately show ?thesis using w a(3) by (simp add: stepOk_def world_inv_def)
    qed
  qed
  then show ?thesis using w by (simp add: QuarantineSlot_def stepOk_refl)
qed

lemma quarantine_lease_step:
  assumes w: "world_inv now d" and now: "0 < now"
  shows "stepOk now f (EndsHolder k i u) d (snd (QuarantineSlotLease c k i u now r d))"
proof -
  have "stepOk now f (EndsHolder k i u) d (snd (update c (quarantineLeaseTx k i u now) d))"
  proof (rule stepOk_update [OF w])
    fix x d'
    assume "quarantineLeaseTx k i u now d = Inr (x, d')"
    then have q: "slot_inv now d' \<and> sd_core d' = sd_core d \<and> sd_slotLeases d' = kdel k (sd_slotLeases d) \<and>
       (\<exists>l. kget (sd_slotLeases d) k = Some (Json l) \<and> sk_LeaseID l = i \<and> sk_Owner l = u)"
      by (rule quarantineLeaseTx_ok) (use w now in \<open>auto simp: world_inv_def\<close>)
    have "leaseKept now f (EndsHolder k i u) d d'" by (rule leaseKept_del [of _ k]) (use q in auto)
    then show "stepOk now f (EndsHolder k i u) d d'" using w q by (simp add: stepOk_def world_inv_def)
  qed
  then show ?thesis using w by (simp add: QuarantineSlotLease_def stepOk_refl)
qed

lemma claim_step:
  assumes w: "world_inv (ca_now x) d" and now: "0 < ca_now x"
  shows "stepOk (ca_now x) f EndsNothing d (snd (ClaimNextWithSlot c x m p r d))"
proof (cases "TrimSpace (ca_leaseID x) \<noteq> [] \<and> TrimSpace (ca_owner x) \<noteq> []")
  case True
  have "stepOk (ca_now x) f EndsNothing d (snd (update c (claimSlotTx x m p r) d))"
  proof (rule stepOk_update [OF w])
    fix cl d'
    assume ok: "claimSlotTx x m p r d = Inr (cl, d')"
    have i: "slot_inv (ca_now x) d" "store_inv (sd_core d)" "TrimSpace (ca_leaseID x) \<noteq> []" "TrimSpace (ca_owner x) \<noteq> []"
      using w True by (simp_all add: world_inv_def)
    note i' = claimSlotTx_inv [OF ok i(1,2) now i(3,4)]
    have "leaseKept (ca_now x) f EndsNothing d d'"
      using ok i(1,2) now i(3,4)
    proof (cases rule: claimSlotTx_cases)
      case replay
      then show ?thesis by (simp add: leaseKept_same)
    next
      case (fresh d1 pool r' queued pre q post st s cur al n)
      show ?thesis
        by (rule fresh_lease_kept [OF fresh(8,15)]) (subst fresh(22), simp add: putSlotLease_def putSlot_def)
    qed
    then show "stepOk (ca_now x) f EndsNothing d d'" using i' by (simp add: stepOk_def world_inv_def)
  qed
  then show ?thesis by (simp add: ClaimNextWithSlot_def stepOk_refl [OF w])
qed (auto simp: ClaimNextWithSlot_def stepOk_refl [OF w])

lemma recover_step:
  assumes w: "world_inv now (ss_db st)" and now: "0 < now" and r: "RecoverExpiredSlotLeases c now st = (res, st')"
  shows "stepOk now (ss_fenced st) EndsRecovery (ss_db st) (ss_db st')"
proof -
  let ?d = "ss_db st"
  have inv: "slot_inv now ?d" using w by (simp add: world_inv_def)
  obtain ls where ls: "expiredSlotLeases now ?d = Inr ls" "distinct (map sk_SlotID ls)"
    "\<And>l. l \<in> set ls \<longleftrightarrow> kget (sd_slotLeases ?d) (sk_SlotID l) = Some (Json l) \<and> sk_ExpiresAt l \<le> now"
    using expiredSlotLeases_ok [OF inv] by metis
  obtain rd f' where loop: "recoverLoop now ls ?d (ss_fenced st) = (rd, f')" by (cases "recoverLoop now ls ?d (ss_fenced st)")
  show ?thesis
  proof (cases "ss_db st' = ?d")
    case True
    then show ?thesis using w by (simp add: stepOk_refl)
  next
    case False
    then have rd: "rd = Inr (ss_db st')"
      using r ls(1) loop now by (auto simp: RecoverExpiredSlotLeases_def split: sum.splits option.splits)
    note ok = recoverLoop_ok [OF loop [unfolded rd] inv now _ ls(2)]
    have ok: "slot_inv now (ss_db st') \<and> sd_core (ss_db st') = sd_core ?d \<and>
     (\<forall>k. k \<notin> sk_SlotID ` set ls \<longrightarrow> kget (sd_slotLeases (ss_db st')) k = kget (sd_slotLeases ?d) k \<and>
        kget (sd_slots (ss_db st')) k = kget (sd_slots ?d) k) \<and>
     (\<forall>l \<in> set ls. kget (sd_slotLeases (ss_db st')) (sk_SlotID l) = None \<and>
        (\<forall>s. kget (sd_slots ?d) (sk_SlotID l) = Some (Json s) \<longrightarrow> sl_AgentHandle s = [] \<or> confirmed (ss_fenced st) l))"
      by (rule ok) (simp add: ls(3))
    have "leaseKept now (ss_fenced st) EndsRecovery ?d (ss_db st')"
      unfolding leaseKept_def
    proof (intro allI impI)
      fix k l
      assume l: "kget (sd_slotLeases ?d) k = Some (Json l)"
      then have id: "sk_SlotID l = k" by (rule slot_inv_lease [OF inv]) simp
      show "(\<exists>l'. kget (sd_slotLeases (ss_db st')) k = Some (Json l') \<and> sameHolder l l') \<or>
        kget (sd_slotLeases (ss_db st')) k = None \<and> (EndsRecovery = EndsHolder k (sk_LeaseID l) (sk_Owner l) \<or>
          sk_ExpiresAt l \<le> now \<and> (EndsRecovery = EndsQuarantine k \<or> EndsRecovery = EndsRecovery \<and>
            (hasAgent ?d k \<longrightarrow> confirmed (ss_fenced st) l)))"
      proof (cases "l \<in> set ls")
        case True
        then show ?thesis using ok id ls(3) by (auto simp: hasAgent_def)
      next
        case False
        then have "k \<notin> sk_SlotID ` set ls" using ls(3) l id by force
        then show ?thesis using ok l by auto
      qed
    qed
    then show ?thesis using ok w by (simp add: stepOk_def world_inv_def)
  qed
qed

lemma core_step:
  assumes "world_inv now (ss_db st)" "coreStep st st'"
  shows "stepOk now f e (ss_db st) (ss_db st')"
  using assms storeStep_inv slot_inv_cong
  by (auto simp: coreStep_def stepOk_def world_inv_def leaseKept_same)

lemma small_steps:
  assumes "world_inv now d"
  shows "stepOk now f e d (snd (PutEnvironmentSummary c es d))" "stepOk now f e d (snd (PutEnvironmentRecord c er d))"
    "stepOk now f e d (snd (DeleteEnvironmentRecord c i v d))"
  unfolding PutEnvironmentSummary_def PutEnvironmentRecord_def DeleteEnvironmentRecord_def
  by (auto split: sum.splits simp: stepOk_refl [OF assms] intro!: stepOk_update [OF assms] stepOk_cong [OF assms])

lemma slotStep_ok:
  assumes "slotStep now e st st'" "world_inv now (ss_db st)" "0 < now"
  shows "stepOk now (ss_fenced st) e (ss_db st) (ss_db st')"
  using assms
proof (induction rule: slotStep.induct)
  case (reconcile_trusted p st c now st')
  then show ?case
    using ReconcileJobPool_step by (auto simp: ReconcileTrustedJobPool_def stepOk_refl split: sum.splits)
next
  case (confirm l st r st' now)
  then have "ss_db st' = ss_db st" by (auto simp: ConfirmSlotLeaseStopped_def split: sum.splits if_splits)
  with confirm show ?case by (simp add: stepOk_refl)
next
  case (acquire a now st c r st')
  then show ?case using acquire_step by auto
next
  case (claim x now st c m p r st')
  then show ?case using claim_step by auto
qed (simp_all add: core_step ReconcileJobPool_step UpsertSlot_step small_steps MarkSlotReady_step SetSlotStatus_step
  heartbeat_step release_step quarantine_step quarantine_lease_step recover_step)

lemma emptySDB_inv: "world_inv now emptySDB"
  by (simp add: world_inv_def emptySDB_def slot_inv_def emptyDB_inv)

lemma slotRun_inv: "slotRun now st \<Longrightarrow> world_inv now (ss_db st) \<and> 0 < now"
proof (induction rule: slotRun.induct)
  case (start now)
  then show ?case by (simp add: emptySDB_inv)
next
  case (step t st now e st')
  then have "world_inv now (ss_db st)" "0 < now" using slot_inv_mono by (auto simp: world_inv_def)
  with slotStep_ok [OF step.hyps(3)] show ?case by (simp add: stepOk_def)
qed

end
