(* ===== verification/SlotFacts.thy ===== *)
theory SlotFacts
  imports SlotRuns
begin

text \<open>
  Facts behind the properties of slots: the outcome of the joint claim, the slots that a pool has
  after a reconciliation, and the counters of a pool's status.
\<close>

section \<open>The joint claim\<close>

text \<open>What the account tables hold after a claimed candidate.\<close>

lemma claimed_facts:
  assumes inv: "store_inv d" and now: "0 < ca_now x" and fresh: "kget (db_events d) (ca_eventID x) = None"
    and queued: "queuedRequestsTx d = Inr qs" "q \<in> set qs"
    and al: "AcquireLease cur (ca_now x) (ca_leaseID x) (ca_owner x) (ca_ttl x) = Inr al"
    and cand: "claimCandidate x q s al d = Inr (cl, d')"
  shows "GetRequest (rq_RequestID q) d' = Inr (cl_Request cl)"
    and "cl_Request cl = q\<lparr>rq_State := Starting, rq_UpdatedAt := ca_now x, rq_NotBefore := 0, rq_Attempt := rq_Attempt q + 1\<rparr>"
    and "GetLease (rq_AccountID q) d' = Inr (Some (cl_Lease cl))" and "cl_Lease cl = al"
    and "\<exists>u. GetAccount (rq_AccountID q) d' = Inr u \<and> sn_Status u = Starting \<and> sn_RequestID u = rq_RequestID q"
    and "liveLeases (ca_now x) d' = insert (rq_AccountID q) (liveLeases (ca_now x) d)"
proof -
  have q: "kget (db_requests d) (rq_RequestID q) = Some (Json q)"
    using queuedRequestsTx_ok(2) [OF inv queued(1)] queued(2) by simp
  have inv': "store_inv d'" by (rule claimCandidate_inv [OF inv fresh cand AcquireLease_valid [OF al now]])
  have gr: "GetRequest i d' = Inr z \<longleftrightarrow> kget (db_requests d') i = Some (Json z)" for i z
    using requestFromTx_inv [OF store_invD(4) [OF inv']] by (simp add: GetRequest_def view_def)
  obtain d1 where e: "applyEventTx (claimEvent x q s) d = Inr (cl_Transition cl, d1)"
    and r: "cl_Request cl = q\<lparr>rq_State := Starting, rq_UpdatedAt := ca_now x, rq_NotBefore := 0, rq_Attempt := rq_Attempt q + 1\<rparr>"
    and l: "cl_Lease cl = al" and d': "d' = putLease (rq_AccountID q) al (putRequest (cl_Request cl) d1)"
    using inv fresh cand
  proof (rule claimCandidate_effect)
    fix d1 q'
    assume a: "applyEventTx (claimEvent x q s) d = Inr (cl_Transition cl, d1)" "kget (db_requests d) (rq_RequestID q) = Some (Json q')"
      "cl_Request cl = q'\<lparr>rq_State := Starting, rq_UpdatedAt := ca_now x, rq_NotBefore := 0, rq_Attempt := rq_Attempt q' + 1\<rparr>"
      "cl_Lease cl = al" "d' = putLease (rq_AccountID q) al (putRequest (cl_Request cl) d1)"
    have "q' = q" using a(2) q by simp
    with a that show thesis by blast
  qed
  show "cl_Request cl = q\<lparr>rq_State := Starting, rq_UpdatedAt := ca_now x, rq_NotBefore := 0, rq_Attempt := rq_Attempt q + 1\<rparr>" by (rule r)
  show "cl_Lease cl = al" by (rule l)
  have rid: "rq_RequestID (cl_Request cl) = rq_RequestID q" by (simp add: r)
  show req: "GetRequest (rq_RequestID q) d' = Inr (cl_Request cl)"
    unfolding gr by (simp add: d' putLease_def putRequest_def rid)
  obtain u where u: "GetAccount (rq_AccountID q) d' = Inr u" "sn_Status u = Starting" "sn_RequestID u = rq_RequestID q"
    using active_request_mirrors [OF inv' req] by (auto simp: r)
  then show "\<exists>u. GetAccount (rq_AccountID q) d' = Inr u \<and> sn_Status u = Starting \<and> sn_RequestID u = rq_RequestID q" by blast
  show "GetLease (rq_AccountID q) d' = Inr (Some (cl_Lease cl))"
    using leaseFromTx_Some [OF store_invD(8) [OF inv'], of "rq_AccountID q" al] u(1)
    by (simp add: GetLease_def GetAccount_def view_def l) (simp add: d' putLease_def)
  show "liveLeases (ca_now x) d' = insert (rq_AccountID q) (liveLeases (ca_now x) d)"
    unfolding d' using applyEventTx_refines(3) [OF e] al by (intro liveLeases_putLease) (simp_all add: AcquireLease_iff)
qed

lemma GetSlot_iff: "GetSlot k d = Inr s \<longleftrightarrow> kget (sd_slots d) k = Some (Json s)"
  by (simp add: GetSlot_def view_def getJSON_Inr)

lemma GetSlotLease_iff:
  assumes "slot_inv now d"
  shows "GetSlotLease k d = Inr (Some l) \<longleftrightarrow> kget (sd_slotLeases d) k = Some (Json l)"
proof (cases "kget (sd_slotLeases d) k")
  case (Some v)
  show ?thesis by (rule slot_inv_lease [OF assms Some]) (auto simp: GetSlotLease_def view_def Some)
qed (simp add: GetSlotLease_def view_def)

text \<open>The sequence of the joint claim: the account's part follows the queue, the slot's part the scan.\<close>

lemma ClaimNextWithSlot_fresh:
  assumes w: "world_inv (ca_now x) d" and now: "0 < ca_now x" and fresh: "kget (db_events (sd_core d)) (ca_eventID x) = None"
    and ok: "ClaimNextWithSlot c x m p r d = (Inr cl, d')"
  obtains q where "GetRequest (rq_RequestID q) (sd_core d') = Inr (cl_Request (sm_Claim cl))"
    "cl_Request (sm_Claim cl) = q\<lparr>rq_State := Starting, rq_UpdatedAt := ca_now x, rq_NotBefore := 0, rq_Attempt := rq_Attempt q + 1\<rparr>"
    "GetLease (rq_AccountID q) (sd_core d') = Inr (Some (cl_Lease (sm_Claim cl)))"
    "\<exists>u. GetAccount (rq_AccountID q) (sd_core d') = Inr u \<and> sn_Status u = Starting \<and> sn_RequestID u = rq_RequestID q"
    "ls_Owner (cl_Lease (sm_Claim cl)) = ca_owner x" "ls_ExpiresAt (cl_Lease (sm_Claim cl)) = Add (ca_now x) (ca_ttl x)"
    "rq_AccountID q \<notin> liveLeases (ca_now x) (sd_core d)"
    "liveLeases (ca_now x) (sd_core d') = insert (rq_AccountID q) (liveLeases (ca_now x) (sd_core d))"
    "int (card (liveLeases (ca_now x) (sd_core d))) < m"
    "\<And>u. GetRequest (rq_RequestID u) (sd_core d) = Inr u \<Longrightarrow> rq_State u = Queued \<Longrightarrow> dueAt (ca_now x) u \<Longrightarrow>
       rq_AccountID u \<notin> liveLeases (ca_now x) (sd_core d) \<Longrightarrow> queueOrder q \<le> queueOrder u"
    "kget (sd_slots d') (sl_SlotID (sm_Slot cl)) = Some (Json (sm_Slot cl))" "sl_Status (sm_Slot cl) = Leased" "sl_PoolID (sm_Slot cl) = p"
    "kget (sd_slotLeases d') (sl_SlotID (sm_Slot cl)) = Some (Json (sm_SlotLease cl))"
    "sk_RequestID (sm_SlotLease cl) = rq_RequestID q" "sk_AccountID (sm_SlotLease cl) = rq_AccountID q"
    "sk_Owner (sm_SlotLease cl) = ca_owner x" "sk_ExpiresAt (sm_SlotLease cl) = Add (ca_now x) (ca_ttl x)"
    "\<And>l. kget (sd_slotLeases d) (sl_SlotID (sm_Slot cl)) = Some (Json l) \<Longrightarrow>
       sk_ExpiresAt l \<le> ca_now x \<and> \<not> hasAgent d (sl_SlotID (sm_Slot cl))"
    "world_inv (ca_now x) d'"
proof -
  have inv: "slot_inv (ca_now x) d" and core: "store_inv (sd_core d)" using w by (simp_all add: world_inv_def)
  have ids: "TrimSpace (ca_leaseID x) \<noteq> []" "TrimSpace (ca_owner x) \<noteq> []" and tx: "claimSlotTx x m p r d = Inr (cl, d')"
    using ok by (auto simp: ClaimNextWithSlot_def update_Inr split: if_splits)
  note inv' = claimSlotTx_inv [OF tx inv core now ids]
  note I = store_invD [OF core]
  from tx inv core now ids show thesis
  proof (cases rule: claimSlotTx_cases)
    case replay
    then show thesis using fresh by (simp add: existingClaimTx_def)
  next
    case (fresh d1 pool r' queued pre q post st s cur al n)
    have qs: "q \<in> set queued" using fresh(9) by simp
    note cf = claimed_facts [OF core now fresh(1,7) qs fresh(18,20)]
    note qr = queuedRequestsTx_ok [OF core fresh(7)]
    have live: "leasedNow (sd_core d) (ca_now x) a \<longleftrightarrow> a \<in> liveLeases (ca_now x) (sd_core d)" for a
      by (auto simp: leasedNow_def liveLeases_def leaseFromTx_Some [OF I(8)])
    have nl: "rq_AccountID q \<notin> liveLeases (ca_now x) (sd_core d)"
      using fresh(17,18) unfolding live [symmetric] by (auto simp: leasedNow_def AcquireLease_iff)
    have fifo: "queueOrder q \<le> queueOrder u"
      if "GetRequest (rq_RequestID u) (sd_core d) = Inr u" "rq_State u = Queued" "dueAt (ca_now x) u"
        "rq_AccountID u \<notin> liveLeases (ca_now x) (sd_core d)" for u
    proof -
      have "u \<in> set queued"
        using that(1,2) qr(2) requestFromTx_inv [OF I(4)] by (simp add: GetRequest_def view_def)
      then have "u = q \<or> u \<in> set post" using fresh(9,11) that(3,4) live by auto
      moreover have "sorted (map queueOrder queued)" by (rule qr(1))
      ultimately show ?thesis unfolding fresh(9) by (auto simp: sorted_append)
    qed
    have n: "int (card (liveLeases (ca_now x) (sd_core d))) < m"
      using fresh(2,3) activeLeaseCountTx_ok [OF I(8)] by simp
    have sid: "sl_SlotID (sm_Slot cl) = sl_SlotID st" by (simp add: fresh(21))
    have k: "kget (sd_slots d') (sl_SlotID (sm_Slot cl)) = Some (Json (sm_Slot cl))"
      "kget (sd_slotLeases d') (sl_SlotID (sm_Slot cl)) = Some (Json (sm_SlotLease cl))"
      by (subst fresh(22), simp add: sid putSlotLease_def putSlot_def)+
    have free: "sk_ExpiresAt l \<le> ca_now x \<and> \<not> hasAgent d (sl_SlotID (sm_Slot cl))"
      if "kget (sd_slotLeases d) (sl_SlotID (sm_Slot cl)) = Some (Json l)" for l
      using fresh(8,15) that unfolding scanned_def freed_def sid hasAgent_def by (metis json.inject option.distinct(1) option.inject)
    show thesis
      by (rule that [OF cf(1,2,3,5) _ _ nl cf(6) n fifo k(1) _ _ k(2) _ _ _ _ free])
        (use fresh(13,18,19,21) cf(4) inv' in \<open>simp_all add: AcquireLease_iff AcquireSlotLease_iff world_inv_def\<close>)
  qed
qed

section \<open>The slots of a reconciled pool\<close>

lemma inj_names:
  assumes "slot_inv now d" "slotsForPoolTx d p = Inr xs" "s \<in> set xs" "u \<in> set xs" "sl_Ordinal s = sl_Ordinal u"
  shows "s = u"
proof -
  have "sl_SlotID s = sl_SlotID u"
    using slotsForPoolTx_slot(4) [OF assms(1,2,3)] slotsForPoolTx_slot(4) [OF assms(1,2,4)] assms(5) by simp
  then show ?thesis
    using slotsForPoolTx_slot(2) [OF assms(1,2,3)] slotsForPoolTx_slot(2) [OF assms(1,2,4)]
    by (metis json.inject option.inject)
qed

lemma byOrdinal_slot:
  assumes "slot_inv now d" "slotsForPoolTx d p = Inr xs" "s \<in> set xs"
  shows "byOrdinal xs (sl_Ordinal s) = Some s"
proof (cases "byOrdinal xs (sl_Ordinal s)")
  case None
  then show ?thesis using assms(3) by (auto simp: byOrdinal_None)
next
  case (Some u)
  then have "u = s" using byOrdinal_Some [OF Some] inj_names [OF assms(1,2)] assms(3) by blast
  with Some show ?thesis by simp
qed

lemma reconcile_lookup:
  assumes ok: "reconcileTx p now d = Inr (u, d')" and inv: "slot_inv now d" and now: "0 < now"
    and p: "PoolConfig_Validate p = Inr ()" "plainPool p"
  obtains xs where "slotsForPoolTx (putPool p d) (pc_PoolID p) = Inr xs"
    "set xs = {s. sl_PoolID s = pc_PoolID p \<and> (\<exists>k. kget (sd_slots d) k = Some (Json s))}"
    "\<And>s. s \<in> set xs \<Longrightarrow> sl_Ordinal s \<le> targetSlots p \<Longrightarrow> kget (sd_slots d') (sl_SlotID s) =
        Some (Json (case reconciled p now xs (sl_Ordinal s) of None \<Rightarrow> s | Some v \<Rightarrow> v))"
    "\<And>s. s \<in> set xs \<Longrightarrow> targetSlots p < sl_Ordinal s \<Longrightarrow> kget (sd_slots d') (sl_SlotID s) =
        Some (Json (case retired (targetSlots p) now (sd_slotLeases d) s of None \<Rightarrow> s | Some v \<Rightarrow> v))"
    "\<And>i. 1 \<le> i \<Longrightarrow> i \<le> targetSlots p \<Longrightarrow> byOrdinal xs i = None \<Longrightarrow>
        kget (sd_slots d') (slotName (pc_PoolID p) i) = Some (Json (newSlot p now i))"
    "\<And>k. (\<And>s. s \<in> set xs \<Longrightarrow> k \<noteq> sl_SlotID s) \<Longrightarrow> (\<And>i. 1 \<le> i \<Longrightarrow> i \<le> targetSlots p \<Longrightarrow> k \<noteq> slotName (pc_PoolID p) i) \<Longrightarrow>
        kget (sd_slots d') k = kget (sd_slots d) k"
    "sd_pools d' = sd_pools (putPool p d)" "sd_slotLeases d' = sd_slotLeases d"
  using ok
proof (rule reconcileTx_ok)
  fix xs
  let ?d1 = "putPool p d"
  let ?t = "targetSlots p"
  let ?d2 = "fold (\<lambda>i. putOpt (reconciled p now xs i)) [1..?t] ?d1"
  assume xs: "slotsForPoolTx ?d1 (pc_PoolID p) = Inr xs"
    and d': "d' = fold (\<lambda>s. putOpt (retired ?t now (sd_slotLeases d) s)) xs ?d2"
  have inv1: "slot_inv now ?d1" by (rule putPool_inv [OF inv p(1)])
  note sl = slotsForPoolTx_slot [OF inv1 xs]
  have rec: "sl_SlotID s = slotName (pc_PoolID p) i" if "1 \<le> i" "i \<le> ?t" "reconciled p now xs i = Some s" for i s
    using reconciled_ok [OF inv1 now p _ xs that(1) _ that(3)] that(2) targetSlots_bounds [OF p(1)] by auto
  have ret: "sl_SlotID v = sl_SlotID s \<and> sl_Ordinal s > ?t" if "s \<in> set xs" "retired ?t now (sd_slotLeases d) s = Some v" for s v
    using that(2) by (auto simp: retired_def split: if_splits)
  have injn: "i = j" if "slotName (pc_PoolID p) i = slotName (pc_PoolID p) j" "1 \<le> i" "1 \<le> j" for i j
    using slotName_inj [OF that(1)] that(2,3) by simp
  have hit2: "kget (sd_slots ?d2) (sl_SlotID s) = Some (Json s)" if "1 \<le> i" "i \<le> ?t" "reconciled p now xs i = Some s" for i s
  proof (rule fold_putOpt_hit [of _ _ i])
    fix a b m n
    assume a: "a \<in> set [1..?t]" "b \<in> set [1..?t]" "reconciled p now xs a = Some m" "reconciled p now xs b = Some n" "sl_SlotID m = sl_SlotID n"
    then have "slotName (pc_PoolID p) a = slotName (pc_PoolID p) b" using rec [of a m] rec [of b n] by simp
    then have "a = b" using a(1,2) by (intro injn) simp_all
    with a(3,4) show "m = n" by simp
  qed (use that in simp_all)
  have miss2: "kget (sd_slots ?d2) k = kget (sd_slots d) k"
    if "\<And>i s. 1 \<le> i \<Longrightarrow> i \<le> ?t \<Longrightarrow> reconciled p now xs i = Some s \<Longrightarrow> k \<noteq> slotName (pc_PoolID p) i" for k
    by (subst fold_putOpt_miss) (use that rec in auto)
  have hit3: "kget (sd_slots d') (sl_SlotID v) = Some (Json v)" if "s \<in> set xs" "retired ?t now (sd_slotLeases d) s = Some v" for s v
    unfolding d'
  proof (rule fold_putOpt_hit [of xs "retired ?t now (sd_slotLeases d)" s v, OF _ that])
    fix a b m n
    assume a: "a \<in> set xs" "b \<in> set xs" "retired ?t now (sd_slotLeases d) a = Some m" "retired ?t now (sd_slotLeases d) b = Some n"
      "sl_SlotID m = sl_SlotID n"
    then have "sl_SlotID a = sl_SlotID b" using ret by metis
    then have "a = b" using sl(2) [OF a(1)] sl(2) [OF a(2)] by simp
    with a show "m = n" by simp
  qed
  have miss3: "kget (sd_slots d') k = kget (sd_slots ?d2) k"
    if "\<And>s. s \<in> set xs \<Longrightarrow> ?t < sl_Ordinal s \<Longrightarrow> k \<noteq> sl_SlotID s" for k
    unfolding d' by (rule fold_putOpt_miss) (use that ret in metis)
  have low: "kget (sd_slots d') (slotName (pc_PoolID p) i) = kget (sd_slots ?d2) (slotName (pc_PoolID p) i)" if "1 \<le> i" "i \<le> ?t" for i
    using sl(4,5) injn that by (intro miss3) force
  show thesis
  proof (rule that [OF xs])
    show "set xs = {s. sl_PoolID s = pc_PoolID p \<and> (\<exists>k. kget (sd_slots d) k = Some (Json s))}"
      using slotsForPoolTx_ok(1) [OF inv1 xs] by simp
  next
    fix s
    assume s: "s \<in> set xs" "sl_Ordinal s \<le> ?t"
    show "kget (sd_slots d') (sl_SlotID s) = Some (Json (case reconciled p now xs (sl_Ordinal s) of None \<Rightarrow> s | Some v \<Rightarrow> v))"
    proof (cases "reconciled p now xs (sl_Ordinal s)")
      case None
      then have "kget (sd_slots ?d2) (sl_SlotID s) = kget (sd_slots d) (sl_SlotID s)"
        using sl(4,5) [OF s(1)] injn by (intro miss2) (metis option.distinct(1))
      then show ?thesis using None low [OF sl(5) [OF s(1)] s(2)] sl(2,4) [OF s(1)] by simp
    next
      case (Some v)
      then show ?thesis
        using hit2 [OF sl(5) [OF s(1)] s(2)] low [OF sl(5) [OF s(1)] s(2)] sl(4) [OF s(1)] rec [OF sl(5) [OF s(1)] s(2)] by auto
    qed
  next
    fix s
    assume s: "s \<in> set xs" "?t < sl_Ordinal s"
    show "kget (sd_slots d') (sl_SlotID s) = Some (Json (case retired ?t now (sd_slotLeases d) s of None \<Rightarrow> s | Some v \<Rightarrow> v))"
    proof (cases "retired ?t now (sd_slotLeases d) s")
      case None
      have "kget (sd_slots d') (sl_SlotID s) = kget (sd_slots ?d2) (sl_SlotID s)"
        unfolding d'
      proof (rule fold_putOpt_miss)
        fix a v
        assume a: "a \<in> set xs" "retired ?t now (sd_slotLeases d) a = Some v"
        then have "a \<noteq> s" using None by auto
        then show "sl_SlotID v \<noteq> sl_SlotID s" using ret [OF a] sl(2) [OF a(1)] sl(2) [OF s(1)] by auto
      qed
      also have "\<dots> = kget (sd_slots d) (sl_SlotID s)"
        using sl(4,5) [OF s(1)] s(2) injn by (intro miss2) (metis not_le)
      finally show ?thesis using None sl(2) [OF s(1)] by simp
    next
      case (Some v)
      then show ?thesis using hit3 [OF s(1) Some] ret [OF s(1) Some] by simp
    qed
  next
    fix i
    assume i: "1 \<le> i" "i \<le> ?t" "byOrdinal xs i = None"
    then have "reconciled p now xs i = Some (newSlot p now i)" by (simp add: reconciled_def)
    then show "kget (sd_slots d') (slotName (pc_PoolID p) i) = Some (Json (newSlot p now i))"
      using hit2 [OF i(1,2)] low [OF i(1,2)] by (simp add: newSlot_def)
  next
    fix k
    assume k: "\<And>s. s \<in> set xs \<Longrightarrow> k \<noteq> sl_SlotID s" "\<And>i. 1 \<le> i \<Longrightarrow> i \<le> ?t \<Longrightarrow> k \<noteq> slotName (pc_PoolID p) i"
    have "kget (sd_slots d') k = kget (sd_slots ?d2) k" using k(1) by (intro miss3) blast
    also have "\<dots> = kget (sd_slots d) k" using k(2) by (intro miss2) blast
    finally show "kget (sd_slots d') k = kget (sd_slots d) k" .
  next
    show "sd_pools d' = sd_pools (putPool p d)" "sd_slotLeases d' = sd_slotLeases d" by (simp_all add: d')
  qed
qed

section \<open>Counting slots\<close>

definition counters :: "StatusCounts \<Rightarrow> int" where
  "counters r = sc_Ready r + sc_Leased r + sc_Quarantined r + sc_Draining r + sc_Provisioning r + sc_Retiring r +
     sc_Unprovisioned r + sc_Stopped r"

definition countsReady :: "PoolConfig \<Rightarrow> slot \<Rightarrow> bool" where
  "countsReady config s \<longleftrightarrow> sl_Status s = Ready \<and> sl_SessionDesiredState s \<noteq> ''stopped'' \<and> slotMatchesPoolTarget s config \<and> sl_Trusted s"

lemma count_total:
  assumes "\<And>s. s \<in> set xs \<Longrightarrow> slot_status_Valid (sl_Status s)"
  shows "counters (fold (countSlot b config) xs r) = counters r + int (length (filter (\<lambda>s. sl_Status s \<noteq> Deleted) xs))"
  using assms
proof (induction xs arbitrary: r)
  case (Cons s xs)
  have "slot_status_Valid (sl_Status s)" using Cons.prems by simp
  then have "counters (countSlot b config s r) = counters r + (if sl_Status s \<noteq> Deleted then 1 else 0)"
    by (cases "sl_Status s") (simp_all add: countSlot_def counters_def)
  with Cons show ?case by simp
qed simp

lemma count_ready:
  "sc_Ready (fold (countSlot b config) xs r) = sc_Ready r + (if b then int (length (filter (countsReady config) xs)) else 0)"
proof (induction xs arbitrary: r)
  case (Cons s xs)
  have "sc_Ready (countSlot b config s r) = sc_Ready r + (if b \<and> countsReady config s then 1 else 0)"
    by (cases "sl_Status s") (simp_all add: countSlot_def countsReady_def)
  with Cons show ?case by simp
qed simp

text \<open>The slots of a pool are as many as their names.\<close>

lemma card_pool_slots:
  assumes inv: "slot_inv now d" and xs: "slotsForPoolTx d p = Inr xs"
  shows "length (filter P xs) = card {k. \<exists>s. GetSlot k d = Inr s \<and> sl_PoolID s = p \<and> P s}"
proof -
  have "distinct (map sl_SlotID (filter P xs))" by (rule distinct_map_filter [OF slotsForPoolTx_ok(2) [OF inv xs]])
  then have "length (filter P xs) = card (sl_SlotID ` set (filter P xs))"
    by (metis distinct_card length_map list.set_map)
  also have "sl_SlotID ` set (filter P xs) = {k. \<exists>s. GetSlot k d = Inr s \<and> sl_PoolID s = p \<and> P s}"
    using slotsForPoolTx_slot(1,2) [OF inv xs] slotsForPoolTx_ok(1) [OF inv xs] stored_id [OF inv]
    by (fastforce simp: GetSlot_iff)
  finally show ?thesis .
qed

lemma status_facts:
  assumes inv: "slot_inv now d" and ok: "SlotPoolStatus p t d = Inr r"
  obtains config b where "GetJobPool p d = Inr config" "environmentReadyFor config d = Inr b"
    "counters r = int (card {k. \<exists>s. GetSlot k d = Inr s \<and> sl_PoolID s = p \<and> sl_Status s \<noteq> Deleted})"
    "sc_Ready r = (if b then int (card {k. \<exists>s. GetSlot k d = Inr s \<and> sl_PoolID s = p \<and> countsReady config s}) else 0)"
proof -
  from ok obtain config xs b where c: "GetJobPool p d = Inr config" "environmentReadyFor config d = Inr b"
    and xs: "slotsForPoolTx d p = Inr xs"
    and r: "r = fold (countSlot b config) xs
          \<lparr>sc_PoolID = p, sc_EnvironmentID = pc_EnvironmentID config,
           sc_EnvironmentVersion = pc_EnvironmentVersion config, sc_Desired = pc_DesiredSlots config,
           sc_Ready = 0, sc_Leased = 0, sc_Quarantined = 0, sc_Draining = 0, sc_Provisioning = 0,
           sc_Retiring = 0, sc_Unprovisioned = 0, sc_Stopped = 0\<rparr>"
    by (auto simp: SlotPoolStatus_def ListSlots_def view_def)
  have "slot_status_Valid (sl_Status s)" if "s \<in> set xs" for s
    using slotOkD(3) [OF slotsForPoolTx_slot(3) [OF inv xs that]] by (simp add: Slot_Validate_iff)
  then have "counters r = int (length (filter (\<lambda>s. sl_Status s \<noteq> Deleted) xs))"
    unfolding r by (subst count_total) (simp_all add: counters_def)
  moreover have "sc_Ready r = (if b then int (length (filter (countsReady config) xs)) else 0)"
    unfolding r count_ready by simp
  ultimately show thesis by (intro that [OF c]) (simp_all only: card_pool_slots [OF inv xs])
qed

end
