(* ===== verification/SlotTarget.thy ===== *)
theory SlotTarget
  imports SlotFacts
begin

text \<open>
  Reference definitions for two operations of internal/store/slots.go: what a reconciliation makes
  of every slot of the pool, name by name, and what a recovery of expired leases drops.
\<close>

section \<open>Reconciled slots\<close>

text \<open>The configuration that a reconciliation stores.\<close>

definition storedPool :: "PoolConfig \<Rightarrow> gotime \<Rightarrow> PoolConfig" where
  "storedPool p now = (PoolConfig_Normalized p)\<lparr>pc_UpdatedAt := now\<rparr>"

text \<open>What a reconciliation makes of a slot of the pool.\<close>

definition settled :: "PoolConfig \<Rightarrow> gotime \<Rightarrow> slot \<Rightarrow> slot" where
  "settled p now s =
     (if sl_Status s = Deleted \<or> sl_Status s = Quarantined then s
      else if targetSlots p < sl_Ordinal s then s\<lparr>sl_Status := (if inUse s then Draining else Retiring), sl_UpdatedAt := now\<rparr>
      else if targetChanged s p then s\<lparr>sl_Status := (if inUse s then Draining else Provisioning), sl_UpdatedAt := now\<rparr>
      else if sl_Status s = Retiring
      then s\<lparr>sl_Status := (if sl_EnvironmentGeneration s = 0 then Unprovisioned else Ready), sl_UpdatedAt := now\<rparr>
      else s)"

lemma settled_reconciled:
  assumes "byOrdinal xs (sl_Ordinal s) = Some s" "sl_Ordinal s \<le> targetSlots p"
  shows "(case reconciled p now xs (sl_Ordinal s) of None \<Rightarrow> s | Some v \<Rightarrow> v) = settled p now s"
  using assms by (simp add: reconciled_def settled_def)

lemma settled_retired:
  assumes "inUse s \<longleftrightarrow> kget leases (sl_SlotID s) \<noteq> None" "targetSlots p < sl_Ordinal s"
  shows "(case retired (targetSlots p) now leases s of None \<Rightarrow> s | Some v \<Rightarrow> v) = settled p now s"
  using assms by (auto simp: retired_def settled_def)

text \<open>The tables after a reconciliation, name by name.\<close>

lemma reconcile_pointwise:
  assumes ok: "reconcileTx p now d = Inr (u, d')" and inv: "slot_inv now d" and now: "0 < now"
    and p: "PoolConfig_Validate p = Inr ()" "plainPool p"
  shows "sd_pools d' = sd_pools (putPool p d)" "sd_slotLeases d' = sd_slotLeases d"
    and "kget (sd_slots d) k = Some (Json s) \<Longrightarrow>
      kget (sd_slots d') k = Some (Json (if sl_PoolID s = pc_PoolID p then settled p now s else s))"
    and "kget (sd_slots d) (slotName (pc_PoolID p) i) = None \<Longrightarrow> 1 \<le> i \<Longrightarrow> i \<le> targetSlots p \<Longrightarrow>
      kget (sd_slots d') (slotName (pc_PoolID p) i) = Some (Json (newSlot p now i))"
    and "kget (sd_slots d) k = None \<Longrightarrow> (\<And>i. 1 \<le> i \<Longrightarrow> i \<le> targetSlots p \<Longrightarrow> k \<noteq> slotName (pc_PoolID p) i) \<Longrightarrow>
      kget (sd_slots d') k = None"
proof -
  obtain xs where xs: "slotsForPoolTx (putPool p d) (pc_PoolID p) = Inr xs"
    and set: "set xs = {s. sl_PoolID s = pc_PoolID p \<and> (\<exists>k. kget (sd_slots d) k = Some (Json s))}"
    and low: "\<And>s. s \<in> set xs \<Longrightarrow> sl_Ordinal s \<le> targetSlots p \<Longrightarrow> kget (sd_slots d') (sl_SlotID s) =
        Some (Json (case reconciled p now xs (sl_Ordinal s) of None \<Rightarrow> s | Some v \<Rightarrow> v))"
    and high: "\<And>s. s \<in> set xs \<Longrightarrow> targetSlots p < sl_Ordinal s \<Longrightarrow> kget (sd_slots d') (sl_SlotID s) =
        Some (Json (case retired (targetSlots p) now (sd_slotLeases d) s of None \<Rightarrow> s | Some v \<Rightarrow> v))"
    and new: "\<And>i. 1 \<le> i \<Longrightarrow> i \<le> targetSlots p \<Longrightarrow> byOrdinal xs i = None \<Longrightarrow>
        kget (sd_slots d') (slotName (pc_PoolID p) i) = Some (Json (newSlot p now i))"
    and miss: "\<And>k. (\<And>s. s \<in> set xs \<Longrightarrow> k \<noteq> sl_SlotID s) \<Longrightarrow> (\<And>i. 1 \<le> i \<Longrightarrow> i \<le> targetSlots p \<Longrightarrow> k \<noteq> slotName (pc_PoolID p) i) \<Longrightarrow>
        kget (sd_slots d') k = kget (sd_slots d) k"
    and rest: "sd_pools d' = sd_pools (putPool p d)" "sd_slotLeases d' = sd_slotLeases d"
    using reconcile_lookup [OF ok inv now p] by blast
  show "sd_pools d' = sd_pools (putPool p d)" "sd_slotLeases d' = sd_slotLeases d" by (rule rest)+
  have inv1: "slot_inv now (putPool p d)" by (rule putPool_inv [OF inv p(1)])
  note sl = slotsForPoolTx_slot [OF inv1 xs]
  have own: "sl_SlotID s = k" "k = slotName (sl_PoolID s) (sl_Ordinal s)" "1 \<le> sl_Ordinal s"
    if "kget (sd_slots d) k = Some (Json s)" for k s
    using slotOkD [OF slot_inv_slot [OF inv that]] by (simp_all add: Slot_Validate_iff slotBody_def)
  show "kget (sd_slots d') k = Some (Json (if sl_PoolID s = pc_PoolID p then settled p now s else s))"
    if s: "kget (sd_slots d) k = Some (Json s)"
  proof (cases "sl_PoolID s = pc_PoolID p")
    case True
    then have mem: "s \<in> set xs" using s set by blast
    show ?thesis
    proof (cases "sl_Ordinal s \<le> targetSlots p")
      case le: True
      show ?thesis using low [OF mem le] own(1) [OF s] True settled_reconciled [OF byOrdinal_slot [OF inv1 xs mem] le] by simp
    next
      case False
      moreover have "inUse s \<longleftrightarrow> kget (sd_slotLeases d) (sl_SlotID s) \<noteq> None"
        using lease_iff_inUse [OF inv s] own(1) [OF s] by simp
      ultimately show ?thesis using high [OF mem] own(1) [OF s] True settled_retired [of s "sd_slotLeases d" p now] by simp
    qed
  next
    case False
    have "kget (sd_slots d') k = kget (sd_slots d) k"
    proof (rule miss)
      show "k \<noteq> sl_SlotID v" if "v \<in> set xs" for v using sl(1,2) [OF that] s False by auto
      show "k \<noteq> slotName (pc_PoolID p) i" if "1 \<le> i" for i 
        using slotName_inj [of "sl_PoolID s" "sl_Ordinal s" "pc_PoolID p" i] own(2,3) [OF s] that False by auto
    qed
    with s False show ?thesis by simp
  qed
  show "kget (sd_slots d') (slotName (pc_PoolID p) i) = Some (Json (newSlot p now i))"
    if i: "kget (sd_slots d) (slotName (pc_PoolID p) i) = None" "1 \<le> i" "i \<le> targetSlots p"
  proof (rule new [OF i(2,3)])
    show "byOrdinal xs i = None"
    proof (cases "byOrdinal xs i")
      case (Some s)
      then show ?thesis using byOrdinal_Some [OF Some] sl(2,4) [of s] i(1) by auto
    qed
  qed
  show "kget (sd_slots d') k = None"
    if k: "kget (sd_slots d) k = None" "\<And>i. 1 \<le> i \<Longrightarrow> i \<le> targetSlots p \<Longrightarrow> k \<noteq> slotName (pc_PoolID p) i"
    using miss [of k] k sl(2) by fastforce
qed

lemma settled_sel [simp]:
  "sl_SlotID (settled p now s) = sl_SlotID s" "sl_PoolID (settled p now s) = sl_PoolID s" "sl_Ordinal (settled p now s) = sl_Ordinal s"
  "targetChanged (settled p now s) q = targetChanged s q"
  by (simp_all add: settled_def targetChanged_def)

lemma settled_changes:
  "settled p now s = s\<lparr>sl_Status := sl_Status (settled p now s), sl_UpdatedAt := sl_UpdatedAt (settled p now s)\<rparr>"
  by (simp add: settled_def)

lemma settled_status:
  "inUse (settled p now s) = inUse s"
  "sl_Status s = Deleted \<or> sl_Status s = Quarantined \<Longrightarrow> settled p now s = s"
  "targetSlots p < sl_Ordinal s \<Longrightarrow> sl_Status (settled p now s) \<in> {Draining, Retiring, Quarantined, Deleted}"
  "sl_Ordinal s \<le> targetSlots p \<Longrightarrow> sl_Status (settled p now s) \<noteq> Retiring"
  "sl_Ordinal s \<le> targetSlots p \<Longrightarrow> targetChanged s p \<Longrightarrow> sl_Status (settled p now s) \<in> {Provisioning, Draining, Quarantined, Deleted}"
  by (auto simp: settled_def inUse_def)

lemma newSlot_target [simp]: "\<not> targetChanged (newSlot p now i) p"
  by (simp add: targetChanged_def newSlot_def capabilitiesEqual_def containsCapabilities_def list_all_iff)

lemma newSlot_sel [simp]:
  "sl_PoolID (newSlot p now i) = pc_PoolID p" "sl_Ordinal (newSlot p now i) = i" "sl_Status (newSlot p now i) = Unprovisioned"
  by (simp_all add: newSlot_def)

text \<open>A name determines the pool and the ordinal of the slot stored under it.\<close>

lemma slot_at_name:
  assumes inv: "slot_inv now d" and raw: "kget (sd_slots d) (slotName p i) = Some v" and i: "1 \<le> i"
  obtains s where "v = Json s" "sl_PoolID s = p" "sl_Ordinal s = i"
proof -
  obtain s where s: "v = Json s" "slotOk now d (slotName p i) s" using slot_invD(2) [OF inv raw] by blast
  then have "slotName (sl_PoolID s) (sl_Ordinal s) = slotName p i" "1 \<le> sl_Ordinal s"
    using slotOkD [OF s(2)] by (simp_all add: Slot_Validate_iff slotBody_def)
  then have "sl_PoolID s = p" "sl_Ordinal s = i" using slotName_inj [of "sl_PoolID s" "sl_Ordinal s" p i] i by auto
  with s that show thesis by blast
qed

section \<open>Recovered leases\<close>

text \<open>The loop of a recovery succeeds exactly when every slot with an agent has its confirmation.\<close>

lemma recoverLoop_outcome:
  assumes "slot_inv now d" "0 < now" "\<And>l. l \<in> set ls \<Longrightarrow> kget (sd_slotLeases d) (sk_SlotID l) = Some (Json l)"
    and "distinct (map sk_SlotID ls)"
  shows "if \<forall>l \<in> set ls. hasAgent d (sk_SlotID l) \<longrightarrow> confirmed f l then \<exists>d' f'. recoverLoop now ls d f = (Inr d', f')
     else \<exists>f'. recoverLoop now ls d f = (Inl (StoreErr ErrSlotLeaseFenceRequired), f')"
  using assms
proof (induction ls arbitrary: d f)
  case (Cons l ls)
  have raw: "kget (sd_slotLeases d) (sk_SlotID l) = Some (Json l)" using Cons.prems(3) by simp
  obtain s where u: "inUse s" and s: "kget (sd_slots d) (sk_SlotID l) = Some (Json s)" "slotOk now d (sk_SlotID l) s"
    by (rule slot_inv_lease [OF Cons.prems(1) raw]) (rule that; assumption)
  obtain p where p: "kget (sd_pools d) (sl_PoolID s) = Some (Json p)"
    using slotOkD(5) [OF s(2)] slot_invD(1) [OF Cons.prems(1)] by (metis option.exhaust)
  have ag: "hasAgent d (sk_SlotID l) \<longleftrightarrow> sl_AgentHandle s \<noteq> []" using s(1) by (simp add: hasAgent_def)
  show ?case
  proof (cases "sl_AgentHandle s = [] \<or> confirmed f l")
    case False
    then show ?thesis unfolding recoverLoop_Cons [OF s(1) u p] if_not_P [OF False] using ag by auto
  next
    case cf: True
    let ?f = "if sl_AgentHandle s = [] then f else kdel (sk_SlotID l) f"
    let ?e = "(deleteSlotLease (sk_SlotID l) d)\<lparr>sd_slots := kput (sk_SlotID l)
        (Json (s\<lparr>sl_Status := releasedStatus s p, sl_UpdatedAt := now\<rparr>)) (sd_slots d)\<rparr>"
    have inv: "slot_inv now ?e"
      by (rule changeStatus_inv [OF Cons.prems(1) s(1) Cons.prems(2) slotOkD(4) [OF s(2)] releasedStatus_cases(1)])
        (use releasedStatus_cases inUse_generation [OF s(2) u] in auto)
    have nin: "sk_SlotID m \<noteq> sk_SlotID l" if "m \<in> set ls" for m
      using Cons.prems(4) that by (metis distinct.simps(2) image_eqI list.set_map list.simps(9))
    have same: "hasAgent ?e (sk_SlotID m) = hasAgent d (sk_SlotID m)" "confirmed ?f m = confirmed f m" if "m \<in> set ls" for m
      using nin [OF that] by (simp_all add: hasAgent_def confirmed_def)
    have "if \<forall>m \<in> set ls. hasAgent ?e (sk_SlotID m) \<longrightarrow> confirmed ?f m then \<exists>d' f'. recoverLoop now ls ?e ?f = (Inr d', f')
       else \<exists>f'. recoverLoop now ls ?e ?f = (Inl (StoreErr ErrSlotLeaseFenceRequired), f')"
      by (rule Cons.IH [OF inv Cons.prems(2)]) (use Cons.prems(3,4) nin in auto)
    moreover have "(\<forall>m \<in> set ls. hasAgent ?e (sk_SlotID m) \<longrightarrow> confirmed ?f m) \<longleftrightarrow>
        (\<forall>m \<in> set (l # ls). hasAgent d (sk_SlotID m) \<longrightarrow> confirmed f m)"
      using same cf ag by auto
    ultimately show ?thesis unfolding recoverLoop_Cons [OF s(1) u p] if_P [OF cf] by simp
  qed
qed simp

text \<open>A successful loop drops exactly the expired leases and frees their slots.\<close>

lemma recoverLoop_keeps:
  assumes inv: "slot_inv now d" and now: "0 < now" and ls: "distinct (map sk_SlotID ls)"
    and mem: "\<And>l. l \<in> set ls \<longleftrightarrow> kget (sd_slotLeases d) (sk_SlotID l) = Some (Json l) \<and> sk_ExpiresAt l \<le> now"
    and ok: "recoverLoop now ls d f = (Inr d', f')"
  shows "GetSlotLease k d' = Inr (Some l) \<longleftrightarrow> GetSlotLease k d = Inr (Some l) \<and> now < sk_ExpiresAt l"
    and "GetSlotLease k d = Inr (Some l) \<Longrightarrow> sk_ExpiresAt l \<le> now \<Longrightarrow> GetSlot k d' = Inr s \<Longrightarrow> \<not> inUse s"
proof -
  have key: "sk_SlotID l = k" if "kget (sd_slotLeases d) k = Some (Json l)" for k l
    by (rule slot_inv_lease [OF inv that]) (use that in auto)
  have inv': "slot_inv now d'" and other: "\<And>k. k \<notin> sk_SlotID ` set ls \<Longrightarrow> kget (sd_slotLeases d') k = kget (sd_slotLeases d) k"
    and gone: "\<And>l. l \<in> set ls \<Longrightarrow> kget (sd_slotLeases d') (sk_SlotID l) = None"
    using recoverLoop_ok [OF ok inv now _ ls] mem by auto
  note gl = GetSlotLease_iff [OF inv] GetSlotLease_iff [OF inv']
  show "GetSlotLease k d' = Inr (Some l) \<longleftrightarrow> GetSlotLease k d = Inr (Some l) \<and> now < sk_ExpiresAt l"
  proof (cases "k \<in> sk_SlotID ` set ls")
    case True
    then show ?thesis using gone mem by (auto simp: gl)
  next
    case False
    then show ?thesis using other [OF False] mem [of l] key [of k l] by (auto simp: gl not_less)
  qed
  show "\<not> inUse s" if "GetSlotLease k d = Inr (Some l)" "sk_ExpiresAt l \<le> now" "GetSlot k d' = Inr s"
    using that mem [of l] key [of k l] gone [of l] lease_iff_inUse [OF inv', of k s] by (auto simp: gl GetSlot_iff)
qed

end
