(* ===== verification/SlotDemo.thy ===== *)
theory SlotDemo
  imports SlotTarget
begin

text \<open>
  A concrete run of the slot tables: the store with one queued request, a pool of one slot, the
  slot made ready by an agent, and the joint claim of both. It shows that the hypotheses of the
  properties of slots can hold.
\<close>

definition okS :: scommit where
  "okS = (\<lambda>_. None)"

definition demoPool :: PoolConfig where
  "demoPool = \<lparr>pc_PoolID = ''pool-1'', pc_EnvironmentID = ''env-1'', pc_EnvironmentVersion = [],
     pc_DesiredSlots = 1, pc_MaxConcurrency = 1, pc_Capabilities = [''browser''], pc_ManifestDigest = [],
     pc_Signer = [], pc_RequireTrusted = True, pc_DesiredState = ''enabled'', pc_ConfigRevision = 0,
     pc_UpdatedBy = [], pc_UpdatedAt = 6\<rparr>"

definition demoSummary :: EnvironmentSummary where
  "demoSummary = \<lparr>es_EnvironmentID = ''env-1'', es_Version = [], es_Generation = 1,
     es_Capabilities = [''browser''], es_ManifestDigest = [], es_Signer = [], es_Trusted = True,
     es_AgentVersion = ''1'', es_SessionState = ''ready'', es_DesktopReady = True, es_AgentHandle = ''agent-1'',
     es_UpdatedAt = 7\<rparr>"

definition demoSlot :: slot where
  "demoSlot = newSlot demoPool 6 1"

definition demoReady :: slot where
  "demoReady = readySlot demoSummary demoPool 7 demoSlot"

definition demoLeased :: slot where
  "demoLeased = demoReady\<lparr>sl_Status := Leased, sl_UpdatedAt := 10\<rparr>"

definition demoSlotLease :: SlotLease where
  "demoSlotLease = \<lparr>sk_LeaseID = ''lease-1-slot'', sk_SlotID = ''pool-1-001'', sk_PoolID = ''pool-1'',
     sk_RequestID = ''req-1'', sk_AccountID = ''acct-1'', sk_Owner = ''worker'', sk_EnvironmentGeneration = 1,
     sk_AcquiredAt = 10, sk_LastHeartbeat = 10, sk_ExpiresAt = 1010\<rparr>"

text \<open>The databases of the run: after the submission, the reconciliation, readiness and the claim.\<close>

definition demoS1 :: sdb where
  "demoS1 = emptySDB\<lparr>sd_core := demoDB2\<rparr>"

definition demoS2 :: sdb where
  "demoS2 = putSlot demoSlot (putPool demoPool demoS1)"

definition demoS3 :: sdb where
  "demoS3 = putSlot demoReady (putSummary demoSummary demoS2)"

definition demoS4 :: sdb where
  "demoS4 = putSlotLease ''pool-1-001'' demoSlotLease (putSlot demoLeased (demoS3\<lparr>sd_core := demoDB3\<rparr>))"

definition demoStore :: "sdb \<Rightarrow> SlotStore" where
  "demoStore d = \<lparr>ss_db = d, ss_fenced = kempty\<rparr>"

lemma demo_name: "slotName ''pool-1'' 1 = ''pool-1-001''"
  by code_simp

lemma demoPool_valid: "PoolConfig_Validate demoPool = Inr ()"
  by (simp add: PoolConfig_Validate_def demoPool_def validID_def go_simps ContainsAny_def Requirement_Normalize_def
      PoolConfig_Requirement_def normalizeCapabilities_def addCapability_def Let_def)

lemma demoPool_plain: "plainPool demoPool"
  by (simp add: plainPool_def demoPool_def ContainsAny_def)

lemma demo_reconcile: "ReconcileJobPool okS demoPool 6 demoS1 = (Inr (), demoS2)"
proof -
  have "(PoolConfig_Normalized demoPool)\<lparr>pc_UpdatedAt := 6\<rparr> = demoPool"
    by (simp add: PoolConfig_Normalized_def demoPool_def)
  moreover have "reconcileTx demoPool 6 demoS1 = Inr ((), demoS2)"
    by (simp add: reconcileTx_def Let_def slotsForPoolTx_def demoS1_def emptySDB_def demoPool_def go_simps targetSlots_def
        SortSlots_def reconcileOrdinal_def byOrdinal_def demoS2_def demoSlot_def putPool_def)
  ultimately show ?thesis
    using demoPool_valid by (simp add: ReconcileJobPool_def Let_def update_def okS_def)
qed

lemma demoSummary_valid: "Summary_Validate demoSummary = Inr ()"
  by (simp add: Summary_Validate_def demoSummary_def validID_def go_simps ContainsAny_def normalizeCapabilities_def
      addCapability_def Let_def)

lemma demo_ids_slot:
  "sl_SlotID demoSlot = ''pool-1-001''" "sl_PoolID demoSlot = ''pool-1''" "sl_Status demoSlot = Unprovisioned"
  "sl_EnvironmentGeneration demoSlot = 0" "sl_SessionDesiredState demoSlot = []"
  "sl_SlotID demoReady = ''pool-1-001''" "sl_PoolID demoReady = ''pool-1''" "sl_Status demoReady = Ready"
  "sl_EnvironmentGeneration demoReady = 1" "sl_SessionDesiredState demoReady = []" "sl_AgentHandle demoReady = ''agent-1''"
  "sl_SlotID demoLeased = ''pool-1-001''" "sl_Status demoLeased = Leased" "sl_AgentHandle demoLeased = ''agent-1''"
  "pc_PoolID demoPool = ''pool-1''"
  using demo_name
  by (simp_all add: demoSlot_def newSlot_def demoPool_def demoReady_def readySlot_def demoSummary_def demoLeased_def)

lemma demoS_sel:
  "sd_packages demoS2 = kempty" "sd_packages demoS3 = kempty" "sd_pools demoS2 = kput ''pool-1'' (Json demoPool) kempty"
  "sd_pools demoS3 = kput ''pool-1'' (Json demoPool) kempty"
  "sd_slots demoS2 = kput ''pool-1-001'' (Json demoSlot) kempty" "sd_slots demoS3 = kput ''pool-1-001'' (Json demoReady) kempty"
  "sd_slots demoS4 = kput ''pool-1-001'' (Json demoLeased) kempty" "sd_slotLeases demoS4 = kput ''pool-1-001'' (Json demoSlotLease) kempty"
  "sd_slotLeases demoS3 = kempty" "sd_core demoS3 = demoDB2" "sd_core demoS4 = demoDB3" "sd_core demoS1 = demoDB2"
  "sd_pools demoS4 = kput ''pool-1'' (Json demoPool) kempty"
  by (simp_all add: demoS4_def demoS3_def demoS2_def demoS1_def emptySDB_def demo_ids_slot putPool_def putSlot_def putSummary_def
      putSlotLease_def)

lemma demo_gate: "validatePoolEnvironmentTx d demoPool = Inr ()" if "sd_packages d = kempty"
  using that by (simp add: validatePoolEnvironmentTx_def metadataRequired_def demoPool_def)

lemma demo_ready: "MarkSlotReady okS ''pool-1-001'' demoSummary 7 demoS2 = (Inr (), demoS3)"
proof -
  have "summaryServesPool demoSummary demoPool"
    by (simp add: summaryServesPool_def demoSummary_def demoPool_def containsCapabilities_def)
  then have "markReadyTx ''pool-1-001'' demoSummary 7 demoS2 = Inr ((), demoS3)"
    by (simp add: markReadyTx_def getJSON_def demoS_sel demo_ids_slot inUse_def demo_gate)
      (simp add: demoS3_def demoReady_def)
  then show ?thesis using demoSummary_valid by (simp add: MarkSlotReady_def update_def okS_def)
qed

text \<open>A requirement that names nothing: the pool's own requirement is used.\<close>

definition anyRequirement :: EnvironmentRequirement where
  "anyRequirement = \<lparr>er_EnvironmentID = [], er_Version = [], er_Capabilities = [], er_ManifestDigest = [],
     er_Signer = [], er_RequireTrusted = False\<rparr>"

lemma demo_requirement: "constrainSlotRequirement anyRequirement demoPool = Inr (PoolConfig_Requirement demoPool)"
  by (simp add: constrainSlotRequirement_def anyRequirement_def demoPool_def Requirement_Normalize_def Let_def go_simps ContainsAny_def
      normalizeCapabilities_def normalizeSlotCapabilities_def addCapability_def PoolConfig_Requirement_def)

lemma demo_matches: "Slot_Matches demoReady (PoolConfig_Requirement demoPool)"
  by (simp add: Slot_Matches_def PoolConfig_Requirement_def demoPool_def Requirement_Normalize_def Let_def go_simps ContainsAny_def
      normalizeCapabilities_def addCapability_def demoReady_def readySlot_def demoSummary_def demoSlot_def newSlot_def)

lemma demo_run_slots:
  "slotRun 5 (demoStore demoS1)" "slotRun 6 (demoStore demoS2)" "slotRun 7 (demoStore demoS3)"
proof -
  have lift: "slotRun 5 (demoStore (emptySDB\<lparr>sd_core := d\<rparr>))" if "storeRun emptyDB d" for d
    using that
  proof (induction emptyDB d rule: storeRun.induct)
    case start
    have "slotRun 5 \<lparr>ss_db = emptySDB, ss_fenced = kempty\<rparr>" by (rule slotRun.start) simp
    then show ?case by (simp add: demoStore_def emptySDB_def)
  next
    case (step e f)
    have "slotStep 5 EndsNothing (demoStore (emptySDB\<lparr>sd_core := e\<rparr>)) (demoStore (emptySDB\<lparr>sd_core := f\<rparr>))"
      by (rule slotStep.core) (use step.hyps(3) in \<open>auto simp: coreStep_def demoStore_def\<close>)
    then show ?case using step.hyps(2) by (metis order_refl slotRun.step)
  qed
  show 1: "slotRun 5 (demoStore demoS1)" unfolding demoS1_def by (rule lift [OF demo_run(2)])
  have "slotStep 6 EndsNothing (demoStore demoS1) (demoStore demoS2)"
    by (rule slotStep.reconcile [OF demoPool_plain, where c = okS]) (simp add: demoStore_def demo_reconcile)
  then show 2: "slotRun 6 (demoStore demoS2)" by (rule slotRun.step [OF 1, rotated]) simp
  have "slotStep 7 EndsNothing (demoStore demoS2) (demoStore demoS3)"
    by (rule slotStep.mark_ready [where c = okS and k = "''pool-1-001''" and es = demoSummary]) (simp add: demoStore_def demo_ready)
  then show "slotRun 7 (demoStore demoS3)" by (rule slotRun.step [OF 2, rotated]) simp
qed

lemma demo_slots3: "slotsForPoolTx demoS3 ''pool-1'' = Inr [demoReady]"
proof -
  have "slot_inv 7 demoS3" using slotRun_inv [OF demo_run_slots(3)] by (simp add: world_inv_def demoStore_def)
  then have "Slot_Validate demoReady = Inr ()"
    using slotOkD(3) [OF slot_inv_slot, of 7 demoS3 "''pool-1-001''" demoReady] by (simp add: demoS_sel)
  then show ?thesis
    by (simp add: slotsForPoolTx_def demoS_sel slotEntry_def demo_ids_slot SortSlots_def go_simps)
qed

lemma demo_slot_acquire:
  "AcquireSlotLease None 10 \<lparr>sa_LeaseID = ''lease-1-slot'', sa_SlotID = ''pool-1-001'', sa_PoolID = ''pool-1'',
     sa_RequestID = ''req-1'', sa_AccountID = ''acct-1'', sa_Owner = ''worker'', sa_Generation = 1\<rparr> 1000 = Inr demoSlotLease"
  by (simp add: AcquireSlotLease_iff demoSlotLease_def validID_def go_simps ContainsAny_def Add_def second_def maxInt64_def)

lemma demo_claim_slot:
  "ClaimNextWithSlot okS demoClaimArgs 1 ''pool-1'' anyRequirement demoS3 =
     (Inr \<lparr>sm_Claim = demoClaim, sm_SlotLease = demoSlotLease, sm_Slot = demoLeased\<rparr>, demoS4)"
proof -
  have rq: "rq_RequestID demoQueuedRequest = ''req-1''" "rq_AccountID demoQueuedRequest = ''acct-1''"
      "dueAt 10 demoQueuedRequest"
    by (simp_all add: demoQueuedRequest_def demoRequest_def dueAt_def)
  have ca: "ca_now demoClaimArgs = 10" "ca_leaseID demoClaimArgs = ''lease-1''" "ca_owner demoClaimArgs = ''worker''"
      "ca_ttl demoClaimArgs = 1000"
    by (simp_all add: demoClaimArgs_def)
  have al: "accountLeaseFor demoClaimArgs ''acct-1'' demoDB2 = Inr demoLease"
    using demo_acquire by (simp add: accountLeaseFor_def leaseFromTx_def demoDB2_sel ca)
  have scan: "claimScan 10 demoPool [demoReady] demoS3 = Inr (([demoReady], []), demoS3)"
    by (simp add: Let_def demoS_sel inUse_def demo_ids_slot)
  have "slotClaimLoop demoClaimArgs ''pool-1'' (PoolConfig_Requirement demoPool) [demoReady] [] [demoQueuedRequest] demoS3 =
     Inr (\<lparr>sm_Claim = demoClaim, sm_SlotLease = demoSlotLease, sm_Slot = demoLeased\<rparr>, demoS4)"
    using demo_slot_acquire demo_candidate demo_matches
    by (simp add: rq ca demoS_sel demoDB2_account demo_ids al demo_ids_slot)
      (simp add: demoLeased_def demoS4_def Let_def)
  then have "claimSlotTx demoClaimArgs 1 ''pool-1'' anyRequirement demoS3 =
     Inr (\<lparr>sm_Claim = demoClaim, sm_SlotLease = demoSlotLease, sm_Slot = demoLeased\<rparr>, demoS4)"
    using demo_queued scan demo_requirement demo_slots3
    by (simp add: claimSlotTx_def demoS_sel existingClaimTx_def demoDB2_sel activeLeaseCountTx_def getJSON_def demo_gate ca)
      (simp add: demoClaimArgs_def)
  then show ?thesis
    by (simp add: ClaimNextWithSlot_def update_def okS_def) (simp add: demoClaimArgs_def go_simps)
qed

lemma demo_run_claim: "slotRun 10 (demoStore demoS4)"
proof -
  have "slotStep 10 EndsNothing (demoStore demoS3) (demoStore demoS4)"
    by (rule slotStep.claim [where c = okS and x = demoClaimArgs and m = 1 and p = "''pool-1''" and r = anyRequirement])
      (simp_all add: demoStore_def demo_claim_slot, simp add: demoClaimArgs_def)
  then show ?thesis by (rule slotRun.step [OF demo_run_slots(3), rotated]) simp
qed

end
