(* ===== verification/SlotProps.thy ===== *)
theory SlotProps
  imports SlotDemo
begin

text \<open>
  The properties of the slot tables: their consistency, the protection of slot leases, the joint
  claim, reconciliation against its reference definition, recovery, and the counters.
\<close>

text \<open>
  C30. Consistency of slots: after any run of operations on accounts, pools, slots and slot leases,
  with a clock that does not run backwards, every stored pool and slot is valid and stored under
  its own name, a slot has a lease exactly when it is leased or draining, and that lease is valid
  and names the slot, its pool and its generation. The runs use the operations as the program does:
  pools whose names fit into those of their slots, \<open>UpsertSlot\<close> only to retarget a slot and
  \<open>QuarantineSlot\<close> only on provisioned ones; they contain no rollback of a pool operation.
\<close>

theorem slot_tables_consistent:
  assumes "slotRun now st"
  shows "slot_inv now (ss_db st) \<and> store_inv (sd_core (ss_db st))"
  using slotRun_inv [OF assms] by (simp add: world_inv_def)

theorem slot_tables_consistent_witness:
  "slotRun 10 (demoStore demoS4) \<and> slot_inv 10 demoS4 \<and> store_inv demoDB3"
  using slot_tables_consistent [OF demo_run_claim] demo_run_claim by (simp add: demoStore_def demoS_sel)

text \<open>
  C31. Exclusive slots: in one step of any such run (a rollback of a pool operation is none), a slot lease that is live, or whose slot has an
  agent, is never handed to another holder. It stays, possibly with a later expiry, or it ends: by
  an operation that names its id and owner, or, once expired, by a quarantine of its slot, or by
  the recovery, which for a slot with an agent needs the confirmation that the agent has stopped.
\<close>

theorem slot_lease_protected:
  assumes "slotRun t st" "t \<le> now" "slotStep now e st st'"
    and "kget (sd_slotLeases (ss_db st)) k = Some (Json l)" "now < sk_ExpiresAt l \<or> hasAgent (ss_db st) k"
  shows "(\<exists>l'. kget (sd_slotLeases (ss_db st')) k = Some (Json l') \<and> sameHolder l l') \<or>
     kget (sd_slotLeases (ss_db st')) k = None \<and> (e = EndsHolder k (sk_LeaseID l) (sk_Owner l) \<or>
       sk_ExpiresAt l \<le> now \<and> (e = EndsQuarantine k \<or>
         e = EndsRecovery \<and> (hasAgent (ss_db st) k \<longrightarrow> confirmed (ss_fenced st) l)))"
proof -
  have "world_inv now (ss_db st)" "0 < now"
    using slotRun_inv [OF assms(1)] assms(2) slot_inv_mono by (auto simp: world_inv_def)
  from slotStep_ok [OF assms(3) this] assms(4,5) show ?thesis
    unfolding stepOk_def leaseKept_def by blast
qed

theorem slot_lease_protected_witness:
  "\<exists>st'. slotStep 11 (EndsHolder ''pool-1-001'' ''lease-2'' ''thief'') (demoStore demoS4) st' \<and>
     (\<exists>l. kget (sd_slotLeases (ss_db st')) ''pool-1-001'' = Some (Json l) \<and> sameHolder demoSlotLease l)"
proof -
  let ?st' = "(demoStore demoS4)\<lparr>ss_db := snd (Store_ReleaseSlotLease okS ''pool-1-001'' ''lease-2'' ''thief'' demoS4)\<rparr>"
  have step: "slotStep 11 (EndsHolder ''pool-1-001'' ''lease-2'' ''thief'') (demoStore demoS4) ?st'"
    by (rule slotStep.release [where c = okS]) (simp add: demoStore_def)
  have "\<exists>l. kget (sd_slotLeases (ss_db ?st')) ''pool-1-001'' = Some (Json l) \<and> sameHolder demoSlotLease l"
    using slot_lease_protected [OF demo_run_claim _ step, of "''pool-1-001''" demoSlotLease]
    by (simp add: demoStore_def demoS_sel demoSlotLease_def)
  with step show ?thesis by blast
qed

text \<open>
  C32. The joint claim is atomic, fair and exclusive: a fresh claim takes the first due queued
  request whose account has no live lease, moves its account to STARTING, and stores an account
  lease and a slot lease of the same owner with the same expiry; the slot belongs to the pool and
  was held by nobody, or by an expired lease without an agent; and the live account leases stay
  within the concurrency. When the claim fails, nothing is written.
\<close>

theorem ClaimNextWithSlot_atomic:
  assumes "slotRun t st" "t \<le> ca_now x" "kget (db_events (sd_core (ss_db st))) (ca_eventID x) = None"
    and "ClaimNextWithSlot c x m p r (ss_db st) = (res, d')"
  shows "case res of
     Inl e \<Rightarrow> d' = ss_db st
   | Inr cl \<Rightarrow> \<exists>q. cl_Request (sm_Claim cl) = q\<lparr>rq_State := Starting, rq_UpdatedAt := ca_now x, rq_NotBefore := 0,
            rq_Attempt := rq_Attempt q + 1\<rparr> \<and>
       GetRequest (rq_RequestID q) (sd_core d') = Inr (cl_Request (sm_Claim cl)) \<and>
       (\<exists>u. GetAccount (rq_AccountID q) (sd_core d') = Inr u \<and> sn_Status u = Starting \<and> sn_RequestID u = rq_RequestID q) \<and>
       GetLease (rq_AccountID q) (sd_core d') = Inr (Some (cl_Lease (sm_Claim cl))) \<and>
       GetSlot (sl_SlotID (sm_Slot cl)) d' = Inr (sm_Slot cl) \<and> sl_Status (sm_Slot cl) = Leased \<and> sl_PoolID (sm_Slot cl) = p \<and>
       GetSlotLease (sl_SlotID (sm_Slot cl)) d' = Inr (Some (sm_SlotLease cl)) \<and>
       sk_RequestID (sm_SlotLease cl) = rq_RequestID q \<and> sk_AccountID (sm_SlotLease cl) = rq_AccountID q \<and>
       sk_Owner (sm_SlotLease cl) = ls_Owner (cl_Lease (sm_Claim cl)) \<and>
       sk_ExpiresAt (sm_SlotLease cl) = ls_ExpiresAt (cl_Lease (sm_Claim cl)) \<and>
       (\<forall>l. GetSlotLease (sl_SlotID (sm_Slot cl)) (ss_db st) = Inr (Some l) \<longrightarrow>
          sk_ExpiresAt l \<le> ca_now x \<and> \<not> hasAgent (ss_db st) (sl_SlotID (sm_Slot cl))) \<and>
       rq_AccountID q \<notin> liveLeases (ca_now x) (sd_core (ss_db st)) \<and>
       (\<forall>u. GetRequest (rq_RequestID u) (sd_core (ss_db st)) = Inr u \<and> rq_State u = Queued \<and> dueAt (ca_now x) u \<and>
          rq_AccountID u \<notin> liveLeases (ca_now x) (sd_core (ss_db st)) \<longrightarrow> queueOrder q \<le> queueOrder u) \<and>
       int (card (liveLeases (ca_now x) (sd_core d'))) \<le> m"
proof (cases res)
  case (Inl e)
  then show ?thesis using assms(4) update_Inl by (auto simp: ClaimNextWithSlot_def split: if_splits)
next
  case (Inr cl)
  have w: "world_inv (ca_now x) (ss_db st)" "0 < ca_now x"
    using slotRun_inv [OF assms(1)] assms(2) slot_inv_mono by (auto simp: world_inv_def)
  then have gl: "GetSlotLease k (ss_db st) = Inr (Some l) \<longleftrightarrow> kget (sd_slotLeases (ss_db st)) k = Some (Json l)" for k l
    using GetSlotLease_iff by (auto simp: world_inv_def)
  from assms(4) Inr have ok: "ClaimNextWithSlot c x m p r (ss_db st) = (Inr cl, d')" by simp
  from w assms(3) ok have "\<exists>q. cl_Request (sm_Claim cl) = q\<lparr>rq_State := Starting, rq_UpdatedAt := ca_now x, rq_NotBefore := 0,
            rq_Attempt := rq_Attempt q + 1\<rparr> \<and>
       GetRequest (rq_RequestID q) (sd_core d') = Inr (cl_Request (sm_Claim cl)) \<and>
       (\<exists>u. GetAccount (rq_AccountID q) (sd_core d') = Inr u \<and> sn_Status u = Starting \<and> sn_RequestID u = rq_RequestID q) \<and>
       GetLease (rq_AccountID q) (sd_core d') = Inr (Some (cl_Lease (sm_Claim cl))) \<and>
       GetSlot (sl_SlotID (sm_Slot cl)) d' = Inr (sm_Slot cl) \<and> sl_Status (sm_Slot cl) = Leased \<and> sl_PoolID (sm_Slot cl) = p \<and>
       GetSlotLease (sl_SlotID (sm_Slot cl)) d' = Inr (Some (sm_SlotLease cl)) \<and>
       sk_RequestID (sm_SlotLease cl) = rq_RequestID q \<and> sk_AccountID (sm_SlotLease cl) = rq_AccountID q \<and>
       sk_Owner (sm_SlotLease cl) = ls_Owner (cl_Lease (sm_Claim cl)) \<and>
       sk_ExpiresAt (sm_SlotLease cl) = ls_ExpiresAt (cl_Lease (sm_Claim cl)) \<and>
       (\<forall>l. GetSlotLease (sl_SlotID (sm_Slot cl)) (ss_db st) = Inr (Some l) \<longrightarrow>
          sk_ExpiresAt l \<le> ca_now x \<and> \<not> hasAgent (ss_db st) (sl_SlotID (sm_Slot cl))) \<and>
       rq_AccountID q \<notin> liveLeases (ca_now x) (sd_core (ss_db st)) \<and>
       (\<forall>u. GetRequest (rq_RequestID u) (sd_core (ss_db st)) = Inr u \<and> rq_State u = Queued \<and> dueAt (ca_now x) u \<and>
          rq_AccountID u \<notin> liveLeases (ca_now x) (sd_core (ss_db st)) \<longrightarrow> queueOrder q \<le> queueOrder u) \<and>
       int (card (liveLeases (ca_now x) (sd_core d'))) \<le> m"
  proof (rule ClaimNextWithSlot_fresh, goal_cases)
    case (1 q)
    then have "slot_inv (ca_now x) d'" by (simp add: world_inv_def)
    then have "GetSlotLease (sl_SlotID (sm_Slot cl)) d' = Inr (Some (sm_SlotLease cl))"
      using 1 by (simp add: GetSlotLease_iff)
    moreover have "int (card (liveLeases (ca_now x) (sd_core d'))) \<le> m"
      using 1 finite_liveLeases by simp
    ultimately show ?case using 1 by (intro exI [of _ q]) (simp add: GetSlot_iff gl)
  qed
  then show ?thesis using Inr by simp
qed

theorem ClaimNextWithSlot_atomic_witness:
  "GetSlot ''pool-1-001'' demoS4 = Inr demoLeased \<and> GetSlotLease ''pool-1-001'' demoS4 = Inr (Some demoSlotLease) \<and>
     int (card (liveLeases 10 demoDB3)) \<le> 1"
proof -
  have "kget (db_events demoDB2) (ca_eventID demoClaimArgs) = None" by (simp add: demoDB2_sel demoClaimArgs_def)
  moreover have "ca_now demoClaimArgs = 10" by (simp add: demoClaimArgs_def)
  ultimately show ?thesis
    using ClaimNextWithSlot_atomic [OF demo_run_slots(3), of demoClaimArgs okS 1 "''pool-1''" anyRequirement]
      demo_claim_slot by (auto simp: demoStore_def demoS_sel demo_ids_slot)
qed

text \<open>
  C33. Reconciliation reaches its target: after a successful reconciliation the pool is stored,
  every ordinal up to the wanted number has a slot that is not retiring, and one that does not serve
  the configuration is being replaced, drained, quarantined or deleted; every slot beyond is being
  drained or retired, or is quarantined or deleted. No slot vanishes, no lease changes, a slot in
  use stays in use, and deleted and quarantined slots and other pools' slots are left alone.
\<close>

theorem ReconcileJobPool_target:
  assumes "slotRun t st" "t \<le> now" "plainPool p" "ReconcileJobPool c p now (ss_db st) = (Inr (), d')"
  shows "GetJobPool (pc_PoolID p) d' = Inr (storedPool p now) \<and> sd_slotLeases d' = sd_slotLeases (ss_db st) \<and>
     (\<forall>i. 1 \<le> i \<and> i \<le> targetSlots (storedPool p now) \<longrightarrow> (\<exists>s. GetSlot (slotName (pc_PoolID p) i) d' = Inr s \<and> sl_PoolID s = pc_PoolID p \<and>
        sl_Ordinal s = i \<and> sl_Status s \<noteq> Retiring \<and>
        (targetChanged s (storedPool p now) \<longrightarrow> sl_Status s \<in> {Provisioning, Draining, Quarantined, Deleted}))) \<and>
     (\<forall>k s. GetSlot k d' = Inr s \<and> sl_PoolID s = pc_PoolID p \<and> targetSlots (storedPool p now) < sl_Ordinal s \<longrightarrow>
        sl_Status s \<in> {Draining, Retiring, Quarantined, Deleted}) \<and>
     (\<forall>k s. GetSlot k (ss_db st) = Inr s \<longrightarrow> (\<exists>s'. GetSlot k d' = Inr s' \<and> inUse s' = inUse s \<and>
        s' = s\<lparr>sl_Status := sl_Status s', sl_UpdatedAt := sl_UpdatedAt s'\<rparr> \<and>
        (sl_Status s = Deleted \<or> sl_Status s = Quarantined \<or> sl_PoolID s \<noteq> pc_PoolID p \<longrightarrow> s' = s)))"
proof -
  let ?cfg = "storedPool p now"
  have w: "slot_inv now (ss_db st)" "0 < now"
    using slotRun_inv [OF assms(1)] assms(2) slot_inv_mono by (auto simp: world_inv_def)
  have id: "pc_PoolID ?cfg = pc_PoolID p" "plainPool ?cfg" "PoolConfig_Normalized ?cfg = ?cfg"
    using assms(3) by (simp_all add: storedPool_def) (simp_all add: PoolConfig_Normalized_def)
  obtain u where v: "PoolConfig_Validate ?cfg = Inr ()" and r: "reconcileTx ?cfg now (ss_db st) = Inr (u, d')"
    using assms(4) w(2) by (auto simp: ReconcileJobPool_def Let_def storedPool_def update_def split: sum.splits option.splits if_splits)
  note pw = reconcile_pointwise [OF r w v id(2), unfolded id(1)]
  note gs = GetSlot_iff
  show ?thesis
  proof (intro conjI allI impI)
    show "GetJobPool (pc_PoolID p) d' = Inr ?cfg" using id by (simp add: GetJobPool_def view_def pw(1) getJSON_def)
    show "sd_slotLeases d' = sd_slotLeases (ss_db st)" by (rule pw(2))
  next
    fix i
    assume i: "1 \<le> i \<and> i \<le> targetSlots ?cfg"
    let ?k = "slotName (pc_PoolID p) i"
    show "\<exists>s. GetSlot ?k d' = Inr s \<and> sl_PoolID s = pc_PoolID p \<and> sl_Ordinal s = i \<and> sl_Status s \<noteq> Retiring \<and>
        (targetChanged s ?cfg \<longrightarrow> sl_Status s \<in> {Provisioning, Draining, Quarantined, Deleted})"
    proof (cases "kget (sd_slots (ss_db st)) ?k")
      case None
      then show ?thesis using pw(4) [of i] i id by (simp add: gs)
    next
      case (Some raw)
      obtain s where s: "raw = Json s" "sl_PoolID s = pc_PoolID p" "sl_Ordinal s = i"
        by (rule slot_at_name [OF w(1) Some]) (use i in simp_all)
      then show ?thesis using pw(3) [OF Some [unfolded s(1)]] settled_status(4,5) [of s ?cfg now] i by (simp add: gs)
    qed
  next
    fix k s
    assume s: "GetSlot k d' = Inr s \<and> sl_PoolID s = pc_PoolID p \<and> targetSlots ?cfg < sl_Ordinal s"
    show "sl_Status s \<in> {Draining, Retiring, Quarantined, Deleted}"
    proof (cases "kget (sd_slots (ss_db st)) k")
      case None
      have "\<exists>i. 1 \<le> i \<and> i \<le> targetSlots ?cfg \<and> k = slotName (pc_PoolID p) i" using pw(5) [OF None] s gs by fastforce
      then show ?thesis using pw(4) None s by (auto simp: gs)
    next
      case (Some w')
      then obtain v where "kget (sd_slots (ss_db st)) k = Some (Json v)" using slot_invD(2) [OF w(1)] by blast
      from pw(3) [OF this] show ?thesis using s settled_status(3) [of ?cfg v now] by (auto simp: gs split: if_splits)
    qed
  next
    fix k s
    assume s: "GetSlot k (ss_db st) = Inr s"
    let ?s' = "if sl_PoolID s = pc_PoolID p then settled ?cfg now s else s"
    have "GetSlot k d' = Inr ?s'" using s pw(3) by (simp add: gs)
    then show "\<exists>s'. GetSlot k d' = Inr s' \<and> inUse s' = inUse s \<and> s' = s\<lparr>sl_Status := sl_Status s', sl_UpdatedAt := sl_UpdatedAt s'\<rparr> \<and>
        (sl_Status s = Deleted \<or> sl_Status s = Quarantined \<or> sl_PoolID s \<noteq> pc_PoolID p \<longrightarrow> s' = s)"
      using settled_status(1,2) settled_changes [of ?cfg now s] by (intro exI [of _ ?s']) auto
  qed
qed

theorem ReconcileJobPool_target_witness:
  "slotRun 5 (demoStore demoS1) \<and> ReconcileJobPool okS demoPool 6 demoS1 = (Inr (), demoS2) \<and>
     GetJobPool ''pool-1'' demoS2 = Inr (storedPool demoPool 6) \<and>
     (\<exists>s. GetSlot ''pool-1-001'' demoS2 = Inr s \<and> sl_PoolID s = ''pool-1'' \<and> sl_Ordinal s = 1 \<and> sl_Status s \<noteq> Retiring)"
proof -
  have t: "targetSlots (storedPool demoPool 6) = 1"
    by (simp add: storedPool_def targetSlots_def demoPool_def PoolConfig_Normalized_def)
  have "ReconcileJobPool okS demoPool 6 (ss_db (demoStore demoS1)) = (Inr (), demoS2)"
    by (simp add: demoStore_def demo_reconcile)
  from ReconcileJobPool_target [OF demo_run_slots(1) _ demoPool_plain this] show ?thesis
    using demo_run_slots(1) demo_reconcile demo_name by (auto simp: t demo_ids_slot dest!: spec [of _ 1])
qed

text \<open>
  C34. Recovery of expired slot leases: it is refused, with nothing written, as long as an expired
  lease on a slot with an agent lacks the confirmation that the agent has stopped. Otherwise,
  unless the commit fails, it ends exactly the expired leases, and their slots are no longer in use.
\<close>

theorem RecoverExpiredSlotLeases_complete:
  assumes "slotRun t st" "t \<le> now" "RecoverExpiredSlotLeases c now st = (res, st')"
  shows "if \<exists>k l. GetSlotLease k (ss_db st) = Inr (Some l) \<and> sk_ExpiresAt l \<le> now \<and> hasAgent (ss_db st) k \<and> \<not> confirmed (ss_fenced st) l
     then res = Inl (StoreErr ErrSlotLeaseFenceRequired) \<and> ss_db st' = ss_db st
     else (\<exists>d e. c d = Some e \<and> res = Inl e \<and> ss_db st' = ss_db st) \<or>
       res = Inr () \<and> (\<forall>k l. GetSlotLease k (ss_db st') = Inr (Some l) \<longleftrightarrow>
           GetSlotLease k (ss_db st) = Inr (Some l) \<and> now < sk_ExpiresAt l) \<and>
         (\<forall>k l s. GetSlotLease k (ss_db st) = Inr (Some l) \<and> sk_ExpiresAt l \<le> now \<and> GetSlot k (ss_db st') = Inr s \<longrightarrow> \<not> inUse s)"
proof -
  let ?d = "ss_db st"
  have w: "slot_inv now ?d" "0 < now"
    using slotRun_inv [OF assms(1)] assms(2) slot_inv_mono by (auto simp: world_inv_def)
  obtain ls where ls: "expiredSlotLeases now ?d = Inr ls" "distinct (map sk_SlotID ls)"
    and mem: "\<And>l. l \<in> set ls \<longleftrightarrow> kget (sd_slotLeases ?d) (sk_SlotID l) = Some (Json l) \<and> sk_ExpiresAt l \<le> now"
    by (rule expiredSlotLeases_ok [OF w(1)]) blast
  have key: "sk_SlotID l = k" if "kget (sd_slotLeases ?d) k = Some (Json l)" for k l
    by (rule slot_inv_lease [OF w(1) that]) (use that in auto)
  note gl = GetSlotLease_iff [OF w(1)]
  have out: "if \<forall>l \<in> set ls. hasAgent ?d (sk_SlotID l) \<longrightarrow> confirmed (ss_fenced st) l
      then \<exists>d' f'. recoverLoop now ls ?d (ss_fenced st) = (Inr d', f')
      else \<exists>f'. recoverLoop now ls ?d (ss_fenced st) = (Inl (StoreErr ErrSlotLeaseFenceRequired), f')"
    by (rule recoverLoop_outcome [OF w _ ls(2)]) (simp add: mem)
  have need: "(\<exists>k l. GetSlotLease k ?d = Inr (Some l) \<and> sk_ExpiresAt l \<le> now \<and> hasAgent ?d k \<and> \<not> confirmed (ss_fenced st) l) \<longleftrightarrow>
      \<not> (\<forall>l \<in> set ls. hasAgent ?d (sk_SlotID l) \<longrightarrow> confirmed (ss_fenced st) l)"
    using mem key by (fastforce simp: gl)
  show ?thesis
  proof (cases "\<forall>l \<in> set ls. hasAgent ?d (sk_SlotID l) \<longrightarrow> confirmed (ss_fenced st) l")
    case False
    then obtain f' where "recoverLoop now ls ?d (ss_fenced st) = (Inl (StoreErr ErrSlotLeaseFenceRequired), f')"
      using out [unfolded if_not_P [OF False]] by blast
    then show ?thesis unfolding need using False assms(3) w(2) ls(1) by (auto simp: RecoverExpiredSlotLeases_def)
  next
    case True
    then obtain d' f' where l: "recoverLoop now ls ?d (ss_fenced st) = (Inr d', f')"
      using out [unfolded if_P [OF True]] by blast
    note kept = recoverLoop_keeps [OF w ls(2) mem l]
    show ?thesis unfolding need using True assms(3) w(2) ls(1) l kept
      by (auto simp: RecoverExpiredSlotLeases_def split: option.splits)
  qed
qed

theorem RecoverExpiredSlotLeases_complete_witness:
  "fst (RecoverExpiredSlotLeases okS 2000 (demoStore demoS4)) = Inl (StoreErr ErrSlotLeaseFenceRequired) \<and>
   (\<exists>st st'. ConfirmSlotLeaseStopped demoSlotLease (demoStore demoS4) = (Inr (), st) \<and>
     RecoverExpiredSlotLeases okS 2000 st = (Inr (), st') \<and> (\<forall>l. GetSlotLease ''pool-1-001'' (ss_db st') \<noteq> Inr (Some l)))"
proof
  have inv: "slot_inv 10 demoS4" using slotRun_inv [OF demo_run_claim] by (simp add: world_inv_def demoStore_def)
  have gl: "GetSlotLease k demoS4 = Inr (Some l) \<longleftrightarrow> k = ''pool-1-001'' \<and> l = demoSlotLease" for k l
    unfolding GetSlotLease_iff [OF inv] by (auto simp: demoS_sel kget_kput)
  have old: "sk_ExpiresAt demoSlotLease \<le> 2000" "hasAgent demoS4 ''pool-1-001''"
    by (simp_all add: demoSlotLease_def hasAgent_def demoS_sel demo_ids_slot)
  obtain res st' where r: "RecoverExpiredSlotLeases okS 2000 (demoStore demoS4) = (res, st')" by fastforce
  have "\<not> confirmed (ss_fenced (demoStore demoS4)) demoSlotLease" by (simp add: demoStore_def confirmed_def)
  then show "fst (RecoverExpiredSlotLeases okS 2000 (demoStore demoS4)) = Inl (StoreErr ErrSlotLeaseFenceRequired)"
    using RecoverExpiredSlotLeases_complete [OF demo_run_claim _ r] old r by (auto simp: gl demoStore_def split: if_splits)
  let ?st = "(demoStore demoS4)\<lparr>ss_fenced := kput ''pool-1-001'' demoSlotLease kempty\<rparr>"
  have "SlotLease_Validate demoSlotLease = Inr ()"
    by (rule slot_inv_lease [OF inv, of "''pool-1-001''" "Json demoSlotLease"]) (auto simp: demoS_sel)
  then have c: "ConfirmSlotLeaseStopped demoSlotLease (demoStore demoS4) = (Inr (), ?st)"
    by (simp add: ConfirmSlotLeaseStopped_def GetSlot_def view_def getJSON_def demoStore_def demoS_sel demo_ids_slot)
      (simp add: demoSlotLease_def demoS_sel demo_ids_slot)
  have run: "slotRun 10 ?st" by (rule slotRun.step [OF demo_run_claim _ slotStep.confirm [OF c]]) simp
  obtain res st' where r: "RecoverExpiredSlotLeases okS 2000 ?st = (res, st')" by fastforce
  have "confirmed (kput ''pool-1-001'' demoSlotLease kempty) demoSlotLease"
    by (simp add: confirmed_def) (simp add: demoSlotLease_def)
  then have "res = Inr () \<and> (\<forall>l. GetSlotLease ''pool-1-001'' (ss_db st') \<noteq> Inr (Some l))"
    using RecoverExpiredSlotLeases_complete [OF run _ r] old by (auto simp: gl demoStore_def okS_def split: if_splits)
  with c r show "\<exists>st st'. ConfirmSlotLeaseStopped demoSlotLease (demoStore demoS4) = (Inr (), st) \<and>
     RecoverExpiredSlotLeases okS 2000 st = (Inr (), st') \<and> (\<forall>l. GetSlotLease ''pool-1-001'' (ss_db st') \<noteq> Inr (Some l))" by blast
qed

text \<open>
  The counters of a pool's status: they partition the pool's slots that are not deleted; the
  ready counter counts exactly the ready slots that serve the configuration, none of which has a
  lease, and is zero while the environment is not ready; and the effective capacity is that counter
  capped by the concurrency.
\<close>

theorem SlotPoolStatus_counts:
  assumes "slotRun t st" "SlotPoolStatus p now (ss_db st) = Inr r"
  shows "counters r = int (card {k. \<exists>s. GetSlot k (ss_db st) = Inr s \<and> sl_PoolID s = p \<and> sl_Status s \<noteq> Deleted}) \<and>
     (\<exists>config b. GetJobPool p (ss_db st) = Inr config \<and> environmentReadyFor config (ss_db st) = Inr b \<and>
        sc_Ready r = (if b then int (card {k. \<exists>s. GetSlot k (ss_db st) = Inr s \<and> sl_PoolID s = p \<and> countsReady config s}) else 0)) \<and>
     (\<forall>k s. GetSlot k (ss_db st) = Inr s \<and> sl_Status s = Ready \<longrightarrow> GetSlotLease k (ss_db st) = Inr None) \<and>
     (\<forall>m. EffectiveSlotCapacity p m now (ss_db st) = (if m < 1 then Inl (StoreErr ErrInvalidQueueOptions) else Inr (min m (sc_Ready r))))"
proof -
  have inv: "slot_inv t (ss_db st)" using slotRun_inv [OF assms(1)] by (simp add: world_inv_def)
  have "GetSlotLease k (ss_db st) = Inr None" if "GetSlot k (ss_db st) = Inr s" "sl_Status s = Ready" for k s
    using lease_iff_inUse [OF inv, of k s] that by (simp add: GetSlot_iff GetSlotLease_def view_def inUse_def)
  moreover have "EffectiveSlotCapacity p m now (ss_db st) =
      (if m < 1 then Inl (StoreErr ErrInvalidQueueOptions) else Inr (min m (sc_Ready r)))" for m
    using assms(2) by (simp add: EffectiveSlotCapacity_def min_def)
  ultimately show ?thesis by (rule_tac status_facts [OF inv assms(2)]) blast
qed

theorem SlotPoolStatus_counts_witness:
  "\<exists>r. SlotPoolStatus ''pool-1'' 7 demoS3 = Inr r \<and> counters r = 1 \<and> EffectiveSlotCapacity ''pool-1'' 5 7 demoS3 = Inr (sc_Ready r)"
proof -
  have "PoolConfig_Normalized demoPool = demoPool" by (simp add: PoolConfig_Normalized_def demoPool_def)
  then have "\<exists>r. SlotPoolStatus ''pool-1'' 7 demoS3 = Inr r \<and> sc_Ready r \<le> 1"
    using demo_slots3
    by (simp add: SlotPoolStatus_def GetJobPool_def ListSlots_def view_def getJSON_def demoS_sel environmentReadyFor_def
        ListEnvironmentRecords_def metadataRequired_def demoPool_def countSlot_def demo_ids_slot)
  then obtain r where r: "SlotPoolStatus ''pool-1'' 7 demoS3 = Inr r" "sc_Ready r \<le> 1" by blast
  moreover have "{k. \<exists>s. GetSlot k demoS3 = Inr s \<and> sl_PoolID s = ''pool-1'' \<and> sl_Status s \<noteq> Deleted} = {''pool-1-001''}"
    by (auto simp: GetSlot_iff demoS_sel demo_ids_slot kget_kput)
  ultimately show ?thesis
    using SlotPoolStatus_counts [OF demo_run_slots(3), of "''pool-1''" 7 r] by (simp add: demoStore_def)
qed

end
