(* ===== verification/GoFormat.thy ===== *)
theory GoFormat
  imports GoLib
begin

text \<open>
  What the store uses of \<open>fmt\<close>, \<open>strings\<close> and \<open>time\<close> for identifiers and digests: decimal integers,
  \<open>strings.Join\<close>, and the layout \<open>time.RFC3339Nano\<close> of a time in UTC.
\<close>

text \<open>\<open>%d\<close>, and a decimal padded with zeros to a width, the sign before the zeros.\<close>

definition decimalInt :: "int \<Rightarrow> string" where
  "decimalInt n = (if n < 0 then ''-'' @ decimal (nat (- n)) else decimal (nat n))"

definition padded_int :: "nat \<Rightarrow> int \<Rightarrow> string" where
  "padded_int width n =
     (let digits = decimal (nat \<bar>n\<bar>)
      in (if n < 0 then ''-'' else []) @ replicate (width - length digits) (CHR ''0'') @ digits)"

definition formatBool :: "bool \<Rightarrow> string" where
  "formatBool b = (if b then ''true'' else ''false'')"

fun Join :: "string list \<Rightarrow> string \<Rightarrow> string" where
  "Join [] sep = []"
| "Join [x] sep = x"
| "Join (x # y # ys) sep = x @ sep @ Join (y # ys) sep"

section \<open>Dates\<close>

text \<open>
  The Gregorian date of a day, counted from 1 January of the year 1: whole cycles of 400, 100 and 4
  years and single years, the last of a cycle being one day longer.
\<close>

definition yearAndDay :: "int \<Rightarrow> int \<times> int" where
  "yearAndDay day =
     (let n400 = day div 146097; d1 = day mod 146097;
          n100 = min 3 (d1 div 36524); d2 = d1 - 36524 * n100;
          n4 = d2 div 1461; d3 = d2 mod 1461;
          n1 = min 3 (d3 div 365)
      in (400 * n400 + 100 * n100 + 4 * n4 + n1 + 1, d3 - 365 * n1))"

definition isLeap :: "int \<Rightarrow> bool" where
  "isLeap year \<longleftrightarrow> year mod 4 = 0 \<and> (year mod 100 \<noteq> 0 \<or> year mod 400 = 0)"

definition monthLengths :: "int \<Rightarrow> int list" where
  "monthLengths year = [31, if isLeap year then 29 else 28, 31, 30, 31, 30, 31, 31, 30, 31, 30, 31]"

fun monthAndDay :: "int list \<Rightarrow> int \<Rightarrow> int \<Rightarrow> int \<times> int" where
  "monthAndDay [] month day = (month, day + 1)"
| "monthAndDay (n # ns) month day =
     (if day < n then (month, day + 1) else monthAndDay ns (month + 1) (day - n))"

definition dateOf :: "int \<Rightarrow> int \<times> int \<times> int" where
  "dateOf day = (let (year, yday) = yearAndDay day in (year, monthAndDay (monthLengths year) 1 yday))"

text \<open>The first day, the first of January 1970, a leap day of a century, and the last day of a year.\<close>

lemma dateOf_examples:
  "dateOf 0 = (1, 1, 1)" "dateOf (unixEpoch div second div 86400) = (1970, 1, 1)"
  "dateOf 730178 = (2000, 2, 29)" "dateOf 738884 = (2023, 12, 31)"
  by (simp_all add: dateOf_def yearAndDay_def monthLengths_def isLeap_def unixEpoch_def second_def)

text \<open>The fraction \<open>.999999999\<close>: nine digits without trailing zeros, and nothing when it is zero.\<close>

definition formatFraction :: "int \<Rightarrow> string" where
  "formatFraction nanos =
     (if nanos = 0 then []
      else ''.'' @ rev (dropWhile (\<lambda>c. c = CHR ''0'') (rev (padded_int 9 nanos))))"

definition RFC3339Nano :: "gotime \<Rightarrow> string" where
  "RFC3339Nano t =
     (let nanos = t mod second; s = t div second;
          (year, month, day) = dateOf (s div 86400);
          r = s mod 86400
      in padded_int 4 year @ ''-'' @ padded_int 2 month @ ''-'' @ padded_int 2 day @ ''T'' @
         padded_int 2 (r div 3600) @ '':'' @ padded_int 2 (r mod 3600 div 60) @ '':'' @
         padded_int 2 (r mod 60) @ formatFraction nanos @ ''Z'')"

section \<open>Numbered names\<close>

text \<open>
  The search for an unused name: the base, then the base with the suffixes 1, 2 and so on. A bucket
  holds finitely many keys, so one suffix more than there are keys is enough.
\<close>

fun unusedFrom :: "nat \<Rightarrow> (string, 'v) kmap \<Rightarrow> string \<Rightarrow> nat \<Rightarrow> string" where
  "unusedFrom 0 bucket base i = base @ ''_'' @ decimal i"
| "unusedFrom (Suc fuel) bucket base i =
     (let candidate = base @ ''_'' @ decimal i
      in if kget bucket candidate = None then candidate else unusedFrom fuel bucket base (Suc i))"

definition unusedName :: "(string, 'v) kmap \<Rightarrow> string \<Rightarrow> string" where
  "unusedName bucket base =
     (if kget bucket base = None then base else unusedFrom (klen bucket) bucket base 1)"

section \<open>Blank strings\<close>

lemma find_SomeD: "find P xs = Some x \<Longrightarrow> x \<in> set xs \<and> P x"
  by (induction xs) (auto split: if_splits)

text \<open>A string that starts with a printable character is not blank.\<close>

lemma stripFront_keeps:
  "(\<And>q. q \<in> set seqs \<Longrightarrow> c \<notin> set q) \<Longrightarrow> \<exists>ys. stripFront seqs (xs @ [c]) = ys @ [c]"
proof (induction "length xs" arbitrary: xs rule: less_induct)
  case less
  show ?case
  proof (cases "find (\<lambda>q. q \<noteq> [] \<and> prefix q (xs @ [c])) seqs")
    case None
    then show ?thesis by (simp add: stripFront.simps)
  next
    case (Some q)
    then have q: "q \<in> set seqs" "q \<noteq> []" "prefix q (xs @ [c])" by (auto dest: find_SomeD)
    then have p: "prefix q xs" using less.prems [OF q(1)] by (auto simp: prefix_snoc)
    then have "length (drop (length q) xs) < length xs" using q(2) by (auto simp: prefix_def)
    then have "\<exists>ys. stripFront seqs (drop (length q) xs @ [c]) = ys @ [c]" using less by blast
    moreover have "drop (length q) (xs @ [c]) = drop (length q) xs @ [c]" using prefix_length_le [OF p] by simp
    ultimately show ?thesis using Some by (simp add: stripFront.simps [of seqs "xs @ [c]"])
  qed
qed

lemma TrimSpace_nonblank: "plainChar c \<Longrightarrow> TrimSpace (c # cs) \<noteq> []"
proof -
  assume c: "plainChar c"
  then have "c \<notin> set q" if "q \<in> set (map rev spaceSeqs)" for q using that by (auto simp: spaceSeqs_def plainChar_def)
  then obtain ys where "stripFront (map rev spaceSeqs) (rev cs @ [c]) = ys @ [c]" using stripFront_keeps by blast
  then show ?thesis using not_startsWith_plain(1) [OF c] by (simp add: TrimSpace_def stripFront_none)
qed

end
