(* ===== verification/JobPool.thy ===== *)
theory JobPool
  imports SlotOps Sha256 GoFormat
begin

text \<open>
  internal/store/job_pool_control.go: the control plane of pools. A mutation is checked against the
  revision of the stored configuration and recorded as an operation with an idempotency key and an
  audit trail; operations move through their states until they are terminal, can be rolled back to
  the configuration and the slots captured when they were requested, and a deletion removes the pool
  once its slots are gone.
\<close>

section \<open>Data\<close>

datatype JobPoolOperationState =
    JobPoolRequested | JobPoolValidating | JobPoolDraining | JobPoolProvisioning | JobPoolHealthCheck
  | JobPoolCommitting | JobPoolApplied | JobPoolFailed | JobPoolRolledBack | JobPoolCancelled
  | OtherJobPoolState string

text \<open>The zero value of the Go type is the empty string.\<close>

abbreviation noJobPoolState :: JobPoolOperationState where
  "noJobPoolState \<equiv> OtherJobPoolState []"

record JobPoolMutation =
  jm_Config :: PoolConfig
  jm_Operation :: string
  jm_IdempotencyKey :: string
  jm_Actor :: string
  jm_ExpectedRevision :: uint64
  jm_RequestedAt :: gotime

record JobPoolOperation =
  jo_OperationID :: string
  jo_PoolID :: string
  jo_Operation :: string
  jo_State :: JobPoolOperationState
  jo_Actor :: string
  jo_ExpectedRevision :: uint64
  jo_ConfigRevision :: uint64
  jo_RequestedAt :: gotime
  jo_UpdatedAt :: gotime
  jo_CompletedAt :: gotime
  jo_Result :: string
  jo_FailureCode :: string
  jo_EnvironmentGeneration :: uint64
  jo_LastSuccessfulAt :: gotime
  jo_ConfigDigest :: string
  jo_PreviousConfig :: "PoolConfig option"
  jo_PreviousSlots :: "slot list"

record JobPoolAuditEvent =
  ja_EventID :: string
  ja_OperationID :: string
  ja_Actor :: string
  ja_PoolID :: string
  ja_Operation :: string
  ja_FromState :: JobPoolOperationState
  ja_ToState :: JobPoolOperationState
  ja_ConfigRevision :: uint64
  ja_EnvironmentGeneration :: uint64
  ja_Outcome :: string
  ja_FailureCode :: string
  ja_OccurredAt :: gotime

record JobPoolProjection =
  jp_Config :: PoolConfig
  jp_Status :: StatusCounts
  jp_EnvironmentReady :: bool
  jp_EnvironmentReadiness :: string
  jp_ReconcileState :: JobPoolOperationState
  jp_OperationID :: string
  jp_LastFailureCode :: string
  jp_LastSuccessfulReconcileAt :: gotime
  jp_EnvironmentGeneration :: uint64

text \<open>The tables of the control plane beside those of the slots.\<close>

record jdb =
  jd_db :: sdb
  jd_operations :: "(string, JobPoolOperation json) kmap"
  jd_idempotency :: "(string, string) kmap"
  jd_audit :: "(string, JobPoolAuditEvent json) kmap"

type_synonym jcommit = "jdb \<Rightarrow> error option"

definition emptyJDB :: jdb where
  "emptyJDB = \<lparr>jd_db = emptySDB, jd_operations = kempty, jd_idempotency = kempty, jd_audit = kempty\<rparr>"

definition JobPoolOperation_Validate :: "JobPoolOperation \<Rightarrow> unit result" where
  "JobPoolOperation_Validate v =
     (if TrimSpace (jo_OperationID v) = [] \<or> TrimSpace (jo_PoolID v) = [] \<or> TrimSpace (jo_Operation v) = []
         \<or> jo_State v = noJobPoolState \<or> jo_ConfigRevision v = 0 \<or> IsZero (jo_RequestedAt v) \<or> IsZero (jo_UpdatedAt v)
      then Inl (StoreErr ErrCorruptData) else Inr ())"

definition JobPoolAuditEvent_Validate :: "JobPoolAuditEvent \<Rightarrow> unit result" where
  "JobPoolAuditEvent_Validate e =
     (if TrimSpace (ja_EventID e) = [] \<or> TrimSpace (ja_OperationID e) = [] \<or> TrimSpace (ja_PoolID e) = []
         \<or> TrimSpace (ja_Operation e) = [] \<or> ja_ToState e = noJobPoolState \<or> ja_ConfigRevision e = 0
         \<or> IsZero (ja_OccurredAt e)
      then Inl (StoreErr ErrCorruptData) else Inr ())"

definition normalizeMutation :: "JobPoolMutation \<Rightarrow> gotime \<Rightarrow> JobPoolMutation result" where
  "normalizeMutation m0 now =
     (let m = m0\<lparr>jm_Config := PoolConfig_Normalized (jm_Config m0),
                 jm_RequestedAt := (if IsZero (jm_RequestedAt m0) then now else jm_RequestedAt m0),
                 jm_Actor := TrimSpace (jm_Actor m0), jm_IdempotencyKey := TrimSpace (jm_IdempotencyKey m0),
                 jm_Operation := (if TrimSpace (jm_Operation m0) = [] then ''apply'' else TrimSpace (jm_Operation m0))\<rparr>
      in if jm_IdempotencyKey m = [] \<or> 256 < length (jm_IdempotencyKey m) \<or> ContainsAny (jm_IdempotencyKey m) crlftab
            \<or> jm_Actor m = [] \<or> 256 < length (jm_Actor m) \<or> ContainsAny (jm_Actor m) crlftab
         then Inl (StoreErr ErrInvalidRequest)
         else bindE (PoolConfig_Validate (jm_Config m)) (\<lambda>_. Inr m))"

definition jobPoolConfigDigest :: "PoolConfig \<Rightarrow> string" where
  "jobPoolConfigDigest config0 =
     (let config = PoolConfig_Normalized config0
      in EncodeToString (Sum256 (Join [pc_PoolID config, decimalInt (pc_DesiredSlots config),
           decimalInt (pc_MaxConcurrency config), pc_EnvironmentID config, pc_EnvironmentVersion config,
           pc_ManifestDigest config, pc_Signer config, formatBool (pc_RequireTrusted config),
           pc_DesiredState config, Join (pc_Capabilities config) '',''] ''|'')))"

definition jobPoolEnvironmentChanged :: "PoolConfig \<Rightarrow> PoolConfig \<Rightarrow> bool" where
  "jobPoolEnvironmentChanged previous next \<longleftrightarrow>
     pc_EnvironmentID previous \<noteq> pc_EnvironmentID next \<or>
     pc_EnvironmentVersion previous \<noteq> pc_EnvironmentVersion next \<or>
     \<not> EqualFold (pc_ManifestDigest previous) (pc_ManifestDigest next) \<or> pc_Signer previous \<noteq> pc_Signer next \<or>
     pc_RequireTrusted previous \<noteq> pc_RequireTrusted next \<or>
     \<not> containsCapabilities (pc_Capabilities previous) (pc_Capabilities next) \<or>
     \<not> containsCapabilities (pc_Capabilities next) (pc_Capabilities previous)"

definition terminalJobPoolOperation :: "JobPoolOperationState \<Rightarrow> bool" where
  "terminalJobPoolOperation state \<longleftrightarrow>
     state = JobPoolApplied \<or> state = JobPoolFailed \<or> state = JobPoolRolledBack \<or> state = JobPoolCancelled"

section \<open>Transaction helpers\<close>

definition environmentGenerationTx :: "sdb \<Rightarrow> string \<Rightarrow> string \<Rightarrow> uint64" where
  "environmentGenerationTx d environmentID version =
     (case kget (sd_packages d) (environmentKey environmentID version) of
        None \<Rightarrow> 0
      | Some raw \<Rightarrow> (case decode raw of Inl _ \<Rightarrow> 0 | Inr record \<Rightarrow> en_Generation record))"

definition putJobPoolAuditTx :: "JobPoolAuditEvent \<Rightarrow> jdb \<Rightarrow> jdb result" where
  "putJobPoolAuditTx event d =
     bindE (JobPoolAuditEvent_Validate event) (\<lambda>_.
     Inr (d\<lparr>jd_audit := kput (ja_EventID event) (Json event) (jd_audit d)\<rparr>))"

definition nextJobPoolAuditID :: "jdb \<Rightarrow> string \<Rightarrow> gotime \<Rightarrow> string" where
  "nextJobPoolAuditID d operationID at =
     unusedName (jd_audit d) (''audit_'' @ operationID @ ''_'' @ decimalInt (UnixNano at))"

definition newJobPoolOperationID :: "JobPoolMutation \<Rightarrow> jdb \<Rightarrow> string" where
  "newJobPoolOperationID m d =
     unusedName (jd_operations d) (''op_'' @ EncodeToString (take 8 (Sum256
       (pc_PoolID (jm_Config m) @ ''|'' @ jm_Operation m @ ''|'' @ jm_IdempotencyKey m @ ''|'' @
        RFC3339Nano (jm_RequestedAt m)))))"

definition putOperation :: "string \<Rightarrow> JobPoolOperation \<Rightarrow> jdb \<Rightarrow> jdb" where
  "putOperation operationID operation d = d\<lparr>jd_operations := kput operationID (Json operation) (jd_operations d)\<rparr>"

text \<open>The loop over the wanted ordinals: unlike \<open>ReconcileJobPool\<close> it leaves retiring slots alone.\<close>

definition applyOrdinal :: "PoolConfig \<Rightarrow> gotime \<Rightarrow> slot list \<Rightarrow> int \<Rightarrow> sdb \<Rightarrow> sdb" where
  "applyOrdinal config now slots ordinal d =
     (case byOrdinal slots ordinal of
        None \<Rightarrow> putSlot (newSlot config now ordinal) d
      | Some current \<Rightarrow>
          if sl_Status current = Deleted then d
          else if targetChanged current config then
            if sl_Status current = Quarantined then d
            else putSlot (current\<lparr>sl_Status := (if inUse current then Draining else Provisioning),
                                  sl_UpdatedAt := now\<rparr>) d
          else d)"

definition reconcilePoolSlotsTx :: "PoolConfig \<Rightarrow> gotime \<Rightarrow> sdb \<Rightarrow> sdb result" where
  "reconcilePoolSlotsTx config0 now d =
     (let config = (if pc_DesiredState config0 = [] then config0\<lparr>pc_DesiredState := ''enabled''\<rparr> else config0)
      in bindE (PoolConfig_Validate config) (\<lambda>_.
         bindE (slotsForPoolTx d (pc_PoolID config)) (\<lambda>slots.
         Inr (fold (retireSurplus (targetSlots config) now) slots
               (fold (applyOrdinal config now slots) [1..targetSlots config] d)))))"

section \<open>Mutations\<close>

definition requestedOperation :: "JobPoolMutation \<Rightarrow> string \<Rightarrow> string \<Rightarrow> uint64 \<Rightarrow> PoolConfig option \<Rightarrow> slot list \<Rightarrow>
    JobPoolOperation" where
  "requestedOperation m operationID configDigest generation previousConfig previousSlots =
     \<lparr>jo_OperationID = operationID, jo_PoolID = pc_PoolID (jm_Config m), jo_Operation = jm_Operation m,
      jo_State = JobPoolRequested, jo_Actor = jm_Actor m, jo_ExpectedRevision = jm_ExpectedRevision m,
      jo_ConfigRevision = pc_ConfigRevision (jm_Config m), jo_RequestedAt = jm_RequestedAt m,
      jo_UpdatedAt = jm_RequestedAt m, jo_CompletedAt = zeroTime, jo_Result = [], jo_FailureCode = [],
      jo_EnvironmentGeneration = generation, jo_LastSuccessfulAt = zeroTime, jo_ConfigDigest = configDigest,
      jo_PreviousConfig = previousConfig, jo_PreviousSlots = previousSlots\<rparr>"

definition applyJobPoolTx :: "JobPoolMutation \<Rightarrow> string \<Rightarrow> jdb \<Rightarrow> ((JobPoolOperation \<times> bool) \<times> jdb) result" where
  "applyJobPoolTx mutation0 configDigest d =
     (case kget (jd_idempotency d) (jm_IdempotencyKey mutation0) of
        Some raw \<Rightarrow>
          (case kget (jd_operations d) raw of
             None \<Rightarrow> Inl (StoreErr ErrCorruptData)
           | Some v \<Rightarrow>
               bindE (corrupt (decode v)) (\<lambda>existing.
               if jo_PoolID existing \<noteq> pc_PoolID (jm_Config mutation0) \<or> jo_Operation existing \<noteq> jm_Operation mutation0
                  \<or> jo_Actor existing \<noteq> jm_Actor mutation0
                  \<or> jo_ExpectedRevision existing \<noteq> jm_ExpectedRevision mutation0
                  \<or> (jo_ConfigDigest existing \<noteq> [] \<and> jo_ConfigDigest existing \<noteq> configDigest)
               then Inl (JobPoolErr ErrJobPoolIdempotencyConflict)
               else Inr ((existing, True), d)))
      | None \<Rightarrow>
          bindE (case kget (sd_pools (jd_db d)) (pc_PoolID (jm_Config mutation0)) of
                   None \<Rightarrow> Inr None
                 | Some raw \<Rightarrow> bindE (corrupt (decode raw)) (\<lambda>c. Inr (Some (PoolConfig_Normalized c)))) (\<lambda>current.
          let currentRevision = (case current of None \<Rightarrow> 0 | Some c \<Rightarrow> pc_ConfigRevision c)
          in if jm_ExpectedRevision mutation0 \<noteq> currentRevision then Inl (JobPoolErr ErrJobPoolStaleRevision)
             else
               bindE (slotsForPoolTx (jd_db d) (pc_PoolID (jm_Config mutation0))) (\<lambda>previousSlots.
               let generation = environmentGenerationTx (jd_db d) (pc_EnvironmentID (jm_Config mutation0))
                                  (pc_EnvironmentVersion (jm_Config mutation0));
                   config = (jm_Config mutation0)\<lparr>pc_ConfigRevision := currentRevision + 1,
                              pc_UpdatedAt := jm_RequestedAt mutation0, pc_UpdatedBy := jm_Actor mutation0\<rparr>;
                   mutation = mutation0\<lparr>jm_Config := config\<rparr>;
                   s1 = putPool config (jd_db d)
               in bindE (if (case current of None \<Rightarrow> True | Some c \<Rightarrow> \<not> jobPoolEnvironmentChanged c config)
                         then reconcilePoolSlotsTx config (jm_RequestedAt mutation) s1 else Inr s1) (\<lambda>s2.
                  let d2 = d\<lparr>jd_db := s2\<rparr>;
                      operationID = newJobPoolOperationID mutation d2;
                      result = requestedOperation mutation operationID configDigest generation current previousSlots;
                      d3 = (putOperation operationID result d2)\<lparr>jd_idempotency :=
                              kput (jm_IdempotencyKey mutation) operationID (jd_idempotency d2)\<rparr>
                  in bindE (putJobPoolAuditTx
                       \<lparr>ja_EventID = ''audit_'' @ operationID, ja_OperationID = operationID, ja_Actor = jm_Actor mutation,
                        ja_PoolID = pc_PoolID config, ja_Operation = jm_Operation mutation, ja_FromState = noJobPoolState,
                        ja_ToState = JobPoolRequested, ja_ConfigRevision = pc_ConfigRevision config,
                        ja_EnvironmentGeneration = generation, ja_Outcome = ''requested'', ja_FailureCode = [],
                        ja_OccurredAt = jm_RequestedAt mutation\<rparr> d3) (\<lambda>d4. Inr ((result, False), d4))))))"

text \<open>\<open>clock\<close> is what \<open>time.Now\<close> returns.\<close>

definition ApplyJobPool :: "jcommit \<Rightarrow> gotime \<Rightarrow> JobPoolMutation \<Rightarrow> jdb \<Rightarrow> (JobPoolOperation \<times> bool) result \<times> jdb" where
  "ApplyJobPool commit clock mutation d =
     (let now = (if IsZero (jm_RequestedAt mutation) then clock else jm_RequestedAt mutation)
      in case normalizeMutation mutation now of
           Inl e \<Rightarrow> (Inl e, d)
         | Inr m \<Rightarrow> update commit (applyJobPoolTx m (jobPoolConfigDigest (jm_Config m))) d)"

definition changePool :: "jcommit \<Rightarrow> gotime \<Rightarrow> string \<Rightarrow> string \<Rightarrow> (PoolConfig \<Rightarrow> PoolConfig) \<Rightarrow> uint64 \<Rightarrow> string \<Rightarrow> string \<Rightarrow> gotime \<Rightarrow>
    jdb \<Rightarrow> (JobPoolOperation \<times> bool) result \<times> jdb" where
  "changePool commit clock operation poolID change expectedRevision idempotencyKey actor at d =
     (case GetJobPool poolID (jd_db d) of
        Inl e \<Rightarrow> (Inl e, d)
      | Inr config \<Rightarrow> ApplyJobPool commit clock
          \<lparr>jm_Config = change config, jm_Operation = operation, jm_IdempotencyKey = idempotencyKey, jm_Actor = actor,
           jm_ExpectedRevision = expectedRevision, jm_RequestedAt = at\<rparr> d)"

definition ScaleJobPool :: "jcommit \<Rightarrow> gotime \<Rightarrow> string \<Rightarrow> int \<Rightarrow> uint64 \<Rightarrow> string \<Rightarrow> string \<Rightarrow> gotime \<Rightarrow> jdb \<Rightarrow>
    (JobPoolOperation \<times> bool) result \<times> jdb" where
  "ScaleJobPool commit clock poolID desiredSlots =
     changePool commit clock ''scale'' poolID (\<lambda>config. config\<lparr>pc_DesiredSlots := desiredSlots\<rparr>)"

definition DrainJobPool :: "jcommit \<Rightarrow> gotime \<Rightarrow> string \<Rightarrow> uint64 \<Rightarrow> string \<Rightarrow> string \<Rightarrow> gotime \<Rightarrow> jdb \<Rightarrow>
    (JobPoolOperation \<times> bool) result \<times> jdb" where
  "DrainJobPool commit clock poolID =
     changePool commit clock ''drain'' poolID (\<lambda>config. config\<lparr>pc_DesiredState := ''draining''\<rparr>)"

definition ResumeJobPool :: "jcommit \<Rightarrow> gotime \<Rightarrow> string \<Rightarrow> uint64 \<Rightarrow> string \<Rightarrow> string \<Rightarrow> gotime \<Rightarrow> jdb \<Rightarrow>
    (JobPoolOperation \<times> bool) result \<times> jdb" where
  "ResumeJobPool commit clock poolID =
     changePool commit clock ''resume'' poolID (\<lambda>config. config\<lparr>pc_DesiredState := ''enabled''\<rparr>)"

text \<open>A retried deletion finds its operation by the idempotency key, even when the pool is gone.\<close>

definition DeleteJobPool :: "jcommit \<Rightarrow> gotime \<Rightarrow> string \<Rightarrow> uint64 \<Rightarrow> string \<Rightarrow> string \<Rightarrow> gotime \<Rightarrow> jdb \<Rightarrow>
    (JobPoolOperation \<times> bool) result \<times> jdb" where
  "DeleteJobPool commit clock poolID expectedRevision idempotencyKey actor at d =
     (let key = TrimSpace idempotencyKey
      in case (if key = [] then None else kget (jd_idempotency d) key) of
           Some raw \<Rightarrow>
             (case getJSON (jd_operations d) raw (JobPoolErr ErrJobPoolOperationNotFound) of
                Inl e \<Rightarrow> (Inl e, d)
              | Inr existing \<Rightarrow>
                  if jo_PoolID existing \<noteq> poolID \<or> jo_Operation existing \<noteq> ''delete''
                     \<or> jo_ExpectedRevision existing \<noteq> expectedRevision \<or> jo_Actor existing \<noteq> TrimSpace actor
                  then (Inl (JobPoolErr ErrJobPoolIdempotencyConflict), d)
                  else (Inr (existing, True), d))
         | None \<Rightarrow>
             changePool commit clock ''delete'' poolID
               (\<lambda>config. config\<lparr>pc_DesiredSlots := 0, pc_DesiredState := ''draining''\<rparr>)
               expectedRevision idempotencyKey actor at d)"

section \<open>Queries\<close>

definition GetJobPoolOperation :: "string \<Rightarrow> jdb \<Rightarrow> JobPoolOperation result" where
  "GetJobPoolOperation operationID = view (\<lambda>d.
     bindE (getJSON (jd_operations d) operationID (JobPoolErr ErrJobPoolOperationNotFound)) (\<lambda>result.
     bindE (JobPoolOperation_Validate result) (\<lambda>_. Inr result)))"

text \<open>The page of the most recent entries of a pool: a limit of zero means a hundred.\<close>

definition lastPage :: "nat \<Rightarrow> 'a list \<Rightarrow> 'a list" where
  "lastPage limit xs = drop (length xs - limit) xs"

definition pageLimit :: "int \<Rightarrow> nat result" where
  "pageLimit limit0 =
     (let limit = (if limit0 = 0 then 100 else limit0)
      in if limit < 1 \<or> 1000 < limit then Inl (StoreErr ErrInvalidRequest) else Inr (nat limit))"

definition ListJobPoolOperations :: "string \<Rightarrow> int \<Rightarrow> jdb \<Rightarrow> JobPoolOperation list result" where
  "ListJobPoolOperations poolID limit0 d =
     bindE (pageLimit limit0) (\<lambda>limit.
     bindE (view (\<lambda>d. foldE (\<lambda>p acc.
        bindE (decode (snd p)) (\<lambda>value.
        Inr (if jo_PoolID value = poolID then acc @ [value] else acc))) (kentries (jd_operations d)) []) d) (\<lambda>result.
     Inr (lastPage limit (sort_key (\<lambda>v. (jo_RequestedAt v, jo_OperationID v)) result))))"

definition JobPoolDeletionCompleted :: "string \<Rightarrow> jdb \<Rightarrow> bool result" where
  "JobPoolDeletionCompleted poolID d =
     bindE (ListJobPoolOperations poolID 1 d) (\<lambda>operations.
     case operations of
       [] \<Rightarrow> Inr False
     | latest # _ \<Rightarrow> Inr (jo_Operation latest = ''delete'' \<and> jo_State latest = JobPoolApplied \<and> jo_Result latest = ''deleted''))"

definition ListJobPoolAudit :: "string \<Rightarrow> int \<Rightarrow> jdb \<Rightarrow> JobPoolAuditEvent list result" where
  "ListJobPoolAudit poolID limit0 d =
     bindE (pageLimit limit0) (\<lambda>limit.
     bindE (view (\<lambda>d. foldE (\<lambda>p acc.
        bindE (decode (snd p)) (\<lambda>value.
        Inr (if ja_PoolID value = poolID then acc @ [value] else acc))) (kentries (jd_audit d)) []) d) (\<lambda>result.
     Inr (lastPage limit (sort_key (\<lambda>v. (ja_OccurredAt v, ja_EventID v)) result))))"

definition environmentReadiness :: "PoolConfig \<Rightarrow> sdb \<Rightarrow> bool \<times> string \<times> uint64" where
  "environmentReadiness config d =
     (case GetEnvironmentRecord (pc_EnvironmentID config) (pc_EnvironmentVersion config) d of
        Inl _ \<Rightarrow>
          if length (pc_ManifestDigest config) = 64 \<and> pc_Signer config \<noteq> []
          then (False, ''environment_unavailable'', 0) else (True, ''ready'', 0)
      | Inr record \<Rightarrow>
          if \<not> en_Installed record then (False, ''environment_unavailable'', en_Generation record)
          else if \<not> en_Verified record then (False, ''environment_unverified'', en_Generation record)
          else if \<not> en_Trusted record \<or> (pc_RequireTrusted config \<and> \<not> en_Trusted record)
          then (False, ''environment_untrusted'', en_Generation record)
          else if \<not> en_Enabled record then (False, ''environment_disabled'', en_Generation record)
          else if \<not> en_Healthy record then (False, ''environment_unhealthy'', en_Generation record)
          else if \<not> IsReady record \<or> \<not> EqualFold (en_ManifestDigest record) (pc_ManifestDigest config)
                  \<or> en_Signer record \<noteq> pc_Signer config
          then (False, ''environment_unready'', en_Generation record)
          else (True, ''ready'', en_Generation record))"

text \<open>The newest operation of a pool, or the zero value when there is none.\<close>

definition zeroOperation :: JobPoolOperation where
  "zeroOperation =
     \<lparr>jo_OperationID = [], jo_PoolID = [], jo_Operation = [], jo_State = noJobPoolState, jo_Actor = [],
      jo_ExpectedRevision = 0, jo_ConfigRevision = 0, jo_RequestedAt = zeroTime, jo_UpdatedAt = zeroTime,
      jo_CompletedAt = zeroTime, jo_Result = [], jo_FailureCode = [], jo_EnvironmentGeneration = 0,
      jo_LastSuccessfulAt = zeroTime, jo_ConfigDigest = [], jo_PreviousConfig = None, jo_PreviousSlots = []\<rparr>"

definition latestOperation :: "JobPoolOperation list \<Rightarrow> JobPoolOperation" where
  "latestOperation operations = (if operations = [] then zeroOperation else last operations)"

definition GetJobPoolProjection :: "gotime \<Rightarrow> string \<Rightarrow> gotime \<Rightarrow> jdb \<Rightarrow> JobPoolProjection result" where
  "GetJobPoolProjection clock poolID at0 d =
     (let at = (if IsZero at0 then clock else at0)
      in bindE (GetJobPool poolID (jd_db d)) (\<lambda>config.
         bindE (SlotPoolStatus poolID at (jd_db d)) (\<lambda>status.
         let (ready, readiness, generation) = environmentReadiness config (jd_db d)
         in bindE (ListJobPoolOperations poolID 1000 d) (\<lambda>operations.
            let operation = latestOperation operations
            in Inr \<lparr>jp_Config = config, jp_Status = status, jp_EnvironmentReady = ready,
                    jp_EnvironmentReadiness = readiness, jp_ReconcileState = jo_State operation,
                    jp_OperationID = jo_OperationID operation, jp_LastFailureCode = jo_FailureCode operation,
                    jp_LastSuccessfulReconcileAt = jo_LastSuccessfulAt operation,
                    jp_EnvironmentGeneration = generation\<rparr>))))"

definition ListJobPoolProjections :: "gotime \<Rightarrow> gotime \<Rightarrow> jdb \<Rightarrow> JobPoolProjection list result" where
  "ListJobPoolProjections clock at d =
     bindE (ListJobPools (jd_db d)) (\<lambda>configs.
     foldE (\<lambda>config acc.
       bindE (GetJobPoolProjection clock (pc_PoolID config) at d) (\<lambda>value. Inr (acc @ [value]))) configs [])"

section \<open>Operations in progress\<close>

definition operationAudit :: "string \<Rightarrow> JobPoolOperation \<Rightarrow> JobPoolOperationState \<Rightarrow> JobPoolOperationState \<Rightarrow> uint64 \<Rightarrow> string \<Rightarrow>
    string \<Rightarrow> gotime \<Rightarrow> JobPoolAuditEvent" where
  "operationAudit eventID operation from to generation outcome failureCode at =
     \<lparr>ja_EventID = eventID, ja_OperationID = jo_OperationID operation, ja_Actor = jo_Actor operation,
      ja_PoolID = jo_PoolID operation, ja_Operation = jo_Operation operation, ja_FromState = from, ja_ToState = to,
      ja_ConfigRevision = jo_ConfigRevision operation, ja_EnvironmentGeneration = generation,
      ja_Outcome = outcome, ja_FailureCode = failureCode, ja_OccurredAt = at\<rparr>"

definition updateOperationTx :: "string \<Rightarrow> JobPoolOperationState \<Rightarrow> string \<Rightarrow> string \<Rightarrow> gotime \<Rightarrow> jdb \<Rightarrow>
    (JobPoolOperation \<times> jdb) result" where
  "updateOperationTx operationID state result failureCode at d =
     bindE (getJSON (jd_operations d) operationID (JobPoolErr ErrJobPoolOperationNotFound)) (\<lambda>current0.
     if terminalJobPoolOperation (jo_State current0) then Inr (current0, d)
     else
       let previous = jo_State current0;
           current1 = current0\<lparr>jo_State := state, jo_Result := result, jo_FailureCode := failureCode, jo_UpdatedAt := at,
             jo_CompletedAt := (if terminalJobPoolOperation state then at else jo_CompletedAt current0),
             jo_LastSuccessfulAt := (if state = JobPoolApplied then at else jo_LastSuccessfulAt current0)\<rparr>;
           current = (if jo_EnvironmentGeneration current1 = 0
             then (case getJSON (sd_pools (jd_db d)) (jo_PoolID current1) (SlotErr ErrPoolNotFound) of
                     Inl _ \<Rightarrow> current1
                   | Inr config \<Rightarrow> current1\<lparr>jo_EnvironmentGeneration :=
                       environmentGenerationTx (jd_db d) (pc_EnvironmentID config) (pc_EnvironmentVersion config)\<rparr>)
             else current1);
           d1 = putOperation operationID current d
       in bindE (putJobPoolAuditTx ((operationAudit (nextJobPoolAuditID d1 operationID at) current previous state
               (jo_EnvironmentGeneration current) result failureCode at)\<lparr>ja_OperationID := operationID\<rparr>) d1) (\<lambda>d2.
          Inr (current, d2)))"

definition UpdateJobPoolOperation :: "jcommit \<Rightarrow> gotime \<Rightarrow> string \<Rightarrow> JobPoolOperationState \<Rightarrow> string \<Rightarrow> string \<Rightarrow> gotime \<Rightarrow> jdb \<Rightarrow>
    JobPoolOperation result \<times> jdb" where
  "UpdateJobPoolOperation commit clock operationID state result failureCode at =
     update commit (updateOperationTx operationID state result failureCode (if IsZero at then clock else at))"

section \<open>Rollback\<close>

definition previousByID :: "JobPoolOperation \<Rightarrow> string \<Rightarrow> slot option" where
  "previousByID operation slotID = find (\<lambda>s. sl_SlotID s = slotID) (rev (jo_PreviousSlots operation))"

definition deleteSlot :: "string \<Rightarrow> sdb \<Rightarrow> sdb" where
  "deleteSlot slotID d = d\<lparr>sd_slots := kdel slotID (sd_slots d)\<rparr>"

definition rollbackSlot :: "JobPoolOperation \<Rightarrow> gotime \<Rightarrow> slot \<Rightarrow> sdb \<Rightarrow> sdb" where
  "rollbackSlot operation at current d =
     (let leased = kget (sd_slotLeases d) (sl_SlotID current) \<noteq> None;
          drained = current\<lparr>sl_Status := Draining, sl_UpdatedAt := at\<rparr>
      in case previousByID operation (sl_SlotID current) of
           None \<Rightarrow> if leased then putSlot drained d else deleteSlot (sl_SlotID current) d
         | Some previous \<Rightarrow>
             if leased \<and> sl_EnvironmentGeneration current \<noteq> sl_EnvironmentGeneration previous then putSlot drained d
             else putSlot (previous\<lparr>sl_UpdatedAt := at\<rparr>) d)"

definition restoreSlot :: "string list \<Rightarrow> gotime \<Rightarrow> slot \<Rightarrow> sdb \<Rightarrow> sdb" where
  "restoreSlot seen at previous d =
     (if sl_SlotID previous \<in> set seen \<or> kget (sd_slotLeases d) (sl_SlotID previous) \<noteq> None then d
      else putSlot (previous\<lparr>sl_UpdatedAt := at\<rparr>) d)"

definition restorePool :: "JobPoolOperation \<Rightarrow> sdb \<Rightarrow> sdb" where
  "restorePool operation d =
     (case jo_PreviousConfig operation of
        None \<Rightarrow> d\<lparr>sd_pools := kdel (jo_PoolID operation) (sd_pools d)\<rparr>
      | Some config \<Rightarrow> d\<lparr>sd_pools := kput (jo_PoolID operation) (Json config) (sd_pools d)\<rparr>)"

definition rollbackTx :: "string \<Rightarrow> string \<Rightarrow> gotime \<Rightarrow> jdb \<Rightarrow> (JobPoolOperation \<times> jdb) result" where
  "rollbackTx operationID failureCode at d =
     bindE (getJSON (jd_operations d) operationID (JobPoolErr ErrJobPoolOperationNotFound)) (\<lambda>updated0.
     if terminalJobPoolOperation (jo_State updated0) then Inr (updated0, d)
     else
       let s1 = restorePool updated0 (jd_db d)
       in bindE (slotsForPoolTx s1 (jo_PoolID updated0)) (\<lambda>slots.
          let s2 = fold (rollbackSlot updated0 at) slots s1;
              s3 = fold (restoreSlot (map sl_SlotID slots) at) (jo_PreviousSlots updated0) s2;
              updated = updated0\<lparr>jo_State := JobPoolRolledBack, jo_Result := ''rolled_back'', jo_FailureCode := failureCode,
                          jo_UpdatedAt := at, jo_CompletedAt := at\<rparr>;
              d1 = putOperation operationID updated (d\<lparr>jd_db := s3\<rparr>)
          in bindE (putJobPoolAuditTx ((operationAudit (nextJobPoolAuditID d1 operationID at) updated (jo_State updated0)
                  JobPoolRolledBack (jo_EnvironmentGeneration updated) ''rolled_back'' failureCode at)
                    \<lparr>ja_OperationID := operationID\<rparr>) d1) (\<lambda>d2. Inr (updated, d2))))"

definition RollbackJobPoolOperation :: "jcommit \<Rightarrow> gotime \<Rightarrow> string \<Rightarrow> string \<Rightarrow> gotime \<Rightarrow> jdb \<Rightarrow>
    JobPoolOperation result \<times> jdb" where
  "RollbackJobPoolOperation commit clock operationID failureCode at =
     update commit (rollbackTx operationID failureCode (if IsZero at then clock else at))"

section \<open>Superseded operations\<close>

definition supersede :: "string \<Rightarrow> PoolConfig \<Rightarrow> gotime \<Rightarrow> string \<times> JobPoolOperation json \<Rightarrow> jdb \<Rightarrow> jdb result" where
  "supersede poolID config at entry d =
     bindE (decode (snd entry)) (\<lambda>operation0.
     if jo_PoolID operation0 \<noteq> poolID \<or> terminalJobPoolOperation (jo_State operation0)
        \<or> pc_ConfigRevision config \<le> jo_ConfigRevision operation0
     then Inr d
     else
       let operation = operation0\<lparr>jo_State := JobPoolCancelled, jo_Result := ''superseded'', jo_FailureCode := ''superseded'',
                         jo_UpdatedAt := at, jo_CompletedAt := at\<rparr>;
           d1 = putOperation (fst entry) operation d
       in putJobPoolAuditTx (operationAudit (nextJobPoolAuditID d1 (jo_OperationID operation) at) operation
            (jo_State operation0) JobPoolCancelled (jo_EnvironmentGeneration operation) ''superseded'' ''superseded'' at) d1)"

definition recoverStaleTx :: "string \<Rightarrow> gotime \<Rightarrow> jdb \<Rightarrow> (unit \<times> jdb) result" where
  "recoverStaleTx poolID at d =
     bindE (getJSON (sd_pools (jd_db d)) poolID (JobPoolErr ErrJobPoolNotFound)) (\<lambda>config.
     bindE (foldE (supersede poolID config at) (kentries (jd_operations d)) d) (\<lambda>d'. Inr ((), d')))"

definition RecoverStaleJobPoolOperations :: "jcommit \<Rightarrow> gotime \<Rightarrow> string \<Rightarrow> gotime \<Rightarrow> jdb \<Rightarrow> unit result \<times> jdb" where
  "RecoverStaleJobPoolOperations commit clock poolID at =
     update commit (recoverStaleTx poolID (if IsZero at then clock else at))"

section \<open>Deletion\<close>

definition finalizeTx :: "string \<Rightarrow> string \<Rightarrow> gotime \<Rightarrow> jdb \<Rightarrow> (JobPoolOperation \<times> jdb) result" where
  "finalizeTx operationID poolID at d =
     bindE (getJSON (jd_operations d) operationID (JobPoolErr ErrJobPoolOperationNotFound)) (\<lambda>updated0.
     if jo_Operation updated0 \<noteq> ''delete'' \<or> jo_PoolID updated0 \<noteq> poolID \<or> terminalJobPoolOperation (jo_State updated0)
     then Inr (updated0, d)
     else
       bindE (slotsForPoolTx (jd_db d) poolID) (\<lambda>slots.
       if list_ex (\<lambda>s. sl_Status s \<noteq> Deleted \<or> kget (sd_slotLeases (jd_db d)) (sl_SlotID s) \<noteq> None) slots
       then Inr (updated0, d)
       else
         let s1 = (jd_db d)\<lparr>sd_pools := kdel poolID (sd_pools (jd_db d))\<rparr>;
             s2 = fold (\<lambda>s. deleteSlot (sl_SlotID s)) slots s1;
             updated = updated0\<lparr>jo_State := JobPoolApplied, jo_Result := ''deleted'', jo_UpdatedAt := at, jo_CompletedAt := at\<rparr>;
             d1 = putOperation operationID updated (d\<lparr>jd_db := s2\<rparr>)
         in bindE (putJobPoolAuditTx ((operationAudit (nextJobPoolAuditID d1 operationID at) updated (jo_State updated0)
                 JobPoolApplied 0 ''deleted'' [] at)\<lparr>ja_OperationID := operationID, ja_PoolID := poolID\<rparr>) d1) (\<lambda>d2.
            Inr (updated, d2))))"

definition finalizeDeletedJobPool :: "jcommit \<Rightarrow> gotime \<Rightarrow> string \<Rightarrow> string \<Rightarrow> gotime \<Rightarrow> jdb \<Rightarrow> JobPoolOperation result \<times> jdb" where
  "finalizeDeletedJobPool commit clock operationID poolID at =
     update commit (finalizeTx operationID poolID (if IsZero at then clock else at))"

section \<open>The reconciliation of the control plane\<close>

text \<open>\<open>ReconcileJobPool\<close> on the tables of the control plane.\<close>

definition reconcileOn :: "jcommit \<Rightarrow> PoolConfig \<Rightarrow> gotime \<Rightarrow> jdb \<Rightarrow> unit result \<times> jdb" where
  "reconcileOn commit config at d =
     (let (r, s) = ReconcileJobPool (\<lambda>s. commit (d\<lparr>jd_db := s\<rparr>)) config at (jd_db d) in (r, d\<lparr>jd_db := s\<rparr>))"

text \<open>The transactions of one call after another; the first error ends the call.\<close>

definition andThen :: "'a result \<times> jdb \<Rightarrow> ('a \<Rightarrow> jdb \<Rightarrow> 'b result \<times> jdb) \<Rightarrow> 'b result \<times> jdb" where
  "andThen step next = (case step of (Inl e, d) \<Rightarrow> (Inl e, d) | (Inr x, d) \<Rightarrow> next x d)"

definition reading :: "(jdb \<Rightarrow> 'a result) \<Rightarrow> jdb \<Rightarrow> 'a result \<times> jdb" where
  "reading query d = (query d, d)"

definition needsEnvironment :: "PoolConfig \<Rightarrow> bool" where
  "needsEnvironment config \<longleftrightarrow>
     0 < pc_DesiredSlots config \<and> pc_DesiredState config \<noteq> ''draining'' \<and> pc_DesiredState config \<noteq> ''disabled''"

text \<open>
  The visible phases of an operation, each a transaction of its own; \<open>commit n\<close> is the outcome of
  the n-th transaction of the call.
\<close>

definition advancePhases :: "(nat \<Rightarrow> jcommit) \<Rightarrow> gotime \<Rightarrow> string \<Rightarrow> PoolConfig \<Rightarrow> JobPoolOperation \<Rightarrow> JobPoolProjection \<Rightarrow> gotime \<Rightarrow> jdb \<Rightarrow>
    JobPoolOperation result \<times> jdb" where
  "advancePhases commit clock poolID config operation projection at d =
     (let oid = jp_OperationID projection; st = jp_Status projection
      in andThen (UpdateJobPoolOperation (commit 0) clock oid JobPoolValidating ''validating'' [] at d) (\<lambda>_ d.
         if \<not> jp_EnvironmentReady projection \<and> needsEnvironment config
         then UpdateJobPoolOperation (commit 1) clock oid JobPoolFailed ''failed'' (jp_EnvironmentReadiness projection) at d
         else if pc_DesiredState config = ''draining'' \<or> pc_DesiredState config = ''disabled'' then
           andThen (UpdateJobPoolOperation (commit 1) clock oid JobPoolDraining ''draining'' [] at d) (\<lambda>updated d.
           if sc_Leased st = 0 \<and> sc_Draining st = 0 \<and> sc_Retiring st = 0 \<and> sc_Provisioning st = 0
              \<and> sc_Unprovisioned st = 0 \<and> sc_Quarantined st = 0
           then if jo_Operation operation = ''delete''
                then finalizeDeletedJobPool (commit 2) clock (jo_OperationID operation) poolID at d
                else UpdateJobPoolOperation (commit 2) clock oid JobPoolApplied ''applied'' [] at d
           else (Inr updated, d))
         else
           andThen (UpdateJobPoolOperation (commit 1) clock oid JobPoolProvisioning ''provisioning'' [] at d) (\<lambda>updated d.
           if (\<not> needsEnvironment config \<or> jp_EnvironmentReady projection) \<and> pc_DesiredSlots config \<le> sc_Ready st
              \<and> sc_Provisioning st = 0 \<and> sc_Unprovisioned st = 0 \<and> sc_Draining st = 0 \<and> sc_Retiring st = 0
           then andThen (UpdateJobPoolOperation (commit 2) clock oid JobPoolHealthCheck ''health_check'' [] at d) (\<lambda>_ d.
                andThen (UpdateJobPoolOperation (commit 3) clock oid JobPoolCommitting ''committing'' [] at d) (\<lambda>_ d.
                UpdateJobPoolOperation (commit 4) clock oid JobPoolApplied ''applied'' [] at d))
           else (Inr updated, d))))"

definition withOperation :: "JobPoolProjection \<Rightarrow> JobPoolOperation \<Rightarrow> JobPoolProjection" where
  "withOperation projection updated =
     projection\<lparr>jp_ReconcileState := jo_State updated, jp_LastFailureCode := jo_FailureCode updated,
                jp_LastSuccessfulReconcileAt := jo_LastSuccessfulAt updated\<rparr>"

text \<open>The projection of an operation whose pool never existed: every other field is zero.\<close>

definition bareProjection :: "JobPoolOperation \<Rightarrow> JobPoolProjection" where
  "bareProjection updated =
     \<lparr>jp_Config = \<lparr>pc_PoolID = [], pc_EnvironmentID = [], pc_EnvironmentVersion = [], pc_DesiredSlots = 0,
        pc_MaxConcurrency = 0, pc_Capabilities = [], pc_ManifestDigest = [], pc_Signer = [], pc_RequireTrusted = False,
        pc_DesiredState = [], pc_ConfigRevision = 0, pc_UpdatedBy = [], pc_UpdatedAt = zeroTime\<rparr>,
      jp_Status = \<lparr>sc_PoolID = [], sc_EnvironmentID = [], sc_EnvironmentVersion = [], sc_Desired = 0, sc_Ready = 0,
        sc_Leased = 0, sc_Quarantined = 0, sc_Draining = 0, sc_Provisioning = 0, sc_Retiring = 0,
        sc_Unprovisioned = 0, sc_Stopped = 0\<rparr>,
      jp_EnvironmentReady = False, jp_EnvironmentReadiness = [], jp_ReconcileState = jo_State updated,
      jp_OperationID = jo_OperationID updated, jp_LastFailureCode = jo_FailureCode updated,
      jp_LastSuccessfulReconcileAt = zeroTime, jp_EnvironmentGeneration = 0\<rparr>"

definition ReconcileJobPoolControl :: "(nat \<Rightarrow> jcommit) \<Rightarrow> gotime \<Rightarrow> string \<Rightarrow> gotime \<Rightarrow> jdb \<Rightarrow> JobPoolProjection result \<times> jdb" where
  "ReconcileJobPoolControl commit clock poolID at0 d =
     (let at = (if IsZero at0 then clock else at0)
      in andThen (reading (\<lambda>d. GetJobPool poolID (jd_db d)) d) (\<lambda>config d.
         andThen (case RecoverStaleJobPoolOperations (commit 0) clock poolID at d of
                    (Inl e, d) \<Rightarrow> if e = JobPoolErr ErrJobPoolNotFound then (Inr (), d) else (Inl e, d)
                  | (Inr u, d) \<Rightarrow> (Inr u, d)) (\<lambda>_ d.
         andThen (reading (ListJobPoolOperations poolID 1000) d) (\<lambda>operations d.
         let operation = latestOperation operations;
             (ready, readiness, _) = environmentReadiness config (jd_db d);
             open = \<not> terminalJobPoolOperation (jo_State operation)
         in if open \<and> needsEnvironment config \<and> \<not> ready then
              andThen (RollbackJobPoolOperation (commit 1) clock (jo_OperationID operation) readiness at d) (\<lambda>updated d.
              if jo_PreviousConfig updated = None then (Inr (bareProjection updated), d)
              else reading (GetJobPoolProjection clock poolID at) d)
            else
              andThen (if open then reconcileOn (commit 1) config at d else (Inr (), d)) (\<lambda>_ d.
              andThen (reading (GetJobPoolProjection clock poolID at) d) (\<lambda>projection d.
              if jp_OperationID projection = [] then (Inr projection, d)
              else if open \<and> jo_Operation operation \<noteq> ''delete'' \<and> 0 < sc_Quarantined (jp_Status projection) then
                andThen (RollbackJobPoolOperation (commit 2) clock (jo_OperationID operation) ''slot_quarantined'' at d) (\<lambda>updated d.
                andThen (reading (GetJobPoolProjection clock poolID at) d) (\<lambda>projection d.
                (Inr (withOperation projection updated), d)))
              else
                andThen (advancePhases (\<lambda>n. commit (n + 2)) clock poolID config operation projection at d) (\<lambda>updated d.
                (Inr (withOperation projection updated), d))))))))"

end
