(* ===== verification/JobPoolFacts.thy ===== *)
theory JobPoolFacts
  imports JobPool SlotTarget
begin

text \<open>
  Facts on the control plane of pools: unused names exist, operations keep their identity and
  terminal ones their state in every step, and what a mutation and a rollback do to the slots.
\<close>

section \<open>Unused names\<close>

abbreviation numbered :: "string \<Rightarrow> nat \<Rightarrow> string" where
  "numbered base i \<equiv> base @ ''_'' @ decimal i"

lemma numbered_inj: "numbered base i = numbered base j \<Longrightarrow> i = j"
  using digitsVal_decimal by (metis append_same_eq same_append_eq)

lemma unusedFrom_used:
  "kget bucket (unusedFrom fuel bucket base i) \<noteq> None \<Longrightarrow> \<forall>j \<in> {i..<i + fuel}. kget bucket (numbered base j) \<noteq> None"
proof (induction fuel arbitrary: i)
  case (Suc fuel)
  have used: "kget bucket (numbered base i) \<noteq> None" using Suc.prems by (auto simp: Let_def split: if_splits)
  then have "kget bucket (unusedFrom fuel bucket base (Suc i)) \<noteq> None" using Suc.prems by (auto simp: Let_def)
  from Suc.IH [OF this] used show ?case by (auto simp: le_less Suc_le_eq)
qed simp

lemma unusedName_fresh: "kget bucket (unusedName bucket base) = None"
proof (rule ccontr)
  assume n: "kget bucket (unusedName bucket base) \<noteq> None"
  then have b: "kget bucket base \<noteq> None" by (auto simp: unusedName_def split: if_splits)
  let ?keys = "set (map fst (kentries bucket))"
  let ?names = "insert base (numbered base ` {1..<1 + klen bucket})"
  have "?names \<subseteq> ?keys"
    using n b unusedFrom_used [of bucket "klen bucket" base 1] by (auto simp: unusedName_def kget_None_iff)
  then have "card ?names \<le> card ?keys" by (intro card_mono) simp_all
  also have "\<dots> \<le> klen bucket" using card_length [of "map fst (kentries bucket)"] by (simp add: klen_def)
  finally have "card ?names \<le> klen bucket" .
  moreover have "card ?names = Suc (klen bucket)"
  proof -
    have "inj_on (numbered base) {1..<1 + klen bucket}" using numbered_inj by (auto simp: inj_on_def)
    moreover have "base \<notin> numbered base ` {1..<1 + klen bucket}" by auto
    ultimately show ?thesis by (simp add: card_image)
  qed
  ultimately show False by simp
qed

section \<open>Operations keep their identity\<close>

definition sameOperation :: "JobPoolOperation \<Rightarrow> JobPoolOperation \<Rightarrow> bool" where
  "sameOperation v w \<longleftrightarrow>
     jo_OperationID w = jo_OperationID v \<and> jo_PoolID w = jo_PoolID v \<and> jo_Operation w = jo_Operation v \<and>
     jo_Actor w = jo_Actor v \<and> jo_ExpectedRevision w = jo_ExpectedRevision v \<and> jo_ConfigRevision w = jo_ConfigRevision v \<and>
     jo_RequestedAt w = jo_RequestedAt v \<and> jo_ConfigDigest w = jo_ConfigDigest v \<and>
     jo_PreviousConfig w = jo_PreviousConfig v \<and> jo_PreviousSlots w = jo_PreviousSlots v"

definition opsKept :: "jdb \<Rightarrow> jdb \<Rightarrow> bool" where
  "opsKept d d' \<longleftrightarrow>
     (\<forall>k i. kget (jd_idempotency d) k = Some i \<longrightarrow> kget (jd_idempotency d') k = Some i) \<and>
     (\<forall>i v. kget (jd_operations d) i = Some (Json v) \<longrightarrow>
        (\<exists>w. kget (jd_operations d') i = Some (Json w) \<and> sameOperation v w \<and> (terminalJobPoolOperation (jo_State v) \<longrightarrow> w = v)))"

lemma sameOperation_refl [simp]: "sameOperation v v"
  by (simp add: sameOperation_def)

lemma sameOperation_trans: "sameOperation u v \<Longrightarrow> sameOperation v w \<Longrightarrow> sameOperation u w"
  by (simp add: sameOperation_def)

lemma opsKept_refl [simp]: "opsKept d d"
  by (simp add: opsKept_def)

lemma opsKept_trans:
  assumes "opsKept d e" "opsKept e f"
  shows "opsKept d f"
  unfolding opsKept_def
proof (intro conjI allI impI)
  fix k i
  assume "kget (jd_idempotency d) k = Some i"
  with assms show "kget (jd_idempotency f) k = Some i" unfolding opsKept_def by simp
next
  fix i v
  assume "kget (jd_operations d) i = Some (Json v)"
  with assms(1) obtain u where u: "kget (jd_operations e) i = Some (Json u)" "sameOperation v u"
      "terminalJobPoolOperation (jo_State v) \<longrightarrow> u = v"
    unfolding opsKept_def by blast
  with assms(2) obtain w where w: "kget (jd_operations f) i = Some (Json w)" "sameOperation u w"
      "terminalJobPoolOperation (jo_State u) \<longrightarrow> w = u"
    unfolding opsKept_def by blast
  with u show "\<exists>w. kget (jd_operations f) i = Some (Json w) \<and> sameOperation v w \<and> (terminalJobPoolOperation (jo_State v) \<longrightarrow> w = v)"
    using sameOperation_trans [OF u(2) w(2)] by auto
qed

lemma opsKept_same:
  "jd_operations d' = jd_operations d \<Longrightarrow> jd_idempotency d' = jd_idempotency d \<Longrightarrow> opsKept d d'"
  by (auto simp: opsKept_def intro: sameOperation_refl)

text \<open>One operation is written: a new one, or the next state of an open one.\<close>

lemma opsKept_put:
  assumes "jd_operations d' = kput i (Json w) (jd_operations d)" "jd_idempotency d' = jd_idempotency d"
    and "\<And>v. kget (jd_operations d) i = Some (Json v) \<Longrightarrow> sameOperation v w \<and> \<not> terminalJobPoolOperation (jo_State v)"
  shows "opsKept d d'"
  unfolding opsKept_def
proof (intro conjI allI impI)
  fix j v
  assume "kget (jd_operations d) j = Some (Json v)"
  then show "\<exists>w. kget (jd_operations d') j = Some (Json w) \<and> sameOperation v w \<and> (terminalJobPoolOperation (jo_State v) \<longrightarrow> w = v)"
    using assms by (cases "j = i") auto
qed (use assms(2) in simp)

lemma putAudit_ok:
  "putJobPoolAuditTx e d = Inr d' \<Longrightarrow> jd_db d' = jd_db d \<and> jd_operations d' = jd_operations d \<and> jd_idempotency d' = jd_idempotency d"
  by (auto simp: putJobPoolAuditTx_def)

lemma update_kept:
  assumes "\<And>x d'. fn d = Inr (x, d') \<Longrightarrow> opsKept d d'"
  shows "opsKept d (snd (update c fn d))"
  using assms by (auto simp: update_def split: sum.splits option.splits)

lemma putOperation_sel [simp]:
  "jd_db (putOperation i v d) = jd_db d" "jd_operations (putOperation i v d) = kput i (Json v) (jd_operations d)"
  "jd_idempotency (putOperation i v d) = jd_idempotency d" "jd_audit (putOperation i v d) = jd_audit d"
  by (simp_all add: putOperation_def)

lemma updateOperationTx_kept: "updateOperationTx i st r f at d = Inr (v, d') \<Longrightarrow> opsKept d d'"
proof (cases "kget (jd_operations d) i")
  case (Some raw)
  assume ok: "updateOperationTx i st r f at d = Inr (v, d')"
  then obtain v0 where v0: "raw = Json v0" using Some by (auto simp: updateOperationTx_def getJSON_def)
  show ?thesis
  proof (cases "terminalJobPoolOperation (jo_State v0)")
    case True
    with ok Some v0 show ?thesis by (simp add: updateOperationTx_def getJSON_def)
  next
    case False
    have "jd_operations d' = kput i (Json v) (jd_operations d)" "jd_idempotency d' = jd_idempotency d" "sameOperation v0 v"
      using ok Some v0 False
      by (auto simp: updateOperationTx_def getJSON_def Let_def sameOperation_def dest!: putAudit_ok split: sum.splits if_splits)
    with Some v0 False show ?thesis by (intro opsKept_put) auto
  qed
qed (simp add: updateOperationTx_def getJSON_def)

lemma rollbackTx_kept: "rollbackTx i f at d = Inr (v, d') \<Longrightarrow> opsKept d d'"
proof (cases "kget (jd_operations d) i")
  case (Some raw)
  assume ok: "rollbackTx i f at d = Inr (v, d')"
  then obtain v0 where v0: "raw = Json v0" using Some by (auto simp: rollbackTx_def getJSON_def)
  show ?thesis
  proof (cases "terminalJobPoolOperation (jo_State v0)")
    case True
    with ok Some v0 show ?thesis by (simp add: rollbackTx_def getJSON_def)
  next
    case False
    have "jd_operations d' = kput i (Json v) (jd_operations d)" "jd_idempotency d' = jd_idempotency d" "sameOperation v0 v"
      using ok Some v0 False by (auto simp: rollbackTx_def getJSON_def Let_def sameOperation_def dest!: putAudit_ok)
    with Some v0 False show ?thesis by (intro opsKept_put) auto
  qed
qed (simp add: rollbackTx_def getJSON_def)

lemma finalizeTx_kept: "finalizeTx i p at d = Inr (v, d') \<Longrightarrow> opsKept d d'"
proof (cases "kget (jd_operations d) i")
  case (Some raw)
  assume ok: "finalizeTx i p at d = Inr (v, d')"
  then obtain v0 where v0: "raw = Json v0" using Some by (auto simp: finalizeTx_def getJSON_def)
  show ?thesis
  proof (cases "d' = d")
    case False
    then have "\<not> terminalJobPoolOperation (jo_State v0)" "jd_operations d' = kput i (Json v) (jd_operations d)"
      "jd_idempotency d' = jd_idempotency d" "sameOperation v0 v"
      using ok Some v0
      by (auto simp: finalizeTx_def getJSON_def Let_def sameOperation_def dest!: putAudit_ok split: if_splits)
    with Some v0 show ?thesis by (intro opsKept_put) auto
  qed simp
qed (simp add: finalizeTx_def getJSON_def)

lemma supersede_kept:
  assumes ok: "supersede p c at e d = Inr d'" and raw: "kget (jd_operations d) (fst e) = Some (snd e)"
  shows "opsKept d d' \<and> (\<forall>k. k \<noteq> fst e \<longrightarrow> kget (jd_operations d') k = kget (jd_operations d) k)"
proof -
  from ok obtain v where v: "snd e = Json v" by (auto simp: supersede_def)
  show ?thesis
  proof (cases "jo_PoolID v \<noteq> p \<or> terminalJobPoolOperation (jo_State v) \<or> pc_ConfigRevision c \<le> jo_ConfigRevision v")
    case False
    let ?w = "v\<lparr>jo_State := JobPoolCancelled, jo_Result := ''superseded'', jo_FailureCode := ''superseded'',
        jo_UpdatedAt := at, jo_CompletedAt := at\<rparr>"
    have "jd_operations d' = kput (fst e) (Json ?w) (jd_operations d)" "jd_idempotency d' = jd_idempotency d"
      using ok v False by (auto simp: supersede_def Let_def dest!: putAudit_ok)
    then show ?thesis using False raw v by (auto intro!: opsKept_put simp: sameOperation_def)
  qed (use ok v in \<open>auto simp: supersede_def\<close>)
qed

lemma supersede_loop_kept:
  assumes "foldE (supersede p c at) es d = Inr d'" "distinct (map fst es)"
    and "\<And>e. e \<in> set es \<Longrightarrow> kget (jd_operations d) (fst e) = Some (snd e)"
  shows "opsKept d d'"
  using assms
proof (induction es arbitrary: d)
  case (Cons e es)
  then obtain d1 where d1: "supersede p c at e d = Inr d1" "foldE (supersede p c at) es d1 = Inr d'" by auto
  note k = supersede_kept [OF d1(1) Cons.prems(3) [of e]]
  have "opsKept d1 d'"
  proof (rule Cons.IH [OF d1(2)])
    fix f
    assume f: "f \<in> set es"
    then have "fst f \<noteq> fst e" using Cons.prems(2) by (metis distinct.simps(2) image_eqI list.set_map list.simps(9))
    with k Cons.prems(3) [of f] f show "kget (jd_operations d1) (fst f) = Some (snd f)" by simp
  qed (use Cons.prems(2) in simp)
  with k show ?case using opsKept_trans by auto
qed simp

lemma recoverStaleTx_kept: "recoverStaleTx p at d = Inr (u, d') \<Longrightarrow> opsKept d d'"
  using supersede_loop_kept [where es = "kentries (jd_operations d)" and d = d and d' = d']
  by (auto simp: recoverStaleTx_def kentries_iff)

section \<open>Names of operations and events\<close>

lemma unusedName_Cons: "\<exists>xs. unusedName b (c # cs) = c # xs"
proof -
  have "\<exists>xs. unusedFrom n b (c # cs) i = c # xs" for n i by (induction n arbitrary: i) (simp_all add: Let_def)
  then show ?thesis by (simp add: unusedName_def)
qed

lemma auditID_nonblank: "TrimSpace (nextJobPoolAuditID d i at) \<noteq> []"
proof -
  obtain xs where "nextJobPoolAuditID d i at = CHR ''a'' # xs"
    using unusedName_Cons [of "jd_audit d" "CHR ''a''"] by (auto simp: nextJobPoolAuditID_def)
  then show ?thesis using TrimSpace_nonblank [of "CHR ''a''" xs] by (simp add: plainChar_def)
qed

lemma operationID_nonblank: "TrimSpace (newJobPoolOperationID m d) \<noteq> []"
proof -
  obtain xs where "newJobPoolOperationID m d = CHR ''o'' # xs"
    using unusedName_Cons [of "jd_operations d" "CHR ''o''"] by (auto simp: newJobPoolOperationID_def)
  then show ?thesis using TrimSpace_nonblank [of "CHR ''o''" xs] by (simp add: plainChar_def)
qed

section \<open>A mutation\<close>

definition storedRevision :: "PoolConfig option \<Rightarrow> uint64" where
  "storedRevision current = (case current of None \<Rightarrow> 0 | Some c \<Rightarrow> pc_ConfigRevision c)"

definition nextConfig :: "JobPoolMutation \<Rightarrow> PoolConfig option \<Rightarrow> PoolConfig" where
  "nextConfig m current = (jm_Config m)\<lparr>pc_ConfigRevision := storedRevision current + 1,
     pc_UpdatedAt := jm_RequestedAt m, pc_UpdatedBy := jm_Actor m\<rparr>"

definition sameRequest :: "JobPoolMutation \<Rightarrow> string \<Rightarrow> JobPoolOperation \<Rightarrow> bool" where
  "sameRequest m digest v \<longleftrightarrow> jo_PoolID v = pc_PoolID (jm_Config m) \<and> jo_Operation v = jm_Operation m \<and>
     jo_Actor v = jm_Actor m \<and> jo_ExpectedRevision v = jm_ExpectedRevision m \<and>
     (jo_ConfigDigest v = [] \<or> jo_ConfigDigest v = digest)"

lemma applyJobPoolTx_known:
  assumes "kget (jd_idempotency d) (jm_IdempotencyKey m) = Some i" "kget (jd_operations d) i = Some (Json v)"
  shows "applyJobPoolTx m digest d =
     (if sameRequest m digest v then Inr ((v, True), d) else Inl (JobPoolErr ErrJobPoolIdempotencyConflict))"
  using assms by (auto simp: applyJobPoolTx_def sameRequest_def)

lemma applyJobPoolTx_cases [consumes 1, case_names replay fresh]:
  assumes ok: "applyJobPoolTx m digest d = Inr ((v, b), d')"
  obtains i where "b" "d' = d" "kget (jd_idempotency d) (jm_IdempotencyKey m) = Some i"
      "kget (jd_operations d) i = Some (Json v)" "sameRequest m digest v"
  | current xs s i g where "\<not> b" "kget (jd_idempotency d) (jm_IdempotencyKey m) = None"
      "case kget (sd_pools (jd_db d)) (pc_PoolID (jm_Config m)) of None \<Rightarrow> current = None
         | Some raw \<Rightarrow> \<exists>c. raw = Json c \<and> current = Some (PoolConfig_Normalized c)"
      "jm_ExpectedRevision m = storedRevision current"
      "slotsForPoolTx (jd_db d) (pc_PoolID (jm_Config m)) = Inr xs"
      "(case current of None \<Rightarrow> True | Some c \<Rightarrow> \<not> jobPoolEnvironmentChanged c (nextConfig m current)) \<and>
         reconcilePoolSlotsTx (nextConfig m current) (jm_RequestedAt m) (putPool (nextConfig m current) (jd_db d)) = Inr s \<or>
       s = putPool (nextConfig m current) (jd_db d)"
      "v = requestedOperation (m\<lparr>jm_Config := nextConfig m current\<rparr>) i digest g current xs"
      "kget (jd_operations d) i = None" "jd_db d' = s"
      "jd_operations d' = kput i (Json v) (jd_operations d)"
      "jd_idempotency d' = kput (jm_IdempotencyKey m) i (jd_idempotency d)" "TrimSpace i \<noteq> []"
proof (cases "kget (jd_idempotency d) (jm_IdempotencyKey m)")
  case (Some i)
  with ok obtain w where w: "kget (jd_operations d) i = Some (Json w)"
    by (auto simp: applyJobPoolTx_def split: option.splits)
  from ok [unfolded applyJobPoolTx_known [OF Some w]] show thesis
    using that(1) [of i] Some w by (auto split: if_splits)
next
  case None
  let ?p = "pc_PoolID (jm_Config m)"
  obtain current where cur: "case kget (sd_pools (jd_db d)) ?p of None \<Rightarrow> current = None
         | Some raw \<Rightarrow> \<exists>c. raw = Json c \<and> current = Some (PoolConfig_Normalized c)"
    and read: "(case kget (sd_pools (jd_db d)) ?p of None \<Rightarrow> Inr None
         | Some raw \<Rightarrow> bindE (corrupt (decode raw)) (\<lambda>c. Inr (Some (PoolConfig_Normalized c)))) = (Inr current :: PoolConfig option result)"
  proof (cases "kget (sd_pools (jd_db d)) ?p")
    case (Some raw)
    with ok None obtain c where "raw = Json c" by (cases raw) (simp_all add: applyJobPoolTx_def)
    with Some that [of "Some (PoolConfig_Normalized c)"] show thesis by simp
  qed (use that in simp)
  let ?cfg = "nextConfig m current"
  let ?g = "environmentGenerationTx (jd_db d) (pc_EnvironmentID (jm_Config m)) (pc_EnvironmentVersion (jm_Config m))"
  have rev: "jm_ExpectedRevision m = storedRevision current"
    using ok None read by (auto simp: applyJobPoolTx_def Let_def storedRevision_def split: if_splits)
  have cfg: "(jm_Config m)\<lparr>pc_ConfigRevision := (case current of None \<Rightarrow> 0 | Some c \<Rightarrow> pc_ConfigRevision c) + 1,
      pc_UpdatedAt := jm_RequestedAt m, pc_UpdatedBy := jm_Actor m\<rparr> = ?cfg"
    by (simp add: nextConfig_def storedRevision_def)
  obtain xs s where xs: "slotsForPoolTx (jd_db d) ?p = Inr xs"
    and s: "(if (case current of None \<Rightarrow> True | Some c \<Rightarrow> \<not> jobPoolEnvironmentChanged c ?cfg)
       then reconcilePoolSlotsTx ?cfg (jm_RequestedAt (m\<lparr>jm_Config := ?cfg\<rparr>)) (putPool ?cfg (jd_db d)) else Inr (putPool ?cfg (jd_db d))) = Inr s"
    and v: "b = False \<and> v = requestedOperation (m\<lparr>jm_Config := ?cfg\<rparr>) (newJobPoolOperationID (m\<lparr>jm_Config := ?cfg\<rparr>) (d\<lparr>jd_db := s\<rparr>))
        digest ?g current xs"
    and d': "jd_db d' = s \<and> jd_operations d' = kput (newJobPoolOperationID (m\<lparr>jm_Config := ?cfg\<rparr>) (d\<lparr>jd_db := s\<rparr>)) (Json v) (jd_operations d) \<and>
       jd_idempotency d' = kput (jm_IdempotencyKey m) (newJobPoolOperationID (m\<lparr>jm_Config := ?cfg\<rparr>) (d\<lparr>jd_db := s\<rparr>)) (jd_idempotency d)"
    using ok None read rev [unfolded storedRevision_def]
    by (auto simp: applyJobPoolTx_def Let_def cfg dest!: putAudit_ok)
  have "kget (jd_operations d) (newJobPoolOperationID (m\<lparr>jm_Config := ?cfg\<rparr>) (d\<lparr>jd_db := s\<rparr>)) = None"
    using unusedName_fresh [of "jd_operations d"] by (simp add: newJobPoolOperationID_def)
  then show thesis
    using that(2) [of current xs s "newJobPoolOperationID (m\<lparr>jm_Config := ?cfg\<rparr>) (d\<lparr>jd_db := s\<rparr>)" ?g] None cur rev xs s v d' operationID_nonblank
    by (auto split: if_splits)
qed

lemma applyJobPoolTx_kept:
  assumes "applyJobPoolTx m digest d = Inr ((v, b), d')"
  shows "opsKept d d'"
  using assms
proof (cases rule: applyJobPoolTx_cases)
  case (fresh current xs s i g)
  show ?thesis unfolding opsKept_def fresh(10,11) using fresh(2,8) by auto
qed simp

end
