(* ===== verification/JobPoolSlots.thy ===== *)
theory JobPoolSlots
  imports JobPoolFacts
begin

text \<open>
  What a mutation of a pool and the rollback of an operation do to the slots, name by name, and that
  a rollback right after the mutation undoes it.
\<close>

section \<open>The slots after a mutation\<close>

definition applied :: "PoolConfig \<Rightarrow> gotime \<Rightarrow> slot list \<Rightarrow> int \<Rightarrow> slot option" where
  "applied config now slots ordinal =
     (case byOrdinal slots ordinal of
        None \<Rightarrow> Some (newSlot config now ordinal)
      | Some s \<Rightarrow> if sl_Status s \<noteq> Deleted \<and> targetChanged s config then reconciled config now slots ordinal else None)"

lemma applyOrdinal_put: "applyOrdinal config now slots i d = putOpt (applied config now slots i) d"
  by (simp add: applyOrdinal_def applied_def reconciled_def putOpt_def split: option.splits)

lemma applied_reconciled: "applied config now slots i = Some s \<Longrightarrow> reconciled config now slots i = Some s"
  by (auto simp: applied_def reconciled_def split: option.splits if_splits)

lemma reconcilePoolSlotsTx_ok:
  assumes "reconcilePoolSlotsTx p now d = Inr d'" "pc_DesiredState p \<noteq> []"
  obtains xs where "PoolConfig_Validate p = Inr ()" "slotsForPoolTx d (pc_PoolID p) = Inr xs"
    "d' = fold (\<lambda>s. putOpt (retired (targetSlots p) now (sd_slotLeases d) s)) xs
       (fold (\<lambda>i. putOpt (applied p now xs i)) [1..targetSlots p] d)"
proof -
  from assms obtain xs where v: "PoolConfig_Validate p = Inr ()" and xs: "slotsForPoolTx d (pc_PoolID p) = Inr xs"
    and d': "d' = fold (retireSurplus (targetSlots p) now) xs (fold (applyOrdinal p now xs) [1..targetSlots p] d)"
    by (auto simp: reconcilePoolSlotsTx_def Let_def)
  have "applyOrdinal p now xs = (\<lambda>i. putOpt (applied p now xs i))" by (intro ext applyOrdinal_put)
  with d' show thesis by (intro that [OF v xs]) (simp add: fold_retire)
qed

text \<open>A slot that may be written for a pool: no other pool's slot, and no other generation, is replaced.\<close>

definition fitsPool :: "string \<Rightarrow> sdb \<Rightarrow> slot \<Rightarrow> bool" where
  "fitsPool p d v \<longleftrightarrow> sl_PoolID v = p \<and> (\<forall>t. kget (sd_slots d) (sl_SlotID v) = Some (Json t) \<longrightarrow>
     sl_PoolID t = p \<and> sl_EnvironmentGeneration v = sl_EnvironmentGeneration t)"

definition slotsGrow :: "string \<Rightarrow> sdb \<Rightarrow> sdb \<Rightarrow> bool" where
  "slotsGrow p d s \<longleftrightarrow> (\<forall>k. kget (sd_slots s) k = kget (sd_slots d) k \<or>
     (\<exists>v. kget (sd_slots s) k = Some (Json v) \<and> sl_SlotID v = k \<and> fitsPool p d v))"

lemma slotsGrow_fold:
  assumes "slotsGrow p d s" "\<And>x v. x \<in> set xs \<Longrightarrow> w x = Some v \<Longrightarrow> fitsPool p d v"
  shows "slotsGrow p d (fold (\<lambda>x. putOpt (w x)) xs s)"
  using assms
proof (induction xs arbitrary: s)
  case (Cons x xs)
  have "slotsGrow p d (putOpt (w x) s)"
    using Cons.prems(1) Cons.prems(2) [of x] by (cases "w x") (auto simp: slotsGrow_def putOpt_get)
  then have "slotsGrow p d (fold (\<lambda>x. putOpt (w x)) xs (putOpt (w x) s))" by (rule Cons.IH) (use Cons.prems(2) in auto)
  then show ?case by simp
qed simp

lemma reconciled_fits:
  assumes inv: "slot_inv now d" and xs: "slotsForPoolTx d (pc_PoolID p) = Inr xs" and i: "1 \<le> i"
    and w: "reconciled p now xs i = Some v"
  shows "fitsPool (pc_PoolID p) d v"
proof (cases "byOrdinal xs i")
  case None
  then have "v = newSlot p now i" using w by (simp add: reconciled_def)
  moreover have "kget (sd_slots d) (slotName (pc_PoolID p) i) = None"
  proof (cases "kget (sd_slots d) (slotName (pc_PoolID p) i)")
    case (Some raw)
    obtain s where "raw = Json s" "sl_PoolID s = pc_PoolID p" "sl_Ordinal s = i" by (rule slot_at_name [OF inv Some i])
    then have "s \<in> set xs" using slotsForPoolTx_ok(1) [OF inv xs] Some by auto
    then show ?thesis using None \<open>sl_Ordinal s = i\<close> by (auto simp: byOrdinal_None)
  qed
  ultimately show ?thesis by (simp add: fitsPool_def newSlot_def)
next
  case (Some t)
  then have t: "t \<in> set xs" using byOrdinal_Some by blast
  from reconciled_Some [OF w Some] obtain st where "v = t\<lparr>sl_Status := st, sl_UpdatedAt := now\<rparr>" by blast
  then show ?thesis using slotsForPoolTx_slot(1,2) [OF inv xs t] by (simp add: fitsPool_def)
qed

lemma retired_fits:
  assumes inv: "slot_inv now d" and xs: "slotsForPoolTx d p = Inr xs" and t: "t \<in> set xs"
    and w: "retired tg now ls t = Some v"
  shows "fitsPool p d v"
  using slotsForPoolTx_slot(1,2) [OF inv xs t] w by (auto simp: retired_def fitsPool_def split: if_splits)

lemma mutation_slots:
  assumes inv: "slot_inv now d" and now: "0 < now" and p: "PoolConfig_Validate p = Inr ()" "plainPool p" "pc_DesiredState p \<noteq> []"
    and s: "reconcilePoolSlotsTx p now (putPool p d) = Inr s \<or> s = putPool p d"
  shows "slot_inv now s" "sd_slotLeases s = sd_slotLeases d" "sd_pools s = sd_pools (putPool p d)"
    "sd_core s = sd_core d" "slotsGrow (pc_PoolID p) d s"
proof -
  let ?d1 = "putPool p d"
  have inv1: "slot_inv now ?d1" by (rule putPool_inv [OF inv p(1)])
  have "slot_inv now s \<and> sd_slotLeases s = sd_slotLeases d \<and> sd_pools s = sd_pools ?d1 \<and> sd_core s = sd_core d \<and>
    slotsGrow (pc_PoolID p) d s"
    using s
  proof
    assume r: "reconcilePoolSlotsTx p now ?d1 = Inr s"
    obtain xs where xs: "slotsForPoolTx ?d1 (pc_PoolID p) = Inr xs"
      and eq: "s = fold (\<lambda>s. putOpt (retired (targetSlots p) now (sd_slotLeases d) s)) xs
        (fold (\<lambda>i. putOpt (applied p now xs i)) [1..targetSlots p] ?d1)"
      by (rule reconcilePoolSlotsTx_ok [OF r p(3)]) simp
    let ?d2 = "fold (\<lambda>i. putOpt (applied p now xs i)) [1..targetSlots p] ?d1"
    have ap: "slotOk now ?d1 (sl_SlotID v) v \<and> fitsPool (pc_PoolID p) ?d1 v"
      if "i \<in> set [1..targetSlots p]" "applied p now xs i = Some v" for i v
      using reconciled_ok [OF inv1 now p(1,2) _ xs _ _ applied_reconciled [OF that(2)]] that(1) targetSlots_bounds [OF p(1)]
        reconciled_fits [OF inv1 xs _ applied_reconciled [OF that(2)]] by auto
    have inv2: "slot_inv now ?d2" by (rule fold_putOpt_inv [OF inv1]) (use ap in blast)
    have rt: "slotOk now ?d2 (sl_SlotID v) v \<and> fitsPool (pc_PoolID p) ?d1 v"
      if "t \<in> set xs" "retired (targetSlots p) now (sd_slotLeases d) t = Some v" for t v
      using retired_ok [OF inv1 now xs that(1), of "targetSlots p" v] retired_fits [OF inv1 xs that] that(2)
        slotOk_cong [of ?d2 ?d1] by auto
    have "slotsGrow (pc_PoolID p) ?d1 ?d1" by (simp add: slotsGrow_def)
    then have "slotsGrow (pc_PoolID p) ?d1 ?d2" by (rule slotsGrow_fold) (use ap in blast)
    then have "slotsGrow (pc_PoolID p) ?d1 s" unfolding eq by (rule slotsGrow_fold) (use rt in blast)
    then have "slotsGrow (pc_PoolID p) d s" by (simp add: slotsGrow_def fitsPool_def)
    moreover have "slot_inv now s" unfolding eq by (rule fold_putOpt_inv [OF inv2]) (use rt in blast)
    ultimately show ?thesis by (simp add: eq)
  qed (use inv1 in \<open>simp add: slotsGrow_def\<close>)
  then show "slot_inv now s" "sd_slotLeases s = sd_slotLeases d" "sd_pools s = sd_pools ?d1" "sd_core s = sd_core d"
    "slotsGrow (pc_PoolID p) d s" by blast+
qed

section \<open>The slots after a rollback\<close>

text \<open>What the rollback leaves under the name of a slot of the pool.\<close>

definition rolled :: "JobPoolOperation \<Rightarrow> gotime \<Rightarrow> (string, SlotLease json) kmap \<Rightarrow> slot \<Rightarrow> slot json option" where
  "rolled operation at leases current =
     (let leased = kget leases (sl_SlotID current) \<noteq> None;
          drained = current\<lparr>sl_Status := Draining, sl_UpdatedAt := at\<rparr>
      in case previousByID operation (sl_SlotID current) of
           None \<Rightarrow> if leased then Some (Json drained) else None
         | Some previous \<Rightarrow> Some (Json
             (if leased \<and> sl_EnvironmentGeneration current \<noteq> sl_EnvironmentGeneration previous then drained
              else previous\<lparr>sl_UpdatedAt := at\<rparr>)))"

lemma previousByID_Some: "previousByID v k = Some s \<Longrightarrow> s \<in> set (jo_PreviousSlots v) \<and> sl_SlotID s = k"
  unfolding previousByID_def by (drule find_SomeD) simp

lemma previousByID_None: "previousByID v k = None \<longleftrightarrow> (\<forall>s \<in> set (jo_PreviousSlots v). sl_SlotID s \<noteq> k)"
  by (auto simp: previousByID_def find_None_iff)

lemma rollbackSlot_get:
  "kget (sd_slots (rollbackSlot v at c d)) k = (if k = sl_SlotID c then rolled v at (sd_slotLeases d) c else kget (sd_slots d) k)"
  "sd_slotLeases (rollbackSlot v at c d) = sd_slotLeases d" "sd_pools (rollbackSlot v at c d) = sd_pools d"
  "sd_core (rollbackSlot v at c d) = sd_core d"
proof -
  consider "previousByID v (sl_SlotID c) = None" | s where "previousByID v (sl_SlotID c) = Some s" "sl_SlotID s = sl_SlotID c"
    using previousByID_Some by (cases "previousByID v (sl_SlotID c)") blast+
  then show "kget (sd_slots (rollbackSlot v at c d)) k = (if k = sl_SlotID c then rolled v at (sd_slotLeases d) c else kget (sd_slots d) k)"
    "sd_slotLeases (rollbackSlot v at c d) = sd_slotLeases d" "sd_pools (rollbackSlot v at c d) = sd_pools d"
    "sd_core (rollbackSlot v at c d) = sd_core d"
    by (cases; simp add: rollbackSlot_def rolled_def Let_def deleteSlot_def)+
qed

lemma fold_rollback:
  assumes "distinct (map sl_SlotID xs)"
  shows "sd_slotLeases (fold (rollbackSlot v at) xs d) = sd_slotLeases d" "sd_pools (fold (rollbackSlot v at) xs d) = sd_pools d"
    "sd_core (fold (rollbackSlot v at) xs d) = sd_core d"
    "c \<in> set xs \<Longrightarrow> kget (sd_slots (fold (rollbackSlot v at) xs d)) (sl_SlotID c) = rolled v at (sd_slotLeases d) c"
    "k \<notin> sl_SlotID ` set xs \<Longrightarrow> kget (sd_slots (fold (rollbackSlot v at) xs d)) k = kget (sd_slots d) k"
proof -
  show "sd_slotLeases (fold (rollbackSlot v at) xs d) = sd_slotLeases d" "sd_pools (fold (rollbackSlot v at) xs d) = sd_pools d"
    "sd_core (fold (rollbackSlot v at) xs d) = sd_core d" for d
    by (induction xs arbitrary: d) (simp_all add: rollbackSlot_get)
  show miss: "kget (sd_slots (fold (rollbackSlot v at) xs d)) k = kget (sd_slots d) k" if "k \<notin> sl_SlotID ` set xs" for k xs d
    using that by (induction xs arbitrary: d) (simp_all add: rollbackSlot_get)
  show "kget (sd_slots (fold (rollbackSlot v at) xs d)) (sl_SlotID c) = rolled v at (sd_slotLeases d) c" if "c \<in> set xs"
    using assms that
  proof (induction xs arbitrary: d)
    case (Cons x xs)
    show ?case
    proof (cases "c = x")
      case True
      then have "sl_SlotID c \<notin> sl_SlotID ` set xs" using Cons.prems(1) by simp
      then show ?thesis using True miss by (simp add: rollbackSlot_get)
    qed (use Cons in \<open>simp add: rollbackSlot_get\<close>)
  qed simp
qed

lemma restoreSlot_seen:
  "\<forall>s \<in> set ys. sl_SlotID s \<in> set seen \<Longrightarrow> fold (restoreSlot seen at) ys d = d"
  by (induction ys) (simp_all add: restoreSlot_def)

lemma slotsForPoolTx_cong: "sd_slots d = sd_slots e \<Longrightarrow> slotsForPoolTx d p = slotsForPoolTx e p"
  by (simp add: slotsForPoolTx_def)

lemma restorePool_sel [simp]:
  "sd_slots (restorePool v d) = sd_slots d" "sd_slotLeases (restorePool v d) = sd_slotLeases d" "sd_core (restorePool v d) = sd_core d"
  by (simp_all add: restorePool_def split: option.splits)

lemma rollbackTx_ok:
  assumes "rollbackTx i f at d = Inr (w, d')" "kget (jd_operations d) i = Some (Json v)" "\<not> terminalJobPoolOperation (jo_State v)"
  obtains xs where "slotsForPoolTx (jd_db d) (jo_PoolID v) = Inr xs" "jo_State w = JobPoolRolledBack"
    "jd_db d' = fold (restoreSlot (map sl_SlotID xs) at) (jo_PreviousSlots v) (fold (rollbackSlot v at) xs (restorePool v (jd_db d)))"
proof -
  have "slotsForPoolTx (restorePool v (jd_db d)) (jo_PoolID v) = slotsForPoolTx (jd_db d) (jo_PoolID v)"
    by (rule slotsForPoolTx_cong) simp
  then show thesis using assms that by (auto simp: rollbackTx_def getJSON_def Let_def dest!: putAudit_ok)
qed

end
