(* ===== verification/SlotFindings.thy ===== *)
theory SlotFindings
  imports SlotDemo JobPoolSlots
begin

text \<open>
  Behaviours of internal/store/slots.go that differ from what its comments promise or from what the
  rest of the store relies on. Each lemma shows one on the model; none of them is used elsewhere.
\<close>

text \<open>
  A deleted slot is a tombstone for \<open>ReconcileJobPool\<close> and \<open>SetSlotStatus\<close>, but \<open>QuarantineSlot\<close>
  does not look at the status and brings it back as a quarantined slot.
\<close>

lemma quarantine_revives_tombstone:
  assumes "kget (sd_slots d) k = Some (Json s)" "sl_Status s = Deleted" "kget (sd_slotLeases d) k = None"
    and "now \<noteq> 0" "TrimSpace reason \<noteq> []"
  shows "\<exists>d' s'. QuarantineSlot okS k now reason d = (Inr (), d') \<and> GetSlot k d' = Inr s' \<and> sl_Status s' = Quarantined"
  using assms by (simp add: QuarantineSlot_def update_def okS_def quarantineTx_def getJSON_def GetSlot_iff quarantinedSlot_def)

text \<open>
  \<open>SetSlotStatus\<close> keeps a slot that was never provisioned out of quarantine, because such a slot
  does not validate. \<open>QuarantineSlot\<close> does not, and from then on the whole pool cannot be listed.
\<close>

lemma quarantine_unprovisioned_corrupts:
  "\<exists>d'. QuarantineSlot okS ''pool-1-001'' 7 ''probe failed'' demoS2 = (Inr (), d') \<and>
     ListSlots ''pool-1'' d' = Inl (StoreErr ErrCorruptData)"
proof -
  let ?s = "quarantinedSlot 7 demoSlot"
  have s: "sl_SlotID ?s = ''pool-1-001''" "sl_PoolID ?s = ''pool-1''" "sl_Status ?s = Quarantined" "sl_EnvironmentGeneration ?s = 0"
    using demo_ids_slot by (simp_all add: quarantinedSlot_def)
  then have "Slot_Validate ?s \<noteq> Inr ()" by (simp add: Slot_Validate_iff bareStatus_def)
  then have bad: "\<exists>e. Slot_Validate ?s = Inl e" by (cases "Slot_Validate ?s") auto
  let ?d = "(deleteSlotLease ''pool-1-001'' demoS2)\<lparr>sd_slots := kput ''pool-1-001'' (Json ?s) (sd_slots demoS2)\<rparr>"
  have "kget (sd_slotLeases demoS2) ''pool-1-001'' = None"
    by (simp add: demoS2_def demoS1_def emptySDB_def)
  then have "QuarantineSlot okS ''pool-1-001'' 7 ''probe failed'' demoS2 = (Inr (), ?d)"
    by (simp add: QuarantineSlot_def update_def okS_def quarantineTx_def getJSON_def demoS_sel go_simps)
  moreover have "ListSlots ''pool-1'' ?d = Inl (StoreErr ErrCorruptData)"
    using bad s by (auto simp: ListSlots_def view_def slotsForPoolTx_def demoS_sel slotEntry_def go_simps corrupt_def)
  ultimately show ?thesis by blast
qed

text \<open>
  The confirmation that an agent has stopped is consumed in memory inside the transaction. When the
  commit fails, the lease is still stored but the confirmation is gone, and the next recovery is
  refused although the agent has been fenced.
\<close>

lemma recovery_loses_confirmation:
  defines "st \<equiv> (demoStore demoS4)\<lparr>ss_fenced := kput ''pool-1-001'' demoSlotLease kempty\<rparr>"
  shows "\<exists>st'. RecoverExpiredSlotLeases (\<lambda>_. Some e) 2000 st = (Inl e, st') \<and> ss_db st' = ss_db st \<and>
     fst (RecoverExpiredSlotLeases okS 2000 st') = Inl (StoreErr ErrSlotLeaseFenceRequired)"
proof -
  have inv: "slot_inv 10 demoS4" using slotRun_inv [OF demo_run_claim] by (simp add: world_inv_def demoStore_def)
  have inv2: "slot_inv 2000 demoS4" by (rule slot_inv_mono [OF inv]) simp
  have valid: "SlotLease_Validate demoSlotLease = Inr ()"
    by (rule slot_inv_lease [OF inv, of "''pool-1-001''" "Json demoSlotLease"]) (auto simp: demoS_sel)
  have id: "sk_SlotID demoSlotLease = ''pool-1-001''" "sk_ExpiresAt demoSlotLease = 1010"
    by (simp_all add: demoSlotLease_def)
  have ex: "expiredSlotLeases 2000 demoS4 = Inr [demoSlotLease]"
    using valid id by (simp add: expiredSlotLeases_def demoS_sel SlotLease_Expired_def)
  have s: "kget (sd_slots demoS4) (sk_SlotID demoSlotLease) = Some (Json demoLeased)" "inUse demoLeased"
      "kget (sd_pools demoS4) (sl_PoolID demoLeased) = Some (Json demoPool)" "sl_AgentHandle demoLeased \<noteq> []"
    using demo_ids_slot by (simp_all add: id demoS_sel inUse_def) (simp add: demoLeased_def demo_ids_slot)
  have yes: "confirmed (kput ''pool-1-001'' demoSlotLease kempty) demoSlotLease" by (simp add: confirmed_def id)
  let ?f = "kdel ''pool-1-001'' (kput ''pool-1-001'' demoSlotLease kempty)"
  have no: "\<not> confirmed ?f demoSlotLease" by (simp add: confirmed_def id)
  have "recoverLoop 2000 [demoSlotLease] demoS4 ?f = (Inl (StoreErr ErrSlotLeaseFenceRequired), ?f)"
    unfolding recoverLoop_Cons [OF s(1-3)] using s(4) no by simp
  moreover obtain d where "recoverLoop 2000 [demoSlotLease] demoS4 (kput ''pool-1-001'' demoSlotLease kempty) = (Inr d, ?f)"
    unfolding recoverLoop_Cons [OF s(1-3)] using s(4) yes by (simp add: id)
  ultimately show ?thesis
    by (simp add: st_def demoStore_def RecoverExpiredSlotLeases_def ex)
qed

text \<open>
  A pool name may have 256 characters, a slot name too, and the name of a slot is the pool's name
  with at least four characters more: a pool with a longer name than 252 creates only invalid slots.
\<close>

lemma long_pool_name_corrupts:
  assumes "252 < length (pc_PoolID p)"
  shows "Slot_Validate (newSlot p now i) \<noteq> Inr ()"
  using assms by (auto simp: Slot_Validate_iff slotBody_def newSlot_def validID_def slotName_def pad3_def)

text \<open>
  The joint claim acquires the slot lease as if there were none (\<open>slot.AcquireLease(nil, ...)\<close>), and
  its scan only looks at expired leases. On tables where a ready slot still has a live lease, which a
  rollback of a pool operation produces, the claim overwrites the lease of the other holder.
\<close>

definition otherLease :: SlotLease where
  "otherLease = demoSlotLease\<lparr>sk_LeaseID := ''lease-0-slot'', sk_RequestID := ''req-0'', sk_AccountID := ''acct-0'', sk_Owner := ''other''\<rparr>"

lemma claim_overwrites_live_lease:
  defines "d \<equiv> putSlotLease ''pool-1-001'' otherLease demoS3"
  shows "\<exists>d'. ClaimNextWithSlot okS demoClaimArgs 1 ''pool-1'' anyRequirement d =
       (Inr \<lparr>sm_Claim = demoClaim, sm_SlotLease = demoSlotLease, sm_Slot = demoLeased\<rparr>, d') \<and>
     \<not> SlotLease_Expired otherLease 10 \<and> kget (sd_slotLeases d') ''pool-1-001'' = Some (Json demoSlotLease)"
proof -
  have rq: "rq_RequestID demoQueuedRequest = ''req-1''" "rq_AccountID demoQueuedRequest = ''acct-1''" "dueAt 10 demoQueuedRequest"
    by (simp_all add: demoQueuedRequest_def demoRequest_def dueAt_def)
  have ca: "ca_now demoClaimArgs = 10" "ca_leaseID demoClaimArgs = ''lease-1''" "ca_owner demoClaimArgs = ''worker''"
      "ca_ttl demoClaimArgs = 1000"
    by (simp_all add: demoClaimArgs_def)
  have live: "\<not> SlotLease_Expired otherLease 10" by (simp add: otherLease_def demoSlotLease_def SlotLease_Expired_def)
  have valid: "SlotLease_Validate otherLease = Inr ()"
    by (simp add: otherLease_def demoSlotLease_def SlotLease_Validate_def validID_def go_simps ContainsAny_def)
  have al: "accountLeaseFor demoClaimArgs ''acct-1'' demoDB2 = Inr demoLease"
    using demo_acquire by (simp add: accountLeaseFor_def leaseFromTx_def demoDB2_sel ca)
  have scan: "claimScan 10 demoPool [demoReady] d = Inr (([demoReady], []), d)"
    using live valid by (simp add: d_def Let_def demo_ids_slot)
  let ?d' = "putSlotLease ''pool-1-001'' demoSlotLease (putSlot demoLeased (d\<lparr>sd_core := demoDB3\<rparr>))"
  have "slotClaimLoop demoClaimArgs ''pool-1'' (PoolConfig_Requirement demoPool) [demoReady] [] [demoQueuedRequest] d =
     Inr (\<lparr>sm_Claim = demoClaim, sm_SlotLease = demoSlotLease, sm_Slot = demoLeased\<rparr>, ?d')"
    using demo_slot_acquire demo_candidate demo_matches
    by (simp add: rq ca d_def demoS_sel demoDB2_account demo_ids al demo_ids_slot) (simp add: demoLeased_def Let_def)
  then have "claimSlotTx demoClaimArgs 1 ''pool-1'' anyRequirement d =
     Inr (\<lparr>sm_Claim = demoClaim, sm_SlotLease = demoSlotLease, sm_Slot = demoLeased\<rparr>, ?d')"
    using demo_queued scan demo_requirement demo_slots3 slotsForPoolTx_cong [of d demoS3]
    by (simp add: claimSlotTx_def d_def demoS_sel existingClaimTx_def demoDB2_sel activeLeaseCountTx_def getJSON_def demo_gate ca)
      (simp add: demoClaimArgs_def)
  then have "ClaimNextWithSlot okS demoClaimArgs 1 ''pool-1'' anyRequirement d =
     (Inr \<lparr>sm_Claim = demoClaim, sm_SlotLease = demoSlotLease, sm_Slot = demoLeased\<rparr>, ?d')"
    by (simp add: ClaimNextWithSlot_def update_def okS_def) (simp add: demoClaimArgs_def go_simps)
  with live show ?thesis by (intro exI [of _ ?d']) simp
qed

end
