(* ===== verification/JobPoolRuns.thy ===== *)
theory JobPoolRuns
  imports JobPoolSlots
begin

text \<open>
  Runs of the control plane: the operations of job_pool_control.go and arbitrary changes of the slot
  tables between them, with any outcome of every transaction. Along a run operations keep their
  identity, and an operation that has reached a terminal state keeps everything.
\<close>

named_theorems kept_intros \<open>steps that keep operations\<close>

lemma andThen_kept [kept_intros]:
  assumes "opsKept d (snd step)" "\<And>x e. opsKept d e \<Longrightarrow> opsKept d (snd (next x e))"
  shows "opsKept d (snd (andThen step next))"
  using assms by (auto simp: andThen_def split: prod.splits sum.splits)

lemma reading_kept [kept_intros]: "opsKept d e \<Longrightarrow> opsKept d (snd (reading q e))"
  by (simp add: reading_def)

lemma if_kept [kept_intros]:
  "opsKept d (snd a) \<Longrightarrow> opsKept d (snd b) \<Longrightarrow> opsKept d (snd (if P then a else b))"
  by simp

lemma pair_kept [kept_intros]: "opsKept d e \<Longrightarrow> opsKept d (snd (x, e))"
  by simp

lemma update_kept_from:
  assumes "opsKept d e" "\<And>x e'. fn e = Inr (x, e') \<Longrightarrow> opsKept e e'"
  shows "opsKept d (snd (update c fn e))"
  using assms(1) update_kept [of fn e c, OF assms(2)] by (rule opsKept_trans)

lemma UpdateJobPoolOperation_kept [kept_intros]:
  "opsKept d e \<Longrightarrow> opsKept d (snd (UpdateJobPoolOperation c clock i st r f at e))"
  unfolding UpdateJobPoolOperation_def by (erule update_kept_from) (rule updateOperationTx_kept)

lemma RollbackJobPoolOperation_kept [kept_intros]:
  "opsKept d e \<Longrightarrow> opsKept d (snd (RollbackJobPoolOperation c clock i f at e))"
  unfolding RollbackJobPoolOperation_def by (erule update_kept_from) (rule rollbackTx_kept)

lemma RecoverStale_kept [kept_intros]:
  "opsKept d e \<Longrightarrow> opsKept d (snd (RecoverStaleJobPoolOperations c clock p at e))"
  unfolding RecoverStaleJobPoolOperations_def by (erule update_kept_from) (rule recoverStaleTx_kept)

lemma finalize_kept [kept_intros]:
  "opsKept d e \<Longrightarrow> opsKept d (snd (finalizeDeletedJobPool c clock i p at e))"
  unfolding finalizeDeletedJobPool_def by (erule update_kept_from) (rule finalizeTx_kept)

lemma ApplyJobPool_kept [kept_intros]: "opsKept d e \<Longrightarrow> opsKept d (snd (ApplyJobPool c clock m e))"
  unfolding ApplyJobPool_def Let_def
  by (auto split: sum.split intro!: update_kept_from dest: applyJobPoolTx_kept)

lemma changePool_kept [kept_intros]: "opsKept d e \<Longrightarrow> opsKept d (snd (changePool c clock q p ch r k a at e))"
  unfolding changePool_def by (auto split: sum.split intro: kept_intros)

lemma DeleteJobPool_kept [kept_intros]: "opsKept d e \<Longrightarrow> opsKept d (snd (DeleteJobPool c clock p r k a at e))"
  unfolding DeleteJobPool_def Let_def by (auto split: option.split sum.split intro: kept_intros)

lemma reconcileOn_kept [kept_intros]: "opsKept d e \<Longrightarrow> opsKept d (snd (reconcileOn c p at e))"
  unfolding reconcileOn_def by (erule opsKept_trans) (simp add: opsKept_same split: prod.split)

lemma stale_tolerated_kept [kept_intros]:
  "opsKept d (snd s) \<Longrightarrow> opsKept d (snd (case fst s of Inl e \<Rightarrow> if e = x then (Inr (), snd s) else (Inl e, snd s) | Inr u \<Rightarrow> (Inr u, snd s)))"
  by (auto split: sum.split)

lemma advancePhases_kept [kept_intros]:
  "opsKept d e \<Longrightarrow> opsKept d (snd (advancePhases c clock p cfg v pr at e))"
  unfolding advancePhases_def Let_def by (intro kept_intros) assumption+

lemma ReconcileJobPoolControl_kept [kept_intros]:
  "opsKept d e \<Longrightarrow> opsKept d (snd (ReconcileJobPoolControl c clock p at e))"
  unfolding ReconcileJobPoolControl_def Let_def case_prod_unfold by (intro kept_intros) assumption+

inductive poolStep :: "jdb \<Rightarrow> jdb \<Rightarrow> bool" where
  slots: "poolStep d (d\<lparr>jd_db := s\<rparr>)"
| apply_pool: "poolStep d (snd (ApplyJobPool c clock m d))"
| scale: "poolStep d (snd (ScaleJobPool c clock p n r k a at d))"
| drain: "poolStep d (snd (DrainJobPool c clock p r k a at d))"
| resume: "poolStep d (snd (ResumeJobPool c clock p r k a at d))"
| delete: "poolStep d (snd (DeleteJobPool c clock p r k a at d))"
| advance: "poolStep d (snd (UpdateJobPoolOperation c clock i st res f at d))"
| rollback: "poolStep d (snd (RollbackJobPoolOperation c clock i f at d))"
| stale: "poolStep d (snd (RecoverStaleJobPoolOperations c clock p at d))"
| finalize: "poolStep d (snd (finalizeDeletedJobPool c clock i p at d))"
| control: "poolStep d (snd (ReconcileJobPoolControl cs clock p at d))"

inductive poolRun :: "jdb \<Rightarrow> jdb \<Rightarrow> bool" where
  start: "poolRun d d"
| step: "poolRun d e \<Longrightarrow> poolStep e f \<Longrightarrow> poolRun d f"

lemma poolStep_kept: "poolStep d d' \<Longrightarrow> opsKept d d'"
  by (induction rule: poolStep.induct)
    (auto simp: ScaleJobPool_def DrainJobPool_def ResumeJobPool_def opsKept_same intro: kept_intros)

lemma poolRun_kept: "poolRun d d' \<Longrightarrow> opsKept d d'"
  by (induction rule: poolRun.induct) (auto intro: opsKept_trans poolStep_kept)

end
