(* ===== verification/JobPoolProps.thy ===== *)
theory JobPoolProps
  imports JobPoolRuns SlotDemo
begin

text \<open>
  The properties of the control plane of pools: exactly-once mutations under a revision check,
  frozen terminal operations, a rollback that undoes, and a deletion that waits for its slots.
\<close>

section \<open>Mutations\<close>

lemma normalizeMutation_Inr:
  assumes "normalizeMutation m now = Inr m'"
  shows "jm_Config m' = PoolConfig_Normalized (jm_Config m)" "PoolConfig_Validate (jm_Config m') = Inr ()"
    "length (jm_Actor m') \<le> 256" "\<not> ContainsAny (jm_Actor m') crlftab"
    "jm_RequestedAt m' = (if jm_RequestedAt m = 0 then now else jm_RequestedAt m)"
    "jm_ExpectedRevision m' = jm_ExpectedRevision m"
  using assms by (auto simp: normalizeMutation_def Let_def split: if_splits)

lemma nextConfig_facts:
  assumes "normalizeMutation m now = Inr m'"
  shows "PoolConfig_Validate (nextConfig m' current) = Inr ()" "pc_DesiredState (nextConfig m' current) \<noteq> []"
    "pc_PoolID (nextConfig m' current) = pc_PoolID (jm_Config m)" "plainPool (nextConfig m' current) = plainPool (jm_Config m)"
proof -
  note n = normalizeMutation_Inr [OF assms]
  have id: "pc_PoolID (PoolConfig_Normalized p) = pc_PoolID p" "pc_DesiredState (PoolConfig_Normalized p) \<noteq> []" for p
    by (simp_all add: PoolConfig_Normalized_def)
  show "PoolConfig_Validate (nextConfig m' current) = Inr ()"
    using n(2,3,4) by (simp add: PoolConfig_Validate_def nextConfig_def PoolConfig_Requirement_def Let_def not_less split: if_splits)
  show "pc_DesiredState (nextConfig m' current) \<noteq> []" "pc_PoolID (nextConfig m' current) = pc_PoolID (jm_Config m)"
    using n(1) id by (simp_all add: nextConfig_def)
  have "plainPool (nextConfig m' current) = plainPool (jm_Config m')" by (simp add: nextConfig_def plainPool_def)
  then show "plainPool (nextConfig m' current) = plainPool (jm_Config m)" by (simp add: n(1))
qed

lemma ApplyJobPool_Inr:
  assumes "ApplyJobPool c clock m d = (Inr (v, b), d')"
  obtains m' where "normalizeMutation m (if jm_RequestedAt m = 0 then clock else jm_RequestedAt m) = Inr m'"
    "applyJobPoolTx m' (jobPoolConfigDigest (jm_Config m')) d = Inr ((v, b), d')"
  using assms that by (auto simp: ApplyJobPool_def Let_def update_Inr split: sum.splits)

text \<open>The clock matters only for the time of the request.\<close>

lemma normalizeMutation_clock:
  assumes "normalizeMutation m t = Inr m'"
  shows "normalizeMutation m u = Inr (m'\<lparr>jm_RequestedAt := (if jm_RequestedAt m = 0 then u else jm_RequestedAt m)\<rparr>)"
  using assms by (auto simp: normalizeMutation_def Let_def split: if_splits)

lemma sameRequest_time [simp]: "sameRequest (m\<lparr>jm_RequestedAt := t\<rparr>) dg v = sameRequest m dg v"
  by (simp add: sameRequest_def)

lemma applied_known:
  assumes "applyJobPoolTx m dg d = Inr ((v, b), d')"
  obtains i where "kget (jd_idempotency d') (jm_IdempotencyKey m) = Some i" "kget (jd_operations d') i = Some (Json v)"
    "sameRequest m dg v"
  using assms
proof (cases rule: applyJobPoolTx_cases)
  case (replay i)
  then show thesis using that by simp
next
  case (fresh current xs s i g)
  have "sameRequest m dg v" by (simp add: fresh(7) sameRequest_def requestedOperation_def nextConfig_def)
  then show thesis using that [of i] by (simp add: fresh(10,11))
qed

text \<open>
  C36. Mutations of pools happen once: a new mutation is accepted only when the caller names the
  revision of the stored configuration, which it increments, and its operation records the pool, the
  operation, the actor, the revision and the digest of the configuration as they were normalized; and
  however the store runs on, repeating the call is answered with that operation and changes nothing,
  and any other well-formed call under the same key gets the same answer when it agrees with the
  recorded operation in all five, and is refused as a conflict, without a change, when it does not.
\<close>

theorem ApplyJobPool_once:
  assumes "ApplyJobPool c clock m d = (Inr (v, b), d1)" "poolRun d1 d2" "c' d2 = None"
  shows "(\<not> b \<longrightarrow> jm_ExpectedRevision m =
        (case GetJobPool (pc_PoolID (jm_Config m)) (jd_db d) of Inl _ \<Rightarrow> 0 | Inr cfg \<Rightarrow> pc_ConfigRevision cfg) \<and>
        jo_ConfigRevision v = jm_ExpectedRevision m + 1) \<and>
     (\<exists>m'. normalizeMutation m (if jm_RequestedAt m = 0 then clock else jm_RequestedAt m) = Inr m' \<and>
        jo_PoolID v = pc_PoolID (jm_Config m') \<and> jo_Operation v = jm_Operation m' \<and> jo_Actor v = jm_Actor m' \<and>
        jo_ExpectedRevision v = jm_ExpectedRevision m' \<and> (\<not> b \<longrightarrow> jo_ConfigDigest v = jobPoolConfigDigest (jm_Config m'))) \<and>
     (\<exists>w. sameOperation v w \<and> ApplyJobPool c' clock' m d2 = (Inr (w, True), d2) \<and>
        (\<forall>n n'. TrimSpace (jm_IdempotencyKey n) = TrimSpace (jm_IdempotencyKey m) \<and>
           normalizeMutation n (if jm_RequestedAt n = 0 then clock' else jm_RequestedAt n) = Inr n' \<longrightarrow>
           ApplyJobPool c' clock' n d2 =
             (if jo_PoolID v = pc_PoolID (jm_Config n') \<and> jo_Operation v = jm_Operation n' \<and> jo_Actor v = jm_Actor n' \<and>
                 jo_ExpectedRevision v = jm_ExpectedRevision n' \<and>
                 (jo_ConfigDigest v = [] \<or> jo_ConfigDigest v = jobPoolConfigDigest (jm_Config n'))
              then (Inr (w, True), d2) else (Inl (JobPoolErr ErrJobPoolIdempotencyConflict), d2))))"
proof -
  obtain m' where m': "normalizeMutation m (if jm_RequestedAt m = 0 then clock else jm_RequestedAt m) = Inr m'"
    and tx: "applyJobPoolTx m' (jobPoolConfigDigest (jm_Config m')) d = Inr ((v, b), d1)"
    by (rule ApplyJobPool_Inr [OF assms(1)])
  obtain i where i: "kget (jd_idempotency d1) (jm_IdempotencyKey m') = Some i" "kget (jd_operations d1) i = Some (Json v)"
      "sameRequest m' (jobPoolConfigDigest (jm_Config m')) v"
    by (rule applied_known [OF tx])
  from poolRun_kept [OF assms(2)] i obtain w where w: "kget (jd_idempotency d2) (jm_IdempotencyKey m') = Some i"
      "kget (jd_operations d2) i = Some (Json w)" "sameOperation v w"
    unfolding opsKept_def by blast
  have key: "jm_IdempotencyKey n' = TrimSpace (jm_IdempotencyKey n)" "pc_PoolID (jm_Config n') = pc_PoolID (jm_Config n)"
      "jm_ExpectedRevision n' = jm_ExpectedRevision n" if "normalizeMutation n t = Inr n'" for n n' t
    using that by (auto simp: normalizeMutation_def Let_def PoolConfig_Normalized_def split: if_splits)
  have first: "jm_ExpectedRevision m =
        (case GetJobPool (pc_PoolID (jm_Config m)) (jd_db d) of Inl _ \<Rightarrow> 0 | Inr cfg \<Rightarrow> pc_ConfigRevision cfg) \<and>
        jo_ConfigRevision v = jm_ExpectedRevision m + 1 \<and> jo_ConfigDigest v = jobPoolConfigDigest (jm_Config m')" if "\<not> b"
    using tx
  proof (cases rule: applyJobPoolTx_cases)
    case (fresh current xs s j g)
    have "storedRevision current = (case GetJobPool (pc_PoolID (jm_Config m)) (jd_db d) of Inl _ \<Rightarrow> 0 | Inr cfg \<Rightarrow> pc_ConfigRevision cfg)"
      using fresh(3) key(2) [OF m'] by (auto simp: storedRevision_def GetJobPool_def view_def getJSON_def split: option.splits)
    then show ?thesis using fresh(4,7) key(3) [OF m'] by (simp add: requestedOperation_def nextConfig_def)
  qed (use that in simp)
  have answer: "ApplyJobPool c' clock' n d2 = (if sameRequest n' (jobPoolConfigDigest (jm_Config n')) v
      then (Inr (w, True), d2) else (Inl (JobPoolErr ErrJobPoolIdempotencyConflict), d2))"
    if n: "TrimSpace (jm_IdempotencyKey n) = TrimSpace (jm_IdempotencyKey m)"
      "normalizeMutation n (if jm_RequestedAt n = 0 then clock' else jm_RequestedAt n) = Inr n'" for n n'
  proof -
    have "kget (jd_idempotency d2) (jm_IdempotencyKey n') = Some i" using w(1) key(1) [OF n(2)] key(1) [OF m'] n(1) by simp
    note a = applyJobPoolTx_known [OF this w(2), of "jobPoolConfigDigest (jm_Config n')"]
    have "sameRequest n' dg w = sameRequest n' dg v" for dg using w(3) by (simp add: sameRequest_def sameOperation_def)
    then show ?thesis using n(2) a assms(3) by (simp add: ApplyJobPool_def update_def)
  qed
  have again: "ApplyJobPool c' clock' m d2 = (Inr (w, True), d2)"
    using answer [OF HOL.refl normalizeMutation_clock [OF m']] i(3) by simp
  have recorded: "jo_PoolID v = pc_PoolID (jm_Config m') \<and> jo_Operation v = jm_Operation m' \<and> jo_Actor v = jm_Actor m' \<and>
      jo_ExpectedRevision v = jm_ExpectedRevision m'" using i(3) by (simp add: sameRequest_def)
  show ?thesis
    using first m' recorded again w(3) answer [unfolded sameRequest_def] by (intro conjI exI [of _ w] exI [of _ m']) blast+
qed

text \<open>
  Operations have one end: along every run of the control plane, rollbacks, superseded
  operations and changes of slots included, an operation keeps its identity and the configuration
  and slots it would be rolled back to, and once it is applied, failed, rolled back or cancelled
  nothing of it changes any more.
\<close>

theorem terminal_operations_frozen:
  assumes "poolRun d d'" "GetJobPoolOperation i d = Inr v"
  shows "\<exists>w. kget (jd_operations d') i = Some (Json w) \<and> sameOperation v w \<and>
     (terminalJobPoolOperation (jo_State v) \<longrightarrow> GetJobPoolOperation i d' = Inr v)"
proof -
  have v: "kget (jd_operations d) i = Some (Json v)" "JobPoolOperation_Validate v = Inr ()"
    using assms(2) by (auto simp: GetJobPoolOperation_def view_def getJSON_Inr)
  from poolRun_kept [OF assms(1)] v(1) obtain w where w: "kget (jd_operations d') i = Some (Json w)" "sameOperation v w"
      "terminalJobPoolOperation (jo_State v) \<longrightarrow> w = v"
    unfolding opsKept_def by blast
  then show ?thesis using v(2) by (auto simp: GetJobPoolOperation_def view_def getJSON_def)
qed

section \<open>Rollback\<close>

text \<open>The slots of a pool before and after a mutation.\<close>

lemma grow_pool:
  assumes inv: "slot_inv t d" and inv': "slot_inv t s" and grow: "slotsGrow p d s" and xs: "slotsForPoolTx s p = Inr xs"
    and u: "kget (sd_slots d) k = Some (Json u)" "sl_PoolID u = p"
  obtains c where "c \<in> set xs" "sl_SlotID c = k" "sl_EnvironmentGeneration c = sl_EnvironmentGeneration u"
proof -
  have id: "sl_SlotID u = k" using slotOkD(1) [OF slot_inv_slot [OF inv u(1)]] .
  note xset = slotsForPoolTx_ok(1) [OF inv' xs]
  from grow consider "kget (sd_slots s) k = kget (sd_slots d) k"
    | c where "kget (sd_slots s) k = Some (Json c)" "sl_SlotID c = k" "fitsPool p d c" unfolding slotsGrow_def by blast
  then show thesis
  proof cases
    case 1
    then show thesis using u id xset by (intro that [of u]) auto
  next
    case (2 c)
    then show thesis using u(1) xset by (intro that [of c]) (auto simp: fitsPool_def)
  qed
qed

lemma grow_new:
  assumes inv': "slot_inv t s" and grow: "slotsGrow p d s" and xs: "slotsForPoolTx s p = Inr xs"
    and k: "kget (sd_slots d) k = None" "k \<notin> sl_SlotID ` set xs"
  shows "kget (sd_slots s) k = None"
proof (rule ccontr)
  assume "kget (sd_slots s) k \<noteq> None"
  then obtain c where c: "kget (sd_slots s) k = Some (Json c)" "sl_SlotID c = k" "fitsPool p d c"
    using grow k(1) unfolding slotsGrow_def by metis
  then have "c \<in> set xs" using slotsForPoolTx_ok(1) [OF inv' xs] by (auto simp: fitsPool_def)
  then show False using k(2) c(2) by blast
qed

lemma previous_is:
  assumes inv: "slot_inv t d" and prev: "slotsForPoolTx d p = Inr (jo_PreviousSlots v)"
  shows "previousByID v k = Some u \<longleftrightarrow> kget (sd_slots d) k = Some (Json u) \<and> sl_PoolID u = p"
proof
  assume "previousByID v k = Some u"
  from previousByID_Some [OF this] show "kget (sd_slots d) k = Some (Json u) \<and> sl_PoolID u = p"
    using slotsForPoolTx_slot(1,2) [OF inv prev, of u] by auto
next
  assume u: "kget (sd_slots d) k = Some (Json u) \<and> sl_PoolID u = p"
  then have m: "u \<in> set (jo_PreviousSlots v)" "sl_SlotID u = k"
    using slotsForPoolTx_ok(1) [OF inv prev] slotOkD(1) [OF slot_inv_slot [OF inv]] by auto
  then obtain w where w: "previousByID v k = Some w" using previousByID_None [of v k] by (cases "previousByID v k") auto
  from previousByID_Some [OF w] u slotsForPoolTx_slot(2) [OF inv prev, of w] w show "previousByID v k = Some u" by auto
qed

text \<open>The slots after a mutation and its rollback.\<close>

definition undone :: "string \<Rightarrow> gotime \<Rightarrow> slot \<Rightarrow> slot" where
  "undone p at u = (if sl_PoolID u = p then u\<lparr>sl_UpdatedAt := at\<rparr> else u)"

lemma rollback_slots:
  assumes inv: "slot_inv t d" and inv': "slot_inv t s" and grow: "slotsGrow p d s" and leases: "sd_slotLeases s = sd_slotLeases d"
    and prev: "slotsForPoolTx d p = Inr (jo_PreviousSlots v)" and xs: "slotsForPoolTx s p = Inr xs"
    and e: "e = fold (restoreSlot (map sl_SlotID xs) at) (jo_PreviousSlots v) (fold (rollbackSlot v at) xs (restorePool v s))"
  shows "sd_slotLeases e = sd_slotLeases d" "sd_pools e = sd_pools (restorePool v s)"
    "kget (sd_slots d) k = Some (Json u) \<Longrightarrow> kget (sd_slots e) k = Some (Json (undone p at u))"
    "kget (sd_slots d) k = None \<Longrightarrow> kget (sd_slots e) k = None"
proof -
  note xset = slotsForPoolTx_ok(1,2) [OF inv' xs]
  have seen: "\<forall>u \<in> set (jo_PreviousSlots v). sl_SlotID u \<in> set (map sl_SlotID xs)"
  proof
    fix u
    assume "u \<in> set (jo_PreviousSlots v)"
    from slotsForPoolTx_slot(1,2) [OF inv prev this] show "sl_SlotID u \<in> set (map sl_SlotID xs)"
      by (metis grow_pool [OF inv inv' grow xs] image_eqI list.set_map)
  qed
  have e': "e = fold (rollbackSlot v at) xs (restorePool v s)" unfolding e by (rule restoreSlot_seen [OF seen])
  note fr = fold_rollback [OF xset(2), where v = v and at = at and d = "restorePool v s", folded e']
  show "sd_slotLeases e = sd_slotLeases d" using fr(1) leases by simp
  show "sd_pools e = sd_pools (restorePool v s)" by (rule fr(2))
  show "kget (sd_slots e) k = None" if none: "kget (sd_slots d) k = None"
  proof (cases "k \<in> sl_SlotID ` set xs")
    case True
    then obtain c where c: "c \<in> set xs" "sl_SlotID c = k" by blast
    have "previousByID v k = None" using previous_is [OF inv prev, of k] none by (cases "previousByID v k") auto
    moreover have "kget (sd_slotLeases d) k = None" using slot_invD(3) [OF inv, of k] none by (metis option.distinct(1))
    ultimately show ?thesis using fr(4) [OF c(1)] c(2) leases by (simp add: rolled_def)
  qed (use fr(5) grow_new [OF inv' grow xs none] in simp)
  show "kget (sd_slots e) k = Some (Json (undone p at u))" if u: "kget (sd_slots d) k = Some (Json u)"
  proof (cases "sl_PoolID u = p")
    case True
    obtain c where c: "c \<in> set xs" "sl_SlotID c = k" "sl_EnvironmentGeneration c = sl_EnvironmentGeneration u"
      by (rule grow_pool [OF inv inv' grow xs u True])
    have "previousByID v k = Some u" using previous_is [OF inv prev] u True by simp
    then show ?thesis using fr(4) [OF c(1)] c True by (simp add: rolled_def Let_def undone_def)
  next
    case False
    have su: "kget (sd_slots s) k = Some (Json u)" using grow u False unfolding slotsGrow_def fitsPool_def by metis
    moreover have "k \<notin> sl_SlotID ` set xs" using su False slotsForPoolTx_slot(1,2) [OF inv' xs] by force
    ultimately show ?thesis using fr(5) [of k] False by (simp add: undone_def)
  qed
qed

text \<open>
  C38. A rollback undoes its mutation: rolling an accepted mutation back before anything else happens
  restores every pool as it was read before and every slot of the pool up to the time of its last
  change, removes the slots the mutation created, leaves the slots of other pools and all leases
  alone, and closes the operation as rolled back.
\<close>

theorem RollbackJobPoolOperation_undoes:
  assumes "slot_inv t (jd_db d)" "0 < t" "t \<le> jm_RequestedAt m" "plainPool (jm_Config m)"
    and "ApplyJobPool c clock m d = (Inr (v, False), d1)" "at \<noteq> 0"
    and "RollbackJobPoolOperation c' clock' (jo_OperationID v) f at d1 = (Inr w, d2)"
  shows "jo_State w = JobPoolRolledBack \<and> sd_slotLeases (jd_db d2) = sd_slotLeases (jd_db d) \<and>
     (\<forall>k. GetJobPool k (jd_db d2) = GetJobPool k (jd_db d)) \<and>
     (\<forall>k s. GetSlot k (jd_db d) = Inr s \<longrightarrow> GetSlot k (jd_db d2) = Inr (undone (pc_PoolID (jm_Config m)) at s)) \<and>
     (\<forall>k s. GetSlot k (jd_db d2) = Inr s \<longrightarrow> (\<exists>u. GetSlot k (jd_db d) = Inr u))"
proof -
  let ?p = "pc_PoolID (jm_Config m)"
  let ?t = "jm_RequestedAt m"
  obtain m' where m': "normalizeMutation m ?t = Inr m'"
    and tx: "applyJobPoolTx m' (jobPoolConfigDigest (jm_Config m')) d = Inr ((v, False), d1)"
    using assms(2,3) by (rule_tac ApplyJobPool_Inr [OF assms(5)]) simp
  have p: "pc_PoolID (jm_Config m') = ?p" "jm_RequestedAt m' = ?t"
    using normalizeMutation_Inr(1,5) [OF m'] by (simp_all add: PoolConfig_Normalized_def)
  have inv: "slot_inv ?t (jd_db d)" "0 < ?t" using slot_inv_mono [OF assms(1)] assms(2,3) by auto
  from tx show ?thesis
  proof (cases rule: applyJobPoolTx_cases)
    case (fresh current xs s i g)
    note nx = nextConfig_facts [OF m', of current]
    have "reconcilePoolSlotsTx (nextConfig m' current) ?t (putPool (nextConfig m' current) (jd_db d)) = Inr s \<or>
        s = putPool (nextConfig m' current) (jd_db d)"
      using fresh(6) p(2) by auto
    note ms = mutation_slots [OF inv nx(1) _ nx(2) this, unfolded nx(3,4), OF assms(4)]
    have v: "jo_OperationID v = i" "jo_PoolID v = ?p" "jo_PreviousSlots v = xs" "jo_PreviousConfig v = current"
        "\<not> terminalJobPoolOperation (jo_State v)"
      using fresh(7) nx(3) by (simp_all add: requestedOperation_def terminalJobPoolOperation_def)
    have "rollbackTx i f at d1 = Inr (w, d2)"
      using assms(6,7) v(1) by (simp add: RollbackJobPoolOperation_def update_Inr)
    then obtain ys where ys: "slotsForPoolTx s ?p = Inr ys" "jo_State w = JobPoolRolledBack"
      and e: "jd_db d2 = fold (restoreSlot (map sl_SlotID ys) at) (jo_PreviousSlots v) (fold (rollbackSlot v at) ys (restorePool v s))"
      using rollbackTx_ok [of i f at d1 w d2 v] fresh(9,10) v by auto
    note rs = rollback_slots [OF inv(1) ms(1,5,2) _ ys(1) e]
    have prev: "slotsForPoolTx (jd_db d) ?p = Inr (jo_PreviousSlots v)" using fresh(5) p(1) v(3) by simp
    note rs = rs [OF prev]
    have "GetJobPool k (jd_db d2) = GetJobPool k (jd_db d)" for k
      using fresh(3) ms(3) rs(2) v(2,4) nx(3) p(1)
      by (auto simp: GetJobPool_def view_def getJSON_def restorePool_def PoolConfig_Normalized_def split: option.splits)
    moreover have "\<exists>u. GetSlot k (jd_db d) = Inr u" if "GetSlot k (jd_db d2) = Inr s'" for k s'
      using that rs(4) [of k] slot_invD(2) [OF inv(1), of k] by (cases "kget (sd_slots (jd_db d)) k") (auto simp: GetSlot_iff)
    ultimately show ?thesis using ys(2) rs(1,3) by (simp add: GetSlot_iff)
  qed simp
qed

section \<open>Deletion\<close>

lemma fold_deleteSlot:
  "kget (sd_slots (fold (\<lambda>s. deleteSlot (sl_SlotID s)) xs d)) k = (if k \<in> sl_SlotID ` set xs then None else kget (sd_slots d) k)"
  "sd_pools (fold (\<lambda>s. deleteSlot (sl_SlotID s)) xs d) = sd_pools d"
  "sd_slotLeases (fold (\<lambda>s. deleteSlot (sl_SlotID s)) xs d) = sd_slotLeases d"
  by (induction xs arbitrary: d) (simp_all add: deleteSlot_def)

lemma finalizeTx_ok:
  assumes "finalizeTx i p at d = Inr (v, d')" "d' \<noteq> d"
  obtains xs where "slotsForPoolTx (jd_db d) p = Inr xs"
    "\<And>s. s \<in> set xs \<Longrightarrow> sl_Status s = Deleted \<and> kget (sd_slotLeases (jd_db d)) (sl_SlotID s) = None"
    "jd_db d' = fold (\<lambda>s. deleteSlot (sl_SlotID s)) xs ((jd_db d)\<lparr>sd_pools := kdel p (sd_pools (jd_db d))\<rparr>)"
    "jo_State v = JobPoolApplied" "jo_Result v = ''deleted''" "jo_Operation v = ''delete''" "jo_PoolID v = p"
  using assms that by (auto simp: finalizeTx_def Let_def list_ex_iff dest!: putAudit_ok split: if_splits)

text \<open>The tables without a pool whose slots are deleted and unleased are consistent again.\<close>

lemma removal_inv:
  assumes inv: "slot_inv now d" and pools: "\<And>q. q \<noteq> p \<Longrightarrow> kget (sd_pools e) q = kget (sd_pools d) q" "kget (sd_pools e) p = None"
    and slots: "\<And>k s. kget (sd_slots e) k = Some s \<longleftrightarrow> kget (sd_slots d) k = Some s \<and> (\<forall>u. s = Json u \<longrightarrow> sl_PoolID u \<noteq> p)"
    and leases: "sd_slotLeases e = sd_slotLeases d"
    and free: "\<And>k u. kget (sd_slots d) k = Some (Json u) \<Longrightarrow> sl_PoolID u = p \<Longrightarrow> kget (sd_slotLeases d) k = None"
  shows "slot_inv now e"
  unfolding slot_inv_def
proof (intro conjI allI impI)
  fix k v
  assume "kget (sd_pools e) k = Some v"
  then show "\<exists>q. v = Json q \<and> poolOk k q" using pools slot_invD(1) [OF inv, of k v] by (cases "k = p") auto
next
  fix k v
  assume "kget (sd_slots e) k = Some v"
  then have v: "kget (sd_slots d) k = Some v" "\<forall>u. v = Json u \<longrightarrow> sl_PoolID u \<noteq> p" using slots by blast+
  then obtain u where u: "v = Json u" "slotOk now d k u" using slot_invD(2) [OF inv] by blast
  then have "slotOk now e k u" using v(2) pools(1) leases unfolding slotOk_def by simp
  with u(1) show "\<exists>u. v = Json u \<and> slotOk now e k u" by blast
next
  fix k
  assume k: "kget (sd_slotLeases e) k \<noteq> None"
  then obtain u where u: "kget (sd_slots d) k = Some (Json u)" using slot_invD(3) [OF inv, of k] leases by auto
  then have "sl_PoolID u \<noteq> p" using free k leases by auto
  with u slots [of k "Json u"] show "kget (sd_slots e) k \<noteq> None" by auto
qed

text \<open>
  C39. A pool disappears only when nothing of it is left: the last step of a deletion either changes
  nothing, or every slot of the pool was deleted and none had a lease; then the pool and its slots are
  gone, the operation is applied, other pools, their slots and all leases are untouched, and the
  tables stay consistent.
\<close>

theorem finalizeDeletedJobPool_safe:
  assumes "slot_inv now (jd_db d)" "finalizeDeletedJobPool c clock i p at d = (Inr v, d')"
  shows "d' = d \<or>
     (\<forall>k s. GetSlot k (jd_db d) = Inr s \<and> sl_PoolID s = p \<longrightarrow> sl_Status s = Deleted \<and> GetSlotLease k (jd_db d) = Inr None) \<and>
     jo_State v = JobPoolApplied \<and> jo_Result v = ''deleted'' \<and> jo_Operation v = ''delete'' \<and>
     (\<exists>e. GetJobPool p (jd_db d') = Inl e) \<and> (\<forall>q. q \<noteq> p \<longrightarrow> GetJobPool q (jd_db d') = GetJobPool q (jd_db d)) \<and>
     (\<forall>k s. GetSlot k (jd_db d') = Inr s \<longleftrightarrow> GetSlot k (jd_db d) = Inr s \<and> sl_PoolID s \<noteq> p) \<and>
     sd_slotLeases (jd_db d') = sd_slotLeases (jd_db d) \<and> slot_inv now (jd_db d')"
proof (cases "d' = d")
  case False
  have "finalizeTx i p (if IsZero at then clock else at) d = Inr (v, d')"
    using assms(2) by (simp add: finalizeDeletedJobPool_def update_Inr)
  then obtain xs where xs: "slotsForPoolTx (jd_db d) p = Inr xs"
    and gone: "\<And>s. s \<in> set xs \<Longrightarrow> sl_Status s = Deleted \<and> kget (sd_slotLeases (jd_db d)) (sl_SlotID s) = None"
    and e: "jd_db d' = fold (\<lambda>s. deleteSlot (sl_SlotID s)) xs ((jd_db d)\<lparr>sd_pools := kdel p (sd_pools (jd_db d))\<rparr>)"
    and v: "jo_State v = JobPoolApplied" "jo_Result v = ''deleted''" "jo_Operation v = ''delete''"
    using False by (rule_tac finalizeTx_ok) auto
  have mem: "k \<in> sl_SlotID ` set xs \<longleftrightarrow> (\<exists>u. kget (sd_slots (jd_db d)) k = Some (Json u) \<and> sl_PoolID u = p)" for k
    using slotsForPoolTx_slot(1,2) [OF assms(1) xs] slotsForPoolTx_ok(1) [OF assms(1) xs] slotOkD(1) [OF slot_inv_slot [OF assms(1)]]
    by (auto simp: image_iff)
  have slots: "kget (sd_slots (jd_db d')) k = Some s \<longleftrightarrow>
      kget (sd_slots (jd_db d)) k = Some s \<and> (\<forall>u. s = Json u \<longrightarrow> sl_PoolID u \<noteq> p)" for k s
    unfolding e fold_deleteSlot using mem [of k] slot_invD(2) [OF assms(1), of k] by (auto split: if_splits)
  have free: "sl_Status u = Deleted \<and> kget (sd_slotLeases (jd_db d)) k = None"
    if "kget (sd_slots (jd_db d)) k = Some (Json u)" "sl_PoolID u = p" for k u
  proof -
    have "k \<in> sl_SlotID ` set xs" unfolding mem using that by blast
    then obtain x where x: "x \<in> set xs" "sl_SlotID x = k" by blast
    then have "x = u" using slotsForPoolTx_slot(2) [OF assms(1) xs x(1)] that(1) by simp
    then show ?thesis using gone [OF x(1)] x(2) by simp
  qed
  have leases: "sd_slotLeases (jd_db d') = sd_slotLeases (jd_db d)" by (simp add: e fold_deleteSlot)
  have pools: "kget (sd_pools (jd_db d')) q = (if q = p then None else kget (sd_pools (jd_db d)) q)" for q
    by (simp add: e fold_deleteSlot)
  have inv': "slot_inv now (jd_db d')"
    by (rule removal_inv [OF assms(1) _ _ slots leases]) (use pools free in auto)
  have "GetJobPool q (jd_db d') = GetJobPool q (jd_db d)" if "q \<noteq> p" for q
    using pools [of q] that by (simp add: GetJobPool_def view_def getJSON_def)
  moreover have "\<exists>e. GetJobPool p (jd_db d') = Inl e"
    using pools [of p] by (simp add: GetJobPool_def view_def getJSON_def)
  ultimately show ?thesis
    using free slots leases v inv' by (auto simp: GetSlot_iff GetSlotLease_def view_def)
qed simp

section \<open>A rollback over a live lease\<close>

text \<open>
  A slot that was ready when an operation was requested and has been leased since, without a change
  of generation, is made ready again by the rollback although its lease is still stored: the tables
  are not consistent any more, and the slot can be claimed a second time.
\<close>

lemma rollback_reopens_leased:
  assumes inv: "slot_inv now (jd_db d)" and op: "kget (jd_operations d) i = Some (Json v)" "\<not> terminalJobPoolOperation (jo_State v)"
    and cur: "kget (sd_slots (jd_db d)) k = Some (Json c)" "sl_PoolID c = jo_PoolID v" "sl_Status c = Leased"
    and prev: "previousByID v k = Some u" "sl_Status u = Ready" "sl_EnvironmentGeneration u = sl_EnvironmentGeneration c"
    and ok: "rollbackTx i f at d = Inr (w, d')"
  shows "\<not> slot_inv t (jd_db d')"
proof -
  obtain xs where xs: "slotsForPoolTx (jd_db d) (jo_PoolID v) = Inr xs"
    and e: "jd_db d' = fold (restoreSlot (map sl_SlotID xs) at) (jo_PreviousSlots v) (fold (rollbackSlot v at) xs (restorePool v (jd_db d)))"
    by (rule rollbackTx_ok [OF ok op]) simp
  note xset = slotsForPoolTx_ok(1,2) [OF inv xs]
  let ?e = "fold (rollbackSlot v at) xs (restorePool v (jd_db d))"
  have c: "c \<in> set xs" "sl_SlotID c = k" using xset(1) cur slotOkD(1) [OF slot_inv_slot [OF inv cur(1)]] by auto
  have keep: "kget (sd_slots (fold (restoreSlot seen at) ys x)) k = kget (sd_slots x) k \<and>
      sd_slotLeases (fold (restoreSlot seen at) ys x) = sd_slotLeases x" if "k \<in> set seen" for seen ys x
    using that by (induction ys arbitrary: x) (auto simp: restoreSlot_def)
  have "kget (sd_slots ?e) k = Some (Json (u\<lparr>sl_UpdatedAt := at\<rparr>))"
    using fold_rollback(4) [OF xset(2) c(1), of v at "restorePool v (jd_db d)"] prev c by (simp add: rolled_def Let_def)
  moreover have "kget (sd_slotLeases (jd_db d)) k \<noteq> None" using lease_iff_inUse [OF inv cur(1)] cur(3) by (simp add: inUse_def)
  ultimately have "kget (sd_slots (jd_db d')) k = Some (Json (u\<lparr>sl_UpdatedAt := at\<rparr>))" "kget (sd_slotLeases (jd_db d')) k \<noteq> None"
    using keep [of "map sl_SlotID xs" "jo_PreviousSlots v" ?e] c fold_rollback(1) [OF xset(2)] by (auto simp: e)
  then show ?thesis using lease_iff_inUse [of t "jd_db d'" k "u\<lparr>sl_UpdatedAt := at\<rparr>"] prev(2) by (auto simp: inUse_def)
qed

section \<open>A concrete pool\<close>

text \<open>A pool that is applied and rolled back, and one whose deletion is finished.\<close>

lemma slotsForPoolTx_total:
  assumes "slot_inv now d" "TrimSpace p \<noteq> []"
  shows "\<exists>xs. slotsForPoolTx d p = Inr xs"
proof -
  have "\<exists>s. v = Json s \<and> Slot_Validate s = Inr ()" if "(k, v) \<in> set (kentries (sd_slots d))" for k v
    using that slot_invD(2) [OF assms(1), of k v] by (auto simp: kentries_iff slotOk_def)
  then show ?thesis using assms(2) slotScan [of "kentries (sd_slots d)" p "[]"] by (fastforce simp: slotsForPoolTx_def)
qed

definition okJ :: jcommit where
  "okJ = (\<lambda>_. None)"

definition demoMutation :: JobPoolMutation where
  "demoMutation = \<lparr>jm_Config = demoPool, jm_Operation = ''apply'', jm_IdempotencyKey = ''key-1'', jm_Actor = ''admin'',
     jm_ExpectedRevision = 0, jm_RequestedAt = 6\<rparr>"

lemma demo_normalized: "normalizeMutation demoMutation 6 = Inr demoMutation"
proof -
  have "PoolConfig_Normalized demoPool = demoPool" by (simp add: PoolConfig_Normalized_def demoPool_def)
  then show ?thesis using demoPool_valid
    by (simp add: normalizeMutation_def Let_def demoMutation_def go_simps ContainsAny_def)
qed

lemma demo_empty_inv: "slot_inv 5 emptySDB"
  using slotRun_inv [OF slotRun.start, of 5] by (simp add: world_inv_def)

lemma demo_applied: "\<exists>v d1. ApplyJobPool okJ 6 demoMutation emptyJDB = (Inr (v, False), d1)"
proof -
  let ?cfg = "nextConfig demoMutation None"
  note nx = nextConfig_facts [OF demo_normalized, of None]
  have id: "pc_PoolID (jm_Config demoMutation) = ''pool-1''" "jm_RequestedAt demoMutation = 6" "jm_Operation demoMutation = ''apply''"
      "jm_ExpectedRevision demoMutation = 0"
    by (simp_all add: demoMutation_def demoPool_def)
  have none: "slotsForPoolTx d ''pool-1'' = Inr []" if "sd_slots d = kempty" for d
    using that by (simp add: slotsForPoolTx_def SortSlots_def go_simps)
  have cfg: "(jm_Config demoMutation)\<lparr>pc_ConfigRevision := 1, pc_UpdatedAt := 6, pc_UpdatedBy := jm_Actor demoMutation\<rparr> = ?cfg"
    by (simp add: nextConfig_def storedRevision_def id)
  have "slotsForPoolTx (putPool ?cfg emptySDB) ''pool-1'' = Inr []" by (rule none) (simp add: emptySDB_def)
  then obtain s where s: "reconcilePoolSlotsTx ?cfg 6 (putPool ?cfg emptySDB) = Inr s"
    using nx id by (auto simp: reconcilePoolSlotsTx_def Let_def)
  have rev: "pc_ConfigRevision ?cfg = 1" by (simp add: nextConfig_def storedRevision_def)
  have blank: "TrimSpace (''audit_'' @ x) \<noteq> []" for x
    using TrimSpace_nonblank [of "CHR ''a''"] by (simp add: plainChar_def)
  have "TrimSpace ''pool-1'' \<noteq> []" "TrimSpace ''apply'' \<noteq> []" by (simp_all add: go_simps)
  then have "\<exists>v d1. applyJobPoolTx demoMutation dg emptyJDB = Inr ((v, False), d1)" for dg
    using s none [of emptySDB] cfg nx(3) id rev blank operationID_nonblank
    by (simp add: applyJobPoolTx_def emptyJDB_def emptySDB_def Let_def putJobPoolAuditTx_def JobPoolAuditEvent_Validate_def)
  then obtain v d1 where "applyJobPoolTx demoMutation (jobPoolConfigDigest (jm_Config demoMutation)) emptyJDB = Inr ((v, False), d1)"
    by blast
  then show ?thesis using demo_normalized by (auto simp: ApplyJobPool_def id update_def okJ_def)
qed

theorem ApplyJobPool_once_witness:
  "\<exists>v d1. ApplyJobPool okJ 6 demoMutation emptyJDB = (Inr (v, False), d1) \<and> jo_ConfigRevision v = 1 \<and>
     (\<exists>w. sameOperation v w \<and> ApplyJobPool okJ 9 demoMutation d1 = (Inr (w, True), d1)) \<and>
     ApplyJobPool okJ 9 (demoMutation\<lparr>jm_Actor := ''mallory''\<rparr>) d1 = (Inl (JobPoolErr ErrJobPoolIdempotencyConflict), d1)"
proof -
  obtain v d1 where a: "ApplyJobPool okJ 6 demoMutation emptyJDB = (Inr (v, False), d1)" using demo_applied by blast
  have ok: "okJ d1 = None" by (simp add: okJ_def)
  note once = ApplyJobPool_once [where c' = okJ and clock' = 9, OF a poolRun.start ok]
  have rev: "jo_ConfigRevision v = 1" using once [THEN conjunct1] by (simp add: demoMutation_def)
  from once obtain m' w where m': "normalizeMutation demoMutation (if jm_RequestedAt demoMutation = 0 then 6 else jm_RequestedAt demoMutation) = Inr m'"
      "jo_Actor v = jm_Actor m'"
    and w: "sameOperation v w" "ApplyJobPool okJ 9 demoMutation d1 = (Inr (w, True), d1)"
      "\<And>n n'. TrimSpace (jm_IdempotencyKey n) = TrimSpace (jm_IdempotencyKey demoMutation) \<Longrightarrow>
         normalizeMutation n (if jm_RequestedAt n = 0 then 9 else jm_RequestedAt n) = Inr n' \<Longrightarrow> jo_Actor v \<noteq> jm_Actor n' \<Longrightarrow>
         ApplyJobPool okJ 9 n d1 = (Inl (JobPoolErr ErrJobPoolIdempotencyConflict), d1)" by (metis (no_types, lifting))
  let ?n = "demoMutation\<lparr>jm_Actor := ''mallory''\<rparr>"
  have "jo_Actor v = jm_Actor demoMutation"
    using m' by (auto simp: normalizeMutation_def Let_def demoMutation_def go_simps split: if_splits)
  moreover have "\<exists>n'. normalizeMutation ?n (if jm_RequestedAt ?n = 0 then 9 else jm_RequestedAt ?n) = Inr n' \<and> jm_Actor n' = ''mallory''"
    using m'(1) by (auto simp: normalizeMutation_def Let_def demoMutation_def ContainsAny_def go_simps split: if_splits)
  ultimately have "ApplyJobPool okJ 9 ?n d1 = (Inl (JobPoolErr ErrJobPoolIdempotencyConflict), d1)"
    using w(3) [of ?n] by (auto simp: demoMutation_def)
  with a rev w(1,2) show ?thesis by blast
qed

theorem terminal_operations_frozen_witness:
  "\<exists>d d'. poolRun d d' \<and> d' = snd (UpdateJobPoolOperation okJ 7 ''op_1'' JobPoolFailed ''failed'' ''late'' 8 d) \<and>
     GetJobPoolOperation ''op_1'' d' = GetJobPoolOperation ''op_1'' d"
proof -
  let ?v = "zeroOperation\<lparr>jo_OperationID := ''op_1'', jo_PoolID := ''pool-1'', jo_Operation := ''apply'', jo_State := JobPoolApplied,
      jo_ConfigRevision := 1, jo_RequestedAt := 6, jo_UpdatedAt := 7\<rparr>"
  let ?d = "putOperation ''op_1'' ?v emptyJDB"
  let ?d' = "snd (UpdateJobPoolOperation okJ 7 ''op_1'' JobPoolFailed ''failed'' ''late'' 8 ?d)"
  have run: "poolRun ?d ?d'" by (rule poolRun.step [OF poolRun.start poolStep.advance])
  have v: "GetJobPoolOperation ''op_1'' ?d = Inr ?v"
    by (simp add: GetJobPoolOperation_def view_def getJSON_def JobPoolOperation_Validate_def go_simps)
  have "GetJobPoolOperation ''op_1'' ?d' = Inr ?v"
    using terminal_operations_frozen [OF run v] by (auto simp: terminalJobPoolOperation_def)
  with run v show ?thesis by metis
qed

theorem RollbackJobPoolOperation_undoes_witness:
  "\<exists>v d1 w d2. ApplyJobPool okJ 6 demoMutation emptyJDB = (Inr (v, False), d1) \<and>
     RollbackJobPoolOperation okJ 7 (jo_OperationID v) ''unready'' 7 d1 = (Inr w, d2) \<and> jo_State w = JobPoolRolledBack \<and>
     (\<forall>k. GetJobPool k (jd_db d2) = GetJobPool k emptySDB)"
proof -
  obtain v d1 where a: "ApplyJobPool okJ 6 demoMutation emptyJDB = (Inr (v, False), d1)" using demo_applied by blast
  have m: "jm_RequestedAt demoMutation = 6" "jm_Config demoMutation = demoPool" by (simp_all add: demoMutation_def)
  have inv: "slot_inv 5 (jd_db emptyJDB)" using demo_empty_inv by (simp add: emptyJDB_def)
  have tx: "applyJobPoolTx demoMutation (jobPoolConfigDigest demoPool) emptyJDB = Inr ((v, False), d1)"
    using a demo_normalized by (simp add: ApplyJobPool_def m update_Inr)
  obtain w d2 where r: "RollbackJobPoolOperation okJ 7 (jo_OperationID v) ''unready'' 7 d1 = (Inr w, d2)"
    using tx
  proof (cases rule: applyJobPoolTx_cases)
    case (fresh current xs s i g)
    note nx = nextConfig_facts [OF demo_normalized, of current]
    have "slot_inv 6 (jd_db emptyJDB)" by (rule slot_inv_mono [OF inv]) simp
    from mutation_slots(1) [OF this _ nx(1) _ nx(2), of s] have s: "slot_inv 6 s"
      using fresh(6) nx(4) demoPool_plain m by auto
    have v: "jo_OperationID v = i" "jo_PoolID v = ''pool-1''" "jo_State v = JobPoolRequested" "jo_Operation v = ''apply''"
        "jo_ConfigRevision v \<noteq> 0"
      using fresh(4,7) nx(3) m by (simp_all add: requestedOperation_def nextConfig_def demo_ids_slot demoMutation_def)
    obtain ys where ys: "slotsForPoolTx (restorePool v s) ''pool-1'' = Inr ys"
      using slotsForPoolTx_total [OF s, of "''pool-1''"] slotsForPoolTx_cong [of "restorePool v s" s] by (auto simp: go_simps)
    have names: "TrimSpace ''pool-1'' \<noteq> []" "TrimSpace ''apply'' \<noteq> []" by (simp_all add: go_simps)
    have "\<exists>w d2. rollbackTx i ''unready'' 7 d1 = Inr (w, d2)"
      using fresh(9,10,12) v ys names auditID_nonblank
      by (simp add: rollbackTx_def getJSON_def Let_def terminalJobPoolOperation_def putJobPoolAuditTx_def JobPoolAuditEvent_Validate_def
          operationAudit_def)
    then show thesis using that v(1) by (auto simp: RollbackJobPoolOperation_def update_def okJ_def)
  qed simp
  from RollbackJobPoolOperation_undoes [OF inv _ _ _ a _ r] a r show ?thesis
    using demoPool_plain by (auto simp: m emptyJDB_def)
qed

text \<open>A pool without slots whose deletion is being drained.\<close>

definition demoDrained :: jdb where
  "demoDrained = (putOperation ''op_9'' (zeroOperation\<lparr>jo_OperationID := ''op_9'', jo_PoolID := ''pool-1'', jo_Operation := ''delete'',
      jo_State := JobPoolDraining, jo_ConfigRevision := 2, jo_RequestedAt := 6, jo_UpdatedAt := 7\<rparr>) emptyJDB)
     \<lparr>jd_db := putPool demoPool emptySDB\<rparr>"

theorem finalizeDeletedJobPool_safe_witness:
  "\<exists>v d'. finalizeDeletedJobPool okJ 8 ''op_9'' ''pool-1'' 8 demoDrained = (Inr v, d') \<and> d' \<noteq> demoDrained \<and>
     jo_Result v = ''deleted'' \<and> (\<exists>e. GetJobPool ''pool-1'' (jd_db d') = Inl e)"
proof -
  have inv: "slot_inv 5 (jd_db demoDrained)" using putPool_inv [OF demo_empty_inv demoPool_valid] by (simp add: demoDrained_def)
  have xs: "slotsForPoolTx (putPool demoPool emptySDB) ''pool-1'' = Inr []"
    by (simp add: slotsForPoolTx_def emptySDB_def SortSlots_def go_simps)
  have names: "TrimSpace ''pool-1'' \<noteq> []" "TrimSpace ''delete'' \<noteq> []" "TrimSpace ''op_9'' \<noteq> []" by (simp_all add: go_simps)
  obtain v d' where f: "finalizeDeletedJobPool okJ 8 ''op_9'' ''pool-1'' 8 demoDrained = (Inr v, d')" "jd_operations d' \<noteq> jd_operations demoDrained"
  proof -
    have "\<exists>v d'. finalizeTx ''op_9'' ''pool-1'' 8 demoDrained = Inr (v, d') \<and> jo_State v = JobPoolApplied \<and>
        kget (jd_operations d') ''op_9'' = Some (Json v)"
      using xs names auditID_nonblank
      by (simp add: finalizeTx_def demoDrained_def getJSON_def terminalJobPoolOperation_def Let_def putJobPoolAuditTx_def
          JobPoolAuditEvent_Validate_def operationAudit_def)
    then obtain v d' where f: "finalizeTx ''op_9'' ''pool-1'' 8 demoDrained = Inr (v, d')" "jo_State v = JobPoolApplied"
        "kget (jd_operations d') ''op_9'' = Some (Json v)" by blast
    have "jd_operations d' \<noteq> jd_operations demoDrained"
    proof
      assume "jd_operations d' = jd_operations demoDrained"
      then show False using f(2,3) by (auto simp: demoDrained_def)
    qed
    then show thesis using that [of v d'] f(1) by (simp add: finalizeDeletedJobPool_def update_def okJ_def)
  qed
  then show ?thesis using finalizeDeletedJobPool_safe [OF inv f(1)] by auto
qed

end
