(* ===== verification/SlotLifecycle.thy ===== *)
theory SlotLifecycle
  imports SlotOps
begin

text \<open>
  The slot lifecycle reconciler of internal/slotlifecycle/reconciler.go: one pass over the slots of
  a pool that retires surplus slots, drains leased slots whose target changed, checks the health of
  leases, and provisions and inspects the others before they become ready. The provisioner and the
  capability revoker are interfaces of the package and arguments here. A call through one of them
  takes time, so besides its own world it also returns the tables as the other goroutines of the
  service have left them; the calls on the store itself are the transactions of \<open>SlotOps\<close>.
\<close>

section \<open>Interfaces\<close>

record ProvisionRequest =
  pr_SlotID :: string
  pr_PoolID :: string
  pr_Ordinal :: int
  pr_Owner :: string
  pr_EnvironmentGeneration :: uint64
  pr_PackageGeneration :: uint64
  pr_Requirement :: EnvironmentRequirement

record ProvisionResult =
  ps_AgentHandle :: string
  ps_Summary :: EnvironmentSummary

text \<open>
  An error of a provisioner, with the answer of its method \<open>Retryable() bool\<close> if it has one.
\<close>

record ProvisionError =
  pe_Error :: error
  pe_Retryable :: "bool option"

definition isRetryable :: "ProvisionError \<Rightarrow> bool" where
  "isRetryable e \<longleftrightarrow> pe_Retryable e = Some True"

type_synonym 'w lstate = "sdb \<times> 'w"

text \<open>The optional interfaces of a provisioner are options.\<close>

record 'w Provisioner =
  pv_Provision :: "ProvisionRequest \<Rightarrow> 'w lstate \<Rightarrow> (ProvisionError + ProvisionResult) \<times> 'w lstate"
  pv_Inspect :: "ProvisionRequest \<Rightarrow> 'w lstate \<Rightarrow> (ProvisionError + EnvironmentSummary) \<times> 'w lstate"
  pv_Retire :: "ProvisionRequest \<Rightarrow> 'w lstate \<Rightarrow> ProvisionError option \<times> 'w lstate"
  pv_Health :: "(ProvisionRequest \<Rightarrow> SlotLease \<Rightarrow> 'w lstate \<Rightarrow> ProvisionError option \<times> 'w lstate) option"
  pv_UpdatePoolRuntime :: "(PoolConfig \<Rightarrow> 'w lstate \<Rightarrow> ProvisionError option \<times> 'w lstate) option"
  pv_Shutdown :: "('w lstate \<Rightarrow> error option \<times> 'w lstate) option"

record 'w CapabilityRevoker =
  cr_RevokeSlotLease :: "string \<Rightarrow> 'w lstate \<Rightarrow> error option \<times> 'w lstate"
  cr_RevokeGeneration :: "(string \<Rightarrow> uint64 \<Rightarrow> 'w lstate \<Rightarrow> error option \<times> 'w lstate) option"

type_synonym EnvironmentAuthority = "string \<Rightarrow> string \<Rightarrow> sdb \<Rightarrow> EnvironmentRecord result"
type_synonym PoolConfigSource = "string \<Rightarrow> sdb \<Rightarrow> PoolConfig result"

text \<open>
  The reconciler. Its store is the tables of the state, with \<open>rc_commit\<close> the verdicts of the engine;
  the clock moves the world on.
\<close>

record 'w Reconciler =
  rc_commit :: "'w \<Rightarrow> scommit"
  rc_provisioner :: "'w Provisioner"
  rc_pool :: PoolConfig
  rc_clock :: "'w \<Rightarrow> gotime \<times> 'w"
  rc_provisionTimeout :: duration
  rc_cleanupTimeout :: duration
  rc_revoker :: "'w CapabilityRevoker option"
  rc_authority :: "EnvironmentAuthority option"
  rc_poolSource :: "PoolConfigSource option"
  rc_owner :: string

text \<open>A variadic argument of \<open>New\<close>: nil, a string, or a value with the interfaces it implements.\<close>

datatype 'w extra =
    NilExtra
  | TextExtra string
  | ValueExtra "'w CapabilityRevoker option" "EnvironmentAuthority option" "PoolConfigSource option"

section \<open>Construction\<close>

text \<open>One argument; \<open>ownerSet\<close> is kept beside the reconciler.\<close>

definition addExtra :: "'w extra \<Rightarrow> 'w Reconciler \<times> bool \<Rightarrow> ('w Reconciler \<times> bool) result" where
  "addExtra extra acc =
     (let (r, ownerSet) = acc
      in case extra of
           NilExtra \<Rightarrow> Inr (r, ownerSet)
         | TextExtra value \<Rightarrow>
             if ownerSet \<or> TrimSpace value \<noteq> value \<or> value = [] \<or> 160 < length value
                \<or> ContainsAny value [CHR 0x00, CHR 0x0D, CHR 0x0A, CHR 0x09, CHR 0x2F, CHR 0x5C]
             then Inl (LifecycleErr ErrInvalidConfig_lifecycle)
             else Inr (r\<lparr>rc_owner := value\<rparr>, True)
         | ValueExtra revoker authority source \<Rightarrow>
             bindE (if revoker \<noteq> None then
                      if rc_revoker r \<noteq> None then Inl (LifecycleErr ErrInvalidConfig_lifecycle)
                      else Inr (r\<lparr>rc_revoker := revoker\<rparr>)
                    else if authority \<noteq> None then
                      if rc_authority r \<noteq> None then Inl (LifecycleErr ErrInvalidConfig_lifecycle)
                      else Inr (r\<lparr>rc_authority := authority\<rparr>)
                    else if source \<noteq> None then
                      if rc_poolSource r \<noteq> None then Inl (LifecycleErr ErrInvalidConfig_lifecycle)
                      else Inr (r\<lparr>rc_poolSource := source\<rparr>)
                    else Inl (LifecycleErr ErrInvalidConfig_lifecycle)) (\<lambda>r1.
             Inr (if source \<noteq> None \<and> rc_poolSource r1 = None then r1\<lparr>rc_poolSource := source\<rparr> else r1,
                  ownerSet)))"

definition newReconciler ::
  "('w \<Rightarrow> scommit) \<Rightarrow> 'w Provisioner \<Rightarrow> PoolConfig \<Rightarrow> ('w \<Rightarrow> gotime \<times> 'w) \<Rightarrow> duration \<Rightarrow> duration \<Rightarrow>
     'w extra list \<Rightarrow> 'w Reconciler result" where
  "newReconciler database provisioner pool clock provisionTimeout cleanupTimeout extras =
     (if PoolConfig_Validate pool \<noteq> Inr () \<or> provisionTimeout \<le> 0 \<or> cleanupTimeout \<le> 0
      then Inl (LifecycleErr ErrInvalidConfig_lifecycle)
      else bindE (foldE addExtra extras
        (\<lparr>rc_commit = database, rc_provisioner = provisioner, rc_pool = pool, rc_clock = clock,
          rc_provisionTimeout = provisionTimeout, rc_cleanupTimeout = cleanupTimeout, rc_revoker = None,
          rc_authority = None, rc_poolSource = None, rc_owner = ''service''\<rparr>, False)) (\<lambda>acc.
        Inr (fst acc)))"

section \<open>Targets\<close>

definition matches :: "EnvironmentSummary \<Rightarrow> PoolConfig \<Rightarrow> uint64 \<Rightarrow> bool" where
  "matches summary pool generation \<longleftrightarrow>
     (if Summary_Validate summary \<noteq> Inr () \<or> es_Generation summary = 0
         \<or> generation \<noteq> 0 \<and> es_Generation summary \<noteq> generation
         \<or> es_EnvironmentID summary \<noteq> pc_EnvironmentID pool \<or> es_Version summary \<noteq> pc_EnvironmentVersion pool
         \<or> \<not> es_Trusted summary
      then False
      else if es_ManifestDigest summary \<noteq> pc_ManifestDigest pool \<or> es_Signer summary \<noteq> pc_Signer pool
      then False
      else if \<not> list_all (\<lambda>required. required \<in> set (es_Capabilities summary)) (pc_Capabilities pool) then False
      else es_SessionState summary = ''ready'' \<and> es_DesktopReady summary \<and> es_AgentVersion summary \<noteq> [])"

definition containsAll :: "string list \<Rightarrow> string list \<Rightarrow> bool" where
  "containsAll available required \<longleftrightarrow> list_all (\<lambda>value. value \<in> set available) required"

definition matchesSlotTarget :: "slot \<Rightarrow> PoolConfig \<Rightarrow> bool" where
  "matchesSlotTarget value pool \<longleftrightarrow>
     (if sl_EnvironmentID value \<noteq> pc_EnvironmentID pool \<or> sl_EnvironmentVersion value \<noteq> pc_EnvironmentVersion pool
         \<or> sl_ManifestDigest value \<noteq> pc_ManifestDigest pool \<or> sl_Signer value \<noteq> pc_Signer pool
         \<or> sl_RequireTrusted value \<noteq> pc_RequireTrusted pool
      then False
      else if pc_RequireTrusted pool \<and> \<not> sl_Trusted value
         \<and> (sl_Status value = Ready \<or> sl_Status value = Leased \<or> sl_Status value = Draining)
      then False
      else list_all (\<lambda>capability. capability \<in> set (sl_Capabilities value)) (pc_Capabilities pool))"

section \<open>Calls on the store\<close>

definition setStatus :: "'w Reconciler \<Rightarrow> string \<Rightarrow> slot_status \<Rightarrow> 'w lstate \<Rightarrow> unit result \<times> 'w lstate" where
  "setStatus r slotID status s =
     (let (now, w) = rc_clock r (snd s);
          (res, d) = SetSlotStatus (rc_commit r w) slotID status now (fst s)
      in (res, d, w))"

text \<open>\<open>if first == nil { first = err }\<close>, and the same under \<open>err != nil\<close>.\<close>

definition keepFirst :: "error option \<Rightarrow> error \<Rightarrow> error option" where
  "keepFirst first err = (if first = None then Some err else first)"

definition noteResult :: "error option \<Rightarrow> unit result \<Rightarrow> error option" where
  "noteResult first res = (case res of Inl e \<Rightarrow> keepFirst first e | Inr _ \<Rightarrow> first)"

definition lifecycleMsg :: "string \<Rightarrow> error" where
  "lifecycleMsg text = MessageErr (''slotlifecycle: '' @ text)"

section \<open>One slot\<close>

text \<open>A slot beyond the wanted number: drained while leased, otherwise retired and deleted.\<close>

definition surplusSlot ::
  "'w Reconciler \<Rightarrow> ProvisionRequest \<Rightarrow> slot \<Rightarrow> bool \<Rightarrow> error option \<Rightarrow> 'w lstate \<Rightarrow> error option \<times> 'w lstate" where
  "surplusSlot r request value leased first s =
     (if leased then
        if sl_Status value \<noteq> Draining then
          let (res, s1) = setStatus r (sl_SlotID value) Draining s in (noteResult first res, s1)
        else (first, s)
      else
        let (res, s1) = (if sl_Status value \<noteq> Retiring then setStatus r (sl_SlotID value) Retiring s else (Inr (), s))
        in case res of
             Inl e \<Rightarrow> (keepFirst first e, s1)
           | Inr _ \<Rightarrow>
               let (err, s2) = pv_Retire (rc_provisioner r) request s1
               in if err \<noteq> None then
                    (keepFirst first (lifecycleMsg ''cleanup failed''),
                     snd (setStatus r (sl_SlotID value) Quarantined s2))
                  else
                    let (res3, s3) = setStatus r (sl_SlotID value) Deleted s2
                    in (noteResult first res3, s3))"

text \<open>The health check of a lease whose target is unchanged.\<close>

definition checkHealth ::
  "'w Reconciler \<Rightarrow> PoolConfig \<Rightarrow> uint64 \<Rightarrow> slot \<Rightarrow> SlotLease \<Rightarrow> error option \<Rightarrow> 'w lstate \<Rightarrow> error option \<times> 'w lstate" where
  "checkHealth r pool packageGeneration value lease first s =
     (case pv_Health (rc_provisioner r) of
        None \<Rightarrow> (first, s)
      | Some health \<Rightarrow>
          let (healthErr, s1) = health
                \<lparr>pr_SlotID = sl_SlotID value, pr_PoolID = sl_PoolID value, pr_Ordinal = sl_Ordinal value,
                 pr_Owner = rc_owner r, pr_EnvironmentGeneration = sl_EnvironmentGeneration value,
                 pr_PackageGeneration = packageGeneration, pr_Requirement = PoolConfig_Requirement pool\<rparr> lease s
          in case healthErr of
               None \<Rightarrow> (first, s1)
             | Some e \<Rightarrow>
                 if isRetryable e then (keepFirst first (lifecycleMsg ''session temporarily unavailable''), s1)
                 else
                   let (revokeErr, s2) = (case rc_revoker r of
                         None \<Rightarrow> (None, s1)
                       | Some revoker \<Rightarrow> cr_RevokeSlotLease revoker (sk_LeaseID lease) s1)
                   in if revokeErr \<noteq> None then (keepFirst first (lifecycleMsg ''capability revocation failed''), s2)
                      else
                        let (now, w) = rc_clock r (snd s2);
                            (res, d) = QuarantineSlotLease (rc_commit r w) (sl_SlotID value) (sk_LeaseID lease)
                              (sk_Owner lease) now ''agent health failure'' (fst s2)
                        in (keepFirst first (lifecycleMsg (if isOk res then ''agent health failed''
                              else ''slot quarantine failed'')), d, w))"

text \<open>A leased slot: drained when its target changed, checked otherwise.\<close>

definition leasedSlot ::
  "'w Reconciler \<Rightarrow> PoolConfig \<Rightarrow> uint64 \<Rightarrow> bool \<Rightarrow> slot \<Rightarrow> SlotLease \<Rightarrow> error option \<Rightarrow> 'w lstate \<Rightarrow>
     error option \<times> 'w lstate" where
  "leasedSlot r pool packageGeneration environmentChanged value lease first s =
     (let (first1, status, s1) =
            (if environmentChanged \<and> sl_Status value \<noteq> Draining then
               let (first', s') = (case Option.bind (rc_revoker r) cr_RevokeGeneration of
                     None \<Rightarrow> (first, s)
                   | Some revoke \<Rightarrow>
                       let (revokeErr, s') = revoke (sl_SlotID value) (sl_EnvironmentGeneration value) s
                       in (if revokeErr \<noteq> None
                           then keepFirst first (lifecycleMsg ''generation capability revocation failed'')
                           else first, s'));
                   (res, s'') = setStatus r (sl_SlotID value) Draining s'
               in (noteResult first' res, if isOk res then Draining else sl_Status value, s'')
             else (first, sl_Status value, s));
          first2 = (if sk_SlotID lease \<noteq> sl_SlotID value
                       \<or> sk_EnvironmentGeneration lease \<noteq> sl_EnvironmentGeneration value
                       \<or> status \<noteq> Leased \<and> status \<noteq> Draining
                    then keepFirst first1 (LifecycleErr ErrLeaseMismatch) else first1)
      in if environmentChanged then (first2, s1)
         else checkHealth r pool packageGeneration value lease first2 s1)"

text \<open>The slot with the pool's target and its next generation, not yet trusted.\<close>

definition retargetedSlot :: "PoolConfig \<Rightarrow> uint64 \<Rightarrow> gotime \<Rightarrow> slot \<Rightarrow> slot" where
  "retargetedSlot pool generation now value =
     value\<lparr>sl_Status := Provisioning, sl_EnvironmentID := pc_EnvironmentID pool,
           sl_EnvironmentVersion := pc_EnvironmentVersion pool, sl_EnvironmentGeneration := generation,
           sl_Capabilities := pc_Capabilities pool, sl_ManifestDigest := pc_ManifestDigest pool,
           sl_Signer := pc_Signer pool, sl_Trusted := False, sl_RequireTrusted := pc_RequireTrusted pool,
           sl_AgentHandle := [], sl_HealthAt := zeroTime, sl_UpdatedAt := now\<rparr>"

text \<open>From the call of \<open>Provision\<close> to the end: provision, inspect, mark ready.\<close>

definition provisionSlot ::
  "'w Reconciler \<Rightarrow> PoolConfig \<Rightarrow> ProvisionRequest \<Rightarrow> string \<Rightarrow> error option \<Rightarrow> 'w lstate \<Rightarrow> error option \<times> 'w lstate" where
  "provisionSlot r pool request slotID first s =
     (let (provisioned, s1) = pv_Provision (rc_provisioner r) request s;
          unavailable = keepFirst first (lifecycleMsg ''provisioning unavailable'');
          isolate = (\<lambda>s. snd (setStatus r slotID Quarantined s))
      in case provisioned of
           Inl e \<Rightarrow> (unavailable, if isRetryable e then s1 else isolate s1)
         | Inr result \<Rightarrow>
             if ps_AgentHandle result = []
                \<or> \<not> matches (ps_Summary result) pool (pr_EnvironmentGeneration request)
             then (unavailable, isolate s1)
             else
               let (inspection, s2) = pv_Inspect (rc_provisioner r) request s1;
                   unhealthy = keepFirst first (lifecycleMsg ''health check failed'')
               in case inspection of
                    Inl e \<Rightarrow> (unhealthy, if isRetryable e then s2 else isolate s2)
                  | Inr inspected0 \<Rightarrow>
                      if \<not> matches inspected0 pool (pr_EnvironmentGeneration request) then (unhealthy, isolate s2)
                      else
                        let inspected1 = (if es_AgentHandle inspected0 = []
                              then inspected0\<lparr>es_AgentHandle := ps_AgentHandle result\<rparr> else inspected0);
                            (now, w) = rc_clock r (snd s2);
                            inspected = inspected1\<lparr>es_UpdatedAt := now\<rparr>;
                            (res, d) = MarkSlotReady (rc_commit r w) slotID inspected (es_UpdatedAt inspected) (fst s2)
                        in (noteResult first res, d, w))"

text \<open>A wanted slot without a lease.\<close>

definition idleSlot ::
  "'w Reconciler \<Rightarrow> PoolConfig \<Rightarrow> ProvisionRequest \<Rightarrow> bool \<Rightarrow> slot \<Rightarrow> error option \<Rightarrow> 'w lstate \<Rightarrow>
     error option \<times> 'w lstate" where
  "idleSlot r pool request environmentChanged value first s =
     (if sl_Status value = Leased \<or> sl_Status value = Draining
      then (keepFirst first (LifecycleErr ErrLeaseMismatch), s)
      else
        let (healthy, s1) =
              (if sl_Status value = Ready then
                 let (inspection, s1) = pv_Inspect (rc_provisioner r) request s
                 in (case inspection of
                       Inl _ \<Rightarrow> False
                     | Inr summary \<Rightarrow> \<not> environmentChanged \<and> matches summary pool (sl_EnvironmentGeneration value), s1)
               else (False, s))
        in if healthy then (first, s1)
           else
             let (res, s2) = (if sl_Status value \<noteq> Provisioning then setStatus r (sl_SlotID value) Provisioning s1
                              else (Inr (), s1))
             in case res of
                  Inl e \<Rightarrow> (keepFirst first e, s2)
                | Inr _ \<Rightarrow>
                    let (res', s3) =
                          (if environmentChanged \<or> sl_EnvironmentGeneration value = 0 then
                             let (now, w) = rc_clock r (snd s2);
                                 (res', d) = UpsertSlot (rc_commit r w)
                                   (retargetedSlot pool (pr_EnvironmentGeneration request) now value) (fst s2)
                             in (res', d, w)
                           else (Inr (), s2))
                    in case res' of
                         Inl e \<Rightarrow> (keepFirst first e, s3)
                       | Inr _ \<Rightarrow> provisionSlot r pool request (sl_SlotID value) first s3)"

text \<open>The generation a provisioning of the slot would have; none when the counter is exhausted.\<close>

definition nextGeneration :: "PoolConfig \<Rightarrow> bool \<Rightarrow> slot \<Rightarrow> uint64 option" where
  "nextGeneration pool environmentChanged value =
     (if sl_EnvironmentGeneration value = 0 then Some 1
      else if environmentChanged \<and> sl_Ordinal value \<le> pc_DesiredSlots pool then
        if sl_EnvironmentGeneration value = - 1 then None else Some (sl_EnvironmentGeneration value + 1)
      else Some (sl_EnvironmentGeneration value))"

definition reconcileSlot ::
  "'w Reconciler \<Rightarrow> PoolConfig \<Rightarrow> uint64 \<Rightarrow> slot \<Rightarrow> error option \<Rightarrow> 'w lstate \<Rightarrow> error option \<times> 'w lstate" where
  "reconcileSlot r pool packageGeneration value first s =
     (if sl_Status value = Deleted then (first, s)
      else case GetSlotLease (sl_SlotID value) (fst s) of
        Inl e \<Rightarrow> (keepFirst first e, s)
      | Inr lease \<Rightarrow>
          let environmentChanged = (\<not> matchesSlotTarget value pool)
          in case nextGeneration pool environmentChanged value of
               None \<Rightarrow> (keepFirst first (lifecycleMsg ''environment generation exhausted''), s)
             | Some generation \<Rightarrow>
                 let request = \<lparr>pr_SlotID = sl_SlotID value, pr_PoolID = sl_PoolID value,
                       pr_Ordinal = sl_Ordinal value, pr_Owner = rc_owner r,
                       pr_EnvironmentGeneration = generation, pr_PackageGeneration = packageGeneration,
                       pr_Requirement = PoolConfig_Requirement pool\<rparr>
                 in if pc_DesiredSlots pool < sl_Ordinal value
                    then surplusSlot r request value (lease \<noteq> None) first s
                    else if sl_Status value = Quarantined then (first, s)
                    else if sl_SessionDesiredState value = ''stopped'' \<or> sl_Status value = Stopped then
                      if lease \<noteq> None \<and> sl_Status value \<noteq> Draining then
                        let (res, s1) = setStatus r (sl_SlotID value) Draining s in (noteResult first res, s1)
                      else (first, s)
                    else case lease of
                        Some l \<Rightarrow> leasedSlot r pool packageGeneration environmentChanged value l first s
                      | None \<Rightarrow> idleSlot r pool request environmentChanged value first s)"

section \<open>A pass\<close>

fun reconcileLoop ::
  "'w Reconciler \<Rightarrow> ('w \<Rightarrow> error option) \<Rightarrow> PoolConfig \<Rightarrow> uint64 \<Rightarrow> slot list \<Rightarrow> error option \<Rightarrow> 'w lstate \<Rightarrow>
     error option \<times> 'w lstate" where
  "reconcileLoop r ctxErr pool packageGeneration [] first s = (first, s)"
| "reconcileLoop r ctxErr pool packageGeneration (value # rest) first s =
     (case ctxErr (snd s) of
        Some e \<Rightarrow> (Some e, s)
      | None \<Rightarrow>
          let (first', s') = reconcileSlot r pool packageGeneration value first s
          in reconcileLoop r ctxErr pool packageGeneration rest first' s')"

definition cleanupOnly :: "PoolConfig \<Rightarrow> bool" where
  "cleanupOnly pool \<longleftrightarrow>
     pc_DesiredSlots pool = 0 \<or> pc_DesiredState pool = ''draining'' \<or> pc_DesiredState pool = ''disabled''"

text \<open>The trusted record of the pool's environment: its generation, or a refusal.\<close>

definition trustedGeneration :: "EnvironmentAuthority \<Rightarrow> PoolConfig \<Rightarrow> sdb \<Rightarrow> uint64 result" where
  "trustedGeneration authority pool d =
     (case authority (pc_EnvironmentID pool) (pc_EnvironmentVersion pool) d of
        Inl _ \<Rightarrow> Inl (lifecycleMsg ''trusted environment unavailable'')
      | Inr record \<Rightarrow>
          if \<not> IsReady record \<or> en_EnvironmentID record \<noteq> pc_EnvironmentID pool
             \<or> en_Version record \<noteq> pc_EnvironmentVersion pool \<or> pc_ManifestDigest pool = []
             \<or> \<not> EqualFold (en_ManifestDigest record) (pc_ManifestDigest pool) \<or> pc_Signer pool = []
             \<or> en_Signer record \<noteq> pc_Signer pool
             \<or> \<not> containsAll (en_Capabilities record) (pc_Capabilities pool)
          then Inl (lifecycleMsg ''trusted environment unavailable'')
          else Inr (en_Generation record))"

definition Reconcile ::
  "'w Reconciler \<Rightarrow> ('w \<Rightarrow> error option) \<Rightarrow> 'w lstate \<Rightarrow> error option \<times> 'w lstate" where
  "Reconcile r ctxErr s =
     (case (case rc_poolSource r of
              None \<Rightarrow> Inr (rc_pool r)
            | Some source \<Rightarrow>
                (case source (pc_PoolID (rc_pool r)) (fst s) of
                   Inl _ \<Rightarrow> Inl (lifecycleMsg ''pool configuration unavailable'')
                 | Inr current \<Rightarrow> Inr current)) of
        Inl e \<Rightarrow> (Some e, s)
      | Inr pool \<Rightarrow>
          (case ListSlots (pc_PoolID pool) (fst s) of
             Inl e \<Rightarrow> (Some e, s)
           | Inr slots \<Rightarrow>
               (case (case rc_authority r of
                        None \<Rightarrow> Inr 0
                      | Some authority \<Rightarrow>
                          if cleanupOnly pool then Inr 0 else trustedGeneration authority pool (fst s)) of
                  Inl e \<Rightarrow> (Some e, s)
                | Inr packageGeneration \<Rightarrow>
                    let (err, s1) = (case pv_UpdatePoolRuntime (rc_provisioner r) of
                          None \<Rightarrow> (None, s)
                        | Some updatePool \<Rightarrow> if cleanupOnly pool then (None, s) else updatePool pool s)
                    in if err \<noteq> None
                       then (Some (lifecycleMsg ''trusted environment runtime unavailable''), s1)
                       else reconcileLoop r ctxErr pool packageGeneration slots None s1)))"

definition Shutdown :: "'w Reconciler \<Rightarrow> 'w lstate \<Rightarrow> error option \<times> 'w lstate" where
  "Shutdown r s = (case pv_Shutdown (rc_provisioner r) of None \<Rightarrow> (None, s) | Some f \<Rightarrow> f s)"

end
