(* ===== verification/LifecycleRuns.thy ===== *)
theory LifecycleRuns
  imports SlotLifecycle SlotRuns
begin

text \<open>
  A pass of the lifecycle reconciler as a sequence of small steps: calls of the provisioner or the
  revoker, during which others may write, and single transactions of the store, each with the
  evidence the code had when it made it.
\<close>

section \<open>Steps of a pass\<close>

text \<open>A slot the pass may provision: wanted, not isolated, and not stopped by its user.\<close>

definition wanted :: "PoolConfig \<Rightarrow> slot \<Rightarrow> bool" where
  "wanted pool v \<longleftrightarrow> sl_Ordinal v \<le> pc_DesiredSlots pool \<and> sl_Status v \<noteq> Deleted \<and> sl_Status v \<noteq> Quarantined \<and>
     sl_SessionDesiredState v \<noteq> ''stopped'' \<and> sl_Status v \<noteq> Stopped"

definition surplus :: "PoolConfig \<Rightarrow> slot \<Rightarrow> bool" where
  "surplus pool v \<longleftrightarrow> pc_DesiredSlots pool < sl_Ordinal v \<and> sl_Status v \<noteq> Deleted"

definition mayset :: "PoolConfig \<Rightarrow> slot \<Rightarrow> slot_status \<Rightarrow> bool" where
  "mayset pool v x \<longleftrightarrow>
     x = Draining \<and> sl_Status v \<noteq> Deleted \<and> (sl_Ordinal v \<le> pc_DesiredSlots pool \<longrightarrow> sl_Status v \<noteq> Quarantined)
     \<or> (x = Retiring \<or> x = Deleted) \<and> surplus pool v
     \<or> x = Provisioning \<and> wanted pool v
     \<or> x = Quarantined \<and> (surplus pool v \<or> wanted pool v)"

text \<open>A call through an interface of the reconciler.\<close>

inductive callStep :: "'w Reconciler \<Rightarrow> 'w lstate \<Rightarrow> 'w lstate \<Rightarrow> bool" for r where
  provision: "pv_Provision (rc_provisioner r) q s = (x1, s') \<Longrightarrow> callStep r s s'"
| inspect: "pv_Inspect (rc_provisioner r) q s = (x2, s') \<Longrightarrow> callStep r s s'"
| retire: "pv_Retire (rc_provisioner r) q s = (x3, s') \<Longrightarrow> callStep r s s'"
| health: "pv_Health (rc_provisioner r) = Some f \<Longrightarrow> f q l s = (x4, s') \<Longrightarrow> callStep r s s'"
| runtime: "pv_UpdatePoolRuntime (rc_provisioner r) = Some g \<Longrightarrow> g p s = (x5, s') \<Longrightarrow> callStep r s s'"
| revoke_lease: "rc_revoker r = Some v \<Longrightarrow> cr_RevokeSlotLease v i s = (x6, s') \<Longrightarrow> callStep r s s'"
| revoke_generation: "rc_revoker r = Some v \<Longrightarrow> cr_RevokeGeneration v = Some h \<Longrightarrow> h i n s = (x7, s') \<Longrightarrow> callStep r s s'"

text \<open>The evidence for a slot to become ready: an inspection that matches the pool and the generation.\<close>

definition inspected :: "'w Reconciler \<Rightarrow> PoolConfig \<Rightarrow> string \<Rightarrow> uint64 \<Rightarrow> EnvironmentSummary \<Rightarrow> bool" where
  "inspected r pool k g summary \<longleftrightarrow> (\<exists>q s s'. pr_SlotID q = k \<and> pr_EnvironmentGeneration q = g \<and>
     pr_Requirement q = PoolConfig_Requirement pool \<and>
     pv_Inspect (rc_provisioner r) q s = (Inr summary, s') \<and> matches summary pool g)"

text \<open>The evidence for a lease to end: a health check of it that failed for good.\<close>

definition unhealthy :: "'w Reconciler \<Rightarrow> string \<Rightarrow> SlotLease \<Rightarrow> bool" where
  "unhealthy r k l \<longleftrightarrow> (\<exists>f q s e s'. pv_Health (rc_provisioner r) = Some f \<and> pr_SlotID q = k \<and>
     f q l s = (Some e, s') \<and> \<not> isRetryable e)"

definition readySummary :: "EnvironmentSummary \<Rightarrow> string \<Rightarrow> gotime \<Rightarrow> EnvironmentSummary" where
  "readySummary summary handle now =
     (if es_AgentHandle summary = [] then summary\<lparr>es_AgentHandle := handle\<rparr> else summary)\<lparr>es_UpdatedAt := now\<rparr>"

inductive passStep :: "'w Reconciler \<Rightarrow> PoolConfig \<Rightarrow> slot list \<Rightarrow> 'w lstate \<Rightarrow> 'w lstate \<Rightarrow> bool" for r pool slots where
  call: "callStep r s s' \<Longrightarrow> passStep r pool slots s s'"
| status: "v \<in> set slots \<Longrightarrow> mayset pool v x \<Longrightarrow> rc_clock r w = (now, w') \<Longrightarrow>
    SetSlotStatus (rc_commit r w') (sl_SlotID v) x now d = (res, d') \<Longrightarrow> passStep r pool slots (d, w) (d', w')"
| retarget: "v \<in> set slots \<Longrightarrow> wanted pool v \<Longrightarrow> nextGeneration pool (\<not> matchesSlotTarget v pool) v = Some g \<Longrightarrow>
    kget (sd_slotLeases d) (sl_SlotID v) = None \<Longrightarrow> rc_clock r w = (now, w') \<Longrightarrow>
    UpsertSlot (rc_commit r w') (retargetedSlot pool g now v) d = (res, d') \<Longrightarrow> passStep r pool slots (d, w) (d', w')"
| ready: "v \<in> set slots \<Longrightarrow> wanted pool v \<Longrightarrow> nextGeneration pool (\<not> matchesSlotTarget v pool) v = Some g \<Longrightarrow>
    inspected r pool (sl_SlotID v) g summary \<Longrightarrow> handle \<noteq> [] \<Longrightarrow> rc_clock r w = (now, w') \<Longrightarrow>
    MarkSlotReady (rc_commit r w') (sl_SlotID v) (readySummary summary handle now) now d = (res, d') \<Longrightarrow>
    passStep r pool slots (d, w) (d', w')"
| quarantine: "v \<in> set slots \<Longrightarrow> wanted pool v \<Longrightarrow> unhealthy r (sl_SlotID v) l \<Longrightarrow> rc_clock r w = (now, w') \<Longrightarrow>
    QuarantineSlotLease (rc_commit r w') (sl_SlotID v) (sk_LeaseID l) (sk_Owner l) now ''agent health failure'' d = (res, d') \<Longrightarrow>
    passStep r pool slots (d, w) (d', w')"

abbreviation reach :: "'w Reconciler \<Rightarrow> PoolConfig \<Rightarrow> slot list \<Rightarrow> 'w lstate \<Rightarrow> 'w lstate \<Rightarrow> bool" where
  "reach r pool slots \<equiv> (passStep r pool slots)\<^sup>*\<^sup>*"

section \<open>A pass is a run of its steps\<close>

lemma reach_call: "callStep r t s' \<Longrightarrow> reach r pool slots s t \<Longrightarrow> reach r pool slots s s'"
  by (metis passStep.call rtranclp.rtrancl_into_rtrancl)

lemma setStatus_reach:
  assumes "setStatus r (sl_SlotID v) x t = (res, s')" "v \<in> set slots" "mayset pool v x" "reach r pool slots s t"
  shows "reach r pool slots s s'"
proof -
  obtain now w' where c: "rc_clock r (snd t) = (now, w')" by (cases "rc_clock r (snd t)")
  obtain res' d' where u: "SetSlotStatus (rc_commit r w') (sl_SlotID v) x now (fst t) = (res', d')"
    by (cases "SetSlotStatus (rc_commit r w') (sl_SlotID v) x now (fst t)")
  have "passStep r pool slots (fst t, snd t) (d', w')" by (rule passStep.status [OF assms(2,3) c u])
  moreover have "s' = (d', w')" using assms(1) c u by (simp add: setStatus_def)
  ultimately show ?thesis using assms(4) by (simp add: rtranclp.rtrancl_into_rtrancl)
qed

lemma surplusSlot_reach:
  assumes v: "v \<in> set slots" "surplus pool v" and res: "surplusSlot r q v leased e s = (e', s')"
  shows "reach r pool slots s s'"
proof -
  have m: "mayset pool v Draining" "mayset pool v Retiring" "mayset pool v Deleted" "mayset pool v Quarantined"
    using v(2) by (auto simp: mayset_def surplus_def)
  note steps = setStatus_reach [OF _ v(1) m(1)] setStatus_reach [OF _ v(1) m(2)]
    setStatus_reach [OF _ v(1) m(3)] setStatus_reach [OF _ v(1) m(4)]
  show ?thesis
  proof (cases leased)
    case True
    then show ?thesis using res
      by (auto simp: surplusSlot_def split: if_splits prod.splits intro: steps(1))
  next
    case False
    obtain res1 s1 where r1: "(if sl_Status v \<noteq> Retiring then setStatus r (sl_SlotID v) Retiring s else (Inr (), s)) = (res1, s1)"
      by (meson surj_pair)
    then have to1: "reach r pool slots s s1" by (auto split: if_splits intro: steps(2))
    obtain err s2 where r2: "pv_Retire (rc_provisioner r) q s1 = (err, s2)" by (meson surj_pair)
    have to2: "reach r pool slots s s2" using callStep.retire [OF r2] to1 by (rule reach_call)
    have "reach r pool slots s (snd (setStatus r (sl_SlotID v) Quarantined s2))"
      "reach r pool slots s (snd (setStatus r (sl_SlotID v) Deleted s2))"
      using steps(3,4) to2 by (metis prod.collapse)+
    with False to1 res show ?thesis
      unfolding surplusSlot_def r1 by (auto simp: r2 split: sum.splits if_splits prod.splits)
  qed
qed

lemma checkHealth_reach:
  assumes v: "v \<in> set slots" "wanted pool v" and res: "checkHealth r pool pg v l e s = (e', s')" and t: "reach r pool slots t s"
  shows "reach r pool slots t s'"
proof (cases "pv_Health (rc_provisioner r)")
  case None
  then show ?thesis using res t by (simp add: checkHealth_def)
next
  case (Some f)
  let ?q = "\<lparr>pr_SlotID = sl_SlotID v, pr_PoolID = sl_PoolID v, pr_Ordinal = sl_Ordinal v,
                 pr_Owner = rc_owner r, pr_EnvironmentGeneration = sl_EnvironmentGeneration v,
                 pr_PackageGeneration = pg, pr_Requirement = PoolConfig_Requirement pool\<rparr>"
  obtain err s1 where h: "f ?q l s = (err, s1)" by (meson surj_pair)
  have to1: "reach r pool slots t s1" using callStep.health [OF Some h] t by (rule reach_call)
  show ?thesis
  proof (cases "err = None \<or> isRetryable (the err)")
    case True
    then have "s' = s1" using res Some h by (cases err) (auto simp: checkHealth_def)
    then show ?thesis using to1 by simp
  next
    case False
    then obtain x where x: "err = Some x" "\<not> isRetryable x" by auto
    obtain rerr s2 where rv: "(case rc_revoker r of None \<Rightarrow> (None, s1) | Some revoker \<Rightarrow> cr_RevokeSlotLease revoker (sk_LeaseID l) s1) = (rerr, s2)"
      by (meson surj_pair)
    have to2: "reach r pool slots t s2"
    proof (cases "rc_revoker r")
      case (Some revoker)
      with rv have "callStep r s1 s2" by (auto intro: callStep.revoke_lease [OF Some])
      then show ?thesis using to1 by (rule reach_call)
    qed (use rv to1 in simp)
    obtain now w where c: "rc_clock r (snd s2) = (now, w)" by (meson surj_pair)
    obtain qres d where u: "QuarantineSlotLease (rc_commit r w) (sl_SlotID v) (sk_LeaseID l) (sk_Owner l) now ''agent health failure'' (fst s2) = (qres, d)"
      by (meson surj_pair)
    have "unhealthy r (sl_SlotID v) l"
      unfolding unhealthy_def using Some h x by (intro exI [of _ f] exI [of _ ?q] exI [of _ s] exI [of _ x] exI [of _ s1]) simp
    then have "passStep r pool slots (fst s2, snd s2) (d, w)" by (rule passStep.quarantine [OF v _ c u])
    with to2 have "reach r pool slots t (d, w)" by (simp add: rtranclp.rtrancl_into_rtrancl)
    with res Some h x rv c u to2 show ?thesis by (auto simp: checkHealth_def split: if_splits)
  qed
qed

lemma leasedSlot_reach:
  assumes v: "v \<in> set slots" "wanted pool v" and res: "leasedSlot r pool pg ch v l e s = (e', s')"
  shows "reach r pool slots s s'"
proof -
  have m: "mayset pool v Draining" using v(2) by (auto simp: mayset_def wanted_def)
  let ?rev = "case Option.bind (rc_revoker r) cr_RevokeGeneration of None \<Rightarrow> (e, s)
      | Some revoke \<Rightarrow> let (revokeErr, s') = revoke (sl_SlotID v) (sl_EnvironmentGeneration v) s
         in (if revokeErr \<noteq> None then keepFirst e (lifecycleMsg ''generation capability revocation failed'') else e, s')"
  obtain e1 s1 where rv: "?rev = (e1, s1)" by (meson surj_pair)
  have to1: "reach r pool slots s s1"
  proof (cases "Option.bind (rc_revoker r) cr_RevokeGeneration")
    case (Some revoke)
    then obtain u where u: "rc_revoker r = Some u" "cr_RevokeGeneration u = Some revoke" by (auto simp: bind_eq_Some_conv)
    have "callStep r s s1" using rv Some by (auto split: prod.splits intro: callStep.revoke_generation [OF u])
    then show ?thesis by (rule reach_call) simp
  qed (use rv in simp)
  obtain res2 s2 where st: "setStatus r (sl_SlotID v) Draining s1 = (res2, s2)" by (meson surj_pair)
  have to2: "reach r pool slots s s2" by (rule setStatus_reach [OF st v(1) m to1])
  show ?thesis
  proof (cases "ch \<and> sl_Status v \<noteq> Draining")
    case True
    then show ?thesis using res to2 by (simp add: leasedSlot_def rv st Let_def)
  next
    case False
    then have "s' = s \<or> (\<exists>e2. checkHealth r pool pg v l e2 s = (e', s'))"
      using res by (auto simp: leasedSlot_def Let_def split: if_splits)
    then show ?thesis by (auto intro: checkHealth_reach [OF v])
  qed
qed

lemma matches_ready_step:
  assumes v: "v \<in> set slots" "wanted pool v" "nextGeneration pool (\<not> matchesSlotTarget v pool) v = Some g"
    and i: "inspected r pool (sl_SlotID v) g summary" "handle \<noteq> []"
    and c: "rc_clock r (snd t) = (now, w)"
    and m: "MarkSlotReady (rc_commit r w) (sl_SlotID v) (readySummary summary handle now) now (fst t) = (res, d)"
    and t: "reach r pool slots s t"
  shows "reach r pool slots s (d, w)"
proof -
  have "passStep r pool slots (fst t, snd t) (d, w)" by (rule passStep.ready [OF v i c m])
  with t show ?thesis by (simp add: rtranclp.rtrancl_into_rtrancl)
qed

lemma provisionSlot_reach:
  assumes v: "v \<in> set slots" "wanted pool v" "nextGeneration pool (\<not> matchesSlotTarget v pool) v = Some g"
    and q: "pr_SlotID q = sl_SlotID v" "pr_EnvironmentGeneration q = g" "pr_Requirement q = PoolConfig_Requirement pool"
    and res: "provisionSlot r pool q (sl_SlotID v) e s = (e', s')" and t: "reach r pool slots t s"
  shows "reach r pool slots t s'"
proof -
  have m: "mayset pool v Quarantined" using v(2) by (simp add: mayset_def)
  have isolate: "reach r pool slots t (snd (setStatus r (sl_SlotID v) Quarantined u))" if "reach r pool slots t u" for u
    using setStatus_reach [OF _ v(1) m that] by (metis prod.collapse)
  obtain pres s1 where p: "pv_Provision (rc_provisioner r) q s = (pres, s1)" by (meson surj_pair)
  have to1: "reach r pool slots t s1" using callStep.provision [OF p] t by (rule reach_call)
  obtain ires s2 where i: "pv_Inspect (rc_provisioner r) q s1 = (ires, s2)" by (meson surj_pair)
  have to2: "reach r pool slots t s2" using callStep.inspect [OF i] to1 by (rule reach_call)
  obtain now w where c: "rc_clock r (snd s2) = (now, w)" by (meson surj_pair)
  have ready: "reach r pool slots t (snd (MarkSlotReady (rc_commit r w) (sl_SlotID v) (readySummary x h now) now (fst s2)), w)"
    if "ires = Inr x" "matches x pool g" "h \<noteq> []" for x h
  proof -
    have "inspected r pool (sl_SlotID v) g x" unfolding inspected_def using q i that by blast
    then show ?thesis using matches_ready_step [OF v _ that(3) c _ to2] by (metis prod.collapse)
  qed
  show ?thesis
  proof (cases pres)
    case (Inl x)
    then show ?thesis using res p to1 isolate [OF to1] by (auto simp: provisionSlot_def Let_def)
  next
    case (Inr y)
    show ?thesis
    proof (cases "ps_AgentHandle y = [] \<or> \<not> matches (ps_Summary y) pool g")
      case True
      then show ?thesis using res p Inr isolate [OF to1] q(2) by (auto simp: provisionSlot_def Let_def)
    next
      case ok: False
      show ?thesis
      proof (cases ires)
        case (Inl x)
        then show ?thesis using res p Inr ok i q(2) to2 isolate [OF to2] by (auto simp: provisionSlot_def Let_def)
      next
        case r2: (Inr x)
        show ?thesis
        proof (cases "matches x pool g")
          case False
          then show ?thesis using res p Inr ok i q(2) r2 isolate [OF to2] by (auto simp: provisionSlot_def Let_def)
        next
          case True
          have "s' = (snd (MarkSlotReady (rc_commit r w) (sl_SlotID v) (readySummary x (ps_AgentHandle y) now) now (fst s2)), w)"
            using res p Inr ok i q(2) r2 True c by (auto simp: provisionSlot_def Let_def readySummary_def split: prod.splits)
          then show ?thesis using ready [OF r2 True] ok by simp
        qed
      qed
    qed
  qed
qed

text \<open>What a successful return to provisioning leaves: the slot has no lease.\<close>

lemma setStatus_unleased:
  assumes "setStatus r k x s = (Inr u, s')" "x \<noteq> Leased" "x \<noteq> Draining"
  shows "kget (sd_slotLeases (fst s')) k = None"
  using assms by (auto simp: setStatus_def SetSlotStatus_def update_def setStatusTx_def Let_def putSlot_def
      split: prod.splits if_splits sum.splits option.splits)

lemma idleSlot_reach:
  assumes v: "v \<in> set slots" "wanted pool v" "nextGeneration pool ch v = Some g" and ch: "ch = (\<not> matchesSlotTarget v pool)"
    and q: "pr_SlotID q = sl_SlotID v" "pr_EnvironmentGeneration q = g" "pr_Requirement q = PoolConfig_Requirement pool"
    and lease: "kget (sd_slotLeases (fst s)) (sl_SlotID v) = None"
    and res: "idleSlot r pool q ch v e s = (e', s')"
  shows "reach r pool slots s s'"
proof (cases "sl_Status v = Leased \<or> sl_Status v = Draining")
  case True
  then show ?thesis using res by (auto simp: idleSlot_def)
next
  case idle: False
  have m: "mayset pool v Provisioning" using v(2) by (simp add: mayset_def)
  obtain ok s1 where i: "(if sl_Status v = Ready then let (inspection, s1) = pv_Inspect (rc_provisioner r) q s
       in (case inspection of Inl _ \<Rightarrow> False | Inr summary \<Rightarrow> \<not> ch \<and> matches summary pool (sl_EnvironmentGeneration v), s1)
     else (False, s)) = (ok, s1)" by (meson surj_pair)
  have to1: "reach r pool slots s s1" and quiet: "sl_Status v \<noteq> Ready \<Longrightarrow> s1 = s"
    using i by (auto split: if_splits prod.splits intro: reach_call [OF callStep.inspect])
  show ?thesis
  proof (cases ok)
    case True
    then show ?thesis using res idle i to1 by (simp add: idleSlot_def)
  next
    case unhealthy: False
    obtain res2 s2 where st: "(if sl_Status v \<noteq> Provisioning then setStatus r (sl_SlotID v) Provisioning s1 else (Inr (), s1)) = (res2, s2)"
      by (meson surj_pair)
    have to2: "reach r pool slots s s2" using st to1 by (auto split: if_splits intro: setStatus_reach [OF _ v(1) m])
    show ?thesis
    proof (cases res2)
      case (Inl x)
      then show ?thesis using res idle i unhealthy st to2 by (simp add: idleSlot_def)
    next
      case (Inr u)
      have free: "kget (sd_slotLeases (fst s2)) (sl_SlotID v) = None"
      proof (cases "sl_Status v = Provisioning")
        case True
        then show ?thesis using st quiet lease by simp
      qed (use st Inr setStatus_unleased [of r _ Provisioning] in \<open>auto split: if_splits\<close>)
      obtain res3 s3 where up: "(if ch \<or> sl_EnvironmentGeneration v = 0 then let (now, w) = rc_clock r (snd s2);
           (res', d) = UpsertSlot (rc_commit r w) (retargetedSlot pool (pr_EnvironmentGeneration q) now v) (fst s2) in (res', d, w)
         else (Inr (), s2)) = (res3, s3)" by (meson surj_pair)
      have to3: "reach r pool slots s s3"
      proof (cases "ch \<or> sl_EnvironmentGeneration v = 0")
        case True
        obtain now w where c: "rc_clock r (snd s2) = (now, w)" by (meson surj_pair)
        obtain res4 d where u: "UpsertSlot (rc_commit r w) (retargetedSlot pool g now v) (fst s2) = (res4, d)" by (meson surj_pair)
        have "passStep r pool slots (fst s2, snd s2) (d, w)"
          by (rule passStep.retarget [OF v(1,2) v(3) [unfolded ch] free c u])
        then show ?thesis using True up c u q(2) to2 by (simp add: rtranclp.rtrancl_into_rtrancl)
      qed (use up to2 in simp)
      show ?thesis
      proof (cases res3)
        case (Inl x)
        then show ?thesis using res idle i unhealthy st Inr up to3 by (simp add: idleSlot_def)
      next
        case r3: (Inr z)
        have "provisionSlot r pool q (sl_SlotID v) e s3 = (e', s')"
          using res idle i unhealthy st Inr up r3 by (simp add: idleSlot_def)
        then show ?thesis by (rule provisionSlot_reach [OF v(1,2) v(3) [unfolded ch] q _ to3])
      qed
    qed
  qed
qed

lemma GetSlotLease_None: "GetSlotLease k d = Inr None \<Longrightarrow> kget (sd_slotLeases d) k = None"
  by (auto simp: GetSlotLease_def view_def split: option.splits)

lemma reconcileSlot_reach:
  assumes v: "v \<in> set slots" and res: "reconcileSlot r pool pg v e s = (e', s')"
  shows "reach r pool slots s s'"
proof (cases "sl_Status v = Deleted")
  case True
  then show ?thesis using res by (simp add: reconcileSlot_def)
next
  case alive: False
  show ?thesis
  proof (cases "GetSlotLease (sl_SlotID v) (fst s)")
    case (Inl x)
    then show ?thesis using res alive by (simp add: reconcileSlot_def)
  next
    case lease: (Inr lease)
    let ?ch = "\<not> matchesSlotTarget v pool"
    show ?thesis
    proof (cases "nextGeneration pool ?ch v")
      case None
      then show ?thesis using res alive lease by (simp add: reconcileSlot_def)
    next
      case gen: (Some g)
      let ?q = "\<lparr>pr_SlotID = sl_SlotID v, pr_PoolID = sl_PoolID v, pr_Ordinal = sl_Ordinal v, pr_Owner = rc_owner r,
        pr_EnvironmentGeneration = g, pr_PackageGeneration = pg, pr_Requirement = PoolConfig_Requirement pool\<rparr>"
      note simps = reconcileSlot_def alive lease gen
      consider (over) "pc_DesiredSlots pool < sl_Ordinal v" | (isolated) "sl_Ordinal v \<le> pc_DesiredSlots pool" "sl_Status v = Quarantined"
        | (stopped) "sl_Ordinal v \<le> pc_DesiredSlots pool" "sl_Status v \<noteq> Quarantined"
            "sl_SessionDesiredState v = ''stopped'' \<or> sl_Status v = Stopped"
        | (run) "wanted pool v"
        using alive by (fastforce simp: wanted_def)
      then show ?thesis
      proof cases
        case over
        then have "surplusSlot r ?q v (lease \<noteq> None) e s = (e', s')" "surplus pool v" using res alive by (simp_all add: simps surplus_def)
        then show ?thesis using surplusSlot_reach [OF v] by blast
      next
        case isolated
        then show ?thesis using res by (simp add: simps)
      next
        case stopped
        then have "mayset pool v Draining" using alive by (simp add: mayset_def)
        then show ?thesis using res stopped alive lease gen
          by (auto simp: reconcileSlot_def split: if_splits prod.splits intro: setStatus_reach [OF _ v])
      next
        case run
        then have n: "\<not> pc_DesiredSlots pool < sl_Ordinal v" "sl_Status v \<noteq> Quarantined" "sl_SessionDesiredState v \<noteq> ''stopped''" "sl_Status v \<noteq> Stopped"
          by (auto simp: wanted_def)
        show ?thesis
        proof (cases lease)
          case None
          then have "idleSlot r pool ?q ?ch v e s = (e', s')" using res n by (simp add: simps)
          then show ?thesis
            using idleSlot_reach [OF v run gen HOL.refl, of ?q s] GetSlotLease_None lease None by simp
        next
          case (Some l)
          then have "leasedSlot r pool pg ?ch v l e s = (e', s')" using res n by (simp add: simps)
          then show ?thesis by (rule leasedSlot_reach [OF v run])
        qed
      qed
    qed
  qed
qed

lemma reconcileLoop_reach:
  assumes "set vs \<subseteq> set slots" "reconcileLoop r ctxErr pool pg vs e s = (e', s')"
  shows "reach r pool slots s s'"
  using assms
proof (induction vs arbitrary: e s)
  case (Cons v vs)
  obtain e1 s1 where one: "reconcileSlot r pool pg v e s = (e1, s1)" by (meson surj_pair)
  have to1: "reach r pool slots s s1" using reconcileSlot_reach [OF _ one] Cons.prems(1) by simp
  show ?case
  proof (cases "ctxErr (snd s)")
    case None
    then have "reach r pool slots s1 s'" using Cons one by simp
    with to1 show ?thesis by simp
  qed (use Cons.prems in simp)
qed simp

text \<open>The pool a pass works on, and the slots it has listed.\<close>

definition passPool :: "'w Reconciler \<Rightarrow> sdb \<Rightarrow> PoolConfig result" where
  "passPool r d = (case rc_poolSource r of None \<Rightarrow> Inr (rc_pool r) | Some source \<Rightarrow> source (pc_PoolID (rc_pool r)) d)"

lemma Reconcile_reach:
  assumes res: "Reconcile r ctxErr s = (e, s')" and p: "passPool r (fst s) = Inr pool" and l: "ListSlots (pc_PoolID pool) (fst s) = Inr slots"
  shows "reach r pool slots s s'"
proof -
  let ?pool = "case rc_poolSource r of None \<Rightarrow> Inr (rc_pool r) | Some source \<Rightarrow>
      (case source (pc_PoolID (rc_pool r)) (fst s) of Inl _ \<Rightarrow> Inl (lifecycleMsg ''pool configuration unavailable'') | Inr current \<Rightarrow> Inr current)"
  have pool: "?pool = Inr pool" using p by (auto simp: passPool_def split: option.splits)
  obtain err s1 where u: "(case pv_UpdatePoolRuntime (rc_provisioner r) of None \<Rightarrow> (None, s)
      | Some updatePool \<Rightarrow> if cleanupOnly pool then (None, s) else updatePool pool s) = (err, s1)" by (meson surj_pair)
  have to1: "reach r pool slots s s1"
    using u by (auto split: option.splits if_splits intro: reach_call [OF callStep.runtime])
  have "s' = s \<or> s' = s1 \<or> (\<exists>pg. reconcileLoop r ctxErr pool pg slots None s1 = (e, s'))"
    using res unfolding Reconcile_def pool by (auto simp: l u split: sum.splits if_splits)
  then show ?thesis
    using to1 reconcileLoop_reach [OF subset_refl] rtranclp_trans [OF to1] by blast
qed

lemma Reconcile_loop:
  assumes p: "passPool r (fst s) = Inr pool" and l: "ListSlots (pc_PoolID pool) (fst s) = Inr slots"
    and g: "(case rc_authority r of None \<Rightarrow> Inr 0
      | Some authority \<Rightarrow> if cleanupOnly pool then Inr 0 else trustedGeneration authority pool (fst s)) = Inr pg"
    and u: "pv_UpdatePoolRuntime (rc_provisioner r) = None"
  shows "Reconcile r ctxErr s = reconcileLoop r ctxErr pool pg slots None s"
proof -
  have pool: "(case rc_poolSource r of None \<Rightarrow> Inr (rc_pool r) | Some source \<Rightarrow>
      (case source (pc_PoolID (rc_pool r)) (fst s) of Inl _ \<Rightarrow> Inl (lifecycleMsg ''pool configuration unavailable'')
        | Inr current \<Rightarrow> Inr current)) = Inr pool"
    using p by (auto simp: passPool_def split: option.splits)
  show ?thesis unfolding Reconcile_def pool by (simp add: l g u)
qed

lemma Reconcile_idle:
  assumes res: "Reconcile r ctxErr s = (e, s')" and p: "\<And>pool slots. passPool r (fst s) = Inr pool \<Longrightarrow> ListSlots (pc_PoolID pool) (fst s) \<noteq> Inr slots"
  shows "s' = s" and "e \<noteq> None"
  using res p unfolding Reconcile_def passPool_def by (auto split: option.splits sum.splits)

end
