(* ===== verification/LifecycleFacts.thy ===== *)
theory LifecycleFacts
  imports LifecycleRuns
begin

text \<open>
  The steps of a lifecycle pass on the tables: with interfaces during whose calls the other
  goroutines make any steps of the store, every step keeps the invariant of the tables and removes
  no slot.
\<close>

section \<open>Interference\<close>

text \<open>No slot is removed.\<close>

definition slotsStay :: "sdb \<Rightarrow> sdb \<Rightarrow> bool" where
  "slotsStay d d' \<longleftrightarrow> (\<forall>k. kget (sd_slots d) k \<noteq> None \<longrightarrow> kget (sd_slots d') k \<noteq> None)"

lemma slotsStay_refl [simp]: "slotsStay d d"
  by (simp add: slotsStay_def)

lemma slotsStay_trans: "slotsStay d e \<Longrightarrow> slotsStay e f \<Longrightarrow> slotsStay d f"
  by (simp add: slotsStay_def)

lemma slotsStay_same: "sd_slots d' = sd_slots d \<Longrightarrow> slotsStay d d'"
  by (simp add: slotsStay_def)

lemma slotsStay_kput: "sd_slots d' = kput k v (sd_slots d) \<Longrightarrow> slotsStay d d'"
  by (auto simp: slotsStay_def)

lemma slotsStay_sel [simp]:
  "slotsStay d (deleteSlotLease k e) = slotsStay d e" "slotsStay d (putSlotLease k l e) = slotsStay d e"
  "slotsStay d (e\<lparr>sd_core := c\<rparr>) = slotsStay d e"
  by (simp_all add: slotsStay_def)

lemma slotsStay_putSlot [intro]: "slotsStay d e \<Longrightarrow> slotsStay d (putSlot s e)"
  by (auto simp: slotsStay_def)

lemma slotsStay_put [simp]: "slotsStay d (putSlot s d)"
  by (rule slotsStay_putSlot) simp

lemma slotsStay_slots [simp]:
  "slotsStay d (e\<lparr>sd_slots := kput k v (sd_slots d)\<rparr>)" "slotsStay d (d\<lparr>sd_summaries := x\<rparr>)" "slotsStay d (d\<lparr>sd_packages := y\<rparr>)"
  by (auto simp: slotsStay_def)

lemma slotsStay_update: "(\<And>x d'. fn d = Inr (x, d') \<Longrightarrow> slotsStay d d') \<Longrightarrow> slotsStay d (snd (update commit fn d))"
  by (rule snd_update) simp_all

lemma stay_ops:
  "slotsStay d (snd (SetSlotStatus c k x now d))" "slotsStay d (snd (UpsertSlot c v d))"
  "slotsStay d (snd (MarkSlotReady c k es now d))" "slotsStay d (snd (QuarantineSlotLease c k i w now why d))"
  by (auto simp: slotsStay_def SetSlotStatus_def UpsertSlot_def MarkSlotReady_def QuarantineSlotLease_def update_def
      setStatusTx_def markReadyTx_def quarantineLeaseTx_def Let_def split: sum.splits option.splits if_splits)

lemma stay_fold: "slotsStay d (fold (\<lambda>x. putOpt (w x)) xs d)"
proof (induction xs arbitrary: d)
  case (Cons x xs)
  have "slotsStay d (putOpt (w x) d)" by (auto simp: slotsStay_def putOpt_get split: option.splits)
  then show ?case using Cons.IH slotsStay_trans by auto
qed simp

lemma stay_reconcile: "reconcileTx p now d = Inr (x, d') \<Longrightarrow> slotsStay d d'"
proof -
  have o: "reconcileOrdinal p now xs = (\<lambda>i. putOpt (reconciled p now xs i))" for xs by (rule ext) (simp add: reconcileOrdinal_put fun_eq_iff)
  assume "reconcileTx p now d = Inr (x, d')"
  moreover have "slotsStay d (putPool p d)" by (simp add: slotsStay_same)
  ultimately show ?thesis
    using slotsStay_trans [OF slotsStay_trans [OF _ stay_fold] stay_fold] by (auto simp: reconcileTx_def Let_def o fold_retire)
qed

lemma scanned_stay: "scanned now d d' \<Longrightarrow> slotsStay d d'"
  unfolding scanned_def slotsStay_def freed_def by (metis option.distinct(1))

lemma acquire_stay:
  assumes ok: "acquireSlotTx a r d = Inr (y, d')" and w: "world_inv (sq_now a) d" and now: "0 < sq_now a"
  shows "slotsStay d d'"
proof -
  obtain l s where y: "acquireSlotTx a r d = Inr ((l, s), d')" using ok by (cases y) simp
  have inv: "slot_inv (sq_now a) d" using w by (simp add: world_inv_def)
  from y inv now show ?thesis
  proof (cases rule: acquireSlotTx_ok)
    case own
    then show ?thesis by (auto intro: scanned_stay)
  next
    case (fresh d1 t p r')
    have "slotsStay d (putSlot s d1)" using scanned_stay [OF fresh(1)] by (intro slotsStay_putSlot)
    then show ?thesis by (simp add: fresh(11))
  qed
qed

lemma claim_stay:
  assumes ok: "claimSlotTx x m p r d = Inr (cl, d')" and w: "world_inv (ca_now x) d" and now: "0 < ca_now x"
    and i: "TrimSpace (ca_leaseID x) \<noteq> []" "TrimSpace (ca_owner x) \<noteq> []"
  shows "slotsStay d d'"
proof -
  have w2: "slot_inv (ca_now x) d" "store_inv (sd_core d)" using w by (simp_all add: world_inv_def)
  from ok w2 now i show ?thesis
  proof (cases rule: claimSlotTx_cases)
    case (fresh d1 pool r' queued pre q post st s cur al n)
    have "slotsStay d (putSlot (sm_Slot cl) (d1\<lparr>sd_core := sd_core d'\<rparr>))"
      using scanned_stay [OF fresh(8)] by (intro slotsStay_putSlot) simp
    then show ?thesis by (subst fresh(22)) simp
  qed simp
qed

lemma stay_recoverLoop: "recoverLoop now ls d f = (Inr d', f') \<Longrightarrow> slotsStay d d'"
proof (induction ls arbitrary: d f)
  case (Cons l ls)
  have IH: "slotsStay d d'" if "recoverLoop now ls e g = (Inr d', f')" "slotsStay d e" for e g
    using Cons.IH [OF that(1)] that(2) slotsStay_trans by blast
  from Cons.prems show ?case
    by (auto simp: Let_def split: sum.splits if_splits prod.splits intro: IH slotsStay_kput)
qed simp

lemma stay_small:
  "heartbeatSlotTx k now i w ttl d = Inr (l, d') \<Longrightarrow> slotsStay d d'"
  "releaseSlotTx k i w d = Inr (x, d') \<Longrightarrow> slotsStay d d'"
  "quarantineTx k now d = Inr (x, d') \<Longrightarrow> slotsStay d d'"
  by (auto simp: heartbeatSlotTx_def releaseSlotTx_def quarantineTx_def Let_def split: option.splits if_splits)

lemma slotStep_stay:
  assumes "slotStep now e st st'" "world_inv now (ss_db st)" "0 < now"
  shows "slotsStay (ss_db st) (ss_db st')"
  using assms
proof (induction rule: slotStep.induct)
  case (core st st' now)
  then show ?case by (auto simp: coreStep_def slotsStay_same)
next
  case (reconcile p st c now st')
  then show ?case by (auto simp: ReconcileJobPool_def Let_def split: sum.splits intro!: slotsStay_update dest: stay_reconcile)
next
  case (reconcile_trusted p st c now st')
  then show ?case by (auto simp: ReconcileTrustedJobPool_def ReconcileJobPool_def Let_def split: sum.splits intro!: slotsStay_update dest: stay_reconcile)
next
  case (summary st c es st' now)
  then show ?case by (auto simp: PutEnvironmentSummary_def putSummary_def split: sum.splits intro!: slotsStay_update)
next
  case (put_record st c er st' now)
  then show ?case by (auto simp: PutEnvironmentRecord_def split: sum.splits intro!: slotsStay_update)
next
  case (drop_record st c i v st' now)
  then show ?case by (auto simp: DeleteEnvironmentRecord_def intro!: slotsStay_update)
next
  case (acquire a now st c r st')
  then show ?case by (auto simp: Store_AcquireSlotLease_def intro!: slotsStay_update intro: acquire_stay)
next
  case (heartbeat st c k now i w ttl st')
  then show ?case by (auto simp: Store_HeartbeatSlotLease_def intro!: slotsStay_update dest: stay_small)
next
  case (release st c k i w st' now)
  then show ?case by (auto simp: Store_ReleaseSlotLease_def intro!: slotsStay_update dest: stay_small)
next
  case (quarantine st k c now r st')
  then show ?case by (auto simp: QuarantineSlot_def intro!: slotsStay_update dest: stay_small)
next
  case (recover c now st r st')
  then show ?case by (auto simp: RecoverExpiredSlotLeases_def split: sum.splits prod.splits if_splits option.splits intro: stay_recoverLoop)
next
  case (confirm l st r st' now)
  then have "ss_db st' = ss_db st" by (auto simp: ConfirmSlotLeaseStopped_def split: sum.splits if_splits)
  then show ?case by simp
next
  case (claim x now st c m p r st')
  then show ?case by (auto simp: ClaimNextWithSlot_def intro!: slotsStay_update intro: claim_stay)
qed (simp_all add: stay_ops)

text \<open>
  What the reconciler relies on: the clock follows the time of the world, and during a call the
  other goroutines make any steps of the store.
\<close>

inductive storeSteps :: "gotime \<Rightarrow> SlotStore \<Rightarrow> gotime \<Rightarrow> SlotStore \<Rightarrow> bool" where
  wait: "t \<le> t' \<Longrightarrow> storeSteps t st t' st"
| more: "storeSteps t st now0 st1 \<Longrightarrow> now0 \<le> now \<Longrightarrow> slotStep now e st1 st2 \<Longrightarrow> now \<le> t' \<Longrightarrow> storeSteps t st t' st2"

definition interleaved :: "('w \<Rightarrow> gotime) \<Rightarrow> 'w lstate \<Rightarrow> 'w lstate \<Rightarrow> bool" where
  "interleaved tm s s' \<longleftrightarrow> (\<exists>f f'. storeSteps (tm (snd s)) \<lparr>ss_db = fst s, ss_fenced = f\<rparr>
     (tm (snd s')) \<lparr>ss_db = fst s', ss_fenced = f'\<rparr>)"

definition fairInterfaces :: "('w \<Rightarrow> gotime) \<Rightarrow> 'w Reconciler \<Rightarrow> bool" where
  "fairInterfaces tm r \<longleftrightarrow>
     (\<forall>w. tm w \<le> fst (rc_clock r w) \<and> fst (rc_clock r w) \<le> tm (snd (rc_clock r w))) \<and>
     (\<forall>s s'. callStep r s s' \<longrightarrow> interleaved tm s s')"

lemma world_inv_mono: "world_inv t d \<Longrightarrow> t \<le> t' \<Longrightarrow> world_inv t' d"
  by (auto simp: world_inv_def intro: slot_inv_mono)

lemma storeSteps_keep:
  assumes "storeSteps t st t' st'" "world_inv t (ss_db st)" "0 < t"
  shows "t \<le> t' \<and> world_inv t' (ss_db st') \<and> slotsStay (ss_db st) (ss_db st')"
  using assms
proof (induction rule: storeSteps.induct)
  case (wait t t' st)
  then show ?case using world_inv_mono by auto
next
  case (more t st now0 st1 now e st2 t')
  then have w: "world_inv now (ss_db st1)" "0 < now" "t \<le> now" using world_inv_mono by auto
  have "world_inv now (ss_db st2)" using slotStep_ok [OF more.hyps(3) w(1,2)] by (simp add: stepOk_def)
  then show ?case
    using more slotStep_stay [OF more.hyps(3) w(1,2)] w(3) world_inv_mono slotsStay_trans by (meson order_trans)
qed

section \<open>The steps keep the invariant\<close>

definition listed :: "gotime \<Rightarrow> slot list \<Rightarrow> sdb \<Rightarrow> bool" where
  "listed now slots d \<longleftrightarrow> (\<forall>v \<in> set slots. kget (sd_slots d) (sl_SlotID v) \<noteq> None \<and>
     slotName (sl_PoolID v) (sl_Ordinal v) = sl_SlotID v \<and> 1 \<le> sl_Ordinal v \<and> sl_CreatedAt v \<le> now)"

lemma listed_stay: "listed t slots d \<Longrightarrow> slotsStay d d' \<Longrightarrow> t \<le> t' \<Longrightarrow> listed t' slots d'"
  unfolding listed_def slotsStay_def by fastforce

lemma retarget_inv:
  assumes w: "world_inv now d" and l: "listed now slots d" "v \<in> set slots" "kget (sd_slotLeases d) (sl_SlotID v) = None"
  shows "world_inv now (snd (UpsertSlot c (retargetedSlot pool g t v) d))"
proof -
  let ?v = "retargetedSlot pool g t v"
  have inv: "slot_inv now d" using w by (simp add: world_inv_def)
  have id: "sl_SlotID ?v = sl_SlotID v" "sl_PoolID ?v = sl_PoolID v" "sl_Ordinal ?v = sl_Ordinal v" "sl_CreatedAt ?v = sl_CreatedAt v"
    "sl_Status ?v = Provisioning"
    by (simp_all add: retargetedSlot_def)
  obtain s where s: "kget (sd_slots d) (sl_SlotID v) = Some (Json s)"
    using l(1,2) slot_invD(2) [OF inv] unfolding listed_def by (metis option.exhaust)
  note ok = slotOkD [OF slot_inv_slot [OF inv s]]
  have "slotName (sl_PoolID v) (sl_Ordinal v) = slotName (sl_PoolID s) (sl_Ordinal s)" using l(1,2) ok(2) by (simp add: listed_def)
  then have same: "sl_PoolID v = sl_PoolID s" "sl_Ordinal v = sl_Ordinal s"
    using slotName_inj [of "sl_PoolID v" "sl_Ordinal v" "sl_PoolID s" "sl_Ordinal s"] l(1,2) ok(3)
    by (auto simp: listed_def Slot_Validate_iff slotBody_def)
  show ?thesis
  proof (cases "Slot_Validate ?v")
    case (Inr u)
    then have "slotOk now (putSlot ?v d) (sl_SlotID ?v) ?v"
      using l same ok(5) by (auto simp: slotOk_def id leaseFits_def inUse_def listed_def)
    then have "slot_inv now (putSlot ?v d)" by (intro slot_inv_update [OF inv]) simp_all
    then have "world_inv now (putSlot ?v d)" using w by (simp add: world_inv_def)
    then show ?thesis using Inr w by (auto simp: UpsertSlot_def update_def split: option.splits)
  qed (use w in \<open>simp add: UpsertSlot_def\<close>)
qed

lemma passStep_keeps:
  assumes fair: "fairInterfaces tm r" and step: "passStep r pool slots s s'"
    and w: "world_inv (tm (snd s)) (fst s)" "0 < tm (snd s)" "listed (tm (snd s)) slots (fst s)"
  shows "world_inv (tm (snd s')) (fst s') \<and> slotsStay (fst s) (fst s') \<and> tm (snd s) \<le> tm (snd s')"
proof -
  have clock: "tm w0 \<le> now \<and> now \<le> tm w'" if "rc_clock r w0 = (now, w')" for w0 now w'
    using fair that unfolding fairInterfaces_def by (metis fst_conv snd_conv)
  have at: "world_inv now d \<and> 0 < now" if "rc_clock r w0 = (now, w')" "(d, w0) = s" for d w0 now w'
    using clock [OF that(1)] that(2) w world_inv_mono by auto
  have tail: ?thesis if "rc_clock r w0 = (now, w')" "s = (d, w0)" "s' = (d', w')" "world_inv now d'" "slotsStay d d'" for d w0 now w' d'
    using clock [OF that(1)] that world_inv_mono by auto
  from step show ?thesis
  proof cases
    case call
    then have "interleaved tm s s'" using fair unfolding fairInterfaces_def by blast
    then show ?thesis using storeSteps_keep w(1,2) unfolding interleaved_def by fastforce
  next
    case (status v x w0 now w' d res d')
    have d': "d' = snd (SetSlotStatus (rc_commit r w') (sl_SlotID v) x now d)" by (simp only: status(6) snd_conv)
    have "world_inv now d'"
      using SetSlotStatus_step [of now d] at [OF status(5) status(1) [symmetric]] unfolding d' stepOk_def by simp
    then show ?thesis using tail [OF status(5,1,2)] stay_ops(1) d' by blast
  next
    case (retarget v g d w0 now w' res d')
    have d': "d' = snd (UpsertSlot (rc_commit r w') (retargetedSlot pool g now v) d)" by (simp only: retarget(8) snd_conv)
    have "listed now slots d" using listed_stay [OF w(3)] clock [OF retarget(7)] retarget(1) by auto
    then have "world_inv now d'"
      unfolding d' using retarget_inv [OF _ _ retarget(3,6)] at [OF retarget(7)] retarget(1) by blast
    then show ?thesis using tail [OF retarget(7,1,2)] stay_ops(2) d' by blast
  next
    case (ready v g summary handle w0 now w' d res d')
    have d': "d' = snd (MarkSlotReady (rc_commit r w') (sl_SlotID v) (readySummary summary handle now) now d)"
      by (simp only: ready(9) snd_conv)
    have "world_inv now d'"
      using MarkSlotReady_step [of now d] at [OF ready(8) ready(1) [symmetric]] unfolding d' stepOk_def by simp
    then show ?thesis using tail [OF ready(8,1,2)] stay_ops(3) d' by blast
  next
    case (quarantine v l w0 now w' d res d')
    have d': "d' = snd (QuarantineSlotLease (rc_commit r w') (sl_SlotID v) (sk_LeaseID l) (sk_Owner l) now ''agent health failure'' d)"
      by (simp only: quarantine(7) snd_conv)
    have "world_inv now d'"
      using quarantine_lease_step [of now d] at [OF quarantine(6) quarantine(1) [symmetric]] unfolding d' stepOk_def by simp
    then show ?thesis using tail [OF quarantine(6,1,2)] stay_ops(4) d' by blast
  qed
qed

lemma reach_keeps:
  assumes fair: "fairInterfaces tm r" and run: "reach r pool slots s s'"
    and w: "world_inv (tm (snd s)) (fst s)" "0 < tm (snd s)" "listed (tm (snd s)) slots (fst s)"
  shows "world_inv (tm (snd s')) (fst s') \<and> slotsStay (fst s) (fst s') \<and> tm (snd s) \<le> tm (snd s')"
  using run
proof (induction rule: rtranclp_induct)
  case (step t u)
  have "listed (tm (snd t)) slots (fst t)" using listed_stay w(3) step.IH by blast
  with passStep_keeps [OF fair step.hyps(2)] step.IH w(2) show ?case
    using slotsStay_trans by (meson less_le_trans order_trans)
qed (simp add: w)

lemma slots_listed:
  assumes "slot_inv now d" "ListSlots p d = Inr slots"
  shows "listed now slots d"
proof -
  have l: "slotsForPoolTx d p = Inr slots" using assms(2) by (simp add: ListSlots_def view_def)
  show ?thesis
    using slotsForPoolTx_slot [OF assms(1) l] slotOkD(4) unfolding listed_def by (metis option.distinct(1))
qed

section \<open>Passes without interference\<close>

text \<open>The interfaces leave the tables alone.\<close>

definition quietInterfaces :: "'w Reconciler \<Rightarrow> bool" where
  "quietInterfaces r \<longleftrightarrow> (\<forall>s s'. callStep r s s' \<longrightarrow> fst s' = fst s)"

text \<open>A slot the pass has made ready: what it shows was inspected at the slot's next generation.\<close>

definition becameReady :: "'w Reconciler \<Rightarrow> PoolConfig \<Rightarrow> slot \<Rightarrow> slot \<Rightarrow> bool" where
  "becameReady r pool v s \<longleftrightarrow> wanted pool v \<and> (\<exists>g summary.
     nextGeneration pool (\<not> matchesSlotTarget v pool) v = Some g \<and> inspected r pool (sl_SlotID v) g summary \<and>
     sl_EnvironmentGeneration s = g \<and> sl_Capabilities s = es_Capabilities summary \<and> sl_Trusted s \<and>
     sl_EnvironmentID s = pc_EnvironmentID pool \<and> sl_EnvironmentVersion s = pc_EnvironmentVersion pool \<and>
     sl_ManifestDigest s = pc_ManifestDigest pool \<and> sl_Signer s = pc_Signer pool)"

text \<open>A lease whose health check failed, by its name and its owner.\<close>

definition failedLease :: "'w Reconciler \<Rightarrow> string \<Rightarrow> SlotLease \<Rightarrow> bool" where
  "failedLease r k l \<longleftrightarrow> (\<exists>l0. unhealthy r k l0 \<and> sk_LeaseID l0 = sk_LeaseID l \<and> sk_Owner l0 = sk_Owner l)"

definition sameButStatus :: "slot \<Rightarrow> slot_status \<Rightarrow> slot \<Rightarrow> bool" where
  "sameButStatus v x s \<longleftrightarrow> s = v\<lparr>sl_Status := x, sl_UpdatedAt := sl_UpdatedAt s\<rparr>"

lemma sameButStatus_set:
  "sameButStatus v x (v\<lparr>sl_Status := x, sl_UpdatedAt := t\<rparr>)"
  "sameButStatus v y s \<Longrightarrow> sameButStatus v x (s\<lparr>sl_Status := x, sl_UpdatedAt := t\<rparr>)"
  unfolding sameButStatus_def by (cases v; cases s; simp)+

definition fate :: "'w Reconciler \<Rightarrow> PoolConfig \<Rightarrow> slot \<Rightarrow> SlotLease json option \<Rightarrow> slot \<Rightarrow> SlotLease json option \<Rightarrow> bool" where
  "fate r pool v raw0 s raw \<longleftrightarrow>
     sl_SlotID s = sl_SlotID v \<and> sl_SessionDesiredState s = sl_SessionDesiredState v \<and>
     sl_SessionOperationID s = sl_SessionOperationID v \<and> sl_SessionRevision s = sl_SessionRevision v \<and>
     (sl_Status s = Ready \<longrightarrow> s = v \<or> becameReady r pool v s) \<and> (sl_Status s = Deleted \<longrightarrow> \<not> wanted pool v) \<and>
     (if wanted pool v then
        raw = raw0 \<and> (raw0 \<noteq> None \<longrightarrow> s = v \<or> sameButStatus v Draining s) \<or>
        raw = None \<and> (\<exists>l. raw0 = Some (Json l) \<and> failedLease r (sl_SlotID v) l)
      else raw = raw0 \<and> (s = v \<or> (\<exists>x. mayset pool v x \<and> (x = Draining \<longleftrightarrow> raw0 \<noteq> None) \<and> sameButStatus v x s)))"

lemma fate_refl: "fate r pool v raw v raw"
  by (simp add: fate_def wanted_def)

definition fates :: "'w Reconciler \<Rightarrow> PoolConfig \<Rightarrow> slot list \<Rightarrow> sdb \<Rightarrow> sdb \<Rightarrow> bool" where
  "fates r pool slots d d' \<longleftrightarrow>
     (\<forall>k. k \<notin> sl_SlotID ` set slots \<longrightarrow> kget (sd_slots d') k = kget (sd_slots d) k \<and> kget (sd_slotLeases d') k = kget (sd_slotLeases d) k) \<and>
     (\<forall>v \<in> set slots. \<exists>s. kget (sd_slots d') (sl_SlotID v) = Some (Json s) \<and>
        fate r pool v (kget (sd_slotLeases d) (sl_SlotID v)) s (kget (sd_slotLeases d') (sl_SlotID v)))"

text \<open>A step writes one listed slot at most.\<close>

lemma fates_write:
  assumes f: "fates r pool slots d e" and v: "v \<in> set slots"
    and st: "\<And>u. u \<in> set slots \<Longrightarrow> kget (sd_slots d) (sl_SlotID u) = Some (Json u)"
    and other: "\<And>k. k \<noteq> sl_SlotID v \<Longrightarrow> kget (sd_slots e') k = kget (sd_slots e) k \<and> kget (sd_slotLeases e') k = kget (sd_slotLeases e) k"
    and new: "kget (sd_slots e') (sl_SlotID v) = Some (Json s')"
      "fate r pool v (kget (sd_slotLeases d) (sl_SlotID v)) s' (kget (sd_slotLeases e') (sl_SlotID v))"
  shows "fates r pool slots d e'"
  unfolding fates_def
proof (intro conjI allI impI ballI)
  fix k
  assume "k \<notin> sl_SlotID ` set slots"
  then show "kget (sd_slots e') k = kget (sd_slots d) k" "kget (sd_slotLeases e') k = kget (sd_slotLeases d) k"
    using f other [of k] v unfolding fates_def by auto
next
  fix u
  assume u: "u \<in> set slots"
  show "\<exists>s. kget (sd_slots e') (sl_SlotID u) = Some (Json s) \<and>
      fate r pool u (kget (sd_slotLeases d) (sl_SlotID u)) s (kget (sd_slotLeases e') (sl_SlotID u))"
  proof (cases "sl_SlotID u = sl_SlotID v")
    case True
    with st [OF u] st [OF v] have "u = v" by (metis json.inject option.inject)
    show ?thesis unfolding \<open>u = v\<close> by (rule exI, rule conjI [OF new])
  next
    case False
    then show ?thesis using f u other [OF False] unfolding fates_def by auto
  qed
qed

lemma setStatus_fate:
  assumes f: "fate r pool v raw0 s raw" and m: "mayset pool v x" and l: "raw = None \<longleftrightarrow> x \<noteq> Draining"
  shows "fate r pool v raw0 (s\<lparr>sl_Status := x, sl_UpdatedAt := now\<rparr>) raw"
proof -
  let ?s = "s\<lparr>sl_Status := x, sl_UpdatedAt := now\<rparr>"
  have sel: "sl_SlotID ?s = sl_SlotID s" "sl_SessionDesiredState ?s = sl_SessionDesiredState s"
    "sl_SessionOperationID ?s = sl_SessionOperationID s" "sl_SessionRevision ?s = sl_SessionRevision s" "sl_Status ?s = x"
    by simp_all
  have nr: "x \<noteq> Ready" "x = Deleted \<Longrightarrow> \<not> wanted pool v" using m by (auto simp: mayset_def surplus_def wanted_def)
  have sb: "s = v \<or> sameButStatus v y s \<Longrightarrow> sameButStatus v x ?s" for y using sameButStatus_set by blast
  show ?thesis
  proof (cases "wanted pool v")
    case True
    have "raw = raw0 \<and> (raw0 \<noteq> None \<longrightarrow> sameButStatus v Draining ?s) \<or>
        raw = None \<and> (\<exists>l. raw0 = Some (Json l) \<and> failedLease r (sl_SlotID v) l)"
      using f l sb unfolding fate_def if_P [OF True] by blast
    with f nr show ?thesis unfolding fate_def sel if_P [OF True] by blast
  next
    case False
    have "raw = raw0" "sameButStatus v x ?s" using f sb unfolding fate_def if_not_P [OF False] by blast+
    with f nr l m show ?thesis unfolding fate_def sel if_not_P [OF False] by blast
  qed
qed

lemma SetSlotStatus_cases:
  assumes "SetSlotStatus c k x now d = (res, d')"
  obtains "d' = d"
  | s where "kget (sd_slots d) k = Some (Json s)" "d' = putSlot (s\<lparr>sl_Status := x, sl_UpdatedAt := now\<rparr>) d"
      "kget (sd_slotLeases d) k = None \<longleftrightarrow> x \<noteq> Leased \<and> x \<noteq> Draining"
proof -
  have "d' = d \<or> (\<exists>u. setStatusTx k x now d = Inr (u, d'))"
    using assms by (auto simp: SetSlotStatus_def update_def split: if_splits sum.splits option.splits)
  then show thesis
  proof
    assume "\<exists>u. setStatusTx k x now d = Inr (u, d')"
    then obtain s where "kget (sd_slots d) k = Some (Json s)" "d' = putSlot (s\<lparr>sl_Status := x, sl_UpdatedAt := now\<rparr>) d"
      "\<not> (kget (sd_slotLeases d) k \<noteq> None \<and> x \<noteq> Leased \<and> x \<noteq> Draining)" "\<not> (kget (sd_slotLeases d) k = None \<and> (x = Leased \<or> x = Draining))"
      by (auto simp: setStatusTx_def getJSON_Inr Let_def)
    moreover from this(3,4) have "kget (sd_slotLeases d) k = None \<longleftrightarrow> x \<noteq> Leased \<and> x \<noteq> Draining" by argo
    ultimately show thesis using that(2) by blast
  qed (rule that(1))
qed

lemma MarkSlotReady_cases:
  assumes "MarkSlotReady c k es now d = (res, d')"
  obtains "d' = d"
  | s p where "kget (sd_slots d) k = Some (Json s)" "sl_Status s \<notin> {Leased, Draining}" "d' = putSlot (readySlot es p now s) (putSummary es d)"
proof -
  have "d' = d \<or> (\<exists>u. markReadyTx k es now d = Inr (u, d'))"
    using assms by (auto simp: MarkSlotReady_def update_def split: if_splits sum.splits option.splits)
  then show thesis using that by (auto elim!: markReadyTx_ok)
qed

lemma QuarantineSlotLease_cases:
  assumes "QuarantineSlotLease c k i w now why d = (res, d')"
  obtains "d' = d"
  | s l where "kget (sd_slots d) k = Some (Json s)" "kget (sd_slotLeases d) k = Some (Json l)" "sk_LeaseID l = i" "sk_Owner l = w"
      "d' = (deleteSlotLease k d)\<lparr>sd_slots := kput k (Json (quarantinedSlot now s)) (sd_slots d)\<rparr>"
proof -
  have "d' = d \<or> (\<exists>u. quarantineLeaseTx k i w now d = Inr (u, d'))"
    using assms by (auto simp: QuarantineSlotLease_def update_def split: if_splits sum.splits option.splits)
  then show thesis using that by (auto simp: quarantineLeaseTx_def getJSON_Inr split: option.splits)
qed

lemma nextGeneration_pos: "nextGeneration pool ch v = Some g \<Longrightarrow> g \<noteq> 0"
  by (auto simp: nextGeneration_def eq_neg_iff_add_eq_0 split: if_splits)

lemma readySummary_sel [simp]:
  "es_EnvironmentID (readySummary x h now) = es_EnvironmentID x" "es_Version (readySummary x h now) = es_Version x"
  "es_Generation (readySummary x h now) = es_Generation x" "es_Capabilities (readySummary x h now) = es_Capabilities x"
  "es_ManifestDigest (readySummary x h now) = es_ManifestDigest x" "es_Signer (readySummary x h now) = es_Signer x"
  "es_Trusted (readySummary x h now) = es_Trusted x"
  by (simp_all add: readySummary_def)

lemma ready_fate:
  assumes f: "fate r pool v raw0 s None" and w: "wanted pool v" "nextGeneration pool (\<not> matchesSlotTarget v pool) v = Some g"
    and i: "inspected r pool (sl_SlotID v) g x"
  shows "fate r pool v raw0 (readySlot (readySummary x h now) p now s) None"
proof -
  let ?s = "readySlot (readySummary x h now) p now s"
  have m: "matches x pool g" using i unfolding inspected_def by blast
  have "becameReady r pool v ?s"
    unfolding becameReady_def using w i m nextGeneration_pos [OF w(2)]
    by (intro conjI exI [of _ g] exI [of _ x]) (auto simp: matches_def readySlot_def split: if_splits)
  moreover have "sl_SlotID ?s = sl_SlotID s" "sl_SessionDesiredState ?s = sl_SessionDesiredState s"
    "sl_SessionOperationID ?s = sl_SessionOperationID s" "sl_SessionRevision ?s = sl_SessionRevision s" "sl_Status ?s = Ready"
    by (simp_all add: readySlot_def)
  ultimately show ?thesis using f w(1) unfolding fate_def by auto
qed

lemma passStep_fates:
  assumes quiet: "quietInterfaces r" and step: "passStep r pool slots s s'" and f: "fates r pool slots d (fst s)"
    and st: "\<And>u. u \<in> set slots \<Longrightarrow> kget (sd_slots d) (sl_SlotID u) = Some (Json u)"
    and use: "\<And>u. u \<in> set slots \<Longrightarrow> kget (sd_slotLeases d) (sl_SlotID u) \<noteq> None \<Longrightarrow> inUse u"
  shows "fates r pool slots d (fst s')"
proof -
  have get: "\<exists>t. kget (sd_slots (fst s)) (sl_SlotID v) = Some (Json t) \<and>
        fate r pool v (kget (sd_slotLeases d) (sl_SlotID v)) t (kget (sd_slotLeases (fst s)) (sl_SlotID v))" if "v \<in> set slots" for v
    using f that unfolding fates_def by blast
  from step show ?thesis
  proof cases
    case call
    then have "fst s' = fst s" using quiet unfolding quietInterfaces_def by blast
    then show ?thesis using f by simp
  next
    case (status v x w now w' e res e')
    from status(6) show ?thesis
    proof (cases rule: SetSlotStatus_cases)
      case 1
      then show ?thesis using f status(1,2) by simp
    next
      case (2 t)
      obtain t' where t: "kget (sd_slots e) (sl_SlotID v) = Some (Json t')"
        "fate r pool v (kget (sd_slotLeases d) (sl_SlotID v)) t' (kget (sd_slotLeases e) (sl_SlotID v))"
        using get [OF status(3)] status(1) by auto
      have tt: "t' = t" using t(1) 2(1) by simp
      have id: "sl_SlotID t = sl_SlotID v" using t(2) tt by (simp add: fate_def)
      have "x \<noteq> Leased" using status(4) by (auto simp: mayset_def)
      then have "fate r pool v (kget (sd_slotLeases d) (sl_SlotID v)) (t\<lparr>sl_Status := x, sl_UpdatedAt := now\<rparr>)
          (kget (sd_slotLeases e) (sl_SlotID v))"
        using setStatus_fate [OF t(2) status(4)] 2(3) tt by simp
      then show ?thesis
        using fates_write [OF f status(3) st, of e' "t\<lparr>sl_Status := x, sl_UpdatedAt := now\<rparr>"] status(1,2) 2(2) id by auto
    qed
  next
    case (retarget v g e w now w' res e')
    let ?t = "retargetedSlot pool g now v"
    obtain t where t: "fate r pool v (kget (sd_slotLeases d) (sl_SlotID v)) t None" using get [OF retarget(3)] retarget(1,6) by auto
    then have "fate r pool v (kget (sd_slotLeases d) (sl_SlotID v)) ?t None"
      using retarget(4) by (auto simp: fate_def retargetedSlot_def)
    moreover have "sl_SlotID ?t = sl_SlotID v" by (simp add: retargetedSlot_def)
    moreover have "e' = e \<or> e' = putSlot ?t e"
      using retarget(8) by (auto simp: UpsertSlot_def update_def split: sum.splits option.splits)
    ultimately show ?thesis
      using f fates_write [OF f retarget(3) st, of e' ?t] retarget(1,2,6) by auto
  next
    case (ready v g x h w now w' e res e')
    from ready(9) show ?thesis
    proof (cases rule: MarkSlotReady_cases)
      case 1
      then show ?thesis using f ready(1,2) by simp
    next
      case (2 t p)
      let ?t = "readySlot (readySummary x h now) p now t"
      let ?raw0 = "kget (sd_slotLeases d) (sl_SlotID v)"
      obtain t' where t: "kget (sd_slots e) (sl_SlotID v) = Some (Json t')" "fate r pool v ?raw0 t' (kget (sd_slotLeases e) (sl_SlotID v))"
        using get [OF ready(3)] ready(1) by auto
      have tt: "t' = t" using t(1) 2(1) by simp
      have none: "kget (sd_slotLeases e) (sl_SlotID v) = None"
      proof (rule ccontr)
        assume n: "kget (sd_slotLeases e) (sl_SlotID v) \<noteq> None"
        then have "?raw0 \<noteq> None" "t = v \<or> sameButStatus v Draining t" using t(2) ready(4) tt unfolding fate_def by auto
        moreover have "sl_Status t = Draining" if "sameButStatus v Draining t" using that unfolding sameButStatus_def by (metis slot.select_convs(16) slot.surjective slot.update_convs(16,20))
        ultimately show False using use [OF ready(3)] 2(2) by (auto simp: inUse_def)
      qed
      have "fate r pool v ?raw0 ?t None" using ready_fate [OF _ ready(4,5,6)] t(2) none tt by simp
      moreover have "sl_SlotID ?t = sl_SlotID v" using t(2) tt by (simp add: readySlot_def fate_def)
      ultimately show ?thesis
        using fates_write [OF f ready(3) st, of e' ?t] ready(1,2) 2(3) none by auto
    qed
  next
    case (quarantine v l w now w' e res e')
    from quarantine(7) show ?thesis
    proof (cases rule: QuarantineSlotLease_cases)
      case 1
      then show ?thesis using f quarantine(1,2) by simp
    next
      case (2 t l')
      let ?raw0 = "kget (sd_slotLeases d) (sl_SlotID v)"
      obtain t' where t: "kget (sd_slots e) (sl_SlotID v) = Some (Json t')" "fate r pool v ?raw0 t' (Some (Json l'))"
        using get [OF quarantine(3)] quarantine(1) 2(2) by auto
      have tt: "t' = t" using t(1) 2(1) by simp
      have "?raw0 = Some (Json l')" using t(2) quarantine(4) by (simp add: fate_def)
      moreover have "failedLease r (sl_SlotID v) l'" using quarantine(5) 2(3,4) unfolding failedLease_def by metis
      ultimately have "fate r pool v ?raw0 (quarantinedSlot now t) None"
        using t(2) quarantine(4) tt by (auto simp: fate_def quarantinedSlot_def)
      then show ?thesis
        using fates_write [OF f quarantine(3) st, of e' "quarantinedSlot now t"] quarantine(1,2) 2(5) by auto
    qed
  qed
qed

lemma reach_fates:
  assumes "quietInterfaces r" "reach r pool slots s s'"
    and st: "\<And>u. u \<in> set slots \<Longrightarrow> kget (sd_slots (fst s)) (sl_SlotID u) = Some (Json u)"
    and use: "\<And>u. u \<in> set slots \<Longrightarrow> kget (sd_slotLeases (fst s)) (sl_SlotID u) \<noteq> None \<Longrightarrow> inUse u"
  shows "fates r pool slots (fst s) (fst s')"
  using assms(2)
proof (induction rule: rtranclp_induct)
  case base
  show ?case using st by (simp add: fates_def fate_refl)
next
  case (step t u)
  then show ?case using passStep_fates [OF assms(1) step.hyps(2) step.IH st use] by blast
qed

lemma listed_stored:
  assumes "slot_inv t d" "ListSlots p d = Inr slots" "u \<in> set slots"
  shows "kget (sd_slots d) (sl_SlotID u) = Some (Json u)"
    and "kget (sd_slotLeases d) (sl_SlotID u) \<noteq> None \<Longrightarrow> inUse u"
proof -
  have l: "slotsForPoolTx d p = Inr slots" using assms(2) by (simp add: ListSlots_def view_def)
  show s: "kget (sd_slots d) (sl_SlotID u) = Some (Json u)" by (rule slotsForPoolTx_slot(2) [OF assms(1) l assms(3)])
  show "inUse u" if "kget (sd_slotLeases d) (sl_SlotID u) \<noteq> None" using lease_iff_inUse [OF assms(1) s] that by blast
qed

end
