(* ===== verification/LogicalSlots.thy ===== *)
theory LogicalSlots
  imports SlotLifecycle JobPool
begin

text \<open>
  The lifecycle of logical pools, cmd/service/logical_slot_runtime.go: the provisioner that models a
  ready local slot without any platform resource, and the pass over all pools that runs the job
  pool control before and after the lifecycle reconciler of each.
\<close>

section \<open>The logical provisioner\<close>

definition logicalSummary :: "gotime \<Rightarrow> ProvisionRequest \<Rightarrow> EnvironmentSummary" where
  "logicalSummary now request =
     (let generation = (if pr_EnvironmentGeneration request = 0 then 1 else pr_EnvironmentGeneration request);
          requirement = pr_Requirement request
      in \<lparr>es_EnvironmentID = er_EnvironmentID requirement, es_Version = er_Version requirement,
          es_Generation = generation, es_Capabilities = er_Capabilities requirement,
          es_ManifestDigest = er_ManifestDigest requirement, es_Signer = er_Signer requirement,
          es_Trusted = True, es_AgentVersion = ''logical'', es_SessionState = ''ready'',
          es_DesktopReady = True, es_AgentHandle = ''logical'', es_UpdatedAt = now\<rparr>)"

text \<open>The error of a context has no method \<open>Retryable\<close>.\<close>

definition contextError :: "error \<Rightarrow> ProvisionError" where
  "contextError e = \<lparr>pe_Error = e, pe_Retryable = None\<rparr>"

definition logicalProvision ::
  "('w \<Rightarrow> gotime \<times> 'w) \<Rightarrow> ('w \<Rightarrow> error option) \<Rightarrow> ProvisionRequest \<Rightarrow> 'w lstate \<Rightarrow>
     (ProvisionError + ProvisionResult) \<times> 'w lstate" where
  "logicalProvision now ctxErr request s =
     (case ctxErr (snd s) of
        Some e \<Rightarrow> (Inl (contextError e), s)
      | None \<Rightarrow>
          let (t, w) = now (snd s); summary = logicalSummary t request
          in (Inr \<lparr>ps_AgentHandle = es_AgentHandle summary, ps_Summary = summary\<rparr>, fst s, w))"

definition logicalInspect ::
  "('w \<Rightarrow> gotime \<times> 'w) \<Rightarrow> ('w \<Rightarrow> error option) \<Rightarrow> ProvisionRequest \<Rightarrow> 'w lstate \<Rightarrow>
     (ProvisionError + EnvironmentSummary) \<times> 'w lstate" where
  "logicalInspect now ctxErr request s =
     (case ctxErr (snd s) of
        Some e \<Rightarrow> (Inl (contextError e), s)
      | None \<Rightarrow> let (t, w) = now (snd s) in (Inr (logicalSummary t request), fst s, w))"

definition logicalRetire ::
  "('w \<Rightarrow> error option) \<Rightarrow> ProvisionRequest \<Rightarrow> 'w lstate \<Rightarrow> ProvisionError option \<times> 'w lstate" where
  "logicalRetire ctxErr request s = (map_option contextError (ctxErr (snd s)), s)"

definition logicalSlotProvisioner :: "('w \<Rightarrow> gotime \<times> 'w) \<Rightarrow> ('w \<Rightarrow> error option) \<Rightarrow> 'w Provisioner" where
  "logicalSlotProvisioner now ctxErr =
     \<lparr>pv_Provision = logicalProvision now ctxErr, pv_Inspect = logicalInspect now ctxErr,
      pv_Retire = logicalRetire ctxErr, pv_Health = None, pv_UpdatePoolRuntime = None, pv_Shutdown = None\<rparr>"

section \<open>All pools\<close>

record 'w logicalSlotItem =
  li_reconciler :: "'w Reconciler"
  li_requiresAuthority :: bool

text \<open>
  The reconciler of all pools. \<open>lg_now\<close> is its clock and \<open>lg_timeNow\<close> the wall clock the store falls
  back to; \<open>lg_ctxErr\<close> is the state of the context of the pass; \<open>lg_commit\<close> and \<open>lg_control\<close> are
  the verdicts of the engine on the transactions of the slots and of the job pool control.
\<close>

record 'w logicalSlotReconciler =
  lg_now :: "'w \<Rightarrow> gotime \<times> 'w"
  lg_timeNow :: "'w \<Rightarrow> gotime"
  lg_ctxErr :: "'w \<Rightarrow> error option"
  lg_commit :: "'w \<Rightarrow> scommit"
  lg_control :: "'w \<Rightarrow> nat \<Rightarrow> jcommit"
  lg_owner :: string
  lg_items :: "(string, 'w logicalSlotItem) kmap"

definition forPool ::
  "'w logicalSlotReconciler \<Rightarrow> PoolConfig \<Rightarrow> 'w Reconciler result \<times> 'w logicalSlotReconciler" where
  "forPool r pool =
     (let requiresAuthority = (pc_ManifestDigest pool \<noteq> [] \<or> pc_Signer pool \<noteq> []);
          create =
            (case newReconciler (lg_commit r) (logicalSlotProvisioner (lg_now r) (lg_ctxErr r)) pool (lg_now r) second second
                ([ValueExtra None None (Some GetJobPool), TextExtra (lg_owner r)]
                 @ (if requiresAuthority then [ValueExtra None (Some GetEnvironmentRecord) None] else [])) of
               Inl e \<Rightarrow> (Inl e, r)
             | Inr value \<Rightarrow>
                 (Inr value, r\<lparr>lg_items := kput (pc_PoolID pool)
                    \<lparr>li_reconciler = value, li_requiresAuthority = requiresAuthority\<rparr> (lg_items r)\<rparr>))
      in case kget (lg_items r) (pc_PoolID pool) of
           Some current \<Rightarrow>
             if li_requiresAuthority current = requiresAuthority then (Inr (li_reconciler current), r) else create
         | None \<Rightarrow> create)"

type_synonym 'w allState = "'w logicalSlotReconciler \<times> jdb \<times> 'w"

text \<open>The control projection of one pool, at the time of the reconciler's clock.\<close>

definition runControl :: "string \<Rightarrow> 'w allState \<Rightarrow> JobPoolProjection result \<times> 'w allState" where
  "runControl poolID st =
     (let (r, d, w) = st; (at, w1) = lg_now r w;
          (res, d1) = ReconcileJobPoolControl (lg_control r w1) (lg_timeNow r w1) poolID at d
      in (res, r, d1, w1))"

definition reconcilePool :: "PoolConfig \<Rightarrow> error option \<Rightarrow> 'w allState \<Rightarrow> error option \<times> 'w allState" where
  "reconcilePool pool first st =
     (case runControl (pc_PoolID pool) st of
        (Inl e, st1) \<Rightarrow> (keepFirst first e, st1)
      | (Inr _, r, d, w) \<Rightarrow>
          (case forPool r pool of
             (Inl e, r1) \<Rightarrow> (keepFirst first e, r1, d, w)
           | (Inr reconciler, r1) \<Rightarrow>
               let (err, s, w1) = Reconcile reconciler (lg_ctxErr r1) (jd_db d, w);
                   first1 = (case err of Some e \<Rightarrow> keepFirst first e | None \<Rightarrow> first)
               in (case runControl (pc_PoolID pool) (r1, d\<lparr>jd_db := s\<rparr>, w1) of
                     (Inl e, st2) \<Rightarrow> (if e = SlotErr ErrPoolNotFound then first1 else keepFirst first1 e, st2)
                   | (Inr _, st2) \<Rightarrow> (first1, st2))))"

text \<open>\<open>Inl\<close> is the early return when the context has ended.\<close>

fun reconcilePools :: "PoolConfig list \<Rightarrow> error option \<Rightarrow> 'w allState \<Rightarrow> (error + error option) \<times> 'w allState" where
  "reconcilePools [] first st = (Inr first, st)"
| "reconcilePools (pool # rest) first st =
     (case lg_ctxErr (fst st) (snd (snd st)) of
        Some e \<Rightarrow> (Inl e, st)
      | None \<Rightarrow> let (first', st') = reconcilePool pool first st in reconcilePools rest first' st')"

definition ReconcileAll :: "'w allState \<Rightarrow> error option \<times> 'w allState" where
  "ReconcileAll st =
     (case ListJobPools (jd_db (fst (snd st))) of
        Inl e \<Rightarrow> (Some e, st)
      | Inr pools \<Rightarrow>
          (case reconcilePools pools None st of
             (Inl e, st') \<Rightarrow> (Some e, st')
           | (Inr first, r, d, w) \<Rightarrow>
               (first, r\<lparr>lg_items := foldr (\<lambda>entry items. if fst entry \<in> pc_PoolID ` set pools then items
                  else kdel (fst entry) items) (kentries (lg_items r)) (lg_items r)\<rparr>, d, w)))"

end
