(* ===== verification/LifecycleLogical.thy ===== *)
theory LifecycleLogical
  imports LifecycleFacts LogicalSlots SlotFacts
begin

text \<open>
  Passes with the logical provisioner, an engine that commits and a context that does not end:
  what happens to each slot of the pool, one after the other.
\<close>

section \<open>The steady reconciler\<close>

definition steadyLogical :: "gotime \<Rightarrow> 'w Reconciler \<Rightarrow> bool" where
  "steadyLogical t r \<longleftrightarrow>
     rc_provisioner r = logicalSlotProvisioner (rc_clock r) (\<lambda>_. None) \<and> rc_revoker r = None \<and>
     (\<forall>w d. rc_commit r w d = None) \<and> (\<forall>w. 0 < fst (rc_clock r w) \<and> t \<le> fst (rc_clock r w))"

lemma logical_quiet:
  assumes "rc_provisioner r = logicalSlotProvisioner now ctxErr" "rc_revoker r = None"
  shows "quietInterfaces r"
  unfolding quietInterfaces_def
proof (intro allI impI)
  fix s s'
  assume "callStep r s s'"
  then show "fst s' = fst s"
    by cases (use assms in \<open>auto simp: logicalSlotProvisioner_def logicalProvision_def logicalInspect_def logicalRetire_def Let_def
      split: option.splits prod.splits\<close>)
qed

lemma steady_quiet: "steadyLogical t r \<Longrightarrow> quietInterfaces r"
  unfolding steadyLogical_def using logical_quiet by blast

lemma steady_clock:
  assumes "steadyLogical t r" obtains now w' where "rc_clock r w = (now, w')" "0 < now" "t \<le> now"
  using assms unfolding steadyLogical_def by (metis prod.collapse)

lemma steady_setStatus:
  assumes st: "steadyLogical t r" and s: "kget (sd_slots d) k = Some (Json s)" and "sl_Status s \<noteq> Deleted"
    and "x \<in> {Provisioning, Retiring, Deleted}" "kget (sd_slotLeases d) k = None"
  obtains now w' where "0 < now" "t \<le> now"
    "setStatus r k x (d, w) = (Inr (), putSlot (s\<lparr>sl_Status := x, sl_UpdatedAt := now\<rparr>) d, w')"
proof -
  obtain now w' where c: "rc_clock r w = (now, w')" "0 < now" "t \<le> now" by (rule steady_clock [OF st])
  have "setStatusTx k x now d = Inr ((), putSlot (s\<lparr>sl_Status := x, sl_UpdatedAt := now\<rparr>) d)"
    using assms(2-5) by (auto simp: setStatusTx_def getJSON_def Let_def)
  then show thesis
    using that c assms(4) st by (auto simp: setStatus_def SetSlotStatus_def update_def steadyLogical_def)
qed

section \<open>Provisioning\<close>

text \<open>A pool whose environment can be reported by a summary.\<close>

definition servable :: "PoolConfig \<Rightarrow> bool" where
  "servable pool \<longleftrightarrow> PoolConfig_Validate pool = Inr () \<and> plainPool pool \<and> validID (pc_EnvironmentID pool)"

lemma logicalSummary_sel:
  assumes "pr_Requirement q = PoolConfig_Requirement pool" "pr_EnvironmentGeneration q \<noteq> 0"
  shows "es_EnvironmentID (logicalSummary t q) = pc_EnvironmentID pool" "es_Version (logicalSummary t q) = pc_EnvironmentVersion pool"
    "es_Generation (logicalSummary t q) = pr_EnvironmentGeneration q" "es_Capabilities (logicalSummary t q) = pc_Capabilities pool"
    "es_ManifestDigest (logicalSummary t q) = pc_ManifestDigest pool" "es_Signer (logicalSummary t q) = pc_Signer pool"
    "es_Trusted (logicalSummary t q)" "es_AgentVersion (logicalSummary t q) = ''logical''"
    "es_SessionState (logicalSummary t q) = ''ready''" "es_DesktopReady (logicalSummary t q)"
    "es_AgentHandle (logicalSummary t q) = ''logical''" "es_UpdatedAt (logicalSummary t q) = t"
  using assms by (simp_all add: logicalSummary_def PoolConfig_Requirement_def)

lemma logicalSummary_valid:
  assumes "servable pool" "pr_Requirement q = PoolConfig_Requirement pool" "pr_EnvironmentGeneration q \<noteq> 0" "0 < t"
  shows "Summary_Validate (logicalSummary t q) = Inr ()"
proof -
  obtain caps where "normalizeCapabilities (pc_Capabilities pool) = Inr caps"
    using assms(1) PoolConfig_Validate_facts(5) by (auto simp: servable_def isOk_iff)
  moreover have "\<not> ContainsAny (pc_EnvironmentVersion pool @ pc_ManifestDigest pool @ pc_Signer pool @ ''logical'' @ ''ready'') crlftab"
    using assms(1) by (simp add: servable_def plainPool_def ContainsAny_def)
  moreover have "\<not> ContainsAny ''logical'' (crlftab @ [CHR 0x20, CHR 0x5C, CHR 0x2F])" by (simp add: ContainsAny_def)
  ultimately show ?thesis
    using assms by (simp add: Summary_Validate_def logicalSummary_sel [OF assms(2,3)] servable_def plainPool_def)
qed

lemma logicalSummary_matches:
  assumes "servable pool" "pr_Requirement q = PoolConfig_Requirement pool" "pr_EnvironmentGeneration q \<noteq> 0" "0 < t"
  shows "matches (logicalSummary t q) pool (pr_EnvironmentGeneration q)"
  using logicalSummary_valid [OF assms] assms(3)
  by (simp add: matches_def logicalSummary_sel [OF assms(2,3)] list_all_iff)

lemma Summary_Validate_time: "Summary_Validate s = Inr () \<Longrightarrow> 0 < now \<Longrightarrow> Summary_Validate (s\<lparr>es_UpdatedAt := now\<rparr>) = Inr ()"
  by (auto simp: Summary_Validate_def split: if_splits)

text \<open>Provisioning a slot that is in provisioning, at the generation of the request.\<close>

lemma provisionSlot_ready:
  assumes st: "steadyLogical t r" and sv: "servable pool"
    and q: "pr_Requirement q = PoolConfig_Requirement pool" "pr_EnvironmentGeneration q \<noteq> 0"
    and s: "kget (sd_slots d) k = Some (Json s)" "sl_Status s = Provisioning" "sl_SessionDesiredState s \<noteq> ''stopped''"
      "sl_EnvironmentGeneration s = pr_EnvironmentGeneration q" "sl_PoolID s = pc_PoolID pool" "sl_SlotID s = k"
    and p: "kget (sd_pools d) (pc_PoolID pool) = Some (Json p)" "PoolConfig_Normalized p = pool" "validatePoolEnvironmentTx d p = Inr ()"
  obtains d' w' s' where "provisionSlot r pool q k e (d, w) = (e, d', w')" "kget (sd_slots d') k = Some (Json s')" "sl_Status s' = Ready"
    "sl_EnvironmentGeneration s' = pr_EnvironmentGeneration q" "sl_Trusted s'"
proof -
  obtain t1 w1 where c1: "rc_clock r w = (t1, w1)" "0 < t1" by (rule steady_clock [OF st])
  obtain t2 w2 where c2: "rc_clock r w1 = (t2, w2)" "0 < t2" by (rule steady_clock [OF st])
  obtain t3 w3 where c3: "rc_clock r w2 = (t3, w3)" "0 < t3" by (rule steady_clock [OF st])
  note sel = logicalSummary_sel [OF q]
  let ?r = "(logicalSummary t2 q)\<lparr>es_UpdatedAt := t3\<rparr>"
  have prov: "rc_provisioner r = logicalSlotProvisioner (rc_clock r) (\<lambda>_. None)" using st by (simp add: steadyLogical_def)
  have m: "matches (logicalSummary t1 q) pool (pr_EnvironmentGeneration q)" "matches (logicalSummary t2 q) pool (pr_EnvironmentGeneration q)"
    by (rule logicalSummary_matches [OF sv q]; fact)+
  have fields: "pc_EnvironmentID p = pc_EnvironmentID pool" "pc_EnvironmentVersion p = pc_EnvironmentVersion pool"
    "pc_ManifestDigest p = pc_ManifestDigest pool" "pc_Signer p = pc_Signer pool" "pc_Capabilities p = pc_Capabilities pool"
    using p(2) by (auto simp: PoolConfig_Normalized_def split: if_splits)
  have "summaryServesPool ?r p"
    by (simp add: summaryServesPool_def sel fields containsCapabilities_def list_all_iff)
  then have tx: "markReadyTx k ?r t3 d = Inr ((), putSlot (readySlot ?r p t3 s) (putSummary ?r d))"
    using s p by (simp add: markReadyTx_def getJSON_def inUse_def sel)
  have "Summary_Validate ?r = Inr ()" by (rule Summary_Validate_time [OF logicalSummary_valid [OF sv q c2(2)] c3(2)])
  then have "MarkSlotReady (rc_commit r w3) k ?r t3 d = (Inr (), putSlot (readySlot ?r p t3 s) (putSummary ?r d))"
    using tx c3(2) st by (simp add: MarkSlotReady_def update_def steadyLogical_def)
  then have run: "provisionSlot r pool q k e (d, w) = (e, putSlot (readySlot ?r p t3 s) (putSummary ?r d), w3)"
    using m by (simp add: provisionSlot_def prov logicalSlotProvisioner_def logicalProvision_def logicalInspect_def
        c1(1) c2(1) c3(1) sel Let_def noteResult_def)
  show thesis
    by (rule that [OF run, of "readySlot ?r p t3 s"]) (use s(6) in \<open>simp_all add: readySlot_def sel\<close>)
qed

section \<open>One slot\<close>

lemma retargetedSlot_valid:
  assumes "servable pool" "Slot_Validate v = Inr ()" "g \<noteq> 0" "sl_CreatedAt v \<le> now" "0 < now"
  shows "Slot_Validate (retargetedSlot pool g now v) = Inr ()"
proof -
  have "isOk (normalizeCapabilities (pc_Capabilities pool))" "pc_EnvironmentID pool \<noteq> []"
    using assms(1) PoolConfig_Validate_facts by (auto simp: servable_def)
  then show ?thesis
    using assms by (auto simp: Slot_Validate_iff slotBody_def retargetedSlot_def servable_def plainPool_def validID_def ContainsAny_def)
qed

lemma validatePool_cong: "sd_packages d' = sd_packages d \<Longrightarrow> validatePoolEnvironmentTx d' p = validatePoolEnvironmentTx d p"
  by (simp only: validatePoolEnvironmentTx_def)

text \<open>What the tables must show when the turn of a slot comes.\<close>

definition awaits :: "gotime \<Rightarrow> PoolConfig \<Rightarrow> sdb \<Rightarrow> slot \<Rightarrow> bool" where
  "awaits t pool d v \<longleftrightarrow> kget (sd_slots d) (sl_SlotID v) = Some (Json v) \<and> kget (sd_slotLeases d) (sl_SlotID v) = None \<and>
     \<not> inUse v \<and> Slot_Validate v = Inr () \<and> sl_CreatedAt v \<le> t \<and> sl_PoolID v = pc_PoolID pool \<and>
     (\<exists>p. kget (sd_pools d) (pc_PoolID pool) = Some (Json p) \<and> PoolConfig_Normalized p = pool \<and> validatePoolEnvironmentTx d p = Inr ())"

lemma surplusSlot_deletes:
  assumes st: "steadyLogical t r" and a: "awaits t pool d v" and v: "sl_Status v \<noteq> Deleted"
  obtains d' w' s' where "surplusSlot r q v False e (d, w) = (e, d', w')" "kget (sd_slots d') (sl_SlotID v) = Some (Json s')" "sl_Status s' = Deleted"
proof -
  let ?k = "sl_SlotID v"
  have stored: "kget (sd_slots d) ?k = Some (Json v)" "kget (sd_slotLeases d) ?k = None" using a by (simp_all add: awaits_def)
  obtain s1 d1 w1 where one: "(if sl_Status v \<noteq> Retiring then setStatus r ?k Retiring (d, w) else (Inr (), d, w)) = (Inr (), d1, w1)"
    and s1: "kget (sd_slots d1) ?k = Some (Json s1)" "sl_Status s1 \<noteq> Deleted" "kget (sd_slotLeases d1) ?k = None" "sl_SlotID s1 = ?k"
  proof (cases "sl_Status v = Retiring")
    case True
    then show thesis using that [of d w v] stored v by simp
  next
    case False
    show thesis
    proof (rule steady_setStatus [OF st stored(1) v, of Retiring w])
      fix now w'
      assume "setStatus r ?k Retiring (d, w) = (Inr (), putSlot (v\<lparr>sl_Status := Retiring, sl_UpdatedAt := now\<rparr>) d, w')"
      then show thesis using that [of "putSlot (v\<lparr>sl_Status := Retiring, sl_UpdatedAt := now\<rparr>) d" w'] False stored by simp
    qed (use stored in simp_all)
  qed
  have ret: "pv_Retire (rc_provisioner r) q (d1, w1) = (None, d1, w1)"
    using st by (simp add: steadyLogical_def logicalSlotProvisioner_def logicalRetire_def)
  show thesis
  proof (rule steady_setStatus [OF st s1(1,2), of Deleted w1])
    fix now w'
    assume u: "setStatus r ?k Deleted (d1, w1) = (Inr (), putSlot (s1\<lparr>sl_Status := Deleted, sl_UpdatedAt := now\<rparr>) d1, w')"
    show thesis
      by (rule that [of "putSlot (s1\<lparr>sl_Status := Deleted, sl_UpdatedAt := now\<rparr>) d1" w' "s1\<lparr>sl_Status := Deleted, sl_UpdatedAt := now\<rparr>"])
        (use one ret u s1(4) in \<open>simp_all add: surplusSlot_def noteResult_def\<close>)
  qed (use s1(3) in simp_all)
qed

lemma idleSlot_ready:
  assumes st: "steadyLogical t r" and sv: "servable pool" and a: "awaits t pool d v" and v: "wanted pool v"
    and g: "nextGeneration pool (\<not> matchesSlotTarget v pool) v = Some g"
    and q: "pr_Requirement q = PoolConfig_Requirement pool" "pr_EnvironmentGeneration q = g"
  obtains d' w' s' where "idleSlot r pool q (\<not> matchesSlotTarget v pool) v e (d, w) = (e, d', w')"
    "kget (sd_slots d') (sl_SlotID v) = Some (Json s')" "sl_Status s' = Ready"
proof -
  let ?k = "sl_SlotID v" and ?ch = "\<not> matchesSlotTarget v pool"
  have stored: "kget (sd_slots d) ?k = Some (Json v)" "kget (sd_slotLeases d) ?k = None" using a by (simp_all add: awaits_def)
  have idle: "\<not> (sl_Status v = Leased \<or> sl_Status v = Draining)" using a by (simp add: awaits_def inUse_def)
  have live: "sl_Status v \<noteq> Deleted" "sl_SessionDesiredState v \<noteq> ''stopped''" using v by (simp_all add: wanted_def)
  obtain ok w1 where one: "(if sl_Status v = Ready then let (inspection, s1) = pv_Inspect (rc_provisioner r) q (d, w)
       in (case inspection of Inl _ \<Rightarrow> False | Inr summary \<Rightarrow> \<not> ?ch \<and> matches summary pool (sl_EnvironmentGeneration v), s1)
     else (False, d, w)) = (ok, d, w1)" and ready: "ok \<Longrightarrow> sl_Status v = Ready"
  proof (cases "sl_Status v = Ready")
    case True
    obtain now w' where "rc_clock r w = (now, w')" by (meson surj_pair)
    then have "pv_Inspect (rc_provisioner r) q (d, w) = (Inr (logicalSummary now q), d, w')"
      using st by (simp add: steadyLogical_def logicalSlotProvisioner_def logicalInspect_def)
    then show thesis using that [of "\<not> ?ch \<and> matches (logicalSummary now q) pool (sl_EnvironmentGeneration v)" w'] True by simp
  qed (use that in simp)
  show thesis
  proof (cases ok)
    case True
    then show thesis using that [of d w1 v] ready stored idle one by (simp add: idleSlot_def)
  next
    case unhealthy: False
    obtain s2 d2 w2 where two: "(if sl_Status v \<noteq> Provisioning then setStatus r ?k Provisioning (d, w1) else (Inr (), d, w1)) = (Inr (), d2, w2)"
      and s2: "kget (sd_slots d2) ?k = Some (Json s2)" "s2 = v\<lparr>sl_Status := Provisioning, sl_UpdatedAt := sl_UpdatedAt s2\<rparr>"
        "sd_pools d2 = sd_pools d" "sd_packages d2 = sd_packages d"
    proof (cases "sl_Status v = Provisioning")
      case True
      moreover have "v = v\<lparr>sl_Status := sl_Status v, sl_UpdatedAt := sl_UpdatedAt v\<rparr>" by simp
      ultimately show thesis using that [of d w1 v] stored by simp
    next
      case False
      show thesis
      proof (rule steady_setStatus [OF st stored(1) live(1), of Provisioning w1])
        fix now w'
        assume u: "setStatus r ?k Provisioning (d, w1) = (Inr (), putSlot (v\<lparr>sl_Status := Provisioning, sl_UpdatedAt := now\<rparr>) d, w')"
        show thesis
          by (rule that [of "putSlot (v\<lparr>sl_Status := Provisioning, sl_UpdatedAt := now\<rparr>) d" w' "v\<lparr>sl_Status := Provisioning, sl_UpdatedAt := now\<rparr>"])
            (use False u in simp_all)
      qed (use stored in simp_all)
    qed
    have sel2: "sl_Status s2 = Provisioning" "sl_SessionDesiredState s2 = sl_SessionDesiredState v" "sl_PoolID s2 = sl_PoolID v"
      "sl_SlotID s2 = ?k" "sl_EnvironmentGeneration s2 = sl_EnvironmentGeneration v"
      by (subst s2(2); simp)+
    obtain s3 d3 w3 where three: "(if ?ch \<or> sl_EnvironmentGeneration v = 0 then let (now, w) = rc_clock r (snd (d2, w2));
           (res', d) = UpsertSlot (rc_commit r w) (retargetedSlot pool (pr_EnvironmentGeneration q) now v) (fst (d2, w2)) in (res', d, w)
         else (Inr (), d2, w2)) = (Inr (), d3, w3)"
      and s3: "kget (sd_slots d3) ?k = Some (Json s3)" "sl_Status s3 = Provisioning" "sl_SessionDesiredState s3 \<noteq> ''stopped''"
        "sl_EnvironmentGeneration s3 = g" "sl_PoolID s3 = pc_PoolID pool" "sl_SlotID s3 = ?k"
        "sd_pools d3 = sd_pools d" "sd_packages d3 = sd_packages d"
    proof (cases "?ch \<or> sl_EnvironmentGeneration v = 0")
      case True
      obtain now w' where c: "rc_clock r w2 = (now, w')" "0 < now" "t \<le> now" by (rule steady_clock [OF st])
      have "Slot_Validate (retargetedSlot pool g now v) = Inr ()"
        using retargetedSlot_valid [OF sv _ nextGeneration_pos [OF g]] a c by (auto simp: awaits_def)
      then have up: "UpsertSlot (rc_commit r w') (retargetedSlot pool g now v) d2 = (Inr (), putSlot (retargetedSlot pool g now v) d2)"
        using st by (simp add: UpsertSlot_def update_def steadyLogical_def)
      show thesis
        by (rule that [of "putSlot (retargetedSlot pool g now v) d2" w' "retargetedSlot pool g now v"])
          (use True c up live(2) a s2(3,4) q(2) in \<open>simp_all add: retargetedSlot_def awaits_def\<close>)
    next
      case False
      then have "g = sl_EnvironmentGeneration v" using g by (simp add: nextGeneration_def)
      then show thesis using that [of d2 w2 s2] False s2 sel2 live(2) a by (simp add: awaits_def)
    qed
    obtain p where p: "kget (sd_pools d) (pc_PoolID pool) = Some (Json p)" "PoolConfig_Normalized p = pool" "validatePoolEnvironmentTx d p = Inr ()"
      using a by (auto simp: awaits_def)
    have p3: "validatePoolEnvironmentTx d3 p = Inr ()" using p(3) validatePool_cong [OF s3(8)] by simp
    show thesis
    proof (rule provisionSlot_ready [OF st sv q(1) _ s3(1,2,3) _ s3(5,6) _ p(2) p3, where w = w3 and e = e])
      fix d' w' s'
      assume "provisionSlot r pool q ?k e (d3, w3) = (e, d', w')" "kget (sd_slots d') ?k = Some (Json s')" "sl_Status s' = Ready"
      then show thesis using that [of d' w' s'] idle one unhealthy two three q(2) by (simp add: idleSlot_def)
    qed (use q(2) nextGeneration_pos [OF g] s3(4,7) p(1) in simp_all)
  qed
qed

text \<open>The slot as the pass leaves it: surplus slots are deleted, wanted ones are ready.\<close>

definition settledSlot :: "PoolConfig \<Rightarrow> slot \<Rightarrow> sdb \<Rightarrow> bool" where
  "settledSlot pool v d \<longleftrightarrow> (\<exists>s. kget (sd_slots d) (sl_SlotID v) = Some (Json s) \<and>
     (surplus pool v \<longrightarrow> sl_Status s = Deleted) \<and> (wanted pool v \<longrightarrow> sl_Status s = Ready))"

lemma reconcileSlot_settles:
  assumes st: "steadyLogical t r" and sv: "servable pool" and a: "awaits t pool d v"
    and g: "wanted pool v \<Longrightarrow> nextGeneration pool (\<not> matchesSlotTarget v pool) v \<noteq> None"
    and res: "reconcileSlot r pool pg v e (d, w) = (e', d', w')" and turn: "surplus pool v \<or> wanted pool v"
  shows "settledSlot pool v d'"
proof -
  let ?ch = "\<not> matchesSlotTarget v pool"
  have lease: "GetSlotLease (sl_SlotID v) d = Inr None" using a by (simp add: GetSlotLease_def view_def awaits_def)
  have alive: "sl_Status v \<noteq> Deleted" using turn by (auto simp: surplus_def wanted_def)
  have ex: "\<not> (surplus pool v \<and> wanted pool v)" by (auto simp: surplus_def wanted_def)
  have "nextGeneration pool ?ch v \<noteq> None"
    using turn
  proof
    assume "surplus pool v"
    then show ?thesis by (simp add: nextGeneration_def surplus_def)
  qed (rule g)
  then obtain n where n: "nextGeneration pool ?ch v = Some n" by auto
  let ?q = "\<lparr>pr_SlotID = sl_SlotID v, pr_PoolID = sl_PoolID v, pr_Ordinal = sl_Ordinal v, pr_Owner = rc_owner r,
    pr_EnvironmentGeneration = n, pr_PackageGeneration = pg, pr_Requirement = PoolConfig_Requirement pool\<rparr>"
  from turn show ?thesis
  proof
    assume sp: "surplus pool v"
    then have "surplusSlot r ?q v False e (d, w) = (e', d', w')"
      using res lease alive n by (simp add: reconcileSlot_def surplus_def)
    then show ?thesis
      using surplusSlot_deletes [OF st a alive, of ?q e w] sp ex by (metis prod.inject settledSlot_def)
  next
    assume wt: "wanted pool v"
    then have "idleSlot r pool ?q ?ch v e (d, w) = (e', d', w')"
      using res lease alive n by (auto simp: reconcileSlot_def wanted_def)
    moreover obtain d1 w1 s1 where "idleSlot r pool ?q ?ch v e (d, w) = (e, d1, w1)"
      "kget (sd_slots d1) (sl_SlotID v) = Some (Json s1)" "sl_Status s1 = Ready"
      by (rule idleSlot_ready [OF st sv a wt n, of ?q]) simp_all
    ultimately show ?thesis using wt ex by (auto simp: settledSlot_def)
  qed
qed

section \<open>All slots\<close>

lemma reach_tables:
  assumes "quietInterfaces r" "reach r pool slots s s'"
  shows "sd_pools (fst s') = sd_pools (fst s) \<and> sd_packages (fst s') = sd_packages (fst s)"
  using assms(2)
proof (induction rule: rtranclp_induct)
  case (step t u)
  from step.hyps(2) have "sd_pools (fst u) = sd_pools (fst t) \<and> sd_packages (fst u) = sd_packages (fst t)"
  proof cases
    case call
    then have "fst u = fst t" using assms(1) unfolding quietInterfaces_def by blast
    then show ?thesis by simp
  next
    case (status v x w now w' d res d')
    then show ?thesis by (auto elim: SetSlotStatus_cases)
  next
    case (retarget v g d w now w' res d')
    then show ?thesis by (auto simp: UpsertSlot_def update_def split: sum.splits option.splits)
  next
    case (ready v g summary handle w now w' d res d')
    from ready(9) show ?thesis by (cases rule: MarkSlotReady_cases) (use ready(1,2) in auto)
  next
    case (quarantine v l w now w' d res d')
    from quarantine(7) show ?thesis by (cases rule: QuarantineSlotLease_cases) (use quarantine(1,2) in auto)
  qed
  with step.IH show ?case by simp
qed simp

lemma reconcileLoop_settles:
  assumes st: "steadyLogical t r" and sv: "servable pool" and "distinct (map sl_SlotID vs)"
    and "\<And>u. u \<in> set vs \<Longrightarrow> kget (sd_slots d) (sl_SlotID u) = Some (Json u)"
    and "\<And>u. u \<in> set vs \<Longrightarrow> kget (sd_slotLeases d) (sl_SlotID u) \<noteq> None \<Longrightarrow> inUse u"
    and "reconcileLoop r (\<lambda>_. None) pool pg vs e (d, w) = (e', d', w')"
  shows "\<forall>v \<in> set vs. awaits t pool d v \<longrightarrow> surplus pool v \<or> wanted pool v \<longrightarrow>
    (wanted pool v \<longrightarrow> nextGeneration pool (\<not> matchesSlotTarget v pool) v \<noteq> None) \<longrightarrow> settledSlot pool v d'"
  using assms(3-)
proof (induction vs arbitrary: d e w)
  case (Cons u vs)
  note quiet = steady_quiet [OF st]
  obtain e1 d1 w1 where one: "reconcileSlot r pool pg u e (d, w) = (e1, d1, w1)" by (metis prod.exhaust)
  have rest: "reconcileLoop r (\<lambda>_. None) pool pg vs e1 (d1, w1) = (e', d', w')" using Cons.prems(4) one by simp
  have "reach r pool [u] (d, w) (d1, w1)" by (rule reconcileSlot_reach [OF _ one]) simp
  then have f1: "fates r pool [u] d d1" and t1: "sd_pools d1 = sd_pools d" "sd_packages d1 = sd_packages d"
    using reach_fates [OF quiet, of pool "[u]" "(d, w)" "(d1, w1)"] Cons.prems(2,3) reach_tables [OF quiet] by auto
  have frame: "kget (sd_slots d1) k = kget (sd_slots d) k" "kget (sd_slotLeases d1) k = kget (sd_slotLeases d) k" if "k \<noteq> sl_SlotID u" for k
    using f1 that by (auto simp: fates_def)
  have ne: "sl_SlotID v \<noteq> sl_SlotID u" if "v \<in> set vs" for v using Cons.prems(1) that by (metis distinct.simps(2) image_eqI list.set_map list.simps(9))
  have IH: "\<forall>v \<in> set vs. awaits t pool d1 v \<longrightarrow> surplus pool v \<or> wanted pool v \<longrightarrow>
      (wanted pool v \<longrightarrow> nextGeneration pool (\<not> matchesSlotTarget v pool) v \<noteq> None) \<longrightarrow> settledSlot pool v d'"
    by (rule Cons.IH [OF _ _ _ rest]) (use Cons.prems(1,2,3) frame ne in auto)
  have "reach r pool vs (d1, w1) (d', w')" by (rule reconcileLoop_reach [OF subset_refl rest])
  then have f2: "fates r pool vs d1 d'"
    using reach_fates [OF quiet, of pool vs "(d1, w1)" "(d', w')"] Cons.prems(2,3) frame ne by auto
  have "sl_SlotID u \<notin> sl_SlotID ` set vs" using ne by fastforce
  then have last: "kget (sd_slots d') (sl_SlotID u) = kget (sd_slots d1) (sl_SlotID u)" using f2 by (simp add: fates_def)
  show ?case
  proof (intro ballI impI)
    fix v
    assume v: "v \<in> set (u # vs)" "awaits t pool d v" "surplus pool v \<or> wanted pool v"
      "wanted pool v \<longrightarrow> nextGeneration pool (\<not> matchesSlotTarget v pool) v \<noteq> None"
    show "settledSlot pool v d'"
    proof (cases "v = u")
      case True
      then have "settledSlot pool u d1" using reconcileSlot_settles [OF st sv _ _ one] v by blast
      then show ?thesis using True last by (simp add: settledSlot_def)
    next
      case False
      then have m: "v \<in> set vs" using v(1) by simp
      have "awaits t pool d1 v" using v(2) frame [OF ne [OF m]] t1 validatePool_cong [OF t1(2)] by (simp add: awaits_def)
      then show ?thesis using IH m v(3,4) by blast
    qed
  qed
qed simp

end
