(* ===== verification/LifecycleProps.thy ===== *)
theory LifecycleProps
  imports LifecycleLogical SlotDemo
begin

text \<open>
  The properties of the slot lifecycle reconciler, with the logical provisioner of the service as
  the concrete one.
\<close>

section \<open>The logical reconciler\<close>

text \<open>A reconciler of the demonstration pool, in a world that is its own clock.\<close>

definition demoClock :: "gotime \<Rightarrow> gotime \<times> gotime" where
  "demoClock w = (let t = max 11 (w + 1) in (t, t))"

definition demoReconciler :: "gotime Reconciler" where
  "demoReconciler =
     \<lparr>rc_commit = (\<lambda>_. okS), rc_provisioner = logicalSlotProvisioner demoClock (\<lambda>_. None), rc_pool = demoPool,
      rc_clock = demoClock, rc_provisionTimeout = second, rc_cleanupTimeout = second, rc_revoker = None,
      rc_authority = None, rc_poolSource = Some GetJobPool, rc_owner = ''service''\<rparr>"

lemma demo_quiet: "quietInterfaces demoReconciler"
  by (rule logical_quiet [of _ demoClock "\<lambda>_. None"]) (simp_all add: demoReconciler_def)

lemma demo_fair: "fairInterfaces id demoReconciler"
  unfolding fairInterfaces_def
proof (intro conjI allI impI)
  fix s s'
  assume c: "callStep demoReconciler s s'"
  then have "fst s' = fst s" using demo_quiet unfolding quietInterfaces_def by blast
  moreover have "snd s \<le> snd s'"
    using c by cases (auto simp: demoReconciler_def logicalSlotProvisioner_def logicalProvision_def logicalInspect_def
      logicalRetire_def demoClock_def Let_def)
  ultimately show "interleaved id s s'"
    unfolding interleaved_def by (auto intro!: exI storeSteps.wait)
qed (simp_all add: demoReconciler_def demoClock_def Let_def)

lemma demo_inv: "world_inv 10 demoS2" "slot_inv 10 demoS2"
  using slotRun_inv [OF demo_run_slots(2)] world_inv_mono [of 6 demoS2 10] by (auto simp: demoStore_def world_inv_def)

lemma demo_pass: "passPool demoReconciler demoS2 = Inr demoPool" "ListSlots (pc_PoolID demoPool) demoS2 = Inr [demoSlot]"
proof -
  have "Slot_Validate demoSlot = Inr ()"
    using slotOkD(3) [OF slot_inv_slot, of 10 demoS2 "''pool-1-001''" demoSlot] demo_inv(2) by (simp add: demoS_sel)
  then show "ListSlots (pc_PoolID demoPool) demoS2 = Inr [demoSlot]"
    by (simp add: ListSlots_def view_def slotsForPoolTx_def demoS_sel slotEntry_def demo_ids_slot SortSlots_def go_simps)
  show "passPool demoReconciler demoS2 = Inr demoPool"
    by (simp add: passPool_def demoReconciler_def GetJobPool_def view_def getJSON_def demoS_sel demo_ids_slot)
      (simp add: PoolConfig_Normalized_def demoPool_def)
qed



section \<open>Interference\<close>

text \<open>
  A pass of the lifecycle reconciler keeps the tables of the store consistent, and removes no
  slot, whatever steps of the store the other goroutines make while it waits for the provisioner or
  the revoker, whatever these answer, and whatever the engine does with its transactions.
\<close>

theorem Reconcile_keeps_tables:
  assumes "fairInterfaces tm r" "world_inv (tm w) d" "0 < tm w" "Reconcile r ctxErr (d, w) = (e, d', w')"
  shows "world_inv (tm w') d' \<and> tm w \<le> tm w' \<and>
    (\<forall>k s. GetSlot k d = Inr s \<longrightarrow> (\<exists>s'. GetSlot k d' = Inr s'))"
proof -
  have stay: "\<exists>s'. GetSlot k f = Inr s'" if "slotsStay d f" "world_inv t f" "GetSlot k d = Inr s" for t f k s
  proof -
    have "kget (sd_slots f) k \<noteq> None" using that(1,3) by (simp add: slotsStay_def GetSlot_iff)
    then show ?thesis using that(2) slot_invD(2) [of t f k] by (auto simp: world_inv_def GetSlot_iff)
  qed
  show ?thesis
  proof (cases "\<exists>pool slots. passPool r d = Inr pool \<and> ListSlots (pc_PoolID pool) d = Inr slots")
    case True
    then obtain pool slots where p: "passPool r d = Inr pool" "ListSlots (pc_PoolID pool) d = Inr slots" by blast
    have "reach r pool slots (d, w) (d', w')" using Reconcile_reach [OF assms(4)] p by simp
    moreover have "listed (tm w) slots d" using slots_listed [OF _ p(2)] assms(2) by (simp add: world_inv_def)
    ultimately have "world_inv (tm w') d' \<and> slotsStay d d' \<and> tm w \<le> tm w'"
      using reach_keeps [OF assms(1), of pool slots "(d, w)" "(d', w')"] assms(2,3) by simp
    then show ?thesis using stay by blast
  next
    case False
    then have "(d', w') = (d, w)" using Reconcile_idle(1) [OF assms(4)] by auto
    then show ?thesis using assms(2) by auto
  qed
qed

theorem Reconcile_keeps_tables_witness:
  "\<exists>e d' w'. Reconcile demoReconciler (\<lambda>_. None) (demoS2, 10) = (e, d', w') \<and> world_inv w' d' \<and> 10 \<le> w' \<and>
     (\<exists>s. GetSlot ''pool-1-001'' d' = Inr s)"
proof -
  obtain e d' w' where res: "Reconcile demoReconciler (\<lambda>_. None) (demoS2, 10) = (e, d', w')" by (metis prod.exhaust)
  have "GetSlot ''pool-1-001'' demoS2 = Inr demoSlot" by (simp add: GetSlot_iff demoS_sel)
  then show ?thesis
    using Reconcile_keeps_tables [OF demo_fair _ _ res] demo_inv(1) res by auto
qed

section \<open>What a pass may do\<close>

text \<open>What a fate says in terms of what the store reads.\<close>

lemma fate_facts:
  assumes f: "fate r pool v raw0 s raw"
  shows "sl_Status v = Deleted \<or> sl_Ordinal v \<le> pc_DesiredSlots pool \<and> sl_Status v = Quarantined \<Longrightarrow> s = v"
    and "sl_Ordinal v \<le> pc_DesiredSlots pool \<Longrightarrow> sl_SessionDesiredState v = ''stopped'' \<Longrightarrow> raw0 = None \<Longrightarrow> s = v"
    and "sl_Status s = Deleted \<Longrightarrow> s = v \<or> pc_DesiredSlots pool < sl_Ordinal v \<and> raw0 = None"
    and "raw0 = Some (Json l) \<Longrightarrow> raw = raw0 \<and> sl_EnvironmentGeneration s = sl_EnvironmentGeneration v \<or>
      raw = None \<and> failedLease r (sl_SlotID v) l"
    and "raw0 = None \<Longrightarrow> raw = None"
    and "sl_Status v = Quarantined \<Longrightarrow> s = v \<or> pc_DesiredSlots pool < sl_Ordinal v \<and>
      sl_Status s \<in> {Draining, Retiring, Quarantined, Deleted}"
proof -
  have same: "sl_EnvironmentGeneration s = sl_EnvironmentGeneration v" "sl_Status s = x" if "sameButStatus v x s" for x
    using that unfolding sameButStatus_def by (cases v; cases s; simp)+
  show "s = v" if "sl_Status v = Deleted \<or> sl_Ordinal v \<le> pc_DesiredSlots pool \<and> sl_Status v = Quarantined"
    using f that by (auto simp: fate_def wanted_def mayset_def surplus_def)
  show "s = v" if "sl_Ordinal v \<le> pc_DesiredSlots pool" "sl_SessionDesiredState v = ''stopped''" "raw0 = None"
    using f that by (auto simp: fate_def wanted_def mayset_def surplus_def)
  show "s = v \<or> pc_DesiredSlots pool < sl_Ordinal v \<and> raw0 = None" if "sl_Status s = Deleted"
  proof -
    have "\<not> wanted pool v" using f that by (simp add: fate_def)
    then have "s = v \<or> (\<exists>x. mayset pool v x \<and> (x = Draining \<longleftrightarrow> raw0 \<noteq> None) \<and> sameButStatus v x s)"
      using f by (simp add: fate_def)
    then have "s = v \<or> mayset pool v Deleted \<and> raw0 = None" using same(2) that by fastforce
    then show ?thesis by (auto simp: mayset_def surplus_def)
  qed
  show "raw = raw0 \<and> sl_EnvironmentGeneration s = sl_EnvironmentGeneration v \<or> raw = None \<and> failedLease r (sl_SlotID v) l"
    if "raw0 = Some (Json l)"
    using f that same(1) by (auto simp: fate_def split: if_splits)
  show "raw = None" if "raw0 = None" using f that by (auto simp: fate_def split: if_splits)
  show "s = v \<or> pc_DesiredSlots pool < sl_Ordinal v \<and> sl_Status s \<in> {Draining, Retiring, Quarantined, Deleted}"
    if q: "sl_Status v = Quarantined"
  proof -
    have "\<not> wanted pool v" using q by (simp add: wanted_def)
    then have "s = v \<or> (\<exists>x. mayset pool v x \<and> sameButStatus v x s)" using f by (auto simp: fate_def)
    then show ?thesis using q same(2) by (auto simp: mayset_def surplus_def wanted_def)
  qed
qed

text \<open>Reading a lease depends on its entry only.\<close>

lemma lease_read:
  "slot_inv t d \<Longrightarrow> GetSlotLease k d = Inr None \<longleftrightarrow> kget (sd_slotLeases d) k = None"
  "kget (sd_slotLeases d) k = None \<Longrightarrow> GetSlotLease k d = Inr None"
  "kget (sd_slotLeases d') k = kget (sd_slotLeases d) k \<Longrightarrow> GetSlotLease k d' = GetSlotLease k d"
  by (auto simp: GetSlotLease_def view_def split: option.splits)

text \<open>
  C9. What a pass does to a slot of its pool when no other goroutine writes to the store meanwhile.
  Deleted slots and wanted slots in quarantine are not touched, and a quarantined slot is never put to
  work: the pass may only retire and delete it when it is surplus. A stopped slot without a lease is not
  restarted; a slot is deleted only when it is surplus and unleased; it becomes ready only as the
  inspection at its next generation reported it, with the pool's environment, and trusted; a lease ends
  only after its own health check has failed for good, and otherwise stays, with the slot's generation;
  no lease is created; the session intent of the user is kept; and other slots are not touched.
\<close>

theorem Reconcile_respects_intent:
  assumes "quietInterfaces r" "slot_inv t d" "Reconcile r ctxErr (d, w) = (e, d', w')"
    and "passPool r d = Inr pool" "ListSlots (pc_PoolID pool) d = Inr slots"
  shows "(\<forall>k. k \<notin> sl_SlotID ` set slots \<longrightarrow> GetSlot k d' = GetSlot k d \<and> GetSlotLease k d' = GetSlotLease k d) \<and>
    (\<forall>v \<in> set slots. \<exists>s. GetSlot (sl_SlotID v) d' = Inr s \<and>
      (sl_Status v = Deleted \<or> sl_Ordinal v \<le> pc_DesiredSlots pool \<and> sl_Status v = Quarantined \<longrightarrow> s = v) \<and>
      (sl_Status v = Quarantined \<longrightarrow> s = v \<or> pc_DesiredSlots pool < sl_Ordinal v \<and>
         sl_Status s \<in> {Draining, Retiring, Quarantined, Deleted}) \<and>
      (sl_Ordinal v \<le> pc_DesiredSlots pool \<and> sl_SessionDesiredState v = ''stopped'' \<and> GetSlotLease (sl_SlotID v) d = Inr None
         \<longrightarrow> s = v) \<and>
      (sl_Status s = Deleted \<longrightarrow> s = v \<or> pc_DesiredSlots pool < sl_Ordinal v \<and> GetSlotLease (sl_SlotID v) d = Inr None) \<and>
      (sl_Status s = Ready \<longrightarrow> s = v \<or> becameReady r pool v s) \<and>
      (\<forall>l. GetSlotLease (sl_SlotID v) d = Inr (Some l) \<longrightarrow>
         GetSlotLease (sl_SlotID v) d' = Inr (Some l) \<and> sl_EnvironmentGeneration s = sl_EnvironmentGeneration v \<or>
         GetSlotLease (sl_SlotID v) d' = Inr None \<and> failedLease r (sl_SlotID v) l) \<and>
      (GetSlotLease (sl_SlotID v) d = Inr None \<longrightarrow> GetSlotLease (sl_SlotID v) d' = Inr None) \<and>
      sl_SessionDesiredState s = sl_SessionDesiredState v \<and> sl_SessionRevision s = sl_SessionRevision v)"
proof (intro conjI allI impI ballI)
  have f: "fates r pool slots d d'"
    using reach_fates [OF assms(1) Reconcile_reach [OF assms(3)]] assms(4,5) listed_stored [OF assms(2,5)] by simp
  {
    fix k
    assume "k \<notin> sl_SlotID ` set slots"
    then show "GetSlot k d' = GetSlot k d" "GetSlotLease k d' = GetSlotLease k d"
      using f by (simp_all add: fates_def GetSlot_def GetSlotLease_def view_def getJSON_def)
  }
  fix v
  assume v: "v \<in> set slots"
  let ?k = "sl_SlotID v"
  obtain s where s: "GetSlot ?k d' = Inr s" and h: "fate r pool v (kget (sd_slotLeases d) ?k) s (kget (sd_slotLeases d') ?k)"
    using f v unfolding fates_def GetSlot_iff by blast
  note facts = fate_facts [OF h]
  have leased: "GetSlotLease ?k d' = Inr (Some l) \<and> sl_EnvironmentGeneration s = sl_EnvironmentGeneration v \<or>
      GetSlotLease ?k d' = Inr None \<and> failedLease r ?k l" if "GetSlotLease ?k d = Inr (Some l)" for l
    using facts(4) [of l] that lease_read(2,3) GetSlotLease_iff [OF assms(2)] by metis
  have free: "kget (sd_slotLeases d) ?k = None \<longleftrightarrow> GetSlotLease ?k d = Inr None" using lease_read(1) [OF assms(2)] by simp
  have session: "sl_SessionDesiredState s = sl_SessionDesiredState v" "sl_SessionRevision s = sl_SessionRevision v"
    "sl_Status s = Ready \<longrightarrow> s = v \<or> becameReady r pool v s"
    using h by (simp_all add: fate_def)
  show "\<exists>s. GetSlot ?k d' = Inr s \<and>
      (sl_Status v = Deleted \<or> sl_Ordinal v \<le> pc_DesiredSlots pool \<and> sl_Status v = Quarantined \<longrightarrow> s = v) \<and>
      (sl_Status v = Quarantined \<longrightarrow> s = v \<or> pc_DesiredSlots pool < sl_Ordinal v \<and>
         sl_Status s \<in> {Draining, Retiring, Quarantined, Deleted}) \<and>
      (sl_Ordinal v \<le> pc_DesiredSlots pool \<and> sl_SessionDesiredState v = ''stopped'' \<and> GetSlotLease ?k d = Inr None \<longrightarrow> s = v) \<and>
      (sl_Status s = Deleted \<longrightarrow> s = v \<or> pc_DesiredSlots pool < sl_Ordinal v \<and> GetSlotLease ?k d = Inr None) \<and>
      (sl_Status s = Ready \<longrightarrow> s = v \<or> becameReady r pool v s) \<and>
      (\<forall>l. GetSlotLease ?k d = Inr (Some l) \<longrightarrow>
         GetSlotLease ?k d' = Inr (Some l) \<and> sl_EnvironmentGeneration s = sl_EnvironmentGeneration v \<or>
         GetSlotLease ?k d' = Inr None \<and> failedLease r ?k l) \<and>
      (GetSlotLease ?k d = Inr None \<longrightarrow> GetSlotLease ?k d' = Inr None) \<and>
      sl_SessionDesiredState s = sl_SessionDesiredState v \<and> sl_SessionRevision s = sl_SessionRevision v"
    using s facts(1,2,3,6) leased facts(5) [THEN lease_read(2)] session unfolding free by (intro exI [of _ s]) blast
qed

theorem Reconcile_respects_intent_witness:
  "\<exists>e d' w' s. Reconcile demoReconciler (\<lambda>_. None) (demoS2, 10) = (e, d', w') \<and> GetSlot ''pool-1-001'' d' = Inr s \<and>
     (sl_Status s = Ready \<longrightarrow> becameReady demoReconciler demoPool demoSlot s) \<and> GetSlotLease ''pool-1-001'' d' = Inr None"
proof -
  obtain e d' w' where res: "Reconcile demoReconciler (\<lambda>_. None) (demoS2, 10) = (e, d', w')" by (metis prod.exhaust)
  have "GetSlotLease ''pool-1-001'' demoS2 = Inr None"
    by (simp add: lease_read(1) [OF demo_inv(2)]) (simp add: demoS2_def demoS1_def emptySDB_def)
  then show ?thesis
    using Reconcile_respects_intent [OF demo_quiet demo_inv(2) res demo_pass] res demo_ids_slot by auto
qed

section \<open>Convergence\<close>

text \<open>
  What one pass of the logical lifecycle does to an unleased slot of its pool, when the engine commits,
  the pool's environment can be reported by a summary and is available, and the pass is not refused.
\<close>

lemma logical_pass_settles:
  assumes "steadyLogical t r" "slot_inv t d" "servable pool" "passPool r d = Inr pool"
    and "kget (sd_pools d) (pc_PoolID pool) = Some (Json p)" "PoolConfig_Normalized p = pool" "validatePoolEnvironmentTx d p = Inr ()"
    and "\<forall>a. rc_authority r = Some a \<longrightarrow> cleanupOnly pool \<or> isOk (trustedGeneration a pool d)"
    and "ListSlots (pc_PoolID pool) d = Inr slots" "Reconcile r (\<lambda>_. None) (d, w) = (e, d', w')"
    and "v \<in> set slots" "GetSlotLease (sl_SlotID v) d = Inr None"
  shows "(surplus pool v \<longrightarrow> (\<exists>s. GetSlot (sl_SlotID v) d' = Inr s \<and> sl_Status s = Deleted)) \<and>
    (wanted pool v \<and> nextGeneration pool (\<not> matchesSlotTarget v pool) v \<noteq> None \<longrightarrow>
      (\<exists>s. GetSlot (sl_SlotID v) d' = Inr s \<and> sl_Status s = Ready))"
proof -
  have l: "slotsForPoolTx d (pc_PoolID pool) = Inr slots" using assms(9) by (simp add: ListSlots_def view_def)
  have u: "pv_UpdatePoolRuntime (rc_provisioner r) = None" using assms(1) by (simp add: steadyLogical_def logicalSlotProvisioner_def)
  obtain pg where "(case rc_authority r of None \<Rightarrow> Inr 0
      | Some authority \<Rightarrow> if cleanupOnly pool then Inr 0 else trustedGeneration authority pool (fst (d, w))) = Inr pg"
    using assms(8) by (cases "rc_authority r"; cases "cleanupOnly pool") (auto simp: isOk_iff)
  then have "reconcileLoop r (\<lambda>_. None) pool pg slots None (d, w) = (e, d', w')"
    using Reconcile_loop [of r "(d, w)" pool slots pg] assms(4,9,10) u by simp
  note settles = reconcileLoop_settles [OF assms(1,3) slotsForPoolTx_ok(2) [OF assms(2) l] listed_stored [OF assms(2,9)] this]
  have a: "awaits t pool d v"
    using slotsForPoolTx_slot(1,2) [OF assms(2) l assms(11)] slotOkD(3,4) [OF slotsForPoolTx_slot(3) [OF assms(2) l assms(11)]]
      lease_iff_inUse [OF assms(2)] lease_read(1) [OF assms(2)] assms(5,6,7,12) by (auto simp: awaits_def)
  have "\<not> (surplus pool v \<and> wanted pool v)" by (auto simp: surplus_def wanted_def)
  then show ?thesis using settles assms(11) a by (auto simp: settledSlot_def GetSlot_iff)
qed



text \<open>
  The pass takes the wanted number of slots from \<open>DesiredSlots\<close> alone. A drained pool keeps that
  number, so the slots its drain has set to retiring are provisioned and ready again after the pass.
\<close>

lemma drained_slots_return:
  assumes "steadyLogical t r" "slot_inv t d" "servable pool" "passPool r d = Inr pool" "pc_DesiredState pool = ''draining''"
    and "kget (sd_pools d) (pc_PoolID pool) = Some (Json pool)" "validatePoolEnvironmentTx d pool = Inr ()"
    and "ListSlots (pc_PoolID pool) d = Inr slots" "Reconcile r (\<lambda>_. None) (d, w) = (e, d', w')"
    and "v \<in> set slots" "sl_Status v = Retiring" "sl_Ordinal v \<le> pc_DesiredSlots pool" "sl_SessionDesiredState v \<noteq> ''stopped''"
    and "sl_EnvironmentGeneration v \<noteq> - 1"
  shows "\<exists>s. GetSlot (sl_SlotID v) d' = Inr s \<and> sl_Status s = Ready"
proof -
  have "PoolConfig_Normalized pool = pool" using assms(5) by (simp add: PoolConfig_Normalized_def)
  moreover have "\<not> inUse v" using assms(11) by (simp add: inUse_def)
  then have "GetSlotLease (sl_SlotID v) d = Inr None"
    using listed_stored(2) [OF assms(2,8,10)] lease_read(1) [OF assms(2)] by blast
  moreover have "wanted pool v" "nextGeneration pool (\<not> matchesSlotTarget v pool) v \<noteq> None"
    using assms(11-14) by (simp_all add: wanted_def nextGeneration_def)
  moreover have "cleanupOnly pool" using assms(5) by (simp add: cleanupOnly_def)
  ultimately show ?thesis
    using logical_pass_settles [OF assms(1-4,6) _ assms(7) _ assms(8-10)] by simp
qed

text \<open>
  The same pass takes a surplus slot before it looks at its quarantine: a quarantined slot whose
  ordinal is above the wanted number is retired and deleted without the recovery or the deletion that
  docs/job-user-pool.md and docs/operations.md ask for.
\<close>

lemma quarantined_surplus_deleted:
  assumes "steadyLogical t r" "slot_inv t d" "servable pool" "passPool r d = Inr pool"
    and "kget (sd_pools d) (pc_PoolID pool) = Some (Json p)" "PoolConfig_Normalized p = pool" "validatePoolEnvironmentTx d p = Inr ()"
    and "\<forall>a. rc_authority r = Some a \<longrightarrow> cleanupOnly pool \<or> isOk (trustedGeneration a pool d)"
    and "ListSlots (pc_PoolID pool) d = Inr slots" "Reconcile r (\<lambda>_. None) (d, w) = (e, d', w')"
    and "v \<in> set slots" "GetSlotLease (sl_SlotID v) d = Inr None" "sl_Status v = Quarantined" "pc_DesiredSlots pool < sl_Ordinal v"
  shows "\<exists>s. GetSlot (sl_SlotID v) d' = Inr s \<and> sl_Status s = Deleted"
  using logical_pass_settles [OF assms(1-12)] assms(13,14) by (simp add: surplus_def)

end
