(* ===== verification/SlotSession.thy ===== *)
theory SlotSession
  imports SlotOps Sha256 GoFormat
begin

text \<open>
  The sessions of execution slots, internal/store/slot_session.go: the durable operations by which a
  user starts, stops, cancels and retries the session of a slot and by which a controller claims,
  checkpoints and completes it, and the reconciliation of the operations with the slots. The wall
  clock of \<open>time.Now\<close> is an argument.
\<close>

section \<open>Data\<close>

datatype SlotSessionOperationState =
    SlotSessionRequested | SlotSessionProvisioning | SlotSessionStopping | SlotSessionCancelling
  | SlotSessionRetrying | SlotSessionReady | SlotSessionStopped | SlotSessionFailed
  | SlotSessionCancelled | OtherSessionState string

datatype SlotSessionPhase =
    PhaseEnvironment | PhaseHost | PhaseProfile | PhaseLogin | PhaseWTS | PhaseDesktop | PhaseShell
  | PhaseAgent | PhaseWorker | PhaseStopping | PhaseStopped | OtherPhase string

fun sessionStateText :: "SlotSessionOperationState \<Rightarrow> string" where
  "sessionStateText SlotSessionRequested = ''requested''"
| "sessionStateText SlotSessionProvisioning = ''provisioning''"
| "sessionStateText SlotSessionStopping = ''stopping''"
| "sessionStateText SlotSessionCancelling = ''cancelling''"
| "sessionStateText SlotSessionRetrying = ''retrying''"
| "sessionStateText SlotSessionReady = ''ready''"
| "sessionStateText SlotSessionStopped = ''stopped''"
| "sessionStateText SlotSessionFailed = ''failed''"
| "sessionStateText SlotSessionCancelled = ''cancelled''"
| "sessionStateText (OtherSessionState s) = s"

fun slotStatusText :: "slot_status \<Rightarrow> string" where
  "slotStatusText Unprovisioned = ''unprovisioned''"
| "slotStatusText Provisioning = ''provisioning''"
| "slotStatusText Ready = ''ready''"
| "slotStatusText Leased = ''leased''"
| "slotStatusText Quarantined = ''quarantined''"
| "slotStatusText Draining = ''draining''"
| "slotStatusText Retiring = ''retiring''"
| "slotStatusText Stopped = ''stopped''"
| "slotStatusText Deleted = ''deleted''"
| "slotStatusText (OtherSlotStatus s) = s"

record SlotSessionMutation =
  ssm_PoolID :: string
  ssm_SlotID :: string
  ssm_ExpectedRevision :: uint64
  ssm_IdempotencyKey :: string
  ssm_Actor :: string
  ssm_RequestedAt :: gotime
  ssm_Attempt :: int
  ssm_Deadline :: gotime
  ssm_RetryBudget :: int

record SlotSessionOperation =
  sso_OperationID :: string
  sso_PoolID :: string
  sso_SlotID :: string
  sso_Ordinal :: int
  sso_State :: SlotSessionOperationState
  sso_Actor :: string
  sso_ExpectedRevision :: uint64
  sso_RequestedAt :: gotime
  sso_UpdatedAt :: gotime
  sso_CompletedAt :: gotime
  sso_FailureCode :: string
  sso_SessionState :: string
  sso_AgentReady :: bool
  sso_EnvironmentGeneration :: uint64
  sso_Phase :: SlotSessionPhase
  sso_Attempt :: int
  sso_Revision :: uint64
  sso_DesiredState :: string
  sso_Deadline :: gotime
  sso_RetryBudget :: int
  sso_NextAttemptAt :: gotime
  sso_ClaimOwner :: string
  sso_ClaimUntil :: gotime
  sso_ActionSourceOperationID :: string
  sso_ActionActor :: string
  sso_ActionKind :: string
  sso_ActionExpectedRevision :: uint64
  sso_ActionGeneration :: uint64
  sso_ActionAttempt :: int
  sso_ActionDeadline :: gotime
  sso_StartIdempotencyKey :: string
  sso_StartDeadlineExplicit :: bool
  sso_StartRequestedPoolID :: string
  sso_StartRequestedSlotID :: string

record SlotSessionAction =
  ssa_OperationID :: string
  ssa_Actor :: string
  ssa_IdempotencyKey :: string
  ssa_ExpectedRevision :: uint64
  ssa_Generation :: uint64
  ssa_Attempt :: int
  ssa_Deadline :: gotime
  ssa_At :: gotime

record SlotSessionCheckpoint =
  ssc_OperationID :: string
  ssc_Owner :: string
  ssc_Generation :: uint64
  ssc_Phase :: SlotSessionPhase
  ssc_SessionState :: string
  ssc_AgentReady :: bool
  ssc_ObservedAt :: gotime
  ssc_FreshUntil :: gotime

text \<open>The tables: those of the slots, the operations, and the index of idempotency keys.\<close>

record ydb =
  yd_db :: sdb
  yd_ops :: "(string, SlotSessionOperation json) kmap"
  yd_index :: "(string, string) kmap"

type_synonym ycommit = "ydb \<Rightarrow> error option"

definition putSessionOp :: "string \<Rightarrow> SlotSessionOperation \<Rightarrow> ydb \<Rightarrow> ydb" where
  "putSessionOp key operation d = d\<lparr>yd_ops := kput key (Json operation) (yd_ops d)\<rparr>"

definition putSessionSlot :: "slot \<Rightarrow> ydb \<Rightarrow> ydb" where
  "putSessionSlot value d = d\<lparr>yd_db := putSlot value (yd_db d)\<rparr>"

section \<open>Pure functions\<close>

definition DefaultSlotSessionDeadline :: duration where
  "DefaultSlotSessionDeadline = 300 * second"

definition SlotSessionFreshnessWindow :: duration where
  "SlotSessionFreshnessWindow = 60 * second"

definition SlotSessionBackoff :: "int \<Rightarrow> duration" where
  "SlotSessionBackoff attempt =
     (if attempt \<le> 1 then 0
      else let shift = (if 5 < attempt - 2 then 5 else attempt - 2) in 2 ^ nat shift * second)"

definition normalizeSessionMutation :: "gotime \<Rightarrow> SlotSessionMutation \<Rightarrow> SlotSessionMutation result" where
  "normalizeSessionMutation now m0 =
     (let m = m0\<lparr>ssm_PoolID := TrimSpace (ssm_PoolID m0), ssm_SlotID := TrimSpace (ssm_SlotID m0),
                 ssm_IdempotencyKey := TrimSpace (ssm_IdempotencyKey m0), ssm_Actor := TrimSpace (ssm_Actor m0),
                 ssm_RequestedAt := (if IsZero (ssm_RequestedAt m0) then now else ssm_RequestedAt m0)\<rparr>
      in if (ssm_PoolID m = []) = (ssm_SlotID m = []) \<or> ssm_IdempotencyKey m = [] \<or> ssm_Actor m = []
            \<or> ssm_Attempt m < 0 \<or> ssm_RetryBudget m < 0
            \<or> ContainsAny (ssm_PoolID m @ ssm_SlotID m @ ssm_IdempotencyKey m @ ssm_Actor m) crlftab
         then Inl (StoreErr ErrInvalidRequest)
         else if \<not> IsZero (ssm_Deadline m) then
           if \<not> After (ssm_Deadline m) (ssm_RequestedAt m) then Inl (StoreErr ErrInvalidRequest) else Inr m
         else Inr (m\<lparr>ssm_Deadline := Add (ssm_RequestedAt m) DefaultSlotSessionDeadline\<rparr>))"

definition slotSessionTerminal :: "SlotSessionOperationState \<Rightarrow> bool" where
  "slotSessionTerminal state \<longleftrightarrow>
     state = SlotSessionReady \<or> state = SlotSessionStopped \<or> state = SlotSessionFailed \<or> state = SlotSessionCancelled"

fun slotSessionStateValid :: "SlotSessionOperationState \<Rightarrow> bool" where
  "slotSessionStateValid (OtherSessionState _) = False"
| "slotSessionStateValid _ = True"

definition normalizedSlotSessionAttempt :: "int \<Rightarrow> int" where
  "normalizedSlotSessionAttempt attempt = (if attempt = 0 then 1 else attempt)"

definition SlotSessionTransitionAllowed :: "SlotSessionOperationState \<Rightarrow> SlotSessionOperationState \<Rightarrow> bool" where
  "SlotSessionTransitionAllowed from to \<longleftrightarrow>
     (if from = to then True
      else case from of
        SlotSessionRequested \<Rightarrow>
          to = SlotSessionProvisioning \<or> to = SlotSessionStopping \<or> to = SlotSessionCancelling \<or> to = SlotSessionFailed
      | SlotSessionProvisioning \<Rightarrow>
          to = SlotSessionProvisioning \<or> to = SlotSessionReady \<or> to = SlotSessionStopping \<or> to = SlotSessionCancelling
          \<or> to = SlotSessionFailed
      | SlotSessionRetrying \<Rightarrow>
          to = SlotSessionProvisioning \<or> to = SlotSessionReady \<or> to = SlotSessionStopping \<or> to = SlotSessionCancelling
          \<or> to = SlotSessionFailed
      | SlotSessionReady \<Rightarrow> to = SlotSessionStopping \<or> to = SlotSessionCancelling
      | SlotSessionStopping \<Rightarrow> to = SlotSessionStopped \<or> to = SlotSessionFailed
      | SlotSessionCancelling \<Rightarrow> to = SlotSessionCancelled \<or> to = SlotSessionFailed
      | _ \<Rightarrow> False)"

text \<open>The name of a new operation: the first one that is not taken.\<close>

definition slotSessionOperationID :: "string \<Rightarrow> string \<Rightarrow> string \<Rightarrow> gotime \<Rightarrow> ydb \<Rightarrow> string" where
  "slotSessionOperationID poolID slotID idempotencyKey requestedAt d =
     unusedName (yd_ops d) (''slotop_'' @ EncodeToString (take 8 (Sum256
       (poolID @ ''|'' @ slotID @ ''|'' @ idempotencyKey @ ''|'' @ RFC3339Nano requestedAt))))"

definition slotSessionActionIndex :: "string \<Rightarrow> string" where
  "slotSessionActionIndex key = ''action:'' @ key"

definition slotSessionActionTime :: "gotime \<Rightarrow> SlotSessionAction \<Rightarrow> gotime" where
  "slotSessionActionTime clock action = (if IsZero (ssa_At action) then clock else ssa_At action)"

abbreviation sessionErr :: "slot_session_error \<Rightarrow> 'a result" where
  "sessionErr e \<equiv> Inl (SlotSessionErr e)"

abbreviation getSessionOp :: "ydb \<Rightarrow> string \<Rightarrow> SlotSessionOperation result" where
  "getSessionOp d operationID \<equiv> getJSON (yd_ops d) operationID (SlotSessionErr ErrSlotSessionOperationNotFound)"

abbreviation getSessionSlot :: "ydb \<Rightarrow> string \<Rightarrow> slot result" where
  "getSessionSlot d slotID \<equiv> getJSON (sd_slots (yd_db d)) slotID (SlotErr ErrSlotNotFound)"

text \<open>\<open>decode(ops.Get(raw), &result)\<close>: a missing operation does not decode.\<close>

definition indexedOperation :: "ydb \<Rightarrow> string \<Rightarrow> SlotSessionOperation result" where
  "indexedOperation d operationID =
     (case kget (yd_ops d) operationID of
        Some (Json operation) \<Rightarrow> Inr operation
      | _ \<Rightarrow> Inl (StoreErr ErrCorruptData))"

section \<open>Start\<close>

definition startConflict :: "SlotSessionMutation \<Rightarrow> bool \<Rightarrow> SlotSessionOperation \<Rightarrow> bool" where
  "startConflict m deadlineExplicit result \<longleftrightarrow>
     (let selectorConflict = (sso_StartIdempotencyKey result \<noteq> []
            \<and> (sso_StartRequestedPoolID result \<noteq> ssm_PoolID m \<or> sso_StartRequestedSlotID result \<noteq> ssm_SlotID m))
      in selectorConflict \<or> ssm_PoolID m \<noteq> [] \<and> sso_PoolID result \<noteq> ssm_PoolID m
         \<or> ssm_SlotID m \<noteq> [] \<and> sso_SlotID result \<noteq> ssm_SlotID m \<or> sso_Actor result \<noteq> ssm_Actor m
         \<or> sso_ExpectedRevision result \<noteq> ssm_ExpectedRevision m
         \<or> sso_Attempt result \<noteq> normalizedSlotSessionAttempt (ssm_Attempt m)
         \<or> sso_RetryBudget result \<noteq> ssm_RetryBudget m \<or> sso_StartDeadlineExplicit result \<noteq> deadlineExplicit
         \<or> sso_StartDeadlineExplicit result \<and> sso_Deadline result \<noteq> ssm_Deadline m
         \<or> sso_StartIdempotencyKey result \<noteq> [] \<and> sso_StartIdempotencyKey result \<noteq> ssm_IdempotencyKey m)"

definition startable :: "slot \<Rightarrow> bool" where
  "startable s \<longleftrightarrow> sl_Status s = Unprovisioned \<or> sl_Status s = Provisioning \<or> sl_Status s = Ready \<or> sl_Status s = Stopped"

definition selectSessionSlot :: "SlotSessionMutation \<Rightarrow> ydb \<Rightarrow> slot result" where
  "selectSessionSlot m d =
     (if ssm_SlotID m \<noteq> [] then
        bindE (getSessionSlot d (ssm_SlotID m)) (\<lambda>selected.
        if ssm_PoolID m \<noteq> [] \<and> sl_PoolID selected \<noteq> ssm_PoolID m then Inl (SlotErr ErrSlotNotFound)
        else Inr selected)
      else
        bindE (slotsForPoolTx (yd_db d) (ssm_PoolID m)) (\<lambda>values.
        case find startable values of
          None \<Rightarrow> Inl (SlotErr ErrSlotUnavailable)
        | Some selected \<Rightarrow>
            if sl_SlotID selected = [] then Inl (SlotErr ErrSlotUnavailable) else Inr selected))"

text \<open>The operation that the slot names must be over, and must not want the session running.\<close>

definition freeForStart :: "ydb \<Rightarrow> slot \<Rightarrow> unit result" where
  "freeForStart d selected =
     (if sl_SessionOperationID selected = [] then Inr ()
      else case getSessionOp d (sl_SessionOperationID selected) of
        Inr existing \<Rightarrow>
          if \<not> slotSessionTerminal (sso_State existing) \<or> sso_DesiredState existing = ''running''
          then sessionErr ErrSlotSessionActionConflict else Inr ()
      | Inl e \<Rightarrow> if e = SlotSessionErr ErrSlotSessionOperationNotFound then Inr () else Inl e)"

text \<open>The new operation; \<open>selected\<close> already has the status a start gives it.\<close>

definition startedOperation ::
  "SlotSessionMutation \<Rightarrow> bool \<Rightarrow> string \<Rightarrow> slot \<Rightarrow> SlotSessionOperation" where
  "startedOperation m deadlineExplicit operationID selected =
     (let ready = (sl_Status selected = Ready)
      in \<lparr>sso_OperationID = operationID, sso_PoolID = sl_PoolID selected, sso_SlotID = sl_SlotID selected,
          sso_Ordinal = sl_Ordinal selected,
          sso_State = (if ready then SlotSessionReady else SlotSessionRequested), sso_Actor = ssm_Actor m,
          sso_ExpectedRevision = ssm_ExpectedRevision m, sso_RequestedAt = ssm_RequestedAt m,
          sso_UpdatedAt = ssm_RequestedAt m,
          sso_CompletedAt = (if ready then ssm_RequestedAt m else zeroTime), sso_FailureCode = [],
          sso_SessionState = slotStatusText (sl_Status selected), sso_AgentReady = ready,
          sso_EnvironmentGeneration = sl_EnvironmentGeneration selected,
          sso_Phase = (if ready then PhaseWorker else PhaseEnvironment),
          sso_Attempt = (if ssm_Attempt m = 0 then 1 else ssm_Attempt m),
          sso_Revision = sl_SessionRevision selected + 1, sso_DesiredState = ''running'',
          sso_Deadline = ssm_Deadline m, sso_RetryBudget = ssm_RetryBudget m, sso_NextAttemptAt = zeroTime,
          sso_ClaimOwner = [], sso_ClaimUntil = zeroTime, sso_ActionSourceOperationID = [],
          sso_ActionActor = [], sso_ActionKind = [], sso_ActionExpectedRevision = 0,
          sso_ActionGeneration = 0, sso_ActionAttempt = 0, sso_ActionDeadline = zeroTime,
          sso_StartIdempotencyKey = ssm_IdempotencyKey m, sso_StartDeadlineExplicit = deadlineExplicit,
          sso_StartRequestedPoolID = ssm_PoolID m, sso_StartRequestedSlotID = ssm_SlotID m\<rparr>)"

definition startSessionTx ::
  "SlotSessionMutation \<Rightarrow> bool \<Rightarrow> ydb \<Rightarrow> ((SlotSessionOperation \<times> bool) \<times> ydb) result" where
  "startSessionTx m deadlineExplicit d =
     (case kget (yd_index d) (ssm_IdempotencyKey m) of
        Some raw \<Rightarrow>
          bindE (indexedOperation d raw) (\<lambda>result.
          if startConflict m deadlineExplicit result then sessionErr ErrSlotSessionIdempotencyConflict
          else Inr ((result, True), d))
      | None \<Rightarrow>
          bindE (selectSessionSlot m d) (\<lambda>selected0.
          bindE (getJSON (sd_pools (yd_db d)) (sl_PoolID selected0) (SlotErr ErrPoolNotFound)) (\<lambda>pool.
          if pc_DesiredSlots pool = 0 \<or> pc_DesiredState pool = ''disabled'' \<or> pc_DesiredState pool = ''draining''
          then Inl (SlotErr ErrSlotUnavailable)
          else if ssm_ExpectedRevision m \<noteq> 0 \<and> pc_ConfigRevision pool \<noteq> ssm_ExpectedRevision m
          then sessionErr ErrSlotSessionRevision
          else if \<not> startable selected0 then Inl (SlotErr ErrSlotUnavailable)
          else
            bindE (freeForStart d selected0) (\<lambda>_.
            let selected = (if sl_Status selected0 = Stopped then selected0\<lparr>sl_Status := Provisioning\<rparr> else selected0);
                result = startedOperation m deadlineExplicit
                  (slotSessionOperationID (ssm_PoolID m) (sl_SlotID selected) (ssm_IdempotencyKey m) (ssm_RequestedAt m) d)
                  selected;
                stored = selected\<lparr>sl_SessionDesiredState := ''running'', sl_SessionOperationID := sso_OperationID result,
                  sl_SessionRevision := sso_Revision result, sl_UpdatedAt := ssm_RequestedAt m\<rparr>;
                d1 = putSessionOp (sso_OperationID result) result (putSessionSlot stored d)
            in Inr ((result, False),
                 d1\<lparr>yd_index := kput (ssm_IdempotencyKey m) (sso_OperationID result) (yd_index d1)\<rparr>)))))"

definition StartSlotSession ::
  "ycommit \<Rightarrow> gotime \<Rightarrow> SlotSessionMutation \<Rightarrow> ydb \<Rightarrow> (SlotSessionOperation \<times> bool) result \<times> ydb" where
  "StartSlotSession commit clock m d =
     (let deadlineExplicit = (\<not> IsZero (ssm_Deadline m));
          now = (if IsZero (ssm_RequestedAt m) then clock else ssm_RequestedAt m)
      in case normalizeSessionMutation now m of
           Inl e \<Rightarrow> (Inl e, d)
         | Inr m' \<Rightarrow> update commit (startSessionTx m' deadlineExplicit) d)"

definition GetSlotSessionOperation :: "string \<Rightarrow> ydb \<Rightarrow> SlotSessionOperation result" where
  "GetSlotSessionOperation operationID = view (\<lambda>d. getSessionOp d operationID)"

section \<open>Stop, cancel and retry\<close>

definition slotLeaseForOperationTx :: "sdb \<Rightarrow> string \<Rightarrow> SlotLease option result" where
  "slotLeaseForOperationTx d slotID =
     (case kget (sd_slotLeases d) slotID of
        None \<Rightarrow> Inr None
      | Some raw \<Rightarrow> bindE (decode raw) (\<lambda>lease. bindE (corrupt (SlotLease_Validate lease)) (\<lambda>_. Inr (Some lease))))"

definition applyStoppedIntentTx :: "sdb \<Rightarrow> slot \<Rightarrow> slot result" where
  "applyStoppedIntentTx d current =
     (if sl_Status current = Deleted \<or> sl_Status current = Retiring then Inr current
      else bindE (slotLeaseForOperationTx d (sl_SlotID current)) (\<lambda>leased.
        Inr (current\<lparr>sl_Status := (if leased \<noteq> None then Draining else Stopped)\<rparr>)))"

definition actionConflict :: "string \<Rightarrow> SlotSessionAction \<Rightarrow> SlotSessionOperation \<Rightarrow> bool" where
  "actionConflict kind action result \<longleftrightarrow>
     sso_ActionActor result \<noteq> [] \<and> sso_ActionActor result \<noteq> ssa_Actor action
     \<or> sso_ActionKind result \<noteq> [] \<and> sso_ActionKind result \<noteq> kind
     \<or> sso_ActionExpectedRevision result \<noteq> ssa_ExpectedRevision action
     \<or> sso_ActionGeneration result \<noteq> ssa_Generation action \<or> sso_ActionAttempt result \<noteq> ssa_Attempt action
     \<or> sso_ActionDeadline result \<noteq> ssa_Deadline action"

text \<open>The tie of a slot to an operation, as every write of a slot in this file makes it.\<close>

definition bindSlot :: "string \<Rightarrow> uint64 \<Rightarrow> gotime \<Rightarrow> slot \<Rightarrow> slot" where
  "bindSlot operationID revision at current =
     current\<lparr>sl_SessionOperationID := operationID, sl_SessionRevision := revision, sl_UpdatedAt := at\<rparr>"

definition mutateActionTx ::
  "gotime \<Rightarrow> SlotSessionAction \<Rightarrow> SlotSessionOperationState \<Rightarrow> SlotSessionPhase \<Rightarrow> string \<Rightarrow> ydb \<Rightarrow>
     ((SlotSessionOperation \<times> bool) \<times> ydb) result" where
  "mutateActionTx now action target phase desired d =
     (case kget (yd_index d) (slotSessionActionIndex (ssa_IdempotencyKey action)) of
        Some raw \<Rightarrow>
          bindE (indexedOperation d raw) (\<lambda>result.
          if raw \<noteq> ssa_OperationID action \<or> actionConflict (sessionStateText target) action result
          then sessionErr ErrSlotSessionActionConflict else Inr ((result, True), d))
      | None \<Rightarrow>
          bindE (getSessionOp d (ssa_OperationID action)) (\<lambda>result0.
          if ssa_ExpectedRevision action \<noteq> 0 \<and> ssa_ExpectedRevision action \<noteq> sso_Revision result0
          then sessionErr ErrSlotSessionRevision
          else if ssa_Attempt action \<noteq> 0 \<and> ssa_Attempt action \<noteq> sso_Attempt result0
          then sessionErr ErrSlotSessionActionConflict
          else if ssa_Generation action \<noteq> 0 \<and> sso_EnvironmentGeneration result0 \<noteq> 0
             \<and> ssa_Generation action \<noteq> sso_EnvironmentGeneration result0
          then sessionErr ErrSlotSessionLateResult
          else if slotSessionTerminal (sso_State result0)
             \<and> \<not> (sso_State result0 = SlotSessionReady \<and> (target = SlotSessionStopping \<or> target = SlotSessionCancelling))
          then sessionErr ErrSlotSessionActionConflict
          else if \<not> SlotSessionTransitionAllowed (sso_State result0) target
          then sessionErr ErrSlotSessionActionConflict
          else
            bindE (getSessionSlot d (sso_SlotID result0)) (\<lambda>current0.
            let result1 = result0\<lparr>sso_State := target, sso_Phase := phase, sso_DesiredState := desired,
                  sso_UpdatedAt := now, sso_CompletedAt := zeroTime,
                  sso_ActionSourceOperationID := ssa_OperationID action, sso_ActionActor := ssa_Actor action,
                  sso_ActionKind := sessionStateText target, sso_ActionExpectedRevision := ssa_ExpectedRevision action,
                  sso_ActionGeneration := ssa_Generation action, sso_ActionAttempt := ssa_Attempt action,
                  sso_ActionDeadline := ssa_Deadline action\<rparr>;
                result = (if \<not> IsZero (sso_Deadline result1) \<and> \<not> Before now (sso_Deadline result1)
                  then result1\<lparr>sso_State := SlotSessionFailed, sso_FailureCode := ''deadline_exceeded'', sso_CompletedAt := now\<rparr>
                  else result1);
                current1 = current0\<lparr>sl_SessionDesiredState := desired\<rparr>
            in bindE (if desired = ''stopped'' \<and> (target = SlotSessionStopping \<or> target = SlotSessionCancelling)
                      then applyStoppedIntentTx (yd_db d) current1 else Inr current1) (\<lambda>current.
               let d1 = putSessionOp (sso_OperationID result) result
                     (putSessionSlot (bindSlot (sso_OperationID result) (sso_Revision result) now current) d)
               in Inr ((result, False), d1\<lparr>yd_index := kput (slotSessionActionIndex (ssa_IdempotencyKey action))
                    (sso_OperationID result) (yd_index d1)\<rparr>)))))"

definition mutateSlotSessionAction ::
  "ycommit \<Rightarrow> gotime \<Rightarrow> SlotSessionAction \<Rightarrow> SlotSessionOperationState \<Rightarrow> SlotSessionPhase \<Rightarrow> string \<Rightarrow> ydb \<Rightarrow>
     (SlotSessionOperation \<times> bool) result \<times> ydb" where
  "mutateSlotSessionAction commit clock action target phase desired d =
     (if TrimSpace (ssa_OperationID action) = [] \<or> TrimSpace (ssa_Actor action) = [] \<or> TrimSpace (ssa_IdempotencyKey action) = []
         \<or> ContainsAny (ssa_OperationID action @ ssa_Actor action @ ssa_IdempotencyKey action) (crlftab @ '' '')
         \<or> ssa_Attempt action < 0
      then (Inl (StoreErr ErrInvalidRequest), d)
      else update commit (mutateActionTx (slotSessionActionTime clock action) action target phase desired) d)"

definition CancelSlotSession ::
  "ycommit \<Rightarrow> gotime \<Rightarrow> SlotSessionAction \<Rightarrow> ydb \<Rightarrow> (SlotSessionOperation \<times> bool) result \<times> ydb" where
  "CancelSlotSession commit clock action =
     mutateSlotSessionAction commit clock action SlotSessionCancelling PhaseStopping ''stopped''"

definition StopSlotSession ::
  "ycommit \<Rightarrow> gotime \<Rightarrow> SlotSessionAction \<Rightarrow> ydb \<Rightarrow> (SlotSessionOperation \<times> bool) result \<times> ydb" where
  "StopSlotSession commit clock action =
     mutateSlotSessionAction commit clock action SlotSessionStopping PhaseStopping ''stopped''"

definition retriedOperation ::
  "gotime \<Rightarrow> SlotSessionAction \<Rightarrow> string \<Rightarrow> SlotSessionOperation \<Rightarrow> SlotSessionOperation" where
  "retriedOperation now action operationID previous =
     previous\<lparr>sso_OperationID := operationID, sso_StartIdempotencyKey := [], sso_StartDeadlineExplicit := False,
       sso_State := SlotSessionRetrying, sso_Phase := PhaseEnvironment, sso_Attempt := sso_Attempt previous + 1,
       sso_RequestedAt := now, sso_UpdatedAt := now, sso_CompletedAt := zeroTime, sso_FailureCode := [],
       sso_DesiredState := ''running'',
       sso_NextAttemptAt := Add now (SlotSessionBackoff (sso_Attempt previous + 1)),
       sso_Deadline := (if IsZero (ssa_Deadline action) then sso_Deadline previous else ssa_Deadline action),
       sso_ClaimOwner := [], sso_ClaimUntil := zeroTime, sso_ActionSourceOperationID := ssa_OperationID action,
       sso_ActionActor := ssa_Actor action, sso_ActionKind := ''retry'',
       sso_ActionExpectedRevision := ssa_ExpectedRevision action, sso_ActionGeneration := ssa_Generation action,
       sso_ActionAttempt := ssa_Attempt action, sso_ActionDeadline := ssa_Deadline action,
       sso_Revision := sso_Revision previous + 1\<rparr>"

definition retrySessionTx ::
  "gotime \<Rightarrow> SlotSessionAction \<Rightarrow> ydb \<Rightarrow> ((SlotSessionOperation \<times> bool) \<times> ydb) result" where
  "retrySessionTx now action d =
     (if ssa_OperationID action = [] \<or> ssa_Actor action = [] \<or> ssa_IdempotencyKey action = []
         \<or> ContainsAny (ssa_OperationID action @ ssa_Actor action @ ssa_IdempotencyKey action) (crlftab @ '' '')
      then Inl (StoreErr ErrInvalidRequest)
      else case kget (yd_index d) (slotSessionActionIndex (ssa_IdempotencyKey action)) of
        Some raw \<Rightarrow>
          bindE (indexedOperation d raw) (\<lambda>result.
          if sso_ActionSourceOperationID result \<noteq> ssa_OperationID action \<or> actionConflict ''retry'' action result
          then sessionErr ErrSlotSessionActionConflict else Inr ((result, True), d))
      | None \<Rightarrow>
          bindE (getSessionOp d (ssa_OperationID action)) (\<lambda>previous.
          if sso_State previous \<noteq> SlotSessionFailed \<and> sso_State previous \<noteq> SlotSessionCancelled
          then sessionErr ErrSlotSessionActionConflict
          else if ssa_ExpectedRevision action \<noteq> 0 \<and> ssa_ExpectedRevision action \<noteq> sso_Revision previous
          then sessionErr ErrSlotSessionRevision
          else if ssa_Attempt action \<noteq> 0 \<and> ssa_Attempt action \<noteq> sso_Attempt previous
          then sessionErr ErrSlotSessionActionConflict
          else if ssa_Generation action \<noteq> 0 \<and> sso_EnvironmentGeneration previous \<noteq> 0
             \<and> ssa_Generation action \<noteq> sso_EnvironmentGeneration previous
          then sessionErr ErrSlotSessionLateResult
          else if sso_RetryBudget previous = 0
             \<or> 0 < sso_RetryBudget previous \<and> sso_RetryBudget previous + 1 \<le> sso_Attempt previous
          then sessionErr ErrSlotSessionActionConflict
          else if IsZero (ssa_Deadline action) \<and> \<not> IsZero (sso_Deadline previous) \<and> \<not> Before now (sso_Deadline previous)
          then sessionErr ErrSlotSessionDeadline
          else
            bindE (getSessionSlot d (sso_SlotID previous)) (\<lambda>current.
            if sl_Status current \<in> {Leased, Draining, Quarantined, Retiring, Deleted}
            then Inl (SlotErr ErrSlotUnavailable)
            else
              let operationID = slotSessionOperationID (sso_PoolID previous) (sso_SlotID previous)
                    (ssa_IdempotencyKey action) now d;
                  result = retriedOperation now action operationID previous;
                  stored = bindSlot operationID (sso_Revision previous + 1) now
                    (current\<lparr>sl_Status := (if sl_Status current = Stopped then Provisioning else sl_Status current),
                             sl_SessionDesiredState := ''running''\<rparr>);
                  d1 = putSessionOp operationID result (putSessionSlot stored d)
              in Inr ((result, False), d1\<lparr>yd_index := kput (slotSessionActionIndex (ssa_IdempotencyKey action))
                   operationID (yd_index d1)\<rparr>))))"

definition RetrySlotSession ::
  "ycommit \<Rightarrow> gotime \<Rightarrow> SlotSessionAction \<Rightarrow> ydb \<Rightarrow> (SlotSessionOperation \<times> bool) result \<times> ydb" where
  "RetrySlotSession commit clock action d =
     (let now = slotSessionActionTime clock action
      in if ssa_Attempt action < 0 then (Inl (StoreErr ErrInvalidRequest), d)
         else if \<not> IsZero (ssa_Deadline action) \<and> \<not> After (ssa_Deadline action) now
         then (sessionErr ErrSlotSessionDeadline, d)
         else update commit (retrySessionTx now action) d)"

section \<open>The controller\<close>

definition claimSessionTx ::
  "string \<Rightarrow> string \<Rightarrow> gotime \<Rightarrow> duration \<Rightarrow> ydb \<Rightarrow> (SlotSessionOperation \<times> ydb) result" where
  "claimSessionTx operationID owner at ttl d =
     bindE (getSessionOp d operationID) (\<lambda>result.
     if slotSessionTerminal (sso_State result) then sessionErr ErrSlotSessionClaim
     else if \<not> IsZero (sso_NextAttemptAt result) \<and> Before at (sso_NextAttemptAt result) then sessionErr ErrSlotSessionClaim
     else if sso_ClaimOwner result \<noteq> [] \<and> sso_ClaimOwner result \<noteq> owner \<and> Before at (sso_ClaimUntil result)
     then sessionErr ErrSlotSessionClaim
     else
       let claimed = result\<lparr>sso_ClaimOwner := owner, sso_ClaimUntil := Add at ttl,
             sso_State := (if sso_State result = SlotSessionRequested \<or> sso_State result = SlotSessionRetrying
                           then SlotSessionProvisioning else sso_State result),
             sso_UpdatedAt := at\<rparr>
       in Inr (claimed, putSessionOp operationID claimed d))"

definition ClaimSlotSessionOperation ::
  "ycommit \<Rightarrow> gotime \<Rightarrow> string \<Rightarrow> string \<Rightarrow> gotime \<Rightarrow> duration \<Rightarrow> ydb \<Rightarrow> SlotSessionOperation result \<times> ydb" where
  "ClaimSlotSessionOperation commit clock operationID owner at ttl d =
     (if operationID = [] \<or> owner = [] \<or> ContainsAny (operationID @ owner) (crlftab @ '' '') \<or> ttl \<le> 0
      then (Inl (StoreErr ErrInvalidRequest), d)
      else update commit (claimSessionTx operationID owner (if IsZero at then clock else at) ttl) d)"

text \<open>
  After the deadline the transaction writes a failure and then returns an error, so that nothing of
  it is kept: the model returns the error, as the engine does, after the checks before it.
\<close>

definition completeSessionTx ::
  "string \<Rightarrow> string \<Rightarrow> uint64 \<Rightarrow> SlotSessionOperationState \<Rightarrow> SlotSessionPhase \<Rightarrow> string \<Rightarrow> gotime \<Rightarrow> ydb \<Rightarrow>
     (SlotSessionOperation \<times> ydb) result" where
  "completeSessionTx operationID owner generation state phase failure at d =
     bindE (getSessionOp d operationID) (\<lambda>result0.
     if sso_ClaimOwner result0 \<noteq> owner \<or> \<not> Before at (sso_ClaimUntil result0) then sessionErr ErrSlotSessionClaim
     else if \<not> IsZero (sso_Deadline result0) \<and> \<not> Before at (sso_Deadline result0) then
       bindE (getSessionSlot d (sso_SlotID result0)) (\<lambda>current.
       let failed = result0\<lparr>sso_State := SlotSessionFailed, sso_Phase := PhaseStopping,
             sso_FailureCode := ''deadline_exceeded'', sso_DesiredState := ''stopped''\<rparr>
       in bindE (applyStoppedIntentTx (yd_db d) (current\<lparr>sl_SessionDesiredState := ''stopped''\<rparr>)) (\<lambda>current'.
          let d1 = putSessionSlot (bindSlot operationID (sso_Revision failed) at current') d;
              d2 = putSessionOp operationID (failed\<lparr>sso_CompletedAt := at, sso_UpdatedAt := at,
                     sso_ClaimOwner := [], sso_ClaimUntil := zeroTime\<rparr>) d1
          in sessionErr ErrSlotSessionDeadline))
     else if generation \<noteq> 0 \<and> sso_EnvironmentGeneration result0 \<noteq> 0 \<and> generation \<noteq> sso_EnvironmentGeneration result0
     then sessionErr ErrSlotSessionLateResult
     else if \<not> slotSessionStateValid state then Inl (StoreErr ErrInvalidRequest)
     else if \<not> SlotSessionTransitionAllowed (sso_State result0) state then sessionErr ErrSlotSessionActionConflict
     else
       let result1 = result0\<lparr>sso_State := state, sso_Phase := phase, sso_FailureCode := failure, sso_UpdatedAt := at,
             sso_EnvironmentGeneration := (if generation \<noteq> 0 \<and> sso_EnvironmentGeneration result0 = 0 then generation
                                           else sso_EnvironmentGeneration result0),
             sso_ClaimOwner := [], sso_ClaimUntil := zeroTime,
             sso_CompletedAt := (if slotSessionTerminal state then at else sso_CompletedAt result0)\<rparr>
       in bindE (getSessionSlot d (sso_SlotID result1)) (\<lambda>current0.
          bindE (if state = SlotSessionReady then
                   Inr (result1\<lparr>sso_DesiredState := ''running''\<rparr>, current0\<lparr>sl_SessionDesiredState := ''running''\<rparr>)
                 else if state = SlotSessionStopped \<or> state = SlotSessionCancelled \<or> state = SlotSessionFailed then
                   bindE (applyStoppedIntentTx (yd_db d) (current0\<lparr>sl_SessionDesiredState := ''stopped''\<rparr>)) (\<lambda>current.
                   Inr (result1\<lparr>sso_DesiredState := ''stopped''\<rparr>, current))
                 else Inr (result1, current0)) (\<lambda>(result, current).
          Inr (result, putSessionOp operationID result
                 (putSessionSlot (bindSlot operationID (sso_Revision result) at current) d)))))"

definition CompleteSlotSessionOperation ::
  "ycommit \<Rightarrow> string \<Rightarrow> string \<Rightarrow> uint64 \<Rightarrow> SlotSessionOperationState \<Rightarrow> SlotSessionPhase \<Rightarrow> string \<Rightarrow> gotime \<Rightarrow> ydb \<Rightarrow>
     SlotSessionOperation result \<times> ydb" where
  "CompleteSlotSessionOperation commit operationID owner generation state phase failure at d =
     (if operationID = [] \<or> owner = [] \<or> ContainsAny (operationID @ owner) (crlftab @ '' '') \<or> IsZero at
      then (Inl (StoreErr ErrInvalidRequest), d)
      else update commit (completeSessionTx operationID owner generation state phase failure at) d)"

definition checkpointSessionTx :: "SlotSessionCheckpoint \<Rightarrow> gotime \<Rightarrow> ydb \<Rightarrow> (SlotSessionOperation \<times> ydb) result" where
  "checkpointSessionTx checkpoint at d =
     bindE (getSessionOp d (ssc_OperationID checkpoint)) (\<lambda>result0.
     if sso_ClaimOwner result0 \<noteq> ssc_Owner checkpoint \<or> \<not> Before at (sso_ClaimUntil result0)
     then sessionErr ErrSlotSessionClaim
     else if ssc_Generation checkpoint \<noteq> 0 \<and> sso_EnvironmentGeneration result0 \<noteq> 0
        \<and> ssc_Generation checkpoint \<noteq> sso_EnvironmentGeneration result0
     then sessionErr ErrSlotSessionLateResult
     else
       let result = result0\<lparr>sso_Phase := ssc_Phase checkpoint, sso_SessionState := ssc_SessionState checkpoint,
             sso_AgentReady := ssc_AgentReady checkpoint, sso_UpdatedAt := at,
             sso_EnvironmentGeneration := (if sso_EnvironmentGeneration result0 = 0 then ssc_Generation checkpoint
                                           else sso_EnvironmentGeneration result0)\<rparr>
       in bindE (getSessionSlot d (sso_SlotID result)) (\<lambda>current.
          Inr (result, putSessionOp (sso_OperationID result) result
                 (putSessionSlot (current\<lparr>sl_HealthAt := at, sl_UpdatedAt := at\<rparr>) d))))"

definition CheckpointSlotSessionOperation ::
  "ycommit \<Rightarrow> SlotSessionCheckpoint \<Rightarrow> ydb \<Rightarrow> SlotSessionOperation result \<times> ydb" where
  "CheckpointSlotSessionOperation commit checkpoint d =
     (let at = ssc_ObservedAt checkpoint;
          freshUntil = (if IsZero (ssc_FreshUntil checkpoint) then Add at SlotSessionFreshnessWindow
                        else ssc_FreshUntil checkpoint)
      in if TrimSpace (ssc_OperationID checkpoint) = [] \<or> TrimSpace (ssc_Owner checkpoint) = []
            \<or> ContainsAny (ssc_OperationID checkpoint @ ssc_Owner checkpoint @ ssc_SessionState checkpoint) (crlftab @ '' '')
            \<or> IsZero (ssc_ObservedAt checkpoint)
         then (Inl (StoreErr ErrInvalidRequest), d)
         else if \<not> After freshUntil at then (Inl (StoreErr ErrInvalidRequest), d)
         else update commit (checkpointSessionTx checkpoint at) d)"

definition RecordSlotSessionFacts ::
  "ycommit \<Rightarrow> string \<Rightarrow> string \<Rightarrow> uint64 \<Rightarrow> string \<Rightarrow> bool \<Rightarrow> gotime \<Rightarrow> ydb \<Rightarrow> SlotSessionOperation result \<times> ydb" where
  "RecordSlotSessionFacts commit operationID owner generation sessionState agentReady at =
     CheckpointSlotSessionOperation commit
       \<lparr>ssc_OperationID = operationID, ssc_Owner = owner, ssc_Generation = generation, ssc_Phase = OtherPhase [],
        ssc_SessionState = sessionState, ssc_AgentReady = agentReady, ssc_ObservedAt = at, ssc_FreshUntil = zeroTime\<rparr>"

definition FinishSlotSessionOperation ::
  "ycommit \<Rightarrow> string \<Rightarrow> string \<Rightarrow> uint64 \<Rightarrow> SlotSessionOperationState \<Rightarrow> SlotSessionPhase \<Rightarrow> string \<Rightarrow> gotime \<Rightarrow> ydb \<Rightarrow>
     SlotSessionOperation result \<times> ydb" where
  "FinishSlotSessionOperation = CompleteSlotSessionOperation"

section \<open>Reconciliation\<close>

text \<open>An operation after its deadline: failed, and its slot, if it still exists, stopped.\<close>

definition expireOperation :: "gotime \<Rightarrow> string \<Rightarrow> SlotSessionOperation \<Rightarrow> ydb \<Rightarrow> ydb result" where
  "expireOperation at key operation d =
     bindE (case getSessionSlot d (sso_SlotID operation) of
              Inr current \<Rightarrow>
                bindE (applyStoppedIntentTx (yd_db d) (current\<lparr>sl_SessionDesiredState := ''stopped''\<rparr>)) (\<lambda>current'.
                Inr (putSessionSlot (bindSlot (sso_OperationID operation) (sso_Revision operation) at current') d))
            | Inl e \<Rightarrow> if e = SlotErr ErrSlotNotFound then Inr d else Inl e) (\<lambda>d1.
     Inr (putSessionOp key (operation\<lparr>sso_State := SlotSessionFailed, sso_FailureCode := ''deadline_exceeded'',
            sso_CompletedAt := at, sso_ClaimOwner := [], sso_ClaimUntil := zeroTime, sso_UpdatedAt := at\<rparr>) d1))"

text \<open>The state of an operation that follows from its slot.\<close>

definition observeSlot :: "gotime \<Rightarrow> slot \<Rightarrow> SlotSessionOperation \<Rightarrow> SlotSessionOperation" where
  "observeSlot at value operation0 =
     (let operation = operation0\<lparr>sso_SessionState := slotStatusText (sl_Status value),
            sso_EnvironmentGeneration := sl_EnvironmentGeneration value, sso_AgentReady := (sl_Status value = Ready)\<rparr>
      in if sso_DesiredState operation = ''stopped'' \<or> sso_State operation = SlotSessionStopping
            \<or> sso_State operation = SlotSessionCancelling then
           if sl_Status value \<in> {Stopped, Unprovisioned, Retiring, Deleted} then
             operation\<lparr>sso_State := (if sso_State operation = SlotSessionCancelling then SlotSessionCancelled
                                      else SlotSessionStopped),
                       sso_Phase := PhaseStopped, sso_CompletedAt := at\<rparr>
           else operation
         else case sl_Status value of
           Ready \<Rightarrow> operation\<lparr>sso_State := SlotSessionReady, sso_FailureCode := [], sso_Phase := PhaseWorker\<rparr>
         | Quarantined \<Rightarrow> operation\<lparr>sso_State := SlotSessionFailed, sso_FailureCode := ''slot_quarantined''\<rparr>
         | _ \<Rightarrow> if sso_State operation \<noteq> SlotSessionRetrying
                then operation\<lparr>sso_State := SlotSessionProvisioning\<rparr> else operation)"

definition reconcileOperation ::
  "gotime \<Rightarrow> string \<times> SlotSessionOperation json \<Rightarrow> ydb \<Rightarrow> ydb result" where
  "reconcileOperation at entry d =
     bindE (decode (snd entry)) (\<lambda>operation0.
     if slotSessionTerminal (sso_State operation0) then Inr d
     else if \<not> IsZero (sso_Deadline operation0) \<and> \<not> Before at (sso_Deadline operation0)
     then expireOperation at (fst entry) operation0 d
     else
       let operation1 = (if sso_ClaimOwner operation0 \<noteq> [] \<and> \<not> Before at (sso_ClaimUntil operation0)
             then operation0\<lparr>sso_ClaimOwner := [], sso_ClaimUntil := zeroTime\<rparr> else operation0);
           operation2 = (case getSessionSlot d (sso_SlotID operation1) of
               Inl _ \<Rightarrow> operation1\<lparr>sso_State := SlotSessionFailed, sso_FailureCode := ''slot_not_found''\<rparr>
             | Inr value \<Rightarrow> observeSlot at value operation1);
           operation3 = operation2\<lparr>sso_UpdatedAt := at\<rparr>
       in Inr (putSessionOp (fst entry) (if slotSessionTerminal (sso_State operation3)
                 then operation3\<lparr>sso_CompletedAt := at\<rparr> else operation3) d))"

definition reconcileSessionsTx :: "gotime \<Rightarrow> ydb \<Rightarrow> (unit \<times> ydb) result" where
  "reconcileSessionsTx at d = bindE (foldE (reconcileOperation at) (kentries (yd_ops d)) d) (\<lambda>d'. Inr ((), d'))"

definition ReconcileSlotSessionOperations :: "ycommit \<Rightarrow> gotime \<Rightarrow> gotime \<Rightarrow> ydb \<Rightarrow> unit result \<times> ydb" where
  "ReconcileSlotSessionOperations commit clock at =
     update commit (reconcileSessionsTx (if IsZero at then clock else at))"

end
