(* ===== verification/SlotSessionFacts.thy ===== *)
theory SlotSessionFacts
  imports SlotSession JobPoolFacts SlotFacts
begin

text \<open>
  What the transactions of the slot sessions write: every operation keeps its identity, moves only
  forward once it stops, and index entries never change.
\<close>

section \<open>Moves of an operation\<close>

text \<open>The states from which a session does not come back, and the frozen ones.\<close>

definition ending :: "SlotSessionOperationState set" where
  "ending = {SlotSessionStopping, SlotSessionCancelling, SlotSessionStopped, SlotSessionCancelled, SlotSessionFailed}"

definition frozen :: "SlotSessionOperationState set" where
  "frozen = {SlotSessionStopped, SlotSessionCancelled, SlotSessionFailed}"

definition stateMove :: "SlotSessionOperationState \<Rightarrow> SlotSessionOperationState \<Rightarrow> bool" where
  "stateMove s s' \<longleftrightarrow> (s \<in> ending \<longrightarrow> s' \<in> ending) \<and> (s \<in> frozen \<longrightarrow> s' = s)"

text \<open>The part of an operation that its start has fixed.\<close>

definition sameStart :: "SlotSessionOperation \<Rightarrow> SlotSessionOperation \<Rightarrow> bool" where
  "sameStart x y \<longleftrightarrow> sso_OperationID y = sso_OperationID x \<and> sso_PoolID y = sso_PoolID x \<and> sso_SlotID y = sso_SlotID x \<and>
     sso_Actor y = sso_Actor x \<and> sso_ExpectedRevision y = sso_ExpectedRevision x \<and> sso_Attempt y = sso_Attempt x \<and>
     sso_RetryBudget y = sso_RetryBudget x \<and> sso_Deadline y = sso_Deadline x \<and> sso_Revision y = sso_Revision x \<and>
     sso_StartIdempotencyKey y = sso_StartIdempotencyKey x \<and> sso_StartDeadlineExplicit y = sso_StartDeadlineExplicit x \<and>
     sso_StartRequestedPoolID y = sso_StartRequestedPoolID x \<and> sso_StartRequestedSlotID y = sso_StartRequestedSlotID x"

definition opMove :: "SlotSessionOperation \<Rightarrow> SlotSessionOperation \<Rightarrow> bool" where
  "opMove x y \<longleftrightarrow> sameStart x y \<and> stateMove (sso_State x) (sso_State y)"

lemma opMove_refl [simp]: "opMove x x"
  by (simp add: opMove_def sameStart_def stateMove_def)

lemma opMove_trans: "opMove x y \<Longrightarrow> opMove y z \<Longrightarrow> opMove x z"
  by (auto simp: opMove_def sameStart_def stateMove_def)

definition sessionsKept :: "ydb \<Rightarrow> ydb \<Rightarrow> bool" where
  "sessionsKept d d' \<longleftrightarrow>
     (\<forall>k x. kget (yd_ops d) k = Some (Json x) \<longrightarrow> (\<exists>y. kget (yd_ops d') k = Some (Json y) \<and> opMove x y)) \<and>
     (\<forall>k v. kget (yd_index d) k = Some v \<longrightarrow> kget (yd_index d') k = Some v)"

lemma sessionsKept_refl [simp]: "sessionsKept d d"
  by (auto simp: sessionsKept_def)

lemma sessionsKept_trans: "sessionsKept d e \<Longrightarrow> sessionsKept e f \<Longrightarrow> sessionsKept d f"
  unfolding sessionsKept_def by (meson opMove_trans)

definition session_inv :: "ydb \<Rightarrow> bool" where
  "session_inv d \<longleftrightarrow> (\<forall>k v. kget (yd_ops d) k = Some v \<longrightarrow> (\<exists>x. v = Json x \<and> sso_OperationID x = k)) \<and>
     (\<forall>k v. kget (yd_index d) k = Some v \<longrightarrow> kget (yd_ops d) v \<noteq> None)"

abbreviation keeps :: "ydb \<Rightarrow> ydb \<Rightarrow> bool" where
  "keeps d d' \<equiv> session_inv d' \<and> sessionsKept d d'"

lemma session_invD:
  assumes "session_inv d" shows "kget (yd_ops d) k = Some (Json x) \<Longrightarrow> sso_OperationID x = k"
    "kget (yd_index d) i = Some k \<Longrightarrow> \<exists>x. kget (yd_ops d) k = Some (Json x) \<and> sso_OperationID x = k"
  using assms unfolding session_inv_def by fastforce+

text \<open>The two kinds of writes: an operation that moves, and a new one; either may be indexed under a new key.\<close>

lemma write_old:
  assumes "session_inv d" "kget (yd_ops d) k = Some (Json x)" "opMove x y" "yd_ops d' = kput k (Json y) (yd_ops d)"
    and "yd_index d' = yd_index d \<or> (\<exists>i. kget (yd_index d) i = None \<and> yd_index d' = kput i k (yd_index d))"
  shows "keeps d d'"
proof
  have y: "sso_OperationID y = k" using session_invD(1) [OF assms(1,2)] assms(3) by (simp add: opMove_def sameStart_def)
  have ops: "kget (yd_ops d') l \<noteq> None" if "kget (yd_ops d) l \<noteq> None" for l using that assms(4) by simp
  have index: "kget (yd_index d') i = Some v \<Longrightarrow> kget (yd_index d) i = Some v \<or> v = k" for i v
    using assms(5) by (auto split: if_splits)
  show "session_inv d'" unfolding session_inv_def
  proof (intro conjI allI impI)
    fix l v assume "kget (yd_ops d') l = Some v"
    then show "\<exists>x. v = Json x \<and> sso_OperationID x = l"
      using assms(1,4) y by (auto simp: session_inv_def split: if_splits)
  next
    fix i v assume "kget (yd_index d') i = Some v"
    then show "kget (yd_ops d') v \<noteq> None" using index ops assms(1,2) unfolding session_inv_def by blast
  qed
  have "kget (yd_index d) i = Some v \<Longrightarrow> kget (yd_index d') i = Some v" for i v using assms(5) by auto
  moreover have "\<exists>z. kget (yd_ops d') l = Some (Json z) \<and> opMove x' z" if "kget (yd_ops d) l = Some (Json x')" for l x'
    using that assms(2-4) by auto
  ultimately show "sessionsKept d d'" unfolding sessionsKept_def by blast
qed

lemma write_new:
  assumes "session_inv d" "kget (yd_ops d) k = None" "sso_OperationID y = k" "yd_ops d' = kput k (Json y) (yd_ops d)"
    and "kget (yd_index d) i = None" "yd_index d' = kput i k (yd_index d)"
  shows "keeps d d'"
proof
  show "session_inv d'" using assms unfolding session_inv_def by auto
  show "sessionsKept d d'" using assms(2-6) unfolding sessionsKept_def by auto
qed

lemma session_sel [simp]:
  "yd_ops (putSessionOp k x d) = kput k (Json x) (yd_ops d)" "yd_index (putSessionOp k x d) = yd_index d"
  "yd_db (putSessionOp k x d) = yd_db d" "yd_ops (putSessionSlot s d) = yd_ops d" "yd_index (putSessionSlot s d) = yd_index d"
  "yd_db (putSessionSlot s d) = putSlot s (yd_db d)"
  by (simp_all add: putSessionOp_def putSessionSlot_def)

lemma fresh_session_id: "kget (yd_ops d) (slotSessionOperationID p s i t d) = None"
  unfolding slotSessionOperationID_def by (rule unusedName_fresh)

section \<open>The transactions\<close>

lemma bindE_InrE: "bindE m f = Inr y \<Longrightarrow> (\<And>x. m = Inr x \<Longrightarrow> f x = Inr y \<Longrightarrow> P) \<Longrightarrow> P"
  by auto

lemma if_InlE: "(if c then Inl e else r) = Inr y \<Longrightarrow> (\<not> c \<Longrightarrow> r = Inr y \<Longrightarrow> P) \<Longrightarrow> P"
  by (simp split: if_splits)

lemma if_InrE: "(if c then r else r') = Inr y \<Longrightarrow> (c \<Longrightarrow> r = Inr y \<Longrightarrow> P) \<Longrightarrow> (r' = Inr y \<Longrightarrow> P) \<Longrightarrow> P"
  by (simp split: if_splits)

lemma getJSON_found: "getJSON m k e = Inr x \<Longrightarrow> kget m k = Some (Json x)"
  by (simp add: getJSON_Inr)

lemma startSessionTx_keeps:
  assumes ok: "startSessionTx m ex d = Inr (x, d')" and inv: "session_inv d"
  shows "keeps d d'"
proof (cases "kget (yd_index d) (ssm_IdempotencyKey m)")
  case (Some raw)
  then show ?thesis using ok inv by (auto simp: startSessionTx_def)
next
  case None
  then obtain s where "yd_ops d' = kput (slotSessionOperationID (ssm_PoolID m) (sl_SlotID s) (ssm_IdempotencyKey m) (ssm_RequestedAt m) d)
      (Json (startedOperation m ex (slotSessionOperationID (ssm_PoolID m) (sl_SlotID s) (ssm_IdempotencyKey m) (ssm_RequestedAt m) d) s)) (yd_ops d)"
    "yd_index d' = kput (ssm_IdempotencyKey m) (slotSessionOperationID (ssm_PoolID m) (sl_SlotID s) (ssm_IdempotencyKey m) (ssm_RequestedAt m) d) (yd_index d)"
    using ok by (auto simp: startSessionTx_def Let_def startedOperation_def)
  then show ?thesis by (intro write_new [OF inv fresh_session_id _ _ None]) (simp_all add: startedOperation_def Let_def)
qed

text \<open>The state and the start of the operation that an action writes.\<close>

lemma mutateActionTx_writes:
  assumes ok: "mutateActionTx now a target phase desired d = Inr (x, d')"
    and new: "kget (yd_index d) (slotSessionActionIndex (ssa_IdempotencyKey a)) = None"
  obtains y w s c where "kget (yd_ops d) (ssa_OperationID a) = Some (Json y)" "SlotSessionTransitionAllowed (sso_State y) target"
    "slotSessionTerminal (sso_State y) \<Longrightarrow> sso_State y = SlotSessionReady" "sameStart y w"
    "sso_State w = target \<or> sso_State w = SlotSessionFailed" "x = (w, False)"
    "getSessionSlot d (sso_SlotID y) = Inr s"
    "(if desired = ''stopped'' \<and> (target = SlotSessionStopping \<or> target = SlotSessionCancelling)
      then applyStoppedIntentTx (yd_db d) (s\<lparr>sl_SessionDesiredState := desired\<rparr>)
      else Inr (s\<lparr>sl_SessionDesiredState := desired\<rparr>)) = Inr c"
    "yd_ops d' = kput (sso_OperationID w) (Json w) (yd_ops d)"
    "yd_index d' = kput (slotSessionActionIndex (ssa_IdempotencyKey a)) (sso_OperationID w) (yd_index d)"
    "yd_db d' = putSlot (bindSlot (sso_OperationID w) (sso_Revision w) now c) (yd_db d)"
proof -
  note ok' = ok [unfolded mutateActionTx_def new option.case Let_def]
  obtain y where y: "getSessionOp d (ssa_OperationID a) = Inr y" "SlotSessionTransitionAllowed (sso_State y) target"
      "slotSessionTerminal (sso_State y) \<Longrightarrow> sso_State y = SlotSessionReady"
    by (rule bindE_InrE [OF ok'], elim if_InlE) blast
  obtain w s c where w: "sameStart y w" "sso_State w = target \<or> sso_State w = SlotSessionFailed"
     and s: "getSessionSlot d (sso_SlotID y) = Inr s"
       "(if desired = ''stopped'' \<and> (target = SlotSessionStopping \<or> target = SlotSessionCancelling)
        then applyStoppedIntentTx (yd_db d) (s\<lparr>sl_SessionDesiredState := desired\<rparr>)
        else Inr (s\<lparr>sl_SessionDesiredState := desired\<rparr>)) = Inr c"
     and r: "(x, d') = ((w, False), (putSessionOp (sso_OperationID w) w (putSessionSlot (bindSlot (sso_OperationID w) (sso_Revision w) now c) d))\<lparr>yd_index :=
        kput (slotSessionActionIndex (ssa_IdempotencyKey a)) (sso_OperationID w)
          (yd_index (putSessionOp (sso_OperationID w) w (putSessionSlot (bindSlot (sso_OperationID w) (sso_Revision w) now c) d)))\<rparr>)"
    using ok' unfolding y(1) bindE_simps
    apply -
    apply (elim if_InlE bindE_InrE)
    apply (drule Inr_inject)
    subgoal premises p for current0 current
      apply (rule p(1) [OF _ _ p(7,8) p(9) [symmetric]])
      apply (simp_all add: sameStart_def)
      done
    done
  show thesis using r by (intro that [OF getJSON_found [OF y(1)] y(2,3) w _ s]) simp_all
qed

lemma mutateActionTx_keeps:
  assumes ok: "mutateActionTx now a target phase desired d = Inr (x, d')" and inv: "session_inv d"
    and target: "target = SlotSessionStopping \<or> target = SlotSessionCancelling"
  shows "keeps d d'"
proof (cases "kget (yd_index d) (slotSessionActionIndex (ssa_IdempotencyKey a))")
  case (Some raw)
  then show ?thesis using ok inv by (auto simp: mutateActionTx_def)
next
  case None
  obtain y w where y: "kget (yd_ops d) (ssa_OperationID a) = Some (Json y)" "SlotSessionTransitionAllowed (sso_State y) target"
      "slotSessionTerminal (sso_State y) \<Longrightarrow> sso_State y = SlotSessionReady"
    and w: "sameStart y w" "sso_State w = target \<or> sso_State w = SlotSessionFailed"
      "yd_ops d' = kput (sso_OperationID w) (Json w) (yd_ops d)"
      "yd_index d' = kput (slotSessionActionIndex (ssa_IdempotencyKey a)) (sso_OperationID w) (yd_index d)"
    by (rule mutateActionTx_writes [OF ok None]) (rule that)
  have k: "sso_OperationID w = ssa_OperationID a" using session_invD(1) [OF inv y(1)] w(1) by (simp add: sameStart_def)
  have "stateMove (sso_State y) (sso_State w)"
    using y(3) w(2) target by (auto simp: stateMove_def ending_def frozen_def slotSessionTerminal_def)
  then show ?thesis using None w k by (intro write_old [OF inv y(1) _ w(3) [unfolded k]]) (auto simp: opMove_def)
qed

lemma retrySessionTx_new:
  assumes ok: "retrySessionTx now a d = Inr (x, d')"
    and new: "kget (yd_index d) (slotSessionActionIndex (ssa_IdempotencyKey a)) = None"
  obtains y s i where "kget (yd_ops d) (ssa_OperationID a) = Some (Json y)" "sso_State y = SlotSessionFailed \<or> sso_State y = SlotSessionCancelled"
    "getSessionSlot d (sso_SlotID y) = Inr s" "sl_Status s \<notin> {Leased, Draining, Quarantined, Retiring, Deleted}"
    "i = slotSessionOperationID (sso_PoolID y) (sso_SlotID y) (ssa_IdempotencyKey a) now d"
    "x = (retriedOperation now a i y, False)" "yd_ops d' = kput i (Json (retriedOperation now a i y)) (yd_ops d)"
    "yd_index d' = kput (slotSessionActionIndex (ssa_IdempotencyKey a)) i (yd_index d)"
    "yd_db d' = putSlot (bindSlot i (sso_Revision y + 1) now
        (s\<lparr>sl_Status := (if sl_Status s = Stopped then Provisioning else sl_Status s), sl_SessionDesiredState := ''running''\<rparr>)) (yd_db d)"
proof -
  note ok' = ok [unfolded retrySessionTx_def new option.case Let_def]
  show thesis
    using ok'
    apply -
    apply (elim if_InlE bindE_InrE)
    apply (drule Inr_inject)
    subgoal premises p for y s
    proof -
      note e = p(11) [symmetric, unfolded prod.inject]
      show thesis
        by (rule that [OF getJSON_found [OF p(2)] _ p(9,10) HOL.refl])
          (use p(3) in blast, simp_all only: e [THEN conjunct1] e [THEN conjunct2], simp_all del: if_split)
    qed
    done
qed

lemma retrySessionTx_keeps:
  assumes ok: "retrySessionTx now a d = Inr (x, d')" and inv: "session_inv d"
  shows "keeps d d'"
proof (cases "kget (yd_index d) (slotSessionActionIndex (ssa_IdempotencyKey a))")
  case (Some raw)
  then show ?thesis using ok inv by (auto simp: retrySessionTx_def)
next
  case None
  obtain y s i where w: "i = slotSessionOperationID (sso_PoolID y) (sso_SlotID y) (ssa_IdempotencyKey a) now d"
    "yd_ops d' = kput i (Json (retriedOperation now a i y)) (yd_ops d)"
    "yd_index d' = kput (slotSessionActionIndex (ssa_IdempotencyKey a)) i (yd_index d)"
    by (rule retrySessionTx_new [OF ok None]) (rule that)
  show ?thesis
    by (rule write_new [OF inv _ _ w(2) None w(3)]) (simp_all add: w(1) fresh_session_id retriedOperation_def)
qed

lemma claimSessionTx_writes:
  assumes ok: "claimSessionTx i w at ttl d = Inr (x, d')"
  obtains y where "kget (yd_ops d) i = Some (Json y)" "\<not> slotSessionTerminal (sso_State y)"
    "sameStart y x" "sso_State x = (if sso_State y = SlotSessionRequested \<or> sso_State y = SlotSessionRetrying
       then SlotSessionProvisioning else sso_State y)" "yd_ops d' = kput i (Json x) (yd_ops d)" "yd_index d' = yd_index d"
proof -
  note ok' = ok [unfolded claimSessionTx_def Let_def]
  obtain y where y: "getSessionOp d i = Inr y" by (rule bindE_InrE [OF ok'])
  show thesis
    using ok' unfolding y bindE_simps
    apply -
    apply (elim if_InlE)
    apply (drule Inr_inject)
    subgoal premises p
      using p(4) by (intro that [OF getJSON_found [OF y] p(1)]) (auto simp: sameStart_def)
    done
qed

lemma claimSessionTx_keeps:
  assumes ok: "claimSessionTx i w at ttl d = Inr (x, d')" and inv: "session_inv d"
  shows "keeps d d'"
proof -
  obtain y where y: "kget (yd_ops d) i = Some (Json y)" "sameStart y x" "sso_State x = (if sso_State y = SlotSessionRequested \<or> sso_State y = SlotSessionRetrying
       then SlotSessionProvisioning else sso_State y)" "yd_ops d' = kput i (Json x) (yd_ops d)" "yd_index d' = yd_index d"
    using claimSessionTx_writes [OF ok] by metis
  then have "opMove y x" by (auto simp: opMove_def stateMove_def ending_def frozen_def)
  then show ?thesis using y by (intro write_old [OF inv y(1) _ y(4)]) simp_all
qed

lemma allowed_move: "SlotSessionTransitionAllowed s s' \<Longrightarrow> stateMove s s'"
  by (cases s) (auto simp: SlotSessionTransitionAllowed_def stateMove_def ending_def frozen_def split: if_splits)

lemma completeSessionTx_writes:
  assumes ok: "completeSessionTx i w g st ph fl at d = Inr (x, d')"
  obtains y s c where "kget (yd_ops d) i = Some (Json y)" "SlotSessionTransitionAllowed (sso_State y) st"
    "sameStart y x" "sso_State x = st" "getSessionSlot d (sso_SlotID y) = Inr s"
    "c = s \<or> c = s\<lparr>sl_SessionDesiredState := ''running''\<rparr> \<or>
       applyStoppedIntentTx (yd_db d) (s\<lparr>sl_SessionDesiredState := ''stopped''\<rparr>) = Inr c"
    "yd_ops d' = kput i (Json x) (yd_ops d)" "yd_index d' = yd_index d"
    "yd_db d' = putSlot (bindSlot i (sso_Revision x) at c) (yd_db d)"
proof -
  note ok' = ok [unfolded completeSessionTx_def Let_def]
  obtain y where y: "getSessionOp d i = Inr y" by (rule bindE_InrE [OF ok'])
  show thesis
    using ok' unfolding y bindE_simps
    apply -
    apply (elim if_InlE)
    apply (split if_split_asm)
     apply (elim bindE_InrE)
     apply simp
    apply (elim if_InlE bindE_InrE)
    subgoal premises p for s b
    proof -
      obtain r c where b: "b = (r, c)" by (cases b)
      have "sameStart y r \<and> sso_State r = st \<and> (c = s \<or> c = s\<lparr>sl_SessionDesiredState := ''running''\<rparr> \<or>
       applyStoppedIntentTx (yd_db d) (s\<lparr>sl_SessionDesiredState := ''stopped''\<rparr>) = Inr c)"
        by (rule if_InrE [OF p(7)]; (elim if_InrE bindE_InrE)?; drule Inr_inject;
            simp only: b prod.inject; elim conjE; hypsubst; simp add: sameStart_def)
      then have r: "sameStart y r" "sso_State r = st" "c = s \<or> c = s\<lparr>sl_SessionDesiredState := ''running''\<rparr> \<or>
       applyStoppedIntentTx (yd_db d) (s\<lparr>sl_SessionDesiredState := ''stopped''\<rparr>) = Inr c" by blast+
      have "getSessionSlot d (sso_SlotID y) = Inr s" using p(6) by simp
      moreover have "x = r" "d' = putSessionOp i r (putSessionSlot (bindSlot i (sso_Revision r) at c) d)"
        using p(8) unfolding b by auto
      ultimately show thesis using p(5) r by (intro that [OF getJSON_found [OF y]]) simp_all
    qed
    done
qed

lemma completeSessionTx_keeps:
  assumes ok: "completeSessionTx i w g st ph fl at d = Inr (x, d')" and inv: "session_inv d"
  shows "keeps d d'"
proof -
  obtain y where y: "kget (yd_ops d) i = Some (Json y)" "SlotSessionTransitionAllowed (sso_State y) st"
    "sameStart y x" "sso_State x = st" "yd_ops d' = kput i (Json x) (yd_ops d)" "yd_index d' = yd_index d"
    by (rule completeSessionTx_writes [OF ok]) (rule that)
  then have "opMove y x" using allowed_move by (simp add: opMove_def)
  then show ?thesis using y by (intro write_old [OF inv y(1) _ y(5)]) simp_all
qed

lemma checkpointSessionTx_writes:
  assumes ok: "checkpointSessionTx c at d = Inr (x, d')"
  obtains y s where "kget (yd_ops d) (ssc_OperationID c) = Some (Json y)" "opMove y x" "getSessionSlot d (sso_SlotID y) = Inr s"
    "d' = putSessionOp (sso_OperationID x) x (putSessionSlot (s\<lparr>sl_HealthAt := at, sl_UpdatedAt := at\<rparr>) d)"
proof -
  note ok' = ok [unfolded checkpointSessionTx_def Let_def]
  obtain y where y: "getSessionOp d (ssc_OperationID c) = Inr y" by (rule bindE_InrE [OF ok'])
  show thesis
    using ok' unfolding y bindE_simps
    apply -
    apply (elim if_InlE bindE_InrE)
    apply (drule Inr_inject)
    apply (simp only: prod.inject)
    apply (elim conjE)
    subgoal premises p for s
    proof (rule that [OF getJSON_found [OF y] _ _ p(5) [symmetric, unfolded p(4)]])
      show "opMove y x" unfolding p(4) [symmetric] by (simp add: opMove_def sameStart_def stateMove_def)
      then show "getSessionSlot d (sso_SlotID y) = Inr s" using p(3) unfolding p(4) by (simp add: opMove_def sameStart_def)
    qed
    done
qed

lemma checkpointSessionTx_keeps:
  assumes ok: "checkpointSessionTx c at d = Inr (x, d')" and inv: "session_inv d"
  shows "keeps d d'"
proof -
  obtain y s where y: "kget (yd_ops d) (ssc_OperationID c) = Some (Json y)" "opMove y x"
    "d' = putSessionOp (sso_OperationID x) x (putSessionSlot (s\<lparr>sl_HealthAt := at, sl_UpdatedAt := at\<rparr>) d)"
    by (rule checkpointSessionTx_writes [OF ok]) (rule that)
  have "sso_OperationID x = ssc_OperationID c"
    using session_invD(1) [OF inv y(1)] y(2) by (simp add: opMove_def sameStart_def)
  then show ?thesis using y(3) by (intro write_old [OF inv y(1,2)]) simp_all
qed

lemma observeSlot_start: "sameStart y (observeSlot at s y)"
  by (cases "sl_Status s") (simp_all add: observeSlot_def sameStart_def Let_def)

lemma observeSlot_state:
  "sso_State (observeSlot at s y) =
    (if sso_DesiredState y = ''stopped'' \<or> sso_State y = SlotSessionStopping \<or> sso_State y = SlotSessionCancelling then
       if sl_Status s \<in> {Stopped, Unprovisioned, Retiring, Deleted} then
         if sso_State y = SlotSessionCancelling then SlotSessionCancelled else SlotSessionStopped
       else sso_State y
     else if sl_Status s = Ready then SlotSessionReady
     else if sl_Status s = Quarantined then SlotSessionFailed
     else if sso_State y \<noteq> SlotSessionRetrying then SlotSessionProvisioning else sso_State y)"
  by (cases "sl_Status s") (simp_all add: observeSlot_def Let_def)

lemma observeSlot_move: "\<not> slotSessionTerminal (sso_State y) \<Longrightarrow> opMove y (observeSlot at s y)"
  unfolding opMove_def observeSlot_state stateMove_def
  by (auto simp: observeSlot_start slotSessionTerminal_def ending_def frozen_def)

lemma sameStart_trans: "sameStart x y \<Longrightarrow> sameStart y z \<Longrightarrow> sameStart x z"
  by (simp add: sameStart_def)

lemma opMove_same_state: "opMove x y \<Longrightarrow> sameStart y z \<Longrightarrow> sso_State z = sso_State y \<Longrightarrow> opMove x z"
  by (simp add: opMove_def) (blast intro: sameStart_trans)

text \<open>The slot of an operation after its deadline: unchanged if it is gone, else stopped.\<close>

definition expired :: "gotime \<Rightarrow> SlotSessionOperation \<Rightarrow> ydb \<Rightarrow> ydb \<Rightarrow> bool" where
  "expired at y d e \<longleftrightarrow> e = d \<or>
     (\<exists>s c. getSessionSlot d (sso_SlotID y) = Inr s \<and>
        applyStoppedIntentTx (yd_db d) (s\<lparr>sl_SessionDesiredState := ''stopped''\<rparr>) = Inr c \<and>
        e = putSessionSlot (bindSlot (sso_OperationID y) (sso_Revision y) at c) d)"

lemma expired_ops: "expired at y d e \<Longrightarrow> yd_ops e = yd_ops d \<and> yd_index e = yd_index d"
  by (auto simp: expired_def)

text \<open>A reconciled operation is written once, under its own name, and nothing else of the operations is.\<close>

lemma expireOperation_writes:
  assumes ok: "expireOperation at k y d = Inr d'" and live: "\<not> slotSessionTerminal (sso_State y)"
  obtains x e where "opMove y x" "expired at y d e" "d' = putSessionOp k x e"
proof -
  note ok' = ok [unfolded expireOperation_def]
  obtain e where m: "(case getSessionSlot d (sso_SlotID y) of
              Inr current \<Rightarrow>
                bindE (applyStoppedIntentTx (yd_db d) (current\<lparr>sl_SessionDesiredState := ''stopped''\<rparr>)) (\<lambda>current'.
                Inr (putSessionSlot (bindSlot (sso_OperationID y) (sso_Revision y) at current') d))
            | Inl e \<Rightarrow> if e = SlotErr ErrSlotNotFound then Inr d else Inl e) = Inr e"
    and r: "Inr (putSessionOp k (y\<lparr>sso_State := SlotSessionFailed, sso_FailureCode := ''deadline_exceeded'',
            sso_CompletedAt := at, sso_ClaimOwner := [], sso_ClaimUntil := zeroTime, sso_UpdatedAt := at\<rparr>) e) = Inr d'"
    by (rule bindE_InrE [OF ok']) blast
  have e: "expired at y d e" using m by (auto simp: expired_def split: sum.splits if_splits)
  have "opMove y (y\<lparr>sso_State := SlotSessionFailed, sso_FailureCode := ''deadline_exceeded'',
            sso_CompletedAt := at, sso_ClaimOwner := [], sso_ClaimUntil := zeroTime, sso_UpdatedAt := at\<rparr>)"
    using live by (simp add: opMove_def sameStart_def stateMove_def ending_def frozen_def slotSessionTerminal_def)
  then show thesis using e Inr_inject [OF r, symmetric] by (rule that)
qed

lemma reconcileOperation_writes:
  assumes ok: "reconcileOperation at (k, Json y) d = Inr d'"
  shows "d' = d \<or> (\<exists>x e. opMove y x \<and> expired at y d e \<and> d' = putSessionOp k x e)"
proof (cases "slotSessionTerminal (sso_State y)")
  case True
  then show ?thesis using ok by (simp add: reconcileOperation_def)
next
  case False
  note ok' = ok [unfolded reconcileOperation_def snd_conv fst_conv decode_def json.case bindE_simps Let_def]
  define y1 where "y1 = (if sso_ClaimOwner y \<noteq> [] \<and> \<not> Before at (sso_ClaimUntil y)
             then y\<lparr>sso_ClaimOwner := [], sso_ClaimUntil := zeroTime\<rparr> else y)"
  define y2 where "y2 = (case getSessionSlot d (sso_SlotID y1) of
               Inl _ \<Rightarrow> y1\<lparr>sso_State := SlotSessionFailed, sso_FailureCode := ''slot_not_found''\<rparr>
             | Inr value \<Rightarrow> observeSlot at value y1)"
  have y1: "sameStart y y1" "sso_State y1 = sso_State y" by (simp_all add: y1_def sameStart_def)
  have "opMove y1 y2"
  proof (cases "getSessionSlot d (sso_SlotID y1)")
    case (Inl e)
    then show ?thesis unfolding y2_def using False y1(2)
      by (simp add: opMove_def sameStart_def stateMove_def ending_def frozen_def slotSessionTerminal_def)
  next
    case (Inr s)
    then show ?thesis unfolding y2_def using False y1(2) by (simp add: observeSlot_move)
  qed
  then have y2: "opMove y y2" using y1 by (simp add: opMove_def) (blast intro: sameStart_trans)
  have z: "opMove y (if slotSessionTerminal (sso_State (y2\<lparr>sso_UpdatedAt := at\<rparr>))
      then y2\<lparr>sso_UpdatedAt := at\<rparr>\<lparr>sso_CompletedAt := at\<rparr> else y2\<lparr>sso_UpdatedAt := at\<rparr>)"
    by (rule opMove_same_state [OF y2]) (simp_all add: sameStart_def)
  show ?thesis
  proof (cases "\<not> IsZero (sso_Deadline y) \<and> \<not> Before at (sso_Deadline y)")
    case deadline: True
    have "expireOperation at k y d = Inr d'" using ok' unfolding if_not_P [OF False] if_P [OF deadline] .
    from this False show ?thesis by (rule expireOperation_writes) (intro disjI2 exI conjI)
  next
    case deadline: False
    show ?thesis
      using ok' z unfolding if_not_P [OF False] if_not_P [OF deadline] y1_def [symmetric] y2_def [symmetric]
      by (intro disjI2) (auto simp: expired_def)
  qed
qed

lemma reconcileOperation_keeps:
  assumes ok: "reconcileOperation at (k, v) d = Inr d'" and inv: "session_inv d" and v: "kget (yd_ops d) k = Some v"
  shows "keeps d d'" "\<And>l. l \<noteq> k \<Longrightarrow> kget (yd_ops d') l = kget (yd_ops d) l"
proof -
  obtain y where y: "v = Json y" using v inv unfolding session_inv_def by blast
  note w = reconcileOperation_writes [OF ok [unfolded y]]
  show "keeps d d'" using w
  proof (elim disjE exE conjE)
    fix x e assume "opMove y x" "expired at y d e" "d' = putSessionOp k x e"
    with expired_ops [OF this(2)] show ?thesis by (intro write_old [OF inv v [unfolded y]]) simp_all
  qed (simp add: inv)
  show "kget (yd_ops d') l = kget (yd_ops d) l" if "l \<noteq> k" for l using w that expired_ops by auto
qed

lemma reconcileSessions_keeps:
  assumes "foldE (reconcileOperation at) es d = Inr d'" "session_inv d" "distinct (map fst es)"
    and "\<And>k v. (k, v) \<in> set es \<Longrightarrow> kget (yd_ops d) k = Some v"
  shows "keeps d d'"
  using assms
proof (induction es arbitrary: d)
  case (Cons e es)
  obtain k v where e: "e = (k, v)" by (cases e)
  obtain d1 where d1: "reconcileOperation at (k, v) d = Inr d1" "foldE (reconcileOperation at) es d1 = Inr d'"
    using Cons.prems(1) by (auto simp: e)
  note k = reconcileOperation_keeps [OF d1(1) Cons.prems(2) Cons.prems(4) [unfolded e, OF list.set_intros(1)]]
  have "keeps d1 d'"
  proof (rule Cons.IH [OF d1(2)])
    fix l u assume m: "(l, u) \<in> set es"
    then have "l \<noteq> k" using Cons.prems(3) by (force simp: e)
    then show "kget (yd_ops d1) l = Some u" using k(2) Cons.prems(4) m by simp
  qed (use k Cons.prems(3) e in auto)
  then show ?case using k(1) sessionsKept_trans by blast
qed simp

lemma reconcileSessionsTx_keeps:
  assumes "reconcileSessionsTx at d = Inr (x, d')" "session_inv d"
  shows "keeps d d'"
proof -
  have "foldE (reconcileOperation at) (kentries (yd_ops d)) d = Inr d'"
    using assms(1) by (auto simp: reconcileSessionsTx_def)
  then show ?thesis
    by (rule reconcileSessions_keeps [OF _ assms(2) kentries_distinct]) (simp add: kentries_iff)
qed

end
