(* ===== verification/SlotSessionSlots.thy ===== *)
theory SlotSessionSlots
  imports SlotSessionFacts SlotRuns
begin

text \<open>
  What the operations of slot sessions do to the slots: the names they write, the slots they choose
  and the writes they make. The calls are collected in a step relation whose time is the time the
  call acts at.
\<close>

section \<open>Names of operations\<close>

definition plainName :: "string \<Rightarrow> bool" where
  "plainName k \<longleftrightarrow> length k \<le> 256 \<and> \<not> ContainsAny k crlftab"

definition namedWell :: "ydb \<Rightarrow> bool" where
  "namedWell d \<longleftrightarrow> (\<forall>k. kget (yd_ops d) k \<noteq> None \<longrightarrow> plainName k)"

lemma decimal_length_bound: "0 < k \<Longrightarrow> n < 10 ^ k \<Longrightarrow> length (decimal n) \<le> k"
  using length_decimal [of n "k - 1"] by (cases k) simp_all

lemma unusedFrom_numbered: "\<exists>j. i \<le> j \<and> j \<le> i + fuel \<and> unusedFrom fuel bucket base i = numbered base j"
proof (induction fuel arbitrary: i)
  case (Suc fuel)
  obtain j where "Suc i \<le> j" "j \<le> Suc i + fuel" "unusedFrom fuel bucket base (Suc i) = numbered base j" using Suc by blast
  then show ?case by (auto simp: Let_def intro: exI [of _ i] exI [of _ j])
qed auto

lemma not_control: "hexChar c \<Longrightarrow> c \<notin> set crlftab" "isDigit c \<Longrightarrow> c \<notin> set crlftab"
  by (auto simp: hexChar_def isDigit_def Let_def)

lemma plainName_unused:
  assumes "plainName base" "length base \<le> 200" "klen bucket < 2 ^ 63"
  shows "plainName (unusedName bucket base)"
proof (cases "kget bucket base = None")
  case False
  obtain j where j: "j \<le> 1 + klen bucket" "unusedName bucket base = numbered base j"
    using False unusedFrom_numbered [of 1 "klen bucket" bucket base] by (auto simp: unusedName_def)
  have "length (decimal j) \<le> 20" using j(1) assms(3) by (intro decimal_length_bound) simp_all
  moreover have "\<not> ContainsAny (decimal j) crlftab"
    using decimal_digits not_control(2) by (fastforce simp: ContainsAny_def list_ex_iff)
  ultimately show ?thesis using assms(1,2) by (auto simp: j(2) plainName_def ContainsAny_def)
qed (simp add: unusedName_def assms(1))

lemma plainName_session_id:
  assumes "klen (yd_ops d) < 2 ^ 63" shows "plainName (slotSessionOperationID p s i t d)"
proof -
  have "\<not> ContainsAny (EncodeToString bs) crlftab" for bs
    using EncodeToString_hex [of bs] not_control(1) by (auto simp: ContainsAny_def list_ex_iff list_all_iff)
  then show ?thesis unfolding slotSessionOperationID_def
    by (intro plainName_unused assms) (simp_all add: plainName_def ContainsAny_def)
qed

section \<open>Writes of slots\<close>

text \<open>
  A write of a slot by these operations: the slot stays what it was except for its status, its
  session and its times, it stays in use or free, and a slot that was never provisioned gets no
  status that asks for it.
\<close>

definition slotWrite :: "gotime \<Rightarrow> sdb \<Rightarrow> slot \<Rightarrow> bool" where
  "slotWrite at e s' \<longleftrightarrow> (\<exists>s. kget (sd_slots e) (sl_SlotID s) = Some (Json s) \<and>
     s' = s\<lparr>sl_Status := sl_Status s', sl_SessionDesiredState := sl_SessionDesiredState s',
       sl_SessionOperationID := sl_SessionOperationID s', sl_SessionRevision := sl_SessionRevision s',
       sl_HealthAt := sl_HealthAt s', sl_UpdatedAt := at\<rparr> \<and>
     inUse s' = inUse s \<and> (sl_Status s' = sl_Status s \<or> sl_Status s' = Draining \<and> inUse s \<or> bareStatus (sl_Status s')) \<and>
     (sl_SessionDesiredState s' = sl_SessionDesiredState s \<or> sl_SessionDesiredState s' = ''running'' \<or>
        sl_SessionDesiredState s' = ''stopped'') \<and>
     (sl_SessionOperationID s' = sl_SessionOperationID s \<or> plainName (sl_SessionOperationID s')))"

lemma bareStatus_valid: "bareStatus st \<Longrightarrow> slot_status_Valid st"
  by (auto simp: bareStatus_def)

lemma slotWrite_ok:
  assumes inv: "slot_inv t e" and w: "slotWrite at e s'" and time: "t \<le> at" "0 < at"
  shows "slot_inv at (putSlot s' e)"
proof -
  obtain s where s: "kget (sd_slots e) (sl_SlotID s) = Some (Json s)"
    and s': "s' = s\<lparr>sl_Status := sl_Status s', sl_SessionDesiredState := sl_SessionDesiredState s',
       sl_SessionOperationID := sl_SessionOperationID s', sl_SessionRevision := sl_SessionRevision s',
       sl_HealthAt := sl_HealthAt s', sl_UpdatedAt := at\<rparr>"
    and use: "inUse s' = inUse s"
    and st: "sl_Status s' = sl_Status s \<or> sl_Status s' = Draining \<and> inUse s \<or> bareStatus (sl_Status s')"
    and ds: "sl_SessionDesiredState s' = sl_SessionDesiredState s \<or> sl_SessionDesiredState s' = ''running'' \<or>
        sl_SessionDesiredState s' = ''stopped''"
    and nm: "sl_SessionOperationID s' = sl_SessionOperationID s \<or> plainName (sl_SessionOperationID s')"
    using w unfolding slotWrite_def by blast
  have ok: "slotOk t e (sl_SlotID s) s" by (rule slot_inv_slot [OF inv s])
  have same: "sl_SlotID s' = sl_SlotID s" "sl_PoolID s' = sl_PoolID s" "sl_Ordinal s' = sl_Ordinal s"
    "sl_EnvironmentID s' = sl_EnvironmentID s" "sl_EnvironmentVersion s' = sl_EnvironmentVersion s"
    "sl_EnvironmentGeneration s' = sl_EnvironmentGeneration s" "sl_Capabilities s' = sl_Capabilities s"
    "sl_ManifestDigest s' = sl_ManifestDigest s" "sl_Signer s' = sl_Signer s" "sl_AgentHandle s' = sl_AgentHandle s"
    "sl_FailureCount s' = sl_FailureCount s" "sl_CreatedAt s' = sl_CreatedAt s" "sl_UpdatedAt s' = at"
    by (subst s', simp)+
  have body: "slotBody s" using ok by (simp add: slotOk_def Slot_Validate_iff)
  have "length (sl_SessionOperationID s') \<le> 256" using body nm unfolding slotBody_def plainName_def by metis
  moreover have "\<not> ContainsAny (sl_Signer s @ sl_AgentHandle s @ sl_SessionOperationID s') crlftab"
    using body nm unfolding slotBody_def plainName_def ContainsAny_def list_ex_append by metis
  moreover have "sl_SessionDesiredState s' = [] \<or> sl_SessionDesiredState s' = ''running'' \<or>
      sl_SessionDesiredState s' = ''stopped''"
    using body ds unfolding slotBody_def by metis
  ultimately have "slotBody s'" using body unfolding slotBody_def same by (elim conjE, intro conjI)
  moreover have "slot_status_Valid (sl_Status s')"
    using st ok bareStatus_valid by (auto simp: slotOk_def Slot_Validate_iff)
  moreover have "sl_EnvironmentGeneration s' = 0 \<longrightarrow> bareStatus (sl_Status s')"
    using st ok inUse_generation [OF ok] by (auto simp: slotOk_def Slot_Validate_iff same)
  ultimately have "Slot_Validate s' = Inr ()"
    using ok time by (auto simp: Slot_Validate_iff same slotOk_def)
  moreover have "leaseFits (kget (sd_slotLeases e) (sl_SlotID s)) s'"
    using ok use by (auto simp: slotOk_def leaseFits_def same split: option.splits)
  ultimately have new: "slotOk at (putSlot s' e) (sl_SlotID s) s'"
    using ok time by (auto simp: slotOk_def same)
  have "sd_slots (putSlot s' e) = kput (sl_SlotID s) (Json s') (sd_slots e)" by (simp add: putSlot_def same)
  then show ?thesis by (intro slot_inv_update [OF slot_inv_mono [OF inv time(1)] _ _ _ new]) simp_all
qed

text \<open>The writes of the transactions: nothing, or one slot.\<close>

definition slotMove :: "gotime \<Rightarrow> sdb \<Rightarrow> sdb \<Rightarrow> bool" where
  "slotMove at e e' \<longleftrightarrow> e' = e \<or> (\<exists>s. slotWrite at e s \<and> e' = putSlot s e)"

lemma slotMove_refl [simp]: "slotMove at e e"
  by (simp add: slotMove_def)

lemma slotMove_ok:
  assumes "slot_inv t e" "slotMove at e e'" "t \<le> at" "0 < at"
  shows "slot_inv at e' \<and> sd_core e' = sd_core e \<and> sd_slotLeases e' = sd_slotLeases e"
  using assms slotWrite_ok slot_inv_mono by (fastforce simp: slotMove_def putSlot_def)

text \<open>A stopped intent keeps a slot in use or free.\<close>

lemma applyStopped_ok:
  assumes inv: "slot_inv t e" and s: "kget (sd_slots e) (sl_SlotID s) = Some (Json s)"
    and ok: "applyStoppedIntentTx e (s\<lparr>sl_SessionDesiredState := x\<rparr>) = Inr c"
  obtains st where "c = s\<lparr>sl_SessionDesiredState := x, sl_Status := st\<rparr>" "(st = Leased \<or> st = Draining) = inUse s"
    "st = sl_Status s \<or> st = Draining \<and> inUse s \<or> bareStatus st" "st = Deleted \<or> st = Retiring \<or> st = Draining \<or> st = Stopped"
proof (cases "sl_Status s = Deleted \<or> sl_Status s = Retiring")
  case True
  then have "c = s\<lparr>sl_SessionDesiredState := x, sl_Status := sl_Status s\<rparr>"
    using ok by (auto simp: applyStoppedIntentTx_def)
  then show thesis by (rule that) (use True in \<open>auto simp: inUse_def\<close>)
next
  case False
  then obtain l where l: "slotLeaseForOperationTx e (sl_SlotID s) = Inr l"
    "c = s\<lparr>sl_SessionDesiredState := x, sl_Status := (if l \<noteq> None then Draining else Stopped)\<rparr>"
    using ok by (auto simp: applyStoppedIntentTx_def)
  have "(l \<noteq> None) = inUse s"
    using l(1) slot_inv_slot [OF inv s] by (auto simp: slotLeaseForOperationTx_def slotOk_def leaseFits_def split: option.splits)
  then show thesis using l(2) by (intro that [of "if l \<noteq> None then Draining else Stopped"]) (auto simp: bareStatus_def)
qed

lemma slotWriteI:
  assumes "kget (sd_slots e) (sl_SlotID s) = Some (Json s)"
    and "s' = s\<lparr>sl_SessionDesiredState := x, sl_Status := st, sl_SessionOperationID := i, sl_SessionRevision := r, sl_UpdatedAt := at\<rparr>"
    and "(st = Leased \<or> st = Draining) = inUse s" "st = sl_Status s \<or> st = Draining \<and> inUse s \<or> bareStatus st"
    and "x = sl_SessionDesiredState s \<or> x = ''running'' \<or> x = ''stopped''" "plainName i"
  shows "slotWrite at e s'"
  unfolding slotWrite_def by (rule exI [of _ s]) (use assms in \<open>simp add: inUse_def\<close>)

lemma getSlot_stored:
  assumes "slot_inv t e" "getJSON (sd_slots e) k err = Inr s"
  shows "kget (sd_slots e) (sl_SlotID s) = Some (Json s)" "sl_SlotID s = k"
  using slot_inv_slot [OF assms(1) getJSON_found [OF assms(2)]] getJSON_found [OF assms(2)] by (simp_all add: slotOk_def)

lemma stopWrite:
  assumes inv: "slot_inv t e" and s: "getJSON (sd_slots e) k err = Inr s"
    and ok: "applyStoppedIntentTx e (s\<lparr>sl_SessionDesiredState := ''stopped''\<rparr>) = Inr c" and i: "plainName i"
  shows "slotWrite at e (bindSlot i r at c)" "sl_SlotID c = k" "sl_SessionDesiredState c = ''stopped''"
    "sl_Status c \<in> {Deleted, Retiring, Draining, Stopped}"
proof -
  note st = getSlot_stored [OF inv s]
  obtain u where u: "c = s\<lparr>sl_SessionDesiredState := ''stopped'', sl_Status := u\<rparr>" "(u = Leased \<or> u = Draining) = inUse s"
    "u = sl_Status s \<or> u = Draining \<and> inUse s \<or> bareStatus u" "u = Deleted \<or> u = Retiring \<or> u = Draining \<or> u = Stopped"
    by (rule applyStopped_ok [OF inv st(1) ok])
  show "slotWrite at e (bindSlot i r at c)"
    by (rule slotWriteI [where x = "''stopped''", OF st(1) _ u(2,3) _ i]) (simp_all add: bindSlot_def u(1))
  show "sl_SlotID c = k" "sl_SessionDesiredState c = ''stopped''" "sl_Status c \<in> {Deleted, Retiring, Draining, Stopped}"
    using u(4) st(2) by (auto simp: u(1))
qed

section \<open>The transactions on the slots\<close>

definition tidy :: "gotime \<Rightarrow> ydb \<Rightarrow> bool" where
  "tidy t d \<longleftrightarrow> slot_inv t (yd_db d) \<and> session_inv d \<and> namedWell d \<and> klen (yd_ops d) < 2 ^ 63"

lemma tidyD:
  assumes "tidy t d" shows "slot_inv t (yd_db d)" "session_inv d" "kget (yd_ops d) k \<noteq> None \<Longrightarrow> plainName k"
    "plainName (slotSessionOperationID p s i r d)"
  using assms plainName_session_id unfolding tidy_def namedWell_def by blast+

definition movesTo :: "gotime \<Rightarrow> ydb \<Rightarrow> ydb \<Rightarrow> bool" where
  "movesTo at d d' \<longleftrightarrow> slotMove at (yd_db d) (yd_db d') \<and> namedWell d'"

lemma namedWell_put:
  "namedWell d \<Longrightarrow> yd_ops d' = kput k v (yd_ops d) \<Longrightarrow> plainName k \<Longrightarrow> namedWell d'"
  by (simp add: namedWell_def)

lemma movesToI:
  assumes "tidy t d" "yd_ops d' = kput k v (yd_ops d)" "plainName k"
    and "yd_db d' = yd_db d \<or> slotWrite at (yd_db d) c \<and> yd_db d' = putSlot c (yd_db d)"
  shows "movesTo at d d'"
  using assms namedWell_put [OF _ assms(2,3)] by (auto simp: movesTo_def tidy_def slotMove_def)

lemma movesTo_refl: "tidy t d \<Longrightarrow> movesTo at d d"
  by (simp add: movesTo_def tidy_def)

text \<open>The slot that a start takes.\<close>

lemma selectSessionSlot_stored:
  assumes inv: "slot_inv t (yd_db d)" and ok: "selectSessionSlot m d = Inr s"
  shows "kget (sd_slots (yd_db d)) (sl_SlotID s) = Some (Json s)"
    "ssm_PoolID m \<noteq> [] \<Longrightarrow> sl_PoolID s = ssm_PoolID m" "ssm_SlotID m \<noteq> [] \<Longrightarrow> sl_SlotID s = ssm_SlotID m"
proof -
  have "kget (sd_slots (yd_db d)) (sl_SlotID s) = Some (Json s) \<and> (ssm_PoolID m \<noteq> [] \<longrightarrow> sl_PoolID s = ssm_PoolID m) \<and>
     (ssm_SlotID m \<noteq> [] \<longrightarrow> sl_SlotID s = ssm_SlotID m)"
  proof (cases "ssm_SlotID m = []")
    case True
    obtain xs where xs: "slotsForPoolTx (yd_db d) (ssm_PoolID m) = Inr xs" "find startable xs = Some s"
      using ok True by (auto simp: selectSessionSlot_def split: option.splits if_splits)
    show ?thesis using slotsForPoolTx_slot(1,2) [OF inv xs(1)] find_SomeD [OF xs(2)] True by blast
  next
    case False
    then have "getSessionSlot d (ssm_SlotID m) = Inr s" "ssm_PoolID m \<noteq> [] \<longrightarrow> sl_PoolID s = ssm_PoolID m"
      using ok by (auto simp: selectSessionSlot_def split: if_splits)
    then show ?thesis using getSlot_stored [OF inv] by metis
  qed
  then show "kget (sd_slots (yd_db d)) (sl_SlotID s) = Some (Json s)"
    "ssm_PoolID m \<noteq> [] \<Longrightarrow> sl_PoolID s = ssm_PoolID m" "ssm_SlotID m \<noteq> [] \<Longrightarrow> sl_SlotID s = ssm_SlotID m"
    by blast+
qed

lemma startSessionTx_new:
  assumes ok: "startSessionTx m ex d = Inr (x, d')" and inv: "slot_inv t (yd_db d)"
    and new: "kget (yd_index d) (ssm_IdempotencyKey m) = None"
  obtains s s' i where "kget (sd_slots (yd_db d)) (sl_SlotID s) = Some (Json s)" "startable s"
    "ssm_PoolID m \<noteq> [] \<Longrightarrow> sl_PoolID s = ssm_PoolID m" "ssm_SlotID m \<noteq> [] \<Longrightarrow> sl_SlotID s = ssm_SlotID m"
    "s' = (if sl_Status s = Stopped then s\<lparr>sl_Status := Provisioning\<rparr> else s)"
    "i = slotSessionOperationID (ssm_PoolID m) (sl_SlotID s') (ssm_IdempotencyKey m) (ssm_RequestedAt m) d"
    "x = (startedOperation m ex i s', False)"
    "yd_ops d' = kput i (Json (startedOperation m ex i s')) (yd_ops d)"
    "yd_index d' = kput (ssm_IdempotencyKey m) i (yd_index d)"
    "yd_db d' = putSlot (s'\<lparr>sl_SessionDesiredState := ''running'', sl_SessionOperationID := i,
        sl_SessionRevision := sl_SessionRevision s' + 1, sl_UpdatedAt := ssm_RequestedAt m\<rparr>) (yd_db d)"
proof -
  note ok' = ok [unfolded startSessionTx_def new option.case]
  obtain s where s: "selectSessionSlot m d = Inr s" by (rule bindE_InrE [OF ok'])
  have started: "sso_OperationID (startedOperation m ex j u) = j"
    "sso_Revision (startedOperation m ex j u) = sl_SessionRevision u + 1" for j u
    by (simp_all add: startedOperation_def Let_def)
  show thesis
    using ok' unfolding s bindE_simps Let_def started
    apply -
    apply (elim if_InlE bindE_InrE)
    apply (drule Inr_inject)
    subgoal premises p for pool u
    proof -
      note e = p(6) [symmetric, unfolded prod.inject]
      show thesis
        by (rule that [OF selectSessionSlot_stored(1) [OF inv s] _ selectSessionSlot_stored(2,3) [OF inv s] HOL.refl HOL.refl])
          (use p(4) in blast, simp_all only: e [THEN conjunct1] e [THEN conjunct2], simp_all del: if_split)
    qed
    done
qed

lemma startSessionTx_moves:
  assumes ok: "startSessionTx m ex d = Inr (x, d')" and t: "tidy t d"
  shows "movesTo (ssm_RequestedAt m) d d'"
proof (cases "kget (yd_index d) (ssm_IdempotencyKey m)")
  case (Some raw)
  then show ?thesis using ok movesTo_refl [OF t] by (auto simp: startSessionTx_def)
next
  case None
  show ?thesis
  proof (rule startSessionTx_new [OF ok tidyD(1) [OF t] None])
    fix s s' i
    assume s: "kget (sd_slots (yd_db d)) (sl_SlotID s) = Some (Json s)" "startable s"
      and s': "s' = (if sl_Status s = Stopped then s\<lparr>sl_Status := Provisioning\<rparr> else s)"
      and i: "i = slotSessionOperationID (ssm_PoolID m) (sl_SlotID s') (ssm_IdempotencyKey m) (ssm_RequestedAt m) d"
      and d': "yd_ops d' = kput i (Json (startedOperation m ex i s')) (yd_ops d)"
       "yd_db d' = putSlot (s'\<lparr>sl_SessionDesiredState := ''running'', sl_SessionOperationID := i,
        sl_SessionRevision := sl_SessionRevision s' + 1, sl_UpdatedAt := ssm_RequestedAt m\<rparr>) (yd_db d)"
    have i': "plainName i" unfolding i by (rule tidyD(4) [OF t])
    have "slotWrite (ssm_RequestedAt m) (yd_db d) (s'\<lparr>sl_SessionDesiredState := ''running'', sl_SessionOperationID := i,
        sl_SessionRevision := sl_SessionRevision s' + 1, sl_UpdatedAt := ssm_RequestedAt m\<rparr>)"
      by (rule slotWriteI [where x = "''running''" and st = "sl_Status s'" and i = i, OF s(1)])
        (use s(2) i' in \<open>auto simp: s' startable_def inUse_def bareStatus_def\<close>)
    then show ?thesis using d' i' by (intro movesToI [OF t d'(1) i']) blast
  qed
qed

lemma mutateActionTx_moves:
  assumes ok: "mutateActionTx now a target phase ''stopped'' d = Inr (x, d')" and t: "tidy t d"
    and target: "target = SlotSessionStopping \<or> target = SlotSessionCancelling"
  shows "movesTo now d d'"
proof (cases "kget (yd_index d) (slotSessionActionIndex (ssa_IdempotencyKey a))")
  case (Some raw)
  then show ?thesis using ok movesTo_refl [OF t] by (auto simp: mutateActionTx_def)
next
  case None
  obtain y w s c where y: "kget (yd_ops d) (ssa_OperationID a) = Some (Json y)" and w: "sameStart y w"
    and s: "getSessionSlot d (sso_SlotID y) = Inr s"
    and if_c: "(if ''stopped'' = ''stopped'' \<and> (target = SlotSessionStopping \<or> target = SlotSessionCancelling)
      then applyStoppedIntentTx (yd_db d) (s\<lparr>sl_SessionDesiredState := ''stopped''\<rparr>)
      else Inr (s\<lparr>sl_SessionDesiredState := ''stopped''\<rparr>)) = Inr c"
    and d': "yd_ops d' = kput (sso_OperationID w) (Json w) (yd_ops d)"
      "yd_db d' = putSlot (bindSlot (sso_OperationID w) (sso_Revision w) now c) (yd_db d)"
    by (rule mutateActionTx_writes [OF ok None]) (rule that)
  have c: "applyStoppedIntentTx (yd_db d) (s\<lparr>sl_SessionDesiredState := ''stopped''\<rparr>) = Inr c" using if_c target by simp
  have i: "plainName (sso_OperationID w)"
    using session_invD(1) [OF tidyD(2) [OF t] y] y tidyD(3) [OF t] w by (simp add: sameStart_def)
  show ?thesis
    by (rule movesToI [OF t d'(1) i]) (use stopWrite(1) [OF tidyD(1) [OF t] s c i] d'(2) in blast)
qed

lemma retrySessionTx_moves:
  assumes ok: "retrySessionTx now a d = Inr (x, d')" and t: "tidy t d"
  shows "movesTo now d d'"
proof (cases "kget (yd_index d) (slotSessionActionIndex (ssa_IdempotencyKey a))")
  case (Some raw)
  then show ?thesis using ok movesTo_refl [OF t] by (auto simp: retrySessionTx_def)
next
  case None
  obtain y s i where s: "getSessionSlot d (sso_SlotID y) = Inr s" "sl_Status s \<notin> {Leased, Draining, Quarantined, Retiring, Deleted}"
    and i: "i = slotSessionOperationID (sso_PoolID y) (sso_SlotID y) (ssa_IdempotencyKey a) now d"
    and d': "yd_ops d' = kput i (Json (retriedOperation now a i y)) (yd_ops d)"
    "yd_db d' = putSlot (bindSlot i (sso_Revision y + 1) now
        (s\<lparr>sl_Status := (if sl_Status s = Stopped then Provisioning else sl_Status s), sl_SessionDesiredState := ''running''\<rparr>)) (yd_db d)"
    by (rule retrySessionTx_new [OF ok None]) (rule that)
  have i': "plainName i" unfolding i by (rule tidyD(4) [OF t])
  have "slotWrite now (yd_db d) (bindSlot i (sso_Revision y + 1) now
        (s\<lparr>sl_Status := (if sl_Status s = Stopped then Provisioning else sl_Status s), sl_SessionDesiredState := ''running''\<rparr>))"
    by (rule slotWriteI [where x = "''running''" and st = "if sl_Status s = Stopped then Provisioning else sl_Status s" and i = i,
        OF getSlot_stored(1) [OF tidyD(1) [OF t] s(1)]])
      (use s(2) i' in \<open>auto simp: bindSlot_def inUse_def bareStatus_def\<close>)
  then show ?thesis using d'(2) by (intro movesToI [OF t d'(1) i']) blast
qed

lemma claimSessionTx_moves:
  assumes ok: "claimSessionTx i w at ttl d = Inr (x, d')" and t: "tidy t d"
  shows "movesTo at d d'"
proof -
  obtain y where y: "getSessionOp d i = Inr y" "d' = putSessionOp i x d"
    using ok unfolding claimSessionTx_def Let_def by (elim bindE_InrE if_InlE) blast
  then have "plainName i" using getJSON_found tidyD(3) [OF t] by fastforce
  then show ?thesis using y(2) by (intro movesToI [OF t, of _ i "Json x"]) simp_all
qed

lemma completeSessionTx_moves:
  assumes ok: "completeSessionTx i w g st ph fl at d = Inr (x, d')" and t: "tidy t d"
  shows "movesTo at d d'"
proof -
  obtain y s c where y: "kget (yd_ops d) i = Some (Json y)" and s: "getSessionSlot d (sso_SlotID y) = Inr s"
    and c: "c = s \<or> c = s\<lparr>sl_SessionDesiredState := ''running''\<rparr> \<or>
       applyStoppedIntentTx (yd_db d) (s\<lparr>sl_SessionDesiredState := ''stopped''\<rparr>) = Inr c"
    and d': "yd_ops d' = kput i (Json x) (yd_ops d)" "yd_db d' = putSlot (bindSlot i (sso_Revision x) at c) (yd_db d)"
    by (rule completeSessionTx_writes [OF ok]) (rule that)
  have i: "plainName i" using y tidyD(3) [OF t] by simp
  note slot = slotWriteI [OF getSlot_stored(1) [OF tidyD(1) [OF t] s]]
  have "slotWrite at (yd_db d) (bindSlot i (sso_Revision x) at c)"
    using c
  proof (elim disjE)
    assume "c = s"
    then show ?thesis
      by (intro slot [where x = "sl_SessionDesiredState s" and st = "sl_Status s" and i = i]) (simp_all add: bindSlot_def inUse_def i)
  next
    assume "c = s\<lparr>sl_SessionDesiredState := ''running''\<rparr>"
    then show ?thesis
      by (intro slot [where x = "''running''" and st = "sl_Status s" and i = i]) (simp_all add: bindSlot_def inUse_def i)
  qed (rule stopWrite(1) [OF tidyD(1) [OF t] s _ i])
  then show ?thesis using d'(2) by (intro movesToI [OF t d'(1) i]) blast
qed

lemma checkpointSessionTx_moves:
  assumes ok: "checkpointSessionTx c at d = Inr (x, d')" and t: "tidy t d"
  shows "movesTo at d d'"
proof -
  obtain y s where y: "kget (yd_ops d) (ssc_OperationID c) = Some (Json y)" "opMove y x"
    and s: "getSessionSlot d (sso_SlotID y) = Inr s"
    and d': "d' = putSessionOp (sso_OperationID x) x (putSessionSlot (s\<lparr>sl_HealthAt := at, sl_UpdatedAt := at\<rparr>) d)"
    by (rule checkpointSessionTx_writes [OF ok]) (rule that)
  have i: "plainName (sso_OperationID x)"
    using session_invD(1) [OF tidyD(2) [OF t] y(1)] y tidyD(3) [OF t] by (simp add: opMove_def sameStart_def)
  have "slotWrite at (yd_db d) (s\<lparr>sl_HealthAt := at, sl_UpdatedAt := at\<rparr>)"
    unfolding slotWrite_def
    by (rule exI [of _ s]) (use getSlot_stored(1) [OF tidyD(1) [OF t] s] in \<open>simp add: inUse_def\<close>)
  then show ?thesis by (intro movesToI [OF t _ i]) (auto simp: d')
qed

text \<open>The reconciliation writes slots only through the deadline of their operations.\<close>

definition onlySlots :: "sdb \<Rightarrow> sdb \<Rightarrow> bool" where
  "onlySlots e e' \<longleftrightarrow> e' = e\<lparr>sd_slots := sd_slots e'\<rparr>"

lemma onlySlots_trans: "onlySlots e f \<Longrightarrow> onlySlots f g \<Longrightarrow> onlySlots e g"
  by (cases e; cases f; cases g) (simp add: onlySlots_def)

lemma slotMove_only: "slotMove at e e' \<Longrightarrow> onlySlots e e'"
  by (auto simp: slotMove_def onlySlots_def putSlot_def)

lemma reconcileOperation_moves:
  assumes ok: "reconcileOperation at (k, v) d = Inr d'" and inv: "slot_inv t (yd_db d)" "session_inv d" "namedWell d"
    and v: "kget (yd_ops d) k = Some v"
  shows "slotMove at (yd_db d) (yd_db d')" "namedWell d'"
proof -
  obtain y where y: "v = Json y" "sso_OperationID y = k" using v inv(2) unfolding session_inv_def by blast
  have k: "plainName k" using inv(3) v by (simp add: namedWell_def)
  consider "d' = d" | x e where "expired at y d e" "d' = putSessionOp k x e"
    using reconcileOperation_writes [OF ok [unfolded y(1)]] by blast
  then have "slotMove at (yd_db d) (yd_db d') \<and> namedWell d'"
  proof cases
    case (2 x e)
    have "namedWell d'" using expired_ops [OF 2(1)] by (intro namedWell_put [OF inv(3) _ k, of _ "Json x"]) (simp add: 2(2))
    moreover have "slotMove at (yd_db d) (yd_db e)"
      using 2(1) unfolding expired_def
    proof (elim disjE exE conjE)
      fix s c
      assume "getSessionSlot d (sso_SlotID y) = Inr s"
        "applyStoppedIntentTx (yd_db d) (s\<lparr>sl_SessionDesiredState := ''stopped''\<rparr>) = Inr c"
        and e: "e = putSessionSlot (bindSlot (sso_OperationID y) (sso_Revision y) at c) d"
      then have "slotWrite at (yd_db d) (bindSlot (sso_OperationID y) (sso_Revision y) at c)"
        unfolding y(2) by (intro stopWrite(1) [OF inv(1) _ _ k])
      then show ?thesis unfolding slotMove_def e session_sel by blast
    qed simp
    ultimately show ?thesis by (simp add: 2(2))
  qed (simp add: inv(3))
  then show "slotMove at (yd_db d) (yd_db d')" "namedWell d'" by blast+
qed

lemma reconcileSessions_moves:
  assumes "foldE (reconcileOperation at) es d = Inr d'" "slot_inv at (yd_db d)" "session_inv d" "namedWell d" "0 < at"
    and "distinct (map fst es)" "\<And>k v. (k, v) \<in> set es \<Longrightarrow> kget (yd_ops d) k = Some v"
  shows "slot_inv at (yd_db d') \<and> onlySlots (yd_db d) (yd_db d') \<and> namedWell d'"
  using assms
proof (induction es arbitrary: d)
  case (Cons e es)
  obtain k v where e: "e = (k, v)" by (cases e)
  obtain d1 where d1: "reconcileOperation at (k, v) d = Inr d1" "foldE (reconcileOperation at) es d1 = Inr d'"
    using Cons.prems(1) by (auto simp: e)
  have v: "kget (yd_ops d) k = Some v" using Cons.prems(7) e by simp
  note m = reconcileOperation_moves [OF d1(1) Cons.prems(2-4) v]
  note keep = reconcileOperation_keeps [OF d1(1) Cons.prems(3) v]
  have i: "slot_inv at (yd_db d1)" using slotMove_ok [OF Cons.prems(2) m(1)] Cons.prems(5) by simp
  have "slot_inv at (yd_db d') \<and> onlySlots (yd_db d1) (yd_db d') \<and> namedWell d'"
  proof (rule Cons.IH [OF d1(2) i _ m(2) Cons.prems(5)])
    fix l u assume l: "(l, u) \<in> set es"
    then have "l \<noteq> k" using Cons.prems(6) by (force simp: e)
    then show "kget (yd_ops d1) l = Some u" using keep(2) Cons.prems(7) l by simp
  qed (use keep(1) Cons.prems(6) e in auto)
  then show ?case using onlySlots_trans [OF slotMove_only [OF m(1)]] by blast
qed (simp add: onlySlots_def)

section \<open>Calls\<close>

text \<open>A call without a time acts at the time of the clock.\<close>

definition calledAt :: "gotime \<Rightarrow> gotime \<Rightarrow> gotime" where
  "calledAt clock t = (if IsZero t then clock else t)"

inductive sessionCall :: "gotime \<Rightarrow> ydb \<Rightarrow> ydb \<Rightarrow> bool" where
  start: "at = calledAt clock (ssm_RequestedAt m) \<Longrightarrow> StartSlotSession commit clock m d = (r, d') \<Longrightarrow> sessionCall at d d'"
| cancel: "at = calledAt clock (ssa_At a) \<Longrightarrow> CancelSlotSession commit clock a d = (r, d') \<Longrightarrow> sessionCall at d d'"
| stop: "at = calledAt clock (ssa_At a) \<Longrightarrow> StopSlotSession commit clock a d = (r, d') \<Longrightarrow> sessionCall at d d'"
| retry: "at = calledAt clock (ssa_At a) \<Longrightarrow> RetrySlotSession commit clock a d = (r, d') \<Longrightarrow> sessionCall at d d'"
| claim: "at = calledAt clock t \<Longrightarrow> ClaimSlotSessionOperation commit clock i w t ttl d = (q, d') \<Longrightarrow> sessionCall at d d'"
| complete: "CompleteSlotSessionOperation commit i w g st ph fl at d = (q, d') \<Longrightarrow> sessionCall at d d'"
| checkpoint: "at = ssc_ObservedAt c \<Longrightarrow> CheckpointSlotSessionOperation commit c d = (q, d') \<Longrightarrow> sessionCall at d d'"
| reconcile: "at = calledAt clock t \<Longrightarrow> ReconcileSlotSessionOperations commit clock t d = (u, d') \<Longrightarrow> sessionCall at d d'"

text \<open>Every call is one of the transactions, or writes nothing.\<close>

inductive sessionTx :: "gotime \<Rightarrow> ydb \<Rightarrow> ydb \<Rightarrow> bool" where
  none: "sessionTx at d d"
| start: "startSessionTx m ex d = Inr (x, d') \<Longrightarrow> ssm_RequestedAt m = at \<Longrightarrow> sessionTx at d d'"
| action: "mutateActionTx at a target PhaseStopping ''stopped'' d = Inr (x, d') \<Longrightarrow>
    target = SlotSessionStopping \<or> target = SlotSessionCancelling \<Longrightarrow> sessionTx at d d'"
| retry: "retrySessionTx at a d = Inr (x, d') \<Longrightarrow> sessionTx at d d'"
| claim: "claimSessionTx i w at ttl d = Inr (q, d') \<Longrightarrow> sessionTx at d d'"
| complete: "completeSessionTx i w g st ph fl at d = Inr (q, d') \<Longrightarrow> sessionTx at d d'"
| checkpoint: "checkpointSessionTx c at d = Inr (q, d') \<Longrightarrow> sessionTx at d d'"
| reconcile: "reconcileSessionsTx at d = Inr (u, d') \<Longrightarrow> sessionTx at d d'"

lemma update_tx: "update commit fn d = (r, d') \<Longrightarrow> (\<And>x. fn d = Inr (x, d') \<Longrightarrow> sessionTx at d d') \<Longrightarrow> sessionTx at d d'"
  using update_cases sessionTx.none by metis

lemma sessionCall_tx: "sessionCall at d d' \<Longrightarrow> sessionTx at d d'"
proof (induction rule: sessionCall.induct)
  case (start at clock m commit d r d')
  show ?case
  proof (cases "normalizeSessionMutation at m")
    case (Inl e)
    then show ?thesis using start sessionTx.none by (simp add: StartSlotSession_def calledAt_def Let_def)
  next
    case (Inr m')
    then have "ssm_RequestedAt m' = at"
      using start(1) by (auto simp: normalizeSessionMutation_def calledAt_def Let_def split: if_splits)
    moreover have "update commit (startSessionTx m' (\<not> IsZero (ssm_Deadline m))) d = (r, d')"
      using start Inr by (simp add: StartSlotSession_def calledAt_def Let_def)
    ultimately show ?thesis using sessionTx.start by (auto elim: update_tx)
  qed
next
  case (cancel at clock a commit d r d')
  then show ?case
    unfolding CancelSlotSession_def mutateSlotSessionAction_def slotSessionActionTime_def calledAt_def
    by (auto split: if_splits intro: sessionTx.none elim!: update_tx intro: sessionTx.action)
next
  case (stop at clock a commit d r d')
  then show ?case
    unfolding StopSlotSession_def mutateSlotSessionAction_def slotSessionActionTime_def calledAt_def
    by (auto split: if_splits intro: sessionTx.none elim!: update_tx intro: sessionTx.action)
next
  case (retry at clock a commit d r d')
  then show ?case
    unfolding RetrySlotSession_def slotSessionActionTime_def calledAt_def Let_def
    by (auto split: if_splits intro: sessionTx.none elim!: update_tx intro: sessionTx.retry)
next
  case (claim at clock t commit i w ttl d q d')
  then show ?case unfolding ClaimSlotSessionOperation_def calledAt_def
    by (auto split: if_splits intro: sessionTx.none elim!: update_tx intro: sessionTx.claim)
next
  case (complete commit i w g st ph fl at d q d')
  then show ?case unfolding CompleteSlotSessionOperation_def
    by (auto split: if_splits intro: sessionTx.none elim!: update_tx intro: sessionTx.complete)
next
  case (checkpoint at c commit d q d')
  then show ?case unfolding CheckpointSlotSessionOperation_def Let_def
    by (auto split: if_splits intro: sessionTx.none elim!: update_tx intro: sessionTx.checkpoint)
next
  case (reconcile at clock t commit d u d')
  then show ?case unfolding ReconcileSlotSessionOperations_def calledAt_def
    by (auto elim!: update_tx intro: sessionTx.reconcile)
qed

lemma sessionCall_keeps:
  assumes "sessionCall at d d'" "session_inv d" shows "keeps d d'"
  using sessionCall_tx [OF assms(1)]
proof cases
  case none then show ?thesis using assms(2) by simp
next
  case (start m ex x) show ?thesis by (rule startSessionTx_keeps [OF start(1) assms(2)])
next
  case (action a target x) show ?thesis by (rule mutateActionTx_keeps [OF action(1) assms(2) action(2)])
next
  case (retry a x) show ?thesis by (rule retrySessionTx_keeps [OF retry assms(2)])
next
  case (claim i w ttl q) show ?thesis by (rule claimSessionTx_keeps [OF claim assms(2)])
next
  case (complete i w g st ph fl q) show ?thesis by (rule completeSessionTx_keeps [OF complete assms(2)])
next
  case (checkpoint c q) show ?thesis by (rule checkpointSessionTx_keeps [OF checkpoint assms(2)])
next
  case (reconcile u) show ?thesis by (rule reconcileSessionsTx_keeps [OF reconcile assms(2)])
qed

lemma reconcileSessionsTx_moves:
  assumes ok: "reconcileSessionsTx at d = Inr (x, d')" and t: "tidy t d" "t \<le> at" "0 < at"
  shows "slot_inv at (yd_db d') \<and> onlySlots (yd_db d) (yd_db d') \<and> namedWell d'"
proof -
  have "foldE (reconcileOperation at) (kentries (yd_ops d)) d = Inr d'"
    using ok by (auto simp: reconcileSessionsTx_def)
  then show ?thesis
    using t slot_inv_mono [of t _ at] by (intro reconcileSessions_moves) (auto simp: tidy_def kentries_iff)
qed

lemma movesTo_ok:
  assumes "movesTo at d d'" "tidy t d" "t \<le> at" "0 < at"
  shows "slot_inv at (yd_db d') \<and> onlySlots (yd_db d) (yd_db d') \<and> namedWell d'"
  using assms slotMove_ok slotMove_only unfolding movesTo_def tidy_def by metis

lemma sessionCall_slots:
  assumes c: "sessionCall at d d'" and t: "tidy t d" "t \<le> at" "0 < at"
  shows "slot_inv at (yd_db d') \<and> onlySlots (yd_db d) (yd_db d') \<and> namedWell d'"
  using sessionCall_tx [OF c]
proof cases
  case none then show ?thesis using movesTo_ok [OF movesTo_refl [OF t(1)] t] by simp
next
  case (reconcile u) then show ?thesis using reconcileSessionsTx_moves t by blast
next
  case (start m ex x) show ?thesis by (rule movesTo_ok [OF startSessionTx_moves [OF start(1) t(1), unfolded start(2)] t])
next
  case (action a target x) show ?thesis by (rule movesTo_ok [OF mutateActionTx_moves [OF action(1) t(1) action(2)] t])
next
  case (retry a x) show ?thesis by (rule movesTo_ok [OF retrySessionTx_moves [OF retry t(1)] t])
next
  case (claim i w ttl q) show ?thesis by (rule movesTo_ok [OF claimSessionTx_moves [OF claim t(1)] t])
next
  case (complete i w g st ph fl q) show ?thesis by (rule movesTo_ok [OF completeSessionTx_moves [OF complete t(1)] t])
next
  case (checkpoint c q) show ?thesis by (rule movesTo_ok [OF checkpointSessionTx_moves [OF checkpoint t(1)] t])
qed

end
