(* ===== verification/SlotSessionProps.thy ===== *)
theory SlotSessionProps
  imports SlotSessionSlots SlotDemo
begin

text \<open>
  The properties of slot sessions: the tables stay consistent along every run of the slots and their
  sessions, a start takes effect once, and a session that was stopped does not come back.
\<close>

section \<open>Runs\<close>

definition emptyYDB :: ydb where
  "emptyYDB = \<lparr>yd_db = emptySDB, yd_ops = kempty, yd_index = kempty\<rparr>"

text \<open>
  Calls on sessions between the steps of the other operations on the store. The number of operations
  stays below \<open>2 ^ 63\<close>, as Go's lengths do: the search for an unused name counts them.
\<close>

inductive sessionRun :: "gotime \<Rightarrow> (string, SlotLease) kmap \<Rightarrow> ydb \<Rightarrow> bool" where
  init: "0 < now \<Longrightarrow> sessionRun now kempty emptyYDB"
| store: "sessionRun t f d \<Longrightarrow> t \<le> now \<Longrightarrow> slotStep now e \<lparr>ss_db = yd_db d, ss_fenced = f\<rparr> st \<Longrightarrow>
    sessionRun now (ss_fenced st) (d\<lparr>yd_db := ss_db st\<rparr>)"
| session: "sessionRun t f d \<Longrightarrow> t \<le> at \<Longrightarrow> sessionCall at d d' \<Longrightarrow> klen (yd_ops d') < 2 ^ 63 \<Longrightarrow> sessionRun at f d'"

text \<open>A session call at any time, or any change that leaves the session tables alone.\<close>

definition sessionStep :: "ydb \<Rightarrow> ydb \<Rightarrow> bool" where
  "sessionStep d d' \<longleftrightarrow> (\<exists>at. sessionCall at d d') \<or> yd_ops d' = yd_ops d \<and> yd_index d' = yd_index d"

lemma sessionRun_tidy:
  "sessionRun t f d \<Longrightarrow> 0 < t \<and> tidy t d \<and> store_inv (sd_core (yd_db d))"
proof (induction rule: sessionRun.induct)
  case (init now)
  have "slotRun now \<lparr>ss_db = emptySDB, ss_fenced = kempty\<rparr>" using init by (rule slotRun.start)
  then have "world_inv now emptySDB" using slotRun_inv by fastforce
  then show ?case
    using init by (simp add: emptyYDB_def tidy_def world_inv_def session_inv_def namedWell_def)
next
  case (store t f d now e st)
  have "world_inv now (yd_db d)" using store slot_inv_mono by (auto simp: world_inv_def tidy_def)
  then have "world_inv now (ss_db st)"
    using slotStep_ok [OF store.hyps(3)] store by (simp add: stepOk_def)
  then show ?case using store by (auto simp: world_inv_def tidy_def session_inv_def namedWell_def)
next
  case (session t f d at d')
  then have "0 < at" "tidy t d" by auto
  note w = sessionCall_slots [OF session.hyps(3) this(2) session.hyps(2) this(1)]
  have "session_inv d'" using sessionCall_keeps [OF session.hyps(3)] session.IH by (simp add: tidy_def)
  moreover have "sd_core (yd_db d') = sd_core (yd_db d)"
    using w by (cases "yd_db d"; cases "yd_db d'") (simp add: onlySlots_def)
  ultimately show ?case using w session \<open>0 < at\<close> by (simp add: tidy_def)
qed

lemma sessionSteps_keep:
  assumes "sessionStep\<^sup>*\<^sup>* d d'" "session_inv d" shows "keeps d d'"
  using assms
proof (induction rule: rtranclp_induct)
  case (step e f)
  have "keeps e f" using step.hyps(2) step.IH [OF step.prems] sessionCall_keeps
    unfolding sessionStep_def by (auto simp: session_inv_def sessionsKept_def)
  then show ?case using step.IH [OF step.prems] sessionsKept_trans by blast
qed simp

text \<open>
  C24. Consistency under sessions: along every run of the store and of the slot sessions, with a
  clock that does not run backwards, every operation is stored under its own name, every
  idempotency key leads to a stored operation, and starting, stopping, cancelling, retrying,
  completing and reconciling sessions keeps pools, slots and slot leases consistent: the slots stay
  valid, and a slot has a lease exactly when it is leased or draining.
\<close>

theorem session_tables_consistent:
  assumes "sessionRun now f d"
  shows "slot_inv now (yd_db d) \<and> store_inv (sd_core (yd_db d)) \<and>
    (\<forall>k v. kget (yd_ops d) k = Some v \<longrightarrow> (\<exists>x. GetSlotSessionOperation k d = Inr x \<and> sso_OperationID x = k)) \<and>
    (\<forall>i k. kget (yd_index d) i = Some k \<longrightarrow> (\<exists>x. GetSlotSessionOperation k d = Inr x))"
proof -
  have t: "tidy now d" "store_inv (sd_core (yd_db d))" using sessionRun_tidy [OF assms] by auto
  note inv = tidyD(2) [OF t(1)]
  have "\<exists>x. GetSlotSessionOperation k d = Inr x \<and> sso_OperationID x = k" if "kget (yd_ops d) k = Some v" for k v
    using that inv by (auto simp: session_inv_def GetSlotSessionOperation_def view_def getJSON_Inr)
  moreover have "\<exists>x. GetSlotSessionOperation k d = Inr x" if "kget (yd_index d) i = Some k" for i k
    using session_invD(2) [OF inv that] by (auto simp: GetSlotSessionOperation_def view_def getJSON_Inr)
  ultimately show ?thesis using t tidyD(1) by blast
qed

section \<open>A start takes effect once\<close>

lemma startConflict_same: "sameStart x y \<Longrightarrow> startConflict m ex y = startConflict m ex x"
  by (simp add: startConflict_def sameStart_def Let_def)

lemma startedOperation_fits:
  assumes "ssm_PoolID m \<noteq> [] \<Longrightarrow> sl_PoolID s = ssm_PoolID m" "ssm_SlotID m \<noteq> [] \<Longrightarrow> sl_SlotID s = ssm_SlotID m"
  shows "\<not> startConflict m ex (startedOperation m ex i s)"
  using assms by (auto simp: startConflict_def startedOperation_def Let_def normalizedSlotSessionAttempt_def)

text \<open>After a successful start its key leads to its operation, and the same request agrees with it.\<close>

lemma startSessionTx_indexed:
  assumes ok: "startSessionTx m ex d = Inr ((x, again), d')" and inv: "slot_inv t (yd_db d)"
  obtains k where "kget (yd_index d') (ssm_IdempotencyKey m) = Some k" "kget (yd_ops d') k = Some (Json x)"
    "\<not> startConflict m ex x"
proof (cases "kget (yd_index d) (ssm_IdempotencyKey m)")
  case (Some raw)
  then show thesis
    using ok that [of raw] by (auto simp: startSessionTx_def indexedOperation_def split: option.splits json.splits if_splits)
next
  case None
  show thesis
  proof (rule startSessionTx_new [OF ok inv None])
    fix s s' i
    assume sel: "ssm_PoolID m \<noteq> [] \<Longrightarrow> sl_PoolID s = ssm_PoolID m" "ssm_SlotID m \<noteq> [] \<Longrightarrow> sl_SlotID s = ssm_SlotID m"
      and s': "s' = (if sl_Status s = Stopped then s\<lparr>sl_Status := Provisioning\<rparr> else s)"
      and x: "(x, again) = (startedOperation m ex i s', False)"
      and d': "yd_ops d' = kput i (Json (startedOperation m ex i s')) (yd_ops d)"
        "yd_index d' = kput (ssm_IdempotencyKey m) i (yd_index d)"
    have "\<not> startConflict m ex (startedOperation m ex i s')" using sel by (intro startedOperation_fits) (simp_all add: s')
    then show thesis using x d' by (intro that [of i]) simp_all
  qed
qed

lemma startSessionTx_again:
  assumes "kget (yd_index d) (ssm_IdempotencyKey m) = Some k" "kget (yd_ops d) k = Some (Json y)" "\<not> startConflict m ex y"
  shows "startSessionTx m ex d = Inr ((y, True), d)"
  using assms by (simp add: startSessionTx_def indexedOperation_def)

lemma StartSlotSession_dated:
  assumes "\<not> IsZero (ssm_RequestedAt m)"
  shows "StartSlotSession commit clock m d =
    (case normalizeSessionMutation (ssm_RequestedAt m) m of
       Inl e \<Rightarrow> (Inl e, d)
     | Inr m' \<Rightarrow> update commit (startSessionTx m' (\<not> IsZero (ssm_Deadline m))) d)"
  by (simp only: StartSlotSession_def Let_def if_not_P [OF assms])

text \<open>
  C29. A start takes effect once: when a dated start of a session has succeeded on a store that runs
  have reached, then after any further calls on sessions and any other changes of the store the same
  start, sent again, is answered as a repetition with the same operation, in its state of then, and
  writes nothing.
\<close>

theorem StartSlotSession_once:
  assumes "sessionRun t f d" "\<not> IsZero (ssm_RequestedAt m)"
    and "StartSlotSession commit clock m d = (Inr (x, again), d1)" "sessionStep\<^sup>*\<^sup>* d1 d2" "commit' d2 = None"
  shows "\<exists>y. StartSlotSession commit' clock' m d2 = (Inr (y, True), d2) \<and> sameStart x y"
proof -
  note inv = tidyD(1,2) [OF sessionRun_tidy [OF assms(1), THEN conjunct2, THEN conjunct1]]
  let ?ex = "\<not> IsZero (ssm_Deadline m)"
  obtain m' where m': "normalizeSessionMutation (ssm_RequestedAt m) m = Inr m'"
    and s: "startSessionTx m' ?ex d = Inr ((x, again), d1)"
    using assms(3) by (auto simp: StartSlotSession_dated [OF assms(2)] update_Inr split: sum.splits)
  obtain k where k: "kget (yd_index d1) (ssm_IdempotencyKey m') = Some k" "kget (yd_ops d1) k = Some (Json x)"
    "\<not> startConflict m' ?ex x"
    by (rule startSessionTx_indexed [OF s inv(1)]) (rule that)
  have "session_inv d1" using startSessionTx_keeps [OF s inv(2)] by blast
  note kept = sessionSteps_keep [OF assms(4) this, THEN conjunct2, unfolded sessionsKept_def]
  obtain y where y: "kget (yd_ops d2) k = Some (Json y)" "opMove x y" using kept k(2) by blast
  have "sameStart x y" using y(2) by (simp add: opMove_def)
  moreover have "startSessionTx m' ?ex d2 = Inr ((y, True), d2)"
    using kept k(1,3) y(1) startConflict_same [OF calculation] by (intro startSessionTx_again) blast+
  ultimately show ?thesis
    using assms(5) by (intro exI [of _ y]) (simp add: StartSlotSession_dated [OF assms(2)] m' update_def)
qed

section \<open>A stopped session does not come back\<close>

lemma stopped_writes:
  assumes run: "sessionRun t f d"
    and ok: "StopSlotSession commit clock a d = (Inr (x, False), d1) \<or> CancelSlotSession commit clock a d = (Inr (x, False), d1)"
  shows "kget (yd_ops d1) (ssa_OperationID a) = Some (Json x)" "sso_State x \<in> ending"
    "\<exists>s. GetSlot (sso_SlotID x) (yd_db d1) = Inr s \<and> sl_SessionOperationID s = ssa_OperationID a \<and>
       sl_SessionDesiredState s = ''stopped'' \<and> sl_Status s \<in> {Deleted, Retiring, Draining, Stopped}" "session_inv d1"
proof -
  note t = sessionRun_tidy [OF run, THEN conjunct2, THEN conjunct1]
  obtain target where target: "target = SlotSessionStopping \<or> target = SlotSessionCancelling"
    and m: "mutateActionTx (slotSessionActionTime clock a) a target PhaseStopping ''stopped'' d = Inr ((x, False), d1)"
    using ok by (auto simp: StopSlotSession_def CancelSlotSession_def mutateSlotSessionAction_def update_Inr split: if_splits)
  have new: "kget (yd_index d) (slotSessionActionIndex (ssa_IdempotencyKey a)) = None"
    using m by (cases "kget (yd_index d) (slotSessionActionIndex (ssa_IdempotencyKey a))")
      (auto simp: mutateActionTx_def split: if_splits)
  obtain y w s c where y: "kget (yd_ops d) (ssa_OperationID a) = Some (Json y)" and w: "sameStart y w" "(x, False) = (w, False)"
      "sso_State w = target \<or> sso_State w = SlotSessionFailed"
    and s: "getSessionSlot d (sso_SlotID y) = Inr s"
    and if_c: "(if ''stopped'' = ''stopped'' \<and> (target = SlotSessionStopping \<or> target = SlotSessionCancelling)
      then applyStoppedIntentTx (yd_db d) (s\<lparr>sl_SessionDesiredState := ''stopped''\<rparr>)
      else Inr (s\<lparr>sl_SessionDesiredState := ''stopped''\<rparr>)) = Inr c"
    and d': "yd_ops d1 = kput (sso_OperationID w) (Json w) (yd_ops d)"
      "yd_db d1 = putSlot (bindSlot (sso_OperationID w) (sso_Revision w) (slotSessionActionTime clock a) c) (yd_db d)"
    by (rule mutateActionTx_writes [OF m new]) (rule that)
  have c: "applyStoppedIntentTx (yd_db d) (s\<lparr>sl_SessionDesiredState := ''stopped''\<rparr>) = Inr c" using if_c target by simp
  have i: "sso_OperationID w = ssa_OperationID a" "sso_SlotID w = sso_SlotID y"
    using session_invD(1) [OF tidyD(2) [OF t] y] w(1) by (simp_all add: sameStart_def)
  show "kget (yd_ops d1) (ssa_OperationID a) = Some (Json x)" using d'(1) w(2) i(1) by simp
  show "sso_State x \<in> ending" using w(2,3) target by (auto simp: ending_def)
  note st = stopWrite(2-4) [OF tidyD(1) [OF t] s c tidyD(3) [OF t, of "ssa_OperationID a"]]
  show "\<exists>s. GetSlot (sso_SlotID x) (yd_db d1) = Inr s \<and> sl_SessionOperationID s = ssa_OperationID a \<and>
       sl_SessionDesiredState s = ''stopped'' \<and> sl_Status s \<in> {Deleted, Retiring, Draining, Stopped}"
    using st y w(2) i by (simp add: GetSlot_iff d'(2) putSlot_def bindSlot_def)
  show "session_inv d1" using mutateActionTx_keeps [OF m tidyD(2) [OF t] target] by blast
qed

text \<open>
  C23. A stopped session does not come back: when a stop or a cancellation has been accepted as new,
  the slot wants its session stopped, names the operation and is stopped, retiring or gone, or
  drains while it is leased; and after any further calls on sessions and any other changes of the
  store the operation is still the same one and is stopping, cancelling, stopped, cancelled or
  failed, and once it is one of the last three its state is final.
\<close>

theorem stopped_sessions_stay_down:
  assumes "sessionRun t f d"
    and "StopSlotSession commit clock a d = (Inr (x, False), d1) \<or> CancelSlotSession commit clock a d = (Inr (x, False), d1)"
    and "sessionStep\<^sup>*\<^sup>* d1 d2" "sessionStep\<^sup>*\<^sup>* d2 d3"
  shows "(\<exists>s. GetSlot (sso_SlotID x) (yd_db d1) = Inr s \<and> sl_SessionOperationID s = ssa_OperationID a \<and>
       sl_SessionDesiredState s = ''stopped'' \<and> sl_Status s \<in> {Deleted, Retiring, Draining, Stopped}) \<and>
    (\<exists>y z. GetSlotSessionOperation (ssa_OperationID a) d2 = Inr y \<and> GetSlotSessionOperation (ssa_OperationID a) d3 = Inr z \<and>
       sameStart x y \<and> sameStart x z \<and>
       sso_State y \<in> {SlotSessionStopping, SlotSessionCancelling, SlotSessionStopped, SlotSessionCancelled, SlotSessionFailed} \<and>
       (sso_State y \<in> {SlotSessionStopped, SlotSessionCancelled, SlotSessionFailed} \<longrightarrow> sso_State z = sso_State y))"
proof -
  note w = stopped_writes [OF assms(1,2)]
  have d2: "keeps d1 d2" by (rule sessionSteps_keep [OF assms(3) w(4)])
  obtain y where y: "kget (yd_ops d2) (ssa_OperationID a) = Some (Json y)" "opMove x y"
    using d2 w(1) unfolding sessionsKept_def by blast
  obtain z where z: "kget (yd_ops d3) (ssa_OperationID a) = Some (Json z)" "opMove y z"
    using sessionSteps_keep [OF assms(4)] d2 y(1) unfolding sessionsKept_def by blast
  have same: "sameStart x y" "sameStart x z" using y(2) z(2) sameStart_trans by (auto simp: opMove_def)
  have move: "stateMove (sso_State x) (sso_State y)" "stateMove (sso_State y) (sso_State z)"
    using y(2) z(2) by (simp_all add: opMove_def)
  have get: "GetSlotSessionOperation (ssa_OperationID a) d2 = Inr y" "GetSlotSessionOperation (ssa_OperationID a) d3 = Inr z"
    using y(1) z(1) by (simp_all add: GetSlotSessionOperation_def view_def getJSON_Inr)
  have "sso_State y \<in> ending" "sso_State y \<in> frozen \<longrightarrow> sso_State z = sso_State y"
    using move w(2) by (auto simp: stateMove_def)
  then show ?thesis using w(3) same get unfolding ending_def frozen_def by blast
qed

section \<open>A concrete run\<close>

definition okY :: ycommit where
  "okY = (\<lambda>_. None)"

definition demoY :: ydb where
  "demoY = emptyYDB\<lparr>yd_db := demoS2\<rparr>"

definition demoSessionStart :: SlotSessionMutation where
  "demoSessionStart = \<lparr>ssm_PoolID = [], ssm_SlotID = ''pool-1-001'', ssm_ExpectedRevision = 0, ssm_IdempotencyKey = ''k-1'',
     ssm_Actor = ''user'', ssm_RequestedAt = 8, ssm_Attempt = 0, ssm_Deadline = 0, ssm_RetryBudget = 2\<rparr>"

definition demoOperation :: SlotSessionOperation where
  "demoOperation = startedOperation (demoSessionStart\<lparr>ssm_Deadline := Add 8 DefaultSlotSessionDeadline\<rparr>) False
     (slotSessionOperationID [] ''pool-1-001'' ''k-1'' 8 demoY) demoSlot"

definition demoSessionStop :: SlotSessionAction where
  "demoSessionStop = \<lparr>ssa_OperationID = sso_OperationID demoOperation, ssa_Actor = ''user'', ssa_IdempotencyKey = ''k-2'',
     ssa_ExpectedRevision = 0, ssa_Generation = 0, ssa_Attempt = 0, ssa_Deadline = 0, ssa_At = 9\<rparr>"

lemma slotRun_session: "slotRun t st \<Longrightarrow> sessionRun t (ss_fenced st) (emptyYDB\<lparr>yd_db := ss_db st\<rparr>)"
proof (induction rule: slotRun.induct)
  case (start now)
  then show ?case using sessionRun.init by (fastforce simp: emptyYDB_def)
next
  case (step t st now e st')
  show ?case using sessionRun.store [OF step.IH step.hyps(2), of e st'] step.hyps(3) by (cases st) simp
qed

lemma demoY_run: "sessionRun 6 kempty demoY"
  using slotRun_session [OF demo_run_slots(2)] by (simp add: demoStore_def demoY_def)

lemma demo_session_normal: "normalizeSessionMutation 8 demoSessionStart = Inr (demoSessionStart\<lparr>ssm_Deadline := Add 8 DefaultSlotSessionDeadline\<rparr>)"
  by (simp add: normalizeSessionMutation_def demoSessionStart_def go_simps ContainsAny_def Let_def)

definition demoBusy :: slot where
  "demoBusy = demoSlot\<lparr>sl_SessionDesiredState := ''running'', sl_SessionOperationID := sso_OperationID demoOperation,
     sl_SessionRevision := 1, sl_UpdatedAt := 8\<rparr>"

definition demoY1 :: ydb where
  "demoY1 = \<lparr>yd_db = putSlot demoBusy demoS2, yd_ops = kput (sso_OperationID demoOperation) (Json demoOperation) kempty,
     yd_index = kput ''k-1'' (sso_OperationID demoOperation) kempty\<rparr>"

lemma demo_session_start_tx:
  "startSessionTx (demoSessionStart\<lparr>ssm_Deadline := Add 8 DefaultSlotSessionDeadline\<rparr>) False demoY = Inr ((demoOperation, False), demoY1)"
proof -
  have pool: "pc_DesiredSlots demoPool \<noteq> 0" "pc_DesiredState demoPool = ''enabled''" "pc_ConfigRevision demoPool = 0"
    by (simp_all add: demoPool_def)
  have slot: "sl_SessionOperationID demoSlot = []" "sl_SessionRevision demoSlot = 0"
    by (simp_all add: demoSlot_def newSlot_def)
  have operation: "sso_Revision (startedOperation m ex i s) = sl_SessionRevision s + 1" "sso_OperationID (startedOperation m ex i s) = i" for m ex i s
    by (simp_all add: startedOperation_def Let_def)
  have "startSessionTx (demoSessionStart\<lparr>ssm_Deadline := Add 8 DefaultSlotSessionDeadline\<rparr>) False demoY =
    Inr ((demoOperation, False), (putSessionOp (sso_OperationID demoOperation) demoOperation (putSessionSlot demoBusy demoY))\<lparr>yd_index :=
      kput ''k-1'' (sso_OperationID demoOperation) kempty\<rparr>)"
    unfolding demoBusy_def demoOperation_def
    by (simp add: startSessionTx_def demoY_def emptyYDB_def selectSessionSlot_def demoSessionStart_def getJSON_def demoS_sel demo_ids_slot
      startable_def freeForStart_def Let_def pool slot operation)
  then show ?thesis by (simp add: demoY1_def demoY_def emptyYDB_def putSessionOp_def putSessionSlot_def)
qed

lemma demo_session_start: "StartSlotSession okY 8 demoSessionStart demoY = (Inr (demoOperation, False), demoY1)"
proof -
  have "ssm_RequestedAt demoSessionStart = 8" "IsZero (ssm_Deadline demoSessionStart)" by (simp_all add: demoSessionStart_def)
  then show ?thesis
    using StartSlotSession_dated [of demoSessionStart okY 8 demoY] demo_session_normal demo_session_start_tx by (simp add: update_Inr okY_def)
qed

lemma demoY1_run: "sessionRun 8 kempty demoY1"
proof -
  have "sessionCall 8 demoY demoY1"
    by (rule sessionCall.start [OF _ demo_session_start]) (simp add: calledAt_def demoSessionStart_def)
  then show ?thesis by (rule sessionRun.session [OF demoY_run, rotated]) (simp_all add: demoY1_def klen_def)
qed

theorem session_tables_consistent_witness:
  "sessionRun 8 kempty demoY1 \<and> slot_inv 8 (yd_db demoY1) \<and> store_inv (sd_core (yd_db demoY1)) \<and>
   (\<exists>x. GetSlotSessionOperation (sso_OperationID demoOperation) demoY1 = Inr x)"
proof -
  have "kget (yd_index demoY1) ''k-1'' = Some (sso_OperationID demoOperation)" by (simp add: demoY1_def)
  then show ?thesis using session_tables_consistent [OF demoY1_run] demoY1_run by blast
qed

text \<open>The start again, after the controller has claimed the operation.\<close>

definition demoY2 :: ydb where
  "demoY2 = snd (ClaimSlotSessionOperation okY 9 (sso_OperationID demoOperation) ''controller'' 9 second demoY1)"

lemma demoY2_steps: "sessionStep\<^sup>*\<^sup>* demoY1 demoY2"
proof -
  have "sessionCall 9 demoY1 demoY2"
    unfolding demoY2_def
    by (rule sessionCall.claim [where t = 9 and clock = 9, OF _ surjective_pairing]) (simp add: calledAt_def)
  then show ?thesis unfolding sessionStep_def by blast
qed

theorem StartSlotSession_once_witness:
  "StartSlotSession okY 8 demoSessionStart demoY = (Inr (demoOperation, False), demoY1) \<and>
   (\<exists>y. StartSlotSession okY 20 demoSessionStart demoY2 = (Inr (y, True), demoY2) \<and> sameStart demoOperation y)"
proof -
  have "\<not> IsZero (ssm_RequestedAt demoSessionStart)" "okY demoY2 = None" by (simp_all add: demoSessionStart_def okY_def)
  then show ?thesis using StartSlotSession_once [OF demoY_run _ demo_session_start demoY2_steps, of okY 20] demo_session_start by blast
qed

lemma demo_operation_id: "sso_OperationID demoOperation = ''slotop_'' @ EncodeToString (take 8 (Sum256
    (''|pool-1-001|k-1|'' @ RFC3339Nano 8)))"
  by (simp add: demoOperation_def startedOperation_def Let_def slotSessionOperationID_def unusedName_def demoY_def emptyYDB_def)

lemma demo_session_stop: "\<exists>x d. StopSlotSession okY 9 demoSessionStop demoY1 = (Inr (x, False), d)"
proof -
  have "\<not> ContainsAny (sso_OperationID demoOperation) (crlftab @ '' '')"
    using EncodeToString_hex unfolding demo_operation_id ContainsAny_def list_ex_append
    by (fastforce simp: list_all_iff list_ex_iff hexChar_def)
  moreover have "TrimSpace (sso_OperationID demoOperation) \<noteq> []"
    unfolding demo_operation_id append.simps by (rule TrimSpace_nonblank) (simp add: plainChar_def)
  moreover have "\<exists>x d. mutateActionTx 9 demoSessionStop SlotSessionStopping PhaseStopping ''stopped'' demoY1 = Inr ((x, False), d)"
  proof -
    have operation: "sso_State demoOperation = SlotSessionRequested" "sso_SlotID demoOperation = ''pool-1-001''"
      by (simp_all add: demoOperation_def startedOperation_def Let_def demo_ids_slot)
    have slot: "sl_SlotID demoBusy = ''pool-1-001''" "sl_Status demoBusy = Unprovisioned"
      by (simp_all add: demoBusy_def demo_ids_slot)
    have "sd_slotLeases demoS2 = kempty" by (simp add: demoS2_def demoS1_def emptySDB_def putSlot_def putPool_def)
    then have stopped: "\<exists>c. applyStoppedIntentTx (yd_db demoY1) (demoBusy\<lparr>sl_SessionDesiredState := ''stopped''\<rparr>) = Inr c"
      by (simp add: applyStoppedIntentTx_def slotLeaseForOperationTx_def demoY1_def slot putSlot_def)
    have stored: "getSessionOp demoY1 (sso_OperationID demoOperation) = Inr demoOperation"
      "getSessionSlot demoY1 ''pool-1-001'' = Inr demoBusy"
      "kget (yd_index demoY1) (slotSessionActionIndex ''k-2'') = None"
      by (simp_all add: getJSON_def demoY1_def slot putSlot_def slotSessionActionIndex_def)
    have act: "ssa_OperationID demoSessionStop = sso_OperationID demoOperation" "ssa_IdempotencyKey demoSessionStop = ''k-2''"
      "ssa_ExpectedRevision demoSessionStop = 0" "ssa_Attempt demoSessionStop = 0" "ssa_Generation demoSessionStop = 0"
      by (simp_all add: demoSessionStop_def)
    show ?thesis
      using stopped unfolding mutateActionTx_def act stored option.case
      by (elim exE) (simp add: operation stored slotSessionTerminal_def SlotSessionTransitionAllowed_def Let_def)
  qed
  moreover have "ssa_OperationID demoSessionStop = sso_OperationID demoOperation" "ssa_Actor demoSessionStop = ''user''"
    "ssa_IdempotencyKey demoSessionStop = ''k-2''" "ssa_Attempt demoSessionStop = 0" "ssa_At demoSessionStop = 9"
    by (simp_all add: demoSessionStop_def)
  ultimately show ?thesis
    by (auto simp: StopSlotSession_def mutateSlotSessionAction_def go_simps ContainsAny_def slotSessionActionTime_def update_def okY_def)
qed

theorem stopped_sessions_stay_down_witness:
  "\<exists>x d1. StopSlotSession okY 9 demoSessionStop demoY1 = (Inr (x, False), d1) \<and>
    (\<exists>y. GetSlotSessionOperation (sso_OperationID demoOperation)
        (snd (ReconcileSlotSessionOperations okY 20 20 d1)) = Inr y \<and>
      sso_State y \<in> {SlotSessionStopping, SlotSessionCancelling, SlotSessionStopped, SlotSessionCancelled, SlotSessionFailed})"
proof -
  obtain x d1 where stop: "StopSlotSession okY 9 demoSessionStop demoY1 = (Inr (x, False), d1)" using demo_session_stop by blast
  let ?d2 = "snd (ReconcileSlotSessionOperations okY 20 20 d1)"
  have "sessionCall 20 d1 ?d2"
    by (rule sessionCall.reconcile [where t = 20 and clock = 20, OF _ surjective_pairing]) (simp add: calledAt_def)
  then have "sessionStep\<^sup>*\<^sup>* d1 ?d2" unfolding sessionStep_def by blast
  from stopped_sessions_stay_down [OF demoY1_run disjI1 [OF stop] this rtranclp.rtrancl_refl] stop
  show ?thesis by (auto simp: demoSessionStop_def)
qed

end
