(* ===== verification/SlotSessionFindings.thy ===== *)
theory SlotSessionFindings
  imports SlotSessionProps
begin

text \<open>
  Behaviours of slot sessions that differ from what the code or its documents say: a completion past
  the deadline persists nothing, a start can take the key of a later stop, and a stop takes a slot
  out of quarantine.
\<close>

text \<open>
  A completion after the deadline writes a failure into the transaction and then returns an error
  from it, which rolls the transaction back: the failure is never stored.
\<close>

lemma late_completion_stores_nothing:
  assumes "kget (yd_ops d) i = Some (Json y)" "sso_Deadline y \<noteq> 0" "sso_Deadline y \<le> at"
  shows "\<exists>e. CompleteSlotSessionOperation commit i w g st ph fl at d = (Inl e, d)"
proof -
  have "\<exists>e. completeSessionTx i w g st ph fl at d = Inl e"
    using assms
    by (simp add: completeSessionTx_def getJSON_def bindE_def Let_def split: sum.split)
  then show ?thesis by (auto simp: CompleteSlotSessionOperation_def update_def)
qed

text \<open>
  Start keys and action keys share one index, and the keys of actions only have a prefix: a start
  under the key \<open>action:k\<close> makes a plain stop under the key \<open>k\<close> a repetition that is answered as
  done while the session goes on.
\<close>

lemma start_key_masks_stop:
  assumes start: "startSessionTx m ex d = Inr ((x, False), d')" and inv: "slot_inv t (yd_db d)"
    and new: "kget (yd_index d) (ssm_IdempotencyKey m) = None" and key: "ssm_IdempotencyKey m = slotSessionActionIndex k"
    and a: "ssa_OperationID a = sso_OperationID x" "ssa_IdempotencyKey a = k" "ssa_ExpectedRevision a = 0"
      "ssa_Generation a = 0" "ssa_Attempt a = 0" "ssa_Deadline a = zeroTime"
  shows "mutateActionTx now a SlotSessionStopping PhaseStopping ''stopped'' d' = Inr ((x, True), d')"
    "sso_DesiredState x = ''running''"
proof -
  obtain s' i where x: "x = startedOperation m ex i s'"
    and d': "yd_ops d' = kput i (Json x) (yd_ops d)" "yd_index d' = kput (ssm_IdempotencyKey m) i (yd_index d)"
    by (rule startSessionTx_new [OF start inv new]) auto
  have op: "sso_OperationID x = i" "sso_ActionActor x = []" "sso_ActionKind x = []" "sso_ActionExpectedRevision x = 0"
    "sso_ActionGeneration x = 0" "sso_ActionAttempt x = 0" "sso_ActionDeadline x = zeroTime" "sso_DesiredState x = ''running''"
    by (simp_all add: x startedOperation_def Let_def)
  then show "sso_DesiredState x = ''running''" by simp
  have "\<not> actionConflict (sessionStateText SlotSessionStopping) a x" using op a by (simp add: actionConflict_def)
  then show "mutateActionTx now a SlotSessionStopping PhaseStopping ''stopped'' d' = Inr ((x, True), d')"
    using d' op(1) a(1,2) key by (simp add: mutateActionTx_def indexedOperation_def)
qed

text \<open>A stop moves a quarantined slot to stopped, from where a start provisions it again.\<close>

lemma stop_ends_quarantine:
  assumes "slot_inv t e" "kget (sd_slots e) (sl_SlotID s) = Some (Json s)" "sl_Status s = Quarantined"
  shows "applyStoppedIntentTx e s = Inr (s\<lparr>sl_Status := Stopped\<rparr>)" "startable (s\<lparr>sl_Status := Stopped\<rparr>)"
proof -
  have "kget (sd_slotLeases e) (sl_SlotID s) = None"
    using slot_inv_slot [OF assms(1,2)] assms(3) by (auto simp: slotOk_def leaseFits_def inUse_def split: option.splits)
  then show "applyStoppedIntentTx e s = Inr (s\<lparr>sl_Status := Stopped\<rparr>)"
    using assms(3) by (simp add: applyStoppedIntentTx_def slotLeaseForOperationTx_def)
  show "startable (s\<lparr>sl_Status := Stopped\<rparr>)" by (simp add: startable_def)
qed

end
