(* ===== verification/Queue.thy ===== *)
theory Queue
  imports SlotOps AccountRetry Observability
begin

text \<open>
  The scheduler, internal/queue/queue.go: one pass recovers expired leases, expires queued requests
  past their deadline, claims one request (with a slot if a pool is configured), runs it and stores
  its result. The store is the slot and account store of the other theories, which has all the
  optional interfaces; the branches for smaller stores are left out. The runner, the revoker, the
  stopper, the sink, the clock and the names are functions on a world of their own.
\<close>

section \<open>Data and interfaces\<close>

text \<open>The lease-bound unit of work, and the fact that a runner reports.\<close>

record Work =
  wk_Request :: Request
  wk_Lease :: Lease
  wk_Slot :: slot
  wk_SlotLease :: SlotLease
  wk_SlotID :: string
  wk_EnvironmentGeneration :: uint64
  wk_AgentHandle :: string

record RunResult =
  rr_Succeeded :: bool
  rr_Failure :: FailureClass

record RuntimeConfig =
  rt_SlotPoolID :: string
  rt_SlotRequirement :: EnvironmentRequirement
  rt_MaxGlobalConcurrency :: int

record Outcome =
  oc_Idle :: bool
  oc_Request :: Request
  oc_Retried :: bool
  oc_Succeeded :: bool

type_synonym 'w qstate = "SlotStore \<times> 'w"
type_synonym ('w, 'a) qaction = "'w qstate \<Rightarrow> 'a result \<times> 'w qstate"

text \<open>A call on another component: it may act on the store as well, as another goroutine may meanwhile.\<close>

type_synonym 'w qcall = "'w qstate \<Rightarrow> error option \<times> 'w qstate"

record 'w QueueRevoker =
  qr_RevokeRequest :: "string \<Rightarrow> 'w qcall"
  qr_RevokeSlotLease :: "string \<Rightarrow> 'w qcall"
  qr_RevokeAccountLease :: "(string \<Rightarrow> 'w qcall) option"

text \<open>
  A runner returns its result, its error, and the error of the context it ran in, which has the
  timeout of the run.
\<close>

type_synonym 'w Runner = "Work \<Rightarrow> 'w qstate \<Rightarrow> (RunResult \<times> error option \<times> error option) \<times> 'w qstate"

record 'w QueueConfig =
  qc_commit :: "'w \<Rightarrow> scommit"
  qc_runner :: "'w Runner"
  qc_Owner :: string
  qc_LeaseTTL :: duration
  qc_RunTimeout :: duration
  qc_MaxGlobalConcurrency :: int
  qc_RetryPolicy :: RetryPolicy
  qc_Clock :: "'w \<Rightarrow> gotime \<times> 'w"
  qc_NewID :: "string \<Rightarrow> 'w \<Rightarrow> string \<times> 'w"
  qc_Sink :: "obs_Event \<Rightarrow> 'w \<Rightarrow> 'w"
  qc_SlotPoolID :: string
  qc_SlotRequirement :: EnvironmentRequirement
  qc_RuntimeConfig :: "('w qstate \<Rightarrow> RuntimeConfig result \<times> 'w qstate) option"
  qc_Capabilities :: "'w QueueRevoker option"
  qc_SlotLeaseStopper :: "(SlotLease \<Rightarrow> 'w qcall) option"

record 'w Scheduler =
  qs_config :: "'w QueueConfig"
  qs_stopping :: bool

abbreviation queueErr :: "queue_error \<Rightarrow> 'a result" where
  "queueErr e \<equiv> Inl (QueueErr e)"

text \<open>The zero values.\<close>

definition zeroRequest :: Request where
  "zeroRequest = \<lparr>rq_RequestID = [], rq_AccountID = [], rq_IdempotencyKey = [], rq_NotificationRoomID = [],
     rq_State = OtherStatus [], rq_CreatedAt = zeroTime, rq_UpdatedAt = zeroTime, rq_Attempt = 0,
     rq_NotBefore = zeroTime, rq_Deadline = zeroTime, rq_LastFailure = NoFailure\<rparr>"

definition zeroOutcome :: Outcome where
  "zeroOutcome = \<lparr>oc_Idle = False, oc_Request = zeroRequest, oc_Retried = False, oc_Succeeded = False\<rparr>"

definition zeroSlotLease :: SlotLease where
  "zeroSlotLease = \<lparr>sk_LeaseID = [], sk_SlotID = [], sk_PoolID = [], sk_RequestID = [], sk_AccountID = [],
     sk_Owner = [], sk_EnvironmentGeneration = 0, sk_AcquiredAt = zeroTime, sk_LastHeartbeat = zeroTime,
     sk_ExpiresAt = zeroTime\<rparr>"

definition zeroSlot :: slot where
  "zeroSlot = \<lparr>sl_SlotID = [], sl_Ordinal = 0, sl_PoolID = [], sl_EnvironmentID = [], sl_EnvironmentVersion = [],
     sl_EnvironmentGeneration = 0, sl_Capabilities = [], sl_ManifestDigest = [], sl_Signer = [], sl_Trusted = False,
     sl_RequireTrusted = False, sl_AgentHandle = [], sl_SessionDesiredState = [], sl_SessionOperationID = [],
     sl_SessionRevision = 0, sl_Status = OtherSlotStatus [], sl_HealthAt = zeroTime, sl_FailureCount = 0,
     sl_CreatedAt = zeroTime, sl_UpdatedAt = zeroTime\<rparr>"

section \<open>Actions\<close>

definition retQ :: "'a \<Rightarrow> ('w, 'a) qaction" where
  "retQ x s = (Inr x, s)"

definition failQ :: "error \<Rightarrow> ('w, 'a) qaction" where
  "failQ e s = (Inl e, s)"

definition bindQ :: "('w, 'a) qaction \<Rightarrow> ('a \<Rightarrow> ('w, 'b) qaction) \<Rightarrow> ('w, 'b) qaction" where
  "bindQ m f s = (case m s of (Inl e, s') \<Rightarrow> (Inl e, s') | (Inr x, s') \<Rightarrow> f x s')"

text \<open>The outcome of an action as a value: \<open>if err := ...; err != nil\<close> with more to do.\<close>

definition tryQ :: "('w, 'a) qaction \<Rightarrow> ('a result \<Rightarrow> ('w, 'b) qaction) \<Rightarrow> ('w, 'b) qaction" where
  "tryQ m f s = (let (r, s') = m s in f r s')"

text \<open>A loop over a slice that stops at the first error.\<close>

fun loopQ :: "('a \<Rightarrow> ('w, unit) qaction) \<Rightarrow> 'a list \<Rightarrow> ('w, unit) qaction" where
  "loopQ f [] = retQ ()"
| "loopQ f (x # xs) = bindQ (f x) (\<lambda>_. loopQ f xs)"

text \<open>\<open>if err != nil && !errors.Is(err, ...) { return err }\<close>.\<close>

definition tolerate :: "(error \<Rightarrow> bool) \<Rightarrow> ('w, 'a) qaction \<Rightarrow> ('w, unit) qaction" where
  "tolerate harmless m = tryQ m (\<lambda>r. case r of Inl e \<Rightarrow> if harmless e then retQ () else failQ e | Inr _ \<Rightarrow> retQ ())"

definition callQ :: "'w qcall \<Rightarrow> ('w, unit) qaction" where
  "callQ f s = (let (err, s') = f s in (case err of Some e \<Rightarrow> Inl e | None \<Rightarrow> Inr (), s'))"

text \<open>Reads and transactions of the store.\<close>

definition readQ :: "(sdb \<Rightarrow> 'a result) \<Rightarrow> ('w, 'a) qaction" where
  "readQ f s = (f (ss_db (fst s)), s)"

definition slotsQ :: "'w QueueConfig \<Rightarrow> (scommit \<Rightarrow> sdb \<Rightarrow> 'a result \<times> sdb) \<Rightarrow> ('w, 'a) qaction" where
  "slotsQ c f s = (let (r, d) = f (qc_commit c (snd s)) (ss_db (fst s)) in (r, (fst s)\<lparr>ss_db := d\<rparr>, snd s))"

definition coreQ :: "'w QueueConfig \<Rightarrow> (commit \<Rightarrow> db \<Rightarrow> 'a result \<times> db) \<Rightarrow> ('w, 'a) qaction" where
  "coreQ c f = slotsQ c (\<lambda>commit d.
     let (r, core) = f (\<lambda>core. commit (d\<lparr>sd_core := core\<rparr>)) (sd_core d) in (r, d\<lparr>sd_core := core\<rparr>))"

definition fencesQ :: "'w QueueConfig \<Rightarrow> (scommit \<Rightarrow> SlotStore \<Rightarrow> 'a result \<times> SlotStore) \<Rightarrow> ('w, 'a) qaction" where
  "fencesQ c f s = (let (r, st) = f (qc_commit c (snd s)) (fst s) in (r, st, snd s))"

abbreviation getRequest :: "string \<Rightarrow> ('w, Request) qaction" where
  "getRequest requestID \<equiv> readQ (\<lambda>d. GetRequest requestID (sd_core d))"

abbreviation getAccount :: "string \<Rightarrow> ('w, Snapshot) qaction" where
  "getAccount accountID \<equiv> readQ (\<lambda>d. GetAccount accountID (sd_core d))"

definition newID :: "'w QueueConfig \<Rightarrow> string \<Rightarrow> ('w, string) qaction" where
  "newID c kind s = (let (i, w) = qc_NewID c kind (snd s) in (Inr i, fst s, w))"

definition clock :: "'w QueueConfig \<Rightarrow> ('w, gotime) qaction" where
  "clock c s = (let (t, w) = qc_Clock c (snd s) in (Inr t, fst s, w))"

definition sink :: "'w QueueConfig \<Rightarrow> obs_Event \<Rightarrow> ('w, unit) qaction" where
  "sink c event s = (Inr (), fst s, qc_Sink c event (snd s))"

definition queueRecord ::
  "'w QueueConfig \<Rightarrow> gotime \<Rightarrow> string \<Rightarrow> string \<Rightarrow> string \<Rightarrow> string \<Rightarrow> duration \<Rightarrow> ('w, unit) qaction" where
  "queueRecord c at operation outcome requestID errorClass duration =
     sink c \<lparr>oe_At = at, oe_Component = ''queue'', oe_Operation = operation, oe_Outcome = outcome,
       oe_RequestID = RedactIdentifier requestID, oe_Resource = [], oe_ErrorClass = errorClass, oe_Duration = duration\<rparr>"

definition slotRecord :: "'w QueueConfig \<Rightarrow> gotime \<Rightarrow> string \<Rightarrow> string \<Rightarrow> string \<Rightarrow> string \<Rightarrow> string \<Rightarrow> ('w, unit) qaction" where
  "slotRecord c at operation outcome requestID slotID errorClass =
     sink c \<lparr>oe_At = at, oe_Component = ''slot'', oe_Operation = operation, oe_Outcome = outcome,
       oe_RequestID = RedactIdentifier requestID, oe_Resource = RedactIdentifier slotID, oe_ErrorClass = errorClass,
       oe_Duration = 0\<rparr>"

section \<open>Revocation\<close>

definition revokeRequest :: "'w QueueConfig \<Rightarrow> string \<Rightarrow> ('w, unit) qaction" where
  "revokeRequest c requestID =
     (case qc_Capabilities c of
        None \<Rightarrow> retQ ()
      | Some revoker \<Rightarrow> if requestID = [] then retQ () else callQ (qr_RevokeRequest revoker requestID))"

definition revokeSlotLease :: "'w QueueConfig \<Rightarrow> string \<Rightarrow> ('w, unit) qaction" where
  "revokeSlotLease c leaseID =
     (case qc_Capabilities c of
        None \<Rightarrow> retQ ()
      | Some revoker \<Rightarrow> if leaseID = [] then retQ () else callQ (qr_RevokeSlotLease revoker leaseID))"

definition revokeAccountLease :: "'w QueueConfig \<Rightarrow> string \<Rightarrow> ('w, unit) qaction" where
  "revokeAccountLease c leaseID =
     (case qc_Capabilities c of
        None \<Rightarrow> retQ ()
      | Some revoker \<Rightarrow>
          if leaseID = [] then retQ ()
          else (case qr_RevokeAccountLease revoker of None \<Rightarrow> retQ () | Some revoke \<Rightarrow> callQ (revoke leaseID)))"

section \<open>Construction and shutdown\<close>

definition newScheduler :: "'w QueueConfig \<Rightarrow> 'w Scheduler result" where
  "newScheduler c =
     (if TrimSpace (qc_Owner c) = [] \<or> qc_LeaseTTL c \<le> 0 \<or> qc_RunTimeout c \<le> 0 \<or> qc_MaxGlobalConcurrency c < 1
      then queueErr ErrInvalidConfig_queue
      else bindE (Decide (qc_RetryPolicy c) \<lparr>fl_Class = TransientFailure, fl_Attempt = 1\<rparr>) (\<lambda>_.
        Inr \<lparr>qs_config = c, qs_stopping = False\<rparr>))"

text \<open>The shutdown waits for the pass that runs and then closes the admission.\<close>

definition Scheduler_Shutdown :: "error option \<Rightarrow> 'w Scheduler \<Rightarrow> error option \<times> 'w Scheduler" where
  "Scheduler_Shutdown ctxErr q =
     (case ctxErr of Some e \<Rightarrow> (Some e, q) | None \<Rightarrow> (None, q\<lparr>qs_stopping := True\<rparr>))"

section \<open>Results of a run\<close>

definition validFailure :: "FailureClass \<Rightarrow> bool" where
  "validFailure class \<longleftrightarrow> class = TransientFailure \<or> class = CredentialFailure \<or> class = PermissionFailure
     \<or> class = ConfigurationFailure \<or> class = UnknownFailure"

fun failureText :: "FailureClass \<Rightarrow> string" where
  "failureText NoFailure = []"
| "failureText TransientFailure = ''transient''"
| "failureText CredentialFailure = ''credential''"
| "failureText PermissionFailure = ''permission''"
| "failureText ConfigurationFailure = ''configuration''"
| "failureText UnknownFailure = ''unknown''"
| "failureText (OtherFailure s) = s"

definition failureReason :: "FailureClass \<Rightarrow> string" where
  "failureReason class = (if \<not> validFailure class then ''unknown failure'' else ''session failure: '' @ failureText class)"

text \<open>An event of the scheduler on a request.\<close>

definition queueEvent ::
  "'w QueueConfig \<Rightarrow> string \<Rightarrow> string \<Rightarrow> string \<Rightarrow> Status \<Rightarrow> uint64 \<Rightarrow> Status \<Rightarrow> string \<Rightarrow> gotime \<Rightarrow> Event" where
  "queueEvent c eventID accountID requestID from revision to reason at =
     \<lparr>ev_EventID = eventID, ev_AccountID = accountID, ev_RequestID = requestID, ev_From = from,
      ev_ExpectedRevision = revision, ev_To = to, ev_Reason = reason, ev_Actor = qc_Owner c, ev_OccurredAt = at\<rparr>"

text \<open>An outcome is returned together with an error when only the last read fails.\<close>

definition finishSuccess ::
  "'w QueueConfig \<Rightarrow> gotime \<Rightarrow> Request \<Rightarrow> Lease \<Rightarrow> Outcome \<Rightarrow> ('w, Outcome \<times> error option) qaction" where
  "finishSuccess c now request lease outcome =
     bindQ (getAccount (rq_AccountID request)) (\<lambda>state.
     bindQ (newID c ''success'') (\<lambda>eventID.
     bindQ (coreQ c (\<lambda>commit. CompleteRequestOwned commit (queueEvent c eventID (rq_AccountID request) (rq_RequestID request)
       LoggingIn (sn_Revision state) LoginSucceeded ''session runner succeeded'' now) lease)) (\<lambda>_.
     tryQ (getRequest (rq_RequestID request)) (\<lambda>r. retQ (case r of
         Inr current \<Rightarrow> (outcome\<lparr>oc_Succeeded := True, oc_Request := current\<rparr>, None)
       | Inl e \<Rightarrow> (outcome\<lparr>oc_Succeeded := True, oc_Request := zeroRequest\<rparr>, Some e))))))"

definition finishFailure ::
  "'w QueueConfig \<Rightarrow> gotime \<Rightarrow> Request \<Rightarrow> Lease \<Rightarrow> bool \<Rightarrow> FailureClass \<Rightarrow> ('w, Outcome) qaction" where
  "finishFailure c now request lease allowExpired class =
     bindQ (getAccount (rq_AccountID request)) (\<lambda>state.
     bindQ (\<lambda>s. (Decide (qc_RetryPolicy c) \<lparr>fl_Class = class, fl_Attempt = rq_Attempt request\<rparr>, s)) (\<lambda>decision.
     bindQ (newID c ''failure'') (\<lambda>failureID.
     bindQ (if rd_Retry decision
            then bindQ (newID c ''retry'') (\<lambda>retryID. retQ (Some (queueEvent c retryID (rq_AccountID request)
              (rq_RequestID request) LoginFailed (sn_Revision state + 1) Queued ''transient failure retry'' now)))
            else retQ None) (\<lambda>retryEvent.
     bindQ (coreQ c (\<lambda>commit. RecordFailureOwned commit (queueEvent c failureID (rq_AccountID request)
         (rq_RequestID request) LoggingIn (sn_Revision state) LoginFailed (failureReason class) now)
       class (Add now (rd_Delay decision)) retryEvent lease allowExpired)) (\<lambda>result.
     retQ (zeroOutcome\<lparr>oc_Request := fr_Request result, oc_Retried := (fr_Retried result \<noteq> None)\<rparr>))))))"

text \<open>A stale terminal event of a request that was cancelled meanwhile is a cancellation.\<close>

definition resolveCancellationRace :: "string \<Rightarrow> error \<Rightarrow> ('w, Outcome option) qaction" where
  "resolveCancellationRace requestID transitionErr =
     (if transitionErr \<noteq> AccountErr ErrStaleEvent then retQ None
      else tryQ (getRequest requestID) (\<lambda>r. retQ (case r of
          Inr current \<Rightarrow> if rq_State current \<noteq> Cancelled then None else Some (zeroOutcome\<lparr>oc_Request := current\<rparr>)
        | Inl _ \<Rightarrow> None)))"

section \<open>Fences and recovery\<close>

text \<open>An agent is stopped, and its stop is confirmed, before its lease may go.\<close>

definition fenceExpiredSlotLease :: "'w QueueConfig \<Rightarrow> SlotLease \<Rightarrow> ('w, unit) qaction" where
  "fenceExpiredSlotLease c lease =
     bindQ (readQ (GetSlot (sk_SlotID lease))) (\<lambda>value.
     let requiresFence = (sl_AgentHandle value \<noteq> [])
     in bindQ (case qc_SlotLeaseStopper c of
                 Some stop \<Rightarrow> callQ (stop lease)
               | None \<Rightarrow> if requiresFence then failQ (StoreErr ErrSlotLeaseFenceRequired) else retQ ()) (\<lambda>_.
        if \<not> requiresFence then retQ () else fencesQ c (\<lambda>_. ConfirmSlotLeaseStopped lease)))"

definition recoverExpiredSlotLeases :: "'w QueueConfig \<Rightarrow> gotime \<Rightarrow> ('w, unit) qaction" where
  "recoverExpiredSlotLeases c now =
     bindQ (readQ ListSlotLeases) (\<lambda>leases.
     bindQ (loopQ (\<lambda>entry.
        if SlotLease_Expired (SlotLeaseRecord.lr_Lease entry) now then
          bindQ (fenceExpiredSlotLease c (SlotLeaseRecord.lr_Lease entry)) (\<lambda>_.
          revokeSlotLease c (sk_LeaseID (SlotLeaseRecord.lr_Lease entry)))
        else retQ ()) leases) (\<lambda>_.
     fencesQ c (\<lambda>commit. RecoverExpiredSlotLeases commit now)))"

definition requestForAccount :: "string \<Rightarrow> ('w, Request) qaction" where
  "requestForAccount accountID =
     bindQ (getAccount accountID) (\<lambda>state.
     if sn_RequestID state = [] \<or> sn_Status state = NoRequest then failQ (StoreErr ErrRequestNotFound)
     else bindQ (getRequest (sn_RequestID state)) (\<lambda>request.
       if rq_AccountID request \<noteq> accountID \<or> rq_State request \<noteq> sn_Status state
       then failQ (StoreErr ErrRequestStateMismatch) else retQ request))"

definition recoverOrphanedSlotLease :: "'w QueueConfig \<Rightarrow> gotime \<Rightarrow> Request \<Rightarrow> string \<Rightarrow> ('w, unit) qaction" where
  "recoverOrphanedSlotLease c now request owner =
     (if TrimSpace (qc_SlotPoolID c) = [] then retQ ()
      else bindQ (readQ ListSlotLeases) (\<lambda>leases.
        loopQ (\<lambda>entry. let lease = SlotLeaseRecord.lr_Lease entry in
          if sk_RequestID lease \<noteq> rq_RequestID request \<or> sk_AccountID lease \<noteq> rq_AccountID request
             \<or> sk_Owner lease \<noteq> owner
          then retQ ()
          else bindQ (fenceExpiredSlotLease c lease) (\<lambda>_.
            bindQ (revokeSlotLease c (sk_LeaseID lease)) (\<lambda>_.
            tolerate (\<lambda>e. e = SlotLeaseErr ErrLeaseNotOwned \<or> e = SlotErr ErrSlotNotFound)
              (slotsQ c (\<lambda>commit. QuarantineSlotLease commit (lr_SlotID entry) (sk_LeaseID lease) (sk_Owner lease) now
                ''account lease expired''))))) leases))"

definition lostRace :: "error \<Rightarrow> bool" where
  "lostRace e \<longleftrightarrow> e = AccountErr ErrStaleEvent \<or> e = AccountLeaseErr ErrLeaseNotOwned \<or> e = StoreErr ErrLeaseNotFound"

text \<open>One expired account lease.\<close>

definition recoverLease :: "'w QueueConfig \<Rightarrow> gotime \<Rightarrow> LeaseRecord \<Rightarrow> ('w, unit) qaction" where
  "recoverLease c now entry =
     (let lease = LeaseRecord.lr_Lease entry; accountID = lr_AccountID entry in
      if \<not> Lease_Expired lease now then retQ ()
      else
        bindQ (revokeAccountLease c (ls_LeaseID lease)) (\<lambda>_.
        bindQ (requestForAccount accountID) (\<lambda>request.
        bindQ (getAccount accountID) (\<lambda>state.
        if sn_RequestID state \<noteq> rq_RequestID request \<or> sn_Status state \<noteq> rq_State request then retQ ()
        else
          bindQ (case rq_State request of
              LoggingIn \<Rightarrow>
                bindQ (tolerate lostRace (finishFailure c now request lease True TransientFailure)) (\<lambda>_.
                revokeRequest c (rq_RequestID request))
            | Starting \<Rightarrow>
                bindQ (newID c ''recovery'') (\<lambda>eventID.
                tolerate lostRace (coreQ c (\<lambda>commit. CancelRequestOwned commit (queueEvent c eventID accountID
                  (rq_RequestID request) Starting (sn_Revision state) Cancelled ''lease expired before session start'' now)
                  lease True)))
            | _ \<Rightarrow>
                tolerate (\<lambda>e. e = StoreErr ErrLeaseNotFound \<or> e = AccountLeaseErr ErrLeaseNotOwned)
                  (coreQ c (\<lambda>commit. Store_ReleaseLease commit accountID (ls_LeaseID lease) (ls_Owner lease)))) (\<lambda>_.
          recoverOrphanedSlotLease c now request (ls_Owner lease))))))"

definition recoverExpired :: "'w QueueConfig \<Rightarrow> gotime \<Rightarrow> ('w, unit) qaction" where
  "recoverExpired c now = bindQ (readQ (\<lambda>d. ListLeases (sd_core d))) (loopQ (recoverLease c now))"

definition expireRequest :: "'w QueueConfig \<Rightarrow> gotime \<Rightarrow> Request \<Rightarrow> ('w, unit) qaction" where
  "expireRequest c now request =
     (if rq_State request \<noteq> Queued \<or> IsZero (rq_Deadline request) \<or> Before now (rq_Deadline request) then retQ ()
      else
        bindQ (getAccount (rq_AccountID request)) (\<lambda>state.
        if sn_Status state \<noteq> Queued \<or> sn_RequestID state \<noteq> rq_RequestID request then retQ ()
        else
          bindQ (newID c ''deadline'') (\<lambda>eventID.
          bindQ (tolerate (\<lambda>e. e = AccountErr ErrStaleEvent) (coreQ c (\<lambda>commit. CancelRequest commit
            (queueEvent c eventID (rq_AccountID request) (rq_RequestID request) Queued (sn_Revision state) Cancelled
              ''request deadline reached'' now)))) (\<lambda>_.
          revokeRequest c (rq_RequestID request)))))"

definition expireQueued :: "'w QueueConfig \<Rightarrow> gotime \<Rightarrow> ('w, unit) qaction" where
  "expireQueued c now = bindQ (readQ (\<lambda>d. ListRequests (sd_core d))) (loopQ (expireRequest c now))"

section \<open>One run\<close>

definition Sub :: "gotime \<Rightarrow> gotime \<Rightarrow> duration" where
  "Sub t u = max (- (2 ^ 63)) (min maxInt64 (t - u))"

text \<open>A claimed request could not be started: the claim is given back, as far as that works.\<close>

definition startFailed ::
  "'w QueueConfig \<Rightarrow> gotime \<Rightarrow> Claim \<Rightarrow> SlotLease \<Rightarrow> error \<Rightarrow> ('w, Outcome \<times> error option) qaction" where
  "startFailed c now claim slotLease e =
     (let request = cl_Request claim; lease = cl_Lease claim in
      bindQ (newID c ''start-failure'') (\<lambda>eventID.
      bindQ (tolerate (\<lambda>_. True) (coreQ c (\<lambda>commit. CancelRequestOwned commit (queueEvent c eventID (rq_AccountID request)
        (rq_RequestID request) Starting (sn_Revision (tr_State (cl_Transition claim))) Cancelled
        ''session runner start failed'' now) lease True))) (\<lambda>_.
      bindQ (tolerate (\<lambda>_. True) (coreQ c (\<lambda>commit. Store_ReleaseLease commit (rq_AccountID request) (ls_LeaseID lease)
        (ls_Owner lease)))) (\<lambda>_.
      bindQ (if sk_LeaseID slotLease = [] then retQ ()
             else tolerate (\<lambda>_. True) (slotsQ c (\<lambda>commit. Store_ReleaseSlotLease commit (sk_SlotID slotLease)
               (sk_LeaseID slotLease) (sk_Owner slotLease)))) (\<lambda>_.
      bindQ (queueRecord c now ''start'' ''failed'' (rq_RequestID request) ''transition_failed'' 0) (\<lambda>_.
      failQ e))))))"

text \<open>The slot after a run: quarantined or released, once its capability is revoked.\<close>

definition quarantineRunSlot :: "'w QueueConfig \<Rightarrow> gotime \<Rightarrow> string \<Rightarrow> SlotLease \<Rightarrow> ('w, unit) qaction" where
  "quarantineRunSlot c finishedAt requestID slotLease =
     bindQ (revokeSlotLease c (sk_LeaseID slotLease)) (\<lambda>_.
     bindQ (slotsQ c (\<lambda>commit. QuarantineSlotLease commit (sk_SlotID slotLease) (sk_LeaseID slotLease) (sk_Owner slotLease)
       finishedAt ''agent failure'')) (\<lambda>_.
     slotRecord c finishedAt ''quarantine'' ''quarantined'' requestID (sk_SlotID slotLease) ''agent_failure''))"

definition releaseRunSlot :: "'w QueueConfig \<Rightarrow> gotime \<Rightarrow> string \<Rightarrow> SlotLease \<Rightarrow> ('w, unit) qaction" where
  "releaseRunSlot c finishedAt requestID slotLease =
     bindQ (revokeSlotLease c (sk_LeaseID slotLease)) (\<lambda>_.
     bindQ (slotsQ c (\<lambda>commit. Store_ReleaseSlotLease commit (sk_SlotID slotLease) (sk_LeaseID slotLease)
       (sk_Owner slotLease))) (\<lambda>_.
     slotRecord c finishedAt ''release'' ''released'' requestID (sk_SlotID slotLease) []))"

definition settleRunSlot :: "'w QueueConfig \<Rightarrow> gotime \<Rightarrow> string \<Rightarrow> SlotLease \<Rightarrow> bool \<Rightarrow> ('w, unit) qaction" where
  "settleRunSlot c finishedAt requestID slotLease quarantineSlot =
     (if sk_LeaseID slotLease = [] then retQ ()
      else if quarantineSlot then quarantineRunSlot c finishedAt requestID slotLease
      else releaseRunSlot c finishedAt requestID slotLease)"

text \<open>The request as it was read before the slot was settled, if it was.\<close>

definition readAgain :: "Request result option \<Rightarrow> string \<Rightarrow> ('w, Request) qaction" where
  "readAgain early requestID =
     (case early of
        Some (Inl e) \<Rightarrow> failQ e
      | Some (Inr current) \<Rightarrow> if rq_RequestID current = [] then getRequest requestID else retQ current
      | None \<Rightarrow> getRequest requestID)"

definition durablyCancelled :: "Request result option \<Rightarrow> bool" where
  "durablyCancelled early = (case early of Some (Inr current) \<Rightarrow> rq_State current = Cancelled | _ \<Rightarrow> False)"

text \<open>
  A run that failed, or whose context ended: the slot is settled, and a request that was cancelled
  meanwhile is the outcome of the pass.
\<close>

definition settleFailedRun ::
  "'w QueueConfig \<Rightarrow> ('w \<Rightarrow> error option) \<Rightarrow> gotime \<Rightarrow> duration \<Rightarrow> string \<Rightarrow> SlotLease \<Rightarrow> error option \<Rightarrow> error option \<Rightarrow>
     ('w, Outcome option) qaction" where
  "settleFailedRun c ctxErr finishedAt duration requestID slotLease runnerErr contextErr =
     bindQ (if runnerErr \<noteq> None then tryQ (getRequest requestID) (\<lambda>r. retQ (Some r)) else retQ None) (\<lambda>early.
     bindQ (\<lambda>s. (Inr (ctxErr (snd s)), s)) (\<lambda>stopped.
     bindQ (settleRunSlot c finishedAt requestID slotLease
         ((runnerErr \<noteq> None \<or> contextErr \<noteq> None \<and> stopped = None)
          \<and> \<not> (stopped \<noteq> None \<or> durablyCancelled early))) (\<lambda>_.
     tryQ (readAgain early requestID) (\<lambda>r. case r of
         Inl e \<Rightarrow>
           bindQ (tolerate (\<lambda>_. True) (revokeRequest c requestID)) (\<lambda>_.
           bindQ (queueRecord c finishedAt ''run'' ''failed'' requestID ''store_error'' duration) (\<lambda>_. failQ e))
       | Inr current \<Rightarrow>
           if rq_State current = Cancelled then
             bindQ (revokeRequest c requestID) (\<lambda>_.
             bindQ (queueRecord c finishedAt ''run'' ''cancelled'' requestID [] duration) (\<lambda>_.
             retQ (Some (zeroOutcome\<lparr>oc_Request := current\<rparr>))))
           else retQ None))))"

text \<open>The end of a pass with an error: a lost race with a cancellation, or a failure.\<close>

definition raceOrFail ::
  "'w QueueConfig \<Rightarrow> gotime \<Rightarrow> duration \<Rightarrow> string \<Rightarrow> Outcome \<Rightarrow> error \<Rightarrow> ('w, Outcome \<times> error option) qaction" where
  "raceOrFail c finishedAt duration requestID outcome e =
     bindQ (resolveCancellationRace requestID e) (\<lambda>race. case race of
       Some cancelled \<Rightarrow>
         bindQ (queueRecord c finishedAt ''run'' ''cancelled'' requestID [] duration) (\<lambda>_. retQ (cancelled, None))
     | None \<Rightarrow>
         bindQ (queueRecord c finishedAt ''run'' ''failed'' requestID ''transition_failed'' duration) (\<lambda>_.
         retQ (outcome, Some e)))"

text \<open>The stored result of the run.\<close>

definition finishRun ::
  "'w QueueConfig \<Rightarrow> gotime \<Rightarrow> duration \<Rightarrow> Claim \<Rightarrow> RunResult \<Rightarrow> ('w, Outcome \<times> error option) qaction" where
  "finishRun c finishedAt duration claim result =
     (let request = cl_Request claim; requestID = rq_RequestID request; lease = cl_Lease claim in
      bindQ (revokeRequest c requestID) (\<lambda>_.
      if rr_Succeeded result then
        tryQ (finishSuccess c finishedAt request lease (zeroOutcome\<lparr>oc_Request := request\<rparr>)) (\<lambda>r. case r of
          Inl e \<Rightarrow> raceOrFail c finishedAt duration requestID zeroOutcome e
        | Inr (outcome, Some e) \<Rightarrow> raceOrFail c finishedAt duration requestID outcome e
        | Inr (outcome, None) \<Rightarrow>
            bindQ (queueRecord c finishedAt ''run'' ''succeeded'' requestID [] duration) (\<lambda>_. retQ (outcome, None)))
      else
        let failure = (if \<not> validFailure (rr_Failure result) then UnknownFailure else rr_Failure result)
        in tryQ (finishFailure c finishedAt request lease False failure) (\<lambda>r. case r of
          Inl e \<Rightarrow> raceOrFail c finishedAt duration requestID zeroOutcome e
        | Inr outcome \<Rightarrow>
            bindQ (queueRecord c finishedAt ''run'' (if oc_Retried outcome then ''retried'' else ''failed'') requestID
              (failureText failure) duration) (\<lambda>_. retQ (outcome, None)))))"

definition executeRun ::
  "'w QueueConfig \<Rightarrow> ('w \<Rightarrow> error option) \<Rightarrow> gotime \<Rightarrow> Claim \<Rightarrow> SlotLease \<Rightarrow> slot \<Rightarrow> ('w, Outcome \<times> error option) qaction" where
  "executeRun c ctxErr now claim slotLease value =
     (let requestID = rq_RequestID (cl_Request claim);
          work = \<lparr>wk_Request = cl_Request claim, wk_Lease = cl_Lease claim, wk_Slot = value, wk_SlotLease = slotLease,
            wk_SlotID = sl_SlotID value, wk_EnvironmentGeneration = sl_EnvironmentGeneration value,
            wk_AgentHandle = sl_AgentHandle value\<rparr>
      in bindQ (\<lambda>s. let (out, s') = qc_runner c work s in (Inr out, s')) (\<lambda>(runnerResult, runnerErr, contextErr).
         bindQ (clock c) (\<lambda>finishedAt.
         if IsZero finishedAt then failQ (QueueErr ErrInvalidConfig_queue)
         else
           let duration = (if Sub finishedAt now < 0 then 0 else Sub finishedAt now)
           in if runnerErr \<noteq> None \<or> contextErr \<noteq> None then
                bindQ (settleFailedRun c ctxErr finishedAt duration requestID slotLease runnerErr contextErr) (\<lambda>settled.
                case settled of
                  Some outcome \<Rightarrow> retQ (outcome, None)
                | None \<Rightarrow> finishRun c finishedAt duration claim \<lparr>rr_Succeeded = False, rr_Failure = TransientFailure\<rparr>)
              else
                bindQ (if sk_LeaseID slotLease = [] then retQ () else releaseRunSlot c finishedAt requestID slotLease) (\<lambda>_.
                finishRun c finishedAt duration claim runnerResult))))"

definition startRun ::
  "'w QueueConfig \<Rightarrow> ('w \<Rightarrow> error option) \<Rightarrow> gotime \<Rightarrow> Claim \<Rightarrow> SlotLease \<Rightarrow> slot \<Rightarrow> ('w, Outcome \<times> error option) qaction" where
  "startRun c ctxErr now claim slotLease value =
     (let request = cl_Request claim in
      bindQ (if sk_SlotID slotLease = [] then retQ ()
             else slotRecord c now ''acquire'' ''leased'' (rq_RequestID request) (sk_SlotID slotLease) []) (\<lambda>_.
      bindQ (newID c ''start'') (\<lambda>eventID.
      tryQ (coreQ c (\<lambda>commit. ApplyEvent commit (queueEvent c eventID (rq_AccountID request) (rq_RequestID request)
        Starting (sn_Revision (tr_State (cl_Transition claim))) LoggingIn ''session runner started'' now))) (\<lambda>r. case r of
          Inl e \<Rightarrow> startFailed c now claim slotLease e
        | Inr _ \<Rightarrow> executeRun c ctxErr now claim slotLease value))))"

section \<open>The pass\<close>

definition guarded :: "'w QueueConfig \<Rightarrow> gotime \<Rightarrow> string \<Rightarrow> ('w, unit) qaction \<Rightarrow> ('w, unit) qaction" where
  "guarded c now operation m =
     tryQ m (\<lambda>r. case r of
       Inl e \<Rightarrow> bindQ (queueRecord c now operation ''failed'' [] ''store_error'' 0) (\<lambda>_. failQ e)
     | Inr _ \<Rightarrow> retQ ())"

definition claimArgs :: "'w QueueConfig \<Rightarrow> gotime \<Rightarrow> string \<Rightarrow> string \<Rightarrow> ClaimArgs" where
  "claimArgs c now leaseID claimID =
     \<lparr>ca_now = now, ca_leaseID = leaseID, ca_owner = qc_Owner c, ca_ttl = qc_LeaseTTL c, ca_eventID = claimID,
      ca_actor = qc_Owner c, ca_reason = ''queue claim''\<rparr>"

text \<open>\<open>None\<close> when there is nothing to claim.\<close>

definition claimWork :: "'w QueueConfig \<Rightarrow> gotime \<Rightarrow> ('w, (Claim \<times> SlotLease \<times> slot) option) qaction" where
  "claimWork c now =
     bindQ (newID c ''claim'') (\<lambda>claimID.
     bindQ (newID c ''lease'') (\<lambda>leaseID.
     let pooled = (TrimSpace (qc_SlotPoolID c) \<noteq> []);
         idle = (\<lambda>e. e = StoreErr ErrQueueEmpty \<or> e = StoreErr ErrQueueCapacity \<or> pooled \<and> e = SlotErr ErrSlotUnavailable)
     in tryQ (if pooled
              then bindQ (slotsQ c (\<lambda>commit. ClaimNextWithSlot commit (claimArgs c now leaseID claimID)
                     (qc_MaxGlobalConcurrency c) (qc_SlotPoolID c) (qc_SlotRequirement c))) (\<lambda>slotClaim.
                   retQ (sm_Claim slotClaim, sm_SlotLease slotClaim, sm_Slot slotClaim))
              else bindQ (coreQ c (\<lambda>commit. ClaimNext commit (claimArgs c now leaseID claimID)
                     (qc_MaxGlobalConcurrency c))) (\<lambda>claim. retQ (claim, zeroSlotLease, zeroSlot))) (\<lambda>r. case r of
          Inl e \<Rightarrow>
            if idle e then bindQ (queueRecord c now ''claim'' ''idle'' [] (if pooled then ''slot_unavailable'' else []) 0)
              (\<lambda>_. retQ None)
            else bindQ (queueRecord c now ''claim'' ''failed'' [] ''store_error'' 0) (\<lambda>_. failQ e)
        | Inr claimed \<Rightarrow> retQ (Some claimed))))"

definition passQ :: "'w QueueConfig \<Rightarrow> ('w \<Rightarrow> error option) \<Rightarrow> ('w, Outcome \<times> error option) qaction" where
  "passQ c ctxErr =
     bindQ (clock c) (\<lambda>now.
     if IsZero now then failQ (QueueErr ErrInvalidConfig_queue)
     else
       bindQ (guarded c now ''recovery'' (recoverExpired c now)) (\<lambda>_.
       bindQ (guarded c now ''deadline'' (expireQueued c now)) (\<lambda>_.
       bindQ (if TrimSpace (qc_SlotPoolID c) = [] then retQ ()
              else guarded c now ''slot-recovery'' (recoverExpiredSlotLeases c now)) (\<lambda>_.
       bindQ (claimWork c now) (\<lambda>claimed. case claimed of
           None \<Rightarrow> retQ (zeroOutcome\<lparr>oc_Idle := True\<rparr>, None)
         | Some (claim, slotLease, value) \<Rightarrow> startRun c ctxErr now claim slotLease value)))))"

text \<open>The control plane's settings of the moment, which the scheduler keeps.\<close>

definition refreshConfig :: "'w QueueConfig \<Rightarrow> 'w qstate \<Rightarrow> 'w QueueConfig result \<times> 'w qstate" where
  "refreshConfig c s =
     (case qc_RuntimeConfig c of
        None \<Rightarrow> (Inr c, s)
      | Some provider \<Rightarrow>
          (case provider s of
             (Inl e, s') \<Rightarrow> (Inl e, s')
           | (Inr runtime, s') \<Rightarrow>
               let limit = (if rt_MaxGlobalConcurrency runtime = 0 then qc_MaxGlobalConcurrency c
                            else rt_MaxGlobalConcurrency runtime)
               in if limit < 1 then (queueErr ErrInvalidConfig_queue, s')
                  else (Inr (c\<lparr>qc_SlotPoolID := rt_SlotPoolID runtime, qc_SlotRequirement := rt_SlotRequirement runtime,
                     qc_MaxGlobalConcurrency := limit\<rparr>), s')))"

definition RunOnce ::
  "'w Scheduler \<Rightarrow> ('w \<Rightarrow> error option) \<Rightarrow> 'w qstate \<Rightarrow> (Outcome \<times> error option) \<times> 'w Scheduler \<times> 'w qstate" where
  "RunOnce q ctxErr s =
     (if qs_stopping q then ((zeroOutcome, Some (QueueErr ErrSchedulerStopped)), q, s)
      else case ctxErr (snd s) of
        Some e \<Rightarrow> ((zeroOutcome, Some e), q, s)
      | None \<Rightarrow>
          (case refreshConfig (qs_config q) s of
             (Inl e, s') \<Rightarrow> ((zeroOutcome, Some e), q, s')
           | (Inr c, s') \<Rightarrow>
               (case passQ c ctxErr s' of
                  (Inl e, s'') \<Rightarrow> ((zeroOutcome, Some e), q\<lparr>qs_config := c\<rparr>, s'')
                | (Inr out, s'') \<Rightarrow> (out, q\<lparr>qs_config := c\<rparr>, s''))))"

end
