(* ===== verification/QueueFacts.thy ===== *)
theory QueueFacts
  imports Queue LifecycleFacts
begin

text \<open>
  The passes of the scheduler as runs of the store: every operation that a pass calls is a step of
  the slot tables at one of the two times the pass reads, before and after its run.
\<close>

section \<open>Actions at a time\<close>

text \<open>Steps of the store at one time.\<close>

definition stepsAt :: "gotime \<Rightarrow> SlotStore \<Rightarrow> SlotStore \<Rightarrow> bool" where
  "stepsAt n = (\<lambda>st st'. \<exists>e. slotStep n e st st')\<^sup>*\<^sup>*"

lemma stepsAt_refl [simp]: "stepsAt n st st"
  by (simp add: stepsAt_def)

lemma stepsAt_trans [trans]: "stepsAt n a b \<Longrightarrow> stepsAt n b c \<Longrightarrow> stepsAt n a c"
  unfolding stepsAt_def by (rule rtranclp_trans)

lemma stepsAt_step: "slotStep n e a b \<Longrightarrow> stepsAt n a b"
  unfolding stepsAt_def by blast

definition actsAt :: "('w \<Rightarrow> gotime) \<Rightarrow> gotime \<Rightarrow> ('w, 'a) qaction \<Rightarrow> bool" where
  "actsAt tm n m \<longleftrightarrow> (\<forall>s r s'. m s = (r, s') \<longrightarrow> tm (snd s) \<le> tm (snd s') \<and> stepsAt n (fst s) (fst s'))"

lemma actsAtI:
  "(\<And>st w r st' w'. m (st, w) = (r, st', w') \<Longrightarrow> tm w \<le> tm w' \<and> stepsAt n st st') \<Longrightarrow> actsAt tm n m"
  unfolding actsAt_def by (metis prod.collapse)

lemma actsAtD: "actsAt tm n m \<Longrightarrow> m (st, w) = (r, st', w') \<Longrightarrow> tm w \<le> tm w' \<and> stepsAt n st st'"
  unfolding actsAt_def by fastforce

named_theorems acts

lemma acts_ret [acts]: "actsAt tm n (retQ x)" "actsAt tm n (failQ e)" "actsAt tm n (readQ f)"
  by (rule actsAtI; simp add: retQ_def failQ_def readQ_def)+

lemma acts_pure: "actsAt tm n (\<lambda>s. (f s, s))"
  by (rule actsAtI) simp

lemma acts_bind [acts]: "actsAt tm n m \<Longrightarrow> (\<And>x. actsAt tm n (f x)) \<Longrightarrow> actsAt tm n (bindQ m f)"
  by (rule actsAtI) (auto simp: bindQ_def split: prod.splits sum.splits dest!: actsAtD intro: stepsAt_trans order_trans)

lemma acts_try [acts]: "actsAt tm n m \<Longrightarrow> (\<And>x. actsAt tm n (f x)) \<Longrightarrow> actsAt tm n (tryQ m f)"
  by (rule actsAtI) (auto simp: tryQ_def split: prod.splits dest!: actsAtD intro: stepsAt_trans order_trans)

lemma acts_loop [acts]: "(\<And>x. actsAt tm n (f x)) \<Longrightarrow> actsAt tm n (loopQ f xs)"
  by (induction xs) (auto intro: acts)

lemma acts_if [acts]: "(b \<Longrightarrow> actsAt tm n m) \<Longrightarrow> (\<not> b \<Longrightarrow> actsAt tm n k) \<Longrightarrow> actsAt tm n (if b then m else k)"
  by simp

lemma acts_sum [acts]:
  "(\<And>e. r = Inl e \<Longrightarrow> actsAt tm n (f e)) \<Longrightarrow> (\<And>x. r = Inr x \<Longrightarrow> actsAt tm n (g x)) \<Longrightarrow>
     actsAt tm n (case r of Inl e \<Rightarrow> f e | Inr x \<Rightarrow> g x)"
  by (cases r) auto

lemma acts_option [acts]:
  "(r = None \<Longrightarrow> actsAt tm n f) \<Longrightarrow> (\<And>x. r = Some x \<Longrightarrow> actsAt tm n (g x)) \<Longrightarrow>
     actsAt tm n (case r of None \<Rightarrow> f | Some x \<Rightarrow> g x)"
  by (cases r) auto

lemma acts_prod [acts]: "(\<And>x y. actsAt tm n (f x y)) \<Longrightarrow> actsAt tm n (case p of (x, y) \<Rightarrow> f x y)"
  by (cases p) auto

lemma acts_tolerate [acts]: "actsAt tm n m \<Longrightarrow> actsAt tm n (tolerate h m)"
  unfolding tolerate_def by (intro acts)

lemma acts_slots:
  assumes "\<And>cm st st'. dbStep st (f cm (ss_db st)) st' \<Longrightarrow> \<exists>e. slotStep n e st st'"
  shows "actsAt tm n (slotsQ c f)"
proof (rule actsAtI)
  fix st w r st' w'
  assume "slotsQ c f (st, w) = (r, st', w')"
  then have "st' = st\<lparr>ss_db := snd (f (qc_commit c w) (ss_db st))\<rparr>" "w' = w"
    by (auto simp: slotsQ_def Let_def split: prod.splits)
  then show "tm w \<le> tm w' \<and> stepsAt n st st'" using assms stepsAt_step by blast
qed

lemma acts_core:
  assumes "\<And>cm d r d'. f cm d = (r, d') \<Longrightarrow> storeStep d d'"
  shows "actsAt tm n (coreQ c f)"
  unfolding coreQ_def
proof (rule acts_slots)
  fix cm st st'
  assume s: "dbStep st (let (r, core) = f (\<lambda>core. cm (ss_db st\<lparr>sd_core := core\<rparr>)) (sd_core (ss_db st))
      in (r, ss_db st\<lparr>sd_core := core\<rparr>)) st'"
  obtain r core where f: "f (\<lambda>core. cm (ss_db st\<lparr>sd_core := core\<rparr>)) (sd_core (ss_db st)) = (r, core)" by fastforce
  have "coreStep st st'" unfolding coreStep_def using assms [OF f] s f by auto
  then show "\<exists>e. slotStep n e st st'" by (blast intro: slotStep.core)
qed

lemma acts_fences:
  assumes "\<And>cm st r st'. f cm st = (r, st') \<Longrightarrow> \<exists>e. slotStep n e st st'"
  shows "actsAt tm n (fencesQ c f)"
  by (rule actsAtI) (auto simp: fencesQ_def Let_def split: prod.splits dest!: assms intro: stepsAt_step)

lemma acts_store [acts]:
  "actsAt tm n (coreQ c (\<lambda>cm. ApplyEvent cm ev))"
  "actsAt tm n (coreQ c (\<lambda>cm. CancelRequest cm ev))"
  "actsAt tm n (coreQ c (\<lambda>cm. CancelRequestOwned cm ev l ax))"
  "actsAt tm n (coreQ c (\<lambda>cm. CompleteRequestOwned cm ev l))"
  "actsAt tm n (coreQ c (\<lambda>cm. RecordFailureOwned cm ev cl at re l ax))"
  "actsAt tm n (coreQ c (\<lambda>cm. Store_ReleaseLease cm a i u))"
  "0 < ca_now x \<Longrightarrow> actsAt tm n (coreQ c (\<lambda>cm. ClaimNext cm x m))"
  by (rule acts_core; auto simp: CancelRequest_def CancelRequestOwned_def CompleteRequestOwned_def RecordFailureOwned_def
      intro: storeStep.intros)+

lemma acts_tables [acts]:
  "actsAt tm n (slotsQ c (\<lambda>cm. Store_ReleaseSlotLease cm k i u))"
  "actsAt tm n (slotsQ c (\<lambda>cm. QuarantineSlotLease cm k i u n why))"
  "ca_now x = n \<Longrightarrow> actsAt tm n (slotsQ c (\<lambda>cm. ClaimNextWithSlot cm x m p r))"
  by (rule acts_slots; blast intro: slotStep.intros)+

lemma acts_recovery [acts]:
  "actsAt tm n (fencesQ c (\<lambda>cm. RecoverExpiredSlotLeases cm n))"
  "actsAt tm n (fencesQ c (\<lambda>_. ConfirmSlotLeaseStopped l))"
  by (rule acts_fences; blast intro: slotStep.intros)+

section \<open>What the scheduler relies on\<close>

text \<open>A call that does not touch the store.\<close>

definition quietCall :: "('w \<Rightarrow> gotime) \<Rightarrow> 'w qcall \<Rightarrow> bool" where
  "quietCall tm f \<longleftrightarrow> (\<forall>s r s'. f s = (r, s') \<longrightarrow> fst s' = fst s \<and> tm (snd s) \<le> tm (snd s'))"

text \<open>
  The clock follows the time of the world; while a session runs, the other goroutines make any
  steps of the store.
\<close>

definition fairScheduler :: "('w \<Rightarrow> gotime) \<Rightarrow> 'w QueueConfig \<Rightarrow> bool" where
  "fairScheduler tm c \<longleftrightarrow>
     (\<forall>w. tm w \<le> fst (qc_Clock c w) \<and> fst (qc_Clock c w) \<le> tm (snd (qc_Clock c w))) \<and>
     (\<forall>kind w. tm w \<le> tm (snd (qc_NewID c kind w))) \<and> (\<forall>event w. tm w \<le> tm (qc_Sink c event w)) \<and>
     (\<forall>f \<in> set_option (qc_RuntimeConfig c). \<forall>s r s'. f s = (r, s') \<longrightarrow> fst s' = fst s \<and> tm (snd s) \<le> tm (snd s')) \<and>
     (\<forall>f \<in> set_option (qc_SlotLeaseStopper c). \<forall>l. quietCall tm (f l)) \<and>
     (\<forall>v \<in> set_option (qc_Capabilities c). \<forall>i. quietCall tm (qr_RevokeRequest v i) \<and> quietCall tm (qr_RevokeSlotLease v i) \<and>
        (\<forall>f \<in> set_option (qr_RevokeAccountLease v). quietCall tm (f i))) \<and>
     (\<forall>work s out s'. qc_runner c work s = (out, s') \<longrightarrow> storeSteps (tm (snd s)) (fst s) (tm (snd s')) (fst s'))"

lemma fair_clock: "fairScheduler tm c \<Longrightarrow> qc_Clock c w = (now, w') \<Longrightarrow> tm w \<le> now \<and> now \<le> tm w'"
  unfolding fairScheduler_def by (metis fst_conv snd_conv)

lemma fair_runner:
  "fairScheduler tm c \<Longrightarrow> qc_runner c work (st, w) = (out, st', w') \<Longrightarrow> storeSteps (tm w) st (tm w') st'"
  unfolding fairScheduler_def by (metis fst_conv snd_conv)

lemma fair_runtime:
  "fairScheduler tm c \<Longrightarrow> qc_RuntimeConfig c = Some f \<Longrightarrow> f (st, w) = (r, st', w') \<Longrightarrow> st' = st \<and> tm w \<le> tm w'"
  unfolding fairScheduler_def by fastforce

lemma acts_call: "quietCall tm f \<Longrightarrow> actsAt tm n (callQ f)"
  by (rule actsAtI) (fastforce simp: callQ_def quietCall_def split: prod.splits)

lemma acts_newID: "fairScheduler tm c \<Longrightarrow> actsAt tm n (newID c kind)"
  by (intro actsAtI) (auto simp: newID_def fairScheduler_def split: prod.splits, metis snd_conv)

lemma acts_record:
  "fairScheduler tm c \<Longrightarrow> actsAt tm n (queueRecord c at op out i e d)"
  "fairScheduler tm c \<Longrightarrow> actsAt tm n (slotRecord c at op out i k e)"
  by (intro actsAtI; auto simp: queueRecord_def slotRecord_def sink_def fairScheduler_def)+

lemma acts_revoke:
  "fairScheduler tm c \<Longrightarrow> actsAt tm n (revokeRequest c i)" "fairScheduler tm c \<Longrightarrow> actsAt tm n (revokeSlotLease c i)"
  "fairScheduler tm c \<Longrightarrow> actsAt tm n (revokeAccountLease c i)"
  unfolding revokeRequest_def revokeSlotLease_def revokeAccountLease_def fairScheduler_def
  by (intro acts acts_call; simp)+

lemmas acts_fair = acts_newID acts_record acts_revoke

section \<open>The parts of a pass\<close>

lemma acts_results [acts]:
  assumes fair: "fairScheduler tm c"
  shows "actsAt tm n (finishSuccess c at q l o0)" "actsAt tm n (finishFailure c at q l ax cl)"
    "actsAt tm n (resolveCancellationRace i e)"
  unfolding finishSuccess_def finishFailure_def resolveCancellationRace_def
  by (intro acts acts_pure acts_fair [OF fair])+

lemma acts_fence [acts]: "fairScheduler tm c \<Longrightarrow> actsAt tm n (fenceExpiredSlotLease c l)"
  unfolding fenceExpiredSlotLease_def Let_def
  by (intro acts acts_call) (auto simp: fairScheduler_def)

lemma acts_expired [acts]: "fairScheduler tm c \<Longrightarrow> actsAt tm n (recoverExpiredSlotLeases c n)"
  unfolding recoverExpiredSlotLeases_def by (intro acts acts_fair; assumption)

lemma acts_requestForAccount [acts]: "actsAt tm n (requestForAccount a)"
  unfolding requestForAccount_def by (intro acts)

lemma acts_orphaned [acts]: "fairScheduler tm c \<Longrightarrow> actsAt tm n (recoverOrphanedSlotLease c n q w)"
  unfolding recoverOrphanedSlotLease_def Let_def by (intro acts acts_fair; assumption)

lemma acts_status [acts]:
  "actsAt tm n a \<Longrightarrow> actsAt tm n b \<Longrightarrow> actsAt tm n d \<Longrightarrow> actsAt tm n (case x of LoggingIn \<Rightarrow> a | Starting \<Rightarrow> b | _ \<Rightarrow> d)"
  by (cases x) auto

lemma acts_recoverExpired [acts]: "fairScheduler tm c \<Longrightarrow> actsAt tm n (recoverExpired c n)"
  unfolding recoverExpired_def recoverLease_def Let_def by (intro acts acts_fair; assumption)

lemma acts_expireQueued [acts]: "fairScheduler tm c \<Longrightarrow> actsAt tm n (expireQueued c n)"
  unfolding expireQueued_def expireRequest_def by (intro acts acts_fair; assumption)

lemma acts_guarded [acts]: "fairScheduler tm c \<Longrightarrow> actsAt tm n m \<Longrightarrow> actsAt tm n (guarded c at op m)"
  unfolding guarded_def by (intro acts acts_fair; assumption)

lemma acts_claimWork [acts]: "fairScheduler tm c \<Longrightarrow> 0 < n \<Longrightarrow> actsAt tm n (claimWork c n)"
  unfolding claimWork_def Let_def by (intro acts acts_fair; simp add: claimArgs_def)

lemma acts_startFailed [acts]: "fairScheduler tm c \<Longrightarrow> actsAt tm n (startFailed c at cl sl e)"
  unfolding startFailed_def Let_def by (intro acts acts_fair; assumption)

lemma acts_settle [acts]:
  "fairScheduler tm c \<Longrightarrow> actsAt tm n (settleFailedRun c x n d i sl re ce)"
  unfolding settleFailedRun_def settleRunSlot_def readAgain_def quarantineRunSlot_def releaseRunSlot_def Let_def
  by (intro acts acts_pure acts_fair; assumption)

lemma acts_finishRun [acts]: "fairScheduler tm c \<Longrightarrow> actsAt tm n (finishRun c at d cl r)"
  unfolding finishRun_def raceOrFail_def Let_def by (intro acts acts_fair; assumption)

section \<open>The whole pass\<close>

lemma storeSteps_wait:
  assumes "storeSteps t st n st'" "n \<le> t'"
  shows "storeSteps t st t' st'"
  using assms(1)
proof cases
  case wait
  then show ?thesis using assms(2) storeSteps.wait [of t t' st] by simp
next
  case (more now0 st1 now e)
  show ?thesis by (rule storeSteps.more [OF more(1,2,3)]) (use more(4) assms(2) in simp)
qed

lemma storeSteps_trans:
  assumes "storeSteps u b v d" "storeSteps t a u b"
  shows "storeSteps t a v d"
  using assms(1) assms(2)
proof (induction rule: storeSteps.induct)
  case (more u b now0 st1 now e st2 v)
  then show ?case by (blast intro: storeSteps.more)
qed (rule storeSteps_wait)

lemma storeSteps_at:
  assumes "storeSteps t a n b" "stepsAt n b d"
  shows "storeSteps t a n d"
  using assms(2,1) unfolding stepsAt_def
  by (induction rule: rtranclp_induct) (auto intro: storeSteps.more)

text \<open>Actions that start at a time \<open>n\<close> and may let time pass.\<close>

definition runsFrom :: "('w \<Rightarrow> gotime) \<Rightarrow> gotime \<Rightarrow> ('w, 'a) qaction \<Rightarrow> bool" where
  "runsFrom tm n m \<longleftrightarrow> (\<forall>t a st w r st' w'. storeSteps t a n st \<longrightarrow> n \<le> tm w \<longrightarrow> m (st, w) = (r, st', w') \<longrightarrow>
     storeSteps t a (tm w') st')"

named_theorems runs

lemma runsFromD: "runsFrom tm n m \<Longrightarrow> storeSteps t a n st \<Longrightarrow> n \<le> tm w \<Longrightarrow> m (st, w) = (r, st', w') \<Longrightarrow> storeSteps t a (tm w') st'"
  unfolding runsFrom_def by blast

lemma runsFromI:
  "(\<And>t a st w r st' w'. storeSteps t a n st \<Longrightarrow> n \<le> tm w \<Longrightarrow> m (st, w) = (r, st', w') \<Longrightarrow> storeSteps t a (tm w') st') \<Longrightarrow>
     runsFrom tm n m"
  unfolding runsFrom_def by blast

lemma acts_then:
  assumes "actsAt tm n m" "m (st, w) = (r, st', w')" "storeSteps t a n st" "n \<le> tm w"
  shows "storeSteps t a n st' \<and> n \<le> tm w'"
  using actsAtD [OF assms(1,2)] storeSteps_at [OF assms(3)] assms(4) by force

lemma runs_acts: "actsAt tm n m \<Longrightarrow> runsFrom tm n m"
  by (rule runsFromI) (blast dest: acts_then intro: storeSteps_wait)

lemma runs_bind [runs]:
  assumes m: "actsAt tm n m" and f: "\<And>x. runsFrom tm n (f x)"
  shows "runsFrom tm n (bindQ m f)"
proof (rule runsFromI)
  fix t a st w r st' w'
  assume s: "storeSteps t a n st" "n \<le> tm w" and run: "bindQ m f (st, w) = (r, st', w')"
  obtain x st1 w1 where x: "m (st, w) = (x, st1, w1)" by (metis prod.collapse)
  note s1 = acts_then [OF m x s]
  show "storeSteps t a (tm w') st'"
    using run x runsFromD [OF f] s1 storeSteps_wait by (cases x) (auto simp: bindQ_def)
qed

lemma runs_try [runs]:
  assumes m: "actsAt tm n m" and f: "\<And>x. runsFrom tm n (f x)"
  shows "runsFrom tm n (tryQ m f)"
proof (rule runsFromI)
  fix t a st w r st' w'
  assume s: "storeSteps t a n st" "n \<le> tm w" and run: "tryQ m f (st, w) = (r, st', w')"
  obtain x st1 w1 where x: "m (st, w) = (x, st1, w1)" by (metis prod.collapse)
  have "f x (st1, w1) = (r, st', w')" using run x by (simp add: tryQ_def)
  then show "storeSteps t a (tm w') st'" using runsFromD [OF f] acts_then [OF m x s] by blast
qed

lemma runs_sum [runs]:
  "(\<And>e. actsAt tm n (f e)) \<Longrightarrow> (\<And>x. runsFrom tm n (g x)) \<Longrightarrow> runsFrom tm n (case r of Inl e \<Rightarrow> f e | Inr x \<Rightarrow> g x)"
  by (cases r) (auto intro: runs_acts)

lemma runs_option [runs]:
  "actsAt tm n f \<Longrightarrow> (\<And>x. runsFrom tm n (g x)) \<Longrightarrow> runsFrom tm n (case r of None \<Rightarrow> f | Some x \<Rightarrow> g x)"
  by (cases r) (auto intro: runs_acts)

lemma runs_prod [runs]: "(\<And>x y. runsFrom tm n (f x y)) \<Longrightarrow> runsFrom tm n (case p of (x, y) \<Rightarrow> f x y)"
  by (cases p) auto

lemma runs_clock:
  assumes run: "bindQ (clock c) (\<lambda>now. if IsZero now then failQ e else f now) (st, w) = (r, st', w')"
    and s: "storeSteps t a (tm w) st" and fair: "fairScheduler tm c" and f: "\<And>now. tm w \<le> now \<Longrightarrow> runsFrom tm now (f now)"
  shows "storeSteps t a (tm w') st'"
proof -
  obtain now w1 where now: "qc_Clock c w = (now, w1)" by fastforce
  note at = fair_clock [OF fair now]
  have s1: "storeSteps t a now st" using storeSteps_wait [OF s] at by blast
  show "storeSteps t a (tm w') st'"
  proof (cases "now = 0")
    case True
    then show ?thesis using run now storeSteps_wait [OF s1] at by (simp add: bindQ_def clock_def failQ_def)
  next
    case False
    then have "f now (st, w1) = (r, st', w')" using run now by (simp add: bindQ_def clock_def)
    then show ?thesis using f s1 at unfolding runsFrom_def by blast
  qed
qed

lemma acts_releaseRun: "fairScheduler tm c \<Longrightarrow> actsAt tm n (releaseRunSlot c at i sl)"
  unfolding releaseRunSlot_def by (intro acts acts_fair; assumption)

lemma runs_execute [runs]:
  assumes fair: "fairScheduler tm c"
  shows "runsFrom tm n (executeRun c x at cl sl v)"
  unfolding runsFrom_def
proof (intro allI impI)
  fix t a st w r st' w'
  assume s: "storeSteps t a n st" "n \<le> tm w" and run: "executeRun c x at cl sl v (st, w) = (r, st', w')"
  let ?work = "\<lparr>wk_Request = cl_Request cl, wk_Lease = cl_Lease cl, wk_Slot = v, wk_SlotLease = sl, wk_SlotID = sl_SlotID v,
    wk_EnvironmentGeneration = sl_EnvironmentGeneration v, wk_AgentHandle = sl_AgentHandle v\<rparr>"
  obtain rr re ce st1 w1 where o: "qc_runner c ?work (st, w) = ((rr, re, ce), st1, w1)" by (metis prod.collapse)
  have "storeSteps t a (tm w) st" using storeSteps_wait s by blast
  then have s1: "storeSteps t a (tm w1) st1" by (rule storeSteps_trans [OF fair_runner [OF fair o]])
  show "storeSteps t a (tm w') st'"
    using run unfolding executeRun_def Let_def bindQ_def [of "\<lambda>s. case qc_runner c _ s of (out, s') \<Rightarrow> (Inr out, s')"]
    apply (simp only: o prod.case sum.case)
    by (erule runs_clock [OF _ s1 fair]) (intro runs_acts acts acts_releaseRun fair)
qed

lemma runs_start [runs]: "fairScheduler tm c \<Longrightarrow> runsFrom tm n (startRun c x at cl sl v)"
  unfolding startRun_def Let_def by (intro runs acts acts_fair; assumption)

lemma passQ_steps:
  assumes fair: "fairScheduler tm c" and now: "0 < tm w" and run: "passQ c x (st, w) = (r, st', w')"
  shows "storeSteps (tm w) st (tm w') st'"
proof -
  have s: "storeSteps (tm w) st (tm w) st" by (simp add: storeSteps.wait)
  show ?thesis
    by (rule runs_clock [OF run [unfolded passQ_def] s fair], intro runs runs_acts acts; (rule fair | use now in linarith))
qed

text \<open>The scheduler after a pass is as fair as before.\<close>

lemma fair_refresh:
  assumes fair: "fairScheduler tm c" and r: "refreshConfig c (st, w) = (Inr c', st', w')"
  shows "fairScheduler tm c'"
proof -
  have "qc_Clock c' = qc_Clock c \<and> qc_NewID c' = qc_NewID c \<and> qc_Sink c' = qc_Sink c \<and> qc_runner c' = qc_runner c \<and>
      qc_RuntimeConfig c' = qc_RuntimeConfig c \<and> qc_Capabilities c' = qc_Capabilities c \<and>
      qc_SlotLeaseStopper c' = qc_SlotLeaseStopper c"
    using r by (auto simp: refreshConfig_def Let_def split: option.splits prod.splits sum.splits if_splits)
  then show ?thesis using fair by (simp add: fairScheduler_def)
qed

lemma refresh_store:
  assumes fair: "fairScheduler tm c" and r: "refreshConfig c (st, w) = (res, st', w')"
  shows "st' = st \<and> tm w \<le> tm w'"
proof (cases "qc_RuntimeConfig c")
  case (Some f)
  obtain x st1 w1 where f: "f (st, w) = (x, st1, w1)" by (metis prod.collapse)
  have "st1 = st" "tm w \<le> tm w1" using fair_runtime [OF fair Some f] by auto
  then show ?thesis using r Some f by (auto simp: refreshConfig_def Let_def split: sum.splits if_splits)
qed (use r in \<open>simp add: refreshConfig_def\<close>)

lemma RunOnce_steps:
  assumes fair: "fairScheduler tm (qs_config q)" and now: "0 < tm w" and run: "RunOnce q x (st, w) = (out, q', st', w')"
  shows "storeSteps (tm w) st (tm w') st' \<and> fairScheduler tm (qs_config q')"
proof -
  have idle: ?thesis if "st' = st" "tm w \<le> tm w'" "qs_config q' = qs_config q" using that fair by (simp add: storeSteps.wait)
  show ?thesis
  proof (cases "qs_stopping q \<or> x w \<noteq> None")
    case True
    then show ?thesis using run by (intro idle) (auto simp: RunOnce_def split: if_splits)
  next
    case False
    then obtain res st1 w1 where r: "refreshConfig (qs_config q) (st, w) = (res, st1, w1)" by (metis prod.collapse)
    note same = refresh_store [OF fair r]
    show ?thesis
    proof (cases res)
      case (Inl e)
      then show ?thesis using run r False same by (intro idle) (auto simp: RunOnce_def)
    next
      case (Inr c)
      have f: "fairScheduler tm c" using fair_refresh [OF fair] r Inr by blast
      obtain y st2 w2 where p: "passQ c x (st1, w1) = (y, st2, w2)" by (metis prod.collapse)
      have "storeSteps (tm w1) st1 (tm w2) st2" by (rule passQ_steps [OF f _ p]) (use now same in simp)
      then have "storeSteps (tm w) st (tm w2) st2" using same by (blast intro: storeSteps_trans storeSteps.wait)
      then show ?thesis using run r Inr p False f by (auto simp: RunOnce_def split: sum.splits)
    qed
  qed
qed

end
