(* ===== verification/QueueOutcomes.thy ===== *)
theory QueueOutcomes
  imports QueueFacts StoreFacts
begin

text \<open>
  What a pass of the scheduler reports against what the store holds afterwards, and the recovery of
  expired slot leases behind their fences.
\<close>

section \<open>Results that are stored\<close>

text \<open>An event that expects the current revision of its account is new, so its effect is in the store.\<close>

lemma account_stays:
  assumes inv: "store_inv d" and a: "applyEventTx e d = Inr (t, d1)" "\<not> tr_Idempotent t"
    and step: "storeStep d d'" and q: "kget (db_requests d') (ev_RequestID e) = Some (Json q)"
  shows "rq_AccountID q = ev_AccountID e"
proof -
  obtain q0 where q0: "kget (db_requests d) (ev_RequestID e) = Some (Json q0)" "rq_AccountID q0 = ev_AccountID e"
    by (rule applyEventTx_request [OF inv a])
  have "keepsRequests d d'" using storeRun_keeps [OF storeRun.step [OF storeRun.start step] inv] .
  then show ?thesis using q0 q unfolding keepsRequests_def laterRequest_def sameRequest_def by fastforce
qed

lemma complete_stored:
  assumes inv: "store_inv d" and s: "GetAccount (ev_AccountID e) d = Inr s" "ev_ExpectedRevision e = sn_Revision s"
    and ok: "CompleteRequestOwned cm e l d = (Inr t, d')" and q: "GetRequest (ev_RequestID e) d' = Inr q"
  shows "kget (db_requests d') (rq_RequestID q) = Some (Json q)" "rq_State q = ev_To e" "rq_RequestID q = ev_RequestID e"
    "rq_AccountID q = ev_AccountID e" "kget (db_leases d') (ev_AccountID e) = None"
proof -
  have tx: "finishTx e (Some l) False False d = Inr (t, d')"
    using ok by (auto simp: CompleteRequestOwned_def completeRequest_def update_Inr split: if_splits)
  obtain d1 where a: "applyEventTx e d = Inr (t, d1)" using tx by (auto simp: finishTx_def split: if_splits)
  have n: "\<not> tr_Idempotent t" using current_revision_new [OF a] s by (simp add: GetAccount_def view_def split: sum.splits)
  show "kget (db_leases d') (ev_AccountID e) = None" by (rule finishTx_new(2) [OF inv tx n])
  have d': "d' = deleteLease (ev_AccountID e) d1" using tx a n by (auto simp: finishTx_def split: if_splits sum.splits)
  have inv': "store_inv d'" unfolding d' using applyEventTx_inv [OF inv a] by (auto intro: inv_intros)
  have st: "kget (db_requests d') (ev_RequestID e) = Some (Json q)"
    using q requestFromTx_inv [OF store_invD(4) [OF inv']] by (simp add: GetRequest_def view_def split: sum.splits)
  show id: "rq_RequestID q = ev_RequestID e"
    using requestFromTx_ok [OF store_invD(4) [OF inv']] st requestFromTx_inv [OF store_invD(4) [OF inv']]
    by (simp add: requestOk_def)
  then show "kget (db_requests d') (rq_RequestID q) = Some (Json q)" using st by simp
  show "rq_AccountID q = ev_AccountID e"
    by (rule account_stays [OF inv a n storeStep.complete st]) (rule ok [unfolded CompleteRequestOwned_def])
  obtain q0 where q0: "db_requests d1 = kput (ev_RequestID e) (Json (requestAfter e t q0)) (db_requests d)"
    "rq_State (requestAfter e t q0) = ev_To e"
    using applyEventTx_request [OF inv a n] by metis
  have "requestAfter e t q0 = q" using st q0(1) by (simp add: d' deleteLease_def)
  then show "rq_State q = ev_To e" using q0(2) by metis
qed

lemma failure_stored:
  assumes inv: "store_inv d" and s: "GetAccount (ev_AccountID e) d = Inr s" "ev_ExpectedRevision e = sn_Revision s"
    and ok: "RecordFailureOwned cm e c at re l ax d = (Inr fr, d')"
  shows "kget (db_requests d') (rq_RequestID (fr_Request fr)) = Some (Json (fr_Request fr))"
    "rq_RequestID (fr_Request fr) = ev_RequestID e" "rq_AccountID (fr_Request fr) = ev_AccountID e" "kget (db_leases d') (ev_AccountID e) = None"
    "rq_LastFailure (fr_Request fr) = c"
    "if re = None then fr_Retried fr = None \<and> rq_State (fr_Request fr) = LoginFailed
     else fr_Retried fr \<noteq> None \<and> rq_State (fr_Request fr) = Queued \<and> rq_NotBefore (fr_Request fr) = at"
proof -
  have at: "re \<noteq> None \<Longrightarrow> at \<noteq> 0" and tx: "failureTx e c at re (Some l) ax d = Inr (fr, d')"
    using ok by (auto simp: RecordFailureOwned_def recordFailure_def update_Inr split: if_splits)
  have to: "ev_To e = LoginFailed" using ok by (auto simp: RecordFailureOwned_def recordFailure_def split: if_splits)
  have s': "snapshotFromTx d (ev_AccountID e) = Inr s" using s(1) by (simp add: GetAccount_def view_def split: sum.splits)
  obtain f d1 where a: "applyEventTx e d = Inr (f, d1)" using tx by (auto simp: failureTx_def)
  have nf: "\<not> tr_Idempotent f" by (rule current_revision_new [OF a s' s(2)])
  then have "fr_Failed fr = f"
    using tx a by (auto simp: failureTx_def Let_def split: sum.splits option.splits prod.splits)
  then have n: "\<not> tr_Idempotent (fr_Failed fr)" and a: "applyEventTx e d = Inr (fr_Failed fr, d1)" using nf a by simp_all
  have inv': "store_inv d'" by (rule failureTx_inv [OF inv at tx])
  have all: "kget (db_requests d') (ev_RequestID e) = Some (Json (fr_Request fr)) \<and> kget (db_leases d') (ev_AccountID e) = None \<and>
    rq_LastFailure (fr_Request fr) = c \<and>
    (if re = None then fr_Retried fr = None \<and> rq_State (fr_Request fr) = LoginFailed
     else fr_Retried fr \<noteq> None \<and> rq_State (fr_Request fr) = Queued \<and> rq_NotBefore (fr_Request fr) = at)"
  proof (cases re)
    case (Some r)
    then show ?thesis using failureTx_retry [OF inv _ tx [unfolded Some] n] at by auto
  next
    case None
    from tx n show ?thesis
    proof (rule failureTx_new)
      fix e1 d3
      assume a1: "applyEventTx e d = Inr (fr_Failed fr, e1)"
        and c: "case re of
           None \<Rightarrow> fr_Retried fr = None \<and> d3 = deleteLease (ev_AccountID e) e1 \<and>
             (\<exists>q. requestFromTx d3 (ev_RequestID e) = Inr q \<and>
                fr_Request fr = q\<lparr>rq_LastFailure := c, rq_UpdatedAt := ev_OccurredAt e\<rparr>)
         | Some r \<Rightarrow> (\<exists>t. fr_Retried fr = Some t \<and>
             requeueTx e c at (fr_Failed fr) r (deleteLease (ev_AccountID e) e1) = Inr ((t, fr_Request fr), d3))"
        and w: "setNotificationFailureTx (ev_EventID e) c (putRequest (fr_Request fr) d3) = Inr d'"
      obtain q where q: "fr_Retried fr = None" "d3 = deleteLease (ev_AccountID e) e1" "requestFromTx d3 (ev_RequestID e) = Inr q"
          "fr_Request fr = q\<lparr>rq_LastFailure := c, rq_UpdatedAt := ev_OccurredAt e\<rparr>"
        using c None by auto
      have i3: "store_inv d3" unfolding q(2) using applyEventTx_inv [OF inv a1] by (auto intro: inv_intros)
      have qs: "kget (db_requests d3) (ev_RequestID e) = Some (Json q)" "rq_RequestID q = ev_RequestID e"
        using q(3) requestFromTx_ok [OF store_invD(4) [OF i3] q(3)]
        by (simp_all add: requestFromTx_inv [OF store_invD(4) [OF i3]] requestOk_def)
      obtain q0 where q0: "db_requests e1 = kput (ev_RequestID e) (Json (requestAfter e (fr_Failed fr) q0)) (db_requests d)"
          "rq_State (requestAfter e (fr_Failed fr) q0) = ev_To e"
        using applyEventTx_request [OF inv a1 n] by metis
      have "requestAfter e (fr_Failed fr) q0 = q" using qs(1) q0(1) by (simp add: q(2) deleteLease_def)
      then have "rq_State q = LoginFailed" using q0(2) to by metis
      moreover obtain x where "d' = (putRequest (fr_Request fr) d3)\<lparr>db_notifications := x\<rparr>"
        using setNotificationFailureTx_frame [OF w] by blast
      ultimately show ?thesis using q qs None by (simp add: putRequest_def deleteLease_def)
    qed
  qed
  then show "rq_AccountID (fr_Request fr) = ev_AccountID e"
    by (intro account_stays [OF inv a n storeStep.failure]) (use ok in \<open>auto simp: RecordFailureOwned_def\<close>)
  have st: "requestFromTx d' (ev_RequestID e) = Inr (fr_Request fr)" using all by (simp add: requestFromTx_inv [OF store_invD(4) [OF inv']])
  show id: "rq_RequestID (fr_Request fr) = ev_RequestID e"
    using requestFromTx_ok [OF store_invD(4) [OF inv'] st] by (simp add: requestOk_def)
  show "kget (db_requests d') (rq_RequestID (fr_Request fr)) = Some (Json (fr_Request fr))" using all by (simp add: id)
  show "kget (db_leases d') (ev_AccountID e) = None" "rq_LastFailure (fr_Request fr) = c"
    "if re = None then fr_Retried fr = None \<and> rq_State (fr_Request fr) = LoginFailed
     else fr_Retried fr \<noteq> None \<and> rq_State (fr_Request fr) = Queued \<and> rq_NotBefore (fr_Request fr) = at"
    using all by blast+
qed

section \<open>Reports\<close>

text \<open>What a pass that did some work reports is in the store.\<close>

definition recorded :: "db \<Rightarrow> Outcome \<Rightarrow> bool" where
  "recorded d out \<longleftrightarrow> (let q = oc_Request out in
     kget (db_requests d) (rq_RequestID q) = Some (Json q) \<and>
     (if oc_Succeeded out then rq_State q = LoginSucceeded \<and> \<not> oc_Retried out \<and> kget (db_leases d) (rq_AccountID q) = None
      else if oc_Retried out then rq_State q = Queued \<and> rq_LastFailure q \<noteq> NoFailure \<and> kget (db_leases d) (rq_AccountID q) = None
      else rq_State q = Cancelled \<or>
        rq_State q = LoginFailed \<and> rq_LastFailure q \<noteq> NoFailure \<and> kget (db_leases d) (rq_AccountID q) = None))"

definition reported :: "Outcome \<times> error option \<Rightarrow> SlotStore \<Rightarrow> bool" where
  "reported r st \<longleftrightarrow> snd r = None \<longrightarrow> oc_Idle (fst r) \<or> recorded (sd_core (ss_db st)) (fst r)"

text \<open>The actions of the end of a run: those that report well from every consistent store.\<close>

definition sound :: "'a result \<Rightarrow> ('a \<Rightarrow> SlotStore \<Rightarrow> bool) \<Rightarrow> SlotStore \<Rightarrow> bool" where
  "sound r P st \<longleftrightarrow> (\<forall>x. r = Inr x \<longrightarrow> P x st)"

definition reports :: "gotime \<Rightarrow> ('w, 'a) qaction \<Rightarrow> ('a \<Rightarrow> SlotStore \<Rightarrow> bool) \<Rightarrow> bool" where
  "reports n m P \<longleftrightarrow> (\<forall>st w r st' w'. world_inv n (ss_db st) \<longrightarrow> 0 < n \<longrightarrow> m (st, w) = (Inr r, st', w') \<longrightarrow> P r st')"

lemma actsAt_inv:
  assumes "actsAt tm n m" "m (st, w) = (r, st', w')" "world_inv n (ss_db st)" "0 < n"
  shows "world_inv n (ss_db st')"
proof -
  have "storeSteps n st n st'" using actsAtD [OF assms(1,2)] storeSteps_at storeSteps.wait by blast
  then show ?thesis using storeSteps_keep assms(3,4) by blast
qed

named_theorems reporting

lemma rep_fail [reporting]: "reports n (failQ e) P"
  by (simp add: reports_def failQ_def)

lemma repI:
  "(\<And>st w r st' w'. world_inv n (ss_db st) \<Longrightarrow> 0 < n \<Longrightarrow> m (st, w) = (Inr r, st', w') \<Longrightarrow> P r st') \<Longrightarrow> reports n m P"
  unfolding reports_def by blast

lemma repD: "reports n m P \<Longrightarrow> m (st, w) = (Inr r, st', w') \<Longrightarrow> world_inv n (ss_db st) \<Longrightarrow> 0 < n \<Longrightarrow> P r st'"
  unfolding reports_def by blast

lemma rep_bind [reporting]:
  assumes "actsAt tm n m" "\<And>x. reports n (f x) P"
  shows "reports n (bindQ m f) P"
proof (rule repI)
  fix st w r st' w'
  assume w: "world_inv n (ss_db st)" "0 < n" and run: "bindQ m f (st, w) = (Inr r, st', w')"
  obtain x st1 w1 where m: "m (st, w) = (Inr x, st1, w1)" "f x (st1, w1) = (Inr r, st', w')"
    using run by (auto simp: bindQ_def split: prod.splits sum.splits)
  show "P r st'" by (rule repD [OF assms(2) m(2) actsAt_inv [OF assms(1) m(1) w] w(2)])
qed

lemma rep_try [reporting]:
  assumes "actsAt tm n m" "\<And>x. reports n (f x) P"
  shows "reports n (tryQ m f) P"
proof (rule repI)
  fix st w r st' w'
  assume w: "world_inv n (ss_db st)" "0 < n" and run: "tryQ m f (st, w) = (Inr r, st', w')"
  obtain x st1 w1 where m: "m (st, w) = (x, st1, w1)" "f x (st1, w1) = (Inr r, st', w')"
    using run by (auto simp: tryQ_def split: prod.splits)
  show "P r st'" by (rule repD [OF assms(2) m(2) actsAt_inv [OF assms(1) m(1) w] w(2)])
qed

lemma rep_if [reporting]: "(b \<Longrightarrow> reports n m P) \<Longrightarrow> (\<not> b \<Longrightarrow> reports n k P) \<Longrightarrow> reports n (if b then m else k) P"
  by simp

lemma rep_sum [reporting]:
  "(\<And>e. reports n (f e) P) \<Longrightarrow> (\<And>x. reports n (g x) P) \<Longrightarrow> reports n (case r of Inl e \<Rightarrow> f e | Inr x \<Rightarrow> g x) P"
  by (cases r) auto

lemma rep_option:
  "reports n f P \<Longrightarrow> (\<And>x. reports n (g x) P) \<Longrightarrow> reports n (case r of None \<Rightarrow> f | Some x \<Rightarrow> g x) P"
  by (cases r) auto

lemma bind_record: "bindQ (queueRecord c at op out i e d) f (st, w) = f () (st, qc_Sink c \<lparr>oe_At = at, oe_Component = ''queue'', oe_Operation = op, oe_Outcome = out,
       oe_RequestID = RedactIdentifier i, oe_Resource = [], oe_ErrorClass = e, oe_Duration = d\<rparr> w)"
  by (simp add: bindQ_def queueRecord_def sink_def)

lemma coreQ_run:
  "coreQ c f (st, w) = (r, st', w') \<longleftrightarrow>
     (\<exists>d. f (\<lambda>core. qc_commit c w ((ss_db st)\<lparr>sd_core := core\<rparr>)) (sd_core (ss_db st)) = (r, d) \<and>
        st' = st\<lparr>ss_db := (ss_db st)\<lparr>sd_core := d\<rparr>\<rparr> \<and> w' = w)"
  by (auto simp: coreQ_def slotsQ_def Let_def split: prod.splits)

lemma world_core: "world_inv n (ss_db st) \<Longrightarrow> store_inv (sd_core (ss_db st))"
  by (simp add: world_inv_def)

lemma event_sel [simp]:
  "ev_AccountID (queueEvent c i a q from v to why at) = a" "ev_RequestID (queueEvent c i a q from v to why at) = q"
  "ev_ExpectedRevision (queueEvent c i a q from v to why at) = v" "ev_To (queueEvent c i a q from v to why at) = to"
  "ev_From (queueEvent c i a q from v to why at) = from" "ev_OccurredAt (queueEvent c i a q from v to why at) = at"
  by (simp_all add: queueEvent_def)

lemma finishSuccess_run:
  assumes "finishSuccess c at q l o0 (st, w) = (Inr (out, None), st', w')"
  obtains s i cm t d cur where "GetAccount (rq_AccountID q) (sd_core (ss_db st)) = Inr s"
    "CompleteRequestOwned cm (queueEvent c i (rq_AccountID q) (rq_RequestID q) LoggingIn (sn_Revision s) LoginSucceeded
       ''session runner succeeded'' at) l (sd_core (ss_db st)) = (Inr t, d)"
    "st' = st\<lparr>ss_db := (ss_db st)\<lparr>sd_core := d\<rparr>\<rparr>" "GetRequest (rq_RequestID q) d = Inr cur"
    "out = o0\<lparr>oc_Succeeded := True, oc_Request := cur\<rparr>"
  using assms unfolding finishSuccess_def
  by (auto simp: bindQ_def tryQ_def readQ_def newID_def coreQ_run retQ_def split: prod.splits sum.splits)

lemma finishSuccess_reports:
  assumes "\<not> oc_Retried o0"
  shows "reports n (finishSuccess c at q l o0) reported"
proof (rule repI)
  fix st w r st' w'
  assume inv: "world_inv n (ss_db st)" and run: "finishSuccess c at q l o0 (st, w) = (Inr r, st', w')"
  show "reported r st'"
  proof (cases r)
    case (Pair out e)
    show ?thesis
    proof (cases e)
      case None
      from run [unfolded Pair None] show ?thesis
      proof (cases rule: finishSuccess_run)
        case (1 s i cm t d cur)
        note C = complete_stored [OF world_core [OF inv] _ _ 1(2), of s cur, unfolded event_sel, OF 1(1) HOL.refl 1(4)]
        show ?thesis using C assms by (simp add: Pair None 1(3,5) reported_def recorded_def Let_def)
      qed
    qed (simp add: Pair reported_def)
  qed
qed

lemma finishFailure_run:
  assumes "finishFailure c at q l ax cl (st, w) = (Inr out, st', w')"
  obtains s i re cm d fr delay why where "GetAccount (rq_AccountID q) (sd_core (ss_db st)) = Inr s"
    "RecordFailureOwned cm (queueEvent c i (rq_AccountID q) (rq_RequestID q) LoggingIn (sn_Revision s) LoginFailed why at)
       cl (Add at delay) re l ax (sd_core (ss_db st)) = (Inr fr, d)"
    "st' = st\<lparr>ss_db := (ss_db st)\<lparr>sd_core := d\<rparr>\<rparr>"
    "out = zeroOutcome\<lparr>oc_Request := fr_Request fr, oc_Retried := (fr_Retried fr \<noteq> None)\<rparr>"
  using assms unfolding finishFailure_def
  by (auto simp: bindQ_def readQ_def newID_def coreQ_run retQ_def split: prod.splits sum.splits if_splits)

lemma finishFailure_reports:
  "cl \<noteq> NoFailure \<Longrightarrow> reports n (finishFailure c at q l ax cl) (\<lambda>out. reported (out, None))"
proof (rule repI)
  fix st w out st' w'
  assume cl: "cl \<noteq> NoFailure" and inv: "world_inv n (ss_db st)" and run: "finishFailure c at q l ax cl (st, w) = (Inr out, st', w')"
  from run show "reported (out, None) st'"
  proof (cases rule: finishFailure_run)
    case (1 s i re cm d fr delay why)
    note F = failure_stored [OF world_core [OF inv] _ _ 1(2), of s, unfolded event_sel, OF 1(1) HOL.refl]
    show ?thesis using F cl
      by (auto simp: 1(3,4) reported_def recorded_def Let_def zeroOutcome_def split: if_splits)
  qed
qed

lemma request_stored:
  assumes "store_inv d" "GetRequest i d = Inr q"
  shows "kget (db_requests d) i = Some (Json q) \<and> rq_RequestID q = i"
proof -
  have q: "requestFromTx d i = Inr q" using assms(2) by (simp add: GetRequest_def view_def split: sum.splits)
  then show ?thesis
    using requestFromTx_ok [OF store_invD(4) [OF assms(1)] q]
    by (simp add: requestFromTx_inv [OF store_invD(4) [OF assms(1)]] requestOk_def)
qed

lemma cancelled_reported:
  assumes "world_inv n (ss_db st)" "GetRequest i (sd_core (ss_db st)) = Inr q" "rq_State q = Cancelled"
  shows "reported (zeroOutcome\<lparr>oc_Request := q\<rparr>, None) st"
  using request_stored [OF world_core [OF assms(1)] assms(2)] assms(3)
  by (auto simp: reported_def recorded_def zeroOutcome_def)

lemma raceOrFail_reports: "reports n (raceOrFail c at d i o0 e) reported"
proof (rule repI)
  fix st w r st' w'
  assume inv: "world_inv n (ss_db st)" and run: "raceOrFail c at d i o0 e (st, w) = (Inr r, st', w')"
  show "reported r st'"
    using run cancelled_reported [OF inv, of i]
    by (auto simp: raceOrFail_def resolveCancellationRace_def bindQ_def tryQ_def readQ_def retQ_def queueRecord_def sink_def
        reported_def split: if_splits sum.splits)
qed

lemma rep_then:
  assumes m: "actsAt tm n m" "reports n m Q" and a: "\<And>e. reports n (A e) P"
    and b: "\<And>x st w r st' w'. world_inv n (ss_db st) \<Longrightarrow> 0 < n \<Longrightarrow> Q x st \<Longrightarrow> B x (st, w) = (Inr r, st', w') \<Longrightarrow> P r st'"
  shows "reports n (tryQ m (\<lambda>r. case r of Inl e \<Rightarrow> A e | Inr x \<Rightarrow> B x)) P"
proof (rule repI)
  fix st w r st' w'
  assume w: "world_inv n (ss_db st)" "0 < n"
    and run: "tryQ m (\<lambda>r. case r of Inl e \<Rightarrow> A e | Inr x \<Rightarrow> B x) (st, w) = (Inr r, st', w')"
  obtain y st1 w1 where y: "m (st, w) = (y, st1, w1)" by (metis prod.collapse)
  note inv = actsAt_inv [OF m(1) y w]
  show "P r st'"
  proof (cases y)
    case (Inl e)
    then show ?thesis using run y repD [OF a _ inv w(2)] by (auto simp: tryQ_def)
  next
    case (Inr x)
    have "Q x st1" by (rule repD [OF m(2) y [unfolded Inr] w])
    then show ?thesis using b [OF inv w(2)] run y Inr by (auto simp: tryQ_def)
  qed
qed

lemma record_ret:
  "bindQ (queueRecord c at op out i e d) (\<lambda>_. retQ x) (st, w) = (Inr r, st', w') \<Longrightarrow> r = x \<and> st' = st"
  by (auto simp: bindQ_def queueRecord_def sink_def retQ_def)

lemma finishRun_reports:
  assumes fair: "fairScheduler tm c"
  shows "reports n (finishRun c at d cl result) reported"
proof -
  let ?q = "cl_Request cl"
  have ok: "reports n (tryQ (finishSuccess c at ?q (cl_Lease cl) (zeroOutcome\<lparr>oc_Request := ?q\<rparr>)) (\<lambda>r. case r of
      Inl e \<Rightarrow> raceOrFail c at d (rq_RequestID ?q) zeroOutcome e
    | Inr (outcome, Some e) \<Rightarrow> raceOrFail c at d (rq_RequestID ?q) outcome e
    | Inr (outcome, None) \<Rightarrow>
        bindQ (queueRecord c at ''run'' ''succeeded'' (rq_RequestID ?q) [] d) (\<lambda>_. retQ (outcome, None)))) reported"
  proof (rule rep_then [OF acts_results(1) [OF fair] finishSuccess_reports raceOrFail_reports])
    fix x st w r st' w'
    assume w: "world_inv n (ss_db st)" "0 < n" and x: "reported x st"
      and run: "(case x of
          (outcome, None) \<Rightarrow> bindQ (queueRecord c at ''run'' ''succeeded'' (rq_RequestID ?q) [] d) (\<lambda>_. retQ (outcome, None))
        | (outcome, Some e) \<Rightarrow> raceOrFail c at d (rq_RequestID ?q) outcome e) (st, w) = (Inr r, st', w')"
    obtain out e where xe: "x = (out, e)" by fastforce
    show "reported r st'"
    proof (cases e)
      case None
      then show ?thesis using run x unfolding xe by (auto dest: record_ret)
    next
      case (Some y)
      then show ?thesis using run repD [OF raceOrFail_reports _ w] unfolding xe by simp
    qed
  qed (simp add: zeroOutcome_def)
  have bad: "reports n (tryQ (finishFailure c at ?q (cl_Lease cl) False cls) (\<lambda>r. case r of
      Inl e \<Rightarrow> raceOrFail c at d (rq_RequestID ?q) zeroOutcome e
    | Inr outcome \<Rightarrow> bindQ (queueRecord c at ''run'' (k outcome) (rq_RequestID ?q) t d) (\<lambda>_. retQ (outcome, None)))) reported"
    if "cls \<noteq> NoFailure" for cls k t
    by (rule rep_then [OF acts_results(2) [OF fair] finishFailure_reports [OF that] raceOrFail_reports])
      (auto dest: record_ret)
  have cls: "(if \<not> validFailure f then UnknownFailure else f) \<noteq> NoFailure" for f by (simp add: validFailure_def)
  show ?thesis
    unfolding finishRun_def Let_def
    by (intro rep_bind [OF acts_revoke(1) [OF fair]] rep_if ok bad cls)
qed

section \<open>Runs that failed\<close>

text \<open>The slot is settled without touching the requests.\<close>

lemma quiet_store: "quietCall tm f \<Longrightarrow> callQ f (st, w) = (r, st', w') \<Longrightarrow> st' = st"
  by (fastforce simp: callQ_def quietCall_def split: prod.splits)

lemma revoke_store:
  assumes fair: "fairScheduler tm c"
  shows "revokeRequest c i (st, w) = (r, st', w') \<Longrightarrow> st' = st"
    and "revokeSlotLease c i (st, w) = (r, st', w') \<Longrightarrow> st' = st"
  using fair
  by (auto simp: revokeRequest_def revokeSlotLease_def retQ_def fairScheduler_def split: option.splits if_splits
      dest: quiet_store)

lemma settled_acts: "fairScheduler tm c \<Longrightarrow> actsAt tm n (settleRunSlot c n i sl b)"
  unfolding settleRunSlot_def quarantineRunSlot_def releaseRunSlot_def by (intro acts acts_fair; assumption)

lemma settled_core:
  assumes fair: "fairScheduler tm c" and run: "settleRunSlot c at i sl b (st, w) = (r, st', w')"
  shows "sd_core (ss_db st') = sd_core (ss_db st)"
proof -
  obtain r1 st1 w1 where r1: "revokeSlotLease c (sk_LeaseID sl) (st, w) = (r1, st1, w1)" by (metis prod.collapse)
  have s1: "st1 = st" by (rule revoke_store(2) [OF fair r1])
  have q: "sd_core d' = sd_core d" if "QuarantineSlotLease cm k l u t y d = (res, d')" for cm k l u t y d res d'
    using that by (auto simp: QuarantineSlotLease_def update_def quarantineLeaseTx_def Let_def split: sum.splits option.splits if_splits)
  have f: "sd_core d' = sd_core d" if "Store_ReleaseSlotLease cm k l u d = (res, d')" for cm k l u d res d'
    using that by (auto simp: Store_ReleaseSlotLease_def update_def releaseSlotTx_def Let_def split: sum.splits option.splits if_splits)
  from run show ?thesis
    using r1 s1 unfolding settleRunSlot_def quarantineRunSlot_def releaseRunSlot_def
    by (auto simp: bindQ_def retQ_def slotsQ_def slotRecord_def sink_def Let_def split: if_splits sum.splits prod.splits
        dest: q f)
qed

lemma readAgain_run:
  assumes "early = None \<or> early = Some (GetRequest i (sd_core (ss_db st)))"
  shows "readAgain early i (st, w) = (GetRequest i (sd_core (ss_db st)), st, w)"
  using assms by (auto simp: readAgain_def failQ_def retQ_def readQ_def split: sum.splits)

lemma settle_run:
  fixes c :: "'w QueueConfig"
  assumes fair: "fairScheduler tm c" and run: "settleFailedRun c x n d i sl re ce (st, w) = (Inr (Some out), st', w')"
  obtains b w1 q where "settleRunSlot c n i sl b (st, w) = (Inr (), st', w1)" "GetRequest i (sd_core (ss_db st)) = Inr q"
    "rq_State q = Cancelled" "out = zeroOutcome\<lparr>oc_Request := q\<rparr>"
proof -
  let ?early = "if re \<noteq> None then Some (GetRequest i (sd_core (ss_db st))) else None"
  define b where "b = ((re \<noteq> None \<or> ce \<noteq> None \<and> x w = None) \<and> \<not> (x w \<noteq> None \<or> durablyCancelled ?early))"
  obtain r1 st1 w1 where s: "settleRunSlot c n i sl b (st, w) = (r1, st1, w1)" by (metis prod.collapse)
  have core: "sd_core (ss_db st1) = sd_core (ss_db st)" by (rule settled_core [OF fair s])
  have g: "readAgain ?early i (st1, w1) = (GetRequest i (sd_core (ss_db st)), st1, w1)"
    using readAgain_run [of ?early i st1 w1] by (simp add: core)
  have e: "(if re \<noteq> None then tryQ (getRequest i) (\<lambda>r. retQ (Some r)) else retQ None) (st, w) = (Inr ?early, st, w)"
    by (simp add: tryQ_def readQ_def retQ_def)
  let ?tail = "\<lambda>r. case r of
       Inl e \<Rightarrow>
         bindQ (tolerate (\<lambda>_. True) (revokeRequest c i)) (\<lambda>_.
         bindQ (queueRecord c n ''run'' ''failed'' i ''store_error'' d) (\<lambda>_. failQ e))
     | Inr current \<Rightarrow>
         if rq_State current = Cancelled then
           bindQ (revokeRequest c i) (\<lambda>_.
           bindQ (queueRecord c n ''run'' ''cancelled'' i [] d) (\<lambda>_. retQ (Some (zeroOutcome\<lparr>oc_Request := current\<rparr>))))
         else retQ None"
  have bind: "bindQ m f s = (case r of Inl e \<Rightarrow> (Inl e, s1) | Inr y \<Rightarrow> f y s1)" if "m s = (r, s1)"
    for m :: "('w, 'e) qaction" and f :: "'e \<Rightarrow> ('w, 'd) qaction" and s r s1
    using that by (simp add: bindQ_def)
  have "settleFailedRun c x n d i sl re ce (st, w) =
      (case r1 of Inl e \<Rightarrow> (Inl e, st1, w1) | Inr _ \<Rightarrow> ?tail (GetRequest i (sd_core (ss_db st))) (st1, w1))"
    unfolding settleFailedRun_def 
      bind [of "if re \<noteq> None then tryQ (getRequest i) (\<lambda>r. retQ (Some r)) else retQ None" "(st, w)", OF e] sum.case
      bindQ_def [of "\<lambda>s. (Inr (x (snd s)), s)"] prod.case snd_conv bind [of "settleRunSlot c n i sl _" "(st, w)", OF s [unfolded b_def]] tryQ_def g Let_def
    by (rule HOL.refl)
  then have r: "r1 = Inr ()" "?tail (GetRequest i (sd_core (ss_db st))) (st1, w1) = (Inr (Some out), st', w')"
    using run by (auto split: sum.splits)
  obtain q where q: "GetRequest i (sd_core (ss_db st)) = Inr q" "rq_State q = Cancelled"
    "bindQ (revokeRequest c i) (\<lambda>_. bindQ (queueRecord c n ''run'' ''cancelled'' i [] d) (\<lambda>_.
       retQ (Some (zeroOutcome\<lparr>oc_Request := q\<rparr>)))) (st1, w1) = (Inr (Some out), st', w')"
    using r(2) by (cases "GetRequest i (sd_core (ss_db st))") (auto simp: bindQ_def failQ_def retQ_def split: if_splits prod.splits sum.splits)
  obtain r2 st2 w2 where r2: "revokeRequest c i (st1, w1) = (r2, st2, w2)" by (metis prod.collapse)
  have "st2 = st1" by (rule revoke_store(1) [OF fair r2])
  then have "out = zeroOutcome\<lparr>oc_Request := q\<rparr>" "st' = st1"
    using q(3) r2 by (auto simp: bindQ_def queueRecord_def sink_def retQ_def split: sum.splits)
  then show thesis using that [of b w1 q] s r(1) q(1,2) by simp
qed

lemma settle_reports:
  assumes fair: "fairScheduler tm c"
  shows "reports n (settleFailedRun c x n d i sl re ce) (\<lambda>r st. \<forall>out. r = Some out \<longrightarrow> reported (out, None) st)"
proof (intro repI allI impI)
  fix st w r st' w' out
  assume inv: "world_inv n (ss_db st)" and pos: "0 < n" and run: "settleFailedRun c x n d i sl re ce (st, w) = (Inr r, st', w')"
    and r: "r = Some out"
  from fair run [unfolded r] show "reported (out, None) st'"
  proof (rule settle_run)
    fix b w1 q
    assume s: "settleRunSlot c n i sl b (st, w) = (Inr (), st', w1)" and q: "GetRequest i (sd_core (ss_db st)) = Inr q"
      "rq_State q = Cancelled" and out: "out = zeroOutcome\<lparr>oc_Request := q\<rparr>"
    have "world_inv n (ss_db st')" by (rule actsAt_inv [OF settled_acts [OF fair] s inv pos])
    then show ?thesis unfolding out using cancelled_reported q settled_core [OF fair s] by simp
  qed
qed

section \<open>The pass\<close>

text \<open>Actions from a time \<open>n\<close>, during which time may pass.\<close>

definition reportsFrom :: "('w \<Rightarrow> gotime) \<Rightarrow> gotime \<Rightarrow> ('w, Outcome \<times> error option) qaction \<Rightarrow> bool" where
  "reportsFrom tm n m \<longleftrightarrow> (\<forall>st w r st' w'. world_inv n (ss_db st) \<longrightarrow> 0 < n \<longrightarrow> n \<le> tm w \<longrightarrow>
     m (st, w) = (Inr r, st', w') \<longrightarrow> reported r st')"

lemma from_reports: "reports n m reported \<Longrightarrow> reportsFrom tm n m"
  unfolding reportsFrom_def reports_def by blast

lemma fromI:
  "(\<And>st w r st' w'. world_inv n (ss_db st) \<Longrightarrow> 0 < n \<Longrightarrow> n \<le> tm w \<Longrightarrow> m (st, w) = (Inr r, st', w') \<Longrightarrow> reported r st') \<Longrightarrow>
     reportsFrom tm n m"
  unfolding reportsFrom_def by blast

lemma fromD:
  "reportsFrom tm n m \<Longrightarrow> m (st, w) = (Inr r, st', w') \<Longrightarrow> world_inv n (ss_db st) \<Longrightarrow> 0 < n \<Longrightarrow> n \<le> tm w \<Longrightarrow> reported r st'"
  unfolding reportsFrom_def by blast

lemma from_bind:
  assumes m: "actsAt tm n m" and f: "\<And>x. reportsFrom tm n (f x)"
  shows "reportsFrom tm n (bindQ m f)"
proof (rule fromI)
  fix st w r st' w'
  assume w: "world_inv n (ss_db st)" "0 < n" "n \<le> tm w" and run: "bindQ m f (st, w) = (Inr r, st', w')"
  obtain x st1 w1 where m1: "m (st, w) = (Inr x, st1, w1)" "f x (st1, w1) = (Inr r, st', w')"
    using run by (auto simp: bindQ_def split: prod.splits sum.splits)
  have "n \<le> tm w1" using actsAtD [OF m m1(1)] w(3) by simp
  then show "reported r st'" by (rule fromD [OF f m1(2) actsAt_inv [OF m m1(1) w(1,2)] w(2)])
qed

lemma from_try:
  assumes m: "actsAt tm n m" and f: "\<And>x. reportsFrom tm n (f x)"
  shows "reportsFrom tm n (tryQ m f)"
proof (rule fromI)
  fix st w r st' w'
  assume w: "world_inv n (ss_db st)" "0 < n" "n \<le> tm w" and run: "tryQ m f (st, w) = (Inr r, st', w')"
  obtain x st1 w1 where m1: "m (st, w) = (x, st1, w1)" "f x (st1, w1) = (Inr r, st', w')"
    using run by (auto simp: tryQ_def split: prod.splits)
  have "n \<le> tm w1" using actsAtD [OF m m1(1)] w(3) by simp
  then show "reported r st'" by (rule fromD [OF f m1(2) actsAt_inv [OF m m1(1) w(1,2)] w(2)])
qed

lemma from_clock:
  assumes run: "bindQ (clock c) (\<lambda>now. if IsZero now then failQ e else f now) (st, w) = (Inr r, st', w')"
    and fair: "fairScheduler tm c" and w: "world_inv (tm w) (ss_db st)" "0 < tm w"
    and f: "\<And>now. reportsFrom tm now (f now)"
  shows "reported r st'"
proof -
  obtain now w1 where now: "qc_Clock c w = (now, w1)" by fastforce
  note at = fair_clock [OF fair now]
  have f1: "f now (st, w1) = (Inr r, st', w')" using run now w at by (auto simp: bindQ_def clock_def failQ_def split: if_splits)
  show ?thesis by (rule fromD [OF f f1 world_inv_mono [OF w(1)]]) (use w at in auto)
qed

lemma execute_reports:
  assumes fair: "fairScheduler tm c"
  shows "reportsFrom tm n (executeRun c x at cl sl v)"
proof (rule fromI)
  fix st w r st' w'
  assume w: "world_inv n (ss_db st)" "0 < n" "n \<le> tm w" and run: "executeRun c x at cl sl v (st, w) = (Inr r, st', w')"
  let ?work = "\<lparr>wk_Request = cl_Request cl, wk_Lease = cl_Lease cl, wk_Slot = v, wk_SlotLease = sl, wk_SlotID = sl_SlotID v,
    wk_EnvironmentGeneration = sl_EnvironmentGeneration v, wk_AgentHandle = sl_AgentHandle v\<rparr>"
  obtain rr re ce st1 w1 where o: "qc_runner c ?work (st, w) = ((rr, re, ce), st1, w1)" by (metis prod.collapse)
  have s: "world_inv (tm w) (ss_db st)" "0 < tm w" using world_inv_mono [OF w(1,3)] w by auto
  have s1: "world_inv (tm w1) (ss_db st1)" "0 < tm w1" using storeSteps_keep [OF fair_runner [OF fair o] s] s(2) by auto
  have settled: "reports now (bindQ (settleFailedRun c x now d i sl re ce) (\<lambda>settled. case settled of
      Some outcome \<Rightarrow> retQ (outcome, None) | None \<Rightarrow> finishRun c now d cl result)) reported" for now d i result
  proof (rule repI)
    fix st w r st' w'
    assume inv: "world_inv now (ss_db st)" "0 < now" and run: "bindQ (settleFailedRun c x now d i sl re ce) (\<lambda>settled. case settled of
      Some outcome \<Rightarrow> retQ (outcome, None) | None \<Rightarrow> finishRun c now d cl result) (st, w) = (Inr r, st', w')"
    obtain y st1 w1 where y: "settleFailedRun c x now d i sl re ce (st, w) = (Inr y, st1, w1)"
      "(case y of Some outcome \<Rightarrow> retQ (outcome, None) | None \<Rightarrow> finishRun c now d cl result) (st1, w1) = (Inr r, st', w')"
      using run by (auto simp: bindQ_def split: prod.splits sum.splits)
    note inv1 = actsAt_inv [OF acts_settle [OF fair] y(1) inv]
    show "reported r st'"
    proof (cases y)
      case None
      then show ?thesis using repD [OF finishRun_reports [OF fair] _ inv1 inv(2)] y(2) by simp
    next
      case (Some out)
      then show ?thesis using repD [OF settle_reports [OF fair] y(1) inv] y(2) by (auto simp: retQ_def)
    qed
  qed
  have "bindQ (clock c) (\<lambda>finishedAt. if IsZero finishedAt then failQ (QueueErr ErrInvalidConfig_queue)
     else
       let duration = (if Sub finishedAt at < 0 then 0 else Sub finishedAt at)
       in if re \<noteq> None \<or> ce \<noteq> None then
            bindQ (settleFailedRun c x finishedAt duration (rq_RequestID (cl_Request cl)) sl re ce) (\<lambda>settled.
            case settled of
              Some outcome \<Rightarrow> retQ (outcome, None)
            | None \<Rightarrow> finishRun c finishedAt duration cl \<lparr>rr_Succeeded = False, rr_Failure = TransientFailure\<rparr>)
          else
            bindQ (if sk_LeaseID sl = [] then retQ () else releaseRunSlot c finishedAt (rq_RequestID (cl_Request cl)) sl) (\<lambda>_.
            finishRun c finishedAt duration cl rr)) (st1, w1) = (Inr r, st', w')"
    using run unfolding executeRun_def Let_def bindQ_def [of "\<lambda>s. case qc_runner c _ s of (out, s') \<Rightarrow> (Inr out, s')"]
    by (simp only: o prod.case sum.case)
  then show "reported r st'"
    unfolding Let_def
  proof (rule from_clock [OF _ fair s1])
    fix now
    let ?d = "if Sub now at < 0 then 0 else Sub now at"
    have released: "actsAt tm now (if sk_LeaseID sl = [] then retQ ()
        else releaseRunSlot c now (rq_RequestID (cl_Request cl)) sl)"
      by (intro acts acts_releaseRun fair)
    show "reportsFrom tm now (if re \<noteq> None \<or> ce \<noteq> None then
        bindQ (settleFailedRun c x now ?d (rq_RequestID (cl_Request cl)) sl re ce) (\<lambda>settled. case settled of
          Some outcome \<Rightarrow> retQ (outcome, None)
        | None \<Rightarrow> finishRun c now ?d cl \<lparr>rr_Succeeded = False, rr_Failure = TransientFailure\<rparr>)
      else bindQ (if sk_LeaseID sl = [] then retQ () else releaseRunSlot c now (rq_RequestID (cl_Request cl)) sl) (\<lambda>_.
        finishRun c now ?d cl rr))"
      by (rule from_reports, rule rep_if, rule settled, rule rep_bind [OF released finishRun_reports [OF fair]])
  qed
qed

lemma start_reports: "fairScheduler tm c \<Longrightarrow> reportsFrom tm n (startRun c x at cl sl v)"
proof -
  assume fair: "fairScheduler tm c"
  have failed: "reports n (startFailed c at cl sl e) reported" for e
    unfolding startFailed_def Let_def by (intro rep_bind [where tm = tm] rep_fail acts acts_fair fair)
  have branch: "reportsFrom tm n (case r of Inl e \<Rightarrow> startFailed c at cl sl e | Inr _ \<Rightarrow> executeRun c x at cl sl v)" for r
    by (cases r) (simp_all add: from_reports [OF failed] execute_reports [OF fair])
  show ?thesis
    unfolding startRun_def Let_def by (intro from_bind from_try branch acts acts_fair fair)
qed

lemma RunOnce_reports:
  assumes fair: "fairScheduler tm (qs_config q)" and w: "world_inv (tm w) (ss_db st)" "0 < tm w"
    and run: "RunOnce q x (st, w) = ((out, None), q', st', w')"
  shows "oc_Idle out \<or> recorded (sd_core (ss_db st')) out"
proof -
  obtain c st1 w1 where r: "refreshConfig (qs_config q) (st, w) = (Inr c, st1, w1)" and p: "passQ c x (st1, w1) = (Inr (out, None), st', w')"
    using run by (auto simp: RunOnce_def split: if_splits option.splits sum.splits prod.splits)
  have same: "st1 = st" "tm w \<le> tm w1" using refresh_store [OF fair r] by auto
  have f: "fairScheduler tm c" by (rule fair_refresh [OF fair r])
  have w1: "world_inv (tm w1) (ss_db st1)" "0 < tm w1" using world_inv_mono [OF w(1) same(2)] same w(2) by auto
  have "reported (out, None) st'"
    using p unfolding passQ_def
  proof (rule from_clock [OF _ f w1])
    fix now
    have go: "reportsFrom tm now (case y of None \<Rightarrow> retQ (zeroOutcome\<lparr>oc_Idle := True\<rparr>, None)
        | Some (claim, slotLease, value) \<Rightarrow> startRun c x now claim slotLease value)" for y
    proof (cases y)
      case None
      then show ?thesis by (auto simp: reportsFrom_def retQ_def reported_def)
    next
      case (Some z)
      then show ?thesis using start_reports [OF f] by (cases z) simp
    qed
    show "reportsFrom tm now
     (bindQ (guarded c now ''recovery'' (recoverExpired c now)) (\<lambda>_.
       bindQ (guarded c now ''deadline'' (expireQueued c now)) (\<lambda>_.
       bindQ (if TrimSpace (qc_SlotPoolID c) = [] then retQ ()
              else guarded c now ''slot-recovery'' (recoverExpiredSlotLeases c now)) (\<lambda>_.
       bindQ (claimWork c now) (\<lambda>claimed. case claimed of
           None \<Rightarrow> retQ (zeroOutcome\<lparr>oc_Idle := True\<rparr>, None)
         | Some (claim, slotLease, value) \<Rightarrow> startRun c x now claim slotLease value)))))"
    proof (cases "0 < now")
      case True
      show ?thesis by (intro from_bind go acts f True)
    qed (simp add: reportsFrom_def)
  qed
  then show ?thesis by (simp add: reported_def)
qed

end
