(* ===== verification/QueueProps.thy ===== *)
theory QueueProps
  imports QueueOutcomes SlotDemo
begin

text \<open>
  The properties of the scheduler: a pass is a run of the store, what it reports is stored, and an
  expired slot lease goes only behind its fence.
\<close>

section \<open>Fences\<close>

definition stopped :: "'w QueueConfig \<Rightarrow> SlotLease \<Rightarrow> bool" where
  "stopped c l \<longleftrightarrow> (\<exists>stop s s'. qc_SlotLeaseStopper c = Some stop \<and> stop l s = (None, s'))"

definition revoked :: "'w QueueConfig \<Rightarrow> SlotLease \<Rightarrow> bool" where
  "revoked c l \<longleftrightarrow> (\<forall>v. qc_Capabilities c = Some v \<longrightarrow> (\<exists>s s'. qr_RevokeSlotLease v (sk_LeaseID l) s = (None, s')))"

lemma loop_invariant:
  assumes keep: "\<And>x st w r st' w'. P st \<Longrightarrow> f x (st, w) = (r, st', w') \<Longrightarrow> P st'"
    and "loopQ f xs (st, w) = (r, st', w')" "P st"
  shows "P st' \<and> (r = Inr () \<longrightarrow> (\<forall>x \<in> set xs. \<exists>st w st' w'. P st \<and> f x (st, w) = (Inr (), st', w')))"
  using assms(2,3)
proof (induction xs arbitrary: st w)
  case Nil
  then show ?case by (simp add: retQ_def)
next
  case (Cons x xs)
  obtain y st1 w1 where y: "f x (st, w) = (y, st1, w1)" by (metis prod.collapse)
  have t: "P st1" by (rule keep [OF Cons.prems(2) y])
  show ?case
  proof (cases y)
    case (Inl e)
    then show ?thesis using Cons.prems y t by (auto simp: bindQ_def)
  next
    case (Inr u)
    then have "loopQ f xs (st1, w1) = (r, st', w')" using Cons.prems(1) y by (simp add: bindQ_def)
    note IH = Cons.IH [OF this t]
    have "\<exists>st w st' w'. P st \<and> f x (st, w) = (Inr (), st', w')" using y Inr Cons.prems(2) by auto
    with IH show ?thesis by simp
  qed
qed

lemma Confirm_db: "ConfirmSlotLeaseStopped l st = (r, st') \<Longrightarrow> ss_db st' = ss_db st"
  by (auto simp: ConfirmSlotLeaseStopped_def split: sum.splits if_splits)

lemma fence_run:
  assumes fair: "fairScheduler tm c" and run: "fenceExpiredSlotLease c l (st, w) = (r, st', w')"
  shows "ss_db st' = ss_db st" "r = Inr () \<Longrightarrow> hasAgent (ss_db st) (sk_SlotID l) \<Longrightarrow> stopped c l"
proof -
  have quiet: "st' = st" if "qc_SlotLeaseStopper c = Some stop" "callQ (stop l) (st, w) = (r, st', w')" for stop st w r st' w'
    by (rule quiet_store [OF _ that(2)]) (use fair that(1) in \<open>auto simp: fairScheduler_def\<close>)
  show "ss_db st' = ss_db st"
    using run
    by (auto simp: fenceExpiredSlotLease_def bindQ_def readQ_def failQ_def retQ_def fencesQ_def Let_def
        split: sum.splits option.splits if_splits prod.splits dest!: Confirm_db quiet)
  show "stopped c l" if "r = Inr ()" "hasAgent (ss_db st) (sk_SlotID l)"
    using run that
    by (auto simp: fenceExpiredSlotLease_def bindQ_def readQ_def failQ_def retQ_def callQ_def Let_def hasAgent_def GetSlot_iff
        stopped_def split: sum.splits option.splits if_splits prod.splits)
qed

lemma revoke_run:
  assumes fair: "fairScheduler tm c" and run: "revokeSlotLease c (sk_LeaseID l) (st, w) = (r, st', w')"
  shows "st' = st" "r = Inr () \<Longrightarrow> sk_LeaseID l \<noteq> [] \<Longrightarrow> revoked c l"
proof -
  show "st' = st" by (rule revoke_store(2) [OF fair run])
  show "revoked c l" if "r = Inr ()" "sk_LeaseID l \<noteq> []"
    using run that by (auto simp: revokeSlotLease_def revoked_def callQ_def split: option.splits prod.splits)
qed

text \<open>What the pass over the listed leases has done when it ends well.\<close>

lemma fences_run:
  fixes c :: "'w QueueConfig"
  assumes fair: "fairScheduler tm c"
    and run: "loopQ (\<lambda>entry. if SlotLease_Expired (SlotLeaseRecord.lr_Lease entry) now then
          bindQ (fenceExpiredSlotLease c (SlotLeaseRecord.lr_Lease entry)) (\<lambda>_.
          revokeSlotLease c (sk_LeaseID (SlotLeaseRecord.lr_Lease entry)))
        else retQ ()) leases (st, w) = (r, st', w')"
  shows "ss_db st' = ss_db st"
    and "r = Inr () \<Longrightarrow> entry \<in> set leases \<Longrightarrow> l = SlotLeaseRecord.lr_Lease entry \<Longrightarrow> SlotLease_Expired l now \<Longrightarrow>
      (hasAgent (ss_db st) (sk_SlotID l) \<longrightarrow> stopped c l) \<and> (sk_LeaseID l \<noteq> [] \<longrightarrow> revoked c l)"
proof -
  let ?f = "\<lambda>entry. if SlotLease_Expired (SlotLeaseRecord.lr_Lease entry) now then
          bindQ (fenceExpiredSlotLease c (SlotLeaseRecord.lr_Lease entry)) (\<lambda>_.
          revokeSlotLease c (sk_LeaseID (SlotLeaseRecord.lr_Lease entry)))
        else retQ ()"
  have keep: "ss_db st2 = ss_db st" if "ss_db st1 = ss_db st" "?f entry (st1, w1) = (r, st2, w2)" for entry st1 w1 r st2 w2
    using that by (auto simp: bindQ_def retQ_def split: if_splits sum.splits prod.splits
        dest!: fence_run(1) [OF fair] revoke_run(1) [OF fair])
  have inv: "ss_db st' = ss_db st \<and> (r = Inr () \<longrightarrow> (\<forall>x \<in> set leases. \<exists>st1 w1 st2 w2. ss_db st1 = ss_db st \<and>
      ?f x (st1, w1) = (Inr (), st2, w2)))"
    by (rule loop_invariant [of "\<lambda>s. ss_db s = ss_db st", OF _ run]) (use keep in blast, simp)
  show "ss_db st' = ss_db st" using inv by simp
  assume "r = Inr ()" "entry \<in> set leases" and l: "l = SlotLeaseRecord.lr_Lease entry" and e: "SlotLease_Expired l now"
  then obtain st1 w1 st2 w2 where s: "ss_db st1 = ss_db st" and f: "?f entry (st1, w1) = (Inr (), st2, w2)"
    using inv by meson
  obtain y st3 w3 where y: "fenceExpiredSlotLease c l (st1, w1) = (y, st3, w3)" by (metis prod.collapse)
  have "y = Inr ()" "revokeSlotLease c (sk_LeaseID l) (st3, w3) = (Inr (), st2, w2)"
    using f e l y by (auto simp: bindQ_def split: sum.splits)
  then show "(hasAgent (ss_db st) (sk_SlotID l) \<longrightarrow> stopped c l) \<and> (sk_LeaseID l \<noteq> [] \<longrightarrow> revoked c l)"
    using fence_run(2) [OF fair y] revoke_run(2) [OF fair] s by auto
qed

lemma ListSlotLeases_mem:
  assumes inv: "slot_inv n d" and ls: "ListSlotLeases d = Inr ls" and l: "GetSlotLease k d = Inr (Some l)"
  shows "\<exists>entry \<in> set ls. SlotLeaseRecord.lr_Lease entry = l" "sk_SlotID l = k" "sk_LeaseID l \<noteq> []"
proof -
  have kl: "kget (sd_slotLeases d) k = Some (Json l)" using l by (simp add: GetSlotLease_iff [OF inv])
  show "sk_SlotID l = k" "sk_LeaseID l \<noteq> []"
    by (rule slot_inv_lease [OF inv kl], auto simp: SlotLease_Validate_iff validID_def)+
  let ?g = "\<lambda>p :: string \<times> SlotLease json. \<lparr>lr_SlotID = fst p, lr_Lease = (case snd p of Json l \<Rightarrow> l)\<rparr>"
  obtain es where es: "ls = sort_key lr_SlotID es" "foldE (\<lambda>p acc.
        bindE (decode (snd p)) (\<lambda>lease.
        bindE (corrupt (SlotLease_Validate lease)) (\<lambda>_.
        Inr (acc @ [\<lparr>lr_SlotID = fst p, lr_Lease = lease\<rparr>])))) (kentries (sd_slotLeases d)) [] = Inr es"
    using ls by (auto simp: ListSlotLeases_def view_def)
  have "es = [] @ map ?g (filter (\<lambda>_. True) (kentries (sd_slotLeases d)))"
    using es(2) by (subst (asm) foldE_collect [of _ "\<lambda>p. \<exists>l. snd p = Json l \<and> corrupt (SlotLease_Validate l) = Inr ()" "\<lambda>_. True" ?g])
      (auto split: json.splits)
  then have "?g (k, Json l) \<in> set ls"
    using kl by (auto simp: es(1) kentries_iff [symmetric] intro: rev_image_eqI [of "(k, Json l)"])
  then show "\<exists>entry \<in> set ls. SlotLeaseRecord.lr_Lease entry = l" by (intro bexI [of _ "?g (k, Json l)"]) auto
qed

lemma recovery_run:
  assumes inv: "slot_inv now (ss_db st)" "0 < now" and fair: "fairScheduler tm c"
    and run: "recoverExpiredSlotLeases c now (st, w) = (r, st', w')"
  shows "case r of
     Inl e \<Rightarrow> ss_db st' = ss_db st
   | Inr _ \<Rightarrow>
       (\<forall>k l. GetSlotLease k (ss_db st') = Inr (Some l) \<longleftrightarrow> GetSlotLease k (ss_db st) = Inr (Some l) \<and> now < sk_ExpiresAt l) \<and>
       (\<forall>k l. GetSlotLease k (ss_db st) = Inr (Some l) \<and> sk_ExpiresAt l \<le> now \<longrightarrow>
          revoked c l \<and> (hasAgent (ss_db st) k \<longrightarrow> stopped c l))"
proof (cases "ListSlotLeases (ss_db st)")
  case (Inl e)
  then have "r = Inl e" "st' = st" using run by (auto simp: recoverExpiredSlotLeases_def bindQ_def readQ_def)
  then show ?thesis by simp
next
  case (Inr ls)
  let ?f = "\<lambda>entry. if SlotLease_Expired (SlotLeaseRecord.lr_Lease entry) now then
          bindQ (fenceExpiredSlotLease c (SlotLeaseRecord.lr_Lease entry)) (\<lambda>_.
          revokeSlotLease c (sk_LeaseID (SlotLeaseRecord.lr_Lease entry)))
        else retQ ()"
  obtain y st1 w1 where y: "loopQ ?f ls (st, w) = (y, st1, w1)" by (rule prod_cases3)
  note db = fences_run(1) [OF fair y]
  show ?thesis
  proof (cases y)
    case (Inl e)
    then have "r = Inl e" "st' = st1"
      using run y by (simp_all add: recoverExpiredSlotLeases_def bindQ_def readQ_def Inr)
    then show ?thesis using db by simp
  next
    case u: (Inr u)
    have rec: "RecoverExpiredSlotLeases (qc_commit c w1) now st1 = (r, st')"
      using run y by (simp add: recoverExpiredSlotLeases_def bindQ_def readQ_def fencesQ_def Inr u Let_def split: prod.splits)
    show ?thesis
    proof (cases r)
      case (Inl e)
      then have "ss_db st' = ss_db st1"
        using rec by (auto simp: RecoverExpiredSlotLeases_def split: if_splits sum.splits prod.splits option.splits)
      then show ?thesis using Inl db by simp
    next
      case fin: (Inr v)
      obtain es where es: "expiredSlotLeases now (ss_db st) = Inr es" "distinct (map sk_SlotID es)"
        and mem: "\<And>l. l \<in> set es \<longleftrightarrow> kget (sd_slotLeases (ss_db st)) (sk_SlotID l) = Some (Json l) \<and> sk_ExpiresAt l \<le> now"
        by (rule expiredSlotLeases_ok [OF inv(1)]) blast
      obtain f' where l: "recoverLoop now es (ss_db st) (ss_fenced st1) = (Inr (ss_db st'), f')"
        using rec fin es(1) db by (auto simp: RecoverExpiredSlotLeases_def split: if_splits sum.splits prod.splits option.splits)
      note kept = recoverLoop_keeps(1) [OF inv es(2) mem l]
      have old: "revoked c l \<and> (hasAgent (ss_db st) k \<longrightarrow> stopped c l)"
        if g: "GetSlotLease k (ss_db st) = Inr (Some l)" "sk_ExpiresAt l \<le> now" for k l
      proof -
        obtain entry where "entry \<in> set ls" "SlotLeaseRecord.lr_Lease entry = l"
          using ListSlotLeases_mem(1) [OF inv(1) Inr g(1)] by blast
        then show ?thesis
          using fences_run(2) [OF fair y] u g(2) ListSlotLeases_mem(2,3) [OF inv(1) Inr g(1)] by auto
      qed
      show ?thesis using fin kept old by auto
    qed
  qed
qed

section \<open>Properties\<close>

text \<open>
  C28. A pass of the scheduler is a run of the store: if the clock follows the time of the world, the
  calls to revoke, to stop an agent, to record an event and to read the settings leave the store
  alone, and the other goroutines make any steps of the store while a session runs, then everything
  that a pass does to the store, however it ends, is a sequence of the store's own operations in the
  order of time. So a pass keeps the invariant of the tables and removes no slot, and passes compose.
\<close>

theorem RunOnce_refines_store:
  assumes "fairScheduler tm (qs_config q)" "0 < tm w" "RunOnce q x (st, w) = (out, q', st', w')"
  shows "storeSteps (tm w) st (tm w') st' \<and> fairScheduler tm (qs_config q') \<and>
     (world_inv (tm w) (ss_db st) \<longrightarrow> tm w \<le> tm w' \<and> world_inv (tm w') (ss_db st') \<and> slotsStay (ss_db st) (ss_db st'))"
  using RunOnce_steps [OF assms] storeSteps_keep assms(2) by blast

text \<open>
  C21. What a pass reports is in the store: if a pass ends without an error it was either idle, or
  the request it names is stored exactly as reported, and it is LOGIN_SUCCEEDED with the lease of its
  account released, or QUEUED again with a recorded failure and no lease if it was retried, or else
  cancelled, or failed for good with a recorded failure and no lease. This holds whatever the runner
  did and whatever the other goroutines did to the store while it ran.
\<close>

theorem RunOnce_reports_truth:
  assumes "fairScheduler tm (qs_config q)" "0 < tm w" "world_inv (tm w) (ss_db st)"
    and "RunOnce q x (st, w) = ((out, None), q', st', w')"
  shows "oc_Idle out \<or>
     (let request = oc_Request out; unleased = (\<forall>l. GetLease (rq_AccountID request) (sd_core (ss_db st')) \<noteq> Inr (Some l))
      in GetRequest (rq_RequestID request) (sd_core (ss_db st')) = Inr request \<and>
        (if oc_Succeeded out then rq_State request = LoginSucceeded \<and> \<not> oc_Retried out \<and> unleased
         else if oc_Retried out then rq_State request = Queued \<and> rq_LastFailure request \<noteq> NoFailure \<and> unleased
         else rq_State request = Cancelled \<or>
           rq_State request = LoginFailed \<and> rq_LastFailure request \<noteq> NoFailure \<and> unleased))"
proof -
  have "world_inv (tm w') (ss_db st')"
    using storeSteps_keep [of "tm w" st "tm w'" st'] RunOnce_steps [OF assms(1,2,4)] assms(2,3) by blast
  then have inv: "store_inv (sd_core (ss_db st'))" by (rule world_core)
  have "GetLease a d \<noteq> Inr (Some l)" if "kget (db_leases d) a = None" for a d l
    using that by (simp add: GetLease_def view_def leaseFromTx_def)
  moreover have "GetRequest i (sd_core (ss_db st')) = Inr q" if "kget (db_requests (sd_core (ss_db st'))) i = Some (Json q)" for i q
    using that by (simp add: GetRequest_def view_def requestFromTx_inv [OF store_invD(4) [OF inv]])
  ultimately show ?thesis
    using RunOnce_reports [OF assms(1,3,2,4)] by (auto simp: recorded_def Let_def split: if_splits)
qed

text \<open>
  C35. Expired slot leases go behind their fences: when the recovery of a pass ends well it has ended
  exactly the expired leases, and for each of them a call revoked the lease's capability and, if the
  slot has an agent, a call of the stopper confirmed that the agent was stopped; without a stopper no
  recovery of a slot with an agent ends well. When it ends with an error the tables are unchanged.
\<close>

theorem recoverExpiredSlotLeases_fenced:
  assumes "world_inv now (ss_db st)" "0 < now" "fairScheduler tm c"
    and "recoverExpiredSlotLeases c now (st, w) = (r, st', w')"
  shows "case r of
     Inl e \<Rightarrow> ss_db st' = ss_db st
   | Inr _ \<Rightarrow>
       (\<forall>k l. GetSlotLease k (ss_db st') = Inr (Some l) \<longleftrightarrow> GetSlotLease k (ss_db st) = Inr (Some l) \<and> now < sk_ExpiresAt l) \<and>
       (\<forall>k l. GetSlotLease k (ss_db st) = Inr (Some l) \<and> sk_ExpiresAt l \<le> now \<longrightarrow>
          revoked c l \<and> (hasAgent (ss_db st) k \<longrightarrow> stopped c l))"
  by (rule recovery_run [OF _ assms(2-4)]) (use assms(1) in \<open>simp add: world_inv_def\<close>)

section \<open>A concrete pass\<close>

definition demoConfig :: "int QueueConfig" where
  "demoConfig = \<lparr>qc_commit = (\<lambda>_. okS), qc_runner = (\<lambda>_ s. ((\<lparr>rr_Succeeded = True, rr_Failure = NoFailure\<rparr>, None, None), s)),
     qc_Owner = ''worker'', qc_LeaseTTL = 1000, qc_RunTimeout = 500, qc_MaxGlobalConcurrency = 1,
     qc_RetryPolicy = \<lparr>rp_MaxAttempts = 3, rp_BaseDelay = 1, rp_MaxDelay = 4\<rparr>, qc_Clock = (\<lambda>w. (w, w)),
     qc_NewID = (\<lambda>kind w. (if kind = ''claim'' then ''ev-2'' else if kind = ''lease'' then ''lease-1''
       else if kind = ''start'' then ''ev-3'' else ''ev-4'', w)),
     qc_Sink = (\<lambda>_ w. w), qc_SlotPoolID = [], qc_SlotRequirement = anyRequirement, qc_RuntimeConfig = None,
     qc_Capabilities = None, qc_SlotLeaseStopper = Some (\<lambda>_ s. (None, s))\<rparr>"

lemma demoConfig_fair: "fairScheduler (\<lambda>w. w) demoConfig"
  by (simp add: fairScheduler_def demoConfig_def quietCall_def storeSteps.wait)

lemma demo_new_scheduler: "newScheduler demoConfig = Inr \<lparr>qs_config = demoConfig, qs_stopping = False\<rparr>"
  by (simp add: newScheduler_def demoConfig_def go_simps Decide_def RetryPolicy_validate_def Failure_validate_def Let_def)

definition demoSession :: Event where
  "demoSession = queueEvent demoConfig ''ev-3'' ''acct-1'' ''req-1'' Starting 2 LoggingIn ''session runner started'' 10"

definition demoDone :: Event where
  "demoDone = queueEvent demoConfig ''ev-4'' ''acct-1'' ''req-1'' LoggingIn 3 LoginSucceeded ''session runner succeeded'' 10"

lemma demoDB3_reads:
  "snapshotFromTx demoDB3 ''acct-1'' = Inr demoStarting" "requestFromTx demoDB3 ''req-1'' = Inr demoClaimedRequest"
  "db_events demoDB3 = kput ''ev-2'' (Json demoStartAudit) (db_events demoDB2)"
  "kget (db_notifications demoDB3) i \<noteq> None \<Longrightarrow> i = ''ev-1'' \<or> i = ''ev-2''"
  "db_leases demoDB3 = kput ''acct-1'' (Json demoLease) kempty"
proof -
  have "snapshotFromTx demoDB2s ''acct-1'' = Inr demoStarting"
    using applyEventTx_refines(1) [OF demo_start_event] by (auto simp: demo_start_ids demoStartResult_def)
  then show "snapshotFromTx demoDB3 ''acct-1'' = Inr demoStarting" by (simp add: demoDB3_def putLease_def putRequest_def)
  have "rq_RequestID demoClaimedRequest = ''req-1''" by (simp add: demoClaimedRequest_def demoQueuedRequest_def demoRequest_def)
  then show "requestFromTx demoDB3 ''req-1'' = Inr demoClaimedRequest"
    unfolding requestFromTx_inv [OF store_invD(4) [OF demoDB3_inv]] by (simp add: demoDB3_def putLease_def putRequest_def)
  show "db_events demoDB3 = kput ''ev-2'' (Json demoStartAudit) (db_events demoDB2)"
    by (simp add: demoDB3_def putLease_def putRequest_def demoDB2s_def putNotification_def eventWrites_def demo_start_ids demoStartResult_def)
  show "db_leases demoDB3 = kput ''acct-1'' (Json demoLease) kempty"
    by (simp add: demoDB3_def putLease_def putRequest_def demoDB2s_def putNotification_def demoDB2_sel)
  show "kget (db_notifications demoDB3) i \<noteq> None \<Longrightarrow> i = ''ev-1'' \<or> i = ''ev-2''"
    by (auto simp: demoDB3_def putLease_def putRequest_def demoDB2s_def putNotification_def demoDB2_sel eventWrites_def
        newNotification_def demo_start_ids split: if_splits)
qed

text \<open>The session starts, and later succeeds.\<close>

definition demoLoggingIn :: Snapshot where
  "demoLoggingIn = demoStarting\<lparr>sn_Status := LoggingIn, sn_Revision := 3,
     sn_AppliedEvents := kput ''ev-3'' \<lparr>ar_Event = demoSession, ar_Revision = 3\<rparr> (sn_AppliedEvents demoStarting)\<rparr>"

definition demoSessionResult :: TransitionResult where
  "demoSessionResult = \<lparr>tr_State = demoLoggingIn, tr_Audit = \<lparr>ar_Event = demoSession, ar_Revision = 3\<rparr>, tr_Idempotent = False\<rparr>"

lemma demo_event_ids:
  "ev_AccountID demoSession = ''acct-1''" "ev_RequestID demoSession = ''req-1''" "ev_EventID demoSession = ''ev-3''"
  "ev_To demoSession = LoggingIn" "ev_OccurredAt demoSession = 10" "ev_ExpectedRevision demoSession = 2" "ev_From demoSession = Starting"
  "ev_AccountID demoDone = ''acct-1''" "ev_RequestID demoDone = ''req-1''" "ev_EventID demoDone = ''ev-4''"
  "ev_To demoDone = LoginSucceeded" "ev_OccurredAt demoDone = 10" "ev_ExpectedRevision demoDone = 3" "ev_From demoDone = LoggingIn"
  by (simp_all add: demoSession_def demoDone_def queueEvent_def)

lemma demo_login_apply: "Apply demoStarting demoSession = Inr demoSessionResult"
proof -
  have v: "Snapshot_Validate demoStarting = Inr ()" using demoDB3_reads(1) by (simp add: snapshotFromTx_iff)
  have f: "validFields demoSession = Inr ()"
    by (simp add: validFields_iff demoSession_def queueEvent_def demoConfig_def go_simps)
  have n: "kget (sn_AppliedEvents demoStarting) ''ev-3'' = None"
    by (simp add: demoStarting_def demoQueued_def)
  have "CanTransition Starting LoggingIn" by (simp add: CanTransition_def)
  then show ?thesis
    using v f n by (simp add: Apply_new_iff demo_event_ids)
      (simp add: demoStarting_def demoQueued_def demoSessionResult_def demoLoggingIn_def)
qed

lemma demo_login_store:
  obtains d where "applyEventTx demoSession demoDB3 = Inr (demoSessionResult, d)" "store_inv d"
    "snapshotFromTx d ''acct-1'' = Inr demoLoggingIn"
    "requestFromTx d ''req-1'' = Inr (demoClaimedRequest\<lparr>rq_State := LoggingIn\<rparr>)" "kget (db_events d) ''ev-4'' = None"
    "kget (db_notifications d) ''ev-4'' = None" "kget (db_leases d) ''acct-1'' = Some (Json demoLease)"
proof -
  have req: "rq_CreatedAt demoClaimedRequest = 5" by (simp add: demoClaimedRequest_def demoQueuedRequest_def demoRequest_def)
  have st: "sn_Status demoStarting \<noteq> NoRequest" by (simp add: demoStarting_def)
  have tok: "safeNotificationToken ''ev-3''" "safeNotificationToken ''acct-1''" "safeNotificationToken ''req-1''"
    by (simp_all add: go_simps)
  have idem: "\<not> tr_Idempotent demoSessionResult" by (simp add: demoSessionResult_def)
  have ev: "kget (db_events demoDB3) ''ev-3'' = None" "kget (db_notifications demoDB3) ''ev-3'' = None"
    "kget (db_events demoDB3) ''ev-4'' = None" "kget (db_notifications demoDB3) ''ev-4'' = None"
    by (simp_all add: demoDB3_reads(3) demoDB2_sel) (rule ccontr, frule demoDB3_reads(4), simp)+
  obtain d where a: "applyEventTx demoSession demoDB3 = Inr (demoSessionResult, d)"
    and r: "requestFromTx d ''req-1'' = Inr (requestAfter demoSession demoSessionResult demoClaimedRequest)"
    and e: "db_events d = kput ''ev-3'' (Json (tr_Audit demoSessionResult)) (db_events demoDB3)"
    and n: "db_notifications d = (if rq_NotificationRoomID demoClaimedRequest = [] then db_notifications demoDB3
       else kput ''ev-3'' (Json (newNotification demoSession (requestAfter demoSession demoSessionResult demoClaimedRequest))) (db_notifications demoDB3))"
    using applyEventTx_progress [of demoDB3 demoSession demoStarting demoSessionResult demoClaimedRequest, unfolded demo_event_ids req,
      OF demoDB3_inv demoDB3_reads(1) demo_login_apply idem st demoDB3_reads(2) _ ev(1,2)] tok by fastforce
  have inv: "store_inv d" by (rule applyEventTx_inv [OF demoDB3_inv a])
  have q: "requestAfter demoSession demoSessionResult demoClaimedRequest = demoClaimedRequest\<lparr>rq_State := LoggingIn\<rparr>"
    by (simp add: requestAfter_def demoSessionResult_def demoLoggingIn_def demo_event_ids demoClaimedRequest_def)
  show thesis
    by (rule that [OF a inv]) (use applyEventTx_refines(1,3) [OF a] r q e n ev in
      \<open>auto simp: demo_event_ids demoSessionResult_def demoDB3_reads(5)\<close>)
qed

lemma demo_done:
  assumes inv: "store_inv d" and s: "snapshotFromTx d ''acct-1'' = Inr demoLoggingIn"
    and r: "requestFromTx d ''req-1'' = Inr (demoClaimedRequest\<lparr>rq_State := LoggingIn\<rparr>)" and e: "kget (db_events d) ''ev-4'' = None"
    and n: "kget (db_notifications d) ''ev-4'' = None" and l: "kget (db_leases d) ''acct-1'' = Some (Json demoLease)"
    and c: "\<And>x. c x = None"
  obtains t d' q where "CompleteRequestOwned c demoDone demoLease d = (Inr t, d')" "GetRequest ''req-1'' d' = Inr q" "store_inv d'"
proof -
  have v: "Snapshot_Validate demoLoggingIn = Inr ()" using s by (simp add: snapshotFromTx_iff)
  have f: "validFields demoDone = Inr ()"
    by (simp add: validFields_iff demoDone_def queueEvent_def demoConfig_def go_simps)
  have n4: "kget (sn_AppliedEvents demoLoggingIn) ''ev-4'' = None"
    by (simp add: demoLoggingIn_def demoStarting_def demoQueued_def)
  have "CanTransition LoggingIn LoginSucceeded" by (simp add: CanTransition_def)
  then obtain t where t: "Apply demoLoggingIn demoDone = Inr t" "\<not> tr_Idempotent t"
    using v f n4 by (simp add: Apply_new_iff demo_event_ids) (simp add: demoLoggingIn_def demoStarting_def demoQueued_def)
  have st: "sn_Status demoLoggingIn \<noteq> NoRequest" by (simp add: demoLoggingIn_def)
  have req: "rq_CreatedAt (demoClaimedRequest\<lparr>rq_State := LoggingIn\<rparr>) = 5" by (simp add: demoClaimedRequest_def demoQueuedRequest_def demoRequest_def)
  obtain d1 q where a: "applyEventTx demoDone d = Inr (t, d1)" and q: "requestFromTx d1 ''req-1'' = Inr q"
    using applyEventTx_progress [OF inv, of demoDone demoLoggingIn t "demoClaimedRequest\<lparr>rq_State := LoggingIn\<rparr>"] s t r e n st req
    by (auto simp: demo_event_ids go_simps)
  have i1: "store_inv d1" by (rule applyEventTx_inv [OF inv a])
  have "verifyExpectedLease d1 ''acct-1'' 10 (Some demoLease) False False = Inr ()"
    using l applyEventTx_refines(3) [OF a] by (simp add: verifyExpectedLease_owned [OF store_invD(8) [OF i1]]) (simp add: demoLease_def)
  then have "finishTx demoDone (Some demoLease) False False d = Inr (t, deleteLease ''acct-1'' d1)"
    using a t(2) by (simp add: finishTx_def demo_event_ids)
  then have ok: "CompleteRequestOwned c demoDone demoLease d = (Inr t, deleteLease ''acct-1'' d1)"
    using c by (simp add: CompleteRequestOwned_def completeRequest_def update_def demo_event_ids)
  have i2: "store_inv (deleteLease ''acct-1'' d1)" using i1 by (auto intro: inv_intros)
  have "GetRequest ''req-1'' (deleteLease ''acct-1'' d1) = Inr q"
    using q i1 i2 by (simp add: GetRequest_def view_def requestFromTx_inv [OF store_invD(4)]) (simp add: deleteLease_def)
  then show thesis using that ok i2 by blast
qed

lemma demo_listed:
  "ListLeases demoDB2 = Inr []" "ListRequests demoDB2 = Inr [demoQueuedRequest]" "rq_Deadline demoQueuedRequest = 0"
  using demoRequest_valid(2)
  by (simp_all add: ListLeases_def ListRequests_def view_def demoDB2_sel listEntry_def)
    (simp_all add: demoQueuedRequest_def demoRequest_def)

lemma demo_recovery: "recoverExpired demoConfig n (demoStore demoS1, w) = (Inr (), demoStore demoS1, w)"
  by (simp add: recoverExpired_def bindQ_def readQ_def retQ_def demoStore_def demoS_sel demo_listed)

lemma demo_deadlines: "expireQueued demoConfig n (demoStore demoS1, w) = (Inr (), demoStore demoS1, w)"
  by (simp add: expireQueued_def bindQ_def readQ_def retQ_def demoStore_def demoS_sel demo_listed expireRequest_def)

lemma demo_claimWork:
  "claimWork demoConfig 10 (demoStore demoS1, 10) =
     (Inr (Some (demoClaim, zeroSlotLease, zeroSlot)), demoStore (demoS1\<lparr>sd_core := demoDB3\<rparr>), 10)"
proof -
  have a: "claimArgs demoConfig 10 ''lease-1'' ''ev-2'' = demoClaimArgs" by (simp add: claimArgs_def demoConfig_def demoClaimArgs_def)
  have c: "qc_commit demoConfig w = (\<lambda>_. None)" "qc_MaxGlobalConcurrency demoConfig = 1" "qc_SlotPoolID demoConfig = []" for w
    by (simp_all add: demoConfig_def okS_def)
  have i: "newID demoConfig ''claim'' s = (Inr ''ev-2'', s)" "newID demoConfig ''lease'' s = (Inr ''lease-1'', s)" for s
    by (simp_all add: newID_def demoConfig_def)
  have "coreQ demoConfig (\<lambda>commit. ClaimNext commit demoClaimArgs 1) (demoStore demoS1, 10) =
      (Inr demoClaim, demoStore (demoS1\<lparr>sd_core := demoDB3\<rparr>), 10)"
    unfolding coreQ_run using demo_claim by (simp add: c demoStore_def demoS_sel okCommit_def)
  then show ?thesis
    by (simp add: claimWork_def bindQ_def [of "newID _ _"] i Let_def a c go_simps tryQ_def) (simp add: bindQ_def retQ_def)
qed

lemma demo_fields:
  "qc_commit demoConfig w = (\<lambda>_. None)" "qc_Capabilities demoConfig = None" "qc_Clock demoConfig w = (w, w)"
  "qc_Sink demoConfig e w = w" "qc_SlotPoolID demoConfig = []" "qc_RuntimeConfig demoConfig = None"
  "newID demoConfig ''start'' s = (Inr ''ev-3'', s)" "newID demoConfig ''success'' s = (Inr ''ev-4'', s)"
  "qc_runner demoConfig work s = ((\<lparr>rr_Succeeded = True, rr_Failure = NoFailure\<rparr>, None, None), s)"
  by (simp_all add: demoConfig_def okS_def newID_def)

lemma demo_finish:
  assumes at: "store_inv c1" "snapshotFromTx c1 ''acct-1'' = Inr demoLoggingIn"
    "requestFromTx c1 ''req-1'' = Inr (demoClaimedRequest\<lparr>rq_State := LoggingIn\<rparr>)" "kget (db_events c1) ''ev-4'' = None"
    "kget (db_notifications c1) ''ev-4'' = None" "kget (db_leases c1) ''acct-1'' = Some (Json demoLease)"
  shows "\<exists>q d. finishRun demoConfig 10 0 demoClaim \<lparr>rr_Succeeded = True, rr_Failure = NoFailure\<rparr>
      (demoStore (demoS1\<lparr>sd_core := c1\<rparr>), 10) =
    (Inr (zeroOutcome\<lparr>oc_Request := q, oc_Succeeded := True\<rparr>, None), demoStore (demoS1\<lparr>sd_core := d\<rparr>), 10)"
proof -
  obtain t d q where ok: "CompleteRequestOwned (\<lambda>_. None) demoDone demoLease c1 = (Inr t, d)" "GetRequest ''req-1'' d = Inr q"
    by (rule demo_done [OF at, of "\<lambda>_. None"]) auto
  have ids: "rq_RequestID (cl_Request demoClaim) = ''req-1''" "rq_AccountID (cl_Request demoClaim) = ''acct-1''"
    "cl_Lease demoClaim = demoLease" "sn_Revision demoLoggingIn = 3"
    by (simp_all add: demoClaim_def demoClaimedRequest_def demoQueuedRequest_def demoRequest_def demoLoggingIn_def)
  have get: "GetAccount ''acct-1'' c1 = Inr demoLoggingIn" using at(2) by (simp add: GetAccount_def view_def)
  have "finishSuccess demoConfig 10 (cl_Request demoClaim) demoLease (zeroOutcome\<lparr>oc_Request := cl_Request demoClaim\<rparr>)
      (demoStore (demoS1\<lparr>sd_core := c1\<rparr>), 10) =
      (Inr (zeroOutcome\<lparr>oc_Request := q, oc_Succeeded := True\<rparr>, None), demoStore (demoS1\<lparr>sd_core := d\<rparr>), 10)"
    using ok by (simp add: finishSuccess_def bindQ_def readQ_def tryQ_def retQ_def ids get demo_fields demoStore_def coreQ_def slotsQ_def
        demoDone_def [symmetric] Let_def)
  moreover have "revokeRequest demoConfig i = retQ ()" for i by (simp add: revokeRequest_def demo_fields)
  ultimately have "finishRun demoConfig 10 0 demoClaim \<lparr>rr_Succeeded = True, rr_Failure = NoFailure\<rparr>
      (demoStore (demoS1\<lparr>sd_core := c1\<rparr>), 10) =
    (Inr (zeroOutcome\<lparr>oc_Request := q, oc_Succeeded := True\<rparr>, None), demoStore (demoS1\<lparr>sd_core := d\<rparr>), 10)"
    by (simp add: finishRun_def bindQ_def tryQ_def retQ_def ids queueRecord_def sink_def demo_fields Let_def)
  then show ?thesis by blast
qed

lemma demo_scheduled:
  "\<exists>q d. RunOnce \<lparr>qs_config = demoConfig, qs_stopping = False\<rparr> (\<lambda>_. None) (demoStore demoS1, 10) =
     ((zeroOutcome\<lparr>oc_Request := q, oc_Succeeded := True\<rparr>, None), \<lparr>qs_config = demoConfig, qs_stopping = False\<rparr>,
      demoStore (demoS1\<lparr>sd_core := d\<rparr>), 10)"
proof -
  have ids: "rq_RequestID (cl_Request demoClaim) = ''req-1''" "rq_AccountID (cl_Request demoClaim) = ''acct-1''"
    "sn_Revision (tr_State (cl_Transition demoClaim)) = 2"
    by (simp_all add: demoClaim_def demoClaimedRequest_def demoQueuedRequest_def demoRequest_def demoStartResult_def demoStarting_def)
  have zero: "sk_LeaseID zeroSlotLease = []" "sk_SlotID zeroSlotLease = []" by (simp_all add: zeroSlotLease_def)
  obtain c1 where c1: "applyEventTx demoSession demoDB3 = Inr (demoSessionResult, c1)" "store_inv c1"
    "snapshotFromTx c1 ''acct-1'' = Inr demoLoggingIn"
    "requestFromTx c1 ''req-1'' = Inr (demoClaimedRequest\<lparr>rq_State := LoggingIn\<rparr>)" "kget (db_events c1) ''ev-4'' = None"
    "kget (db_notifications c1) ''ev-4'' = None" "kget (db_leases c1) ''acct-1'' = Some (Json demoLease)"
    by (rule demo_login_store)
  obtain q d where fin: "finishRun demoConfig 10 0 demoClaim \<lparr>rr_Succeeded = True, rr_Failure = NoFailure\<rparr>
      (demoStore (demoS1\<lparr>sd_core := c1\<rparr>), 10) =
    (Inr (zeroOutcome\<lparr>oc_Request := q, oc_Succeeded := True\<rparr>, None), demoStore (demoS1\<lparr>sd_core := d\<rparr>), 10)"
    using demo_finish [OF c1(2-7)] by blast
  have run: "executeRun demoConfig (\<lambda>_. None) 10 demoClaim zeroSlotLease zeroSlot (demoStore (demoS1\<lparr>sd_core := c1\<rparr>), 10) =
    (Inr (zeroOutcome\<lparr>oc_Request := q, oc_Succeeded := True\<rparr>, None), demoStore (demoS1\<lparr>sd_core := d\<rparr>), 10)"
    using fin by (simp add: executeRun_def bindQ_def clock_def demo_fields retQ_def zero Sub_def maxInt64_def Let_def)
  have "coreQ demoConfig (\<lambda>commit. ApplyEvent commit demoSession) (demoStore (demoS1\<lparr>sd_core := demoDB3\<rparr>), 10) =
      (Inr demoSessionResult, demoStore (demoS1\<lparr>sd_core := c1\<rparr>), 10)"
    using c1(1) by (simp add: coreQ_run ApplyEvent_def update_def demo_fields demoStore_def)
  then have start: "startRun demoConfig (\<lambda>_. None) 10 demoClaim zeroSlotLease zeroSlot (demoStore (demoS1\<lparr>sd_core := demoDB3\<rparr>), 10) =
    (Inr (zeroOutcome\<lparr>oc_Request := q, oc_Succeeded := True\<rparr>, None), demoStore (demoS1\<lparr>sd_core := d\<rparr>), 10)"
    using run by (simp add: startRun_def bindQ_def tryQ_def retQ_def ids demo_fields demoSession_def [symmetric] zero Let_def)
  have "passQ demoConfig (\<lambda>_. None) (demoStore demoS1, 10) =
    (Inr (zeroOutcome\<lparr>oc_Request := q, oc_Succeeded := True\<rparr>, None), demoStore (demoS1\<lparr>sd_core := d\<rparr>), 10)"
    using start by (simp add: passQ_def bindQ_def clock_def demo_fields guarded_def tryQ_def retQ_def demo_recovery demo_deadlines
        demo_claimWork go_simps)
  then show ?thesis by (intro exI [of _ q] exI [of _ d]) (simp add: RunOnce_def refreshConfig_def demo_fields)
qed

theorem RunOnce_refines_store_witness:
  "\<exists>out q' st' w'. RunOnce \<lparr>qs_config = demoConfig, qs_stopping = False\<rparr> (\<lambda>_. None) (demoStore demoS1, 10) = (out, q', st', w') \<and>
     storeSteps 10 (demoStore demoS1) w' st' \<and> world_inv w' (ss_db st')"
proof -
  obtain out q' st' w' where run: "RunOnce \<lparr>qs_config = demoConfig, qs_stopping = False\<rparr> (\<lambda>_. None) (demoStore demoS1, 10) =
      (out, q', st', w')" by (rule prod_cases4)
  have "world_inv 10 (ss_db (demoStore demoS1))" using slotRun_inv [OF demo_run_slots(1)] world_inv_mono by simp
  then show ?thesis
    using RunOnce_refines_store [of "\<lambda>w. w" "\<lparr>qs_config = demoConfig, qs_stopping = False\<rparr>" 10, OF _ _ run] demoConfig_fair run by auto
qed

theorem RunOnce_reports_truth_witness:
  "\<exists>out q' st'. RunOnce \<lparr>qs_config = demoConfig, qs_stopping = False\<rparr> (\<lambda>_. None) (demoStore demoS1, 10) = ((out, None), q', st', 10) \<and>
     GetRequest (rq_RequestID (oc_Request out)) (sd_core (ss_db st')) = Inr (oc_Request out) \<and> rq_State (oc_Request out) = LoginSucceeded"
proof -
  obtain q d where run: "RunOnce \<lparr>qs_config = demoConfig, qs_stopping = False\<rparr> (\<lambda>_. None) (demoStore demoS1, 10) =
     ((zeroOutcome\<lparr>oc_Request := q, oc_Succeeded := True\<rparr>, None), \<lparr>qs_config = demoConfig, qs_stopping = False\<rparr>,
      demoStore (demoS1\<lparr>sd_core := d\<rparr>), 10)"
    using demo_scheduled by blast
  have "world_inv 10 (ss_db (demoStore demoS1))" using slotRun_inv [OF demo_run_slots(1)] world_inv_mono by simp
  then show ?thesis
    using RunOnce_reports_truth [of "\<lambda>w. w" "\<lparr>qs_config = demoConfig, qs_stopping = False\<rparr>" 10, OF _ _ _ run] demoConfig_fair run
    by (auto simp: zeroOutcome_def Let_def)
qed

lemma demo_recover_slots:
  "\<exists>st'. recoverExpiredSlotLeases demoConfig 2000 (demoStore demoS4, 2000) = (Inr (), st', 2000)"
proof -
  have inv: "slot_inv 10 demoS4" using slotRun_inv [OF demo_run_claim] by (simp add: world_inv_def demoStore_def)
  have v: "SlotLease_Validate demoSlotLease = Inr ()"
    by (rule slot_inv_lease [OF inv, of "''pool-1-001''" "Json demoSlotLease"]) (auto simp: demoS_sel)
  have l: "sk_SlotID demoSlotLease = ''pool-1-001''" "sk_LeaseID demoSlotLease = ''lease-1-slot''" "sk_ExpiresAt demoSlotLease = 1010"
    by (simp_all add: demoSlotLease_def)
  have list: "ListSlotLeases demoS4 = Inr [\<lparr>lr_SlotID = ''pool-1-001'', lr_Lease = demoSlotLease\<rparr>]"
    using v by (simp add: ListSlotLeases_def view_def demoS_sel)
  let ?st = "(demoStore demoS4)\<lparr>ss_fenced := kput ''pool-1-001'' demoSlotLease kempty\<rparr>"
  have fence: "fenceExpiredSlotLease demoConfig demoSlotLease (demoStore demoS4, 2000) = (Inr (), ?st, 2000)"
    using v by (simp add: fenceExpiredSlotLease_def bindQ_def readQ_def GetSlot_def view_def getJSON_def demoStore_def demoS_sel l
        demo_ids_slot Let_def demoConfig_def callQ_def fencesQ_def ConfirmSlotLeaseStopped_def)
  have revoke: "revokeSlotLease demoConfig i = retQ ()" for i by (simp add: revokeSlotLease_def demo_fields)
  have e: "expiredSlotLeases 2000 demoS4 = Inr [demoSlotLease]" using v by (simp add: expiredSlotLeases_def demoS_sel l)
  have c: "consumeFencedSlotLease demoSlotLease (kput ''pool-1-001'' demoSlotLease kempty) =
      (True, kdel ''pool-1-001'' (kput ''pool-1-001'' demoSlotLease kempty))"
    by (simp add: consumeFencedSlotLease_def l)
  have pool: "sl_PoolID demoLeased = ''pool-1''" by (simp add: demoLeased_def demo_ids_slot)
  have "\<exists>d f. recoverLoop 2000 [demoSlotLease] demoS4 (ss_fenced ?st) = (Inr d, f)"
    by (simp add: getJSON_def demoS_sel l demo_ids_slot c pool Let_def)
  then show ?thesis
    using fence e by (auto simp: recoverExpiredSlotLeases_def bindQ_def readQ_def list l revoke retQ_def fencesQ_def
        RecoverExpiredSlotLeases_def demoStore_def demo_fields)
qed

theorem recoverExpiredSlotLeases_fenced_witness:
  "hasAgent demoS4 ''pool-1-001'' \<and> (\<exists>r st' w'. recoverExpiredSlotLeases demoConfig 2000 (demoStore demoS4, 2000) = (r, st', w') \<and>
     r = Inr () \<and> stopped demoConfig demoSlotLease \<and> (\<forall>l. GetSlotLease ''pool-1-001'' (ss_db st') \<noteq> Inr (Some l)))"
proof -
  have w: "world_inv 10 demoS4" using slotRun_inv [OF demo_run_claim] by (simp add: demoStore_def)
  then have inv: "slot_inv 10 demoS4" by (simp add: world_inv_def)
  have g: "GetSlotLease k demoS4 = Inr (Some l) \<longleftrightarrow> k = ''pool-1-001'' \<and> l = demoSlotLease" for k l
    unfolding GetSlotLease_iff [OF inv] by (auto simp: demoS_sel kget_kput)
  have a: "hasAgent demoS4 ''pool-1-001''" by (simp add: hasAgent_def demoS_sel demo_ids_slot)
  obtain st' where run: "recoverExpiredSlotLeases demoConfig 2000 (demoStore demoS4, 2000) = (Inr (), st', 2000)"
    using demo_recover_slots by blast
  have x: "sk_ExpiresAt demoSlotLease = 1010" by (simp add: demoSlotLease_def)
  have "world_inv 2000 (ss_db (demoStore demoS4))" using world_inv_mono [OF w] by (simp add: demoStore_def)
  from recoverExpiredSlotLeases_fenced [OF this _ demoConfig_fair run] show ?thesis
    using run a x by (auto simp: g demoStore_def)
qed

end
