(* ===== verification/EnvironmentControl.thy ===== *)
theory EnvironmentControl
  imports JobPool
begin

text \<open>
  internal/store/environment_control.go: operations on environment packages. A mutation is recorded
  under an idempotency key, its state is moved on by the manager of the packages, which also stores
  the record that it has validated, and an operation that a crash left open is closed when the
  service starts again. The gates change the flags of a stored record.
\<close>

section \<open>Data\<close>

record EnvironmentMutation =
  em_EnvironmentID :: string
  em_Version :: string
  em_Operation :: string
  em_PackageRef :: string
  em_ExpectedRevision :: uint64
  em_IdempotencyKey :: string
  em_Actor :: string
  em_RequestedAt :: gotime

record EnvironmentOperation =
  eo_OperationID :: string
  eo_EnvironmentID :: string
  eo_Version :: string
  eo_Operation :: string
  eo_State :: string
  eo_FailureCode :: string
  eo_Actor :: string
  eo_PackageRef :: string
  eo_ExpectedRevision :: uint64
  eo_EnvironmentGeneration :: uint64
  eo_RequestedAt :: gotime
  eo_UpdatedAt :: gotime

record EnvironmentAuditEvent =
  ea_EventID :: string
  ea_OperationID :: string
  ea_EnvironmentID :: string
  ea_Version :: string
  ea_Operation :: string
  ea_Actor :: string
  ea_FromState :: string
  ea_ToState :: string
  ea_Outcome :: string
  ea_FailureCode :: string
  ea_ConfigRevision :: uint64
  ea_EnvironmentGeneration :: uint64
  ea_OccurredAt :: gotime

text \<open>The tables of this control plane beside those of the slots, which hold the package records.\<close>

record edb =
  ed_db :: sdb
  ed_operations :: "(string, EnvironmentOperation json) kmap"
  ed_idempotency :: "(string, string) kmap"
  ed_audit :: "(string, EnvironmentAuditEvent json) kmap"

type_synonym ecommit = "edb \<Rightarrow> error option"

definition emptyEDB :: edb where
  "emptyEDB = \<lparr>ed_db = emptySDB, ed_operations = kempty, ed_idempotency = kempty, ed_audit = kempty\<rparr>"

definition terminalEnvironmentOperation :: "string \<Rightarrow> bool" where
  "terminalEnvironmentOperation state \<longleftrightarrow>
     state = ''applied'' \<or> state = ''failed'' \<or> state = ''rolled_back'' \<or> state = ''cancelled''"

definition EnvironmentAuditEvent_Validate :: "EnvironmentAuditEvent \<Rightarrow> unit result" where
  "EnvironmentAuditEvent_Validate e =
     (if ea_EventID e = [] \<or> ea_OperationID e = [] \<or> ea_EnvironmentID e = [] \<or> ea_Version e = [] \<or> ea_Operation e = []
         \<or> ea_ToState e = [] \<or> IsZero (ea_OccurredAt e)
      then Inl (StoreErr ErrCorruptData) else Inr ())"

definition EnvironmentOperation_Validate :: "EnvironmentOperation \<Rightarrow> unit result" where
  "EnvironmentOperation_Validate v =
     (if TrimSpace (eo_OperationID v) = [] \<or> TrimSpace (eo_EnvironmentID v) = [] \<or> TrimSpace (eo_Version v) = []
         \<or> TrimSpace (eo_Operation v) = [] \<or> TrimSpace (eo_State v) = [] \<or> IsZero (eo_RequestedAt v) \<or> IsZero (eo_UpdatedAt v)
      then Inl (StoreErr ErrCorruptData) else Inr ())"

section \<open>Transaction helpers\<close>

definition environmentOperationID :: "EnvironmentMutation \<Rightarrow> edb \<Rightarrow> string" where
  "environmentOperationID m d =
     unusedName (ed_operations d) (''envop_'' @ EncodeToString (take 8 (Sum256
       (em_EnvironmentID m @ ''|'' @ em_Version m @ ''|'' @ em_Operation m @ ''|'' @ em_IdempotencyKey m @ ''|'' @
        RFC3339Nano (em_RequestedAt m)))))"

definition nextEnvironmentAuditID :: "edb \<Rightarrow> string \<Rightarrow> gotime \<Rightarrow> string" where
  "nextEnvironmentAuditID d operationID at =
     unusedName (ed_audit d) (''audit_'' @ operationID @ ''_'' @ decimalInt (UnixNano at))"

definition putEnvironmentAuditTx :: "EnvironmentAuditEvent \<Rightarrow> edb \<Rightarrow> edb result" where
  "putEnvironmentAuditTx event d =
     bindE (EnvironmentAuditEvent_Validate event) (\<lambda>_.
     Inr (d\<lparr>ed_audit := kput (ea_EventID event) (Json event) (ed_audit d)\<rparr>))"

definition putEnvironmentOperation :: "string \<Rightarrow> EnvironmentOperation \<Rightarrow> edb \<Rightarrow> edb" where
  "putEnvironmentOperation operationID v d = d\<lparr>ed_operations := kput operationID (Json v) (ed_operations d)\<rparr>"

text \<open>The event of an operation that moved on from a state.\<close>

definition environmentEvent :: "edb \<Rightarrow> string \<Rightarrow> gotime \<Rightarrow> string \<Rightarrow> EnvironmentOperation \<Rightarrow> EnvironmentAuditEvent" where
  "environmentEvent d operationID at previous v =
     \<lparr>ea_EventID = nextEnvironmentAuditID d operationID at, ea_OperationID = operationID, ea_EnvironmentID = eo_EnvironmentID v,
      ea_Version = eo_Version v, ea_Operation = eo_Operation v, ea_Actor = eo_Actor v, ea_FromState = previous,
      ea_ToState = eo_State v, ea_Outcome = eo_State v, ea_FailureCode = eo_FailureCode v,
      ea_ConfigRevision = eo_ExpectedRevision v, ea_EnvironmentGeneration = eo_EnvironmentGeneration v, ea_OccurredAt = at\<rparr>"

section \<open>Operations\<close>

definition normalizeEnvironmentMutation :: "EnvironmentMutation \<Rightarrow> gotime \<Rightarrow> EnvironmentMutation result" where
  "normalizeEnvironmentMutation m0 now =
     (let m = m0\<lparr>em_RequestedAt := (if IsZero (em_RequestedAt m0) then now else em_RequestedAt m0),
                 em_EnvironmentID := TrimSpace (em_EnvironmentID m0), em_Version := TrimSpace (em_Version m0),
                 em_Operation := TrimSpace (em_Operation m0), em_IdempotencyKey := TrimSpace (em_IdempotencyKey m0),
                 em_Actor := TrimSpace (em_Actor m0)\<rparr>
      in if em_EnvironmentID m = [] \<or> em_Version m = [] \<or> em_Operation m = [] \<or> em_IdempotencyKey m = [] \<or> em_Actor m = []
            \<or> ContainsAny (em_EnvironmentID m @ em_Version m @ em_Operation m @ em_IdempotencyKey m @ em_Actor m) crlftab
         then Inl (StoreErr ErrInvalidRequest) else Inr m)"

definition sameEnvironmentRequest :: "EnvironmentMutation \<Rightarrow> EnvironmentOperation \<Rightarrow> bool" where
  "sameEnvironmentRequest m v \<longleftrightarrow>
     \<not> (eo_EnvironmentID v \<noteq> em_EnvironmentID m \<or> eo_Version v \<noteq> em_Version m \<or> eo_Operation v \<noteq> em_Operation m
        \<or> eo_PackageRef v \<noteq> em_PackageRef m \<or> eo_ExpectedRevision v \<noteq> em_ExpectedRevision m \<or> eo_Actor v \<noteq> em_Actor m)"

definition requestedEnvironmentOperation :: "EnvironmentMutation \<Rightarrow> string \<Rightarrow> uint64 \<Rightarrow> EnvironmentOperation" where
  "requestedEnvironmentOperation m operationID generation =
     \<lparr>eo_OperationID = operationID, eo_EnvironmentID = em_EnvironmentID m, eo_Version = em_Version m, eo_Operation = em_Operation m,
      eo_State = ''requested'', eo_FailureCode = [], eo_Actor = em_Actor m, eo_PackageRef = em_PackageRef m,
      eo_ExpectedRevision = em_ExpectedRevision m, eo_EnvironmentGeneration = generation,
      eo_RequestedAt = em_RequestedAt m, eo_UpdatedAt = em_RequestedAt m\<rparr>"

definition applyEnvironmentTx :: "EnvironmentMutation \<Rightarrow> edb \<Rightarrow> ((EnvironmentOperation \<times> bool) \<times> edb) result" where
  "applyEnvironmentTx m d =
     (case kget (ed_idempotency d) (em_IdempotencyKey m) of
        Some raw \<Rightarrow>
          (case kget (ed_operations d) raw of
             None \<Rightarrow> Inl (StoreErr ErrCorruptData)
           | Some stored \<Rightarrow>
               bindE (corrupt (decode stored)) (\<lambda>result.
               if \<not> sameEnvironmentRequest m result then Inl (EnvironmentControlErr ErrEnvironmentIdempotencyConflict)
               else Inr ((result, True), d)))
      | None \<Rightarrow>
          let package = kget (sd_packages (ed_db d)) (environmentKey (em_EnvironmentID m) (em_Version m))
          in if em_ExpectedRevision m > 0 \<and>
                (case package of None \<Rightarrow> True | Some raw \<Rightarrow>
                   (case decode raw of Inl _ \<Rightarrow> True | Inr record \<Rightarrow> en_Generation record \<noteq> em_ExpectedRevision m))
             then Inl (EnvironmentControlErr ErrEnvironmentStaleRevision)
             else
               let generation = environmentGenerationTx (ed_db d) (em_EnvironmentID m) (em_Version m);
                   operationID = environmentOperationID m d;
                   result = requestedEnvironmentOperation m operationID generation
               in bindE (putEnvironmentAuditTx
                    \<lparr>ea_EventID = ''audit_'' @ operationID, ea_OperationID = operationID, ea_EnvironmentID = em_EnvironmentID m,
                     ea_Version = em_Version m, ea_Operation = em_Operation m, ea_Actor = em_Actor m, ea_FromState = [],
                     ea_ToState = ''requested'', ea_Outcome = ''requested'', ea_FailureCode = [],
                     ea_ConfigRevision = em_ExpectedRevision m, ea_EnvironmentGeneration = generation,
                     ea_OccurredAt = em_RequestedAt m\<rparr>
                    ((putEnvironmentOperation operationID result d)\<lparr>ed_idempotency := kput (em_IdempotencyKey m) operationID (ed_idempotency d)\<rparr>))
                    (\<lambda>d'. Inr ((result, False), d')))"

definition ApplyEnvironmentOperation ::
  "ecommit \<Rightarrow> EnvironmentMutation \<Rightarrow> gotime \<Rightarrow> edb \<Rightarrow> (EnvironmentOperation \<times> bool) result \<times> edb" where
  "ApplyEnvironmentOperation commit m0 now d =
     (case normalizeEnvironmentMutation m0 now of Inl e \<Rightarrow> (Inl e, d) | Inr m \<Rightarrow> update commit (applyEnvironmentTx m) d)"

definition GetEnvironmentOperation :: "string \<Rightarrow> edb \<Rightarrow> EnvironmentOperation result" where
  "GetEnvironmentOperation operationID = view (\<lambda>d.
     bindE (getJSON (ed_operations d) operationID (EnvironmentControlErr ErrEnvironmentOperationNotFound)) (\<lambda>result.
     bindE (EnvironmentOperation_Validate result) (\<lambda>_. Inr result)))"

definition updateEnvironmentTx :: "string \<Rightarrow> string \<Rightarrow> string \<Rightarrow> gotime \<Rightarrow> edb \<Rightarrow> (EnvironmentOperation \<times> edb) result" where
  "updateEnvironmentTx operationID state failureCode at d =
     bindE (getJSON (ed_operations d) operationID (EnvironmentControlErr ErrEnvironmentOperationNotFound)) (\<lambda>current.
     if terminalEnvironmentOperation (eo_State current) then Inr (current, d)
     else
       let generation = (case kget (sd_packages (ed_db d)) (environmentKey (eo_EnvironmentID current) (eo_Version current)) of
             None \<Rightarrow> eo_EnvironmentGeneration current
           | Some raw \<Rightarrow> (case decode raw of Inl _ \<Rightarrow> eo_EnvironmentGeneration current | Inr record \<Rightarrow> en_Generation record));
           result = current\<lparr>eo_EnvironmentGeneration := generation, eo_State := state, eo_FailureCode := failureCode,
             eo_UpdatedAt := at\<rparr>
       in bindE (putEnvironmentAuditTx (environmentEvent d operationID at (eo_State current) result) (putEnvironmentOperation operationID result d))
            (\<lambda>d'. Inr (result, d')))"

definition UpdateEnvironmentOperation ::
  "ecommit \<Rightarrow> string \<Rightarrow> string \<Rightarrow> string \<Rightarrow> gotime \<Rightarrow> gotime \<Rightarrow> edb \<Rightarrow> EnvironmentOperation result \<times> edb" where
  "UpdateEnvironmentOperation commit operationID state failureCode at now d =
     update commit (updateEnvironmentTx operationID state failureCode (if IsZero at then now else at)) d"

definition completeEnvironmentTx ::
  "string \<Rightarrow> string \<Rightarrow> string \<Rightarrow> EnvironmentRecord \<Rightarrow> gotime \<Rightarrow> edb \<Rightarrow> (EnvironmentOperation \<times> edb) result" where
  "completeEnvironmentTx operationID state failureCode record at d =
     bindE (getJSON (ed_operations d) operationID (EnvironmentControlErr ErrEnvironmentOperationNotFound)) (\<lambda>current.
     if terminalEnvironmentOperation (eo_State current) then Inr (current, d)
     else if en_EnvironmentID record \<noteq> eo_EnvironmentID current \<or> en_Version record \<noteq> eo_Version current
     then Inl (StoreErr ErrInvalidRequest)
     else
       let result = current\<lparr>eo_State := state, eo_FailureCode := failureCode,
             eo_EnvironmentGeneration := en_Generation record, eo_UpdatedAt := at\<rparr>;
           packages = kput (environmentKey (en_EnvironmentID record) (en_Version record)) (Json record) (sd_packages (ed_db d))
       in bindE (putEnvironmentAuditTx (environmentEvent d operationID at (eo_State current) result)
              (putEnvironmentOperation operationID result (d\<lparr>ed_db := (ed_db d)\<lparr>sd_packages := packages\<rparr>\<rparr>)))
            (\<lambda>d'. Inr (result, d')))"

definition CompleteEnvironmentOperation ::
  "ecommit \<Rightarrow> string \<Rightarrow> string \<Rightarrow> string \<Rightarrow> EnvironmentRecord \<Rightarrow> gotime \<Rightarrow> gotime \<Rightarrow> edb \<Rightarrow> EnvironmentOperation result \<times> edb" where
  "CompleteEnvironmentOperation commit operationID state failureCode record at now d =
     (case Record_Validate record of
        Inl e \<Rightarrow> (Inl e, d)
      | Inr _ \<Rightarrow> update commit (completeEnvironmentTx operationID state failureCode record (if IsZero at then now else at)) d)"

section \<open>After a crash\<close>

text \<open>A newer ready generation proves that the package operation was finished before the crash.\<close>

definition finishedBeforeCrash :: "edb \<Rightarrow> EnvironmentOperation \<Rightarrow> bool" where
  "finishedBeforeCrash d v \<longleftrightarrow>
     (eo_Operation v = ''install'' \<or> eo_Operation v = ''upgrade'' \<or> eo_Operation v = ''rollback'') \<and>
     (case kget (sd_packages (ed_db d)) (environmentKey (eo_EnvironmentID v) (eo_Version v)) of
        None \<Rightarrow> False
      | Some raw \<Rightarrow> (case decode raw of Inl _ \<Rightarrow> False
          | Inr record \<Rightarrow> IsReady record \<and> eo_EnvironmentGeneration v < en_Generation record))"

definition recoverEnvironment :: "gotime \<Rightarrow> string \<times> EnvironmentOperation json \<Rightarrow> edb \<Rightarrow> edb result" where
  "recoverEnvironment at entry d =
     bindE (decode (snd entry)) (\<lambda>operation.
     if terminalEnvironmentOperation (eo_State operation)
        \<or> (eo_State operation \<noteq> ''requested'' \<and> eo_State operation \<noteq> ''provisioning'')
     then Inr d
     else
       let closed = (if finishedBeforeCrash d operation
             then operation\<lparr>eo_State := ''applied'', eo_FailureCode := [], eo_UpdatedAt := at\<rparr>
             else operation\<lparr>eo_State := ''failed'', eo_FailureCode := ''service_restarted'', eo_UpdatedAt := at\<rparr>)
       in putEnvironmentAuditTx (environmentEvent d (eo_OperationID operation) at (eo_State operation) closed)
            (putEnvironmentOperation (fst entry) closed d))"

definition RecoverEnvironmentOperations :: "ecommit \<Rightarrow> gotime \<Rightarrow> gotime \<Rightarrow> edb \<Rightarrow> unit result \<times> edb" where
  "RecoverEnvironmentOperations commit at now d =
     update commit (\<lambda>d. bindE (foldE (recoverEnvironment (if IsZero at then now else at)) (kentries (ed_operations d)) d)
       (\<lambda>d'. Inr ((), d'))) d"

section \<open>Reads\<close>

definition ListEnvironmentAudit :: "string \<Rightarrow> string \<Rightarrow> int \<Rightarrow> edb \<Rightarrow> EnvironmentAuditEvent list result" where
  "ListEnvironmentAudit environmentID version limit0 d =
     bindE (pageLimit limit0) (\<lambda>limit.
     bindE (view (\<lambda>d. foldE (\<lambda>p acc.
        bindE (decode (snd p)) (\<lambda>value.
        Inr (if ea_EnvironmentID value = environmentID \<and> ea_Version value = version then acc @ [value] else acc)))
        (kentries (ed_audit d)) []) d) (\<lambda>result.
     Inr (lastPage limit (sort_key (\<lambda>v. (ea_OccurredAt v, ea_EventID v)) result))))"

definition ListEnvironmentOperations :: "int \<Rightarrow> edb \<Rightarrow> EnvironmentOperation list result" where
  "ListEnvironmentOperations limit0 d =
     bindE (pageLimit limit0) (\<lambda>limit.
     bindE (view (\<lambda>d. foldE (\<lambda>p acc.
        bindE (decode (snd p)) (\<lambda>value. Inr (acc @ [value]))) (kentries (ed_operations d)) []) d) (\<lambda>result.
     Inr (lastPage limit (sort_key (\<lambda>v. (eo_RequestedAt v, eo_OperationID v)) result))))"

section \<open>Gates\<close>

text \<open>The effect of a gate on a record.\<close>

definition gateRecord :: "string \<Rightarrow> EnvironmentRecord \<Rightarrow> EnvironmentRecord result" where
  "gateRecord operation record =
     (if operation = ''trust'' then Inr (record\<lparr>en_Trusted := True\<rparr>)
      else if operation = ''disable'' then Inr (record\<lparr>en_Enabled := False, en_Ready := False\<rparr>)
      else if operation = ''enable'' then
        (if \<not> en_Trusted record then Inl (EnvironmentErr ErrNotTrusted) else Inr (record\<lparr>en_Enabled := True\<rparr>))
      else if operation = ''health'' then
        (if \<not> en_Verified record then Inl (EnvironmentErr ErrNotVerified)
         else Inr (record\<lparr>en_Healthy := True,
           en_Ready := (en_Installed record \<and> en_Verified record \<and> en_Trusted record \<and> en_Enabled record)\<rparr>))
      else if operation = ''verify'' then
        (if \<not> en_Installed record \<or> \<not> en_Verified record then Inl (EnvironmentErr ErrNotVerified) else Inr record)
      else if operation = ''install'' \<or> operation = ''upgrade'' \<or> operation = ''rollback''
      then Inl (EnvironmentErr ErrNotReady)
      else Inl (StoreErr ErrInvalidRequest))"

text \<open>Two transactions: the record is read in one and written in another.\<close>

definition ApplyEnvironmentGate ::
  "scommit \<Rightarrow> string \<Rightarrow> string \<Rightarrow> string \<Rightarrow> gotime \<Rightarrow> gotime \<Rightarrow> sdb \<Rightarrow> EnvironmentRecord result \<times> sdb" where
  "ApplyEnvironmentGate commit environmentID version operation at now d =
     (case bindE (GetEnvironmentRecord environmentID version d) (\<lambda>current.
           bindE (gateRecord operation current) (\<lambda>changed.
           let record = changed\<lparr>en_UpdatedAt := (if IsZero at then now else at)\<rparr>
           in bindE (Record_Validate record) (\<lambda>_. Inr record))) of
        Inl e \<Rightarrow> (Inl e, d)
      | Inr record \<Rightarrow>
          (case PutEnvironmentRecord commit record d of
             (Inl e, d') \<Rightarrow> (Inl e, d')
           | (Inr _, d') \<Rightarrow> (Inr record, d')))"

end
