(* ===== verification/EnvironmentControlProps.thy ===== *)
theory EnvironmentControlProps
  imports EnvironmentControl JobPoolFacts
begin

text \<open>
  Operations on environment packages: recorded once, frozen when terminal, closed after a crash; and
  what the gates can do to a record.
\<close>

section \<open>Runs\<close>

text \<open>The calls of this control plane, and any other change of the slot tables.\<close>

inductive envStep :: "edb \<Rightarrow> edb \<Rightarrow> bool" where
  apply_operation: "ApplyEnvironmentOperation c m now d = (r, d') \<Longrightarrow> envStep d d'"
| update_operation: "UpdateEnvironmentOperation c i st f at now d = (r, d') \<Longrightarrow> envStep d d'"
| complete_operation: "CompleteEnvironmentOperation c i st f er at now d = (r, d') \<Longrightarrow> envStep d d'"
| recover_operations: "RecoverEnvironmentOperations c at now d = (r, d') \<Longrightarrow> envStep d d'"
| slot_tables: "envStep d (d\<lparr>ed_db := s\<rparr>)"

abbreviation envRun :: "edb \<Rightarrow> edb \<Rightarrow> bool" where
  "envRun \<equiv> envStep\<^sup>*\<^sup>*"

section \<open>Operations keep their identity\<close>

definition sameEnvironmentOperation :: "EnvironmentOperation \<Rightarrow> EnvironmentOperation \<Rightarrow> bool" where
  "sameEnvironmentOperation v w \<longleftrightarrow>
     w = v\<lparr>eo_State := eo_State w, eo_FailureCode := eo_FailureCode w, eo_EnvironmentGeneration := eo_EnvironmentGeneration w,
       eo_UpdatedAt := eo_UpdatedAt w\<rparr>"

lemma sameEnv_refl [simp]: "sameEnvironmentOperation v v"
  by (simp add: sameEnvironmentOperation_def)

lemma sameEnv_sel:
  "sameEnvironmentOperation v w \<longleftrightarrow> eo_OperationID w = eo_OperationID v \<and> eo_EnvironmentID w = eo_EnvironmentID v \<and>
     eo_Version w = eo_Version v \<and> eo_Operation w = eo_Operation v \<and> eo_Actor w = eo_Actor v \<and>
     eo_PackageRef w = eo_PackageRef v \<and> eo_ExpectedRevision w = eo_ExpectedRevision v \<and> eo_RequestedAt w = eo_RequestedAt v"
  unfolding sameEnvironmentOperation_def by (cases v; cases w) auto

lemma sameEnv_trans: "sameEnvironmentOperation u v \<Longrightarrow> sameEnvironmentOperation v w \<Longrightarrow> sameEnvironmentOperation u w"
  by (simp add: sameEnv_sel)

definition envKept :: "edb \<Rightarrow> edb \<Rightarrow> bool" where
  "envKept d d' \<longleftrightarrow>
     (\<forall>k i. kget (ed_idempotency d) k = Some i \<longrightarrow> kget (ed_idempotency d') k = Some i) \<and>
     (\<forall>i v. kget (ed_operations d) i = Some (Json v) \<longrightarrow>
        (\<exists>w. kget (ed_operations d') i = Some (Json w) \<and> sameEnvironmentOperation v w \<and>
           (terminalEnvironmentOperation (eo_State v) \<longrightarrow> w = v)))"

lemma envKept_refl [simp]: "envKept d d"
  by (simp add: envKept_def)

lemma envKept_trans:
  assumes "envKept d e" "envKept e f"
  shows "envKept d f"
  unfolding envKept_def
proof (intro conjI allI impI)
  fix k i
  assume "kget (ed_idempotency d) k = Some i"
  with assms show "kget (ed_idempotency f) k = Some i" unfolding envKept_def by simp
next
  fix i v
  assume "kget (ed_operations d) i = Some (Json v)"
  with assms(1) obtain u where u: "kget (ed_operations e) i = Some (Json u)" "sameEnvironmentOperation v u"
      "terminalEnvironmentOperation (eo_State v) \<longrightarrow> u = v"
    unfolding envKept_def by blast
  with assms(2) obtain w where w: "kget (ed_operations f) i = Some (Json w)" "sameEnvironmentOperation u w"
      "terminalEnvironmentOperation (eo_State u) \<longrightarrow> w = u"
    unfolding envKept_def by blast
  with u show "\<exists>w. kget (ed_operations f) i = Some (Json w) \<and> sameEnvironmentOperation v w \<and>
      (terminalEnvironmentOperation (eo_State v) \<longrightarrow> w = v)"
    using sameEnv_trans [OF u(2) w(2)] by auto
qed

text \<open>The invariant: operations decode, are stored under their names and say what they are for.\<close>

definition env_inv :: "edb \<Rightarrow> bool" where
  "env_inv d \<longleftrightarrow> (\<forall>i raw. kget (ed_operations d) i = Some raw \<longrightarrow> i \<noteq> [] \<and>
     (\<exists>v. raw = Json v \<and> eo_OperationID v = i \<and> eo_EnvironmentID v \<noteq> [] \<and> eo_Version v \<noteq> [] \<and> eo_Operation v \<noteq> []))"

lemma envPut:
  assumes "ed_operations d' = kput i (Json w) (ed_operations d)" "ed_idempotency d' = ed_idempotency d"
    and "kget (ed_operations d) i = Some (Json v)" "sameEnvironmentOperation v w" "\<not> terminalEnvironmentOperation (eo_State v)"
  shows "envKept d d' \<and> (env_inv d \<longrightarrow> env_inv d')"
  using assms unfolding envKept_def env_inv_def sameEnv_sel by (auto simp: kget_kput)

lemma putEnvironmentAudit_ok:
  "putEnvironmentAuditTx e d = Inr d' \<longleftrightarrow>
     EnvironmentAuditEvent_Validate e = Inr () \<and> d' = d\<lparr>ed_audit := kput (ea_EventID e) (Json e) (ed_audit d)\<rparr>"
  by (auto simp: putEnvironmentAuditTx_def)

lemma putEnvironmentOperation_sel [simp]:
  "ed_db (putEnvironmentOperation i v d) = ed_db d" "ed_operations (putEnvironmentOperation i v d) = kput i (Json v) (ed_operations d)"
  "ed_idempotency (putEnvironmentOperation i v d) = ed_idempotency d" "ed_audit (putEnvironmentOperation i v d) = ed_audit d"
  by (simp_all add: putEnvironmentOperation_def)

lemma updateEnvironmentTx_kept:
  assumes ok: "updateEnvironmentTx i st f at d = Inr (w, d')"
  shows "envKept d d' \<and> (env_inv d \<longrightarrow> env_inv d')"
proof -
  obtain v where v: "kget (ed_operations d) i = Some (Json v)" using ok by (auto simp: updateEnvironmentTx_def getJSON_Inr)
  show ?thesis
  proof (cases "terminalEnvironmentOperation (eo_State v)")
    case True
    then show ?thesis using ok v by (simp add: updateEnvironmentTx_def getJSON_def)
  next
    case False
    have "ed_operations d' = kput i (Json w) (ed_operations d)" "ed_idempotency d' = ed_idempotency d" "sameEnvironmentOperation v w"
      using ok v False by (auto simp: updateEnvironmentTx_def getJSON_def Let_def putEnvironmentAudit_ok sameEnv_sel)
    then show ?thesis using envPut v False by blast
  qed
qed

lemma completeEnvironmentTx_kept:
  assumes ok: "completeEnvironmentTx i st f er at d = Inr (w, d')"
  shows "envKept d d' \<and> (env_inv d \<longrightarrow> env_inv d')"
proof -
  obtain v where v: "kget (ed_operations d) i = Some (Json v)" using ok by (auto simp: completeEnvironmentTx_def getJSON_Inr)
  show ?thesis
  proof (cases "terminalEnvironmentOperation (eo_State v)")
    case True
    then show ?thesis using ok v by (simp add: completeEnvironmentTx_def getJSON_def)
  next
    case False
    have "ed_operations d' = kput i (Json w) (ed_operations d)" "ed_idempotency d' = ed_idempotency d" "sameEnvironmentOperation v w"
      using ok v False by (auto simp: completeEnvironmentTx_def getJSON_def Let_def putEnvironmentAudit_ok sameEnv_sel split: if_splits)
    then show ?thesis using envPut v False by blast
  qed
qed

lemma normalize_nonblank:
  "normalizeEnvironmentMutation m0 now = Inr m \<Longrightarrow>
     em_EnvironmentID m \<noteq> [] \<and> em_Version m \<noteq> [] \<and> em_Operation m \<noteq> [] \<and> em_IdempotencyKey m \<noteq> []"
  by (auto simp: normalizeEnvironmentMutation_def Let_def split: if_splits)

lemma environmentOperationID_ok:
  fixes m :: EnvironmentMutation and d :: edb
  shows "kget (ed_operations d) (environmentOperationID m d) = None" "environmentOperationID m d \<noteq> []"
proof -
  show "kget (ed_operations d) (environmentOperationID m d) = None"
    unfolding environmentOperationID_def by (rule unusedName_fresh)
  obtain xs where "environmentOperationID m d = CHR ''e'' # xs"
    using unusedName_Cons [of "ed_operations d" "CHR ''e''"] by (auto simp: environmentOperationID_def)
  then show "environmentOperationID m d \<noteq> []" by simp
qed

lemma applyEnvironmentTx_cases [consumes 1, case_names replay fresh]:
  assumes "applyEnvironmentTx m d = Inr ((v, b), d')"
  obtains i where "b" "d' = d" "kget (ed_idempotency d) (em_IdempotencyKey m) = Some i"
      "kget (ed_operations d) i = Some (Json v)" "sameEnvironmentRequest m v"
  | i g x where "\<not> b" "kget (ed_idempotency d) (em_IdempotencyKey m) = None" "kget (ed_operations d) i = None" "i \<noteq> []"
      "v = requestedEnvironmentOperation m i g"
      "d' = d\<lparr>ed_operations := kput i (Json v) (ed_operations d), ed_idempotency := kput (em_IdempotencyKey m) i (ed_idempotency d),
         ed_audit := x\<rparr>"
proof (cases "kget (ed_idempotency d) (em_IdempotencyKey m)")
  case (Some i)
  with assms show thesis using that(1) [of i]
    by (auto simp: applyEnvironmentTx_def split: option.splits if_splits)
next
  case None
  note i = environmentOperationID_ok [where d = d and m = m]
  from assms None show thesis
    using that(2) [OF _ None i] by (auto simp: applyEnvironmentTx_def Let_def putEnvironmentAudit_ok putEnvironmentOperation_def split: if_splits)
qed

lemma applyEnvironmentTx_kept:
  assumes ok: "applyEnvironmentTx m d = Inr ((v, b), d')" and m: "em_EnvironmentID m \<noteq> []" "em_Version m \<noteq> []" "em_Operation m \<noteq> []"
  shows "envKept d d' \<and> (env_inv d \<longrightarrow> env_inv d')"
  using ok
proof (cases rule: applyEnvironmentTx_cases)
  case (fresh i g x)
  then show ?thesis
    using m by (auto simp: envKept_def env_inv_def kget_kput requestedEnvironmentOperation_def)
qed simp

section \<open>Recovery after a crash\<close>

definition openOperation :: "EnvironmentOperation \<Rightarrow> bool" where
  "openOperation v \<longleftrightarrow> eo_State v = ''requested'' \<or> eo_State v = ''provisioning''"

lemma open_not_terminal: "openOperation v \<Longrightarrow> \<not> terminalEnvironmentOperation (eo_State v)"
  by (auto simp: openOperation_def terminalEnvironmentOperation_def)

definition closedOperation :: "edb \<Rightarrow> gotime \<Rightarrow> EnvironmentOperation \<Rightarrow> EnvironmentOperation" where
  "closedOperation d at v =
     (if openOperation v then
        (if finishedBeforeCrash d v then v\<lparr>eo_State := ''applied'', eo_FailureCode := [], eo_UpdatedAt := at\<rparr>
         else v\<lparr>eo_State := ''failed'', eo_FailureCode := ''service_restarted'', eo_UpdatedAt := at\<rparr>)
      else v)"

lemma closed_sel:
  "eo_OperationID (closedOperation d at v) = eo_OperationID v" "eo_EnvironmentID (closedOperation d at v) = eo_EnvironmentID v"
  "eo_Version (closedOperation d at v) = eo_Version v" "eo_Operation (closedOperation d at v) = eo_Operation v"
  "sameEnvironmentOperation v (closedOperation d at v)"
  by (simp_all add: closedOperation_def sameEnv_sel)

lemma closed_closed: "\<not> openOperation (closedOperation d at v)"
  "openOperation v \<Longrightarrow> terminalEnvironmentOperation (eo_State (closedOperation d at v))"
  by (auto simp: closedOperation_def openOperation_def terminalEnvironmentOperation_def)

lemma recoverEnvironment_eq:
  assumes "snd e = Json v" "eo_OperationID v \<noteq> []" "eo_EnvironmentID v \<noteq> []" "eo_Version v \<noteq> []" "eo_Operation v \<noteq> []" "at \<noteq> 0"
  shows "\<exists>x. recoverEnvironment at e d = Inr (if openOperation v
     then (putEnvironmentOperation (fst e) (closedOperation d at v) d)\<lparr>ed_audit := x\<rparr> else d)"
proof -
  have name: "nextEnvironmentAuditID d' i at \<noteq> []" for d' i
  proof -
    obtain xs where "nextEnvironmentAuditID d' i at = CHR ''a'' # xs"
      using unusedName_Cons [of "ed_audit d'" "CHR ''a''"] by (auto simp: nextEnvironmentAuditID_def)
    then show ?thesis by simp
  qed
  show ?thesis
  proof (cases "openOperation v")
    case True
    then have g: "\<not> (terminalEnvironmentOperation (eo_State v) \<or> eo_State v \<noteq> ''requested'' \<and> eo_State v \<noteq> ''provisioning'')"
      using open_not_terminal by (auto simp: openOperation_def)
    have c: "(if finishedBeforeCrash d v then v\<lparr>eo_State := ''applied'', eo_FailureCode := [], eo_UpdatedAt := at\<rparr>
        else v\<lparr>eo_State := ''failed'', eo_FailureCode := ''service_restarted'', eo_UpdatedAt := at\<rparr>) = closedOperation d at v"
      using True by (simp add: closedOperation_def)
    have "eo_State (closedOperation d at v) \<noteq> []" using True by (simp add: closedOperation_def)
    then have "EnvironmentAuditEvent_Validate (environmentEvent d (eo_OperationID v) at (eo_State v) (closedOperation d at v)) = Inr ()"
      using assms name by (simp add: EnvironmentAuditEvent_Validate_def environmentEvent_def closed_sel)
    then show ?thesis
      unfolding recoverEnvironment_def using True assms(1) g by (simp add: c Let_def putEnvironmentAuditTx_def) blast
  next
    case False
    then show ?thesis using assms(1) by (auto simp: recoverEnvironment_def openOperation_def)
  qed
qed

lemma closed_cong: "ed_db e = ed_db d \<Longrightarrow> closedOperation e at v = closedOperation d at v"
  by (simp add: closedOperation_def finishedBeforeCrash_def)

definition closedIn :: "edb \<Rightarrow> gotime \<Rightarrow> string set \<Rightarrow> edb \<Rightarrow> bool" where
  "closedIn d at ks d' \<longleftrightarrow> ed_db d' = ed_db d \<and> ed_idempotency d' = ed_idempotency d \<and>
     (\<forall>k. kget (ed_operations d') k = (case kget (ed_operations d) k of
        Some (Json v) \<Rightarrow> Some (Json (if k \<in> ks then closedOperation d at v else v)) | raw \<Rightarrow> raw))"

lemma closedIn_empty: "closedIn d at {} d"
  by (auto simp: closedIn_def split: option.splits json.splits)

lemma recover_loop:
  assumes "distinct (map fst es)" "\<And>e. e \<in> set es \<Longrightarrow> kget (ed_operations d) (fst e) = Some (snd e)" "env_inv d0" "at \<noteq> 0"
    and "closedIn d0 at ks d" "ks \<inter> fst ` set es = {}" "\<And>e. e \<in> set es \<Longrightarrow> kget (ed_operations d0) (fst e) = Some (snd e)"
  shows "\<exists>d'. foldE (recoverEnvironment at) es d = Inr d' \<and> closedIn d0 at (ks \<union> fst ` set es) d'"
  using assms
proof (induction es arbitrary: d ks)
  case (Cons e es)
  have e0: "kget (ed_operations d0) (fst e) = Some (snd e)" using Cons.prems(7) [of e] by simp
  then obtain v where v: "snd e = Json v" "eo_OperationID v = fst e" "fst e \<noteq> []" "eo_EnvironmentID v \<noteq> []" "eo_Version v \<noteq> []" "eo_Operation v \<noteq> []"
    using Cons.prems(3) unfolding env_inv_def by blast
  have db: "ed_db d = ed_db d0" using Cons.prems(5) by (simp add: closedIn_def)
  obtain x where x: "recoverEnvironment at e d = Inr (if openOperation v
     then (putEnvironmentOperation (fst e) (closedOperation d at v) d)\<lparr>ed_audit := x\<rparr> else d)" (is "_ = Inr ?d1")
    using recoverEnvironment_eq [OF v(1) _ v(4-6) Cons.prems(4)] v(2,3) by auto
  have same: "\<not> openOperation v \<Longrightarrow> closedOperation d0 at v = v" by (simp add: closedOperation_def)
  have ops: "kget (ed_operations ?d1) k = (if k = fst e then Some (Json (closedOperation d0 at v)) else kget (ed_operations d) k)" for k
    using closed_cong [OF db] same Cons.prems(2) [of e] v(1) by (auto simp: kget_kput)
  have c1: "closedIn d0 at (insert (fst e) ks) ?d1"
    unfolding closedIn_def
  proof (intro conjI allI)
    fix k
    show "kget (ed_operations ?d1) k = (case kget (ed_operations d0) k of
        Some (Json v) \<Rightarrow> Some (Json (if k \<in> insert (fst e) ks then closedOperation d0 at v else v)) | raw \<Rightarrow> raw)"
      using Cons.prems(5) e0 v(1) unfolding ops closedIn_def by (auto split: option.splits json.splits)
  qed (use Cons.prems(5) in \<open>auto simp: closedIn_def\<close>)
  have "kget (ed_operations ?d1) (fst f) = Some (snd f)" if "f \<in> set es" for f
  proof -
    have "fst f \<noteq> fst e" using Cons.prems(1) that by (metis distinct.simps(2) image_eqI list.set_map list.simps(9))
    then show ?thesis using Cons.prems(2) [of f] that unfolding ops by simp
  qed
  then obtain d' where d': "foldE (recoverEnvironment at) es ?d1 = Inr d'" "closedIn d0 at (insert (fst e) ks \<union> fst ` set es) d'"
    using Cons.IH [of ?d1 "insert (fst e) ks"] Cons.prems(1,3,4,6,7) c1 by auto
  have "insert (fst e) ks \<union> fst ` set es = ks \<union> fst ` set (e # es)" by auto
  then show ?case using d' x by auto
qed auto

lemma recover_all:
  assumes inv: "env_inv d" and at: "at \<noteq> 0"
  obtains d' where "foldE (recoverEnvironment at) (kentries (ed_operations d)) d = Inr d'" "ed_db d' = ed_db d"
    "ed_idempotency d' = ed_idempotency d"
    "\<And>k v. kget (ed_operations d) k = Some (Json v) \<Longrightarrow> kget (ed_operations d') k = Some (Json (closedOperation d at v))"
    "\<And>k. kget (ed_operations d) k = None \<Longrightarrow> kget (ed_operations d') k = None"
proof -
  let ?es = "kentries (ed_operations d)"
  obtain d' where d': "foldE (recoverEnvironment at) ?es d = Inr d'" "closedIn d at ({} \<union> fst ` set ?es) d'"
    using recover_loop [of ?es d d at "{}"] inv at closedIn_empty by (auto simp: kentries_iff)
  have "k \<in> fst ` set ?es" if "kget (ed_operations d) k = Some raw" for k raw
    using that by (force simp: kentries_iff [symmetric])
  then show thesis
    using that [of d'] d' unfolding closedIn_def by simp
qed

section \<open>Along every run\<close>

lemma recovered_kept:
  assumes "env_inv d" "ed_idempotency d' = ed_idempotency d"
    and ops: "\<And>k v. kget (ed_operations d) k = Some (Json v) \<Longrightarrow> kget (ed_operations d') k = Some (Json (closedOperation e at v))"
    and none: "\<And>k. kget (ed_operations d) k = None \<Longrightarrow> kget (ed_operations d') k = None"
  shows "envKept d d' \<and> env_inv d'"
proof
  show "envKept d d'"
    using assms(2) ops open_not_terminal by (auto simp: envKept_def closed_sel) (auto simp: closedOperation_def)
  show "env_inv d'"
    unfolding env_inv_def
  proof (intro allI impI)
    fix i raw
    assume raw: "kget (ed_operations d') i = Some raw"
    with none obtain raw0 where "kget (ed_operations d) i = Some raw0" by fastforce
    with assms(1) obtain v where v: "kget (ed_operations d) i = Some (Json v)" "i \<noteq> []" "eo_OperationID v = i" "eo_EnvironmentID v \<noteq> []"
        "eo_Version v \<noteq> []" "eo_Operation v \<noteq> []"
      unfolding env_inv_def by blast
    then show "i \<noteq> [] \<and> (\<exists>v. raw = Json v \<and> eo_OperationID v = i \<and> eo_EnvironmentID v \<noteq> [] \<and> eo_Version v \<noteq> [] \<and> eo_Operation v \<noteq> [])"
      using ops [OF v(1)] raw by (auto simp: closed_sel)
  qed
qed

lemma update_env:
  assumes "update c fn d = (r, d')" "env_inv d"
    and "\<And>x e. fn d = Inr (x, e) \<Longrightarrow> envKept d e \<and> (env_inv d \<longrightarrow> env_inv e)"
  shows "envKept d d' \<and> env_inv d'"
  using update_cases [OF assms(1)] assms(2,3) by auto

text \<open>Recovery with a zero clock writes nothing that the events do not allow, so it is stated for every instant.\<close>

lemma recoverEnvironment_kept:
  assumes "recoverEnvironment at e d = Inr d'" "kget (ed_operations d) (fst e) = Some (snd e)"
  shows "envKept d d' \<and> (env_inv d \<longrightarrow> env_inv d')" "\<And>k. k \<noteq> fst e \<Longrightarrow> kget (ed_operations d') k = kget (ed_operations d) k"
proof -
  obtain v where v: "snd e = Json v" using assms(1) by (cases "snd e") (auto simp: recoverEnvironment_def)
  show "envKept d d' \<and> (env_inv d \<longrightarrow> env_inv d')"
  proof (cases "openOperation v")
    case True
    obtain w where "ed_operations d' = kput (fst e) (Json w) (ed_operations d)" "ed_idempotency d' = ed_idempotency d" "sameEnvironmentOperation v w"
      using assms(1) v True open_not_terminal [OF True]
      by (auto simp: recoverEnvironment_def openOperation_def Let_def putEnvironmentAudit_ok sameEnv_sel split: if_splits)
    then show ?thesis using envPut assms(2) v open_not_terminal [OF True] by metis
  next
    case False
    then show ?thesis using assms(1) v by (auto simp: recoverEnvironment_def openOperation_def)
  qed
  show "k \<noteq> fst e \<Longrightarrow> kget (ed_operations d') k = kget (ed_operations d) k" for k
    using assms(1) v by (auto simp: recoverEnvironment_def Let_def putEnvironmentAudit_ok kget_kput split: if_splits)
qed

lemma recover_fold_kept:
  assumes "foldE (recoverEnvironment at) es d = Inr d'" "distinct (map fst es)"
    and "\<And>e. e \<in> set es \<Longrightarrow> kget (ed_operations d) (fst e) = Some (snd e)"
  shows "envKept d d' \<and> (env_inv d \<longrightarrow> env_inv d')"
  using assms
proof (induction es arbitrary: d)
  case (Cons e es)
  from Cons.prems(1) obtain d1 where d1: "recoverEnvironment at e d = Inr d1" "foldE (recoverEnvironment at) es d1 = Inr d'" by auto
  note k = recoverEnvironment_kept [OF d1(1) Cons.prems(3) [of e]]
  have "kget (ed_operations d1) (fst f) = Some (snd f)" if f: "f \<in> set es" for f
  proof -
    have "fst f \<noteq> fst e" using Cons.prems(2) f by (metis distinct.simps(2) image_eqI list.set_map list.simps(9))
    then show ?thesis using k(2) Cons.prems(3) [of f] f by simp
  qed
  then show ?case using Cons.IH [OF d1(2)] Cons.prems(2) k(1) envKept_trans by auto
qed simp

lemma envStep_kept:
  assumes "envStep d d'" "env_inv d"
  shows "envKept d d' \<and> env_inv d'"
  using assms
proof (cases rule: envStep.cases)
  case (apply_operation c m0 now r)
  show ?thesis
  proof (cases "normalizeEnvironmentMutation m0 now")
    case (Inr m)
    then have "update c (applyEnvironmentTx m) d = (r, d')" using apply_operation by (simp add: ApplyEnvironmentOperation_def)
    then show ?thesis using assms(2) applyEnvironmentTx_kept normalize_nonblank [OF Inr] by (elim update_env) auto
  qed (use apply_operation assms(2) in \<open>simp add: ApplyEnvironmentOperation_def\<close>)
next
  case (update_operation c i st f at now r)
  then show ?thesis unfolding UpdateEnvironmentOperation_def using assms(2) updateEnvironmentTx_kept by (elim update_env) auto
next
  case (complete_operation c i st f er at now r)
  show ?thesis
  proof (cases "Record_Validate er")
    case (Inr u)
    then have "update c (completeEnvironmentTx i st f er (if IsZero at then now else at)) d = (r, d')"
      using complete_operation by (simp add: CompleteEnvironmentOperation_def)
    then show ?thesis using assms(2) completeEnvironmentTx_kept by (elim update_env) auto
  qed (use complete_operation assms(2) in \<open>simp add: CompleteEnvironmentOperation_def\<close>)
next
  case (recover_operations c at now r)
  then show ?thesis
    unfolding RecoverEnvironmentOperations_def using assms(2)
    by (elim update_env) (auto dest!: recover_fold_kept simp: kentries_iff)
next
  case (slot_tables s)
  then show ?thesis using assms(2) by (simp add: envKept_def env_inv_def)
qed

lemma envRun_kept: "envRun d d' \<Longrightarrow> env_inv d \<Longrightarrow> envKept d d' \<and> env_inv d'"
  by (induction rule: rtranclp_induct) (use envStep_kept envKept_trans in auto)

lemma env_inv_empty [simp]: "env_inv emptyEDB"
  by (simp add: env_inv_def emptyEDB_def)

lemma envRun_inv: "envRun emptyEDB d \<Longrightarrow> env_inv d"
  using envRun_kept env_inv_empty by blast

section \<open>Recorded exactly once\<close>

lemma normalize_again:
  assumes "normalizeEnvironmentMutation m0 now = Inr m"
  shows "\<exists>m'. normalizeEnvironmentMutation m0 now' = Inr m' \<and> em_IdempotencyKey m' = em_IdempotencyKey m \<and>
    (\<forall>v. sameEnvironmentRequest m' v = sameEnvironmentRequest m v)"
  using assms by (auto simp: normalizeEnvironmentMutation_def Let_def sameEnvironmentRequest_def split: if_splits)

lemma sameEnvironmentRequest_kept:
  "sameEnvironmentOperation v w \<Longrightarrow> sameEnvironmentRequest m w = sameEnvironmentRequest m v"
  by (simp add: sameEnv_sel sameEnvironmentRequest_def)

lemma applyEnvironmentTx_known:
  assumes "kget (ed_idempotency d) (em_IdempotencyKey m) = Some i" "kget (ed_operations d) i = Some (Json w)"
  shows "applyEnvironmentTx m d =
    (if sameEnvironmentRequest m w then Inr ((w, True), d) else Inl (EnvironmentControlErr ErrEnvironmentIdempotencyConflict))"
  using assms by (simp add: applyEnvironmentTx_def)

lemma ApplyEnvironmentOperation_known:
  assumes "normalizeEnvironmentMutation m0 now = Inr m"
    and "kget (ed_idempotency d) (em_IdempotencyKey m) = Some i" "kget (ed_operations d) i = Some (Json w)"
  shows "ApplyEnvironmentOperation c m0 now d =
    (if sameEnvironmentRequest m w then (case c d of None \<Rightarrow> (Inr (w, True), d) | Some e \<Rightarrow> (Inl e, d))
     else (Inl (EnvironmentControlErr ErrEnvironmentIdempotencyConflict), d))"
  using assms applyEnvironmentTx_known [OF assms(2,3)] by (simp add: ApplyEnvironmentOperation_def update_def)

text \<open>
  C4. A mutation of an environment package is recorded once under its idempotency key. Whatever the
  control plane does after it was accepted, the same call made again at any time is answered as a
  repetition with the operation as it stands, and another request under the key is refused as a
  conflict; neither writes. The operation keeps what it is about.
\<close>

theorem ApplyEnvironmentOperation_once:
  assumes "envRun emptyEDB d" "ApplyEnvironmentOperation c m0 now d = (Inr (v, False), d1)" "envRun d1 d2"
  shows "eo_State v = ''requested'' \<and> (\<exists>w. sameEnvironmentOperation v w \<and>
    kget (ed_operations d2) (eo_OperationID v) = Some (Json w) \<and>
    (\<forall>c' now'. c' d2 = None \<longrightarrow> ApplyEnvironmentOperation c' m0 now' d2 = (Inr (w, True), d2)) \<and>
    (\<forall>c' m1 m2 now'. normalizeEnvironmentMutation m1 now' = Inr m2 \<and>
       em_IdempotencyKey m2 = TrimSpace (em_IdempotencyKey m0) \<and> \<not> sameEnvironmentRequest m2 w \<longrightarrow>
       ApplyEnvironmentOperation c' m1 now' d2 = (Inl (EnvironmentControlErr ErrEnvironmentIdempotencyConflict), d2)))"
proof -
  obtain m where m: "normalizeEnvironmentMutation m0 now = Inr m" "applyEnvironmentTx m d = Inr ((v, False), d1)"
    using assms(2) by (auto simp: ApplyEnvironmentOperation_def update_Inr split: sum.splits)
  have key: "em_IdempotencyKey m = TrimSpace (em_IdempotencyKey m0)"
    using m(1) by (auto simp: normalizeEnvironmentMutation_def Let_def split: if_splits)
  from m(2) obtain i g x where f: "v = requestedEnvironmentOperation m i g"
      "kget (ed_operations d1) i = Some (Json v)" "kget (ed_idempotency d1) (em_IdempotencyKey m) = Some i"
    by (cases rule: applyEnvironmentTx_cases) (auto simp: kget_kput)
  have i: "eo_OperationID v = i" "eo_State v = ''requested''" "sameEnvironmentRequest m v"
    by (simp_all add: f(1) requestedEnvironmentOperation_def sameEnvironmentRequest_def)
  have "envStep d d1" using assms(2) by (rule envStep.apply_operation)
  then have "env_inv d1" using envStep_kept envRun_inv [OF assms(1)] by blast
  then have k: "envKept d1 d2" using envRun_kept [OF assms(3)] by blast
  then obtain w where w: "kget (ed_operations d2) i = Some (Json w)" "sameEnvironmentOperation v w"
    using f(2) unfolding envKept_def by blast
  have idem: "kget (ed_idempotency d2) (em_IdempotencyKey m) = Some i" using k f(3) by (simp add: envKept_def)
  have "ApplyEnvironmentOperation c' m0 now' d2 = (Inr (w, True), d2)" if "c' d2 = None" for c' now'
  proof -
    obtain m' where m': "normalizeEnvironmentMutation m0 now' = Inr m'" "em_IdempotencyKey m' = em_IdempotencyKey m"
        "sameEnvironmentRequest m' w"
      using normalize_again [OF m(1), of now'] i(3) sameEnvironmentRequest_kept [OF w(2)] by blast
    then show ?thesis using ApplyEnvironmentOperation_known [OF m'(1), of d2 i w c'] idem w(1) that by simp
  qed
  moreover have "ApplyEnvironmentOperation c' m1 now' d2 = (Inl (EnvironmentControlErr ErrEnvironmentIdempotencyConflict), d2)"
    if "normalizeEnvironmentMutation m1 now' = Inr m2 \<and> em_IdempotencyKey m2 = TrimSpace (em_IdempotencyKey m0) \<and>
      \<not> sameEnvironmentRequest m2 w" for c' m1 m2 now'
    using ApplyEnvironmentOperation_known [of m1 now' m2 d2 i w c'] idem w(1) that key by simp
  ultimately show ?thesis using w i by blast
qed

section \<open>What a crash leaves behind\<close>

lemma recover_nothing_open:
  assumes "\<And>k raw. (k, raw) \<in> set es \<Longrightarrow> \<exists>v. raw = Json v \<and> \<not> openOperation v"
  shows "foldE (recoverEnvironment at) es d = Inr d"
  using assms
proof (induction es)
  case (Cons e es)
  obtain v where "snd e = Json v" "\<not> openOperation v" using Cons.prems [of "fst e" "snd e"] by auto
  then have "recoverEnvironment at e d = Inr d" by (auto simp: recoverEnvironment_def openOperation_def)
  then show ?case using Cons by auto
qed simp

text \<open>
  C18. The recovery after a crash always succeeds on what the control plane has stored, whatever the
  crash cut off: every operation that was still requested or provisioning ends as applied when a
  newer ready generation of its package shows that the work was finished, and as failed otherwise;
  every other operation and the packages stay as they are. A second recovery has nothing left to do.
\<close>

theorem RecoverEnvironmentOperations_closes:
  assumes "envRun emptyEDB d" "at \<noteq> 0" "\<And>e. c e = None"
  shows "\<exists>d'. RecoverEnvironmentOperations c at now d = (Inr (), d') \<and> ed_db d' = ed_db d \<and> ed_idempotency d' = ed_idempotency d \<and>
    (\<forall>k. kget (ed_operations d) k = None \<longrightarrow> kget (ed_operations d') k = None) \<and>
    (\<forall>k v. kget (ed_operations d) k = Some (Json v) \<longrightarrow> kget (ed_operations d') k = Some (Json
       (if \<not> openOperation v then v
        else if finishedBeforeCrash d v then v\<lparr>eo_State := ''applied'', eo_FailureCode := [], eo_UpdatedAt := at\<rparr>
        else v\<lparr>eo_State := ''failed'', eo_FailureCode := ''service_restarted'', eo_UpdatedAt := at\<rparr>))) \<and>
    (\<forall>at' now'. RecoverEnvironmentOperations c at' now' d' = (Inr (), d'))"
proof -
  have inv: "env_inv d" by (rule envRun_inv [OF assms(1)])
  obtain d' where d': "foldE (recoverEnvironment at) (kentries (ed_operations d)) d = Inr d'" "ed_db d' = ed_db d"
    "ed_idempotency d' = ed_idempotency d"
    "\<And>k v. kget (ed_operations d) k = Some (Json v) \<Longrightarrow> kget (ed_operations d') k = Some (Json (closedOperation d at v))"
    "\<And>k. kget (ed_operations d) k = None \<Longrightarrow> kget (ed_operations d') k = None"
    using recover_all [OF inv assms(2)] by blast
  have run: "RecoverEnvironmentOperations c at now d = (Inr (), d')"
    using d'(1) assms(2,3) by (simp add: RecoverEnvironmentOperations_def update_def)
  have "\<exists>v. raw = Json v \<and> \<not> openOperation v" if "(k, raw) \<in> set (kentries (ed_operations d'))" for k raw
  proof -
    have raw: "kget (ed_operations d') k = Some raw" using that by (simp add: kentries_iff)
    with d'(5) obtain raw0 where "kget (ed_operations d) k = Some raw0" by fastforce
    then obtain v where "kget (ed_operations d) k = Some (Json v)" using inv unfolding env_inv_def by blast
    with d'(4) raw closed_closed(1) show ?thesis by auto
  qed
  then have "foldE (recoverEnvironment at') (kentries (ed_operations d')) d' = Inr d'" for at'
    by (rule recover_nothing_open)
  then have "\<forall>at' now'. RecoverEnvironmentOperations c at' now' d' = (Inr (), d')"
    using assms(3) by (simp add: RecoverEnvironmentOperations_def update_def)
  then show ?thesis
    using run d'(2-5) unfolding closedOperation_def by (auto split: if_splits)
qed

section \<open>Gates\<close>

lemma valid_record_flags:
  assumes "Record_Validate r = Inr ()"
  shows "en_Trusted r \<Longrightarrow> en_Verified r" "en_Enabled r \<Longrightarrow> en_Trusted r" "en_Verified r \<Longrightarrow> en_Installed r"
    "en_Ready r \<Longrightarrow> en_Enabled r \<and> en_Healthy r"
  using assms by (auto simp: Record_Validate_def split: if_splits)

lemma gateRecord_ok:
  assumes "gateRecord gate r = Inr r'"
  shows "r' = (if gate = ''trust'' then r\<lparr>en_Trusted := True\<rparr>
    else if gate = ''disable'' then r\<lparr>en_Enabled := False, en_Ready := False\<rparr>
    else if gate = ''enable'' then r\<lparr>en_Enabled := True\<rparr>
    else if gate = ''health''
      then r\<lparr>en_Healthy := True, en_Ready := (en_Installed r \<and> en_Verified r \<and> en_Trusted r \<and> en_Enabled r)\<rparr> else r)"
    and "gate = ''enable'' \<Longrightarrow> en_Trusted r"
  using assms by (auto simp: gateRecord_def split: if_splits)

lemma gate_effect:
  assumes g: "gateRecord gate r0 = Inr r1" and v: "Record_Validate r = Inr ()" "Record_Validate r0 = Inr ()"
    and r: "r = r1\<lparr>en_UpdatedAt := x\<rparr>"
  shows "r = r0\<lparr>en_Trusted := en_Trusted r, en_Enabled := en_Enabled r, en_Healthy := en_Healthy r, en_Ready := en_Ready r,
      en_UpdatedAt := en_UpdatedAt r\<rparr>"
    "IsReady r \<Longrightarrow> \<not> IsReady r0 \<Longrightarrow> gate = ''health'' \<and> en_Installed r0 \<and> en_Verified r0 \<and> en_Trusted r0 \<and> en_Enabled r0"
    "en_Trusted r \<Longrightarrow> \<not> en_Trusted r0 \<Longrightarrow> gate = ''trust'' \<and> en_Verified r0"
    "en_Enabled r \<Longrightarrow> \<not> en_Enabled r0 \<Longrightarrow> gate = ''enable'' \<and> en_Trusted r0"
    "gate = ''disable'' \<Longrightarrow> \<not> en_Enabled r \<and> \<not> IsReady r"
    "en_EnvironmentID r = en_EnvironmentID r0" "en_Version r = en_Version r0"
proof -
  note e = gateRecord_ok [OF g]
  note f = valid_record_flags [OF v(1)] valid_record_flags [OF v(2)]
  show "r = r0\<lparr>en_Trusted := en_Trusted r, en_Enabled := en_Enabled r, en_Healthy := en_Healthy r, en_Ready := en_Ready r,
      en_UpdatedAt := en_UpdatedAt r\<rparr>"
    by (simp add: r e(1))
  show "IsReady r \<Longrightarrow> \<not> IsReady r0 \<Longrightarrow> gate = ''health'' \<and> en_Installed r0 \<and> en_Verified r0 \<and> en_Trusted r0 \<and> en_Enabled r0"
    using f(4,8) valid_record_ready [OF v(1)] valid_record_ready [OF v(2)] by (simp add: r e(1) IsReady_def split: if_splits)
  show "en_Trusted r \<Longrightarrow> \<not> en_Trusted r0 \<Longrightarrow> gate = ''trust'' \<and> en_Verified r0"
    using f(1) by (simp add: r e(1) split: if_splits)
  show "en_Enabled r \<Longrightarrow> \<not> en_Enabled r0 \<Longrightarrow> gate = ''enable'' \<and> en_Trusted r0"
    using e(2) by (simp add: r e(1) split: if_splits)
  show "gate = ''disable'' \<Longrightarrow> \<not> en_Enabled r \<and> \<not> IsReady r"
    by (simp add: r e(1) IsReady_def)
  show "en_EnvironmentID r = en_EnvironmentID r0" "en_Version r = en_Version r0"
    by (simp_all add: r e(1))
qed

text \<open>
  C2. A gate changes the flags of a stored package record and nothing else: not what the package is, its
  generation, or whether it is installed and verified. A package becomes ready only through a health
  check on a record that is installed, verified, trusted and enabled, it is trusted only through the
  trust gate, and a disabled one is not ready. The result is stored, and no other record changes.
\<close>

theorem ApplyEnvironmentGate_safe:
  assumes "ApplyEnvironmentGate c environmentID version gate at now d = (Inr r, d')"
  shows "\<exists>r0. GetEnvironmentRecord environmentID version d = Inr r0 \<and>
    r = r0\<lparr>en_Trusted := en_Trusted r, en_Enabled := en_Enabled r, en_Healthy := en_Healthy r, en_Ready := en_Ready r,
      en_UpdatedAt := en_UpdatedAt r\<rparr> \<and>
    (IsReady r \<and> \<not> IsReady r0 \<longrightarrow> gate = ''health'' \<and> en_Installed r0 \<and> en_Verified r0 \<and> en_Trusted r0 \<and> en_Enabled r0) \<and>
    (en_Trusted r \<and> \<not> en_Trusted r0 \<longrightarrow> gate = ''trust'' \<and> en_Verified r0) \<and>
    (en_Enabled r \<and> \<not> en_Enabled r0 \<longrightarrow> gate = ''enable'' \<and> en_Trusted r0) \<and>
    (gate = ''disable'' \<longrightarrow> \<not> en_Enabled r \<and> \<not> IsReady r) \<and>
    GetEnvironmentRecord (en_EnvironmentID r) (en_Version r) d' = Inr r \<and>
    d' = d\<lparr>sd_packages := kput (environmentKey (en_EnvironmentID r0) (en_Version r0)) (Json r) (sd_packages d)\<rparr>"
proof -
  obtain r0 r1 where r0: "GetEnvironmentRecord environmentID version d = Inr r0" and g: "gateRecord gate r0 = Inr r1"
    and r: "r = r1\<lparr>en_UpdatedAt := (if IsZero at then now else at)\<rparr>" and v: "Record_Validate r = Inr ()"
    and put: "PutEnvironmentRecord c r d = (Inr (), d')"
    using assms by (auto simp: ApplyEnvironmentGate_def Let_def split: sum.splits prod.splits)
  have v0: "Record_Validate r0 = Inr ()" using r0 by (auto simp: GetEnvironmentRecord_def view_def)
  have d': "d' = d\<lparr>sd_packages := kput (environmentKey (en_EnvironmentID r) (en_Version r)) (Json r) (sd_packages d)\<rparr>"
    using put v by (auto simp: PutEnvironmentRecord_def update_Inr)
  have get: "GetEnvironmentRecord (en_EnvironmentID r) (en_Version r) d' = Inr r"
    using v by (simp add: d' GetEnvironmentRecord_def view_def getJSON_def kget_kput)
  note e = gate_effect [OF g v v0 r]
  show ?thesis
  proof (rule exI [of _ r0], intro conjI)
    show "GetEnvironmentRecord environmentID version d = Inr r0" by (rule r0)
    show "r = r0\<lparr>en_Trusted := en_Trusted r, en_Enabled := en_Enabled r, en_Healthy := en_Healthy r, en_Ready := en_Ready r,
      en_UpdatedAt := en_UpdatedAt r\<rparr>" by (rule e(1))
    show "d' = d\<lparr>sd_packages := kput (environmentKey (en_EnvironmentID r0) (en_Version r0)) (Json r) (sd_packages d)\<rparr>"
      unfolding d' e(6,7) by (rule HOL.refl)
  qed (rule get | use e(2-5) in blast)+
qed

section \<open>Concrete calls\<close>

definition okE :: ecommit where
  "okE = (\<lambda>_. None)"

definition demoEnvironmentMutation :: EnvironmentMutation where
  "demoEnvironmentMutation = \<lparr>em_EnvironmentID = ''browser'', em_Version = ''1.0'', em_Operation = ''install'',
     em_PackageRef = ''browser.tar'', em_ExpectedRevision = 0, em_IdempotencyKey = ''key-1'', em_Actor = ''admin'', em_RequestedAt = 6\<rparr>"

definition demoEnvironment :: EnvironmentRecord where
  "demoEnvironment = \<lparr>en_EnvironmentID = ''browser'', en_Version = ''1.0'', en_Capabilities = [],
     en_ManifestDigest = replicate 64 (CHR ''a''), en_Signer = ''vendor'', en_Installed = True, en_Verified = True, en_Trusted = True,
     en_Enabled = True, en_Healthy = False, en_Ready = False, en_Generation = 1, en_UpdatedAt = 5\<rparr>"

lemma demoEnvironment_valid: "Record_Validate demoEnvironment = Inr ()"
  "Record_Validate (demoEnvironment\<lparr>en_Healthy := True, en_Ready := True, en_UpdatedAt := 9\<rparr>) = Inr ()"
proof -
  have "validEnvironmentID ''browser''" "validEnvironmentVersion ''1.0''" "validToken ''vendor'' 256"
    by (simp_all add: validEnvironmentID_def validEnvironmentVersion_def validToken_def ContainsAny_def go_simps)
  moreover have "ManifestDigestValid (demoEnvironment\<lparr>en_Healthy := h, en_Ready := b, en_UpdatedAt := t\<rparr>)" for h b t
    by (simp add: ManifestDigestValid_def demoEnvironment_def hexDigit_def list_all_iff)
  moreover have "ManifestDigestValid demoEnvironment"
    by (simp add: ManifestDigestValid_def demoEnvironment_def hexDigit_def list_all_iff)
  ultimately show "Record_Validate demoEnvironment = Inr ()"
    "Record_Validate (demoEnvironment\<lparr>en_Healthy := True, en_Ready := True, en_UpdatedAt := 9\<rparr>) = Inr ()"
    by (simp_all add: Record_Validate_def) (simp_all add: demoEnvironment_def)
qed

lemma demo_environment_applied:
  "\<exists>v d1. ApplyEnvironmentOperation okE demoEnvironmentMutation 6 emptyEDB = (Inr (v, False), d1)"
proof -
  have n: "normalizeEnvironmentMutation demoEnvironmentMutation 6 = Inr demoEnvironmentMutation"
    by (simp add: normalizeEnvironmentMutation_def demoEnvironmentMutation_def Let_def ContainsAny_def go_simps)
  have "environmentOperationID demoEnvironmentMutation emptyEDB \<noteq> []" by (rule environmentOperationID_ok)
  then have "\<exists>v d1. applyEnvironmentTx demoEnvironmentMutation emptyEDB = Inr ((v, False), d1)"
    by (simp add: applyEnvironmentTx_def emptyEDB_def Let_def putEnvironmentAuditTx_def EnvironmentAuditEvent_Validate_def
        demoEnvironmentMutation_def)
  then show ?thesis using n by (auto simp: ApplyEnvironmentOperation_def update_def okE_def)
qed

theorem ApplyEnvironmentOperation_once_witness:
  "\<exists>v d1. ApplyEnvironmentOperation okE demoEnvironmentMutation 6 emptyEDB = (Inr (v, False), d1) \<and>
     eo_State v = ''requested'' \<and>
     (\<exists>w. sameEnvironmentOperation v w \<and> ApplyEnvironmentOperation okE demoEnvironmentMutation 9 d1 = (Inr (w, True), d1))"
proof -
  obtain v d1 where a: "ApplyEnvironmentOperation okE demoEnvironmentMutation 6 emptyEDB = (Inr (v, False), d1)"
    using demo_environment_applied by blast
  have "okE d1 = None" by (simp add: okE_def)
  then show ?thesis using a ApplyEnvironmentOperation_once [OF rtranclp.rtrancl_refl a rtranclp.rtrancl_refl] by blast
qed

theorem RecoverEnvironmentOperations_closes_witness:
  "\<exists>v d d'. ApplyEnvironmentOperation okE demoEnvironmentMutation 6 emptyEDB = (Inr (v, False), d) \<and>
     RecoverEnvironmentOperations okE 9 9 d = (Inr (), d') \<and> ed_db d' = ed_db d \<and> RecoverEnvironmentOperations okE 10 10 d' = (Inr (), d')"
proof -
  obtain v d where a: "ApplyEnvironmentOperation okE demoEnvironmentMutation 6 emptyEDB = (Inr (v, False), d)"
    using demo_environment_applied by blast
  have run: "envRun emptyEDB d" by (rule r_into_rtranclp) (rule envStep.apply_operation [OF a])
  have "(9::gotime) \<noteq> 0" "okE e = None" for e by (simp_all add: okE_def)
  from RecoverEnvironmentOperations_closes [where c = okE and now = 9, OF run this] show ?thesis using a by blast
qed

theorem ApplyEnvironmentGate_safe_witness:
  "\<exists>r d'. ApplyEnvironmentGate (\<lambda>_. None) ''browser'' ''1.0'' ''health'' 9 9
       (emptySDB\<lparr>sd_packages := kput (environmentKey ''browser'' ''1.0'') (Json demoEnvironment) kempty\<rparr>) = (Inr r, d') \<and>
     en_Ready r \<and> GetEnvironmentRecord (en_EnvironmentID r) (en_Version r) d' = Inr r"
proof -
  let ?d = "emptySDB\<lparr>sd_packages := kput (environmentKey ''browser'' ''1.0'') (Json demoEnvironment) kempty\<rparr>"
  let ?r = "demoEnvironment\<lparr>en_Healthy := True, en_Ready := True, en_UpdatedAt := 9\<rparr>"
  have get: "GetEnvironmentRecord ''browser'' ''1.0'' ?d = Inr demoEnvironment"
    by (simp add: GetEnvironmentRecord_def view_def getJSON_def kget_kput demoEnvironment_valid)
  have gate: "gateRecord ''health'' demoEnvironment = Inr (demoEnvironment\<lparr>en_Healthy := True, en_Ready := True\<rparr>)"
    by (simp add: gateRecord_def demoEnvironment_def)
  obtain d' where run: "ApplyEnvironmentGate (\<lambda>_. None) ''browser'' ''1.0'' ''health'' 9 9 ?d = (Inr ?r, d')"
    using demoEnvironment_valid(2) by (simp add: ApplyEnvironmentGate_def get gate Let_def PutEnvironmentRecord_def update_def)
  have "en_Ready ?r" by simp
  then show ?thesis using run ApplyEnvironmentGate_safe [OF run] by blast
qed

end
