(* ===== verification/AesGcm.thy ===== *)
theory AesGcm
  imports Sha256
begin

text \<open>
  The parts of Go's \<open>crypto/aes\<close> and \<open>crypto/cipher\<close> that the repository uses: the block cipher of
  FIPS 197 for keys of 16, 24 and 32 bytes, and the authenticated encryption of NIST SP 800-38D with
  nonces of 12 bytes and tags of 16 bytes.
\<close>

type_synonym byte = "8 word"

definition byteOf :: "char \<Rightarrow> byte" where
  "byteOf c = of_nat (of_char c)"

definition charOf :: "byte \<Rightarrow> char" where
  "charOf b = char_of (unat b)"

lemma charOf_byteOf [simp]: "charOf (byteOf c) = c"
proof -
  have "(of_char c :: nat) < 256" by simp
  then have "unat (of_nat (of_char c) :: byte) = of_char c" by (simp add: unat_of_nat)
  then show ?thesis by (simp add: charOf_def byteOf_def)
qed

lemma byteOf_charOf [simp]: "byteOf (charOf b) = b"
proof -
  have "unat b < 256" using unsigned_less [of b, where ?'a = nat] by simp
  then show ?thesis by (simp add: charOf_def byteOf_def)
qed

section \<open>The block cipher\<close>

text \<open>The field of 256 elements, by repeated doubling.\<close>

definition xtime :: "byte \<Rightarrow> byte" where
  "xtime b = push_bit 1 b XOR (if bit b 7 then 27 else 0)"

fun gfByte :: "nat \<Rightarrow> byte \<Rightarrow> byte \<Rightarrow> byte" where
  "gfByte 0 a b = 0"
| "gfByte (Suc k) a b = (if bit b 0 then a else 0) XOR gfByte k (xtime a) (drop_bit 1 b)"

text \<open>The inverse of \<open>a\<close> is its power 254, and the substitution is an affine map of the inverse.\<close>

definition sbox :: "byte \<Rightarrow> byte" where
  "sbox a =
     (let b = (gfByte 8 a ^^ 253) a; rotl = (\<lambda>n. push_bit n b OR drop_bit (8 - n) b)
      in b XOR rotl 1 XOR rotl 2 XOR rotl 3 XOR rotl 4 XOR 99)"

text \<open>The key schedule, in words of four bytes.\<close>

definition expandStep :: "nat \<Rightarrow> byte list list \<Rightarrow> byte list list" where
  "expandStep nk ws =
     (let i = length ws; w = last ws;
          t = (if i mod nk = 0 then map2 (XOR) (map sbox (rotate1 w)) [(xtime ^^ (i div nk - 1)) 1, 0, 0, 0]
               else if nk > 6 \<and> i mod nk = 4 then map sbox w else w)
      in ws @ [map2 (XOR) (ws ! (i - nk)) t])"

definition roundKeys :: "byte list \<Rightarrow> byte list list" where
  "roundKeys key =
     (let nk = length key div 4
      in map concat (chunks 4 (nk + 7) ((expandStep nk ^^ (3 * nk + 28)) (chunks 4 nk key))))"

text \<open>The state is read column by column.\<close>

definition addRoundKey :: "byte list \<Rightarrow> byte list \<Rightarrow> byte list" where
  "addRoundKey k s = map (\<lambda>i. s ! i XOR k ! i) [0..<16]"

definition shiftRows :: "byte list \<Rightarrow> byte list" where
  "shiftRows s = map (\<lambda>i. s ! ((i + 4 * (i mod 4)) mod 16)) [0..<16]"

definition mixColumns :: "byte list \<Rightarrow> byte list" where
  "mixColumns s =
     map (\<lambda>i. let a = (\<lambda>j. s ! (4 * (i div 4) + (i + j) mod 4))
              in gfByte 8 (a 0) 2 XOR gfByte 8 (a 1) 3 XOR a 2 XOR a 3) [0..<16]"

definition encryptBlock :: "byte list \<Rightarrow> byte list \<Rightarrow> byte list" where
  "encryptBlock key block =
     (let ks = roundKeys key
      in addRoundKey (last ks) (shiftRows (map sbox
           (fold (\<lambda>k s. addRoundKey k (mixColumns (shiftRows (map sbox s)))) (butlast (tl ks)) (addRoundKey (hd ks) block)))))"

lemma length_encryptBlock [simp]: "length (encryptBlock key block) = 16"
  by (simp add: encryptBlock_def addRoundKey_def Let_def)

section \<open>Galois counter mode\<close>

definition blockWord :: "byte list \<Rightarrow> 128 word" where
  "blockWord bs = fold (\<lambda>b w. push_bit 8 w OR ucast b) bs 0"

definition wordBlock :: "128 word \<Rightarrow> byte list" where
  "wordBlock w = map (\<lambda>i. ucast (drop_bit (120 - 8 * i) w)) [0..<16]"

fun gfBlock :: "nat \<Rightarrow> 128 word \<Rightarrow> 128 word \<Rightarrow> 128 word \<Rightarrow> 128 word" where
  "gfBlock 0 x v z = z"
| "gfBlock (Suc k) x v z =
     gfBlock k (push_bit 1 x) (drop_bit 1 v XOR (if bit v 0 then push_bit 120 225 else 0)) (if bit x 127 then z XOR v else z)"

definition zeroPadded :: "byte list \<Rightarrow> 128 word list" where
  "zeroPadded bs =
     (let n = (length bs + 15) div 16 in map blockWord (chunks 16 n (bs @ replicate (16 * n - length bs) 0)))"

definition ghash :: "128 word \<Rightarrow> byte list \<Rightarrow> byte list \<Rightarrow> 128 word" where
  "ghash h ad c =
     fold (\<lambda>b y. gfBlock 128 (y XOR b) h 0)
       (zeroPadded ad @ zeroPadded c @ [push_bit 64 (of_nat (8 * length ad)) OR of_nat (8 * length c)]) 0"

definition counterBlock :: "byte list \<Rightarrow> nat \<Rightarrow> byte list" where
  "counterBlock nonce n = nonce @ map byteOf (bigEndian 4 n)"

definition keystream :: "byte list \<Rightarrow> byte list \<Rightarrow> nat \<Rightarrow> byte list" where
  "keystream key nonce n = concat (map (\<lambda>i. encryptBlock key (counterBlock nonce (i + 2))) [0..<n div 16 + 1])"

definition counterCrypt :: "byte list \<Rightarrow> byte list \<Rightarrow> byte list \<Rightarrow> byte list" where
  "counterCrypt key nonce bs = map2 (XOR) bs (keystream key nonce (length bs))"

definition authTag :: "byte list \<Rightarrow> byte list \<Rightarrow> byte list \<Rightarrow> byte list \<Rightarrow> byte list" where
  "authTag key nonce ad c =
     map2 (XOR) (wordBlock (ghash (blockWord (encryptBlock key (replicate 16 0))) ad c)) (encryptBlock key (counterBlock nonce 1))"

definition gcmSeal :: "string \<Rightarrow> string \<Rightarrow> string \<Rightarrow> string \<Rightarrow> string" where
  "gcmSeal key nonce plaintext ad =
     (let k = map byteOf key; n = map byteOf nonce; c = counterCrypt k n (map byteOf plaintext)
      in map charOf (c @ authTag k n (map byteOf ad) c))"

definition gcmOpen :: "string \<Rightarrow> string \<Rightarrow> string \<Rightarrow> string \<Rightarrow> string option" where
  "gcmOpen key nonce ciphertext ad =
     (if length ciphertext < 16 then None
      else let k = map byteOf key; n = map byteOf nonce; m = length ciphertext - 16; c = map byteOf (take m ciphertext)
           in if map byteOf (drop m ciphertext) = authTag k n (map byteOf ad) c
              then Some (map charOf (counterCrypt k n c)) else None)"

section \<open>Opening what was sealed\<close>

lemma length_keystream: "length (keystream key nonce n) = 16 * (n div 16 + 1)"
  by (simp add: keystream_def length_concat comp_def sum_list_triv)

lemma length_counterCrypt [simp]: "length (counterCrypt key nonce bs) = length bs"
proof -
  have "length bs \<le> length (keystream key nonce (length bs))" unfolding length_keystream by presburger
  then show ?thesis by (simp add: counterCrypt_def)
qed

lemma map2_xor_xor: "length xs \<le> length ks \<Longrightarrow> map2 (XOR) (map2 (XOR) xs ks) ks = (xs :: byte list)"
  by (induction xs ks rule: list_induct2') (auto simp: xor.assoc)

lemma counterCrypt_counterCrypt [simp]: "counterCrypt key nonce (counterCrypt key nonce bs) = bs"
proof -
  have "length bs \<le> length (keystream key nonce (length bs))" unfolding length_keystream by presburger
  then show ?thesis
    using map2_xor_xor [of bs] by (metis counterCrypt_def length_counterCrypt)
qed

lemma length_authTag [simp]: "length (authTag key nonce ad c) = 16"
  by (simp add: authTag_def wordBlock_def)

lemma length_gcmSeal [simp]: "length (gcmSeal key nonce p ad) = length p + 16"
  by (simp add: gcmSeal_def Let_def)

lemma gcmOpen_gcmSeal [simp]: "gcmOpen key nonce (gcmSeal key nonce p ad) ad = Some p"
  by (simp add: gcmOpen_def gcmSeal_def Let_def comp_def)

lemma length_gcmOpen: "gcmOpen key nonce c ad = Some p \<Longrightarrow> length c = length p + 16"
  by (auto simp: gcmOpen_def Let_def split: if_splits)

end
