(* ===== verification/RdpCapability.thy ===== *)
theory RdpCapability
  imports Sha256 Errors
begin

text \<open>
  internal/credential/rdp_capability.go: short-lived bearer capabilities for interactive RDP. The
  service keeps, under the digest of each token, what the capability was issued for and the
  connection material that the deployment's authorizer returned.
\<close>

section \<open>Contexts\<close>

text \<open>A \<open>context.Context\<close> as a call finds it: nil, live, or ended with an error.\<close>

datatype goContext = NilContext | LiveContext | DoneContext error

definition Canceled :: error where
  "Canceled = ExternalErr ''context canceled''"

definition DeadlineExceeded :: error where
  "DeadlineExceeded = ExternalErr ''context deadline exceeded''"

definition ctxErr :: "goContext \<Rightarrow> unit result" where
  "ctxErr ctx = (case ctx of NilContext \<Rightarrow> Inl Canceled | LiveContext \<Rightarrow> Inr () | DoneContext e \<Rightarrow> Inl e)"

lemma ctxErr_ok [simp]: "ctxErr ctx = Inr u \<longleftrightarrow> ctx = LiveContext"
  by (simp add: ctxErr_def split: goContext.splits)

section \<open>Data\<close>

definition DefaultRDPLease :: duration where
  "DefaultRDPLease = 120 * second"

definition MaxRDPLease :: duration where
  "MaxRDPLease = 300 * second"

record RDPAuthorization =
  ra_AccountID :: string
  ra_RequestID :: string
  ra_Actor :: string
  ra_AccountLeaseID :: string
  ra_SlotLeaseID :: string
  ra_SlotID :: string
  ra_EnvironmentGeneration :: uint64

record RDPMaterial =
  rm_host :: string
  rm_port :: "16 word"
  rm_username :: string
  rm_password :: string
  rm_domain :: string
  rm_allowUntrustedCertificate :: bool

definition zeroMaterial :: RDPMaterial where
  "zeroMaterial = \<lparr>rm_host = [], rm_port = 0, rm_username = [], rm_password = [], rm_domain = [], rm_allowUntrustedCertificate = False\<rparr>"

type_synonym RDPAuthorizer = "goContext \<Rightarrow> RDPAuthorization \<Rightarrow> RDPMaterial result"

definition DenyRDPAuthorizer :: RDPAuthorizer where
  "DenyRDPAuthorizer ctx request = Inl (RDPErr ErrRDPUnauthorized)"

definition NewRDPMaterial :: "string \<Rightarrow> 16 word \<Rightarrow> string \<Rightarrow> string \<Rightarrow> string \<Rightarrow> bool \<Rightarrow> RDPMaterial result" where
  "NewRDPMaterial host port username password domain untrusted =
     (if TrimSpace host = [] \<or> port = 0 \<or> TrimSpace username = [] \<or> password = [] then Inl (RDPErr ErrRDPUnauthorized)
      else Inr \<lparr>rm_host = TrimSpace host, rm_port = port, rm_username = username, rm_password = password, rm_domain = domain,
        rm_allowUntrustedCertificate = untrusted\<rparr>)"

text \<open>\<open>wipe\<close> clears every field.\<close>

definition wipe :: "RDPMaterial \<Rightarrow> RDPMaterial" where
  "wipe m = m\<lparr>rm_password := [], rm_host := [], rm_username := [], rm_domain := [], rm_port := 0, rm_allowUntrustedCertificate := False\<rparr>"

lemma wipe_zero: "wipe m = zeroMaterial"
  by (cases m) (simp add: wipe_def zeroMaterial_def)

record RDPCapability =
  cap_ID :: string
  cap_Token :: string
  cap_RequestID :: string
  cap_ExpiresAt :: gotime

record rdpEntry =
  re_capability :: RDPCapability
  re_material :: RDPMaterial
  re_actor :: string
  re_accountID :: string
  re_accountLeaseID :: string
  re_slotLeaseID :: string
  re_slotID :: string
  re_environmentGeneration :: uint64
  re_revoked :: bool

type_synonym rdpState = "(string, rdpEntry) kmap"

section \<open>Operations\<close>

definition validateRDPAuthorization :: "RDPAuthorization \<Rightarrow> unit result" where
  "validateRDPAuthorization v =
     (if TrimSpace (ra_AccountID v) = [] \<or> TrimSpace (ra_RequestID v) = [] \<or> TrimSpace (ra_Actor v) = []
         \<or> ContainsAny (ra_AccountID v @ ra_RequestID v @ ra_Actor v) (CHR 0x00 # crlf)
      then Inl (RDPErr ErrRDPInvalidRequest)
      else
        let bound = (ra_AccountLeaseID v \<noteq> [] \<or> ra_SlotLeaseID v \<noteq> [] \<or> ra_SlotID v \<noteq> [] \<or> ra_EnvironmentGeneration v \<noteq> 0)
        in if bound \<and> (TrimSpace (ra_AccountLeaseID v) = [] \<or> TrimSpace (ra_SlotLeaseID v) = [] \<or> TrimSpace (ra_SlotID v) = []
                \<or> ra_EnvironmentGeneration v = 0
                \<or> ContainsAny (ra_AccountLeaseID v @ ra_SlotLeaseID v @ ra_SlotID v) (CHR 0x00 # crlf))
           then Inl (RDPErr ErrRDPInvalidRequest) else Inr ())"

text \<open>\<open>raw\<close> is what the random source returns for the token.\<close>

definition rdpDigest :: "string \<Rightarrow> string" where
  "rdpDigest token = EncodeToString (Sum256 token)"

definition Issue :: "RDPAuthorizer \<Rightarrow> goContext \<Rightarrow> RDPAuthorization \<Rightarrow> gotime \<Rightarrow> duration \<Rightarrow> string result \<Rightarrow> rdpState \<Rightarrow>
    RDPCapability result \<times> rdpState" where
  "Issue authorizer ctx request now ttl0 raw s =
     (case ctxErr ctx of Inl e \<Rightarrow> (Inl e, s) | Inr _ \<Rightarrow>
      if (case validateRDPAuthorization request of Inl _ \<Rightarrow> True | Inr _ \<Rightarrow> False) \<or> IsZero now
      then (Inl (RDPErr ErrRDPInvalidRequest), s)
      else
        let ttl = (if ttl0 = 0 then DefaultRDPLease else ttl0)
        in if ttl \<le> 0 \<or> MaxRDPLease < ttl then (Inl (RDPErr ErrRDPInvalidRequest), s)
           else (case authorizer ctx request of Inl _ \<Rightarrow> (Inl (RDPErr ErrRDPUnauthorized), s)
             | Inr material \<Rightarrow>
                 if rm_host material = [] \<or> rm_password material = [] then (Inl (RDPErr ErrRDPUnauthorized), s)
                 else (case raw of Inl _ \<Rightarrow> (Inl (RDPErr ErrRDPUnauthorized), s)
                   | Inr bytes \<Rightarrow>
                       let token = EncodeToString bytes;
                           capability = \<lparr>cap_ID = ''rdp_'' @ EncodeToString (take 6 (Sum256 token)), cap_Token = token,
                             cap_RequestID = ra_RequestID request, cap_ExpiresAt = Add now ttl\<rparr>
                       in (Inr capability, kput (rdpDigest token)
                             \<lparr>re_capability = capability, re_material = material, re_actor = ra_Actor request,
                              re_accountID = ra_AccountID request, re_accountLeaseID = ra_AccountLeaseID request,
                              re_slotLeaseID = ra_SlotLeaseID request, re_slotID = ra_SlotID request,
                              re_environmentGeneration = ra_EnvironmentGeneration request, re_revoked = False\<rparr> s))))"

definition resolve :: "goContext \<Rightarrow> RDPCapability \<Rightarrow> RDPAuthorization \<Rightarrow> gotime \<Rightarrow> bool \<Rightarrow> rdpState \<Rightarrow> RDPMaterial result \<times> rdpState" where
  "resolve ctx capability authorization now requireBinding s =
     (case ctxErr ctx of Inl e \<Rightarrow> (Inl e, s) | Inr _ \<Rightarrow>
      if TrimSpace (cap_Token capability) = [] \<or> TrimSpace (ra_Actor authorization) = [] \<or> IsZero now
      then (Inl (RDPErr ErrRDPCapability), s)
      else (case kget s (rdpDigest (cap_Token capability)) of
          None \<Rightarrow> (Inl (RDPErr ErrRDPCapability), s)
        | Some entry \<Rightarrow>
            if cap_ID (re_capability entry) \<noteq> cap_ID capability \<or> cap_RequestID (re_capability entry) \<noteq> cap_RequestID capability
            then (Inl (RDPErr ErrRDPCapability), s)
            else if re_revoked entry then (Inl (RDPErr ErrRDPRevoked), s)
            else if \<not> Before now (cap_ExpiresAt (re_capability entry))
            then (Inl (RDPErr ErrRDPExpired), kdel (rdpDigest (cap_Token capability)) s)
            else if re_actor entry \<noteq> ra_Actor authorization then (Inl (RDPErr ErrRDPUnauthorized), s)
            else if re_slotLeaseID entry \<noteq> [] then
              (if \<not> requireBinding \<or> re_accountID entry \<noteq> ra_AccountID authorization
                  \<or> cap_RequestID (re_capability entry) \<noteq> ra_RequestID authorization
                  \<or> re_accountLeaseID entry \<noteq> ra_AccountLeaseID authorization \<or> re_slotLeaseID entry \<noteq> ra_SlotLeaseID authorization
                  \<or> re_slotID entry \<noteq> ra_SlotID authorization
                  \<or> re_environmentGeneration entry \<noteq> ra_EnvironmentGeneration authorization
               then (Inl (RDPErr ErrRDPUnauthorized), s) else (Inr (re_material entry), s))
            else if requireBinding \<and> (re_accountID entry \<noteq> ra_AccountID authorization
                  \<or> cap_RequestID (re_capability entry) \<noteq> ra_RequestID authorization)
            then (Inl (RDPErr ErrRDPUnauthorized), s)
            else (Inr (re_material entry), s)))"

definition Resolve :: "goContext \<Rightarrow> RDPCapability \<Rightarrow> string \<Rightarrow> gotime \<Rightarrow> rdpState \<Rightarrow> RDPMaterial result \<times> rdpState" where
  "Resolve ctx capability actor now s =
     resolve ctx capability
       \<lparr>ra_AccountID = [], ra_RequestID = cap_RequestID capability, ra_Actor = actor, ra_AccountLeaseID = [], ra_SlotLeaseID = [],
        ra_SlotID = [], ra_EnvironmentGeneration = 0\<rparr> now False s"

definition ResolveBound :: "goContext \<Rightarrow> RDPCapability \<Rightarrow> RDPAuthorization \<Rightarrow> gotime \<Rightarrow> rdpState \<Rightarrow> RDPMaterial result \<times> rdpState" where
  "ResolveBound ctx capability authorization now s =
     (case validateRDPAuthorization authorization of
        Inl _ \<Rightarrow> (Inl (RDPErr ErrRDPInvalidRequest), s)
      | Inr _ \<Rightarrow> resolve ctx capability authorization now True s)"

definition RDP_Revoke :: "goContext \<Rightarrow> RDPCapability \<Rightarrow> string \<Rightarrow> rdpState \<Rightarrow> unit result \<times> rdpState" where
  "RDP_Revoke ctx capability actor s =
     (case ctxErr ctx of Inl e \<Rightarrow> (Inl e, s) | Inr _ \<Rightarrow>
      (case kget s (rdpDigest (cap_Token capability)) of
         None \<Rightarrow> (Inl (RDPErr ErrRDPCapability), s)
       | Some entry \<Rightarrow>
           if cap_ID (re_capability entry) \<noteq> cap_ID capability then (Inl (RDPErr ErrRDPCapability), s)
           else if re_actor entry \<noteq> actor then (Inl (RDPErr ErrRDPUnauthorized), s)
           else (Inr (), kput (rdpDigest (cap_Token capability))
                   (entry\<lparr>re_revoked := True, re_material := wipe (re_material entry)\<rparr>) s)))"

text \<open>The loops of the other revocations remove the entries that they select.\<close>

definition dropEntries :: "(rdpEntry \<Rightarrow> bool) \<Rightarrow> rdpState \<Rightarrow> rdpState" where
  "dropEntries p s = fold (\<lambda>(key, entry) s. if p entry then kdel key s else s) (kentries s) s"

definition RDP_RevokeRequest :: "goContext \<Rightarrow> string \<Rightarrow> rdpState \<Rightarrow> unit result \<times> rdpState" where
  "RDP_RevokeRequest ctx requestID s =
     (case ctxErr ctx of Inl e \<Rightarrow> (Inl e, s) | Inr _ \<Rightarrow>
      if TrimSpace requestID = [] then (Inl (RDPErr ErrRDPInvalidRequest), s)
      else (Inr (), dropEntries (\<lambda>entry. cap_RequestID (re_capability entry) = requestID) s))"

definition RDP_RevokeSlotLease :: "goContext \<Rightarrow> string \<Rightarrow> rdpState \<Rightarrow> unit result \<times> rdpState" where
  "RDP_RevokeSlotLease ctx slotLeaseID s =
     (case ctxErr ctx of Inl e \<Rightarrow> (Inl e, s) | Inr _ \<Rightarrow>
      if TrimSpace slotLeaseID = [] then (Inl (RDPErr ErrRDPInvalidRequest), s)
      else (Inr (), dropEntries (\<lambda>entry. re_slotLeaseID entry = slotLeaseID) s))"

definition RDP_RevokeSlot :: "goContext \<Rightarrow> string \<Rightarrow> rdpState \<Rightarrow> unit result \<times> rdpState" where
  "RDP_RevokeSlot ctx slotID s =
     (case ctxErr ctx of Inl e \<Rightarrow> (Inl e, s) | Inr _ \<Rightarrow>
      if TrimSpace slotID = [] then (Inl (RDPErr ErrRDPInvalidRequest), s)
      else (Inr (), dropEntries (\<lambda>entry. re_slotID entry = slotID) s))"

definition RDP_RevokeAccountLease :: "goContext \<Rightarrow> string \<Rightarrow> rdpState \<Rightarrow> unit result \<times> rdpState" where
  "RDP_RevokeAccountLease ctx leaseID s =
     (case ctxErr ctx of Inl e \<Rightarrow> (Inl e, s) | Inr _ \<Rightarrow>
      if TrimSpace leaseID = [] then (Inl (RDPErr ErrRDPInvalidRequest), s)
      else (Inr (), dropEntries (\<lambda>entry. re_accountLeaseID entry = leaseID) s))"

definition RDP_RevokeGeneration :: "goContext \<Rightarrow> string \<Rightarrow> uint64 \<Rightarrow> rdpState \<Rightarrow> unit result \<times> rdpState" where
  "RDP_RevokeGeneration ctx slotID generation s =
     (case ctxErr ctx of Inl e \<Rightarrow> (Inl e, s) | Inr _ \<Rightarrow>
      if TrimSpace slotID = [] \<or> generation = 0 then (Inl (RDPErr ErrRDPInvalidRequest), s)
      else (Inr (), dropEntries (\<lambda>entry. re_slotID entry = slotID \<and> re_environmentGeneration entry = generation) s))"

definition RDP_Close :: "rdpState \<Rightarrow> unit result \<times> rdpState" where
  "RDP_Close s = (Inr (), dropEntries (\<lambda>_. True) s)"

end
