(* ===== verification/Credential.thy ===== *)
theory Credential
  imports AesGcm RdpCapability StoreBase
begin

text \<open>
  internal/credential/credential.go, inject.go and the static keyring of keyring.go: the service that
  keeps one encrypted secret per account. It works against a backend, a keyring and an optional
  invalidator of sessions, which are parameters here; a secret is sealed with AES-GCM under a key of
  the keyring, bound to its account, version and key.
\<close>

section \<open>Data\<close>

definition MaxPayloadSize :: nat where
  "MaxPayloadSize = 65536"

text \<open>What \<open>validateIdentifier\<close> refuses; every caller replaces its message by a sentinel.\<close>

definition validateIdentifier :: "string \<Rightarrow> bool" where
  "validateIdentifier value \<longleftrightarrow>
     \<not> (value = [] \<or> value \<noteq> TrimSpace value \<or> length value > 256 \<or> ContainsAny value crlf)"

record Key =
  key_id :: string
  key_material :: string

definition validMaterial :: "string \<Rightarrow> bool" where
  "validMaterial material \<longleftrightarrow> length material = 16 \<or> length material = 24 \<or> length material = 32"

definition NewKey :: "string \<Rightarrow> string \<Rightarrow> Key result" where
  "NewKey name0 material =
     (let name = TrimSpace name0
      in if \<not> validateIdentifier name then Inl (CredentialErr ErrInvalidKey)
         else if \<not> validMaterial material then Inl (CredentialErr ErrInvalidKey)
         else Inr \<lparr>key_id = name, key_material = material\<rparr>)"

definition Key_validate :: "Key \<Rightarrow> unit result" where
  "Key_validate k =
     (if \<not> validateIdentifier (key_id k) \<or> \<not> validMaterial (key_material k) then Inl (CredentialErr ErrInvalidKey) else Inr ())"

record CredentialRecord =
  cr_AccountID :: string
  cr_Version :: uint64
  cr_KeyID :: string
  cr_Nonce :: string
  cr_Ciphertext :: string
  cr_CreatedAt :: gotime
  cr_UpdatedAt :: gotime
  cr_RevokedAt :: "gotime option"

definition CredentialRecord_Validate :: "CredentialRecord \<Rightarrow> unit result" where
  "CredentialRecord_Validate r =
     (if \<not> validateIdentifier (cr_AccountID r) \<or> cr_Version r = 0 \<or> \<not> validateIdentifier (cr_KeyID r)
         \<or> IsZero (cr_CreatedAt r) \<or> IsZero (cr_UpdatedAt r) \<or> Before (cr_UpdatedAt r) (cr_CreatedAt r)
      then Inl (CredentialErr ErrInvalidCredential)
      else (case cr_RevokedAt r of
          Some revokedAt \<Rightarrow>
            if IsZero revokedAt \<or> Before revokedAt (cr_UpdatedAt r) \<or> cr_Nonce r \<noteq> [] \<or> cr_Ciphertext r \<noteq> []
            then Inl (CredentialErr ErrInvalidCredential) else Inr ()
        | None \<Rightarrow>
            if length (cr_Nonce r) \<noteq> 12 \<or> length (cr_Ciphertext r) < 16 \<or> length (cr_Ciphertext r) > MaxPayloadSize + 16
            then Inl (CredentialErr ErrInvalidCredential) else Inr ()))"

record CredentialMetadata =
  md_AccountID :: string
  md_Version :: uint64
  md_KeyID :: string
  md_CreatedAt :: gotime
  md_UpdatedAt :: gotime
  md_RevokedAt :: "gotime option"

definition metadataFromRecord :: "CredentialRecord \<Rightarrow> CredentialMetadata" where
  "metadataFromRecord r =
     \<lparr>md_AccountID = cr_AccountID r, md_Version = cr_Version r, md_KeyID = cr_KeyID r, md_CreatedAt = cr_CreatedAt r,
      md_UpdatedAt = cr_UpdatedAt r, md_RevokedAt = cr_RevokedAt r\<rparr>"

definition OperationStore :: string where "OperationStore = ''store''"
definition OperationAccess :: string where "OperationAccess = ''access''"
definition OperationRotate :: string where "OperationRotate = ''rotate''"
definition OperationRevoke :: string where "OperationRevoke = ''revoke''"
definition OperationRevokeForDeletion :: string where "OperationRevokeForDeletion = ''revoke_for_deletion''"

lemmas credentialOperation_defs =
  OperationStore_def OperationAccess_def OperationRotate_def OperationRevoke_def OperationRevokeForDeletion_def

record CredentialAudit =
  ca_AuditID :: string
  ca_AccountID :: string
  ca_DeletionID :: string
  ca_Operation :: string
  ca_Actor :: string
  ca_Version :: uint64
  ca_KeyID :: string
  ca_OccurredAt :: gotime

definition CredentialAudit_Validate :: "CredentialAudit \<Rightarrow> unit result" where
  "CredentialAudit_Validate a =
     (if \<not> validateIdentifier (ca_AuditID a) \<or> \<not> validateIdentifier (ca_AccountID a) \<or> \<not> validateIdentifier (ca_Actor a)
         \<or> \<not> validateIdentifier (ca_KeyID a) \<or> ca_Version a = 0 \<or> IsZero (ca_OccurredAt a)
      then Inl (CredentialErr ErrInvalidAudit)
      else if ca_DeletionID a \<noteq> [] \<and> \<not> validateIdentifier (ca_DeletionID a) then Inl (CredentialErr ErrInvalidAudit)
      else if ca_Operation a \<in> {OperationStore, OperationAccess, OperationRotate, OperationRevoke}
      then (if ca_DeletionID a \<noteq> [] then Inl (CredentialErr ErrInvalidAudit) else Inr ())
      else if ca_Operation a = OperationRevokeForDeletion
      then (if ca_DeletionID a = [] then Inl (CredentialErr ErrInvalidAudit) else Inr ())
      else Inl (CredentialErr ErrInvalidAudit))"

record CredentialMutation =
  cm_AccountID :: string
  cm_Record :: "CredentialRecord option"
  cm_Audit :: CredentialAudit

definition CredentialMutation_Validate :: "CredentialMutation \<Rightarrow> unit result" where
  "CredentialMutation_Validate m =
     (if \<not> validateIdentifier (cm_AccountID m) \<or> ca_AccountID (cm_Audit m) \<noteq> cm_AccountID m
      then Inl (CredentialErr ErrInvalidCredential)
      else bindE (CredentialAudit_Validate (cm_Audit m)) (\<lambda>_.
        case cm_Record m of None \<Rightarrow> Inr ()
        | Some r \<Rightarrow> if (case CredentialRecord_Validate r of Inl _ \<Rightarrow> True | Inr _ \<Rightarrow> False) \<or> cr_AccountID r \<noteq> cm_AccountID m
            then Inl (CredentialErr ErrInvalidCredential) else Inr ()))"

section \<open>Interfaces\<close>

text \<open>The backend acts on a world \<open>'w\<close>, as may the invalidator and the callbacks of the callers.\<close>

record 'w CredentialBackend =
  bk_GetCredential :: "string \<Rightarrow> 'w \<Rightarrow> (CredentialRecord \<times> bool) result"
  bk_ApplyCredentialMutation :: "CredentialMutation \<Rightarrow> 'w \<Rightarrow> unit result \<times> 'w"
  bk_ListCredentialAudits :: "string \<Rightarrow> 'w \<Rightarrow> CredentialAudit list result"

record Keyring =
  kr_Current :: "goContext \<Rightarrow> Key result"
  kr_Lookup :: "goContext \<Rightarrow> string \<Rightarrow> Key result"

record 'w CredentialService =
  cs_backend :: "'w CredentialBackend"
  cs_keys :: Keyring
  cs_invalidator :: "(goContext \<Rightarrow> string \<Rightarrow> gotime \<Rightarrow> 'w \<Rightarrow> error option \<times> 'w) option"

text \<open>What the random source returns, for the nonce and for the name of the audit record.\<close>

record CredentialRandom =
  rd_nonce :: "string result"
  rd_audit :: "string result"

section \<open>Helpers\<close>

definition checkContext :: "goContext \<Rightarrow> unit result" where
  "checkContext ctx =
     (case ctx of NilContext \<Rightarrow> Inl (CredentialErr ErrInvalidService) | LiveContext \<Rightarrow> Inr () | DoneContext e \<Rightarrow> Inl e)"

definition normalizeKeyError :: "error \<Rightarrow> error" where
  "normalizeKeyError e = (if e = Canceled \<or> e = DeadlineExceeded then e else CredentialErr ErrKeyUnavailable)"

definition validateCall :: "goContext \<Rightarrow> string \<Rightarrow> string \<Rightarrow> gotime \<Rightarrow> unit result" where
  "validateCall ctx accountID actor at =
     bindE (checkContext ctx) (\<lambda>_.
     if \<not> validateIdentifier accountID then Inl (CredentialErr ErrInvalidCredential)
     else if \<not> validateIdentifier actor then Inl (CredentialErr ErrInvalidCredential)
     else if IsZero at then Inl (CredentialErr ErrInvalidCredential) else Inr ())"

definition newAudit :: "string result \<Rightarrow> string \<Rightarrow> string \<Rightarrow> string \<Rightarrow> uint64 \<Rightarrow> string \<Rightarrow> gotime \<Rightarrow> CredentialAudit result" where
  "newAudit random accountID operation actor version keyID at =
     bindE random (\<lambda>bytes.
     let audit = \<lparr>ca_AuditID = EncodeToString bytes, ca_AccountID = accountID, ca_DeletionID = [], ca_Operation = operation,
           ca_Actor = actor, ca_Version = version, ca_KeyID = keyID, ca_OccurredAt = at\<rparr>
     in bindE (CredentialAudit_Validate audit) (\<lambda>_. Inr audit))"

definition associatedData :: "string \<Rightarrow> uint64 \<Rightarrow> string \<Rightarrow> string" where
  "associatedData accountID version keyID =
     ''chuzi credential v1'' @ CHR 0x00 # accountID @ CHR 0x00 # decimal (unat version) @ CHR 0x00 # keyID"

definition seal :: "Key \<Rightarrow> string \<Rightarrow> uint64 \<Rightarrow> string \<Rightarrow> string result \<Rightarrow> (string \<times> string) result" where
  "seal key accountID version plaintext random =
     (if \<not> validMaterial (key_material key) then Inl (CredentialErr ErrKeyUnavailable)
      else bindE random (\<lambda>nonce.
        Inr (nonce, gcmSeal (key_material key) nonce plaintext (associatedData accountID version (key_id key)))))"

definition openSealed :: "Key \<Rightarrow> string \<Rightarrow> uint64 \<Rightarrow> string \<Rightarrow> string \<Rightarrow> string result" where
  "openSealed key accountID version nonce ciphertext =
     (case Key_validate key of Inl _ \<Rightarrow> Inl (CredentialErr ErrKeyUnavailable) | Inr _ \<Rightarrow>
      if length nonce \<noteq> 12 then Inl (CredentialErr ErrAuthentication)
      else (case gcmOpen (key_material key) nonce ciphertext (associatedData accountID version (key_id key)) of
          None \<Rightarrow> Inl (CredentialErr ErrAuthentication)
        | Some plaintext \<Rightarrow>
            if length plaintext > MaxPayloadSize then Inl (CredentialErr ErrAuthentication) else Inr plaintext))"

section \<open>The service\<close>

definition NewWithSessionInvalidator :: "'w CredentialBackend option \<Rightarrow> Keyring option \<Rightarrow>
    (goContext \<Rightarrow> string \<Rightarrow> gotime \<Rightarrow> 'w \<Rightarrow> error option \<times> 'w) option \<Rightarrow> 'w CredentialService result" where
  "NewWithSessionInvalidator backend keys invalidator =
     (case (backend, keys) of
        (Some b, Some k) \<Rightarrow> Inr \<lparr>cs_backend = b, cs_keys = k, cs_invalidator = invalidator\<rparr>
      | _ \<Rightarrow> Inl (CredentialErr ErrInvalidService))"

definition currentKey :: "'w CredentialService \<Rightarrow> goContext \<Rightarrow> Key result" where
  "currentKey s ctx =
     bindE (mapErr normalizeKeyError (kr_Current (cs_keys s) ctx)) (\<lambda>current.
     bindE (mapErr (\<lambda>_. CredentialErr ErrKeyUnavailable) (Key_validate current)) (\<lambda>_. Inr current))"

definition applyMutation :: "'w CredentialService \<Rightarrow> CredentialMutation \<Rightarrow> 'a \<Rightarrow> 'w \<Rightarrow> 'a result \<times> 'w" where
  "applyMutation s m x w =
     (case bk_ApplyCredentialMutation (cs_backend s) m w of (Inl e, w') \<Rightarrow> (Inl e, w') | (Inr _, w') \<Rightarrow> (Inr x, w'))"

text \<open>The record and its audit that \<open>Put\<close> writes.\<close>

definition putRecord :: "Key \<Rightarrow> CredentialRandom \<Rightarrow> string \<Rightarrow> string \<Rightarrow> string \<Rightarrow> gotime \<Rightarrow> CredentialRecord \<times> bool \<Rightarrow>
    (CredentialRecord \<times> CredentialAudit) result" where
  "putRecord current rd accountID plaintext actor at found =
     bindE (if snd found then
              bindE (CredentialRecord_Validate (fst found)) (\<lambda>_.
              if Before at (cr_UpdatedAt (fst found)) then Inl (CredentialErr ErrInvalidCredential)
              else Inr (cr_Version (fst found) + 1, cr_CreatedAt (fst found)))
            else Inr (1, at)) (\<lambda>(version, createdAt).
     bindE (seal current accountID version plaintext (rd_nonce rd)) (\<lambda>(nonce, ciphertext).
     bindE (newAudit (rd_audit rd) accountID OperationStore actor version (key_id current) at) (\<lambda>audit.
     Inr (\<lparr>cr_AccountID = accountID, cr_Version = version, cr_KeyID = key_id current, cr_Nonce = nonce,
           cr_Ciphertext = ciphertext, cr_CreatedAt = createdAt, cr_UpdatedAt = at, cr_RevokedAt = None\<rparr>, audit))))"

definition Credential_Put :: "'w CredentialService \<Rightarrow> goContext \<Rightarrow> CredentialRandom \<Rightarrow> string \<Rightarrow> string \<Rightarrow> string \<Rightarrow> gotime \<Rightarrow> 'w \<Rightarrow>
    CredentialMetadata result \<times> 'w" where
  "Credential_Put s ctx rd accountID plaintext actor at w =
     (case bindE (validateCall ctx accountID actor at) (\<lambda>_.
           if plaintext = [] \<or> length plaintext > MaxPayloadSize then Inl (CredentialErr ErrInvalidCredential)
           else bindE (currentKey s ctx) (\<lambda>current.
             bindE (bk_GetCredential (cs_backend s) accountID w) (putRecord current rd accountID plaintext actor at))) of
        Inl e \<Rightarrow> (Inl e, w)
      | Inr (record, audit) \<Rightarrow>
          applyMutation s \<lparr>cm_AccountID = accountID, cm_Record = Some record, cm_Audit = audit\<rparr> (metadataFromRecord record) w)"

text \<open>The record that an operation on an existing credential starts from.\<close>

definition checkedRecord :: "gotime \<Rightarrow> CredentialRecord \<Rightarrow> CredentialRecord result" where
  "checkedRecord at record =
     bindE (CredentialRecord_Validate record) (\<lambda>_.
     if Before at (cr_UpdatedAt record) then Inl (CredentialErr ErrInvalidCredential) else Inr record)"

definition loadedRecord :: "'w CredentialService \<Rightarrow> string \<Rightarrow> gotime \<Rightarrow> 'w \<Rightarrow> CredentialRecord result" where
  "loadedRecord s accountID at w =
     bindE (bk_GetCredential (cs_backend s) accountID w) (\<lambda>(record, found).
     if \<not> found then Inl (CredentialErr ErrCredentialNotFound) else checkedRecord at record)"

definition lookupKey :: "'w CredentialService \<Rightarrow> goContext \<Rightarrow> string \<Rightarrow> Key result" where
  "lookupKey s ctx keyID = mapErr normalizeKeyError (kr_Lookup (cs_keys s) ctx keyID)"

text \<open>
  \<open>later\<close> is the context as it is after the audit was written, and \<open>fn\<close> the callback, which gets the
  plaintext.
\<close>

definition Credential_Use :: "'w CredentialService \<Rightarrow> goContext \<Rightarrow> goContext \<Rightarrow> CredentialRandom \<Rightarrow> string \<Rightarrow> string \<Rightarrow> gotime \<Rightarrow>
    (string \<Rightarrow> 'w \<Rightarrow> unit result \<times> 'w) option \<Rightarrow> 'w \<Rightarrow> unit result \<times> 'w" where
  "Credential_Use s ctx later rd accountID actor at fn w =
     (case fn of None \<Rightarrow> (Inl (CredentialErr ErrInvalidService), w) | Some f \<Rightarrow>
      (case bindE (validateCall ctx accountID actor at) (\<lambda>_.
            bindE (loadedRecord s accountID at w) (\<lambda>record.
            if cr_RevokedAt record \<noteq> None then Inl (CredentialErr ErrCredentialRevoked)
            else bindE (lookupKey s ctx (cr_KeyID record)) (\<lambda>key.
              bindE (openSealed key (cr_AccountID record) (cr_Version record) (cr_Nonce record) (cr_Ciphertext record)) (\<lambda>working.
              bindE (newAudit (rd_audit rd) accountID OperationAccess actor (cr_Version record) (cr_KeyID record) at) (\<lambda>audit.
              Inr (working, audit)))))) of
         Inl e \<Rightarrow> (Inl e, w)
       | Inr (working, audit) \<Rightarrow>
           (case applyMutation s \<lparr>cm_AccountID = accountID, cm_Record = None, cm_Audit = audit\<rparr> () w of
              (Inl e, w') \<Rightarrow> (Inl e, w')
            | (Inr _, w') \<Rightarrow> (case checkContext later of Inl e \<Rightarrow> (Inl e, w') | Inr _ \<Rightarrow> f working w'))))"

definition Credential_RotateKey :: "'w CredentialService \<Rightarrow> goContext \<Rightarrow> CredentialRandom \<Rightarrow> string \<Rightarrow> string \<Rightarrow> gotime \<Rightarrow> 'w \<Rightarrow>
    CredentialMetadata result \<times> 'w" where
  "Credential_RotateKey s ctx rd accountID actor at w =
     (case bindE (validateCall ctx accountID actor at) (\<lambda>_.
           bindE (loadedRecord s accountID at w) (\<lambda>record.
           if cr_RevokedAt record \<noteq> None then Inl (CredentialErr ErrCredentialRevoked)
           else bindE (currentKey s ctx) (\<lambda>current.
             if key_id current = cr_KeyID record then Inl (CredentialErr ErrAlreadyCurrentKey)
             else bindE (lookupKey s ctx (cr_KeyID record)) (\<lambda>old.
               bindE (openSealed old (cr_AccountID record) (cr_Version record) (cr_Nonce record) (cr_Ciphertext record)) (\<lambda>working.
               let version = cr_Version record + 1
               in bindE (seal current accountID version working (rd_nonce rd)) (\<lambda>(nonce, ciphertext).
                  bindE (newAudit (rd_audit rd) accountID OperationRotate actor version (key_id current) at) (\<lambda>audit.
                  Inr (\<lparr>cr_AccountID = accountID, cr_Version = version, cr_KeyID = key_id current, cr_Nonce = nonce,
                        cr_Ciphertext = ciphertext, cr_CreatedAt = cr_CreatedAt record, cr_UpdatedAt = at,
                        cr_RevokedAt = None\<rparr>, audit)))))))) of
        Inl e \<Rightarrow> (Inl e, w)
      | Inr (rotated, audit) \<Rightarrow>
          applyMutation s \<lparr>cm_AccountID = accountID, cm_Record = Some rotated, cm_Audit = audit\<rparr> (metadataFromRecord rotated) w)"

definition revokedRecord :: "CredentialRecord \<Rightarrow> gotime \<Rightarrow> CredentialRecord" where
  "revokedRecord record at = record\<lparr>cr_UpdatedAt := at, cr_RevokedAt := Some at, cr_Nonce := [], cr_Ciphertext := []\<rparr>"

definition Credential_Revoke :: "'w CredentialService \<Rightarrow> goContext \<Rightarrow> CredentialRandom \<Rightarrow> string \<Rightarrow> string \<Rightarrow> gotime \<Rightarrow> 'w \<Rightarrow>
    unit result \<times> 'w" where
  "Credential_Revoke s ctx rd accountID actor at w =
     (case bindE (validateCall ctx accountID actor at) (\<lambda>_. loadedRecord s accountID at w) of
        Inl e \<Rightarrow> (Inl e, w)
      | Inr record \<Rightarrow>
          if cr_RevokedAt record \<noteq> None then (Inr (), w)
          else
            let (stopped, w') = (case cs_invalidator s of None \<Rightarrow> (None, w) | Some invalidate \<Rightarrow> invalidate ctx accountID at w)
            in if stopped \<noteq> None then (Inl (CredentialErr ErrSessionInvalidation), w')
               else (case newAudit (rd_audit rd) accountID OperationRevoke actor (cr_Version record) (cr_KeyID record) at of
                   Inl e \<Rightarrow> (Inl e, w')
                 | Inr audit \<Rightarrow>
                     applyMutation s \<lparr>cm_AccountID = accountID, cm_Record = Some (revokedRecord record at), cm_Audit = audit\<rparr> () w'))"

definition Credential_RevokeForDeletion :: "'w CredentialService \<Rightarrow> goContext \<Rightarrow> CredentialRandom \<Rightarrow> string \<Rightarrow> string \<Rightarrow> string \<Rightarrow> bool \<Rightarrow>
    gotime \<Rightarrow> 'w \<Rightarrow> unit result \<times> 'w" where
  "Credential_RevokeForDeletion s ctx rd accountID deletionID actor sessionsStopped at w =
     (case bindE (validateCall ctx accountID actor at) (\<lambda>_.
           if \<not> sessionsStopped then Inl (CredentialErr ErrSessionsNotStopped)
           else if \<not> validateIdentifier deletionID then Inl (CredentialErr ErrInvalidCredential)
           else bindE (bk_GetCredential (cs_backend s) accountID w) (\<lambda>(record, found).
             if \<not> found then Inr None
             else bindE (checkedRecord at record) (\<lambda>record.
               if cr_RevokedAt record \<noteq> None then Inr None
               else bindE (newAudit (rd_audit rd) accountID OperationRevoke actor (cr_Version record) (cr_KeyID record) at) (\<lambda>audit.
                 Inr (Some (record, audit\<lparr>ca_Operation := OperationRevokeForDeletion, ca_DeletionID := deletionID\<rparr>)))))) of
        Inl e \<Rightarrow> (Inl e, w)
      | Inr None \<Rightarrow> (Inr (), w)
      | Inr (Some (record, audit)) \<Rightarrow>
          applyMutation s \<lparr>cm_AccountID = accountID, cm_Record = Some (revokedRecord record at), cm_Audit = audit\<rparr> () w)"

definition Credential_Metadata :: "'w CredentialService \<Rightarrow> goContext \<Rightarrow> string \<Rightarrow> 'w \<Rightarrow> CredentialMetadata result" where
  "Credential_Metadata s ctx accountID w =
     bindE (checkContext ctx) (\<lambda>_.
     if \<not> validateIdentifier accountID then Inl (CredentialErr ErrInvalidCredential)
     else bindE (bk_GetCredential (cs_backend s) accountID w) (\<lambda>(record, found).
       if \<not> found then Inl (CredentialErr ErrCredentialNotFound)
       else bindE (CredentialRecord_Validate record) (\<lambda>_. Inr (metadataFromRecord record))))"

definition Credential_Audits :: "'w CredentialService \<Rightarrow> goContext \<Rightarrow> string \<Rightarrow> 'w \<Rightarrow> CredentialAudit list result" where
  "Credential_Audits s ctx accountID w =
     bindE (checkContext ctx) (\<lambda>_.
     if \<not> validateIdentifier accountID then Inl (CredentialErr ErrInvalidCredential)
     else bk_ListCredentialAudits (cs_backend s) accountID w)"

text \<open>inject.go: \<open>Inject\<close> reads one secret from a source and stores it.\<close>

definition NewEnvSource :: "string \<Rightarrow> string result" where
  "NewEnvSource name0 =
     (let name = TrimSpace name0
      in if name = [] \<or> ContainsAny name (CHR ''='' # CHR 0x00 # crlf) then Inl (CredentialErr ErrInvalidSource) else Inr name)"

definition EnvSource_Read :: "(string \<Rightarrow> string option) \<Rightarrow> string \<Rightarrow> goContext \<Rightarrow> string result" where
  "EnvSource_Read environ name0 ctx =
     (case ctx of NilContext \<Rightarrow> Inl (CredentialErr ErrInvalidSource) | DoneContext e \<Rightarrow> Inl e | LiveContext \<Rightarrow>
      bindE (NewEnvSource name0) (\<lambda>name.
      case environ name of
        None \<Rightarrow> Inl (CredentialErr ErrSourceEmpty)
      | Some value \<Rightarrow> if value = [] then Inl (CredentialErr ErrSourceEmpty)
          else if length value > MaxPayloadSize then Inl (CredentialErr ErrInvalidCredential) else Inr value))"

definition Credential_Inject :: "'w CredentialService \<Rightarrow> goContext \<Rightarrow> CredentialRandom \<Rightarrow> string \<Rightarrow> string \<Rightarrow> gotime \<Rightarrow>
    (goContext \<Rightarrow> string result) option \<Rightarrow> 'w \<Rightarrow> CredentialMetadata result \<times> 'w" where
  "Credential_Inject s ctx rd accountID actor at source w =
     (case source of None \<Rightarrow> (Inl (CredentialErr ErrInvalidSource), w) | Some readSource \<Rightarrow>
      (case readSource ctx of Inl e \<Rightarrow> (Inl e, w) | Inr plaintext \<Rightarrow>
       if plaintext = [] then (Inl (CredentialErr ErrSourceEmpty), w) else Credential_Put s ctx rd accountID plaintext actor at w))"

section \<open>The static keyring\<close>

record StaticKeyring =
  ks_keys :: "(string, Key) kmap"
  ks_current :: string

fun addKeys :: "Key list \<Rightarrow> (string, Key) kmap \<Rightarrow> (string, Key) kmap result" where
  "addKeys [] keys = Inr keys"
| "addKeys (k # ks) keys =
     (case Key_validate k of Inl _ \<Rightarrow> Inl (CredentialErr ErrInvalidKey) | Inr _ \<Rightarrow> addKeys ks (kput (key_id k) k keys))"

definition NewStaticKeyring :: "Key \<Rightarrow> Key list \<Rightarrow> StaticKeyring result" where
  "NewStaticKeyring current historical =
     (case Key_validate current of Inl _ \<Rightarrow> Inl (CredentialErr ErrInvalidKey) | Inr _ \<Rightarrow>
      bindE (addKeys historical (kput (key_id current) current kempty)) (\<lambda>keys.
      Inr \<lparr>ks_keys = keys, ks_current = key_id current\<rparr>))"

definition StaticKeyring_Add :: "Key \<Rightarrow> StaticKeyring \<Rightarrow> unit result \<times> StaticKeyring" where
  "StaticKeyring_Add key k =
     (case Key_validate key of Inl _ \<Rightarrow> (Inl (CredentialErr ErrInvalidKey), k)
      | Inr _ \<Rightarrow> (Inr (), k\<lparr>ks_keys := kput (key_id key) key (ks_keys k)\<rparr>))"

definition StaticKeyring_SetCurrent :: "Key \<Rightarrow> StaticKeyring \<Rightarrow> unit result \<times> StaticKeyring" where
  "StaticKeyring_SetCurrent key k =
     (case StaticKeyring_Add key k of (Inl e, k') \<Rightarrow> (Inl e, k') | (Inr _, k') \<Rightarrow> (Inr (), k'\<lparr>ks_current := key_id key\<rparr>))"

definition StaticKeyring_Current :: "StaticKeyring \<Rightarrow> goContext \<Rightarrow> Key result" where
  "StaticKeyring_Current k ctx =
     bindE (checkContext ctx) (\<lambda>_.
     case kget (ks_keys k) (ks_current k) of None \<Rightarrow> Inl (CredentialErr ErrKeyUnavailable) | Some key \<Rightarrow> Inr key)"

definition StaticKeyring_Lookup :: "StaticKeyring \<Rightarrow> goContext \<Rightarrow> string \<Rightarrow> Key result" where
  "StaticKeyring_Lookup k ctx keyID =
     bindE (checkContext ctx) (\<lambda>_.
     if TrimSpace keyID = [] then Inl (CredentialErr ErrKeyUnavailable)
     else case kget (ks_keys k) keyID of None \<Rightarrow> Inl (CredentialErr ErrKeyUnavailable) | Some key \<Rightarrow> Inr key)"

definition staticKeys :: "StaticKeyring \<Rightarrow> Keyring" where
  "staticKeys k = \<lparr>kr_Current = StaticKeyring_Current k, kr_Lookup = StaticKeyring_Lookup k\<rparr>"

end
