(* ===== verification/CredentialStore.thy ===== *)
theory CredentialStore
  imports Credential
begin

text \<open>
  internal/store/credential.go: the table of encrypted records, one per account, and the audit trail
  of each account. The store never decrypts.
\<close>

text \<open>The tables beside those of the accounts.\<close>

record cdb =
  cd_db :: db
  cd_credentials :: "(string, CredentialRecord json) kmap"
  cd_audits :: "(string, (string, CredentialAudit json) kmap) kmap"

type_synonym ccommit = "cdb \<Rightarrow> error option"

definition emptyCDB :: cdb where
  "emptyCDB = \<lparr>cd_db = emptyDB, cd_credentials = kempty, cd_audits = kempty\<rparr>"

definition zeroCredential :: CredentialRecord where
  "zeroCredential = \<lparr>cr_AccountID = [], cr_Version = 0, cr_KeyID = [], cr_Nonce = [], cr_Ciphertext = [], cr_CreatedAt = zeroTime,
     cr_UpdatedAt = zeroTime, cr_RevokedAt = None\<rparr>"

definition GetCredential :: "string \<Rightarrow> cdb \<Rightarrow> (CredentialRecord \<times> bool) result" where
  "GetCredential accountID d =
     (if TrimSpace accountID = [] then Inl (CredentialErr ErrInvalidCredential)
      else view (\<lambda>d. case kget (cd_credentials d) accountID of
          None \<Rightarrow> Inr (zeroCredential, False)
        | Some raw \<Rightarrow>
            bindE (decode raw) (\<lambda>result.
            bindE (corrupt (CredentialRecord_Validate result)) (\<lambda>_. Inr (result, True)))) d)"

definition credentialAuditsEqual :: "CredentialAudit \<Rightarrow> CredentialAudit \<Rightarrow> bool" where
  "credentialAuditsEqual l r \<longleftrightarrow>
     ca_AuditID l = ca_AuditID r \<and> ca_AccountID l = ca_AccountID r \<and> ca_DeletionID l = ca_DeletionID r \<and>
     ca_Operation l = ca_Operation r \<and> ca_Actor l = ca_Actor r \<and> ca_Version l = ca_Version r \<and> ca_KeyID l = ca_KeyID r \<and>
     ca_OccurredAt l = ca_OccurredAt r"

definition credentialRecordsEqual :: "CredentialRecord \<Rightarrow> CredentialRecord \<Rightarrow> bool" where
  "credentialRecordsEqual l r \<longleftrightarrow>
     (if cr_AccountID l \<noteq> cr_AccountID r \<or> cr_Version l \<noteq> cr_Version r \<or> cr_KeyID l \<noteq> cr_KeyID r
         \<or> cr_CreatedAt l \<noteq> cr_CreatedAt r \<or> cr_UpdatedAt l \<noteq> cr_UpdatedAt r
      then False
      else if cr_Nonce l \<noteq> cr_Nonce r \<or> cr_Ciphertext l \<noteq> cr_Ciphertext r then False
      else (case (cr_RevokedAt l, cr_RevokedAt r) of
          (Some s, Some t) \<Rightarrow> s = t | (l', r') \<Rightarrow> l' = None \<and> r' = None))"

definition accountAudits :: "string \<Rightarrow> cdb \<Rightarrow> (string, CredentialAudit json) kmap" where
  "accountAudits accountID d = (case kget (cd_audits d) accountID of None \<Rightarrow> kempty | Some audits \<Rightarrow> audits)"

text \<open>A mutation whose audit record is known already.\<close>

definition knownMutation :: "CredentialMutation \<Rightarrow> CredentialAudit json \<Rightarrow> cdb \<Rightarrow> unit result" where
  "knownMutation m raw d =
     bindE (decode raw) (\<lambda>existing.
     if \<not> credentialAuditsEqual existing (cm_Audit m) then Inl (CredentialErr ErrAuditConflict)
     else (case cm_Record m of None \<Rightarrow> Inr () | Some record \<Rightarrow>
       (case kget (cd_credentials d) (cm_AccountID m) of
          None \<Rightarrow> Inl (CredentialErr ErrAuditConflict)
        | Some rawRecord \<Rightarrow>
            bindE (decode rawRecord) (\<lambda>existingRecord.
            if \<not> credentialRecordsEqual existingRecord record then Inl (CredentialErr ErrAuditConflict) else Inr ()))))"

text \<open>Whether a record may replace the stored one.\<close>

definition checkVersion :: "CredentialRecord \<Rightarrow> string \<Rightarrow> CredentialRecord json option \<Rightarrow> unit result" where
  "checkVersion record operation stored =
     (case stored of None \<Rightarrow> Inr () | Some raw \<Rightarrow>
      bindE (decode raw) (\<lambda>existing.
      bindE (corrupt (CredentialRecord_Validate existing)) (\<lambda>_.
      if cr_Version existing > cr_Version record
         \<or> (cr_Version existing = cr_Version record \<and> operation \<noteq> OperationRevoke \<and> operation \<noteq> OperationRevokeForDeletion)
      then Inl (CredentialErr ErrVersionConflict)
      else if cr_Version existing = cr_Version record \<and> cr_RevokedAt existing \<noteq> None
      then Inl (CredentialErr ErrVersionConflict)
      else Inr ())))"

definition applyCredentialTx :: "CredentialMutation \<Rightarrow> cdb \<Rightarrow> (unit \<times> cdb) result" where
  "applyCredentialTx m d =
     (if kget (db_accounts (cd_db d)) (cm_AccountID m) = None then Inl (StoreErr ErrAccountNotFound)
      else
        let audits = accountAudits (cm_AccountID m) d
        in (case kget audits (ca_AuditID (cm_Audit m)) of
            Some raw \<Rightarrow> bindE (knownMutation m raw d) (\<lambda>_. Inr ((), d))
          | None \<Rightarrow>
              bindE (case cm_Record m of
                  None \<Rightarrow> Inr (cd_credentials d)
                | Some record \<Rightarrow>
                    bindE (checkVersion record (ca_Operation (cm_Audit m)) (kget (cd_credentials d) (cm_AccountID m))) (\<lambda>_.
                    Inr (kput (cm_AccountID m) (Json record) (cd_credentials d)))) (\<lambda>records.
              Inr ((), d\<lparr>cd_credentials := records,
                cd_audits := kput (cm_AccountID m) (kput (ca_AuditID (cm_Audit m)) (Json (cm_Audit m)) audits) (cd_audits d)\<rparr>))))"

definition ApplyCredentialMutation :: "ccommit \<Rightarrow> CredentialMutation \<Rightarrow> cdb \<Rightarrow> unit result \<times> cdb" where
  "ApplyCredentialMutation commit m d =
     (case CredentialMutation_Validate m of Inl e \<Rightarrow> (Inl e, d) | Inr _ \<Rightarrow> update commit (applyCredentialTx m) d)"

definition ListCredentialAudits :: "string \<Rightarrow> cdb \<Rightarrow> CredentialAudit list result" where
  "ListCredentialAudits accountID d =
     (if TrimSpace accountID = [] then Inl (CredentialErr ErrInvalidCredential)
      else bindE (view (\<lambda>d. foldE (\<lambda>p acc.
          bindE (decode (snd p)) (\<lambda>audit.
          if CredentialAudit_Validate audit \<noteq> Inr () \<or> ca_AccountID audit \<noteq> accountID then Inl (StoreErr ErrCorruptData)
          else Inr (acc @ [audit]))) (kentries (accountAudits accountID d)) []) d) (\<lambda>result.
        Inr (sort_key (\<lambda>a. (ca_OccurredAt a, ca_AuditID a)) result)))"

text \<open>The store is the backend of the service.\<close>

definition storeBackend :: "ccommit \<Rightarrow> cdb CredentialBackend" where
  "storeBackend commit =
     \<lparr>bk_GetCredential = GetCredential, bk_ApplyCredentialMutation = ApplyCredentialMutation commit,
      bk_ListCredentialAudits = ListCredentialAudits\<rparr>"

end
