(* ===== verification/CredentialFacts.thy ===== *)
theory CredentialFacts
  imports CredentialStore SlotNames
begin

text \<open>
  What the credential service needs of its backend, as a locale, and what its operations do to the
  secrets of the accounts; the store as that backend; and the runs of mutations, which hold however
  the calls of the service are interleaved, because a call writes at most one mutation.
\<close>

section \<open>Sealing\<close>

lemma openSealed_seal:
  assumes "seal key a v p random = Inr (nonce, c)" "Key_validate key = Inr ()" "\<And>n. random = Inr n \<Longrightarrow> length n = 12"
    and "length p \<le> MaxPayloadSize"
  shows "openSealed key a v nonce c = Inr p"
  using assms by (auto simp: seal_def openSealed_def split: if_splits)

lemma openSealed_length: "openSealed key a v n c = Inr p \<Longrightarrow> length p \<le> MaxPayloadSize"
  by (auto simp: openSealed_def split: sum.splits option.splits if_splits)

text \<open>
  Under one key the associated data determine the account and the version, so a record sealed for
  one account does not pass for another or for a later version.
\<close>

lemma digits_no_zero_byte: "c \<in> set (decimal n) \<Longrightarrow> c \<noteq> CHR 0x00"
  using decimal_digits [of c n] by (auto simp: isDigit_def)

lemma associatedData_inj: "associatedData a v k = associatedData a' v' k \<longleftrightarrow> a = a' \<and> v = v'"
proof
  assume "associatedData a v k = associatedData a' v' k"
  then have eq: "a @ CHR 0x00 # decimal (unat v) = a' @ CHR 0x00 # decimal (unat v')" by (simp add: associatedData_def)
  have tail: "takeWhile (\<lambda>c. c \<noteq> CHR 0x00) (rev (b @ CHR 0x00 # decimal n)) = rev (decimal n)" for b n
    using digits_no_zero_byte by (subst rev_append) (simp add: takeWhile_append)
  have "decimal (unat v) = decimal (unat v')" using tail [of a "unat v"] tail [of a' "unat v'"] unfolding eq by simp
  then have "unat v = unat v'" by (metis digitsVal_decimal)
  then show "a = a' \<and> v = v'" using eq by (simp add: word_unat_eq_iff)
qed simp

section \<open>The contract of the backend\<close>

locale credential_backend =
  fixes backend :: "'w CredentialBackend" and inv :: "'w \<Rightarrow> bool"
  assumes get_found: "inv w \<Longrightarrow> bk_GetCredential backend a w = Inr (r, True) \<Longrightarrow> CredentialRecord_Validate r = Inr () \<and> cr_AccountID r = a"
    and apply_ok: "inv w \<Longrightarrow> bk_ApplyCredentialMutation backend m w = (Inr (), w') \<Longrightarrow> inv w' \<and>
      (\<forall>a. a \<noteq> cm_AccountID m \<longrightarrow> bk_GetCredential backend a w' = bk_GetCredential backend a w) \<and>
      bk_GetCredential backend (cm_AccountID m) w' = (case cm_Record m of
         None \<Rightarrow> bk_GetCredential backend (cm_AccountID m) w | Some r \<Rightarrow> Inr (r, True))"
    and apply_err: "bk_ApplyCredentialMutation backend m w = (Inl e, w') \<Longrightarrow> w' = w"

text \<open>The specification: the secret that an account has, if any.\<close>

definition secret :: "'w CredentialBackend \<Rightarrow> Keyring \<Rightarrow> 'w \<Rightarrow> string \<Rightarrow> string option" where
  "secret backend keys w accountID =
     (case bk_GetCredential backend accountID w of
        Inl _ \<Rightarrow> None
      | Inr (r, found) \<Rightarrow>
          if \<not> found \<or> cr_RevokedAt r \<noteq> None then None
          else (case kr_Lookup keys LiveContext (cr_KeyID r) of
              Inl _ \<Rightarrow> None
            | Inr key \<Rightarrow> (case openSealed key (cr_AccountID r) (cr_Version r) (cr_Nonce r) (cr_Ciphertext r) of
                Inl _ \<Rightarrow> None | Inr p \<Rightarrow> Some p)))"

text \<open>A keyring that can look up the key it uses, and a random source that fills its buffer.\<close>

definition keepsCurrent :: "Keyring \<Rightarrow> bool" where
  "keepsCurrent keys \<longleftrightarrow> (\<forall>k. kr_Current keys LiveContext = Inr k \<longrightarrow> kr_Lookup keys LiveContext (key_id k) = Inr k)"

definition fullNonce :: "CredentialRandom \<Rightarrow> bool" where
  "fullNonce rd \<longleftrightarrow> (\<forall>n. rd_nonce rd = Inr n \<longrightarrow> length n = 12)"

lemma mapErr_Inr [simp]: "mapErr f m = Inr x \<longleftrightarrow> m = Inr x"
  by (cases m) (simp_all add: mapErr_def)

lemma checkContext_ok [simp]: "checkContext ctx = Inr u \<longleftrightarrow> ctx = LiveContext"
  by (simp add: checkContext_def split: goContext.splits)

lemma validateCall_ok:
  "validateCall ctx a actor at = Inr u \<longleftrightarrow> ctx = LiveContext \<and> validateIdentifier a \<and> validateIdentifier actor \<and> at \<noteq> 0"
  by (auto simp: validateCall_def)

lemma currentKey_ok: "currentKey s ctx = Inr k \<longleftrightarrow> kr_Current (cs_keys s) ctx = Inr k \<and> Key_validate k = Inr ()"
  by (auto simp: currentKey_def)

lemma newAudit_ok:
  "newAudit random a operation actor v k at = Inr audit \<Longrightarrow> CredentialAudit_Validate audit = Inr () \<and> ca_AccountID audit = a \<and>
     ca_Operation audit = operation \<and> ca_Version audit = v \<and> ca_KeyID audit = k \<and> ca_OccurredAt audit = at"
  by (auto simp: newAudit_def Let_def)

lemma loadedRecord_ok:
  "loadedRecord s a at w = Inr r \<longleftrightarrow>
     bk_GetCredential (cs_backend s) a w = Inr (r, True) \<and> CredentialRecord_Validate r = Inr () \<and> cr_UpdatedAt r \<le> at"
  by (auto simp: loadedRecord_def checkedRecord_def split: if_splits prod.splits)

lemma applyMutation_Inr:
  "applyMutation s m x w = (Inr y, w') \<longleftrightarrow> y = x \<and> bk_ApplyCredentialMutation (cs_backend s) m w = (Inr (), w')"
  by (auto simp: applyMutation_def split: sum.splits prod.splits)

lemma applyMutation_snd: "snd (applyMutation s m x w) = snd (bk_ApplyCredentialMutation (cs_backend s) m w)"
  by (simp add: applyMutation_def split: sum.splits prod.splits)

section \<open>What the operations write\<close>

text \<open>A mutation that the service writes: a revocation carries a revoked record.\<close>

definition serviceMutation :: "CredentialMutation \<Rightarrow> bool" where
  "serviceMutation m \<longleftrightarrow>
     (ca_Operation (cm_Audit m) = OperationRevoke \<or> ca_Operation (cm_Audit m) = OperationRevokeForDeletion \<longrightarrow>
        (\<exists>r. cm_Record m = Some r \<and> cr_RevokedAt r \<noteq> None))"

definition writesOne :: "'w CredentialService \<Rightarrow> 'w \<Rightarrow> 'w \<Rightarrow> bool" where
  "writesOne s w w' \<longleftrightarrow> w' = w \<or> (\<exists>m. serviceMutation m \<and> w' = snd (bk_ApplyCredentialMutation (cs_backend s) m w))"

lemma writesOne_same [simp]: "writesOne s w w"
  by (simp add: writesOne_def)

lemma writesOne_apply: "serviceMutation m \<Longrightarrow> writesOne s w (snd (applyMutation s m x w))"
  by (auto simp: writesOne_def applyMutation_snd)

lemma serviceMutation_plain:
  "ca_Operation audit \<in> {OperationStore, OperationAccess, OperationRotate} \<Longrightarrow>
     serviceMutation \<lparr>cm_AccountID = a, cm_Record = r, cm_Audit = audit\<rparr>"
  by (auto simp: serviceMutation_def credentialOperation_defs)

lemma serviceMutation_revoked:
  "serviceMutation \<lparr>cm_AccountID = a, cm_Record = Some (revokedRecord r at), cm_Audit = audit\<rparr>"
  by (simp add: serviceMutation_def revokedRecord_def)

lemma putRecord_ok:
  assumes "putRecord k rd a p actor at found = Inr (r, audit)"
  shows "ca_Operation audit = OperationStore \<and> ca_AccountID audit = a \<and> cr_AccountID r = a \<and> cr_KeyID r = key_id k \<and>
    cr_RevokedAt r = None \<and> seal k a (cr_Version r) p (rd_nonce rd) = Inr (cr_Nonce r, cr_Ciphertext r) \<and>
    cr_Version r = (if snd found then cr_Version (fst found) + 1 else 1) \<and> cr_UpdatedAt r = at"
  using assms by (auto simp: putRecord_def split: prod.splits if_splits dest: newAudit_ok)

lemma Put_cases:
  obtains (refused) e where "Credential_Put s ctx rd a p actor at w = (Inl e, w)"
  | (applied) k found r audit where "ctx = LiveContext" "p \<noteq> []" "length p \<le> MaxPayloadSize" "kr_Current (cs_keys s) ctx = Inr k"
      "Key_validate k = Inr ()" "bk_GetCredential (cs_backend s) a w = Inr found" "putRecord k rd a p actor at found = Inr (r, audit)"
      "Credential_Put s ctx rd a p actor at w =
         applyMutation s \<lparr>cm_AccountID = a, cm_Record = Some r, cm_Audit = audit\<rparr> (metadataFromRecord r) w"
proof -
  let ?m = "bindE (validateCall ctx a actor at) (\<lambda>_.
           if p = [] \<or> length p > MaxPayloadSize then Inl (CredentialErr ErrInvalidCredential)
           else bindE (currentKey s ctx) (\<lambda>current.
             bindE (bk_GetCredential (cs_backend s) a w) (putRecord current rd a p actor at)))"
  show thesis
  proof (cases ?m)
    case (Inl e)
    then show thesis using refused [of e] by (simp only: Credential_Put_def sum.case)
  next
    case (Inr x)
    obtain r audit where x: "x = (r, audit)" by (cases x)
    have put: "Credential_Put s ctx rd a p actor at w =
        applyMutation s \<lparr>cm_AccountID = a, cm_Record = Some r, cm_Audit = audit\<rparr> (metadataFromRecord r) w"
      by (simp only: Credential_Put_def Inr x sum.case prod.case)
    show thesis
      using Inr by (auto simp: validateCall_ok currentKey_ok x split: if_splits intro: applied [OF _ _ _ _ _ _ _ put])
  qed
qed

lemma Put_writes: "writesOne s w (snd (Credential_Put s ctx rd a p actor at w))"
proof (cases rule: Put_cases [of s ctx rd a p actor at w])
  case (applied k found r audit)
  then show ?thesis using putRecord_ok [OF applied(7)] by (simp add: writesOne_apply serviceMutation_plain)
qed simp

lemma Use_cases:
  assumes "Credential_Use s ctx later rd a actor at (Some f) w = (res, w')"
  obtains (refused) e where "res = Inl e" "w' = w"
  | (audited) r key p audit ares w1 where "ctx = LiveContext" "loadedRecord s a at w = Inr r" "cr_RevokedAt r = None"
      "kr_Lookup (cs_keys s) ctx (cr_KeyID r) = Inr key" "openSealed key (cr_AccountID r) (cr_Version r) (cr_Nonce r) (cr_Ciphertext r) = Inr p"
      "ca_Operation audit = OperationAccess" "ca_Version audit = cr_Version r"
      "applyMutation s \<lparr>cm_AccountID = a, cm_Record = None, cm_Audit = audit\<rparr> () w = (ares, w1)"
      "(\<exists>e. res = Inl e \<and> w' = w1) \<or> (ares = Inr () \<and> f p w1 = (res, w'))"
proof -
  let ?m = "bindE (validateCall ctx a actor at) (\<lambda>_.
            bindE (loadedRecord s a at w) (\<lambda>record.
            if cr_RevokedAt record \<noteq> None then Inl (CredentialErr ErrCredentialRevoked)
            else bindE (lookupKey s ctx (cr_KeyID record)) (\<lambda>key.
              bindE (openSealed key (cr_AccountID record) (cr_Version record) (cr_Nonce record) (cr_Ciphertext record)) (\<lambda>working.
              bindE (newAudit (rd_audit rd) a OperationAccess actor (cr_Version record) (cr_KeyID record) at) (\<lambda>audit.
              Inr (working, audit))))))"
  show thesis
  proof (cases ?m)
    case (Inl e)
    have "Credential_Use s ctx later rd a actor at (Some f) w = (Inl e, w)"
      by (simp only: Credential_Use_def Inl option.case sum.case)
    then show thesis using refused assms by simp
  next
    case (Inr x)
    obtain p audit where x: "x = (p, audit)" by (cases x)
    obtain ares w1 where ap: "applyMutation s \<lparr>cm_AccountID = a, cm_Record = None, cm_Audit = audit\<rparr> () w = (ares, w1)" by (metis prod.collapse)
    have "(res, w') = (case ares of Inl e \<Rightarrow> (Inl e, w1)
        | Inr _ \<Rightarrow> (case checkContext later of Inl e \<Rightarrow> (Inl e, w1) | Inr _ \<Rightarrow> f p w1))"
      unfolding assms [symmetric] by (simp only: Credential_Use_def Inr x ap option.case sum.case prod.case)
    then have out: "(\<exists>e. res = Inl e \<and> w' = w1) \<or> (ares = Inr () \<and> f p w1 = (res, w'))"
      by (cases ares; cases "checkContext later") auto
    show thesis
      using Inr by (auto simp: validateCall_ok x lookupKey_def split: if_splits dest!: newAudit_ok intro: audited [OF _ _ _ _ _ _ _ ap out])
  qed
qed

lemma Use_writes:
  assumes "Credential_Use s ctx later rd a actor at (Some f) w = (res, w')"
  shows "\<exists>w1. writesOne s w w1 \<and> (w' = w1 \<or> (\<exists>p. f p w1 = (res, w')))"
  using assms
proof (cases rule: Use_cases)
  case (audited r key p audit ares w1)
  have "writesOne s w w1"
    using writesOne_apply [OF serviceMutation_plain] audited(6,8) by (metis insertCI snd_conv)
  then show ?thesis using audited(9) by blast
qed (use writesOne_same [of s w] in blast)

lemma Rotate_cases:
  obtains (refused) e where "Credential_RotateKey s ctx rd a actor at w = (Inl e, w)"
  | (applied) k old r p r' audit where "ctx = LiveContext" "loadedRecord s a at w = Inr r" "cr_RevokedAt r = None"
      "kr_Current (cs_keys s) ctx = Inr k" "Key_validate k = Inr ()" "kr_Lookup (cs_keys s) ctx (cr_KeyID r) = Inr old"
      "openSealed old (cr_AccountID r) (cr_Version r) (cr_Nonce r) (cr_Ciphertext r) = Inr p"
      "seal k a (cr_Version r') p (rd_nonce rd) = Inr (cr_Nonce r', cr_Ciphertext r')" "cr_AccountID r' = a"
      "cr_Version r' = cr_Version r + 1" "cr_KeyID r' = key_id k" "cr_RevokedAt r' = None" "ca_Operation audit = OperationRotate"
      "Credential_RotateKey s ctx rd a actor at w =
         applyMutation s \<lparr>cm_AccountID = a, cm_Record = Some r', cm_Audit = audit\<rparr> (metadataFromRecord r') w"
proof -
  let ?m = "bindE (validateCall ctx a actor at) (\<lambda>_.
           bindE (loadedRecord s a at w) (\<lambda>record.
           if cr_RevokedAt record \<noteq> None then Inl (CredentialErr ErrCredentialRevoked)
           else bindE (currentKey s ctx) (\<lambda>current.
             if key_id current = cr_KeyID record then Inl (CredentialErr ErrAlreadyCurrentKey)
             else bindE (lookupKey s ctx (cr_KeyID record)) (\<lambda>old.
               bindE (openSealed old (cr_AccountID record) (cr_Version record) (cr_Nonce record) (cr_Ciphertext record)) (\<lambda>working.
               let version = cr_Version record + 1
               in bindE (seal current a version working (rd_nonce rd)) (\<lambda>(nonce, ciphertext).
                  bindE (newAudit (rd_audit rd) a OperationRotate actor version (key_id current) at) (\<lambda>audit.
                  Inr (\<lparr>cr_AccountID = a, cr_Version = version, cr_KeyID = key_id current, cr_Nonce = nonce,
                        cr_Ciphertext = ciphertext, cr_CreatedAt = cr_CreatedAt record, cr_UpdatedAt = at,
                        cr_RevokedAt = None\<rparr>, audit))))))))"
  show thesis
  proof (cases ?m)
    case (Inl e)
    then show thesis using refused [of e] by (simp only: Credential_RotateKey_def sum.case)
  next
    case (Inr x)
    obtain r' audit where x: "x = (r', audit)" by (cases x)
    have rotate: "Credential_RotateKey s ctx rd a actor at w =
        applyMutation s \<lparr>cm_AccountID = a, cm_Record = Some r', cm_Audit = audit\<rparr> (metadataFromRecord r') w"
      by (simp only: Credential_RotateKey_def Inr x sum.case prod.case)
    from Inr obtain r k old p nonce c where "ctx = LiveContext" "loadedRecord s a at w = Inr r" "cr_RevokedAt r = None"
        "kr_Current (cs_keys s) ctx = Inr k" "Key_validate k = Inr ()" "kr_Lookup (cs_keys s) ctx (cr_KeyID r) = Inr old"
        "openSealed old (cr_AccountID r) (cr_Version r) (cr_Nonce r) (cr_Ciphertext r) = Inr p"
        "seal k a (cr_Version r + 1) p (rd_nonce rd) = Inr (nonce, c)"
        "newAudit (rd_audit rd) a OperationRotate actor (cr_Version r + 1) (key_id k) at = Inr audit"
        "r' = \<lparr>cr_AccountID = a, cr_Version = cr_Version r + 1, cr_KeyID = key_id k, cr_Nonce = nonce, cr_Ciphertext = c,
           cr_CreatedAt = cr_CreatedAt r, cr_UpdatedAt = at, cr_RevokedAt = None\<rparr>"
      by (auto simp: validateCall_ok currentKey_ok lookupKey_def x Let_def split: if_splits prod.splits)
    then show thesis using applied [of r k old p r' audit] rotate newAudit_ok by simp
  qed
qed

lemma Rotate_writes: "writesOne s w (snd (Credential_RotateKey s ctx rd a actor at w))"
proof (cases rule: Rotate_cases [of s ctx rd a actor at w])
  case (applied k old r p r' audit)
  then show ?thesis by (simp add: writesOne_apply serviceMutation_plain)
qed simp

lemma Revoke_cases:
  assumes "Credential_Revoke s ctx rd a actor at w = (res, w')"
  obtains (refused) e where "res = Inl e" "w' = w"
  | (revoked) r where "loadedRecord s a at w = Inr r" "cr_RevokedAt r \<noteq> None" "res = Inr ()" "w' = w"
  | (failed) r w1 e where "loadedRecord s a at w = Inr r" "res = Inl e" "w' = w1"
      "w1 = w \<or> (\<exists>i x. cs_invalidator s = Some i \<and> i ctx a at w = (x, w1))"
  | (applied) r w1 audit where "loadedRecord s a at w = Inr r" "w1 = w \<or> (\<exists>i x. cs_invalidator s = Some i \<and> i ctx a at w = (x, w1))"
      "applyMutation s \<lparr>cm_AccountID = a, cm_Record = Some (revokedRecord r at), cm_Audit = audit\<rparr> () w1 = (res, w')"
proof (cases "bindE (validateCall ctx a actor at) (\<lambda>_. loadedRecord s a at w)")
  case (Inl e)
  then have "Credential_Revoke s ctx rd a actor at w = (Inl e, w)" by (simp only: Credential_Revoke_def sum.case)
  then show thesis using refused assms by simp
next
  case (Inr r)
  then have r: "loadedRecord s a at w = Inr r" by auto
  show thesis
  proof (cases "cr_RevokedAt r = None")
    case False
    then show thesis using revoked [OF r] assms Inr by (simp add: Credential_Revoke_def)
  next
    case True
    obtain x w1 where i: "(case cs_invalidator s of None \<Rightarrow> (None, w) | Some invalidate \<Rightarrow> invalidate ctx a at w) = (x, w1)"
      by (metis prod.collapse)
    then have w1: "w1 = w \<or> (\<exists>i x. cs_invalidator s = Some i \<and> i ctx a at w = (x, w1))" by (auto split: option.splits)
    have out: "(res, w') = (if x \<noteq> None then (Inl (CredentialErr ErrSessionInvalidation), w1)
        else (case newAudit (rd_audit rd) a OperationRevoke actor (cr_Version r) (cr_KeyID r) at of Inl e \<Rightarrow> (Inl e, w1)
          | Inr audit \<Rightarrow> applyMutation s \<lparr>cm_AccountID = a, cm_Record = Some (revokedRecord r at), cm_Audit = audit\<rparr> () w1))"
      unfolding assms [symmetric] by (simp add: Credential_Revoke_def Inr True i)
    then show thesis
      using failed [OF r _ _ w1] applied [OF r w1] by (auto split: if_splits sum.splits)
  qed
qed

text \<open>What a stopping of the sessions did to the world, if there is an invalidator, is not the service's write.\<close>

lemma Revoke_writes:
  assumes "Credential_Revoke s ctx rd a actor at w = (res, w')"
  shows "\<exists>w1. (w1 = w \<or> (\<exists>i x. cs_invalidator s = Some i \<and> i ctx a at w = (x, w1))) \<and> writesOne s w1 w'"
  using assms
proof (cases rule: Revoke_cases)
  case (applied r w1 audit)
  then show ?thesis using writesOne_apply [OF serviceMutation_revoked] by (metis snd_conv)
qed (use writesOne_same [of s] in blast)+

lemma RevokeForDeletion_cases:
  assumes "Credential_RevokeForDeletion s ctx rd a deletionID actor stopped at w = (res, w')"
  obtains (refused) e where "res = Inl e" "w' = w"
  | (absent) r where "stopped" "bk_GetCredential (cs_backend s) a w = Inr (r, False)" "res = Inr ()" "w' = w"
  | (revoked) r where "stopped" "loadedRecord s a at w = Inr r" "cr_RevokedAt r \<noteq> None" "res = Inr ()" "w' = w"
  | (applied) r audit where "stopped" "loadedRecord s a at w = Inr r" "cr_RevokedAt r = None" "ca_DeletionID audit = deletionID"
      "applyMutation s \<lparr>cm_AccountID = a, cm_Record = Some (revokedRecord r at), cm_Audit = audit\<rparr> () w = (res, w')"
proof -
  let ?m = "bindE (validateCall ctx a actor at) (\<lambda>_.
           if \<not> stopped then Inl (CredentialErr ErrSessionsNotStopped)
           else if \<not> validateIdentifier deletionID then Inl (CredentialErr ErrInvalidCredential)
           else bindE (bk_GetCredential (cs_backend s) a w) (\<lambda>(record, found).
             if \<not> found then Inr None
             else bindE (checkedRecord at record) (\<lambda>record.
               if cr_RevokedAt record \<noteq> None then Inr None
               else bindE (newAudit (rd_audit rd) a OperationRevoke actor (cr_Version record) (cr_KeyID record) at) (\<lambda>audit.
                 Inr (Some (record, audit\<lparr>ca_Operation := OperationRevokeForDeletion, ca_DeletionID := deletionID\<rparr>))))))"
  have l: "loadedRecord s a at w = Inr r" if "bk_GetCredential (cs_backend s) a w = Inr (r0, True)" "checkedRecord at r0 = Inr r" for r r0
    using that by (simp add: loadedRecord_def)
  show thesis
  proof (cases ?m)
    case (Inl e)
    then have "Credential_RevokeForDeletion s ctx rd a deletionID actor stopped at w = (Inl e, w)"
      by (simp only: Credential_RevokeForDeletion_def sum.case)
    then show thesis using refused assms by simp
  next
    case (Inr x)
    show thesis
    proof (cases x)
      case None
      then have "Credential_RevokeForDeletion s ctx rd a deletionID actor stopped at w = (Inr (), w)"
        using Inr by (simp only: Credential_RevokeForDeletion_def sum.case option.case)
      then have out: "res = Inr ()" "w' = w" using assms by simp_all
      show thesis
        using Inr None by (auto split: if_splits prod.splits intro: absent revoked l out)
    next
      case (Some y)
      obtain r audit where y: "y = (r, audit)" by (cases y)
      have "Credential_RevokeForDeletion s ctx rd a deletionID actor stopped at w =
          applyMutation s \<lparr>cm_AccountID = a, cm_Record = Some (revokedRecord r at), cm_Audit = audit\<rparr> () w"
        by (simp only: Credential_RevokeForDeletion_def Inr Some y sum.case option.case prod.case)
      then have out: "applyMutation s \<lparr>cm_AccountID = a, cm_Record = Some (revokedRecord r at), cm_Audit = audit\<rparr> () w = (res, w')"
        using assms by simp
      show thesis
        using Inr Some y by (auto split: if_splits prod.splits intro: applied [OF _ _ _ _ out] l)
    qed
  qed
qed

lemma RevokeForDeletion_writes: "writesOne s w (snd (Credential_RevokeForDeletion s ctx rd a deletionID actor stopped at w))"
proof -
  obtain res w' where r: "Credential_RevokeForDeletion s ctx rd a deletionID actor stopped at w = (res, w')" by (metis prod.collapse)
  then show ?thesis
  proof (cases rule: RevokeForDeletion_cases)
    case (applied r audit)
    then show ?thesis using writesOne_apply [OF serviceMutation_revoked] r by (metis snd_conv)
  qed (metis r snd_conv writesOne_same)+
qed

section \<open>Secrets\<close>

lemma secret_record:
  "bk_GetCredential b a w = Inr (r, True) \<Longrightarrow> secret b keys w a =
     (if cr_RevokedAt r \<noteq> None then None
      else case kr_Lookup keys LiveContext (cr_KeyID r) of Inl _ \<Rightarrow> None
        | Inr key \<Rightarrow> (case openSealed key (cr_AccountID r) (cr_Version r) (cr_Nonce r) (cr_Ciphertext r) of Inl _ \<Rightarrow> None | Inr p \<Rightarrow> Some p))"
  by (simp add: secret_def)

lemma secret_cong: "bk_GetCredential b a w' = bk_GetCredential b a w \<Longrightarrow> secret b keys w' a = secret b keys w a"
  by (simp add: secret_def)

context credential_backend
begin

lemma sealed_secret:
  assumes get: "bk_GetCredential backend a w = Inr (r, True)" and k: "kr_Current keys LiveContext = Inr k" "Key_validate k = Inr ()"
    and r: "cr_KeyID r = key_id k" "cr_AccountID r = a" "cr_RevokedAt r = None"
    and sealed: "seal k a (cr_Version r) p (rd_nonce rd) = Inr (cr_Nonce r, cr_Ciphertext r)"
    and fair: "keepsCurrent keys" "fullNonce rd" and p: "length p \<le> MaxPayloadSize"
  shows "secret backend keys w a = Some p"
proof -
  have "kr_Lookup keys LiveContext (cr_KeyID r) = Inr k" using fair(1) k(1) r(1) by (simp add: keepsCurrent_def)
  moreover have "openSealed k a (cr_Version r) (cr_Nonce r) (cr_Ciphertext r) = Inr p"
    using openSealed_seal [OF sealed k(2) _ p] fair(2) by (simp add: fullNonce_def)
  ultimately show ?thesis using secret_record [OF get] r(2,3) by simp
qed

lemma Put_secret:
  assumes "Credential_Put s ctx rd a p actor at w = (Inr md, w')" "cs_backend s = backend" "inv w"
    and fair: "keepsCurrent (cs_keys s)" "fullNonce rd"
  shows "inv w' \<and> secret backend (cs_keys s) w' = (secret backend (cs_keys s) w)(a := Some p)"
  using assms(1)
proof (cases rule: Put_cases [of s ctx rd a p actor at w])
  case (applied k found r audit)
  note put = putRecord_ok [OF applied(7)]
  have ap: "bk_ApplyCredentialMutation backend \<lparr>cm_AccountID = a, cm_Record = Some r, cm_Audit = audit\<rparr> w = (Inr (), w')"
    using assms(1,2) applied(8) by (simp add: applyMutation_Inr)
  note ok = apply_ok [OF assms(3) ap]
  have "secret backend (cs_keys s) w' a = Some p"
    by (rule sealed_secret [OF _ _ applied(5) _ _ _ _ fair applied(3)]) (use ok put applied(1,4) in auto)
  moreover have "secret backend (cs_keys s) w' b = secret backend (cs_keys s) w b" if "b \<noteq> a" for b
    using ok that by (intro secret_cong) simp
  ultimately show ?thesis using ok by (intro conjI ext) auto
qed simp

lemma Rotate_secret:
  assumes "Credential_RotateKey s ctx rd a actor at w = (Inr md, w')" "cs_backend s = backend" "inv w"
    and fair: "keepsCurrent (cs_keys s)" "fullNonce rd"
  shows "inv w' \<and> secret backend (cs_keys s) w' = secret backend (cs_keys s) w"
  using assms(1)
proof (cases rule: Rotate_cases [of s ctx rd a actor at w])
  case (applied k old r p r' audit)
  have ap: "bk_ApplyCredentialMutation backend \<lparr>cm_AccountID = a, cm_Record = Some r', cm_Audit = audit\<rparr> w = (Inr (), w')"
    using assms(1,2) applied(14) by (simp add: applyMutation_Inr)
  note ok = apply_ok [OF assms(3) ap]
  have old: "secret backend (cs_keys s) w a = Some p"
    using applied(1-3,6,7) assms(2) by (simp add: loadedRecord_ok secret_record)
  have "secret backend (cs_keys s) w' a = Some p"
    by (rule sealed_secret [where r = r', OF _ _ applied(5) _ _ _ _ fair openSealed_length [OF applied(7)]]) (use ok applied in auto)
  then have "secret backend (cs_keys s) w' b = secret backend (cs_keys s) w b" for b
    using ok old secret_cong [of backend b w' w] by (cases "b = a") auto
  then show ?thesis using ok by auto
qed simp

lemma Use_secret:
  assumes "Credential_Use s ctx later rd a actor at (Some f) w = (res, w')" "cs_backend s = backend" "inv w"
  shows "\<exists>w1. inv w1 \<and> secret backend (cs_keys s) w1 = secret backend (cs_keys s) w \<and>
    ((\<exists>e. res = Inl e) \<and> w' = w1 \<or> (\<exists>p. secret backend (cs_keys s) w a = Some p \<and> f p w1 = (res, w')))"
  using assms(1)
proof (cases rule: Use_cases)
  case (audited r key p audit ares w1)
  have p: "secret backend (cs_keys s) w a = Some p"
    using audited(1-5) assms(2) by (simp add: loadedRecord_ok secret_record)
  have "inv w1 \<and> secret backend (cs_keys s) w1 = secret backend (cs_keys s) w"
  proof (cases ares)
    case (Inl e)
    then obtain e' where "bk_ApplyCredentialMutation backend \<lparr>cm_AccountID = a, cm_Record = None, cm_Audit = audit\<rparr> w = (Inl e', w1)"
      using audited(8) assms(2) by (auto simp: applyMutation_def split: sum.splits prod.splits)
    then show ?thesis using apply_err assms(3) by blast
  next
    case (Inr u)
    then have "bk_ApplyCredentialMutation backend \<lparr>cm_AccountID = a, cm_Record = None, cm_Audit = audit\<rparr> w = (Inr (), w1)"
      using audited(8) assms(2) by (simp add: applyMutation_Inr)
    from apply_ok [OF assms(3) this] have inv: "inv w1" and g: "bk_GetCredential backend b w1 = bk_GetCredential backend b w" for b
      by (cases "b = a"; simp)+
    show ?thesis using inv secret_cong [OF g] by auto
  qed
  then show ?thesis using audited(9) p by blast
qed (use assms(3) in blast)

text \<open>The invalidator may do anything that keeps the invariant.\<close>

lemma Revoke_secret:
  assumes "Credential_Revoke s ctx rd a actor at w = (Inr u, w')" "cs_backend s = backend" "inv w"
    and stop: "\<forall>i w x w1. cs_invalidator s = Some i \<and> inv w \<and> i ctx a at w = (x, w1) \<longrightarrow> inv w1"
  shows "inv w' \<and> secret backend keys w' a = None"
  using assms(1)
proof (cases rule: Revoke_cases)
  case (revoked r)
  then show ?thesis using assms(2,3) by (simp add: loadedRecord_ok secret_record)
next
  case (applied r w1 audit)
  have "inv w1" using applied(2) assms(3) stop by blast
  moreover have "bk_ApplyCredentialMutation backend \<lparr>cm_AccountID = a, cm_Record = Some (revokedRecord r at), cm_Audit = audit\<rparr> w1 = (Inr (), w')"
    using applied(3) assms(2) by (simp add: applyMutation_Inr)
  ultimately have "inv w'" "bk_GetCredential backend a w' = Inr (revokedRecord r at, True)" using apply_ok by fastforce+
  then show ?thesis by (simp add: secret_record revokedRecord_def)
qed simp_all

lemma RevokeForDeletion_secret:
  assumes "Credential_RevokeForDeletion s ctx rd a deletionID actor stopped at w = (Inr u, w')" "cs_backend s = backend" "inv w"
  shows "stopped \<and> inv w' \<and> secret backend keys w' a = None"
  using assms(1)
proof (cases rule: RevokeForDeletion_cases)
  case (absent r)
  then show ?thesis using assms(2,3) by (simp add: secret_def)
next
  case (revoked r)
  then show ?thesis using assms(2,3) by (simp add: loadedRecord_ok secret_record)
next
  case (applied r audit)
  have "bk_ApplyCredentialMutation backend \<lparr>cm_AccountID = a, cm_Record = Some (revokedRecord r at), cm_Audit = audit\<rparr> w = (Inr (), w')"
    using applied(5) assms(2) by (simp add: applyMutation_Inr)
  from apply_ok [OF assms(3) this] have "inv w'" "bk_GetCredential backend a w' = Inr (revokedRecord r at, True)" by simp_all
  then show ?thesis using applied(1) by (simp add: secret_record revokedRecord_def)
qed simp

end

end
