(* ===== verification/RdpProps.thy ===== *)
theory RdpProps
  imports RdpCapability
begin

text \<open>
  RDP capabilities: a run is a list of calls of the service. Connection material leaves it only
  through a capability that was issued for what is asked, has not expired and was not revoked.
\<close>

section \<open>Runs\<close>

datatype rdpCall =
    IssueCall RDPAuthorizer goContext RDPAuthorization gotime duration "string result"
  | ResolveCall goContext RDPCapability string gotime
  | ResolveBoundCall goContext RDPCapability RDPAuthorization gotime
  | RevokeCall goContext RDPCapability string
  | RevokeRequestCall goContext string
  | RevokeSlotLeaseCall goContext string
  | RevokeSlotCall goContext string
  | RevokeAccountLeaseCall goContext string
  | RevokeGenerationCall goContext string uint64
  | CloseCall

fun rdpDo :: "rdpCall \<Rightarrow> rdpState \<Rightarrow> rdpState" where
  "rdpDo (IssueCall au ctx q now ttl raw) s = snd (Issue au ctx q now ttl raw s)"
| "rdpDo (ResolveCall ctx c actor now) s = snd (Resolve ctx c actor now s)"
| "rdpDo (ResolveBoundCall ctx c a now) s = snd (ResolveBound ctx c a now s)"
| "rdpDo (RevokeCall ctx c actor) s = snd (RDP_Revoke ctx c actor s)"
| "rdpDo (RevokeRequestCall ctx i) s = snd (RDP_RevokeRequest ctx i s)"
| "rdpDo (RevokeSlotLeaseCall ctx i) s = snd (RDP_RevokeSlotLease ctx i s)"
| "rdpDo (RevokeSlotCall ctx i) s = snd (RDP_RevokeSlot ctx i s)"
| "rdpDo (RevokeAccountLeaseCall ctx i) s = snd (RDP_RevokeAccountLease ctx i s)"
| "rdpDo (RevokeGenerationCall ctx i g) s = snd (RDP_RevokeGeneration ctx i g s)"
| "rdpDo CloseCall s = snd (RDP_Close s)"

definition rdpRun :: "rdpCall list \<Rightarrow> rdpState" where
  "rdpRun calls = fold rdpDo calls kempty"

text \<open>The calls that take a capability away that was issued for an authorization.\<close>

fun revokes :: "rdpCall \<Rightarrow> RDPAuthorization \<Rightarrow> RDPCapability \<Rightarrow> bool" where
  "revokes (RevokeCall ctx c' actor) q c \<longleftrightarrow>
     ctx = LiveContext \<and> rdpDigest (cap_Token c') = rdpDigest (cap_Token c) \<and> cap_ID c' = cap_ID c \<and> actor = ra_Actor q"
| "revokes (RevokeRequestCall ctx i) q c \<longleftrightarrow> ctx = LiveContext \<and> TrimSpace i \<noteq> [] \<and> i = cap_RequestID c"
| "revokes (RevokeSlotLeaseCall ctx i) q c \<longleftrightarrow> ctx = LiveContext \<and> TrimSpace i \<noteq> [] \<and> i = ra_SlotLeaseID q"
| "revokes (RevokeSlotCall ctx i) q c \<longleftrightarrow> ctx = LiveContext \<and> TrimSpace i \<noteq> [] \<and> i = ra_SlotID q"
| "revokes (RevokeAccountLeaseCall ctx i) q c \<longleftrightarrow> ctx = LiveContext \<and> TrimSpace i \<noteq> [] \<and> i = ra_AccountLeaseID q"
| "revokes (RevokeGenerationCall ctx i g) q c \<longleftrightarrow>
     ctx = LiveContext \<and> TrimSpace i \<noteq> [] \<and> g \<noteq> 0 \<and> i = ra_SlotID q \<and> g = ra_EnvironmentGeneration q"
| "revokes CloseCall q c \<longleftrightarrow> True"
| "revokes call q c \<longleftrightarrow> False"

section \<open>Entries\<close>

definition entryOf :: "RDPAuthorization \<Rightarrow> RDPMaterial \<Rightarrow> RDPCapability \<Rightarrow> rdpEntry" where
  "entryOf q m c =
     \<lparr>re_capability = c, re_material = m, re_actor = ra_Actor q, re_accountID = ra_AccountID q,
      re_accountLeaseID = ra_AccountLeaseID q, re_slotLeaseID = ra_SlotLeaseID q, re_slotID = ra_SlotID q,
      re_environmentGeneration = ra_EnvironmentGeneration q, re_revoked = False\<rparr>"

lemma entryOf_sel [simp]:
  "re_capability (entryOf q m c) = c" "re_material (entryOf q m c) = m" "re_actor (entryOf q m c) = ra_Actor q"
  "re_accountID (entryOf q m c) = ra_AccountID q" "re_accountLeaseID (entryOf q m c) = ra_AccountLeaseID q"
  "re_slotLeaseID (entryOf q m c) = ra_SlotLeaseID q" "re_slotID (entryOf q m c) = ra_SlotID q"
  "re_environmentGeneration (entryOf q m c) = ra_EnvironmentGeneration q" "\<not> re_revoked (entryOf q m c)"
  by (simp_all add: entryOf_def)

definition issuedCapability :: "RDPAuthorization \<Rightarrow> gotime \<Rightarrow> duration \<Rightarrow> string \<Rightarrow> RDPCapability" where
  "issuedCapability q now ttl bytes =
     \<lparr>cap_ID = ''rdp_'' @ EncodeToString (take 6 (Sum256 (EncodeToString bytes))), cap_Token = EncodeToString bytes,
      cap_RequestID = ra_RequestID q, cap_ExpiresAt = Add now (if ttl = 0 then DefaultRDPLease else ttl)\<rparr>"

lemma issuedCapability_sel [simp]:
  "cap_ID (issuedCapability q now ttl bytes) = ''rdp_'' @ EncodeToString (take 6 (Sum256 (EncodeToString bytes)))"
  "cap_Token (issuedCapability q now ttl bytes) = EncodeToString bytes" "cap_RequestID (issuedCapability q now ttl bytes) = ra_RequestID q"
  "cap_ExpiresAt (issuedCapability q now ttl bytes) = Add now (if ttl = 0 then DefaultRDPLease else ttl)"
  by (simp_all add: issuedCapability_def)

text \<open>When a capability is issued, and what is then kept.\<close>

lemma Issue_iff:
  "Issue au ctx q now ttl raw s = (Inr c, s') \<longleftrightarrow>
     ctx = LiveContext \<and> validateRDPAuthorization q = Inr () \<and> now \<noteq> 0 \<and> 0 \<le> ttl \<and> ttl \<le> MaxRDPLease \<and>
     (\<exists>m bytes. au ctx q = Inr m \<and> rm_host m \<noteq> [] \<and> rm_password m \<noteq> [] \<and> raw = Inr bytes \<and>
        c = issuedCapability q now ttl bytes \<and> s' = kput (rdpDigest (EncodeToString bytes)) (entryOf q m c) s)"
proof (cases "ctx = LiveContext \<and> validateRDPAuthorization q = Inr () \<and> now \<noteq> 0 \<and> 0 \<le> ttl \<and> ttl \<le> MaxRDPLease")
  case True
  then have ttl: "\<not> ((if ttl = 0 then DefaultRDPLease else ttl) \<le> 0 \<or> MaxRDPLease < (if ttl = 0 then DefaultRDPLease else ttl))"
    by (auto simp: DefaultRDPLease_def MaxRDPLease_def second_def)
  show ?thesis
    using True ttl by (auto simp: Issue_def ctxErr_def IsZero_def zeroTime_def issuedCapability_def entryOf_def Let_def split: sum.splits)
next
  case False
  then show ?thesis
    by (auto simp: Issue_def ctxErr_def IsZero_def zeroTime_def Let_def split: sum.splits goContext.splits if_splits)
qed

lemma Issue_cases:
  obtains (issued) m bytes where "ctx = LiveContext" "au ctx q = Inr m" "raw = Inr bytes"
      "Issue au ctx q now ttl raw s = (Inr (issuedCapability q now ttl bytes),
         kput (rdpDigest (EncodeToString bytes)) (entryOf q m (issuedCapability q now ttl bytes)) s)"
  | (refused) "snd (Issue au ctx q now ttl raw s) = s"
proof (cases "fst (Issue au ctx q now ttl raw s)")
  case (Inl e)
  then have "snd (Issue au ctx q now ttl raw s) = s"
    using Inl by (auto simp: Issue_def ctxErr_def Let_def split: goContext.splits sum.splits if_splits)
  then show thesis by (rule refused)
next
  case (Inr c)
  then have "Issue au ctx q now ttl raw s = (Inr c, snd (Issue au ctx q now ttl raw s))" by (metis prod.collapse)
  then show thesis using issued unfolding Issue_iff by metis
qed

lemma dropEntries_fold:
  assumes "distinct (map fst es)"
  shows "kget (fold (\<lambda>(key, entry) s. if p entry then kdel key s else s) es s) k =
     (if \<exists>e. (k, e) \<in> set es \<and> p e then None else kget s k)"
  using assms
proof (induction es arbitrary: s)
  case (Cons x es)
  obtain key e where x: "x = (key, e)" by (cases x)
  have "key \<notin> fst ` set es" using Cons.prems by (simp add: x)
  then have "(key, f) \<notin> set es" for f by force
  then show ?case using Cons by (auto simp: x)
qed simp

lemma kget_dropEntries [simp]: "kget (dropEntries p s) k = Some e \<longleftrightarrow> kget s k = Some e \<and> \<not> p e"
  by (auto simp: dropEntries_def dropEntries_fold kentries_iff)

text \<open>Asking for material removes at most entries.\<close>

lemma resolve_drops: "kget (snd (resolve ctx c a now b s)) k = Some e \<Longrightarrow> kget s k = Some e"
  by (auto simp: resolve_def ctxErr_def split: goContext.splits option.splits if_splits)

lemma Revoke_state:
  "snd (RDP_Revoke ctx c actor s) =
     (case kget s (rdpDigest (cap_Token c)) of None \<Rightarrow> s
      | Some e \<Rightarrow> if ctx = LiveContext \<and> cap_ID (re_capability e) = cap_ID c \<and> re_actor e = actor
          then kput (rdpDigest (cap_Token c)) (e\<lparr>re_revoked := True, re_material := wipe (re_material e)\<rparr>) s else s)"
  by (simp add: RDP_Revoke_def ctxErr_def split: goContext.splits option.splits)

lemma Revoke_keeps:
  assumes kept: "kget (snd (RDP_Revoke ctx c actor s)) k = Some e" and usable: "\<not> re_revoked e"
  shows "kget s k = Some e \<and>
    (ctx = LiveContext \<and> rdpDigest (cap_Token c) = k \<and> cap_ID (re_capability e) = cap_ID c \<longrightarrow> re_actor e \<noteq> actor)"
proof (cases "kget s (rdpDigest (cap_Token c))")
  case None
  then show ?thesis using kept by (auto simp: Revoke_state)
next
  case (Some f)
  show ?thesis
  proof (cases "ctx = LiveContext \<and> cap_ID (re_capability f) = cap_ID c \<and> re_actor f = actor")
    case True
    then have "snd (RDP_Revoke ctx c actor s) =
        kput (rdpDigest (cap_Token c)) (f\<lparr>re_revoked := True, re_material := wipe (re_material f)\<rparr>) s"
      using Some by (simp add: Revoke_state)
    then show ?thesis using kept usable by (auto split: if_splits)
  next
    case False
    then have "snd (RDP_Revoke ctx c actor s) = s" unfolding Revoke_state Some by (simp only: option.case if_False)
    then show ?thesis using kept Some False by auto
  qed
qed

section \<open>Every usable entry was issued and not revoked since\<close>

definition issuedIn :: "rdpCall list \<Rightarrow> string \<Rightarrow> rdpEntry \<Rightarrow> bool" where
  "issuedIn calls k e \<longleftrightarrow>
     (\<exists>pre post au ctx q now ttl raw c m. calls = pre @ IssueCall au ctx q now ttl raw # post \<and>
        fst (Issue au ctx q now ttl raw (rdpRun pre)) = Inr c \<and> au ctx q = Inr m \<and> e = entryOf q m c \<and> k = rdpDigest (cap_Token c) \<and>
        (\<forall>call \<in> set post. \<not> revokes call q c))"

text \<open>What a call leaves usable was usable before it and is not revoked by it, or was just issued.\<close>

lemma rdpDo_keeps:
  assumes "kget (rdpDo call s) k = Some e" "\<not> re_revoked e"
  shows "(kget s k = Some e \<and> (\<forall>q m c. e = entryOf q m c \<and> k = rdpDigest (cap_Token c) \<longrightarrow> \<not> revokes call q c)) \<or>
     (\<exists>au ctx q now ttl raw c m. call = IssueCall au ctx q now ttl raw \<and> fst (Issue au ctx q now ttl raw s) = Inr c \<and>
        au ctx q = Inr m \<and> e = entryOf q m c \<and> k = rdpDigest (cap_Token c))"
proof (cases call)
  case (IssueCall au ctx q now ttl raw)
  show ?thesis
  proof (cases rule: Issue_cases [of ctx au q raw now ttl s])
    case (issued m bytes)
    then show ?thesis
      using assms(1) by (cases "k = rdpDigest (EncodeToString bytes)") (auto simp: IssueCall)
  qed (use assms in \<open>auto simp: IssueCall\<close>)
next
  case (RevokeCall ctx c actor)
  then show ?thesis using Revoke_keeps [of ctx c actor s k e] assms by auto
qed (use assms in \<open>auto simp: Resolve_def ResolveBound_def RDP_RevokeRequest_def RDP_RevokeSlotLease_def RDP_RevokeSlot_def
    RDP_RevokeAccountLease_def RDP_RevokeGeneration_def RDP_Close_def ctxErr_def dest: resolve_drops
    split: goContext.splits if_splits sum.splits\<close>)

lemma usable_issued:
  assumes "kget (rdpRun calls) k = Some e" "\<not> re_revoked e"
  shows "issuedIn calls k e"
  using assms
proof (induction calls arbitrary: e rule: rev_induct)
  case (snoc call calls)
  have run: "rdpRun (calls @ [call]) = rdpDo call (rdpRun calls)" by (simp add: rdpRun_def)
  from rdpDo_keeps [OF snoc.prems [unfolded run]] show ?case
  proof (elim disjE)
    assume old: "kget (rdpRun calls) k = Some e \<and> (\<forall>q m c. e = entryOf q m c \<and> k = rdpDigest (cap_Token c) \<longrightarrow> \<not> revokes call q c)"
    with snoc.IH [OF _ snoc.prems(2)] obtain pre post au ctx q now ttl raw c m where i: "calls = pre @ IssueCall au ctx q now ttl raw # post"
        "fst (Issue au ctx q now ttl raw (rdpRun pre)) = Inr c" "au ctx q = Inr m" "e = entryOf q m c" "k = rdpDigest (cap_Token c)"
        "\<forall>call \<in> set post. \<not> revokes call q c"
      unfolding issuedIn_def by blast
    have "calls @ [call] = pre @ IssueCall au ctx q now ttl raw # (post @ [call])" using i(1) by simp
    moreover have "\<forall>x \<in> set (post @ [call]). \<not> revokes x q c" using i old by auto
    ultimately show ?thesis using i(2-5) unfolding issuedIn_def by blast
  next
    assume "\<exists>au ctx q now ttl raw c m. call = IssueCall au ctx q now ttl raw \<and> fst (Issue au ctx q now ttl raw (rdpRun calls)) = Inr c \<and>
        au ctx q = Inr m \<and> e = entryOf q m c \<and> k = rdpDigest (cap_Token c)"
    then show ?thesis unfolding issuedIn_def by fastforce
  qed
qed (simp add: rdpRun_def)

section \<open>What is handed out\<close>

lemma resolve_ok:
  assumes "resolve ctx c a now b s = (Inr m, s')"
  shows "\<exists>e. kget s (rdpDigest (cap_Token c)) = Some e \<and> cap_ID (re_capability e) = cap_ID c \<and>
    cap_RequestID (re_capability e) = cap_RequestID c \<and> \<not> re_revoked e \<and> now < cap_ExpiresAt (re_capability e) \<and>
    re_actor e = ra_Actor a \<and> m = re_material e \<and>
    (re_slotLeaseID e \<noteq> [] \<longrightarrow> b \<and> re_accountID e = ra_AccountID a \<and> cap_RequestID (re_capability e) = ra_RequestID a \<and>
       re_accountLeaseID e = ra_AccountLeaseID a \<and> re_slotLeaseID e = ra_SlotLeaseID a \<and> re_slotID e = ra_SlotID a \<and>
       re_environmentGeneration e = ra_EnvironmentGeneration a)"
  using assms by (auto simp: resolve_def split: sum.splits option.splits if_splits)

text \<open>
  C7. Whatever was called on the service before, connection material is handed out only for a
  capability that it issued: its authorizer returned exactly this material for the account, request,
  actor and leases; the identifier, the token (by its digest), the request and the actor are those of
  the issue; it was issued for at most the longest lease and has not expired; no call since then
  revoked it, neither itself nor through its request, leases, slot, generation or the shutdown; and
  a capability bound to a slot is resolved only with the complete binding it was issued for.
\<close>

theorem resolve_authorized:
  assumes "resolve ctx cap a now b (rdpRun calls) = (Inr m, s')"
  shows "\<exists>pre post authorizer ctx' q t ttl raw c.
    calls = pre @ IssueCall authorizer ctx' q t ttl raw # post \<and>
    fst (Issue authorizer ctx' q t ttl raw (rdpRun pre)) = Inr c \<and> authorizer ctx' q = Inr m \<and>
    cap_ID cap = cap_ID c \<and> rdpDigest (cap_Token cap) = rdpDigest (cap_Token c) \<and> cap_RequestID cap = ra_RequestID q \<and>
    ra_Actor a = ra_Actor q \<and> 0 \<le> ttl \<and> ttl \<le> MaxRDPLease \<and> now < Add t (if ttl = 0 then DefaultRDPLease else ttl) \<and>
    (\<forall>call \<in> set post. \<not> revokes call q c) \<and> (ra_SlotLeaseID q \<noteq> [] \<longrightarrow> b \<and> a = q)"
proof -
  obtain e where e: "kget (rdpRun calls) (rdpDigest (cap_Token cap)) = Some e" "\<not> re_revoked e"
      "cap_ID (re_capability e) = cap_ID cap" "cap_RequestID (re_capability e) = cap_RequestID cap"
      "now < cap_ExpiresAt (re_capability e)" "re_actor e = ra_Actor a" "m = re_material e"
      "re_slotLeaseID e \<noteq> [] \<longrightarrow> b \<and> re_accountID e = ra_AccountID a \<and> cap_RequestID (re_capability e) = ra_RequestID a \<and>
       re_accountLeaseID e = ra_AccountLeaseID a \<and> re_slotLeaseID e = ra_SlotLeaseID a \<and> re_slotID e = ra_SlotID a \<and>
       re_environmentGeneration e = ra_EnvironmentGeneration a"
    using resolve_ok [OF assms] by blast
  from usable_issued [OF e(1,2)] obtain pre post au ctx' q t ttl raw c m'
    where i: "calls = pre @ IssueCall au ctx' q t ttl raw # post" "fst (Issue au ctx' q t ttl raw (rdpRun pre)) = Inr c"
      "au ctx' q = Inr m'" "e = entryOf q m' c" "rdpDigest (cap_Token cap) = rdpDigest (cap_Token c)"
      "\<forall>call \<in> set post. \<not> revokes call q c"
    unfolding issuedIn_def by blast
  have "Issue au ctx' q t ttl raw (rdpRun pre) = (Inr c, snd (Issue au ctx' q t ttl raw (rdpRun pre)))"
    using i(2) by (metis prod.collapse)
  then have c: "0 \<le> ttl" "ttl \<le> MaxRDPLease" "\<exists>bytes. c = issuedCapability q t ttl bytes" unfolding Issue_iff by blast+
  then have sel: "cap_RequestID c = ra_RequestID q" "cap_ExpiresAt c = Add t (if ttl = 0 then DefaultRDPLease else ttl)" by auto
  have "ra_SlotLeaseID q \<noteq> [] \<longrightarrow> b \<and> a = q" using e(6,8) i(4) sel(1) by (cases a; cases q) auto
  moreover have "m' = m" "cap_ID cap = cap_ID c" "cap_RequestID cap = ra_RequestID q" "ra_Actor a = ra_Actor q"
      "now < Add t (if ttl = 0 then DefaultRDPLease else ttl)"
    using e(3-7) sel unfolding i(4) by simp_all
  ultimately show ?thesis using i c(1,2) by blast
qed

lemma hex_trimmed: "s \<noteq> [] \<Longrightarrow> TrimSpace (EncodeToString s) = EncodeToString s \<and> EncodeToString s \<noteq> []"
proof -
  assume s: "s \<noteq> []"
  then have ne: "EncodeToString s \<noteq> []" by (metis length_0_conv length_EncodeToString mult_eq_0_iff zero_neq_numeral)
  have "plainChar c" if "hexChar c" for c using that by (auto simp: hexChar_def plainChar_def Let_def)
  then have "list_all plainChar (EncodeToString s)" using EncodeToString_hex [of s] by (auto simp: list_all_iff)
  with ne show ?thesis by (auto simp: list_all_iff intro: TrimSpace_plain)
qed

text \<open>A capability that was just issued resolves with its binding until it expires, and is removed then.\<close>

lemma Issue_resolves:
  assumes "Issue au ctx q t ttl raw s = (Inr c, s')" "authorizedBy = au ctx q" "raw = Inr bytes" "bytes \<noteq> []" "now \<noteq> 0"
  shows "now < cap_ExpiresAt c \<Longrightarrow> authorizedBy = Inr m \<Longrightarrow> ResolveBound LiveContext c q now s' = (Inr m, s')"
    and "cap_ExpiresAt c \<le> now \<Longrightarrow> ResolveBound LiveContext c q now s' = (Inl (RDPErr ErrRDPExpired), kdel (rdpDigest (cap_Token c)) s')"
    and "now < cap_ExpiresAt c \<Longrightarrow> ra_SlotLeaseID q \<noteq> [] \<Longrightarrow>
      Resolve LiveContext c (ra_Actor q) now s' = (Inl (RDPErr ErrRDPUnauthorized), s')"
proof -
  obtain m' where i: "ctx = LiveContext" "validateRDPAuthorization q = Inr ()" "au ctx q = Inr m'" "c = issuedCapability q t ttl bytes"
      "s' = kput (rdpDigest (EncodeToString bytes)) (entryOf q m' c) s"
    using assms(1,3) unfolding Issue_iff by auto
  have "TrimSpace (ra_Actor q) \<noteq> []" using i(2) by (auto simp: validateRDPAuthorization_def split: if_splits)
  note r = this hex_trimmed [OF assms(4)] assms(5) i(2) i(4)
  have k: "kget s' (rdpDigest (EncodeToString bytes)) = Some (entryOf q m' c)" by (simp add: i(5))
  show "now < cap_ExpiresAt c \<Longrightarrow> authorizedBy = Inr m \<Longrightarrow> ResolveBound LiveContext c q now s' = (Inr m, s')"
    using r k i(1,3) assms(2) by (simp add: ResolveBound_def resolve_def ctxErr_def)
  show "cap_ExpiresAt c \<le> now \<Longrightarrow> ResolveBound LiveContext c q now s' = (Inl (RDPErr ErrRDPExpired), kdel (rdpDigest (cap_Token c)) s')"
    using r k by (simp add: ResolveBound_def resolve_def ctxErr_def)
  show "now < cap_ExpiresAt c \<Longrightarrow> ra_SlotLeaseID q \<noteq> [] \<Longrightarrow>
      Resolve LiveContext c (ra_Actor q) now s' = (Inl (RDPErr ErrRDPUnauthorized), s')"
    using r k by (simp add: Resolve_def resolve_def ctxErr_def)
qed

section \<open>A concrete run\<close>

definition demoAuthorization :: RDPAuthorization where
  "demoAuthorization = \<lparr>ra_AccountID = ''alice'', ra_RequestID = ''req-1'', ra_Actor = ''operator'', ra_AccountLeaseID = ''lease-1'',
     ra_SlotLeaseID = ''lease-1-slot'', ra_SlotID = ''pool-1-001'', ra_EnvironmentGeneration = 3\<rparr>"

definition demoMaterial :: RDPMaterial where
  "demoMaterial = \<lparr>rm_host = ''10.0.0.5'', rm_port = 3389, rm_username = ''slot'', rm_password = ''secret'', rm_domain = [],
     rm_allowUntrustedCertificate = False\<rparr>"

lemma demo_issue:
  "Issue (\<lambda>_ _. Inr demoMaterial) LiveContext demoAuthorization 5 0 (Inr (replicate 32 (CHR ''x''))) kempty =
     (Inr (issuedCapability demoAuthorization 5 0 (replicate 32 (CHR ''x''))),
      kput (rdpDigest (EncodeToString (replicate 32 (CHR ''x''))))
        (entryOf demoAuthorization demoMaterial (issuedCapability demoAuthorization 5 0 (replicate 32 (CHR ''x'')))) kempty)"
proof -
  have "validateRDPAuthorization demoAuthorization = Inr ()"
    by (simp add: validateRDPAuthorization_def demoAuthorization_def ContainsAny_def go_simps)
  moreover have "rm_host demoMaterial \<noteq> []" "rm_password demoMaterial \<noteq> []" by (simp_all add: demoMaterial_def)
  ultimately show ?thesis unfolding Issue_iff by (simp add: MaxRDPLease_def second_def)
qed

theorem resolve_authorized_witness:
  "\<exists>cap s'. resolve LiveContext cap demoAuthorization 100 True
       (rdpRun [IssueCall (\<lambda>_ _. Inr demoMaterial) LiveContext demoAuthorization 5 0 (Inr (replicate 32 (CHR ''x'')))]) = (Inr demoMaterial, s') \<and>
     cap_RequestID cap = ra_RequestID demoAuthorization"
proof -
  let ?raw = "replicate 32 (CHR ''x'')"
  let ?c = "issuedCapability demoAuthorization 5 0 ?raw"
  let ?s = "snd (Issue (\<lambda>_ _. Inr demoMaterial) LiveContext demoAuthorization 5 0 (Inr ?raw) kempty)"
  have exp: "(100::gotime) < cap_ExpiresAt ?c"
  proof -
    have "Add 5 DefaultRDPLease = 5 + DefaultRDPLease"
      by (rule Add_clock) (simp_all add: clockTime_def DefaultRDPLease_def second_def)
    then show ?thesis by (simp add: DefaultRDPLease_def second_def)
  qed
  have "Issue (\<lambda>_ _. Inr demoMaterial) LiveContext demoAuthorization 5 0 (Inr ?raw) kempty = (Inr ?c, ?s)"
    unfolding demo_issue by simp
  from Issue_resolves(1) [OF this HOL.refl HOL.refl _ _ exp HOL.refl]
  have b: "ResolveBound LiveContext ?c demoAuthorization 100 ?s = (Inr demoMaterial, ?s)" by simp
  have v: "validateRDPAuthorization demoAuthorization = Inr ()"
    by (simp add: validateRDPAuthorization_def demoAuthorization_def ContainsAny_def go_simps)
  have run: "rdpRun [IssueCall (\<lambda>_ _. Inr demoMaterial) LiveContext demoAuthorization 5 0 (Inr ?raw)] = ?s"
    by (simp add: rdpRun_def)
  have r: "resolve LiveContext ?c demoAuthorization 100 True
      (rdpRun [IssueCall (\<lambda>_ _. Inr demoMaterial) LiveContext demoAuthorization 5 0 (Inr ?raw)]) = (Inr demoMaterial, ?s)"
    unfolding run using b v by (simp add: ResolveBound_def)
  from resolve_authorized [OF this] r show ?thesis by auto
qed

end
