(* ===== verification/CredentialProps.thy ===== *)
theory CredentialProps
  imports CredentialFacts RdpProps
begin

text \<open>
  The store as the backend of the credential service: the invariant of its tables, the runs of
  mutations, and what they and the service guarantee.
\<close>

section \<open>The tables\<close>

definition cred_inv :: "cdb \<Rightarrow> bool" where
  "cred_inv d \<longleftrightarrow>
     (\<forall>a raw. kget (cd_credentials d) a = Some raw \<longrightarrow>
        (\<exists>r. raw = Json r \<and> CredentialRecord_Validate r = Inr () \<and> cr_AccountID r = a)) \<and>
     (\<forall>a i raw. kget (accountAudits a d) i = Some raw \<longrightarrow>
        (\<exists>x. raw = Json x \<and> CredentialAudit_Validate x = Inr () \<and> ca_AccountID x = a \<and> ca_AuditID x = i))"

lemma cred_inv_empty [simp]: "cred_inv emptyCDB"
  by (simp add: cred_inv_def emptyCDB_def accountAudits_def)

lemma credentialAuditsEqual_iff [simp]: "credentialAuditsEqual l r \<longleftrightarrow> l = r"
  by (cases l; cases r) (simp add: credentialAuditsEqual_def)

lemma credentialRecordsEqual_iff [simp]: "credentialRecordsEqual l r \<longleftrightarrow> l = r"
  by (cases l; cases r) (auto simp: credentialRecordsEqual_def split: option.splits)

lemma valid_identifier_trim: "validateIdentifier a \<Longrightarrow> TrimSpace a \<noteq> []"
  by (auto simp: validateIdentifier_def)

lemma valid_record_account: "CredentialRecord_Validate r = Inr () \<Longrightarrow> validateIdentifier (cr_AccountID r)"
  by (auto simp: CredentialRecord_Validate_def split: if_splits)

lemma GetCredential_found:
  assumes "cred_inv d"
  shows "GetCredential a d = Inr (r, True) \<longleftrightarrow> kget (cd_credentials d) a = Some (Json r)"
proof
  assume "kget (cd_credentials d) a = Some (Json r)"
  moreover from this have "CredentialRecord_Validate r = Inr ()" "cr_AccountID r = a" using assms unfolding cred_inv_def by blast+
  moreover from this have "TrimSpace a \<noteq> []" using valid_record_account valid_identifier_trim by blast
  ultimately show "GetCredential a d = Inr (r, True)" by (simp add: GetCredential_def view_def)
qed (auto simp: GetCredential_def view_def split: if_splits option.splits)

section \<open>What a mutation does\<close>

lemma Mutation_valid:
  assumes "CredentialMutation_Validate m = Inr ()"
  shows "validateIdentifier (cm_AccountID m)" "CredentialAudit_Validate (cm_Audit m) = Inr ()" "ca_AccountID (cm_Audit m) = cm_AccountID m"
    "\<And>r. cm_Record m = Some r \<Longrightarrow> CredentialRecord_Validate r = Inr () \<and> cr_AccountID r = cm_AccountID m"
  using assms by (auto simp: CredentialMutation_Validate_def split: if_splits sum.splits option.splits)

lemma applyCredentialTx_cases [consumes 1, case_names known fresh]:
  assumes "applyCredentialTx m d = Inr ((), d')"
  obtains "d' = d" "kget (accountAudits (cm_AccountID m) d) (ca_AuditID (cm_Audit m)) = Some (Json (cm_Audit m))"
      "\<And>r. cm_Record m = Some r \<Longrightarrow> kget (cd_credentials d) (cm_AccountID m) = Some (Json r)"
  | "kget (accountAudits (cm_AccountID m) d) (ca_AuditID (cm_Audit m)) = None"
      "cd_credentials d' = (case cm_Record m of None \<Rightarrow> cd_credentials d | Some r \<Rightarrow> kput (cm_AccountID m) (Json r) (cd_credentials d))"
      "\<And>a. accountAudits a d' = (if a = cm_AccountID m
         then kput (ca_AuditID (cm_Audit m)) (Json (cm_Audit m)) (accountAudits a d) else accountAudits a d)"
      "\<And>r old. cm_Record m = Some r \<Longrightarrow> kget (cd_credentials d) (cm_AccountID m) = Some (Json old) \<Longrightarrow>
         cr_Version old < cr_Version r \<or> (cr_Version old = cr_Version r \<and> cr_RevokedAt old = None \<and>
           (ca_Operation (cm_Audit m) = OperationRevoke \<or> ca_Operation (cm_Audit m) = OperationRevokeForDeletion))"
proof (cases "kget (accountAudits (cm_AccountID m) d) (ca_AuditID (cm_Audit m))")
  case (Some raw)
  with assms show thesis using that(1)
    by (auto simp: applyCredentialTx_def knownMutation_def Let_def split: if_splits option.splits)
next
  case None
  from assms None obtain records where r: "(case cm_Record m of None \<Rightarrow> Inr (cd_credentials d)
      | Some record \<Rightarrow> bindE (checkVersion record (ca_Operation (cm_Audit m)) (kget (cd_credentials d) (cm_AccountID m)))
          (\<lambda>_. Inr (kput (cm_AccountID m) (Json record) (cd_credentials d)))) = Inr records"
      and d': "d' = d\<lparr>cd_credentials := records, cd_audits := kput (cm_AccountID m)
        (kput (ca_AuditID (cm_Audit m)) (Json (cm_Audit m)) (accountAudits (cm_AccountID m) d)) (cd_audits d)\<rparr>"
    by (auto simp: applyCredentialTx_def Let_def split: if_splits)
  have "cd_credentials d' = (case cm_Record m of None \<Rightarrow> cd_credentials d | Some r \<Rightarrow> kput (cm_AccountID m) (Json r) (cd_credentials d))"
    using r d' by (auto split: option.splits)
  moreover have "cr_Version old < cr_Version rec \<or> (cr_Version old = cr_Version rec \<and> cr_RevokedAt old = None \<and>
      (ca_Operation (cm_Audit m) = OperationRevoke \<or> ca_Operation (cm_Audit m) = OperationRevokeForDeletion))"
    if "cm_Record m = Some rec" "kget (cd_credentials d) (cm_AccountID m) = Some (Json old)" for rec old
    using r that by (auto simp: checkVersion_def split: if_splits)
  ultimately show thesis using that(2) [OF None] by (simp add: d' accountAudits_def)
qed

lemma ApplyCredentialMutation_Inr:
  "ApplyCredentialMutation c m d = (Inr (), d') \<longleftrightarrow>
     CredentialMutation_Validate m = Inr () \<and> applyCredentialTx m d = Inr ((), d') \<and> c d' = None"
  by (auto simp: ApplyCredentialMutation_def update_Inr split: sum.splits)

lemma ApplyCredentialMutation_Inl: "ApplyCredentialMutation c m d = (Inl e, d') \<Longrightarrow> d' = d"
  by (auto simp: ApplyCredentialMutation_def dest: update_Inl split: sum.splits)

lemma ApplyCredentialMutation_inv:
  assumes "ApplyCredentialMutation c m d = (Inr (), d')" "cred_inv d"
  shows "cred_inv d'"
proof -
  have v: "CredentialMutation_Validate m = Inr ()" and tx: "applyCredentialTx m d = Inr ((), d')"
    using assms(1) by (simp_all add: ApplyCredentialMutation_Inr)
  note m = Mutation_valid [OF v]
  from tx show ?thesis
  proof (cases rule: applyCredentialTx_cases)
    case fresh
    show ?thesis
      unfolding cred_inv_def
    proof (intro conjI allI impI)
      fix a raw
      assume "kget (cd_credentials d') a = Some raw"
      then show "\<exists>r. raw = Json r \<and> CredentialRecord_Validate r = Inr () \<and> cr_AccountID r = a"
        using assms(2) m(4) unfolding fresh(2) cred_inv_def by (auto split: option.splits if_splits)
    next
      fix a i raw
      assume "kget (accountAudits a d') i = Some raw"
      then show "\<exists>x. raw = Json x \<and> CredentialAudit_Validate x = Inr () \<and> ca_AccountID x = a \<and> ca_AuditID x = i"
        using assms(2) m(2,3) unfolding fresh(3) cred_inv_def by (auto split: if_splits)
    qed
  qed (use assms(2) in simp)
qed

lemma ApplyCredentialMutation_get:
  assumes "ApplyCredentialMutation c m d = (Inr (), d')" "cred_inv d"
  shows "a \<noteq> cm_AccountID m \<Longrightarrow> GetCredential a d' = GetCredential a d"
    and "GetCredential (cm_AccountID m) d' =
      (case cm_Record m of None \<Rightarrow> GetCredential (cm_AccountID m) d | Some r \<Rightarrow> Inr (r, True))"
proof -
  have tx: "applyCredentialTx m d = Inr ((), d')" using assms(1) by (simp add: ApplyCredentialMutation_Inr)
  have other: "kget (cd_credentials d') b = kget (cd_credentials d) b" if "b \<noteq> cm_AccountID m \<or> cm_Record m = None" for b
    using tx that by (cases rule: applyCredentialTx_cases) (auto split: option.splits)
  have same: "GetCredential b d' = GetCredential b d" if "kget (cd_credentials d') b = kget (cd_credentials d) b" for b
    using that by (simp add: GetCredential_def view_def)
  show "a \<noteq> cm_AccountID m \<Longrightarrow> GetCredential a d' = GetCredential a d" using other same by blast
  have "kget (cd_credentials d') (cm_AccountID m) = Some (Json r)" if "cm_Record m = Some r" for r
    using tx that by (cases rule: applyCredentialTx_cases) auto
  then show "GetCredential (cm_AccountID m) d' =
      (case cm_Record m of None \<Rightarrow> GetCredential (cm_AccountID m) d | Some r \<Rightarrow> Inr (r, True))"
    using GetCredential_found [OF ApplyCredentialMutation_inv [OF assms]] other same by (auto split: option.splits)
qed

lemma storeBackend_sel [simp]:
  "bk_GetCredential (storeBackend c) = GetCredential" "bk_ApplyCredentialMutation (storeBackend c) = ApplyCredentialMutation c"
  "bk_ListCredentialAudits (storeBackend c) = ListCredentialAudits"
  by (simp_all add: storeBackend_def)

interpretation kept: credential_backend "storeBackend c" cred_inv for c
proof
  fix w a r
  assume "cred_inv w" "bk_GetCredential (storeBackend c) a w = Inr (r, True)"
  then show "CredentialRecord_Validate r = Inr () \<and> cr_AccountID r = a"
    using GetCredential_found [of w a r] unfolding cred_inv_def by auto
next
  fix w m w'
  assume "cred_inv w" "bk_ApplyCredentialMutation (storeBackend c) m w = (Inr (), w')"
  then show "cred_inv w' \<and>
      (\<forall>a. a \<noteq> cm_AccountID m \<longrightarrow> bk_GetCredential (storeBackend c) a w' = bk_GetCredential (storeBackend c) a w) \<and>
      bk_GetCredential (storeBackend c) (cm_AccountID m) w' = (case cm_Record m of
         None \<Rightarrow> bk_GetCredential (storeBackend c) (cm_AccountID m) w | Some r \<Rightarrow> Inr (r, True))"
    using ApplyCredentialMutation_inv ApplyCredentialMutation_get by (auto split: option.splits)
next
  fix m w e w'
  assume "bk_ApplyCredentialMutation (storeBackend c) m w = (Inl e, w')"
  then show "w' = w" using ApplyCredentialMutation_Inl by simp
qed

section \<open>Runs\<close>

text \<open>
  Mutations as the service writes them, from whatever record it read before, and any change of the
  other tables. A call of the service writes at most one such mutation (\<open>Put_writes\<close>,
  \<open>Rotate_writes\<close>, \<open>Use_writes\<close>, \<open>Revoke_writes\<close>, \<open>RevokeForDeletion_writes\<close>).
\<close>

inductive credStep :: "cdb \<Rightarrow> cdb \<Rightarrow> bool" where
  mutation: "serviceMutation m \<Longrightarrow> ApplyCredentialMutation c m d = (x, d') \<Longrightarrow> credStep d d'"
| other_tables: "credStep d (d\<lparr>cd_db := e\<rparr>)"

abbreviation credRun :: "cdb \<Rightarrow> cdb \<Rightarrow> bool" where
  "credRun \<equiv> credStep\<^sup>*\<^sup>*"

definition credKept :: "cdb \<Rightarrow> cdb \<Rightarrow> bool" where
  "credKept d d' \<longleftrightarrow>
     (\<forall>a r. kget (cd_credentials d) a = Some (Json r) \<longrightarrow>
        (\<exists>r'. kget (cd_credentials d') a = Some (Json r') \<and>
           (r' = r \<or> cr_Version r < cr_Version r' \<or> cr_Version r' = cr_Version r \<and> cr_RevokedAt r = None \<and> cr_RevokedAt r' \<noteq> None))) \<and>
     (\<forall>a i x. kget (accountAudits a d) i = Some x \<longrightarrow> kget (accountAudits a d') i = Some x)"

lemma credKept_refl [simp]: "credKept d d"
  by (simp add: credKept_def)

lemma credKept_trans:
  assumes "credKept d e" "credKept e f"
  shows "credKept d f"
proof -
  have "\<exists>t. kget (cd_credentials f) a = Some (Json t) \<and>
      (t = r \<or> cr_Version r < cr_Version t \<or> cr_Version t = cr_Version r \<and> cr_RevokedAt r = None \<and> cr_RevokedAt t \<noteq> None)"
    if r: "kget (cd_credentials d) a = Some (Json r)" for a r
  proof -
    obtain s where s: "kget (cd_credentials e) a = Some (Json s)"
        "s = r \<or> cr_Version r < cr_Version s \<or> cr_Version s = cr_Version r \<and> cr_RevokedAt r = None \<and> cr_RevokedAt s \<noteq> None"
      using assms(1) r unfolding credKept_def by blast
    obtain t where t: "kget (cd_credentials f) a = Some (Json t)"
        "t = s \<or> cr_Version s < cr_Version t \<or> cr_Version t = cr_Version s \<and> cr_RevokedAt s = None \<and> cr_RevokedAt t \<noteq> None"
      using assms(2) s(1) unfolding credKept_def by blast
    then show ?thesis using s(2) by auto
  qed
  then show ?thesis using assms unfolding credKept_def by simp
qed

lemma mutation_kept:
  assumes "serviceMutation m" "ApplyCredentialMutation c m d = (Inr (), d')"
  shows "credKept d d'"
proof -
  have "applyCredentialTx m d = Inr ((), d')" using assms(2) by (simp add: ApplyCredentialMutation_Inr)
  then show ?thesis
  proof (cases rule: applyCredentialTx_cases)
    case fresh
    have "\<exists>r'. kget (cd_credentials d') a = Some (Json r') \<and>
        (r' = r \<or> cr_Version r < cr_Version r' \<or> cr_Version r' = cr_Version r \<and> cr_RevokedAt r = None \<and> cr_RevokedAt r' \<noteq> None)"
      if r: "kget (cd_credentials d) a = Some (Json r)" for a r
    proof (cases "cm_Record m")
      case (Some t)
      show ?thesis
      proof (cases "a = cm_AccountID m")
        case True
        then have "cr_Version r < cr_Version t \<or> cr_Version r = cr_Version t \<and> cr_RevokedAt r = None \<and> cr_RevokedAt t \<noteq> None"
          using fresh(4) [OF Some] r assms(1) Some by (auto simp: serviceMutation_def)
        then show ?thesis using fresh(2) Some True by auto
      qed (use fresh(2) Some r in simp)
    qed (use fresh(2) r in simp)
    then show ?thesis using fresh(1,3) unfolding credKept_def by auto
  qed simp
qed

lemma credStep_kept:
  assumes "credStep d d'" "cred_inv d"
  shows "credKept d d' \<and> cred_inv d'"
  using assms(1)
proof (cases rule: credStep.cases)
  case (mutation m c x)
  show ?thesis
  proof (cases x)
    case (Inl e)
    then have "d' = d" using mutation(2) ApplyCredentialMutation_Inl by blast
    then show ?thesis using assms(2) by simp
  next
    case (Inr u)
    then have "ApplyCredentialMutation c m d = (Inr (), d')" using mutation(2) by simp
    then show ?thesis using mutation_kept [OF mutation(1)] ApplyCredentialMutation_inv assms(2) by blast
  qed
qed (use assms(2) in \<open>auto simp: credKept_def cred_inv_def accountAudits_def\<close>)

lemma credRun_kept: "credRun d d' \<Longrightarrow> cred_inv d \<Longrightarrow> credKept d d' \<and> cred_inv d'"
  by (induction rule: rtranclp_induct) (use credStep_kept credKept_trans in auto)

lemma credRun_inv: "credRun emptyCDB d \<Longrightarrow> cred_inv d"
  using credRun_kept cred_inv_empty by blast

text \<open>The list of the audits of an account is all that is stored, in the order of time.\<close>

lemma ListCredentialAudits_all:
  assumes "cred_inv d" "TrimSpace a \<noteq> []"
  shows "\<exists>xs. ListCredentialAudits a d = Inr xs \<and> set xs = {x. kget (accountAudits a d) (ca_AuditID x) = Some (Json x)} \<and>
    sorted (map (\<lambda>x. (ca_OccurredAt x, ca_AuditID x)) xs)"
proof -
  let ?f = "\<lambda>p acc. bindE (decode (snd p)) (\<lambda>audit.
          if CredentialAudit_Validate audit \<noteq> Inr () \<or> ca_AccountID audit \<noteq> a then Inl (StoreErr ErrCorruptData)
          else Inr (acc @ [audit]))"
  have ok: "\<exists>x. raw = Json x \<and> CredentialAudit_Validate x = Inr () \<and> ca_AccountID x = a \<and> ca_AuditID x = i"
    if "(i, raw) \<in> set (kentries (accountAudits a d))" for i raw
    using assms(1) that unfolding cred_inv_def kentries_iff by blast
  have fold: "foldE ?f es acc = Inr (acc @ map (\<lambda>p. case snd p of Json x \<Rightarrow> x) es)"
    if "\<And>i raw. (i, raw) \<in> set es \<Longrightarrow> \<exists>x. raw = Json x \<and> CredentialAudit_Validate x = Inr () \<and> ca_AccountID x = a \<and> ca_AuditID x = i"
    for es acc
    using that
  proof (induction es arbitrary: acc)
    case (Cons e es)
    obtain x where x: "snd e = Json x" "CredentialAudit_Validate x = Inr ()" "ca_AccountID x = a" using Cons.prems [of "fst e" "snd e"] by auto
    have "foldE ?f es (acc @ [x]) = Inr ((acc @ [x]) @ map (\<lambda>p. case snd p of Json x \<Rightarrow> x) es)"
      by (rule Cons.IH) (use Cons.prems in auto)
    then show ?case using x by simp
  qed simp
  let ?xs = "map (\<lambda>p. case snd p of Json x \<Rightarrow> x) (kentries (accountAudits a d))"
  have "set ?xs = {x. kget (accountAudits a d) (ca_AuditID x) = Some (Json x)}"
  proof (intro set_eqI iffI)
    fix x
    assume "x \<in> set ?xs"
    then obtain i raw where m: "(i, raw) \<in> set (kentries (accountAudits a d))" "x = (case raw of Json x \<Rightarrow> x)" by auto
    then show "x \<in> {x. kget (accountAudits a d) (ca_AuditID x) = Some (Json x)}" using ok [OF m(1)] by (auto simp: kentries_iff)
  next
    fix x
    assume "x \<in> {x. kget (accountAudits a d) (ca_AuditID x) = Some (Json x)}"
    then have "(ca_AuditID x, Json x) \<in> set (kentries (accountAudits a d))" by (simp add: kentries_iff)
    then show "x \<in> set ?xs" by force
  qed
  moreover have "ListCredentialAudits a d = Inr (sort_key (\<lambda>a. (ca_OccurredAt a, ca_AuditID a)) ?xs)"
  proof -
    have "foldE ?f (kentries (accountAudits a d)) [] = Inr ([] @ ?xs)" by (rule fold) (rule ok)
    then show ?thesis using assms(2) by (simp only: ListCredentialAudits_def view_def if_False bindE_simps append_Nil)
  qed
  ultimately show ?thesis
    by (intro exI [of _ "sort_key (\<lambda>a. (ca_OccurredAt a, ca_AuditID a)) ?xs"] conjI) (simp_all only: set_sort sorted_sort_key)
qed

section \<open>What holds of the service\<close>

text \<open>
  C27. Along every interleaving of calls of the credential service the record of an account is only
  replaced by one of a later version, or, once, by its own revocation; so a revoked record, whose
  nonce and ciphertext are wiped, stays as it is until a new version is stored. The audit trail only
  grows, and the list of it holds every audit of the account in the order of time.
\<close>

theorem credential_records_forward:
  assumes "credRun emptyCDB d" "credRun d d'" "GetCredential a d = Inr (r, True)"
  shows "(\<exists>r'. GetCredential a d' = Inr (r', True) \<and>
      (r' = r \<or> cr_Version r < cr_Version r' \<or>
       cr_Version r' = cr_Version r \<and> cr_RevokedAt r = None \<and> cr_RevokedAt r' \<noteq> None)) \<and>
    (cr_RevokedAt r \<noteq> None \<longrightarrow> cr_Nonce r = [] \<and> cr_Ciphertext r = []) \<and>
    (\<exists>xs ys. ListCredentialAudits a d = Inr xs \<and> ListCredentialAudits a d' = Inr ys \<and> set xs \<subseteq> set ys \<and>
       sorted (map (\<lambda>x. (ca_OccurredAt x, ca_AuditID x)) ys))"
proof -
  have inv: "cred_inv d" using assms(1) by (rule credRun_inv)
  note k = credRun_kept [OF assms(2) inv]
  have r: "kget (cd_credentials d) a = Some (Json r)" using assms(3) GetCredential_found [OF inv] by simp
  then have v: "CredentialRecord_Validate r = Inr ()" "cr_AccountID r = a" using inv unfolding cred_inv_def by blast+
  then have a: "TrimSpace a \<noteq> []" using valid_record_account valid_identifier_trim by blast
  have "\<exists>r'. GetCredential a d' = Inr (r', True) \<and>
      (r' = r \<or> cr_Version r < cr_Version r' \<or>
       cr_Version r' = cr_Version r \<and> cr_RevokedAt r = None \<and> cr_RevokedAt r' \<noteq> None)"
    using k r GetCredential_found [of d' a] unfolding credKept_def by blast
  moreover have "cr_RevokedAt r \<noteq> None \<longrightarrow> cr_Nonce r = [] \<and> cr_Ciphertext r = []"
    using v(1) by (auto simp: CredentialRecord_Validate_def split: if_splits)
  moreover obtain xs where xs: "ListCredentialAudits a d = Inr xs" "set xs = {x. kget (accountAudits a d) (ca_AuditID x) = Some (Json x)}"
    using ListCredentialAudits_all [OF inv a] by blast
  moreover obtain ys where ys: "ListCredentialAudits a d' = Inr ys" "set ys = {x. kget (accountAudits a d') (ca_AuditID x) = Some (Json x)}"
      "sorted (map (\<lambda>x. (ca_OccurredAt x, ca_AuditID x)) ys)"
    using ListCredentialAudits_all [OF conjunct2 [OF k] a] by blast
  moreover have "set xs \<subseteq> set ys" using k unfolding xs(2) ys(2) credKept_def by blast
  ultimately show ?thesis by blast
qed

text \<open>
  C12. The service implements a map from accounts to secrets, on every database that its mutations can
  reach: \<open>Put\<close> sets the secret of one account, \<open>RotateKey\<close> changes none, \<open>Use\<close> changes none and
  gives its callback exactly the secret of the account, and a revocation removes the secret, the one
  for a deletion only when the sessions were stopped. The keyring finds the key it encrypts with,
  the random source fills the nonce, and stopping the sessions of an account may run the service too.
\<close>

theorem credential_service_refines_map:
  fixes s :: "cdb CredentialService"
  assumes "credRun emptyCDB d" "cs_backend s = storeBackend c" "keepsCurrent (cs_keys s)" "fullNonce rd"
    and "\<forall>invalidate ctx a at w x w1. cs_invalidator s = Some invalidate \<and> invalidate ctx a at w = (x, w1) \<longrightarrow> credRun w w1"
    and sec: "sec = secret (storeBackend c) (cs_keys s)"
  shows "(\<forall>md d'. Credential_Put s ctx rd a p actor at d = (Inr md, d') \<longrightarrow> sec d' = (sec d)(a := Some p)) \<and>
    (\<forall>md d'. Credential_RotateKey s ctx rd a actor at d = (Inr md, d') \<longrightarrow> sec d' = sec d) \<and>
    (\<forall>f res d'. Credential_Use s ctx later rd a actor at (Some f) d = (res, d') \<longrightarrow>
       (\<exists>d1. sec d1 = sec d \<and> ((\<exists>e. res = Inl e) \<and> d' = d1 \<or> (\<exists>q. sec d a = Some q \<and> f q d1 = (res, d'))))) \<and>
    (\<forall>d'. Credential_Revoke s ctx rd a actor at d = (Inr (), d') \<longrightarrow> sec d' a = None) \<and>
    (\<forall>d'. Credential_RevokeForDeletion s ctx rd a deletionID actor stopped at d = (Inr (), d') \<longrightarrow> stopped \<and> sec d' a = None)"
proof (intro conjI allI impI)
  have inv: "cred_inv d" using assms(1) by (rule credRun_inv)
  show "sec d' = (sec d)(a := Some p)" if "Credential_Put s ctx rd a p actor at d = (Inr md, d')" for md d'
    using kept.Put_secret [OF that assms(2) inv assms(3,4)] sec by simp
  show "sec d' = sec d" if "Credential_RotateKey s ctx rd a actor at d = (Inr md, d')" for md d'
    using kept.Rotate_secret [OF that assms(2) inv assms(3,4)] sec by simp
  show "\<exists>d1. sec d1 = sec d \<and> ((\<exists>e. res = Inl e) \<and> d' = d1 \<or> (\<exists>q. sec d a = Some q \<and> f q d1 = (res, d')))"
    if "Credential_Use s ctx later rd a actor at (Some f) d = (res, d')" for f res d'
    using kept.Use_secret [OF that assms(2) inv] unfolding sec by blast
  show "sec d' a = None" if r: "Credential_Revoke s ctx rd a actor at d = (Inr (), d')" for d'
  proof -
    have "\<forall>i w x w1. cs_invalidator s = Some i \<and> cred_inv w \<and> i ctx a at w = (x, w1) \<longrightarrow> cred_inv w1"
      using assms(5) credRun_kept by blast
    from kept.Revoke_secret [where keys = "cs_keys s", OF r assms(2) inv this] show ?thesis using sec by simp
  qed
  fix d'
  assume "Credential_RevokeForDeletion s ctx rd a deletionID actor stopped at d = (Inr (), d')"
  from kept.RevokeForDeletion_secret [OF this assms(2) inv] show "stopped" "sec d' a = None" using sec by auto
qed

section \<open>Static keyrings and a concrete run\<close>

definition ownKeys :: "(string, Key) kmap \<Rightarrow> bool" where
  "ownKeys keys \<longleftrightarrow> (\<forall>i key. kget keys i = Some key \<longrightarrow> key_id key = i \<and> Key_validate key = Inr ())"

lemma ownKeys_kput: "ownKeys keys \<Longrightarrow> Key_validate key = Inr () \<Longrightarrow> ownKeys (kput (key_id key) key keys)"
  by (auto simp: ownKeys_def)

lemma ownKeys_addKeys: "addKeys hs keys = Inr keys' \<Longrightarrow> ownKeys keys \<Longrightarrow> ownKeys keys'"
proof (induction hs arbitrary: keys)
  case (Cons h hs)
  then show ?case using ownKeys_kput by (cases "Key_validate h") auto
qed simp

lemma ownKeys_rings:
  "NewStaticKeyring current historical = Inr k \<Longrightarrow> ownKeys (ks_keys k)"
  "ownKeys (ks_keys k) \<Longrightarrow> ownKeys (ks_keys (snd (StaticKeyring_Add key k)))"
  "ownKeys (ks_keys k) \<Longrightarrow> ownKeys (ks_keys (snd (StaticKeyring_SetCurrent key k)))"
proof -
  have "ownKeys kempty" by (simp add: ownKeys_def)
  then show "NewStaticKeyring current historical = Inr k \<Longrightarrow> ownKeys (ks_keys k)"
    by (cases "Key_validate current") (auto simp: NewStaticKeyring_def dest: ownKeys_addKeys ownKeys_kput)
  show "ownKeys (ks_keys k) \<Longrightarrow> ownKeys (ks_keys (snd (StaticKeyring_Add key k)))"
      "ownKeys (ks_keys k) \<Longrightarrow> ownKeys (ks_keys (snd (StaticKeyring_SetCurrent key k)))"
    by (cases "Key_validate key"; simp add: StaticKeyring_Add_def StaticKeyring_SetCurrent_def ownKeys_kput)+
qed

text \<open>Such a keyring finds the key it encrypts with, whatever was added or made current.\<close>

lemma staticKeys_keepsCurrent:
  assumes "ownKeys (ks_keys k)"
  shows "keepsCurrent (staticKeys k)"
  unfolding keepsCurrent_def
proof (intro allI impI)
  fix key
  assume "kr_Current (staticKeys k) LiveContext = Inr key"
  then have g: "kget (ks_keys k) (ks_current k) = Some key"
    by (simp add: staticKeys_def StaticKeyring_Current_def checkContext_def split: option.splits)
  then have key: "key_id key = ks_current k" "Key_validate key = Inr ()" using assms unfolding ownKeys_def by blast+
  then have "TrimSpace (key_id key) \<noteq> []" by (auto simp: Key_validate_def dest: valid_identifier_trim split: if_splits)
  then show "kr_Lookup (staticKeys k) LiveContext (key_id key) = Inr key"
    using g key(1) by (simp add: staticKeys_def StaticKeyring_Lookup_def checkContext_def)
qed

definition demoCredentialKey :: Key where
  "demoCredentialKey = \<lparr>key_id = ''key-1'', key_material = replicate 32 (CHR ''k'')\<rparr>"

definition demoRing :: StaticKeyring where
  "demoRing = \<lparr>ks_keys = kput ''key-1'' demoCredentialKey kempty, ks_current = ''key-1''\<rparr>"

definition demoCredentials :: "cdb CredentialService" where
  "demoCredentials = \<lparr>cs_backend = storeBackend (\<lambda>_. None), cs_keys = staticKeys demoRing, cs_invalidator = None\<rparr>"

definition demoCredentialRandom :: CredentialRandom where
  "demoCredentialRandom = \<lparr>rd_nonce = Inr (replicate 12 (CHR ''n'')), rd_audit = Inr (replicate 16 (CHR ''r''))\<rparr>"

definition demoTables :: cdb where
  "demoTables = emptyCDB\<lparr>cd_db := emptyDB\<lparr>db_accounts := kput ''alice'' Garbage kempty\<rparr>\<rparr>"

lemma demoKey_valid: "Key_validate demoCredentialKey = Inr ()"
  by (simp add: Key_validate_def validateIdentifier_def validMaterial_def demoCredentialKey_def ContainsAny_def go_simps)

lemma demo_identifiers: "validateIdentifier ''alice''" "validateIdentifier ''admin''" "validateIdentifier ''key-1''"
    "validateIdentifier (EncodeToString (replicate 16 (CHR ''r'')))"
proof -
  let ?h = "EncodeToString (replicate 16 (CHR ''r''))"
  have "TrimSpace ?h = ?h \<and> ?h \<noteq> []" by (rule hex_trimmed) simp
  moreover have "\<not> ContainsAny ?h crlf"
    using EncodeToString_hex [of "replicate 16 (CHR ''r'')"] by (auto simp: ContainsAny_def list_all_iff list_ex_iff hexChar_def Let_def)
  ultimately show "validateIdentifier ?h" by (simp add: validateIdentifier_def)
qed (simp_all add: validateIdentifier_def ContainsAny_def go_simps)

lemma demo_put: "\<exists>md d'. Credential_Put demoCredentials LiveContext demoCredentialRandom ''alice'' ''token'' ''admin'' 7 demoTables = (Inr md, d')"
proof -
  have k: "currentKey demoCredentials LiveContext = Inr demoCredentialKey"
    unfolding currentKey_ok using demoKey_valid
    by (simp add: demoCredentials_def staticKeys_def StaticKeyring_Current_def checkContext_def demoRing_def)
  obtain n ci where seal: "seal demoCredentialKey ''alice'' 1 ''token'' (rd_nonce demoCredentialRandom) = Inr (n, ci)" "length n = 12" "length ci = 21"
    by (simp add: seal_def demoCredentialKey_def demoCredentialRandom_def validMaterial_def)
  define audit where "audit = \<lparr>ca_AuditID = EncodeToString (replicate 16 (CHR ''r'')), ca_AccountID = ''alice'', ca_DeletionID = [],
     ca_Operation = OperationStore, ca_Actor = ''admin'', ca_Version = 1, ca_KeyID = ''key-1'', ca_OccurredAt = (7::gotime)\<rparr>"
  have audit: "CredentialAudit_Validate audit = Inr ()"
    by (simp add: CredentialAudit_Validate_def audit_def demo_identifiers)
  then have new: "newAudit (rd_audit demoCredentialRandom) ''alice'' OperationStore ''admin'' 1 ''key-1'' 7 = Inr audit"
    by (simp add: newAudit_def demoCredentialRandom_def Let_def audit_def)
  define r where "r = \<lparr>cr_AccountID = ''alice'', cr_Version = 1, cr_KeyID = ''key-1'', cr_Nonce = n, cr_Ciphertext = ci,
     cr_CreatedAt = (7::gotime), cr_UpdatedAt = 7, cr_RevokedAt = None\<rparr>"
  have put: "putRecord demoCredentialKey demoCredentialRandom ''alice'' ''token'' ''admin'' 7 (zeroCredential, False) = Inr (r, audit)"
  proof -
    have "key_id demoCredentialKey = ''key-1''" by (simp add: demoCredentialKey_def)
    then show ?thesis using seal(1) new by (simp add: putRecord_def r_def)
  qed
  have valid: "CredentialRecord_Validate r = Inr ()"
    using seal(2,3) by (simp add: CredentialRecord_Validate_def r_def demo_identifiers MaxPayloadSize_def)
  have get: "GetCredential ''alice'' demoTables = Inr (zeroCredential, False)"
    using valid_identifier_trim [OF demo_identifiers(1)] by (simp add: GetCredential_def view_def demoTables_def emptyCDB_def)
  let ?m = "\<lparr>cm_AccountID = ''alice'', cm_Record = Some r, cm_Audit = audit\<rparr>"
  have "CredentialMutation_Validate ?m = Inr ()"
    using valid audit demo_identifiers(1) by (simp add: CredentialMutation_Validate_def audit_def r_def)
  moreover have "\<exists>d'. applyCredentialTx ?m demoTables = Inr ((), d')"
    by (simp add: applyCredentialTx_def demoTables_def emptyCDB_def accountAudits_def checkVersion_def Let_def)
  ultimately have "\<exists>d'. ApplyCredentialMutation (\<lambda>_. None) ?m demoTables = (Inr (), d')"
    by (auto simp: ApplyCredentialMutation_Inr)
  moreover have "bk_GetCredential (cs_backend demoCredentials) = GetCredential"
      "bk_ApplyCredentialMutation (cs_backend demoCredentials) = ApplyCredentialMutation (\<lambda>_. None)"
    by (simp_all add: demoCredentials_def)
  moreover have "validateCall LiveContext ''alice'' ''admin'' 7 = Inr ()" by (simp add: validateCall_ok demo_identifiers)
  ultimately show ?thesis
    using k put get by (auto simp: Credential_Put_def MaxPayloadSize_def applyMutation_def)
qed

lemma demo_credentials:
  "credRun emptyCDB demoTables" "keepsCurrent (cs_keys demoCredentials)" "fullNonce demoCredentialRandom" "cs_backend demoCredentials = storeBackend (\<lambda>_. None)"
proof -
  show "credRun emptyCDB demoTables"
    unfolding demoTables_def by (rule r_into_rtranclp) (rule credStep.other_tables)
  have "ownKeys (ks_keys demoRing)" using demoKey_valid by (auto simp: ownKeys_def demoRing_def demoCredentialKey_def)
  then show "keepsCurrent (cs_keys demoCredentials)" by (simp add: demoCredentials_def staticKeys_keepsCurrent)
  show "fullNonce demoCredentialRandom" by (simp add: fullNonce_def demoCredentialRandom_def)
  show "cs_backend demoCredentials = storeBackend (\<lambda>_. None)" by (simp add: demoCredentials_def)
qed

theorem credential_service_refines_map_witness:
  "\<exists>md d'. Credential_Put demoCredentials LiveContext demoCredentialRandom ''alice'' ''token'' ''admin'' 7 demoTables = (Inr md, d') \<and>
     secret (storeBackend (\<lambda>_. None)) (staticKeys demoRing) d' ''alice'' = Some ''token''"
proof -
  obtain md d' where put: "Credential_Put demoCredentials LiveContext demoCredentialRandom ''alice'' ''token'' ''admin'' 7 demoTables = (Inr md, d')"
    using demo_put by blast
  have none: "\<forall>invalidate ctx a at w x w1. cs_invalidator demoCredentials = Some invalidate \<and> invalidate ctx a at w = (x, w1) \<longrightarrow> credRun w w1"
    by (simp add: demoCredentials_def)
  have "cs_keys demoCredentials = staticKeys demoRing" by (simp add: demoCredentials_def)
  moreover from credential_service_refines_map [OF demo_credentials(1,4,2,3) none HOL.refl] put
  have "secret (storeBackend (\<lambda>_. None)) (cs_keys demoCredentials) d' =
      (secret (storeBackend (\<lambda>_. None)) (cs_keys demoCredentials) demoTables)(''alice'' := Some ''token'')" by blast
  ultimately have "secret (storeBackend (\<lambda>_. None)) (staticKeys demoRing) d' ''alice'' = Some ''token''" by (metis fun_upd_same)
  with put show ?thesis by blast
qed

lemma demo_put_run:
  "\<exists>r d'. credRun emptyCDB d' \<and> GetCredential ''alice'' d' = Inr (r, True) \<and> cr_Version r = 1"
proof -
  obtain md d' where put: "Credential_Put demoCredentials LiveContext demoCredentialRandom ''alice'' ''token'' ''admin'' 7 demoTables = (Inr md, d')"
    using demo_put by blast
  have get: "GetCredential ''alice'' demoTables = Inr (zeroCredential, False)"
    using valid_identifier_trim [OF demo_identifiers(1)] by (simp add: GetCredential_def view_def demoTables_def emptyCDB_def)
  from put show ?thesis
  proof (cases rule: Put_cases [of demoCredentials LiveContext demoCredentialRandom "''alice''" "''token''" "''admin''" 7 demoTables])
    case (applied k found r audit)
    let ?m = "\<lparr>cm_AccountID = ''alice'', cm_Record = Some r, cm_Audit = audit\<rparr>"
    have ap: "ApplyCredentialMutation (\<lambda>_. None) ?m demoTables = (Inr (), d')"
      using put applied(8) demo_credentials(4) by (simp add: applyMutation_Inr)
    have f: "found = (zeroCredential, False)" using applied(6) get demo_credentials(4) by simp
    have "serviceMutation ?m" using putRecord_ok [OF applied(7)] serviceMutation_plain by simp
    then have "credRun emptyCDB d'" using demo_credentials(1) credStep.mutation [OF _ ap] by (meson rtranclp.rtrancl_into_rtrancl)
    moreover have "GetCredential ''alice'' d' = Inr (r, True)"
      using ApplyCredentialMutation_get(2) [OF ap credRun_inv [OF demo_credentials(1)]] by simp
    moreover have "cr_Version r = 1" using putRecord_ok [OF applied(7)] f by simp
    ultimately show ?thesis by blast
  qed simp
qed

theorem credential_records_forward_witness:
  "\<exists>r r' d'. GetCredential ''alice'' d' = Inr (r, True) \<and> cr_Version r = 1 \<and> GetCredential ''alice'' (d'\<lparr>cd_db := emptyDB\<rparr>) = Inr (r', True) \<and>
     1 \<le> cr_Version r'"
proof -
  obtain r d' where run: "credRun emptyCDB d'" "GetCredential ''alice'' d' = Inr (r, True)" "cr_Version r = 1"
    using demo_put_run by blast
  have "credRun d' (d'\<lparr>cd_db := emptyDB\<rparr>)" by (rule r_into_rtranclp) (rule credStep.other_tables)
  from credential_records_forward [OF run(1) this run(2)] obtain r' where
      "GetCredential ''alice'' (d'\<lparr>cd_db := emptyDB\<rparr>) = Inr (r', True)" "r' = r \<or> cr_Version r < cr_Version r' \<or> cr_Version r' = cr_Version r"
    by blast
  moreover from this(2) have "1 \<le> cr_Version r'" using run(3) by auto
  ultimately show ?thesis using run(2,3) by blast
qed

end
