(* ===== verification/StoreAudit.thy ===== *)
theory StoreAudit
  imports CredentialStore StoreOutbox Observability
begin

text \<open>
  internal/store/audit.go: the bounded, redacted view of the state events and credential audits of
  all accounts; and matrix_sync.go, the cursor of the Matrix synchronisation.
\<close>

section \<open>Data\<close>

definition StateAudit :: string where
  "StateAudit = ''state''"

definition CredentialAuditKind :: string where
  "CredentialAuditKind = ''credential''"

record AuditQuery =
  aq_AccountID :: string
  aq_RequestID :: string
  aq_Since :: gotime
  aq_Until :: gotime
  aq_Limit :: int

text \<open>The statuses of a credential entry are absent, the empty string.\<close>

record AuditEntry =
  au_Kind :: string
  au_AuditID :: string
  au_At :: gotime
  au_Account :: string
  au_RequestID :: string
  au_Operation :: string
  au_From :: Status
  au_To :: Status
  au_Actor :: string
  au_Version :: uint64
  au_Resource :: string

definition AuditEntry_Validate :: "AuditEntry \<Rightarrow> unit result" where
  "AuditEntry_Validate e =
     (if au_Kind e \<noteq> StateAudit \<and> au_Kind e \<noteq> CredentialAuditKind \<or> TrimSpace (au_AuditID e) = [] \<or> \<not> prefix ''id_'' (au_AuditID e)
         \<or> IsZero (au_At e) \<or> TrimSpace (au_Account e) = [] \<or> \<not> prefix ''id_'' (au_Account e) \<or> TrimSpace (au_Operation e) = []
      then Inl (StoreErr ErrCorruptData)
      else if au_Actor e \<noteq> [] \<and> \<not> prefix ''id_'' (au_Actor e) then Inl (StoreErr ErrCorruptData)
      else if au_Resource e \<noteq> [] \<and> \<not> prefix ''id_'' (au_Resource e) then Inl (StoreErr ErrCorruptData)
      else if au_Kind e = StateAudit
      then (if \<not> Status_Valid (au_From e) \<or> \<not> Status_Valid (au_To e) \<or> au_RequestID e = [] then Inl (StoreErr ErrCorruptData) else Inr ())
      else (if au_Version e = 0 then Inl (StoreErr ErrCorruptData) else Inr ()))"

section \<open>The scan\<close>

definition stateAuditEntry :: "AuditRecord \<Rightarrow> AuditEntry" where
  "stateAuditEntry audit =
     \<lparr>au_Kind = StateAudit, au_AuditID = RedactIdentifier (ev_EventID (ar_Event audit)), au_At = ev_OccurredAt (ar_Event audit),
      au_Account = RedactIdentifier (ev_AccountID (ar_Event audit)), au_RequestID = RedactIdentifier (ev_RequestID (ar_Event audit)),
      au_Operation = ''transition'', au_From = ev_From (ar_Event audit), au_To = ev_To (ar_Event audit),
      au_Actor = RedactIdentifier (ev_Actor (ar_Event audit)), au_Version = 0, au_Resource = []\<rparr>"

definition credentialAuditEntry :: "CredentialAudit \<Rightarrow> AuditEntry" where
  "credentialAuditEntry audit =
     \<lparr>au_Kind = CredentialAuditKind, au_AuditID = RedactIdentifier (ca_AuditID audit), au_At = ca_OccurredAt audit,
      au_Account = RedactIdentifier (ca_AccountID audit), au_RequestID = [], au_Operation = ca_Operation audit,
      au_From = OtherStatus [], au_To = OtherStatus [], au_Actor = RedactIdentifier (ca_Actor audit),
      au_Version = ca_Version audit, au_Resource = RedactIdentifier (ca_KeyID audit)\<rparr>"

definition withinAuditWindow :: "gotime \<Rightarrow> AuditQuery \<Rightarrow> bool" where
  "withinAuditWindow at query \<longleftrightarrow>
     (if \<not> IsZero (aq_Since query) \<and> Before at (aq_Since query) then False
      else if \<not> IsZero (aq_Until query) \<and> After at (aq_Until query) then False
      else True)"

text \<open>\<open>auditEntryLess\<close> orders by time, kind and identifier.\<close>

definition auditKey :: "AuditEntry \<Rightarrow> gotime \<times> string \<times> string" where
  "auditKey e = (au_At e, au_Kind e, au_AuditID e)"

definition trimAuditEntries :: "AuditEntry list \<Rightarrow> nat \<Rightarrow> AuditEntry list" where
  "trimAuditEntries result limit = (if length result \<le> limit then result else take limit (sort_key auditKey result))"

definition appendBoundedAuditEntry :: "AuditEntry list \<Rightarrow> AuditEntry \<Rightarrow> nat \<Rightarrow> AuditEntry list" where
  "appendBoundedAuditEntry result entry limit = trimAuditEntries (result @ [entry]) limit"

definition appendStateAudit :: "AuditEntry list \<Rightarrow> AuditRecord \<Rightarrow> AuditEntry list result" where
  "appendStateAudit result audit =
     bindE (corrupt (AuditEntry_Validate (stateAuditEntry audit))) (\<lambda>_. Inr (result @ [stateAuditEntry audit]))"

definition scanStateAudit :: "AuditQuery \<Rightarrow> nat \<Rightarrow> string \<times> AuditRecord json \<Rightarrow> AuditEntry list \<Rightarrow> AuditEntry list result" where
  "scanStateAudit query limit p result =
     bindE (decode (snd p)) (\<lambda>audit.
     if aq_RequestID query \<noteq> [] \<and> ev_RequestID (ar_Event audit) \<noteq> aq_RequestID query then Inr result
     else bindE (appendStateAudit result audit) (\<lambda>result'.
       if \<not> withinAuditWindow (au_At (last result')) query then Inr (take (length result) result')
       else Inr (trimAuditEntries result' limit)))"

definition scanCredentialAudit :: "string \<Rightarrow> AuditQuery \<Rightarrow> nat \<Rightarrow> string \<times> CredentialAudit json \<Rightarrow> AuditEntry list \<Rightarrow>
    AuditEntry list result" where
  "scanCredentialAudit accountID query limit p result =
     bindE (decode (snd p)) (\<lambda>audit.
     if CredentialAudit_Validate audit \<noteq> Inr () \<or> ca_AccountID audit \<noteq> accountID then Inl (StoreErr ErrCorruptData)
     else if aq_RequestID query \<noteq> [] then Inr result
     else if withinAuditWindow (au_At (credentialAuditEntry audit)) query
     then bindE (corrupt (AuditEntry_Validate (credentialAuditEntry audit))) (\<lambda>_.
       Inr (appendBoundedAuditEntry result (credentialAuditEntry audit) limit))
     else Inr result)"

definition scanAccountAudits :: "AuditQuery \<Rightarrow> nat \<Rightarrow> cdb \<Rightarrow> string \<Rightarrow> AuditEntry list \<Rightarrow> AuditEntry list result" where
  "scanAccountAudits query limit d accountID result =
     bindE (snapshotFromTx (cd_db d) accountID) (\<lambda>_.
     bindE (case kget (db_audits (cd_db d)) accountID of None \<Rightarrow> Inr result
            | Some audits \<Rightarrow> foldE (scanStateAudit query limit) (kentries audits) result) (\<lambda>result'.
     case kget (cd_audits d) accountID of None \<Rightarrow> Inr result'
     | Some audits \<Rightarrow> foldE (scanCredentialAudit accountID query limit) (kentries audits) result'))"

definition auditedAccounts :: "AuditQuery \<Rightarrow> cdb \<Rightarrow> string list result" where
  "auditedAccounts query d =
     (if aq_AccountID query \<noteq> [] then
        (if kget (db_accounts (cd_db d)) (aq_AccountID query) = None then Inl (StoreErr ErrAccountNotFound)
         else Inr [aq_AccountID query])
      else Inr (map fst (kentries (db_accounts (cd_db d)))))"

definition ListAuditEntries :: "AuditQuery \<Rightarrow> cdb \<Rightarrow> AuditEntry list result" where
  "ListAuditEntries query d =
     (if TrimSpace (aq_AccountID query) \<noteq> aq_AccountID query \<or> TrimSpace (aq_RequestID query) \<noteq> aq_RequestID query
      then Inl (StoreErr ErrInvalidAccount)
      else if \<not> IsZero (aq_Since query) \<and> \<not> IsZero (aq_Until query) \<and> Before (aq_Until query) (aq_Since query)
      then Inl (StoreErr ErrInvalidRequest)
      else
        let limit = (if aq_Limit query = 0 then 1000 else aq_Limit query)
        in if limit < 1 \<or> limit > 10000 then Inl (StoreErr ErrInvalidRequest)
           else bindE (view (\<lambda>d. bindE (auditedAccounts query d) (\<lambda>accountIDs.
                  foldE (scanAccountAudits query (nat limit) d) accountIDs [])) d) (\<lambda>result.
                Inr (take (nat limit) (sort_key auditKey result))))"

section \<open>The cursor of the Matrix synchronisation\<close>

text \<open>
  \<open>utf8.ValidString\<close>: every byte belongs to a sequence of the shortest form, without surrogates and up
  to U+10FFFF.
\<close>

definition continuation :: "char \<Rightarrow> bool" where
  "continuation c \<longleftrightarrow> (let n = of_char c :: nat in 128 \<le> n \<and> n \<le> 191)"

fun validUTF8 :: "string \<Rightarrow> bool" where
  "validUTF8 [] = True"
| "validUTF8 (a # s) =
     (let n = of_char a :: nat; second_in = (\<lambda>l h. case s of b # _ \<Rightarrow> l \<le> (of_char b :: nat) \<and> (of_char b :: nat) \<le> h | [] \<Rightarrow> False);
          rest = (\<lambda>k. length s \<ge> k \<and> list_all continuation (take k s))
      in if n < 128 then validUTF8 s
         else if 194 \<le> n \<and> n \<le> 223 then rest 1 \<and> validUTF8 (drop 1 s)
         else if n = 224 then second_in 160 191 \<and> rest 2 \<and> validUTF8 (drop 2 s)
         else if n = 237 then second_in 128 159 \<and> rest 2 \<and> validUTF8 (drop 2 s)
         else if 225 \<le> n \<and> n \<le> 239 then rest 2 \<and> validUTF8 (drop 2 s)
         else if n = 240 then second_in 144 191 \<and> rest 3 \<and> validUTF8 (drop 3 s)
         else if 241 \<le> n \<and> n \<le> 243 then rest 3 \<and> validUTF8 (drop 3 s)
         else if n = 244 then second_in 128 143 \<and> rest 3 \<and> validUTF8 (drop 3 s)
         else False)"

definition validateMatrixSyncCursor :: "string \<Rightarrow> unit result" where
  "validateMatrixSyncCursor cursor =
     (if cursor = [] then Inr ()
      else if length cursor > 4096 \<or> TrimSpace cursor \<noteq> cursor \<or> \<not> validUTF8 cursor \<or> CHR 0x00 \<in> set cursor
      then Inl (MatrixSyncErr ErrInvalidMatrixSyncCursor) else Inr ())"

definition matrixSyncCursorKey :: string where
  "matrixSyncCursorKey = ''default''"

text \<open>The bucket of the cursor, a map from names to bytes.\<close>

type_synonym cursors = "(string, string) kmap"

definition GetMatrixSyncCursor :: "cursors \<Rightarrow> string result" where
  "GetMatrixSyncCursor = view (\<lambda>d. case kget d matrixSyncCursorKey of
     None \<Rightarrow> Inr []
   | Some raw \<Rightarrow> bindE (validateMatrixSyncCursor raw) (\<lambda>_. Inr raw))"

definition SetMatrixSyncCursor :: "(cursors \<Rightarrow> error option) \<Rightarrow> string \<Rightarrow> cursors \<Rightarrow> unit result \<times> cursors" where
  "SetMatrixSyncCursor commit cursor d =
     (case validateMatrixSyncCursor cursor of Inl e \<Rightarrow> (Inl e, d) | Inr _ \<Rightarrow>
      update commit (\<lambda>d. Inr ((), if cursor = [] then kdel matrixSyncCursorKey d else kput matrixSyncCursorKey cursor d)) d)"

text \<open>The cursor reads back as it was set, and an empty one as none.\<close>

lemma SetMatrixSyncCursor_roundtrip:
  "SetMatrixSyncCursor commit cursor d = (Inr (), d') \<Longrightarrow> GetMatrixSyncCursor d' = Inr cursor"
  by (auto simp: SetMatrixSyncCursor_def GetMatrixSyncCursor_def view_def update_Inr split: sum.splits)

section \<open>The scan is a page of the sorted list\<close>

text \<open>A stable sort inserts a later element behind its equals.\<close>

fun insertAfter :: "('a \<Rightarrow> 'k::linorder) \<Rightarrow> 'a \<Rightarrow> 'a list \<Rightarrow> 'a list" where
  "insertAfter f x [] = [x]"
| "insertAfter f x (y # ys) = (if f y \<le> f x then y # insertAfter f x ys else x # y # ys)"

lemma mset_insertAfter [simp]: "mset (insertAfter f x ys) = add_mset x (mset ys)"
  by (induction ys) auto

lemma set_insertAfter [simp]: "set (insertAfter f x ys) = insert x (set ys)"
  by (induction ys) auto

lemma sorted_insertAfter: "sorted (map f ys) \<Longrightarrow> sorted (map f (insertAfter f x ys))"
  by (induction ys) auto

lemma filter_insertAfter:
  "sorted (map f ys) \<Longrightarrow> filter (\<lambda>y. f y = k) (insertAfter f x ys) = filter (\<lambda>y. f y = k) (ys @ [x])"
proof (induction ys)
  case (Cons y ys)
  have "filter (\<lambda>y. f y = f x) (y # ys) = []" if "f x < f y" using Cons.prems that by (auto simp: filter_empty_conv)
  then show ?case using Cons by auto
qed simp

lemma sort_key_snoc: "sort_key f (xs @ [x]) = insertAfter f x (sort_key f xs)"
proof (rule properties_for_sort_key)
  show "mset (insertAfter f x (sort_key f xs)) = mset (xs @ [x])" by simp
  show "sorted (map f (insertAfter f x (sort_key f xs)))" by (simp add: sorted_insertAfter)
  fix y
  have "filter (\<lambda>z. f z = f y) (insertAfter f x (sort_key f xs)) = filter (\<lambda>z. f z = f y) (sort_key f xs @ [x])"
    by (simp add: filter_insertAfter)
  also have "\<dots> = filter (\<lambda>z. f z = f y) (xs @ [x])"
    using sort_key_stable [of f "f y" xs] by simp
  finally show "filter (\<lambda>z. f y = f z) (insertAfter f x (sort_key f xs)) = filter (\<lambda>z. f y = f z) (xs @ [x])"
    by (simp only: eq_commute)
qed

lemma take_insertAfter: "take n (insertAfter f x (take n ys)) = take n (insertAfter f x ys)"
proof (induction ys arbitrary: n)
  case (Cons y ys)
  then show ?case by (cases n) (auto simp: take_Cons')
qed simp

lemma take_sort_key_stable: "take n (sort_key f (take n (sort_key f xs) @ [x])) = take n (sort_key f (xs @ [x]))"
  by (simp add: sort_key_snoc sort_key_take_sorted take_insertAfter)

definition boundedAudits :: "nat \<Rightarrow> AuditEntry list \<Rightarrow> AuditEntry list" where
  "boundedAudits n xs = trimAuditEntries xs n"

lemma trim_bounded: "trimAuditEntries (boundedAudits n xs @ [x]) n = boundedAudits n (xs @ [x])"
  by (auto simp: boundedAudits_def trimAuditEntries_def take_sort_key_stable)

lemma take_bounded: "take n (sort_key auditKey (boundedAudits n xs)) = take n (sort_key auditKey xs)"
  by (simp add: boundedAudits_def trimAuditEntries_def sort_key_take_sorted)

text \<open>The reference: all entries that the query selects, unbounded, in the order of the scan.\<close>

definition jsonValues :: "(string \<times> 'a json) list \<Rightarrow> 'a list" where
  "jsonValues es = concat (map (\<lambda>p. case snd p of Json v \<Rightarrow> [v] | Garbage \<Rightarrow> []) es)"

lemma jsonValues_simps [simp]:
  "jsonValues [] = []" "jsonValues (p # es) = (case snd p of Json v \<Rightarrow> [v] | Garbage \<Rightarrow> []) @ jsonValues es"
  by (simp_all add: jsonValues_def)

definition stateEntries :: "AuditQuery \<Rightarrow> (string \<times> AuditRecord json) list \<Rightarrow> AuditEntry list" where
  "stateEntries q es =
     filter (\<lambda>e. withinAuditWindow (au_At e) q)
       (map stateAuditEntry (filter (\<lambda>a. aq_RequestID q = [] \<or> ev_RequestID (ar_Event a) = aq_RequestID q) (jsonValues es)))"

definition credentialEntries :: "AuditQuery \<Rightarrow> (string \<times> CredentialAudit json) list \<Rightarrow> AuditEntry list" where
  "credentialEntries q es =
     (if aq_RequestID q \<noteq> [] then []
      else filter (\<lambda>e. withinAuditWindow (au_At e) q) (map credentialAuditEntry (jsonValues es)))"

definition bucketEntries :: "('k::linorder, (string, 'v) kmap) kmap \<Rightarrow> 'k \<Rightarrow> (string \<times> 'v) list" where
  "bucketEntries m k = (case kget m k of None \<Rightarrow> [] | Some b \<Rightarrow> kentries b)"

definition accountEntries :: "AuditQuery \<Rightarrow> cdb \<Rightarrow> string \<Rightarrow> AuditEntry list" where
  "accountEntries q d a =
     stateEntries q (bucketEntries (db_audits (cd_db d)) a) @ credentialEntries q (bucketEntries (cd_audits d) a)"

lemma scanStateAudits:
  assumes "foldE (scanStateAudit q n) es (boundedAudits n xs) = Inr r"
  shows "r = boundedAudits n (xs @ stateEntries q es) \<and> (\<forall>e \<in> set (stateEntries q es). AuditEntry_Validate e = Inr ())"
  using assms
proof (induction es arbitrary: xs)
  case (Cons p es)
  from Cons.prems obtain r1 where step: "scanStateAudit q n p (boundedAudits n xs) = Inr r1" "foldE (scanStateAudit q n) es r1 = Inr r"
    by auto
  then obtain a where a: "snd p = Json a" by (auto simp: scanStateAudit_def)
  show ?case
  proof (cases "aq_RequestID q \<noteq> [] \<and> ev_RequestID (ar_Event a) \<noteq> aq_RequestID q")
    case True
    then have "r1 = boundedAudits n xs" "stateEntries q (p # es) = stateEntries q es"
      using step(1) a by (auto simp: scanStateAudit_def stateEntries_def)
    then show ?thesis using Cons.IH step(2) by simp
  next
    case False
    then have v: "AuditEntry_Validate (stateAuditEntry a) = Inr ()"
        and r1: "r1 = (if withinAuditWindow (au_At (stateAuditEntry a)) q
           then trimAuditEntries (boundedAudits n xs @ [stateAuditEntry a]) n else boundedAudits n xs)"
      using step(1) a by (auto simp: scanStateAudit_def appendStateAudit_def split: if_splits)
    have new: "stateEntries q (p # es) =
        (if withinAuditWindow (au_At (stateAuditEntry a)) q then [stateAuditEntry a] else []) @ stateEntries q es"
      using False a by (auto simp: stateEntries_def)
    show ?thesis
    proof (cases "withinAuditWindow (au_At (stateAuditEntry a)) q")
      case True
      then have "foldE (scanStateAudit q n) es (boundedAudits n (xs @ [stateAuditEntry a])) = Inr r"
        using step(2) r1 by (simp add: trim_bounded)
      then show ?thesis using Cons.IH [of "xs @ [stateAuditEntry a]"] True new v by simp
    qed (use Cons.IH step(2) r1 new in simp)
  qed
qed (simp add: stateEntries_def)

lemma scanCredentialAudits:
  assumes "foldE (scanCredentialAudit acct q n) es (boundedAudits n xs) = Inr r"
  shows "r = boundedAudits n (xs @ credentialEntries q es) \<and> (\<forall>e \<in> set (credentialEntries q es). AuditEntry_Validate e = Inr ())"
  using assms
proof (induction es arbitrary: xs)
  case (Cons p es)
  from Cons.prems obtain r1 where step: "scanCredentialAudit acct q n p (boundedAudits n xs) = Inr r1"
      "foldE (scanCredentialAudit acct q n) es r1 = Inr r"
    by auto
  then obtain a where a: "snd p = Json a" by (auto simp: scanCredentialAudit_def)
  let ?e = "credentialAuditEntry a"
  have r1: "r1 = (if aq_RequestID q = [] \<and> withinAuditWindow (au_At ?e) q
      then trimAuditEntries (boundedAudits n xs @ [?e]) n else boundedAudits n xs)"
    and v: "aq_RequestID q = [] \<and> withinAuditWindow (au_At ?e) q \<Longrightarrow> AuditEntry_Validate ?e = Inr ()"
    using step(1) a by (auto simp: scanCredentialAudit_def appendBoundedAuditEntry_def split: if_splits)
  have new: "credentialEntries q (p # es) =
      (if aq_RequestID q = [] \<and> withinAuditWindow (au_At ?e) q then [?e] else []) @ credentialEntries q es"
    using a by (auto simp: credentialEntries_def)
  show ?case
  proof (cases "aq_RequestID q = [] \<and> withinAuditWindow (au_At ?e) q")
    case True
    then have "foldE (scanCredentialAudit acct q n) es (boundedAudits n (xs @ [?e])) = Inr r"
      using step(2) r1 by (simp add: trim_bounded)
    then show ?thesis using Cons.IH [of "xs @ [?e]"] True new v by simp
  next
    case False
    then have "r1 = boundedAudits n xs" "credentialEntries q (p # es) = credentialEntries q es"
      unfolding r1 new by (simp_all only: if_False append_Nil)
    then show ?thesis using Cons.IH [of xs] step(2) by simp
  qed
qed (simp add: credentialEntries_def)

lemma scanAccountAudits_bounded:
  assumes "scanAccountAudits q n d a (boundedAudits n xs) = Inr r"
  shows "r = boundedAudits n (xs @ accountEntries q d a) \<and> (\<forall>e \<in> set (accountEntries q d a). AuditEntry_Validate e = Inr ())"
proof -
  obtain r1 where st: "foldE (scanStateAudit q n) (bucketEntries (db_audits (cd_db d)) a) (boundedAudits n xs) = Inr r1"
      and cr: "foldE (scanCredentialAudit a q n) (bucketEntries (cd_audits d) a) r1 = Inr r"
    using assms by (auto simp: scanAccountAudits_def bucketEntries_def split: option.splits)
  note s = scanStateAudits [OF st]
  then have "r1 = boundedAudits n (xs @ stateEntries q (bucketEntries (db_audits (cd_db d)) a))" by simp
  from scanCredentialAudits [OF cr [unfolded this]] s show ?thesis by (auto simp: accountEntries_def)
qed

lemma scan_bounded:
  assumes "foldE (scanAccountAudits q n d) as (boundedAudits n xs) = Inr r"
  shows "r = boundedAudits n (xs @ concat (map (accountEntries q d) as)) \<and>
    (\<forall>e \<in> set (concat (map (accountEntries q d) as)). AuditEntry_Validate e = Inr ())"
  using assms
proof (induction as arbitrary: xs)
  case (Cons a as)
  from Cons.prems obtain r1 where step: "scanAccountAudits q n d a (boundedAudits n xs) = Inr r1"
      "foldE (scanAccountAudits q n d) as r1 = Inr r"
    by auto
  note s = scanAccountAudits_bounded [OF step(1)]
  then have "r1 = boundedAudits n (xs @ accountEntries q d a)" by simp
  from Cons.IH [OF step(2) [unfolded this]] s show ?case by auto
qed simp

text \<open>The fields that could identify somebody are redacted.\<close>

definition redactedEntry :: "AuditEntry \<Rightarrow> bool" where
  "redactedEntry e \<longleftrightarrow> redactedID (au_AuditID e) \<and> redactedID (au_Account e) \<and> redactedID (au_RequestID e) \<and>
     redactedID (au_Actor e) \<and> redactedID (au_Resource e)"

lemma accountEntries_redacted: "e \<in> set (accountEntries q d a) \<Longrightarrow> redactedEntry e"
proof -
  have "redactedID []" by (simp add: redactedID_def)
  then have "redactedEntry (stateAuditEntry x)" "redactedEntry (credentialAuditEntry y)" for x y
    by (simp_all add: redactedEntry_def stateAuditEntry_def credentialAuditEntry_def RedactIdentifier_shape)
  then show "e \<in> set (accountEntries q d a) \<Longrightarrow> redactedEntry e"
    by (auto simp: accountEntries_def stateEntries_def credentialEntries_def split: if_splits)
qed

end
