(* ===== verification/StoreAuditProps.thy ===== *)
theory StoreAuditProps
  imports StoreAudit CredentialProps StoreDemo GoFormat
begin

text \<open>The audit view on consistent tables: it always succeeds, and is a page of the sorted reference.\<close>

section \<open>Nothing stored is refused\<close>

lemma foldE_total:
  assumes "\<forall>x \<in> set xs. \<forall>s. \<exists>s'. f x s = Inr s'"
  shows "\<exists>s'. foldE f xs s = Inr s'"
  using assms
proof (induction xs arbitrary: s)
  case (Cons x xs)
  obtain s1 where "f x s = Inr s1" using Cons.prems by (meson list.set_intros(1))
  then show ?case using Cons by auto
qed simp

lemma RedactIdentifier_nonblank:
  assumes "TrimSpace v \<noteq> []"
  shows "prefix ''id_'' (RedactIdentifier v) \<and> RedactIdentifier v \<noteq> [] \<and> TrimSpace (RedactIdentifier v) \<noteq> []"
proof -
  have "\<exists>xs. RedactIdentifier v = CHR ''i'' # xs \<and> prefix ''id_'' (RedactIdentifier v)"
    using assms by (auto simp: RedactIdentifier_def Let_def)
  then show ?thesis using TrimSpace_nonblank [of "CHR ''i''"] by (auto simp: plainChar_def)
qed

lemma redacted_optional: "RedactIdentifier v \<noteq> [] \<Longrightarrow> prefix ''id_'' (RedactIdentifier v)"
  by (auto simp: RedactIdentifier_def Let_def split: if_splits)

lemma stateAuditEntry_valid: "validFields (ar_Event a) = Inr () \<Longrightarrow> AuditEntry_Validate (stateAuditEntry a) = Inr ()"
  using RedactIdentifier_nonblank redacted_optional
  by (auto simp: validFields_def nonEmpty_def AuditEntry_Validate_def stateAuditEntry_def StateAudit_def go_simps split: if_splits)

lemma credentialAuditEntry_valid:
  assumes "CredentialAudit_Validate a = Inr ()"
  shows "AuditEntry_Validate (credentialAuditEntry a) = Inr ()"
proof -
  have i: "validateIdentifier (ca_AuditID a)" "validateIdentifier (ca_AccountID a)" "ca_Version a \<noteq> 0" "ca_OccurredAt a \<noteq> 0"
    using assms by (auto simp: CredentialAudit_Validate_def split: if_splits)
  have "ca_Operation a \<in> {OperationStore, OperationAccess, OperationRotate, OperationRevoke, OperationRevokeForDeletion}"
    using assms by (auto simp: CredentialAudit_Validate_def split: if_splits)
  then have "TrimSpace (ca_Operation a) \<noteq> []" by (auto simp: credentialOperation_defs go_simps)
  then show ?thesis
    using i(3,4) RedactIdentifier_nonblank [OF valid_identifier_trim [OF i(1)]] RedactIdentifier_nonblank [OF valid_identifier_trim [OF i(2)]]
      redacted_optional
    by (auto simp: AuditEntry_Validate_def credentialAuditEntry_def StateAudit_def CredentialAuditKind_def)
qed

lemma stored_event_valid:
  assumes "store_inv d" "kget (auditsOf d a) k = Some raw"
  shows "\<exists>x. raw = Json x \<and> validFields (ar_Event x) = Inr ()"
proof -
  have "kget (db_audits d) a \<noteq> None" using assms(2) by (auto simp: auditsOf_def split: option.splits)
  then have "kget (db_accounts d) a \<noteq> None" using assms(1) unfolding store_inv_def inv_audits_def by blast
  then obtain s where "snapshotFromTx d a = Inr s" using assms(1) unfolding store_inv_def inv_accounts_def by fastforce
  then have h: "histOk d (auditsOf d a) (sn_AppliedEvents s)" "Snapshot_Validate s = Inr ()" by (simp_all add: snapshotFromTx_iff)
  from h(1) assms(2) obtain x where x: "raw = Json x" "kget (sn_AppliedEvents s) (recID x) = Some x"
    unfolding histOk_def by blast
  then have "(recID x, x) \<in> set (kentries (sn_AppliedEvents s))" by (simp add: kentries_iff)
  then have "checkIndexEntry s (recID x, x) = Inr ()" using h(2) unfolding Snapshot_Validate_iff by blast
  then show ?thesis using x(1) by (simp add: checkIndexEntry_iff)
qed

lemma bucketEntries_kentries:
  "bucketEntries (db_audits e) a = kentries (auditsOf e a)" "bucketEntries (cd_audits d) a = kentries (accountAudits a d)"
  by (simp_all add: bucketEntries_def auditsOf_def accountAudits_def split: option.splits)

lemma scan_total:
  assumes "store_inv (cd_db d)" "cred_inv d" "kget (db_accounts (cd_db d)) a \<noteq> None"
  shows "\<exists>r. scanAccountAudits q n d a s = Inr r"
proof -
  obtain t where t: "snapshotFromTx (cd_db d) a = Inr t"
    using assms(1,3) unfolding store_inv_def inv_accounts_def by fastforce
  have st: "\<exists>r. scanStateAudit q n p s = Inr r" if "p \<in> set (bucketEntries (db_audits (cd_db d)) a)" for p s
  proof -
    have "kget (auditsOf (cd_db d) a) (fst p) = Some (snd p)"
      using that unfolding bucketEntries_kentries by (metis kentries_iff prod.collapse)
    from stored_event_valid [OF assms(1) this] obtain x where x: "snd p = Json x" "validFields (ar_Event x) = Inr ()" by blast
    then show ?thesis using stateAuditEntry_valid [OF x(2)] by (simp add: scanStateAudit_def appendStateAudit_def)
  qed
  have cr: "\<exists>r. scanCredentialAudit a q n p s = Inr r" if "p \<in> set (bucketEntries (cd_audits d) a)" for p s
  proof -
    have "kget (accountAudits a d) (fst p) = Some (snd p)"
      using that unfolding bucketEntries_kentries by (metis kentries_iff prod.collapse)
    then obtain x where x: "snd p = Json x" "CredentialAudit_Validate x = Inr ()" "ca_AccountID x = a"
      using assms(2) unfolding cred_inv_def by blast
    then show ?thesis using credentialAuditEntry_valid [OF x(2)] by (simp add: scanCredentialAudit_def)
  qed
  obtain r1 where "foldE (scanStateAudit q n) (bucketEntries (db_audits (cd_db d)) a) s = Inr r1"
    using st foldE_total [of _ "scanStateAudit q n"] by blast
  moreover obtain r2 where "foldE (scanCredentialAudit a q n) (bucketEntries (cd_audits d) a) r1 = Inr r2"
    using cr foldE_total [of _ "scanCredentialAudit a q n"] by blast
  ultimately show ?thesis using t by (auto simp: scanAccountAudits_def bucketEntries_def split: option.splits)
qed

section \<open>The view\<close>

text \<open>
  C37. The audit view of the operators. On consistent tables a well-formed query always succeeds.
  Although the scan never keeps more entries than the limit, the result is exactly the first page
  of all selected state events and credential audits in a stable order of time, kind and identifier;
  every entry lies in the window that was asked for and shows accounts, requests, actors and keys only
  as labels of twelve hexadecimal digits.
\<close>

theorem ListAuditEntries_page:
  assumes "store_inv (cd_db d)" "cred_inv d"
    and "TrimSpace (aq_AccountID q) = aq_AccountID q" "TrimSpace (aq_RequestID q) = aq_RequestID q"
    and "aq_Since q = 0 \<or> aq_Until q = 0 \<or> aq_Since q \<le> aq_Until q" "0 \<le> aq_Limit q" "aq_Limit q \<le> 10000"
    and "auditedAccounts q d = Inr accounts"
  shows "ListAuditEntries q d = Inr (take (nat (if aq_Limit q = 0 then 1000 else aq_Limit q))
      (sort_key auditKey (concat (map (accountEntries q d) accounts)))) \<and>
    (\<forall>e \<in> set (concat (map (accountEntries q d) accounts)).
       AuditEntry_Validate e = Inr () \<and> redactedEntry e \<and> withinAuditWindow (au_At e) q)"
proof -
  define n where "n = nat (if aq_Limit q = 0 then 1000 else aq_Limit q)"
  let ?all = "concat (map (accountEntries q d) accounts)"
  have "kget (db_accounts (cd_db d)) a \<noteq> None" if "a \<in> set accounts" for a
    using assms(8) that by (auto simp: auditedAccounts_def kentries_iff split: if_splits)
  then have "\<forall>a \<in> set accounts. \<forall>s. \<exists>r. scanAccountAudits q n d a s = Inr r" using scan_total [OF assms(1,2)] by blast
  from foldE_total [OF this] obtain r where f: "foldE (scanAccountAudits q n d) accounts [] = Inr r" by blast
  have "boundedAudits n [] = []" by (simp add: boundedAudits_def trimAuditEntries_def)
  note s = scan_bounded [of q n d accounts "[]", unfolded this, OF f]
  have "ListAuditEntries q d = Inr (take n (sort_key auditKey r))"
    using assms(3-8) f by (auto simp: ListAuditEntries_def Let_def view_def n_def)
  also have "take n (sort_key auditKey r) = take n (sort_key auditKey ?all)" using s by (simp add: take_bounded)
  finally have "ListAuditEntries q d = Inr (take n (sort_key auditKey ?all))" .
  moreover have "withinAuditWindow (au_At e) q" if "e \<in> set ?all" for e
    using that by (auto simp: accountEntries_def stateEntries_def credentialEntries_def split: if_splits)
  moreover have "redactedEntry e" if "e \<in> set ?all" for e
    using that accountEntries_redacted by auto
  ultimately show ?thesis using s unfolding n_def by simp
qed

definition demoAuditQuery :: AuditQuery where
  "demoAuditQuery = \<lparr>aq_AccountID = [], aq_RequestID = [], aq_Since = 0, aq_Until = 0, aq_Limit = 5\<rparr>"

theorem ListAuditEntries_page_witness:
  "\<exists>es. ListAuditEntries demoAuditQuery (emptyCDB\<lparr>cd_db := demoDB2\<rparr>) = Inr es \<and>
     (\<forall>e \<in> set es. AuditEntry_Validate e = Inr () \<and> redactedEntry e)"
proof -
  let ?d = "emptyCDB\<lparr>cd_db := demoDB2\<rparr>"
  have inv: "store_inv (cd_db ?d)" "cred_inv ?d"
    using demoDB2_inv cred_inv_empty by (simp_all add: cred_inv_def accountAudits_def)
  obtain as where as: "auditedAccounts demoAuditQuery ?d = Inr as" by (simp add: auditedAccounts_def demoAuditQuery_def)
  have q: "TrimSpace (aq_AccountID demoAuditQuery) = aq_AccountID demoAuditQuery"
      "TrimSpace (aq_RequestID demoAuditQuery) = aq_RequestID demoAuditQuery"
      "aq_Since demoAuditQuery = 0 \<or> aq_Until demoAuditQuery = 0 \<or> aq_Since demoAuditQuery \<le> aq_Until demoAuditQuery"
      "0 \<le> aq_Limit demoAuditQuery" "aq_Limit demoAuditQuery \<le> 10000"
    by (simp_all add: demoAuditQuery_def)
  from ListAuditEntries_page [OF inv q as] show ?thesis by (auto dest!: in_set_takeD)
qed

end
