(* ===== verification/Migrations.thy ===== *)
theory Migrations
  imports StoreBase
begin

text \<open>
  migrations/migrations.go: the schema version of the database file and the migrations that bring a
  file to the current one. The file is a map from bucket names to raw buckets; what the buckets
  other than the metadata hold is opaque here.
\<close>

section \<open>The schema\<close>

definition CurrentVersion :: uint64 where
  "CurrentVersion = 10"

definition MetaBucket :: string where
  "MetaBucket = ''meta''"

definition VersionKey :: string where
  "VersionKey = ''version''"

type_synonym rawdb = "(string, (string, string) kmap) kmap"

definition createBucketIfNotExists :: "string \<Rightarrow> rawdb \<Rightarrow> rawdb" where
  "createBucketIfNotExists name d = (case kget d name of None \<Rightarrow> kput name kempty d | Some _ \<Rightarrow> d)"

definition createBuckets :: "string list \<Rightarrow> rawdb \<Rightarrow> rawdb" where
  "createBuckets names d = fold createBucketIfNotExists names d"

definition versionOne :: "string list" where
  "versionOne = [''accounts'', ''requests'', ''request_idempotency'', ''audits'', ''events'', ''leases'']"

definition versionTwo :: "string list" where
  "versionTwo = [''queue'']"

definition versionThree :: "string list" where
  "versionThree = [''credentials'', ''credential_audits'']"

definition versionFour :: "string list" where
  "versionFour = [''matrix_notifications'']"

definition versionFive :: "string list" where
  "versionFive = [''account_deletions'', ''matrix_sync_cursors'']"

definition versionSix :: "string list" where
  "versionSix = [''job_pools'', ''execution_slots'', ''slot_leases'', ''environment_summaries'']"

definition versionSeven :: "string list" where
  "versionSeven = [''environment_packages'']"

definition versionEight :: "string list" where
  "versionEight = [''job_pool_operations'', ''job_pool_idempotency'', ''job_pool_audit'']"

definition versionNine :: "string list" where
  "versionNine = [''environment_operations'', ''environment_idempotency'', ''environment_audit'']"

definition versionTen :: "string list" where
  "versionTen = [''slot_session_operations'', ''slot_session_idempotency'']"

definition migrationBuckets :: "uint64 \<Rightarrow> string list option" where
  "migrationBuckets version =
     (if version = 1 then Some versionOne else if version = 2 then Some versionTwo
      else if version = 3 then Some versionThree else if version = 4 then Some versionFour
      else if version = 5 then Some versionFive else if version = 6 then Some versionSix
      else if version = 7 then Some versionSeven else if version = 8 then Some versionEight
      else if version = 9 then Some versionNine else if version = 10 then Some versionTen else None)"

section \<open>Reading and writing the version\<close>

definition readVersion :: "(string, string) kmap \<Rightarrow> uint64 result" where
  "readVersion meta =
     (case kget meta VersionKey of
        None \<Rightarrow> Inr 0
      | Some raw \<Rightarrow> if length raw \<noteq> 8 then Inl (MigrationErr ErrInvalidVersion) else Inr (Uint64 raw))"

definition bucketOf :: "rawdb \<Rightarrow> string \<Rightarrow> (string, string) kmap" where
  "bucketOf d name = (case kget d name of None \<Rightarrow> kempty | Some b \<Rightarrow> b)"

definition writeVersion :: "uint64 \<Rightarrow> rawdb \<Rightarrow> rawdb" where
  "writeVersion version d = kput MetaBucket (kput VersionKey (PutUint64 version) (bucketOf d MetaBucket)) d"

definition Version :: "rawdb \<Rightarrow> uint64 result" where
  "Version = view (\<lambda>d. case kget d MetaBucket of None \<Rightarrow> Inr 0 | Some meta \<Rightarrow> readVersion meta)"

section \<open>Migrating\<close>

function migrateFrom :: "uint64 \<Rightarrow> rawdb \<Rightarrow> rawdb result" where
  "migrateFrom version d =
     (if version < CurrentVersion then
        (case migrationBuckets (version + 1) of
           None \<Rightarrow> Inl (MigrationErr ErrUnsupportedVersion)
         | Some names \<Rightarrow> migrateFrom (version + 1) (writeVersion (version + 1) (createBuckets names d)))
      else Inr d)"
  by pat_completeness auto
termination
proof (relation "measure (\<lambda>(version, _). 10 - unat version)")
  fix version :: uint64 and d :: rawdb and names
  assume "version < CurrentVersion"
  then have "unat version < 10" by (simp add: CurrentVersion_def word_less_nat_alt)
  moreover from this have "unat (version + 1) = unat version + 1" by (simp add: unat_word_ariths)
  ultimately show "((version + 1, writeVersion (version + 1) (createBuckets names d)), version, d)
      \<in> measure (\<lambda>(version, _). 10 - unat version)" by simp
qed simp

definition applyTx :: "rawdb \<Rightarrow> (unit \<times> rawdb) result" where
  "applyTx d0 =
     (let d = createBucketIfNotExists MetaBucket d0
      in bindE (readVersion (bucketOf d MetaBucket)) (\<lambda>version.
         if CurrentVersion < version then Inl (MigrationErr ErrUnsupportedVersion)
         else bindE (migrateFrom version d) (\<lambda>d'. Inr ((), d'))))"

definition Migrations_Apply :: "(rawdb \<Rightarrow> error option) \<Rightarrow> rawdb \<Rightarrow> unit result \<times> rawdb" where
  "Migrations_Apply commit = update commit applyTx"

end
