(* ===== verification/Validate.thy ===== *)
theory Validate
  imports Migrations JobPool SlotSession EnvironmentControl StoreAudit
begin

text \<open>
  internal/store/validate.go: the checks that run over every bucket of a database before a backup
  is published, before a restore is installed and in periodic maintenance. They only read.
\<close>

section \<open>The database file\<close>

text \<open>
  All the buckets together. The other theories work on the tables they use; the views below are those
  tables of the whole file.
\<close>

record database =
  vd_schema :: rawdb
  vd_tables :: sdb
  vd_jobOperations :: "(string, JobPoolOperation json) kmap"
  vd_jobIdempotency :: "(string, string) kmap"
  vd_jobAudit :: "(string, JobPoolAuditEvent json) kmap"
  vd_envOperations :: "(string, EnvironmentOperation json) kmap"
  vd_envIdempotency :: "(string, string) kmap"
  vd_envAudit :: "(string, EnvironmentAuditEvent json) kmap"
  vd_sessionOps :: "(string, SlotSessionOperation json) kmap"
  vd_sessionIndex :: "(string, string) kmap"
  vd_credentials :: "(string, CredentialRecord json) kmap"
  vd_credentialAudits :: "(string, (string, CredentialAudit json) kmap) kmap"
  vd_cursors :: cursors

definition jobView :: "database \<Rightarrow> jdb" where
  "jobView v = \<lparr>jd_db = vd_tables v, jd_operations = vd_jobOperations v, jd_idempotency = vd_jobIdempotency v,
     jd_audit = vd_jobAudit v\<rparr>"

definition environmentView :: "database \<Rightarrow> edb" where
  "environmentView v = \<lparr>ed_db = vd_tables v, ed_operations = vd_envOperations v, ed_idempotency = vd_envIdempotency v,
     ed_audit = vd_envAudit v\<rparr>"

definition sessionView :: "database \<Rightarrow> ydb" where
  "sessionView v = \<lparr>yd_db = vd_tables v, yd_ops = vd_sessionOps v, yd_index = vd_sessionIndex v\<rparr>"

definition credentialView :: "database \<Rightarrow> cdb" where
  "credentialView v = \<lparr>cd_db = sd_core (vd_tables v), cd_credentials = vd_credentials v, cd_audits = vd_credentialAudits v\<rparr>"

text \<open>\<open>Bucket.ForEach\<close>: the entries in key order, up to the first error.\<close>

definition forEachE :: "(string \<Rightarrow> 'v \<Rightarrow> unit result) \<Rightarrow> (string, 'v) kmap \<Rightarrow> unit result" where
  "forEachE f bucket = foldE (\<lambda>(key, value) _. f key value) (kentries bucket) ()"

abbreviation corruptData :: error where
  "corruptData \<equiv> StoreErr ErrCorruptData"

section \<open>Accounts, requests and queues\<close>

text \<open>Whether a request is the projection of the account state.\<close>

definition mirrors :: "Request \<Rightarrow> Snapshot \<Rightarrow> bool" where
  "mirrors request snapshot \<longleftrightarrow> rq_AccountID request = sn_AccountID snapshot \<and> rq_RequestID request = sn_RequestID snapshot \<and>
     rq_State request = sn_Status snapshot"

definition validateAccountsTx :: "db \<Rightarrow> unit result" where
  "validateAccountsTx d = forEachE (\<lambda>key _.
     bindE (snapshotFromTx d key) (\<lambda>snapshot.
     if sn_Status snapshot = NoRequest then Inr ()
     else bindE (corrupt (requestFromTx d (sn_RequestID snapshot))) (\<lambda>request.
       ensureE (mirrors request snapshot) corruptData))) (db_accounts d)"

definition validateRequestsTx :: "db \<Rightarrow> unit result" where
  "validateRequestsTx d = forEachE (\<lambda>key _.
     bindE (requestFromTx d key) (\<lambda>request.
     if rq_RequestID request \<noteq> key then Inl corruptData
     else bindE (snapshotFromTx d (rq_AccountID request)) (\<lambda>snapshot.
       if rq_State request = NoRequest
       then ensureE (sn_Status snapshot = NoRequest \<and> sn_RequestID snapshot = []) corruptData
       else ensureE (mirrors request snapshot) corruptData))) (db_requests d)"

definition validateIdempotencyTx :: "db \<Rightarrow> unit result" where
  "validateIdempotencyTx d = forEachE (\<lambda>key requestID.
     case kget (db_requests d) requestID of
       None \<Rightarrow> Inl corruptData
     | Some raw \<Rightarrow> bindE (decode raw) (\<lambda>request.
         ensureE (rq_RequestID request = requestID \<and> rq_IdempotencyKey request = key) corruptData)) (db_idempotency d)"

definition validateLeasesTx :: "db \<Rightarrow> unit result" where
  "validateLeasesTx d = forEachE (\<lambda>accountID _.
     bindE (snapshotFromTx d accountID) (\<lambda>snapshot.
     bindE (leaseFromTx d accountID) (\<lambda>lease.
     case lease of
       None \<Rightarrow> Inl corruptData
     | Some l \<Rightarrow>
         if sn_Status snapshot \<noteq> Starting \<and> sn_Status snapshot \<noteq> LoggingIn then Inl corruptData
         else bindE (corrupt (requestFromTx d (sn_RequestID snapshot))) (\<lambda>request.
           if rq_AccountID request \<noteq> accountID \<or> rq_RequestID request \<noteq> sn_RequestID snapshot
              \<or> rq_State request \<noteq> sn_Status snapshot
           then Inl corruptData
           else ensureE (ls_LeaseID l \<noteq> [] \<and> ls_Owner l \<noteq> []) corruptData)))) (db_leases d)"

text \<open>One entry of the queue; \<open>seen\<close> are the requests that earlier entries named.\<close>

definition validateQueueEntry :: "db \<Rightarrow> string \<times> string \<Rightarrow> string list \<Rightarrow> string list result" where
  "validateQueueEntry d entry seen =
     (case entry of (key, requestID) \<Rightarrow>
      if length key < 10 \<or> requestID = [] then Inl corruptData
      else if requestID \<in> set seen then Inl corruptData
      else case kget (db_requests d) requestID of
        None \<Rightarrow> Inl corruptData
      | Some raw \<Rightarrow> bindE (decode raw) (\<lambda>request.
          if rq_State request \<noteq> Queued \<or> rq_RequestID request \<noteq> requestID
             \<or> key \<noteq> queueKey (rq_CreatedAt request) (rq_RequestID request)
          then Inl corruptData else Inr (requestID # seen)))"

definition validateQueueTx :: "db \<Rightarrow> unit result" where
  "validateQueueTx d =
     bindE (foldE (validateQueueEntry d) (kentries (db_queue d)) []) (\<lambda>seen.
     forEachE (\<lambda>_ raw. bindE (decode raw) (\<lambda>request.
       ensureE (rq_State request = Queued \<longrightarrow> rq_RequestID request \<in> set seen) corruptData)) (db_requests d))"

section \<open>Deletions, notifications and events\<close>

definition validateDeletionsTx :: "db \<Rightarrow> unit result" where
  "validateDeletionsTx d = forEachE (\<lambda>key raw.
     bindE (decode raw) (\<lambda>deletion.
     if key \<noteq> ds_AccountID deletion then Inl corruptData
     else bindE (corrupt (DeletionSnapshot_Validate deletion)) (\<lambda>_.
       ensureE (kget (db_accounts d) key \<noteq> None) corruptData))) (db_deletions d)"

definition validateNotificationsTx :: "db \<Rightarrow> unit result" where
  "validateNotificationsTx d = forEachE (\<lambda>key raw.
     bindE (decode raw) (\<lambda>notification.
     if key \<noteq> nt_EventID notification then Inl corruptData
     else bindE (corrupt (Notification_Validate notification)) (\<lambda>_.
       if kget (db_accounts d) (nt_AccountID notification) = None then Inl corruptData
       else bindE (corrupt (requestFromTx d (nt_RequestID notification))) (\<lambda>request.
         if rq_AccountID request \<noteq> nt_AccountID notification then Inl corruptData
         else case kget (db_events d) (nt_EventID notification) of
           None \<Rightarrow> Inl corruptData
         | Some rawEvent \<Rightarrow> bindE (decode rawEvent) (\<lambda>audit.
             ensureE (ev_AccountID (ar_Event audit) = nt_AccountID notification \<and>
               ev_RequestID (ar_Event audit) = nt_RequestID notification \<and> ev_To (ar_Event audit) = nt_State notification \<and>
               ev_OccurredAt (ar_Event audit) = nt_OccurredAt notification) corruptData))))) (db_notifications d)"

definition validateEventsTx :: "db \<Rightarrow> unit result" where
  "validateEventsTx d = forEachE (\<lambda>key raw.
     bindE (decode raw) (\<lambda>audit.
     if key \<noteq> ev_EventID (ar_Event audit) then Inl corruptData
     else if kget (db_accounts d) (ev_AccountID (ar_Event audit)) = None then Inl corruptData
     else case kget (db_audits d) (ev_AccountID (ar_Event audit)) of
       None \<Rightarrow> Inl corruptData
     | Some trail \<Rightarrow>
         (case kget trail (revisionKey (ar_Revision audit)) of
            None \<Rightarrow> Inl corruptData
          | Some rawAudit \<Rightarrow> bindE (decode rawAudit) (\<lambda>indexed.
              ensureE (auditRecordsEqual audit indexed) corruptData)))) (db_events d)"

section \<open>Credentials and the cursor\<close>

definition validateCredentialsTx :: "cdb \<Rightarrow> unit result" where
  "validateCredentialsTx d =
     bindE (forEachE (\<lambda>key raw.
       bindE (decode raw) (\<lambda>record.
       if cr_AccountID record \<noteq> key then Inl corruptData
       else if kget (db_accounts (cd_db d)) key = None then Inl corruptData
       else corrupt (CredentialRecord_Validate record))) (cd_credentials d)) (\<lambda>_.
     forEachE (\<lambda>key audits.
       if kget (db_accounts (cd_db d)) key = None then Inl corruptData
       else forEachE (\<lambda>auditID raw.
         bindE (decode raw) (\<lambda>audit.
         if key \<noteq> ca_AccountID audit \<or> auditID \<noteq> ca_AuditID audit then Inl corruptData
         else corrupt (CredentialAudit_Validate audit))) audits) (cd_audits d))"

definition validateMatrixSyncCursorTx :: "cursors \<Rightarrow> unit result" where
  "validateMatrixSyncCursorTx = forEachE (\<lambda>key value.
     if key \<noteq> matrixSyncCursorKey \<or> value = [] then Inl corruptData else validateMatrixSyncCursor value)"

section \<open>Pools, slots and environments\<close>

definition validateJobPoolsTx :: "sdb \<Rightarrow> unit result" where
  "validateJobPoolsTx d = forEachE (\<lambda>key raw.
     bindE (decode raw) (\<lambda>config.
     if key \<noteq> pc_PoolID config then Inl corruptData
     else bindE (corrupt (PoolConfig_Validate config)) (\<lambda>_.
       if klen (sd_packages d) > 0 then corrupt (validatePoolEnvironmentTx d config) else Inr ()))) (sd_pools d)"

definition validateSlotEntry :: "sdb \<Rightarrow> string \<Rightarrow> slot json \<Rightarrow> unit result" where
  "validateSlotEntry d key raw =
     bindE (decode raw) (\<lambda>item.
     if key \<noteq> sl_SlotID item then Inl corruptData
     else bindE (corrupt (Slot_Validate item)) (\<lambda>_.
       case kget (sd_pools d) (sl_PoolID item) of
         None \<Rightarrow> Inl corruptData
       | Some poolRaw \<Rightarrow>
           bindE (decode poolRaw) (\<lambda>pool.
           bindE (corrupt (PoolConfig_Validate pool)) (\<lambda>_.
           if sl_Status item = Ready \<and> \<not> slotMatchesPoolTarget item pool then Inl corruptData
           else if sl_Status item = Ready \<and> \<not> sl_Trusted item then Inl corruptData
           else ensureE (inUse item \<longrightarrow> kget (sd_slotLeases d) key \<noteq> None) corruptData))))"

definition validateSlotLeaseOwnershipTx :: "db \<Rightarrow> SlotLease \<Rightarrow> unit result" where
  "validateSlotLeaseOwnershipTx d lease =
     bindE (corrupt (snapshotFromTx d (sk_AccountID lease))) (\<lambda>snapshot.
     if sn_Status snapshot \<noteq> Starting \<and> sn_Status snapshot \<noteq> LoggingIn then Inl corruptData
     else bindE (corrupt (requestFromTx d (sk_RequestID lease))) (\<lambda>request.
       if rq_AccountID request \<noteq> sk_AccountID lease \<or> rq_RequestID request \<noteq> sk_RequestID lease
          \<or> rq_State request \<noteq> sn_Status snapshot
       then Inl corruptData
       else bindE (leaseFromTx d (sk_AccountID lease)) (\<lambda>found.
         case found of
           None \<Rightarrow> Inl corruptData
         | Some accountLease \<Rightarrow>
             ensureE (ls_LeaseID accountLease @ ''-slot'' = sk_LeaseID lease \<and> ls_Owner accountLease = sk_Owner lease \<and>
               ls_AcquiredAt accountLease = sk_AcquiredAt lease \<and> ls_ExpiresAt accountLease = sk_ExpiresAt lease) corruptData)))"

text \<open>One slot lease; \<open>owners\<close> maps the accounts and requests of earlier leases to their slots.\<close>

definition leaseOwnerKey :: "SlotLease \<Rightarrow> string" where
  "leaseOwnerKey lease = sk_AccountID lease @ [CHR 0x00] @ sk_RequestID lease"

definition validateSlotLeaseEntry ::
  "sdb \<Rightarrow> string \<times> SlotLease json \<Rightarrow> (string, string) kmap \<Rightarrow> (string, string) kmap result" where
  "validateSlotLeaseEntry d entry owners =
     (case entry of (key, value) \<Rightarrow>
      bindE (decode value) (\<lambda>lease.
      if key \<noteq> sk_SlotID lease then Inl corruptData
      else bindE (corrupt (SlotLease_Validate lease)) (\<lambda>_.
      case kget (sd_slots d) key of
        None \<Rightarrow> Inl corruptData
      | Some raw \<Rightarrow>
          bindE (decode raw) (\<lambda>item.
          if sk_PoolID lease \<noteq> sl_PoolID item \<or> sk_EnvironmentGeneration lease \<noteq> sl_EnvironmentGeneration item
          then Inl corruptData
          else bindE (corrupt (getJSON (sd_pools d) (sk_PoolID lease) corruptData)) (\<lambda>pool.
            if pc_PoolID pool \<noteq> sk_PoolID lease then Inl corruptData
            else if \<not> inUse item then Inl corruptData
            else bindE (validateSlotLeaseOwnershipTx (sd_core d) lease) (\<lambda>_.
              case kget owners (leaseOwnerKey lease) of
                Some previousSlot \<Rightarrow>
                  if previousSlot \<noteq> sk_SlotID lease then Inl corruptData
                  else Inr (kput (leaseOwnerKey lease) (sk_SlotID lease) owners)
              | None \<Rightarrow> Inr (kput (leaseOwnerKey lease) (sk_SlotID lease) owners)))))))"

definition validateSlotsTx :: "sdb \<Rightarrow> unit result" where
  "validateSlotsTx d =
     bindE (forEachE (validateSlotEntry d) (sd_slots d)) (\<lambda>_.
     bindE (foldE (validateSlotLeaseEntry d) (kentries (sd_slotLeases d)) kempty) (\<lambda>_. Inr ()))"

definition validateEnvironmentSummariesTx :: "sdb \<Rightarrow> unit result" where
  "validateEnvironmentSummariesTx d = forEachE (\<lambda>key raw.
     bindE (decode raw) (\<lambda>summary.
     if key \<noteq> es_EnvironmentID summary then Inl corruptData else corrupt (Summary_Validate summary))) (sd_summaries d)"

definition validateEnvironmentPackagesTx :: "sdb \<Rightarrow> unit result" where
  "validateEnvironmentPackagesTx d = forEachE (\<lambda>key raw.
     bindE (decode raw) (\<lambda>record.
     if key \<noteq> environmentKey (en_EnvironmentID record) (en_Version record) then Inl corruptData
     else corrupt (Record_Validate record))) (sd_packages d)"

section \<open>The control planes\<close>

text \<open>An idempotency index: names of operations that are stored.\<close>

definition validateIndex :: "(string, 'v) kmap \<Rightarrow> (string, string) kmap \<Rightarrow> unit result" where
  "validateIndex operations = forEachE (\<lambda>key value.
     if key = [] \<or> value = [] \<or> kget operations value = None then Inl corruptData else Inr ())"

definition validateJobPoolControlTx :: "jdb \<Rightarrow> unit result" where
  "validateJobPoolControlTx d =
     bindE (forEachE (\<lambda>key raw. bindE (decode raw) (\<lambda>operation.
       if key \<noteq> jo_OperationID operation then Inl corruptData else corrupt (JobPoolOperation_Validate operation)))
       (jd_operations d)) (\<lambda>_.
     bindE (forEachE (\<lambda>key raw. bindE (decode raw) (\<lambda>event.
       if key \<noteq> ja_EventID event then Inl corruptData else corrupt (JobPoolAuditEvent_Validate event))) (jd_audit d)) (\<lambda>_.
     validateIndex (jd_operations d) (jd_idempotency d)))"

definition validateEnvironmentOperationsTx :: "edb \<Rightarrow> unit result" where
  "validateEnvironmentOperationsTx d =
     bindE (forEachE (\<lambda>key raw. bindE (decode raw) (\<lambda>operation.
       if key \<noteq> eo_OperationID operation then Inl corruptData else corrupt (EnvironmentOperation_Validate operation)))
       (ed_operations d)) (\<lambda>_.
     bindE (forEachE (\<lambda>key raw. bindE (decode raw) (\<lambda>event.
       if key \<noteq> ea_EventID event then Inl corruptData else corrupt (EnvironmentAuditEvent_Validate event))) (ed_audit d)) (\<lambda>_.
     validateIndex (ed_operations d) (ed_idempotency d)))"

definition validateSessionEntry :: "sdb \<Rightarrow> string \<Rightarrow> SlotSessionOperation json \<Rightarrow> unit result" where
  "validateSessionEntry d key raw =
     bindE (decode raw) (\<lambda>v.
     if key \<noteq> sso_OperationID v \<or> sso_OperationID v = [] \<or> sso_PoolID v = [] \<or> sso_SlotID v = []
        \<or> \<not> slotSessionStateValid (sso_State v) \<or> sso_Attempt v < 1 \<or> IsZero (sso_RequestedAt v) \<or> IsZero (sso_UpdatedAt v)
     then Inl corruptData
     else if \<not> IsZero (sso_Deadline v) \<and> \<not> After (sso_Deadline v) (sso_RequestedAt v) then Inl corruptData
     else if sso_RetryBudget v < 0 \<or> (sso_ClaimOwner v = [] \<and> \<not> IsZero (sso_ClaimUntil v))
             \<or> (sso_ClaimOwner v \<noteq> [] \<and> IsZero (sso_ClaimUntil v))
     then Inl corruptData
     else if sso_DesiredState v \<noteq> [] \<and> sso_DesiredState v \<noteq> ''running'' \<and> sso_DesiredState v \<noteq> ''stopped''
     then Inl corruptData
     else case kget (sd_slots d) (sso_SlotID v) of
       None \<Rightarrow> Inl corruptData
     | Some rawSlot \<Rightarrow> bindE (decode rawSlot) (\<lambda>current.
         ensureE (sl_PoolID current = sso_PoolID v) corruptData))"

definition validateSlotSessionControlTx :: "ydb \<Rightarrow> unit result" where
  "validateSlotSessionControlTx d =
     bindE (forEachE (validateSessionEntry (yd_db d)) (yd_ops d)) (\<lambda>_.
     validateIndex (yd_ops d) (yd_index d))"

section \<open>The whole database\<close>

definition requiredBuckets :: "string list" where
  "requiredBuckets =
     [MetaBucket, ''accounts'', ''requests'', ''request_idempotency'', ''audits'', ''events'', ''leases'', ''queue'',
      ''credentials'', ''credential_audits'', ''matrix_notifications'', ''account_deletions'', ''matrix_sync_cursors'',
      ''job_pools'', ''execution_slots'', ''slot_leases'', ''environment_summaries'', ''environment_packages'',
      ''job_pool_operations'', ''job_pool_idempotency'', ''job_pool_audit'', ''environment_operations'',
      ''environment_idempotency'', ''environment_audit'', ''slot_session_operations'', ''slot_session_idempotency'']"

definition validateTables :: "database \<Rightarrow> unit result" where
  "validateTables v =
     (let d = vd_tables v; core = sd_core d
      in bindE (validateAccountsTx core) (\<lambda>_.
         bindE (validateRequestsTx core) (\<lambda>_.
         bindE (validateIdempotencyTx core) (\<lambda>_.
         bindE (validateLeasesTx core) (\<lambda>_.
         bindE (validateQueueTx core) (\<lambda>_.
         bindE (validateCredentialsTx (credentialView v)) (\<lambda>_.
         bindE (validateNotificationsTx core) (\<lambda>_.
         bindE (validateDeletionsTx core) (\<lambda>_.
         bindE (validateMatrixSyncCursorTx (vd_cursors v)) (\<lambda>_.
         bindE (validateJobPoolsTx d) (\<lambda>_.
         bindE (validateSlotsTx d) (\<lambda>_.
         bindE (validateEnvironmentSummariesTx d) (\<lambda>_.
         bindE (validateEnvironmentPackagesTx d) (\<lambda>_.
         bindE (validateJobPoolControlTx (jobView v)) (\<lambda>_.
         bindE (validateSlotSessionControlTx (sessionView v)) (\<lambda>_.
         bindE (validateEnvironmentOperationsTx (environmentView v)) (\<lambda>_.
         validateEventsTx core)))))))))))))))))"

definition validateDB :: "database \<Rightarrow> unit result" where
  "validateDB v =
     bindE (Version (vd_schema v)) (\<lambda>version.
     if version \<noteq> CurrentVersion then Inl (RestoreErr ErrInvalidRestore)
     else view (\<lambda>v. if list_ex (\<lambda>name. kget (vd_schema v) name = None) requiredBuckets then Inl corruptData
                    else validateTables v) v)"

text \<open>The error of a backup that does not validate.\<close>

definition validateBackupFile :: "database \<Rightarrow> unit result" where
  "validateBackupFile v = mapErr (\<lambda>_. RestoreErr ErrInvalidRestore) (validateDB v)"

end
