(* ===== verification/StoreValidation.thy ===== *)
theory StoreValidation
  imports Validate StoreRuns
begin

text \<open>
  The validation of the account tables on the databases that the store builds: all its passes accept,
  but for two states that the operations of the store allow and the program does not use.
  The passes look at links between the tables that the invariant of the store does not need: a
  notification belongs to a stored event and request, and leases and deletions to accounts that
  exist. Every operation keeps them, because events and accounts are never removed.
\<close>

section \<open>Checks as properties\<close>

named_theorems accepts \<open>what it means that a check accepts\<close>

lemma foldE_unit: "foldE (\<lambda>x _. f x) xs () = Inr () \<longleftrightarrow> (\<forall>x \<in> set xs. f x = Inr ())"
  by (induction xs) auto

lemma forEachE_iff [accepts]: "forEachE f m = Inr () \<longleftrightarrow> (\<forall>k v. kget m k = Some v \<longrightarrow> f k v = Inr ())"
proof -
  have "forEachE f m = foldE (\<lambda>x _. f (fst x) (snd x)) (kentries m) ()"
    unfolding forEachE_def by (simp add: case_prod_beta')
  then show ?thesis by (auto simp: foldE_unit simp flip: kentries_iff)
qed

section \<open>Links\<close>

definition noticeLinked :: "db \<Rightarrow> Notification \<Rightarrow> bool" where
  "noticeLinked d n \<longleftrightarrow>
     (\<exists>a. kget (db_events d) (nt_EventID n) = Some (Json a) \<and> ev_AccountID (ar_Event a) = nt_AccountID n \<and>
        ev_RequestID (ar_Event a) = nt_RequestID n \<and> ev_To (ar_Event a) = nt_State n \<and> ev_OccurredAt (ar_Event a) = nt_OccurredAt n) \<and>
     (\<exists>q. kget (db_requests d) (nt_RequestID n) = Some (Json q) \<and> rq_AccountID q = nt_AccountID n)"

definition sameNotice :: "Notification \<Rightarrow> Notification \<Rightarrow> bool" where
  "sameNotice m n \<longleftrightarrow> nt_EventID n = nt_EventID m \<and> nt_AccountID n = nt_AccountID m \<and> nt_RequestID n = nt_RequestID m \<and>
     nt_State n = nt_State m \<and> nt_OccurredAt n = nt_OccurredAt m"

definition linked :: "db \<Rightarrow> bool" where
  "linked d \<longleftrightarrow> (\<forall>i n. kget (db_notifications d) i = Some (Json n) \<longrightarrow> noticeLinked d n) \<and>
     (\<forall>a. kget (db_leases d) a \<noteq> None \<longrightarrow> kget (db_accounts d) a \<noteq> None) \<and>
     (\<forall>a. kget (db_deletions d) a \<noteq> None \<longrightarrow> kget (db_accounts d) a \<noteq> None)"

text \<open>What an operation may do: add, and rewrite notifications without changing what they are about.\<close>

definition grows :: "db \<Rightarrow> db \<Rightarrow> bool" where
  "grows d d' \<longleftrightarrow> keepsRequests d d' \<and> (\<forall>a. kget (db_accounts d) a \<noteq> None \<longrightarrow> kget (db_accounts d') a \<noteq> None) \<and>
     (\<forall>i v. kget (db_events d) i = Some v \<longrightarrow> kget (db_events d') i = Some v)"

definition extends :: "db \<Rightarrow> db \<Rightarrow> bool" where
  "extends d d' \<longleftrightarrow> grows d d' \<and>
     (\<forall>i n. kget (db_notifications d') i = Some (Json n) \<longrightarrow>
        noticeLinked d' n \<or> (\<exists>m. kget (db_notifications d) i = Some (Json m) \<and> sameNotice m n)) \<and>
     (\<forall>a. kget (db_leases d') a \<noteq> None \<longrightarrow> kget (db_leases d) a \<noteq> None \<or> kget (db_accounts d') a \<noteq> None) \<and>
     (\<forall>a. kget (db_deletions d') a \<noteq> None \<longrightarrow> kget (db_deletions d) a \<noteq> None \<or> kget (db_accounts d') a \<noteq> None)"

lemma sameNotice_refl [simp]: "sameNotice n n"
  by (simp add: sameNotice_def)

lemma grows_refl [simp]: "grows d d"
  by (auto simp: grows_def intro: keeps_refl)

lemma grows_trans: "grows d e \<Longrightarrow> grows e f \<Longrightarrow> grows d f"
  unfolding grows_def by (meson keeps_trans)

lemma noticeLinked_grows:
  assumes "noticeLinked d m" "grows d d'" "sameNotice m n" shows "noticeLinked d' n"
proof -
  obtain q where "kget (db_requests d) (nt_RequestID n) = Some (Json q)" "rq_AccountID q = nt_AccountID n"
    using assms(1,3) by (auto simp: noticeLinked_def sameNotice_def)
  then obtain q' where "kget (db_requests d') (nt_RequestID n) = Some (Json q')" "rq_AccountID q' = nt_AccountID n"
    using assms(2) by (fastforce simp: grows_def keepsRequests_def laterRequest_def sameRequest_def)
  then show ?thesis using assms unfolding noticeLinked_def sameNotice_def grows_def by metis
qed

lemma growsD:
  assumes "grows d d'"
  shows "keepsRequests d d'" "kget (db_accounts d) a \<noteq> None \<Longrightarrow> kget (db_accounts d') a \<noteq> None"
    "kget (db_events d) i = Some v \<Longrightarrow> kget (db_events d') i = Some v"
  using assms unfolding grows_def by blast+

lemma extendsD:
  assumes "extends d d'"
  shows "grows d d'"
    "kget (db_notifications d') i = Some (Json n) \<Longrightarrow>
       noticeLinked d' n \<or> (\<exists>m. kget (db_notifications d) i = Some (Json m) \<and> sameNotice m n)"
    "kget (db_leases d') a \<noteq> None \<Longrightarrow> kget (db_leases d) a \<noteq> None \<or> kget (db_accounts d') a \<noteq> None"
    "kget (db_deletions d') a \<noteq> None \<Longrightarrow> kget (db_deletions d) a \<noteq> None \<or> kget (db_accounts d') a \<noteq> None"
  using assms unfolding extends_def by auto

lemma linkedD:
  assumes "linked d"
  shows "kget (db_notifications d) i = Some (Json n) \<Longrightarrow> noticeLinked d n"
    "kget (db_leases d) a \<noteq> None \<Longrightarrow> kget (db_accounts d) a \<noteq> None"
    "kget (db_deletions d) a \<noteq> None \<Longrightarrow> kget (db_accounts d) a \<noteq> None"
  using assms unfolding linked_def by auto

lemma extends_linked:
  assumes "linked d" "extends d d'" shows "linked d'"
  unfolding linked_def
proof (intro conjI allI impI)
  note E = extendsD [OF assms(2)] and L = linkedD [OF assms(1)] and G = growsD [OF extendsD(1) [OF assms(2)]]
  show "noticeLinked d' n" if "kget (db_notifications d') i = Some (Json n)" for i n
    using E(2) [OF that] L(1) noticeLinked_grows [OF _ E(1)] by metis
  show "kget (db_accounts d') a \<noteq> None" if "kget (db_leases d') a \<noteq> None" for a using E(3) [OF that] L(2) G(2) by metis
  show "kget (db_accounts d') a \<noteq> None" if "kget (db_deletions d') a \<noteq> None" for a using E(4) [OF that] L(3) G(2) by metis
qed

lemma extends_trans:
  assumes "extends d e" "extends e f" shows "extends d f"
  unfolding extends_def
proof (intro conjI allI impI)
  note E = extendsD [OF assms(1)] and F = extendsD [OF assms(2)]
  show "grows d f" using E(1) F(1) by (rule grows_trans)
  show "noticeLinked f n \<or> (\<exists>m. kget (db_notifications d) i = Some (Json m) \<and> sameNotice m n)"
    if n: "kget (db_notifications f) i = Some (Json n)" for i n
  proof (cases "noticeLinked f n")
    case False
    then obtain m where m: "kget (db_notifications e) i = Some (Json m)" "sameNotice m n" using F(2) [OF n] by blast
    from E(2) [OF m(1)] show ?thesis
      using False m(2) noticeLinked_grows [OF _ F(1) m(2)] by (auto simp: sameNotice_def)
  qed simp
  show "kget (db_leases d) a \<noteq> None \<or> kget (db_accounts f) a \<noteq> None" if "kget (db_leases f) a \<noteq> None" for a
    using F(3) [OF that] E(3) growsD(2) [OF F(1)] by metis
  show "kget (db_deletions d) a \<noteq> None \<or> kget (db_accounts f) a \<noteq> None" if "kget (db_deletions f) a \<noteq> None" for a
    using F(4) [OF that] E(4) growsD(2) [OF F(1)] by metis
qed

lemma extends_refl [simp]: "extends d d"
  by (auto simp: extends_def)

text \<open>Changes of a single table.\<close>

lemma extends_requests:
  assumes "keepsRequests d d'" "db_accounts d' = db_accounts d" "db_events d' = db_events d" "db_notifications d' = db_notifications d"
    "db_leases d' = db_leases d" "db_deletions d' = db_deletions d"
  shows "extends d d'"
  using assms by (auto simp: extends_def grows_def)

lemma extends_leases:
  assumes "\<And>a. kget x a \<noteq> None \<Longrightarrow> kget (db_leases d) a \<noteq> None \<or> kget (db_accounts d) a \<noteq> None"
  shows "extends d (d\<lparr>db_leases := x\<rparr>)"
  using assms by (auto simp: extends_def grows_def keepsRequests_def)

lemma extends_deleteLease: "extends d (deleteLease a d)"
  unfolding deleteLease_def by (rule extends_leases) (simp split: if_splits)

lemma extends_putLease: "kget (db_accounts d) a \<noteq> None \<or> kget (db_leases d) a \<noteq> None \<Longrightarrow> extends d (putLease a l d)"
  unfolding putLease_def by (rule extends_leases) (auto split: if_splits)

lemma extends_deletion:
  "kget (db_accounts d) a \<noteq> None \<or> kget (db_deletions d) a \<noteq> None \<Longrightarrow> extends d (d\<lparr>db_deletions := kput a y (db_deletions d)\<rparr>)"
  by (auto simp: extends_def grows_def keepsRequests_def)

lemma extends_notice:
  assumes "noticeLinked d n \<or> (\<exists>m. kget (db_notifications d) (nt_EventID n) = Some (Json m) \<and> sameNotice m n)"
  shows "extends d (putNotification n d)"
proof -
  have "noticeLinked (putNotification n d) = noticeLinked d" by (rule ext) (simp add: noticeLinked_def putNotification_def)
  then show ?thesis using assms by (auto simp: extends_def grows_def keepsRequests_def) (auto simp: putNotification_def split: if_splits)
qed

section \<open>Events\<close>

lemma applyEventTx_extends:
  assumes "store_inv d" "applyEventTx e d = Inr (r, d')"
  shows "extends d d'"
proof (cases "tr_Idempotent r")
  case True
  then show ?thesis using applyEventTx_replay [OF assms(2)] by simp
next
  case False
  obtain s q where n: "newEvent e s r q d"
    and w: "enqueueNotificationTx e (requestAfter e r q) (eventWrites e s r (requestAfter e r q) d) = Inr d'"
    using applyEventTx_new [OF assms(2) False] by metis
  let ?d = "eventWrites e s r (requestAfter e r q) d"
  note F = newEvent_facts [OF assms(1) n] and N = newEventD [OF n]
  have new: "kget (db_events d) (ev_EventID e) = None" using N by simp
  have keep: "keepsRequests d ?d"
    using F(1,2,4,8) by (auto simp: keepsRequests_def eventWrites_def laterRequest_def sameRequest_def)
  then have "grows d ?d"
    using new by (auto simp: grows_def eventWrites_def)
  then have base: "extends d ?d" by (auto simp: extends_def eventWrites_def)
  have req: "kget (db_requests ?d) (ev_RequestID e) = Some (Json (requestAfter e r q))"
    "rq_AccountID (requestAfter e r q) = ev_AccountID e" "rq_RequestID (requestAfter e r q) = ev_RequestID e"
    using F(2) N(5) by (simp_all add: eventWrites_def requestAfter_def)
  have "kget (db_events ?d) (ev_EventID e) = Some (Json (tr_Audit r))" by (simp add: eventWrites_def)
  then have "noticeLinked ?d (newNotification e (requestAfter e r q))"
    using req F(10) by (auto simp: noticeLinked_def newNotification_def)
  then have "extends ?d d'"
    using w extends_notice by (auto simp: enqueueNotificationTx_iff)
  then show ?thesis using base extends_trans by blast
qed

section \<open>The operations\<close>

lemma update_extends:
  assumes "update c fn d = (r, d')" "\<And>x d'. fn d = Inr (x, d') \<Longrightarrow> extends d d'"
  shows "extends d d'"
  using update_cases [OF assms(1)] assms(2) extends_refl by blast

lemma extends_putRequest:
  "kget (db_requests d) (rq_RequestID q') = Some (Json q) \<Longrightarrow> laterRequest q q' \<Longrightarrow> extends d (putRequest q' d)"
  using keeps_put by (intro extends_requests) (blast, simp_all add: putRequest_def)

lemma account_of_lease_event:
  assumes "applyEventTx e d = Inr (r, d')"
  shows "kget (db_accounts d') (ev_AccountID e) \<noteq> None"
  using applyEventTx_refines(1) [OF assms] by (auto simp: snapshotFromTx_iff)

lemma claimTx_extends:
  assumes "store_inv d" "claimTx c m d = Inr (cl, d')"
  shows "extends d d'"
  using assms(2)
proof (cases rule: claimTx_cases)
  case (2 n queued)
  obtain q s l where "claimCandidate c q s l d = Inr (cl, d')" using claimLoop_success [OF 2(5)] by metis
  with assms(1) 2(1) show ?thesis
  proof (rule claimCandidate_effect)
    fix d1 x
    assume a: "applyEventTx (claimEvent c q s) d = Inr (cl_Transition cl, d1)"
      "kget (db_requests d1) (rq_RequestID q) = Some (Json (requestAfter (claimEvent c q s) (cl_Transition cl) x))"
      "cl_Request cl = x\<lparr>rq_State := Starting, rq_UpdatedAt := ca_now c, rq_NotBefore := 0, rq_Attempt := rq_Attempt x + 1\<rparr>"
      "rq_RequestID x = rq_RequestID q" "d' = putLease (rq_AccountID q) l (putRequest (cl_Request cl) d1)"
    have "extends d d1" by (rule applyEventTx_extends [OF assms(1) a(1)])
    moreover have "extends d1 (putRequest (cl_Request cl) d1)"
      by (rule extends_putRequest) (use a in \<open>auto simp: laterRequest_def sameRequest_def\<close>)
    moreover have "kget (db_accounts d1) (rq_AccountID q) \<noteq> None"
      using account_of_lease_event [OF a(1)] by (simp add: claimEvent_def)
    then have "extends (putRequest (cl_Request cl) d1) d'"
      unfolding a(5) by (intro extends_putLease) (simp add: putRequest_def)
    ultimately show ?thesis using extends_trans by blast
  qed
qed simp

lemma setNotificationFailureTx_extends:
  "setNotificationFailureTx i c d = Inr d' \<Longrightarrow> store_inv d \<Longrightarrow> extends d d'"
  using store_invD(9) [of d]
  by (fastforce simp: setNotificationFailureTx_def Let_def inv_notifications_def sameNotice_def
      split: option.splits intro!: extends_notice)

lemma failureTx_extends:
  assumes inv: "store_inv d" and at: "re \<noteq> None \<Longrightarrow> at \<noteq> 0" and ok: "failureTx e c at re x ax d = Inr (fr, d')"
  shows "extends d d'"
proof (cases "tr_Idempotent (fr_Failed fr)")
  case True
  obtain f d1 where f: "applyEventTx e d = Inr (f, d1)" using ok by (auto simp: failureTx_def)
  have "tr_Idempotent f"
    using ok f True by (auto simp: failureTx_def Let_def split: prod.splits option.splits if_splits)
  then have r: "replayFailureTx e f re d = Inr (fr, d')" using ok f applyEventTx_replay [OF f] by (simp add: failureTx_def)
  then have "d' = d \<or> (\<exists>re' t. applyEventTx re' d = Inr (t, d'))"
    by (auto simp: replayFailureTx_def split: option.splits if_splits prod.splits)
  then show ?thesis using applyEventTx_extends [OF inv] extends_refl by blast
next
  case False
  from ok this show ?thesis
  proof (rule failureTx_new)
    fix d1 d3
    assume a: "applyEventTx e d = Inr (fr_Failed fr, d1)"
      and c: "case re of
       None \<Rightarrow> fr_Retried fr = None \<and> d3 = deleteLease (ev_AccountID e) d1 \<and>
         (\<exists>q. requestFromTx d3 (ev_RequestID e) = Inr q \<and>
            fr_Request fr = q\<lparr>rq_LastFailure := c, rq_UpdatedAt := ev_OccurredAt e\<rparr>)
     | Some r \<Rightarrow> (\<exists>t. fr_Retried fr = Some t \<and>
         requeueTx e c at (fr_Failed fr) r (deleteLease (ev_AccountID e) d1) = Inr ((t, fr_Request fr), d3))"
      and v: "Request_Validate (fr_Request fr) = Inr ()"
      and n: "setNotificationFailureTx (ev_EventID e) c (putRequest (fr_Request fr) d3) = Inr d'"
    let ?d2 = "deleteLease (ev_AccountID e) d1"
    have i2: "store_inv ?d2" using a inv by (auto intro: inv_intros)
    have "extends d d1" by (rule applyEventTx_extends [OF inv a])
    then have k2: "extends d ?d2" using extends_deleteLease extends_trans by blast
    have "\<exists>q. store_inv d3 \<and> extends ?d2 d3 \<and> requestFromTx d3 (ev_RequestID e) = Inr q \<and> laterRequest q (fr_Request fr) \<and>
        rq_State (fr_Request fr) = rq_State q \<and>
        (rq_NotBefore (fr_Request fr) = rq_NotBefore q \<or> rq_NotBefore (fr_Request fr) \<noteq> 0)"
    proof (cases re)
      case None
      then show ?thesis using c i2 by (fastforce simp: laterRequest_def sameRequest_def)
    next
      case (Some r)
      with c obtain t where t: "requeueTx e c at (fr_Failed fr) r ?d2 = Inr ((t, fr_Request fr), d3)" by auto
      then show ?thesis
        using requeueTx_facts(7) [OF t] applyEventTx_extends [OF i2 requeueTx_facts(1) [OF t]] at Some
          applyEventTx_inv [OF i2 requeueTx_facts(1) [OF t]] by (fastforce simp: laterRequest_def sameRequest_def)
    qed
    then obtain q where q: "store_inv d3" "extends ?d2 d3" "requestFromTx d3 (ev_RequestID e) = Inr q"
      "laterRequest q (fr_Request fr)" "rq_State (fr_Request fr) = rq_State q"
      "rq_NotBefore (fr_Request fr) = rq_NotBefore q \<or> rq_NotBefore (fr_Request fr) \<noteq> 0" by blast
    have r: "kget (db_requests d3) (rq_RequestID (fr_Request fr)) = Some (Json q)"
      using q(1,3,4) requestFromTx_ok [OF store_invD(4) [OF q(1)] q(3)]
      by (auto simp: requestFromTx_inv [OF store_invD(4) [OF q(1)]] laterRequest_def sameRequest_def requestOk_def)
    have "extends d3 (putRequest (fr_Request fr) d3)" by (rule extends_putRequest [OF r q(4)])
    moreover have "store_inv (putRequest (fr_Request fr) d3)"
      by (rule rescheduled_inv [OF q(1,3) _ q(5) v q(6)]) (use q(4) in \<open>simp add: laterRequest_def\<close>)
    then have "extends (putRequest (fr_Request fr) d3) d'" by (rule setNotificationFailureTx_extends [OF n])
    ultimately show ?thesis using k2 q(2) extends_trans by blast
  qed
qed

lemma createRequestTx_extends: "createRequestTx q d = Inr ((q', k), d') \<Longrightarrow> extends d d'"
  by (erule createRequestTx_cases) (auto intro!: extends_requests keeps_new)

lemma submitTx_extends:
  assumes "store_inv d" "Request_Validate q = Inr ()" "submitTx q e d = Inr ((q', k), d')"
  shows "extends d d'"
proof -
  obtain x kn d1 where s: "submitRequestTx q d = Inr ((x, kn), d1)" and r: "d' = d1 \<or> (\<exists>t. applyEventTx e d1 = Inr (t, d'))"
    using assms(3) by (auto simp: submitTx_def split: prod.splits if_splits)
  have "store_inv d1" by (rule submitRequestTx_inv [OF assms(1,2) s])
  moreover have "extends d d1"
    using s createRequestTx_extends by (auto simp: submitRequestTx_def split: option.splits)
  ultimately show ?thesis using r applyEventTx_extends extends_trans by blast
qed

lemma finishTx_extends:
  assumes "store_inv d" "finishTx e l ax rx d = Inr (y, d')" shows "extends d d'"
proof -
  obtain t d1 where t: "applyEventTx e d = Inr (t, d1)" "d' = d1 \<or> d' = deleteLease (ev_AccountID e) d1"
    using assms(2) by (auto simp: finishTx_def split: if_splits)
  then show ?thesis using applyEventTx_extends [OF assms(1) t(1)] extends_deleteLease extends_trans by blast
qed

lemma lease_ops_extend:
  "Store_AcquireLease c a now i w ttl d = (r1, d') \<Longrightarrow> extends d d'"
  "Store_HeartbeatLease c a now i w ttl d = (r2, d') \<Longrightarrow> extends d d'"
  "Store_ReleaseLease c a i w d = (r3, d') \<Longrightarrow> extends d d'"
proof -
  have a: "snapshotFromTx d a = Inr s \<Longrightarrow> extends d (putLease a l d)" for s l
    by (intro extends_putLease) (simp add: snapshotFromTx_iff)
  show "Store_AcquireLease c a now i w ttl d = (r1, d') \<Longrightarrow> extends d d'"
    unfolding Store_AcquireLease_def by (erule update_extends) (auto intro: a)
  show "Store_HeartbeatLease c a now i w ttl d = (r2, d') \<Longrightarrow> extends d d'"
    unfolding Store_HeartbeatLease_def by (erule update_extends) (auto intro: a split: option.splits)
  show "Store_ReleaseLease c a i w d = (r3, d') \<Longrightarrow> extends d d'"
    unfolding Store_ReleaseLease_def by (erule update_extends) (auto intro: extends_deleteLease split: option.splits)
qed

lemma deletion_ops_extend:
  assumes "store_inv d"
  shows "RequestDeletion c x d = (r1, d') \<Longrightarrow> extends d d'" "AdvanceDeletion c ev d = (r2, d') \<Longrightarrow> extends d d'"
proof -
  have put: "extends d e" if "putDeletion y d = Inr e" "kget (db_accounts d) (ds_AccountID y) \<noteq> None \<or> kget (db_deletions d) (ds_AccountID y) \<noteq> None"
    for y e
    using that by (auto simp: putDeletion_def intro!: extends_deletion)
  have q: "extends d e" if "requestDeletionTx i d = Inr (y, e)" for i y e
    using that by (auto simp: requestDeletionTx_def NewDeletion_def Let_def split: option.splits if_splits intro!: put)
  show "RequestDeletion c x d = (r1, d') \<Longrightarrow> extends d d'"
    unfolding RequestDeletion_def Let_def by (auto split: if_splits elim!: update_extends intro: q)
  have v: "extends d e" if adv: "advanceDeletionTx ev d = Inr (y, e)" for y e
  proof -
    obtain raw where raw: "kget (db_deletions d) (de_AccountID ev) = Some raw"
      using adv by (cases "kget (db_deletions d) (de_AccountID ev)") (auto simp: advanceDeletionTx_def)
    then obtain s where s: "raw = Json s" "ds_AccountID s = de_AccountID ev"
      using store_invD(10) [OF assms] by (auto simp: inv_deletions_def)
    then obtain t where t: "ApplyDeletion s ev = Inr t" "e = d \<or> putDeletion (dt_State t) d = Inr e"
      using adv raw by (auto simp: advanceDeletionTx_def split: if_splits)
    have "ds_AccountID (dt_State t) = de_AccountID ev"
      using t(1) s(2) by (auto simp: ApplyDeletion_def nextDeletion_def Let_def DeletionSnapshot_Clone_def split: option.splits if_splits prod.splits)
    then show ?thesis using t(2) raw put by auto
  qed
  show "AdvanceDeletion c ev d = (r2, d') \<Longrightarrow> extends d d'"
    unfolding AdvanceDeletion_def by (auto split: sum.splits elim!: update_extends intro: v)
qed

lemma claimEach_extends:
  assumes "claimEach now w ttl ns d = Inr (r, d')" "\<And>n. n \<in> set ns \<Longrightarrow> \<exists>m. kget (db_notifications d) (nt_EventID n) = Some (Json m) \<and> sameNotice m n"
  shows "extends d d'"
  using assms
proof (induction ns arbitrary: d r)
  case (Cons n ns)
  let ?n = "claimNotification now w ttl n"
  obtain y where y: "claimEach now w ttl ns (putNotification ?n d) = Inr (y, d')"
    using Cons.prems(1) by (auto simp: Let_def split: if_splits)
  have same: "sameNotice n ?n" "nt_EventID ?n = nt_EventID n" by (simp_all add: sameNotice_def claimNotification_def)
  have "\<exists>m. kget (db_notifications (putNotification ?n d)) (nt_EventID x) = Some (Json m) \<and> sameNotice m x"
    if x: "x \<in> set ns" for x
  proof (cases "nt_EventID x = nt_EventID n")
    case True
    obtain m where "kget (db_notifications d) (nt_EventID n) = Some (Json m)" "sameNotice m n"
      using Cons.prems(2) [of n] by auto
    moreover obtain m' where "kget (db_notifications d) (nt_EventID x) = Some (Json m')" "sameNotice m' x"
      using Cons.prems(2) [of x] x by auto
    ultimately show ?thesis using True same(1) by (auto simp: putNotification_def same(2) sameNotice_def)
  next
    case False
    then show ?thesis using Cons.prems(2) [of x] x by (auto simp: putNotification_def same(2))
  qed
  then have "extends (putNotification ?n d) d'" using Cons.IH [OF y] by blast
  moreover have "extends d (putNotification ?n d)"
  proof (rule extends_notice)
    obtain m where "kget (db_notifications d) (nt_EventID n) = Some (Json m)" "sameNotice m n"
      using Cons.prems(2) [of n] by auto
    then show "noticeLinked d ?n \<or> (\<exists>m. kget (db_notifications d) (nt_EventID ?n) = Some (Json m) \<and> sameNotice m ?n)"
      using same by (auto simp: sameNotice_def)
  qed
  ultimately show ?case using extends_trans by blast
qed simp

lemma updateNotification_extends:
  assumes "updateNotification c i w now f d = (r, d')" "store_inv d" "\<And>n m. f n = Inr m \<Longrightarrow> sameNotice n m"
  shows "extends d d'"
  using assms(1) unfolding updateNotification_def
proof (rule update_extends)
  fix x e
  assume u: "(case kget (db_notifications d) i of
         None \<Rightarrow> Inl (NotificationErr ErrNotificationNotFound)
       | Some raw \<Rightarrow>
           bindE (decode raw) (\<lambda>notification.
           bindE (corrupt (Notification_Validate notification)) (\<lambda>_.
           if \<not> IsZero (nt_DeliveredAt notification) then Inr ((), d)
           else if nt_ClaimedBy notification \<noteq> w then Inl (NotificationErr ErrNotificationLease)
           else if \<not> Before now (nt_ClaimExpiresAt notification)
           then Inl (NotificationErr ErrNotificationExpired)
           else
             bindE (f notification) (\<lambda>notification.
             bindE (corrupt (Notification_Validate notification)) (\<lambda>_.
             Inr ((), putNotification notification d)))))) = Inr (x, e)"
  then obtain n where n: "kget (db_notifications d) i = Some (Json n)"
    and e: "e = d \<or> (\<exists>m. f n = Inr m \<and> e = putNotification m d)"
    by (auto split: option.splits if_splits)
  have "nt_EventID n = i" using n store_invD(9) [OF assms(2)] by (auto simp: inv_notifications_def)
  then show "extends d e" using e n assms(3) by (auto intro!: extends_notice) (auto simp: sameNotice_def)
qed

lemma claimableEntry_sound:
  "foldE (claimableEntry now) ps acc = Inr ns \<Longrightarrow> n \<in> set ns \<Longrightarrow> n \<in> set acc \<or> (\<exists>k. (k, Json n) \<in> set ps)"
proof (induction ps arbitrary: acc)
  case (Cons p ps)
  then obtain acc' where a: "claimableEntry now p acc = Inr acc'" "foldE (claimableEntry now) ps acc' = Inr ns" by auto
  have "x \<in> set acc' \<Longrightarrow> x \<in> set acc \<or> snd p = Json x" for x
    using a(1) by (auto simp: claimableEntry_def split: if_splits prod.splits)
  then show ?case using Cons.IH [OF a(2) Cons.prems(2)] by (metis list.set_intros prod.collapse)
qed simp

lemma storeStep_extends:
  assumes "storeStep d d'" and inv: "store_inv d"
  shows "extends d d'"
  using assms(1)
proof (cases rule: storeStep.cases)
  case (create_account c a r)
  have "extends d (putAccountProjection s d)" for s
    by (auto simp: putAccountProjection_def extends_def grows_def keepsRequests_def)
  then show ?thesis using create_account
    by (auto simp: CreateAccount_def split: sum.splits if_splits elim!: update_extends)
next
  case (apply_event c e r)
  then show ?thesis unfolding ApplyEvent_def by (rule update_extends) (rule applyEventTx_extends [OF inv])
next
  case (create_request c q r)
  then show ?thesis unfolding CreateRequest_def
    by (cases "Request_Validate q") (auto intro: createRequestTx_extends elim!: update_extends)
next
  case (submit_request c q e r)
  from SubmitRequest_update [OF submit_request] show ?thesis
    using update_extends [of c "submitTx q e" d r d'] submitTx_extends [OF inv] by auto
next
  case (claim_next x c m r)
  from ClaimNext_update [OF claim_next(2)] show ?thesis
    using update_extends [of c "claimTx x m" d r d'] claimTx_extends [OF inv] by auto
next
  case (cancel c e l ax r)
  then show ?thesis unfolding cancelRequest_def
    by (auto split: if_splits intro: finishTx_extends [OF inv] elim!: update_extends)
next
  case (complete c e l ax r)
  then show ?thesis unfolding completeRequest_def
    by (auto split: if_splits intro: finishTx_extends [OF inv] elim!: update_extends)
next
  case (failure c e cl at re l ax r)
  have "d' = d \<or> (re \<noteq> None \<longrightarrow> at \<noteq> 0) \<and> update c (failureTx e cl at re l ax) d = (r, d')"
    using failure unfolding recordFailure_def by (auto split: if_splits)
  then show ?thesis
  proof (elim disjE conjE)
    assume at: "re \<noteq> None \<longrightarrow> at \<noteq> 0" and u: "update c (failureTx e cl at re l ax) d = (r, d')"
    show ?thesis by (rule update_extends [OF u], rule failureTx_extends [OF inv]) (use at in auto)
  qed simp
next
  case (claim_notifications now c w ttl n r)
  have "extends d z" if claim: "claimNotificationsTx now w ttl n d = Inr (y, z)" for y z
  proof -
    obtain cs where cs: "foldE (claimableEntry now) (kentries (db_notifications d)) [] = Inr cs"
      "claimEach now w ttl (take (nat n) (sortNotifications cs)) d = Inr (y, z)"
      using claim by (auto simp: claimNotificationsTx_def)
    show ?thesis
    proof (rule claimEach_extends [OF cs(2)])
      fix x assume "x \<in> set (take (nat n) (sortNotifications cs))"
      then have "x \<in> set cs" using set_take_subset by (fastforce simp: sortNotifications_def)
      then obtain k where k: "kget (db_notifications d) k = Some (Json x)"
        using claimableEntry_sound [OF cs(1)] by (auto simp: kentries_iff)
      then have "nt_EventID x = k" using store_invD(9) [OF inv] by (auto simp: inv_notifications_def)
      then show "\<exists>m. kget (db_notifications d) (nt_EventID x) = Some (Json m) \<and> sameNotice m x" using k by auto
    qed
  qed
  then show ?thesis using claim_notifications(2) unfolding ClaimNotifications_def
    by (auto split: if_splits elim!: update_extends)
next
  case (complete_notification c i w at r)
  then show ?thesis
    by (auto simp: CompleteNotification_def sameNotice_def split: if_splits elim!: updateNotification_extends [OF _ inv])
next
  case (retry_notification c i w now at r)
  then show ?thesis
    by (auto simp: RetryNotification_def sameNotice_def split: if_splits elim!: updateNotification_extends [OF _ inv])
next
  case (reopen c r)
  then show ?thesis using rebuildQueueIndex_inv [OF inv reopen] by simp
qed (auto intro: lease_ops_extend deletion_ops_extend [OF inv])

lemma storeRun_linked: "storeRun d d' \<Longrightarrow> store_inv d \<Longrightarrow> linked d \<Longrightarrow> store_inv d' \<and> linked d'"
  by (induction rule: storeRun.induct) (auto intro: storeStep_inv extends_linked storeStep_extends)

lemma emptyDB_linked: "linked emptyDB"
  by (simp add: linked_def emptyDB_def)

section \<open>Passes that always accept\<close>

lemma snapshot_of:
  assumes "store_inv d" "kget (db_accounts d) a = Some v"
  obtains s where "snapshotFromTx d a = Inr s" "v = Json (projOf s)" "sn_AccountID s = a"
    "sn_Status s = NoRequest \<Longrightarrow> sn_RequestID s = []"
proof -
  obtain s where s: "snapshotFromTx d a = Inr s"
    using store_invD(1) [OF assms(1)] assms(2) unfolding inv_accounts_def by blast
  then have "kget (db_accounts d) a = Some (Json (projOf s))" "sn_AccountID s = a" "Snapshot_Validate s = Inr ()"
    by (simp_all add: snapshotFromTx_iff)
  then show thesis using that [OF s] assms(2) by (auto simp: Snapshot_Validate_def split: if_splits)
qed

lemma request_of:
  assumes "store_inv d" "kget (db_requests d) i = Some v"
  obtains q s where "requestFromTx d i = Inr q" "v = Json q" "rq_RequestID q = i"
    "snapshotFromTx d (rq_AccountID q) = Inr s" "rq_State q \<noteq> NoRequest \<Longrightarrow> mirrors q s"
proof -
  note I = store_invD [OF assms(1)]
  obtain q p where q: "v = Json q" "requestOk i q" "kget (db_accounts d) (rq_AccountID q) = Some (Json p)"
    "rq_State q \<noteq> NoRequest \<Longrightarrow> ap_RequestID p = i \<and> ap_Status p = rq_State q"
    using requests_entry [OF I(4) assms(2)] by metis
  obtain s where s: "snapshotFromTx d (rq_AccountID q) = Inr s" "Json p = Json (projOf s)" "sn_AccountID s = rq_AccountID q"
    using snapshot_of [OF assms(1) q(3)] by metis
  have "requestFromTx d i = Inr q" using assms(2) q(1) by (simp add: requestFromTx_inv [OF I(4)])
  moreover have "rq_State q \<noteq> NoRequest \<Longrightarrow> mirrors q s"
    using q(2,4) s(2,3) by (auto simp: mirrors_def projOf_def requestOk_def)
  ultimately show thesis using that q(1,2) s(1) by (auto simp: requestOk_def)
qed

lemma bound_request:
  assumes "store_inv d" "snapshotFromTx d a = Inr s" "sn_Status s \<noteq> NoRequest"
  obtains q where "requestFromTx d (sn_RequestID s) = Inr q" "mirrors q s"
proof -
  note I = store_invD [OF assms(1)]
  have a: "kget (db_accounts d) a = Some (Json (projOf s))" "sn_AccountID s = a" using assms(2) by (simp_all add: snapshotFromTx_iff)
  then obtain q where q: "kget (db_requests d) (sn_RequestID s) = Some (Json q)" "rq_AccountID q = a" "rq_State q = sn_Status s"
    using I(5) assms(3) unfolding inv_bound_def by fastforce
  then have r: "requestFromTx d (sn_RequestID s) = Inr q" by (simp add: requestFromTx_inv [OF I(4)])
  then have "rq_RequestID q = sn_RequestID s" using requestFromTx_ok [OF I(4) r] by (simp add: requestOk_def)
  with r show thesis using that q a by (simp add: mirrors_def)
qed

lemma accounts_accepted: "store_inv d \<Longrightarrow> validateAccountsTx d = Inr ()"
  unfolding validateAccountsTx_def forEachE_iff
proof (intro allI impI)
  fix a v
  assume inv: "store_inv d" and v: "kget (db_accounts d) a = Some v"
  obtain s where s: "snapshotFromTx d a = Inr s" using snapshot_of [OF inv v] by metis
  show "bindE (snapshotFromTx d a) (\<lambda>snapshot. if sn_Status snapshot = NoRequest then Inr ()
       else bindE (corrupt (requestFromTx d (sn_RequestID snapshot))) (\<lambda>request. ensureE (mirrors request snapshot) corruptData)) = Inr ()"
    using s bound_request [OF inv s] by (auto split: if_splits) 
qed

lemma idempotency_accepted: "store_inv d \<Longrightarrow> validateIdempotencyTx d = Inr ()"
  unfolding validateIdempotencyTx_def forEachE_iff
proof (intro allI impI)
  fix k i
  assume inv: "store_inv d" and i: "kget (db_idempotency d) k = Some i"
  then obtain q where q: "kget (db_requests d) i = Some (Json q)" "rq_IdempotencyKey q = k"
    using store_invD(6) [OF inv] unfolding inv_idempotency_def by blast
  moreover have "rq_RequestID q = i"
    using store_invD(4) [OF inv] q(1) unfolding inv_requests_def requestOk_def by fastforce
  ultimately show "(case kget (db_requests d) i of None \<Rightarrow> Inl corruptData
     | Some raw \<Rightarrow> bindE (decode raw) (\<lambda>request. ensureE (rq_RequestID request = i \<and> rq_IdempotencyKey request = k) corruptData)) = Inr ()"
    by simp
qed

text \<open>The scan of the queue collects the requests of its entries.\<close>

lemma queue_scan:
  assumes "\<And>k i. (k, i) \<in> set ps \<Longrightarrow> \<exists>q. kget (db_requests d) i = Some (Json q) \<and> rq_State q = Queued \<and> rq_RequestID q = i \<and>
      k = queueKey (rq_CreatedAt q) i \<and> i \<noteq> []"
    and "distinct (map snd ps)" "set (map snd ps) \<inter> set acc = {}"
  shows "foldE (validateQueueEntry d) ps acc = Inr (rev (map snd ps) @ acc)"
  using assms
proof (induction ps arbitrary: acc)
  case (Cons p ps)
  obtain k i where p: "p = (k, i)" by fastforce
  obtain q where q: "kget (db_requests d) i = Some (Json q)" "rq_State q = Queued" "rq_RequestID q = i"
    "k = queueKey (rq_CreatedAt q) i" "i \<noteq> []" using Cons.prems(1) [of k i] p by auto
  have "10 \<le> length k" using q(4,5) by (cases i) (simp_all add: queueKey_def)
  moreover have "i \<notin> set acc" using Cons.prems(3) p by auto
  ultimately have "validateQueueEntry d p acc = Inr (i # acc)" using p q by (simp add: validateQueueEntry_def)
  moreover have "foldE (validateQueueEntry d) ps (i # acc) = Inr (rev (map snd ps) @ i # acc)"
    by (rule Cons.IH) (use Cons.prems p in auto)
  ultimately show ?case using p by simp
qed simp

lemma queue_accepted: "store_inv d \<Longrightarrow> validateQueueTx d = Inr ()"
proof -
  assume inv: "store_inv d"
  note I = store_invD [OF inv]
  let ?ps = "kentries (db_queue d)"
  have entry: "\<exists>q. kget (db_requests d) i = Some (Json q) \<and> rq_State q = Queued \<and> rq_RequestID q = i \<and>
      k = queueKey (rq_CreatedAt q) i \<and> i \<noteq> []" if ki: "(k, i) \<in> set ?ps" for k i
  proof -
    obtain q where q: "kget (db_requests d) i = Some (Json q)" "rq_State q = Queued" "k = queueKey (rq_CreatedAt q) i"
      using ki I(7) unfolding kentries_iff inv_queue_def by blast
    have "requestOk i q" using I(4) q(1) unfolding inv_requests_def by fastforce
    then have "rq_RequestID q = i" "i \<noteq> []" by (auto simp: requestOk_def Request_Validate_iff nonEmpty_def go_simps)
    then show ?thesis using q by blast
  qed
  have "distinct (map snd ?ps)"
  proof (rule distinct_map [THEN iffD2], intro conjI inj_onI)
    show "distinct ?ps" using kentries_distinct distinct_map by blast
    fix x y assume xy: "x \<in> set ?ps" "y \<in> set ?ps" "snd x = snd y"
    obtain k l i where e: "x = (k, i)" "y = (l, i)" using xy(3) by (metis prod.collapse)
    show "x = y" using entry [of k i] entry [of l i] xy(1,2) unfolding e by auto
  qed
  then have "foldE (validateQueueEntry d) ?ps [] = Inr (rev (map snd ?ps))" using queue_scan [of ?ps d "[]"] entry by simp
  moreover have "\<exists>q. v = Json q \<and> (rq_State q = Queued \<longrightarrow> rq_RequestID q \<in> set (map snd ?ps))"
    if v: "kget (db_requests d) i = Some v" for i v
  proof -
    obtain q where q: "v = Json q" "rq_RequestID q = i" using request_of [OF inv v] by metis
    have "rq_State q = Queued \<Longrightarrow> (queueKey (rq_CreatedAt q) i, i) \<in> set ?ps"
      using I(7) v q(1) unfolding kentries_iff inv_queue_def by blast
    then show ?thesis using q by force
  qed
  ultimately show ?thesis by (fastforce simp: validateQueueTx_def forEachE_iff)
qed

lemma deletions_accepted: "store_inv d \<Longrightarrow> linked d \<Longrightarrow> validateDeletionsTx d = Inr ()"
  using store_invD(10) [of d] by (fastforce simp: validateDeletionsTx_def forEachE_iff inv_deletions_def dest: linkedD(3))

lemma events_accepted: "store_inv d \<Longrightarrow> validateEventsTx d = Inr ()"
  unfolding validateEventsTx_def forEachE_iff
proof (intro allI impI)
  fix i v
  assume inv: "store_inv d" and v: "kget (db_events d) i = Some v"
  then obtain a where a: "v = Json a" "recID a = i"
    "kget (auditsOf d (ev_AccountID (ar_Event a))) (revisionKey (ar_Revision a)) = Some (Json a)"
    using store_invD(3) [OF inv] unfolding inv_events_def by blast
  then obtain b where b: "kget (db_audits d) (ev_AccountID (ar_Event a)) = Some b" "kget b (revisionKey (ar_Revision a)) = Some (Json a)"
    by (auto simp: auditsOf_def split: option.splits)
  then have "kget (db_accounts d) (ev_AccountID (ar_Event a)) \<noteq> None"
    using store_invD(2) [OF inv] unfolding inv_audits_def by blast
  then show "bindE (decode v) (\<lambda>audit. if i \<noteq> ev_EventID (ar_Event audit) then Inl corruptData
     else if kget (db_accounts d) (ev_AccountID (ar_Event audit)) = None then Inl corruptData
     else case kget (db_audits d) (ev_AccountID (ar_Event audit)) of None \<Rightarrow> Inl corruptData
     | Some trail \<Rightarrow> (case kget trail (revisionKey (ar_Revision audit)) of None \<Rightarrow> Inl corruptData
          | Some rawAudit \<Rightarrow> bindE (decode rawAudit) (\<lambda>indexed. ensureE (auditRecordsEqual audit indexed) corruptData))) = Inr ()"
    using a b by (simp add: auditRecordsEqual_iff)
qed

lemma notifications_accepted:
  assumes inv: "store_inv d" and "linked d" shows "validateNotificationsTx d = Inr ()"
  unfolding validateNotificationsTx_def forEachE_iff
proof (intro allI impI)
  fix i v
  assume v: "kget (db_notifications d) i = Some v"
  then obtain n where n: "v = Json n" "nt_EventID n = i" "Notification_Validate n = Inr ()"
    using store_invD(9) [OF inv] unfolding inv_notifications_def by blast
  then have "noticeLinked d n" using linkedD(1) [OF assms(2)] v by blast
  then obtain a q where a: "kget (db_events d) i = Some (Json a)" "ev_AccountID (ar_Event a) = nt_AccountID n"
      "ev_RequestID (ar_Event a) = nt_RequestID n" "ev_To (ar_Event a) = nt_State n" "ev_OccurredAt (ar_Event a) = nt_OccurredAt n"
    and q: "kget (db_requests d) (nt_RequestID n) = Some (Json q)" "rq_AccountID q = nt_AccountID n"
    using n(2) unfolding noticeLinked_def by auto
  have "requestFromTx d (nt_RequestID n) = Inr q" using q(1) by (simp add: requestFromTx_inv [OF store_invD(4) [OF inv]])
  moreover have "kget (db_accounts d) (nt_AccountID n) \<noteq> None"
    using request_of [OF inv q(1)] q(2) by (metis json.inject option.distinct(1) snapshotFromTx_iff)
  ultimately show "bindE (decode v) (\<lambda>notification. if i \<noteq> nt_EventID notification then Inl corruptData
     else bindE (corrupt (Notification_Validate notification)) (\<lambda>_.
       if kget (db_accounts d) (nt_AccountID notification) = None then Inl corruptData
       else bindE (corrupt (requestFromTx d (nt_RequestID notification))) (\<lambda>request.
         if rq_AccountID request \<noteq> nt_AccountID notification then Inl corruptData
         else case kget (db_events d) (nt_EventID notification) of None \<Rightarrow> Inl corruptData
         | Some rawEvent \<Rightarrow> bindE (decode rawEvent) (\<lambda>audit.
             ensureE (ev_AccountID (ar_Event audit) = nt_AccountID notification \<and>
               ev_RequestID (ar_Event audit) = nt_RequestID notification \<and> ev_To (ar_Event audit) = nt_State notification \<and>
               ev_OccurredAt (ar_Event audit) = nt_OccurredAt notification) corruptData)))) = Inr ()"
    using n a q by simp
qed

section \<open>The two passes that may object\<close>

definition accountIn :: "Status list \<Rightarrow> db \<Rightarrow> string \<Rightarrow> bool" where
  "accountIn states d a \<longleftrightarrow> (\<exists>p. kget (db_accounts d) a = Some (Json p) \<and> ap_Status p \<in> set states)"

abbreviation running :: "db \<Rightarrow> string \<Rightarrow> bool" where
  "running \<equiv> accountIn [Starting, LoggingIn]"

text \<open>Every stored request has been submitted, and every lease belongs to an account that runs.\<close>

definition started :: "db \<Rightarrow> bool" where
  "started d \<longleftrightarrow> (\<forall>i q. kget (db_requests d) i = Some (Json q) \<longrightarrow> rq_State q \<noteq> NoRequest)"

definition held :: "db \<Rightarrow> bool" where
  "held d \<longleftrightarrow> (\<forall>a. kget (db_leases d) a \<noteq> None \<longrightarrow> running d a)"

lemma accountIn_snapshot: "snapshotFromTx d a = Inr s \<Longrightarrow> accountIn states d a \<longleftrightarrow> sn_Status s \<in> set states"
  by (auto simp: accountIn_def snapshotFromTx_iff projOf_def)

lemma requests_exact:
  assumes inv: "store_inv d"
  shows "validateRequestsTx d = Inr () \<longleftrightarrow>
     (\<forall>i q. kget (db_requests d) i = Some (Json q) \<longrightarrow> rq_State q = NoRequest \<longrightarrow> accountIn [NoRequest] d (rq_AccountID q))"
proof -
  have "bindE (requestFromTx d i) (\<lambda>request. if rq_RequestID request \<noteq> i then Inl corruptData
       else bindE (snapshotFromTx d (rq_AccountID request)) (\<lambda>snapshot.
         if rq_State request = NoRequest
         then ensureE (sn_Status snapshot = NoRequest \<and> sn_RequestID snapshot = []) corruptData
         else ensureE (mirrors request snapshot) corruptData)) = Inr () \<longleftrightarrow>
     (\<forall>q. v = Json q \<longrightarrow> rq_State q = NoRequest \<longrightarrow> accountIn [NoRequest] d (rq_AccountID q))"
    if v: "kget (db_requests d) i = Some v" for i v
  proof -
    obtain q s where q: "requestFromTx d i = Inr q" "v = Json q" "rq_RequestID q = i" "snapshotFromTx d (rq_AccountID q) = Inr s"
      "rq_State q \<noteq> NoRequest \<Longrightarrow> mirrors q s" using request_of [OF inv v] by metis
    have "sn_Status s = NoRequest \<Longrightarrow> sn_RequestID s = []"
      using q(4) by (auto simp: snapshotFromTx_iff Snapshot_Validate_def split: if_splits)
    then show ?thesis using q accountIn_snapshot [OF q(4)] by (cases "rq_State q = NoRequest") auto
  qed
  then show ?thesis unfolding validateRequestsTx_def forEachE_iff by blast
qed

lemma leases_exact:
  assumes inv: "store_inv d" and "linked d"
  shows "validateLeasesTx d = Inr () \<longleftrightarrow> held d"
proof -
  have "bindE (snapshotFromTx d a) (\<lambda>snapshot. bindE (leaseFromTx d a) (\<lambda>lease. case lease of None \<Rightarrow> Inl corruptData
     | Some l \<Rightarrow> if sn_Status snapshot \<noteq> Starting \<and> sn_Status snapshot \<noteq> LoggingIn then Inl corruptData
         else bindE (corrupt (requestFromTx d (sn_RequestID snapshot))) (\<lambda>request.
           if rq_AccountID request \<noteq> a \<or> rq_RequestID request \<noteq> sn_RequestID snapshot \<or> rq_State request \<noteq> sn_Status snapshot
           then Inl corruptData else ensureE (ls_LeaseID l \<noteq> [] \<and> ls_Owner l \<noteq> []) corruptData))) = Inr () \<longleftrightarrow> running d a"
    if v: "kget (db_leases d) a = Some v" for a v
  proof -
    obtain l where l: "v = Json l" "Lease_validate l = Inr ()" using store_invD(8) [OF inv] v unfolding inv_leases_def by blast
    then have lt: "leaseFromTx d a = Inr (Some l)" "ls_LeaseID l \<noteq> []" "ls_Owner l \<noteq> []"
      using v by (auto simp: leaseFromTx_def Lease_validate_def go_simps split: if_splits)
    obtain w where "kget (db_accounts d) a = Some w" using linkedD(2) [OF assms(2), of a] v by auto
    then obtain s where s: "snapshotFromTx d a = Inr s" "sn_AccountID s = a" using snapshot_of [OF inv] by metis
    show ?thesis
    proof (cases "sn_Status s = Starting \<or> sn_Status s = LoggingIn")
      case True
      then have "sn_Status s \<noteq> NoRequest" by auto
      then obtain q where "requestFromTx d (sn_RequestID s) = Inr q" "mirrors q s" by (rule bound_request [OF inv s(1)])
      then show ?thesis using True lt s accountIn_snapshot [OF s(1)] by (auto simp: mirrors_def)
    next
      case False
      then show ?thesis using lt s accountIn_snapshot [OF s(1)] by auto
    qed
  qed
  then show ?thesis unfolding validateLeasesTx_def forEachE_iff held_def by auto
qed

section \<open>The runs of the service\<close>

text \<open>
  The program does not use the operations of the store freely: requests enter by \<open>SubmitRequest\<close>, leases by
  \<open>ClaimNext\<close>, and the only event it applies by itself is that of a session that starts.
\<close>

inductive serviceStep :: "db \<Rightarrow> db \<Rightarrow> bool" where
  s_create: "CreateAccount c a d = (r, d') \<Longrightarrow> serviceStep d d'"
| s_start: "ev_From e = Starting \<Longrightarrow> ev_To e = LoggingIn \<Longrightarrow> ApplyEvent c e d = (r, d') \<Longrightarrow> serviceStep d d'"
| s_submit: "SubmitRequest c q e d = (r, d') \<Longrightarrow> serviceStep d d'"
| s_claim: "0 < ca_now x \<Longrightarrow> ClaimNext c x m d = (r, d') \<Longrightarrow> serviceStep d d'"
| s_cancel: "cancelRequest c e l ax d = (r, d') \<Longrightarrow> serviceStep d d'"
| s_complete: "completeRequest c e l ax d = (r, d') \<Longrightarrow> serviceStep d d'"
| s_failure: "recordFailure c e cl at re l ax d = (r, d') \<Longrightarrow> serviceStep d d'"
| s_heartbeat: "0 < now \<Longrightarrow> Store_HeartbeatLease c a now i w ttl d = (r, d') \<Longrightarrow> serviceStep d d'"
| s_release: "Store_ReleaseLease c a i w d = (r, d') \<Longrightarrow> serviceStep d d'"
| s_notify: "0 < now \<Longrightarrow> ClaimNotifications c now w ttl n d = (r, d') \<Longrightarrow> serviceStep d d'"
| s_delivered: "CompleteNotification c i w at d = (r, d') \<Longrightarrow> serviceStep d d'"
| s_retry: "RetryNotification c i w now at d = (r, d') \<Longrightarrow> serviceStep d d'"
| s_delete: "RequestDeletion c y d = (r, d') \<Longrightarrow> serviceStep d d'"
| s_advance: "AdvanceDeletion c ev d = (r, d') \<Longrightarrow> serviceStep d d'"
| s_reopen: "rebuildQueueIndex c d = (r, d') \<Longrightarrow> serviceStep d d'"

inductive serviceRun :: "db \<Rightarrow> db \<Rightarrow> bool" where
  s_none: "serviceRun d d"
| s_step: "serviceRun d e \<Longrightarrow> serviceStep e f \<Longrightarrow> serviceRun d f"

lemma serviceStep_storeStep: "serviceStep d d' \<Longrightarrow> storeStep d d'"
  by (induction rule: serviceStep.induct) (auto intro: storeStep.intros)

definition orderly :: "db \<Rightarrow> bool" where
  "orderly d \<longleftrightarrow> started d \<and> held d"

text \<open>An accepted event moves one account and one request, and no lease.\<close>

lemma applyEventTx_moves:
  assumes "store_inv d" "applyEventTx e d = Inr (r, d')" "\<not> tr_Idempotent r"
  shows "accountIn [ev_From e] d (ev_AccountID e)" "accountIn st d' b \<longleftrightarrow> (if b = ev_AccountID e then ev_To e \<in> set st else accountIn st d b)"
    "started d \<Longrightarrow> started d'" "db_leases d' = db_leases d" "kget (db_events d) (ev_EventID e) = None"
    "\<And>i. i \<noteq> ev_RequestID e \<Longrightarrow> kget (db_requests d') i = kget (db_requests d) i"
proof -
  obtain s q x where n: "newEvent e s r q d" and d': "d' = (eventWrites e s r (requestAfter e r q) d)\<lparr>db_notifications := x\<rparr>"
    using applyEventTx_new [OF assms(2,3)] enqueueNotificationTx_frame by metis
  note N = newEventD [OF n] and F = newEvent_facts [OF assms(1) n]
  note f = Apply_new_event [OF N(2,3)]
  show "accountIn [ev_From e] d (ev_AccountID e)" using F(3) f(8) by (simp add: accountIn_def projOf_def)
  show "accountIn st d' b \<longleftrightarrow> (if b = ev_AccountID e then ev_To e \<in> set st else accountIn st d b)"
    using F(7,8) by (simp add: accountIn_def d' eventWrites_def projOf_def)
  have "rq_State (requestAfter e r q) = ev_To e" "rq_RequestID (requestAfter e r q) = ev_RequestID e"
    using F(2,8) by (simp_all add: requestAfter_def)
  then show "started d \<Longrightarrow> started d'" "\<And>i. i \<noteq> ev_RequestID e \<Longrightarrow> kget (db_requests d') i = kget (db_requests d) i"
    using F(4) by (auto simp: started_def d' eventWrites_def)
  show "db_leases d' = db_leases d" "kget (db_events d) (ev_EventID e) = None" using N(9) by (simp_all add: d' eventWrites_def)
qed

lemma applyEventTx_orderly:
  assumes "store_inv d" "applyEventTx e d = Inr (r, d')" "orderly d"
    and "ev_To e \<in> {Starting, LoggingIn} \<or> ev_From e \<notin> {Starting, LoggingIn}"
  shows "orderly d'"
proof (cases "tr_Idempotent r")
  case True
  then show ?thesis using applyEventTx_replay [OF assms(2)] assms(3) by simp
next
  case False
  note M = applyEventTx_moves [OF assms(1,2) False]
  have "running d' a" if "kget (db_leases d) a \<noteq> None" for a
  proof -
    have "running d a" using that assms(3) by (simp add: orderly_def held_def)
    then show ?thesis using M(1) M(2) [of "[Starting, LoggingIn]" a] assms(4) by (auto simp: accountIn_def)
  qed
  then show ?thesis using M(3,4) assms(3) by (simp add: orderly_def held_def)
qed

lemma applyEventTx_orderly_delete:
  assumes "store_inv d" "applyEventTx e d = Inr (r, d')" "orderly d" "\<not> tr_Idempotent r"
  shows "orderly (deleteLease (ev_AccountID e) d')"
proof -
  note M = applyEventTx_moves [OF assms(1,2,4)]
  have "accountIn st (deleteLease b d') a = accountIn st d' a" for st a b by (simp add: accountIn_def deleteLease_def)
  moreover have "started (deleteLease b d') = started d'" for b by (simp add: started_def deleteLease_def)
  ultimately show ?thesis
    using M(2) [of "[Starting, LoggingIn]"] M(3,4) assms(3) by (auto simp: orderly_def held_def deleteLease_def)
qed

text \<open>Tables that the two conditions do not read, and requests that are rewritten in their state.\<close>

lemma orderly_cong:
  assumes "orderly d" "db_requests d' = db_requests d" "db_accounts d' = db_accounts d"
    and "\<And>a. kget (db_leases d') a \<noteq> None \<Longrightarrow> kget (db_leases d) a \<noteq> None"
  shows "orderly d'"
  using assms by (auto simp: orderly_def started_def held_def accountIn_def)

lemma orderly_putRequest: "orderly d \<Longrightarrow> rq_State q \<noteq> NoRequest \<Longrightarrow> orderly (putRequest q d)"
  by (auto simp: orderly_def started_def held_def accountIn_def putRequest_def)

lemma orderly_putLease: "orderly d \<Longrightarrow> running d a \<Longrightarrow> orderly (putLease a l d)"
  by (auto simp: orderly_def started_def held_def accountIn_def putLease_def split: if_splits)

lemma orderly_deleteLease: "orderly d \<Longrightarrow> orderly (deleteLease a d)"
  by (erule orderly_cong) (auto simp: deleteLease_def split: if_splits)

lemma orderly_request: "orderly d \<Longrightarrow> requestFromTx d i = Inr q \<Longrightarrow> rq_State q \<noteq> NoRequest"
  by (auto simp: orderly_def started_def requestFromTx_def Let_def split: if_splits option.splits)

lemma update_orderly:
  assumes "update c fn d = (r, d')" "orderly d" "\<And>x d'. fn d = Inr (x, d') \<Longrightarrow> orderly d'"
  shows "orderly d'"
  using update_invariant [where P = orderly, OF assms] .

lemma finishTx_orderly:
  assumes "store_inv d" "orderly d" "finishTx e l ax rx d = Inr (y, d')" shows "orderly d'"
proof -
  obtain t d1 where t: "applyEventTx e d = Inr (t, d1)" "if tr_Idempotent t then d' = d1 else d' = deleteLease (ev_AccountID e) d1"
    using assms(3) by (auto simp: finishTx_def split: if_splits)
  then show ?thesis
    using applyEventTx_replay [OF t(1)] applyEventTx_orderly_delete [OF assms(1) t(1) assms(2)] assms(2) by (auto split: if_splits)
qed

lemma failureTx_orderly:
  assumes inv: "store_inv d" and set: "orderly d" and ok: "failureTx e c at re x ax d = Inr (fr, d')"
  shows "orderly d'"
proof (cases "tr_Idempotent (fr_Failed fr)")
  case True
  obtain f d1 where f: "applyEventTx e d = Inr (f, d1)" using ok by (auto simp: failureTx_def)
  have "tr_Idempotent f"
    using ok f True by (auto simp: failureTx_def Let_def split: prod.splits option.splits if_splits)
  then have r: "replayFailureTx e f re d = Inr (fr, d')" using ok f applyEventTx_replay [OF f] by (simp add: failureTx_def)
  have "d' = d \<or> (\<exists>re' t. kget (db_events d) (ev_EventID re') \<noteq> None \<and> applyEventTx re' d = Inr (t, d'))"
  proof (cases re)
    case (Some y)
    then show ?thesis using r by (cases "kget (db_events d) (ev_EventID y)") (auto simp: replayFailureTx_def)
  qed (use r in \<open>auto simp: replayFailureTx_def\<close>)
  then have "d' = d" using applyEventTx_moves(5) [OF inv] applyEventTx_replay by metis
  then show ?thesis using set by simp
next
  case False
  from ok this show ?thesis
  proof (rule failureTx_new)
    fix d1 d3
    assume a: "applyEventTx e d = Inr (fr_Failed fr, d1)"
      and c: "case re of
       None \<Rightarrow> fr_Retried fr = None \<and> d3 = deleteLease (ev_AccountID e) d1 \<and>
         (\<exists>q. requestFromTx d3 (ev_RequestID e) = Inr q \<and>
            fr_Request fr = q\<lparr>rq_LastFailure := c, rq_UpdatedAt := ev_OccurredAt e\<rparr>)
     | Some r \<Rightarrow> (\<exists>t. fr_Retried fr = Some t \<and>
         requeueTx e c at (fr_Failed fr) r (deleteLease (ev_AccountID e) d1) = Inr ((t, fr_Request fr), d3))"
      and n: "setNotificationFailureTx (ev_EventID e) c (putRequest (fr_Request fr) d3) = Inr d'"
    let ?d2 = "deleteLease (ev_AccountID e) d1"
    have i2: "store_inv ?d2" using a inv by (auto intro: inv_intros)
    have s2: "orderly ?d2" by (rule applyEventTx_orderly_delete [OF inv a set False])
    have "orderly d3 \<and> rq_State (fr_Request fr) \<noteq> NoRequest"
    proof (cases re)
      case None
      then show ?thesis using c s2 orderly_request by fastforce
    next
      case (Some r)
      with c obtain t where t: "requeueTx e c at (fr_Failed fr) r ?d2 = Inr ((t, fr_Request fr), d3)" by auto
      note Q = requeueTx_facts [OF t]
      have "orderly d3" by (rule applyEventTx_orderly [OF i2 Q(1) s2]) (simp add: Q(4))
      then show ?thesis using Q(7) orderly_request by fastforce
    qed
    then have "orderly (putRequest (fr_Request fr) d3)" by (simp add: orderly_putRequest)
    then show ?thesis using setNotificationFailureTx_frame [OF n] by (auto intro: orderly_cong)
  qed
qed

lemma claimTx_orderly:
  assumes "store_inv d" "orderly d" "claimTx c m d = Inr (cl, d')"
  shows "orderly d'"
  using assms(3)
proof (cases rule: claimTx_cases)
  case 1
  then show ?thesis using assms(2) by simp
next
  case (2 n queued)
  obtain q s l where "claimCandidate c q s l d = Inr (cl, d')" using claimLoop_success [OF 2(5)] by metis
  with assms(1) 2(1) show ?thesis
  proof (rule claimCandidate_effect)
    fix d1 x
    assume a: "applyEventTx (claimEvent c q s) d = Inr (cl_Transition cl, d1)" "\<not> tr_Idempotent (cl_Transition cl)"
      "cl_Request cl = x\<lparr>rq_State := Starting, rq_UpdatedAt := ca_now c, rq_NotBefore := 0, rq_Attempt := rq_Attempt x + 1\<rparr>"
      "d' = putLease (rq_AccountID q) l (putRequest (cl_Request cl) d1)"
    have "orderly d1" by (rule applyEventTx_orderly [OF assms(1) a(1) assms(2)]) (simp add: claimEvent_def)
    then have "orderly (putRequest (cl_Request cl) d1)" by (rule orderly_putRequest) (simp add: a(3))
    moreover have "running d1 (rq_AccountID q)"
      using applyEventTx_moves(2) [OF assms(1) a(1,2), of "[Starting, LoggingIn]" "rq_AccountID q"] by (simp add: claimEvent_def)
    then have "running (putRequest (cl_Request cl) d1) (rq_AccountID q)" by (simp add: accountIn_def putRequest_def)
    ultimately show ?thesis unfolding a(4) by (rule orderly_putLease)
  qed
qed

lemma submitTx_orderly:
  assumes inv: "store_inv d" and set: "orderly d" and v: "Request_Validate q = Inr ()"
    and e: "ev_RequestID e = rq_RequestID q" "ev_From e = NoRequest" "ev_To e = Queued"
    and ok: "submitTx q e d = Inr ((q1, k), d')"
  shows "orderly d'"
proof -
  obtain x kn d1 where s: "submitRequestTx q d = Inr ((x, kn), d1)" and r: "d' = d1 \<or> (\<exists>t. applyEventTx e d1 = Inr (t, d'))"
    using ok by (auto simp: submitTx_def split: prod.splits if_splits)
  have inv1: "store_inv d1" by (rule submitRequestTx_inv [OF inv v s])
  have d1: "d1 = d \<or> d1 = d\<lparr>db_requests := kput (rq_RequestID q) (Json q) (db_requests d),
        db_idempotency := kput (rq_IdempotencyKey q) (rq_RequestID q) (db_idempotency d)\<rparr>"
    using s by (auto simp: submitRequestTx_def split: option.splits elim: createRequestTx_cases)
  have others: "kget (db_requests d') i = kget (db_requests d) i" if "i \<noteq> rq_RequestID q" for i
    using r
  proof
    assume "\<exists>t. applyEventTx e d1 = Inr (t, d')"
    then obtain t where t: "applyEventTx e d1 = Inr (t, d')" by blast
    then show ?thesis
      using that d1 e(1) applyEventTx_replay [OF t] applyEventTx_moves(6) [OF inv1 t] by (cases "tr_Idempotent t") auto
  qed (use that d1 in auto)
  have "\<exists>y. kget (db_requests d') (rq_RequestID q) = Some (Json y) \<and> rq_State y \<noteq> NoRequest"
    using submitTx_result [OF inv v e(1,3) ok] by blast
  then have st: "started d'" using others set unfolding orderly_def started_def by (metis json.inject option.inject)
  have h1: "held d1" using d1 set by (auto simp: orderly_def held_def accountIn_def)
  have "held d'" using r
  proof
    assume "\<exists>t. applyEventTx e d1 = Inr (t, d')"
    then obtain t where t: "applyEventTx e d1 = Inr (t, d')" by blast
    show ?thesis
    proof (cases "tr_Idempotent t")
      case True
      then show ?thesis using applyEventTx_replay [OF t] h1 by simp
    next
      case False
      note M = applyEventTx_moves [OF inv1 t False]
      have "a \<noteq> ev_AccountID e" if "kget (db_leases d1) a \<noteq> None" for a
        using that h1 M(1) e(2) by (auto simp: held_def accountIn_def)
      then show ?thesis using M(2) [of "[Starting, LoggingIn]"] M(4) h1 by (auto simp: held_def)
    qed
  qed (use h1 in simp)
  with st show ?thesis by (simp add: orderly_def)
qed

lemma serviceStep_orderly:
  assumes "serviceStep d d'" "store_inv d" "orderly d"
  shows "orderly d'"
  using assms(1)
proof (cases rule: serviceStep.cases)
  case (s_create c a r)
  have "orderly (putAccountProjection s d)" if "kget (db_accounts d) (sn_AccountID s) = None" for s
    using assms(3) that by (auto simp: orderly_def started_def held_def accountIn_def putAccountProjection_def)
  moreover have "sn_AccountID s = a" if "NewSnapshot a = Inr s" for s using that by (auto simp: NewSnapshot_def split: if_splits)
  ultimately show ?thesis using s_create assms(3)
    by (auto simp: CreateAccount_def split: sum.splits if_splits elim!: update_orderly)
next
  case (s_start e c r)
  then show ?thesis unfolding ApplyEvent_def
    using applyEventTx_orderly [OF assms(2) _ assms(3)] by (auto elim!: update_orderly [OF _ assms(3)])
next
  case (s_submit c q e r)
  from SubmitRequest_update [OF s_submit] show ?thesis
    using update_orderly [of c "submitTx q e" d r d'] submitTx_orderly [OF assms(2,3)] assms(3) by auto
next
  case (s_claim x c m r)
  from ClaimNext_update [OF s_claim(2)] show ?thesis
    using update_orderly [of c "claimTx x m" d r d'] claimTx_orderly [OF assms(2,3)] assms(3) by auto
next
  case (s_cancel c e l ax r)
  then show ?thesis using assms(3) unfolding cancelRequest_def
    by (auto split: if_splits intro: finishTx_orderly [OF assms(2,3)] elim!: update_orderly)
next
  case (s_complete c e l ax r)
  then show ?thesis using assms(3) unfolding completeRequest_def
    by (auto split: if_splits intro: finishTx_orderly [OF assms(2,3)] elim!: update_orderly)
next
  case (s_failure c e cl at re l ax r)
  have "d' = d \<or> update c (failureTx e cl at re l ax) d = (r, d')"
    using s_failure unfolding recordFailure_def by (auto split: if_splits)
  then show ?thesis using update_orderly [of c "failureTx e cl at re l ax" d r d'] failureTx_orderly [OF assms(2,3)] assms(3) by auto
next
  case (s_heartbeat now c a i w ttl r)
  have "orderly (putLease a l d)" if "leaseFromTx d a = Inr (Some m)" for l m
    using that assms(3) by (intro orderly_putLease) (auto simp: orderly_def held_def leaseFromTx_def split: option.splits)
  then show ?thesis using s_heartbeat(2) unfolding Store_HeartbeatLease_def
    by (elim update_orderly [OF _ assms(3)]) (auto split: option.splits)
next
  case (s_release c a i w r)
  then show ?thesis unfolding Store_ReleaseLease_def
    by (elim update_orderly [OF _ assms(3)]) (auto intro: orderly_deleteLease [OF assms(3)] split: option.splits)
next
  case (s_notify now c w ttl n r)
  have "orderly z" if claim: "claimNotificationsTx now w ttl n d = Inr (y, z)" for y z
  proof -
    obtain cs where "claimEach now w ttl cs d = Inr (y, z)" using claim by (auto simp: claimNotificationsTx_def)
    from claimEach_ok [OF this] have "z = fold putNotification (map (claimNotification now w ttl) cs) d"
      by (simp add: fold_map comp_def)
    then obtain x where "z = d\<lparr>db_notifications := x\<rparr>" using fold_putNotification_frame by metis
    then show ?thesis by (intro orderly_cong [OF assms(3)]) simp_all
  qed
  then show ?thesis using s_notify(2) assms(3) unfolding ClaimNotifications_def by (auto split: if_splits elim!: update_orderly)
next
  case (s_reopen c r)
  then show ?thesis using rebuildQueueIndex_inv [OF assms(2) s_reopen] assms(3) by simp
next
  case (s_delete c y r)
  have "orderly e" if "requestDeletionTx i d = Inr (z, e)" for i z e
    using that assms(3) by (auto simp: requestDeletionTx_def putDeletion_def split: option.splits if_splits intro: orderly_cong)
  then show ?thesis using s_delete assms(3) unfolding RequestDeletion_def Let_def
    by (auto split: if_splits elim!: update_orderly)
next
  case (s_advance c ev r)
  have "orderly e" if "advanceDeletionTx ev d = Inr (z, e)" for z e
    using that assms(3) by (auto simp: advanceDeletionTx_def putDeletion_def split: option.splits if_splits intro: orderly_cong)
  then show ?thesis using s_advance assms(3) unfolding AdvanceDeletion_def by (auto split: sum.splits elim!: update_orderly)
next
  case (s_delivered c i w at r)
  have "orderly (putNotification n d)" for n by (rule orderly_cong [OF assms(3)]) (simp_all add: putNotification_def)
  then show ?thesis using s_delivered assms(3) unfolding CompleteNotification_def updateNotification_def
    by (auto split: if_splits option.splits elim!: update_orderly)
next
  case (s_retry c i w now at r)
  have "orderly (putNotification n d)" for n by (rule orderly_cong [OF assms(3)]) (simp_all add: putNotification_def)
  then show ?thesis using s_retry assms(3) unfolding RetryNotification_def updateNotification_def
    by (auto split: if_splits option.splits elim!: update_orderly)
qed

lemma serviceRun_orderly: "serviceRun d d' \<Longrightarrow> store_inv d \<Longrightarrow> linked d \<Longrightarrow> orderly d \<Longrightarrow> store_inv d' \<and> linked d' \<and> orderly d'"
proof (induction rule: serviceRun.induct)
  case (s_step d e f)
  have "storeStep e f" by (rule serviceStep_storeStep [OF s_step(2)])
  then show ?case
    using s_step.IH [OF s_step.prems] serviceStep_orderly [OF s_step(2)] storeStep_inv extends_linked storeStep_extends by blast
qed simp

lemma emptyDB_orderly: "orderly emptyDB"
  by (simp add: orderly_def started_def held_def emptyDB_def)

end
