(* ===== verification/MigrationProps.thy ===== *)
theory MigrationProps
  imports Migrations
begin

text \<open>
  What the migrations do to a database file: they reach the current version, add the buckets of the
  versions in between, and lose nothing.
\<close>

declare migrateFrom.simps [simp del]

lemma kget_createBuckets:
  "kget (createBuckets names d) name = (if kget d name = None \<and> name \<in> set names then Some kempty else kget d name)"
  unfolding createBuckets_def
  by (induction names arbitrary: d) (auto simp: createBucketIfNotExists_def kget_kput split: option.splits)

lemma kget_writeVersion:
  "kget (writeVersion v d) name =
     (if name = MetaBucket then Some (kput VersionKey (PutUint64 v) (bucketOf d MetaBucket)) else kget d name)"
  by (simp add: writeVersion_def kget_kput)

lemma readVersion_writeVersion [simp]: "readVersion (bucketOf (writeVersion v d) MetaBucket) = Inr v"
  by (simp add: readVersion_def bucketOf_def kget_writeVersion kget_kput)

lemma Version_bucket: "kget d MetaBucket \<noteq> None \<Longrightarrow> Version d = readVersion (bucketOf d MetaBucket)"
  by (auto simp: Version_def view_def bucketOf_def)

lemma Version_writeVersion [simp]: "Version (writeVersion v d) = Inr v"
  using Version_bucket [of "writeVersion v d"] by (simp add: kget_writeVersion)

lemma migrationBuckets_meta: "migrationBuckets n = Some names \<Longrightarrow> MetaBucket \<notin> set names"
  by (auto simp: migrationBuckets_def MetaBucket_def versionOne_def versionTwo_def versionThree_def versionFour_def
      versionFive_def versionSix_def versionSeven_def versionEight_def versionNine_def versionTen_def split: if_splits)

lemma migrateFrom_step:
  assumes "v < CurrentVersion" "migrateFrom v d = Inr d'"
  obtains names where "migrationBuckets (v + 1) = Some names"
    "migrateFrom (v + 1) (writeVersion (v + 1) (createBuckets names d)) = Inr d'"
  using assms by (subst (asm) migrateFrom.simps) (auto split: option.splits)

lemma next_version: "v < CurrentVersion \<Longrightarrow> v < n \<Longrightarrow> n \<noteq> v + 1 \<Longrightarrow> v + 1 < n" for v n :: uint64
  by (metis inc_le word_le_less_eq)

lemma migrateFrom_data:
  "migrateFrom v d = Inr d' \<Longrightarrow> name \<noteq> MetaBucket \<Longrightarrow> kget d name = Some b \<Longrightarrow> kget d' name = Some b"
proof (induction v d rule: migrateFrom.induct)
  case (1 v d)
  show ?case
  proof (cases "v < CurrentVersion")
    case True
    then obtain names where n: "migrationBuckets (v + 1) = Some names"
      "migrateFrom (v + 1) (writeVersion (v + 1) (createBuckets names d)) = Inr d'"
      using migrateFrom_step 1(2) by blast
    from 1(1) [OF True n(1) n(2) 1(3)] show ?thesis using 1(3,4) by (simp add: kget_writeVersion kget_createBuckets)
  next
    case False
    then show ?thesis using 1(2,4) by (subst (asm) migrateFrom.simps) simp
  qed
qed

lemma migrateFrom_meta:
  "migrateFrom v d = Inr d' \<Longrightarrow> k \<noteq> VersionKey \<Longrightarrow> kget (bucketOf d' MetaBucket) k = kget (bucketOf d MetaBucket) k"
proof (induction v d rule: migrateFrom.induct)
  case (1 v d)
  show ?case
  proof (cases "v < CurrentVersion")
    case True
    then obtain names where n: "migrationBuckets (v + 1) = Some names"
      "migrateFrom (v + 1) (writeVersion (v + 1) (createBuckets names d)) = Inr d'"
      using migrateFrom_step 1(2) by blast
    from 1(1) [OF True n(1) n(2) 1(3)] show ?thesis
      using 1(3) migrationBuckets_meta [OF n(1)]
      by (simp add: bucketOf_def kget_writeVersion kget_createBuckets kget_kput)
  next
    case False
    then show ?thesis using 1(2) by (subst (asm) migrateFrom.simps) simp
  qed
qed

lemma migrateFrom_version:
  "migrateFrom v d = Inr d' \<Longrightarrow> v < CurrentVersion \<Longrightarrow> Version d' = Inr CurrentVersion"
proof (induction v d rule: migrateFrom.induct)
  case (1 v d)
  then obtain names where n: "migrationBuckets (v + 1) = Some names"
    "migrateFrom (v + 1) (writeVersion (v + 1) (createBuckets names d)) = Inr d'"
    using migrateFrom_step by blast
  show ?case
  proof (cases "v + 1 < CurrentVersion")
    case True
    then show ?thesis using 1(1) [OF 1(3) n] by blast
  next
    case False
    then have e: "v + 1 = CurrentVersion" using 1(3) next_version [of v CurrentVersion] False by metis
    have "d' = writeVersion (v + 1) (createBuckets names d)"
      using n(2) unfolding e by (subst (asm) migrateFrom.simps) simp
    then show ?thesis using e by simp
  qed
qed

lemma migrateFrom_buckets:
  "migrateFrom v d = Inr d' \<Longrightarrow> v < n \<Longrightarrow> n \<le> CurrentVersion \<Longrightarrow> migrationBuckets n = Some names \<Longrightarrow> name \<in> set names \<Longrightarrow>
     kget d' name \<noteq> None"
proof (induction v d rule: migrateFrom.induct)
  case (1 v d)
  have v: "v < CurrentVersion" using 1(3,4) by simp
  then obtain ns where s: "migrationBuckets (v + 1) = Some ns"
    "migrateFrom (v + 1) (writeVersion (v + 1) (createBuckets ns d)) = Inr d'"
    using migrateFrom_step 1(2) by blast
  show ?case
  proof (cases "n = v + 1")
    case True
    then have "name \<in> set ns" using s(1) 1(5,6) by simp
    moreover have "name \<noteq> MetaBucket" using migrationBuckets_meta [OF s(1)] calculation by blast
    ultimately obtain b where "kget (writeVersion (v + 1) (createBuckets ns d)) name = Some b"
      by (cases "kget d name") (auto simp: kget_writeVersion kget_createBuckets)
    then show ?thesis using migrateFrom_data [OF s(2) \<open>name \<noteq> MetaBucket\<close>] by simp
  next
    case False
    then show ?thesis using 1(1) [OF v s next_version [OF v 1(3) False] 1(4,5,6)] by blast
  qed
qed

lemma migrateFrom_current: "migrateFrom CurrentVersion d = Inr d"
  by (subst migrateFrom.simps) simp

text \<open>The metadata bucket of a file that has one, or the empty one that the transaction creates.\<close>

lemma meta_created:
  "bucketOf (createBucketIfNotExists MetaBucket d) MetaBucket = bucketOf d MetaBucket"
  "kget (createBucketIfNotExists MetaBucket d) MetaBucket \<noteq> None"
  "name \<noteq> MetaBucket \<Longrightarrow> kget (createBucketIfNotExists MetaBucket d) name = kget d name"
  by (auto simp: createBucketIfNotExists_def bucketOf_def kget_kput split: option.splits)

lemma meta_version: "Version d = readVersion (bucketOf d MetaBucket)"
  by (auto simp: Version_def view_def bucketOf_def readVersion_def split: option.splits)

lemma applyTx_cases:
  assumes "applyTx d = Inr (u, d')"
  obtains v where "Version d = Inr v" "v \<le> CurrentVersion" "migrateFrom v (createBucketIfNotExists MetaBucket d) = Inr d'"
  using assms by (auto simp: applyTx_def Let_def meta_created(1) meta_version not_less split: if_splits)

lemma applyTx_current:
  assumes "Version d = Inr CurrentVersion"
  shows "applyTx d = Inr ((), d)"
proof -
  have "kget d MetaBucket \<noteq> None"
    using assms by (cases "kget d MetaBucket") (simp_all add: Version_def view_def CurrentVersion_def)
  then have "createBucketIfNotExists MetaBucket d = d" by (auto simp: createBucketIfNotExists_def)
  then show ?thesis
    using assms by (simp add: applyTx_def Let_def meta_version migrateFrom_current)
qed

text \<open>
  C40. The migrations of the file: a refused run changes nothing, and a file of a newer version is always
  refused. A run that succeeds leaves the current version with every bucket of the versions it went
  through, keeps all the buckets and metadata that were there, and a second run finds nothing to do.
\<close>

theorem Migrations_Apply_migrates:
  assumes "Migrations_Apply commit d = (r, d')"
  shows "case r of
     Inl e \<Rightarrow> d' = d
   | Inr _ \<Rightarrow> (\<exists>v. Version d = Inr v \<and> v \<le> CurrentVersion \<and> Version d' = Inr CurrentVersion \<and>
       (\<forall>name b. name \<noteq> MetaBucket \<longrightarrow> kget d name = Some b \<longrightarrow> kget d' name = Some b) \<and>
       (\<forall>k. k \<noteq> VersionKey \<longrightarrow> kget (bucketOf d' MetaBucket) k = kget (bucketOf d MetaBucket) k) \<and>
       (\<forall>n names. v < n \<longrightarrow> n \<le> CurrentVersion \<longrightarrow> migrationBuckets n = Some names \<longrightarrow>
          (\<forall>name \<in> set names. kget d' name \<noteq> None)) \<and>
       Migrations_Apply commit d' = (Inr (), d'))"
proof (cases r)
  case (Inl e)
  then show ?thesis using assms by (auto simp: Migrations_Apply_def dest: update_Inl)
next
  case (Inr u)
  then have a: "applyTx d = Inr (u, d')" and c: "commit d' = None"
    using assms by (simp_all add: Migrations_Apply_def update_Inr)
  from a obtain v where v: "Version d = Inr v" "v \<le> CurrentVersion"
    "migrateFrom v (createBucketIfNotExists MetaBucket d) = Inr d'" by (rule applyTx_cases)
  have cur: "Version d' = Inr CurrentVersion"
  proof (cases "v = CurrentVersion")
    case True
    then have "d' = createBucketIfNotExists MetaBucket d" using v(3) migrateFrom_current by simp
    then show ?thesis using v(1) True by (simp add: meta_version meta_created(1))
  next
    case False
    then show ?thesis using migrateFrom_version [OF v(3)] v(2) by simp
  qed
  have "Migrations_Apply commit d' = (Inr (), d')"
    using applyTx_current [OF cur] c by (simp add: Migrations_Apply_def update_def)
  then show ?thesis
    using Inr v(1,2) cur migrateFrom_data [OF v(3)] migrateFrom_meta [OF v(3)] migrateFrom_buckets [OF v(3)]
    by (simp add: meta_created)
qed

theorem Migrations_Apply_migrates_witness:
  "\<exists>d'. Migrations_Apply (\<lambda>_. None) kempty = (Inr (), d') \<and> Version d' = Inr CurrentVersion \<and>
     kget d' ''slot_leases'' \<noteq> None"
proof -
  obtain d' where "migrateFrom 0 (createBucketIfNotExists MetaBucket kempty) = Inr d'"
    by (simp add: migrateFrom.simps migrationBuckets_def CurrentVersion_def)
  then have a: "Migrations_Apply (\<lambda>_. None) kempty = (Inr (), d')"
    using meta_created(1) [of kempty]
    by (simp add: Migrations_Apply_def update_def applyTx_def Let_def readVersion_def CurrentVersion_def)
      (simp add: bucketOf_def)
  have "Version (kempty :: rawdb) = Inr 0" by (simp add: Version_def view_def)
  then have "Version d' = Inr CurrentVersion"
    "\<forall>n names. 0 < n \<longrightarrow> n \<le> CurrentVersion \<longrightarrow> migrationBuckets n = Some names \<longrightarrow> (\<forall>name \<in> set names. kget d' name \<noteq> None)"
    using Migrations_Apply_migrates [OF a] by auto
  moreover have "migrationBuckets 6 = Some versionSix" by (simp add: migrationBuckets_def)
  moreover have "(0 :: uint64) < 6" "(6 :: uint64) \<le> CurrentVersion" by (simp_all add: CurrentVersion_def)
  ultimately have "\<forall>name \<in> set versionSix. kget d' name \<noteq> None" by blast
  then show ?thesis using a \<open>Version d' = Inr CurrentVersion\<close> by (auto simp: versionSix_def)
qed

end
