(* ===== verification/ValidateProps.thy ===== *)
theory ValidateProps
  imports StoreValidation StoreDemo JobPoolProps MigrationProps SlotSessionProps
begin

text \<open>
  What the validation of a database file says of the databases that the program builds.
\<close>

section \<open>The whole file\<close>

text \<open>The store of the job pool tables in the file.\<close>

definition storeJobs :: "jdb \<Rightarrow> database \<Rightarrow> database" where
  "storeJobs d v = v\<lparr>vd_tables := jd_db d, vd_jobOperations := jd_operations d, vd_jobIdempotency := jd_idempotency d,
     vd_jobAudit := jd_audit d\<rparr>"

lemma storeJobs_sel [simp]:
  "jobView (storeJobs d v) = d" "vd_tables (storeJobs d v) = jd_db d" "vd_sessionOps (storeJobs d v) = vd_sessionOps v"
  "vd_sessionIndex (storeJobs d v) = vd_sessionIndex v" "jd_db (jobView v) = vd_tables v"
  by (simp_all add: storeJobs_def jobView_def)

lemma sessionView_sel [simp]:
  "yd_db (sessionView v) = vd_tables v" "yd_ops (sessionView v) = vd_sessionOps v" "yd_index (sessionView v) = vd_sessionIndex v"
  by (simp_all add: sessionView_def)

lemma validateDB_iff [accepts]:
  "validateDB v = Inr () \<longleftrightarrow> Version (vd_schema v) = Inr CurrentVersion \<and>
     (\<forall>name \<in> set requiredBuckets. kget (vd_schema v) name \<noteq> None) \<and> validateTables v = Inr ()"
  by (auto simp: validateDB_def view_def list_ex_iff)

lemma validateBackupFile_iff:
  "validateBackupFile v = Inr () \<longleftrightarrow> validateDB v = Inr ()"
  "validateBackupFile v = Inl e \<longleftrightarrow> validateDB v \<noteq> Inr () \<and> e = RestoreErr ErrInvalidRestore"
  by (cases "validateDB v"; auto simp: validateBackupFile_def)+

text \<open>A session operation needs the slot it is for.\<close>

lemma validateSessionEntry_slot:
  assumes "validateSessionEntry d k (Json x) = Inr ()"
  shows "\<exists>s. kget (sd_slots d) (sso_SlotID x) = Some (Json s) \<and> sl_PoolID s = sso_PoolID x"
  using assms by (auto simp: validateSessionEntry_def split: if_splits option.splits)

lemma validateTables_sessions:
  assumes "validateTables v = Inr ()" "kget (vd_sessionOps v) k = Some (Json x)"
  shows "\<exists>s. kget (sd_slots (vd_tables v)) (sso_SlotID x) = Some (Json s) \<and> sl_PoolID s = sso_PoolID x"
proof -
  have "validateSlotSessionControlTx (sessionView v) = Inr ()"
    using assms(1) by (auto simp: validateTables_def Let_def)
  then have "validateSessionEntry (vd_tables v) k (Json x) = Inr ()"
    using assms(2) by (auto simp: validateSlotSessionControlTx_def forEachE_iff)
  then show ?thesis by (rule validateSessionEntry_slot)
qed

text \<open>After the last step of a deletion no slot of the pool is left.\<close>

lemma finalize_no_slots:
  assumes "slot_inv now (jd_db d)" "finalizeDeletedJobPool c clock i p at d = (Inr v, d')" "d' \<noteq> d"
    and "kget (sd_slots (jd_db d')) k = Some (Json s)"
  shows "sl_PoolID s \<noteq> p"
proof
  assume p: "sl_PoolID s = p"
  have "finalizeTx i p (if IsZero at then clock else at) d = Inr (v, d')"
    using assms(2) by (simp add: finalizeDeletedJobPool_def update_Inr)
  then obtain xs where xs: "slotsForPoolTx (jd_db d) p = Inr xs"
    and e: "jd_db d' = fold (\<lambda>s. deleteSlot (sl_SlotID s)) xs ((jd_db d)\<lparr>sd_pools := kdel p (sd_pools (jd_db d))\<rparr>)"
    using assms(3) by (rule finalizeTx_ok)
  have old: "kget (sd_slots (jd_db d)) k = Some (Json s)" "k \<notin> sl_SlotID ` set xs"
    using assms(4) unfolding e fold_deleteSlot by (auto split: if_splits)
  then have "s \<in> set xs" using slotsForPoolTx_ok(1) [OF assms(1) xs] p by auto
  moreover have "sl_SlotID s = k" using slot_inv_slot [OF assms(1) old(1)] by (simp add: slotOk_def)
  ultimately show False using old(2) by blast
qed

section \<open>Deleted pools\<close>

text \<open>
  C16. A deletion that poisons the file: once the last step of a deletion has removed a pool whose slots
  had a session, the operations of that session stay behind without their slot, and no validation accepts
  the file any more: every backup is refused, and so is the restore of a copy.
\<close>

theorem deleted_pool_fails_validation:
  assumes "slot_inv now (vd_tables v)" "finalizeDeletedJobPool c clock i p at (jobView v) = (Inr x, d')" "d' \<noteq> jobView v"
    and "kget (vd_sessionOps v) k = Some (Json s)" "sso_PoolID s = p"
  shows "validateBackupFile (storeJobs d' v) = Inl (RestoreErr ErrInvalidRestore)"
proof -
  have "validateTables (storeJobs d' v) \<noteq> Inr ()"
  proof
    assume "validateTables (storeJobs d' v) = Inr ()"
    from validateTables_sessions [OF this, of k s] obtain u
      where u: "kget (sd_slots (jd_db d')) (sso_SlotID s) = Some (Json u)" "sl_PoolID u = p"
      using assms(4,5) by auto
    show False using finalize_no_slots [OF _ assms(2,3) u(1)] assms(1) u(2) by simp
  qed
  then show ?thesis by (auto simp: validateBackupFile_iff validateDB_iff)
qed

section \<open>A concrete file\<close>

text \<open>A pool whose only slot is deleted, the last operation of that slot's session, and the pool's deletion.\<close>

definition demoGone :: slot where
  "demoGone = demoSlot\<lparr>sl_Status := Deleted\<rparr>"

definition demoGoneSession :: SlotSessionOperation where
  "demoGoneSession = startedOperation demoSessionStart False ''slotop_1'' demoGone"

definition demoDeletion :: JobPoolOperation where
  "demoDeletion = zeroOperation\<lparr>jo_OperationID := ''op_9'', jo_PoolID := ''pool-1'', jo_Operation := ''delete'',
      jo_State := JobPoolDraining, jo_ConfigRevision := 2, jo_RequestedAt := 6, jo_UpdatedAt := 7\<rparr>"

definition demoSchema :: rawdb where
  "demoSchema = writeVersion CurrentVersion (createBuckets requiredBuckets kempty)"

definition demoFile :: database where
  "demoFile = \<lparr>vd_schema = demoSchema, vd_tables = putSlot demoGone (putPool demoPool emptySDB),
     vd_jobOperations = kput ''op_9'' (Json demoDeletion) kempty, vd_jobIdempotency = kempty, vd_jobAudit = kempty,
     vd_envOperations = kempty, vd_envIdempotency = kempty, vd_envAudit = kempty,
     vd_sessionOps = kput ''slotop_1'' (Json demoGoneSession) kempty, vd_sessionIndex = kempty,
     vd_credentials = kempty, vd_credentialAudits = kempty, vd_cursors = kempty\<rparr>"

lemma demoGone_sel:
  "sl_SlotID demoGone = ''pool-1-001''" "sl_PoolID demoGone = ''pool-1''" "sl_Status demoGone = Deleted" "sl_Ordinal demoGone = 1"
  "sl_CreatedAt demoGone = 6"
  by (simp_all add: demoGone_def demo_ids_slot) (simp_all add: demoSlot_def newSlot_def)

lemma demoGone_valid: "Slot_Validate demoGone = Inr ()"
proof -
  have "slot_inv 6 demoS2"
    using slotRun_inv [OF demo_run_slots(2)] by (simp add: demoStore_def world_inv_def)
  then have "slotOk 6 demoS2 ''pool-1-001'' demoSlot" by (rule slot_inv_slot) (simp add: demoS_sel)
  then show ?thesis by (auto simp: demoGone_def Slot_Validate_iff slotBody_def slotOk_def bareStatus_def)
qed

lemma demoFile_inv: "slot_inv 6 (vd_tables demoFile)"
  using demoPool_valid demoGone_valid
  by (auto simp: demoFile_def slot_inv_def poolOk_def slotOk_def leaseFits_def inUse_def demoGone_sel demo_name emptySDB_def
      kget_kput demo_ids_slot split: if_splits)

lemma demoSchema_current:
  "Version demoSchema = Inr CurrentVersion" "name \<in> set requiredBuckets \<Longrightarrow> kget demoSchema name \<noteq> None"
  by (auto simp: demoSchema_def kget_writeVersion kget_createBuckets)

lemma demoFile_sel [simp]:
  "vd_schema demoFile = demoSchema" "sd_core (vd_tables demoFile) = emptyDB" "sd_packages (vd_tables demoFile) = kempty"
  "sd_summaries (vd_tables demoFile) = kempty" "sd_slotLeases (vd_tables demoFile) = kempty"
  "sd_pools (vd_tables demoFile) = kput ''pool-1'' (Json demoPool) kempty"
  "sd_slots (vd_tables demoFile) = kput ''pool-1-001'' (Json demoGone) kempty"
  "vd_sessionOps demoFile = kput ''slotop_1'' (Json demoGoneSession) kempty" "vd_sessionIndex demoFile = kempty"
  "vd_cursors demoFile = kempty"
  "credentialView demoFile = \<lparr>cd_db = emptyDB, cd_credentials = kempty, cd_audits = kempty\<rparr>"
  "jd_operations (jobView demoFile) = kput ''op_9'' (Json demoDeletion) kempty" "jd_idempotency (jobView demoFile) = kempty"
  "jd_audit (jobView demoFile) = kempty"
  "ed_operations (environmentView demoFile) = kempty" "ed_idempotency (environmentView demoFile) = kempty"
  "ed_audit (environmentView demoFile) = kempty"
  by (simp_all add: demoFile_def emptySDB_def demo_ids_slot demoGone_sel credentialView_def jobView_def environmentView_def
      putSlot_def putPool_def)

lemma demoFile_accepted: "validateDB demoFile = Inr ()"
proof -
  have pool: "validateJobPoolsTx (vd_tables demoFile) = Inr ()"
    using demoPool_valid by (simp add: validateJobPoolsTx_def forEachE_iff kget_kput demo_ids_slot klen_def)
  have slots: "validateSlotsTx (vd_tables demoFile) = Inr ()"
    using demoPool_valid demoGone_valid
    by (simp add: validateSlotsTx_def forEachE_iff kget_kput validateSlotEntry_def demoGone_sel inUse_def)
  have "TrimSpace ''op_9'' \<noteq> []" "TrimSpace ''pool-1'' \<noteq> []" "TrimSpace ''delete'' \<noteq> []" by (simp_all add: go_simps)
  then have jobs: "validateJobPoolControlTx (jobView demoFile) = Inr ()"
    by (simp add: validateJobPoolControlTx_def validateIndex_def forEachE_iff kget_kput demoDeletion_def
        JobPoolOperation_Validate_def zeroOperation_def)
  have session: "validateSessionEntry (vd_tables demoFile) ''slotop_1'' (Json demoGoneSession) = Inr ()"
    by (simp add: validateSessionEntry_def demoGoneSession_def startedOperation_def Let_def demoSessionStart_def demoGone_sel
        kget_kput)
  have sessions: "validateSlotSessionControlTx (sessionView demoFile) = Inr ()"
    using session by (simp add: validateSlotSessionControlTx_def validateIndex_def forEachE_iff kget_kput)
  have "validateTables demoFile = Inr ()"
    using pool slots jobs sessions
    by (simp add: validateTables_def Let_def validateAccountsTx_def validateRequestsTx_def validateIdempotencyTx_def
        validateLeasesTx_def validateQueueTx_def validateCredentialsTx_def validateNotificationsTx_def validateDeletionsTx_def
        validateMatrixSyncCursorTx_def validateEnvironmentSummariesTx_def validateEnvironmentPackagesTx_def
        validateEnvironmentOperationsTx_def validateIndex_def validateEventsTx_def forEachE_iff emptyDB_def)
  then show ?thesis using demoSchema_current by (simp add: validateDB_iff)
qed

theorem deleted_pool_fails_validation_witness:
  "validateDB demoFile = Inr () \<and>
   (\<exists>x d'. finalizeDeletedJobPool okJ 8 ''op_9'' ''pool-1'' 8 (jobView demoFile) = (Inr x, d') \<and>
      validateBackupFile (storeJobs d' demoFile) = Inl (RestoreErr ErrInvalidRestore))"
proof -
  have xs: "slotsForPoolTx (vd_tables demoFile) ''pool-1'' = Inr [demoGone]"
    using demoGone_valid by (simp add: slotsForPoolTx_def SortSlots_def go_simps demoGone_sel slotEntry_def)
  have names: "TrimSpace ''pool-1'' \<noteq> []" "TrimSpace ''delete'' \<noteq> []" "TrimSpace ''op_9'' \<noteq> []" by (simp_all add: go_simps)
  have "\<exists>x d'. finalizeTx ''op_9'' ''pool-1'' 8 (jobView demoFile) = Inr (x, d') \<and> jo_State x = JobPoolApplied \<and>
      kget (jd_operations d') ''op_9'' = Some (Json x)"
    using xs names auditID_nonblank
    by (simp add: finalizeTx_def demoDeletion_def getJSON_def terminalJobPoolOperation_def Let_def putJobPoolAuditTx_def
        JobPoolAuditEvent_Validate_def operationAudit_def demoGone_sel kget_kput)
  then obtain x d' where f: "finalizeTx ''op_9'' ''pool-1'' 8 (jobView demoFile) = Inr (x, d')" "jo_State x = JobPoolApplied"
    "kget (jd_operations d') ''op_9'' = Some (Json x)" by blast
  then have run: "finalizeDeletedJobPool okJ 8 ''op_9'' ''pool-1'' 8 (jobView demoFile) = (Inr x, d')"
    by (simp add: finalizeDeletedJobPool_def update_def okJ_def)
  have "d' \<noteq> jobView demoFile" using f(2,3) by (auto simp: kget_kput demoDeletion_def)
  moreover have "sso_PoolID demoGoneSession = ''pool-1''"
    by (simp add: demoGoneSession_def startedOperation_def Let_def demoGone_sel)
  ultimately show ?thesis
    using deleted_pool_fails_validation [OF demoFile_inv run, of "''slotop_1''" demoGoneSession] demoFile_accepted run
    by (auto simp: kget_kput)
qed

section \<open>What the passes accept\<close>

text \<open>
  C5. On every database that the operations of the store can build, all passes of \<open>validateDB\<close> over the
  tables of the store but two accept. The pass over the requests objects exactly to a request that was
  stored without having been submitted while its account is in use, and the pass over the leases exactly
  to a lease of an account that is neither starting nor logging in. Neither is ever built by the
  operations of the store the way the program calls them, where requests enter by a submission and leases
  by a claim, and the only event that it applies starts a session: along these runs all passes accept.
  The joint claim of a request with a slot is an operation on the slot tables and not part of them.
\<close>

theorem store_validation_exact:
  assumes "storeRun emptyDB d"
  shows "validateAccountsTx d = Inr () \<and> validateIdempotencyTx d = Inr () \<and> validateQueueTx d = Inr () \<and>
     validateNotificationsTx d = Inr () \<and> validateDeletionsTx d = Inr () \<and> validateEventsTx d = Inr () \<and>
     (validateRequestsTx d = Inr () \<longleftrightarrow>
       (\<forall>i q. kget (db_requests d) i = Some (Json q) \<longrightarrow> rq_State q = NoRequest \<longrightarrow> accountIn [NoRequest] d (rq_AccountID q))) \<and>
     (validateLeasesTx d = Inr () \<longleftrightarrow>
       (\<forall>a. kget (db_leases d) a \<noteq> None \<longrightarrow> accountIn [Starting, LoggingIn] d a)) \<and>
     (serviceRun emptyDB d \<longrightarrow> validateRequestsTx d = Inr () \<and> validateLeasesTx d = Inr ())"
proof -
  have inv: "store_inv d" by (rule storeRun_inv [OF assms emptyDB_inv])
  have links: "linked d" using storeRun_linked assms emptyDB_inv emptyDB_linked by blast
  have six: "validateAccountsTx d = Inr ()" "validateIdempotencyTx d = Inr ()" "validateQueueTx d = Inr ()"
    "validateNotificationsTx d = Inr ()" "validateDeletionsTx d = Inr ()" "validateEventsTx d = Inr ()"
    using inv links
    by (simp_all add: accounts_accepted idempotency_accepted queue_accepted notifications_accepted deletions_accepted events_accepted)
  have "started d \<and> held d" if "serviceRun emptyDB d"
    using serviceRun_orderly [OF that] emptyDB_inv emptyDB_linked emptyDB_orderly by (simp add: orderly_def)
  then have service: "serviceRun emptyDB d \<longrightarrow> validateRequestsTx d = Inr () \<and> validateLeasesTx d = Inr ()"
    using requests_exact [OF inv] leases_exact [OF inv links] by (auto simp: started_def)
  show ?thesis
    using six requests_exact [OF inv] leases_exact [OF inv links, unfolded held_def] service by blast
qed

lemma demo_serviceRun: "serviceRun emptyDB demoDB3"
proof (rule s_step [OF s_step [OF s_step [OF s_none s_create [OF demo_create]] s_submit [OF demo_submit]] s_claim [OF _ demo_claim]])
  show "0 < ca_now demoClaimArgs" by (simp add: demoClaimArgs_def)
qed

theorem store_validation_exact_witness:
  "validateAccountsTx demoDB3 = Inr () \<and> validateQueueTx demoDB3 = Inr () \<and> validateEventsTx demoDB3 = Inr () \<and>
   validateRequestsTx demoDB3 = Inr () \<and> validateLeasesTx demoDB3 = Inr () \<and> accountIn [Starting, LoggingIn] demoDB3 ''acct-1''"
proof -
  have "kget (db_leases demoDB3) ''acct-1'' \<noteq> None" by (simp add: demoDB3_def putLease_def)
  then show ?thesis using store_validation_exact [OF demo_run(3)] demo_serviceRun by blast
qed

end
