(* ===== verification/Spec2Isabelle.thy ===== *)
theory Spec2Isabelle
  imports RequestService SlotProps SlotFindings JobPoolProps LifecycleProps SlotSessionFindings QueueProps
    EnvironmentControlProps CredentialProps StoreAuditProps ValidateProps
begin

text \<open>
  A verification development of chuzi, a service that queues cloud-game login requests of several
  accounts and runs them one after another on a pool of execution slots.

  \<^bold>\<open>The program.\<close> A request enters through \<open>internal/request\<close> (rate limiter, service) and is stored by
  \<open>internal/store\<close>, a transactional key-value database, together with the account's event-sourced
  state (\<open>internal/account\<close>). A scheduler claims the oldest due request and, in one transaction, an
  execution slot (\<open>internal/slot\<close>, \<open>internal/store/slots.go\<close>, \<open>slot_claim.go\<close>); both claims are leases
  with a heartbeat and an expiry. Failures are retried by a backoff policy, terminal events are
  delivered through an outbox, accounts are removed by a staged deletion, and pools of slots are
  changed through revision-checked, idempotent operations (\<open>job_pool_control.go\<close>). A lifecycle
  reconciler (\<open>internal/slotlifecycle\<close>) moves the slots of a pool towards its target through a
  provisioner, and users start and stop the sessions of slots through durable operations
  (\<open>slot_session.go\<close>). Secrets of accounts are kept encrypted (\<open>internal/credential\<close>), and the connection
  to a slot's desktop is handed out through short-lived capabilities that the scheduler revokes.

  \<^bold>\<open>Theories and code.\<close>
  \<^item> \<open>Prelude\<close>: fallible computations (\<open>bindE\<close>, \<open>foldE\<close>), ordered key-value maps (\<open>kmap\<close>, with the
    locale of their laws), 64-bit words. \<open>GoLib\<close>, \<open>GoFormat\<close>, \<open>Sha256\<close>: what the code uses of Go's
    integers, times, strings, formatting and SHA-256. \<open>Errors\<close>: the sentinel errors of all packages.
  \<^item> \<open>EventMachine\<close>, \<open>LeaseContract\<close>: the locales of the two event-sourced machines (accounts and
    deletions) and of the two leases (accounts and slots); each is interpreted on the definitions of
    the code in the theories below.
  \<^item> \<open>AccountState\<close>, \<open>AccountRetry\<close>, \<open>AccountLease\<close>, \<open>AccountDeletion\<close>: internal/account/state.go,
    retry.go, lease.go and deletion.go.
  \<^item> \<open>Slot\<close>, \<open>Environment\<close>: internal/slot/slot.go, and the durable record of internal/environment.
  \<^item> \<open>StoreBase\<close>, \<open>StoreTx\<close>, \<open>StoreReads\<close>, \<open>StoreOps\<close>, \<open>StoreOutbox\<close>, \<open>StoreDeletion\<close>, \<open>StoreRebuild\<close>:
    the buckets and every transaction of internal/store/store.go, notification.go and deletion.go.
    A database is a record of buckets; a transaction is a function from a database to an error or a
    result with a new database, and \<open>update\<close> keeps the new one only when the commit succeeds.
    \<open>StoreInv\<close>, \<open>StoreSafe\<close>, \<open>StoreRuns\<close>, \<open>StoreFacts\<close>, \<open>StoreWork\<close>, \<open>StoreDemo\<close>: its invariant, that
    every operation keeps it, runs as a step relation, and a concrete run. \<open>StoreProps\<close>: C10, C11,
    C13 to C15, C17, C19, C20.
  \<^item> \<open>Observability\<close>: redaction, the event buffer and metric labels of internal/observability.
    \<open>RequestLimiter\<close>, \<open>RequestService\<close>: internal/request/limiter.go and service.go, the service over
    the locale of its store port, interpreted on the store.
  \<^item> \<open>SlotBase\<close>, \<open>SlotOps\<close>: internal/store/slots.go, slot_claim.go and environments.go. \<open>SlotNames\<close>,
    \<open>SlotInv\<close>, \<open>SlotSafe\<close>, \<open>SlotKeep\<close>, \<open>SlotLife\<close>, \<open>SlotRuns\<close>, \<open>SlotFacts\<close>, \<open>SlotTarget\<close>, \<open>SlotDemo\<close>: names
    of slots, the invariant of the slot tables and its preservation, runs, reference definitions of
    reconciliation and recovery, and a concrete run. \<open>SlotProps\<close>: C30 to C34.
  \<^item> \<open>JobPool\<close>: internal/store/job_pool_control.go. \<open>JobPoolFacts\<close>, \<open>JobPoolSlots\<close>, \<open>JobPoolRuns\<close>: what
    its transactions keep, what they do to slots, and runs. \<open>JobPoolProps\<close>: C36, C38, C39.
  \<^item> \<open>SlotLifecycle\<close>, \<open>LogicalSlots\<close>: internal/slotlifecycle/reconciler.go over a record of the
    provisioner's functions, and cmd/service/logical_slot_runtime.go, the logical provisioner and the
    loop over all pools. \<open>LifecycleRuns\<close>: a pass as a sequence of its own steps and of calls of the
    provisioner. \<open>LifecycleFacts\<close>: what passes keep, with other operations interleaved at the calls.
    \<open>LifecycleLogical\<close>: passes of the logical provisioner. \<open>LifecycleProps\<close>: C9 and C26.
  \<^item> \<open>SlotSession\<close>: internal/store/slot_session.go. \<open>SlotSessionFacts\<close>: how its transactions move
    operations. \<open>SlotSessionSlots\<close>: how they write slots, and the calls as a step relation.
    \<open>SlotSessionProps\<close>: C23, C24, C29. \<open>SlotSessionFindings\<close>: behaviours that differ from documents.
  \<^item> \<open>Queue\<close>: internal/queue/queue.go, the scheduler, as actions on the store and a world of its
    runner, revoker, stopper, clock and sink. \<open>QueueFacts\<close>: a pass as a run of the store.
    \<open>QueueOutcomes\<close>: what a pass reports against what is stored. \<open>QueueProps\<close>: C21, C28, C35 and a
    concrete pass.
  \<^item> \<open>EnvironmentControl\<close>: internal/store/environment_control.go, operations on packages and their gates.
    \<open>EnvironmentControlProps\<close>: its invariant along every run, C2, C4 and C18.
  \<^item> \<open>AesGcm\<close>: what internal/credential uses of Go's AES and GCM. \<open>RdpCapability\<close>: rdp_capability.go of
    internal/credential, \<open>RdpProps\<close>: its runs and C7. \<open>Credential\<close>: credential.go, inject.go and the
    static keyring of keyring.go, over a record of the backend's functions. \<open>CredentialStore\<close>:
    internal/store/credential.go. \<open>CredentialFacts\<close>: the locale of the backend and what the service does
    over it. \<open>CredentialProps\<close>: the store as the backend, C12 and C27.
  \<^item> \<open>StoreAudit\<close>: internal/store/audit.go, the operators' view of all audits, and matrix_sync.go.
    \<open>StoreAuditProps\<close>: C37.
  \<^item> \<open>Migrations\<close>: migrations/migrations.go, on a map from bucket names to raw buckets. \<open>MigrationProps\<close>:
    C40. \<open>Validate\<close>: internal/store/validate.go, on a record of all buckets of a file.
    \<open>StoreValidation\<close>: the links between tables that every operation of the store keeps, and what
    the passes accept along its runs. \<open>ValidateProps\<close>: C5 and C16.
  \<^item> \<open>SlotFindings\<close>: behaviours of the slot tables that differ from what comments or other code promise.

  \<^bold>\<open>What is shown.\<close>
  \<^item> Accounts (C1, C3, C6, C8): \<open>Apply\<close> keeps the full replay check of \<open>Validate\<close>; redelivered
    events count once; as lemmas, \<open>ApplyDeletion\<close> keeps its check too, a valid snapshot explains its state by allowed
    transitions and every reachable account takes only allowed steps; the backoff loop is a capped power of two and does not overflow. Lease tenures do not overlap; deletions reach
    their checkpoints in order, undo none and resume at the first one that is missing.
  \<^item> Store (C10, C11, C13 to C15, C17, C19, C20): every run from the empty database keeps the tables consistent; events on
    the database refine the account machine; as a lemma, an account has one active request; claims are first in,
    first out and bounded; submissions are permanent and idempotent; completion needs the
    stored live lease, and, as a lemma, so does a failure; the queue index can always be rebuilt; as a lemma, the bounded outbox scan equals sorting;
    outbox claims exclude each other until they expire or the claimant gives them back, whatever runs meanwhile;
    from a deletion on no run brings a new request of the account. As a lemma: the store accepts what
    the machine accepts (\<open>ApplyEvent_accepts\<close>).
  \<^item> Observability and requests (C22, C25): sanitized events carry no raw identifiers; the
    limiter admits at most its limit in every window. As lemmas: submissions and cancellations are
    durable or change nothing, the buffer is a window, sample keys are decodable, a rollback restores
    the limiter, and only new submissions are charged.
  \<^item> Scheduler (C21, C28, C35): a pass only runs operations of the store, in the order of time, so it
    keeps the tables consistent whatever happens while its session runs; what it reports is stored;
    and a slot lease that expired goes only after its agent was stopped.
  \<^item> Slots (C30 to C34) and pools (C36, C38, C39): consistent slot tables along every run, protected slot
    leases, the atomic joint claim, reconciliation to a target, fenced recovery (as a lemma, exact counters);
    exactly-once pool mutations with an exact answer to every other call under their key, a rollback that
    undoes, safe deletion.
  \<^item> Lifecycle (C9, C26): as a lemma, a pass keeps the tables consistent whatever runs during its calls; it
    respects leases, the intent to stop and the quarantine of wanted slots, and with the logical
    provisioner one pass reaches the target. A quarantined surplus slot is deleted, against the documents
    (\<open>quarantined_surplus_deleted\<close>).
  \<^item> Sessions (C23, C24, C29): session operations keep the slot tables consistent along every run, a
    start takes effect once, and a stopped session does not come back.
  \<^item> Environment packages (C2, C4, C18): a mutation is recorded once, the recovery after a crash closes
    what was open and nothing else, and a gate can make a package ready only when every check passed.
  \<^item> Credentials (C7, C12, C27): RDP material is handed out only as it was authorized and not revoked; the
    credential service over the store is a map from accounts to secrets; records only move forward and
    audits are kept, however its calls are interleaved.
  \<^item> Audit view (C37): a bounded scan that always succeeds on consistent tables, equals the first page of
    the sorted reference and shows no raw identifiers.

  \<^item> Migrations and validation (C5, C16, C40): migrations reach the current schema and lose nothing; what
    the store builds is accepted by the validation of its tables, up to two exact exceptions (the runs
    without them leave out the joint claim of a request with a slot); the
    deletion of a pool whose slots had sessions leaves a file that no validation accepts.

  \<^bold>\<open>Parameters and assumptions.\<close> The database engine is outside the sources: a transaction runs alone and
  takes effect as a whole or not at all, and whether a commit succeeds is an argument (a function of the
  new database), so every statement holds for any pattern of failing commits. A stored value is the
  record that was written or bytes that do not decode. \<open>time.Now\<close> is an argument; runs of the slot
  tables have a clock that does not run backwards. The runs of the slot tables contain the operations
  of slots.go and slot_claim.go as the rest of the program uses them: pools whose names and fields fit
  into those of their slots (\<open>plainPool\<close>), \<open>UpsertSlot\<close> only to retarget a slot that is not in use,
  and \<open>QuarantineSlot\<close> only for slots that were provisioned; what happens otherwise is shown in
  \<open>SlotFindings\<close>. The rollback of a pool operation is not a step of these runs: lemma
  \<open>rollback_reopens_leased\<close> of \<open>JobPoolProps\<close> shows that it can break their invariant. The provisioner
  and the capability revoker of the lifecycle reconciler are records of functions on a world of their
  own; other operations of the store may run during their calls (\<open>fairInterfaces\<close>) and between the
  passes, not inside a transaction. The scheduler's interfaces are such functions too
  (\<open>fairScheduler\<close>): while its runner runs, any operations of the store may run; its other calls leave
  the store alone, because a pass reads the time once for all its work before the run. For credentials
  the keyring, the contexts, the random bytes and the callbacks are parameters; what is assumed of them
  is that the keyring finds the key it encrypts with (\<open>keepsCurrent\<close>, shown for static keyrings) and
  that the random source fills its buffer (\<open>fullNonce\<close>). No secrecy of AES-GCM is assumed or shown. The bucket iterations of the session reconciliation and of
  the package recovery, which write the bucket they iterate, visit the entries that they started with.

  \<^bold>\<open>Bounds.\<close> Loops are structural recursions or have a termination proof. The searches for an unused
  operation or audit name (\<open>unusedName\<close>) have as much fuel as the bucket has keys, and
  \<open>unusedName_fresh\<close> shows by counting that they succeed. Revisions and generations are 64-bit words,
  attempts and durations integers with the code's own overflow checks.

  \<^bold>\<open>Not modelled.\<close> Opening, locking, copying and renaming the database file; goroutines and
  timers; the branches of the scheduler for stores without slots; wiping of secrets in memory
  and the keyring of environment variables; metric values (floats), HTTP and JSON
  framing; the launcher, Windows provisioning, agents, the Matrix client, the browser and plugin
  processes, and the command-line entry points, which are calls of the operating system or of other
  services throughout.
\<close>

end
